(* ===== verification/Prelude.thy ===== *)
theory Prelude
  imports Main
begin

text \<open>
  Shared vocabulary of the development: the errors the JavaScript sources throw, the result type
  of fallible operations, the insertion-ordered \<open>Map\<close> of the language as an association list with
  the contract its clients rely on, the string operations the sources use, and a small theory of
  invariants of step functions that every stateful component instantiates.
\<close>

section \<open>Errors and results\<close>

text \<open>A thrown value, by its class and message. \<open>OtherError\<close> is a plain \<open>Error\<close>.\<close>

datatype js_error =
    TypeError string
  | InvalidStateError string
  | UnsupportedError string
  | OtherError string

type_synonym 'a result = "js_error + 'a"

text \<open>What a \<open>catch\<close> clause receives: an \<open>Error\<close> or any other value, here by its string form.\<close>

datatype thrown = ThrownError js_error | ThrownValue string

fun toError :: "thrown \<Rightarrow> js_error" where
  "toError (ThrownError e) = e"
| "toError (ThrownValue s) = OtherError s"

definition bindr :: "'a result \<Rightarrow> ('a \<Rightarrow> 'b result) \<Rightarrow> 'b result" where
  "bindr r f = (case r of Inl e \<Rightarrow> Inl e | Inr x \<Rightarrow> f x)"

fun mapr :: "('a \<Rightarrow> 'b result) \<Rightarrow> 'a list \<Rightarrow> 'b list result" where
  "mapr f [] = Inr []"
| "mapr f (x # xs) = bindr (f x) (\<lambda>y. bindr (mapr f xs) (\<lambda>ys. Inr (y # ys)))"

definition is_ok :: "'a result \<Rightarrow> bool" where
  "is_ok r = (case r of Inl _ \<Rightarrow> False | Inr _ \<Rightarrow> True)"

lemma bindr_Inr [simp]: "bindr (Inr x) f = f x"
  by (simp add: bindr_def)

lemma bindr_Inl [simp]: "bindr (Inl e) f = Inl e"
  by (simp add: bindr_def)

lemma bindr_eq_Inr: "bindr r f = Inr y \<longleftrightarrow> (\<exists>x. r = Inr x \<and> f x = Inr y)"
  by (cases r) auto

lemma is_ok_simps [simp]: "is_ok (Inr x)" "\<not> is_ok (Inl e)"
  by (simp_all add: is_ok_def)

lemma mapr_Inr_length: "mapr f xs = Inr ys \<Longrightarrow> length ys = length xs"
  by (induction xs arbitrary: ys) (auto simp: bindr_eq_Inr)

lemma mapr_Inr_nth: "mapr f xs = Inr ys \<Longrightarrow> i < length xs \<Longrightarrow> f (xs ! i) = Inr (ys ! i)"
  by (induction xs arbitrary: ys i) (auto simp: bindr_eq_Inr nth_Cons split: nat.splits)

lemma mapr_Inr_iff: "(\<exists>ys. mapr f xs = Inr ys) \<longleftrightarrow> (\<forall>x \<in> set xs. \<exists>y. f x = Inr y)"
  by (induction xs) (auto simp: bindr_eq_Inr)

section \<open>The insertion-ordered Map\<close>

text \<open>
  A JavaScript \<open>Map\<close> iterates in insertion order, \<open>set\<close> on an existing key keeps its place, and
  \<open>delete\<close> closes the gap. It is an association list with distinct keys.
\<close>

type_synonym ('k, 'v) jsmap = "('k \<times> 'v) list"

fun jm_set :: "'k \<Rightarrow> 'v \<Rightarrow> ('k, 'v) jsmap \<Rightarrow> ('k, 'v) jsmap" where
  "jm_set k v [] = [(k, v)]"
| "jm_set k v ((a, b) # m) = (if a = k then (k, v) # m else (a, b) # jm_set k v m)"

definition jm_delete :: "'k \<Rightarrow> ('k, 'v) jsmap \<Rightarrow> ('k, 'v) jsmap" where
  "jm_delete k m = filter (\<lambda>(a, _). a \<noteq> k) m"

definition jm_get :: "('k, 'v) jsmap \<Rightarrow> 'k \<Rightarrow> 'v option" where
  "jm_get m k = map_of m k"

definition jm_keys :: "('k, 'v) jsmap \<Rightarrow> 'k list" where
  "jm_keys m = map fst m"

definition jm_values :: "('k, 'v) jsmap \<Rightarrow> 'v list" where
  "jm_values m = map snd m"

definition jm_wf :: "('k, 'v) jsmap \<Rightarrow> bool" where
  "jm_wf m \<longleftrightarrow> distinct (map fst m)"

text \<open>What the clients of a \<open>Map\<close> rely on: lookups after every update, and the key order.\<close>

locale ordered_map =
  fixes empty :: 'm
    and put :: "'k \<Rightarrow> 'v \<Rightarrow> 'm \<Rightarrow> 'm"
    and remove :: "'k \<Rightarrow> 'm \<Rightarrow> 'm"
    and get :: "'m \<Rightarrow> 'k \<Rightarrow> 'v option"
    and keys :: "'m \<Rightarrow> 'k list"
    and wf :: "'m \<Rightarrow> bool"
  assumes get_empty: "get empty k = None"
    and get_put: "get (put k v m) k' = (if k' = k then Some v else get m k')"
    and get_remove: "get (remove k m) k' = (if k' = k then None else get m k')"
    and keys_put: "keys (put k v m) = (if k \<in> set (keys m) then keys m else keys m @ [k])"
    and keys_remove: "keys (remove k m) = filter (\<lambda>a. a \<noteq> k) (keys m)"
    and keys_get: "k \<in> set (keys m) \<longleftrightarrow> get m k \<noteq> None"
    and wf_empty: "wf empty"
    and wf_put: "wf m \<Longrightarrow> wf (put k v m)"
    and wf_remove: "wf m \<Longrightarrow> wf (remove k m)"
    and wf_distinct: "wf m \<Longrightarrow> distinct (keys m)"
begin

lemma put_put_get: "get (put k v (put k w m)) = get (put k v m)"
  by (rule ext) (simp add: get_put)

lemma remove_put_get: "get (remove k (put k v m)) = get (remove k m)"
  by (rule ext) (simp add: get_put get_remove)

lemma keys_put_twice: "keys (put k v (put k w m)) = keys (put k w m)"
  by (simp add: keys_put)

lemma length_keys_put: "length (keys (put k v m)) = length (keys m) + (if get m k = None then 1 else 0)"
  by (auto simp: keys_put keys_get)

lemma wf_fold_put: "wf m \<Longrightarrow> wf (foldl (\<lambda>m kv. put (fst kv) (snd kv) m) m kvs)"
  by (induction kvs arbitrary: m) (auto intro: wf_put)

end

lemma map_fst_jm_set: "map fst (jm_set k v m) = (if k \<in> fst ` set m then map fst m else map fst m @ [k])"
  by (induction m) force+

lemma map_of_jm_set: "map_of (jm_set k v m) k' = (if k' = k then Some v else map_of m k')"
  by (induction m) auto

lemma map_of_jm_delete: "map_of (jm_delete k m) k' = (if k' = k then None else map_of m k')"
  by (induction m) (auto simp: jm_delete_def)

interpretation jm: ordered_map "[]" jm_set jm_delete jm_get jm_keys jm_wf
proof unfold_locales
  show "jm_keys (jm_delete k m) = filter (\<lambda>a. a \<noteq> k) (jm_keys m)" for k and m :: "('a, 'b) jsmap"
    by (induction m) (auto simp: jm_delete_def jm_keys_def)
  show "jm_wf m \<Longrightarrow> jm_wf (jm_delete k m)" for k and m :: "('a, 'b) jsmap"
    by (induction m) (auto simp: jm_delete_def jm_wf_def)
  show "k \<in> set (jm_keys m) \<longleftrightarrow> jm_get m k \<noteq> None" for k and m :: "('a, 'b) jsmap"
    by (simp add: jm_keys_def jm_get_def map_of_eq_None_iff)
qed (auto simp: jm_get_def jm_keys_def jm_wf_def map_of_jm_set map_of_jm_delete map_fst_jm_set)

lemma jm_set_new: "k \<notin> set (jm_keys m) \<Longrightarrow> jm_set k v m = m @ [(k, v)]"
  by (induction m) (auto simp: jm_keys_def)

lemma jm_delete_head: "jm_wf ((i, t) # m) \<Longrightarrow> jm_delete i ((i, t) # m) = m"
  by (force simp: jm_wf_def jm_delete_def filter_id_conv)

lemma jm_delete_gone: "k \<notin> set (jm_keys m) \<Longrightarrow> jm_delete k m = m"
  by (force simp: jm_delete_def jm_keys_def filter_id_conv)

lemma jm_get_gone: "k \<notin> set (jm_keys m) \<Longrightarrow> jm_get m k = None"
  by (simp add: jm_get_def jm_keys_def map_of_eq_None_iff)

section \<open>Strings\<close>

definition starts_with :: "string \<Rightarrow> string \<Rightarrow> bool" where
  "starts_with p s \<longleftrightarrow> take (length p) s = p"

definition strip_suffix :: "string \<Rightarrow> string \<Rightarrow> string" where
  "strip_suffix suf s =
     (if length suf \<le> length s \<and> drop (length s - length suf) s = suf
      then take (length s - length suf) s else s)"

lemma starts_with_append [simp]: "starts_with p (p @ s)"
  by (simp add: starts_with_def)

lemma strip_suffix_append [simp]: "strip_suffix suf (s @ suf) = s"
  by (simp add: strip_suffix_def)

text \<open>The decimal digits of a natural number.\<close>

fun digits_from :: "nat \<Rightarrow> nat \<Rightarrow> string" where
  "digits_from 0 n = []"
| "digits_from (Suc f) n =
     (if n < 10 then [char_of (48 + n)] else digits_from f (n div 10) @ [char_of (48 + n mod 10)])"

definition nat_str :: "nat \<Rightarrow> string" where
  "nat_str n = digits_from (Suc n) n"

fun join :: "string \<Rightarrow> string list \<Rightarrow> string" where
  "join sep [] = []"
| "join sep [s] = s"
| "join sep (s # t # ss) = s @ sep @ join sep (t # ss)"

section \<open>Encoding and decoding\<close>

text \<open>A decoder of untyped values and the encoder of its results: what it accepts is valid, and
  every valid value comes back.\<close>

locale codec =
  fixes encode :: "'a \<Rightarrow> 'v"
    and decode :: "'v \<Rightarrow> 'a result"
    and valid :: "'a \<Rightarrow> bool"
  assumes decode_valid: "decode v = Inr x \<Longrightarrow> valid x"
    and decode_encode: "valid x \<Longrightarrow> decode (encode x) = Inr x"
begin

lemma decode_stable: "decode v = Inr x \<Longrightarrow> decode (encode x) = Inr x"
  by (rule decode_encode [OF decode_valid])

lemma encode_inj: "valid x \<Longrightarrow> valid y \<Longrightarrow> encode x = encode y \<Longrightarrow> x = y"
  using decode_encode [of x] decode_encode [of y] by (metis sum.inject(2))

lemma decode_encode_iff: "decode (encode x) = Inr x \<longleftrightarrow> valid x"
  using decode_valid [of "encode x"] decode_encode [of x] by blast

end

section \<open>Invariants of step functions\<close>

text \<open>A component is a step function over its events; what each step keeps for the events that may
  happen, every run of such events keeps.\<close>

locale guarded_invariant =
  fixes step :: "'s \<Rightarrow> 'e \<Rightarrow> 's"
    and inv :: "'s \<Rightarrow> bool"
    and allowed :: "'e \<Rightarrow> bool"
  assumes guarded_step: "inv s \<Longrightarrow> allowed e \<Longrightarrow> inv (step s e)"
begin

lemma guarded_run: "inv s \<Longrightarrow> \<forall>e \<in> set es. allowed e \<Longrightarrow> inv (foldl step s es)"
  by (induction es arbitrary: s) (auto intro: guarded_step)

end

text \<open>When every event may happen.\<close>

locale step_invariant =
  fixes step :: "'s \<Rightarrow> 'e \<Rightarrow> 's"
    and inv :: "'s \<Rightarrow> bool"
  assumes step_inv: "inv s \<Longrightarrow> inv (step s e)"

sublocale step_invariant \<subseteq> guarded_invariant step inv "\<lambda>_. True"
  by unfold_locales (rule step_inv)

context step_invariant
begin

lemma run_inv: "inv s \<Longrightarrow> inv (foldl step s es)"
  by (rule guarded_run) simp_all

lemma run_prefix_inv: "inv s \<Longrightarrow> inv (foldl step s (take n es))"
  by (rule run_inv)

end

text \<open>When what may happen depends on the state: the events of a run fit if each fits the state in which it
  happens.\<close>

fun all_fit :: "('s \<Rightarrow> 'e \<Rightarrow> 's) \<Rightarrow> ('s \<Rightarrow> 'e \<Rightarrow> bool) \<Rightarrow> 's \<Rightarrow> 'e list \<Rightarrow> bool" where
  "all_fit step fits s [] \<longleftrightarrow> True"
| "all_fit step fits s (e # es) \<longleftrightarrow> fits s e \<and> all_fit step fits (step s e) es"

locale fitting_invariant =
  fixes step :: "'s \<Rightarrow> 'e \<Rightarrow> 's"
    and inv :: "'s \<Rightarrow> bool"
    and fits :: "'s \<Rightarrow> 'e \<Rightarrow> bool"
  assumes fitting_step: "inv s \<Longrightarrow> fits s e \<Longrightarrow> inv (step s e)"
begin

lemma fitting_run: "inv s \<Longrightarrow> all_fit step fits s es \<Longrightarrow> inv (foldl step s es)"
  by (induction es arbitrary: s) (auto intro: fitting_step)

end

sublocale guarded_invariant \<subseteq> fitting: fitting_invariant step inv "\<lambda>_. allowed"
  by unfold_locales (rule guarded_step)

end
