(* ===== verification/JsNumber.thy ===== *)
theory JsNumber
  imports Complex_Main "HOL-Library.Log_Nat" Prelude
begin

text \<open>
  The number type of JavaScript: IEEE 754 binary64 with round-to-nearest, ties-to-even. A finite
  value is the rational it denotes; every arithmetic result is rounded by \<open>js_num\<close> to 53 bits of
  precision, with gradual underflow at \<open>2 powi (-1074)\<close> and overflow to an infinity at
  \<open>2 powi 1024\<close>. The two zeros are one value: no operation modelled here distinguishes them.
  The operators follow the ECMAScript rules for \<open>NaN\<close> and the infinities, and the comparisons
  are false on \<open>NaN\<close>. The lemmas show that rounding is monotone, odd, idempotent, exact on
  integers up to \<open>2 ^ 53\<close> and within half a unit in the last place.
\<close>

section \<open>Values and rounding\<close>

datatype number = NaN | NegInf | PosInf | Fin rat

definition ilog2 :: "rat \<Rightarrow> int" where
  "ilog2 x =
     (let (p, q) = quotient_of x; d = bitlen p - bitlen q
      in if x < 2 powi d then d - 1 else d)"

definition round_even :: "rat \<Rightarrow> int" where
  "round_even x =
     (let f = \<lfloor>x\<rfloor>; d = x - of_int f
      in if d < 1 / 2 \<or> (d = 1 / 2 \<and> even f) then f else f + 1)"

definition ulp_exp :: "rat \<Rightarrow> int" where
  "ulp_exp x = max (ilog2 \<bar>x\<bar> - 52) (-1074)"

definition round64 :: "rat \<Rightarrow> rat" where
  "round64 x =
     (if x = 0 then 0
      else let u = 2 powi (ulp_exp x) in of_int (round_even (x / u)) * u)"

definition js_num :: "rat \<Rightarrow> number" where
  "js_num x =
     (let r = round64 x
      in if r \<noteq> 0 \<and> 1024 \<le> ilog2 \<bar>r\<bar> then (if 0 < r then PosInf else NegInf) else Fin r)"

section \<open>Operators\<close>

fun is_finite :: "number \<Rightarrow> bool" where
  "is_finite (Fin _) = True"
| "is_finite _ = False"

fun js_lt :: "number \<Rightarrow> number \<Rightarrow> bool" where
  "js_lt NaN _ = False"
| "js_lt _ NaN = False"
| "js_lt (Fin x) (Fin y) = (x < y)"
| "js_lt NegInf y = (y \<noteq> NegInf)"
| "js_lt x PosInf = (x \<noteq> PosInf)"
| "js_lt _ _ = False"

definition js_eq :: "number \<Rightarrow> number \<Rightarrow> bool" where
  "js_eq x y \<longleftrightarrow> x \<noteq> NaN \<and> x = y"

definition js_le :: "number \<Rightarrow> number \<Rightarrow> bool" where
  "js_le x y \<longleftrightarrow> js_lt x y \<or> js_eq x y"

abbreviation js_gt :: "number \<Rightarrow> number \<Rightarrow> bool" where
  "js_gt x y \<equiv> js_lt y x"

abbreviation js_ge :: "number \<Rightarrow> number \<Rightarrow> bool" where
  "js_ge x y \<equiv> js_le y x"

definition js_max :: "number \<Rightarrow> number \<Rightarrow> number" where
  "js_max x y = (if x = NaN \<or> y = NaN then NaN else if js_lt x y then y else x)"

definition js_min :: "number \<Rightarrow> number \<Rightarrow> number" where
  "js_min x y = (if x = NaN \<or> y = NaN then NaN else if js_lt y x then y else x)"

fun js_neg :: "number \<Rightarrow> number" where
  "js_neg NaN = NaN"
| "js_neg NegInf = PosInf"
| "js_neg PosInf = NegInf"
| "js_neg (Fin x) = Fin (- x)"

fun js_add :: "number \<Rightarrow> number \<Rightarrow> number" where
  "js_add (Fin x) (Fin y) = js_num (x + y)"
| "js_add NaN _ = NaN"
| "js_add _ NaN = NaN"
| "js_add PosInf y = (if y = NegInf then NaN else PosInf)"
| "js_add NegInf y = (if y = PosInf then NaN else NegInf)"
| "js_add (Fin _) y = y"

definition js_sub :: "number \<Rightarrow> number \<Rightarrow> number" where
  "js_sub x y = js_add x (js_neg y)"

definition js_sgn :: "number \<Rightarrow> int" where
  "js_sgn x = (if js_lt (Fin 0) x then 1 else if js_lt x (Fin 0) then - 1 else 0)"

definition js_inf :: "int \<Rightarrow> number" where
  "js_inf s = (if s = 0 then NaN else if 0 < s then PosInf else NegInf)"

definition js_mul :: "number \<Rightarrow> number \<Rightarrow> number" where
  "js_mul x y =
     (case (x, y) of
        (Fin a, Fin b) \<Rightarrow> js_num (a * b)
      | _ \<Rightarrow> if x = NaN \<or> y = NaN then NaN else js_inf (js_sgn x * js_sgn y))"

definition js_div :: "number \<Rightarrow> number \<Rightarrow> number" where
  "js_div x y =
     (case (x, y) of
        (Fin a, Fin b) \<Rightarrow> if b = 0 then js_inf (js_sgn x) else js_num (a / b)
      | (Fin a, _) \<Rightarrow> if y = NaN then NaN else Fin 0
      | (_, Fin b) \<Rightarrow> if x = NaN then NaN else js_inf (js_sgn x * (if b < 0 then - 1 else 1))
      | _ \<Rightarrow> NaN)"

fun js_floor :: "number \<Rightarrow> number" where
  "js_floor (Fin x) = Fin (of_int \<lfloor>x\<rfloor>)"
| "js_floor x = x"

fun js_round :: "number \<Rightarrow> number" where
  "js_round (Fin x) = Fin (of_int \<lfloor>x + 1 / 2\<rfloor>)"
| "js_round x = x"

fun is_integer :: "number \<Rightarrow> bool" where
  "is_integer (Fin x) = (of_int \<lfloor>x\<rfloor> = x)"
| "is_integer _ = False"

definition is_safe_integer :: "number \<Rightarrow> bool" where
  "is_safe_integer x \<longleftrightarrow>
     is_integer x \<and> js_le x (Fin 9007199254740991) \<and> js_le (Fin (- 9007199254740991)) x"

fun is_double :: "number \<Rightarrow> bool" where
  "is_double (Fin x) = (round64 x = x \<and> (x = 0 \<or> ilog2 \<bar>x\<bar> < 1024))"
| "is_double _ = True"

section \<open>Rounding lemmas\<close>

lemma pow2_pos [simp]: "0 < (2::rat) powi e"
  by simp

lemma bitlen_powi_bounds:
  assumes "0 < p"
  shows "(2::rat) powi (bitlen p - 1) \<le> of_int p \<and> of_int p < (2::rat) powi (bitlen p)"
proof -
  from assms have b: "2 ^ nat (bitlen p - 1) \<le> p" "p < 2 ^ nat (bitlen p)" and pos: "0 < bitlen p"
    using bitlen_bounds [of p] by (auto simp: bitlen_alt_def)
  have "(2::rat) powi (bitlen p - 1) = of_int (2 ^ nat (bitlen p - 1))"
    "(2::rat) powi (bitlen p) = of_int (2 ^ nat (bitlen p))"
    using pos by (simp_all add: power_int_def)
  with b show ?thesis by (simp only: of_int_le_iff of_int_less_iff)
qed

lemma ilog2_bounds:
  assumes "0 < x"
  shows "2 powi (ilog2 x) \<le> x" and "x < 2 powi (ilog2 x + 1)"
proof -
  obtain p q where pq: "quotient_of x = (p, q)" by force
  then have q: "0 < q" and x: "x = of_int p / of_int q"
    using quotient_of_denom_pos quotient_of_div by blast+
  with assms have p: "0 < p"
    by (simp add: zero_less_divide_iff)
  let ?d = "bitlen p - bitlen q"
  note bp = bitlen_powi_bounds [OF p] and bq = bitlen_powi_bounds [OF q]
  have "x \<le> of_int p / 2 powi (bitlen q - 1)"
    unfolding x by (rule divide_left_mono) (use p q bq in auto)
  also have "\<dots> < 2 powi (bitlen p) / 2 powi (bitlen q - 1)"
    by (rule divide_strict_right_mono) (use bp in auto)
  also have "\<dots> = 2 powi (?d + 1)"
    by (simp add: power_int_diff [symmetric] algebra_simps)
  finally have up: "x < 2 powi (?d + 1)" .
  have "2 powi (?d - 1) = (2::rat) powi (bitlen p - 1) / 2 powi (bitlen q)"
    by (simp add: power_int_diff [symmetric] algebra_simps)
  also have "\<dots> \<le> of_int p / 2 powi (bitlen q)"
    by (rule divide_right_mono) (use bp in auto)
  also have "\<dots> \<le> x"
    unfolding x by (rule divide_left_mono) (use p q bq in auto)
  finally have lo: "2 powi (?d - 1) \<le> x" .
  from up lo pq show "2 powi (ilog2 x) \<le> x" and "x < 2 powi (ilog2 x + 1)"
    by (auto simp: ilog2_def Let_def)
qed

lemma ilog2_ge: "0 < x \<Longrightarrow> 2 powi e \<le> x \<Longrightarrow> e \<le> ilog2 x"
proof (rule ccontr)
  assume x: "0 < x" "2 powi e \<le> x" and "\<not> e \<le> ilog2 x"
  then have "(2::rat) powi (ilog2 x + 1) \<le> 2 powi e"
    by (intro power_int_increasing) auto
  with x ilog2_bounds [OF x(1)] show False by simp
qed

lemma ilog2_less: "0 < x \<Longrightarrow> x < 2 powi e \<Longrightarrow> ilog2 x < e"
proof (rule ccontr)
  assume x: "0 < x" "x < 2 powi e" and "\<not> ilog2 x < e"
  then have "(2::rat) powi e \<le> 2 powi (ilog2 x)"
    by (intro power_int_increasing) auto
  with x ilog2_bounds [OF x(1)] show False by simp
qed

lemma ilog2_mono: "0 < x \<Longrightarrow> x \<le> y \<Longrightarrow> ilog2 x \<le> ilog2 y"
  using ilog2_bounds(1) [of x] by (intro ilog2_ge) auto

lemma ulp_exp_mono: "0 < x \<Longrightarrow> x \<le> y \<Longrightarrow> ulp_exp x \<le> ulp_exp y"
  using ilog2_mono [of x y] by (auto simp: ulp_exp_def)

lemma round_even_of_int [simp]: "round_even (of_int n) = n"
  by (simp add: round_even_def)

lemma round_even_mono: "x \<le> y \<Longrightarrow> round_even x \<le> round_even y"
proof -
  assume xy: "x \<le> y"
  then have f: "\<lfloor>x\<rfloor> \<le> \<lfloor>y\<rfloor>" by (rule floor_mono)
  show ?thesis
  proof (cases "\<lfloor>x\<rfloor> = \<lfloor>y\<rfloor>")
    case True
    with xy show ?thesis by (auto simp: round_even_def Let_def)
  next
    case False
    with f show ?thesis by (auto simp: round_even_def Let_def)
  qed
qed

lemma round_even_err: "\<bar>of_int (round_even x) - x\<bar> \<le> 1 / 2"
  using floor_correct [of x] by (auto simp: round_even_def Let_def abs_le_iff; linarith)

lemma round_even_minus: "round_even (- x) = - round_even x"
proof (cases "x \<in> \<int>")
  case True
  then obtain n where "x = of_int n" by (auto elim: Ints_cases)
  then have "round_even x = n" and "round_even (- x) = round_even (of_int (- n))" by simp_all
  then show ?thesis by (simp only: round_even_of_int)
next
  case False
  then have "\<lfloor>- x\<rfloor> = - \<lfloor>x\<rfloor> - 1"
    by (simp add: floor_minus ceiling_altdef) (metis Ints_of_int)
  then show ?thesis by (auto simp: round_even_def Let_def)
qed

lemma round64_0 [simp]: "round64 0 = 0"
  by (simp add: round64_def)

lemma ulp_exp_minus [simp]: "ulp_exp (- x) = ulp_exp x"
  by (simp add: ulp_exp_def)

lemma round64_minus: "round64 (- x) = - round64 x"
  by (simp add: round64_def Let_def round_even_minus)

lemma powi_int_diff: "e \<le> d \<Longrightarrow> (2::rat) powi d = of_int (2 ^ nat (d - e)) * 2 powi e"
proof -
  assume "e \<le> d"
  then have "(2::rat) powi (d - e) = of_int (2 ^ nat (d - e))" by (simp add: power_int_def)
  moreover have "(2::rat) powi d = 2 powi (d - e) * 2 powi e"
    by (simp add: power_int_add [symmetric])
  ultimately show ?thesis by simp
qed

text \<open>A value on the grid of spacing \<open>2 powi e\<close> bounds the rounding of whatever it bounds.\<close>

lemma round_grid_le:
  assumes "x \<le> of_int n * 2 powi e"
  shows "of_int (round_even (x / 2 powi e)) * 2 powi e \<le> of_int n * (2::rat) powi e"
proof -
  from assms have "x / 2 powi e \<le> of_int n" by (simp add: pos_divide_le_eq)
  then have "round_even (x / 2 powi e) \<le> n"
    using round_even_mono round_even_of_int by metis
  then show ?thesis by (intro mult_right_mono) auto
qed

lemma round_grid_ge:
  assumes "of_int n * 2 powi e \<le> x"
  shows "of_int n * (2::rat) powi e \<le> of_int (round_even (x / 2 powi e)) * 2 powi e"
proof -
  from assms have "of_int n \<le> x / 2 powi e" by (simp add: pos_le_divide_eq)
  then have "n \<le> round_even (x / 2 powi e)"
    using round_even_mono round_even_of_int by metis
  then show ?thesis by (intro mult_right_mono) auto
qed

lemma round64_nonneg: "0 \<le> x \<Longrightarrow> 0 \<le> round64 x"
  using round_grid_ge [of 0 "ulp_exp x" x] by (auto simp: round64_def Let_def)

lemma round64_mono_pos:
  assumes "0 < x" "x \<le> y"
  shows "round64 x \<le> round64 y"
proof (cases "ulp_exp x = ulp_exp y")
  case True
  have "x / 2 powi (ulp_exp y) \<le> y / 2 powi (ulp_exp y)"
    using assms by (simp add: divide_right_mono)
  with assms True show ?thesis
    by (auto simp: round64_def Let_def intro!: mult_right_mono dest: round_even_mono)
next
  case False
  let ?E = "ilog2 y"
  from assms have y: "0 < y" by simp
  from False ulp_exp_mono [OF assms] have lt: "ulp_exp x < ulp_exp y" by simp
  with assms y have ey: "ulp_exp y = ?E - 52" and ex: "ulp_exp x < ?E - 52"
    and lg: "ilog2 x < ?E"
    by (auto simp: ulp_exp_def)
  have "x < 2 powi (ilog2 x + 1)" by (rule ilog2_bounds(2) [OF assms(1)])
  also have "\<dots> \<le> 2 powi ?E" using lg by (intro power_int_increasing) auto
  finally have "x \<le> 2 powi ?E" by simp
  with ex have "round64 x \<le> 2 powi ?E"
    using round_grid_le [of x "2 ^ nat (?E - ulp_exp x)" "ulp_exp x"] assms
      powi_int_diff [of "ulp_exp x" ?E]
    by (simp add: round64_def Let_def)
  moreover have "2 powi ?E \<le> round64 y"
    using round_grid_ge [of "2 ^ nat (?E - ulp_exp y)" "ulp_exp y" y] y ey
      powi_int_diff [of "ulp_exp y" ?E] ilog2_bounds(1) [OF y]
    by (simp add: round64_def Let_def)
  ultimately show ?thesis by simp
qed

lemma round64_mono: "x \<le> y \<Longrightarrow> round64 x \<le> round64 y"
proof -
  assume xy: "x \<le> y"
  consider "0 < x" | "x \<le> 0" "0 \<le> y" | "y < 0" by linarith
  then show ?thesis
  proof cases
    case 1
    then show ?thesis using xy by (rule round64_mono_pos)
  next
    case 2
    then have "0 \<le> round64 (- x)" "0 \<le> round64 y" by (simp_all add: round64_nonneg)
    then show ?thesis by (simp add: round64_minus)
  next
    case 3
    with xy have "round64 (- y) \<le> round64 (- x)" by (intro round64_mono_pos) auto
    then show ?thesis by (simp add: round64_minus)
  qed
qed

lemma round64_exact:
  assumes "x = of_int k * 2 powi e" "ulp_exp x \<le> e"
  shows "round64 x = x"
proof -
  have "x = of_int (k * 2 ^ nat (e - ulp_exp x)) * 2 powi (ulp_exp x)"
    using assms(1) powi_int_diff [OF assms(2)] by simp
  then have "x / 2 powi (ulp_exp x) = of_int (k * 2 ^ nat (e - ulp_exp x))"
    by (metis less_irrefl nonzero_mult_div_cancel_right pow2_pos)
  then show ?thesis
    by (simp add: round64_def Let_def del: of_int_mult)
       (metis mult.commute nonzero_eq_divide_eq less_irrefl pow2_pos)
qed

lemma ulp_exp_le: "x \<noteq> 0 \<Longrightarrow> -1074 \<le> e \<Longrightarrow> \<bar>x\<bar> < 2 powi (e + 53) \<Longrightarrow> ulp_exp x \<le> e"
  using ilog2_less [of "\<bar>x\<bar>" "e + 53"] by (auto simp: ulp_exp_def)

text \<open>Integers up to \<open>2 ^ 53\<close> in absolute value are represented exactly.\<close>

lemma round64_of_int:
  assumes "\<bar>n\<bar> \<le> 2 ^ 53"
  shows "round64 (of_int n) = of_int n"
proof -
  have u: "ulp_exp (2 ^ 53) \<le> 1"
    by (rule ulp_exp_le) auto
  have p: "round64 (2 ^ 53) = 2 ^ 53"
    by (rule round64_exact [OF _ u, of "2 ^ 52"]) simp
  from this have m: "round64 (- (2 ^ 53)) = - (2 ^ 53)"
    by (simp only: round64_minus)
  from assms consider "n = 2 ^ 53" | "n = - (2 ^ 53)" | "n = 0" | "\<bar>n\<bar> < 2 ^ 53" "n \<noteq> 0"
    by linarith
  then show ?thesis
  proof cases
    case 4
    then have "\<bar>of_int n :: rat\<bar> < of_int (2 ^ 53)"
      by (simp only: of_int_abs [symmetric] of_int_less_iff)
    then have "ulp_exp (of_int n) \<le> 0"
      using 4 by (intro ulp_exp_le) auto
    then show ?thesis by (intro round64_exact [of _ n 0]) auto
  qed (use p m in simp_all)
qed

lemma round64_idem_pos:
  assumes "0 < x"
  shows "round64 (round64 x) = round64 x"
proof -
  let ?e = "ulp_exp x" and ?r = "round64 x"
  have "ilog2 x + 1 \<le> ?e + 53" "-1074 \<le> ?e"
    using assms by (auto simp: ulp_exp_def)
  then have "x \<le> 2 powi (?e + 53)"
    using ilog2_bounds(2) [OF assms] power_int_increasing [of "ilog2 x + 1" "?e + 53" "2::rat"]
    by linarith
  then have le: "?r \<le> 2 powi (?e + 53)"
    using round_grid_le [of x "2 ^ 53" ?e] powi_int_diff [of ?e "?e + 53"] assms
    by (simp add: round64_def Let_def)
  have r: "?r = of_int (round_even (x / 2 powi ?e)) * 2 powi ?e"
    using assms by (simp add: round64_def Let_def)
  show ?thesis
  proof (cases "?r = 0 \<or> ?r = 2 powi (?e + 53)")
    case True
    have "ulp_exp (2 powi (?e + 53)) \<le> ?e + 53"
      using \<open>-1074 \<le> ?e\<close> by (intro ulp_exp_le) (auto intro: power_int_strict_increasing)
    then have "round64 (2 powi (?e + 53)) = 2 powi (?e + 53)"
      by (intro round64_exact [of _ 1 "?e + 53"]) auto
    with True show ?thesis by auto
  next
    case False
    then have "ulp_exp ?r \<le> ?e"
      using le round64_nonneg [of x] assms \<open>-1074 \<le> ?e\<close> by (intro ulp_exp_le) auto
    with r show ?thesis by (rule round64_exact)
  qed
qed

lemma round64_idem [simp]: "round64 (round64 x) = round64 x"
proof (cases "0 < x")
  case False
  then consider "x = 0" | "0 < - x" by linarith
  then show ?thesis
  proof cases
    case 2
    then show ?thesis using round64_idem_pos [OF 2] by (simp add: round64_minus)
  qed simp
qed (rule round64_idem_pos)


lemma round64_err:
  assumes "x \<noteq> 0"
  shows "\<bar>round64 x - x\<bar> \<le> 2 powi (ulp_exp x) / 2"
proof -
  let ?u = "2 powi (ulp_exp x) :: rat"
  have "\<bar>of_int (round_even (x / ?u)) - x / ?u\<bar> * ?u \<le> 1 / 2 * ?u"
    by (intro mult_right_mono round_even_err) auto
  moreover have "\<bar>of_int (round_even (x / ?u)) - x / ?u\<bar> * ?u = \<bar>of_int (round_even (x / ?u)) * ?u - x\<bar>"
    by (simp add: abs_mult_pos left_diff_distrib)
  ultimately show ?thesis using assms by (simp add: round64_def Let_def)
qed

lemma round64_le_one: "x \<le> 1 + 1 / 2 ^ 53 \<Longrightarrow> round64 x \<le> 1"
proof -
  assume "x \<le> 1 + 1 / 2 ^ 53"
  then have "round64 x \<le> round64 (1 + 1 / 2 ^ 53)" by (rule round64_mono)
  also have "\<dots> = 1" by code_simp
  finally show ?thesis .
qed

lemma js_num_Fin: "\<bar>x\<bar> \<le> 2 ^ 53 \<Longrightarrow> js_num x = Fin (round64 x)"
proof -
  assume x: "\<bar>x\<bar> \<le> 2 ^ 53"
  have "round64 x \<le> round64 (of_int (2 ^ 53))" and "round64 (of_int (- (2 ^ 53))) \<le> round64 x"
    by (rule round64_mono; use x in auto)+
  then have "\<bar>round64 x\<bar> \<le> 2 ^ 53"
    using round64_of_int [of "2 ^ 53"] round64_of_int [of "- (2 ^ 53)"] by simp
  moreover have "(2::rat) ^ 53 < 2 powi 54" by simp
  ultimately have "round64 x \<noteq> 0 \<Longrightarrow> ilog2 \<bar>round64 x\<bar> < 54"
    by (intro ilog2_less) auto
  then show ?thesis by (auto simp: js_num_def Let_def)
qed

lemma js_num_of_int: "\<bar>n\<bar> \<le> 2 ^ 53 \<Longrightarrow> js_num (of_int n) = Fin (of_int n)"
proof -
  assume n: "\<bar>n\<bar> \<le> 2 ^ 53"
  then have "of_int \<bar>n\<bar> \<le> (of_int (2 ^ 53) :: rat)" by (simp only: of_int_le_iff)
  then show ?thesis using js_num_Fin [of "of_int n"] round64_of_int [OF n] by simp
qed

lemma js_num_0 [simp]: "js_num 0 = Fin 0"
  by (simp add: js_num_def)

lemma js_num_1 [simp]: "js_num 1 = Fin 1"
  using js_num_of_int [of 1] by simp

lemma js_num_numeral [simp]:
  "numeral k \<le> (9007199254740992 :: int) \<Longrightarrow> js_num (numeral k) = Fin (numeral k)"
  using js_num_of_int [of "numeral k"] by simp

lemma js_num_neg_numeral [simp]:
  "numeral k \<le> (9007199254740992 :: int) \<Longrightarrow> js_num (- numeral k) = Fin (- numeral k)"
  using js_num_of_int [of "- numeral k"] by simp

lemma js_num_cases: "js_num x = Fin (round64 x) \<or> js_num x = PosInf \<and> 0 < round64 x
    \<or> js_num x = NegInf \<and> round64 x < 0"
  by (auto simp: js_num_def Let_def)

lemma js_num_not_NaN [simp]: "js_num x \<noteq> NaN"
  using js_num_cases [of x] by auto


text \<open>What the bounds on the signals rely on: any rounding with these laws keeps signs and units.\<close>

locale rounding =
  fixes rnd :: "rat \<Rightarrow> rat"
  assumes mono: "x \<le> y \<Longrightarrow> rnd x \<le> rnd y"
    and odd: "rnd (- x) = - rnd x"
    and zero: "rnd 0 = 0"
    and one: "rnd 1 = 1"
    and idem: "rnd (rnd x) = rnd x"
begin

lemma nonneg: "0 \<le> x \<Longrightarrow> 0 \<le> rnd x"
  using mono [of 0 x] by (simp add: zero)

lemma unit_range: "0 \<le> x \<Longrightarrow> x \<le> 1 \<Longrightarrow> 0 \<le> rnd x \<and> rnd x \<le> 1"
  using mono [of x 1] by (simp add: one nonneg)

lemma le_fixpoint: "rnd y = y \<Longrightarrow> x \<le> y \<Longrightarrow> rnd x \<le> y"
  using mono [of x y] by simp

lemma scaled_le:
  assumes "rnd a = a" "0 \<le> a" "x \<le> 1"
  shows "rnd (a * x) \<le> a"
proof -
  have "a * x \<le> a * 1" using assms by (intro mult_left_mono) auto
  then show ?thesis using assms(1) by (intro le_fixpoint) auto
qed

end

interpretation r64: rounding round64
  by unfold_locales (use round64_of_int [of 1] in \<open>auto simp: round64_mono round64_minus\<close>)

section \<open>Comparison and arithmetic lemmas\<close>

lemma js_le_simps [simp]:
  "js_le NaN y = False" "js_le x NaN = False" "js_le (Fin a) (Fin b) = (a \<le> b)"
  "js_le NegInf (Fin b) = True" "js_le (Fin a) PosInf = True" "js_le PosInf (Fin b) = False"
  "js_le (Fin a) NegInf = False" "js_le PosInf NegInf = False" "js_le NegInf PosInf = True"
  "js_le PosInf PosInf = True" "js_le NegInf NegInf = True"
  by (auto simp: js_le_def js_eq_def elim: js_lt.elims)

lemma not_js_lt: "x \<noteq> NaN \<Longrightarrow> y \<noteq> NaN \<Longrightarrow> \<not> js_lt x y \<longleftrightarrow> js_le y x"
  by (cases x; cases y) auto

lemma js_le_trans: "js_le x y \<Longrightarrow> js_le y z \<Longrightarrow> js_le x z"
  by (cases x; cases y; cases z) auto

lemma js_lt_le_trans: "js_lt x y \<Longrightarrow> js_le y z \<Longrightarrow> js_lt x z"
  by (cases x; cases y; cases z) auto

lemma js_le_lt_trans: "js_le x y \<Longrightarrow> js_lt y z \<Longrightarrow> js_lt x z"
  by (cases x; cases y; cases z) auto

lemma js_lt_imp_le: "js_lt x y \<Longrightarrow> js_le x y"
  by (simp add: js_le_def)

lemma js_lt_imp_not_le: "js_lt x y \<Longrightarrow> \<not> js_le y x"
  by (cases x; cases y) auto

lemma js_le_refl [simp]: "js_le x x \<longleftrightarrow> x \<noteq> NaN"
  by (cases x) auto

lemma js_max_ge0: "x \<noteq> NaN \<Longrightarrow> js_le (Fin 0) (js_max (Fin 0) x)"
  by (cases x) (auto simp: js_max_def)

lemma js_num_mono: "x \<le> y \<Longrightarrow> js_le (js_num x) (js_num y)"
proof -
  assume xy: "x \<le> y"
  note r = round64_mono [OF xy]
  have "0 < round64 x \<Longrightarrow> ilog2 \<bar>round64 x\<bar> \<le> ilog2 \<bar>round64 y\<bar>"
    using r by (intro ilog2_mono) auto
  moreover have "round64 y < 0 \<Longrightarrow> ilog2 \<bar>round64 y\<bar> \<le> ilog2 \<bar>round64 x\<bar>"
    using r by (intro ilog2_mono) auto
  ultimately show ?thesis using r by (auto simp: js_num_def Let_def)
qed

lemma js_num_nonneg: "0 \<le> x \<Longrightarrow> js_le (Fin 0) (js_num x)"
  using js_num_mono [of 0 x] by simp

lemma is_double_js_num [simp]: "is_double (js_num x)"
  by (auto simp: js_num_def Let_def)

lemma js_num_double: "is_double (Fin x) \<Longrightarrow> js_num x = Fin x"
  by (auto simp: js_num_def Let_def)

lemma js_add_nonneg: "js_le (Fin 0) x \<Longrightarrow> js_le (Fin 0) y \<Longrightarrow> js_le (Fin 0) (js_add x y)"
  by (cases x; cases y) (auto simp: js_num_nonneg)

lemma js_mul_nonneg:
  "js_le (Fin 0) x \<Longrightarrow> is_finite x \<Longrightarrow> js_le (Fin 0) y \<Longrightarrow> is_finite y \<Longrightarrow> js_le (Fin 0) (js_mul x y)"
  by (cases x; cases y) (auto simp: js_mul_def js_num_nonneg)

lemma js_div_nonneg:
  "js_le (Fin 0) x \<Longrightarrow> js_lt (Fin 0) y \<Longrightarrow> is_finite y \<Longrightarrow> js_le (Fin 0) (js_div x y)"
  by (cases x; cases y) (auto simp: js_div_def js_num_nonneg js_inf_def js_sgn_def)

lemma round64_ulp_multiple: "\<exists>k. round64 x = of_int k * 2 powi (-1074)"
proof (cases "x = 0")
  case True
  then show ?thesis by (intro exI [of _ 0]) simp
next
  case False
  have "-1074 \<le> ulp_exp x" by (simp add: ulp_exp_def)
  with False show ?thesis
    by (intro exI [of _ "round_even (x / 2 powi ulp_exp x) * 2 ^ nat (ulp_exp x + 1074)"])
       (simp add: round64_def Let_def powi_int_diff [of "-1074" "ulp_exp x"])
qed

text \<open>Gradual underflow: the difference of two distinct doubles never rounds to zero.\<close>

lemma js_sub_pos:
  assumes "is_double (Fin x)" "is_double (Fin y)" "y < x"
  shows "js_lt (Fin 0) (js_sub (Fin x) (Fin y))"
proof -
  obtain k l where "x = of_int k * 2 powi (-1074)" "y = of_int l * 2 powi (-1074)"
    using assms round64_ulp_multiple [of x] round64_ulp_multiple [of y] by auto
  then have "x - y = of_int (k - l) * 2 powi (-1074)" by (simp add: left_diff_distrib)
  moreover from this assms(3) have "0 < k - l"
    by (metis diff_gt_0_iff_gt of_int_0_less_iff pow2_pos zero_less_mult_pos2)
  ultimately have "2 powi (-1074) \<le> x - y"
    by (metis int_one_le_iff_zero_less mult.commute mult_left_mono mult.right_neutral of_int_1_le_iff
        order_less_imp_le pow2_pos)
  then have "round64 (2 powi (-1074)) \<le> round64 (x - y)" by (rule round64_mono)
  moreover have "round64 (2 powi (-1074)) = 2 powi (-1074)"
    by (rule round64_exact [of _ 1 "-1074"])
       (auto intro!: ulp_exp_le power_int_strict_increasing)
  moreover have "0 < (2::rat) powi (-1074)" by (rule pow2_pos)
  ultimately have "0 < round64 (x - y)" by linarith
  then show ?thesis using js_num_cases [of "x - y"] by (auto simp: js_sub_def)
qed

lemma js_sub_finite:
  assumes "is_double (Fin x)" "0 \<le> y" "y \<le> x"
  shows "is_finite (js_sub (Fin x) (Fin y))"
proof -
  have "js_le (js_num (x - y)) (Fin x)" and "js_le (Fin 0) (js_num (x - y))"
    using js_num_mono [of "x - y" x] js_num_nonneg [of "x - y"] assms
    by (simp_all add: js_num_double del: is_double.simps)
  then show ?thesis by (cases "js_num (x - y)") (auto simp: js_sub_def)
qed

lemma js_num_bounded:
  assumes "\<bar>x\<bar> \<le> 2 ^ 100"
  shows "js_num x = Fin (round64 x)" "\<bar>round64 x\<bar> \<le> 2 ^ 100"
proof -
  have p: "2 ^ 100 = of_int 1 * (2 :: rat) powi 100" by simp
  have e: "round64 (2 ^ 100) = 2 ^ 100"
    by (rule round64_exact [OF p]) (auto intro!: ulp_exp_le)
  have "round64 x \<le> round64 (2 ^ 100)" "round64 (- (2 ^ 100)) \<le> round64 x"
    by (rule round64_mono; use assms in linarith)+
  then show b: "\<bar>round64 x\<bar> \<le> 2 ^ 100" using e round64_minus [of "2 ^ 100"] by simp
  then have "round64 x \<noteq> 0 \<Longrightarrow> ilog2 \<bar>round64 x\<bar> < 101"
    by (intro ilog2_less) auto
  then show "js_num x = Fin (round64 x)" by (auto simp: js_num_def Let_def)
qed

end
