(* ===== verification/JsValue.thy ===== *)
theory JsValue
  imports JsNumber
begin

text \<open>
  Untyped JavaScript values, as they arrive over signalling or from a statistics report: the
  primitives, arrays, and plain objects as their own enumerable properties in insertion order.
  The property names the sources read are none of those of \<open>Object.prototype\<close>, so a missing
  key reads as \<open>undefined\<close>.
\<close>

datatype jsval =
    VUndef
  | VNull
  | VBool bool
  | VNum number
  | VStr string
  | VArr "jsval list"
  | VObj "(string \<times> jsval) list"

type_synonym jsobj = "(string \<times> jsval) list"

fun obj_get :: "jsobj \<Rightarrow> string \<Rightarrow> jsval" where
  "obj_get [] k = VUndef"
| "obj_get ((a, v) # o') k = (if a = k then v else obj_get o' k)"

definition obj_has :: "jsobj \<Rightarrow> string \<Rightarrow> bool" where
  "obj_has obj k \<longleftrightarrow> k \<in> fst ` set obj"

fun truthy :: "jsval \<Rightarrow> bool" where
  "truthy VUndef = False"
| "truthy VNull = False"
| "truthy (VBool b) = b"
| "truthy (VNum n) = (n \<noteq> NaN \<and> n \<noteq> Fin 0)"
| "truthy (VStr s) = (s \<noteq> [])"
| "truthy (VArr _) = True"
| "truthy (VObj _) = True"

definition opt_num :: "number option \<Rightarrow> jsval" where
  "opt_num x = (case x of None \<Rightarrow> VUndef | Some n \<Rightarrow> VNum n)"

definition opt_str :: "string option \<Rightarrow> jsval" where
  "opt_str x = (case x of None \<Rightarrow> VUndef | Some s \<Rightarrow> VStr s)"

definition opt_bool :: "bool option \<Rightarrow> jsval" where
  "opt_bool x = (case x of None \<Rightarrow> VUndef | Some b \<Rightarrow> VBool b)"

lemma obj_get_missing: "\<not> obj_has obj k \<Longrightarrow> obj_get obj k = VUndef"
  by (induction obj k rule: obj_get.induct) (auto simp: obj_has_def)

lemma obj_has_simps [simp]:
  "obj_has [] k = False" "obj_has ((a, v) # obj) k = (a = k \<or> obj_has obj k)"
  by (auto simp: obj_has_def)

lemma opt_simps [simp]:
  "opt_num None = VUndef" "opt_num (Some n) = VNum n"
  "opt_str None = VUndef" "opt_str (Some s) = VStr s"
  "opt_bool None = VUndef" "opt_bool (Some b) = VBool b"
  by (simp_all add: opt_num_def opt_str_def opt_bool_def)

text \<open>What crosses a JSON channel: \<open>JSON.stringify\<close> leaves out the properties that are undefined.\<close>

fun json :: "jsval \<Rightarrow> jsval" where
  "json (VArr vs) = VArr (map json vs)"
| "json (VObj fs) = VObj (map (\<lambda>(k, v). (k, json v)) (filter (\<lambda>(k, v). v \<noteq> VUndef) fs))"
| "json v = v"

end
