(* ===== verification/QosTypes.thy ===== *)
theory QosTypes
  imports JsValue
begin

text \<open>
  The data of the QoS library (src/src/client/lib/qos/types.d.ts, constants.js): the enumerations as
  datatypes, the structures as records whose optional fields are options (\<open>None\<close> is
  \<open>undefined\<close>), and the constants of constants.js.
\<close>

section \<open>Constants\<close>

definition QOS_CLIENT_SCHEMA_V1 :: string where
  "QOS_CLIENT_SCHEMA_V1 = ''mediasoup.qos.client.v1''"

definition QOS_POLICY_SCHEMA_V1 :: string where
  "QOS_POLICY_SCHEMA_V1 = ''mediasoup.qos.policy.v1''"

definition QOS_OVERRIDE_SCHEMA_V1 :: string where
  "QOS_OVERRIDE_SCHEMA_V1 = ''mediasoup.qos.override.v1''"

definition DEFAULT_SAMPLE_INTERVAL_MS :: number where
  "DEFAULT_SAMPLE_INTERVAL_MS = Fin 1000"

definition DEFAULT_SNAPSHOT_INTERVAL_MS :: number where
  "DEFAULT_SNAPSHOT_INTERVAL_MS = Fin 2000"

definition DEFAULT_RECOVERY_COOLDOWN_MS :: number where
  "DEFAULT_RECOVERY_COOLDOWN_MS = Fin 8000"

definition DEFAULT_TRACE_BUFFER_SIZE :: number where
  "DEFAULT_TRACE_BUFFER_SIZE = Fin 256"

definition QOS_MAX_SEQ :: number where
  "QOS_MAX_SEQ = Fin 9007199254740991"

definition QOS_MAX_TRACKS_PER_SNAPSHOT :: nat where
  "QOS_MAX_TRACKS_PER_SNAPSHOT = 32"

section \<open>Enumerations\<close>

datatype qos_source = Camera | ScreenShare | AudioSource
datatype qos_reason = RNetwork | RCpu | RManual | RServerOverride | RUnknown
datatype qos_state = Stable | EarlyWarning | Congested | Recovering
datatype qos_quality = Excellent | Good | Poor | Lost
datatype track_kind = KAudio | KVideo
datatype track_mode = AudioOnly | AudioVideo | VideoOnly
datatype limitation_reason = LBandwidth | LCpu | LOther | LNone | LUnknown
datatype action_type =
  TSetEncodingParameters | TSetMaxSpatialLayer | TEnterAudioOnly | TExitAudioOnly
  | TPauseUpstream | TResumeUpstream | TNoop

section \<open>Structures\<close>

record raw_snapshot =
  rs_timestampMs :: number
  rs_trackId :: "string option"
  rs_producerId :: "string option"
  rs_source :: qos_source
  rs_kind :: track_kind
  rs_bytesSent :: "number option"
  rs_packetsSent :: "number option"
  rs_packetsLost :: "number option"
  rs_retransmittedPacketsSent :: "number option"
  rs_targetBitrateBps :: "number option"
  rs_configuredBitrateBps :: "number option"
  rs_roundTripTimeMs :: "number option"
  rs_jitterMs :: "number option"
  rs_frameWidth :: "number option"
  rs_frameHeight :: "number option"
  rs_framesPerSecond :: "number option"
  rs_qualityLimitationReason :: "limitation_reason option"
  rs_qualityLimitationDurationsSec :: "(string \<times> number) list option"

record signals =
  sg_packetsSentDelta :: number
  sg_packetsLostDelta :: number
  sg_retransmittedPacketsSentDelta :: number
  sg_sendBitrateBps :: number
  sg_targetBitrateBps :: number
  sg_bitrateUtilization :: number
  sg_lossRate :: number
  sg_lossEwma :: number
  sg_rttMs :: number
  sg_rttEwma :: number
  sg_jitterMs :: number
  sg_jitterEwma :: number
  sg_cpuLimited :: bool
  sg_bandwidthLimited :: bool
  sg_reason :: qos_reason

record encoding_parameters =
  ep_maxBitrateBps :: "number option"
  ep_maxFramerate :: "number option"
  ep_scaleResolutionDownBy :: "number option"
  ep_adaptivePtime :: "bool option"

record thresholds =
  th_warnLossRate :: number
  th_congestedLossRate :: number
  th_warnRttMs :: number
  th_congestedRttMs :: number
  th_warnJitterMs :: "number option"
  th_congestedJitterMs :: "number option"
  th_warnBitrateUtilization :: number
  th_congestedBitrateUtilization :: number
  th_stableLossRate :: number
  th_stableRttMs :: number
  th_stableJitterMs :: "number option"
  th_stableBitrateUtilization :: number

record ladder_step =
  ls_level :: number
  ls_description :: string
  ls_encodingParameters :: "encoding_parameters option"
  ls_spatialLayer :: "number option"
  ls_enterAudioOnly :: bool
  ls_exitAudioOnly :: bool
  ls_pauseUpstream :: bool
  ls_resumeUpstream :: bool

record profile =
  pf_name :: string
  pf_source :: qos_source
  pf_levelCount :: number
  pf_sampleIntervalMs :: number
  pf_snapshotIntervalMs :: number
  pf_recoveryCooldownMs :: number
  pf_thresholds :: thresholds
  pf_ladder :: "ladder_step list"

datatype qos_action =
    SetEncodingParameters (a_level: number) (a_encodingParameters: encoding_parameters)
  | SetMaxSpatialLayer (a_level: number) (a_spatialLayer: number)
  | EnterAudioOnly (a_level: number) (a_reason: "string option")
  | ExitAudioOnly (a_level: number) (a_reason: "string option")
  | PauseUpstream (a_level: number)
  | ResumeUpstream (a_level: number)
  | Noop (a_level: number) (a_reason: "string option")

fun a_type :: "qos_action \<Rightarrow> action_type" where
  "a_type (SetEncodingParameters _ _) = TSetEncodingParameters"
| "a_type (SetMaxSpatialLayer _ _) = TSetMaxSpatialLayer"
| "a_type (EnterAudioOnly _ _) = TEnterAudioOnly"
| "a_type (ExitAudioOnly _ _) = TExitAudioOnly"
| "a_type (PauseUpstream _) = TPauseUpstream"
| "a_type (ResumeUpstream _) = TResumeUpstream"
| "a_type (Noop _ _) = TNoop"

record override =
  ov_trackScope :: bool
  ov_trackId :: "string option"
  ov_maxLevelClamp :: "number option"
  ov_forceAudioOnly :: "bool option"
  ov_disableRecovery :: "bool option"
  ov_pauseUpstream :: "bool option"
  ov_resumeUpstream :: "bool option"
  ov_ttlMs :: number
  ov_reason :: string

record policy =
  po_sampleIntervalMs :: number
  po_snapshotIntervalMs :: number
  po_allowAudioOnly :: bool
  po_allowVideoPause :: bool
  po_profileCamera :: string
  po_profileScreenShare :: string
  po_profileAudio :: string

record track_state =
  ts_trackId :: string
  ts_source :: qos_source
  ts_kind :: track_kind
  ts_state :: qos_state
  ts_quality :: qos_quality
  ts_level :: number
  ts_inAudioOnlyMode :: bool

end
