(* ===== verification/Profiles.thy ===== *)
theory Profiles
  imports QosTypes
begin

text \<open>
  src/src/client/lib/qos/profiles.js: the built-in degradation profiles, the registry of named
  variants, and their resolution. Every table of the file is here with its literals; a decimal
  literal is the double nearest to it. A property a ladder step does not have is \<open>None\<close> or
  \<open>False\<close>. The registry is a plain object, so looking up a name that \<open>Object.prototype\<close> has
  finds an inherited function, and cloning that throws.
\<close>

definition DEFAULT_THRESHOLDS :: thresholds where
  "DEFAULT_THRESHOLDS = \<lparr>
     th_warnLossRate = js_num (4 / 100), th_congestedLossRate = js_num (8 / 100),
     th_warnRttMs = Fin 220, th_congestedRttMs = Fin 320,
     th_warnJitterMs = Some (Fin 30), th_congestedJitterMs = Some (Fin 60),
     th_warnBitrateUtilization = js_num (85 / 100),
     th_congestedBitrateUtilization = js_num (65 / 100),
     th_stableLossRate = js_num (3 / 100), th_stableRttMs = Fin 180,
     th_stableJitterMs = Some (Fin 20), th_stableBitrateUtilization = js_num (92 / 100)\<rparr>"

definition enc :: "number option \<Rightarrow> number option \<Rightarrow> number option \<Rightarrow> bool option \<Rightarrow> encoding_parameters" where
  "enc br fr sc pt = \<lparr>ep_maxBitrateBps = br, ep_maxFramerate = fr,
     ep_scaleResolutionDownBy = sc, ep_adaptivePtime = pt\<rparr>"

definition step_enc :: "number \<Rightarrow> string \<Rightarrow> encoding_parameters option \<Rightarrow> ladder_step" where
  "step_enc l d e = \<lparr>ls_level = l, ls_description = d, ls_encodingParameters = e,
     ls_spatialLayer = None, ls_enterAudioOnly = False, ls_exitAudioOnly = False,
     ls_pauseUpstream = False, ls_resumeUpstream = False\<rparr>"

definition DEFAULT_CAMERA_PROFILE :: profile where
  "DEFAULT_CAMERA_PROFILE = \<lparr>pf_name = ''default-camera'', pf_source = Camera, pf_levelCount = Fin 5,
     pf_sampleIntervalMs = DEFAULT_SAMPLE_INTERVAL_MS,
     pf_snapshotIntervalMs = DEFAULT_SNAPSHOT_INTERVAL_MS,
     pf_recoveryCooldownMs = DEFAULT_RECOVERY_COOLDOWN_MS,
     pf_thresholds = DEFAULT_THRESHOLDS,
     pf_ladder =
      [step_enc (Fin 0) ''Use publish initial encoding settings.''
         (Some (enc (Some (Fin 900000)) (Some (Fin 30)) (Some (Fin 1)) None)),
       step_enc (Fin 1) ''Reduce bitrate and frame rate slightly.''
         (Some (enc (Some (Fin 850000)) (Some (Fin 24)) (Some (Fin 1)) None)),
       step_enc (Fin 2)
         ''Further reduce bitrate/frame rate and start downscaling resolution.''
         (Some (enc (Some (Fin 700000)) (Some (Fin 20)) (Some (Fin (3 / 2))) None)),
       (step_enc (Fin 3)
         ''Aggressive bitrate and fps reduction, force lowest spatial layer if available.''
         (Some (enc (Some (Fin 450000)) (Some (Fin 12)) (Some (Fin 2)) None)))
         \<lparr>ls_spatialLayer := Some (Fin 0)\<rparr>,
       (step_enc (Fin 4) ''Enter audio-only mode and pause video upstream.'' None)
         \<lparr>ls_enterAudioOnly := True\<rparr>]\<rparr>"

definition DEFAULT_SCREENSHARE_PROFILE :: profile where
  "DEFAULT_SCREENSHARE_PROFILE = \<lparr>pf_name = ''default-screenshare'', pf_source = ScreenShare,
     pf_levelCount = Fin 5,
     pf_sampleIntervalMs = DEFAULT_SAMPLE_INTERVAL_MS,
     pf_snapshotIntervalMs = DEFAULT_SNAPSHOT_INTERVAL_MS,
     pf_recoveryCooldownMs = Fin 10000,
     pf_thresholds = DEFAULT_THRESHOLDS,
     pf_ladder =
      [step_enc (Fin 0) ''Use publish initial encoding settings.''
         (Some (enc (Some (Fin 1800000)) (Some (Fin 15)) (Some (Fin 1)) None)),
       step_enc (Fin 1) ''Lower capture/send framerate to 10.''
         (Some (enc (Some (Fin 1800000)) (Some (Fin 10)) (Some (Fin 1)) None)),
       step_enc (Fin 2) ''Lower framerate to 5 while prioritizing text readability.''
         (Some (enc (Some (Fin 1350000)) (Some (Fin 5)) (Some (Fin 1)) None)),
       (step_enc (Fin 3) ''Further limit bitrate and framerate before resolution downgrade.''
         (Some (enc (Some (Fin 990000)) (Some (Fin 3)) (Some (Fin (5 / 4))) None)))
         \<lparr>ls_resumeUpstream := True\<rparr>,
       (step_enc (Fin 4) ''Pause screen share and rely on coordinator decision.'' None)
         \<lparr>ls_pauseUpstream := True\<rparr>]\<rparr>"

definition DEFAULT_AUDIO_PROFILE :: profile where
  "DEFAULT_AUDIO_PROFILE = \<lparr>pf_name = ''default-audio'', pf_source = AudioSource, pf_levelCount = Fin 5,
     pf_sampleIntervalMs = DEFAULT_SAMPLE_INTERVAL_MS,
     pf_snapshotIntervalMs = DEFAULT_SNAPSHOT_INTERVAL_MS,
     pf_recoveryCooldownMs = DEFAULT_RECOVERY_COOLDOWN_MS,
     pf_thresholds = DEFAULT_THRESHOLDS,
     pf_ladder =
      [step_enc (Fin 0) ''Use publish initial encoding settings.''
         (Some (enc (Some (Fin 510000)) None None None)),
       step_enc (Fin 1)
         ''Reduce max bitrate to around 32kbps, enable adaptive ptime if available.''
         (Some (enc (Some (Fin 32000)) None None (Some True))),
       step_enc (Fin 2) ''Reduce max bitrate to around 24kbps.''
         (Some (enc (Some (Fin 24000)) None None None)),
       step_enc (Fin 3) ''Reduce max bitrate to around 16kbps.''
         (Some (enc (Some (Fin 16000)) None None None)),
       step_enc (Fin 4) ''Keep audio alive at minimum quality, avoid auto-mute.''
         (Some (enc (Some (Fin 16000)) None None (Some True)))]\<rparr>"

definition cloneProfile :: "profile \<Rightarrow> profile" where
  "cloneProfile p = p\<lparr>pf_thresholds := pf_thresholds p, pf_ladder := map (\<lambda>s. s) (pf_ladder p)\<rparr>"

definition CONSERVATIVE_THRESHOLDS :: thresholds where
  "CONSERVATIVE_THRESHOLDS = DEFAULT_THRESHOLDS
     \<lparr>th_warnLossRate := js_num (3 / 100), th_congestedLossRate := js_num (6 / 100),
      th_warnRttMs := Fin 180, th_congestedRttMs := Fin 260\<rparr>"

definition CONSERVATIVE_CAMERA_PROFILE :: profile where
  "CONSERVATIVE_CAMERA_PROFILE = DEFAULT_CAMERA_PROFILE
     \<lparr>pf_name := ''conservative'', pf_recoveryCooldownMs := Fin 12000,
      pf_thresholds := CONSERVATIVE_THRESHOLDS,
      pf_ladder :=
       (let l = pf_ladder DEFAULT_CAMERA_PROFILE
        in [l ! 0, l ! 1,
            (l ! 2)\<lparr>ls_encodingParameters :=
              Some (enc (Some (Fin 550000)) (Some (Fin 15)) (Some (Fin (3 / 2))) None)\<rparr>,
            l ! 3, l ! 4])\<rparr>"

definition PROFILE_REGISTRY :: "qos_source \<Rightarrow> (string \<times> profile) list" where
  "PROFILE_REGISTRY s = (case s of
     Camera \<Rightarrow> [(''default'', DEFAULT_CAMERA_PROFILE), (''conservative'', CONSERVATIVE_CAMERA_PROFILE)]
   | ScreenShare \<Rightarrow> [(''default'', DEFAULT_SCREENSHARE_PROFILE),
       (''clarity-first'', DEFAULT_SCREENSHARE_PROFILE)]
   | AudioSource \<Rightarrow> [(''default'', DEFAULT_AUDIO_PROFILE), (''speech-first'', DEFAULT_AUDIO_PROFILE)])"

text \<open>The property names every plain object inherits.\<close>

definition OBJECT_PROTOTYPE_NAMES :: "string list" where
  "OBJECT_PROTOTYPE_NAMES =
     [''constructor'', ''__defineGetter__'', ''__defineSetter__'', ''hasOwnProperty'',
      ''__lookupGetter__'', ''__lookupSetter__'', ''isPrototypeOf'', ''propertyIsEnumerable'',
      ''toString'', ''valueOf'', ''__proto__'', ''toLocaleString'']"

definition resolveProfileByName :: "qos_source \<Rightarrow> string \<Rightarrow> profile option result" where
  "resolveProfileByName source name =
     (case map_of (PROFILE_REGISTRY source) name of
        Some p \<Rightarrow> Inr (Some (cloneProfile p))
      | None \<Rightarrow>
          if name \<in> set OBJECT_PROTOTYPE_NAMES
          then Inl (TypeError ''Cannot read properties of undefined (reading map)'')
          else Inr None)"

definition getDefaultCameraProfile :: profile where
  "getDefaultCameraProfile = cloneProfile DEFAULT_CAMERA_PROFILE"

definition getDefaultScreenShareProfile :: profile where
  "getDefaultScreenShareProfile = cloneProfile DEFAULT_SCREENSHARE_PROFILE"

definition getDefaultAudioProfile :: profile where
  "getDefaultAudioProfile = cloneProfile DEFAULT_AUDIO_PROFILE"

text \<open>A partial profile: the properties it does not have are \<open>None\<close>.\<close>

record thresholds_override =
  to_warnLossRate :: "number option"
  to_congestedLossRate :: "number option"
  to_warnRttMs :: "number option"
  to_congestedRttMs :: "number option"
  to_warnJitterMs :: "number option"
  to_congestedJitterMs :: "number option"
  to_warnBitrateUtilization :: "number option"
  to_congestedBitrateUtilization :: "number option"
  to_stableLossRate :: "number option"
  to_stableRttMs :: "number option"
  to_stableJitterMs :: "number option"
  to_stableBitrateUtilization :: "number option"

record profile_override =
  pv_name :: "string option"
  pv_source :: "qos_source option"
  pv_levelCount :: "number option"
  pv_sampleIntervalMs :: "number option"
  pv_snapshotIntervalMs :: "number option"
  pv_recoveryCooldownMs :: "number option"
  pv_thresholds :: "thresholds_override option"
  pv_ladder :: "ladder_step list option"

definition spread :: "'a option \<Rightarrow> 'a \<Rightarrow> 'a" where
  "spread o' b = (case o' of None \<Rightarrow> b | Some x \<Rightarrow> x)"

definition spread_thresholds :: "thresholds_override option \<Rightarrow> thresholds \<Rightarrow> thresholds" where
  "spread_thresholds o' b = (case o' of
     None \<Rightarrow> b
   | Some t \<Rightarrow> \<lparr>
       th_warnLossRate = spread (to_warnLossRate t) (th_warnLossRate b),
       th_congestedLossRate = spread (to_congestedLossRate t) (th_congestedLossRate b),
       th_warnRttMs = spread (to_warnRttMs t) (th_warnRttMs b),
       th_congestedRttMs = spread (to_congestedRttMs t) (th_congestedRttMs b),
       th_warnJitterMs = (case to_warnJitterMs t of None \<Rightarrow> th_warnJitterMs b | x \<Rightarrow> x),
       th_congestedJitterMs = (case to_congestedJitterMs t of None \<Rightarrow> th_congestedJitterMs b | x \<Rightarrow> x),
       th_warnBitrateUtilization = spread (to_warnBitrateUtilization t) (th_warnBitrateUtilization b),
       th_congestedBitrateUtilization =
         spread (to_congestedBitrateUtilization t) (th_congestedBitrateUtilization b),
       th_stableLossRate = spread (to_stableLossRate t) (th_stableLossRate b),
       th_stableRttMs = spread (to_stableRttMs t) (th_stableRttMs b),
       th_stableJitterMs = (case to_stableJitterMs t of None \<Rightarrow> th_stableJitterMs b | x \<Rightarrow> x),
       th_stableBitrateUtilization =
         spread (to_stableBitrateUtilization t) (th_stableBitrateUtilization b)\<rparr>)"

definition resolveProfile :: "qos_source \<Rightarrow> profile_override option \<Rightarrow> profile" where
  "resolveProfile source override =
     (let base = (case source of
          Camera \<Rightarrow> getDefaultCameraProfile
        | ScreenShare \<Rightarrow> getDefaultScreenShareProfile
        | AudioSource \<Rightarrow> getDefaultAudioProfile)
      in case override of
           None \<Rightarrow> base
         | Some v \<Rightarrow> \<lparr>
             pf_name = spread (pv_name v) (pf_name base),
             pf_source = spread (pv_source v) (pf_source base),
             pf_levelCount = spread (pv_levelCount v) (pf_levelCount base),
             pf_sampleIntervalMs = spread (pv_sampleIntervalMs v) (pf_sampleIntervalMs base),
             pf_snapshotIntervalMs = spread (pv_snapshotIntervalMs v) (pf_snapshotIntervalMs base),
             pf_recoveryCooldownMs = spread (pv_recoveryCooldownMs v) (pf_recoveryCooldownMs base),
             pf_thresholds = spread_thresholds (pv_thresholds v) (pf_thresholds base),
             pf_ladder = (case pv_ladder v of Some l \<Rightarrow> map (\<lambda>s. s) l | None \<Rightarrow> pf_ladder base)\<rparr>)"

section \<open>Well-formed profiles\<close>

text \<open>
  Thresholds are ordered from healthy to congested, so that a sample is never healthy and a
  warning at once; a ladder lists its levels from 0 without a gap, and the bitrate cap never rises
  on the way down.
\<close>

definition jitter_bound :: "number option \<Rightarrow> number" where
  "jitter_bound t = (case t of Some n \<Rightarrow> if is_finite n then n else PosInf | None \<Rightarrow> PosInf)"

definition thresholds_ordered :: "thresholds \<Rightarrow> bool" where
  "thresholds_ordered t \<longleftrightarrow>
     js_le (th_stableLossRate t) (th_warnLossRate t)
     \<and> js_le (th_warnLossRate t) (th_congestedLossRate t)
     \<and> js_le (th_stableRttMs t) (th_warnRttMs t) \<and> js_le (th_warnRttMs t) (th_congestedRttMs t)
     \<and> js_le (jitter_bound (th_stableJitterMs t)) (jitter_bound (th_warnJitterMs t))
     \<and> js_le (jitter_bound (th_warnJitterMs t)) (jitter_bound (th_congestedJitterMs t))"

fun bitrates :: "ladder_step list \<Rightarrow> number list" where
  "bitrates [] = []"
| "bitrates (s # ss) =
     (case Option.bind (ls_encodingParameters s) ep_maxBitrateBps of
        Some b \<Rightarrow> b # bitrates ss | None \<Rightarrow> bitrates ss)"

definition profile_wf :: "profile \<Rightarrow> bool" where
  "profile_wf p \<longleftrightarrow>
     pf_ladder p \<noteq> [] \<and> int (length (pf_ladder p)) < 4503599627370496
     \<and> pf_levelCount p = Fin (of_nat (length (pf_ladder p)))
     \<and> map ls_level (pf_ladder p) = map (\<lambda>i. Fin (of_nat i)) [0..<length (pf_ladder p)]
     \<and> thresholds_ordered (pf_thresholds p)
     \<and> sorted_wrt (\<lambda>a b. js_le b a) (bitrates (pf_ladder p))"

lemma cloneProfile_eq [simp]: "cloneProfile p = p"
  by (simp add: cloneProfile_def)

lemmas profile_table_defs = DEFAULT_CAMERA_PROFILE_def DEFAULT_SCREENSHARE_PROFILE_def
  DEFAULT_AUDIO_PROFILE_def CONSERVATIVE_CAMERA_PROFILE_def step_enc_def enc_def

lemma builtin_profile_fields [simp]:
  "pf_thresholds DEFAULT_CAMERA_PROFILE = DEFAULT_THRESHOLDS"
  "pf_recoveryCooldownMs DEFAULT_CAMERA_PROFILE = Fin 8000"
  "pf_source DEFAULT_CAMERA_PROFILE = Camera"
  "pf_levelCount DEFAULT_CAMERA_PROFILE = Fin 5"
  by (simp_all add: DEFAULT_CAMERA_PROFILE_def DEFAULT_RECOVERY_COOLDOWN_MS_def)

lemma default_thresholds_ordered: "thresholds_ordered DEFAULT_THRESHOLDS"
  by (simp add: thresholds_ordered_def DEFAULT_THRESHOLDS_def jitter_bound_def js_num_mono)

lemma conservative_thresholds_ordered: "thresholds_ordered CONSERVATIVE_THRESHOLDS"
  by (simp add: thresholds_ordered_def CONSERVATIVE_THRESHOLDS_def DEFAULT_THRESHOLDS_def
      jitter_bound_def js_num_mono)

lemma upt_0_5: "[0..<5] = [0, 1, 2, 3, 4]"
  by (simp add: upt_rec)

lemma builtin_profiles_wf:
  "profile_wf DEFAULT_CAMERA_PROFILE" "profile_wf DEFAULT_SCREENSHARE_PROFILE"
  "profile_wf DEFAULT_AUDIO_PROFILE" "profile_wf CONSERVATIVE_CAMERA_PROFILE"
  by (simp_all add: profile_wf_def profile_table_defs default_thresholds_ordered
      conservative_thresholds_ordered upt_0_5 Let_def)

lemma registry_profile_wf: "map_of (PROFILE_REGISTRY s) n = Some p \<Longrightarrow> profile_wf p"
  by (cases s) (auto simp: PROFILE_REGISTRY_def builtin_profiles_wf split: if_splits)

lemma registry_profile_source: "map_of (PROFILE_REGISTRY s) n = Some p \<Longrightarrow> pf_source p = s"
  by (cases s) (auto simp: PROFILE_REGISTRY_def profile_table_defs split: if_splits)

text \<open>every profile the library can resolve is well formed: by source, by any registered
  name, its ladder covers the levels \<open>0 .. levelCount - 1\<close> in order, its thresholds are ordered
  from healthy to congested, its bitrate caps never rise on the way down, and it is a profile of
  the source it was asked for.\<close>

theorem resolved_profiles_wf:
  "profile_wf (resolveProfile s None) \<and> pf_source (resolveProfile s None) = s
   \<and> (case resolveProfileByName s n of
        Inr (Some p) \<Rightarrow> profile_wf p \<and> pf_source p = s | _ \<Rightarrow> True)"
proof -
  have "profile_wf (resolveProfile s None) \<and> pf_source (resolveProfile s None) = s"
    by (cases s) (simp_all add: resolveProfile_def getDefaultCameraProfile_def
        getDefaultScreenShareProfile_def getDefaultAudioProfile_def builtin_profiles_wf,
        simp_all add: profile_table_defs)
  then show ?thesis
    using registry_profile_wf registry_profile_source
    by (auto simp: resolveProfileByName_def split: option.splits)
qed

text \<open>A name that every object inherits is not answered "unknown profile": the lookup throws.\<close>

lemma resolveProfileByName_inherited:
  "n \<in> set OBJECT_PROTOTYPE_NAMES \<Longrightarrow>
     resolveProfileByName s n = Inl (TypeError ''Cannot read properties of undefined (reading map)'')"
  by (cases s) (auto simp: resolveProfileByName_def PROFILE_REGISTRY_def OBJECT_PROTOTYPE_NAMES_def)

end
