(* ===== verification/Signals.thy ===== *)
theory Signals
  imports QosTypes
begin

text \<open>
  src/src/client/lib/qos/signals.js: the derivation of the smoothed sender signals from two
  consecutive raw snapshots. Every function of the file is here under its own name; an optional
  argument or property is an option. The lemmas show that whatever the browser reports (missing,
  non-finite, negative or reset counters, skewed clocks), the derived loss rate and its moving
  average stay in the unit interval and no signal is negative or \<open>NaN\<close>.
\<close>

definition DEFAULT_EWMA_ALPHA :: number where
  "DEFAULT_EWMA_ALPHA = js_num (35 / 100)"

definition DEFAULT_NETWORK_WARN_LOSS_RATE :: number where
  "DEFAULT_NETWORK_WARN_LOSS_RATE = js_num (4 / 100)"

definition DEFAULT_NETWORK_WARN_RTT_MS :: number where
  "DEFAULT_NETWORK_WARN_RTT_MS = Fin 220"

definition DEFAULT_NETWORK_CONGESTED_UTILIZATION :: number where
  "DEFAULT_NETWORK_CONGESTED_UTILIZATION = js_num (65 / 100)"

definition DEFAULT_CPU_REASON_MIN_SAMPLES :: number where
  "DEFAULT_CPU_REASON_MIN_SAMPLES = Fin 2"

definition asFiniteOrUndefined :: "number option \<Rightarrow> number option" where
  "asFiniteOrUndefined v = (case v of Some n \<Rightarrow> if is_finite n then Some n else None | None \<Rightarrow> None)"

definition asFiniteOrZero :: "number option \<Rightarrow> number" where
  "asFiniteOrZero v = (case v of Some n \<Rightarrow> if is_finite n then n else Fin 0 | None \<Rightarrow> Fin 0)"

definition clampToUnitRange :: "number \<Rightarrow> number" where
  "clampToUnitRange v =
     (if js_lt v (Fin 0) then Fin 0 else if js_gt v (Fin 1) then Fin 1 else v)"

definition computeCounterDelta :: "number option \<Rightarrow> number option \<Rightarrow> number" where
  "computeCounterDelta currentValue previousValue =
     (let current = asFiniteOrZero currentValue; previous = asFiniteOrZero previousValue
      in if js_le current previous then Fin 0 else js_sub current previous)"

definition computeBitrateBps ::
    "number option \<Rightarrow> number option \<Rightarrow> number \<Rightarrow> number option \<Rightarrow> number" where
  "computeBitrateBps currentBytesSent previousBytesSent currentTimestampMs previousTimestampMs =
     (let deltaBytes = computeCounterDelta currentBytesSent previousBytesSent;
          previousTs = asFiniteOrZero previousTimestampMs
      in if \<not> is_finite currentTimestampMs \<or> js_le currentTimestampMs previousTs
            \<or> js_le deltaBytes (Fin 0)
         then Fin 0
         else let deltaMs = js_sub currentTimestampMs previousTs
              in js_div (js_mul (js_mul deltaBytes (Fin 8)) (Fin 1000)) deltaMs)"

definition computeLossRate :: "number option \<Rightarrow> number option \<Rightarrow> number" where
  "computeLossRate packetsSentDelta packetsLostDelta =
     (let sent = js_max (Fin 0) (asFiniteOrZero packetsSentDelta);
          lost = js_max (Fin 0) (asFiniteOrZero packetsLostDelta);
          total = js_add sent lost
      in if js_le total (Fin 0) then Fin 0 else clampToUnitRange (js_div lost total))"

definition computeEwma :: "number option \<Rightarrow> number option \<Rightarrow> number option \<Rightarrow> number" where
  "computeEwma currentValue previousEwma alpha =
     (let current = asFiniteOrZero currentValue;
          prev = asFiniteOrZero previousEwma;
          safeAlpha = clampToUnitRange
            (asFiniteOrZero (case alpha of None \<Rightarrow> Some DEFAULT_EWMA_ALPHA | Some a \<Rightarrow> Some a))
      in if js_le safeAlpha (Fin 0) then prev
         else if js_ge safeAlpha (Fin 1) then current
         else if asFiniteOrUndefined previousEwma = None then current
         else js_add (js_mul safeAlpha current) (js_mul (js_sub (Fin 1) safeAlpha) prev))"

definition computeBitrateUtilization ::
    "number option \<Rightarrow> number option \<Rightarrow> number option \<Rightarrow> number" where
  "computeBitrateUtilization sendBitrateBps targetBitrateBps configuredBitrateBps =
     (let send = js_max (Fin 0) (asFiniteOrZero sendBitrateBps);
          target = js_max (Fin 0) (asFiniteOrZero targetBitrateBps);
          configured = js_max (Fin 0) (asFiniteOrZero configuredBitrateBps);
          denominator = (if js_gt target (Fin 0) then target else configured)
      in if js_le denominator (Fin 0) then (if js_gt send (Fin 0) then Fin 1 else Fin 0)
         else js_div send denominator)"

record reason_context =
  rc_activeOverride :: bool
  rc_manual :: bool
  rc_cpuSampleCount :: "number option"

definition classifyReason ::
    "bool \<Rightarrow> bool \<Rightarrow> number \<Rightarrow> number \<Rightarrow> reason_context \<Rightarrow> qos_reason" where
  "classifyReason bandwidthLimited cpuLimited lossEwma rttEwma context =
     (if rc_activeOverride context then RServerOverride
      else if rc_manual context then RManual
      else let cpuSampleCount = js_floor (asFiniteOrZero (rc_cpuSampleCount context))
           in if cpuLimited \<and> js_ge cpuSampleCount DEFAULT_CPU_REASON_MIN_SAMPLES then RCpu
              else if bandwidthLimited \<or> js_ge lossEwma DEFAULT_NETWORK_WARN_LOSS_RATE
                      \<or> js_ge rttEwma DEFAULT_NETWORK_WARN_RTT_MS
                   then RNetwork
                   else RUnknown)"

definition deriveSignals ::
    "raw_snapshot \<Rightarrow> raw_snapshot option \<Rightarrow> signals option \<Rightarrow> number option \<Rightarrow> reason_context
       \<Rightarrow> signals" where
  "deriveSignals current previous previousSignals ewmaAlpha reasonContext =
     (let packetsSentDelta = computeCounterDelta (rs_packetsSent current)
            (Option.bind previous rs_packetsSent);
          packetsLostDelta = computeCounterDelta (rs_packetsLost current)
            (Option.bind previous rs_packetsLost);
          retransmittedPacketsSentDelta =
            computeCounterDelta (rs_retransmittedPacketsSent current)
              (Option.bind previous rs_retransmittedPacketsSent);
          sendBitrateBps = computeBitrateBps (rs_bytesSent current)
            (Option.bind previous rs_bytesSent)
            (asFiniteOrZero (Some (rs_timestampMs current))) (map_option rs_timestampMs previous);
          targetBitrateBps = js_max (Fin 0) (asFiniteOrZero (rs_targetBitrateBps current));
          bitrateUtilization = computeBitrateUtilization (Some sendBitrateBps)
            (Some targetBitrateBps) (rs_configuredBitrateBps current);
          lossRate = computeLossRate (Some packetsSentDelta) (Some packetsLostDelta);
          lossEwma = computeEwma (Some lossRate) (map_option sg_lossEwma previousSignals) ewmaAlpha;
          currentRttMs = asFiniteOrUndefined (rs_roundTripTimeMs current);
          rttMs = (case currentRttMs of
              Some x \<Rightarrow> js_max (Fin 0) x
            | None \<Rightarrow> js_max (Fin 0) (asFiniteOrZero (map_option sg_rttMs previousSignals)));
          rttEwma = (case currentRttMs of
              Some _ \<Rightarrow> computeEwma (Some rttMs) (map_option sg_rttEwma previousSignals) ewmaAlpha
            | None \<Rightarrow> asFiniteOrZero (map_option sg_rttEwma previousSignals));
          currentJitterMs = asFiniteOrUndefined (rs_jitterMs current);
          jitterMs = (case currentJitterMs of
              Some x \<Rightarrow> js_max (Fin 0) x
            | None \<Rightarrow> js_max (Fin 0) (asFiniteOrZero (map_option sg_jitterMs previousSignals)));
          jitterEwma = (case currentJitterMs of
              Some _ \<Rightarrow> computeEwma (Some jitterMs) (map_option sg_jitterEwma previousSignals) ewmaAlpha
            | None \<Rightarrow> asFiniteOrZero (map_option sg_jitterEwma previousSignals));
          qualityReason = (case rs_qualityLimitationReason current of None \<Rightarrow> LUnknown | Some r \<Rightarrow> r);
          cpuLimited = (qualityReason = LCpu);
          bandwidthLimited = (qualityReason = LBandwidth
            \<and> js_lt bitrateUtilization DEFAULT_NETWORK_CONGESTED_UTILIZATION);
          reason = classifyReason bandwidthLimited cpuLimited lossEwma rttEwma reasonContext
      in \<lparr>sg_packetsSentDelta = packetsSentDelta, sg_packetsLostDelta = packetsLostDelta,
          sg_retransmittedPacketsSentDelta = retransmittedPacketsSentDelta,
          sg_sendBitrateBps = sendBitrateBps, sg_targetBitrateBps = targetBitrateBps,
          sg_bitrateUtilization = bitrateUtilization, sg_lossRate = lossRate,
          sg_lossEwma = lossEwma, sg_rttMs = rttMs, sg_rttEwma = rttEwma,
          sg_jitterMs = jitterMs, sg_jitterEwma = jitterEwma, sg_cpuLimited = cpuLimited,
          sg_bandwidthLimited = bandwidthLimited, sg_reason = reason\<rparr>)"

section \<open>Ranges\<close>

definition nonneg_num :: "number \<Rightarrow> bool" where
  "nonneg_num x \<longleftrightarrow> js_le (Fin 0) x"

definition unit_num :: "number \<Rightarrow> bool" where
  "unit_num x \<longleftrightarrow> js_le (Fin 0) x \<and> js_le x (Fin 1)"

definition signals_ok :: "signals \<Rightarrow> bool" where
  "signals_ok s \<longleftrightarrow>
     unit_num (sg_lossRate s) \<and> unit_num (sg_lossEwma s)
     \<and> nonneg_num (sg_packetsSentDelta s) \<and> nonneg_num (sg_packetsLostDelta s)
     \<and> nonneg_num (sg_retransmittedPacketsSentDelta s)
     \<and> nonneg_num (sg_sendBitrateBps s) \<and> nonneg_num (sg_targetBitrateBps s)
     \<and> nonneg_num (sg_bitrateUtilization s)
     \<and> nonneg_num (sg_rttMs s) \<and> nonneg_num (sg_rttEwma s)
     \<and> nonneg_num (sg_jitterMs s) \<and> nonneg_num (sg_jitterEwma s)"

lemma asFiniteOrZero_cases: "\<exists>x. asFiniteOrZero v = Fin x"
  by (cases v) (auto simp: asFiniteOrZero_def elim: is_finite.elims)

lemma asFiniteOrUndefined_Some: "asFiniteOrUndefined v = Some n \<Longrightarrow> v = Some n \<and> is_finite n"
  by (auto simp: asFiniteOrUndefined_def split: option.splits if_splits)

lemma asFiniteOrZero_Fin [simp]: "asFiniteOrZero (Some (Fin x)) = Fin x"
  by (simp add: asFiniteOrZero_def)

lemma asFiniteOrZero_None [simp]: "asFiniteOrZero None = Fin 0"
  by (simp add: asFiniteOrZero_def)

lemma asFiniteOrZero_nonneg: "(\<And>n. v = Some n \<Longrightarrow> nonneg_num n) \<Longrightarrow> nonneg_num (asFiniteOrZero v)"
  by (cases v) (auto simp: asFiniteOrZero_def nonneg_num_def)

lemma asFiniteOrZero_unit: "(\<And>n. v = Some n \<Longrightarrow> unit_num n) \<Longrightarrow> unit_num (asFiniteOrZero v)"
  by (cases v) (auto simp: asFiniteOrZero_def unit_num_def)

lemma max0_nonneg [simp]: "nonneg_num (js_max (Fin 0) (asFiniteOrZero v))"
  using asFiniteOrZero_cases [of v] by (auto simp: nonneg_num_def js_max_def)

lemma max0_finite: "\<exists>x. js_max (Fin 0) (asFiniteOrZero v) = Fin x \<and> 0 \<le> x"
  using asFiniteOrZero_cases [of v] by (auto simp: js_max_def)

lemma clampToUnitRange_unit: "v \<noteq> NaN \<Longrightarrow> unit_num (clampToUnitRange v)"
  by (cases v) (auto simp: clampToUnitRange_def unit_num_def)

lemma computeCounterDelta_nonneg [simp]: "nonneg_num (computeCounterDelta c p)"
proof -
  obtain x y where "asFiniteOrZero c = Fin x" "asFiniteOrZero p = Fin y"
    using asFiniteOrZero_cases by metis
  then show ?thesis
    by (auto simp: computeCounterDelta_def nonneg_num_def js_sub_def js_num_nonneg)
qed

lemma js_mul_pos_nonneg: "nonneg_num x \<Longrightarrow> 0 < c \<Longrightarrow> nonneg_num (js_mul x (Fin c))"
  by (cases x) (auto simp: nonneg_num_def js_mul_def js_num_nonneg js_inf_def js_sgn_def)

lemma js_div_ge0: "nonneg_num x \<Longrightarrow> nonneg_num y \<Longrightarrow> \<not> js_le y (Fin 0) \<Longrightarrow> is_finite x \<or> is_finite y
    \<Longrightarrow> nonneg_num (js_div x y)"
  by (cases x; cases y) (auto simp: nonneg_num_def js_div_def js_num_nonneg js_inf_def js_sgn_def)

text \<open>A timestamp as a browser reports it: a double that is not negative, or not finite.\<close>

definition ts_ok :: "number \<Rightarrow> bool" where
  "ts_ok t \<longleftrightarrow> is_double t \<and> \<not> js_lt t (Fin 0)"

lemma asFiniteOrZero_ts: "(\<And>n. v = Some n \<Longrightarrow> ts_ok n) \<Longrightarrow>
    \<exists>x. asFiniteOrZero v = Fin x \<and> 0 \<le> x \<and> is_double (Fin x)"
  by (cases v) (auto simp: asFiniteOrZero_def ts_ok_def elim!: is_finite.elims)

lemma computeBitrateBps_nonneg:
  assumes "ts_ok t" "is_finite t" "\<And>p. pt = Some p \<Longrightarrow> ts_ok p"
  shows "nonneg_num (computeBitrateBps b pb t pt)"
proof -
  obtain y where y: "asFiniteOrZero pt = Fin y" "0 \<le> y" "is_double (Fin y)"
    using asFiniteOrZero_ts [of pt] assms(3) by blast
  obtain x where x: "t = Fin x" "is_double (Fin x)"
    using assms(1,2) by (cases t) (auto simp: ts_ok_def)
  show ?thesis
  proof (cases "x \<le> y")
    case True
    with x y show ?thesis by (simp add: computeBitrateBps_def Let_def nonneg_num_def)
  next
    case False
    then have "js_lt (Fin 0) (js_sub (Fin x) (Fin y))" and "is_finite (js_sub (Fin x) (Fin y))"
      using x y by (auto intro!: js_sub_pos js_sub_finite simp del: is_double.simps)
    then have "nonneg_num (js_div (js_mul (js_mul (computeCounterDelta b pb) (Fin 8)) (Fin 1000))
        (js_sub (Fin x) (Fin y)))"
      by (intro js_div_ge0 js_mul_pos_nonneg)
         (auto simp: nonneg_num_def js_lt_imp_le js_lt_imp_not_le intro: computeCounterDelta_nonneg
            [unfolded nonneg_num_def])
    with x y show ?thesis
      by (auto simp: computeBitrateBps_def Let_def nonneg_num_def)
  qed
qed

lemma computeBitrateUtilization_nonneg: "nonneg_num (computeBitrateUtilization s t c)"
proof -
  obtain x y z where "js_max (Fin 0) (asFiniteOrZero s) = Fin x" "0 \<le> x"
    "js_max (Fin 0) (asFiniteOrZero t) = Fin y" "0 \<le> y"
    "js_max (Fin 0) (asFiniteOrZero c) = Fin z" "0 \<le> z"
    using max0_finite by metis
  then show ?thesis
    by (auto simp: computeBitrateUtilization_def Let_def nonneg_num_def js_div_def js_num_nonneg)
qed

lemma computeLossRate_unit: "unit_num (computeLossRate s l)"
proof -
  obtain x y where s: "js_max (Fin 0) (asFiniteOrZero s) = Fin x" "0 \<le> x"
    and l: "js_max (Fin 0) (asFiniteOrZero l) = Fin y" "0 \<le> y"
    using max0_finite by metis
  have "\<not> js_le (js_num (x + y)) (Fin 0) \<Longrightarrow> js_div (Fin y) (js_num (x + y)) \<noteq> NaN"
    by (cases "js_num (x + y)") (auto simp: js_div_def)
  with s l show ?thesis
    by (auto simp: computeLossRate_def Let_def unit_num_def
        intro: clampToUnitRange_unit [unfolded unit_num_def, THEN conjunct1]
          clampToUnitRange_unit [unfolded unit_num_def, THEN conjunct2])
qed

lemma round64_complement:
  assumes "0 < a" "a < 1"
  shows "round64 (1 - a) \<le> 1 - a + 1 / 2 ^ 54"
proof -
  have "ulp_exp (1 - a) \<le> -53"
    using assms by (intro ulp_exp_le) auto
  then have "(2::rat) powi (ulp_exp (1 - a)) \<le> 2 powi (-53)"
    by (intro power_int_increasing) auto
  moreover have "(2::rat) powi (-53) = 2 * (1 / 2 ^ 54)" by simp
  moreover have "\<bar>round64 (1 - a) - (1 - a)\<bar> \<le> 2 powi (ulp_exp (1 - a)) / 2"
    using assms by (intro round64_err) auto
  ultimately show ?thesis by linarith
qed

lemma ewma_unit_core:
  assumes "0 < a" "a < 1" "round64 a = a" "0 \<le> c" "c \<le> 1" "0 \<le> p" "p \<le> 1"
  shows "unit_num (js_add (js_mul (Fin a) (Fin c)) (js_mul (js_sub (Fin 1) (Fin a)) (Fin p)))"
proof -
  let ?b = "round64 (1 - a)"
  have b: "0 \<le> ?b" "?b \<le> 1" and bb: "round64 ?b = ?b"
    using r64.unit_range [of "1 - a"] assms by auto
  have ac: "0 \<le> round64 (a * c)" "round64 (a * c) \<le> a"
    using r64.scaled_le [of a c] r64.nonneg [of "a * c"] assms by auto
  have bp: "0 \<le> round64 (?b * p)" "round64 (?b * p) \<le> ?b"
    using r64.scaled_le [of ?b p] r64.nonneg [of "?b * p"] assms b bb by auto
  let ?s = "round64 (a * c) + round64 (?b * p)"
  have "?s \<le> a + (1 - a + 1 / 2 ^ 54)"
    using ac(2) bp(2) round64_complement [OF assms(1,2)] by linarith
  then have "?s \<le> 1 + 1 / 2 ^ 53" by simp
  then have r: "0 \<le> round64 ?s" "round64 ?s \<le> 1"
    using round64_le_one r64.nonneg [of ?s] ac(1) bp(1) by auto
  have le: "a * c \<le> 1" "?b * p \<le> 1"
    using assms b by (simp_all add: mult_le_one)
  have small: "js_num x = Fin (round64 x)" if "0 \<le> x" "x \<le> 2" for x
    using that by (intro js_num_Fin) auto
  have eqs: "js_mul (Fin a) (Fin c) = Fin (round64 (a * c))"
    "js_sub (Fin 1) (Fin a) = Fin ?b" "js_mul (Fin ?b) (Fin p) = Fin (round64 (?b * p))"
    "js_add (Fin (round64 (a * c))) (Fin (round64 (?b * p))) = Fin (round64 ?s)"
    using assms b ac bp le by (simp_all add: js_mul_def js_sub_def small)
  show ?thesis using r by (simp only: eqs unit_num_def js_le_simps)
qed

definition alpha_ok :: "number option \<Rightarrow> bool" where
  "alpha_ok alpha \<longleftrightarrow> (case alpha of None \<Rightarrow> True | Some a \<Rightarrow> is_double a)"

lemma safeAlpha_cases:
  assumes "alpha_ok alpha"
  obtains a where "clampToUnitRange (asFiniteOrZero
      (case alpha of None \<Rightarrow> Some DEFAULT_EWMA_ALPHA | Some a \<Rightarrow> Some a)) = Fin a"
    "0 \<le> a" "a \<le> 1" "round64 a = a"
proof -
  let ?v = "asFiniteOrZero (case alpha of None \<Rightarrow> Some DEFAULT_EWMA_ALPHA | Some a \<Rightarrow> Some a)"
  have d: "is_double ?v"
    using assms by (cases alpha) (auto simp: asFiniteOrZero_def alpha_ok_def DEFAULT_EWMA_ALPHA_def
        simp del: is_double.simps(1) simp add: is_double.simps(1) [of 0])
  obtain x where x: "?v = Fin x" using asFiniteOrZero_cases by auto
  with d have "round64 x = x" by simp
  then consider "x < 0" | "1 < x" | "0 \<le> x" "x \<le> 1" "round64 x = x" by linarith
  then show ?thesis
    by cases (use x r64.one in \<open>auto simp: clampToUnitRange_def intro: that [of 0] that [of 1] that [of x]\<close>)
qed

lemma computeEwma_unit:
  assumes "unit_num c" "\<And>p. pe = Some p \<Longrightarrow> unit_num p" "alpha_ok alpha"
  shows "unit_num (computeEwma (Some c) pe alpha)"
proof -
  obtain a where a: "clampToUnitRange (asFiniteOrZero
      (case alpha of None \<Rightarrow> Some DEFAULT_EWMA_ALPHA | Some a \<Rightarrow> Some a)) = Fin a"
    "0 \<le> a" "a \<le> 1" "round64 a = a"
    using assms(3) by (rule safeAlpha_cases)
  obtain x y where x: "asFiniteOrZero (Some c) = Fin x" "0 \<le> x" "x \<le> 1"
    and y: "asFiniteOrZero pe = Fin y" "0 \<le> y" "y \<le> 1"
    using asFiniteOrZero_unit [of "Some c"] asFiniteOrZero_unit [of pe] assms(1,2)
      asFiniteOrZero_cases [of "Some c"] asFiniteOrZero_cases [of pe]
    by (auto simp: unit_num_def)
  have "0 < a \<Longrightarrow> a < 1 \<Longrightarrow>
      unit_num (js_add (js_mul (Fin a) (Fin x)) (js_mul (js_sub (Fin 1) (Fin a)) (Fin y)))"
    using a x y by (intro ewma_unit_core) auto
  with a x y show ?thesis
    by (auto simp: computeEwma_def Let_def unit_num_def)
qed

lemma computeEwma_nonneg:
  assumes "nonneg_num c" "\<And>p. pe = Some p \<Longrightarrow> nonneg_num p" "alpha_ok alpha"
  shows "nonneg_num (computeEwma (Some c) pe alpha)"
proof -
  obtain a where a: "clampToUnitRange (asFiniteOrZero
      (case alpha of None \<Rightarrow> Some DEFAULT_EWMA_ALPHA | Some a \<Rightarrow> Some a)) = Fin a"
    "0 \<le> a" "a \<le> 1" "round64 a = a"
    using assms(3) by (rule safeAlpha_cases)
  obtain x y where x: "asFiniteOrZero (Some c) = Fin x" "0 \<le> x"
    and y: "asFiniteOrZero pe = Fin y" "0 \<le> y"
    using asFiniteOrZero_nonneg [of "Some c"] asFiniteOrZero_nonneg [of pe] assms(1,2)
      asFiniteOrZero_cases [of "Some c"] asFiniteOrZero_cases [of pe]
    by (auto simp: nonneg_num_def)
  have b: "js_sub (Fin 1) (Fin a) = Fin (round64 (1 - a))" "0 \<le> round64 (1 - a)"
    using a r64.nonneg [of "1 - a"] by (simp_all add: js_sub_def js_num_Fin)
  have "nonneg_num (js_add (js_mul (Fin a) (Fin x)) (js_mul (js_sub (Fin 1) (Fin a)) (Fin y)))"
    unfolding b(1) nonneg_num_def
    by (intro js_add_nonneg js_mul_nonneg) (use a x y b in auto)
  with a x y show ?thesis
    by (auto simp: computeEwma_def Let_def nonneg_num_def)
qed

section \<open>A finite bitrate\<close>

text \<open>Byte counts and timestamps within the range of real reports: up to 2^40 bytes, times in
  units of 1/4096 ms (what a double resolves at the current epoch).\<close>

definition stamp_ok :: "number \<Rightarrow> bool" where
  "stamp_ok t \<longleftrightarrow> (\<exists>q. t = Fin (of_int q / 4096) \<and> 0 \<le> q \<and> q \<le> 2 ^ 53)"

definition bytes_ok :: "number option \<Rightarrow> bool" where
  "bytes_ok b \<longleftrightarrow> (\<forall>n. b = Some n \<longrightarrow> (\<exists>k. n = Fin (of_int k) \<and> 0 \<le> k \<and> k \<le> 2 ^ 40))"

lemma round64_stamp: "\<bar>q\<bar> \<le> 2 ^ 53 \<Longrightarrow> round64 (of_int q / 4096) = of_int q / 4096"
proof (cases "\<bar>q\<bar> = 2 ^ 53")
  case True
  then have "q = 2 ^ 53 \<or> q = - (2 ^ 53)" by linarith
  then have "(of_int q :: rat) / 4096 = of_int (2 ^ 41) \<or> (of_int q :: rat) / 4096 = of_int (- (2 ^ 41))" by auto
  then show ?thesis using round64_of_int [of "2 ^ 41"] round64_of_int [of "- (2 ^ 41)"] by auto
next
  case False
  assume "\<bar>q\<bar> \<le> 2 ^ 53"
  with False have q: "\<bar>q\<bar> < 2 ^ 53" by linarith
  have x: "(of_int q :: rat) / 4096 = of_int q * 2 powi (-12)" by (simp add: power_int_minus)
  show ?thesis
  proof (cases "q = 0")
    case False
    have "of_int \<bar>q\<bar> < (of_int (2 ^ 53) :: rat)" using q by (simp only: of_int_less_iff)
    then have "\<bar>(of_int q :: rat) / 4096\<bar> < 2 powi (-12 + 53)" by (simp add: abs_mult)
    with False show ?thesis by (intro round64_exact [OF x] ulp_exp_le) auto
  qed simp
qed

lemma js_num_stamp: "\<bar>q\<bar> \<le> 2 ^ 53 \<Longrightarrow> js_num (of_int q / 4096) = Fin (of_int q / 4096)"
proof -
  assume q: "\<bar>q\<bar> \<le> 2 ^ 53"
  then have "of_int \<bar>q\<bar> \<le> (of_int (2 ^ 53) :: rat)" by (simp only: of_int_le_iff)
  then have "\<bar>(of_int q :: rat) / 4096\<bar> \<le> 2 ^ 53" by (simp add: abs_mult)
  from js_num_Fin [OF this] round64_stamp [OF q] show ?thesis by simp
qed

lemma stamp_ok_ts: "stamp_ok t \<Longrightarrow> ts_ok t"
proof -
  assume "stamp_ok t"
  then obtain q where q: "t = Fin (of_int q / 4096)" "0 \<le> q" "q \<le> 2 ^ 53" by (auto simp: stamp_ok_def)
  then have "is_double t" using is_double_js_num [of "of_int q / 4096"] js_num_stamp [of q] by simp
  then show ?thesis using q by (simp add: ts_ok_def)
qed

lemma bytes_ok_zero:
  assumes "bytes_ok b"
  obtains k where "asFiniteOrZero b = Fin (of_int k)" "0 \<le> k" "k \<le> 2 ^ 40"
  using assms by (cases b) (auto simp: bytes_ok_def asFiniteOrZero_def intro: that [of 0] that)

lemma computeCounterDelta_bytes:
  assumes "bytes_ok b" "bytes_ok pb"
  obtains d where "computeCounterDelta b pb = Fin (of_int d)" "0 \<le> d" "d \<le> 2 ^ 40"
proof -
  obtain k l where k: "asFiniteOrZero b = Fin (of_int k)" "0 \<le> k" "k \<le> 2 ^ 40"
    and l: "asFiniteOrZero pb = Fin (of_int l)" "0 \<le> l" "l \<le> 2 ^ 40"
    using bytes_ok_zero assms by metis
  have j: "js_num (of_int (k - l)) = Fin (of_int (k - l))" using k l by (intro js_num_of_int) simp
  show thesis
  proof (cases "k \<le> l")
    case True
    then show thesis using k l by (intro that [of 0]) (simp_all add: computeCounterDelta_def)
  next
    case False
    then show thesis using k l j by (intro that [of "k - l"]) (simp_all add: computeCounterDelta_def js_sub_def)
  qed
qed

lemma computeBitrateBps_finite:
  assumes "bytes_ok b" "bytes_ok pb" "stamp_ok t" "\<And>p. pt = Some p \<Longrightarrow> stamp_ok p"
  shows "is_finite (computeBitrateBps b pb t pt)"
proof -
  obtain d where d: "computeCounterDelta b pb = Fin (of_int d)" "0 \<le> d" "d \<le> 2 ^ 40"
    by (rule computeCounterDelta_bytes [OF assms(1,2)])
  obtain q where q: "t = Fin (of_int q / 4096)" "0 \<le> q" "q \<le> 2 ^ 53" using assms(3) by (auto simp: stamp_ok_def)
  have "stamp_ok (Fin 0)" by (auto simp: stamp_ok_def intro: exI [of _ 0])
  then have "stamp_ok (asFiniteOrZero pt)" using assms(4) by (cases pt) (auto simp: asFiniteOrZero_def)
  then obtain r where r: "asFiniteOrZero pt = Fin (of_int r / 4096)" "0 \<le> r" "r \<le> 2 ^ 53" by (auto simp: stamp_ok_def)
  show ?thesis
  proof (cases "q \<le> r \<or> d = 0")
    case True
    then show ?thesis using d q r by (auto simp: computeBitrateBps_def Let_def divide_right_mono)
  next
    case False
    have sub: "js_sub t (asFiniteOrZero pt) = Fin (of_int (q - r) / 4096)"
      using js_num_stamp [of "q - r"] q r by (simp add: js_sub_def diff_divide_distrib)
    have m1: "js_mul (Fin (of_int d)) (Fin 8) = Fin (of_int (d * 8))"
      using js_num_of_int [of "d * 8"] d by (simp add: js_mul_def)
    have m2: "js_mul (Fin (of_int (d * 8))) (Fin 1000) = Fin (of_int (d * 8 * 1000))"
      using js_num_of_int [of "d * 8 * 1000"] d by (simp add: js_mul_def)
    have div_le: "0 \<le> a \<Longrightarrow> 1 \<le> b \<Longrightarrow> a / b \<le> a" for a b :: rat
      by (simp add: divide_le_eq mult_le_cancel_left1)
    let ?x = "of_int (d * 8 * 1000) / (of_int (q - r) / 4096) :: rat"
    have "?x = of_int (d * 8 * 1000 * 4096) / of_int (q - r)" by simp
    also have "\<dots> \<le> of_int (d * 8 * 1000 * 4096)"
      by (rule div_le) (use False d in \<open>simp_all del: of_int_diff\<close>)
    also have "\<dots> \<le> of_int (2 ^ 40 * 8 * 1000 * 4096)" using d by (simp only: of_int_le_iff)
    also have "\<dots> \<le> 2 ^ 100" by simp
    finally have "?x \<le> 2 ^ 100" .
    moreover have "0 \<le> ?x" using False d by simp
    ultimately have "\<bar>?x\<bar> \<le> 2 ^ 100" by (simp only: abs_of_nonneg)
    then have "js_num ?x = Fin (round64 ?x)" by (rule js_num_bounded(1))
    then have "is_finite (js_div (Fin (of_int (d * 8 * 1000))) (Fin (of_int (q - r) / 4096)))"
      using False by (simp add: js_div_def)
    then show ?thesis
      unfolding computeBitrateBps_def Let_def d(1) sub m1 m2 by simp
  qed
qed

section \<open>Properties\<close>

definition raw_zero :: raw_snapshot where
  "raw_zero = \<lparr>rs_timestampMs = Fin 1000, rs_trackId = Some ''t'', rs_producerId = Some ''p'',
     rs_source = Camera, rs_kind = KVideo, rs_bytesSent = Some (Fin 125000),
     rs_packetsSent = Some (Fin 90), rs_packetsLost = Some (Fin 10),
     rs_retransmittedPacketsSent = None, rs_targetBitrateBps = Some (Fin 1000000),
     rs_configuredBitrateBps = None, rs_roundTripTimeMs = Some (Fin 100),
     rs_jitterMs = None, rs_frameWidth = None, rs_frameHeight = None, rs_framesPerSecond = None,
     rs_qualityLimitationReason = Some LBandwidth, rs_qualityLimitationDurationsSec = None\<rparr>"

lemmas derive_defs = deriveSignals_def Let_def signals_ok_def

lemma max0_Some_nonneg: "asFiniteOrUndefined v = Some x \<Longrightarrow> nonneg_num (js_max (Fin 0) x)"
  using asFiniteOrUndefined_Some [of v x] by (cases x) (auto simp: nonneg_num_def js_max_def)

lemma rtt_signals_nonneg:
  assumes "\<And>p. ps = Some p \<Longrightarrow> nonneg_num (f p)" "alpha_ok alpha" "nonneg_num r"
  shows "nonneg_num (case v of
      Some (_ :: number) \<Rightarrow> computeEwma (Some r) (map_option f ps) alpha
    | None \<Rightarrow> asFiniteOrZero (map_option f ps))"
  using assms by (auto split: option.splits intro!: computeEwma_nonneg asFiniteOrZero_nonneg)

lemma derived_signals_ok:
  assumes prevs: "\<And>p. previousSignals = Some p \<Longrightarrow> signals_ok p"
    and ts: "ts_ok (rs_timestampMs current)"
    and pts: "\<And>p. previous = Some p \<Longrightarrow> ts_ok (rs_timestampMs p)"
    and alpha: "alpha_ok alpha"
  shows "signals_ok (deriveSignals current previous previousSignals alpha ctx)"
proof -
  have t: "ts_ok (asFiniteOrZero (Some (rs_timestampMs current)))"
    "is_finite (asFiniteOrZero (Some (rs_timestampMs current)))"
    using ts by (auto simp: ts_ok_def asFiniteOrZero_def simp del: is_double.simps
        intro: is_double.simps(1) [of 0, THEN iffD2])
  have p: "\<And>q. map_option rs_timestampMs previous = Some q \<Longrightarrow> ts_ok q"
    using pts by auto
  have loss: "\<And>q. map_option sg_lossEwma previousSignals = Some q \<Longrightarrow> unit_num q"
    using prevs by (auto simp: signals_ok_def)
  have rtt: "\<And>q. previousSignals = Some q \<Longrightarrow> nonneg_num (sg_rttEwma q)"
    and jit: "\<And>q. previousSignals = Some q \<Longrightarrow> nonneg_num (sg_jitterEwma q)"
    using prevs by (auto simp: signals_ok_def)
  have raw: "nonneg_num (case asFiniteOrUndefined v of Some x \<Rightarrow> js_max (Fin 0) x
      | None \<Rightarrow> js_max (Fin 0) (asFiniteOrZero w))" for v w
    by (auto split: option.splits intro: max0_Some_nonneg)
  show ?thesis
    unfolding derive_defs
    by (simp only: signals.simps computeLossRate_unit computeCounterDelta_nonneg max0_nonneg
        computeBitrateUtilization_nonneg raw)
       (intro conjI TrueI computeEwma_unit [OF computeLossRate_unit loss alpha]
          computeBitrateBps_nonneg [OF t p] rtt_signals_nonneg [OF rtt alpha raw]
          rtt_signals_nonneg [OF jit alpha raw])
qed

text \<open>C40: whatever the browser reports (missing, non-finite, negative or reset counters, and
  timestamps that go backwards), the derived signals are well formed: the loss rate and its moving
  average lie in the unit interval under IEEE rounding, and no bitrate, utilisation, round trip
  time or jitter is negative or \<open>NaN\<close>. The property is inductive in the previous signals.\<close>

theorem deriveSignals_ok:
  assumes prevs: "\<And>p. previousSignals = Some p \<Longrightarrow> signals_ok p"
    and ts: "ts_ok (rs_timestampMs current)"
    and pts: "\<And>p. previous = Some p \<Longrightarrow> ts_ok (rs_timestampMs p)"
    and alpha: "alpha_ok alpha"
  shows "signals_ok (deriveSignals current previous previousSignals alpha ctx)"
  by (rule derived_signals_ok [OF prevs ts pts alpha])

theorem deriveSignals_ok_witness:
  "signals_ok (deriveSignals raw_zero None None None \<lparr>rc_activeOverride = False, rc_manual = False,
     rc_cpuSampleCount = Some (Fin 0)\<rparr>)"
proof (rule deriveSignals_ok)
  show "ts_ok (rs_timestampMs raw_zero)"
    by (simp add: ts_ok_def raw_zero_def) code_simp
qed (auto simp: alpha_ok_def)

end
