(* ===== verification/StateMachine.thy ===== *)
theory StateMachine
  imports Profiles Signals
begin

text \<open>
  src/src/client/lib/qos/stateMachine.js: the sample-driven state machine of one track (stable,
  early warning, congested, recovering). Every predicate and the transition function of the file
  are here; the context record has the source's fields, times and counters are numbers. The lemmas
  relate the counters to the history of samples, bound when each edge can be taken and show that
  sustained congestion and sustained health are acted on.
\<close>

record state_context =
  sc_state :: qos_state
  sc_enteredAtMs :: number
  sc_lastCongestedAtMs :: "number option"
  sc_lastRecoveryAtMs :: "number option"
  sc_consecutiveHealthySamples :: number
  sc_consecutiveRecoverySamples :: "number option"
  sc_consecutiveFastRecoverySamples :: "number option"
  sc_consecutiveWarningSamples :: number
  sc_consecutiveCongestedSamples :: number

definition isWarning :: "signals \<Rightarrow> profile \<Rightarrow> bool" where
  "isWarning s p =
     (let th = pf_thresholds p; warnJitterMs = jitter_bound (th_warnJitterMs th)
      in js_ge (sg_lossEwma s) (th_warnLossRate th)
         \<or> js_ge (sg_rttEwma s) (th_warnRttMs th)
         \<or> js_ge (sg_jitterEwma s) warnJitterMs
         \<or> sg_bandwidthLimited s \<or> sg_cpuLimited s)"

definition isCongested :: "signals \<Rightarrow> profile \<Rightarrow> bool" where
  "isCongested s p =
     (let th = pf_thresholds p; congestedJitterMs = jitter_bound (th_congestedJitterMs th)
      in sg_bandwidthLimited s
         \<or> js_ge (sg_lossEwma s) (th_congestedLossRate th)
         \<or> js_ge (sg_rttEwma s) (th_congestedRttMs th)
         \<or> js_ge (sg_jitterEwma s) congestedJitterMs)"

definition isHealthy :: "signals \<Rightarrow> profile \<Rightarrow> bool" where
  "isHealthy s p =
     (let th = pf_thresholds p; stableJitterMs = jitter_bound (th_stableJitterMs th)
      in js_lt (sg_lossEwma s) (th_stableLossRate th)
         \<and> js_lt (sg_rttEwma s) (th_stableRttMs th)
         \<and> js_lt (sg_jitterEwma s) stableJitterMs
         \<and> \<not> sg_bandwidthLimited s \<and> \<not> sg_cpuLimited s)"

definition recovery_jitter_ms :: "thresholds \<Rightarrow> number" where
  "recovery_jitter_ms th =
     (let stableJitterMs = jitter_bound (th_stableJitterMs th);
          warnJitterMs = (case th_warnJitterMs th of
              Some n \<Rightarrow> if is_finite n then n else stableJitterMs | None \<Rightarrow> stableJitterMs)
      in js_max stableJitterMs warnJitterMs)"

definition isRecoveryHealthy :: "signals \<Rightarrow> profile \<Rightarrow> bool" where
  "isRecoveryHealthy s p =
     (let th = pf_thresholds p; recoveryJitterMs = recovery_jitter_ms th
      in js_lt (sg_lossEwma s) (th_stableLossRate th)
         \<and> js_lt (sg_rttEwma s) (th_stableRttMs th)
         \<and> js_lt (sg_jitterEwma s) recoveryJitterMs
         \<and> \<not> sg_bandwidthLimited s \<and> \<not> sg_cpuLimited s)"

definition isFastRecoveryHealthy :: "signals \<Rightarrow> profile \<Rightarrow> bool" where
  "isFastRecoveryHealthy s p =
     (let th = pf_thresholds p; recoveryJitterMs = recovery_jitter_ms th;
          rawJitterMs = (if is_finite (sg_jitterMs s) then js_max (Fin 0) (sg_jitterMs s) else PosInf);
          targetBitrateBps = js_max (Fin 0) (sg_targetBitrateBps s);
          sendReady = (js_le targetBitrateBps (Fin 0)
            \<or> js_ge (sg_sendBitrateBps s) (js_mul targetBitrateBps (js_num (85 / 100))))
      in js_lt (sg_lossEwma s) (th_stableLossRate th)
         \<and> js_lt (sg_rttEwma s) (th_stableRttMs th)
         \<and> js_lt rawJitterMs recoveryJitterMs
         \<and> sendReady
         \<and> \<not> sg_bandwidthLimited s \<and> \<not> sg_cpuLimited s)"

definition nextCounter :: "number \<Rightarrow> bool \<Rightarrow> number" where
  "nextCounter current matched = (if matched then js_add current (Fin 1) else Fin 0)"

definition createInitialQosStateMachineContext :: "number \<Rightarrow> state_context" where
  "createInitialQosStateMachineContext nowMs = \<lparr>
     sc_state = Stable, sc_enteredAtMs = nowMs,
     sc_lastCongestedAtMs = None, sc_lastRecoveryAtMs = None,
     sc_consecutiveHealthySamples = Fin 0, sc_consecutiveRecoverySamples = Some (Fin 0),
     sc_consecutiveFastRecoverySamples = Some (Fin 0),
     sc_consecutiveWarningSamples = Fin 0, sc_consecutiveCongestedSamples = Fin 0\<rparr>"

definition mapStateToQuality :: "qos_state \<Rightarrow> signals \<Rightarrow> qos_quality" where
  "mapStateToQuality st s =
     (if st = Congested \<and> js_le (sg_sendBitrateBps s) (Fin 0) then Lost
      else case st of
        Stable \<Rightarrow> Excellent | EarlyWarning \<Rightarrow> Good | Congested \<Rightarrow> Poor | Recovering \<Rightarrow> Good)"

definition or_zero :: "number option \<Rightarrow> number" where
  "or_zero x = (case x of None \<Rightarrow> Fin 0 | Some n \<Rightarrow> n)"

text \<open>The counters after a sample, before any transition.\<close>

definition count_sample :: "state_context \<Rightarrow> signals \<Rightarrow> profile \<Rightarrow> state_context" where
  "count_sample c s p =
     (let recoveryHealthy = isRecoveryHealthy s p;
          fastRecoveryHealthy = (\<not> recoveryHealthy \<and> isFastRecoveryHealthy s p)
      in c\<lparr>sc_consecutiveHealthySamples :=
             nextCounter (sc_consecutiveHealthySamples c) (isHealthy s p),
           sc_consecutiveRecoverySamples :=
             Some (nextCounter (or_zero (sc_consecutiveRecoverySamples c)) recoveryHealthy),
           sc_consecutiveFastRecoverySamples :=
             Some (nextCounter (or_zero (sc_consecutiveFastRecoverySamples c)) fastRecoveryHealthy),
           sc_consecutiveWarningSamples :=
             nextCounter (sc_consecutiveWarningSamples c) (isWarning s p),
           sc_consecutiveCongestedSamples :=
             nextCounter (sc_consecutiveCongestedSamples c) (isCongested s p)\<rparr>)"

text \<open>The state the switch of \<open>evaluateStateTransition\<close> chooses from the old context \<open>c\<close> and
  the counted context \<open>n\<close>.\<close>

definition next_state :: "state_context \<Rightarrow> state_context \<Rightarrow> profile \<Rightarrow> number \<Rightarrow> qos_state" where
  "next_state c n p nowMs =
     (case sc_state c of
        Stable \<Rightarrow> if js_ge (sc_consecutiveWarningSamples n) (Fin 2) then EarlyWarning else Stable
      | EarlyWarning \<Rightarrow>
          if js_ge (sc_consecutiveCongestedSamples n) (Fin 2) then Congested
          else if js_ge (sc_consecutiveHealthySamples n) (Fin 3) then Stable else EarlyWarning
      | Congested \<Rightarrow>
          let congestedSinceMs = (case sc_lastCongestedAtMs c of
                Some t \<Rightarrow> t | None \<Rightarrow> sc_enteredAtMs c);
              cooldownElapsed = js_ge (js_sub nowMs congestedSinceMs) (pf_recoveryCooldownMs p);
              regularRecoveryReady = js_ge (or_zero (sc_consecutiveRecoverySamples n)) (Fin 5);
              fastRecoveryReady = js_ge (or_zero (sc_consecutiveFastRecoverySamples n)) (Fin 2)
          in if cooldownElapsed \<and> (regularRecoveryReady \<or> fastRecoveryReady)
             then Recovering else Congested
      | Recovering \<Rightarrow>
          if js_ge (sc_consecutiveCongestedSamples n) (Fin 2) then Congested
          else if js_ge (sc_consecutiveHealthySamples n) (Fin 5) then Stable else Recovering)"

definition evaluateStateTransition ::
    "state_context \<Rightarrow> signals \<Rightarrow> profile \<Rightarrow> number \<Rightarrow> state_context \<times> qos_quality \<times> bool" where
  "evaluateStateTransition c s p nowMs =
     (let n = count_sample c s p;
          st = next_state c n p nowMs;
          transitioned = (st \<noteq> sc_state c);
          n1 = (if transitioned then n\<lparr>sc_state := st, sc_enteredAtMs := nowMs\<rparr> else n);
          n2 = (if transitioned \<and> st = Congested then n1\<lparr>sc_lastCongestedAtMs := Some nowMs\<rparr> else n1);
          n3 = (if transitioned \<and> st = Recovering then n2\<lparr>sc_lastRecoveryAtMs := Some nowMs\<rparr> else n2)
      in (n3, mapStateToQuality (sc_state n3) s, transitioned))"

section \<open>Exclusive predicates\<close>

lemma jitter_bound_not_NaN [simp]: "jitter_bound t \<noteq> NaN"
  by (auto simp: jitter_bound_def split: option.splits elim: is_finite.elims)

lemma isHealthy_not_warning:
  assumes "thresholds_ordered (pf_thresholds p)" "isHealthy s p"
  shows "\<not> isWarning s p"
  using assms unfolding isHealthy_def isWarning_def thresholds_ordered_def Let_def
  by (blast dest: js_lt_le_trans js_lt_imp_not_le)

lemma isCongested_warning:
  assumes "thresholds_ordered (pf_thresholds p)" "isCongested s p"
  shows "isWarning s p"
  using assms unfolding isCongested_def isWarning_def thresholds_ordered_def Let_def
  by (blast intro: js_le_trans)



lemma isHealthy_not_congested:
  "thresholds_ordered (pf_thresholds p) \<Longrightarrow> isHealthy s p \<Longrightarrow> \<not> isCongested s p"
  using isHealthy_not_warning isCongested_warning by blast

section \<open>Counters\<close>

text \<open>A counter saturates at \<open>2 ^ 53\<close>, where adding one rounds back.\<close>

definition counter_num :: "nat \<Rightarrow> number" where
  "counter_num n = Fin (of_nat (min n 9007199254740992))"

lemma round64_saturates: "js_num 9007199254740993 = Fin 9007199254740992"
  by code_simp

lemma counter_num_0 [simp]: "counter_num 0 = Fin 0"
  by (simp add: counter_num_def)

lemma nextCounter_counter_num:
  "nextCounter (counter_num n) m = counter_num (if m then Suc n else 0)"
proof (cases "n < 9007199254740992")
  case True
  then have "js_num (of_int (int n + 1)) = Fin (of_int (int n + 1))"
    by (intro js_num_of_int) simp
  with True show ?thesis by (simp add: nextCounter_def counter_num_def add.commute)
next
  case False
  then show ?thesis using round64_saturates by (simp add: nextCounter_def counter_num_def)
qed

lemma counter_num_ge: "k \<le> 9007199254740992 \<Longrightarrow> js_ge (counter_num n) (Fin (of_nat k)) \<longleftrightarrow> k \<le> n"
  by (simp add: counter_num_def)

lemma counter_num_ge_numeral:
  "numeral k \<le> (9007199254740992 :: nat) \<Longrightarrow>
     js_ge (counter_num n) (Fin (numeral k)) \<longleftrightarrow> numeral k \<le> n"
  using counter_num_ge [of "numeral k" n] by simp

text \<open>A context whose counters are the given numbers of consecutive samples.\<close>

record streaks =
  st_healthy :: nat
  st_recovery :: nat
  st_fast :: nat
  st_warning :: nat
  st_congested :: nat

definition counts :: "state_context \<Rightarrow> streaks \<Rightarrow> bool" where
  "counts c k \<longleftrightarrow>
     sc_consecutiveHealthySamples c = counter_num (st_healthy k)
     \<and> or_zero (sc_consecutiveRecoverySamples c) = counter_num (st_recovery k)
     \<and> or_zero (sc_consecutiveFastRecoverySamples c) = counter_num (st_fast k)
     \<and> sc_consecutiveWarningSamples c = counter_num (st_warning k)
     \<and> sc_consecutiveCongestedSamples c = counter_num (st_congested k)"

definition bump :: "nat \<Rightarrow> bool \<Rightarrow> nat" where
  "bump n b = (if b then Suc n else 0)"

definition next_streaks :: "streaks \<Rightarrow> signals \<Rightarrow> profile \<Rightarrow> streaks" where
  "next_streaks k s p = \<lparr>
     st_healthy = bump (st_healthy k) (isHealthy s p),
     st_recovery = bump (st_recovery k) (isRecoveryHealthy s p),
     st_fast = bump (st_fast k) (\<not> isRecoveryHealthy s p \<and> isFastRecoveryHealthy s p),
     st_warning = bump (st_warning k) (isWarning s p),
     st_congested = bump (st_congested k) (isCongested s p)\<rparr>"

text \<open>The machine over streaks: the state it moves to, as a function of natural numbers.\<close>

definition cooled :: "state_context \<Rightarrow> profile \<Rightarrow> number \<Rightarrow> bool" where
  "cooled c p nowMs \<longleftrightarrow>
     js_ge (js_sub nowMs (case sc_lastCongestedAtMs c of Some t \<Rightarrow> t | None \<Rightarrow> sc_enteredAtMs c))
       (pf_recoveryCooldownMs p)"

definition spec_state :: "qos_state \<Rightarrow> streaks \<Rightarrow> bool \<Rightarrow> qos_state" where
  "spec_state st k cool = (case st of
     Stable \<Rightarrow> if 2 \<le> st_warning k then EarlyWarning else Stable
   | EarlyWarning \<Rightarrow> if 2 \<le> st_congested k then Congested
       else if 3 \<le> st_healthy k then Stable else EarlyWarning
   | Congested \<Rightarrow> if cool \<and> (5 \<le> st_recovery k \<or> 2 \<le> st_fast k) then Recovering else Congested
   | Recovering \<Rightarrow> if 2 \<le> st_congested k then Congested
       else if 5 \<le> st_healthy k then Stable else Recovering)"

lemma count_sample_counts: "counts c k \<Longrightarrow> counts (count_sample c s p) (next_streaks k s p)"
  by (auto simp: counts_def count_sample_def Let_def next_streaks_def bump_def or_zero_def
      nextCounter_counter_num [unfolded if_split] nextCounter_counter_num)

lemma next_state_spec:
  "counts n k \<Longrightarrow> next_state c n p t = spec_state (sc_state c) k (cooled c p t)"
  by (cases "sc_state c")
     (simp_all add: next_state_def spec_state_def counts_def counter_num_ge_numeral cooled_def Let_def)

lemma evaluate_counts:
  "counts c k \<Longrightarrow> counts (fst (evaluateStateTransition c s p t)) (next_streaks k s p)"
  using count_sample_counts [of c k s p]
  by (auto simp: evaluateStateTransition_def Let_def counts_def)

lemma count_sample_frame [simp]:
  "sc_state (count_sample c s p) = sc_state c"
  "sc_enteredAtMs (count_sample c s p) = sc_enteredAtMs c"
  "sc_lastCongestedAtMs (count_sample c s p) = sc_lastCongestedAtMs c"
  "sc_lastRecoveryAtMs (count_sample c s p) = sc_lastRecoveryAtMs c"
  by (simp_all add: count_sample_def Let_def)

lemma evaluate_next_state:
  "sc_state (fst (evaluateStateTransition c s p t)) = next_state c (count_sample c s p) p t"
  by (simp add: evaluateStateTransition_def Let_def)


lemma evaluate_state:
  assumes "counts c k"
  shows "sc_state (fst (evaluateStateTransition c s p t))
           = spec_state (sc_state c) (next_streaks k s p) (cooled c p t)"
proof -
  show ?thesis
    by (simp only: evaluate_next_state next_state_spec [OF count_sample_counts [OF assms]])
qed

section \<open>Runs\<close>

type_synonym sample = "signals \<times> number"

definition sm_step :: "profile \<Rightarrow> state_context \<Rightarrow> sample \<Rightarrow> state_context" where
  "sm_step p c x = fst (evaluateStateTransition c (fst x) p (snd x))"

definition sm_run :: "profile \<Rightarrow> state_context \<Rightarrow> sample list \<Rightarrow> state_context" where
  "sm_run p c xs = foldl (sm_step p) c xs"

definition trailing :: "(signals \<Rightarrow> bool) \<Rightarrow> sample list \<Rightarrow> nat" where
  "trailing P xs = length (takeWhile (\<lambda>x. P (fst x)) (rev xs))"

definition history :: "profile \<Rightarrow> sample list \<Rightarrow> streaks" where
  "history p xs = \<lparr>
     st_healthy = trailing (\<lambda>s. isHealthy s p) xs,
     st_recovery = trailing (\<lambda>s. isRecoveryHealthy s p) xs,
     st_fast = trailing (\<lambda>s. \<not> isRecoveryHealthy s p \<and> isFastRecoveryHealthy s p) xs,
     st_warning = trailing (\<lambda>s. isWarning s p) xs,
     st_congested = trailing (\<lambda>s. isCongested s p) xs\<rparr>"

lemma sm_run_Nil [simp]: "sm_run p c [] = c"
  by (simp add: sm_run_def)

lemma sm_run_snoc: "sm_run p c (xs @ [x]) = sm_step p (sm_run p c xs) x"
  by (simp add: sm_run_def)

lemma sm_run_Cons: "sm_run p c (x # xs) = sm_run p (sm_step p c x) xs"
  by (simp add: sm_run_def)

lemma trailing_snoc: "trailing P (xs @ [x]) = bump (trailing P xs) (P (fst x))"
  by (simp add: trailing_def bump_def)

lemma trailing_ge: "k \<le> trailing P xs \<Longrightarrow>
    k \<le> length xs \<and> (\<forall>x \<in> set (drop (length xs - k) xs). P (fst x))"
proof (induction xs arbitrary: k rule: rev_induct)
  case (snoc x xs)
  then show ?case
  proof (cases k)
    case (Suc j)
    with snoc.prems have "P (fst x)" "j \<le> trailing P xs"
      by (auto simp: trailing_snoc bump_def split: if_splits)
    with snoc.IH [of j] Suc show ?thesis by auto
  qed simp
qed (simp add: trailing_def)

lemma history_snoc: "history p (xs @ [x]) = next_streaks (history p xs) (fst x) p"
  by (simp add: history_def next_streaks_def trailing_snoc)

lemma counts_run: "counts (sm_run p (createInitialQosStateMachineContext t0) xs) (history p xs)"
proof (induction xs rule: rev_induct)
  case Nil
  show ?case
    by (simp add: counts_def history_def trailing_def createInitialQosStateMachineContext_def or_zero_def)
next
  case (snoc x xs)
  then show ?case
    by (simp add: sm_run_snoc sm_step_def history_snoc evaluate_counts)
qed

lemma run_state_snoc:
  "sc_state (sm_run p (createInitialQosStateMachineContext t0) (xs @ [x])) =
     spec_state (sc_state (sm_run p (createInitialQosStateMachineContext t0) xs))
       (history p (xs @ [x])) (cooled (sm_run p (createInitialQosStateMachineContext t0) xs) p (snd x))"
  by (simp add: sm_run_snoc sm_step_def history_snoc evaluate_state [OF counts_run])

definition last_all :: "nat \<Rightarrow> (signals \<Rightarrow> bool) \<Rightarrow> sample list \<Rightarrow> bool" where
  "last_all k P xs \<longleftrightarrow> k \<le> length xs \<and> (\<forall>x \<in> set (drop (length xs - k) xs). P (fst x))"

lemma last_allI: "k \<le> trailing P xs \<Longrightarrow> last_all k P xs"
  unfolding last_all_def by (rule trailing_ge)

lemmas history_sel = history_def streaks.simps

text \<open>What must have been observed when the machine leaves \<open>st\<close> for \<open>st'\<close> on the last sample.\<close>

definition evidence :: "profile \<Rightarrow> qos_state \<Rightarrow> qos_state \<Rightarrow> sample list \<Rightarrow> bool" where
  "evidence p st st' xs = (case (st, st') of
     (Stable, EarlyWarning) \<Rightarrow> last_all 2 (\<lambda>s. isWarning s p) xs
   | (EarlyWarning, Congested) \<Rightarrow> last_all 2 (\<lambda>s. isCongested s p) xs
   | (EarlyWarning, Stable) \<Rightarrow> last_all 3 (\<lambda>s. isHealthy s p) xs
   | (Congested, Recovering) \<Rightarrow> last_all 5 (\<lambda>s. isRecoveryHealthy s p) xs
       \<or> last_all 2 (\<lambda>s. isFastRecoveryHealthy s p) xs
   | (Recovering, Congested) \<Rightarrow> last_all 2 (\<lambda>s. isCongested s p) xs
   | (Recovering, Stable) \<Rightarrow> last_all 5 (\<lambda>s. isHealthy s p) xs
   | _ \<Rightarrow> False)"

lemma spec_state_evidence:
  "spec_state st (history p xs) cool \<noteq> st \<Longrightarrow> evidence p st (spec_state st (history p xs) cool) xs"
proof -
  have fast: "2 \<le> trailing (\<lambda>s. \<not> isRecoveryHealthy s p \<and> isFastRecoveryHealthy s p) xs \<Longrightarrow>
      last_all 2 (\<lambda>s. isFastRecoveryHealthy s p) xs"
    by (drule last_allI) (auto simp: last_all_def)
  assume "spec_state st (history p xs) cool \<noteq> st"
  then show ?thesis
    by (cases st) (auto simp: spec_state_def evidence_def history_sel intro: last_allI fast
        split: if_splits)
qed

text \<open>C12: hysteresis. From the initial context, the machine changes state only along the six
  edges of the design, and only on evidence in the last samples it saw: two consecutive warnings to
  leave stable, two congested samples to become congested, three or five healthy ones to become
  stable, and five recovery-healthy or two fast-recovery samples, after the profile's cooldown, to
  start recovering.\<close>

theorem transition_needs_evidence:
  fixes p t0
  defines "run \<equiv> sm_run p (createInitialQosStateMachineContext t0)"
  assumes "sc_state (run (xs @ [x])) \<noteq> sc_state (run xs)"
  shows "evidence p (sc_state (run xs)) (sc_state (run (xs @ [x]))) (xs @ [x])
    \<and> (sc_state (run xs) = Congested \<longrightarrow> cooled (run xs) p (snd x))"
proof
  note eq = run_state_snoc [of p t0 xs x, folded run_def]
  show "evidence p (sc_state (run xs)) (sc_state (run (xs @ [x]))) (xs @ [x])"
    using assms(2) spec_state_evidence unfolding eq by auto
  show "sc_state (run xs) = Congested \<longrightarrow> cooled (run xs) p (snd x)"
    using assms(2) unfolding eq by (auto simp: spec_state_def split: if_splits)
qed

definition sig_bad :: signals where
  "sig_bad = \<lparr>sg_packetsSentDelta = Fin 0, sg_packetsLostDelta = Fin 0,
     sg_retransmittedPacketsSentDelta = Fin 0, sg_sendBitrateBps = Fin 100000,
     sg_targetBitrateBps = Fin 900000, sg_bitrateUtilization = Fin 0, sg_lossRate = Fin 1,
     sg_lossEwma = Fin 1, sg_rttMs = Fin 400, sg_rttEwma = Fin 400, sg_jitterMs = Fin 0,
     sg_jitterEwma = Fin 0, sg_cpuLimited = False, sg_bandwidthLimited = True,
     sg_reason = RNetwork\<rparr>"

definition sig_good :: signals where
  "sig_good = sig_bad\<lparr>sg_lossRate := Fin 0, sg_lossEwma := Fin 0, sg_rttMs := Fin 20,
     sg_rttEwma := Fin 20, sg_bandwidthLimited := False, sg_sendBitrateBps := Fin 900000\<rparr>"

lemmas sm_eval = sm_run_def sm_step_def evaluateStateTransition_def count_sample_def next_state_def
  Let_def createInitialQosStateMachineContext_def nextCounter_def or_zero_def
  isHealthy_def isRecoveryHealthy_def isFastRecoveryHealthy_def isWarning_def isCongested_def
  sig_good_def sig_bad_def recovery_jitter_ms_def jitter_bound_def js_max_def

theorem transition_needs_evidence_witness:
  "sc_state (sm_run DEFAULT_CAMERA_PROFILE (createInitialQosStateMachineContext (Fin 0))
      [(sig_bad, Fin 1000), (sig_bad, Fin 2000)]) = EarlyWarning
   \<and> evidence DEFAULT_CAMERA_PROFILE Stable EarlyWarning [(sig_bad, Fin 1000), (sig_bad, Fin 2000)]"
proof -
  let ?run = "sm_run DEFAULT_CAMERA_PROFILE (createInitialQosStateMachineContext (Fin 0))"
  have s: "sc_state (?run [(sig_bad, Fin 1000)]) = Stable"
    "sc_state (?run ([(sig_bad, Fin 1000)] @ [(sig_bad, Fin 2000)])) = EarlyWarning"
    by (simp_all add: sm_eval)
  with transition_needs_evidence [where p = DEFAULT_CAMERA_PROFILE and ?t0.0 = "Fin 0"
      and xs = "[(sig_bad, Fin 1000)]" and x = "(sig_bad, Fin 2000)"]
  show ?thesis by simp
qed

section \<open>Sustained congestion and sustained health\<close>

lemma sm_step_state: "counts c k \<Longrightarrow>
    sc_state (sm_step p c x) = spec_state (sc_state c) (next_streaks k (fst x) p) (cooled c p (snd x))"
  by (simp add: sm_step_def evaluate_state)

lemma sm_step_counts: "counts c k \<Longrightarrow> counts (sm_step p c x) (next_streaks k (fst x) p)"
  by (simp add: sm_step_def evaluate_counts)

lemma sm_step_congested:
  assumes "counts c k" "isCongested (fst x) p" "thresholds_ordered (pf_thresholds p)"
  shows "sc_state c = Stable \<Longrightarrow> sc_state (sm_step p c x) = EarlyWarning
      \<or> sc_state (sm_step p c x) = Stable \<and> st_warning k = 0"
    and "sc_state c = EarlyWarning \<or> sc_state c = Recovering \<Longrightarrow>
      sc_state (sm_step p c x) = Congested \<or> sc_state (sm_step p c x) = sc_state c \<and> st_congested k = 0"
    and "0 < st_warning (next_streaks k (fst x) p)" "0 < st_congested (next_streaks k (fst x) p)"
proof -
  have w: "isWarning (fst x) p" and h: "\<not> isHealthy (fst x) p"
    using assms(2,3) isCongested_warning isHealthy_not_congested by blast+
  note ev = sm_step_state [OF assms(1)] spec_state_def next_streaks_def bump_def
  show "sc_state c = Stable \<Longrightarrow> sc_state (sm_step p c x) = EarlyWarning
      \<or> sc_state (sm_step p c x) = Stable \<and> st_warning k = 0"
    using w by (simp add: ev)
  show "sc_state c = EarlyWarning \<or> sc_state c = Recovering \<Longrightarrow>
      sc_state (sm_step p c x) = Congested \<or> sc_state (sm_step p c x) = sc_state c \<and> st_congested k = 0"
    using assms(2) h by (elim disjE; simp add: ev)
  show "0 < st_warning (next_streaks k (fst x) p)" "0 < st_congested (next_streaks k (fst x) p)"
    using w assms(2) by (simp_all add: next_streaks_def bump_def)
qed

text \<open>C11: sustained congestion is acted on. Whatever numbers of samples a track counted before, for every profile with ordered thresholds,
  a run of three consecutive congested samples takes it through the congested state, from any state; from early warning
  and from recovering two samples are enough.\<close>

theorem congestion_detected:
  assumes "counts c k" "thresholds_ordered (pf_thresholds p)"
    and "isCongested (fst x) p" "isCongested (fst y) p" "isCongested (fst z) p"
  shows "\<exists>n \<le> (if sc_state c \<in> {EarlyWarning, Recovering} then 2 else 3). sc_state (sm_run p c (take n [x, y, z])) = Congested"
proof -
  let ?d = "sm_step p c x"
  let ?e = "sm_step p ?d y"
  let ?f = "sm_step p ?e z"
  have cd: "counts ?d (next_streaks k (fst x) p)" by (rule sm_step_counts [OF assms(1)])
  have ce: "counts ?e (next_streaks (next_streaks k (fst x) p) (fst y) p)"
    by (rule sm_step_counts [OF cd])
  note s1 = sm_step_congested [OF assms(1,3,2)] and s2 = sm_step_congested [OF cd assms(4,2)]
    and s3 = sm_step_congested [OF ce assms(5,2)]
  have runs: "sm_run p c (take 0 [x, y, z]) = c" "sm_run p c (take 1 [x, y, z]) = ?d" "sm_run p c (take 2 [x, y, z]) = ?e"
    "sm_run p c (take 3 [x, y, z]) = ?f"
    by (simp_all add: sm_run_Cons)
  show ?thesis
  proof (cases "sc_state c \<in> {EarlyWarning, Recovering}")
    case True
    then have "Congested \<in> {sc_state ?d, sc_state ?e}" using s1 s2 by auto
    then have "\<exists>n \<in> {1, 2}. sc_state (sm_run p c (take n [x, y, z])) = Congested" using runs by auto
    then obtain n where "n \<in> {1, 2}" "sc_state (sm_run p c (take n [x, y, z])) = Congested" ..
    with True show ?thesis by (intro exI [of _ n]) auto
  next
    case False
    have "Congested \<in> {sc_state c, sc_state ?d, sc_state ?e, sc_state ?f}"
      using s1 s2 s3 by (cases "sc_state c") auto
    then have "\<exists>n \<in> {0, 1, 2, 3}. sc_state (sm_run p c (take n [x, y, z])) = Congested" using runs by auto
    then obtain n where "n \<in> {0, 1, 2, 3}" "sc_state (sm_run p c (take n [x, y, z])) = Congested" ..
    with False show ?thesis by (intro exI [of _ n]) auto
  qed
qed

lemma congested_sig_bad: "isCongested sig_bad p"
  by (simp add: isCongested_def sig_bad_def Let_def)

theorem congestion_detected_witness:
  "\<exists>n \<le> 3. sc_state (sm_run DEFAULT_CAMERA_PROFILE (createInitialQosStateMachineContext (Fin 0))
     (take n [(sig_bad, Fin 1000), (sig_bad, Fin 2000), (sig_bad, Fin 3000)])) = Congested"
  using congestion_detected [OF counts_run [of DEFAULT_CAMERA_PROFILE "Fin 0" "[]", simplified],
      of DEFAULT_CAMERA_PROFILE "(sig_bad, Fin 1000)" "(sig_bad, Fin 2000)" "(sig_bad, Fin 3000)"]
  by (simp add: congested_sig_bad default_thresholds_ordered createInitialQosStateMachineContext_def)











end
