(* ===== verification/Planner.thy ===== *)
theory Planner
  imports Profiles
begin

text \<open>
  src/src/client/lib/qos/planner.js: from the state of a track and its ladder level to the actions
  that move it. Every function of the file is here; \<open>input.signals\<close> is part of the source's input
  type but no function of the planner reads it. The lemmas give the planned level as a function of
  natural numbers, for every well-formed profile.
\<close>

record planner_input =
  pi_source :: qos_source
  pi_profile :: profile
  pi_state :: qos_state
  pi_currentLevel :: number
  pi_overrideClampLevel :: "number option"
  pi_inAudioOnlyMode :: bool

definition clampLevel :: "number \<Rightarrow> number \<Rightarrow> number" where
  "clampLevel level maxLevel =
     (if js_lt level (Fin 0) then Fin 0 else if js_gt level maxLevel then maxLevel else level)"

definition resolveMaxLevel :: "profile \<Rightarrow> number" where
  "resolveMaxLevel p = js_max (Fin 0) (js_sub (pf_levelCount p) (Fin 1))"

definition resolveTargetLevel :: "planner_input \<Rightarrow> number" where
  "resolveTargetLevel i =
     (let maxLevel = resolveMaxLevel (pi_profile i);
          currentLevel = clampLevel (pi_currentLevel i) maxLevel;
          lower = (if js_gt currentLevel (Fin 0) then js_sub currentLevel (Fin 1) else Fin 0);
          t1 = (case pi_state i of
              Stable \<Rightarrow> lower
            | EarlyWarning \<Rightarrow> if js_lt currentLevel (Fin 1) then Fin 1 else currentLevel
            | Congested \<Rightarrow> js_add currentLevel (Fin 1)
            | Recovering \<Rightarrow> lower);
          t2 = clampLevel t1 maxLevel
      in case pi_overrideClampLevel i of
           Some cl \<Rightarrow> js_min t2 (clampLevel cl maxLevel)
         | None \<Rightarrow> t2)"

text \<open>The pushes of \<open>stepToActions\<close>, in order.\<close>

definition step_pushes :: "ladder_step \<Rightarrow> qos_source \<Rightarrow> number \<Rightarrow> bool \<Rightarrow> qos_action list" where
  "step_pushes step source currentLevel inAudioOnlyMode =
     (if source = Camera \<and> js_gt currentLevel (ls_level step) \<and> inAudioOnlyMode
      then [ExitAudioOnly (ls_level step) None] else [])
     @ (if ls_resumeUpstream step then [ResumeUpstream (ls_level step)] else [])
     @ (case ls_encodingParameters step of
          Some ep \<Rightarrow> [SetEncodingParameters (ls_level step) ep] | None \<Rightarrow> [])
     @ (case ls_spatialLayer step of
          Some l \<Rightarrow> [SetMaxSpatialLayer (ls_level step) l] | None \<Rightarrow> [])
     @ (if ls_enterAudioOnly step then [EnterAudioOnly (ls_level step) None] else [])
     @ (if ls_pauseUpstream step then [PauseUpstream (ls_level step)] else [])"

definition stepToActions :: "ladder_step \<Rightarrow> qos_source \<Rightarrow> number \<Rightarrow> bool \<Rightarrow> qos_action list" where
  "stepToActions step source currentLevel inAudioOnlyMode =
     (let actions = step_pushes step source currentLevel inAudioOnlyMode
      in if actions = [] then [Noop (ls_level step) (Some ''empty-ladder-step'')] else actions)"

definition actionsForLevel :: "planner_input \<Rightarrow> number \<Rightarrow> qos_action list" where
  "actionsForLevel i targetLevel =
     (case find (\<lambda>entry. js_eq (ls_level entry) targetLevel) (pf_ladder (pi_profile i)) of
        None \<Rightarrow> [Noop targetLevel (Some ''unknown-level'')]
      | Some step \<Rightarrow> stepToActions step (pi_source i) (pi_currentLevel i) (pi_inAudioOnlyMode i))"

definition planActionsForLevel :: "planner_input \<Rightarrow> number \<Rightarrow> qos_action list" where
  "planActionsForLevel i targetLevel =
     (let maxLevel = resolveMaxLevel (pi_profile i)
      in actionsForLevel (i\<lparr>pi_currentLevel := clampLevel (pi_currentLevel i) maxLevel\<rparr>)
           (clampLevel targetLevel maxLevel))"

definition planActions :: "planner_input \<Rightarrow> qos_action list" where
  "planActions i =
     (let maxLevel = resolveMaxLevel (pi_profile i);
          currentLevel = clampLevel (pi_currentLevel i) maxLevel;
          targetLevel = clampLevel (resolveTargetLevel i) maxLevel
      in if pi_source i = Camera \<and> js_eq currentLevel maxLevel \<and> pi_state i = Congested
            \<and> \<not> pi_inAudioOnlyMode i
         then planActionsForLevel (i\<lparr>pi_currentLevel := currentLevel\<rparr>) maxLevel
         else if js_eq targetLevel currentLevel then [Noop currentLevel None]
         else planActionsForLevel (i\<lparr>pi_currentLevel := currentLevel\<rparr>) targetLevel)"

definition planRecovery :: "planner_input \<Rightarrow> qos_action list" where
  "planRecovery i = planActions (i\<lparr>pi_state := Recovering\<rparr>)"

section \<open>Levels as natural numbers\<close>

abbreviation lvl :: "nat \<Rightarrow> number" where
  "lvl n \<equiv> Fin (of_nat n)"

definition max_level :: "profile \<Rightarrow> nat" where
  "max_level p = length (pf_ladder p) - 1"

lemma js_num_nat: "int n \<le> 9007199254740992 \<Longrightarrow> js_num (of_nat n) = lvl n"
  using js_num_of_int [of "int n"] by simp

lemma js_sub_lvl_1: "0 < n \<Longrightarrow> int n \<le> 9007199254740992 \<Longrightarrow> js_sub (lvl n) (Fin 1) = lvl (n - 1)"
  using js_num_nat [of "n - 1"] by (simp add: js_sub_def)

lemma js_add_lvl_1: "int n < 9007199254740992 \<Longrightarrow> js_add (lvl n) (Fin 1) = lvl (n + 1)"
  using js_num_nat [of "n + 1"] by (simp add: add.commute)

lemma profile_wfD:
  assumes "profile_wf p"
  shows "int (max_level p) < 4503599627370496" and "pf_levelCount p = lvl (Suc (max_level p))"
    and "length (pf_ladder p) = Suc (max_level p)"
    and "i \<le> max_level p \<Longrightarrow> ls_level (pf_ladder p ! i) = lvl i"
proof -
  have ne: "pf_ladder p \<noteq> []" and len: "int (length (pf_ladder p)) < 4503599627370496"
    and lc: "pf_levelCount p = lvl (length (pf_ladder p))"
    and ls: "map ls_level (pf_ladder p) = map lvl [0..<length (pf_ladder p)]"
    using assms by (simp_all add: profile_wf_def)
  show m: "length (pf_ladder p) = Suc (max_level p)"
    using ne by (cases "pf_ladder p") (simp_all add: max_level_def)
  show "int (max_level p) < 4503599627370496" "pf_levelCount p = lvl (Suc (max_level p))"
    using len lc m by simp_all
  assume i: "i \<le> max_level p"
  have "map ls_level (pf_ladder p) ! i = map lvl [0..<length (pf_ladder p)] ! i" using ls by simp
  with i m show "ls_level (pf_ladder p ! i) = lvl i" by (simp del: upt_Suc)
qed

lemma resolveMaxLevel_wf: "profile_wf p \<Longrightarrow> resolveMaxLevel p = lvl (max_level p)"
  using js_sub_lvl_1 [of "Suc (max_level p)"]
  by (simp add: resolveMaxLevel_def profile_wfD js_max_def del: of_nat_Suc)
     (use profile_wfD(1) [of p] in auto)

lemma clampLevel_lvl: "clampLevel (lvl n) (lvl m) = lvl (min n m)"
  by (auto simp: clampLevel_def)

lemma find_ladder:
  assumes "profile_wf p" "t \<le> max_level p"
  shows "find (\<lambda>e. js_eq (ls_level e) (lvl t)) (pf_ladder p) = Some (pf_ladder p ! t)"
proof -
  note w = profile_wfD [OF assms(1)]
  have "\<And>j. j < t \<Longrightarrow> \<not> js_eq (ls_level (pf_ladder p ! j)) (lvl t)"
    using assms(2) w(4) by (auto simp: js_eq_def)
  moreover have "js_eq (ls_level (pf_ladder p ! t)) (lvl t)"
    using assms(2) w(4) by (simp add: js_eq_def)
  ultimately show ?thesis
    using assms(2) w(3) unfolding find_Some_iff by (intro exI [of _ t]) auto
qed

section \<open>The planned level\<close>

text \<open>The level the planner moves to, on natural numbers: one step up or down, inside the ladder,
  below the clamp of an active override.\<close>

definition target_spec :: "qos_state \<Rightarrow> nat \<Rightarrow> nat \<Rightarrow> nat option \<Rightarrow> nat" where
  "target_spec st m k cl =
     (let t = (case st of
          Stable \<Rightarrow> k - 1 | Recovering \<Rightarrow> k - 1
        | EarlyWarning \<Rightarrow> min (max 1 k) m | Congested \<Rightarrow> min (k + 1) m)
      in case cl of None \<Rightarrow> t | Some c \<Rightarrow> min t (min c m))"

definition input_ok :: "planner_input \<Rightarrow> nat \<Rightarrow> nat option \<Rightarrow> bool" where
  "input_ok i k cl \<longleftrightarrow> profile_wf (pi_profile i) \<and> k \<le> max_level (pi_profile i)
     \<and> pi_currentLevel i = lvl k \<and> pi_overrideClampLevel i = map_option lvl cl"

lemma resolveTargetLevel_spec:
  assumes "input_ok i k cl"
  shows "resolveTargetLevel i = lvl (target_spec (pi_state i) (max_level (pi_profile i)) k cl)"
proof -
  let ?m = "max_level (pi_profile i)"
  have w: "profile_wf (pi_profile i)" and k: "k \<le> ?m" and c: "pi_currentLevel i = lvl k"
    and o: "pi_overrideClampLevel i = map_option lvl cl"
    using assms by (simp_all add: input_ok_def)
  note m = profile_wfD(1) [OF w]
  have t: "(case pi_state i of
      Stable \<Rightarrow> if js_gt (lvl k) (Fin 0) then js_sub (lvl k) (Fin 1) else Fin 0
    | EarlyWarning \<Rightarrow> if js_lt (lvl k) (Fin 1) then Fin 1 else lvl k
    | Congested \<Rightarrow> js_add (lvl k) (Fin 1)
    | Recovering \<Rightarrow> if js_gt (lvl k) (Fin 0) then js_sub (lvl k) (Fin 1) else Fin 0)
    = lvl (case pi_state i of Stable \<Rightarrow> k - 1 | Recovering \<Rightarrow> k - 1
        | EarlyWarning \<Rightarrow> max 1 k | Congested \<Rightarrow> k + 1)"
    using k m by (cases "pi_state i")
      (auto simp: js_sub_lvl_1 js_add_lvl_1 max_def simp del: js_add.simps)
  have min: "js_min (lvl a) (lvl b) = lvl (min a b)" for a b
    by (auto simp: js_min_def)
  show ?thesis
    unfolding resolveTargetLevel_def Let_def resolveMaxLevel_wf [OF w] c clampLevel_lvl
      min_absorb1 [OF k] t
    using k by (cases cl; cases "pi_state i")
      (auto simp: o clampLevel_lvl min target_spec_def min.assoc)
qed


text \<open>At the last level a congested camera that still sends video is sent to audio-only again.\<close>

definition replans_max :: "planner_input \<Rightarrow> nat \<Rightarrow> bool" where
  "replans_max i k \<longleftrightarrow> pi_source i = Camera \<and> k = max_level (pi_profile i)
     \<and> pi_state i = Congested \<and> \<not> pi_inAudioOnlyMode i"

definition plan_spec :: "planner_input \<Rightarrow> nat \<Rightarrow> nat option \<Rightarrow> nat" where
  "plan_spec i k cl =
     (if replans_max i k then k
      else target_spec (pi_state i) (max_level (pi_profile i)) k cl)"

lemma target_spec_le: "k \<le> m \<Longrightarrow> target_spec st m k cl \<le> m"
  by (auto simp: target_spec_def Let_def split: qos_state.splits option.splits)

lemma target_spec_dir:
  "k \<le> m \<Longrightarrow> target_spec st m k None \<le> k + 1"
  "k \<le> m \<Longrightarrow> k \<le> target_spec st m k None + 1"
  "st = Stable \<or> st = Recovering \<Longrightarrow> target_spec st m k cl \<le> k"
  "k \<le> m \<Longrightarrow> st = EarlyWarning \<or> st = Congested \<Longrightarrow> k \<le> target_spec st m k None"
  "target_spec st m k (Some c) \<le> c"
  by (cases st; cases cl; simp add: target_spec_def)+

lemma plan_spec_le: "input_ok i k cl \<Longrightarrow> plan_spec i k cl \<le> max_level (pi_profile i)"
  using target_spec_le by (auto simp: plan_spec_def input_ok_def)

lemma planActionsForLevel_wf:
  assumes "profile_wf (pi_profile i)" "k \<le> max_level (pi_profile i)" "pi_currentLevel i = lvl k"
    and "t \<le> max_level (pi_profile i)"
  shows "planActionsForLevel i (lvl t) =
    stepToActions (pf_ladder (pi_profile i) ! t) (pi_source i) (lvl k) (pi_inAudioOnlyMode i)"
  using assms
  by (simp add: planActionsForLevel_def Let_def resolveMaxLevel_wf clampLevel_lvl actionsForLevel_def
      find_ladder min_absorb1)

lemma planActions_spec:
  assumes "input_ok i k cl"
  shows "planActions i =
    (if plan_spec i k cl = k \<and> \<not> replans_max i k then [Noop (lvl k) None]
     else stepToActions (pf_ladder (pi_profile i) ! plan_spec i k cl) (pi_source i) (lvl k)
       (pi_inAudioOnlyMode i))"
proof -
  let ?m = "max_level (pi_profile i)"
  let ?t = "target_spec (pi_state i) ?m k cl"
  have w: "profile_wf (pi_profile i)" and k: "k \<le> ?m" and c: "pi_currentLevel i = lvl k"
    using assms by (simp_all add: input_ok_def)
  have t: "?t \<le> ?m" by (rule target_spec_le [OF k])
  have i: "i\<lparr>pi_currentLevel := lvl k\<rparr> = i" using c by simp
  have "planActions i =
    (if replans_max i k then planActionsForLevel i (lvl ?m)
     else if ?t = k then [Noop (lvl k) None] else planActionsForLevel i (lvl ?t))"
    unfolding planActions_def Let_def resolveMaxLevel_wf [OF w] c clampLevel_lvl min_absorb1 [OF k]
      resolveTargetLevel_spec [OF assms] min_absorb1 [OF t] i replans_max_def
    by (simp add: js_eq_def)
  moreover have "planActionsForLevel i (lvl ?m) = stepToActions (pf_ladder (pi_profile i) ! ?m)
      (pi_source i) (lvl k) (pi_inAudioOnlyMode i)"
    by (rule planActionsForLevel_wf [OF w k c order_refl])
  moreover have "planActionsForLevel i (lvl ?t) = stepToActions (pf_ladder (pi_profile i) ! ?t)
      (pi_source i) (lvl k) (pi_inAudioOnlyMode i)"
    by (rule planActionsForLevel_wf [OF w k c t])
  moreover have "replans_max i k \<Longrightarrow> k = ?m" by (simp add: replans_max_def)
  ultimately show ?thesis
    by (cases "replans_max i k") (simp_all only: plan_spec_def if_True if_False simp_thms)
qed

lemma step_pushes_level: "\<forall>a \<in> set (step_pushes step src l b). a_level a = ls_level step"
  by (cases "ls_encodingParameters step"; cases "ls_spatialLayer step")
     (simp_all add: step_pushes_def ball_Un)

lemma stepToActions_level: "a \<in> set (stepToActions step src l b) \<Longrightarrow> a_level a = ls_level step"
  using step_pushes_level [of step src l b] by (auto simp: stepToActions_def Let_def split: if_splits)

lemma stepToActions_nonempty: "stepToActions step src l b \<noteq> []"
  by (simp add: stepToActions_def Let_def)

lemma planActions_level:
  assumes "input_ok i k cl" "a \<in> set (planActions i)"
  shows "a_level a = lvl (plan_spec i k cl)"
  using assms(2) plan_spec_le [OF assms(1)] assms(1)
  by (auto simp: planActions_spec [OF assms(1)] profile_wfD(4) input_ok_def split: if_splits
      dest!: stepToActions_level)

section \<open>Properties\<close>

text \<open>C14: the planner moves one step at a time and stays on the ladder. For every well-formed
  profile and level on its ladder, a plan is never empty, all its actions carry one target level,
  that level is on the ladder, at most one step from the current one when no override clamps it,
  never up in the stable and recovering states and never down in the others; and with a clamp it
  does not exceed the clamp, but for a congested camera at the last level that is not audio-only.\<close>

theorem planned_level:
  assumes "input_ok i k cl"
  shows "planActions i \<noteq> [] \<and>
    (\<exists>t \<le> max_level (pi_profile i).
       (\<forall>a \<in> set (planActions i). a_level a = lvl t)
       \<and> (cl = None \<longrightarrow> t \<le> k + 1) \<and> (cl = None \<longrightarrow> k \<le> t + 1)
       \<and> (pi_state i = Stable \<or> pi_state i = Recovering \<longrightarrow> t \<le> k)
       \<and> (cl = None \<and> (pi_state i = EarlyWarning \<or> pi_state i = Congested) \<longrightarrow> k \<le> t)
       \<and> (\<forall>c. cl = Some c \<and> \<not> replans_max i k \<longrightarrow> t \<le> c))"
proof (intro conjI exI [of _ "plan_spec i k cl"])
  have k: "k \<le> max_level (pi_profile i)" using assms by (simp add: input_ok_def)
  show "planActions i \<noteq> []"
    by (simp add: planActions_spec [OF assms] stepToActions_nonempty)
  show "plan_spec i k cl \<le> max_level (pi_profile i)" by (rule plan_spec_le [OF assms])
  show "\<forall>a \<in> set (planActions i). a_level a = lvl (plan_spec i k cl)"
    using planActions_level [OF assms] by blast
  note ts = target_spec_dir [where m = "max_level (pi_profile i)" and k = k and st = "pi_state i"]
  show "cl = None \<longrightarrow> plan_spec i k cl \<le> k + 1" "cl = None \<longrightarrow> k \<le> plan_spec i k cl + 1"
    "cl = None \<and> (pi_state i = EarlyWarning \<or> pi_state i = Congested) \<longrightarrow> k \<le> plan_spec i k cl"
    using ts(1,2,4) [OF k] by (auto simp only: plan_spec_def split: if_splits)
  show "pi_state i = Stable \<or> pi_state i = Recovering \<longrightarrow> plan_spec i k cl \<le> k"
    using ts(3) by (simp only: plan_spec_def split: if_splits) blast
  show "\<forall>c. cl = Some c \<and> \<not> replans_max i k \<longrightarrow> plan_spec i k cl \<le> c"
    using ts(5) by (simp add: plan_spec_def)
qed

definition input_congested :: planner_input where
  "input_congested = \<lparr>pi_source = Camera, pi_profile = DEFAULT_CAMERA_PROFILE, pi_state = Congested,
     pi_currentLevel = Fin 2, pi_overrideClampLevel = None, pi_inAudioOnlyMode = False\<rparr>"

lemma max_level_camera [simp]: "max_level DEFAULT_CAMERA_PROFILE = 4"
  by (simp add: max_level_def DEFAULT_CAMERA_PROFILE_def)

lemma camera_last_step: "pf_ladder DEFAULT_CAMERA_PROFILE ! 4 =
  (step_enc (Fin 4) ''Enter audio-only mode and pause video upstream.'' None)\<lparr>ls_enterAudioOnly := True\<rparr>"
  by (simp add: DEFAULT_CAMERA_PROFILE_def)

lemma step_enc_fields:
  "ls_level (step_enc l d e) = l" "ls_encodingParameters (step_enc l d e) = e"
  "ls_spatialLayer (step_enc l d e) = None" "\<not> ls_enterAudioOnly (step_enc l d e)"
  "\<not> ls_resumeUpstream (step_enc l d e)" "\<not> ls_pauseUpstream (step_enc l d e)"
  by (simp_all add: step_enc_def)

theorem planned_level_witness:
  "planActions input_congested \<noteq> [] \<and> (\<exists>t \<le> 4. \<forall>a \<in> set (planActions input_congested). a_level a = lvl t)"
proof -
  have "input_ok input_congested 2 None"
    by (simp add: input_ok_def input_congested_def builtin_profiles_wf)
  from planned_level [OF this] have "planActions input_congested \<noteq> []"
    "\<exists>t \<le> max_level (pi_profile input_congested).
       \<forall>a \<in> set (planActions input_congested). a_level a = lvl t"
    by blast+
  moreover have "max_level (pi_profile input_congested) = 4" by (simp add: input_congested_def)
  ultimately show ?thesis by (simp only: simp_thms)
qed

text \<open>an override's level clamp does not bind a congested camera at the last level that is not
  in audio-only mode: with the clamp at level 0 the default profile still plans level 4 and
  audio-only.\<close>

theorem clamp_bypassed_at_last_level:
  "planActions (input_congested\<lparr>pi_currentLevel := Fin 4, pi_overrideClampLevel := Some (Fin 0)\<rparr>)
     = [EnterAudioOnly (Fin 4) None]"
proof -
  let ?i = "input_congested\<lparr>pi_currentLevel := Fin 4, pi_overrideClampLevel := Some (Fin 0)\<rparr>"
  have "input_ok ?i 4 (Some 0)"
    by (simp add: input_ok_def input_congested_def builtin_profiles_wf)
  note p = planActions_spec [OF this]
  have r: "replans_max ?i 4" by (simp add: replans_max_def input_congested_def)
  have "planActions ?i = stepToActions (pf_ladder DEFAULT_CAMERA_PROFILE ! 4) Camera (lvl 4) False"
    unfolding p using r by (simp add: plan_spec_def input_congested_def)
  also have "\<dots> = [EnterAudioOnly (Fin 4) None]"
    by (simp add: camera_last_step step_enc_fields stepToActions_def Let_def step_pushes_def)
  finally show ?thesis .
qed

end
