(* ===== verification/Probe.thy ===== *)
theory Probe
  imports Profiles
begin

text \<open>
  src/src/client/lib/qos/probe.js: a recovery probe counts healthy and bad samples after an upgrade
  and decides whether to keep it. Every function of the file is here. The lemmas show that a
  sample is never healthy and bad at once, what a verdict rests on, and that every probe fed
  decisive samples reaches one.
\<close>

record probe_context =
  pr_active :: bool
  pr_startedAtMs :: number
  pr_previousLevel :: number
  pr_targetLevel :: number
  pr_previousAudioOnlyMode :: bool
  pr_targetAudioOnlyMode :: bool
  pr_healthySamples :: number
  pr_badSamples :: number
  pr_requiredHealthySamples :: "number option"
  pr_requiredBadSamples :: "number option"

datatype probe_result = Successful | Failed | Inconclusive

definition isProbeHealthy :: "signals \<Rightarrow> profile \<Rightarrow> bool" where
  "isProbeHealthy s p =
     (let th = pf_thresholds p
      in js_lt (sg_lossEwma s) (th_stableLossRate th) \<and> js_lt (sg_rttEwma s) (th_stableRttMs th)
         \<and> \<not> sg_bandwidthLimited s \<and> \<not> sg_cpuLimited s)"

definition isProbeBad :: "signals \<Rightarrow> profile \<Rightarrow> bool" where
  "isProbeBad s p =
     (let th = pf_thresholds p
      in sg_bandwidthLimited s \<or> js_ge (sg_lossEwma s) (th_congestedLossRate th)
         \<or> js_ge (sg_rttEwma s) (th_congestedRttMs th) \<or> sg_cpuLimited s)"

definition required_samples :: "number option \<Rightarrow> number \<Rightarrow> number" where
  "required_samples o' d = js_max (Fin 1) (js_floor (case o' of None \<Rightarrow> d | Some n \<Rightarrow> n))"

definition beginProbe ::
    "number \<Rightarrow> number \<Rightarrow> number \<Rightarrow> bool \<Rightarrow> bool \<Rightarrow> number option \<Rightarrow> number option \<Rightarrow> probe_context" where
  "beginProbe previousLevel targetLevel startedAtMs previousAudioOnlyMode targetAudioOnlyMode
      requiredHealthySamples requiredBadSamples = \<lparr>
     pr_active = True, pr_startedAtMs = startedAtMs,
     pr_previousLevel = previousLevel, pr_targetLevel = targetLevel,
     pr_previousAudioOnlyMode = previousAudioOnlyMode,
     pr_targetAudioOnlyMode = targetAudioOnlyMode,
     pr_healthySamples = Fin 0, pr_badSamples = Fin 0,
     pr_requiredHealthySamples = Some (required_samples requiredHealthySamples (Fin 3)),
     pr_requiredBadSamples = Some (required_samples requiredBadSamples (Fin 2))\<rparr>"

definition evaluateProbe ::
    "probe_context option \<Rightarrow> signals \<Rightarrow> profile \<Rightarrow> probe_context option \<times> probe_result" where
  "evaluateProbe context s p =
     (case context of
        None \<Rightarrow> (None, Inconclusive)
      | Some c \<Rightarrow>
          if \<not> pr_active c then (None, Inconclusive)
          else
            let n = (if isProbeHealthy s p
                     then c\<lparr>pr_healthySamples := js_add (pr_healthySamples c) (Fin 1),
                            pr_badSamples := Fin 0\<rparr>
                     else if isProbeBad s p
                     then c\<lparr>pr_healthySamples := Fin 0,
                            pr_badSamples := js_add (pr_badSamples c) (Fin 1)\<rparr>
                     else c);
                requiredBadSamples = required_samples (pr_requiredBadSamples n) (Fin 2);
                requiredHealthySamples = required_samples (pr_requiredHealthySamples n) (Fin 3)
            in if js_ge (pr_badSamples n) requiredBadSamples then (Some n, Failed)
               else if js_ge (pr_healthySamples n) requiredHealthySamples then (Some n, Successful)
               else (Some n, Inconclusive))"

lemma probe_healthy_not_bad:
  "thresholds_ordered (pf_thresholds p) \<Longrightarrow> isProbeHealthy s p \<Longrightarrow> \<not> isProbeBad s p"
  unfolding isProbeHealthy_def isProbeBad_def thresholds_ordered_def Let_def
  by (blast dest: js_lt_le_trans js_lt_imp_not_le)

text \<open>A probe still running: both counters below what a verdict takes, at most one of them
  running.\<close>

definition probe_running :: "probe_context \<Rightarrow> nat \<Rightarrow> nat \<Rightarrow> nat \<Rightarrow> nat \<Rightarrow> bool" where
  "probe_running c h b rh rb \<longleftrightarrow> pr_active c
     \<and> pr_healthySamples c = Fin (of_nat h) \<and> pr_badSamples c = Fin (of_nat b)
     \<and> pr_requiredHealthySamples c = Some (Fin (of_nat rh))
     \<and> pr_requiredBadSamples c = Some (Fin (of_nat rb))
     \<and> h < rh \<and> b < rb \<and> (h = 0 \<or> b = 0) \<and> int rh < 2 ^ 53 \<and> int rb < 2 ^ 53"

lemma required_samples_nat: "0 < n \<Longrightarrow> required_samples (Some (Fin (of_nat n))) d = Fin (of_nat n)"
  by (simp add: required_samples_def js_max_def)

lemma js_add_nat_1: "int n < 2 ^ 53 \<Longrightarrow> js_add (Fin (of_nat n)) (Fin 1) = Fin (of_nat (Suc n))"
  using js_num_of_int [of "int n + 1"] by (simp add: add.commute)

lemma evaluateProbe_running:
  assumes "probe_running c h b rh rb"
  shows "evaluateProbe (Some c) s p =
    (if isProbeHealthy s p
     then (Some (c\<lparr>pr_healthySamples := Fin (of_nat (Suc h)), pr_badSamples := Fin 0\<rparr>),
           if rh \<le> Suc h then Successful else Inconclusive)
     else if isProbeBad s p
     then (Some (c\<lparr>pr_healthySamples := Fin 0, pr_badSamples := Fin (of_nat (Suc b))\<rparr>),
           if rb \<le> Suc b then Failed else Inconclusive)
     else (Some c, Inconclusive))"
proof -
  have h: "int h < 2 ^ 53" "int b < 2 ^ 53" "0 < rh" "0 < rb" and hb: "h < rh" "b < rb"
    using assms by (auto simp: probe_running_def)
  have c: "pr_active c" "pr_healthySamples c = Fin (of_nat h)" "pr_badSamples c = Fin (of_nat b)"
    "pr_requiredHealthySamples c = Some (Fin (of_nat rh))"
    "pr_requiredBadSamples c = Some (Fin (of_nat rb))"
    using assms by (simp_all add: probe_running_def)
  show ?thesis
    using h hb by (simp add: evaluateProbe_def Let_def c required_samples_nat js_add_nat_1
        del: js_add.simps of_nat_Suc)
qed

section \<open>A probe over a sequence of samples\<close>

text \<open>The caller feeds the probe one sample per tick until a verdict, keeping the returned
  context while it is inconclusive.\<close>

fun probe_run :: "probe_context option \<Rightarrow> profile \<Rightarrow> signals list \<Rightarrow> probe_result" where
  "probe_run c p [] = Inconclusive"
| "probe_run c p (s # ss) =
     (case evaluateProbe c s p of (c', r) \<Rightarrow> if r = Inconclusive then probe_run c' p ss else r)"

text \<open>The samples that count, in order: \<open>True\<close> a healthy one, \<open>False\<close> a bad one.\<close>

fun decisive :: "profile \<Rightarrow> signals list \<Rightarrow> bool list" where
  "decisive p [] = []"
| "decisive p (s # ss) =
     (if isProbeHealthy s p then [True] else if isProbeBad s p then [False] else []) @ decisive p ss"

definition tail_run :: "bool \<Rightarrow> bool list \<Rightarrow> nat" where
  "tail_run x xs = length (takeWhile (\<lambda>y. y = x) (rev xs))"

lemma tail_run_simps [simp]:
  "tail_run x [] = 0" "tail_run x (xs @ [y]) = (if y = x then Suc (tail_run x xs) else 0)"
  by (simp_all add: tail_run_def)

lemma tail_run_exclusive: "tail_run True xs = 0 \<or> tail_run False xs = 0"
  by (cases xs rule: rev_cases) auto

text \<open>The first moment at which one of the two runs is long enough.\<close>

fun verdict :: "nat \<Rightarrow> nat \<Rightarrow> bool list \<Rightarrow> bool list \<Rightarrow> probe_result" where
  "verdict rh rb seen [] = Inconclusive"
| "verdict rh rb seen (d # ds) =
     (if rh \<le> tail_run True (seen @ [d]) then Successful
      else if rb \<le> tail_run False (seen @ [d]) then Failed
      else verdict rh rb (seen @ [d]) ds)"

lemma probe_run_verdict:
  assumes "probe_running c (tail_run True seen) (tail_run False seen) rh rb"
  shows "probe_run (Some c) p ss = verdict rh rb seen (decisive p ss)"
  using assms
proof (induction ss arbitrary: c seen)
  case (Cons s ss)
  have pos: "0 < rh" "0 < rb" using Cons.prems by (auto simp: probe_running_def)
  consider (healthy) "isProbeHealthy s p" | (bad) "\<not> isProbeHealthy s p" "isProbeBad s p"
    | (none) "\<not> isProbeHealthy s p" "\<not> isProbeBad s p" by blast
  then show ?case
  proof cases
    case healthy
    let ?c = "c\<lparr>pr_healthySamples := Fin (of_nat (Suc (tail_run True seen))), pr_badSamples := Fin 0\<rparr>"
    have "\<not> rh \<le> Suc (tail_run True seen) \<Longrightarrow>
        probe_running ?c (tail_run True (seen @ [True])) (tail_run False (seen @ [True])) rh rb"
      using Cons.prems pos by (simp add: probe_running_def)
    from Cons.IH [OF this] healthy pos show ?thesis
      by (simp add: evaluateProbe_running [OF Cons.prems])
  next
    case bad
    let ?c = "c\<lparr>pr_healthySamples := Fin 0, pr_badSamples := Fin (of_nat (Suc (tail_run False seen)))\<rparr>"
    have "\<not> rb \<le> Suc (tail_run False seen) \<Longrightarrow>
        probe_running ?c (tail_run True (seen @ [False])) (tail_run False (seen @ [False])) rh rb"
      using Cons.prems pos by (simp add: probe_running_def)
    from Cons.IH [OF this] bad pos show ?thesis
      by (simp add: evaluateProbe_running [OF Cons.prems])
  next
    case none
    then show ?thesis using Cons.IH [OF Cons.prems]
      by (simp add: evaluateProbe_running [OF Cons.prems])
  qed
qed simp

lemma first_moment_Cons:
  "(\<exists>n \<le> length (d # ds). 0 < n \<and> P (seen @ take n (d # ds))
        \<and> (\<forall>m < n. 0 < m \<longrightarrow> Q (seen @ take m (d # ds))))
      \<longleftrightarrow> P (seen @ [d]) \<or> (Q (seen @ [d]) \<and> (\<exists>n \<le> length ds. 0 < n \<and> P ((seen @ [d]) @ take n ds)
        \<and> (\<forall>m < n. 0 < m \<longrightarrow> Q ((seen @ [d]) @ take m ds))))" (is "?l \<longleftrightarrow> ?r")
proof
  assume ?l
  then obtain n where n: "n \<le> length (d # ds)" "0 < n" "P (seen @ take n (d # ds))"
    "\<forall>m < n. 0 < m \<longrightarrow> Q (seen @ take m (d # ds))" by blast
  show ?r
  proof (cases "n = 1")
    case False
    with n obtain k where k: "n = Suc k" "0 < k" by (cases n) auto
    have "\<forall>m < k. 0 < m \<longrightarrow> Q ((seen @ [d]) @ take m ds)" using n(4) k by fastforce
    moreover have "Q (seen @ [d])" using n(4) k by (auto dest: spec [of _ 1])
    ultimately show ?thesis using n k by (auto intro!: exI [of _ k])
  qed (use n in auto)
next
  assume ?r
  then show ?l
  proof
    assume "P (seen @ [d])" then show ?l by (intro exI [of _ 1]) auto
  next
    assume "Q (seen @ [d]) \<and> (\<exists>n \<le> length ds. 0 < n \<and> P ((seen @ [d]) @ take n ds)
      \<and> (\<forall>m < n. 0 < m \<longrightarrow> Q ((seen @ [d]) @ take m ds)))"
    then obtain n where "n \<le> length ds" "P ((seen @ [d]) @ take n ds)" "Q (seen @ [d])"
      "\<forall>m < n. 0 < m \<longrightarrow> Q ((seen @ [d]) @ take m ds)" by blast
    moreover from this(3,4) have "Q (seen @ take m (d # ds))" if "m < Suc n" "0 < m" for m
      using that by (cases m; cases "m - 1") auto
    ultimately show ?l by (intro exI [of _ "Suc n"]) simp
  qed
qed

lemma verdict_cases:
  assumes "0 < rh" "0 < rb"
  shows "(verdict rh rb seen ds = Successful \<longleftrightarrow>
      (\<exists>n \<le> length ds. 0 < n \<and> rh \<le> tail_run True (seen @ take n ds)
         \<and> (\<forall>m < n. 0 < m \<longrightarrow> tail_run False (seen @ take m ds) < rb)))
    \<and> (verdict rh rb seen ds = Failed \<longleftrightarrow>
      (\<exists>n \<le> length ds. 0 < n \<and> rb \<le> tail_run False (seen @ take n ds)
         \<and> (\<forall>m < n. 0 < m \<longrightarrow> tail_run True (seen @ take m ds) < rh)))"
proof (induction ds arbitrary: seen)
  case (Cons d ds)
  have ne: "\<not> (rh \<le> tail_run True (seen @ [d]) \<and> rb \<le> tail_run False (seen @ [d]))"
    using assms tail_run_exclusive [of "seen @ [d]"] by linarith
  note IH = Cons.IH [of "seen @ [d]", THEN conjunct1] Cons.IH [of "seen @ [d]", THEN conjunct2]
  show ?case
    unfolding first_moment_Cons [where P = "\<lambda>xs. rh \<le> tail_run True xs" and Q = "\<lambda>xs. tail_run False xs < rb"]
      first_moment_Cons [where P = "\<lambda>xs. rb \<le> tail_run False xs" and Q = "\<lambda>xs. tail_run True xs < rh"]
    using ne
    by (cases "rh \<le> tail_run True (seen @ [d])"; cases "rb \<le> tail_run False (seen @ [d])")
      (simp_all only: verdict.simps IH probe_result.distinct simp_thms if_True if_False not_le
        not_less [symmetric])
qed simp_all

section \<open>Properties\<close>

text \<open>C18: the verdict of a probe. Among the samples that are healthy or bad (the others do not
  count), a probe succeeds exactly when at some moment the last \<open>rh\<close> are all healthy and no earlier
  moment had the last \<open>rb\<close> all bad; it fails exactly in the opposite case; and no sample is
  counted on both sides.\<close>

theorem probe_verdict:
  fixes p :: profile and ss :: "signals list"
  defines "ds \<equiv> decisive p ss"
  assumes "thresholds_ordered (pf_thresholds p)" "0 < rh" "int rh < 2 ^ 53" "0 < rb" "int rb < 2 ^ 53"
  shows "(probe_run (Some (beginProbe pl tg t pa ta (Some (Fin (of_nat rh))) (Some (Fin (of_nat rb))))) p ss
            = Successful \<longleftrightarrow>
          (\<exists>n \<le> length ds. 0 < n \<and> rh \<le> tail_run True (take n ds)
             \<and> (\<forall>m < n. 0 < m \<longrightarrow> tail_run False (take m ds) < rb)))
       \<and> (probe_run (Some (beginProbe pl tg t pa ta (Some (Fin (of_nat rh))) (Some (Fin (of_nat rb))))) p ss
            = Failed \<longleftrightarrow>
          (\<exists>n \<le> length ds. 0 < n \<and> rb \<le> tail_run False (take n ds)
             \<and> (\<forall>m < n. 0 < m \<longrightarrow> tail_run True (take m ds) < rh)))
       \<and> (\<forall>s. \<not> (isProbeHealthy s p \<and> isProbeBad s p))"
proof -
  let ?c = "beginProbe pl tg t pa ta (Some (Fin (of_nat rh))) (Some (Fin (of_nat rb)))"
  have "probe_running ?c (tail_run True []) (tail_run False []) rh rb"
    using assms by (simp add: probe_running_def beginProbe_def required_samples_nat)
  from probe_run_verdict [OF this, of p ss] verdict_cases [OF assms(3,5), of "[]" ds]
    probe_healthy_not_bad [OF assms(2)]
  show ?thesis by (simp add: ds_def)
qed

definition healthy_signals :: signals where
  "healthy_signals = \<lparr>sg_packetsSentDelta = Fin 100, sg_packetsLostDelta = Fin 0,
     sg_retransmittedPacketsSentDelta = Fin 0, sg_sendBitrateBps = Fin 900000,
     sg_targetBitrateBps = Fin 900000, sg_bitrateUtilization = Fin 1, sg_lossRate = Fin 0,
     sg_lossEwma = Fin 0, sg_rttMs = Fin 50, sg_rttEwma = Fin 50, sg_jitterMs = Fin 5,
     sg_jitterEwma = Fin 5, sg_cpuLimited = False, sg_bandwidthLimited = False,
     sg_reason = RNetwork\<rparr>"

lemma healthy_signals_healthy: "isProbeHealthy healthy_signals DEFAULT_CAMERA_PROFILE"
  unfolding isProbeHealthy_def Let_def builtin_profile_fields by code_simp

lemma decisive_healthy:
  "decisive DEFAULT_CAMERA_PROFILE (replicate n healthy_signals) = replicate n True"
  by (induction n) (simp_all add: healthy_signals_healthy)

theorem probe_verdict_witness:
  "probe_run (Some (beginProbe (Fin 2) (Fin 1) (Fin 0) False False (Some (Fin 3)) (Some (Fin 2))))
     DEFAULT_CAMERA_PROFILE (replicate 3 healthy_signals) = Successful"
  using probe_verdict [of DEFAULT_CAMERA_PROFILE 3 2 "Fin 2" "Fin 1" "Fin 0" False False
      "replicate 3 healthy_signals"]
  by (auto simp: default_thresholds_ordered decisive_healthy tail_run_def
      intro!: exI [of _ 3])

end
