(* ===== verification/Executor.thy ===== *)
theory Executor
  imports QosTypes
begin

text \<open>
  src/src/client/lib/qos/executor.js: applying planned actions to a sink, skipping the ones that
  repeat the last one applied. The sink and the \<open>onError\<close> callback belong to the caller: they are
  fields of the executor, acting on a world of type \<open>'x\<close>; \<open>onError\<close> returns. Each awaited sink call is run to its
  end before the next one, as \<open>executeMany\<close> does. The lemmas say which actions reach the sink, in
  which order, and that the default key identifies what an action does.
\<close>

text \<open>
  An action key is the list of the parts the source joins with ':'. No part the default resolver
  builds contains a colon, and \<open>String\<close> is injective on finite numbers, so two joined keys are equal
  exactly when their parts are.
\<close>

datatype key_part = KType action_type | KNum number | KStr string

type_synonym action_key = "key_part list"

definition normalizeNumber :: "number option \<Rightarrow> key_part" where
  "normalizeNumber v =
     (case v of None \<Rightarrow> KStr '''' | Some n \<Rightarrow> if is_finite n then KNum n else KStr '''')"

fun defaultQosActionKeyResolver :: "qos_action \<Rightarrow> action_key" where
  "defaultQosActionKeyResolver (SetEncodingParameters l p) =
     [KType TSetEncodingParameters, KNum l, normalizeNumber (ep_maxBitrateBps p),
      normalizeNumber (ep_maxFramerate p), normalizeNumber (ep_scaleResolutionDownBy p),
      KStr (case ep_adaptivePtime p of
              None \<Rightarrow> '''' | Some True \<Rightarrow> ''true'' | Some False \<Rightarrow> ''false'')]"
| "defaultQosActionKeyResolver (SetMaxSpatialLayer l s) = [KType TSetMaxSpatialLayer, KNum l, KNum s]"
| "defaultQosActionKeyResolver a = [KType (a_type a), KNum (a_level a)]"

datatype exec_status = Applied | SkippedNoop | SkippedIdempotent | ExecFailed

record exec_result =
  re_status :: exec_status
  re_action :: qos_action
  re_actionKey :: action_key
  re_error :: "js_error option"

record 'x executor =
  ex_sink :: "'x \<Rightarrow> qos_action \<Rightarrow> 'x \<times> thrown option"
  ex_enableIdempotence :: bool
  ex_stopOnError :: bool
  ex_keyResolver :: "qos_action \<Rightarrow> action_key"
  ex_onError :: "('x \<Rightarrow> js_error \<Rightarrow> qos_action \<Rightarrow> action_key \<Rightarrow> 'x) option"
  ex_lastAppliedActionKey :: "action_key option"

record 'x executor_options =
  xo_enableIdempotence :: "bool option"
  xo_stopOnError :: "bool option"
  xo_keyResolver :: "(qos_action \<Rightarrow> action_key) option"
  xo_onError :: "('x \<Rightarrow> js_error \<Rightarrow> qos_action \<Rightarrow> action_key \<Rightarrow> 'x) option"

definition new_executor ::
    "('x \<Rightarrow> qos_action \<Rightarrow> 'x \<times> thrown option) \<Rightarrow> 'x executor_options \<Rightarrow> 'x executor" where
  "new_executor sink options = \<lparr>ex_sink = sink,
     ex_enableIdempotence = (case xo_enableIdempotence options of None \<Rightarrow> True | Some b \<Rightarrow> b),
     ex_stopOnError = (case xo_stopOnError options of None \<Rightarrow> False | Some b \<Rightarrow> b),
     ex_keyResolver = (case xo_keyResolver options of
        None \<Rightarrow> defaultQosActionKeyResolver | Some f \<Rightarrow> f),
     ex_onError = xo_onError options,
     ex_lastAppliedActionKey = None\<rparr>"

definition resetIdempotenceState :: "'x executor \<Rightarrow> 'x executor" where
  "resetIdempotenceState ex = ex\<lparr>ex_lastAppliedActionKey := None\<rparr>"

definition exec_result :: "exec_status \<Rightarrow> qos_action \<Rightarrow> action_key \<Rightarrow> js_error option \<Rightarrow> exec_result" where
  "exec_result st a k e = \<lparr>re_status = st, re_action = a, re_actionKey = k, re_error = e\<rparr>"

definition execute :: "'x executor \<Rightarrow> 'x \<Rightarrow> qos_action \<Rightarrow> 'x executor \<times> 'x \<times> exec_result" where
  "execute ex x action =
     (let actionKey = ex_keyResolver ex action
      in if a_type action = TNoop then (ex, x, exec_result SkippedNoop action actionKey None)
         else if ex_enableIdempotence ex \<and> ex_lastAppliedActionKey ex = Some actionKey
         then (ex, x, exec_result SkippedIdempotent action actionKey None)
         else case ex_sink ex x action of
             (x', None) \<Rightarrow>
               (ex\<lparr>ex_lastAppliedActionKey := Some actionKey\<rparr>, x',
                exec_result Applied action actionKey None)
           | (x', Some thrown) \<Rightarrow>
               (let normalized = toError thrown;
                    x'' = (case ex_onError ex of
                        None \<Rightarrow> x' | Some f \<Rightarrow> f x' normalized action actionKey)
                in (ex, x'', exec_result ExecFailed action actionKey (Some normalized))))"

fun executeMany ::
    "'x executor \<Rightarrow> 'x \<Rightarrow> qos_action list \<Rightarrow> 'x executor \<times> 'x \<times> exec_result list" where
  "executeMany ex x [] = (ex, x, [])"
| "executeMany ex x (a # as) =
     (case execute ex x a of (ex', x', r) \<Rightarrow>
        if ex_stopOnError ex' \<and> re_status r = ExecFailed then (ex', x', [r])
        else case executeMany ex' x' as of (ex'', x'', rs) \<Rightarrow> (ex'', x'', r # rs))"

section \<open>Which actions reach the sink\<close>

definition attempted :: "exec_result \<Rightarrow> bool" where
  "attempted r \<longleftrightarrow> re_status r = Applied \<or> re_status r = ExecFailed"

text \<open>The key an executor compares with: the one of the last applied action.\<close>

fun last_applied :: "action_key option \<Rightarrow> exec_result list \<Rightarrow> action_key option" where
  "last_applied k [] = k"
| "last_applied k (r # rs) =
     last_applied (if re_status r = Applied then Some (re_actionKey r) else k) rs"

text \<open>One call of the sink, with the error callback.\<close>

definition sink_call :: "'x executor \<Rightarrow> 'x \<Rightarrow> qos_action \<Rightarrow> 'x" where
  "sink_call ex x a =
     (case ex_sink ex x a of
        (x', None) \<Rightarrow> x'
      | (x', Some t) \<Rightarrow>
          case ex_onError ex of None \<Rightarrow> x' | Some f \<Rightarrow> f x' (toError t) a (ex_keyResolver ex a))"

definition status_of :: "'x executor \<Rightarrow> 'x \<Rightarrow> qos_action \<Rightarrow> exec_status" where
  "status_of ex x a =
     (if a_type a = TNoop then SkippedNoop
      else if ex_enableIdempotence ex \<and> ex_lastAppliedActionKey ex = Some (ex_keyResolver ex a)
      then SkippedIdempotent
      else if snd (ex_sink ex x a) = None then Applied else ExecFailed)"

lemma exec_result_fields [simp]:
  "re_status (exec_result st a k e) = st" "re_action (exec_result st a k e) = a"
  "re_actionKey (exec_result st a k e) = k" "re_error (exec_result st a k e) = e"
  by (simp_all add: exec_result_def)

lemma execute_spec:
  assumes "execute ex x a = (ex', x', r)"
  shows "re_status r = status_of ex x a" "re_action r = a" "re_actionKey r = ex_keyResolver ex a"
    and "ex' = (if re_status r = Applied
                then ex\<lparr>ex_lastAppliedActionKey := Some (re_actionKey r)\<rparr> else ex)"
    and "x' = (if attempted r then sink_call ex x a else x)"
    and "re_error r = None \<longleftrightarrow> re_status r \<noteq> ExecFailed"
  using assms
  by (auto simp: execute_def status_of_def attempted_def sink_call_def Let_def
      split: if_splits prod.splits option.splits)

lemma execute_config:
  assumes "execute ex x a = (ex', x', r)"
  shows "ex_sink ex' = ex_sink ex" "ex_keyResolver ex' = ex_keyResolver ex"
    "ex_onError ex' = ex_onError ex" "ex_enableIdempotence ex' = ex_enableIdempotence ex"
    "ex_stopOnError ex' = ex_stopOnError ex" "sink_call ex' = sink_call ex"
    "ex_lastAppliedActionKey ex' = last_applied (ex_lastAppliedActionKey ex) [r]"
  using execute_spec(4) [OF assms] by (auto simp: sink_call_def fun_eq_iff split: prod.splits option.splits)

lemma status_of_skip:
  "status_of ex x a = SkippedNoop \<longleftrightarrow> a_type a = TNoop"
  "status_of ex x a = SkippedIdempotent \<longleftrightarrow> a_type a \<noteq> TNoop \<and> ex_enableIdempotence ex
     \<and> ex_lastAppliedActionKey ex = Some (ex_keyResolver ex a)"
  by (simp_all add: status_of_def)

text \<open>What a run of \<open>executeMany\<close> returns, by position.\<close>

definition skip_ok :: "'x executor \<Rightarrow> exec_result list \<Rightarrow> nat \<Rightarrow> bool" where
  "skip_ok ex rs i \<longleftrightarrow>
     (re_status (rs ! i) = SkippedNoop \<longleftrightarrow> a_type (re_action (rs ! i)) = TNoop)
     \<and> (re_status (rs ! i) = SkippedIdempotent \<longleftrightarrow>
          a_type (re_action (rs ! i)) \<noteq> TNoop \<and> ex_enableIdempotence ex
          \<and> last_applied (ex_lastAppliedActionKey ex) (take i rs)
              = Some (ex_keyResolver ex (re_action (rs ! i))))"

lemma executeMany_cases:
  assumes "executeMany ex x (a # as) = (ex', x', rs)"
  obtains (stop) r where "execute ex x a = (ex', x', r)" "rs = [r]" "ex_stopOnError ex"
      "re_status r = ExecFailed"
    | (more) ex1 x1 r rs' where "execute ex x a = (ex1, x1, r)" "rs = r # rs'"
      "executeMany ex1 x1 as = (ex', x', rs')" "ex_stopOnError ex \<Longrightarrow> re_status r \<noteq> ExecFailed"
proof -
  obtain ex1 x1 r where e: "execute ex x a = (ex1, x1, r)" by (metis prod_cases3)
  obtain ex2 x2 rs2 where m: "executeMany ex1 x1 as = (ex2, x2, rs2)" by (metis prod_cases3)
  note c = execute_config(5) [OF e]
  show thesis
  proof (cases "ex_stopOnError ex \<and> re_status r = ExecFailed")
    case True then show thesis using assms e c stop by simp
  next
    case False then show thesis using assms e m c more by auto
  qed
qed

lemma executeMany_positions:
  assumes "executeMany ex x as = (ex', x', rs)"
  shows "map re_action rs = take (length rs) as"
    and "length rs < length as \<Longrightarrow> ex_stopOnError ex \<and> rs \<noteq> [] \<and> re_status (last rs) = ExecFailed"
    and "ex_stopOnError ex \<Longrightarrow> r \<in> set (butlast rs) \<Longrightarrow> re_status r \<noteq> ExecFailed"
  using assms
proof (induction as arbitrary: ex x rs)
  case (Cons a as)
  { case 1 show ?case using 1
      by (cases rule: executeMany_cases) (auto dest: execute_spec(2) Cons.IH(1)) }
  { case 2 show ?case using 2(2)
    proof (cases rule: executeMany_cases)
      case (more ex1 x1 r rs')
      with 2(1) Cons.IH(2) [OF _ more(3)] execute_config(5) [OF more(1)]
      show ?thesis by simp
    qed simp }
  { case 3 show ?case using 3(3)
    proof (cases rule: executeMany_cases)
      case (more ex1 x1 r0 rs')
      with 3(1,2) Cons.IH(3) [OF _ _ more(3)] execute_config(5) [OF more(1)]
      show ?thesis by (auto split: if_splits)
    qed (use 3 in simp) }
qed auto

lemma executeMany_world:
  assumes "executeMany ex x as = (ex', x', rs)"
  shows "x' = foldl (sink_call ex) x (map re_action (filter attempted rs))
    \<and> ex_lastAppliedActionKey ex' = last_applied (ex_lastAppliedActionKey ex) rs"
  using assms
proof (induction as arbitrary: ex x rs)
  case (Cons a as)
  show ?case using Cons.prems
  proof (cases rule: executeMany_cases)
    case (stop r)
    then show ?thesis using execute_spec(2,5) [OF stop(1)] execute_config(7) [OF stop(1)]
      by (simp add: attempted_def)
  next
    case (more ex1 x1 r rs')
    then show ?thesis
      using execute_spec(2,5) [OF more(1)] execute_config(6,7) [OF more(1)] Cons.IH [OF more(3)]
      by simp
  qed
qed simp

lemma executeMany_skips:
  assumes "executeMany ex x as = (ex', x', rs)" "i < length rs"
  shows "skip_ok ex rs i"
  using assms
proof (induction as arbitrary: ex x rs i)
  case (Cons a as)
  have head: "skip_ok ex (r # rs') 0" if "execute ex x a = (ex1, x1, r)" for ex1 x1 r rs'
    using execute_spec(1,2) [OF that] by (simp add: skip_ok_def status_of_skip)
  show ?case using Cons.prems(1)
  proof (cases rule: executeMany_cases)
    case (stop r)
    then show ?thesis using head [OF stop(1)] Cons.prems(2) by simp
  next
    case (more ex1 x1 r rs')
    show ?thesis
    proof (cases i)
      case 0 with more head show ?thesis by simp
    next
      case (Suc j)
      with Cons.IH [OF more(3), of j] Cons.prems(2) more(2) execute_config(2,4,7) [OF more(1)]
      show ?thesis by (simp add: skip_ok_def)
    qed
  qed
qed simp

section \<open>What a key identifies\<close>

text \<open>The part of an action the sink acts on: the reason is a label, and a parameter that is not a
  finite number counts as absent.\<close>

definition finite_only :: "number option \<Rightarrow> number option" where
  "finite_only v = (case v of None \<Rightarrow> None | Some n \<Rightarrow> if is_finite n then Some n else None)"

fun effect :: "qos_action \<Rightarrow> qos_action" where
  "effect (SetEncodingParameters l p) = SetEncodingParameters l
     (p\<lparr>ep_maxBitrateBps := finite_only (ep_maxBitrateBps p),
        ep_maxFramerate := finite_only (ep_maxFramerate p),
        ep_scaleResolutionDownBy := finite_only (ep_scaleResolutionDownBy p)\<rparr>)"
| "effect (EnterAudioOnly l r) = EnterAudioOnly l None"
| "effect (ExitAudioOnly l r) = ExitAudioOnly l None"
| "effect (Noop l r) = Noop l None"
| "effect a = a"

lemma normalizeNumber_eq: "normalizeNumber u = normalizeNumber v \<longleftrightarrow> finite_only u = finite_only v"
  by (auto simp: normalizeNumber_def finite_only_def split: option.splits)

lemma encoding_parameters_eq:
  fixes p q :: encoding_parameters
  shows "p = q \<longleftrightarrow> ep_maxBitrateBps p = ep_maxBitrateBps q \<and> ep_maxFramerate p = ep_maxFramerate q
    \<and> ep_scaleResolutionDownBy p = ep_scaleResolutionDownBy q \<and> ep_adaptivePtime p = ep_adaptivePtime q"
  by (cases p; cases q) simp

lemma ptime_key_eq:
  "(case u of None \<Rightarrow> '''' | Some True \<Rightarrow> ''true'' | Some False \<Rightarrow> ''false'')
   = (case v of None \<Rightarrow> '''' | Some True \<Rightarrow> ''true'' | Some False \<Rightarrow> ''false'') \<longleftrightarrow> u = v"
  by (auto split: option.splits bool.splits)

section \<open>Properties\<close>

text \<open>the contract of \<open>executeMany\<close>. The results are those of a prefix of the actions, cut short
  only by \<open>stopOnError\<close> right after the first failure; the sink is called, in order, on exactly the
  actions reported applied or failed; no-ops never reach it; an action is skipped as a repetition
  exactly when idempotence is on and its key is the key of the last action applied before it, so
  that a failed action is tried again.\<close>

theorem executeMany_contract:
  assumes "executeMany ex x as = (ex', x', rs)"
  shows "map re_action rs = take (length rs) as
    \<and> (length rs < length as \<longrightarrow> ex_stopOnError ex \<and> rs \<noteq> [] \<and> re_status (last rs) = ExecFailed)
    \<and> (ex_stopOnError ex \<longrightarrow> (\<forall>r \<in> set (butlast rs). re_status r \<noteq> ExecFailed))
    \<and> x' = foldl (sink_call ex) x (map re_action (filter attempted rs))
    \<and> (\<forall>i < length rs.
         (re_status (rs ! i) = SkippedNoop \<longleftrightarrow> a_type (re_action (rs ! i)) = TNoop)
         \<and> (re_status (rs ! i) = SkippedIdempotent \<longleftrightarrow>
              a_type (re_action (rs ! i)) \<noteq> TNoop \<and> ex_enableIdempotence ex
              \<and> last_applied (ex_lastAppliedActionKey ex) (take i rs)
                  = Some (ex_keyResolver ex (re_action (rs ! i)))))"
  using executeMany_positions [OF assms] executeMany_world [OF assms] executeMany_skips [OF assms]
  unfolding skip_ok_def by blast

text \<open>A sink that records its calls and refuses to pause.\<close>

definition recording_sink :: "qos_action list \<Rightarrow> qos_action \<Rightarrow> qos_action list \<times> thrown option" where
  "recording_sink calls a = (calls @ [a],
     if a_type a = TPauseUpstream then Some (ThrownValue ''refused'') else None)"

definition default_options :: "'x executor_options" where
  "default_options = \<lparr>xo_enableIdempotence = None, xo_stopOnError = None, xo_keyResolver = None,
     xo_onError = None\<rparr>"

definition sample_actions :: "qos_action list" where
  "sample_actions = [Noop (Fin 0) None, SetMaxSpatialLayer (Fin 3) (Fin 0),
     SetMaxSpatialLayer (Fin 3) (Fin 0), PauseUpstream (Fin 4), PauseUpstream (Fin 4)]"

theorem executeMany_contract_witness:
  "case executeMany (new_executor recording_sink default_options) [] sample_actions of
     (ex', calls, rs) \<Rightarrow> map re_status rs = [SkippedNoop, Applied, SkippedIdempotent, ExecFailed, ExecFailed]
       \<and> calls = map re_action (filter attempted rs) \<and> map re_action rs = sample_actions"
proof -
  let ?ex = "new_executor recording_sink default_options"
  obtain ex' calls rs where r: "executeMany ?ex [] sample_actions = (ex', calls, rs)" by (metis prod_cases3)
  have "map re_status rs = [SkippedNoop, Applied, SkippedIdempotent, ExecFailed, ExecFailed]"
    using r by (auto simp: sample_actions_def execute_def new_executor_def default_options_def
        recording_sink_def Let_def)
  moreover have "sink_call ?ex calls a = calls @ [a]" for calls a
    by (simp add: sink_call_def new_executor_def default_options_def recording_sink_def)
  then have "foldl (sink_call ?ex) xs as = xs @ as" for xs as
    by (induction as arbitrary: xs) simp_all
  with executeMany_contract [OF r] have "calls = map re_action (filter attempted rs)" by simp
  moreover have "length rs = length sample_actions"
    using calculation(1) by (auto simp: sample_actions_def dest: arg_cong [where f = length])
  with executeMany_contract [OF r] have "map re_action rs = sample_actions" by simp
  ultimately show ?thesis by (simp add: r)
qed

text \<open>two actions have the same default key exactly when they do the same thing: same kind,
  same level, same layer, same finite encoding parameters. So an action skipped as a repetition
  asks for nothing the last applied one did not.\<close>

theorem default_key_identifies_effect:
  "defaultQosActionKeyResolver a = defaultQosActionKeyResolver b \<longleftrightarrow> effect a = effect b"
  by (cases a; cases b) (simp_all add: normalizeNumber_eq ptime_key_eq encoding_parameters_eq conj_ac)

end
