(* ===== verification/TraceBuf.thy ===== *)
theory TraceBuf
  imports QosTypes
begin

text \<open>
  src/src/client/lib/qos/trace.js: the fixed-capacity buffer of diagnostic entries. Every method is
  here. The lemmas show that it holds exactly the latest entries, at most its capacity of them.
\<close>

record 'e trace_buffer =
  tb_entries :: "'e list"
  tb_capacity :: number

definition new_QosTraceBuffer :: "number \<Rightarrow> 'e trace_buffer" where
  "new_QosTraceBuffer capacity =
     \<lparr>tb_entries = [], tb_capacity = js_max (Fin 1) (js_floor capacity)\<rparr>"

definition tb_size :: "'e trace_buffer \<Rightarrow> number" where
  "tb_size b = Fin (of_nat (length (tb_entries b)))"

text \<open>\<open>splice(0, n)\<close> removes the first \<open>n\<close> entries.\<close>

definition splice_front :: "number \<Rightarrow> 'e list \<Rightarrow> 'e list" where
  "splice_front n xs = (case n of Fin r \<Rightarrow> drop (nat \<lfloor>r\<rfloor>) xs | PosInf \<Rightarrow> [] | _ \<Rightarrow> xs)"

definition tb_append :: "'e trace_buffer \<Rightarrow> 'e \<Rightarrow> 'e trace_buffer" where
  "tb_append b entry =
     (let es = tb_entries b @ [entry];
          len = Fin (of_nat (length es))
      in b\<lparr>tb_entries :=
            (if js_gt len (tb_capacity b) then splice_front (js_sub len (tb_capacity b)) es else es)\<rparr>)"

definition getEntries :: "'e trace_buffer \<Rightarrow> 'e list" where
  "getEntries b = tb_entries b"

definition tb_clear :: "'e trace_buffer \<Rightarrow> 'e trace_buffer" where
  "tb_clear b = b\<lparr>tb_entries := []\<rparr>"

definition appendTraceEntry :: "'e trace_buffer \<Rightarrow> 'e \<Rightarrow> 'e trace_buffer" where
  "appendTraceEntry b entry = tb_append b entry"

definition getTraceEntries :: "'e trace_buffer \<Rightarrow> 'e list" where
  "getTraceEntries b = getEntries b"

definition clearTrace :: "'e trace_buffer \<Rightarrow> 'e trace_buffer" where
  "clearTrace b = tb_clear b"

definition createQosTraceBuffer :: "number option \<Rightarrow> 'e trace_buffer" where
  "createQosTraceBuffer capacity =
     new_QosTraceBuffer (case capacity of None \<Rightarrow> DEFAULT_TRACE_BUFFER_SIZE | Some c \<Rightarrow> c)"

section \<open>The latest entries\<close>

definition last_n :: "nat \<Rightarrow> 'e list \<Rightarrow> 'e list" where
  "last_n n xs = drop (length xs - n) xs"

datatype 'e trace_op = Append 'e | Clear

fun tb_step :: "'e trace_buffer \<Rightarrow> 'e trace_op \<Rightarrow> 'e trace_buffer" where
  "tb_step b (Append e) = appendTraceEntry b e"
| "tb_step b Clear = clearTrace b"

text \<open>What a buffer without a bound would hold.\<close>

fun log_step :: "'e list \<Rightarrow> 'e trace_op \<Rightarrow> 'e list" where
  "log_step xs (Append e) = xs @ [e]"
| "log_step xs Clear = []"

definition tb_inv :: "nat \<Rightarrow> 'e trace_buffer \<Rightarrow> bool" where
  "tb_inv n b \<longleftrightarrow> tb_capacity b = Fin (of_nat n) \<and> length (tb_entries b) \<le> n
     \<and> 0 < n \<and> int n < 2 ^ 53"

lemma last_n_append: "0 < n \<Longrightarrow> last_n n (last_n n xs @ [e]) = last_n n (xs @ [e])"
  by (cases "length xs \<le> n") (auto simp: last_n_def Suc_diff_le not_le diff_diff_left)

lemma tb_append_inv:
  assumes "tb_inv n b"
  shows "tb_append b e = b\<lparr>tb_entries := last_n n (tb_entries b @ [e])\<rparr>"
proof -
  have cap: "tb_capacity b = Fin (of_nat n)" and len: "length (tb_entries b) \<le> n"
    and n: "0 < n" "int n < 2 ^ 53" using assms by (simp_all add: tb_inv_def)
  show ?thesis
  proof (cases "length (tb_entries b) = n")
    case True
    then show ?thesis by (simp add: tb_append_def Let_def cap js_sub_def splice_front_def last_n_def)
  next
    case False
    with len have "Suc (length (tb_entries b)) \<le> n" by simp
    then show ?thesis
      by (simp add: tb_append_def Let_def cap last_n_def flip: of_nat_Suc)
  qed
qed

lemma tb_step_inv: "tb_inv n b \<Longrightarrow> tb_inv n (tb_step b e)"
  by (cases e)
     (simp_all add: tb_append_inv appendTraceEntry_def clearTrace_def tb_clear_def,
      auto simp: tb_inv_def last_n_def)

interpretation trace: step_invariant tb_step "tb_inv n" for n
  by unfold_locales (rule tb_step_inv)

lemma tb_step_log:
  "tb_inv n b \<Longrightarrow> tb_entries b = last_n n xs \<Longrightarrow> tb_entries (tb_step b e) = last_n n (log_step xs e)"
  using tb_inv_def [of n b]
  by (cases e) (simp_all add: tb_append_inv appendTraceEntry_def clearTrace_def tb_clear_def
      last_n_append, simp add: last_n_def)

lemma tb_run_log:
  "tb_inv n b \<Longrightarrow> tb_entries b = last_n n xs \<Longrightarrow>
     tb_entries (foldl tb_step b ops) = last_n n (foldl log_step xs ops)"
  by (induction ops arbitrary: b xs) (simp_all add: tb_step_log tb_step_inv)

lemma new_QosTraceBuffer_inv:
  "\<lfloor>c\<rfloor> < 2 ^ 53 \<Longrightarrow> tb_inv (max 1 (nat \<lfloor>c\<rfloor>)) (new_QosTraceBuffer (Fin c))"
proof -
  assume "\<lfloor>c\<rfloor> < 2 ^ 53"
  moreover have "js_max (Fin 1) (Fin (of_int z)) = Fin (of_nat (max 1 (nat z)))" for z
    by (simp add: js_max_def max_def) linarith
  ultimately show ?thesis
    by (simp add: tb_inv_def new_QosTraceBuffer_def del: of_nat_max floor_less_numeral) linarith
qed

section \<open>Properties\<close>

text \<open>C31: the trace buffer created with a finite capacity below \<open>2 ^ 53\<close>, which is rounded down and is one at least, holds, after any sequence of appends and
  clears, exactly the latest entries since the last clear: at most its capacity of them, in order,
  none lost while there is room.\<close>

theorem trace_keeps_latest:
  assumes "\<lfloor>c\<rfloor> < 2 ^ 53"
  shows "getTraceEntries (foldl tb_step (createQosTraceBuffer (Some (Fin c))) ops)
      = last_n (max 1 (nat \<lfloor>c\<rfloor>)) (foldl log_step [] ops)
    \<and> length (getTraceEntries (foldl tb_step (createQosTraceBuffer (Some (Fin c))) ops))
      \<le> max 1 (nat \<lfloor>c\<rfloor>)"
proof -
  note i = new_QosTraceBuffer_inv [OF assms]
  have "tb_entries (new_QosTraceBuffer (Fin c)) = last_n (max 1 (nat \<lfloor>c\<rfloor>)) []"
    by (simp add: new_QosTraceBuffer_def last_n_def)
  from tb_run_log [OF i this] trace.run_inv [OF i, of ops] show ?thesis
    by (simp add: getTraceEntries_def getEntries_def createQosTraceBuffer_def tb_inv_def)
qed

theorem trace_keeps_latest_witness:
  "getTraceEntries (foldl tb_step (createQosTraceBuffer (Some (Fin 2)))
     [Append 1, Append 2, Clear, Append 3, Append 4, Append (5 :: nat)]) = [4, 5]"
  using trace_keeps_latest [of 2 "[Append 1, Append 2, Clear, Append 3, Append 4, Append (5 :: nat)]"]
  by (simp add: last_n_def)

end
