(* ===== verification/Clock.thy ===== *)
theory Clock
  imports QosTypes
begin

text \<open>
  src/src/client/lib/qos/clock.js: the contract of a clock with interval timers, and
  \<open>ManualQosClock\<close>, the deterministic clock of the tests and trace replays. \<open>SystemQosClock\<close> only
  forwards to the timers of the host. The callbacks of the timers belong to the caller: they are
  values of type \<open>'c\<close>, run by a function \<open>fire\<close> over the clock and a world \<open>'x\<close>. The lemmas show
  that the manual clock keeps the contract and that its loop over the due timers ends.
\<close>

section \<open>The contract of a clock\<close>

record ('k, 'c) clock_ops =
  co_setInterval :: "'k \<Rightarrow> 'c \<Rightarrow> number \<Rightarrow> 'k \<times> nat"
  co_clearInterval :: "'k \<Rightarrow> nat \<Rightarrow> 'k"

text \<open>\<open>armed k id\<close> is the callback of a running interval timer and the interval it was given;
  a new timer has a fresh identifier and disturbs no other.\<close>

locale interval_clock =
  fixes ops :: "('k, 'c) clock_ops"
    and armed :: "'k \<Rightarrow> nat \<Rightarrow> ('c \<times> number) option"
    and wf :: "'k \<Rightarrow> bool"
    and interval :: "number \<Rightarrow> number"
  assumes set_fresh: "wf k \<Longrightarrow> co_setInterval ops k cb ms = (k', i) \<Longrightarrow> armed k i = None"
    and set_armed: "wf k \<Longrightarrow> co_setInterval ops k cb ms = (k', i) \<Longrightarrow>
        armed k' = (armed k)(i \<mapsto> (cb, interval ms))"
    and set_wf: "wf k \<Longrightarrow> co_setInterval ops k cb ms = (k', i) \<Longrightarrow> wf k'"
    and clear_armed: "wf k \<Longrightarrow> armed (co_clearInterval ops k i) = (armed k)(i := None)"
    and clear_wf: "wf k \<Longrightarrow> wf (co_clearInterval ops k i)"
begin

lemma set_clear_armed:
  assumes "wf k" "co_setInterval ops k cb ms = (k', i)"
  shows "armed (co_clearInterval ops k' i) = armed k"
  using clear_armed [OF set_wf [OF assms]] set_armed [OF assms] set_fresh [OF assms]
  by (auto simp: fun_eq_iff)

end

section \<open>ManualQosClock\<close>

text \<open>Timer identifiers count the calls of \<open>setInterval\<close>; they are natural numbers here.\<close>

record 'c timer =
  tm_id :: nat
  tm_cb :: 'c
  tm_intervalMs :: number
  tm_nextRunAtMs :: number

record 'c manual_clock =
  mc_nowMs :: number
  mc_nextId :: nat
  mc_timers :: "(nat, 'c timer) jsmap"

definition new_ManualQosClock :: "'c manual_clock" where
  "new_ManualQosClock = \<lparr>mc_nowMs = Fin 0, mc_nextId = 1, mc_timers = []\<rparr>"

definition mc_now :: "'c manual_clock \<Rightarrow> number" where
  "mc_now k = mc_nowMs k"

definition mc_setInterval :: "'c manual_clock \<Rightarrow> 'c \<Rightarrow> number \<Rightarrow> 'c manual_clock \<times> nat" where
  "mc_setInterval k cb intervalMs =
     (let safeIntervalMs = js_max (Fin 1) (js_floor intervalMs);
          i = mc_nextId k
      in (k\<lparr>mc_nextId := i + 1,
            mc_timers := jm_set i \<lparr>tm_id = i, tm_cb = cb, tm_intervalMs = safeIntervalMs,
                tm_nextRunAtMs = js_add (mc_nowMs k) safeIntervalMs\<rparr> (mc_timers k)\<rparr>, i))"

definition mc_clearInterval :: "'c manual_clock \<Rightarrow> nat \<Rightarrow> 'c manual_clock" where
  "mc_clearInterval k i = k\<lparr>mc_timers := jm_delete i (mc_timers k)\<rparr>"

text \<open>
  \<open>runDueTimers\<close>. A \<open>Map\<close> is iterated live: the identifiers grow with insertion, so the entry after
  the one with identifier \<open>prev\<close> is the first one with a larger identifier, whatever the callbacks
  added or removed. Callbacks may keep adding work: the loops take a bound on their steps, and
  running out of it is \<open>None\<close>.
\<close>

definition next_timer :: "nat \<Rightarrow> 'c manual_clock \<Rightarrow> 'c timer option" where
  "next_timer prev k = find (\<lambda>t. prev < tm_id t) (jm_values (mc_timers k))"

definition reschedule :: "'c timer \<Rightarrow> 'c timer" where
  "reschedule t = t\<lparr>tm_nextRunAtMs := js_add (tm_nextRunAtMs t) (tm_intervalMs t)\<rparr>"

fun run_pass ::
    "nat \<Rightarrow> ('c \<Rightarrow> 'c manual_clock \<times> 'x \<Rightarrow> 'c manual_clock \<times> 'x) \<Rightarrow> nat \<Rightarrow> bool
     \<Rightarrow> 'c manual_clock \<times> 'x \<Rightarrow> (bool \<times> 'c manual_clock \<times> 'x) option" where
  "run_pass 0 fire prev hasWork kx = None"
| "run_pass (Suc n) fire prev hasWork (k, x) =
     (case next_timer prev k of
        None \<Rightarrow> Some (hasWork, k, x)
      | Some t \<Rightarrow>
          if js_gt (tm_nextRunAtMs t) (mc_nowMs k) then run_pass n fire (tm_id t) hasWork (k, x)
          else run_pass n fire (tm_id t) True
            (fire (tm_cb t) (k\<lparr>mc_timers := jm_set (tm_id t) (reschedule t) (mc_timers k)\<rparr>, x)))"

fun runDueTimers ::
    "nat \<Rightarrow> ('c \<Rightarrow> 'c manual_clock \<times> 'x \<Rightarrow> 'c manual_clock \<times> 'x)
     \<Rightarrow> 'c manual_clock \<times> 'x \<Rightarrow> ('c manual_clock \<times> 'x) option" where
  "runDueTimers 0 fire kx = None"
| "runDueTimers (Suc n) fire kx =
     (case run_pass (Suc n) fire 0 False kx of
        None \<Rightarrow> None
      | Some (hasWork, kx') \<Rightarrow> if hasWork then runDueTimers n fire kx' else Some kx')"

definition advanceBy ::
    "nat \<Rightarrow> ('c \<Rightarrow> 'c manual_clock \<times> 'x \<Rightarrow> 'c manual_clock \<times> 'x) \<Rightarrow> number
     \<Rightarrow> 'c manual_clock \<times> 'x \<Rightarrow> ('c manual_clock \<times> 'x) option" where
  "advanceBy n fire deltaMs kx =
     (let safeDeltaMs = js_max (Fin 0) (js_floor deltaMs)
      in if js_eq safeDeltaMs (Fin 0) then Some kx
         else case kx of (k, x) \<Rightarrow>
           runDueTimers n fire (k\<lparr>mc_nowMs := js_add (mc_nowMs k) safeDeltaMs\<rparr>, x))"

definition advanceTo ::
    "nat \<Rightarrow> ('c \<Rightarrow> 'c manual_clock \<times> 'x \<Rightarrow> 'c manual_clock \<times> 'x) \<Rightarrow> number
     \<Rightarrow> 'c manual_clock \<times> 'x \<Rightarrow> ('c manual_clock \<times> 'x) option" where
  "advanceTo n fire targetMs kx =
     (case kx of (k, x) \<Rightarrow>
        if js_le targetMs (mc_nowMs k) then Some kx
        else runDueTimers n fire (k\<lparr>mc_nowMs := js_floor targetMs\<rparr>, x))"

definition mc_reset :: "'c manual_clock \<Rightarrow> number \<Rightarrow> 'c manual_clock" where
  "mc_reset k now = k\<lparr>mc_nowMs := js_max (Fin 0) (js_floor now), mc_timers := []\<rparr>"

section \<open>The manual clock is a clock\<close>

definition mc_wf :: "'c manual_clock \<Rightarrow> bool" where
  "mc_wf k \<longleftrightarrow> jm_wf (mc_timers k) \<and> 0 < mc_nextId k
     \<and> (\<forall>(i, t) \<in> set (mc_timers k). tm_id t = i \<and> 0 < i \<and> i < mc_nextId k)
     \<and> sorted (jm_keys (mc_timers k))"

definition mc_armed :: "'c manual_clock \<Rightarrow> nat \<Rightarrow> ('c \<times> number) option" where
  "mc_armed k i = map_option (\<lambda>t. (tm_cb t, tm_intervalMs t)) (jm_get (mc_timers k) i)"

definition mc_ops :: "('c manual_clock, 'c) clock_ops" where
  "mc_ops = \<lparr>co_setInterval = mc_setInterval, co_clearInterval = mc_clearInterval\<rparr>"

lemma mc_wf_keys: "mc_wf k \<Longrightarrow> i \<in> set (jm_keys (mc_timers k)) \<Longrightarrow> i < mc_nextId k"
  by (auto simp: mc_wf_def jm_keys_def)

lemma mc_wf_fresh: "mc_wf k \<Longrightarrow> jm_get (mc_timers k) (mc_nextId k) = None"
  using mc_wf_keys [of k "mc_nextId k"] jm.keys_get [of "mc_nextId k" "mc_timers k"] by blast

lemma jm_set_fresh: "jm_get m i = None \<Longrightarrow> jm_set i v m = m @ [(i, v)]"
  by (induction m) (auto simp: jm_get_def split: if_splits)

lemma mc_setInterval_wf:
  assumes "mc_wf k"
  shows "mc_wf (fst (mc_setInterval k cb ms))"
proof -
  have lt: "i < mc_nextId k" if "i \<in> fst ` set (mc_timers k)" for i
    using mc_wf_keys [OF assms] that by (simp add: jm_keys_def)
  show ?thesis
    using assms lt unfolding mc_setInterval_def Let_def jm_set_fresh [OF mc_wf_fresh [OF assms]] mc_wf_def
    by (fastforce simp: jm_wf_def jm_keys_def sorted_append)
qed

lemma mc_clearInterval_wf: "mc_wf k \<Longrightarrow> mc_wf (mc_clearInterval k i)"
  using jm.wf_remove [of "mc_timers k" i] jm.keys_remove [of i "mc_timers k"]
  by (auto simp: mc_clearInterval_def mc_wf_def jm_delete_def sorted_wrt_filter)

interpretation mc: interval_clock mc_ops mc_armed mc_wf "\<lambda>ms. js_max (Fin 1) (js_floor ms)"
proof unfold_locales
  fix k k' :: "'c manual_clock" and cb ms i
  assume k: "mc_wf k" and s: "co_setInterval mc_ops k cb ms = (k', i)"
  from s have i: "i = mc_nextId k" by (simp add: mc_ops_def mc_setInterval_def Let_def)
  show "mc_armed k i = None" using mc_wf_fresh [OF k] by (simp add: mc_armed_def i)
  show "mc_armed k' = (mc_armed k)(i \<mapsto> (cb, js_max (Fin 1) (js_floor ms)))"
    using s by (auto simp: mc_ops_def mc_setInterval_def Let_def mc_armed_def jm.get_put fun_eq_iff)
  show "mc_wf k'" using mc_setInterval_wf [OF k, of cb ms] s by (simp add: mc_ops_def)
next
  fix k :: "'c manual_clock" and i
  assume "mc_wf k"
  then show "mc_wf (co_clearInterval mc_ops k i)"
    by (simp add: mc_ops_def mc_clearInterval_wf)
  show "mc_armed (co_clearInterval mc_ops k i) = (mc_armed k)(i := None)"
    by (auto simp: mc_ops_def mc_clearInterval_def mc_armed_def jm.get_remove fun_eq_iff)
qed

section \<open>The loop over the due timers\<close>

text \<open>For callbacks that leave the clock alone. One pass over the timers fires each due one once.\<close>

definition due :: "number \<Rightarrow> 'c timer \<Rightarrow> bool" where
  "due now t \<longleftrightarrow> \<not> js_gt (tm_nextRunAtMs t) now"

definition tick_timer :: "number \<Rightarrow> 'c timer \<Rightarrow> 'c timer" where
  "tick_timer now t = (if due now t then reschedule t else t)"

definition quiet :: "('c \<Rightarrow> 'c manual_clock \<times> 'x \<Rightarrow> 'c manual_clock \<times> 'x) \<Rightarrow> ('x \<Rightarrow> 'c \<Rightarrow> 'x) \<Rightarrow> bool" where
  "quiet fire g \<longleftrightarrow> (\<forall>cb k x. fire cb (k, x) = (k, g x cb))"

lemma find_append_none: "\<forall>t \<in> set xs. \<not> P t \<Longrightarrow> find P (xs @ ys) = find P ys"
  by (induction xs) auto

lemma jm_set_at: "i \<notin> fst ` set D \<Longrightarrow> jm_set i v (D @ (i, w) # R) = D @ (i, v) # R"
  by (induction D) auto

lemma same_timers: "k\<lparr>mc_timers := mc_timers k\<rparr> = k"
  by simp

lemma ids_upto:
  "\<forall>(i, t) \<in> set D. tm_id t = i \<Longrightarrow> \<forall>(i, t) \<in> set D. i \<le> p \<Longrightarrow> \<forall>t \<in> snd ` set D. tm_id t \<le> p"
  by fastforce

lemma run_pass_from:
  assumes "quiet fire g" "mc_timers k = D @ R" "length R < n"
    and "\<forall>(i, t) \<in> set (D @ R). tm_id t = i" "sorted (map fst (D @ R))" "distinct (map fst (D @ R))"
    and "\<forall>(i, t) \<in> set D. i \<le> prev" "\<forall>(i, t) \<in> set R. prev < i"
  shows "run_pass n fire prev w (k, x) =
    Some (w \<or> (\<exists>(i, t) \<in> set R. due (mc_nowMs k) t),
      k\<lparr>mc_timers := D @ map (\<lambda>(i, t). (i, tick_timer (mc_nowMs k) t)) R\<rparr>,
      foldl g x (map tm_cb (filter (due (mc_nowMs k)) (map snd R))))"
  using assms(2-)
proof (induction R arbitrary: n k D prev w x)
  case Nil
  have "\<forall>t \<in> set (map snd D). \<not> prev < tm_id t"
    using ids_upto [of D prev] Nil by (simp add: not_less)
  then have "next_timer prev k = None"
    using Nil find_append_none [of "map snd D" "\<lambda>t. prev < tm_id t" "[]"]
    by (simp add: next_timer_def jm_values_def)
  with Nil show ?case by (cases n) auto
next
  case (Cons it R)
  obtain i t where it: "it = (i, t)" by force
  obtain n' where n: "n = Suc n'" using Cons.prems(2) by (cases n) auto
  have id: "tm_id t = i" and gt: "prev < i" using Cons.prems(3,7) it by auto
  have "\<forall>t \<in> set (map snd D). \<not> prev < tm_id t"
    using ids_upto [of D prev] Cons.prems(3,6) by (simp add: not_less)
  then have nx: "next_timer prev k = Some t"
    using find_append_none [of "map snd D" "\<lambda>t. prev < tm_id t"] Cons.prems(1) it id gt
    by (simp add: next_timer_def jm_values_def)
  have fr: "i \<notin> fst ` set D" using Cons.prems(5) it by auto
  let ?t = "tick_timer (mc_nowMs k) t"
  let ?k = "k\<lparr>mc_timers := (D @ [(i, ?t)]) @ R\<rparr>"
  let ?w = "w \<or> due (mc_nowMs k) t" and ?x = "if due (mc_nowMs k) t then g x (tm_cb t) else x"
  have later: "i \<le> fst p \<and> fst p \<noteq> i" if "p \<in> set R" for p
    using Cons.prems(4,5) that it by (simp add: sorted_append) (metis imageI)
  have kk: "k\<lparr>mc_timers := D @ (i, t) # R\<rparr> = k" using same_timers [of k] Cons.prems(1) it by simp
  have step: "run_pass n fire prev w (k, x) = run_pass n' fire i ?w (?k, ?x)"
    using assms(1) Cons.prems(1) it
    by (auto simp: kk n nx quiet_def due_def tick_timer_def id jm_set_at [OF fr])
  have tid: "tm_id ?t = i" by (simp add: tick_timer_def reschedule_def id)
  have "run_pass n' fire i ?w (?k, ?x) =
    Some (?w \<or> (\<exists>(i, t) \<in> set R. due (mc_nowMs ?k) t),
      ?k\<lparr>mc_timers := (D @ [(i, ?t)]) @ map (\<lambda>(i, t). (i, tick_timer (mc_nowMs ?k) t)) R\<rparr>,
      foldl g ?x (map tm_cb (filter (due (mc_nowMs ?k)) (map snd R))))"
  proof (rule Cons.IH)
    show "\<forall>(j, t) \<in> set (D @ [(i, ?t)]). j \<le> i" using Cons.prems(4) it by (auto simp: sorted_append)
    show "\<forall>(j, t) \<in> set R. i < j" using later
      by (fastforce simp: order_less_le)
  qed (use Cons.prems it tid n in auto)
  then show ?case unfolding step by (auto simp: it)
qed

lemma run_pass_all:
  assumes "quiet fire g" "mc_wf k" "length (mc_timers k) < n"
  shows "run_pass n fire 0 False (k, x) =
    Some (\<exists>(i, t) \<in> set (mc_timers k). due (mc_nowMs k) t,
      k\<lparr>mc_timers := map (\<lambda>(i, t). (i, tick_timer (mc_nowMs k) t)) (mc_timers k)\<rparr>,
      foldl g x (map tm_cb (filter (due (mc_nowMs k)) (map snd (mc_timers k)))))"
  using run_pass_from [OF assms(1), of k "[]" "mc_timers k" n 0 False x] assms(2,3)
  by (auto simp: mc_wf_def jm_wf_def jm_keys_def)

text \<open>Timers at integral times, and how often one of them is due at the time \<open>m\<close>.\<close>

definition timer_ok :: "int \<Rightarrow> 'c timer \<Rightarrow> bool" where
  "timer_ok m t \<longleftrightarrow> (\<exists>a b. tm_nextRunAtMs t = Fin (of_int a) \<and> tm_intervalMs t = Fin (of_int b)
     \<and> 1 \<le> b \<and> 0 \<le> a \<and> m + b \<le> 2 ^ 53)"

fun num_int :: "number \<Rightarrow> int" where
  "num_int (Fin r) = \<lfloor>r\<rfloor>"
| "num_int _ = 0"

definition runs_due :: "int \<Rightarrow> 'c timer \<Rightarrow> nat" where
  "runs_due m t =
     (let a = num_int (tm_nextRunAtMs t); b = num_int (tm_intervalMs t)
      in if a \<le> m then nat ((m - a) div b) + 1 else 0)"

definition caught_up :: "int \<Rightarrow> 'c timer \<Rightarrow> 'c timer" where
  "caught_up m t = t\<lparr>tm_nextRunAtMs :=
     Fin (of_int (num_int (tm_nextRunAtMs t) + int (runs_due m t) * num_int (tm_intervalMs t)))\<rparr>"

lemma timer_ok_tick:
  assumes "timer_ok m t"
  shows "timer_ok m (tick_timer (Fin (of_int m)) t)"
    and "runs_due m (tick_timer (Fin (of_int m)) t) = runs_due m t - 1"
    and "caught_up m (tick_timer (Fin (of_int m)) t) = caught_up m t"
    and "due (Fin (of_int m)) t \<longleftrightarrow> 0 < runs_due m t"
proof -
  obtain a b where ab: "tm_nextRunAtMs t = Fin (of_int a)" "tm_intervalMs t = Fin (of_int b)"
    "1 \<le> b" "0 \<le> a" "m + b \<le> 2 ^ 53" using assms by (auto simp: timer_ok_def)
  show d: "due (Fin (of_int m)) t \<longleftrightarrow> 0 < runs_due m t"
    by (simp add: due_def runs_due_def Let_def ab not_less)
  have add: "a \<le> m \<Longrightarrow> js_add (Fin (of_int a)) (Fin (of_int b)) = Fin (of_int (a + b))"
    using js_num_of_int [of "a + b"] ab by simp
  have dd: "due (Fin (of_int m)) t \<longleftrightarrow> a \<le> m" by (simp add: due_def ab not_less)
  have t': "tick_timer (Fin (of_int m)) t
      = (if a \<le> m then t\<lparr>tm_nextRunAtMs := Fin (of_int (a + b))\<rparr> else t)"
    using add by (simp add: tick_timer_def dd reschedule_def ab del: js_add.simps)
  show "timer_ok m (tick_timer (Fin (of_int m)) t)"
    unfolding t' timer_ok_def by (cases "a \<le> m") (use ab in \<open>auto simp del: of_int_add\<close>)
  have less: "\<not> a + b \<le> m \<Longrightarrow> a \<le> m \<Longrightarrow> (m - a) div b = 0" using ab by (simp add: div_pos_pos_trivial)
  have more: "a + b \<le> m \<Longrightarrow> (m - a) div b = (m - (a + b)) div b + 1"
    using ab div_add_self2 [of b "m - (a + b)"] by simp
  have nn: "a + b \<le> m \<Longrightarrow> 0 \<le> (m - (a + b)) div b" using ab by (simp add: pos_imp_zdiv_nonneg_iff)
  show r: "runs_due m (tick_timer (Fin (of_int m)) t) = runs_due m t - 1"
    using ab less more nn by (auto simp: t' runs_due_def Let_def simp del: of_int_add)
  show "caught_up m (tick_timer (Fin (of_int m)) t) = caught_up m t"
    using r [unfolded t'] d dd ab
    by (auto simp: caught_up_def t' of_nat_diff algebra_simps simp del: of_int_add)
qed

lemma runs_due_caught_up:
  assumes "timer_ok m t"
  shows "num_int (tm_nextRunAtMs (caught_up m t)) > m"
proof -
  obtain a b where ab: "tm_nextRunAtMs t = Fin (of_int a)" "tm_intervalMs t = Fin (of_int b)"
    "1 \<le> b" using assms by (auto simp: timer_ok_def)
  have "a \<le> m \<Longrightarrow> 0 \<le> (m - a) div b" using ab by (simp add: pos_imp_zdiv_nonneg_iff)
  moreover have "m - a < ((m - a) div b + 1) * b"
    using ab pos_mod_bound [of b "m - a"] mult_div_mod_eq [of b "m - a"]
    by (simp only: distrib_left mult_1_right mult.commute [of _ b]) linarith
  ultimately show ?thesis
    by (auto simp: caught_up_def runs_due_def Let_def ab add.commute simp flip: of_int_mult of_int_add)
qed

text \<open>The order of the callbacks: in rounds over the timers, round \<open>j\<close> running those due more than
  \<open>j\<close> times.\<close>

definition rounds :: "int \<Rightarrow> nat \<Rightarrow> 'c timer list \<Rightarrow> 'c list" where
  "rounds m n ts = concat (map (\<lambda>j. map tm_cb (filter (\<lambda>t. j < runs_due m t) ts)) [0..<n])"

lemma tm_cb_tick [simp]: "tm_cb (tick_timer now t) = tm_cb t" "tm_id (tick_timer now t) = tm_id t"
  by (simp_all add: tick_timer_def reschedule_def)

lemma rounds_Suc:
  assumes "\<forall>t \<in> set ts. timer_ok m t"
  shows "rounds m (Suc n) ts = map tm_cb (filter (due (Fin (of_int m))) ts)
    @ rounds m n (map (tick_timer (Fin (of_int m))) ts)"
proof -
  let ?k = "tick_timer (Fin (of_int m))"
  have "filter (\<lambda>t. j < runs_due m t) (map ?k ts) = map ?k (filter (\<lambda>t. Suc j < runs_due m t) ts)" for j
  proof -
    have "filter (\<lambda>t. j < runs_due m (?k t)) ts = filter (\<lambda>t. Suc j < runs_due m t) ts"
      using assms by (intro filter_cong refl) (simp add: timer_ok_tick(2), linarith)
    then show ?thesis by (simp add: filter_map comp_def)
  qed
  moreover have "filter (due (Fin (of_int m))) ts = filter (\<lambda>t. 0 < runs_due m t) ts"
    using assms timer_ok_tick(4) by (auto intro!: filter_cong)
  ultimately show ?thesis
    by (simp add: rounds_def upt_rec [of 0 "Suc n"] map_Suc_upt [symmetric] comp_def del: upt_Suc)
qed

lemma rounds_none: "\<forall>t \<in> set ts. runs_due m t = 0 \<Longrightarrow> rounds m n ts = []"
  by (simp add: rounds_def)

lemma mc_wf_tick:
  "mc_wf k \<Longrightarrow> mc_wf (k\<lparr>mc_timers := map (\<lambda>(i, t). (i, tick_timer now t)) (mc_timers k)\<rparr>)"
  by (auto simp: mc_wf_def jm_wf_def jm_keys_def comp_def case_prod_unfold)

lemma runDueTimers_idle:
  assumes "quiet fire g" "mc_wf k" "mc_nowMs k = Fin (of_int m)" "length (mc_timers k) < Suc f"
    and idle: "\<forall>t \<in> set (jm_values (mc_timers k)). timer_ok m t \<and> runs_due m t = 0"
  shows "runDueTimers (Suc f) fire (k, x) =
    Some (k\<lparr>mc_timers := map (\<lambda>(i, t). (i, caught_up m t)) (mc_timers k)\<rparr>,
          foldl g x (rounds m n (jm_values (mc_timers k))))"
proof -
  have nd: "\<forall>(i, t) \<in> set (mc_timers k). \<not> due (mc_nowMs k) t"
    using idle timer_ok_tick(4) by (fastforce simp: jm_values_def assms(3))
  have "map (\<lambda>(i, t). (i, caught_up m t)) (mc_timers k) = mc_timers k"
    using idle by (force simp: jm_values_def caught_up_def timer_ok_def intro!: map_idI)
  moreover have "map (\<lambda>(i, t). (i, tick_timer (mc_nowMs k) t)) (mc_timers k) = mc_timers k"
    using nd by (auto simp: tick_timer_def intro!: map_idI)
  moreover have "filter (due (mc_nowMs k)) (map snd (mc_timers k)) = []"
    using nd by (auto simp: filter_empty_conv)
  moreover have "rounds m n (jm_values (mc_timers k)) = []" using idle by (auto intro: rounds_none)
  moreover have "\<not> (\<exists>(i, t) \<in> set (mc_timers k). due (mc_nowMs k) t)" using nd by auto
  ultimately show ?thesis using run_pass_all [OF assms(1,2,4), of x] by simp
qed

lemma runDueTimers_rounds:
  assumes "quiet fire g" "mc_wf k" "mc_nowMs k = Fin (of_int m)"
    and "\<forall>t \<in> set (jm_values (mc_timers k)). timer_ok m t \<and> runs_due m t \<le> n"
    and "length (mc_timers k) + n < fuel"
  shows "runDueTimers fuel fire (k, x) =
    Some (k\<lparr>mc_timers := map (\<lambda>(i, t). (i, caught_up m t)) (mc_timers k)\<rparr>,
          foldl g x (rounds m n (jm_values (mc_timers k))))"
  using assms(2-)
proof (induction n arbitrary: fuel k x)
  case 0
  then obtain f where f: "fuel = Suc f" by (cases fuel) auto
  show ?case
    unfolding f using 0 f by (intro runDueTimers_idle [OF assms(1)]) auto
next
  case (Suc n)
  obtain f where f: "fuel = Suc f" using Suc.prems(4) by (cases fuel) auto
  show ?case
  proof (cases "\<forall>t \<in> set (jm_values (mc_timers k)). runs_due m t = 0")
    case True
    show ?thesis unfolding f using Suc.prems f True by (intro runDueTimers_idle [OF assms(1)]) auto
  next
    case False
    let ?tick = "\<lambda>(i, t). (i, tick_timer (Fin (of_int m)) t)"
    let ?k = "k\<lparr>mc_timers := map ?tick (mc_timers k)\<rparr>"
    let ?x = "foldl g x (map tm_cb (filter (due (mc_nowMs k)) (map snd (mc_timers k))))"
    have ok: "\<forall>t \<in> snd ` set (mc_timers k). timer_ok m t" using Suc.prems(3) by (simp add: jm_values_def)
    have "\<exists>(i, t) \<in> set (mc_timers k). due (mc_nowMs k) t"
      using False ok timer_ok_tick(4) by (fastforce simp: jm_values_def Suc.prems(2))
    then have "runDueTimers fuel fire (k, x) = runDueTimers f fire (?k, ?x)"
      using run_pass_all [OF assms(1) Suc.prems(1), of "Suc f" x] Suc.prems(2,4) by (simp add: f)
    moreover have "runDueTimers f fire (?k, ?x) = Some (?k\<lparr>mc_timers := map (\<lambda>(i, t). (i, caught_up m t)) (mc_timers ?k)\<rparr>,
          foldl g ?x (rounds m n (jm_values (mc_timers ?k))))"
    proof (rule Suc.IH)
      show "mc_wf ?k" using mc_wf_tick [OF Suc.prems(1)] by simp
      show "\<forall>t \<in> set (jm_values (mc_timers ?k)). timer_ok m t \<and> runs_due m t \<le> n"
        using Suc.prems(3) by (auto simp: jm_values_def timer_ok_tick dest!: bspec)
    qed (use Suc.prems f in auto)
    moreover have "map (\<lambda>(i, t). (i, caught_up m t)) (map ?tick (mc_timers k))
        = map (\<lambda>(i, t). (i, caught_up m t)) (mc_timers k)"
      using ok by (auto simp: timer_ok_tick(3))
    ultimately show ?thesis
      using rounds_Suc [OF ok [folded set_map], of n]
      by (auto simp: Suc.prems(2) jm_values_def comp_def case_prod_unfold)
  qed
qed

section \<open>Properties\<close>

text \<open>C38: advancing the manual clock ends and fires every due timer exactly as often as its interval
  fits. For timers at integral times and callbacks that leave the clock alone, with more steps than
  there are timers plus rounds, \<open>advanceBy d\<close> returns, every timer \<open>t\<close> has run
  \<open>runs_due\<close> times, in rounds in the order the timers were created, and none is due any more.\<close>

theorem advanceBy_fires_due_timers:
  assumes "quiet fire g" "mc_wf k" "mc_nowMs k = Fin (of_int now)" "0 \<le> now" "0 < d"
    and "\<forall>t \<in> set (jm_values (mc_timers k)). timer_ok (now + d) t \<and> runs_due (now + d) t \<le> n"
    and "now + d \<le> 2 ^ 53" "length (mc_timers k) + n < fuel"
  shows "\<exists>k'. advanceBy fuel fire (Fin (of_int d)) (k, x) =
      Some (k', foldl g x (rounds (now + d) n (jm_values (mc_timers k))))
    \<and> mc_nowMs k' = Fin (of_int (now + d))
    \<and> jm_values (mc_timers k') = map (caught_up (now + d)) (jm_values (mc_timers k))
    \<and> (\<forall>t \<in> set (jm_values (mc_timers k')). now + d < num_int (tm_nextRunAtMs t))"
proof -
  let ?k = "k\<lparr>mc_nowMs := Fin (of_int (now + d))\<rparr>"
  have "js_add (mc_nowMs k) (Fin (of_int d)) = Fin (of_int (now + d))"
    using js_num_of_int [of "now + d"] assms(3-5,7) by simp
  moreover have "js_max (Fin 0) (js_floor (Fin (of_int d))) = Fin (of_int d)"
    using assms(5) by (simp add: js_max_def)
  ultimately have "advanceBy fuel fire (Fin (of_int d)) (k, x) = runDueTimers fuel fire (?k, x)"
    using assms(5) by (simp add: advanceBy_def js_eq_def Let_def del: js_add.simps)
  also have "\<dots> = Some (?k\<lparr>mc_timers := map (\<lambda>(i, t). (i, caught_up (now + d) t)) (mc_timers ?k)\<rparr>,
      foldl g x (rounds (now + d) n (jm_values (mc_timers ?k))))"
    using assms by (intro runDueTimers_rounds) (simp_all add: mc_wf_def)
  finally show ?thesis
    using assms(6) runs_due_caught_up by (auto simp: jm_values_def comp_def case_prod_unfold)
qed

definition two_timers :: "nat manual_clock" where
  "two_timers = fst (mc_setInterval (fst (mc_setInterval new_ManualQosClock 7 (Fin 100))) 8 (Fin 250))"

theorem advanceBy_fires_due_timers_witness:
  "\<exists>k'. advanceBy 20 (\<lambda>cb (k, x). (k, x @ [cb])) (Fin 500) (two_timers, [])
     = Some (k', [7, 8, 7, 8, 7, 7, 7])"
proof -
  have t: "two_timers = \<lparr>mc_nowMs = Fin 0, mc_nextId = 3,
      mc_timers = [(1, \<lparr>tm_id = 1, tm_cb = 7, tm_intervalMs = Fin 100, tm_nextRunAtMs = Fin 100\<rparr>),
        (2, \<lparr>tm_id = 2, tm_cb = 8, tm_intervalMs = Fin 250, tm_nextRunAtMs = Fin 250\<rparr>)]\<rparr>"
    by (simp add: two_timers_def mc_setInterval_def new_ManualQosClock_def js_max_def Let_def)
  have ok: "timer_ok 500 \<lparr>tm_id = i, tm_cb = c, tm_intervalMs = Fin (of_int a), tm_nextRunAtMs = Fin (of_int a)\<rparr>"
    if "1 \<le> a" "a \<le> 1000" for i and c :: nat and a
    unfolding timer_ok_def using that by (intro exI [of _ a]) simp
  have "\<exists>k'. advanceBy 20 (\<lambda>cb (k, x). (k, x @ [cb])) (Fin (of_int 500)) (two_timers, [])
     = Some (k', foldl (\<lambda>x cb. x @ [cb]) [] (rounds (0 + 500) 5 (jm_values (mc_timers two_timers))))"
    using advanceBy_fires_due_timers [of "\<lambda>cb (k, x). (k, x @ [cb])" "\<lambda>x cb. x @ [cb]" two_timers
        0 500 5 20 "[]"]
    by (auto simp: t quiet_def mc_wf_def jm_wf_def jm_keys_def jm_values_def runs_due_def ok [of 100, simplified]
        ok [of 250, simplified])
  moreover have "foldl (\<lambda>x cb. x @ [cb]) [] (rounds (0 + 500) 5 (jm_values (mc_timers two_timers)))
      = [7, 8, 7, 8, 7, 7, 7]"
    by (simp add: t rounds_def jm_values_def runs_due_def upt_rec)
  ultimately show ?thesis by simp
qed

end
