(* ===== verification/Sampler.thy ===== *)
theory Sampler
  imports Clock
begin

text \<open>
  src/src/client/lib/qos/sampler.js: the clock-driven sampler. Its clock is given by the two
  operations it calls; the callback it registers is the pair of handlers its closure holds. A tick
  is asynchronous: \<open>runTick\<close> is split at its \<open>await\<close> into \<open>runTick_begin\<close> and \<open>runTick_end\<close>, so
  that ticks and control calls interleave, and \<open>runTick\<close> is one undisturbed tick. The lemmas show
  that the sampler never leaves a timer behind, for every clock that keeps the contract, and never
  has two samples in flight.
\<close>

record ('h, 'e) sampler =
  sa_running :: bool
  sa_sampling :: bool
  sa_intervalMs :: number
  sa_onSample :: "'h option"
  sa_onError :: "'e option"
  sa_intervalId :: "nat option"

definition INTERVAL_ERROR :: js_error where
  "INTERVAL_ERROR = TypeError ''intervalMs must be a positive finite number''"

definition new_IntervalQosSampler :: "number \<Rightarrow> ('h, 'e) sampler result" where
  "new_IntervalQosSampler intervalMs =
     (if \<not> is_finite intervalMs \<or> js_le intervalMs (Fin 0) then Inl INTERVAL_ERROR
      else Inr \<lparr>sa_running = False, sa_sampling = False, sa_intervalMs = js_floor intervalMs,
        sa_onSample = None, sa_onError = None, sa_intervalId = None\<rparr>)"

definition sa_start ::
    "('k, 'h \<times> 'e option) clock_ops \<Rightarrow> 'k \<times> ('h, 'e) sampler \<Rightarrow> 'h \<Rightarrow> 'e option
     \<Rightarrow> 'k \<times> ('h, 'e) sampler" where
  "sa_start ops ks onSample onError =
     (case ks of (k, s) \<Rightarrow>
        if sa_running s then (k, s)
        else case co_setInterval ops k (onSample, onError) (sa_intervalMs s) of (k', i) \<Rightarrow>
          (k', s\<lparr>sa_onSample := Some onSample, sa_onError := onError, sa_running := True,
                 sa_intervalId := Some i\<rparr>))"

definition sa_stop ::
    "('k, 'h \<times> 'e option) clock_ops \<Rightarrow> 'k \<times> ('h, 'e) sampler \<Rightarrow> 'k \<times> ('h, 'e) sampler" where
  "sa_stop ops ks =
     (case ks of (k, s) \<Rightarrow>
        if \<not> sa_running s then (k, s)
        else case sa_intervalId s of
            None \<Rightarrow> (k, s\<lparr>sa_running := False\<rparr>)
          | Some i \<Rightarrow> (co_clearInterval ops k i, s\<lparr>sa_running := False, sa_intervalId := None\<rparr>))"

definition updateIntervalMs ::
    "('k, 'h \<times> 'e option) clock_ops \<Rightarrow> 'k \<times> ('h, 'e) sampler \<Rightarrow> number
     \<Rightarrow> ('k \<times> ('h, 'e) sampler) result" where
  "updateIntervalMs ops ks intervalMs =
     (case ks of (k, s) \<Rightarrow>
        if \<not> is_finite intervalMs \<or> js_le intervalMs (Fin 0) then Inl INTERVAL_ERROR
        else
          let nextIntervalMs = js_floor intervalMs
          in if js_eq nextIntervalMs (sa_intervalMs s) then Inr (k, s)
             else
               let s1 = s\<lparr>sa_intervalMs := nextIntervalMs\<rparr>
               in if sa_running s1
                  then let ks2 = sa_stop ops (k, s1)
                       in case sa_onSample (snd ks2) of
                            Some h \<Rightarrow> Inr (sa_start ops ks2 h (sa_onError (snd ks2)))
                          | None \<Rightarrow> Inr ks2
                  else Inr (k, s1))"

text \<open>A tick up to its first \<open>await\<close>: whether it goes on.\<close>

definition runTick_begin :: "('h, 'e) sampler \<Rightarrow> ('h, 'e) sampler \<times> bool" where
  "runTick_begin s = (if sa_sampling s then (s, False) else (s\<lparr>sa_sampling := True\<rparr>, True))"

definition runTick_end :: "('h, 'e) sampler \<Rightarrow> ('h, 'e) sampler" where
  "runTick_end s = s\<lparr>sa_sampling := False\<rparr>"

text \<open>One undisturbed tick: the provider and the handlers are the caller's, over a world \<open>'x\<close>.\<close>

definition runTick ::
    "('x \<Rightarrow> 'x \<times> (thrown + 'snap)) \<Rightarrow> ('x \<Rightarrow> 'snap \<Rightarrow> 'x \<times> thrown option)
     \<Rightarrow> ('x \<Rightarrow> js_error \<Rightarrow> 'x) option \<Rightarrow> ('h, 'e) sampler \<Rightarrow> 'x \<Rightarrow> ('h, 'e) sampler \<times> 'x" where
  "runTick getSnapshot onSample onError s x =
     (case runTick_begin s of
        (s', False) \<Rightarrow> (s', x)
      | (s', True) \<Rightarrow>
          let handle = (\<lambda>x t. case onError of None \<Rightarrow> x | Some f \<Rightarrow> f x (toError t));
              x' = (case getSnapshot x of
                  (x1, Inl t) \<Rightarrow> handle x1 t
                | (x1, Inr snapshot) \<Rightarrow>
                    (case onSample x1 snapshot of
                       (x2, None) \<Rightarrow> x2
                     | (x2, Some t) \<Rightarrow> handle x2 t))
          in (runTick_end s', x'))"

definition sampleOnce :: "('x \<Rightarrow> 'x \<times> (thrown + 'snap)) \<Rightarrow> 'x \<Rightarrow> 'x \<times> (thrown + 'snap)" where
  "sampleOnce getSnapshot x = getSnapshot x"

section \<open>Control calls\<close>

datatype ('h, 'e) control = CStart 'h "'e option" | CStop | CUpdate number

text \<open>A refused \<open>updateIntervalMs\<close> throws and changes nothing.\<close>

fun control_step ::
    "('k, 'h \<times> 'e option) clock_ops \<Rightarrow> 'k \<times> ('h, 'e) sampler \<Rightarrow> ('h, 'e) control
     \<Rightarrow> 'k \<times> ('h, 'e) sampler" where
  "control_step ops ks (CStart h e) = sa_start ops ks h e"
| "control_step ops ks CStop = sa_stop ops ks"
| "control_step ops ks (CUpdate ms) =
     (case updateIntervalMs ops ks ms of Inl _ \<Rightarrow> ks | Inr ks' \<Rightarrow> ks')"

text \<open>A sampler holds one timer while it runs, armed with its handlers and its interval, and none
  otherwise; the timers of others, \<open>rest\<close>, are as they were.\<close>

definition sampler_timer ::
    "(number \<Rightarrow> number) \<Rightarrow> ('h, 'e) sampler \<Rightarrow> (('h \<times> 'e option) \<times> number) option" where
  "sampler_timer interval s =
     (case sa_onSample s of
        Some h \<Rightarrow> Some ((h, sa_onError s), interval (sa_intervalMs s)) | None \<Rightarrow> None)"

definition sampler_inv ::
    "('k \<Rightarrow> nat \<Rightarrow> (('h \<times> 'e option) \<times> number) option) \<Rightarrow> ('k \<Rightarrow> bool) \<Rightarrow> (number \<Rightarrow> number)
     \<Rightarrow> (nat \<Rightarrow> (('h \<times> 'e option) \<times> number) option) \<Rightarrow> 'k \<times> ('h, 'e) sampler \<Rightarrow> bool" where
  "sampler_inv armed ok interval rest ks \<longleftrightarrow>
     (case ks of (k, s) \<Rightarrow>
        ok k \<and> is_finite (sa_intervalMs s)
        \<and> (if sa_running s
           then \<exists>i h. sa_intervalId s = Some i \<and> rest i = None \<and> sa_onSample s = Some h
                \<and> armed k = rest(i \<mapsto> ((h, sa_onError s), interval (sa_intervalMs s)))
           else sa_intervalId s = None \<and> armed k = rest))"

locale sampler_clock = interval_clock ops armed wf interval
  for ops :: "('k, 'h \<times> 'e option) clock_ops"
    and armed :: "'k \<Rightarrow> nat \<Rightarrow> (('h \<times> 'e option) \<times> number) option"
    and wf :: "'k \<Rightarrow> bool"
    and interval :: "number \<Rightarrow> number"
begin

lemma sampler_start_inv:
  assumes "sampler_inv armed wf interval rest (k, s)"
  shows "sampler_inv armed wf interval rest (sa_start ops (k, s) h e)"
proof (cases "sa_running s")
  case False
  obtain k' i where s: "co_setInterval ops k (h, e) (sa_intervalMs s) = (k', i)" by force
  have w: "wf k" and r: "armed k = rest" using assms False by (simp_all add: sampler_inv_def)
  then show ?thesis
    using assms False s set_fresh [OF w s] set_armed [OF w s] set_wf [OF w s]
    by (simp add: sampler_inv_def sa_start_def)
qed (use assms in \<open>simp add: sa_start_def\<close>)

lemma stop_releases:
  assumes "wf k" "sa_running s" "sa_intervalId s = Some i" "rest i = None" "armed k = rest(i \<mapsto> v)"
  obtains k' where "sa_stop ops (k, s) = (k', s\<lparr>sa_running := False, sa_intervalId := None\<rparr>)"
    "wf k'" "armed k' = rest"
proof (rule that)
  show "sa_stop ops (k, s) = (co_clearInterval ops k i, s\<lparr>sa_running := False, sa_intervalId := None\<rparr>)"
    using assms by (simp add: sa_stop_def)
  show "wf (co_clearInterval ops k i)" using assms by (simp add: clear_wf)
  show "armed (co_clearInterval ops k i) = rest" using assms by (auto simp: clear_armed fun_eq_iff)
qed

lemma sampler_stop_inv:
  assumes "sampler_inv armed wf interval rest (k, s)"
  shows "sampler_inv armed wf interval rest (sa_stop ops (k, s))"
proof (cases "sa_running s")
  case True
  then obtain i v where i: "sa_intervalId s = Some i" "rest i = None" "armed k = rest(i \<mapsto> v)" "wf k"
    using assms by (auto simp: sampler_inv_def)
  obtain k' where "sa_stop ops (k, s) = (k', s\<lparr>sa_running := False, sa_intervalId := None\<rparr>)"
    "wf k'" "armed k' = rest" by (rule stop_releases [OF i(4) True i(1-3)])
  then show ?thesis using assms by (simp add: sampler_inv_def)
qed (use assms in \<open>simp add: sa_stop_def\<close>)

lemma sampler_update_inv:
  assumes "sampler_inv armed wf interval rest (k, s)" "updateIntervalMs ops (k, s) ms = Inr ks'"
  shows "sampler_inv armed wf interval rest ks'"
proof -
  let ?s = "s\<lparr>sa_intervalMs := js_floor ms\<rparr>"
  have ms: "is_finite ms" "\<not> js_le ms (Fin 0)"
    using assms(2) by (auto simp: updateIntervalMs_def split: if_splits)
  then have fl: "is_finite (js_floor ms)" by (cases ms) simp_all
  consider (same) "js_eq (js_floor ms) (sa_intervalMs s)"
    | (idle) "\<not> js_eq (js_floor ms) (sa_intervalMs s)" "\<not> sa_running s"
    | (running) "\<not> js_eq (js_floor ms) (sa_intervalMs s)" "sa_running s" by blast
  then show ?thesis
  proof cases
    case running
    then obtain i h v where r: "sa_intervalId ?s = Some i" "rest i = None" "armed k = rest(i \<mapsto> v)"
      "wf k" "sa_onSample s = Some h" "sa_running ?s"
      using assms by (auto simp: sampler_inv_def)
    obtain k' where k': "sa_stop ops (k, ?s) = (k', ?s\<lparr>sa_running := False, sa_intervalId := None\<rparr>)"
      "wf k'" "armed k' = rest" by (rule stop_releases [OF r(4,6,1-3)])
    then have "ks' = sa_start ops (sa_stop ops (k, ?s)) h (sa_onError s)"
      using assms(2) ms running r(5) by (simp add: updateIntervalMs_def Let_def)
    moreover have "sampler_inv armed wf interval rest (sa_stop ops (k, ?s))"
      using fl by (simp add: k' sampler_inv_def)
    ultimately show ?thesis using sampler_start_inv k'(1) by simp
  qed (use assms ms fl in \<open>auto simp: updateIntervalMs_def Let_def sampler_inv_def\<close>)
qed

lemma control_step_inv:
  assumes "sampler_inv armed wf interval rest ks"
  shows "sampler_inv armed wf interval rest (control_step ops ks c)"
proof -
  obtain k s where ks: "ks = (k, s)" by force
  show ?thesis
    using assms sampler_start_inv sampler_stop_inv sampler_update_inv unfolding ks
    by (cases c) (auto split: sum.splits)
qed

end

sublocale sampler_clock \<subseteq> step_invariant "control_step ops" "sampler_inv armed wf interval rest" for rest
  by unfold_locales (rule control_step_inv)

interpretation mcs: sampler_clock mc_ops mc_armed mc_wf "\<lambda>ms. js_max (Fin 1) (js_floor ms)"
  by unfold_locales

section \<open>Ticks\<close>

text \<open>Ticks interleave with control calls and with each other: a tick may begin while another is
  waiting for its provider. \<open>in_flight\<close> counts the ticks between their first \<open>await\<close> and their end.\<close>

type_synonym ('k, 'h, 'e) tick_state = "'k \<times> ('h, 'e) sampler \<times> nat"

inductive tick_step ::
    "('k, 'h \<times> 'e option) clock_ops \<Rightarrow> ('k, 'h, 'e) tick_state \<Rightarrow> ('k, 'h, 'e) tick_state \<Rightarrow> bool"
  for ops where
  tick_go: "runTick_begin s = (s', True) \<Longrightarrow> tick_step ops (k, s, n) (k, s', Suc n)"
| tick_skip: "runTick_begin s = (s', False) \<Longrightarrow> tick_step ops (k, s, n) (k, s', n)"
| tick_end: "tick_step ops (k, s, Suc n) (k, runTick_end s, n)"
| tick_control: "control_step ops (k, s) c = (k', s') \<Longrightarrow> tick_step ops (k, s, n) (k', s', n)"

definition in_flight_ok :: "('k, 'h, 'e) tick_state \<Rightarrow> bool" where
  "in_flight_ok st \<longleftrightarrow> (case st of (k, s, n) \<Rightarrow> n = (if sa_sampling s then 1 else 0))"

lemma start_stop_sampling:
  "sa_sampling (snd (sa_start ops ks h e)) = sa_sampling (snd ks)"
  "sa_sampling (snd (sa_stop ops ks)) = sa_sampling (snd ks)"
  by (cases ks; simp add: sa_start_def sa_stop_def split: prod.splits option.splits)+

lemma control_step_sampling:
  assumes "control_step ops (k, s) c = (k', s')"
  shows "sa_sampling s' = sa_sampling s"
proof (cases c)
  case (CStart h e)
  then show ?thesis using assms start_stop_sampling(1) [of ops "(k, s)" h e] by simp
next
  case CStop
  then show ?thesis using assms start_stop_sampling(2) [of ops "(k, s)"] by simp
next
  case (CUpdate ms)
  let ?ks = "sa_stop ops (k, s\<lparr>sa_intervalMs := js_floor ms\<rparr>)"
  have "sa_sampling (snd ks') = sa_sampling s" if u: "updateIntervalMs ops (k, s) ms = Inr ks'" for ks'
  proof -
    consider "ks' = (k, s)" | "ks' = (k, s\<lparr>sa_intervalMs := js_floor ms\<rparr>)" | "ks' = ?ks"
      | h where "ks' = sa_start ops ?ks h (sa_onError (snd ?ks))"
      using u unfolding updateIntervalMs_def Let_def prod.case
      by (cases "sa_onSample (snd ?ks)") (auto split: if_splits)
    then show ?thesis by cases (simp_all add: start_stop_sampling)
  qed
  then show ?thesis using assms CUpdate by (auto split: sum.splits)
qed

lemma tick_step_in_flight: "tick_step ops st st' \<Longrightarrow> in_flight_ok st \<Longrightarrow> in_flight_ok st'"
  by (induction rule: tick_step.induct)
     (auto simp: in_flight_ok_def runTick_begin_def runTick_end_def dest: control_step_sampling
       split: if_splits)

lemma tick_run_in_flight: "(tick_step ops)\<^sup>*\<^sup>* st st' \<Longrightarrow> in_flight_ok st \<Longrightarrow> in_flight_ok st'"
  by (induction rule: rtranclp_induct) (auto intro: tick_step_in_flight)

lemma new_sampler_fields:
  assumes "new_IntervalQosSampler ms = Inr s"
  shows "\<not> sa_running s" "\<not> sa_sampling s" "is_finite (sa_intervalMs s)" "sa_intervalId s = None"
  using assms by (cases ms; auto simp: new_IntervalQosSampler_def split: if_splits)+

section \<open>Properties\<close>

text \<open>a sampler on the manual clock never leaks a timer. After any sequence of \<open>start\<close>, \<open>stop\<close> and
  \<open>updateIntervalMs\<close> calls, refused ones included, the armed timers are those that were there
  before the sampler, and, exactly while it runs, one more: with its handlers and its current
  interval.\<close>

theorem sampler_owns_one_timer:
  assumes "mc_wf k0" "new_IntervalQosSampler ms = Inr s0"
    and "foldl (control_step mc_ops) (k0, s0) calls = (k, s)"
  shows "(\<not> sa_running s \<longrightarrow> mc_armed k = mc_armed k0)
    \<and> (sa_running s \<longrightarrow> (\<exists>i h. sa_intervalId s = Some i \<and> mc_armed k0 i = None \<and> sa_onSample s = Some h
         \<and> mc_armed k = (mc_armed k0)(i \<mapsto> ((h, sa_onError s), js_max (Fin 1) (js_floor (sa_intervalMs s))))))"
proof -
  have "sampler_inv mc_armed mc_wf (\<lambda>ms. js_max (Fin 1) (js_floor ms)) (mc_armed k0) (k0, s0)"
    using assms(1) new_sampler_fields [OF assms(2)] by (simp add: sampler_inv_def)
  from mcs.run_inv [OF this, of calls] assms(3) show ?thesis
    by (auto simp: sampler_inv_def split: if_splits)
qed

definition sampler_calls :: "(nat, nat) control list" where
  "sampler_calls = [CStart 1 None, CUpdate (Fin 500), CStart 2 None, CUpdate (Fin 0), CStop]"

theorem sampler_owns_one_timer_witness:
  "\<exists>k s. foldl (control_step mc_ops) (new_ManualQosClock,
      \<lparr>sa_running = False, sa_sampling = False, sa_intervalMs = Fin 1000, sa_onSample = None,
        sa_onError = None, sa_intervalId = None\<rparr>) sampler_calls = (k, s)
    \<and> \<not> sa_running s \<and> sa_intervalMs s = Fin 500 \<and> mc_armed k = mc_armed new_ManualQosClock"
proof -
  let ?s0 = "\<lparr>sa_running = False, sa_sampling = False, sa_intervalMs = Fin 1000, sa_onSample = None,
        sa_onError = None, sa_intervalId = None\<rparr> :: (nat, nat) sampler"
  have n: "new_IntervalQosSampler (Fin 1000) = Inr ?s0" by (simp add: new_IntervalQosSampler_def)
  have w: "mc_wf new_ManualQosClock" by (simp add: mc_wf_def new_ManualQosClock_def jm_wf_def jm_keys_def)
  obtain k s where r: "foldl (control_step mc_ops) (new_ManualQosClock, ?s0) sampler_calls = (k, s)" by force
  then have "\<not> sa_running s" "sa_intervalMs s = Fin 500"
    by (auto simp: sampler_calls_def sa_start_def sa_stop_def updateIntervalMs_def mc_ops_def
        mc_setInterval_def js_eq_def Let_def)
  with sampler_owns_one_timer [OF w n r] r show ?thesis by blast
qed

text \<open>whatever the order in which ticks begin, ticks end and control calls arrive, at most one
  sample of a sampler is in flight, and a tick that ends leaves the sampler ready for the next.\<close>

theorem one_sample_in_flight:
  assumes "new_IntervalQosSampler ms = Inr s0" "(tick_step ops)\<^sup>*\<^sup>* (k0, s0, 0) (k, s, n)"
  shows "n \<le> 1 \<and> (n = 0 \<longleftrightarrow> \<not> sa_sampling s)"
proof -
  have "in_flight_ok (k0, s0, 0)" using new_sampler_fields(2) [OF assms(1)] by (simp add: in_flight_ok_def)
  from tick_run_in_flight [OF assms(2) this] show ?thesis by (simp add: in_flight_ok_def)
qed

theorem one_sample_in_flight_witness:
  "\<exists>s :: (nat, nat) sampler.
     (tick_step mc_ops)\<^sup>*\<^sup>* (new_ManualQosClock, \<lparr>sa_running = False, sa_sampling = False,
        sa_intervalMs = Fin 1000, sa_onSample = None, sa_onError = None, sa_intervalId = None\<rparr>, 0)
       (new_ManualQosClock, s, 1) \<and> sa_sampling s"
proof -
  let ?s0 = "\<lparr>sa_running = False, sa_sampling = False, sa_intervalMs = Fin 1000, sa_onSample = None,
        sa_onError = None, sa_intervalId = None\<rparr> :: (nat, nat) sampler"
  let ?s1 = "?s0\<lparr>sa_sampling := True\<rparr>"
  have n: "new_IntervalQosSampler (Fin 1000) = Inr ?s0" by (simp add: new_IntervalQosSampler_def)
  have "tick_step mc_ops (new_ManualQosClock, ?s0, 0) (new_ManualQosClock, ?s1, Suc 0)"
    by (rule tick_go) (simp add: runTick_begin_def)
  note a = this
  have b: "tick_step mc_ops (new_ManualQosClock, ?s1, Suc 0) (new_ManualQosClock, ?s1, Suc 0)"
    by (rule tick_skip) (simp add: runTick_begin_def)
  from a have r1: "(tick_step mc_ops)\<^sup>*\<^sup>* (new_ManualQosClock, ?s0, 0) (new_ManualQosClock, ?s1, Suc 0)"
    by (rule r_into_rtranclp)
  from rtranclp.rtrancl_into_rtrancl [OF r1 b]
  have r: "(tick_step mc_ops)\<^sup>*\<^sup>* (new_ManualQosClock, ?s0, 0) (new_ManualQosClock, ?s1, 1)"
    unfolding One_nat_def .
  from one_sample_in_flight [OF n r] have "sa_sampling ?s1" by simp
  with r show ?thesis by (intro exI conjI)
qed

end
