(* ===== verification/Protocol.thy ===== *)
theory Protocol
  imports QosTypes
begin

text \<open>
  src/src/client/lib/qos/protocol.js: the validation of the three QoS messages, from untyped values
  to typed records, with the errors it throws. Every function of the file is here; the enumerations
  are tables from the strings of the source to the constructors of \<open>QosTypes\<close>. The lemmas show
  that the parsers accept exactly the valid messages and give them back unchanged.
\<close>

section \<open>Validation of values\<close>

definition isObject :: "jsval \<Rightarrow> bool" where
  "isObject v = (case v of VObj _ \<Rightarrow> True | _ \<Rightarrow> False)"

definition asObject :: "jsval \<Rightarrow> string \<Rightarrow> jsobj result" where
  "asObject v path =
     (case v of VObj fs \<Rightarrow> Inr fs | _ \<Rightarrow> Inl (TypeError (path @ '' must be an object'')))"

definition asString :: "jsval \<Rightarrow> string \<Rightarrow> string result" where
  "asString v path =
     (case v of VStr s \<Rightarrow> Inr s | _ \<Rightarrow> Inl (TypeError (path @ '' must be a string'')))"

definition asNonEmptyString :: "jsval \<Rightarrow> string \<Rightarrow> string result" where
  "asNonEmptyString v path = bindr (asString v path) (\<lambda>s.
     if s = [] then Inl (TypeError (path @ '' must be a non-empty string'')) else Inr s)"

definition asBoolean :: "jsval \<Rightarrow> string \<Rightarrow> bool result" where
  "asBoolean v path =
     (case v of VBool b \<Rightarrow> Inr b | _ \<Rightarrow> Inl (TypeError (path @ '' must be a boolean'')))"

definition asFiniteNumber :: "jsval \<Rightarrow> string \<Rightarrow> number result" where
  "asFiniteNumber v path =
     (case v of VNum n \<Rightarrow> if is_finite n then Inr n
                else Inl (TypeError (path @ '' must be a finite number''))
      | _ \<Rightarrow> Inl (TypeError (path @ '' must be a finite number'')))"

definition asNonNegativeNumber :: "jsval \<Rightarrow> string \<Rightarrow> number result" where
  "asNonNegativeNumber v path = bindr (asFiniteNumber v path) (\<lambda>n.
     if js_lt n (Fin 0) then Inl (TypeError (path @ '' must be >= 0'')) else Inr n)"

definition asInt :: "jsval \<Rightarrow> string \<Rightarrow> number result" where
  "asInt v path = bindr (asFiniteNumber v path) (\<lambda>n.
     if \<not> is_integer n then Inl (TypeError (path @ '' must be an integer'')) else Inr n)"

definition asNonNegativeInt :: "jsval \<Rightarrow> string \<Rightarrow> number result" where
  "asNonNegativeInt v path = bindr (asInt v path) (\<lambda>n.
     if js_lt n (Fin 0) then Inl (TypeError (path @ '' must be >= 0'')) else Inr n)"

definition sub_path :: "string \<Rightarrow> string \<Rightarrow> string" where
  "sub_path path key = path @ ''.'' @ key"

definition optionalNumber :: "jsobj \<Rightarrow> string \<Rightarrow> string \<Rightarrow> bool \<Rightarrow> bool \<Rightarrow> number option result" where
  "optionalNumber obj key path integer nonNegative =
     (if \<not> obj_has obj key \<or> obj_get obj key = VUndef then Inr None
      else
        let v = obj_get obj key; p = sub_path path key
        in bindr (if integer \<and> nonNegative then asNonNegativeInt v p
                  else if integer then asInt v p
                  else if nonNegative then asNonNegativeNumber v p
                  else asFiniteNumber v p) (\<lambda>n. Inr (Some n)))"

definition optionalBoolean :: "jsobj \<Rightarrow> string \<Rightarrow> string \<Rightarrow> bool option result" where
  "optionalBoolean obj key path =
     (if \<not> obj_has obj key \<or> obj_get obj key = VUndef then Inr None
      else bindr (asBoolean (obj_get obj key) (sub_path path key)) (\<lambda>b. Inr (Some b)))"

definition optionalString :: "jsobj \<Rightarrow> string \<Rightarrow> string \<Rightarrow> string option result" where
  "optionalString obj key path =
     (if \<not> obj_has obj key \<or> obj_get obj key = VUndef then Inr None
      else bindr (asString (obj_get obj key) (sub_path path key)) (\<lambda>s. Inr (Some s)))"

text \<open>An enumeration is the list of its allowed strings with the constructors they stand for.\<close>

type_synonym 'a enum_table = "(string \<times> 'a) list"

definition asStringEnum :: "jsval \<Rightarrow> string \<Rightarrow> 'a enum_table \<Rightarrow> 'a result" where
  "asStringEnum v path allowed = bindr (asString v path) (\<lambda>s.
     case map_of allowed s of
       Some c \<Rightarrow> Inr c
     | None \<Rightarrow> Inl (TypeError (path @ '' must be one of: '' @ join '', '' (map fst allowed))))"

fun enum_name :: "'a enum_table \<Rightarrow> 'a \<Rightarrow> string" where
  "enum_name [] c = []"
| "enum_name ((s, d) # t) c = (if c = d then s else enum_name t c)"

definition enum_ok :: "'a enum_table \<Rightarrow> bool" where
  "enum_ok t \<longleftrightarrow> distinct (map fst t) \<and> distinct (map snd t)"

definition LIMITATION_REASONS :: "limitation_reason enum_table" where
  "LIMITATION_REASONS = [(''bandwidth'', LBandwidth), (''cpu'', LCpu), (''other'', LOther),
     (''none'', LNone), (''unknown'', LUnknown)]"

definition ACTION_TYPES :: "action_type enum_table" where
  "ACTION_TYPES = [(''setEncodingParameters'', TSetEncodingParameters),
     (''setMaxSpatialLayer'', TSetMaxSpatialLayer), (''enterAudioOnly'', TEnterAudioOnly),
     (''exitAudioOnly'', TExitAudioOnly), (''pauseUpstream'', TPauseUpstream),
     (''resumeUpstream'', TResumeUpstream), (''noop'', TNoop)]"

definition KINDS :: "track_kind enum_table" where
  "KINDS = [(''audio'', KAudio), (''video'', KVideo)]"

definition SOURCES :: "qos_source enum_table" where
  "SOURCES = [(''camera'', Camera), (''screenShare'', ScreenShare), (''audio'', AudioSource)]"

definition STATES :: "qos_state enum_table" where
  "STATES = [(''stable'', Stable), (''early_warning'', EarlyWarning), (''congested'', Congested),
     (''recovering'', Recovering)]"

definition REASONS :: "qos_reason enum_table" where
  "REASONS = [(''network'', RNetwork), (''cpu'', RCpu), (''manual'', RManual),
     (''server_override'', RServerOverride), (''unknown'', RUnknown)]"

definition QUALITIES :: "qos_quality enum_table" where
  "QUALITIES = [(''excellent'', Excellent), (''good'', Good), (''poor'', Poor), (''lost'', Lost)]"

definition MODES :: "track_mode enum_table" where
  "MODES = [(''audio-only'', AudioOnly), (''audio-video'', AudioVideo), (''video-only'', VideoOnly)]"

definition SCOPES :: "bool enum_table" where
  "SCOPES = [(''peer'', False), (''track'', True)]"

section \<open>The client snapshot\<close>

record track_signals =
  cs_sendBitrateBps :: number
  cs_targetBitrateBps :: "number option"
  cs_lossRate :: "number option"
  cs_rttMs :: "number option"
  cs_jitterMs :: "number option"
  cs_frameWidth :: "number option"
  cs_frameHeight :: "number option"
  cs_framesPerSecond :: "number option"
  cs_qualityLimitationReason :: "limitation_reason option"

record track_action =
  ta_type :: action_type
  ta_applied :: bool

record track_snapshot =
  tk_localTrackId :: string
  tk_producerId :: "string option"
  tk_kind :: track_kind
  tk_source :: qos_source
  tk_state :: qos_state
  tk_reason :: qos_reason
  tk_quality :: qos_quality
  tk_ladderLevel :: number
  tk_signals :: track_signals
  tk_lastAction :: "track_action option"

record client_snapshot =
  sn_seq :: number
  sn_tsMs :: number
  sn_mode :: track_mode
  sn_quality :: qos_quality
  sn_stale :: bool
  sn_tracks :: "track_snapshot list"

definition parseQualityLimitationReason :: "jsval \<Rightarrow> string \<Rightarrow> limitation_reason result" where
  "parseQualityLimitationReason v path = asStringEnum v path LIMITATION_REASONS"

definition parseTrackSignals :: "jsval \<Rightarrow> string \<Rightarrow> track_signals result" where
  "parseTrackSignals v path =
     bindr (asObject v path) (\<lambda>obj.
     bindr (asNonNegativeNumber (obj_get obj ''sendBitrateBps'') (sub_path path ''sendBitrateBps''))
       (\<lambda>sendBitrateBps.
     bindr (optionalNumber obj ''targetBitrateBps'' path False True) (\<lambda>targetBitrateBps.
     bindr (optionalNumber obj ''lossRate'' path False True) (\<lambda>lossRate.
     bindr (optionalNumber obj ''rttMs'' path False True) (\<lambda>rttMs.
     bindr (optionalNumber obj ''jitterMs'' path False True) (\<lambda>jitterMs.
     bindr (optionalNumber obj ''frameWidth'' path True True) (\<lambda>frameWidth.
     bindr (optionalNumber obj ''frameHeight'' path True True) (\<lambda>frameHeight.
     bindr (optionalNumber obj ''framesPerSecond'' path False True) (\<lambda>framesPerSecond.
     bindr (if obj_has obj ''qualityLimitationReason''
               \<and> obj_get obj ''qualityLimitationReason'' \<noteq> VUndef
            then bindr (parseQualityLimitationReason (obj_get obj ''qualityLimitationReason'')
                         (sub_path path ''qualityLimitationReason'')) (\<lambda>r. Inr (Some r))
            else Inr None) (\<lambda>qualityLimitationReason.
     Inr \<lparr>cs_sendBitrateBps = sendBitrateBps, cs_targetBitrateBps = targetBitrateBps,
       cs_lossRate = lossRate, cs_rttMs = rttMs, cs_jitterMs = jitterMs,
       cs_frameWidth = frameWidth, cs_frameHeight = frameHeight,
       cs_framesPerSecond = framesPerSecond,
       cs_qualityLimitationReason = qualityLimitationReason\<rparr>))))))))))"

definition parseTrackAction :: "jsval \<Rightarrow> string \<Rightarrow> track_action result" where
  "parseTrackAction v path =
     bindr (asObject v path) (\<lambda>obj.
     bindr (asStringEnum (obj_get obj ''type'') (sub_path path ''type'') ACTION_TYPES) (\<lambda>type.
     bindr (asBoolean (obj_get obj ''applied'') (sub_path path ''applied'')) (\<lambda>applied.
     Inr \<lparr>ta_type = type, ta_applied = applied\<rparr>)))"

definition parseTrackSnapshot :: "jsval \<Rightarrow> string \<Rightarrow> track_snapshot result" where
  "parseTrackSnapshot v path =
     bindr (asObject v path) (\<lambda>obj.
     bindr (asNonEmptyString (obj_get obj ''localTrackId'') (sub_path path ''localTrackId''))
       (\<lambda>localTrackId.
     bindr (optionalString obj ''producerId'' path) (\<lambda>producerIdRaw.
     bindr (if producerIdRaw = Some []
            then Inl (TypeError (path @ ''.producerId must be non-empty when provided''))
            else Inr producerIdRaw) (\<lambda>producerId.
     bindr (asStringEnum (obj_get obj ''kind'') (sub_path path ''kind'') KINDS) (\<lambda>kind.
     bindr (asStringEnum (obj_get obj ''source'') (sub_path path ''source'') SOURCES) (\<lambda>source.
     bindr (asStringEnum (obj_get obj ''state'') (sub_path path ''state'') STATES) (\<lambda>state.
     bindr (asStringEnum (obj_get obj ''reason'') (sub_path path ''reason'') REASONS) (\<lambda>reason.
     bindr (asStringEnum (obj_get obj ''quality'') (sub_path path ''quality'') QUALITIES) (\<lambda>quality.
     bindr (asNonNegativeInt (obj_get obj ''ladderLevel'') (sub_path path ''ladderLevel''))
       (\<lambda>ladderLevel.
     bindr (parseTrackSignals (obj_get obj ''signals'') (sub_path path ''signals'')) (\<lambda>signals.
     bindr (if obj_has obj ''lastAction'' \<and> obj_get obj ''lastAction'' \<noteq> VUndef
            then bindr (parseTrackAction (obj_get obj ''lastAction'') (sub_path path ''lastAction''))
                   (\<lambda>a. Inr (Some a))
            else Inr None) (\<lambda>lastAction.
     Inr \<lparr>tk_localTrackId = localTrackId, tk_producerId = producerId, tk_kind = kind,
       tk_source = source, tk_state = state, tk_reason = reason, tk_quality = quality,
       tk_ladderLevel = ladderLevel, tk_signals = signals, tk_lastAction = lastAction\<rparr>))))))))))))"

text \<open>\<open>tracksRaw.map\<close> with the index in the path.\<close>

fun parseTracks :: "nat \<Rightarrow> jsval list \<Rightarrow> track_snapshot list result" where
  "parseTracks i [] = Inr []"
| "parseTracks i (v # vs) =
     bindr (parseTrackSnapshot v (''clientQosSnapshot.tracks['' @ nat_str i @ '']'')) (\<lambda>t.
     bindr (parseTracks (Suc i) vs) (\<lambda>ts. Inr (t # ts)))"

definition quoted :: "string \<Rightarrow> string" where
  "quoted s = [CHR 0x27] @ s @ [CHR 0x27]"

definition schema_error :: "string \<Rightarrow> string \<Rightarrow> string \<Rightarrow> js_error" where
  "schema_error what expected got =
     TypeError (what @ ''.schema must be '' @ quoted expected @ '', got '' @ quoted got)"

definition parseClientQosSnapshot :: "jsval \<Rightarrow> client_snapshot result" where
  "parseClientQosSnapshot payload =
     bindr (asObject payload ''clientQosSnapshot'') (\<lambda>obj.
     bindr (asString (obj_get obj ''schema'') ''clientQosSnapshot.schema'') (\<lambda>schema.
     if schema \<noteq> QOS_CLIENT_SCHEMA_V1
     then Inl (schema_error ''clientQosSnapshot'' QOS_CLIENT_SCHEMA_V1 schema) else
     bindr (asNonNegativeInt (obj_get obj ''seq'') ''clientQosSnapshot.seq'') (\<lambda>seq.
     if js_gt seq QOS_MAX_SEQ
     then Inl (TypeError (''clientQosSnapshot.seq must be <= '' @ nat_str 9007199254740991)) else
     bindr (asNonNegativeNumber (obj_get obj ''tsMs'') ''clientQosSnapshot.tsMs'') (\<lambda>tsMs.
     bindr (asObject (obj_get obj ''peerState'') ''clientQosSnapshot.peerState'') (\<lambda>peerStateObj.
     bindr (asStringEnum (obj_get peerStateObj ''mode'') ''clientQosSnapshot.peerState.mode'' MODES)
       (\<lambda>mode.
     bindr (asStringEnum (obj_get peerStateObj ''quality'') ''clientQosSnapshot.peerState.quality''
              QUALITIES) (\<lambda>quality.
     bindr (asBoolean (obj_get peerStateObj ''stale'') ''clientQosSnapshot.peerState.stale'') (\<lambda>stale.
     case obj_get obj ''tracks'' of
       VArr tracksRaw \<Rightarrow>
         if QOS_MAX_TRACKS_PER_SNAPSHOT < length tracksRaw
         then Inl (TypeError (''clientQosSnapshot.tracks length must be <= ''
                @ nat_str QOS_MAX_TRACKS_PER_SNAPSHOT))
         else bindr (parseTracks 0 tracksRaw) (\<lambda>tracks.
           Inr \<lparr>sn_seq = seq, sn_tsMs = tsMs, sn_mode = mode, sn_quality = quality,
             sn_stale = stale, sn_tracks = tracks\<rparr>)
     | _ \<Rightarrow> Inl (TypeError ''clientQosSnapshot.tracks must be an array'')))))))))"

section \<open>The policy and the override\<close>

definition parseQosPolicy :: "jsval \<Rightarrow> policy result" where
  "parseQosPolicy payload =
     bindr (asObject payload ''qosPolicy'') (\<lambda>obj.
     bindr (asString (obj_get obj ''schema'') ''qosPolicy.schema'') (\<lambda>schema.
     if schema \<noteq> QOS_POLICY_SCHEMA_V1
     then Inl (schema_error ''qosPolicy'' QOS_POLICY_SCHEMA_V1 schema) else
     bindr (asNonNegativeInt (obj_get obj ''sampleIntervalMs'') ''qosPolicy.sampleIntervalMs'')
       (\<lambda>sampleIntervalMs.
     bindr (asNonNegativeInt (obj_get obj ''snapshotIntervalMs'') ''qosPolicy.snapshotIntervalMs'')
       (\<lambda>snapshotIntervalMs.
     bindr (asBoolean (obj_get obj ''allowAudioOnly'') ''qosPolicy.allowAudioOnly'') (\<lambda>allowAudioOnly.
     bindr (asBoolean (obj_get obj ''allowVideoPause'') ''qosPolicy.allowVideoPause'')
       (\<lambda>allowVideoPause.
     bindr (asObject (obj_get obj ''profiles'') ''qosPolicy.profiles'') (\<lambda>profilesObj.
     bindr (asNonEmptyString (obj_get profilesObj ''camera'') ''qosPolicy.profiles.camera'') (\<lambda>camera.
     bindr (asNonEmptyString (obj_get profilesObj ''screenShare'') ''qosPolicy.profiles.screenShare'')
       (\<lambda>screenShare.
     bindr (asNonEmptyString (obj_get profilesObj ''audio'') ''qosPolicy.profiles.audio'') (\<lambda>audio.
     Inr \<lparr>po_sampleIntervalMs = sampleIntervalMs, po_snapshotIntervalMs = snapshotIntervalMs,
       po_allowAudioOnly = allowAudioOnly, po_allowVideoPause = allowVideoPause,
       po_profileCamera = camera, po_profileScreenShare = screenShare,
       po_profileAudio = audio\<rparr>))))))))))"

definition is_nullish :: "jsval \<Rightarrow> bool" where
  "is_nullish v \<longleftrightarrow> v = VNull \<or> v = VUndef"

definition parseQosOverride :: "jsval \<Rightarrow> override result" where
  "parseQosOverride payload =
     bindr (asObject payload ''qosOverride'') (\<lambda>obj.
     bindr (asString (obj_get obj ''schema'') ''qosOverride.schema'') (\<lambda>schema.
     if schema \<noteq> QOS_OVERRIDE_SCHEMA_V1
     then Inl (schema_error ''qosOverride'' QOS_OVERRIDE_SCHEMA_V1 schema) else
     bindr (asStringEnum (obj_get obj ''scope'') ''qosOverride.scope'' SCOPES) (\<lambda>scope.
     if scope \<and> (\<not> obj_has obj ''trackId'' \<or> is_nullish (obj_get obj ''trackId''))
     then Inl (TypeError ''qosOverride.trackId is required when scope is track'') else
     bindr (if obj_has obj ''trackId'' \<and> \<not> is_nullish (obj_get obj ''trackId'')
            then bindr (asNonEmptyString (obj_get obj ''trackId'') ''qosOverride.trackId'')
                   (\<lambda>s. Inr (Some s))
            else Inr None) (\<lambda>trackId.
     bindr (optionalNumber obj ''maxLevelClamp'' ''qosOverride'' True True) (\<lambda>maxLevelClamp.
     bindr (optionalBoolean obj ''forceAudioOnly'' ''qosOverride'') (\<lambda>forceAudioOnly.
     bindr (optionalBoolean obj ''disableRecovery'' ''qosOverride'') (\<lambda>disableRecovery.
     bindr (optionalBoolean obj ''pauseUpstream'' ''qosOverride'') (\<lambda>pauseUpstream.
     bindr (optionalBoolean obj ''resumeUpstream'' ''qosOverride'') (\<lambda>resumeUpstream.
     if pauseUpstream = Some True \<and> resumeUpstream = Some True
     then Inl (TypeError
       ''qosOverride.pauseUpstream and qosOverride.resumeUpstream are mutually exclusive'') else
     bindr (asNonNegativeInt (obj_get obj ''ttlMs'') ''qosOverride.ttlMs'') (\<lambda>ttlMs.
     bindr (asNonEmptyString (obj_get obj ''reason'') ''qosOverride.reason'') (\<lambda>reason.
     Inr \<lparr>ov_trackScope = scope, ov_trackId = trackId, ov_maxLevelClamp = maxLevelClamp,
       ov_forceAudioOnly = forceAudioOnly, ov_disableRecovery = disableRecovery,
       ov_pauseUpstream = pauseUpstream, ov_resumeUpstream = resumeUpstream,
       ov_ttlMs = ttlMs, ov_reason = reason\<rparr>)))))))))))"

definition isClientQosSnapshot :: "jsval \<Rightarrow> bool" where
  "isClientQosSnapshot v = is_ok (parseClientQosSnapshot v)"

definition isQosPolicy :: "jsval \<Rightarrow> bool" where
  "isQosPolicy v = is_ok (parseQosPolicy v)"

definition isQosOverride :: "jsval \<Rightarrow> bool" where
  "isQosOverride v = is_ok (parseQosOverride v)"

definition serializeClientQosSnapshot :: "jsval \<Rightarrow> client_snapshot result" where
  "serializeClientQosSnapshot snapshot = parseClientQosSnapshot snapshot"

section \<open>What the validators accept\<close>

definition num_ok :: "number \<Rightarrow> bool" where
  "num_ok n \<longleftrightarrow> is_finite n \<and> \<not> js_lt n (Fin 0)"

definition int_ok :: "number \<Rightarrow> bool" where
  "int_ok n \<longleftrightarrow> num_ok n \<and> is_integer n"

named_theorems accepts

lemma asObject_iff [accepts]: "asObject v p = Inr obj \<longleftrightarrow> v = VObj obj"
  by (cases v) (auto simp: asObject_def)

lemma asString_iff [accepts]: "asString v p = Inr s \<longleftrightarrow> v = VStr s"
  by (cases v) (auto simp: asString_def)

lemma asNonEmptyString_iff [accepts]: "asNonEmptyString v p = Inr s \<longleftrightarrow> v = VStr s \<and> s \<noteq> []"
  by (auto simp: asNonEmptyString_def bindr_eq_Inr asString_iff)

lemma asBoolean_iff [accepts]: "asBoolean v p = Inr b \<longleftrightarrow> v = VBool b"
  by (cases v) (auto simp: asBoolean_def)

lemma asFiniteNumber_iff: "asFiniteNumber v p = Inr n \<longleftrightarrow> v = VNum n \<and> is_finite n"
  by (cases v) (auto simp: asFiniteNumber_def)

lemma asNonNegativeNumber_iff [accepts]: "asNonNegativeNumber v p = Inr n \<longleftrightarrow> v = VNum n \<and> num_ok n"
  by (auto simp: asNonNegativeNumber_def bindr_eq_Inr asFiniteNumber_iff num_ok_def)

lemma asNonNegativeInt_iff [accepts]: "asNonNegativeInt v p = Inr n \<longleftrightarrow> v = VNum n \<and> int_ok n"
  by (auto simp: asNonNegativeInt_def asInt_def bindr_eq_Inr asFiniteNumber_iff num_ok_def int_ok_def)

lemma opt_inj [simp]:
  "VNum n = opt_num x \<longleftrightarrow> x = Some n" "VUndef = opt_num x \<longleftrightarrow> x = None"
  "VBool b = opt_bool y \<longleftrightarrow> y = Some b" "VUndef = opt_bool y \<longleftrightarrow> y = None"
  "VStr s = opt_str z \<longleftrightarrow> z = Some s" "VUndef = opt_str z \<longleftrightarrow> z = None"
  by (auto simp: opt_num_def opt_bool_def opt_str_def split: option.splits)

lemma optional_absent: "(\<not> obj_has obj k \<or> obj_get obj k = VUndef) \<longleftrightarrow> obj_get obj k = VUndef"
  using obj_get_missing by blast

lemma optionalNumber_iff [accepts]:
  "optionalNumber obj k p False True = Inr x \<longleftrightarrow> obj_get obj k = opt_num x \<and> pred_option num_ok x"
  "optionalNumber obj k p True True = Inr x \<longleftrightarrow> obj_get obj k = opt_num x \<and> pred_option int_ok x"
  unfolding optionalNumber_def optional_absent Let_def
  by (cases "obj_get obj k = VUndef"; cases x; auto simp: bindr_eq_Inr accepts)+

lemma optionalBoolean_iff [accepts]: "optionalBoolean obj k p = Inr x \<longleftrightarrow> obj_get obj k = opt_bool x"
  unfolding optionalBoolean_def optional_absent
  by (cases "obj_get obj k = VUndef"; cases x; auto simp: bindr_eq_Inr accepts)

lemma optionalString_iff [accepts]: "optionalString obj k p = Inr x \<longleftrightarrow> obj_get obj k = opt_str x"
  unfolding optionalString_def optional_absent
  by (cases "obj_get obj k = VUndef"; cases x; auto simp: bindr_eq_Inr accepts)

lemma map_of_enum_name:
  "enum_ok t \<Longrightarrow> map_of t s = Some c \<longleftrightarrow> c \<in> snd ` set t \<and> s = enum_name t c"
proof (induction t)
  case (Cons p t)
  obtain s' d where p: "p = (s', d)" by force
  have ok: "enum_ok t" and fr: "s' \<notin> fst ` set t" "d \<notin> snd ` set t"
    using Cons.prems by (auto simp: p enum_ok_def)
  have "map_of t s' = None" using fr by (simp add: map_of_eq_None_iff)
  with Cons.IH [OF ok] fr show ?case by (auto simp: p)
qed simp

definition enum_total :: "'a enum_table \<Rightarrow> bool" where
  "enum_total t \<longleftrightarrow> enum_ok t \<and> (\<forall>c. c \<in> snd ` set t)"

lemma asStringEnum_map_of: "asStringEnum v p t = Inr c \<longleftrightarrow> (\<exists>s. v = VStr s \<and> map_of t s = Some c)"
  by (auto simp: asStringEnum_def bindr_eq_Inr asString_iff split: option.splits)

lemma asStringEnum_iff: "enum_total t \<Longrightarrow> asStringEnum v p t = Inr c \<longleftrightarrow> v = VStr (enum_name t c)"
  by (simp add: asStringEnum_map_of enum_total_def map_of_enum_name)

lemma enums_total:
  "enum_total LIMITATION_REASONS" "enum_total ACTION_TYPES" "enum_total KINDS" "enum_total SOURCES"
  "enum_total STATES" "enum_total REASONS" "enum_total QUALITIES" "enum_total MODES" "enum_total SCOPES"
  unfolding enum_total_def
  by (auto simp: enum_ok_def LIMITATION_REASONS_def ACTION_TYPES_def KINDS_def SOURCES_def STATES_def
      REASONS_def QUALITIES_def MODES_def SCOPES_def
      intro: limitation_reason.exhaust action_type.exhaust track_kind.exhaust qos_source.exhaust
      qos_state.exhaust qos_reason.exhaust qos_quality.exhaust track_mode.exhaust)

lemmas enum_iff [accepts] = enums_total [THEN asStringEnum_iff]

section \<open>Valid messages\<close>

text \<open>The typed records as the untyped values the callers hold: an absent optional field is a
  property with the value \<open>undefined\<close>.\<close>

definition opt_enum :: "'a enum_table \<Rightarrow> 'a option \<Rightarrow> jsval" where
  "opt_enum t x = (case x of None \<Rightarrow> VUndef | Some c \<Rightarrow> VStr (enum_name t c))"

definition signals_val :: "track_signals \<Rightarrow> jsval" where
  "signals_val s = VObj [(''sendBitrateBps'', VNum (cs_sendBitrateBps s)),
     (''targetBitrateBps'', opt_num (cs_targetBitrateBps s)), (''lossRate'', opt_num (cs_lossRate s)),
     (''rttMs'', opt_num (cs_rttMs s)), (''jitterMs'', opt_num (cs_jitterMs s)),
     (''frameWidth'', opt_num (cs_frameWidth s)), (''frameHeight'', opt_num (cs_frameHeight s)),
     (''framesPerSecond'', opt_num (cs_framesPerSecond s)),
     (''qualityLimitationReason'', opt_enum LIMITATION_REASONS (cs_qualityLimitationReason s))]"

definition action_val :: "track_action \<Rightarrow> jsval" where
  "action_val a = VObj [(''type'', VStr (enum_name ACTION_TYPES (ta_type a))),
     (''applied'', VBool (ta_applied a))]"

definition track_val :: "track_snapshot \<Rightarrow> jsval" where
  "track_val t = VObj [(''localTrackId'', VStr (tk_localTrackId t)),
     (''producerId'', opt_str (tk_producerId t)),
     (''kind'', VStr (enum_name KINDS (tk_kind t))),
     (''source'', VStr (enum_name SOURCES (tk_source t))),
     (''state'', VStr (enum_name STATES (tk_state t))),
     (''reason'', VStr (enum_name REASONS (tk_reason t))),
     (''quality'', VStr (enum_name QUALITIES (tk_quality t))),
     (''ladderLevel'', VNum (tk_ladderLevel t)), (''signals'', signals_val (tk_signals t)),
     (''lastAction'', case tk_lastAction t of None \<Rightarrow> VUndef | Some a \<Rightarrow> action_val a)]"

definition snapshot_val :: "client_snapshot \<Rightarrow> jsval" where
  "snapshot_val s = VObj [(''schema'', VStr QOS_CLIENT_SCHEMA_V1), (''seq'', VNum (sn_seq s)),
     (''tsMs'', VNum (sn_tsMs s)),
     (''peerState'', VObj [(''mode'', VStr (enum_name MODES (sn_mode s))),
        (''quality'', VStr (enum_name QUALITIES (sn_quality s))), (''stale'', VBool (sn_stale s))]),
     (''tracks'', VArr (map track_val (sn_tracks s)))]"

definition policy_val :: "policy \<Rightarrow> jsval" where
  "policy_val p = VObj [(''schema'', VStr QOS_POLICY_SCHEMA_V1),
     (''sampleIntervalMs'', VNum (po_sampleIntervalMs p)),
     (''snapshotIntervalMs'', VNum (po_snapshotIntervalMs p)),
     (''allowAudioOnly'', VBool (po_allowAudioOnly p)),
     (''allowVideoPause'', VBool (po_allowVideoPause p)),
     (''profiles'', VObj [(''camera'', VStr (po_profileCamera p)),
        (''screenShare'', VStr (po_profileScreenShare p)), (''audio'', VStr (po_profileAudio p))])]"

definition override_val :: "override \<Rightarrow> jsval" where
  "override_val v = VObj [(''schema'', VStr QOS_OVERRIDE_SCHEMA_V1),
     (''scope'', VStr (enum_name SCOPES (ov_trackScope v))), (''trackId'', opt_str (ov_trackId v)),
     (''maxLevelClamp'', opt_num (ov_maxLevelClamp v)),
     (''forceAudioOnly'', opt_bool (ov_forceAudioOnly v)),
     (''disableRecovery'', opt_bool (ov_disableRecovery v)),
     (''pauseUpstream'', opt_bool (ov_pauseUpstream v)),
     (''resumeUpstream'', opt_bool (ov_resumeUpstream v)),
     (''ttlMs'', VNum (ov_ttlMs v)), (''reason'', VStr (ov_reason v))]"

definition signals_valid :: "track_signals \<Rightarrow> bool" where
  "signals_valid s \<longleftrightarrow> num_ok (cs_sendBitrateBps s) \<and> pred_option num_ok (cs_targetBitrateBps s)
     \<and> pred_option num_ok (cs_lossRate s) \<and> pred_option num_ok (cs_rttMs s)
     \<and> pred_option num_ok (cs_jitterMs s) \<and> pred_option int_ok (cs_frameWidth s)
     \<and> pred_option int_ok (cs_frameHeight s) \<and> pred_option num_ok (cs_framesPerSecond s)"

definition track_valid :: "track_snapshot \<Rightarrow> bool" where
  "track_valid t \<longleftrightarrow> tk_localTrackId t \<noteq> [] \<and> tk_producerId t \<noteq> Some [] \<and> int_ok (tk_ladderLevel t)
     \<and> signals_valid (tk_signals t)"

definition snapshot_valid :: "client_snapshot \<Rightarrow> bool" where
  "snapshot_valid s \<longleftrightarrow> int_ok (sn_seq s) \<and> \<not> js_gt (sn_seq s) QOS_MAX_SEQ \<and> num_ok (sn_tsMs s)
     \<and> length (sn_tracks s) \<le> QOS_MAX_TRACKS_PER_SNAPSHOT \<and> (\<forall>t \<in> set (sn_tracks s). track_valid t)"

definition policy_valid :: "policy \<Rightarrow> bool" where
  "policy_valid p \<longleftrightarrow> int_ok (po_sampleIntervalMs p) \<and> int_ok (po_snapshotIntervalMs p)
     \<and> po_profileCamera p \<noteq> [] \<and> po_profileScreenShare p \<noteq> [] \<and> po_profileAudio p \<noteq> []"

definition override_valid :: "override \<Rightarrow> bool" where
  "override_valid v \<longleftrightarrow> (ov_trackScope v \<longrightarrow> ov_trackId v \<noteq> None) \<and> ov_trackId v \<noteq> Some []
     \<and> pred_option int_ok (ov_maxLevelClamp v)
     \<and> \<not> (ov_pauseUpstream v = Some True \<and> ov_resumeUpstream v = Some True)
     \<and> int_ok (ov_ttlMs v) \<and> ov_reason v \<noteq> []"

text \<open>A value that shows every property of a message, among others: what a parser reads of it.\<close>

definition shows_fields :: "jsval \<Rightarrow> jsval \<Rightarrow> bool" where
  "shows_fields v w \<longleftrightarrow> (\<exists>obj fs. v = VObj obj \<and> w = VObj fs \<and> (\<forall>(k, u) \<in> set fs. obj_get obj k = u))"

lemma shows_fields_iff: "shows_fields v (VObj fs) \<longleftrightarrow> (\<exists>obj. v = VObj obj \<and> (\<forall>(k, u) \<in> set fs. obj_get obj k = u))"
  by (simp add: shows_fields_def)

lemma optional_enum_iff:
  assumes "enum_total t"
  shows "(if obj_has obj k \<and> obj_get obj k \<noteq> VUndef
          then bindr (asStringEnum (obj_get obj k) p t) (\<lambda>r. Inr (Some r)) else Inr None) = Inr x
    \<longleftrightarrow> obj_get obj k = opt_enum t x"
  using obj_get_missing [of obj k]
  by (cases x) (auto simp: opt_enum_def bindr_eq_Inr asStringEnum_iff [OF assms])

lemma parseTrackSignals_iff [accepts]:
  "parseTrackSignals v p = Inr r \<longleftrightarrow> shows_fields v (signals_val r) \<and> signals_valid r"
  unfolding parseTrackSignals_def parseQualityLimitationReason_def signals_val_def shows_fields_iff
    signals_valid_def
  by (cases r) (auto simp: bindr_eq_Inr accepts optional_enum_iff enums_total)

lemma parseTrackAction_iff [accepts]: "parseTrackAction v p = Inr a \<longleftrightarrow> shows_fields v (action_val a)"
  unfolding parseTrackAction_def action_val_def shows_fields_iff
  by (cases a) (auto simp: bindr_eq_Inr accepts)

text \<open>A track shows its fields, those of its signals and those of its last action.\<close>

definition shows_track :: "jsval \<Rightarrow> track_snapshot \<Rightarrow> bool" where
  "shows_track v t \<longleftrightarrow> (\<exists>obj. v = VObj obj
     \<and> shows_fields v (VObj [(''localTrackId'', VStr (tk_localTrackId t)),
         (''producerId'', opt_str (tk_producerId t)),
         (''kind'', VStr (enum_name KINDS (tk_kind t))),
         (''source'', VStr (enum_name SOURCES (tk_source t))),
         (''state'', VStr (enum_name STATES (tk_state t))),
         (''reason'', VStr (enum_name REASONS (tk_reason t))),
         (''quality'', VStr (enum_name QUALITIES (tk_quality t))),
         (''ladderLevel'', VNum (tk_ladderLevel t))])
     \<and> shows_fields (obj_get obj ''signals'') (signals_val (tk_signals t))
     \<and> (case tk_lastAction t of
          None \<Rightarrow> obj_get obj ''lastAction'' = VUndef
        | Some a \<Rightarrow> shows_fields (obj_get obj ''lastAction'') (action_val a)))"

lemma optional_action_iff:
  "(if obj_has obj ''lastAction'' \<and> obj_get obj ''lastAction'' \<noteq> VUndef
    then bindr (parseTrackAction (obj_get obj ''lastAction'') p) (\<lambda>a. Inr (Some a)) else Inr None) = Inr x
   \<longleftrightarrow> (case x of None \<Rightarrow> obj_get obj ''lastAction'' = VUndef
        | Some a \<Rightarrow> shows_fields (obj_get obj ''lastAction'') (action_val a))"
  using obj_get_missing [of obj "''lastAction''"]
  by (cases x) (auto simp: bindr_eq_Inr parseTrackAction_iff shows_fields_def)

lemma parseTrackSnapshot_iff [accepts]:
  "parseTrackSnapshot v p = Inr t \<longleftrightarrow> shows_track v t \<and> track_valid t"
proof -
  have pid: "bindr (if x = Some [] then Inl e else Inr x) f = Inr y \<longleftrightarrow> x \<noteq> Some [] \<and> f x = Inr y"
    for x :: "string option" and e :: js_error and f :: "string option \<Rightarrow> 'b result" and y by simp
  show ?thesis
    unfolding parseTrackSnapshot_def pid shows_track_def shows_fields_iff track_valid_def
    by (cases t) (auto simp: bindr_eq_Inr accepts optional_action_iff)
qed

lemma parseTracks_iff:
  "parseTracks i vs = Inr ts \<longleftrightarrow> list_all2 (\<lambda>v t. shows_track v t \<and> track_valid t) vs ts"
  by (induction i vs arbitrary: ts rule: parseTracks.induct)
     (auto simp: bindr_eq_Inr parseTrackSnapshot_iff list_all2_Cons1)

definition shows_snapshot :: "jsval \<Rightarrow> client_snapshot \<Rightarrow> bool" where
  "shows_snapshot v s \<longleftrightarrow> (\<exists>obj tracksRaw. v = VObj obj
     \<and> shows_fields v (VObj [(''schema'', VStr QOS_CLIENT_SCHEMA_V1), (''seq'', VNum (sn_seq s)),
         (''tsMs'', VNum (sn_tsMs s)), (''tracks'', VArr tracksRaw)])
     \<and> shows_fields (obj_get obj ''peerState'') (VObj [(''mode'', VStr (enum_name MODES (sn_mode s))),
         (''quality'', VStr (enum_name QUALITIES (sn_quality s))), (''stale'', VBool (sn_stale s))])
     \<and> list_all2 shows_track tracksRaw (sn_tracks s))"

lemma parseClientQosSnapshot_iff:
  "parseClientQosSnapshot v = Inr s \<longleftrightarrow> shows_snapshot v s \<and> snapshot_valid s"
proof -
  have iff: "(if c then Inl e else r) = Inr y \<longleftrightarrow> \<not> c \<and> r = Inr y" for c and e :: js_error and r :: "'b result" and y
    by simp
  have arr: "(case w of VArr vs \<Rightarrow> f vs | _ \<Rightarrow> Inl e) = Inr y \<longleftrightarrow> (\<exists>vs. w = VArr vs \<and> f vs = Inr y)"
    for w and f :: "jsval list \<Rightarrow> 'b result" and e :: js_error and y by (cases w) auto
  have all: "list_all2 (\<lambda>v t. shows_track v t \<and> track_valid t) vs ts \<longleftrightarrow>
      list_all2 shows_track vs ts \<and> (\<forall>t \<in> set ts. track_valid t)" for vs ts
    by (auto simp: list_all2_conv_all_nth all_set_conv_all_nth)
  show ?thesis
    unfolding parseClientQosSnapshot_def shows_snapshot_def shows_fields_iff snapshot_valid_def
    by (cases s) (auto simp: bindr_eq_Inr iff arr accepts parseTracks_iff all not_less
        list_all2_lengthD dest: list_all2_lengthD)
qed

lemma parseQosPolicy_iff: "parseQosPolicy v = Inr p \<longleftrightarrow>
  (\<exists>obj. v = VObj obj \<and> shows_fields v (VObj [(''schema'', VStr QOS_POLICY_SCHEMA_V1),
     (''sampleIntervalMs'', VNum (po_sampleIntervalMs p)),
     (''snapshotIntervalMs'', VNum (po_snapshotIntervalMs p)),
     (''allowAudioOnly'', VBool (po_allowAudioOnly p)),
     (''allowVideoPause'', VBool (po_allowVideoPause p))])
   \<and> shows_fields (obj_get obj ''profiles'') (VObj [(''camera'', VStr (po_profileCamera p)),
        (''screenShare'', VStr (po_profileScreenShare p)), (''audio'', VStr (po_profileAudio p))]))
  \<and> policy_valid p"
  unfolding parseQosPolicy_def shows_fields_iff policy_valid_def
  by (cases p) (auto simp: bindr_eq_Inr accepts)

text \<open>In an override a track identifier that is \<open>null\<close> counts as absent.\<close>

definition shows_override :: "jsval \<Rightarrow> override \<Rightarrow> bool" where
  "shows_override v r \<longleftrightarrow> (\<exists>obj. v = VObj obj
     \<and> shows_fields v (VObj [(''schema'', VStr QOS_OVERRIDE_SCHEMA_V1),
         (''scope'', VStr (enum_name SCOPES (ov_trackScope r))),
         (''maxLevelClamp'', opt_num (ov_maxLevelClamp r)),
         (''forceAudioOnly'', opt_bool (ov_forceAudioOnly r)),
         (''disableRecovery'', opt_bool (ov_disableRecovery r)),
         (''pauseUpstream'', opt_bool (ov_pauseUpstream r)),
         (''resumeUpstream'', opt_bool (ov_resumeUpstream r)),
         (''ttlMs'', VNum (ov_ttlMs r)), (''reason'', VStr (ov_reason r))])
     \<and> (case ov_trackId r of
          None \<Rightarrow> is_nullish (obj_get obj ''trackId'')
        | Some s \<Rightarrow> obj_get obj ''trackId'' = VStr s))"

lemma optional_trackId_iff:
  "(if obj_has obj ''trackId'' \<and> \<not> is_nullish (obj_get obj ''trackId'')
    then bindr (asNonEmptyString (obj_get obj ''trackId'') p) (\<lambda>s. Inr (Some s)) else Inr None) = Inr x
   \<longleftrightarrow> (case x of None \<Rightarrow> is_nullish (obj_get obj ''trackId'')
        | Some s \<Rightarrow> obj_get obj ''trackId'' = VStr s \<and> s \<noteq> [])"
  using obj_get_missing [of obj "''trackId''"]
  by (cases x) (auto simp: bindr_eq_Inr accepts is_nullish_def)

lemma parseQosOverride_iff: "parseQosOverride v = Inr r \<longleftrightarrow> shows_override v r \<and> override_valid r"
proof -
  have iff: "(if c then Inl e else r) = Inr y \<longleftrightarrow> \<not> c \<and> r = Inr y" for c and e :: js_error and r :: "'b result" and y
    by simp
  have null: "(\<not> obj_has obj ''trackId'' \<or> is_nullish (obj_get obj ''trackId'')) \<longleftrightarrow>
      is_nullish (obj_get obj ''trackId'')" for obj
    using obj_get_missing [of obj "''trackId''"] by (auto simp: is_nullish_def)
  have str: "\<not> is_nullish (VStr s)" for s by (simp add: is_nullish_def)
  show ?thesis
    unfolding parseQosOverride_def null shows_override_def shows_fields_iff override_valid_def
    by (cases r; cases "ov_trackId r")
       (auto simp: bindr_eq_Inr iff accepts optional_trackId_iff str)
qed

section \<open>The parsers as codecs\<close>

lemma shows_fields_self: "distinct (map fst fs) \<Longrightarrow> shows_fields (VObj fs) (VObj fs)"
proof -
  assume d: "distinct (map fst fs)"
  have "(k, u) \<in> set fs \<Longrightarrow> distinct (map fst fs) \<Longrightarrow> obj_get fs k = u" for k u
    by (induction fs) (auto, force)
  with d show ?thesis by (auto simp: shows_fields_def)
qed

text \<open>What crosses a JSON channel shows the same fields.\<close>

lemma obj_get_json:
  "distinct (map fst fs) \<Longrightarrow>
    obj_get (map (\<lambda>(k, v). (k, json v)) (filter (\<lambda>(k, v). v \<noteq> VUndef) fs)) k = json (obj_get fs k)"
proof (induction fs)
  case (Cons p fs)
  obtain a v where p: "p = (a, v)" by force
  have "a \<notin> fst ` set (filter (\<lambda>(k, v). v \<noteq> VUndef) fs)" using Cons.prems by (auto simp: p)
  then have "obj_get (map (\<lambda>(k, v). (k, json v)) (filter (\<lambda>(k, v). v \<noteq> VUndef) fs)) a = VUndef"
    by (intro obj_get_missing) (auto simp: obj_has_def image_image case_prod_unfold)
  then show ?case using Cons by (auto simp: p)
qed simp

lemma json_opt [simp]:
  "json (opt_num x) = opt_num x" "json (opt_str y) = opt_str y" "json (opt_bool z) = opt_bool z"
  "json (opt_enum t w) = opt_enum t w"
  by (auto simp: opt_num_def opt_str_def opt_bool_def opt_enum_def split: option.splits)

lemma shows_fields_json:
  assumes "distinct (map fst fs)" "\<forall>(k, u) \<in> set gs. json (obj_get fs k) = u"
  shows "shows_fields (json (VObj fs)) (VObj gs)"
  using assms by (auto simp: shows_fields_def obj_get_json)

lemma shows_signals: "shows_fields (signals_val s) (signals_val s)"
  "shows_fields (json (signals_val s)) (signals_val s)"
proof -
  show "shows_fields (signals_val s) (signals_val s)"
    unfolding signals_val_def by (rule shows_fields_self) simp
  show "shows_fields (json (signals_val s)) (signals_val s)"
    unfolding signals_val_def by (rule shows_fields_json) simp_all
qed

lemma shows_action: "shows_fields (action_val a) (action_val a)"
  "shows_fields (json (action_val a)) (action_val a)"
proof -
  show "shows_fields (action_val a) (action_val a)"
    unfolding action_val_def by (rule shows_fields_self) simp
  show "shows_fields (json (action_val a)) (action_val a)"
    unfolding action_val_def by (rule shows_fields_json) simp_all
qed

lemma json_VObj: "distinct (map fst fs) \<Longrightarrow> \<exists>gs. json (VObj fs) = VObj gs \<and> obj_get gs = json \<circ> obj_get fs"
  by (rule exI [of _ "map (\<lambda>(k, v). (k, json v)) (filter (\<lambda>(k, v). v \<noteq> VUndef) fs)"])
     (simp add: obj_get_json fun_eq_iff)

lemma shows_track_val: "shows_track (track_val t) t" "shows_track (json (track_val t)) t"
proof -
  show "shows_track (track_val t) t"
    by (cases "tk_lastAction t") (simp_all add: shows_track_def track_val_def shows_fields_iff shows_signals shows_action)
  obtain fs where fs: "track_val t = VObj fs" "distinct (map fst fs)" by (simp add: track_val_def)
  obtain gs where gs: "json (VObj fs) = VObj gs" "obj_get gs = json \<circ> obj_get fs"
    using json_VObj [OF fs(2)] by blast
  show "shows_track (json (track_val t)) t"
    unfolding fs(1) gs(1) shows_track_def shows_fields_iff
    using fs(1) [unfolded track_val_def]
    by (cases "tk_lastAction t") (auto simp: gs(2) shows_signals shows_action)
qed

lemma shows_snapshot_val: "shows_snapshot (snapshot_val s) s" "shows_snapshot (json (snapshot_val s)) s"
proof -
  have "list_all2 shows_track (map track_val ts) ts" "list_all2 shows_track (map json (map track_val ts)) ts" for ts
    by (simp_all add: list_all2_map1 list_all2_same shows_track_val)
  then show "shows_snapshot (snapshot_val s) s" "shows_snapshot (json (snapshot_val s)) s"
    by (simp_all add: shows_snapshot_def snapshot_val_def shows_fields_iff)
qed

lemma shows_override_val: "shows_override (override_val r) r" "shows_override (json (override_val r)) r"
proof -
  show "shows_override (override_val r) r"
    by (cases "ov_trackId r") (simp_all add: shows_override_def override_val_def shows_fields_iff is_nullish_def)
  obtain fs where fs: "override_val r = VObj fs" "distinct (map fst fs)" by (simp add: override_val_def)
  obtain gs where gs: "json (VObj fs) = VObj gs" "obj_get gs = json \<circ> obj_get fs"
    using json_VObj [OF fs(2)] by blast
  show "shows_override (json (override_val r)) r"
    unfolding fs(1) gs(1) shows_override_def shows_fields_iff
    using fs(1) [unfolded override_val_def]
    by (cases "ov_trackId r") (auto simp: gs(2) is_nullish_def)
qed

interpretation snapshot_codec: codec snapshot_val parseClientQosSnapshot snapshot_valid
  by unfold_locales (simp_all add: parseClientQosSnapshot_iff shows_snapshot_val)

interpretation policy_codec: codec policy_val parseQosPolicy policy_valid
  by unfold_locales (simp_all add: parseQosPolicy_iff, simp add: policy_val_def shows_fields_iff)

interpretation override_codec: codec override_val parseQosOverride override_valid
  by unfold_locales (simp_all add: parseQosOverride_iff shows_override_val)

section \<open>Properties\<close>

text \<open>C27: the client snapshot survives serialization and a JSON channel, and nothing else gets
  through: a snapshot comes back from its own serialization, and from its JSON form without the
  undefined fields, exactly when it is valid (integral sequence number up to \<open>QOS_MAX_SEQ\<close>, at most
  32 tracks, finite non-negative measures, non-empty identifiers), and exactly the valid snapshots
  are ever accepted.\<close>

theorem snapshot_roundtrip:
  "(serializeClientQosSnapshot (snapshot_val s) = Inr s \<longleftrightarrow> snapshot_valid s)
   \<and> (parseClientQosSnapshot (json (snapshot_val s)) = Inr s \<longleftrightarrow> snapshot_valid s)
   \<and> ((\<exists>v. parseClientQosSnapshot v = Inr s) \<longleftrightarrow> snapshot_valid s)"
  using snapshot_codec.decode_encode_iff [of s] snapshot_codec.decode_valid [of _ s]
  by (auto simp: serializeClientQosSnapshot_def parseClientQosSnapshot_iff shows_snapshot_val
      intro: shows_snapshot_val(1))

text \<open>overrides likewise: what \<open>parseQosOverride\<close> accepts is exactly the valid overrides, with
  a track identifier under track scope, an integral non-negative level clamp and never both a
  pause and a resume, and each of them comes back from its JSON form.\<close>

theorem override_roundtrip:
  "(parseQosOverride (json (override_val r)) = Inr r \<longleftrightarrow> override_valid r)
   \<and> ((\<exists>v. parseQosOverride v = Inr r) \<longleftrightarrow> override_valid r)"
  using override_codec.decode_encode [of r] override_codec.decode_valid [of _ r]
  by (auto simp: parseQosOverride_iff shows_override_val intro: shows_override_val(1))

text \<open>The message by which the server clears the level clamp of a track
  (src/src/qos/PublisherSupplyController.cpp, \<open>MakeTrackClear\<close>).\<close>

definition track_clear_message :: "string \<Rightarrow> string \<Rightarrow> jsval" where
  "track_clear_message trackId reason = VObj [(''schema'', VStr QOS_OVERRIDE_SCHEMA_V1),
     (''scope'', VStr ''track''), (''trackId'', VStr trackId), (''maxLevelClamp'', VNull),
     (''ttlMs'', VNum (Fin 0)), (''reason'', VStr reason)]"

text \<open>the client rejects the server's message that clears a track's clamp: \<open>maxLevelClamp\<close> is
  \<open>null\<close> there, and only an absent or undefined one is optional.\<close>

theorem track_clear_rejected:
  "trackId \<noteq> [] \<Longrightarrow> parseQosOverride (track_clear_message trackId reason)
     = Inl (TypeError ''qosOverride.maxLevelClamp must be a finite number'')"
  by (simp add: parseQosOverride_def track_clear_message_def asObject_def asString_def asStringEnum_def
      SCOPES_def asNonEmptyString_def is_nullish_def optionalNumber_def asNonNegativeInt_def asInt_def
      asFiniteNumber_def sub_path_def)

theorem track_clear_rejected_witness:
  "parseQosOverride (track_clear_message ''cam'' ''downlink_v2_room_demand_restored'')
     = Inl (TypeError ''qosOverride.maxLevelClamp must be a finite number'')"
  by (rule track_clear_rejected) simp

end
