(* ===== verification/Overrides.thy ===== *)
theory Overrides
  imports Protocol
begin

text \<open>
  The server overrides a controller holds (src/src/client/lib/qos/controller.js, \<open>handleOverride\<close>,
  \<open>_mergeOverrides\<close>, \<open>getActiveOverride\<close>): a \<open>Map\<close> from reasons to overrides with their expiry, and
  the most restrictive combination of those that have not expired. The lemmas characterise the
  combination and which entries each kind of clear removes.
\<close>

record override_entry =
  oe_data :: override
  oe_expiresAtMs :: number

type_synonym override_map = "(string, override_entry) jsmap"

definition set_true :: "bool option \<Rightarrow> bool option \<Rightarrow> bool option" where
  "set_true flag acc = (if flag = Some True then Some True else acc)"

definition merge_clamp :: "number option \<Rightarrow> number option \<Rightarrow> number option" where
  "merge_clamp merged entry =
     (case entry of
        None \<Rightarrow> merged
      | Some e \<Rightarrow> Some (case merged of Some m \<Rightarrow> js_min m e | None \<Rightarrow> e))"

definition merge_entry :: "override_entry \<Rightarrow> override_entry \<Rightarrow> override_entry" where
  "merge_entry merged entry =
     (let m = oe_data merged; d = oe_data entry
      in \<lparr>oe_data = m\<lparr>ov_maxLevelClamp := merge_clamp (ov_maxLevelClamp m) (ov_maxLevelClamp d),
            ov_forceAudioOnly := set_true (ov_forceAudioOnly d) (ov_forceAudioOnly m),
            ov_disableRecovery := set_true (ov_disableRecovery d) (ov_disableRecovery m),
            ov_pauseUpstream := set_true (ov_pauseUpstream d) (ov_pauseUpstream m),
            ov_resumeUpstream := set_true (ov_resumeUpstream d) (ov_resumeUpstream m)\<rparr>,
          oe_expiresAtMs = js_min (oe_expiresAtMs merged) (oe_expiresAtMs entry)\<rparr>)"

text \<open>The loop over the map, deleting expired entries as it goes. The map may be absent.\<close>

fun merge_loop ::
    "number \<Rightarrow> override_map \<Rightarrow> override_entry option \<Rightarrow> override_map \<times> override_entry option" where
  "merge_loop nowMs [] merged = ([], merged)"
| "merge_loop nowMs ((key, entry) # rest) merged =
     (if js_ge nowMs (oe_expiresAtMs entry) then merge_loop nowMs rest merged
      else
        let merged' = (case merged of None \<Rightarrow> entry | Some m \<Rightarrow> merge_entry m entry)
        in case merge_loop nowMs rest (Some merged') of (m', r) \<Rightarrow> ((key, entry) # m', r))"

definition mergeOverrides ::
    "number \<Rightarrow> override_map option \<Rightarrow> override_map option \<times> override_entry option" where
  "mergeOverrides nowMs activeOverrides =
     (case activeOverrides of
        None \<Rightarrow> (None, None)
      | Some m \<Rightarrow> if m = [] then (Some m, None)
                  else case merge_loop nowMs m None of (m', r) \<Rightarrow> (Some m', r))"

text \<open>Which entries a request with a time to live of zero removes, by its reason.\<close>

definition is_downlink :: "string \<Rightarrow> bool" where
  "is_downlink s \<longleftrightarrow> starts_with ''downlink_v2_'' s \<or> starts_with ''downlink_v3_'' s"

definition clears :: "string \<Rightarrow> string \<Rightarrow> bool" where
  "clears reason key =
     (if reason = ''server_ttl_expired'' then True
      else if is_downlink reason then is_downlink key
      else if \<not> starts_with ''server_'' reason then \<not> starts_with ''server_'' key
      else starts_with (strip_suffix ''_expired'' (strip_suffix ''_clear'' reason)) key)"

text \<open>\<open>handleOverride\<close> on the map and the merged override of a controller of track \<open>trackId\<close>;
  \<open>None\<close> for an override of another track.\<close>

definition handleOverride_map ::
    "string \<Rightarrow> number \<Rightarrow> override \<Rightarrow> override_map option
     \<Rightarrow> (override_map option \<times> override_entry option) option" where
  "handleOverride_map trackId nowMs ov activeOverrides =
     (if ov_trackScope ov \<and> ov_trackId ov \<noteq> Some trackId then None
      else
        let ttlMs = js_max (Fin 0) (js_floor (ov_ttlMs ov));
            m = (if js_eq ttlMs (Fin 0)
                 then map_option (filter (\<lambda>(k, _). \<not> clears (ov_reason ov) k)) activeOverrides
                 else
                   let key = (if ov_reason ov = [] then ''_default'' else ov_reason ov)
                   in Some (jm_set key \<lparr>oe_data = ov, oe_expiresAtMs = js_add nowMs ttlMs\<rparr>
                        (case activeOverrides of None \<Rightarrow> [] | Some m \<Rightarrow> m)))
        in Some (mergeOverrides nowMs m))"

definition getActiveOverride_map ::
    "number \<Rightarrow> override_map option
     \<Rightarrow> override_map option \<times> override_entry option \<times> override option" where
  "getActiveOverride_map nowMs activeOverrides =
     (case mergeOverrides nowMs activeOverrides of
        (m, None) \<Rightarrow> (m, None, None)
      | (m, Some e) \<Rightarrow>
          if js_ge nowMs (oe_expiresAtMs e) then (m, None, None)
          else (m, Some e, Some (oe_data e)))"

section \<open>The merged override\<close>

definition live :: "number \<Rightarrow> override_map \<Rightarrow> override_entry list" where
  "live nowMs m = filter (\<lambda>e. \<not> js_ge nowMs (oe_expiresAtMs e)) (map snd m)"

definition live_map :: "number \<Rightarrow> override_map \<Rightarrow> override_map" where
  "live_map nowMs m = filter (\<lambda>(k, e). \<not> js_ge nowMs (oe_expiresAtMs e)) m"

lemma merge_loop_eq:
  "merge_loop nowMs m merged = (live_map nowMs m,
     foldl (\<lambda>acc e. Some (case acc of None \<Rightarrow> e | Some a \<Rightarrow> merge_entry a e)) merged (live nowMs m))"
  by (induction nowMs m merged rule: merge_loop.induct) (auto simp: live_def live_map_def Let_def)

lemma foldl_merge_Some:
  "foldl (\<lambda>acc e. Some (case acc of None \<Rightarrow> e | Some a \<Rightarrow> merge_entry a e)) (Some x) es
   = Some (foldl merge_entry x es)"
  by (induction es arbitrary: x) simp_all

lemma mergeOverrides_eq:
  "mergeOverrides nowMs (Some m) = (Some (live_map nowMs m),
     case live nowMs m of [] \<Rightarrow> None | e # es \<Rightarrow> Some (foldl merge_entry e es))"
  by (cases m; cases "live nowMs m")
     (simp_all add: mergeOverrides_def merge_loop_eq foldl_merge_Some live_def live_map_def)

text \<open>What the entries of a list ask for together.\<close>

definition asks :: "(override \<Rightarrow> bool option) \<Rightarrow> override_entry list \<Rightarrow> bool" where
  "asks f es \<longleftrightarrow> (\<exists>e \<in> set es. f (oe_data e) = Some True)"

definition clamps :: "override_entry list \<Rightarrow> number list" where
  "clamps es = List.map_filter (\<lambda>e. ov_maxLevelClamp (oe_data e)) es"

lemma set_true_eq: "set_true f a = Some True \<longleftrightarrow> f = Some True \<or> a = Some True"
  by (simp add: set_true_def)

lemma merge_entry_flags:
  "ov_forceAudioOnly (oe_data (merge_entry a e)) = set_true (ov_forceAudioOnly (oe_data e)) (ov_forceAudioOnly (oe_data a))"
  "ov_disableRecovery (oe_data (merge_entry a e)) = set_true (ov_disableRecovery (oe_data e)) (ov_disableRecovery (oe_data a))"
  "ov_pauseUpstream (oe_data (merge_entry a e)) = set_true (ov_pauseUpstream (oe_data e)) (ov_pauseUpstream (oe_data a))"
  "ov_resumeUpstream (oe_data (merge_entry a e)) = set_true (ov_resumeUpstream (oe_data e)) (ov_resumeUpstream (oe_data a))"
  "ov_maxLevelClamp (oe_data (merge_entry a e)) = merge_clamp (ov_maxLevelClamp (oe_data a)) (ov_maxLevelClamp (oe_data e))"
  "oe_expiresAtMs (merge_entry a e) = js_min (oe_expiresAtMs a) (oe_expiresAtMs e)"
  by (simp_all add: merge_entry_def Let_def)

lemma foldl_flag:
  assumes "\<And>a e. f (oe_data (merge_entry a e)) = set_true (f (oe_data e)) (f (oe_data a))"
  shows "f (oe_data (foldl merge_entry x es)) = Some True \<longleftrightarrow> asks f (x # es)"
  by (induction es arbitrary: x) (auto simp: asks_def assms set_true_eq)

lemma js_min_cases: "js_min x y = x \<or> js_min x y = y"
  by (auto simp: js_min_def)

lemma foldl_expiry_live:
  "\<not> js_ge n (oe_expiresAtMs x) \<Longrightarrow> \<forall>e \<in> set es. \<not> js_ge n (oe_expiresAtMs e) \<Longrightarrow>
     \<not> js_ge n (oe_expiresAtMs (foldl merge_entry x es))"
proof (induction es arbitrary: x)
  case (Cons e es)
  have "\<not> js_ge n (oe_expiresAtMs (merge_entry x e))"
    using js_min_cases [of "oe_expiresAtMs x" "oe_expiresAtMs e"] Cons.prems
    by (auto simp: merge_entry_flags)
  with Cons show ?case by simp
qed simp

lemma js_min_finite_le:
  "is_finite a \<Longrightarrow> is_finite b \<Longrightarrow> js_le (js_min a b) a \<and> js_le (js_min a b) b \<and> is_finite (js_min a b)"
  by (cases a; cases b) (auto simp: js_min_def)

lemma js_le_finite_trans: "is_finite b \<Longrightarrow> js_le a b \<Longrightarrow> js_le b c \<Longrightarrow> js_le a c"
  by (cases a; cases b; cases c) auto

text \<open>The least of a list of clamps, if there is any.\<close>

definition least_clamp :: "number option \<Rightarrow> number list \<Rightarrow> bool" where
  "least_clamp x cs \<longleftrightarrow> (x = None \<longleftrightarrow> cs = []) \<and> (\<forall>c. x = Some c \<longrightarrow> c \<in> set cs \<and> (\<forall>d \<in> set cs. js_le c d))"

lemma merge_clamp_None [simp]: "merge_clamp x None = x" "merge_clamp None (Some d) = Some d"
  "merge_clamp (Some c) (Some d) = Some (js_min c d)"
  by (simp_all add: merge_clamp_def)

lemma least_clamp_step:
  assumes "least_clamp x cs" "\<forall>c \<in> set cs. is_finite c" "is_finite d"
  shows "least_clamp (merge_clamp x (Some d)) (cs @ [d])"
proof (cases x)
  case None
  then have "cs = []" using assms(1) by (simp add: least_clamp_def)
  then show ?thesis using None assms(3) by (cases d) (simp_all add: least_clamp_def)
next
  case (Some c)
  have c: "c \<in> set cs" "\<forall>e \<in> set cs. js_le c e" using assms(1) Some by (auto simp: least_clamp_def)
  have m: "js_le (js_min c d) c" "js_le (js_min c d) d" using js_min_finite_le [of c d] assms c by auto
  have "js_le (js_min c d) e" if "e \<in> set cs" for e
    using js_le_finite_trans [OF _ m(1)] assms(2) c that by blast
  then show ?thesis using m c js_min_cases [of c d] by (auto simp: Some least_clamp_def)
qed

lemma foldl_clamp:
  assumes "\<forall>e \<in> set (x # es). pred_option is_finite (ov_maxLevelClamp (oe_data e))"
  shows "least_clamp (ov_maxLevelClamp (oe_data (foldl merge_entry x es))) (clamps (x # es))"
  using assms
proof (induction es rule: rev_induct)
  case Nil
  then show ?case
    by (cases "ov_maxLevelClamp (oe_data x)"; cases "the (ov_maxLevelClamp (oe_data x))")
       (auto simp: least_clamp_def clamps_def map_filter_simps)
next
  case (snoc e es)
  have cl: "clamps (x # es @ [e]) = clamps (x # es) @
      (case ov_maxLevelClamp (oe_data e) of None \<Rightarrow> [] | Some d \<Rightarrow> [d])"
    by (cases "ov_maxLevelClamp (oe_data e)"; cases "ov_maxLevelClamp (oe_data x)")
       (simp_all add: clamps_def List.map_filter_def)
  have fin: "\<forall>c \<in> set (clamps (x # es)). is_finite c"
    using snoc.prems by (auto simp: clamps_def List.map_filter_def)
  have IH: "least_clamp (ov_maxLevelClamp (oe_data (foldl merge_entry x es))) (clamps (x # es))"
    using snoc by simp
  show ?case
  proof (cases "ov_maxLevelClamp (oe_data e)")
    case None
    then show ?thesis using IH cl by (simp add: merge_entry_flags)
  next
    case (Some d)
    have "is_finite d" using snoc.prems Some by auto
    from least_clamp_step [OF IH fin this] show ?thesis using cl Some by (simp add: merge_entry_flags)
  qed
qed

section \<open>Properties\<close>

text \<open>C22: the active override is the most restrictive combination of the overrides that have not
  expired. There is one exactly when some override is live; its level clamp is the least of the
  live clamps; it forces audio-only, disables recovery, pauses or resumes exactly when some live
  override does; and the expired entries are gone from the map.\<close>

theorem active_override_most_restrictive:
  assumes "\<forall>e \<in> set (map snd m). pred_option is_finite (ov_maxLevelClamp (oe_data e))"
    and "getActiveOverride_map nowMs (Some m) = (m', e, r)"
  shows "m' = Some (live_map nowMs m) \<and> (r = None \<longleftrightarrow> live nowMs m = [])
    \<and> (\<forall>d. r = Some d \<longrightarrow> least_clamp (ov_maxLevelClamp d) (clamps (live nowMs m))
         \<and> (ov_forceAudioOnly d = Some True \<longleftrightarrow> asks ov_forceAudioOnly (live nowMs m))
         \<and> (ov_disableRecovery d = Some True \<longleftrightarrow> asks ov_disableRecovery (live nowMs m))
         \<and> (ov_pauseUpstream d = Some True \<longleftrightarrow> asks ov_pauseUpstream (live nowMs m))
         \<and> (ov_resumeUpstream d = Some True \<longleftrightarrow> asks ov_resumeUpstream (live nowMs m)))"
proof (cases "live nowMs m")
  case Nil
  then show ?thesis using assms(2) by (auto simp: getActiveOverride_map_def mergeOverrides_eq)
next
  case (Cons x es)
  have sub: "set (x # es) \<subseteq> set (map snd m)" using Cons by (auto simp: live_def simp flip: Cons)
  have lv: "\<forall>e \<in> set (x # es). \<not> js_ge nowMs (oe_expiresAtMs e)" using Cons by (auto simp: live_def simp flip: Cons)
  have "\<not> js_ge nowMs (oe_expiresAtMs (foldl merge_entry x es))" using foldl_expiry_live lv by simp
  then have r: "m' = Some (live_map nowMs m)" "r = Some (oe_data (foldl merge_entry x es))"
    using assms(2) Cons by (auto simp: getActiveOverride_map_def mergeOverrides_eq)
  have "least_clamp (ov_maxLevelClamp (oe_data (foldl merge_entry x es))) (clamps (x # es))"
    using assms(1) sub by (intro foldl_clamp) blast
  moreover note flags = foldl_flag [where x = x and es = es, OF merge_entry_flags(1)]
    foldl_flag [where x = x and es = es, OF merge_entry_flags(2)]
    foldl_flag [where x = x and es = es, OF merge_entry_flags(3)]
    foldl_flag [where x = x and es = es, OF merge_entry_flags(4)]
  ultimately show ?thesis unfolding r Cons by simp
qed

definition sample_override :: "string \<Rightarrow> number option \<Rightarrow> bool option \<Rightarrow> number \<Rightarrow> override" where
  "sample_override reason clamp audio ttl = \<lparr>ov_trackScope = False, ov_trackId = None,
     ov_maxLevelClamp = clamp, ov_forceAudioOnly = audio, ov_disableRecovery = None,
     ov_pauseUpstream = None, ov_resumeUpstream = None, ov_ttlMs = ttl, ov_reason = reason\<rparr>"

definition sample_overrides :: override_map where
  "sample_overrides =
     [(''server_auto_poor'', \<lparr>oe_data = sample_override ''server_auto_poor'' (Some (Fin 3)) None (Fin 5000),
        oe_expiresAtMs = Fin 9000\<rparr>),
      (''manual'', \<lparr>oe_data = sample_override ''manual'' (Some (Fin 2)) (Some True) (Fin 1000),
        oe_expiresAtMs = Fin 1000\<rparr>),
      (''downlink_v2_room_demand'', \<lparr>oe_data = sample_override ''downlink_v2_room_demand'' (Some (Fin 1)) None
        (Fin 5000), oe_expiresAtMs = Fin 7000\<rparr>)]"

theorem active_override_most_restrictive_witness:
  "\<exists>m' e d. getActiveOverride_map (Fin 5000) (Some sample_overrides) = (m', e, Some d)
     \<and> least_clamp (ov_maxLevelClamp d) [Fin 3, Fin 1] \<and> ov_forceAudioOnly d \<noteq> Some True"
proof -
  obtain m' e r where g: "getActiveOverride_map (Fin 5000) (Some sample_overrides) = (m', e, r)"
    by (metis prod_cases3)
  have fin: "\<forall>e \<in> set (map snd sample_overrides). pred_option is_finite (ov_maxLevelClamp (oe_data e))"
    by (simp add: sample_overrides_def sample_override_def)
  have l: "live (Fin 5000) sample_overrides = [snd (sample_overrides ! 0), snd (sample_overrides ! 2)]"
    by (simp add: live_def sample_overrides_def)
  have c: "clamps (live (Fin 5000) sample_overrides) = [Fin 3, Fin 1]"
    and f: "\<not> asks ov_forceAudioOnly (live (Fin 5000) sample_overrides)"
    unfolding l by (simp_all add: clamps_def asks_def sample_overrides_def sample_override_def map_filter_simps)
  note p = active_override_most_restrictive [OF fin g]
  obtain d where "r = Some d" using p l by (cases r) auto
  with p c f g show ?thesis by auto
qed

lemma handle_clear:
  assumes "js_floor (ov_ttlMs ov) = Fin 0" "\<not> (ov_trackScope ov \<and> ov_trackId ov \<noteq> Some tid)"
  shows "\<exists>e. handleOverride_map tid nowMs ov (Some m)
    = Some (Some (filter (\<lambda>(k, _). \<not> clears (ov_reason ov) k) (live_map nowMs m)), e)"
proof -
  have "live_map nowMs (filter (\<lambda>(k, _). \<not> clears (ov_reason ov) k) m)
      = filter (\<lambda>(k, _). \<not> clears (ov_reason ov) k) (live_map nowMs m)"
    by (induction m) (auto simp: live_map_def)
  then show ?thesis
    using assms by (simp add: handleOverride_map_def Let_def mergeOverrides_eq js_max_def js_eq_def)
qed

lemma starts_with_trans: "starts_with p s \<Longrightarrow> starts_with p (s @ t)"
  by (metis append_assoc append_take_drop_id starts_with_append starts_with_def)

lemma server_not_downlink: "starts_with ''server_'' s \<Longrightarrow> \<not> is_downlink s"
  by (cases s) (auto simp: starts_with_def is_downlink_def)

lemma clears_server:
  assumes "starts_with ''server_'' p" "strip_suffix ''_expired'' p = p"
  shows "clears (p @ ''_clear'') k = starts_with p k"
proof -
  have "p @ ''_clear'' \<noteq> ''server_ttl_expired''"
  proof
    assume "p @ ''_clear'' = ''server_ttl_expired''"
    then have "last (p @ ''_clear'') = last ''server_ttl_expired''" by (rule arg_cong)
    then show False by simp
  qed
  then show ?thesis
    using assms server_not_downlink starts_with_trans [OF assms(1)] by (simp add: clears_def)
qed

text \<open>what a clear removes. A request with time to live zero and the reason \<open>server_ttl_expired\<close>
  leaves nothing; one with a downlink reason leaves exactly the live entries of other origin; one
  with a reason that is not the server's leaves exactly the live entries whose reason starts with
  \<open>server_\<close>, so it also removes the downlink entries; and \<open>p_clear\<close> of the server removes exactly
  the entries whose reason starts with \<open>p\<close>. A request for another track changes nothing.\<close>

theorem override_clears:
  assumes "js_floor (ov_ttlMs ov) = Fin 0"
  shows "(ov_trackScope ov \<and> ov_trackId ov \<noteq> Some tid \<longrightarrow> handleOverride_map tid nowMs ov (Some m) = None)
    \<and> (\<not> (ov_trackScope ov \<and> ov_trackId ov \<noteq> Some tid) \<longrightarrow>
         (\<exists>m' e. handleOverride_map tid nowMs ov (Some m) = Some (Some m', e)
         \<and> (ov_reason ov = ''server_ttl_expired'' \<longrightarrow> m' = [])
         \<and> (is_downlink (ov_reason ov) \<longrightarrow> m' = filter (\<lambda>(k, _). \<not> is_downlink k) (live_map nowMs m))
         \<and> (\<not> is_downlink (ov_reason ov) \<and> \<not> starts_with ''server_'' (ov_reason ov) \<longrightarrow>
              m' = filter (\<lambda>(k, _). starts_with ''server_'' k) (live_map nowMs m))
         \<and> (\<forall>p. ov_reason ov = p @ ''_clear'' \<and> starts_with ''server_'' p
                \<and> strip_suffix ''_expired'' p = p \<longrightarrow>
              m' = filter (\<lambda>(k, _). \<not> starts_with p k) (live_map nowMs m))))"
proof (cases "ov_trackScope ov \<and> ov_trackId ov \<noteq> Some tid")
  case True
  then show ?thesis by (simp add: handleOverride_map_def)
next
  case False
  have d: "is_downlink r \<Longrightarrow> clears r = is_downlink" for r
    by (auto simp: clears_def fun_eq_iff is_downlink_def starts_with_def)
  have n: "\<not> is_downlink r \<Longrightarrow> \<not> starts_with ''server_'' r \<Longrightarrow> clears r k \<longleftrightarrow> \<not> starts_with ''server_'' k" for r k
    by (auto simp: clears_def starts_with_def)
  have t: "clears ''server_ttl_expired'' k" for k by (simp add: clears_def)
  show ?thesis
    using handle_clear [OF assms False, of nowMs m] False d n t clears_server by (auto simp: case_prod_unfold)
qed

theorem override_clears_witness:
  "\<exists>e. handleOverride_map ''cam'' (Fin 5000) (sample_override ''manual_reset'' None None (Fin 0)) (Some sample_overrides)
     = Some (Some [sample_overrides ! 0], e)"
proof -
  let ?ov = "sample_override ''manual_reset'' None None (Fin 0)"
  have t: "js_floor (ov_ttlMs ?ov) = Fin 0" by (simp add: sample_override_def)
  have r: "\<not> is_downlink (ov_reason ?ov)" "\<not> starts_with ''server_'' (ov_reason ?ov)" "\<not> ov_trackScope ?ov"
    by (simp_all add: sample_override_def is_downlink_def starts_with_def)
  have "filter (\<lambda>(k, _). starts_with ''server_'' k) (live_map (Fin 5000) sample_overrides) = [sample_overrides ! 0]"
    by (simp add: live_map_def sample_overrides_def starts_with_def)
  with override_clears [OF t, of "''cam''" "Fin 5000" sample_overrides] r show ?thesis by auto
qed

end
