(* ===== verification/Controller.thy ===== *)
theory Controller
  imports StateMachine Planner Probe Executor TraceBuf Sampler Overrides
begin

text \<open>
  src/src/client/lib/qos/controller.js: the publisher QoS controller of one track. Every method of
  the class is here. What the controller is given, the action executor and the signal channel, is
  the record \<open>env\<close> of functions over a world \<open>'x\<close>; the clock is the two timer operations of
  \<open>Clock\<close> and the current time, an argument. An \<open>await\<close> runs its callee to the end, so one sample
  is processed as a whole; a method that throws returns the error next to the state it leaves.
\<close>

section \<open>State\<close>

record coordination_override =
  cv_maxLevelClamp :: "number option"
  cv_disableRecovery :: bool
  cv_forceAudioOnly :: bool
  cv_pauseUpstream :: bool
  cv_resumeUpstream :: bool

record trace_probe =
  tp_active :: bool
  tp_result :: "probe_result option"
  tp_previousLevel :: number
  tp_targetLevel :: number

record trace_entry =
  te_seq :: number
  te_tsMs :: number
  te_trackId :: string
  te_source :: qos_source
  te_stateBefore :: qos_state
  te_stateAfter :: qos_state
  te_reason :: qos_reason
  te_signals :: "number list"
  te_plannedType :: action_type
  te_plannedLevel :: number
  te_applied :: bool
  te_probe :: "trace_probe option"

record controller =
  ct_profile :: profile
  ct_trackId :: string
  ct_kind :: track_kind
  ct_producerId :: "string option"
  ct_stateContext :: state_context
  ct_previousSnapshot :: "raw_snapshot option"
  ct_previousSignals :: "signals option"
  ct_seq :: number
  ct_running :: bool
  ct_currentLevel :: number
  ct_inAudioOnlyMode :: bool
  ct_cpuSampleCount :: number
  ct_lastPublishedAtMs :: "number option"
  ct_sampleIntervalMs :: number
  ct_snapshotIntervalMs :: number
  ct_allowAudioOnly :: bool
  ct_allowVideoPause :: bool
  ct_activeOverrides :: "override_map option"
  ct_activeOverride :: "override_entry option"
  ct_coordinationOverride :: "coordination_override option"
  ct_probeContext :: "probe_context option"
  ct_recoveryProbeSuccessStreak :: number
  ct_recoveryProbeGraceUntilMs :: "number option"
  ct_recoverySuppressedUntilMs :: "number option"
  ct_lastAction :: "track_action option"
  ct_lastSampleError :: "js_error option"
  ct_trace :: "trace_entry trace_buffer"
  ct_sampler :: "(unit, unit) sampler"

text \<open>What the controller calls: an executor may throw or return any value, a channel may refuse.\<close>

record 'x env =
  en_execute :: "'x \<Rightarrow> qos_action \<Rightarrow> 'x \<times> (thrown + jsval)"
  en_publish :: "('x \<Rightarrow> client_snapshot \<Rightarrow> 'x \<times> thrown option) option"

section \<open>Helpers\<close>

definition resolvePeerMode :: "bool \<Rightarrow> track_kind \<Rightarrow> track_mode" where
  "resolvePeerMode inAudioOnlyMode kind =
     (if inAudioOnlyMode \<or> kind = KAudio then AudioOnly else AudioVideo)"

definition wasActionApplied :: "jsval \<Rightarrow> bool" where
  "wasActionApplied result =
     (case result of
        VUndef \<Rightarrow> True
      | VBool b \<Rightarrow> b
      | VObj fs \<Rightarrow>
          if obj_has fs ''status'' then obj_get fs ''status'' \<noteq> VStr ''failed''
          else if obj_has fs ''applied'' then obj_get fs ''applied'' \<noteq> VBool False
          else False
      | _ \<Rightarrow> False)"

definition isStrongRecoverySignal :: "signals \<Rightarrow> profile \<Rightarrow> bool" where
  "isStrongRecoverySignal s p =
     (let th = pf_thresholds p;
          recoveryJitterMs = recovery_jitter_ms th;
          rawJitterMs = (if is_finite (sg_jitterMs s) then js_max (Fin 0) (sg_jitterMs s) else PosInf);
          targetBitrateBps = js_max (Fin 0) (sg_targetBitrateBps s);
          sendReady = (js_le targetBitrateBps (Fin 0)
            \<or> js_ge (sg_sendBitrateBps s) (js_mul targetBitrateBps (js_num (85 / 100))))
      in js_lt (sg_lossEwma s) (th_stableLossRate th) \<and> js_lt (sg_rttEwma s) (th_stableRttMs th)
         \<and> js_lt rawJitterMs recoveryJitterMs \<and> sendReady
         \<and> \<not> sg_bandwidthLimited s \<and> \<not> sg_cpuLimited s)"

definition or_default :: "'a option \<Rightarrow> 'a \<Rightarrow> 'a" where
  "or_default x d = (case x of None \<Rightarrow> d | Some v \<Rightarrow> v)"

section \<open>Construction and control\<close>

record controller_options =
  op_profile :: profile
  op_trackId :: string
  op_kind :: track_kind
  op_producerId :: "string option"
  op_sampleIntervalMs :: "number option"
  op_snapshotIntervalMs :: "number option"
  op_traceCapacity :: "number option"
  op_allowAudioOnly :: "bool option"
  op_allowVideoPause :: "bool option"
  op_initialLevel :: "number option"
  op_initialAudioOnlyMode :: bool

definition new_PublisherQosController :: "controller_options \<Rightarrow> number \<Rightarrow> controller result" where
  "new_PublisherQosController o' nowMs =
     (let sampleIntervalMs = or_default (op_sampleIntervalMs o') (pf_sampleIntervalMs (op_profile o'))
      in bindr (new_IntervalQosSampler sampleIntervalMs) (\<lambda>sampler.
         Inr \<lparr>ct_profile = op_profile o', ct_trackId = op_trackId o', ct_kind = op_kind o',
           ct_producerId = op_producerId o',
           ct_stateContext = createInitialQosStateMachineContext nowMs,
           ct_previousSnapshot = None, ct_previousSignals = None, ct_seq = Fin 0,
           ct_running = False,
           ct_currentLevel = js_max (Fin 0) (js_floor (or_default (op_initialLevel o') (Fin 0))),
           ct_inAudioOnlyMode = op_initialAudioOnlyMode o', ct_cpuSampleCount = Fin 0,
           ct_lastPublishedAtMs = None, ct_sampleIntervalMs = sampleIntervalMs,
           ct_snapshotIntervalMs =
             or_default (op_snapshotIntervalMs o') (pf_snapshotIntervalMs (op_profile o')),
           ct_allowAudioOnly = or_default (op_allowAudioOnly o') True,
           ct_allowVideoPause = or_default (op_allowVideoPause o') True,
           ct_activeOverrides = None, ct_activeOverride = None, ct_coordinationOverride = None,
           ct_probeContext = None, ct_recoveryProbeSuccessStreak = Fin 0,
           ct_recoveryProbeGraceUntilMs = None, ct_recoverySuppressedUntilMs = None,
           ct_lastAction = None, ct_lastSampleError = None,
           ct_trace = createQosTraceBuffer (op_traceCapacity o'), ct_sampler = sampler\<rparr>))"

definition probe_active :: "controller \<Rightarrow> bool" where
  "probe_active c = (case ct_probeContext c of None \<Rightarrow> False | Some p \<Rightarrow> pr_active p)"

definition getTrackState :: "controller \<Rightarrow> track_state" where
  "getTrackState c = \<lparr>ts_trackId = ct_trackId c, ts_source = pf_source (ct_profile c),
     ts_kind = ct_kind c, ts_state = sc_state (ct_stateContext c),
     ts_quality = (case ct_previousSignals c of
        Some s \<Rightarrow> mapStateToQuality (sc_state (ct_stateContext c)) s | None \<Rightarrow> Excellent),
     ts_level = ct_currentLevel c, ts_inAudioOnlyMode = ct_inAudioOnlyMode c\<rparr>"

text \<open>The argument of \<open>setCoordinationOverride\<close>, with its fields optional.\<close>

record coordination_request =
  cq_maxLevelClamp :: "number option"
  cq_disableRecovery :: "bool option"
  cq_forceAudioOnly :: "bool option"
  cq_pauseUpstream :: "bool option"
  cq_resumeUpstream :: "bool option"

definition no_coordination :: coordination_override where
  "no_coordination = \<lparr>cv_maxLevelClamp = None, cv_disableRecovery = False, cv_forceAudioOnly = False,
     cv_pauseUpstream = False, cv_resumeUpstream = False\<rparr>"

definition setCoordinationOverride :: "controller \<Rightarrow> coordination_request option \<Rightarrow> controller" where
  "setCoordinationOverride c ov =
     (case ov of
        None \<Rightarrow> c\<lparr>ct_coordinationOverride := None\<rparr>
      | Some r \<Rightarrow>
          let normalized = \<lparr>cv_maxLevelClamp =
                  map_option (\<lambda>l. js_max (Fin 0) (js_floor l)) (cq_maxLevelClamp r),
                cv_disableRecovery = (cq_disableRecovery r = Some True),
                cv_forceAudioOnly = (cq_forceAudioOnly r = Some True),
                cv_pauseUpstream = (cq_pauseUpstream r = Some True),
                cv_resumeUpstream = (cq_resumeUpstream r = Some True)\<rparr>
          in c\<lparr>ct_coordinationOverride :=
                (if normalized = no_coordination then None else Some normalized)\<rparr>)"

definition ct_start ::
    "('k, unit \<times> unit option) clock_ops \<Rightarrow> 'k \<times> controller \<Rightarrow> 'k \<times> controller" where
  "ct_start ops kc =
     (case kc of (k, c) \<Rightarrow>
        if ct_running c then (k, c)
        else case sa_start ops (k, ct_sampler c) () (Some ()) of (k', s) \<Rightarrow>
          (k', c\<lparr>ct_running := True, ct_sampler := s\<rparr>))"

definition ct_stop ::
    "('k, unit \<times> unit option) clock_ops \<Rightarrow> 'k \<times> controller \<Rightarrow> 'k \<times> controller" where
  "ct_stop ops kc =
     (case kc of (k, c) \<Rightarrow>
        if \<not> ct_running c then (k, c)
        else case sa_stop ops (k, ct_sampler c) of (k', s) \<Rightarrow>
          (k', c\<lparr>ct_running := False, ct_sampler := s\<rparr>))"

definition policy_profile :: "policy \<Rightarrow> qos_source \<Rightarrow> string" where
  "policy_profile p s = (case s of Camera \<Rightarrow> po_profileCamera p | ScreenShare \<Rightarrow> po_profileScreenShare p
     | AudioSource \<Rightarrow> po_profileAudio p)"

definition handlePolicy ::
    "('k, unit \<times> unit option) clock_ops \<Rightarrow> 'k \<times> controller \<Rightarrow> policy
     \<Rightarrow> 'k \<times> controller \<times> js_error option" where
  "handlePolicy ops kc p =
     (case kc of (k, c) \<Rightarrow>
        let c1 = c\<lparr>ct_sampleIntervalMs := po_sampleIntervalMs p,
                   ct_snapshotIntervalMs := po_snapshotIntervalMs p,
                   ct_allowAudioOnly := po_allowAudioOnly p,
                   ct_allowVideoPause := po_allowVideoPause p\<rparr>
        in case updateIntervalMs ops (k, ct_sampler c1) (po_sampleIntervalMs p) of
             Inl e \<Rightarrow> (k, c1, Some e)
           | Inr (k', s) \<Rightarrow>
               let c2 = c1\<lparr>ct_sampler := s\<rparr>;
                   name = policy_profile p (pf_source (ct_profile c2))
               in if name \<noteq> [] \<and> name \<noteq> pf_name (ct_profile c2)
                  then case resolveProfileByName (pf_source (ct_profile c2)) name of
                      Inl e \<Rightarrow> (k', c2, Some e)
                    | Inr None \<Rightarrow> (k', c2, None)
                    | Inr (Some resolved) \<Rightarrow> (k', c2\<lparr>ct_profile := resolved\<rparr>, None)
                  else (k', c2, None))"

definition handleOverride :: "controller \<Rightarrow> number \<Rightarrow> override \<Rightarrow> controller" where
  "handleOverride c nowMs ov =
     (case handleOverride_map (ct_trackId c) nowMs ov (ct_activeOverrides c) of
        None \<Rightarrow> c
      | Some (m, e) \<Rightarrow> c\<lparr>ct_activeOverrides := m, ct_activeOverride := e\<rparr>)"

definition getActiveOverride :: "controller \<Rightarrow> number \<Rightarrow> controller \<times> override option" where
  "getActiveOverride c nowMs =
     (case getActiveOverride_map nowMs (ct_activeOverrides c) of (m, e, r) \<Rightarrow>
        (c\<lparr>ct_activeOverrides := m, ct_activeOverride := e\<rparr>, r))"

section \<open>One sample\<close>

definition relax_jitter :: "thresholds \<Rightarrow> signals \<Rightarrow> signals" where
  "relax_jitter th s =
     (case th_stableJitterMs th of
        Some j \<Rightarrow> if is_finite j
           then s\<lparr>sg_jitterEwma :=
                   js_min (sg_jitterEwma s) (js_max (Fin 0) (js_sub j (js_num (1 / 1000))))\<rparr>
           else s
      | None \<Rightarrow> s)"

definition coordination :: "controller \<Rightarrow> (coordination_override \<Rightarrow> bool) \<Rightarrow> bool" where
  "coordination c f = (case ct_coordinationOverride c of None \<Rightarrow> False | Some v \<Rightarrow> f v)"

definition overridden :: "override option \<Rightarrow> (override \<Rightarrow> bool option) \<Rightarrow> bool" where
  "overridden ov f = (case ov of None \<Rightarrow> False | Some v \<Rightarrow> f v = Some True)"

definition getTransitionSignals ::
    "controller \<Rightarrow> signals \<Rightarrow> override option \<Rightarrow> number \<Rightarrow> signals" where
  "getTransitionSignals c s ov nowMs =
     (let th = pf_thresholds (ct_profile c);
          networkRecovered = (js_lt (sg_lossEwma s) (th_stableLossRate th)
            \<and> js_lt (sg_rttEwma s) (th_stableRttMs th)
            \<and> \<not> sg_bandwidthLimited s \<and> \<not> sg_cpuLimited s);
          recoveryProbeGraceActive = (case ct_recoveryProbeGraceUntilMs c of
              None \<Rightarrow> False | Some t \<Rightarrow> js_lt nowMs t);
          ts = (if (probe_active c \<or> recoveryProbeGraceActive) \<and> networkRecovered
                then relax_jitter th s else s)
      in if \<not> ct_inAudioOnlyMode c \<or> sc_state (ct_stateContext c) \<noteq> Congested then ts
         else if overridden ov ov_forceAudioOnly \<or> coordination c cv_forceAudioOnly then ts
         else if \<not> networkRecovered then ts
         else (relax_jitter th ts)\<lparr>sg_bitrateUtilization :=
                js_max (sg_bitrateUtilization ts) (th_stableBitrateUtilization th)\<rparr>)"

definition audioOnlyAllowed :: "controller \<Rightarrow> bool" where
  "audioOnlyAllowed c = (ct_allowAudioOnly c \<and> ct_allowVideoPause c)"

definition filterActions :: "controller \<Rightarrow> qos_action list \<Rightarrow> override option \<Rightarrow> qos_action list" where
  "filterActions c actions ov =
     (let allowed = audioOnlyAllowed c;
          maxLevel = js_max (Fin 0) (js_sub (pf_levelCount (ct_profile c)) (Fin 1));
          level = ct_currentLevel c;
          camera = (pf_source (ct_profile c) = Camera);
          f0 = filter (\<lambda>a. \<not> ((a_type a = TEnterAudioOnly \<or> a_type a = TExitAudioOnly) \<and> \<not> allowed))
                 actions;
          pauseUpstreamActive =
            (overridden ov ov_pauseUpstream \<or> coordination c cv_pauseUpstream);
          resumeUpstreamActive =
            (overridden ov ov_resumeUpstream \<or> coordination c cv_resumeUpstream);
          f1 = (if pauseUpstreamActive \<and> \<not> ct_inAudioOnlyMode c \<and> camera \<and> allowed
                then EnterAudioOnly level (Some ''downlink_v3_zero_demand_pause'') # f0 else f0);
          f2 = (if resumeUpstreamActive \<and> ct_inAudioOnlyMode c \<and> camera \<and> allowed
                   \<and> \<not> pauseUpstreamActive
                then ExitAudioOnly level (Some ''downlink_v3_demand_resumed'') # f1 else f1);
          f3 = (if allowed \<and> overridden ov ov_forceAudioOnly \<and> \<not> ct_inAudioOnlyMode c \<and> camera
                then EnterAudioOnly level None # f2 else f2);
          f4 = (if allowed \<and> coordination c cv_forceAudioOnly \<and> \<not> ct_inAudioOnlyMode c \<and> camera
                then EnterAudioOnly level None # f3 else f3);
          forceAudioOnlyActive =
            (overridden ov ov_forceAudioOnly \<or> coordination c cv_forceAudioOnly);
          overrideDrivenAudioOnly = (camera \<and> ct_inAudioOnlyMode c \<and> js_lt level maxLevel);
          f5 = (if allowed \<and> overrideDrivenAudioOnly \<and> \<not> forceAudioOnlyActive
                   \<and> \<not> pauseUpstreamActive \<and> \<not> list_ex (\<lambda>a. a_type a = TExitAudioOnly) f4
                then ExitAudioOnly level None # f4 else f4)
      in if f5 = [] then [Noop level (Some ''filtered-by-policy'')] else f5)"

text \<open>The effect of an action on the controller, once its executor said whether it was applied.\<close>

definition apply_action :: "controller \<Rightarrow> qos_action \<Rightarrow> bool \<Rightarrow> controller" where
  "apply_action c a applied =
     (if applied
      then c\<lparr>ct_currentLevel := a_level a,
             ct_inAudioOnlyMode := (if a_type a = TEnterAudioOnly then True
                else if a_type a = TExitAudioOnly then False else ct_inAudioOnlyMode c)\<rparr>
      else c)"

definition trace_of ::
    "controller \<Rightarrow> signals \<Rightarrow> number \<Rightarrow> qos_state \<Rightarrow> qos_state \<Rightarrow> qos_action \<Rightarrow> bool
     \<Rightarrow> trace_probe option \<Rightarrow> trace_entry" where
  "trace_of c s nowMs stateBefore stateAfter a applied probe = \<lparr>te_seq = js_add (ct_seq c) (Fin 1),
     te_tsMs = nowMs, te_trackId = ct_trackId c, te_source = pf_source (ct_profile c),
     te_stateBefore = stateBefore, te_stateAfter = stateAfter, te_reason = sg_reason s,
     te_signals = [sg_sendBitrateBps s, sg_targetBitrateBps s, sg_lossRate s, sg_rttMs s,
       sg_jitterMs s],
     te_plannedType = a_type a, te_plannedLevel = a_level a, te_applied = applied,
     te_probe = probe\<rparr>"

definition add_trace :: "controller \<Rightarrow> trace_entry \<Rightarrow> controller" where
  "add_trace c t = c\<lparr>ct_trace := appendTraceEntry (ct_trace c) t\<rparr>"

text \<open>The body of the loop of \<open>executeActions\<close>: an executor that throws counts as not applied.\<close>

definition attempt_action ::
    "'x env \<Rightarrow> controller \<Rightarrow> 'x \<Rightarrow> qos_action \<Rightarrow> controller \<times> 'x \<times> bool" where
  "attempt_action en c x a =
     (if a_type a = TNoop then (c, x, True)
      else case en_execute en x a of
          (x', Inr result) \<Rightarrow> (c, x', wasActionApplied result)
        | (x', Inl t) \<Rightarrow> (c\<lparr>ct_lastSampleError := Some (toError t)\<rparr>, x', False))"

definition execute_one ::
    "'x env \<Rightarrow> signals \<Rightarrow> number \<Rightarrow> qos_state \<Rightarrow> qos_state \<Rightarrow> controller \<times> 'x \<Rightarrow> qos_action
     \<Rightarrow> controller \<times> 'x" where
  "execute_one en s nowMs stateBefore stateAfter cx a =
     (case cx of (c, x) \<Rightarrow>
        let (c1, x1, applied) = attempt_action en c x a;
            c2 = c1\<lparr>ct_lastAction := Some \<lparr>ta_type = a_type a, ta_applied = applied\<rparr>\<rparr>;
            c3 = apply_action c2 a applied
        in (add_trace c3 (trace_of c3 s nowMs stateBefore stateAfter a applied
              (map_option (\<lambda>p. \<lparr>tp_active = True, tp_result = None,
                 tp_previousLevel = pr_previousLevel p, tp_targetLevel = pr_targetLevel p\<rparr>)
                (ct_probeContext c3))), x1))"

definition executeActions ::
    "'x env \<Rightarrow> signals \<Rightarrow> number \<Rightarrow> qos_state \<Rightarrow> qos_state \<Rightarrow> controller \<times> 'x \<Rightarrow> qos_action list
     \<Rightarrow> controller \<times> 'x" where
  "executeActions en s nowMs stateBefore stateAfter cx actions =
     (let levelBeforeActions = ct_currentLevel (fst cx);
          audioOnlyBeforeActions = ct_inAudioOnlyMode (fst cx);
          (c, x) = foldl (execute_one en s nowMs stateBefore stateAfter) cx actions
      in if list_ex (\<lambda>a. a_type a \<noteq> TNoop) actions
            \<and> (js_lt (ct_currentLevel c) levelBeforeActions
               \<or> (audioOnlyBeforeActions \<and> \<not> ct_inAudioOnlyMode c))
         then (c\<lparr>ct_probeContext := Some (beginProbe levelBeforeActions (ct_currentLevel c) nowMs
                  audioOnlyBeforeActions (ct_inAudioOnlyMode c)
                  (Some (if js_gt (ct_recoveryProbeSuccessStreak c) (Fin 0)
                            \<and> isStrongRecoverySignal s (ct_profile c) then Fin 2 else Fin 3))
                  None)\<rparr>, x)
         else (c, x))"

text \<open>The loop of \<open>rollbackProbe\<close>: here an executor that throws ends the method.\<close>

fun rollback_actions ::
    "'x env \<Rightarrow> signals \<Rightarrow> number \<Rightarrow> qos_state \<Rightarrow> probe_context \<Rightarrow> controller \<times> 'x \<Rightarrow> qos_action list
     \<Rightarrow> controller \<times> 'x \<times> thrown option" where
  "rollback_actions en s nowMs stateBefore p (c, x) [] = (c, x, None)"
| "rollback_actions en s nowMs stateBefore p (c, x) (a # as) =
     (case en_execute en x a of
        (x', Inl t) \<Rightarrow> (c, x', Some t)
      | (x', Inr result) \<Rightarrow>
          let applied = wasActionApplied result;
              c' = apply_action c a applied
          in rollback_actions en s nowMs stateBefore p
               (add_trace c' (trace_of c' s nowMs stateBefore Congested a applied
                  (Some \<lparr>tp_active = False, tp_result = Some Failed,
                     tp_previousLevel = pr_previousLevel p, tp_targetLevel = pr_targetLevel p\<rparr>)), x') as)"

definition rollbackProbe ::
    "'x env \<Rightarrow> signals \<Rightarrow> number \<Rightarrow> qos_state \<Rightarrow> controller \<times> 'x \<Rightarrow> controller \<times> 'x \<times> thrown option" where
  "rollbackProbe en s nowMs stateBefore cx =
     (case cx of (c, x) \<Rightarrow>
        case ct_probeContext c of
          None \<Rightarrow> (c, x, None)
        | Some p \<Rightarrow>
            let revertActions = planActionsForLevel
                  \<lparr>pi_source = pf_source (ct_profile c), pi_profile = ct_profile c,
                   pi_state = Congested, pi_currentLevel = ct_currentLevel c,
                   pi_overrideClampLevel = None, pi_inAudioOnlyMode = ct_inAudioOnlyMode c\<rparr>
                  (pr_previousLevel p)
            in case rollback_actions en s nowMs stateBefore p (c, x) revertActions of
                 (c', x', Some t) \<Rightarrow> (c', x', Some t)
               | (c', x', None) \<Rightarrow>
                   (c'\<lparr>ct_stateContext := (ct_stateContext c')\<lparr>sc_state := Congested,
                       sc_enteredAtMs := nowMs, sc_lastCongestedAtMs := Some nowMs\<rparr>\<rparr>, x', None))"

definition snapshot_payload ::
    "controller \<Rightarrow> raw_snapshot \<Rightarrow> signals \<Rightarrow> qos_quality \<Rightarrow> number \<Rightarrow> client_snapshot" where
  "snapshot_payload c raw s quality nowMs = \<lparr>sn_seq = ct_seq c, sn_tsMs = nowMs,
     sn_mode = resolvePeerMode (ct_inAudioOnlyMode c) (ct_kind c), sn_quality = quality,
     sn_stale = False,
     sn_tracks = [\<lparr>tk_localTrackId = ct_trackId c, tk_producerId = ct_producerId c,
       tk_kind = ct_kind c, tk_source = pf_source (ct_profile c),
       tk_state = sc_state (ct_stateContext c), tk_reason = sg_reason s, tk_quality = quality,
       tk_ladderLevel = ct_currentLevel c,
       tk_signals = \<lparr>cs_sendBitrateBps = sg_sendBitrateBps s,
         cs_targetBitrateBps = Some (sg_targetBitrateBps s), cs_lossRate = Some (sg_lossRate s),
         cs_rttMs = Some (sg_rttMs s), cs_jitterMs = Some (sg_jitterMs s),
         cs_frameWidth = rs_frameWidth raw, cs_frameHeight = rs_frameHeight raw,
         cs_framesPerSecond = rs_framesPerSecond raw,
         cs_qualityLimitationReason = rs_qualityLimitationReason raw\<rparr>,
       tk_lastAction = ct_lastAction c\<rparr>]\<rparr>"

definition next_seq :: "number \<Rightarrow> number" where
  "next_seq n = (if js_ge n QOS_MAX_SEQ then Fin 0 else js_add n (Fin 1))"

definition publishSnapshot ::
    "'x env \<Rightarrow> controller \<times> 'x \<Rightarrow> raw_snapshot \<Rightarrow> signals \<Rightarrow> qos_quality \<Rightarrow> number \<Rightarrow> controller \<times> 'x" where
  "publishSnapshot en cx raw s quality nowMs =
     (case cx of (c, x) \<Rightarrow>
        case en_publish en of
          None \<Rightarrow> (c, x)
        | Some publish \<Rightarrow>
            let c1 = c\<lparr>ct_seq := next_seq (ct_seq c)\<rparr>
            in case publish x (snapshot_payload c1 raw s quality nowMs) of
                 (x', None) \<Rightarrow> (c1, x')
               | (x', Some t) \<Rightarrow> (c1\<lparr>ct_lastSampleError := Some (toError t)\<rparr>, x'))"

text \<open>\<open>processSample\<close>, in the phases of its body. First what it reads of the overrides.\<close>

definition combined_clamp :: "override option \<Rightarrow> coordination_override option \<Rightarrow> number option" where
  "combined_clamp ov co =
     (let levels = List.map_filter id [Option.bind ov ov_maxLevelClamp, Option.bind co cv_maxLevelClamp]
      in case levels of [] \<Rightarrow> None | l # ls \<Rightarrow> Some (foldl js_min l ls))"

definition recovery_disabled :: "controller \<Rightarrow> override option \<Rightarrow> number \<Rightarrow> bool" where
  "recovery_disabled c ov nowMs =
     (coordination c cv_disableRecovery \<or> overridden ov ov_disableRecovery
      \<or> (case ct_recoverySuppressedUntilMs c of None \<Rightarrow> False | Some t \<Rightarrow> js_lt nowMs t))"

text \<open>The samples up to the state transition: the controller, the signals, the quality and whether
  the state changed.\<close>

definition observe ::
    "controller \<Rightarrow> override option \<Rightarrow> raw_snapshot \<Rightarrow> number \<Rightarrow> controller \<times> signals \<times> qos_quality \<times> bool" where
  "observe c ov snapshot nowMs =
     (let c1 = c\<lparr>ct_cpuSampleCount :=
                  (if rs_qualityLimitationReason snapshot = Some LCpu
                   then js_add (ct_cpuSampleCount c) (Fin 1) else Fin 0)\<rparr>;
          s = deriveSignals snapshot (ct_previousSnapshot c1) (ct_previousSignals c1) None
                \<lparr>rc_activeOverride = (ov \<noteq> None), rc_manual = False,
                 rc_cpuSampleCount = Some (ct_cpuSampleCount c1)\<rparr>;
          ts = getTransitionSignals c1 s ov nowMs
      in case evaluateStateTransition (ct_stateContext c1) ts (ct_profile c1) nowMs of
           (ctx, quality, transitioned) \<Rightarrow>
             (c1\<lparr>ct_stateContext := ctx\<rparr>, s, quality, transitioned))"

text \<open>The running probe: \<open>Some r\<close> when the method returns here, with what it throws.\<close>

definition settle_probe ::
    "'x env \<Rightarrow> signals \<Rightarrow> number \<Rightarrow> qos_state \<Rightarrow> controller \<times> 'x
     \<Rightarrow> controller \<times> 'x \<times> thrown option option" where
  "settle_probe en s nowMs stateBefore cx =
     (case cx of (c, x) \<Rightarrow>
        case ct_probeContext c of
          None \<Rightarrow> (c, x, None)
        | Some p \<Rightarrow>
            case evaluateProbe (Some p) s (ct_profile c) of
              (pc, Failed) \<Rightarrow>
                (case rollbackProbe en s nowMs stateBefore (c, x) of
                   (c', x', Some t) \<Rightarrow> (c', x', Some (Some t))
                 | (c', x', None) \<Rightarrow>
                     (c'\<lparr>ct_probeContext := None, ct_recoveryProbeSuccessStreak := Fin 0,
                         ct_recoveryProbeGraceUntilMs := None,
                         ct_recoverySuppressedUntilMs :=
                           Some (js_add nowMs (pf_recoveryCooldownMs (ct_profile c')))\<rparr>, x', Some None))
            | (pc, Successful) \<Rightarrow>
                let strong = (isStrongRecoverySignal s (ct_profile c)
                      \<and> js_eq (case pc of None \<Rightarrow> Fin 0 | Some q \<Rightarrow> pr_badSamples q) (Fin 0)
                      \<and> (stateBefore = Recovering \<or> sc_state (ct_stateContext c) = Recovering
                         \<or> js_gt (ct_recoveryProbeSuccessStreak c) (Fin 0))
                      \<and> js_gt (ct_currentLevel c) (Fin 0))
                in (c\<lparr>ct_recoveryProbeSuccessStreak :=
                        (if strong then js_add (ct_recoveryProbeSuccessStreak c) (Fin 1) else Fin 0),
                      ct_recoveryProbeGraceUntilMs :=
                        (if strong then Some (js_add nowMs (js_mul (ct_sampleIntervalMs c) (Fin 3)))
                         else None),
                      ct_probeContext := None\<rparr>, x, None)
            | (pc, Inconclusive) \<Rightarrow> (c\<lparr>ct_probeContext := pc\<rparr>, x, None))"

definition planner_input_of :: "controller \<Rightarrow> qos_state \<Rightarrow> number option \<Rightarrow> planner_input" where
  "planner_input_of c st clamp = \<lparr>pi_source = pf_source (ct_profile c), pi_profile = ct_profile c,
     pi_state = st, pi_currentLevel = ct_currentLevel c, pi_overrideClampLevel = clamp,
     pi_inAudioOnlyMode = ct_inAudioOnlyMode c\<rparr>"

definition plan_sample :: "controller \<Rightarrow> number option \<Rightarrow> bool \<Rightarrow> qos_action list" where
  "plan_sample c clamp disableRecovery =
     (let st = sc_state (ct_stateContext c)
      in if probe_active c then [Noop (ct_currentLevel c) (Some ''probe-in-progress'')]
         else if st = Recovering \<and> \<not> disableRecovery then planRecovery (planner_input_of c st clamp)
         else planActions (planner_input_of c (if st = Recovering then EarlyWarning else st) clamp))"

definition reset_streak :: "controller \<Rightarrow> controller" where
  "reset_streak c =
     (if \<not> probe_active c
         \<and> (sc_state (ct_stateContext c) = Congested \<or> js_eq (ct_currentLevel c) (Fin 0))
      then c\<lparr>ct_recoveryProbeSuccessStreak := Fin 0\<rparr> else c)"

definition should_publish :: "controller \<Rightarrow> bool \<Rightarrow> number \<Rightarrow> bool" where
  "should_publish c transitioned nowMs =
     (transitioned \<or> (case ct_lastPublishedAtMs c of
        None \<Rightarrow> True | Some t \<Rightarrow> js_ge (js_sub nowMs t) (ct_snapshotIntervalMs c)))"

definition processSample ::
    "'x env \<Rightarrow> number \<Rightarrow> controller \<times> 'x \<Rightarrow> raw_snapshot \<Rightarrow> controller \<times> 'x \<times> thrown option" where
  "processSample en nowMs cx snapshot =
     (let c0 = fst cx;
          stateBefore = sc_state (ct_stateContext c0);
          (c1, ov) = getActiveOverride c0 nowMs;
          clamp = combined_clamp ov (ct_coordinationOverride c1);
          disableRecovery = recovery_disabled c1 ov nowMs;
          (c2, s, quality, transitioned) = observe c1 ov snapshot nowMs
      in case settle_probe en s nowMs stateBefore (c2, snd cx) of
           (c3, x3, Some thrown) \<Rightarrow> (c3, x3, thrown)
         | (c3, x3, None) \<Rightarrow>
             let c4 = reset_streak c3;
                 actions = filterActions c4 (plan_sample c4 clamp disableRecovery) ov;
                 (c5, x5) = executeActions en s nowMs stateBefore (sc_state (ct_stateContext c4))
                    (c4, x3) actions;
                 (c6, x6) = (if should_publish c5 transitioned nowMs
                    then case publishSnapshot en (c5, x5) snapshot s quality nowMs of
                      (c', x') \<Rightarrow> (c'\<lparr>ct_lastPublishedAtMs := Some nowMs\<rparr>, x')
                    else (c5, x5))
             in (c6\<lparr>ct_previousSnapshot := Some snapshot, ct_previousSignals := Some s\<rparr>, x6, None))"

text \<open>\<open>sampleNow\<close>, with the statistics provider.\<close>

definition sampleNow ::
    "'x env \<Rightarrow> ('x \<Rightarrow> 'x \<times> (thrown + raw_snapshot)) \<Rightarrow> number \<Rightarrow> controller \<times> 'x
     \<Rightarrow> controller \<times> 'x \<times> thrown option" where
  "sampleNow en getSnapshot nowMs cx =
     (case cx of (c, x) \<Rightarrow>
        case sampleOnce getSnapshot x of
          (x', Inl t) \<Rightarrow> (c, x', Some t)
        | (x', Inr snapshot) \<Rightarrow> processSample en nowMs (c, x') snapshot)"

text \<open>The tick of the sampler that \<open>start\<close> arms: what a sample throws becomes the last error.\<close>

definition sampler_tick ::
    "'x env \<Rightarrow> ('x \<Rightarrow> 'x \<times> (thrown + raw_snapshot)) \<Rightarrow> number \<Rightarrow> controller \<times> 'x \<Rightarrow> controller \<times> 'x" where
  "sampler_tick en getSnapshot nowMs cx =
     (case sampleNow en getSnapshot nowMs cx of
        (c, x, None) \<Rightarrow> (c, x)
      | (c, x, Some t) \<Rightarrow> (c\<lparr>ct_lastSampleError := Some (toError t)\<rparr>, x))"

end
