(* ===== verification/ControllerProps.thy ===== *)
theory ControllerProps
  imports Controller
begin

text \<open>
  What the publisher QoS controller keeps over any sequence of samples, overrides, policies and
  coordination requests: the level stays on the ladder and moves one step at a time, probes roll
  back to where they started, and every snapshot it publishes is one the protocol accepts.
\<close>

section \<open>What executing actions changes\<close>

text \<open>Executing actions only touches the level, the mode, the last action and error, and the trace.\<close>

definition core :: "controller \<Rightarrow> controller" where
  "core c = c\<lparr>ct_currentLevel := Fin 0, ct_inAudioOnlyMode := False, ct_lastAction := None,
     ct_lastSampleError := None, ct_trace := createQosTraceBuffer None\<rparr>"

definition touched :: "controller \<Rightarrow> controller \<Rightarrow> bool" where
  "touched c c' \<longleftrightarrow> core c' = core c"

lemma core_fields:
  "ct_profile (core c) = ct_profile c" "ct_trackId (core c) = ct_trackId c"
  "ct_kind (core c) = ct_kind c" "ct_producerId (core c) = ct_producerId c"
  "ct_stateContext (core c) = ct_stateContext c"
  "ct_previousSnapshot (core c) = ct_previousSnapshot c"
  "ct_previousSignals (core c) = ct_previousSignals c" "ct_seq (core c) = ct_seq c"
  "ct_activeOverrides (core c) = ct_activeOverrides c"
  "ct_coordinationOverride (core c) = ct_coordinationOverride c"
  "ct_probeContext (core c) = ct_probeContext c"
  "ct_lastPublishedAtMs (core c) = ct_lastPublishedAtMs c"
  "ct_recoverySuppressedUntilMs (core c) = ct_recoverySuppressedUntilMs c"
  by (simp_all add: core_def)

lemma touched_fields:
  assumes "touched c c'"
  shows "ct_profile c' = ct_profile c" "ct_trackId c' = ct_trackId c" "ct_kind c' = ct_kind c"
    "ct_producerId c' = ct_producerId c" "ct_stateContext c' = ct_stateContext c"
    "ct_previousSnapshot c' = ct_previousSnapshot c" "ct_previousSignals c' = ct_previousSignals c"
    "ct_seq c' = ct_seq c" "ct_activeOverrides c' = ct_activeOverrides c"
    "ct_coordinationOverride c' = ct_coordinationOverride c" "ct_probeContext c' = ct_probeContext c"
    "ct_lastPublishedAtMs c' = ct_lastPublishedAtMs c"
    "ct_recoverySuppressedUntilMs c' = ct_recoverySuppressedUntilMs c"
proof -
  note e = assms [unfolded touched_def]
  show "ct_profile c' = ct_profile c" using arg_cong [OF e, where f = ct_profile] unfolding core_fields .
  show "ct_trackId c' = ct_trackId c" using arg_cong [OF e, where f = ct_trackId] unfolding core_fields .
  show "ct_kind c' = ct_kind c" using arg_cong [OF e, where f = ct_kind] unfolding core_fields .
  show "ct_producerId c' = ct_producerId c" using arg_cong [OF e, where f = ct_producerId] unfolding core_fields .
  show "ct_stateContext c' = ct_stateContext c" using arg_cong [OF e, where f = ct_stateContext] unfolding core_fields .
  show "ct_previousSnapshot c' = ct_previousSnapshot c" using arg_cong [OF e, where f = ct_previousSnapshot] unfolding core_fields .
  show "ct_previousSignals c' = ct_previousSignals c" using arg_cong [OF e, where f = ct_previousSignals] unfolding core_fields .
  show "ct_seq c' = ct_seq c" using arg_cong [OF e, where f = ct_seq] unfolding core_fields .
  show "ct_activeOverrides c' = ct_activeOverrides c" using arg_cong [OF e, where f = ct_activeOverrides] unfolding core_fields .
  show "ct_coordinationOverride c' = ct_coordinationOverride c" using arg_cong [OF e, where f = ct_coordinationOverride] unfolding core_fields .
  show "ct_probeContext c' = ct_probeContext c" using arg_cong [OF e, where f = ct_probeContext] unfolding core_fields .
  show "ct_lastPublishedAtMs c' = ct_lastPublishedAtMs c" using arg_cong [OF e, where f = ct_lastPublishedAtMs] unfolding core_fields .
  show "ct_recoverySuppressedUntilMs c' = ct_recoverySuppressedUntilMs c" using arg_cong [OF e, where f = ct_recoverySuppressedUntilMs] unfolding core_fields .
qed

lemma touched_refl: "touched c c"
  by (simp add: touched_def)

lemma touched_trans: "touched c c' \<Longrightarrow> touched c' c'' \<Longrightarrow> touched c c''"
  by (simp add: touched_def)

lemma execute_one_touched:
  assumes "execute_one en s n sb sa (c, x) a = (c', x')"
  shows "touched c c'" "ct_currentLevel c' = ct_currentLevel c \<or> ct_currentLevel c' = a_level a"
proof -
  obtain c1 x1 ap where r: "attempt_action en c x a = (c1, x1, ap)" by (cases "attempt_action en c x a")
  then have c1: "c1 = c \<or> (\<exists>e. c1 = c\<lparr>ct_lastSampleError := e\<rparr>)"
    by (auto simp: attempt_action_def split: if_splits prod.splits sum.splits)
  have c': "\<exists>tr. c' = (apply_action (c1\<lparr>ct_lastAction := Some \<lparr>ta_type = a_type a, ta_applied = ap\<rparr>\<rparr>) a ap)
      \<lparr>ct_trace := tr\<rparr>"
    using assms r by (auto simp: execute_one_def add_trace_def Let_def)
  show "touched c c'" using c1 c' by (auto simp: touched_def core_def apply_action_def)
  show "ct_currentLevel c' = ct_currentLevel c \<or> ct_currentLevel c' = a_level a"
    using c1 c' by (auto simp: apply_action_def)
qed

lemma execute_all_touched:
  assumes "foldl (execute_one en s n sb sa) (c, x) as = (c', x')"
  shows "touched c c' \<and> ct_currentLevel c' \<in> insert (ct_currentLevel c) (a_level ` set as)"
  using assms
proof (induction as arbitrary: c x)
  case (Cons a as)
  obtain c1 x1 where e: "execute_one en s n sb sa (c, x) a = (c1, x1)" by force
  note t = execute_one_touched [OF e]
  have "touched c1 c' \<and> ct_currentLevel c' \<in> insert (ct_currentLevel c1) (a_level ` set as)"
    using Cons.IH [of c1 x1] Cons.prems e by simp
  with t touched_trans show ?case by auto
qed (simp add: touched_refl)

lemma executeActions_eq:
  assumes "executeActions en s n sb sa (c, x) as = (c', x')"
  obtains c1 where "touched c c1" "ct_currentLevel c1 \<in> insert (ct_currentLevel c) (a_level ` set as)"
    "c' = c1 \<or> (\<exists>k b b'. c' = c1\<lparr>ct_probeContext := Some (beginProbe (ct_currentLevel c) (ct_currentLevel c1)
        n b b' (Some k) None)\<rparr>)"
proof -
  obtain c1 x1 where f: "foldl (execute_one en s n sb sa) (c, x) as = (c1, x1)" by force
  then have "c' = c1 \<or> (\<exists>k b b'. c' = c1\<lparr>ct_probeContext := Some (beginProbe (ct_currentLevel c)
      (ct_currentLevel c1) n b b' (Some k) None)\<rparr>)"
    using assms unfolding executeActions_def Let_def fst_conv f prod.case by (auto split: if_splits)
  with execute_all_touched [OF f] that show thesis by blast
qed

lemma filterActions_level:
  "a \<in> set (filterActions c as ov) \<Longrightarrow> a_level a \<in> insert (ct_currentLevel c) (a_level ` set as)"
  unfolding filterActions_def Let_def by (auto split: if_splits)

lemma rollback_actions_touched:
  assumes "rollback_actions en s n sb p (c, x) as = (c', x', t)"
  shows "touched c c' \<and> ct_currentLevel c' \<in> insert (ct_currentLevel c) (a_level ` set as)"
  using assms
proof (induction as arbitrary: c x)
  case (Cons a as)
  obtain x1 r where e: "en_execute en x a = (x1, r)" by force
  show ?case
  proof (cases r)
    case (Inl t')
    then show ?thesis using Cons.prems e by (simp add: touched_refl)
  next
    case (Inr v)
    let ?c1 = "apply_action c a (wasActionApplied v)"
    obtain tr where "rollback_actions en s n sb p (?c1\<lparr>ct_trace := tr\<rparr>, x1) as = (c', x', t)"
      using Cons.prems e Inr by (auto simp: add_trace_def Let_def)
    from Cons.IH [OF this] have "touched (?c1\<lparr>ct_trace := tr\<rparr>) c'"
      "ct_currentLevel c' \<in> insert (ct_currentLevel ?c1) (a_level ` set as)" by simp_all
    moreover have "touched c (?c1\<lparr>ct_trace := tr\<rparr>)"
      by (simp add: touched_def core_def apply_action_def)
    moreover have "ct_currentLevel ?c1 = ct_currentLevel c \<or> ct_currentLevel ?c1 = a_level a"
      by (simp add: apply_action_def)
    ultimately show ?thesis using touched_trans by auto
  qed
qed (simp add: touched_refl)

section \<open>The invariant\<close>

definition level_ok :: "profile \<Rightarrow> number \<Rightarrow> bool" where
  "level_ok p l \<longleftrightarrow> (\<exists>k \<le> max_level p. l = lvl k)"

definition seq_ok :: "number \<Rightarrow> bool" where
  "seq_ok n \<longleftrightarrow> (\<exists>k. n = lvl k \<and> k \<le> 9007199254740991)"

definition overrides_ok :: "override_map option \<Rightarrow> bool" where
  "overrides_ok m \<longleftrightarrow>
     (\<forall>es. m = Some es \<longrightarrow> (\<forall>e \<in> set (map snd es). pred_option int_ok (ov_maxLevelClamp (oe_data e))))"

definition measures_ok :: "controller \<Rightarrow> bool" where
  "measures_ok c \<longleftrightarrow> (\<forall>s. ct_previousSignals c = Some s \<longrightarrow> signals_ok s)"

definition ctrl_inv :: "controller \<Rightarrow> bool" where
  "ctrl_inv c \<longleftrightarrow> profile_wf (ct_profile c) \<and> max_level (ct_profile c) = 4
     \<and> level_ok (ct_profile c) (ct_currentLevel c)
     \<and> (\<forall>p. ct_probeContext c = Some p \<longrightarrow> level_ok (ct_profile c) (pr_previousLevel p))
     \<and> seq_ok (ct_seq c) \<and> overrides_ok (ct_activeOverrides c)
     \<and> (\<forall>v. ct_coordinationOverride c = Some v \<longrightarrow> pred_option int_ok (cv_maxLevelClamp v))
     \<and> ct_trackId c \<noteq> [] \<and> ct_producerId c \<noteq> Some []"

lemma int_ok_lvl: "int_ok x \<longleftrightarrow> (\<exists>k. x = lvl k)"
proof
  assume i: "int_ok x"
  then obtain r where r: "x = Fin r" "of_int \<lfloor>r\<rfloor> = r" "0 \<le> r"
    by (cases x) (auto simp: int_ok_def num_ok_def)
  then have "r = of_nat (nat \<lfloor>r\<rfloor>)" by (metis of_nat_nat zero_le_floor of_int_of_nat_eq)
  with r show "\<exists>k. x = lvl k" by blast
next
  assume "\<exists>k. x = lvl k"
  then obtain k where "x = lvl k" ..
  then show "int_ok x" by (simp add: int_ok_def num_ok_def)
qed

lemma int_ok_min: "int_ok x \<Longrightarrow> int_ok y \<Longrightarrow> int_ok (js_min x y)"
  using js_min_cases [of x y] by metis

lemma ctrl_inv_cong:
  assumes "ctrl_inv c" "ct_profile c' = ct_profile c" "ct_currentLevel c' = ct_currentLevel c"
    "ct_probeContext c' = ct_probeContext c" "ct_seq c' = ct_seq c"
    "ct_activeOverrides c' = ct_activeOverrides c" "ct_coordinationOverride c' = ct_coordinationOverride c"
    "ct_trackId c' = ct_trackId c" "ct_producerId c' = ct_producerId c"
  shows "ctrl_inv c'"
  using assms unfolding ctrl_inv_def by simp

lemma ctrl_inv_touched:
  assumes "ctrl_inv c" "touched c c'" "level_ok (ct_profile c) (ct_currentLevel c')"
  shows "ctrl_inv c'"
  using assms(1,3) unfolding ctrl_inv_def touched_fields [OF assms(2)] by simp

section \<open>The steps keep the invariant\<close>

lemma pred_clampD: "pred_option int_ok x \<Longrightarrow> x = Some c \<Longrightarrow> int_ok c"
  by simp

lemma foldl_merge_clamp_ok:
  "\<forall>e \<in> set (x # es). pred_option int_ok (ov_maxLevelClamp (oe_data e)) \<Longrightarrow>
     pred_option int_ok (ov_maxLevelClamp (oe_data (foldl merge_entry x es)))"
proof (induction es arbitrary: x)
  case (Cons e es)
  have "pred_option int_ok (merge_clamp (ov_maxLevelClamp (oe_data x)) (ov_maxLevelClamp (oe_data e)))"
    using Cons.prems
    by (cases "ov_maxLevelClamp (oe_data x)"; cases "ov_maxLevelClamp (oe_data e)") (auto intro: int_ok_min)
  then show ?case using Cons by (simp add: merge_entry_flags)
qed simp

lemma mergeOverrides_ok:
  assumes "overrides_ok m" "mergeOverrides n m = (m', e)"
  shows "overrides_ok m' \<and> (\<forall>x. e = Some x \<longrightarrow> pred_option int_ok (ov_maxLevelClamp (oe_data x)))"
proof (cases m)
  case None
  then show ?thesis using assms by (auto simp: mergeOverrides_def overrides_ok_def)
next
  case (Some es)
  have ok: "\<forall>e \<in> set (map snd es). pred_option int_ok (ov_maxLevelClamp (oe_data e))"
    using assms(1) Some by (simp add: overrides_ok_def)
  have "set (map snd (live_map n es)) \<subseteq> set (map snd es)" "set (live n es) \<subseteq> set (map snd es)"
    by (auto simp: live_map_def live_def)
  then have ok': "overrides_ok (Some (live_map n es))"
      "\<forall>e \<in> set (live n es). pred_option int_ok (ov_maxLevelClamp (oe_data e))"
    using ok by (auto simp: overrides_ok_def simp del: set_map)
  from assms(2) have "m' = Some (live_map n es)"
    "e = (case live n es of [] \<Rightarrow> None | e # es \<Rightarrow> Some (foldl merge_entry e es))"
    by (auto simp: Some mergeOverrides_eq)
  with ok' foldl_merge_clamp_ok show ?thesis by (auto split: list.splits)
qed

lemma getActiveOverride_inv:
  assumes "ctrl_inv c" "getActiveOverride c n = (c', ov)"
  shows "ctrl_inv c'" "\<And>d. ov = Some d \<Longrightarrow> pred_option int_ok (ov_maxLevelClamp d)"
    "\<exists>m e. c' = c\<lparr>ct_activeOverrides := m, ct_activeOverride := e\<rparr>"
proof -
  obtain m e where m: "mergeOverrides n (ct_activeOverrides c) = (m, e)" by force
  have ok: "overrides_ok (ct_activeOverrides c)" using assms(1) by (simp add: ctrl_inv_def)
  note mo = mergeOverrides_ok [OF ok m]
  show ex: "\<exists>m e. c' = c\<lparr>ct_activeOverrides := m, ct_activeOverride := e\<rparr>"
    using assms(2) by (auto simp: getActiveOverride_def split: prod.splits)
  have am: "ct_activeOverrides c' = m"
    using assms(2) m by (auto simp: getActiveOverride_def getActiveOverride_map_def split: option.splits if_splits)
  show "ctrl_inv c'" using assms(1) ex am mo unfolding ctrl_inv_def by auto
  show "\<And>d. ov = Some d \<Longrightarrow> pred_option int_ok (ov_maxLevelClamp d)"
    using assms(2) m mo
    by (auto simp: getActiveOverride_def getActiveOverride_map_def split: option.splits if_splits)
qed

lemma handleOverride_inv:
  assumes "ctrl_inv c" "override_valid ov"
  shows "ctrl_inv (handleOverride c n ov)"
proof (cases "handleOverride_map (ct_trackId c) n ov (ct_activeOverrides c)")
  case (Some me)
  obtain m e where me: "me = (m, e)" by force
  have ok: "overrides_ok (ct_activeOverrides c)" using assms(1) by (simp add: ctrl_inv_def)
  have cl: "pred_option int_ok (ov_maxLevelClamp ov)" using assms(2) by (simp add: override_valid_def)
  obtain m0 where m0: "mergeOverrides n m0 = (m, e)" "overrides_ok m0"
  proof (rule that)
    let ?k = "if ov_reason ov = [] then ''_default'' else ov_reason ov"
    let ?ttl = "js_max (Fin 0) (js_floor (ov_ttlMs ov))"
    let ?m0 = "if js_eq ?ttl (Fin 0)
        then map_option (filter (\<lambda>(k, _). \<not> clears (ov_reason ov) k)) (ct_activeOverrides c)
        else Some (jm_set ?k \<lparr>oe_data = ov, oe_expiresAtMs = js_add n ?ttl\<rparr>
               (case ct_activeOverrides c of None \<Rightarrow> [] | Some m \<Rightarrow> m))"
    show "mergeOverrides n ?m0 = (m, e)"
      using Some me by (auto simp: handleOverride_map_def Let_def split: if_splits)
    have "e' \<in> set (map snd (jm_set k v es)) \<Longrightarrow> e' = v \<or> e' \<in> set (map snd es)"
      for k v e' and es :: override_map by (induction k v es rule: jm_set.induct) (auto split: if_splits)
    then show "overrides_ok ?m0" using ok cl by (fastforce simp: overrides_ok_def split: option.splits)
  qed
  show ?thesis
    using assms(1) mergeOverrides_ok [OF m0(2,1)] by (simp add: handleOverride_def Some me ctrl_inv_def)
qed (simp add: handleOverride_def assms)

lemma combined_clamp_ok:
  assumes "\<And>d. ov = Some d \<Longrightarrow> pred_option int_ok (ov_maxLevelClamp d)"
    "\<And>v. co = Some v \<Longrightarrow> pred_option int_ok (cv_maxLevelClamp v)"
  shows "pred_option int_ok (combined_clamp ov co)"
proof -
  have a: "pred_option int_ok (Option.bind ov ov_maxLevelClamp)" using assms(1) by (cases ov) auto
  have b: "pred_option int_ok (Option.bind co cv_maxLevelClamp)" using assms(2) by (cases co) auto
  show ?thesis
    using a b unfolding combined_clamp_def
    by (cases "Option.bind ov ov_maxLevelClamp"; cases "Option.bind co cv_maxLevelClamp")
       (auto simp: map_filter_simps intro: int_ok_min)
qed

lemma observe_frame:
  assumes "observe c ov r n = (c', s, q, t)"
  shows "\<exists>k ctx. c' = c\<lparr>ct_cpuSampleCount := k, ct_stateContext := ctx\<rparr>"
  using assms by (auto simp: observe_def Let_def split: prod.splits)

lemma observe_inv: "ctrl_inv c \<Longrightarrow> observe c ov r n = (c', s, q, t) \<Longrightarrow> ctrl_inv c'"
  using observe_frame [of c ov r n c' s q t] by (auto intro: ctrl_inv_cong)

lemma level_ok_clamp: "profile_wf p \<Longrightarrow> level_ok p l \<Longrightarrow> clampLevel l (resolveMaxLevel p) = l"
  by (auto simp: level_ok_def resolveMaxLevel_wf clampLevel_lvl min_absorb1)

lemma planActionsForLevel_level:
  assumes "profile_wf (pi_profile i)" "level_ok (pi_profile i) (pi_currentLevel i)"
    "level_ok (pi_profile i) l" "a \<in> set (planActionsForLevel i l)"
  shows "a_level a = l"
proof -
  obtain k t where k: "pi_currentLevel i = lvl k" "k \<le> max_level (pi_profile i)"
    and t: "l = lvl t" "t \<le> max_level (pi_profile i)" using assms(2,3) by (auto simp: level_ok_def)
  have "a \<in> set (stepToActions (pf_ladder (pi_profile i) ! t) (pi_source i) (lvl k) (pi_inAudioOnlyMode i))"
    using assms(4) planActionsForLevel_wf [OF assms(1) k(2,1) t(2)] t by simp
  from stepToActions_level [OF this] show ?thesis using profile_wfD(4) [OF assms(1) t(2)] t by simp
qed

lemma rollbackProbe_inv:
  assumes "ctrl_inv c" "rollbackProbe en s n sb (c, x) = (c', x', t)"
  shows "ctrl_inv c'" "ct_probeContext c' = ct_probeContext c" "ct_profile c' = ct_profile c"
proof -
  have "ctrl_inv c' \<and> ct_probeContext c' = ct_probeContext c \<and> ct_profile c' = ct_profile c"
  proof (cases "ct_probeContext c")
    case None
    then show ?thesis using assms by (simp add: rollbackProbe_def)
  next
    case (Some p)
    let ?i = "\<lparr>pi_source = pf_source (ct_profile c), pi_profile = ct_profile c,
       pi_state = Congested, pi_currentLevel = ct_currentLevel c,
       pi_overrideClampLevel = None, pi_inAudioOnlyMode = ct_inAudioOnlyMode c\<rparr>"
    let ?as = "planActionsForLevel ?i (pr_previousLevel p)"
    obtain c1 x1 t1 where r: "rollback_actions en s n sb p (c, x) ?as = (c1, x1, t1)"
      by (cases "rollback_actions en s n sb p (c, x) ?as")
    have lv: "profile_wf (ct_profile c)" "level_ok (ct_profile c) (ct_currentLevel c)"
      "level_ok (ct_profile c) (pr_previousLevel p)" using assms(1) Some by (simp_all add: ctrl_inv_def)
    have "a_level a = pr_previousLevel p" if "a \<in> set ?as" for a
      using planActionsForLevel_level [of ?i, OF _ _ _ that] lv by simp
    then have "ct_currentLevel c1 = ct_currentLevel c \<or> ct_currentLevel c1 = pr_previousLevel p"
      using rollback_actions_touched [OF r] by auto
    then have l1: "level_ok (ct_profile c) (ct_currentLevel c1)" using lv by auto
    have tc: "touched c c1" using rollback_actions_touched [OF r] by simp
    have i1: "ctrl_inv c1" by (rule ctrl_inv_touched [OF assms(1) tc l1])
    have "c' = c1 \<or> (\<exists>ctx. c' = c1\<lparr>ct_stateContext := ctx\<rparr>)"
      using assms(2) r by (auto simp: rollbackProbe_def Some Let_def split: option.splits)
    then show ?thesis using i1 touched_fields [OF tc] by (auto intro: ctrl_inv_cong)
  qed
  then show "ctrl_inv c'" "ct_probeContext c' = ct_probeContext c" "ct_profile c' = ct_profile c" by simp_all
qed

lemma evaluateProbe_levels:
  "evaluateProbe (Some p) s pf = (Some q, r) \<Longrightarrow>
     pr_previousLevel q = pr_previousLevel p \<and> pr_targetLevel q = pr_targetLevel p"
  by (auto simp: evaluateProbe_def Let_def split: if_splits)

lemma settle_probe_inv:
  assumes "ctrl_inv c" "settle_probe en s n sb (c, x) = (c', x', r)"
  shows "ctrl_inv c'" "ct_profile c' = ct_profile c"
proof -
  have "ctrl_inv c' \<and> ct_profile c' = ct_profile c"
  proof (cases "ct_probeContext c")
    case None
    then show ?thesis using assms by (simp add: settle_probe_def)
  next
    case (Some p)
    obtain pc res where e: "evaluateProbe (Some p) s (ct_profile c) = (pc, res)" by force
    have ppc: "level_ok (ct_profile c) (pr_previousLevel q)" if "pc = Some q" for q
      using evaluateProbe_levels [of p s "ct_profile c" q res] e that assms(1) Some
      by (simp add: ctrl_inv_def)
    show ?thesis
    proof (cases res)
      case Failed
      obtain c1 x1 t1 where rb: "rollbackProbe en s n sb (c, x) = (c1, x1, t1)"
        by (cases "rollbackProbe en s n sb (c, x)")
      note i1 = rollbackProbe_inv [OF assms(1) rb]
      have "c' = c1 \<or> (\<exists>a b g. c' = c1\<lparr>ct_probeContext := None, ct_recoveryProbeSuccessStreak := a,
          ct_recoveryProbeGraceUntilMs := b, ct_recoverySuppressedUntilMs := g\<rparr>)"
        using assms(2) rb by (auto simp: settle_probe_def Some e Failed split: option.splits)
      then show ?thesis using i1 by (auto simp: ctrl_inv_def)
    next
      case Successful
      then have "\<exists>a b. c' = c\<lparr>ct_recoveryProbeSuccessStreak := a, ct_recoveryProbeGraceUntilMs := b,
          ct_probeContext := None\<rparr>"
        using assms(2) by (auto simp: settle_probe_def Some e Let_def)
      then show ?thesis using assms(1) by (auto simp: ctrl_inv_def)
    next
      case Inconclusive
      then have "c' = c\<lparr>ct_probeContext := pc\<rparr>" using assms(2) by (simp add: settle_probe_def Some e)
      then show ?thesis using assms(1) ppc by (simp add: ctrl_inv_def)
    qed
  qed
  then show "ctrl_inv c'" "ct_profile c' = ct_profile c" by simp_all
qed

lemma planner_input_ok:
  assumes "ctrl_inv c" "pred_option int_ok clamp" "ct_currentLevel c = lvl k"
  obtains cl where "input_ok (planner_input_of c st clamp) k cl" "cl = None \<longleftrightarrow> clamp = None"
proof -
  obtain cl where cl: "clamp = map_option lvl cl"
    using assms(2) int_ok_lvl by (cases clamp) (auto intro: that [of None] that [of "Some _"])
  have "k \<le> max_level (ct_profile c)" using assms(1,3) by (auto simp: ctrl_inv_def level_ok_def)
  then have "input_ok (planner_input_of c st clamp) k cl"
    using assms cl by (simp add: input_ok_def planner_input_of_def ctrl_inv_def)
  with cl that show thesis by simp
qed

lemma plan_spec_step:
  assumes "input_ok i k None"
  shows "plan_spec i k None \<le> k + 1 \<and> k \<le> plan_spec i k None + 1"
  using assms target_spec_dir(1,2) [of k "max_level (pi_profile i)" "pi_state i"]
  by (simp add: plan_spec_def input_ok_def)

text \<open>The state the planner acts on: recovery that is disabled counts as an early warning.\<close>

definition effective_state :: "controller \<Rightarrow> bool \<Rightarrow> qos_state" where
  "effective_state c disableRecovery =
     (if sc_state (ct_stateContext c) = Recovering \<and> disableRecovery then EarlyWarning
      else sc_state (ct_stateContext c))"

lemma plan_sample_eq:
  "\<not> probe_active c \<Longrightarrow> plan_sample c clamp dr = planActions (planner_input_of c (effective_state c dr) clamp)"
  by (simp add: plan_sample_def Let_def planRecovery_def effective_state_def planner_input_of_def)

lemma plan_sample_level:
  assumes "ctrl_inv c" "pred_option int_ok clamp" "ct_currentLevel c = lvl k"
  shows "\<exists>t \<le> max_level (ct_profile c). (\<forall>a \<in> set (plan_sample c clamp dr). a_level a = lvl t)
    \<and> (clamp = None \<longrightarrow> t \<le> k + 1 \<and> k \<le> t + 1)"
proof (cases "probe_active c")
  case True
  have "k \<le> max_level (ct_profile c)" using assms(1,3) by (auto simp: ctrl_inv_def level_ok_def)
  with True assms(3) show ?thesis by (intro exI [of _ k]) (simp add: plan_sample_def Let_def)
next
  case False
  obtain st where st: "plan_sample c clamp dr = planActions (planner_input_of c st clamp)"
    using plan_sample_eq [OF False] by blast
  obtain cl where i: "input_ok (planner_input_of c st clamp) k cl" "cl = None \<longleftrightarrow> clamp = None"
    by (rule planner_input_ok [OF assms])
  have p: "pi_profile (planner_input_of c st clamp) = ct_profile c" by (simp add: planner_input_of_def)
  show ?thesis
    using planActions_level [OF i(1)] plan_spec_le [OF i(1)] plan_spec_step [of "planner_input_of c st clamp" k]
      i unfolding st p by (intro exI [of _ "plan_spec (planner_input_of c st clamp) k cl"]) auto
qed

lemma reset_streak_frame: "reset_streak c = c \<or> (\<exists>a. reset_streak c = c\<lparr>ct_recoveryProbeSuccessStreak := a\<rparr>)"
  by (auto simp: reset_streak_def)

lemma reset_streak_fields [simp]:
  "ct_profile (reset_streak c) = ct_profile c" "ct_currentLevel (reset_streak c) = ct_currentLevel c"
  "ct_previousSignals (reset_streak c) = ct_previousSignals c"
  "ct_stateContext (reset_streak c) = ct_stateContext c" "ct_probeContext (reset_streak c) = ct_probeContext c"
  by (simp_all add: reset_streak_def)

lemma reset_streak_inv: "ctrl_inv c \<Longrightarrow> ctrl_inv (reset_streak c)"
  using reset_streak_frame [of c] by (auto intro: ctrl_inv_cong)

lemma executeActions_inv:
  assumes "ctrl_inv c" "executeActions en s n sb sa (c, x) as = (c', x')"
    and "\<And>a. a \<in> set as \<Longrightarrow> level_ok (ct_profile c) (a_level a)"
  shows "ctrl_inv c' \<and> ct_profile c' = ct_profile c \<and> ct_previousSignals c' = ct_previousSignals c
    \<and> ct_currentLevel c' \<in> insert (ct_currentLevel c) (a_level ` set as)"
proof -
  have lc: "level_ok (ct_profile c) (ct_currentLevel c)" using assms(1) by (simp add: ctrl_inv_def)
  obtain c1 where c1: "touched c c1" "ct_currentLevel c1 \<in> insert (ct_currentLevel c) (a_level ` set as)"
    "c' = c1 \<or> (\<exists>k b b'. c' = c1\<lparr>ct_probeContext := Some (beginProbe (ct_currentLevel c) (ct_currentLevel c1)
        n b b' (Some k) None)\<rparr>)"
    by (rule executeActions_eq [OF assms(2)])
  have "level_ok (ct_profile c) (ct_currentLevel c1)" using c1(2) lc assms(3) by auto
  from ctrl_inv_touched [OF assms(1) c1(1) this] c1 lc touched_fields [OF c1(1)] show ?thesis
    by (auto simp: ctrl_inv_def beginProbe_def)
qed

lemma next_seq_ok:
  assumes "seq_ok n"
  shows "seq_ok (next_seq n)"
proof -
  obtain k where k: "n = lvl k" "k \<le> 9007199254740991" using assms by (auto simp: seq_ok_def)
  show ?thesis
  proof (cases "k = 9007199254740991")
    case True
    then show ?thesis by (auto simp: k QOS_MAX_SEQ_def seq_ok_def next_seq_def intro: exI [of _ 0])
  next
    case False
    with k have "k < 9007199254740991" by simp
    then have s: "js_add n (Fin 1) = lvl (k + 1)" and g: "\<not> js_ge n QOS_MAX_SEQ"
      using k js_add_lvl_1 [of k] by (simp_all add: QOS_MAX_SEQ_def)
    have "seq_ok (lvl (k + 1))" unfolding seq_ok_def using \<open>k < _\<close> by (intro exI [of _ "k + 1"] conjI refl) simp
    then show ?thesis unfolding next_seq_def s using g by (simp only: if_False)
  qed
qed

lemma publishSnapshot_frame:
  assumes "publishSnapshot en (c, x) raw s q n = (c', x')"
  shows "c' = c \<or> (\<exists>e. c' = c\<lparr>ct_seq := next_seq (ct_seq c), ct_lastSampleError := e\<rparr>)
    \<or> c' = c\<lparr>ct_seq := next_seq (ct_seq c)\<rparr>"
  using assms by (auto simp: publishSnapshot_def Let_def split: option.splits prod.splits)

lemma publishSnapshot_inv:
  assumes "ctrl_inv c" "publishSnapshot en (c, x) raw s q n = (c', x')"
  shows "ctrl_inv c'" "ct_profile c' = ct_profile c" "ct_currentLevel c' = ct_currentLevel c"
proof -
  have "seq_ok (next_seq (ct_seq c))" using assms(1) next_seq_ok by (simp add: ctrl_inv_def)
  then show "ctrl_inv c'" "ct_profile c' = ct_profile c" "ct_currentLevel c' = ct_currentLevel c"
    using publishSnapshot_frame [OF assms(2)] assms(1) by (auto simp: ctrl_inv_def)
qed

text \<open>A sample either ends with its probe or goes through planning, execution and publication.\<close>

lemma processSample_cases:
  assumes "processSample en n (c, x) raw = (c', x', t)"
  obtains (settled) c1 ov c2 s q tr c3 x3 where "getActiveOverride c n = (c1, ov)"
      "observe c1 ov raw n = (c2, s, q, tr)"
      "settle_probe en s n (sc_state (ct_stateContext c)) (c2, x) = (c3, x3, Some t)"
      "c' = c3" "x' = x3"
    | (planned) c1 ov c2 s q tr c3 x3 c5 x5 c6 where "getActiveOverride c n = (c1, ov)"
      "observe c1 ov raw n = (c2, s, q, tr)"
      "settle_probe en s n (sc_state (ct_stateContext c)) (c2, x) = (c3, x3, None)"
      "executeActions en s n (sc_state (ct_stateContext c)) (sc_state (ct_stateContext c3))
         (reset_streak c3, x3)
         (filterActions (reset_streak c3) (plan_sample (reset_streak c3)
            (combined_clamp ov (ct_coordinationOverride c1)) (recovery_disabled c1 ov n)) ov) = (c5, x5)"
      "(\<not> should_publish c5 tr n \<and> c6 = c5 \<and> x' = x5)
       \<or> (should_publish c5 tr n \<and> (\<exists>c0. publishSnapshot en (c5, x5) raw s q n = (c0, x')
            \<and> c6 = c0\<lparr>ct_lastPublishedAtMs := Some n\<rparr>))"
      "c' = c6\<lparr>ct_previousSnapshot := Some raw, ct_previousSignals := Some s\<rparr>" "t = None"
proof -
  obtain c1 ov where 1: "getActiveOverride c n = (c1, ov)" by force
  obtain c2 s q tr where 2: "observe c1 ov raw n = (c2, s, q, tr)" by (cases "observe c1 ov raw n")
  obtain c3 x3 r where 3: "settle_probe en s n (sc_state (ct_stateContext c)) (c2, x) = (c3, x3, r)"
    by (cases "settle_probe en s n (sc_state (ct_stateContext c)) (c2, x)")
  show thesis
  proof (cases r)
    case (Some t')
    then show thesis using assms 1 2 3 by (intro settled [OF 1 2]) (auto simp: processSample_def Let_def)
  next
    case None
    obtain c5 x5 where 5: "executeActions en s n (sc_state (ct_stateContext c)) (sc_state (ct_stateContext c3))
         (reset_streak c3, x3)
         (filterActions (reset_streak c3) (plan_sample (reset_streak c3)
            (combined_clamp ov (ct_coordinationOverride c1)) (recovery_disabled c1 ov n)) ov) = (c5, x5)"
      by force
    note red = assms [unfolded processSample_def Let_def fst_conv snd_conv 1 2 3 None prod.case option.case
        reset_streak_fields 5]
    show thesis
    proof (cases "should_publish c5 tr n")
      case True
      obtain c0 x0 where p: "publishSnapshot en (c5, x5) raw s q n = (c0, x0)" by force
      show thesis
        using red True p by (intro planned [OF 1 2 3 [unfolded None] 5]) auto
    next
      case False
      show thesis using red False by (intro planned [OF 1 2 3 [unfolded None] 5]) auto
    qed
  qed
qed

lemma planned_actions:
  assumes "ctrl_inv c" "getActiveOverride c n = (c1, ov)" "observe c1 ov raw n = (c2, s, q, tr)"
    and "settle_probe en s n sb (c2, x) = (c3, x3, None)"
    and "executeActions en s n sb sa (reset_streak c3, x3)
         (filterActions (reset_streak c3) (plan_sample (reset_streak c3)
            (combined_clamp ov (ct_coordinationOverride c1)) (recovery_disabled c1 ov n)) ov) = (c5, x5)"
  shows "ctrl_inv c5 \<and> ct_profile c5 = ct_profile c
    \<and> (\<exists>k k'. ct_currentLevel c3 = lvl k \<and> ct_currentLevel c5 = lvl k'
         \<and> (combined_clamp ov (ct_coordinationOverride c1) = None \<longrightarrow> k' \<le> k + 1 \<and> k \<le> k' + 1))"
proof -
  note g = getActiveOverride_inv [OF assms(1,2)]
  note i3 = settle_probe_inv [OF observe_inv [OF g(1) assms(3)] assms(4)]
  have p: "ct_profile c3 = ct_profile c" using i3(2) g(3) observe_frame [OF assms(3)] by auto
  let ?c4 = "reset_streak c3"
  let ?clamp = "combined_clamp ov (ct_coordinationOverride c1)"
  let ?as = "filterActions ?c4 (plan_sample ?c4 ?clamp (recovery_disabled c1 ov n)) ov"
  have i4: "ctrl_inv ?c4" by (rule reset_streak_inv [OF i3(1)])
  have "pred_option int_ok ?clamp" using g by (intro combined_clamp_ok) (auto simp: ctrl_inv_def)
  moreover obtain k where k: "ct_currentLevel ?c4 = lvl k" "k \<le> max_level (ct_profile ?c4)"
    using i4 by (auto simp: ctrl_inv_def level_ok_def)
  ultimately obtain m where m: "m \<le> max_level (ct_profile ?c4)"
    "\<forall>a \<in> set (plan_sample ?c4 ?clamp (recovery_disabled c1 ov n)). a_level a = lvl m"
    "?clamp = None \<longrightarrow> m \<le> k + 1 \<and> k \<le> m + 1"
    using plan_sample_level [OF i4] by blast
  have lv: "a_level a = lvl k \<or> a_level a = lvl m" if "a \<in> set ?as" for a
    using filterActions_level [OF that] k m by auto
  then have "level_ok (ct_profile ?c4) (a_level a)" if "a \<in> set ?as" for a
    using that k(2) m(1) by (auto simp: level_ok_def)
  note e = executeActions_inv [OF i4 assms(5) this]
  then have "ct_currentLevel c5 = lvl k \<or> (\<exists>a \<in> set ?as. ct_currentLevel c5 = a_level a)" using k by auto
  with lv have "ct_currentLevel c5 = lvl k \<or> ct_currentLevel c5 = lvl m" by metis
  then show ?thesis using e p k(1) m(3) by auto
qed

lemma processSample_inv:
  assumes "ctrl_inv c" "processSample en n (c, x) raw = (c', x', t)"
  shows "ctrl_inv c' \<and> ct_profile c' = ct_profile c"
  using assms(2)
proof (cases rule: processSample_cases)
  case (settled c1 ov c2 s q tr c3 x3)
  note g = getActiveOverride_inv [OF assms(1) settled(1)]
  note o = observe_inv [OF g(1) settled(2)]
  have "ct_profile c2 = ct_profile c" using g(3) observe_frame [OF settled(2)] by auto
  with settle_probe_inv [OF o settled(3)] show ?thesis by (simp add: settled)
next
  case (planned c1 ov c2 s q tr c3 x3 c5 x5 c6)
  have i5: "ctrl_inv c5" and p5: "ct_profile c5 = ct_profile c"
    using planned_actions [OF assms(1) planned(1-4)] by simp_all
  have "ctrl_inv c6 \<and> ct_profile c6 = ct_profile c5"
  proof (cases "should_publish c5 tr n")
    case True
    then obtain c0 where c0: "publishSnapshot en (c5, x5) raw s q n = (c0, x')"
      "c6 = c0\<lparr>ct_lastPublishedAtMs := Some n\<rparr>" using planned(5) by blast
    note pub = publishSnapshot_inv [OF i5 c0(1)]
    have "ctrl_inv c6" unfolding c0(2) by (rule ctrl_inv_cong [OF pub(1)]) simp_all
    then show ?thesis using pub(2) c0(2) by simp
  next
    case False
    then show ?thesis using planned(5) i5 by simp
  qed
  then have "ctrl_inv c'" "ct_profile c' = ct_profile c"
    unfolding planned(6) using p5 by (auto intro: ctrl_inv_cong)
  then show ?thesis by simp
qed

section \<open>Policies and coordination\<close>

lemma builtin_max_level: "map_of (PROFILE_REGISTRY s) name = Some p \<Longrightarrow> max_level p = 4"
  by (cases s) (auto simp: PROFILE_REGISTRY_def max_level_def DEFAULT_CAMERA_PROFILE_def
      DEFAULT_SCREENSHARE_PROFILE_def DEFAULT_AUDIO_PROFILE_def CONSERVATIVE_CAMERA_PROFILE_def Let_def
      split: if_splits)

lemma resolved_ok:
  "resolveProfileByName s name = Inr (Some p) \<Longrightarrow> profile_wf p \<and> max_level p = 4"
  using registry_profile_wf [of s name p] builtin_max_level [of s name p]
  by (auto simp: resolveProfileByName_def split: option.splits if_splits)

lemma ctrl_inv_profile:
  assumes "ctrl_inv c" "profile_wf p" "max_level p = 4"
  shows "ctrl_inv (c\<lparr>ct_profile := p\<rparr>)"
  using assms by (auto simp: ctrl_inv_def level_ok_def)

lemma handlePolicy_inv:
  assumes "ctrl_inv c" "handlePolicy ops (k, c) p = (k', c', e)"
  shows "ctrl_inv c'"
proof -
  let ?c1 = "c\<lparr>ct_sampleIntervalMs := po_sampleIntervalMs p, ct_snapshotIntervalMs := po_snapshotIntervalMs p,
     ct_allowAudioOnly := po_allowAudioOnly p, ct_allowVideoPause := po_allowVideoPause p\<rparr>"
  have i1: "ctrl_inv ?c1" by (rule ctrl_inv_cong [OF assms(1)]) simp_all
  have i2: "ctrl_inv (?c1\<lparr>ct_sampler := s\<rparr>)" for s by (rule ctrl_inv_cong [OF i1]) simp_all
  show ?thesis
    using assms(2) i1 i2 resolved_ok ctrl_inv_profile [OF i2]
    unfolding handlePolicy_def Let_def
    by (auto split: sum.splits prod.splits if_splits option.splits)
qed

lemma setCoordinationOverride_inv:
  assumes "ctrl_inv c" "\<And>q l. r = Some q \<Longrightarrow> cq_maxLevelClamp q = Some l \<Longrightarrow> is_finite l"
  shows "ctrl_inv (setCoordinationOverride c r)"
proof -
  have "int_ok (js_max (Fin 0) (js_floor l))" if "is_finite l" for l
    using that by (cases l) (auto simp: int_ok_def num_ok_def js_max_def)
  then show ?thesis
    using assms by (auto simp: setCoordinationOverride_def Let_def ctrl_inv_def option.pred_map
        option.pred_set split: option.splits)
qed

lemma sampler_control_inv:
  "ctrl_inv c \<Longrightarrow> ct_start ops (k, c) = (k', c') \<Longrightarrow> ctrl_inv c'"
  "ctrl_inv c \<Longrightarrow> ct_stop ops (k, c) = (k', c') \<Longrightarrow> ctrl_inv c'"
  by (auto simp: ct_start_def ct_stop_def intro: ctrl_inv_cong split: if_splits prod.splits)

section \<open>What a sample publishes\<close>

definition raw_ok :: "raw_snapshot \<Rightarrow> bool" where
  "raw_ok r \<longleftrightarrow> stamp_ok (rs_timestampMs r) \<and> bytes_ok (rs_bytesSent r)
     \<and> pred_option int_ok (rs_frameWidth r) \<and> pred_option int_ok (rs_frameHeight r)
     \<and> pred_option num_ok (rs_framesPerSecond r)"

definition history_ok :: "controller \<Rightarrow> bool" where
  "history_ok c \<longleftrightarrow> (\<forall>s. ct_previousSignals c = Some s \<longrightarrow> signals_ok s)
     \<and> (\<forall>r. ct_previousSnapshot c = Some r \<longrightarrow> raw_ok r)"

definition publishable :: "signals \<Rightarrow> bool" where
  "publishable s \<longleftrightarrow> num_ok (sg_sendBitrateBps s) \<and> num_ok (sg_targetBitrateBps s)
     \<and> num_ok (sg_lossRate s) \<and> num_ok (sg_rttMs s) \<and> num_ok (sg_jitterMs s)"

lemma num_ok_nonneg: "nonneg_num x \<Longrightarrow> is_finite x \<Longrightarrow> num_ok x"
  by (cases x) (auto simp: nonneg_num_def num_ok_def)

lemma js_max0_finite: "is_finite x \<Longrightarrow> is_finite (js_max (Fin 0) x)"
  by (cases x) (simp_all add: js_max_def)

lemma asFinite_finite: "is_finite (asFiniteOrZero v)" "asFiniteOrUndefined v = Some x \<Longrightarrow> is_finite x"
  by (auto simp: asFiniteOrZero_def asFiniteOrUndefined_def split: option.splits if_splits)

lemma derived_finite:
  assumes "raw_ok r" "\<And>p. prev = Some p \<Longrightarrow> raw_ok p"
  shows "is_finite (sg_sendBitrateBps (deriveSignals r prev ps alpha ctx))"
    "is_finite (sg_targetBitrateBps (deriveSignals r prev ps alpha ctx))"
    "is_finite (sg_rttMs (deriveSignals r prev ps alpha ctx))"
    "is_finite (sg_jitterMs (deriveSignals r prev ps alpha ctx))"
proof -
  have "asFiniteOrZero (Some (rs_timestampMs r)) = rs_timestampMs r"
    using assms(1) by (auto simp: raw_ok_def stamp_ok_def asFiniteOrZero_def)
  moreover have "bytes_ok (Option.bind prev rs_bytesSent)"
    using assms(2) by (cases prev) (auto simp: raw_ok_def bytes_ok_def)
  moreover have "map_option rs_timestampMs prev = Some p \<Longrightarrow> stamp_ok p" for p
    using assms(2) by (auto simp: raw_ok_def)
  ultimately have "is_finite (computeBitrateBps (rs_bytesSent r) (Option.bind prev rs_bytesSent)
      (asFiniteOrZero (Some (rs_timestampMs r))) (map_option rs_timestampMs prev))"
    using assms(1) by (intro computeBitrateBps_finite) (simp_all add: raw_ok_def)
  then show "is_finite (sg_sendBitrateBps (deriveSignals r prev ps alpha ctx))"
    by (simp add: deriveSignals_def Let_def)
  show "is_finite (sg_targetBitrateBps (deriveSignals r prev ps alpha ctx))"
    "is_finite (sg_rttMs (deriveSignals r prev ps alpha ctx))"
    "is_finite (sg_jitterMs (deriveSignals r prev ps alpha ctx))"
    by (simp_all add: deriveSignals_def Let_def js_max0_finite asFinite_finite split: option.split)
qed

lemma derived_publishable:
  assumes "raw_ok r" "\<And>p. prev = Some p \<Longrightarrow> raw_ok p" "signals_ok (deriveSignals r prev ps alpha ctx)"
  shows "publishable (deriveSignals r prev ps alpha ctx)"
proof -
  have "unit_num x \<Longrightarrow> num_ok x" for x by (cases x) (auto simp: unit_num_def num_ok_def)
  then show ?thesis
    using derived_finite [OF assms(1,2), of _ ps alpha ctx] assms(3) num_ok_nonneg
    by (simp add: publishable_def signals_ok_def)
qed

lemma seq_ok_valid: "seq_ok n \<Longrightarrow> int_ok n \<and> \<not> js_gt n QOS_MAX_SEQ"
  by (auto simp: seq_ok_def int_ok_lvl QOS_MAX_SEQ_def)

lemma payload_valid:
  assumes "ctrl_inv c" "publishable s" "raw_ok raw" "num_ok n"
  shows "snapshot_valid (snapshot_payload c raw s q n)"
proof -
  have "int_ok (ct_currentLevel c)" using assms(1) by (auto simp: ctrl_inv_def level_ok_def int_ok_lvl)
  moreover have "int_ok (ct_seq c) \<and> \<not> js_gt (ct_seq c) QOS_MAX_SEQ"
    using assms(1) seq_ok_valid by (simp add: ctrl_inv_def)
  ultimately show ?thesis
    using assms by (simp add: snapshot_valid_def snapshot_payload_def track_valid_def signals_valid_def
        publishable_def raw_ok_def ctrl_inv_def QOS_MAX_TRACKS_PER_SNAPSHOT_def)
qed

text \<open>The environment with a log of what is published, before the channel is asked.\<close>

definition log_env :: "'x env \<Rightarrow> ('x \<times> client_snapshot list) env" where
  "log_env en = \<lparr>
     en_execute = (\<lambda>(x, l) a. case en_execute en x a of (x', r) \<Rightarrow> ((x', l), r)),
     en_publish = map_option (\<lambda>p (x, l) s. case p x s of (x', t) \<Rightarrow> ((x', l @ [s]), t)) (en_publish en)\<rparr>"

lemma execute_one_log:
  "execute_one (log_env en) s n sb sa (c, (x, l)) a = (c', x') \<Longrightarrow> snd x' = l"
  by (auto simp: execute_one_def attempt_action_def log_env_def Let_def split: if_splits prod.splits sum.splits)

lemma execute_all_log:
  "foldl (execute_one (log_env en) s n sb sa) (c, (x, l)) as = (c', x') \<Longrightarrow> snd x' = l"
proof (induction as arbitrary: c x)
  case (Cons a as)
  obtain c1 x1 l1 where e: "execute_one (log_env en) s n sb sa (c, (x, l)) a = (c1, (x1, l1))"
    by (cases "execute_one (log_env en) s n sb sa (c, (x, l)) a") auto
  with execute_one_log [OF e] Cons show ?case by simp
qed auto

lemma executeActions_log:
  assumes "executeActions (log_env en) s n sb sa (c, (x, l)) as = (c', x')"
  shows "snd x' = l"
proof -
  obtain c1 x1 where f: "foldl (execute_one (log_env en) s n sb sa) (c, (x, l)) as = (c1, x1)"
    by (cases "foldl (execute_one (log_env en) s n sb sa) (c, (x, l)) as")
  then have "x' = x1"
    using assms unfolding executeActions_def Let_def fst_conv f prod.case by (auto split: if_splits)
  with execute_all_log [OF f] show ?thesis by simp
qed

lemma rollback_actions_log:
  "rollback_actions (log_env en) s n sb p (c, (x, l)) as = (c', x', t) \<Longrightarrow> snd x' = l"
  by (induction as arbitrary: c x)
     (auto simp: log_env_def Let_def split: prod.splits sum.splits)

lemma settle_probe_log:
  assumes "settle_probe (log_env en) s n sb (c, (x, l)) = (c', x', r)"
  shows "snd x' = l"
proof -
  have rb: "snd x' = l" if "rollbackProbe (log_env en) s n sb (c, (x, l)) = (c', x', t)" for c' x' t
    using that rollback_actions_log
    by (auto simp: rollbackProbe_def Let_def split: option.splits prod.splits)
  show ?thesis
    using assms rb by (auto simp: settle_probe_def Let_def split: option.splits prod.splits probe_result.splits)
qed

lemma observe_signals:
  assumes "observe c ov r n = (c', s, q, t)"
  shows "\<exists>ctx. s = deriveSignals r (ct_previousSnapshot c) (ct_previousSignals c) None ctx"
  using assms by (auto simp: observe_def Let_def split: prod.splits)

lemma derived_ok:
  assumes "history_ok c" "raw_ok r"
  shows "signals_ok (deriveSignals r (ct_previousSnapshot c) (ct_previousSignals c) None ctx)"
    "publishable (deriveSignals r (ct_previousSnapshot c) (ct_previousSignals c) None ctx)"
proof -
  have prev: "\<And>p. ct_previousSnapshot c = Some p \<Longrightarrow> raw_ok p" using assms(1) by (simp add: history_ok_def)
  show ok: "signals_ok (deriveSignals r (ct_previousSnapshot c) (ct_previousSignals c) None ctx)"
    by (rule derived_signals_ok)
       (use assms prev stamp_ok_ts in \<open>auto simp: history_ok_def raw_ok_def alpha_ok_def\<close>)
  show "publishable (deriveSignals r (ct_previousSnapshot c) (ct_previousSignals c) None ctx)"
    by (rule derived_publishable [OF assms(2) prev ok])
qed

definition published_ok :: "controller \<times> 'x \<times> client_snapshot list \<Rightarrow> bool" where
  "published_ok st \<longleftrightarrow> (case st of (c, x, l) \<Rightarrow>
     ctrl_inv c \<and> history_ok c \<and> (\<forall>s \<in> set l. snapshot_valid s))"

lemma publishSnapshot_log:
  assumes "publishSnapshot (log_env en) (c, (x, l)) raw s q n = (c', x')"
  shows "snd x' = l \<or> snd x' = l @ [snapshot_payload (c\<lparr>ct_seq := next_seq (ct_seq c)\<rparr>) raw s q n]"
  using assms by (auto simp: publishSnapshot_def log_env_def Let_def split: option.splits prod.splits)

lemma history_frames:
  "touched c c' \<Longrightarrow> ct_previousSnapshot c' = ct_previousSnapshot c \<and> ct_previousSignals c' = ct_previousSignals c"
  using touched_fields(6,7) by blast

lemma settle_probe_history:
  assumes "settle_probe en s n sb (c, x) = (c', x', r)"
  shows "ct_previousSnapshot c' = ct_previousSnapshot c \<and> ct_previousSignals c' = ct_previousSignals c"
proof -
  have rb: "ct_previousSnapshot c' = ct_previousSnapshot c \<and> ct_previousSignals c' = ct_previousSignals c"
    if "rollbackProbe en s n sb (c, x) = (c', x', t)" for c' x' t
    using that history_frames [OF conjunct1 [OF rollback_actions_touched]]
    by (fastforce simp: rollbackProbe_def Let_def split: option.splits prod.splits)
  show ?thesis
    using assms rb unfolding settle_probe_def Let_def prod.case
    by (fastforce split: option.splits prod.splits probe_result.splits)
qed

lemma executeActions_history:
  assumes "executeActions en s n sb sa (c, x) as = (c', x')"
  shows "ct_previousSnapshot c' = ct_previousSnapshot c \<and> ct_previousSignals c' = ct_previousSignals c"
proof -
  obtain c1 where "touched c c1" "c' = c1 \<or> (\<exists>k b b'. c' = c1\<lparr>ct_probeContext := Some (beginProbe
      (ct_currentLevel c) (ct_currentLevel c1) n b b' (Some k) None)\<rparr>)"
    by (rule executeActions_eq [OF assms])
  with history_frames show ?thesis by fastforce
qed

lemma processSample_published:
  assumes "published_ok (c, x, l)" "raw_ok raw" "num_ok n"
    and "processSample (log_env en) n (c, (x, l)) raw = (c', (x', l'), t)"
  shows "published_ok (c', x', l')"
proof -
  have inv: "ctrl_inv c" and h: "history_ok c" and lv: "\<forall>s \<in> set l. snapshot_valid s"
    using assms(1) by (simp_all add: published_ok_def)
  have inv': "ctrl_inv c'" using processSample_inv [OF inv assms(4)] by simp
  show ?thesis
    using assms(4)
  proof (cases rule: processSample_cases)
    case (settled c1 ov c2 s q tr c3 x3)
    have "ct_previousSnapshot c' = ct_previousSnapshot c" "ct_previousSignals c' = ct_previousSignals c"
      using getActiveOverride_inv(3) [OF inv settled(1)] observe_frame [OF settled(2)]
        settle_probe_history [OF settled(3)] by (auto simp: settled(4))
    then show ?thesis using inv' h lv settle_probe_log [OF settled(3)] settled(5)
      by (auto simp: published_ok_def history_ok_def)
  next
    case (planned c1 ov c2 s q tr c3 x3 c5 x5 c6)
    note g = getActiveOverride_inv [OF inv planned(1)]
    have h1: "ct_previousSnapshot c1 = ct_previousSnapshot c" "ct_previousSignals c1 = ct_previousSignals c"
      using g(3) by auto
    obtain ctx where s: "s = deriveSignals raw (ct_previousSnapshot c) (ct_previousSignals c) None ctx"
      using observe_signals [OF planned(2)] h1 by auto
    note ok = derived_ok [OF h assms(2), of ctx, folded s]
    have hist: "history_ok c'" using assms(2) ok(1) by (simp add: planned(6) history_ok_def)
    obtain y3 where x3: "x3 = (y3, l)" using settle_probe_log [OF planned(3)] by (cases x3) auto
    have l5: "snd x5 = l" by (rule executeActions_log [OF planned(4) [unfolded x3]])
    have inv5: "ctrl_inv c5" using planned_actions [OF inv planned(1-4)] by simp
    have "\<forall>s \<in> set l'. snapshot_valid s"
    proof (cases "should_publish c5 tr n")
      case True
      then obtain c0 where c0: "publishSnapshot (log_env en) (c5, (fst x5, l)) raw s q n = (c0, (x', l'))"
        using planned(5) l5 by (cases x5) auto
      have "ctrl_inv (c5\<lparr>ct_seq := next_seq (ct_seq c5)\<rparr>)"
        using inv5 next_seq_ok by (simp add: ctrl_inv_def)
      from publishSnapshot_log [OF c0] payload_valid [OF this ok(2) assms(2,3)] lv show ?thesis by auto
    next
      case False
      then show ?thesis using planned(5) l5 lv by auto
    qed
    with inv' hist show ?thesis by (simp add: published_ok_def)
  qed
qed

section \<open>Runs\<close>

text \<open>What happens to a controller: samples at their times, override and policy messages as the
  signal channel hands them over (a payload the protocol refuses is dropped, an error of the handler
  is swallowed), coordination requests of the peer session, and starts and stops.\<close>

datatype ctrl_event =
    Sample number raw_snapshot
  | OverrideMessage number jsval
  | PolicyMessage jsval
  | Coordinate "coordination_request option"
  | StartSampling
  | StopSampling

type_synonym ('k, 'x) ctrl_state = "'k \<times> controller \<times> 'x \<times> client_snapshot list"

fun ctrl_step ::
    "'x env \<Rightarrow> ('k, unit \<times> unit option) clock_ops \<Rightarrow> ('k, 'x) ctrl_state \<Rightarrow> ctrl_event
     \<Rightarrow> ('k, 'x) ctrl_state" where
  "ctrl_step en ops (k, c, x, l) (Sample n raw) =
     (case processSample (log_env en) n (c, (x, l)) raw of
        (c', xl, None) \<Rightarrow> (k, c', xl)
      | (c', xl, Some t) \<Rightarrow> (k, c'\<lparr>ct_lastSampleError := Some (toError t)\<rparr>, xl))"
| "ctrl_step en ops (k, c, x, l) (OverrideMessage n v) =
     (case parseQosOverride v of Inl _ \<Rightarrow> (k, c, x, l) | Inr ov \<Rightarrow> (k, handleOverride c n ov, x, l))"
| "ctrl_step en ops (k, c, x, l) (PolicyMessage v) =
     (case parseQosPolicy v of
        Inl _ \<Rightarrow> (k, c, x, l)
      | Inr p \<Rightarrow> (case handlePolicy ops (k, c) p of (k', c', _) \<Rightarrow> (k', c', x, l)))"
| "ctrl_step en ops (k, c, x, l) (Coordinate r) = (k, setCoordinationOverride c r, x, l)"
| "ctrl_step en ops (k, c, x, l) StartSampling = (case ct_start ops (k, c) of (k', c') \<Rightarrow> (k', c', x, l))"
| "ctrl_step en ops (k, c, x, l) StopSampling = (case ct_stop ops (k, c) of (k', c') \<Rightarrow> (k', c', x, l))"

fun event_ok :: "ctrl_event \<Rightarrow> bool" where
  "event_ok (Sample n raw) \<longleftrightarrow> num_ok n \<and> raw_ok raw"
| "event_ok (Coordinate r) \<longleftrightarrow> (\<forall>q l. r = Some q \<and> cq_maxLevelClamp q = Some l \<longrightarrow> is_finite l)"
| "event_ok _ \<longleftrightarrow> True"

definition run_ok :: "('k, 'x) ctrl_state \<Rightarrow> bool" where
  "run_ok st \<longleftrightarrow> published_ok (snd st)"

lemma history_ok_cong:
  "history_ok c \<Longrightarrow> ct_previousSnapshot c' = ct_previousSnapshot c \<Longrightarrow>
     ct_previousSignals c' = ct_previousSignals c \<Longrightarrow> history_ok c'"
  by (simp add: history_ok_def)

lemma handlePolicy_history:
  assumes "handlePolicy ops (k, c) p = (k', c', e)"
  shows "ct_previousSnapshot c' = ct_previousSnapshot c \<and> ct_previousSignals c' = ct_previousSignals c"
  using assms unfolding handlePolicy_def Let_def
  by (auto split: sum.splits prod.splits if_splits option.splits)

lemma control_history:
  "handleOverride c n ov = c' \<Longrightarrow> ct_previousSnapshot c' = ct_previousSnapshot c \<and> ct_previousSignals c' = ct_previousSignals c"
  "setCoordinationOverride c r = c' \<Longrightarrow> ct_previousSnapshot c' = ct_previousSnapshot c \<and> ct_previousSignals c' = ct_previousSignals c"
  "ct_start ops (k, c) = (k', c') \<Longrightarrow> ct_previousSnapshot c' = ct_previousSnapshot c \<and> ct_previousSignals c' = ct_previousSignals c"
  "ct_stop ops (k, c) = (k', c') \<Longrightarrow> ct_previousSnapshot c' = ct_previousSnapshot c \<and> ct_previousSignals c' = ct_previousSignals c"
  by (auto simp: handleOverride_def setCoordinationOverride_def ct_start_def ct_stop_def Let_def
      split: option.splits prod.splits if_splits)

lemma published_ok_control:
  assumes "published_ok (c, x, l)" "ctrl_inv c'"
    "ct_previousSnapshot c' = ct_previousSnapshot c \<and> ct_previousSignals c' = ct_previousSignals c"
  shows "published_ok (c', x, l)"
  using assms history_ok_cong [of c c'] by (simp add: published_ok_def)

lemma ctrl_step_ok:
  assumes "run_ok st" "event_ok e"
  shows "run_ok (ctrl_step en ops st e)"
proof -
  obtain k c x l where st: "st = (k, c, x, l)" by (cases st) auto
  have p: "published_ok (c, x, l)" and inv: "ctrl_inv c"
    using assms(1) by (simp_all add: st run_ok_def published_ok_def)
  show ?thesis
  proof (cases e)
    case (Sample n raw)
    obtain c' x' l' t where r: "processSample (log_env en) n (c, (x, l)) raw = (c', (x', l'), t)"
      by (cases "processSample (log_env en) n (c, (x, l)) raw") auto
    have ok: "published_ok (c', x', l')"
      using processSample_published [OF p _ _ r] assms(2) by (simp add: Sample)
    have "published_ok (c'\<lparr>ct_lastSampleError := e'\<rparr>, x', l')" for e'
      by (rule published_ok_control [OF ok]) (use ok in \<open>simp_all add: published_ok_def ctrl_inv_def\<close>)
    with ok show ?thesis by (simp add: st Sample r run_ok_def split: option.split)
  next
    case (OverrideMessage n v)
    have "published_ok (handleOverride c n ov, x, l)" if "parseQosOverride v = Inr ov" for ov
      using handleOverride_inv [OF inv override_codec.decode_valid [OF that]] p control_history(1)
      by (intro published_ok_control [OF p]) auto
    with p show ?thesis by (auto simp: st OverrideMessage run_ok_def split: sum.split)
  next
    case (PolicyMessage v)
    have "published_ok (c', x, l)" if "handlePolicy ops (k, c) q = (k', c', e')" for q k' c' e'
      using handlePolicy_inv [OF inv that] handlePolicy_history [OF that]
      by (intro published_ok_control [OF p]) auto
    with p show ?thesis by (auto simp: st PolicyMessage run_ok_def split: sum.split prod.split)
  next
    case (Coordinate r)
    have "published_ok (setCoordinationOverride c r, x, l)"
      using setCoordinationOverride_inv [OF inv, of r] assms(2) control_history(2)
      by (intro published_ok_control [OF p]) (auto simp: Coordinate)
    then show ?thesis by (simp add: st Coordinate run_ok_def)
  next
    case StartSampling
    have "published_ok (c', x, l)" if "ct_start ops (k, c) = (k', c')" for k' c'
      using sampler_control_inv(1) [OF inv that] control_history(3) [OF that] by (rule published_ok_control [OF p])
    then show ?thesis by (auto simp: st StartSampling run_ok_def split: prod.split)
  next
    case StopSampling
    have "published_ok (c', x, l)" if "ct_stop ops (k, c) = (k', c')" for k' c'
      using sampler_control_inv(2) [OF inv that] control_history(4) [OF that] by (rule published_ok_control [OF p])
    then show ?thesis by (auto simp: st StopSampling run_ok_def split: prod.split)
  qed
qed

interpretation ctrl: guarded_invariant "ctrl_step en ops" run_ok event_ok for en ops
  by unfold_locales (rule ctrl_step_ok)

text \<open>A controller as the factory makes it: a resolved built-in profile, identifiers that are not
  empty, an initial level on the ladder.\<close>

definition options_ok :: "controller_options \<Rightarrow> bool" where
  "options_ok o' \<longleftrightarrow> profile_wf (op_profile o') \<and> max_level (op_profile o') = 4
     \<and> op_trackId o' \<noteq> [] \<and> op_producerId o' \<noteq> Some []
     \<and> (\<forall>l. op_initialLevel o' = Some l \<longrightarrow> level_ok (op_profile o') l)"

lemma new_controller_ok:
  assumes "options_ok o'" "new_PublisherQosController o' n = Inr c"
  shows "published_ok (c, x, [])"
proof -
  have "level_ok (op_profile o') (js_max (Fin 0) (js_floor (or_default (op_initialLevel o') (Fin 0))))"
    using assms(1) by (cases "op_initialLevel o'") (auto simp: options_ok_def level_ok_def or_default_def js_max_def)
  moreover have "seq_ok (Fin 0)" by (auto simp: seq_ok_def intro: exI [of _ 0])
  ultimately show ?thesis
    using assms by (auto simp: published_ok_def ctrl_inv_def history_ok_def options_ok_def
        new_PublisherQosController_def Let_def bindr_eq_Inr overrides_ok_def)
qed

section \<open>Properties\<close>

text \<open>C1: a controller that is created with the identifier of its track, a producer identifier that is
  not an empty string, a well-formed profile of five levels (as all the built-in ones are) and an
  initial level on that ladder, if any, runs safely. For any behaviour of its executor and its channel
  (failures and exceptions included) and over any sequence of samples, override and policy messages
  (malformed ones included), coordination requests, starts and stops: its level stays on the ladder,
  its sequence number stays a safe integer, and every snapshot it hands to the channel is accepted
  unchanged by the serialization of the protocol. The samples are those that a browser can report: a
  time stamp that is a multiple of 1/4096 ms up to \<open>2 ^ 41\<close>, a byte counter that is an integer up to
  \<open>2 ^ 40\<close>, a width and height that are non-negative integers and a finite non-negative frame rate, each of
  them possibly missing but the time stamp; the loss, the round trip and the other statistics are free, and
  may be missing, negative or not a number. The time of a sample is finite and not negative, and the clamp
  of a coordination request is finite.\<close>

theorem controller_run_safe:
  assumes "options_ok o'" "new_PublisherQosController o' n = Inr c" "\<forall>e \<in> set es. event_ok e"
    and "foldl (ctrl_step en ops) (k, c, x, []) es = (k', c', x', l)"
  shows "(\<exists>j \<le> 4. ct_currentLevel c' = lvl j)
    \<and> (\<exists>j \<le> 9007199254740991. ct_seq c' = lvl j)
    \<and> (\<forall>s \<in> set l. serializeClientQosSnapshot (snapshot_val s) = Inr s)"
proof -
  have "run_ok (k, c, x, [])" using new_controller_ok [OF assms(1,2)] by (simp add: run_ok_def)
  from ctrl.guarded_run [OF this assms(3), of en ops] assms(4)
  have "ctrl_inv c'" "\<forall>s \<in> set l. snapshot_valid s" by (simp_all add: run_ok_def published_ok_def)
  then show ?thesis
    by (auto simp: ctrl_inv_def level_ok_def seq_ok_def serializeClientQosSnapshot_def
        snapshot_codec.decode_encode)
qed

definition camera_options :: controller_options where
  "camera_options = \<lparr>op_profile = DEFAULT_CAMERA_PROFILE, op_trackId = ''cam'', op_kind = KVideo,
     op_producerId = Some ''p1'', op_sampleIntervalMs = None, op_snapshotIntervalMs = None,
     op_traceCapacity = None, op_allowAudioOnly = None, op_allowVideoPause = None,
     op_initialLevel = None, op_initialAudioOnlyMode = False\<rparr>"

text \<open>An executor that applies everything and a channel that accepts everything.\<close>

definition willing_env :: "nat env" where
  "willing_env = \<lparr>en_execute = (\<lambda>x a. (x + 1, Inr VUndef)), en_publish = Some (\<lambda>x s. (x, None))\<rparr>"

lemma camera_options_ok: "options_ok camera_options"
  by (simp add: options_ok_def camera_options_def builtin_profiles_wf)

lemma camera_controller: "\<exists>c. new_PublisherQosController camera_options (Fin 0) = Inr c"
proof -
  have "pf_sampleIntervalMs DEFAULT_CAMERA_PROFILE = Fin 1000"
    by (simp add: DEFAULT_CAMERA_PROFILE_def DEFAULT_SAMPLE_INTERVAL_MS_def)
  then show ?thesis
    by (simp add: new_PublisherQosController_def Let_def camera_options_def or_default_def
        new_IntervalQosSampler_def)
qed

lemma raw_zero_ok: "raw_ok raw_zero"
  by (auto simp: raw_ok_def raw_zero_def stamp_ok_def bytes_ok_def
      intro: exI [of _ 4096000] exI [of _ 125000])

theorem controller_run_safe_witness:
  "\<exists>c k' c' x' l. new_PublisherQosController camera_options (Fin 0) = Inr c
     \<and> foldl (ctrl_step willing_env mc_ops) (new_ManualQosClock, c, 0, [])
         [StartSampling, Sample (Fin 1000) raw_zero, OverrideMessage (Fin 1500) VNull] = (k', c', x', l)
     \<and> (\<exists>j \<le> 4. ct_currentLevel c' = lvl j)"
proof -
  obtain c where c: "new_PublisherQosController camera_options (Fin 0) = Inr c" using camera_controller by blast
  have ev: "\<forall>e \<in> set [StartSampling, Sample (Fin 1000) raw_zero, OverrideMessage (Fin 1500) VNull]. event_ok e"
    by (simp add: raw_zero_ok num_ok_def)
  obtain k' c' x' l where r: "foldl (ctrl_step willing_env mc_ops) (new_ManualQosClock, c, 0, [])
         [StartSampling, Sample (Fin 1000) raw_zero, OverrideMessage (Fin 1500) VNull] = (k', c', x', l)"
    by (metis prod_cases4)
  from controller_run_safe [OF camera_options_ok c ev r] c r show ?thesis by blast
qed








definition raw_cpu :: raw_snapshot where
  "raw_cpu = raw_zero\<lparr>rs_qualityLimitationReason := Some LCpu\<rparr>"



text \<open>a running probe freezes the ladder: a sample that leaves the probe undecided does not move
  the level, whatever the state machine says and whatever the executor does.\<close>

theorem running_probe_freezes_level:
  assumes "ctrl_inv c" "ct_probeContext c = Some p" "pr_active p"
    and "getActiveOverride c n = (c1, ov)" "observe c1 ov raw n = (c2, s, q, tr)"
    and "snd (evaluateProbe (Some p) s (ct_profile c)) = Inconclusive"
    and "processSample en n (c, x) raw = (c', x', t)"
  shows "ct_currentLevel c' = ct_currentLevel c"
proof -
  note g = getActiveOverride_inv [OF assms(1,4)]
  have f2: "ct_probeContext c2 = Some p" "ct_profile c2 = ct_profile c" "ct_currentLevel c2 = ct_currentLevel c"
    using g(3) observe_frame [OF assms(5)] assms(2) by auto
  obtain p' where e: "evaluateProbe (Some p) s (ct_profile c) = (Some p', Inconclusive)" "pr_active p'"
    using assms(3,6) by (cases "evaluateProbe (Some p) s (ct_profile c)")
      (auto simp: evaluateProbe_def Let_def split: if_splits)
  have sp: "settle_probe en s n sb (c2, x) = (c2\<lparr>ct_probeContext := Some p'\<rparr>, x, None)" for sb
    by (simp add: settle_probe_def f2 e)
  let ?c4 = "reset_streak (c2\<lparr>ct_probeContext := Some p'\<rparr>)"
  have pl: "plan_sample ?c4 cl dr = [Noop (ct_currentLevel c) (Some ''probe-in-progress'')]" for cl dr
    using e(2) by (simp add: plan_sample_def probe_active_def Let_def f2)
  have lv: "a_level a = ct_currentLevel c" if "a \<in> set (filterActions ?c4 (plan_sample ?c4 cl dr) ov)" for a cl dr
    using filterActions_level [OF that] by (auto simp: pl f2)
  show ?thesis
    using assms(7)
  proof (cases rule: processSample_cases)
    case (settled c1' ov' c2' s' q' tr' c3 x3)
    then show ?thesis using assms(4,5) sp by simp
  next
    case (planned c1' ov' c2' s' q' tr' c3 x3 c5 x5 c6)
    have eqs: "c1' = c1" "ov' = ov" "s' = s" "c2' = c2" using planned(1,2) assms(4,5) by simp_all
    have c3: "c3 = c2\<lparr>ct_probeContext := Some p'\<rparr>" using planned(3) sp by (simp add: eqs)
    note ex = planned(4) [unfolded eqs c3]
    obtain c51 where e51: "ct_currentLevel c51 \<in> insert (ct_currentLevel ?c4) (a_level ` set (filterActions ?c4
        (plan_sample ?c4 (combined_clamp ov (ct_coordinationOverride c1)) (recovery_disabled c1 ov n)) ov))"
      and c5: "c5 = c51 \<or> (\<exists>k b b'. c5 = c51\<lparr>ct_probeContext := Some (beginProbe (ct_currentLevel ?c4)
        (ct_currentLevel c51) n b b' (Some k) None)\<rparr>)"
      by (rule executeActions_eq [OF ex])
    have "ct_currentLevel c51 = ct_currentLevel c" using e51 lv f2 by auto
    then have l5: "ct_currentLevel c5 = ct_currentLevel c" using c5 by auto
    have "ctrl_inv c5" using planned_actions [OF assms(1) planned(1-4)] by simp
    then have "ct_currentLevel c6 = ct_currentLevel c5" using planned(5) publishSnapshot_inv(3) by auto
    then show ?thesis using l5 by (simp add: planned(6))
  qed
qed

definition fresh_probe :: probe_context where
  "fresh_probe = beginProbe (Fin 1) (Fin 0) (Fin 0) False False (Some (Fin 3)) None"

theorem running_probe_freezes_level_witness:
  "\<exists>c c' x' t. ct_currentLevel c = Fin 0 \<and> ct_probeContext c = Some fresh_probe
     \<and> processSample willing_env (Fin 1000) (c, 0) raw_cpu = (c', x', t)
     \<and> ct_currentLevel c' = Fin 0"
proof -
  obtain c0 where c0: "new_PublisherQosController camera_options (Fin 0) = Inr c0" using camera_controller by blast
  let ?c = "c0\<lparr>ct_probeContext := Some fresh_probe\<rparr>"
  have f: "ct_currentLevel c0 = Fin 0" "ct_profile c0 = DEFAULT_CAMERA_PROFILE"
    using c0 by (auto simp: new_PublisherQosController_def Let_def bindr_eq_Inr camera_options_def
        or_default_def js_max_def)
  have "ctrl_inv c0" using new_controller_ok [OF camera_options_ok c0] by (simp add: published_ok_def)
  moreover have "level_ok DEFAULT_CAMERA_PROFILE (pr_previousLevel fresh_probe)"
    by (auto simp: level_ok_def fresh_probe_def beginProbe_def intro: exI [of _ 1])
  ultimately have inv: "ctrl_inv ?c" by (simp add: ctrl_inv_def f)
  have "probe_running fresh_probe 0 0 3 2"
    by (simp add: probe_running_def fresh_probe_def beginProbe_def required_samples_def js_max_def)
  from evaluateProbe_running [OF this]
  have e: "snd (evaluateProbe (Some fresh_probe) s p) = Inconclusive" for s p by simp
  have a: "pr_active fresh_probe" by (simp add: fresh_probe_def beginProbe_def)
  obtain c1 ov where g: "getActiveOverride ?c (Fin 1000) = (c1, ov)" by force
  obtain c2 s q tr where o: "observe c1 ov raw_cpu (Fin 1000) = (c2, s, q, tr)"
    by (cases "observe c1 ov raw_cpu (Fin 1000)")
  obtain c' x' t where r: "processSample willing_env (Fin 1000) (?c, 0) raw_cpu = (c', x', t)"
    by (cases "processSample willing_env (Fin 1000) (?c, 0) raw_cpu")
  have l: "ct_currentLevel c' = Fin 0"
    using running_probe_freezes_level [OF inv _ a g o e r] f by simp
  show ?thesis
    by (rule exI [of _ ?c], rule exI [of _ c'], rule exI [of _ x'], rule exI [of _ t]) (simp add: r l f)
qed

text \<open>what disabling recovery does. While no probe runs, a controller in the recovering state whose
  recovery is disabled plans no level below the current one; but the flag is read in that state only:
  in the stable state the plan is the same with and without it, and without a clamp it still goes
  one step down the ladder.\<close>

theorem recovery_disabled_scope:
  assumes "ctrl_inv c" "\<not> probe_active c" "ct_currentLevel c = lvl k"
  shows "(sc_state (ct_stateContext c) = Recovering
      \<longrightarrow> (\<forall>a \<in> set (plan_sample c None True). \<exists>t \<ge> k. a_level a = lvl t))
    \<and> (sc_state (ct_stateContext c) = Stable \<longrightarrow> plan_sample c None True = plan_sample c None False
      \<and> (\<forall>a \<in> set (plan_sample c None True). a_level a = lvl (k - 1)))"
proof (intro conjI impI)
  have cl: "pred_option int_ok None" by simp
  {
    fix st
    obtain cl where "input_ok (planner_input_of c st None) k cl" "cl = None"
      using planner_input_ok [OF assms(1) cl assms(3)] by metis
    then have "input_ok (planner_input_of c st None) k None" by simp
  }
  note i = this
  note pl = planActions_level [OF i]
  {
    assume "sc_state (ct_stateContext c) = Recovering"
    then have e: "effective_state c True = EarlyWarning" by (simp add: effective_state_def)
    let ?i = "planner_input_of c EarlyWarning None"
    have k: "k \<le> max_level (pi_profile ?i)" using i [of EarlyWarning] by (simp add: input_ok_def)
    have "k \<le> plan_spec ?i k None"
      using target_spec_dir(4) [OF k] k by (simp add: plan_spec_def planner_input_of_def)
    then show "\<forall>a \<in> set (plan_sample c None True). \<exists>t \<ge> k. a_level a = lvl t"
      using pl [of _ EarlyWarning] plan_sample_eq [OF assms(2)] e by auto
  next
    assume "sc_state (ct_stateContext c) = Stable"
    then have e: "effective_state c d = Stable" for d by (simp add: effective_state_def)
    have "plan_spec (planner_input_of c Stable None) k None = k - 1"
      by (simp add: plan_spec_def replans_max_def planner_input_of_def target_spec_def)
    then show "plan_sample c None True = plan_sample c None False"
      "\<forall>a \<in> set (plan_sample c None True). a_level a = lvl (k - 1)"
      using pl [of _ Stable] plan_sample_eq [OF assms(2)] e by simp_all
  }
qed

theorem recovery_disabled_scope_witness:
  "\<exists>c. ct_currentLevel c = Fin 2 \<and> sc_state (ct_stateContext c) = Stable
     \<and> (\<forall>a \<in> set (plan_sample c None True). a_level a = lvl 1)"
proof -
  obtain c0 where c0: "new_PublisherQosController camera_options (Fin 0) = Inr c0" using camera_controller by blast
  let ?c = "c0\<lparr>ct_currentLevel := Fin 2\<rparr>"
  have f: "ct_probeContext c0 = None" "ct_profile c0 = DEFAULT_CAMERA_PROFILE"
    "sc_state (ct_stateContext c0) = Stable"
    using c0 by (auto simp: new_PublisherQosController_def Let_def bindr_eq_Inr camera_options_def
        or_default_def js_max_def createInitialQosStateMachineContext_def)
  have "ctrl_inv c0" using new_controller_ok [OF camera_options_ok c0] by (simp add: published_ok_def)
  then have inv: "ctrl_inv ?c" by (auto simp: ctrl_inv_def f level_ok_def intro: exI [of _ 2])
  have "\<not> probe_active ?c" "ct_currentLevel ?c = lvl 2" by (simp_all add: probe_active_def f)
  from recovery_disabled_scope [OF inv this] f
  show ?thesis by (intro exI [of _ ?c]) simp
qed

end
