(* ===== verification/ModeTracking.thy ===== *)
theory ModeTracking
  imports ControllerProps
begin

text \<open>
  What a controller's executor must promise so that the audio-only flag of the controller tracks the
  world the executor acts on: a relation between the flag and the world that every action keeps,
  whether it is applied, refused or thrown. The lemmas here carry such a relation through every
  phase of a sample; the factory's executor is an instance.
\<close>

definition mode_after :: "qos_action \<Rightarrow> bool \<Rightarrow> bool" where
  "mode_after a m = (if a_type a = TEnterAudioOnly then True else if a_type a = TExitAudioOnly then False else m)"

text \<open>The actions of a profile whose ladder neither pauses nor resumes the upstream by itself.\<close>

definition mode_action :: "qos_action \<Rightarrow> bool" where
  "mode_action a \<longleftrightarrow> a_type a \<noteq> TPauseUpstream \<and> a_type a \<noteq> TResumeUpstream"

definition plain_ladder :: "profile \<Rightarrow> bool" where
  "plain_ladder p \<longleftrightarrow> (\<forall>st \<in> set (pf_ladder p). \<not> ls_pauseUpstream st \<and> \<not> ls_resumeUpstream st)"

lemma actionsForLevel_mode: "plain_ladder (pi_profile i) \<Longrightarrow> a \<in> set (actionsForLevel i l) \<Longrightarrow> mode_action a"
  by (fastforce simp: actionsForLevel_def stepToActions_def step_pushes_def Let_def mode_action_def plain_ladder_def
      find_Some_iff split: option.splits if_splits)

lemma planActionsForLevel_mode:
  "plain_ladder (pi_profile i) \<Longrightarrow> a \<in> set (planActionsForLevel i l) \<Longrightarrow> mode_action a"
  by (auto simp: planActionsForLevel_def Let_def dest: actionsForLevel_mode [rotated])

lemma planActions_mode: "plain_ladder (pi_profile i) \<Longrightarrow> a \<in> set (planActions i) \<Longrightarrow> mode_action a"
  by (auto simp: planActions_def Let_def mode_action_def [of "Noop _ _"] dest: planActionsForLevel_mode [rotated]
      split: if_splits)

lemma plan_sample_mode: "plain_ladder (ct_profile c) \<Longrightarrow> a \<in> set (plan_sample c cl dr) \<Longrightarrow> mode_action a"
proof (cases "probe_active c")
  case True
  then show "plain_ladder (ct_profile c) \<Longrightarrow> a \<in> set (plan_sample c cl dr) \<Longrightarrow> mode_action a"
    by (auto simp: plan_sample_def mode_action_def)
next
  case False
  have "pi_profile (planner_input_of c st cl) = ct_profile c" for st by (simp add: planner_input_of_def)
  with False show "plain_ladder (ct_profile c) \<Longrightarrow> a \<in> set (plan_sample c cl dr) \<Longrightarrow> mode_action a"
    using planActions_mode [of "planner_input_of c (effective_state c dr) cl" a] by (simp add: plan_sample_eq)
qed

lemma filterActions_mode:
  assumes "\<forall>a \<in> set as. mode_action a"
  shows "\<forall>a \<in> set (filterActions c as ov). mode_action a"
  using assms by (auto simp: filterActions_def Let_def mode_action_def)

text \<open>The promise of an executor and a channel.\<close>

locale mode_env =
  fixes en :: "'x env" and J :: "bool \<Rightarrow> 'x \<Rightarrow> bool"
  assumes execute_applied: "J m x \<Longrightarrow> mode_action a \<Longrightarrow> en_execute en x a = (x', Inr r) \<Longrightarrow> wasActionApplied r
      \<Longrightarrow> J (mode_after a m) x'"
    and execute_refused: "J m x \<Longrightarrow> mode_action a \<Longrightarrow> en_execute en x a = (x', Inr r) \<Longrightarrow> \<not> wasActionApplied r
      \<Longrightarrow> J m x'"
    and execute_thrown: "J m x \<Longrightarrow> mode_action a \<Longrightarrow> en_execute en x a = (x', Inl t) \<Longrightarrow> J m x'"
    and publish_keeps: "J m x \<Longrightarrow> en_publish en = Some f \<Longrightarrow> f x s = (x', e) \<Longrightarrow> J m x'"
begin

lemma apply_mode: "ct_inAudioOnlyMode (apply_action c a b) = (if b then mode_after a (ct_inAudioOnlyMode c) else ct_inAudioOnlyMode c)"
  by (simp add: apply_action_def mode_after_def)

lemma execute_one_mode:
  assumes "J (ct_inAudioOnlyMode c) x" "mode_action a" "execute_one en s n sb sa (c, x) a = (c', x')"
  shows "J (ct_inAudioOnlyMode c') x'"
proof -
  obtain c1 x1 b where t: "attempt_action en c x a = (c1, x1, b)" by (cases "attempt_action en c x a")
  have e: "ct_inAudioOnlyMode c' = (if b then mode_after a (ct_inAudioOnlyMode c1) else ct_inAudioOnlyMode c1)" "x' = x1"
    using assms(3) by (auto simp: execute_one_def t Let_def add_trace_def apply_mode)
  have "ct_inAudioOnlyMode c1 = ct_inAudioOnlyMode c"
    using t by (auto simp: attempt_action_def split: if_splits prod.splits sum.splits)
  moreover have "if b then J (mode_after a (ct_inAudioOnlyMode c)) x1 else J (ct_inAudioOnlyMode c) x1"
  proof (cases "a_type a = TNoop")
    case True
    then show ?thesis using t assms(1) by (auto simp: attempt_action_def mode_after_def)
  next
    case False
    then show ?thesis
      using t execute_applied [OF assms(1,2)] execute_refused [OF assms(1,2)] execute_thrown [OF assms(1,2)]
      by (auto simp: attempt_action_def split: prod.splits sum.splits)
  qed
  ultimately show ?thesis by (simp add: e split: if_splits)
qed

lemma execute_all_mode:
  "J (ct_inAudioOnlyMode c) x \<Longrightarrow> \<forall>a \<in> set as. mode_action a
   \<Longrightarrow> foldl (execute_one en s n sb sa) (c, x) as = (c', x') \<Longrightarrow> J (ct_inAudioOnlyMode c') x'"
proof (induction as arbitrary: c x)
  case (Cons a as)
  obtain c1 x1 where e: "execute_one en s n sb sa (c, x) a = (c1, x1)" by force
  from execute_one_mode [OF Cons.prems(1) _ e] Cons show ?case by (simp add: e)
qed simp

lemma executeActions_mode:
  assumes "J (ct_inAudioOnlyMode c) x" "\<forall>a \<in> set as. mode_action a" "executeActions en s n sb sa (c, x) as = (c', x')"
  shows "J (ct_inAudioOnlyMode c') x'"
proof -
  obtain c1 x1 where f: "foldl (execute_one en s n sb sa) (c, x) as = (c1, x1)" by force
  have "ct_inAudioOnlyMode c' = ct_inAudioOnlyMode c1" "x' = x1"
    using assms(3) unfolding executeActions_def Let_def fst_conv f prod.case by (auto split: if_splits)
  with execute_all_mode [OF assms(1,2) f] show ?thesis by simp
qed

lemma rollback_actions_mode:
  "J (ct_inAudioOnlyMode c) x \<Longrightarrow> \<forall>a \<in> set as. mode_action a
   \<Longrightarrow> rollback_actions en s n sb p (c, x) as = (c', x', t) \<Longrightarrow> J (ct_inAudioOnlyMode c') x'"
proof (induction as arbitrary: c x)
  case (Cons a as)
  show ?case
  proof (cases "en_execute en x a")
    case (Pair x1 r)
    show ?thesis
    proof (cases r)
      case (Inl t')
      then show ?thesis using Cons.prems execute_thrown [of _ x a x1 t'] by (simp add: Pair)
    next
      case (Inr v)
      let ?c = "apply_action c a (wasActionApplied v)"
      have j: "J (ct_inAudioOnlyMode ?c) x1"
        using Cons.prems(1,2) execute_applied [of _ x a x1 v] execute_refused [of _ x a x1 v] Pair Inr
        by (simp add: apply_mode)
      show ?thesis
        using Cons.prems(2,3) j unfolding rollback_actions.simps Pair prod.case Inr sum.case Let_def
        by (intro Cons.IH) (auto simp: add_trace_def)
    qed
  qed
qed simp

lemma settle_probe_mode:
  assumes "J (ct_inAudioOnlyMode c) x" "plain_ladder (ct_profile c)" "settle_probe en s n sb (c, x) = (c', x', r)"
  shows "J (ct_inAudioOnlyMode c') x'"
proof (cases "ct_probeContext c")
  case None
  then show ?thesis using assms by (simp add: settle_probe_def)
next
  case (Some p)
  obtain pc v where ev: "evaluateProbe (Some p) s (ct_profile c) = (pc, v)" by force
  show ?thesis
  proof (cases v)
    case Failed
    obtain c1 x1 t where rb: "rollbackProbe en s n sb (c, x) = (c1, x1, t)" by (cases "rollbackProbe en s n sb (c, x)")
    let ?i = "\<lparr>pi_source = pf_source (ct_profile c), pi_profile = ct_profile c, pi_state = Congested,
      pi_currentLevel = ct_currentLevel c, pi_overrideClampLevel = None, pi_inAudioOnlyMode = ct_inAudioOnlyMode c\<rparr>"
    obtain c2 x2 t2 where ra: "rollback_actions en s n sb p (c, x) (planActionsForLevel ?i (pr_previousLevel p)) = (c2, x2, t2)"
      by (cases "rollback_actions en s n sb p (c, x) (planActionsForLevel ?i (pr_previousLevel p))")
    have "\<forall>a \<in> set (planActionsForLevel ?i (pr_previousLevel p)). mode_action a"
      using planActionsForLevel_mode [of ?i] assms(2) by simp
    note j = rollback_actions_mode [OF assms(1) this ra]
    have "ct_inAudioOnlyMode c1 = ct_inAudioOnlyMode c2 \<and> x1 = x2"
      using rb by (auto simp: rollbackProbe_def Some Let_def ra split: option.splits)
    with j have "J (ct_inAudioOnlyMode c1) x1" by simp
    then show ?thesis
      using assms(3) by (auto simp: settle_probe_def Some ev Failed rb split: option.splits)
  qed (use assms in \<open>auto simp: settle_probe_def Some ev Let_def\<close>)
qed

lemma publish_mode:
  assumes "J (ct_inAudioOnlyMode c) x" "publishSnapshot en (c, x) raw s q n = (c', x')"
  shows "J (ct_inAudioOnlyMode c') x'"
proof (cases "en_publish en")
  case (Some f)
  obtain x1 r where f: "f x (snapshot_payload (c\<lparr>ct_seq := next_seq (ct_seq c)\<rparr>) raw s q n) = (x1, r)" by force
  then show ?thesis
    using assms(2) publish_keeps [OF assms(1) Some f] by (cases r) (auto simp: publishSnapshot_def Some Let_def)
qed (use assms in \<open>simp add: publishSnapshot_def\<close>)

text \<open>A whole sample.\<close>

lemma processSample_mode:
  assumes "ctrl_inv c" "J (ct_inAudioOnlyMode c) x" "plain_ladder (ct_profile c)"
    and "processSample en n (c, x) raw = (c', x', t)"
  shows "J (ct_inAudioOnlyMode c') x' \<and> ct_profile c' = ct_profile c"
  using assms(4)
proof (cases rule: processSample_cases)
  case (settled c1 ov c2 s q tr c3 x3)
  note i2 = observe_inv [OF getActiveOverride_inv(1) [OF assms(1) settled(1)] settled(2)]
  have f: "ct_inAudioOnlyMode c2 = ct_inAudioOnlyMode c" "ct_profile c2 = ct_profile c"
    using getActiveOverride_inv(3) [OF assms(1) settled(1)] observe_frame [OF settled(2)] by auto
  show ?thesis
    using settle_probe_mode [OF _ _ settled(3)] settle_probe_inv(2) [OF i2 settled(3)] f assms(2,3) settled(4,5) by simp
next
  case (planned c1 ov c2 s q tr c3 x3 c5 x5 c6)
  note i2 = observe_inv [OF getActiveOverride_inv(1) [OF assms(1) planned(1)] planned(2)]
  have f: "ct_inAudioOnlyMode c2 = ct_inAudioOnlyMode c" "ct_profile c2 = ct_profile c"
    using getActiveOverride_inv(3) [OF assms(1) planned(1)] observe_frame [OF planned(2)] by auto
  note p3 = settle_probe_inv(2) [OF i2 planned(3)]
  have j3: "J (ct_inAudioOnlyMode (reset_streak c3)) x3"
    using settle_probe_mode [OF _ _ planned(3)] f assms(2,3) by (simp add: reset_streak_def)
  have "plain_ladder (ct_profile (reset_streak c3))" using p3 f assms(3) by simp
  then have acts: "\<forall>a \<in> set (filterActions (reset_streak c3) (plan_sample (reset_streak c3)
            (combined_clamp ov (ct_coordinationOverride c1)) (recovery_disabled c1 ov n)) ov). mode_action a"
    using plan_sample_mode by (intro filterActions_mode) blast
  note j5 = executeActions_mode [OF j3 acts planned(4)]
  have i5: "ctrl_inv c5" "ct_profile c5 = ct_profile c"
    using planned_actions [OF assms(1) planned(1-4)] by simp_all
  have "J (ct_inAudioOnlyMode c6) x'"
    using planned(5) j5 publish_mode [OF j5] by auto
  moreover have "ct_profile c6 = ct_profile c5"
    using planned(5) publishSnapshot_inv(2) [OF i5(1)] by auto
  ultimately show ?thesis using i5(2) by (simp add: planned(6))
qed

end

end
