(* ===== verification/Producer.thy ===== *)
theory Producer
  imports QosTypes JsValue Prelude
begin

text \<open>
  The sending side of the library, \<open>Producer.js\<close>. Tracks are objects of the host: a producer holds a
  reference to one, and the attributes it reads and writes (\<open>enabled\<close>, \<open>readyState\<close>, the \<open>ended\<close>
  listener, and \<open>stop\<close>, which ends the track) live in a store. The transport answers the events
  that begin with \<open>@\<close>; it is a parameter, as are the statistics it returns. Its listeners on \<open>@close\<close>
  return normally. \<open>replaceTrack\<close> waits for the transport, so other calls can come in between.
\<close>

section \<open>Tracks and producers\<close>

type_synonym track_ref = nat

record media_track =
  mt_id :: string
  mt_kind :: track_kind
  mt_enabled :: bool
  mt_ended :: bool
  mt_listened :: bool

type_synonym track_store = "track_ref \<Rightarrow> media_track"

datatype producer_event = EvClose | EvTransportClose | EvObserverClose | EvObserverPause
  | EvObserverResume | EvTrackEnded | EvObserverTrackEnded

record producer =
  pd_id :: string
  pd_localId :: string
  pd_kind :: track_kind
  pd_track :: "track_ref option"
  pd_rtpParameters :: jsval
  pd_closed :: bool
  pd_paused :: bool
  pd_maxSpatialLayer :: "number option"
  pd_stopTracks :: bool
  pd_disableTrackOnPause :: bool
  pd_zeroRtpOnPause :: bool
  pd_events :: "producer_event list"

record 'h producer_world =
  pw_producer :: producer
  pw_tracks :: track_store
  pw_host :: 'h

text \<open>What the transport does on the events of a producer.\<close>

record 'h sender_ops =
  so_getStats :: "'h \<Rightarrow> 'h \<times> (thrown + jsval list)"
  so_pause :: "'h \<Rightarrow> 'h"
  so_resume :: "'h \<Rightarrow> 'h"
  so_replaceTrack :: "'h \<Rightarrow> track_ref option \<Rightarrow> 'h \<times> thrown option"
  so_setMaxSpatialLayer :: "'h \<Rightarrow> number \<Rightarrow> 'h \<times> thrown option"
  so_setRtpEncodingParameters :: "'h \<Rightarrow> jsval \<Rightarrow> 'h \<times> thrown option"

definition emit_events :: "producer_event list \<Rightarrow> producer \<Rightarrow> producer" where
  "emit_events evs p = p\<lparr>pd_events := pd_events p @ evs\<rparr>"

definition on_track :: "(media_track \<Rightarrow> media_track) \<Rightarrow> 'h producer_world \<Rightarrow> 'h producer_world" where
  "on_track f w =
     (case pd_track (pw_producer w) of
        None \<Rightarrow> w
      | Some t \<Rightarrow> w\<lparr>pw_tracks := (pw_tracks w)(t := f (pw_tracks w t))\<rparr>)"

definition pd_handleTrack :: "'h producer_world \<Rightarrow> 'h producer_world" where
  "pd_handleTrack w = on_track (\<lambda>t. t\<lparr>mt_listened := True\<rparr>) w"

definition pd_destroyTrack :: "'h producer_world \<Rightarrow> 'h producer_world" where
  "pd_destroyTrack w =
     on_track (\<lambda>t. let t' = t\<lparr>mt_listened := False\<rparr>
       in if pd_stopTracks (pw_producer w) then t'\<lparr>mt_ended := True\<rparr> else t') w"

record producer_options =
  poc_id :: string
  poc_localId :: string
  poc_track :: track_ref
  poc_rtpParameters :: jsval
  poc_stopTracks :: bool
  poc_disableTrackOnPause :: bool
  poc_zeroRtpOnPause :: bool

definition new_Producer :: "producer_options \<Rightarrow> track_store \<Rightarrow> 'h \<Rightarrow> 'h producer_world" where
  "new_Producer options tracks h =
     (let track = tracks (poc_track options)
      in pd_handleTrack \<lparr>pw_producer = \<lparr>pd_id = poc_id options, pd_localId = poc_localId options,
           pd_kind = mt_kind track, pd_track = Some (poc_track options),
           pd_rtpParameters = poc_rtpParameters options, pd_closed = False,
           pd_paused = (if poc_disableTrackOnPause options then \<not> mt_enabled track else False),
           pd_maxSpatialLayer = None, pd_stopTracks = poc_stopTracks options,
           pd_disableTrackOnPause = poc_disableTrackOnPause options,
           pd_zeroRtpOnPause = poc_zeroRtpOnPause options, pd_events = []\<rparr>,
         pw_tracks = tracks, pw_host = h\<rparr>)"

section \<open>Closing\<close>

definition pd_close :: "'h producer_world \<Rightarrow> 'h producer_world" where
  "pd_close w =
     (if pd_closed (pw_producer w) then w
      else let w' = pd_destroyTrack (w\<lparr>pw_producer := (pw_producer w)\<lparr>pd_closed := True\<rparr>\<rparr>)
        in w'\<lparr>pw_producer := emit_events [EvClose, EvObserverClose] (pw_producer w')\<rparr>)"

definition pd_transportClosed :: "'h producer_world \<Rightarrow> 'h producer_world" where
  "pd_transportClosed w =
     (if pd_closed (pw_producer w) then w
      else let w' = pd_destroyTrack (w\<lparr>pw_producer := (pw_producer w)\<lparr>pd_closed := True\<rparr>\<rparr>)
        in w'\<lparr>pw_producer := emit_events [EvTransportClose, EvObserverClose] (pw_producer w')\<rparr>)"

section \<open>Pausing\<close>

definition set_paused :: "bool \<Rightarrow> 'h producer_world \<Rightarrow> 'h producer_world" where
  "set_paused b w =
     (let w' = w\<lparr>pw_producer := (pw_producer w)\<lparr>pd_paused := b\<rparr>\<rparr>
      in if pd_disableTrackOnPause (pw_producer w) then on_track (\<lambda>t. t\<lparr>mt_enabled := \<not> b\<rparr>) w' else w')"

definition pd_pause :: "'h sender_ops \<Rightarrow> 'h producer_world \<Rightarrow> 'h producer_world" where
  "pd_pause ops w =
     (if pd_closed (pw_producer w) then w
      else let w1 = set_paused True w;
               w2 = (if pd_zeroRtpOnPause (pw_producer w) then w1\<lparr>pw_host := so_pause ops (pw_host w1)\<rparr> else w1)
        in w2\<lparr>pw_producer := emit_events [EvObserverPause] (pw_producer w2)\<rparr>)"

definition pd_resume :: "'h sender_ops \<Rightarrow> 'h producer_world \<Rightarrow> 'h producer_world" where
  "pd_resume ops w =
     (if pd_closed (pw_producer w) then w
      else let w1 = set_paused False w;
               w2 = (if pd_zeroRtpOnPause (pw_producer w) then w1\<lparr>pw_host := so_resume ops (pw_host w1)\<rparr> else w1)
        in w2\<lparr>pw_producer := emit_events [EvObserverResume] (pw_producer w2)\<rparr>)"

section \<open>Requests to the transport\<close>

definition pd_getStats :: "'h sender_ops \<Rightarrow> 'h producer_world \<Rightarrow> 'h producer_world \<times> (thrown + jsval list)" where
  "pd_getStats ops w =
     (if pd_closed (pw_producer w) then (w, Inl (ThrownError (InvalidStateError ''closed'')))
      else case so_getStats ops (pw_host w) of (h, r) \<Rightarrow> (w\<lparr>pw_host := h\<rparr>, r))"

text \<open>\<open>replaceTrack\<close> up to its request: an error, or whether the transport is asked at all.\<close>

definition replaceTrack_begin ::
    "track_ref option \<Rightarrow> 'h producer_world \<Rightarrow> 'h producer_world \<times> (js_error + bool)" where
  "replaceTrack_begin track w =
     (if pd_closed (pw_producer w) then
        (case track of
           Some t \<Rightarrow> if pd_stopTracks (pw_producer w)
             then w\<lparr>pw_tracks := (pw_tracks w)(t := (pw_tracks w t)\<lparr>mt_ended := True\<rparr>)\<rparr> else w
         | None \<Rightarrow> w, Inl (InvalidStateError ''closed''))
      else if (case track of Some t \<Rightarrow> mt_ended (pw_tracks w t) | None \<Rightarrow> False)
      then (w, Inl (InvalidStateError ''track ended''))
      else (w, Inr (track \<noteq> pd_track (pw_producer w))))"

text \<open>The rest of \<open>replaceTrack\<close>, once the transport agreed.\<close>

definition replaceTrack_end :: "track_ref option \<Rightarrow> 'h producer_world \<Rightarrow> 'h producer_world" where
  "replaceTrack_end track w =
     (let w1 = pd_destroyTrack w;
          w2 = w1\<lparr>pw_producer := (pw_producer w1)\<lparr>pd_track := track\<rparr>\<rparr>;
          w3 = (if pd_disableTrackOnPause (pw_producer w2)
                then on_track (\<lambda>t. t\<lparr>mt_enabled := \<not> pd_paused (pw_producer w2)\<rparr>) w2 else w2)
      in pd_handleTrack w3)"

definition replaceTrack ::
    "'h sender_ops \<Rightarrow> track_ref option \<Rightarrow> 'h producer_world \<Rightarrow> 'h producer_world \<times> thrown option" where
  "replaceTrack ops track w =
     (case replaceTrack_begin track w of
        (w1, Inl e) \<Rightarrow> (w1, Some (ThrownError e))
      | (w1, Inr False) \<Rightarrow> (w1, None)
      | (w1, Inr True) \<Rightarrow>
          (case so_replaceTrack ops (pw_host w1) track of
             (h, Some t) \<Rightarrow> (w1\<lparr>pw_host := h\<rparr>, Some t)
           | (h, None) \<Rightarrow> (replaceTrack_end track (w1\<lparr>pw_host := h\<rparr>), None)))"

text \<open>A refusal of the transport is swallowed here, and the layer recorded all the same.\<close>

definition pd_setMaxSpatialLayer ::
    "'h sender_ops \<Rightarrow> jsval \<Rightarrow> 'h producer_world \<Rightarrow> 'h producer_world \<times> thrown option" where
  "pd_setMaxSpatialLayer ops spatialLayer w =
     (if pd_closed (pw_producer w) then (w, Some (ThrownError (InvalidStateError ''closed'')))
      else if pd_kind (pw_producer w) \<noteq> KVideo
      then (w, Some (ThrownError (UnsupportedError ''not a video Producer'')))
      else case spatialLayer of
          VNum n \<Rightarrow>
            if (case pd_maxSpatialLayer (pw_producer w) of Some m \<Rightarrow> js_eq n m | None \<Rightarrow> False) then (w, None)
            else (w\<lparr>pw_host := fst (so_setMaxSpatialLayer ops (pw_host w) n),
                    pw_producer := (pw_producer w)\<lparr>pd_maxSpatialLayer := Some n\<rparr>\<rparr>, None)
        | _ \<Rightarrow> (w, Some (ThrownError (TypeError ''invalid spatialLayer''))))"

fun typeof_object :: "jsval \<Rightarrow> bool" where
  "typeof_object VNull = True"
| "typeof_object (VArr _) = True"
| "typeof_object (VObj _) = True"
| "typeof_object _ = False"

definition setRtpEncodingParameters ::
    "'h sender_ops \<Rightarrow> jsval \<Rightarrow> 'h producer_world \<Rightarrow> 'h producer_world \<times> thrown option" where
  "setRtpEncodingParameters ops params w =
     (if pd_closed (pw_producer w) then (w, Some (ThrownError (InvalidStateError ''closed'')))
      else if \<not> typeof_object params then (w, Some (ThrownError (TypeError ''invalid params'')))
      else case so_setRtpEncodingParameters ops (pw_host w) params of
          (h, r) \<Rightarrow> (w\<lparr>pw_host := h\<rparr>, r))"

definition pd_onTrackEnded :: "'h producer_world \<Rightarrow> 'h producer_world" where
  "pd_onTrackEnded w =
     w\<lparr>pw_producer := emit_events [EvTrackEnded, EvObserverTrackEnded] (pw_producer w)\<rparr>"

section \<open>Runs of a producer\<close>

text \<open>The calls on a producer interleave with the requests for a new track that are still waiting:
  each of those later succeeds, in any order, or fails.\<close>

type_synonym 'h producer_run = "'h producer_world \<times> track_ref option list"

inductive producer_step :: "'h sender_ops \<Rightarrow> 'h producer_run \<Rightarrow> 'h producer_run \<Rightarrow> bool"
  for ops where
  run_close: "producer_step ops (w, q) (pd_close w, q)"
| run_transport: "producer_step ops (w, q) (pd_transportClosed w, q)"
| run_pause: "producer_step ops (w, q) (pd_pause ops w, q)"
| run_resume: "producer_step ops (w, q) (pd_resume ops w, q)"
| run_layer: "producer_step ops (w, q) (fst (pd_setMaxSpatialLayer ops v w), q)"
| run_encoding: "producer_step ops (w, q) (fst (setRtpEncodingParameters ops v w), q)"
| run_stats: "producer_step ops (w, q) (fst (pd_getStats ops w), q)"
| run_ended: "producer_step ops (w, q) (pd_onTrackEnded w, q)"
| run_ask: "replaceTrack_begin track w = (w', Inr True) \<Longrightarrow> producer_step ops (w, q) (w', track # q)"
| run_refused: "replaceTrack_begin track w = (w', r) \<Longrightarrow> r \<noteq> Inr True \<Longrightarrow> producer_step ops (w, q) (w', q)"
| run_agreed: "producer_step ops (w, q @ track # q') (replaceTrack_end track (w\<lparr>pw_host := h\<rparr>), q @ q')"
| run_failed: "producer_step ops (w, q @ track # q') (w\<lparr>pw_host := h\<rparr>, q @ q')"

definition close_count :: "producer \<Rightarrow> nat" where
  "close_count p = length (filter (\<lambda>e. e = EvClose \<or> e = EvTransportClose) (pd_events p))"

definition producer_inv :: "'h producer_world \<Rightarrow> bool" where
  "producer_inv w \<longleftrightarrow>
     (\<forall>t. pd_track (pw_producer w) = Some t \<and> pd_disableTrackOnPause (pw_producer w)
        \<longrightarrow> mt_enabled (pw_tracks w t) = (\<not> pd_paused (pw_producer w)))
     \<and> close_count (pw_producer w) = (if pd_closed (pw_producer w) then 1 else 0)"

lemmas producer_op_defs = pd_close_def pd_transportClosed_def pd_pause_def pd_resume_def
  pd_setMaxSpatialLayer_def setRtpEncodingParameters_def pd_getStats_def pd_onTrackEnded_def
  replaceTrack_begin_def replaceTrack_end_def

lemmas track_op_defs = pd_destroyTrack_def pd_handleTrack_def set_paused_def on_track_def emit_events_def

lemma close_inv:
  "producer_inv w \<Longrightarrow> producer_inv (pd_close w)" "producer_inv w \<Longrightarrow> producer_inv (pd_transportClosed w)"
  by (auto simp: producer_inv_def close_count_def producer_op_defs track_op_defs Let_def split: option.splits)

lemma pause_inv:
  "producer_inv w \<Longrightarrow> producer_inv (pd_pause ops w)" "producer_inv w \<Longrightarrow> producer_inv (pd_resume ops w)"
  by (auto simp: producer_inv_def close_count_def producer_op_defs track_op_defs Let_def split: option.splits)

lemma request_inv:
  assumes "producer_inv w"
  shows "producer_inv (fst (pd_setMaxSpatialLayer ops v w))"
    "producer_inv (fst (setRtpEncodingParameters ops v w))" "producer_inv (fst (pd_getStats ops w))"
    "producer_inv (pd_onTrackEnded w)"
  using assms by (auto simp: producer_inv_def close_count_def producer_op_defs track_op_defs
      split: jsval.splits prod.splits option.splits)

lemma replace_inv:
  "producer_inv w \<Longrightarrow> producer_inv (replaceTrack_end track w)"
  "producer_inv w \<Longrightarrow> replaceTrack_begin track w = (w', r) \<Longrightarrow> producer_inv w'"
  by (auto simp: producer_inv_def close_count_def producer_op_defs track_op_defs Let_def
      split: option.splits if_splits)

lemma producer_inv_host: "producer_inv w \<Longrightarrow> producer_inv (w\<lparr>pw_host := h\<rparr>)"
  by (simp add: producer_inv_def)

lemma producer_step_inv: "producer_step ops r r' \<Longrightarrow> producer_inv (fst r) \<Longrightarrow> producer_inv (fst r')"
  by (induction rule: producer_step.induct)
     (auto intro: close_inv pause_inv request_inv replace_inv producer_inv_host)

lemma producer_run_inv: "(producer_step ops)\<^sup>*\<^sup>* r r' \<Longrightarrow> producer_inv (fst r) \<Longrightarrow> producer_inv (fst r')"
  by (induction rule: rtranclp_induct) (auto intro: producer_step_inv)

lemma new_Producer_inv: "producer_inv (new_Producer options tracks h)"
  by (auto simp: producer_inv_def new_Producer_def close_count_def Let_def track_op_defs)

section \<open>Properties\<close>

text \<open>C23: over any interleaving of calls on a producer, with track replacements still waiting for the
  transport, a producer that disables its track on pause has its track enabled exactly when it is
  not paused, and it announces its closing exactly once, when it is closed.\<close>

theorem producer_run_consistent:
  assumes "(producer_step ops)\<^sup>*\<^sup>* (new_Producer options tracks h, []) (w, waiting)"
  shows "(\<forall>t. pd_track (pw_producer w) = Some t \<and> pd_disableTrackOnPause (pw_producer w)
        \<longrightarrow> mt_enabled (pw_tracks w t) = (\<not> pd_paused (pw_producer w)))
     \<and> close_count (pw_producer w) = (if pd_closed (pw_producer w) then 1 else 0)"
proof -
  have "producer_inv w" using producer_run_inv [OF assms] new_Producer_inv [of options tracks h] by simp
  then show ?thesis unfolding producer_inv_def .
qed

definition camera_track :: media_track where
  "camera_track = \<lparr>mt_id = ''cam'', mt_kind = KVideo, mt_enabled = True, mt_ended = False, mt_listened = False\<rparr>"

definition camera_producer_options :: producer_options where
  "camera_producer_options = \<lparr>poc_id = ''p1'', poc_localId = ''l1'', poc_track = 0, poc_rtpParameters = VUndef,
     poc_stopTracks = True, poc_disableTrackOnPause = True, poc_zeroRtpOnPause = False\<rparr>"

definition idle_sender :: "unit sender_ops" where
  "idle_sender = \<lparr>so_getStats = \<lambda>h. (h, Inr []), so_pause = id, so_resume = id,
     so_replaceTrack = \<lambda>h t. (h, None), so_setMaxSpatialLayer = \<lambda>h n. (h, None),
     so_setRtpEncodingParameters = \<lambda>h v. (h, None)\<rparr>"

theorem producer_run_consistent_witness:
  "\<exists>w. (producer_step idle_sender)\<^sup>*\<^sup>* (new_Producer camera_producer_options (\<lambda>_. camera_track) (), []) (w, [])
     \<and> pd_track (pw_producer w) = Some 0 \<and> pd_disableTrackOnPause (pw_producer w)
     \<and> mt_enabled (pw_tracks w 0) = (\<not> pd_paused (pw_producer w)) \<and> pd_paused (pw_producer w)"
proof -
  let ?start = "new_Producer camera_producer_options (\<lambda>_. camera_track) ()"
  let ?w = "pd_pause idle_sender ?start"
  have r: "(producer_step idle_sender)\<^sup>*\<^sup>* (?start, []) (?w, [])" by (rule r_into_rtranclp, rule run_pause)
  have f: "pd_track (pw_producer ?w) = Some 0" "pd_disableTrackOnPause (pw_producer ?w)"
    "pd_paused (pw_producer ?w)"
    by (simp_all add: pd_pause_def new_Producer_def camera_producer_options_def camera_track_def Let_def
        track_op_defs)
  from producer_run_consistent [OF r] r f show ?thesis by blast
qed

text \<open>a track replacement that is waiting when its producer closes escapes: once the transport
  agrees, the closed producer holds the new track, listens to it, and has not stopped it although
  it was told to stop its tracks.\<close>

theorem replacement_survives_close:
  "\<exists>w t. (producer_step idle_sender)\<^sup>*\<^sup>* (new_Producer camera_producer_options (\<lambda>_. camera_track) (), []) (w, [])
     \<and> pd_closed (pw_producer w) \<and> pd_stopTracks (pw_producer w)
     \<and> pd_track (pw_producer w) = Some t \<and> \<not> mt_ended (pw_tracks w t) \<and> mt_listened (pw_tracks w t)"
proof -
  let ?start = "new_Producer camera_producer_options (\<lambda>_. camera_track) ()"
  let ?w = "replaceTrack_end (Some 1) ((pd_close ?start)\<lparr>pw_host := ()\<rparr>)"
  have b: "replaceTrack_begin (Some 1) ?start = (?start, Inr True)"
    by (simp add: replaceTrack_begin_def new_Producer_def camera_producer_options_def camera_track_def
        Let_def track_op_defs)
  have "producer_step idle_sender (pd_close ?start, [] @ Some 1 # []) (?w, [] @ [])" by (rule run_agreed)
  then have "(producer_step idle_sender)\<^sup>*\<^sup>* (?start, []) (?w, [])"
    using run_ask [OF b, of idle_sender "[]"] run_close [of idle_sender ?start "[Some 1]"]
    by (auto intro: converse_rtranclp_into_rtranclp)
  then show ?thesis
    by (intro exI [of _ ?w] exI [of _ 1])
       (simp add: replaceTrack_end_def pd_close_def new_Producer_def camera_producer_options_def
         camera_track_def Let_def track_op_defs)
qed

end
