(* ===== verification/ProducerAdapter.thy ===== *)
theory ProducerAdapter
  imports Producer
begin

text \<open>
  \<open>adapters/producerAdapter.js\<close>: the bridge from QoS actions to a producer. Every operation answers
  with \<open>applied\<close> and a reason instead of throwing.
\<close>

record adapter_result =
  ar_applied :: bool
  ar_reason :: "string option"

abbreviation applied_ok :: adapter_result where
  "applied_ok \<equiv> \<lparr>ar_applied = True, ar_reason = None\<rparr>"

abbreviation refused :: "string \<Rightarrow> adapter_result" where
  "refused r \<equiv> \<lparr>ar_applied = False, ar_reason = Some r\<rparr>"

text \<open>\<open>error.message\<close> of a caught value; what is not an \<open>Error\<close> has no message.\<close>

fun err_message :: "js_error \<Rightarrow> string" where
  "err_message (TypeError m) = m"
| "err_message (InvalidStateError m) = m"
| "err_message (UnsupportedError m) = m"
| "err_message (OtherError m) = m"

fun thrown_message :: "thrown \<Rightarrow> string option" where
  "thrown_message (ThrownError e) = Some (err_message e)"
| "thrown_message (ThrownValue v) = None"

definition result_of :: "thrown option \<Rightarrow> adapter_result" where
  "result_of r = (case r of None \<Rightarrow> applied_ok | Some t \<Rightarrow> \<lparr>ar_applied = False, ar_reason = thrown_message t\<rparr>)"

definition opt_field :: "string \<Rightarrow> jsval option \<Rightarrow> jsobj" where
  "opt_field k v = (case v of None \<Rightarrow> [] | Some x \<Rightarrow> [(k, x)])"

definition mapEncodingParameters :: "encoding_parameters \<Rightarrow> jsval" where
  "mapEncodingParameters p = VObj
     (opt_field ''maxBitrate'' (map_option VNum (ep_maxBitrateBps p))
      @ opt_field ''maxFramerate'' (map_option VNum (ep_maxFramerate p))
      @ opt_field ''scaleResolutionDownBy'' (map_option VNum (ep_scaleResolutionDownBy p))
      @ opt_field ''adaptivePtime'' (map_option VBool (ep_adaptivePtime p)))"

record snapshot_base =
  sb_source :: qos_source
  sb_kind :: track_kind
  sb_producerId :: string
  sb_trackId :: "string option"
  sb_configuredBitrateBps :: "number option"

text \<open>Reading a property of any value; \<open>?.\<close> answers \<open>undefined\<close> on \<open>undefined\<close> and \<open>null\<close>.\<close>

fun opt_prop :: "jsval \<Rightarrow> string \<Rightarrow> jsval" where
  "opt_prop (VObj fs) k = obj_get fs k"
| "opt_prop v k = VUndef"

definition encoding_bitrate :: "jsval \<Rightarrow> number" where
  "encoding_bitrate e =
     (case opt_prop e ''maxBitrate'' of
        VNum n \<Rightarrow> if is_finite n \<and> js_gt n (Fin 0) then n else Fin 0
      | _ \<Rightarrow> Fin 0)"

definition getSnapshotBase :: "qos_source \<Rightarrow> 'h producer_world \<Rightarrow> snapshot_base" where
  "getSnapshotBase source w =
     (let p = pw_producer w;
          configured = (case opt_prop (pd_rtpParameters p) ''encodings'' of
            VArr encodings \<Rightarrow>
              if encodings = [] then None
              else let sum = foldl (\<lambda>acc e. js_add acc (encoding_bitrate e)) (Fin 0) encodings
                in if js_gt sum (Fin 0) then Some sum else None
          | _ \<Rightarrow> None)
      in \<lparr>sb_source = source, sb_kind = pd_kind p, sb_producerId = pd_id p,
          sb_trackId = map_option (\<lambda>t. mt_id (pw_tracks w t)) (pd_track p),
          sb_configuredBitrateBps = configured\<rparr>)"

definition getStatsReport :: "'h sender_ops \<Rightarrow> 'h producer_world \<Rightarrow> 'h producer_world \<times> (thrown + jsval list)" where
  "getStatsReport ops w = pd_getStats ops w"

definition pa_setEncodingParameters ::
    "'h sender_ops \<Rightarrow> encoding_parameters \<Rightarrow> 'h producer_world \<Rightarrow> 'h producer_world \<times> adapter_result" where
  "pa_setEncodingParameters ops parameters w =
     (if pd_closed (pw_producer w) then (w, refused ''producer-closed'')
      else case setRtpEncodingParameters ops (mapEncodingParameters parameters) w of
          (w', r) \<Rightarrow> (w', result_of r))"

definition pa_setMaxSpatialLayer ::
    "'h sender_ops \<Rightarrow> number \<Rightarrow> 'h producer_world \<Rightarrow> 'h producer_world \<times> adapter_result" where
  "pa_setMaxSpatialLayer ops spatialLayer w =
     (if pd_closed (pw_producer w) then (w, refused ''producer-closed'')
      else if pd_kind (pw_producer w) \<noteq> KVideo then (w, refused ''not-video-producer'')
      else case pd_setMaxSpatialLayer ops (VNum spatialLayer) w of (w', r) \<Rightarrow> (w', result_of r))"

definition pauseUpstream :: "'h sender_ops \<Rightarrow> 'h producer_world \<Rightarrow> 'h producer_world \<times> adapter_result" where
  "pauseUpstream ops w =
     (if pd_closed (pw_producer w) then (w, refused ''producer-closed'') else (pd_pause ops w, applied_ok))"

definition resumeUpstream :: "'h sender_ops \<Rightarrow> 'h producer_world \<Rightarrow> 'h producer_world \<times> adapter_result" where
  "resumeUpstream ops w =
     (if pd_closed (pw_producer w) then (w, refused ''producer-closed'') else (pd_resume ops w, applied_ok))"

section \<open>The sink of the executor\<close>

text \<open>\<open>createProducerActionSink\<close> of \<open>factory.js\<close>: an action that is not applied is thrown.\<close>

definition sink_call_adapter ::
    "'h sender_ops \<Rightarrow> 'h producer_world \<Rightarrow> qos_action \<Rightarrow> 'h producer_world \<times> adapter_result" where
  "sink_call_adapter ops w action =
     (case action of
        SetEncodingParameters _ ep \<Rightarrow> pa_setEncodingParameters ops ep w
      | SetMaxSpatialLayer _ l \<Rightarrow> pa_setMaxSpatialLayer ops l w
      | EnterAudioOnly _ _ \<Rightarrow> pauseUpstream ops w
      | PauseUpstream _ \<Rightarrow> pauseUpstream ops w
      | ExitAudioOnly _ _ \<Rightarrow> resumeUpstream ops w
      | ResumeUpstream _ \<Rightarrow> resumeUpstream ops w
      | Noop _ _ \<Rightarrow> (w, applied_ok))"

definition createProducerActionSink ::
    "'h sender_ops \<Rightarrow> 'h producer_world \<Rightarrow> qos_action \<Rightarrow> 'h producer_world \<times> thrown option" where
  "createProducerActionSink ops w action =
     (case sink_call_adapter ops w action of (w', r) \<Rightarrow>
        (w', if ar_applied r then None
             else Some (ThrownError (OtherError (case ar_reason r of
               Some m \<Rightarrow> m | None \<Rightarrow> ''producer adapter action not applied'')))))"

section \<open>What an action leaves behind\<close>

lemma result_of_applied [simp]: "ar_applied (result_of r) \<longleftrightarrow> r = None"
  by (simp add: result_of_def split: option.splits)

lemma pause_fields [simp]:
  "pd_paused (pw_producer (pd_pause ops w)) = (pd_paused (pw_producer w) \<or> \<not> pd_closed (pw_producer w))"
  "pd_closed (pw_producer (pd_pause ops w)) = pd_closed (pw_producer w)"
  "pd_paused (pw_producer (pd_resume ops w)) = (pd_paused (pw_producer w) \<and> pd_closed (pw_producer w))"
  "pd_closed (pw_producer (pd_resume ops w)) = pd_closed (pw_producer w)"
  by (auto simp: pd_pause_def pd_resume_def Let_def track_op_defs split: option.splits)

lemma request_fields:
  "pd_paused (pw_producer (fst (pd_setMaxSpatialLayer ops v w))) = pd_paused (pw_producer w)"
  "pd_closed (pw_producer (fst (pd_setMaxSpatialLayer ops v w))) = pd_closed (pw_producer w)"
  "pw_producer (fst (setRtpEncodingParameters ops v w)) = pw_producer w"
  by (auto simp: pd_setMaxSpatialLayer_def setRtpEncodingParameters_def split: jsval.splits prod.splits)

definition pauses :: "qos_action \<Rightarrow> bool" where
  "pauses a \<longleftrightarrow> a_type a = TEnterAudioOnly \<or> a_type a = TPauseUpstream"

definition resumes :: "qos_action \<Rightarrow> bool" where
  "resumes a \<longleftrightarrow> a_type a = TExitAudioOnly \<or> a_type a = TResumeUpstream"

text \<open>The effect of the sink on the pause flag of the producer.\<close>

lemma sink_paused:
  assumes "createProducerActionSink ops w a = (w', r)"
  shows "pd_closed (pw_producer w') = pd_closed (pw_producer w)"
    and "pd_paused (pw_producer w') =
      (if r = None \<and> pauses a then True else if r = None \<and> resumes a then False
       else pd_paused (pw_producer w))"
    and "pd_closed (pw_producer w) \<Longrightarrow> a_type a \<noteq> TNoop \<Longrightarrow> r \<noteq> None \<and> w' = w"
proof -
  obtain r' where r': "sink_call_adapter ops w a = (w', r')" "r = None \<longleftrightarrow> ar_applied r'"
    using assms by (auto simp: createProducerActionSink_def split: prod.splits if_splits)
  show "pd_closed (pw_producer w') = pd_closed (pw_producer w)"
    "pd_paused (pw_producer w') =
      (if r = None \<and> pauses a then True else if r = None \<and> resumes a then False
       else pd_paused (pw_producer w))"
    "pd_closed (pw_producer w) \<Longrightarrow> a_type a \<noteq> TNoop \<Longrightarrow> r \<noteq> None \<and> w' = w"
    using r' request_fields [of ops _ w]
    by (cases a; auto simp: sink_call_adapter_def pa_setEncodingParameters_def pa_setMaxSpatialLayer_def
        pauseUpstream_def resumeUpstream_def pauses_def resumes_def split: if_splits prod.splits;
        metis fst_conv)+
qed

section \<open>Properties\<close>

text \<open>what an action does to a producer through the adapter and the sink. On a closed producer every
  action but the no-op is refused with a thrown error and nothing changes; on an open one entering
  audio-only and pausing always succeed and leave it paused, leaving audio-only and resuming always
  succeed and leave it sending, and every other action, applied or not, leaves the pause flag alone.\<close>

theorem sink_effect:
  "case createProducerActionSink ops w a of (w', r) \<Rightarrow>
     pd_closed (pw_producer w') = pd_closed (pw_producer w)
     \<and> (if pd_closed (pw_producer w) \<and> a_type a \<noteq> TNoop
        then w' = w \<and> r = Some (ThrownError (OtherError ''producer-closed''))
        else if pauses a then r = None \<and> pd_paused (pw_producer w')
        else if resumes a then r = None \<and> \<not> pd_paused (pw_producer w')
        else pd_paused (pw_producer w') = pd_paused (pw_producer w))"
proof (cases "createProducerActionSink ops w a")
  case (Pair w' r)
  have ok: "r = None" if "\<not> pd_closed (pw_producer w)" "pauses a \<or> resumes a"
    using Pair that by (cases a) (auto simp: createProducerActionSink_def sink_call_adapter_def
        pauseUpstream_def resumeUpstream_def pauses_def resumes_def)
  have ref: "w' = w \<and> r = Some (ThrownError (OtherError ''producer-closed''))"
    if "pd_closed (pw_producer w)" "a_type a \<noteq> TNoop"
    using Pair that by (cases a) (auto simp: createProducerActionSink_def sink_call_adapter_def
        pauseUpstream_def resumeUpstream_def pa_setEncodingParameters_def pa_setMaxSpatialLayer_def)
  have pr: "a_type a = TNoop \<Longrightarrow> \<not> pauses a" "a_type a = TNoop \<Longrightarrow> \<not> resumes a" "pauses a \<Longrightarrow> \<not> resumes a"
    by (auto simp: pauses_def resumes_def)
  show ?thesis using ok ref pr sink_paused(1,2) [OF Pair] by (auto simp: Pair)
qed

end
