(* ===== verification/StatsProvider.thy ===== *)
theory StatsProvider
  imports ProducerAdapter
begin

text \<open>
  \<open>adapters/statsProvider.js\<close>: one snapshot out of a WebRTC statistics report. A report is the list of
  its entries; entries are untyped values. The provider keeps, per remote report, the timestamp of
  the last one whose round-trip time and jitter it used.
\<close>

section \<open>Reading entries\<close>

definition sp_isObject :: "jsval \<Rightarrow> bool" where
  "sp_isObject v = (case v of VObj _ \<Rightarrow> True | VArr _ \<Rightarrow> True | _ \<Rightarrow> False)"

definition readNumber :: "jsval \<Rightarrow> string \<Rightarrow> number option" where
  "readNumber obj key = (case opt_prop obj key of VNum n \<Rightarrow> if is_finite n then Some n else None | _ \<Rightarrow> None)"

definition readString :: "jsval \<Rightarrow> string \<Rightarrow> string option" where
  "readString obj key = (case opt_prop obj key of VStr s \<Rightarrow> Some s | _ \<Rightarrow> None)"

definition normalizeTimeToMs :: "number option \<Rightarrow> number option" where
  "normalizeTimeToMs value =
     (case value of
        None \<Rightarrow> None
      | Some v \<Rightarrow> if \<not> is_finite v then None
          else if js_ge v (Fin 0) \<and> js_le v (Fin 10) then Some (js_mul v (Fin 1000)) else Some v)"

definition readQualityLimitationReason :: "jsval \<Rightarrow> limitation_reason option" where
  "readQualityLimitationReason value =
     (case value of
        VStr s \<Rightarrow> Some (if s = ''bandwidth'' then LBandwidth else if s = ''cpu'' then LCpu
          else if s = ''other'' then LOther else if s = ''none'' then LNone else LUnknown)
      | _ \<Rightarrow> None)"

text \<open>\<open>Object.entries\<close> of an object or an array.\<close>

fun obj_entries :: "jsval \<Rightarrow> (string \<times> jsval) list" where
  "obj_entries (VObj fs) = fs"
| "obj_entries (VArr vs) = zip (map nat_str [0..<length vs]) vs"
| "obj_entries v = []"

definition appendQualityDurations :: "(string, number) jsmap \<Rightarrow> jsval \<Rightarrow> (string, number) jsmap" where
  "appendQualityDurations acc value =
     foldl (\<lambda>acc (key, raw). case raw of
         VNum n \<Rightarrow> if is_finite n
           then jm_set key (js_add (case jm_get acc key of None \<Rightarrow> Fin 0 | Some m \<Rightarrow> m) n) acc else acc
       | _ \<Rightarrow> acc) acc (obj_entries value)"

definition snapshotFromBase :: "snapshot_base \<Rightarrow> number \<Rightarrow> raw_snapshot" where
  "snapshotFromBase base now = \<lparr>rs_timestampMs = now, rs_trackId = sb_trackId base,
     rs_producerId = Some (sb_producerId base), rs_source = sb_source base, rs_kind = sb_kind base,
     rs_bytesSent = None, rs_packetsSent = None, rs_packetsLost = None, rs_retransmittedPacketsSent = None,
     rs_targetBitrateBps = None, rs_configuredBitrateBps = sb_configuredBitrateBps base,
     rs_roundTripTimeMs = None, rs_jitterMs = None, rs_frameWidth = None, rs_frameHeight = None,
     rs_framesPerSecond = None, rs_qualityLimitationReason = None, rs_qualityLimitationDurationsSec = None\<rparr>"

definition roundMetric :: "number \<Rightarrow> number \<Rightarrow> number option" where
  "roundMetric sumMs count =
     (if js_gt count (Fin 0)
      then Some (js_div (js_round (js_mul (js_div sumMs count) (Fin 1000))) (Fin 1000)) else None)"

definition isSelectedCandidatePair :: "jsval \<Rightarrow> bool" where
  "isSelectedCandidatePair entry \<longleftrightarrow>
     opt_prop entry ''selected'' = VBool True
     \<or> (opt_prop entry ''nominated'' = VBool True
        \<and> (readString entry ''state'' = None \<or> readString entry ''state'' = Some ''succeeded''))"

section \<open>Sorting the entries of a report\<close>

record report_tables =
  rt_remoteById :: "(string, jsval) jsmap"
  rt_candidatePairsById :: "(string, jsval) jsmap"
  rt_selectedCandidatePairs :: "jsval list"
  rt_transportsById :: "(string, jsval) jsmap"
  rt_outbounds :: "jsval list"

definition put_by_id :: "jsval \<Rightarrow> (string, jsval) jsmap \<Rightarrow> (string, jsval) jsmap" where
  "put_by_id entry m =
     (case readString entry ''id'' of Some i \<Rightarrow> if i \<noteq> [] then jm_set i entry m else m | None \<Rightarrow> m)"

definition collect_entry :: "report_tables \<Rightarrow> jsval \<Rightarrow> report_tables" where
  "collect_entry t entry =
     (if \<not> sp_isObject entry then t
      else let type = (case readString entry ''type'' of Some s \<Rightarrow> s | None \<Rightarrow> [])
        in if type = ''remote-inbound-rtp''
           then t\<lparr>rt_remoteById := put_by_id entry (rt_remoteById t)\<rparr>
           else if type = ''candidate-pair''
           then t\<lparr>rt_candidatePairsById := put_by_id entry (rt_candidatePairsById t),
                  rt_selectedCandidatePairs := rt_selectedCandidatePairs t
                    @ (if isSelectedCandidatePair entry then [entry] else [])\<rparr>
           else if type = ''transport''
           then t\<lparr>rt_transportsById := put_by_id entry (rt_transportsById t)\<rparr>
           else if type \<noteq> ''outbound-rtp'' \<or> opt_prop entry ''isRemote'' = VBool True then t
           else t\<lparr>rt_outbounds := rt_outbounds t @ [entry]\<rparr>)"

definition collect_report :: "jsval list \<Rightarrow> report_tables" where
  "collect_report report =
     foldl collect_entry \<lparr>rt_remoteById = [], rt_candidatePairsById = [], rt_selectedCandidatePairs = [],
       rt_transportsById = [], rt_outbounds = []\<rparr> report"

definition or_empty :: "jsval option \<Rightarrow> jsval" where
  "or_empty v = (case v of Some x \<Rightarrow> x | None \<Rightarrow> VObj [])"

definition nonempty :: "string option \<Rightarrow> string option" where
  "nonempty s = (case s of Some [] \<Rightarrow> None | _ \<Rightarrow> s)"

definition resolveCandidatePair :: "report_tables \<Rightarrow> jsval \<Rightarrow> jsval option" where
  "resolveCandidatePair t outbound =
     (let byTransport = (case nonempty (readString outbound ''transportId'') of
            None \<Rightarrow> None
          | Some i \<Rightarrow>
              (case nonempty (readString (or_empty (jm_get (rt_transportsById t) i)) ''selectedCandidatePairId'') of
                 None \<Rightarrow> None
               | Some p \<Rightarrow> jm_get (rt_candidatePairsById t) p))
      in case byTransport of
           Some c \<Rightarrow> Some c
         | None \<Rightarrow> (case rt_selectedCandidatePairs t of [c] \<Rightarrow> Some c | _ \<Rightarrow> None))"

section \<open>Summing over the outbound streams\<close>

record stats_acc =
  ac_timestampMs :: number
  ac_bytesSent :: number
  ac_packetsSent :: number
  ac_packetsLost :: number
  ac_retransmittedPacketsSent :: number
  ac_targetBitrateBps :: number
  ac_frameWidth :: number
  ac_frameHeight :: number
  ac_framesPerSecond :: number
  ac_qualityLimitationReason :: "limitation_reason option"
  ac_durations :: "(string, number) jsmap"
  ac_transportRttSumMs :: number
  ac_transportRttCount :: nat
  ac_fallbackRttSumMs :: number
  ac_fallbackRttCount :: nat
  ac_jitterSumMs :: number
  ac_jitterCount :: nat
  ac_nextRemoteTimestampsMs :: "(string, number) jsmap"
  ac_seenCandidatePairIds :: "string list"

definition acc_init :: "(string, number) jsmap \<Rightarrow> stats_acc" where
  "acc_init lastTs = \<lparr>ac_timestampMs = Fin 0, ac_bytesSent = Fin 0, ac_packetsSent = Fin 0,
     ac_packetsLost = Fin 0, ac_retransmittedPacketsSent = Fin 0, ac_targetBitrateBps = Fin 0,
     ac_frameWidth = Fin 0, ac_frameHeight = Fin 0, ac_framesPerSecond = Fin 0,
     ac_qualityLimitationReason = None, ac_durations = [], ac_transportRttSumMs = Fin 0,
     ac_transportRttCount = 0, ac_fallbackRttSumMs = Fin 0, ac_fallbackRttCount = 0,
     ac_jitterSumMs = Fin 0, ac_jitterCount = 0, ac_nextRemoteTimestampsMs = lastTs,
     ac_seenCandidatePairIds = []\<rparr>"

definition or_zero :: "number option \<Rightarrow> number" where
  "or_zero v = (case v of Some n \<Rightarrow> n | None \<Rightarrow> Fin 0)"

definition add_counters :: "jsval \<Rightarrow> stats_acc \<Rightarrow> stats_acc" where
  "add_counters outbound a = a\<lparr>
     ac_timestampMs := (case readNumber outbound ''timestamp'' of
        Some ts \<Rightarrow> if js_gt ts (ac_timestampMs a) then ts else ac_timestampMs a
      | None \<Rightarrow> ac_timestampMs a),
     ac_bytesSent := js_add (ac_bytesSent a) (or_zero (readNumber outbound ''bytesSent'')),
     ac_packetsSent := js_add (ac_packetsSent a) (or_zero (readNumber outbound ''packetsSent'')),
     ac_retransmittedPacketsSent := js_add (ac_retransmittedPacketsSent a)
       (or_zero (readNumber outbound ''retransmittedPacketsSent'')),
     ac_targetBitrateBps := js_add (ac_targetBitrateBps a) (or_zero (readNumber outbound ''targetBitrate'')),
     ac_frameWidth := js_max (ac_frameWidth a) (or_zero (readNumber outbound ''frameWidth'')),
     ac_frameHeight := js_max (ac_frameHeight a) (or_zero (readNumber outbound ''frameHeight'')),
     ac_framesPerSecond := js_max (ac_framesPerSecond a) (or_zero (readNumber outbound ''framesPerSecond'')),
     ac_qualityLimitationReason := (case ac_qualityLimitationReason a of
        Some r \<Rightarrow> Some r
      | None \<Rightarrow> readQualityLimitationReason (opt_prop outbound ''qualityLimitationReason'')),
     ac_durations := appendQualityDurations (ac_durations a) (opt_prop outbound ''qualityLimitationDurations'')\<rparr>"

text \<open>The round-trip time of the candidate pair, once per pair.\<close>

definition add_transport_rtt :: "report_tables \<Rightarrow> jsval \<Rightarrow> stats_acc \<Rightarrow> stats_acc" where
  "add_transport_rtt t outbound a =
     (let pair = or_empty (resolveCandidatePair t outbound);
          pairId = nonempty (readString pair ''id'')
      in if pairId \<noteq> None \<and> the pairId \<in> set (ac_seenCandidatePairIds a) then a
         else let a1 = (case normalizeTimeToMs (readNumber pair ''currentRoundTripTime'') of
                 Some r \<Rightarrow> a\<lparr>ac_transportRttSumMs := js_add (ac_transportRttSumMs a) r,
                    ac_transportRttCount := ac_transportRttCount a + 1\<rparr>
               | None \<Rightarrow> a)
           in case pairId of
                Some i \<Rightarrow> a1\<lparr>ac_seenCandidatePairIds := ac_seenCandidatePairIds a1 @ [i]\<rparr>
              | None \<Rightarrow> a1)"

definition remote_of :: "report_tables \<Rightarrow> jsval \<Rightarrow> jsval option" where
  "remote_of t outbound =
     (case nonempty (readString outbound ''remoteId'') of
        None \<Rightarrow> None | Some i \<Rightarrow> jm_get (rt_remoteById t) i)"

text \<open>Whether the remote report of a stream is one not used before.\<close>

definition remote_fresh :: "(string, number) jsmap \<Rightarrow> report_tables \<Rightarrow> jsval \<Rightarrow> bool" where
  "remote_fresh lastTs t outbound =
     (case remote_of t outbound of
        None \<Rightarrow> False
      | Some remote \<Rightarrow>
          (case readNumber remote ''timestamp'' of
             None \<Rightarrow> True
           | Some ts \<Rightarrow>
               (case nonempty (readString outbound ''remoteId'') of
                  None \<Rightarrow> True
                | Some i \<Rightarrow> (case jm_get lastTs i of None \<Rightarrow> True | Some prev \<Rightarrow> js_gt ts prev))))"

definition remote_metric ::
    "(string, number) jsmap \<Rightarrow> report_tables \<Rightarrow> jsval \<Rightarrow> string \<Rightarrow> number option" where
  "remote_metric lastTs t outbound key =
     (if remote_fresh lastTs t outbound
      then normalizeTimeToMs (readNumber (or_empty (remote_of t outbound)) key)
      else if remote_of t outbound \<noteq> None then None
      else normalizeTimeToMs (readNumber outbound key))"

definition add_remote ::
    "(string, number) jsmap \<Rightarrow> report_tables \<Rightarrow> jsval \<Rightarrow> stats_acc \<Rightarrow> stats_acc" where
  "add_remote lastTs t outbound a =
     (let remote = remote_of t outbound;
          loss = (case remote of
             Some r \<Rightarrow> readNumber r ''packetsLost'' | None \<Rightarrow> readNumber outbound ''packetsLost'');
          rtt = remote_metric lastTs t outbound ''roundTripTime'';
          jitter = remote_metric lastTs t outbound ''jitter''
      in a\<lparr>ac_packetsLost := js_add (ac_packetsLost a) (or_zero loss),
           ac_nextRemoteTimestampsMs :=
             (case (nonempty (readString outbound ''remoteId''), readNumber (or_empty remote) ''timestamp'') of
                (Some i, Some ts) \<Rightarrow> if remote_fresh lastTs t outbound
                  then jm_set i ts (ac_nextRemoteTimestampsMs a) else ac_nextRemoteTimestampsMs a
              | _ \<Rightarrow> ac_nextRemoteTimestampsMs a),
           ac_fallbackRttSumMs := (case rtt of
              Some r \<Rightarrow> js_add (ac_fallbackRttSumMs a) r | None \<Rightarrow> ac_fallbackRttSumMs a),
           ac_fallbackRttCount := (case rtt of
              Some r \<Rightarrow> ac_fallbackRttCount a + 1 | None \<Rightarrow> ac_fallbackRttCount a),
           ac_jitterSumMs := (case jitter of
              Some j \<Rightarrow> js_add (ac_jitterSumMs a) j | None \<Rightarrow> ac_jitterSumMs a),
           ac_jitterCount := (case jitter of Some j \<Rightarrow> ac_jitterCount a + 1 | None \<Rightarrow> ac_jitterCount a)\<rparr>)"

definition outbound_step ::
    "(string, number) jsmap \<Rightarrow> report_tables \<Rightarrow> stats_acc \<Rightarrow> jsval \<Rightarrow> stats_acc" where
  "outbound_step lastTs t a outbound =
     add_remote lastTs t outbound (add_transport_rtt t outbound (add_counters outbound a))"

definition positive :: "number \<Rightarrow> number option" where
  "positive n = (if js_gt n (Fin 0) then Some n else None)"

definition snapshot_of_acc :: "snapshot_base \<Rightarrow> number \<Rightarrow> stats_acc \<Rightarrow> raw_snapshot" where
  "snapshot_of_acc base now a = (snapshotFromBase base now)\<lparr>
     rs_timestampMs := (if js_le (ac_timestampMs a) (Fin 0) then now else ac_timestampMs a),
     rs_bytesSent := positive (ac_bytesSent a),
     rs_packetsSent := positive (ac_packetsSent a),
     rs_packetsLost := positive (ac_packetsLost a),
     rs_retransmittedPacketsSent := positive (ac_retransmittedPacketsSent a),
     rs_targetBitrateBps := positive (ac_targetBitrateBps a),
     rs_roundTripTimeMs := (if 0 < ac_transportRttCount a
        then roundMetric (ac_transportRttSumMs a) (Fin (of_nat (ac_transportRttCount a)))
        else roundMetric (ac_fallbackRttSumMs a) (Fin (of_nat (ac_fallbackRttCount a)))),
     rs_jitterMs := roundMetric (ac_jitterSumMs a) (Fin (of_nat (ac_jitterCount a))),
     rs_frameWidth := positive (ac_frameWidth a),
     rs_frameHeight := positive (ac_frameHeight a),
     rs_framesPerSecond := positive (ac_framesPerSecond a),
     rs_qualityLimitationReason := Some (case ac_qualityLimitationReason a of Some r \<Rightarrow> r | None \<Rightarrow> LUnknown),
     rs_qualityLimitationDurationsSec := (if ac_durations a = [] then None else Some (ac_durations a))\<rparr>"

definition snapshot_of_report ::
    "snapshot_base \<Rightarrow> number \<Rightarrow> (string, number) jsmap \<Rightarrow> jsval list
     \<Rightarrow> (string, number) jsmap \<times> raw_snapshot" where
  "snapshot_of_report base now lastTs report =
     (let t = collect_report report
      in if rt_outbounds t = [] then (lastTs, snapshotFromBase base now)
         else let a = foldl (outbound_step lastTs t) (acc_init lastTs) (rt_outbounds t)
           in (ac_nextRemoteTimestampsMs a, snapshot_of_acc base now a))"

text \<open>\<open>getSnapshot\<close>: the provider's state is its map of timestamps.\<close>

definition getSnapshot ::
    "'h sender_ops \<Rightarrow> qos_source \<Rightarrow> number \<Rightarrow> (string, number) jsmap \<Rightarrow> 'h producer_world
     \<Rightarrow> ((string, number) jsmap \<times> 'h producer_world) \<times> (thrown + raw_snapshot)" where
  "getSnapshot ops source now lastTs w =
     (let base = getSnapshotBase source w
      in case getStatsReport ops w of
           (w', Inl t) \<Rightarrow> ((lastTs, w'), Inl t)
         | (w', Inr report) \<Rightarrow>
             (case snapshot_of_report base now lastTs report of (lastTs', s) \<Rightarrow> ((lastTs', w'), Inr s)))"

section \<open>Remote reports are used once\<close>

definition rid :: "jsval \<Rightarrow> string option" where
  "rid o' = nonempty (readString o' ''remoteId'')"

definition stamped :: "report_tables \<Rightarrow> jsval \<Rightarrow> string \<Rightarrow> number \<Rightarrow> bool" where
  "stamped t o' i ts \<longleftrightarrow> rid o' = Some i
     \<and> (\<exists>r. jm_get (rt_remoteById t) i = Some r \<and> readNumber r ''timestamp'' = Some ts)"

lemma stamped_unique: "stamped t o1 i ts \<Longrightarrow> stamped t o2 i ts' \<Longrightarrow> ts = ts'"
  by (auto simp: stamped_def)

lemma readNumber_finite: "readNumber v k = Some n \<Longrightarrow> is_finite n"
  by (auto simp: readNumber_def split: jsval.splits if_splits)

lemma stamped_fresh:
  "stamped t o' i ts \<Longrightarrow> remote_fresh lastTs t o' \<longleftrightarrow> (\<forall>prev. jm_get lastTs i = Some prev \<longrightarrow> js_gt ts prev)"
  by (auto simp: stamped_def remote_fresh_def remote_of_def rid_def split: option.splits)

text \<open>How one stream changes the map of timestamps.\<close>

lemma outbound_step_next_eq:
  "ac_nextRemoteTimestampsMs (outbound_step lastTs t a o') =
     (case (rid o', readNumber (or_empty (remote_of t o')) ''timestamp'') of
        (Some i, Some ts) \<Rightarrow> if remote_fresh lastTs t o'
          then jm_set i ts (ac_nextRemoteTimestampsMs a) else ac_nextRemoteTimestampsMs a
      | _ \<Rightarrow> ac_nextRemoteTimestampsMs a)"
proof -
  have "ac_nextRemoteTimestampsMs (add_transport_rtt t o' (add_counters o' a)) = ac_nextRemoteTimestampsMs a"
    by (auto simp: add_transport_rtt_def add_counters_def Let_def split: option.splits)
  then show ?thesis
    by (simp add: outbound_step_def add_remote_def Let_def rid_def split: option.splits)
qed

lemma stamped_next:
  "stamped t o' i ts \<Longrightarrow> jm_get (ac_nextRemoteTimestampsMs (outbound_step lastTs t a o')) i =
     (if remote_fresh lastTs t o' then Some ts else jm_get (ac_nextRemoteTimestampsMs a) i)"
  by (auto simp: outbound_step_next_eq stamped_def remote_of_def rid_def or_empty_def jm.get_put)

lemma unstamped_next:
  assumes "\<And>ts. \<not> stamped t o' i ts"
  shows "jm_get (ac_nextRemoteTimestampsMs (outbound_step lastTs t a o')) i = jm_get (ac_nextRemoteTimestampsMs a) i"
proof (cases "rid o' = Some i")
  case True
  have "readNumber (VObj []) ''timestamp'' = None" by (simp add: readNumber_def)
  then have "readNumber (or_empty (remote_of t o')) ''timestamp'' = None"
    using assms True by (cases "jm_get (rt_remoteById t) i"; cases "readNumber (or_empty (remote_of t o')) ''timestamp''")
      (auto simp: stamped_def remote_of_def or_empty_def rid_def)
  then show ?thesis by (simp add: outbound_step_next_eq True)
next
  case False
  then show ?thesis by (auto simp: outbound_step_next_eq jm.get_put split: option.splits)
qed

definition covered :: "(string, number) jsmap \<Rightarrow> report_tables \<Rightarrow> jsval list \<Rightarrow> (string, number) jsmap \<Rightarrow> bool" where
  "covered lastTs t os m \<longleftrightarrow>
     (\<forall>i x. jm_get lastTs i = Some x \<longrightarrow> (\<exists>y. jm_get m i = Some y \<and> (y = x \<or> js_gt y x)))
     \<and> (\<forall>o' \<in> set os. \<forall>i ts. stamped t o' i ts \<longrightarrow> (\<exists>y. jm_get m i = Some y \<and> js_ge y ts))
     \<and> (\<forall>i y. jm_get m i = Some y \<longrightarrow> is_finite y)"

definition all_finite :: "(string, number) jsmap \<Rightarrow> bool" where
  "all_finite m \<longleftrightarrow> (\<forall>i x. jm_get m i = Some x \<longrightarrow> is_finite x)"

lemma finite_order:
  "is_finite x \<Longrightarrow> is_finite y \<Longrightarrow> \<not> js_gt x y \<longleftrightarrow> js_ge y x"
  "is_finite x \<Longrightarrow> is_finite y \<Longrightarrow> is_finite z \<Longrightarrow> js_gt x y \<Longrightarrow> js_ge y z \<Longrightarrow> js_ge x z"
  "is_finite x \<Longrightarrow> js_ge x x"
  by (cases x; cases y; cases z; auto)+

lemma outbound_step_covered:
  assumes "all_finite lastTs" "covered lastTs t os (ac_nextRemoteTimestampsMs a)"
  shows "covered lastTs t (os @ [o']) (ac_nextRemoteTimestampsMs (outbound_step lastTs t a o'))"
proof -
  let ?m = "ac_nextRemoteTimestampsMs a"
  let ?m' = "ac_nextRemoteTimestampsMs (outbound_step lastTs t a o')"
  note get = stamped_next [of t o' _ _ lastTs a]
  have keep: "jm_get ?m' i = jm_get ?m i" if "\<nexists>ts. stamped t o' i ts" for i
    using unstamped_next that by blast
  have fin: "is_finite ts" if "stamped t o1 i ts" for o1 i ts using that readNumber_finite by (auto simp: stamped_def)
  have old: "\<exists>y. jm_get ?m i = Some y \<and> js_ge y ts"
    if s: "stamped t o' i ts" and f: "\<not> remote_fresh lastTs t o'" for i ts
  proof -
    obtain prev where p: "jm_get lastTs i = Some prev" "\<not> js_gt ts prev"
      using s f stamped_fresh by blast
    moreover obtain y where y: "jm_get ?m i = Some y" "y = prev \<or> js_gt y prev"
      using assms(2) p(1) unfolding covered_def by blast
    moreover have "is_finite prev" "is_finite y" "is_finite ts"
      using assms p(1) y(1) fin [OF s] by (auto simp: all_finite_def covered_def)
    ultimately show ?thesis using finite_order by blast
  qed
  show ?thesis
    unfolding covered_def
  proof (intro conjI allI impI ballI)
    fix i x assume x: "jm_get lastTs i = Some x"
    then obtain y where "jm_get ?m i = Some y" "y = x \<or> js_gt y x" using assms(2) unfolding covered_def by blast
    then show "\<exists>y. jm_get ?m' i = Some y \<and> (y = x \<or> js_gt y x)"
      using get keep x stamped_fresh by (cases "\<exists>ts. stamped t o' i ts") fastforce+
  next
    fix o1 i ts assume o1: "o1 \<in> set (os @ [o'])" and s: "stamped t o1 i ts"
    show "\<exists>y. jm_get ?m' i = Some y \<and> js_ge y ts"
    proof (cases "\<exists>ts. stamped t o' i ts")
      case True
      then have s': "stamped t o' i ts" using s stamped_unique by blast
      show ?thesis
        using get [OF s'] old [OF s'] finite_order(3) [OF fin [OF s']] by (cases "remote_fresh lastTs t o'") auto
    next
      case False
      then have "o1 \<in> set os" using o1 s by auto
      then show ?thesis using keep False assms(2) s unfolding covered_def by (metis (full_types))
    qed
  next
    fix i y assume "jm_get ?m' i = Some y"
    then show "is_finite y"
      using get keep assms(2) fin unfolding covered_def
      by (cases "\<exists>ts. stamped t o' i ts") (fastforce split: if_splits)+
  qed
qed

lemma outbound_fold_covered:
  assumes "all_finite lastTs"
  shows "covered lastTs t os (ac_nextRemoteTimestampsMs (foldl (outbound_step lastTs t) (acc_init lastTs) os))"
proof (induction os rule: rev_induct)
  case Nil
  show ?case using assms by (auto simp: covered_def all_finite_def acc_init_def)
next
  case (snoc o' os)
  then show ?case using outbound_step_covered [OF assms] by simp
qed

text \<open>What a snapshot shows apart from the metrics of the remote reports.\<close>

definition local_part :: "stats_acc \<Rightarrow> stats_acc" where
  "local_part a = a\<lparr>ac_fallbackRttSumMs := Fin 0, ac_fallbackRttCount := 0, ac_jitterSumMs := Fin 0,
     ac_jitterCount := 0, ac_nextRemoteTimestampsMs := []\<rparr>"

lemma local_part_iff:
  "local_part a = local_part b \<longleftrightarrow>
     ac_timestampMs a = ac_timestampMs b \<and> ac_bytesSent a = ac_bytesSent b
     \<and> ac_packetsSent a = ac_packetsSent b \<and> ac_packetsLost a = ac_packetsLost b
     \<and> ac_retransmittedPacketsSent a = ac_retransmittedPacketsSent b
     \<and> ac_targetBitrateBps a = ac_targetBitrateBps b \<and> ac_frameWidth a = ac_frameWidth b
     \<and> ac_frameHeight a = ac_frameHeight b \<and> ac_framesPerSecond a = ac_framesPerSecond b
     \<and> ac_qualityLimitationReason a = ac_qualityLimitationReason b \<and> ac_durations a = ac_durations b
     \<and> ac_transportRttSumMs a = ac_transportRttSumMs b \<and> ac_transportRttCount a = ac_transportRttCount b
     \<and> ac_seenCandidatePairIds a = ac_seenCandidatePairIds b"
  by (cases a; cases b) (auto simp: local_part_def)

lemma local_part_step:
  assumes "local_part a = local_part b"
  shows "local_part (outbound_step l t a o') = local_part (outbound_step l' t b o')"
proof -
  have c: "local_part (add_counters o' a) = local_part (add_counters o' b)"
    using assms unfolding local_part_iff by (simp add: add_counters_def split: option.splits)
  have d: "local_part (add_transport_rtt t o' (add_counters o' a)) = local_part (add_transport_rtt t o' (add_counters o' b))"
    using c unfolding local_part_iff by (auto simp: add_transport_rtt_def Let_def split: option.splits)
  show ?thesis
    using d unfolding outbound_step_def local_part_iff by (simp add: add_remote_def Let_def)
qed

lemma local_part_fold:
  "local_part a = local_part b
   \<Longrightarrow> local_part (foldl (outbound_step l t) a os) = local_part (foldl (outbound_step l' t) b os)"
proof (induction os arbitrary: a b)
  case (Cons o' os)
  show ?case using Cons.IH [OF local_part_step [OF Cons.prems, of l t o' l']] by simp
qed simp

lemma unused_remote:
  assumes "\<forall>o' \<in> set os. remote_of t o' \<noteq> None \<and> \<not> remote_fresh l t o'"
  shows "let a' = foldl (outbound_step l t) a os
    in ac_jitterCount a' = ac_jitterCount a \<and> ac_fallbackRttCount a' = ac_fallbackRttCount a
       \<and> ac_nextRemoteTimestampsMs a' = ac_nextRemoteTimestampsMs a"
  using assms
proof (induction os arbitrary: a)
  case (Cons o' os)
  have m: "remote_metric l t o' k = None" for k using Cons.prems by (simp add: remote_metric_def)
  have n: "ac_nextRemoteTimestampsMs (outbound_step l t a o') = ac_nextRemoteTimestampsMs a"
    using Cons.prems by (simp add: outbound_step_next_eq split: option.splits)
  have c: "ac_jitterCount (add_transport_rtt t o' (add_counters o' a)) = ac_jitterCount a"
    "ac_fallbackRttCount (add_transport_rtt t o' (add_counters o' a)) = ac_fallbackRttCount a"
    by (auto simp: add_transport_rtt_def add_counters_def Let_def split: option.splits)
  have "ac_jitterCount (outbound_step l t a o') = ac_jitterCount a"
    "ac_fallbackRttCount (outbound_step l t a o') = ac_fallbackRttCount a"
    by (simp_all add: outbound_step_def add_remote_def m c Let_def)
  with n Cons.IH [of "outbound_step l t a o'"] Cons.prems show ?case by (simp add: Let_def)
qed simp

lemma roundMetric_0 [simp]: "roundMetric x (Fin 0) = None"
  by (simp add: roundMetric_def)

definition has_stamped_remote :: "report_tables \<Rightarrow> jsval \<Rightarrow> bool" where
  "has_stamped_remote t o' \<longleftrightarrow> (\<exists>r ts. remote_of t o' = Some r \<and> readNumber r ''timestamp'' = Some ts)"

lemma has_stamped_remote_stamped: "has_stamped_remote t o' \<Longrightarrow> \<exists>i ts. stamped t o' i ts"
  by (auto simp: has_stamped_remote_def stamped_def remote_of_def rid_def split: option.splits)

lemma covered_not_fresh:
  assumes "covered l t os m" "o' \<in> set os" "has_stamped_remote t o'"
  shows "\<not> remote_fresh m t o'"
proof -
  obtain i ts where s: "stamped t o' i ts" using has_stamped_remote_stamped [OF assms(3)] by blast
  then obtain y where y: "jm_get m i = Some y" "js_ge y ts" using assms(1,2) unfolding covered_def by blast
  have "is_finite ts" "is_finite y" using s y(1) assms(1) readNumber_finite by (auto simp: stamped_def covered_def)
  then have "\<not> js_gt ts y" using y(2) finite_order(1) by blast
  then show ?thesis using stamped_fresh [OF s] y(1) by auto
qed

section \<open>Properties\<close>

text \<open>the metrics of a remote report are used once. When every outbound stream has a remote report
  with a timestamp, sampling the same report again yields no jitter, a round-trip time only if it
  comes from the candidate pairs (then the same), the same counters, and leaves the timestamps; and
  a recorded timestamp never moves back.\<close>

theorem remote_metrics_used_once:
  assumes "rt_outbounds (collect_report report) \<noteq> []"
    and "\<forall>o' \<in> set (rt_outbounds (collect_report report)). has_stamped_remote (collect_report report) o'"
    and "all_finite lastTs"
    and "snapshot_of_report base now lastTs report = (lastTs1, s1)"
    and "snapshot_of_report base now lastTs1 report = (lastTs2, s2)"
  shows "rs_jitterMs s2 = None \<and> (rs_roundTripTimeMs s2 = rs_roundTripTimeMs s1 \<or> rs_roundTripTimeMs s2 = None)
    \<and> s2\<lparr>rs_jitterMs := None, rs_roundTripTimeMs := None\<rparr> = s1\<lparr>rs_jitterMs := None, rs_roundTripTimeMs := None\<rparr>
    \<and> lastTs2 = lastTs1
    \<and> (\<forall>i x. jm_get lastTs i = Some x \<longrightarrow> (\<exists>y. jm_get lastTs1 i = Some y \<and> js_ge y x))"
proof -
  let ?t = "collect_report report"
  let ?os = "rt_outbounds ?t"
  let ?a1 = "foldl (outbound_step lastTs ?t) (acc_init lastTs) ?os"
  let ?a2 = "foldl (outbound_step lastTs1 ?t) (acc_init lastTs1) ?os"
  have e: "lastTs1 = ac_nextRemoteTimestampsMs ?a1" "s1 = snapshot_of_acc base now ?a1"
    "lastTs2 = ac_nextRemoteTimestampsMs ?a2" "s2 = snapshot_of_acc base now ?a2"
    using assms(1,4,5) by (auto simp: snapshot_of_report_def Let_def)
  note cov = outbound_fold_covered [OF assms(3), of ?t ?os, folded e(1)]
  have "\<forall>o' \<in> set ?os. remote_of ?t o' \<noteq> None \<and> \<not> remote_fresh lastTs1 ?t o'"
    using covered_not_fresh [OF cov] assms(2) by (auto simp: has_stamped_remote_def)
  note u = unused_remote [OF this, of "acc_init lastTs1", unfolded Let_def]
  have "local_part (acc_init lastTs1) = local_part (acc_init lastTs)" by (simp add: local_part_iff acc_init_def)
  from local_part_fold [OF this, of lastTs1 ?t ?os lastTs] have l: "local_part ?a2 = local_part ?a1" .
  have "js_ge y x" if "jm_get lastTs i = Some x" "y = x \<or> js_gt y x" for i x y
    using that assms(3) finite_order(3) [of x] js_lt_imp_le [of x y] by (auto simp: all_finite_def)
  then have "\<forall>i x. jm_get lastTs i = Some x \<longrightarrow> (\<exists>y. jm_get lastTs1 i = Some y \<and> js_ge y x)"
    using cov unfolding covered_def by blast
  with u l show ?thesis
    unfolding e(2-4) local_part_iff by (simp add: snapshot_of_acc_def acc_init_def)
qed

definition simulcast_report :: "jsval list" where
  "simulcast_report =
     [VObj [(''type'', VStr ''remote-inbound-rtp''), (''id'', VStr ''r1''), (''timestamp'', VNum (Fin 500)),
            (''jitter'', VNum (Fin 2)), (''packetsLost'', VNum (Fin 3))],
      VObj [(''type'', VStr ''outbound-rtp''), (''remoteId'', VStr ''r1''), (''timestamp'', VNum (Fin 900)),
            (''bytesSent'', VNum (Fin 4000))]]"

definition camera_base :: snapshot_base where
  "camera_base = \<lparr>sb_source = Camera, sb_kind = KVideo, sb_producerId = ''p1'', sb_trackId = Some ''cam'',
     sb_configuredBitrateBps = None\<rparr>"

lemma simulcast_tables:
  "rt_outbounds (collect_report simulcast_report) = [simulcast_report ! 1]"
  "rt_remoteById (collect_report simulcast_report) = [(''r1'', simulcast_report ! 0)]"
  by (simp_all add: collect_report_def simulcast_report_def collect_entry_def sp_isObject_def readString_def
      put_by_id_def Let_def)

theorem remote_metrics_used_once_witness:
  "\<exists>l1 s1 l2 s2. snapshot_of_report camera_base (Fin 1) [] simulcast_report = (l1, s1)
     \<and> snapshot_of_report camera_base (Fin 1) l1 simulcast_report = (l2, s2)
     \<and> rs_jitterMs s2 = None \<and> l2 = l1"
proof -
  obtain l1 s1 where s1: "snapshot_of_report camera_base (Fin 1) [] simulcast_report = (l1, s1)" by force
  obtain l2 s2 where s2: "snapshot_of_report camera_base (Fin 1) l1 simulcast_report = (l2, s2)" by force
  have "readString (simulcast_report ! 1) ''remoteId'' = Some ''r1''"
    by (simp add: simulcast_report_def readString_def)
  then have "remote_of (collect_report simulcast_report) (simulcast_report ! 1) = Some (simulcast_report ! 0)"
    by (simp add: remote_of_def simulcast_tables(2) jm_get_def nonempty_def)
  moreover have "readNumber (simulcast_report ! 0) ''timestamp'' = Some (Fin 500)"
    by (simp add: simulcast_report_def readNumber_def)
  ultimately have "\<forall>o' \<in> set (rt_outbounds (collect_report simulcast_report)).
      has_stamped_remote (collect_report simulcast_report) o'"
    by (simp add: simulcast_tables(1) has_stamped_remote_def)
  moreover have "all_finite []" by (simp add: all_finite_def jm_get_def)
  ultimately show ?thesis
    using remote_metrics_used_once [OF _ _ _ s1 s2] s1 s2 by (auto simp: simulcast_tables(1))
qed

text \<open>the round-trip time of a transport is counted once. When every outbound stream of a report (the
  layers of a simulcast producer) resolves to the same candidate pair with an identifier, the
  snapshot's round-trip time is that pair's, and not weighted by the number of streams.\<close>

theorem transport_rtt_counted_once:
  assumes "rt_outbounds (collect_report report) \<noteq> []"
    and "\<forall>o' \<in> set (rt_outbounds (collect_report report)).
      resolveCandidatePair (collect_report report) o' = Some pair"
    and "nonempty (readString pair ''id'') = Some i"
    and "normalizeTimeToMs (readNumber pair ''currentRoundTripTime'') = Some rtt"
    and "snapshot_of_report base now lastTs report = (lastTs', s)"
  shows "rs_roundTripTimeMs s = roundMetric (js_add (Fin 0) rtt) (Fin 1)"
proof -
  let ?t = "collect_report report"
  have rtt: "ac_transportRttSumMs (outbound_step lastTs ?t a o') = ac_transportRttSumMs (add_transport_rtt ?t o' a)"
    "ac_transportRttCount (outbound_step lastTs ?t a o') = ac_transportRttCount (add_transport_rtt ?t o' a)"
    "ac_seenCandidatePairIds (outbound_step lastTs ?t a o') = ac_seenCandidatePairIds (add_transport_rtt ?t o' a)"
    for a o'
    by (auto simp: outbound_step_def add_remote_def add_transport_rtt_def add_counters_def Let_def
        split: option.splits)
  {
    fix os :: "jsval list" and a :: stats_acc
    assume "\<forall>x \<in> set os. resolveCandidatePair ?t x = Some pair" "i \<in> set (ac_seenCandidatePairIds a)"
    then have "ac_transportRttSumMs (foldl (outbound_step lastTs ?t) a os) = ac_transportRttSumMs a
        \<and> ac_transportRttCount (foldl (outbound_step lastTs ?t) a os) = ac_transportRttCount a"
    proof (induction os arbitrary: a)
      case (Cons o' os)
      have "add_transport_rtt ?t o' a = a"
        using Cons.prems assms(3) by (simp add: add_transport_rtt_def Let_def or_empty_def)
      with Cons rtt [of a o'] show ?case by simp
    qed simp
  }
  note seen = this
  obtain o1 os where os: "rt_outbounds ?t = o1 # os" using assms(1) by (cases "rt_outbounds ?t") auto
  let ?a = "outbound_step lastTs ?t (acc_init lastTs) o1"
  have r1: "resolveCandidatePair ?t o1 = Some pair" using assms(2) os by simp
  have a: "ac_transportRttSumMs ?a = js_add (Fin 0) rtt" "ac_transportRttCount ?a = 1"
    "i \<in> set (ac_seenCandidatePairIds ?a)"
    unfolding rtt by (simp_all add: add_transport_rtt_def Let_def r1 or_empty_def assms(3,4) acc_init_def del: js_add.simps)
  have "s = snapshot_of_acc base now (foldl (outbound_step lastTs ?t) ?a os)"
    using assms(5) os by (simp add: snapshot_of_report_def Let_def)
  then show ?thesis using seen [of os ?a] a assms(2) os by (simp add: snapshot_of_acc_def)
qed

definition layered_report :: "jsval list" where
  "layered_report =
     [VObj [(''type'', VStr ''candidate-pair''), (''id'', VStr ''c1''), (''selected'', VBool True),
            (''currentRoundTripTime'', VNum (Fin 20))],
      VObj [(''type'', VStr ''outbound-rtp''), (''rid'', VStr ''lo'')],
      VObj [(''type'', VStr ''outbound-rtp''), (''rid'', VStr ''hi'')]]"

theorem transport_rtt_counted_once_witness:
  "\<exists>l s. snapshot_of_report camera_base (Fin 1) [] layered_report = (l, s)
     \<and> rs_roundTripTimeMs s = roundMetric (js_add (Fin 0) (Fin 20)) (Fin 1)"
proof -
  let ?pair = "layered_report ! 0"
  obtain l s where s: "snapshot_of_report camera_base (Fin 1) [] layered_report = (l, s)" by force
  have t: "rt_outbounds (collect_report layered_report) = [layered_report ! 1, layered_report ! 2]"
    "rt_selectedCandidatePairs (collect_report layered_report) = [?pair]"
    by (simp_all add: collect_report_def layered_report_def collect_entry_def sp_isObject_def readString_def
        put_by_id_def isSelectedCandidatePair_def Let_def)
  have "readString (layered_report ! 1) ''transportId'' = None" "readString (layered_report ! 2) ''transportId'' = None"
    by (simp_all add: layered_report_def readString_def)
  then have "\<forall>o' \<in> set (rt_outbounds (collect_report layered_report)).
      resolveCandidatePair (collect_report layered_report) o' = Some ?pair"
    by (simp add: t resolveCandidatePair_def nonempty_def)
  moreover have "nonempty (readString ?pair ''id'') = Some ''c1''"
    "normalizeTimeToMs (readNumber ?pair ''currentRoundTripTime'') = Some (Fin 20)"
    by (simp_all add: layered_report_def readString_def readNumber_def nonempty_def normalizeTimeToMs_def)
  ultimately show ?thesis
    using transport_rtt_counted_once [OF _ _ _ _ s] s by (auto simp: t(1) simp del: js_add.simps)
qed

end
