(* ===== verification/SignalChannel.thy ===== *)
theory SignalChannel
  imports Protocol ProducerAdapter
begin

text \<open>
  \<open>adapters/signalChannel.js\<close>: snapshots go out through the application's \<open>send\<close>, messages come in
  and are dispatched to the listeners of their kind. The listeners act on a world of their own and
  may throw; while one message is dispatched none is added or removed. Malformed policies and overrides are dropped, and so is what a listener of
  those two kinds throws.
\<close>

record 'l channel =
  sc_publishMethod :: string
  sc_policyListeners :: "'l list"
  sc_overrideListeners :: "'l list"
  sc_connectionQualityListeners :: "'l list"
  sc_roomStateListeners :: "'l list"

definition new_QosSignalChannel :: "string option \<Rightarrow> 'l channel" where
  "new_QosSignalChannel publishMethod = \<lparr>sc_publishMethod =
       (case publishMethod of None \<Rightarrow> ''clientStats'' | Some m \<Rightarrow> m),
     sc_policyListeners = [], sc_overrideListeners = [], sc_connectionQualityListeners = [],
     sc_roomStateListeners = []\<rparr>"

text \<open>A \<open>Set\<close> keeps the order in which its elements were first added.\<close>

definition set_add :: "'l \<Rightarrow> 'l list \<Rightarrow> 'l list" where
  "set_add l ls = (if l \<in> set ls then ls else ls @ [l])"

definition set_delete :: "'l \<Rightarrow> 'l list \<Rightarrow> 'l list" where
  "set_delete l ls = filter (\<lambda>a. a \<noteq> l) ls"

text \<open>Each subscription comes with the function that takes it back.\<close>

definition onPolicy :: "'l \<Rightarrow> 'l channel \<Rightarrow> 'l channel \<times> ('l channel \<Rightarrow> 'l channel)" where
  "onPolicy l ch = (ch\<lparr>sc_policyListeners := set_add l (sc_policyListeners ch)\<rparr>,
     \<lambda>c. c\<lparr>sc_policyListeners := set_delete l (sc_policyListeners c)\<rparr>)"

definition onOverride :: "'l \<Rightarrow> 'l channel \<Rightarrow> 'l channel \<times> ('l channel \<Rightarrow> 'l channel)" where
  "onOverride l ch = (ch\<lparr>sc_overrideListeners := set_add l (sc_overrideListeners ch)\<rparr>,
     \<lambda>c. c\<lparr>sc_overrideListeners := set_delete l (sc_overrideListeners c)\<rparr>)"

definition onConnectionQuality :: "'l \<Rightarrow> 'l channel \<Rightarrow> 'l channel \<times> ('l channel \<Rightarrow> 'l channel)" where
  "onConnectionQuality l ch = (ch\<lparr>sc_connectionQualityListeners := set_add l (sc_connectionQualityListeners ch)\<rparr>,
     \<lambda>c. c\<lparr>sc_connectionQualityListeners := set_delete l (sc_connectionQualityListeners c)\<rparr>)"

definition onRoomState :: "'l \<Rightarrow> 'l channel \<Rightarrow> 'l channel \<times> ('l channel \<Rightarrow> 'l channel)" where
  "onRoomState l ch = (ch\<lparr>sc_roomStateListeners := set_add l (sc_roomStateListeners ch)\<rparr>,
     \<lambda>c. c\<lparr>sc_roomStateListeners := set_delete l (sc_roomStateListeners c)\<rparr>)"

definition ch_publishSnapshot ::
    "('x \<Rightarrow> string \<Rightarrow> client_snapshot \<Rightarrow> 'x \<times> thrown option) \<Rightarrow> 'l channel \<Rightarrow> client_snapshot \<Rightarrow> 'x
     \<Rightarrow> 'x \<times> thrown option" where
  "ch_publishSnapshot send ch snapshot x =
     (case serializeClientQosSnapshot (snapshot_val snapshot) of
        Inl e \<Rightarrow> (x, Some (ThrownError e))
      | Inr data \<Rightarrow> send x (sc_publishMethod ch) data)"

section \<open>Dispatch\<close>

record ('l, 'x) listener_calls =
  lc_policy :: "'l \<Rightarrow> policy \<Rightarrow> 'x \<Rightarrow> 'x \<times> thrown option"
  lc_override :: "'l \<Rightarrow> override \<Rightarrow> 'x \<Rightarrow> 'x \<times> thrown option"
  lc_connectionQuality :: "'l \<Rightarrow> jsval \<Rightarrow> 'x \<Rightarrow> 'x \<times> thrown option"
  lc_roomState :: "'l \<Rightarrow> jsval \<Rightarrow> 'x \<Rightarrow> 'x \<times> thrown option"

text \<open>The \<open>for\<close> loop over listeners: the first one that throws ends it.\<close>

fun notify :: "('l \<Rightarrow> 'x \<Rightarrow> 'x \<times> thrown option) \<Rightarrow> 'l list \<Rightarrow> 'x \<Rightarrow> 'x \<times> thrown option" where
  "notify f [] x = (x, None)"
| "notify f (l # ls) x = (case f l x of (x', Some t) \<Rightarrow> (x', Some t) | (x', None) \<Rightarrow> notify f ls x')"

definition quality_data :: "jsval \<Rightarrow> bool" where
  "quality_data data \<longleftrightarrow> truthy data \<and> (case opt_prop data ''quality'' of VStr _ \<Rightarrow> True | _ \<Rightarrow> False)"

definition handleMessage ::
    "('l, 'x) listener_calls \<Rightarrow> 'l channel \<Rightarrow> jsval \<Rightarrow> 'x \<Rightarrow> 'x \<times> thrown option" where
  "handleMessage calls ch message x =
     (if \<not> truthy message then (x, None)
      else case opt_prop message ''method'' of
          VStr method \<Rightarrow>
            (let data = opt_prop message ''data''
             in if method = ''qosPolicy'' then
                  (case parseQosPolicy data of
                     Inl _ \<Rightarrow> (x, None)
                   | Inr policy \<Rightarrow> (fst (notify (\<lambda>l. lc_policy calls l policy) (sc_policyListeners ch) x), None))
                else if method = ''qosOverride'' then
                  (case parseQosOverride data of
                     Inl _ \<Rightarrow> (x, None)
                   | Inr ov \<Rightarrow> (fst (notify (\<lambda>l. lc_override calls l ov) (sc_overrideListeners ch) x), None))
                else if method = ''qosConnectionQuality'' then
                  (if quality_data data
                   then notify (\<lambda>l. lc_connectionQuality calls l data) (sc_connectionQualityListeners ch) x
                   else (x, None))
                else if method = ''qosRoomState'' then
                  (if quality_data data
                   then notify (\<lambda>l. lc_roomState calls l data) (sc_roomStateListeners ch) x
                   else (x, None))
                else (x, None))
        | _ \<Rightarrow> (x, None))"

section \<open>Which listeners hear a message\<close>

text \<open>Listeners that record what they hear, some of which throw: those up to the first of them hear.\<close>

definition recording :: "('l \<Rightarrow> bool) \<Rightarrow> 'l \<Rightarrow> ('l \<times> 'm) list \<Rightarrow> 'm \<Rightarrow> ('l \<times> 'm) list \<times> thrown option" where
  "recording bad l x m = (x @ [(l, m)], if bad l then Some (ThrownValue ''listener'') else None)"

definition hearers :: "('l \<Rightarrow> bool) \<Rightarrow> 'l list \<Rightarrow> 'l list" where
  "hearers bad ls = takeWhile (\<lambda>l. \<not> bad l) ls @ take 1 (dropWhile (\<lambda>l. \<not> bad l) ls)"

lemma notify_recording:
  "notify (\<lambda>l x. recording bad l x m) ls x =
     (x @ map (\<lambda>l. (l, m)) (hearers bad ls), if list_ex bad ls then Some (ThrownValue ''listener'') else None)"
  by (induction ls arbitrary: x) (auto simp: recording_def hearers_def)

datatype heard = HPolicy policy | HOverride override | HQuality jsval | HRoom jsval

definition recording_calls :: "('l \<Rightarrow> bool) \<Rightarrow> ('l, ('l \<times> heard) list) listener_calls" where
  "recording_calls bad = \<lparr>lc_policy = \<lambda>l p x. recording bad l x (HPolicy p),
     lc_override = \<lambda>l ov x. recording bad l x (HOverride ov),
     lc_connectionQuality = \<lambda>l d x. recording bad l x (HQuality d),
     lc_roomState = \<lambda>l d x. recording bad l x (HRoom d)\<rparr>"

lemma subscription_lifetime:
  assumes "distinct (sc_overrideListeners ch)" "onOverride l ch = (ch', off)"
  shows "l \<in> set (sc_overrideListeners ch')" "distinct (sc_overrideListeners ch')"
    "sc_overrideListeners (off ch') = filter (\<lambda>a. a \<noteq> l) (sc_overrideListeners ch)"
    "fst (onOverride l ch') = ch'"
  using assms by (auto simp: onOverride_def set_add_def set_delete_def)

text \<open>Who should hear what: the message a value carries, and the listeners it is for.\<close>

definition message_of :: "jsval \<Rightarrow> heard option" where
  "message_of message =
     (case message of
        VObj fs \<Rightarrow>
          (let data = obj_get fs ''data''
           in if obj_get fs ''method'' = VStr ''qosPolicy''
              then (case parseQosPolicy data of Inr p \<Rightarrow> Some (HPolicy p) | Inl _ \<Rightarrow> None)
              else if obj_get fs ''method'' = VStr ''qosOverride''
              then (case parseQosOverride data of Inr ov \<Rightarrow> Some (HOverride ov) | Inl _ \<Rightarrow> None)
              else if obj_get fs ''method'' = VStr ''qosConnectionQuality'' \<and> quality_data data
              then Some (HQuality data)
              else if obj_get fs ''method'' = VStr ''qosRoomState'' \<and> quality_data data
              then Some (HRoom data)
              else None)
      | _ \<Rightarrow> None)"

fun audience :: "'l channel \<Rightarrow> heard \<Rightarrow> 'l list" where
  "audience ch (HPolicy _) = sc_policyListeners ch"
| "audience ch (HOverride _) = sc_overrideListeners ch"
| "audience ch (HQuality _) = sc_connectionQualityListeners ch"
| "audience ch (HRoom _) = sc_roomStateListeners ch"

definition lets_through :: "heard \<Rightarrow> bool" where
  "lets_through m = (case m of HQuality _ \<Rightarrow> True | HRoom _ \<Rightarrow> True | _ \<Rightarrow> False)"

section \<open>Properties\<close>

text \<open>dispatch is fail-soft. A value that is no well-formed message of the four kinds changes nothing
  and throws nothing; a well-formed one is heard once by each listener of its kind, in the order of
  subscription, up to and including the first that throws; and only what a listener of the
  connection-quality and room-state kinds throws reaches the caller.\<close>

theorem handleMessage_dispatch:
  "handleMessage (recording_calls bad) ch message heard =
     (case message_of message of
        None \<Rightarrow> (heard, None)
      | Some m \<Rightarrow> (heard @ map (\<lambda>l. (l, m)) (hearers bad (audience ch m)),
          if lets_through m \<and> list_ex bad (audience ch m) then Some (ThrownValue ''listener'') else None))"
proof (cases message)
  case (VObj fs)
  show ?thesis
    by (cases "obj_get fs ''method''")
       (auto simp: VObj handleMessage_def message_of_def recording_calls_def notify_recording lets_through_def
         Let_def split: sum.splits)
qed (auto simp: handleMessage_def message_of_def)

end
