(* ===== verification/Coordinator.thy ===== *)
theory Coordinator
  imports QosTypes "HOL-Library.Multiset" "HOL-Library.Sublist"
begin

text \<open>
  src/src/client/lib/qos/coordinator.js: the decision over the tracks of a peer. Every function of
  the file is here. \<open>localeCompare\<close> depends on the locale of the host: it is an argument \<open>cmp\<close>.
  \<open>Array.prototype.sort\<close> is stable; it is an insertion sort, which gives the one stable result
  for every consistent comparison. The lemmas show what the decision is made of.
\<close>

record peer_decision =
  pd_peerQuality :: qos_quality
  pd_prioritizedTrackIds :: "string list"
  pd_sacrificialTrackIds :: "string list"
  pd_keepAudioAlive :: bool
  pd_preferScreenShare :: bool
  pd_allowVideoRecovery :: bool

fun qualityRank :: "qos_quality \<Rightarrow> int" where
  "qualityRank Excellent = 3"
| "qualityRank Good = 2"
| "qualityRank Poor = 1"
| "qualityRank Lost = 0"

fun sourcePriority :: "qos_source \<Rightarrow> int" where
  "sourcePriority AudioSource = 0"
| "sourcePriority ScreenShare = 1"
| "sourcePriority Camera = 2"

definition minQuality :: "qos_quality \<Rightarrow> qos_quality \<Rightarrow> qos_quality" where
  "minQuality a b = (if qualityRank a \<le> qualityRank b then a else b)"

fun sort_insert :: "('a \<Rightarrow> 'a \<Rightarrow> int) \<Rightarrow> 'a \<Rightarrow> 'a list \<Rightarrow> 'a list" where
  "sort_insert c x [] = [x]"
| "sort_insert c x (y # ys) = (if c x y \<le> 0 then x # y # ys else y # sort_insert c x ys)"

definition js_sort :: "('a \<Rightarrow> 'a \<Rightarrow> int) \<Rightarrow> 'a list \<Rightarrow> 'a list" where
  "js_sort c xs = foldr (sort_insert c) xs []"

definition track_compare :: "(string \<Rightarrow> string \<Rightarrow> int) \<Rightarrow> track_state \<Rightarrow> track_state \<Rightarrow> int" where
  "track_compare cmp left right =
     (let leftPriority = sourcePriority (ts_source left);
          rightPriority = sourcePriority (ts_source right)
      in if leftPriority \<noteq> rightPriority then leftPriority - rightPriority
         else cmp (ts_trackId left) (ts_trackId right))"

definition prioritizeTracks :: "(string \<Rightarrow> string \<Rightarrow> int) \<Rightarrow> track_state list \<Rightarrow> track_state list" where
  "prioritizeTracks cmp tracks = js_sort (track_compare cmp) tracks"

definition sacrificial :: "bool \<Rightarrow> bool \<Rightarrow> track_state \<Rightarrow> bool" where
  "sacrificial hasAudio hasScreenShare track =
     (if ts_source track = AudioSource then False
      else if hasScreenShare then ts_source track = Camera
      else hasAudio \<or> ts_source track = Camera)"

definition buildPeerQosDecision :: "(string \<Rightarrow> string \<Rightarrow> int) \<Rightarrow> track_state list \<Rightarrow> peer_decision" where
  "buildPeerQosDecision cmp tracks =
     (if tracks = []
      then \<lparr>pd_peerQuality = Lost, pd_prioritizedTrackIds = [], pd_sacrificialTrackIds = [],
        pd_keepAudioAlive = False, pd_preferScreenShare = False, pd_allowVideoRecovery = False\<rparr>
      else
        let prioritizedTracks = prioritizeTracks cmp tracks;
            hasAudio = list_ex (\<lambda>t. ts_source t = AudioSource) prioritizedTracks;
            hasScreenShare = list_ex (\<lambda>t. ts_source t = ScreenShare) prioritizedTracks;
            peerQuality = foldl (\<lambda>q t. minQuality q (ts_quality t)) (ts_quality (hd prioritizedTracks))
              (tl prioritizedTracks);
            sacrificialTracks = js_sort (\<lambda>l r. sourcePriority (ts_source r) - sourcePriority (ts_source l))
              (filter (sacrificial hasAudio hasScreenShare) prioritizedTracks)
        in \<lparr>pd_peerQuality = peerQuality,
            pd_prioritizedTrackIds = map ts_trackId prioritizedTracks,
            pd_sacrificialTrackIds = map ts_trackId sacrificialTracks,
            pd_keepAudioAlive = hasAudio, pd_preferScreenShare = hasScreenShare,
            pd_allowVideoRecovery = (peerQuality \<noteq> Poor \<and> peerQuality \<noteq> Lost
              \<and> \<not> list_ex (\<lambda>t. ts_source t = AudioSource \<and> ts_quality t = Poor) prioritizedTracks)\<rparr>)"

section \<open>PeerQosCoordinator\<close>

type_synonym coordinator = "(string, track_state) jsmap"

definition upsertTrack :: "coordinator \<Rightarrow> track_state \<Rightarrow> coordinator" where
  "upsertTrack c track = jm_set (ts_trackId track) track c"

definition removeTrack :: "coordinator \<Rightarrow> string \<Rightarrow> coordinator" where
  "removeTrack c trackId = jm_delete trackId c"

definition co_clear :: "coordinator \<Rightarrow> coordinator" where
  "co_clear c = []"

definition getTracks :: "coordinator \<Rightarrow> track_state list" where
  "getTracks c = jm_values c"

definition getDecision :: "(string \<Rightarrow> string \<Rightarrow> int) \<Rightarrow> coordinator \<Rightarrow> peer_decision" where
  "getDecision cmp c = buildPeerQosDecision cmp (getTracks c)"

section \<open>Sorting\<close>

lemma mset_sort_insert [simp]: "mset (sort_insert c x ys) = add_mset x (mset ys)"
  by (induction ys) auto

lemma mset_js_sort [simp]: "mset (js_sort c xs) = mset xs"
  by (induction xs) (simp_all add: js_sort_def)

lemma set_js_sort [simp]: "set (js_sort c xs) = set xs"
  using mset_js_sort [of c xs] by (metis set_mset_mset)

text \<open>A consistent comparison: a total preorder written as a sign.\<close>

definition consistent :: "('a \<Rightarrow> 'a \<Rightarrow> int) \<Rightarrow> bool" where
  "consistent c \<longleftrightarrow> (\<forall>x y. 0 < c x y \<longrightarrow> c y x \<le> 0) \<and> (\<forall>x y z. c x y \<le> 0 \<and> c y z \<le> 0 \<longrightarrow> c x z \<le> 0)"

lemma sort_insert_set [simp]: "set (sort_insert c x ys) = insert x (set ys)"
  using mset_sort_insert [of c x ys] by (metis set_mset_add_mset_insert set_mset_mset)

lemma sorted_sort_insert:
  "consistent c \<Longrightarrow> sorted_wrt (\<lambda>x y. c x y \<le> 0) ys \<Longrightarrow> sorted_wrt (\<lambda>x y. c x y \<le> 0) (sort_insert c x ys)"
proof (induction ys)
  case (Cons y ys)
  have tr: "\<And>a b d. c a b \<le> 0 \<Longrightarrow> c b d \<le> 0 \<Longrightarrow> c a d \<le> 0" and tot: "\<And>a b. 0 < c a b \<Longrightarrow> c b a \<le> 0"
    using Cons.prems(1) unfolding consistent_def by blast+
  show ?case
  proof (cases "c x y \<le> 0")
    case True
    then have "c x z \<le> 0" if "z \<in> set ys" for z using tr [of x y z] Cons.prems(2) that by simp
    then show ?thesis using True Cons.prems(2) by simp
  next
    case False
    then show ?thesis using Cons tot [of x y] by simp
  qed
qed simp

lemma sorted_js_sort: "consistent c \<Longrightarrow> sorted_wrt (\<lambda>x y. c x y \<le> 0) (js_sort c xs)"
  by (induction xs) (simp_all add: js_sort_def sorted_sort_insert)

lemma track_compare_le:
  "track_compare cmp a b \<le> 0 \<longleftrightarrow>
     sourcePriority (ts_source a) < sourcePriority (ts_source b)
     \<or> sourcePriority (ts_source a) = sourcePriority (ts_source b) \<and> cmp (ts_trackId a) (ts_trackId b) \<le> 0"
  by (auto simp: track_compare_def Let_def)

lemma consistent_track_compare: "consistent cmp \<Longrightarrow> consistent (track_compare cmp)"
proof -
  assume c: "consistent cmp"
  have "track_compare cmp x z \<le> 0" if "track_compare cmp x y \<le> 0" "track_compare cmp y z \<le> 0" for x y z
  proof -
    have "cmp (ts_trackId x) (ts_trackId y) \<le> 0 \<and> cmp (ts_trackId y) (ts_trackId z) \<le> 0 \<longrightarrow>
        cmp (ts_trackId x) (ts_trackId z) \<le> 0" using c unfolding consistent_def by blast
    with that show ?thesis unfolding track_compare_le by linarith
  qed
  moreover have "track_compare cmp y x \<le> 0" if "0 < track_compare cmp x y" for x y
  proof -
    have "\<not> track_compare cmp x y \<le> 0" using that by simp
    moreover have "0 < cmp (ts_trackId x) (ts_trackId y) \<longrightarrow> cmp (ts_trackId y) (ts_trackId x) \<le> 0"
      using c unfolding consistent_def by blast
    ultimately show ?thesis unfolding track_compare_le by linarith
  qed
  ultimately show ?thesis unfolding consistent_def by blast
qed

lemma foldl_minQuality:
  fixes q :: qos_quality
  defines "m \<equiv> \<lambda>q ts. foldl (\<lambda>q t. minQuality q (ts_quality t)) q ts"
  shows "qualityRank (m q ts) \<le> qualityRank q"
    and "t \<in> set ts \<Longrightarrow> qualityRank (m q ts) \<le> qualityRank (ts_quality t)"
    and "m q ts = q \<or> m q ts \<in> ts_quality ` set ts"
proof -
  have "qualityRank (m q ts) \<le> qualityRank q
      \<and> (\<forall>t \<in> set ts. qualityRank (m q ts) \<le> qualityRank (ts_quality t))
      \<and> (m q ts = q \<or> m q ts \<in> ts_quality ` set ts)"
  proof (induction ts arbitrary: q)
    case (Cons t ts)
    show ?case using Cons.IH [of "minQuality q (ts_quality t)"]
      by (auto simp: m_def minQuality_def split: if_splits)
  qed (simp add: m_def)
  then show "qualityRank (m q ts) \<le> qualityRank q" "m q ts = q \<or> m q ts \<in> ts_quality ` set ts"
    "t \<in> set ts \<Longrightarrow> qualityRank (m q ts) \<le> qualityRank (ts_quality t)" by blast+
qed

section \<open>The tracks of a coordinator\<close>

datatype coord_op = Upsert track_state | Remove string | ClearTracks

fun coord_step :: "coordinator \<Rightarrow> coord_op \<Rightarrow> coordinator" where
  "coord_step c (Upsert t) = upsertTrack c t"
| "coord_step c (Remove i) = removeTrack c i"
| "coord_step c ClearTracks = co_clear c"

definition coord_inv :: "coordinator \<Rightarrow> bool" where
  "coord_inv c \<longleftrightarrow> jm_wf c \<and> (\<forall>(i, t) \<in> set c. ts_trackId t = i)"

lemma set_jm_set: "p \<in> set (jm_set k v m) \<Longrightarrow> p = (k, v) \<or> p \<in> set m"
  by (induction k v m rule: jm_set.induct) (auto split: if_splits)

interpretation coord: step_invariant coord_step coord_inv
proof
  fix c e assume c: "coord_inv c"
  show "coord_inv (coord_step c e)"
  proof (cases e)
    case (Upsert t)
    show ?thesis using c jm.wf_put [of c "ts_trackId t" t]
      by (auto simp: Upsert upsertTrack_def coord_inv_def dest!: set_jm_set)
  next
    case (Remove i)
    show ?thesis using c jm.wf_remove [of c i]
      by (auto simp: Remove removeTrack_def coord_inv_def jm_delete_def)
  qed (simp add: co_clear_def coord_inv_def jm.wf_empty)
qed

text \<open>The coordinator as a map from track identifiers to states.\<close>

fun map_step :: "(string \<rightharpoonup> track_state) \<Rightarrow> coord_op \<Rightarrow> (string \<rightharpoonup> track_state)" where
  "map_step m (Upsert t) = m(ts_trackId t \<mapsto> t)"
| "map_step m (Remove i) = m(i := None)"
| "map_step m ClearTracks = Map.empty"

lemma coord_step_map: "jm_get (coord_step c e) = map_step (jm_get c) e"
  by (cases e) (auto simp: upsertTrack_def removeTrack_def co_clear_def jm.get_put jm.get_remove
      jm.get_empty fun_eq_iff)

lemma coord_run_map: "jm_get (foldl coord_step c ops) = foldl map_step (jm_get c) ops"
  by (induction ops arbitrary: c) (simp_all add: coord_step_map)

lemma coord_inv_values: "coord_inv c \<Longrightarrow> set (getTracks c) = ran (jm_get c)
    \<and> distinct (map ts_trackId (getTracks c))"
proof -
  assume c: "coord_inv c"
  then have "map ts_trackId (map snd c) = map fst c" by (auto simp: coord_inv_def)
  with c show ?thesis
    by (auto simp: getTracks_def jm_values_def jm_get_def [abs_def] coord_inv_def jm_wf_def ran_distinct
        simp del: map_map)
qed

section \<open>The parts of a decision\<close>

definition worst :: "track_state list \<Rightarrow> qos_quality" where
  "worst ts = foldl (\<lambda>q t. minQuality q (ts_quality t)) (ts_quality (hd ts)) (tl ts)"

definition victims :: "track_state list \<Rightarrow> track_state list" where
  "victims ts = js_sort (\<lambda>l r. sourcePriority (ts_source r) - sourcePriority (ts_source l))
     (filter (sacrificial (list_ex (\<lambda>t. ts_source t = AudioSource) ts)
        (list_ex (\<lambda>t. ts_source t = ScreenShare) ts)) ts)"

lemma buildPeerQosDecision_parts:
  fixes cmp :: "string \<Rightarrow> string \<Rightarrow> int"
  assumes "tracks \<noteq> []"
  defines "ts \<equiv> prioritizeTracks cmp tracks"
  shows "buildPeerQosDecision cmp tracks = \<lparr>pd_peerQuality = worst ts,
      pd_prioritizedTrackIds = map ts_trackId ts, pd_sacrificialTrackIds = map ts_trackId (victims ts),
      pd_keepAudioAlive = list_ex (\<lambda>t. ts_source t = AudioSource) ts,
      pd_preferScreenShare = list_ex (\<lambda>t. ts_source t = ScreenShare) ts,
      pd_allowVideoRecovery = (worst ts \<noteq> Poor \<and> worst ts \<noteq> Lost
        \<and> \<not> list_ex (\<lambda>t. ts_source t = AudioSource \<and> ts_quality t = Poor) ts)\<rparr>"
  using assms(1) by (simp add: buildPeerQosDecision_def Let_def ts_def worst_def victims_def)

lemma prioritizeTracks_sorted:
  assumes "consistent cmp"
  shows "sorted_wrt (\<lambda>a b. sourcePriority (ts_source a) < sourcePriority (ts_source b) \<or>
      sourcePriority (ts_source a) = sourcePriority (ts_source b) \<and> cmp (ts_trackId a) (ts_trackId b) \<le> 0)
    (prioritizeTracks cmp tracks)"
  unfolding prioritizeTracks_def
  by (rule sorted_wrt_mono_rel [OF _ sorted_js_sort [OF consistent_track_compare [OF assms]]])
     (simp add: track_compare_le)

lemma sacrificial_camera:
  "t \<in> set ts \<Longrightarrow> sacrificial (list_ex (\<lambda>t. ts_source t = AudioSource) ts)
     (list_ex (\<lambda>t. ts_source t = ScreenShare) ts) t \<longleftrightarrow> ts_source t = Camera"
  by (cases "ts_source t") (auto simp: sacrificial_def list_ex_iff)

lemma js_sort_id: "(\<And>x y. x \<in> set xs \<Longrightarrow> y \<in> set xs \<Longrightarrow> c x y \<le> 0) \<Longrightarrow> js_sort c xs = xs"
proof (induction xs)
  case (Cons x xs)
  then have "js_sort c xs = xs" by simp
  then have "js_sort c (x # xs) = sort_insert c x xs" by (simp add: js_sort_def)
  also have "\<dots> = x # xs" using Cons.prems by (cases xs) simp_all
  finally show ?case .
qed (simp add: js_sort_def)

text \<open>A screen share is never given up, since there being one spares it: the tracks to sacrifice are the
  cameras, in the order of the tracks.\<close>

lemma victims_cameras: "victims ts = filter (\<lambda>t. ts_source t = Camera) ts"
proof -
  have "filter (sacrificial (list_ex (\<lambda>t. ts_source t = AudioSource) ts)
      (list_ex (\<lambda>t. ts_source t = ScreenShare) ts)) ts = filter (\<lambda>t. ts_source t = Camera) ts"
    by (rule filter_cong [OF refl]) (rule sacrificial_camera)
  then show ?thesis unfolding victims_def by (simp only:) (rule js_sort_id, simp)
qed

lemma worst_min:
  assumes "ts \<noteq> []"
  shows "worst ts \<in> ts_quality ` set ts" "t \<in> set ts \<Longrightarrow> qualityRank (worst ts) \<le> qualityRank (ts_quality t)"
  using foldl_minQuality [where q = "ts_quality (hd ts)" and ts = "tl ts"] assms by (cases ts; auto simp: worst_def)+

lemma good_rank: "q = Excellent \<or> q = Good \<longleftrightarrow> 2 \<le> qualityRank q" "q \<noteq> Poor \<and> q \<noteq> Lost \<longleftrightarrow> 2 \<le> qualityRank q"
  by (cases q; simp)+

lemma recovery_iff:
  assumes "ts \<noteq> []"
  shows "(worst ts \<noteq> Poor \<and> worst ts \<noteq> Lost
      \<and> \<not> list_ex (\<lambda>t. ts_source t = AudioSource \<and> ts_quality t = Poor) ts)
    \<longleftrightarrow> (\<forall>t \<in> set ts. ts_quality t = Excellent \<or> ts_quality t = Good)" (is "?l \<longleftrightarrow> ?r")
proof
  assume ?l
  then have "2 \<le> qualityRank (worst ts)" by (simp add: good_rank(2) [symmetric])
  then show ?r unfolding good_rank(1) using worst_min(2) [OF assms] by force
next
  assume r: ?r
  then have "worst ts = Excellent \<or> worst ts = Good" using worst_min(1) [OF assms] by force
  with r show ?l by (auto simp: list_ex_iff)
qed

section \<open>Properties\<close>

text \<open>C34: the peer decision. For any list of tracks and any consistent comparison of identifiers: the
  prioritized identifiers are those of all the tracks, audio first, then screen shares, then
  cameras, and by identifier within a source; the tracks to sacrifice are exactly the cameras, in that
  order, so never audio and never a screen share; the peer quality is the worst quality of a track, and
  lost when there is no track; video recovery is allowed exactly when there is a track and every track is
  good or excellent; audio is kept alive exactly when there is an audio track, and a screen share is
  preferred exactly when there is one.\<close>

theorem peer_decision:
  assumes "consistent cmp"
  shows "\<exists>ts.
      pd_prioritizedTrackIds (buildPeerQosDecision cmp tracks) = map ts_trackId ts
    \<and> mset ts = mset tracks
    \<and> sorted_wrt (\<lambda>a b. sourcePriority (ts_source a) < sourcePriority (ts_source b) \<or>
         sourcePriority (ts_source a) = sourcePriority (ts_source b) \<and> cmp (ts_trackId a) (ts_trackId b) \<le> 0) ts
    \<and> pd_sacrificialTrackIds (buildPeerQosDecision cmp tracks) =
         map ts_trackId (filter (\<lambda>t. ts_source t = Camera) ts)
    \<and> (if tracks = [] then pd_peerQuality (buildPeerQosDecision cmp tracks) = Lost
       else pd_peerQuality (buildPeerQosDecision cmp tracks) \<in> ts_quality ` set tracks)
    \<and> (\<forall>t \<in> set tracks. qualityRank (pd_peerQuality (buildPeerQosDecision cmp tracks))
         \<le> qualityRank (ts_quality t))
    \<and> (pd_allowVideoRecovery (buildPeerQosDecision cmp tracks) \<longleftrightarrow>
         tracks \<noteq> [] \<and> (\<forall>t \<in> set tracks. ts_quality t = Excellent \<or> ts_quality t = Good))
    \<and> (pd_keepAudioAlive (buildPeerQosDecision cmp tracks) \<longleftrightarrow>
         (\<exists>t \<in> set tracks. ts_source t = AudioSource))
    \<and> (pd_preferScreenShare (buildPeerQosDecision cmp tracks) \<longleftrightarrow>
         (\<exists>t \<in> set tracks. ts_source t = ScreenShare))"
proof (cases "tracks = []")
  case False
  let ?ts = "prioritizeTracks cmp tracks"
  note d = buildPeerQosDecision_parts [OF False, of cmp]
  have m: "mset ?ts = mset tracks" and st: "set ?ts = set tracks" by (simp_all add: prioritizeTracks_def)
  have ne: "?ts \<noteq> []" using m False by (metis mset_zero_iff)
  have "worst ?ts \<in> ts_quality ` set tracks"
    "\<forall>t \<in> set tracks. qualityRank (worst ?ts) \<le> qualityRank (ts_quality t)"
    using worst_min [OF ne] by (simp_all add: st)
  with prioritizeTracks_sorted [OF assms, of tracks] recovery_iff [OF ne] m show ?thesis
    by (intro exI [of _ ?ts]) (simp add: d st False list_ex_iff victims_cameras)
qed (simp add: buildPeerQosDecision_def)

text \<open>A comparison of identifiers by the codes of their characters.\<close>

fun list_compare :: "int list \<Rightarrow> int list \<Rightarrow> int" where
  "list_compare [] [] = 0"
| "list_compare [] (_ # _) = -1"
| "list_compare (_ # _) [] = 1"
| "list_compare (a # s) (b # t) = (if a < b then -1 else if b < a then 1 else list_compare s t)"

definition code_compare :: "string \<Rightarrow> string \<Rightarrow> int" where
  "code_compare s t = list_compare (map of_char s) (map of_char t)"

lemma list_compare_flip: "list_compare s t + list_compare t s = 0"
  by (induction s t rule: list_compare.induct) auto

lemma list_compare_trans: "list_compare s t \<le> 0 \<Longrightarrow> list_compare t u \<le> 0 \<Longrightarrow> list_compare s u \<le> 0"
proof (induction s t arbitrary: u rule: list_compare.induct)
  case (4 a s b t)
  show ?case
  proof (cases u)
    case (Cons d v)
    have "a < b \<or> a = b \<and> list_compare s t \<le> 0" using 4(2) by (simp split: if_splits)
    moreover have "b < d \<or> b = d \<and> list_compare t v \<le> 0" using 4(3) Cons by (simp split: if_splits)
    moreover have "a = b \<Longrightarrow> list_compare s t \<le> 0 \<Longrightarrow> list_compare t v \<le> 0 \<Longrightarrow> list_compare s v \<le> 0"
      using 4(1) [of v] by simp
    ultimately show ?thesis using Cons by (elim disjE) simp_all
  qed (use 4 in simp)
next
  case (2 b t)
  then show ?case by (cases u) simp_all
next
  case 1
  then show ?case by simp
next
  case (3 a s)
  then show ?case by simp
qed

lemma consistent_code_compare: "consistent code_compare"
proof -
  have "0 < list_compare x y \<Longrightarrow> list_compare y x \<le> 0" for x y using list_compare_flip [of x y] by simp
  then show ?thesis unfolding consistent_def code_compare_def using list_compare_trans by blast
qed

definition sample_track :: "string \<Rightarrow> qos_source \<Rightarrow> qos_quality \<Rightarrow> track_state" where
  "sample_track i s q = \<lparr>ts_trackId = i, ts_source = s, ts_kind = (if s = AudioSource then KAudio else KVideo),
     ts_state = Stable, ts_quality = q, ts_level = Fin 0, ts_inAudioOnlyMode = False\<rparr>"

theorem peer_decision_witness:
  "\<exists>ts. pd_prioritizedTrackIds (buildPeerQosDecision code_compare
       [sample_track ''cam'' Camera Poor, sample_track ''mic'' AudioSource Good]) = map ts_trackId ts
     \<and> mset ts = {#sample_track ''cam'' Camera Poor, sample_track ''mic'' AudioSource Good#}
     \<and> pd_sacrificialTrackIds (buildPeerQosDecision code_compare
         [sample_track ''cam'' Camera Poor, sample_track ''mic'' AudioSource Good]) =
         map ts_trackId (filter (\<lambda>t. ts_source t = Camera) ts)"
proof -
  let ?tracks = "[sample_track ''cam'' Camera Poor, sample_track ''mic'' AudioSource Good]"
  from peer_decision [OF consistent_code_compare, of ?tracks] obtain ts where
    "pd_prioritizedTrackIds (buildPeerQosDecision code_compare ?tracks) = map ts_trackId ts"
    "mset ts = mset ?tracks"
    "pd_sacrificialTrackIds (buildPeerQosDecision code_compare ?tracks) =
       map ts_trackId (filter (\<lambda>t. ts_source t = Camera) ts)" by blast
  then show ?thesis by (intro exI [of _ ts]) simp
qed

text \<open>the coordinator is a map from track identifiers to the latest state: after any sequence of
  upserts, removals and clears it holds one state per identifier, the last one upserted and not
  removed since, and its tracks are exactly those states.\<close>

theorem coordinator_is_latest_map:
  "jm_get (foldl coord_step [] ops) = foldl map_step Map.empty ops
   \<and> set (getTracks (foldl coord_step [] ops)) = ran (foldl map_step Map.empty ops)
   \<and> distinct (map ts_trackId (getTracks (foldl coord_step [] ops)))"
proof -
  have e: "jm_get ([] :: coordinator) = Map.empty" by (simp add: fun_eq_iff jm.get_empty)
  have "coord_inv []" by (simp add: coord_inv_def jm.wf_empty)
  from coord_inv_values [OF coord.run_inv [OF this, of ops]] show ?thesis
    by (simp add: coord_run_map e)
qed

end
