(* ===== verification/Session.thy ===== *)
theory Session
  imports ModeTracking StatsProvider SignalChannel Coordinator
begin

text \<open>
  \<open>factory.js\<close>: the composition of the components. A bundle is one producer with its controller, its
  executor, its statistics provider and its signalling channel; a session is the bundles of a peer
  with one coordinator. The application gives \<open>sendRequest\<close>, the transport answers the producer, and
  the host has the clock: these three are parameters.
\<close>

section \<open>Bundles\<close>

record 'h bundle_world =
  bw_executor :: "'h producer_world executor"
  bw_producer :: "'h producer_world"
  bw_remoteTimestampsMs :: "(string, number) jsmap"

record 'h qos_bundle =
  bu_controller :: controller
  bu_channel :: "unit channel"
  bu_source :: qos_source
  bu_world :: "'h bundle_world"

type_synonym 'h sender = "'h \<Rightarrow> string \<Rightarrow> client_snapshot \<Rightarrow> 'h \<times> thrown option"

fun status_name :: "exec_status \<Rightarrow> string" where
  "status_name Applied = ''applied''"
| "status_name SkippedNoop = ''skipped_noop''"
| "status_name SkippedIdempotent = ''skipped_idempotent''"
| "status_name ExecFailed = ''failed''"

text \<open>The result of the executor as the controller reads it: an object with a \<open>status\<close>.\<close>

definition result_val :: "exec_result \<Rightarrow> jsval" where
  "result_val r = VObj [(''status'', VStr (status_name (re_status r)))]"

definition bundle_env :: "'h sender \<Rightarrow> unit channel \<Rightarrow> 'h bundle_world env" where
  "bundle_env send ch = \<lparr>
     en_execute = (\<lambda>x a. case execute (bw_executor x) (bw_producer x) a of (ex, w, r) \<Rightarrow>
        (x\<lparr>bw_executor := ex, bw_producer := w\<rparr>, Inr (result_val r))),
     en_publish = Some (\<lambda>x s. case ch_publishSnapshot send ch s (pw_host (bw_producer x)) of (h, t) \<Rightarrow>
        (x\<lparr>bw_producer := (bw_producer x)\<lparr>pw_host := h\<rparr>\<rparr>, t))\<rparr>"

record 'h bundle_options =
  bo_source :: qos_source
  bo_profile :: "profile_override option"
  bo_traceCapacity :: "number option"
  bo_sampleIntervalMs :: "number option"
  bo_snapshotIntervalMs :: "number option"
  bo_allowAudioOnly :: "bool option"
  bo_allowVideoPause :: "bool option"
  bo_executorOptions :: "'h producer_world executor_options"

definition bundle_controller_options :: "'h bundle_options \<Rightarrow> 'h producer_world \<Rightarrow> controller_options" where
  "bundle_controller_options options w =
     (let p = pw_producer w
      in \<lparr>op_profile = resolveProfile (bo_source options) (bo_profile options),
          op_trackId = (case pd_track p of Some t \<Rightarrow> mt_id (pw_tracks w t) | None \<Rightarrow> pd_id p),
          op_kind = pd_kind p, op_producerId = Some (pd_id p),
          op_sampleIntervalMs = bo_sampleIntervalMs options,
          op_snapshotIntervalMs = bo_snapshotIntervalMs options,
          op_traceCapacity = bo_traceCapacity options, op_allowAudioOnly = bo_allowAudioOnly options,
          op_allowVideoPause = bo_allowVideoPause options, op_initialLevel = None,
          op_initialAudioOnlyMode = False\<rparr>)"

definition createMediasoupProducerQosController ::
    "'h sender_ops \<Rightarrow> 'h bundle_options \<Rightarrow> 'h producer_world \<Rightarrow> number \<Rightarrow> 'h qos_bundle result" where
  "createMediasoupProducerQosController ops options w nowMs =
     bindr (new_PublisherQosController (bundle_controller_options options w) nowMs) (\<lambda>c.
       Inr \<lparr>bu_controller = c,
            bu_channel = fst (onOverride () (fst (onPolicy () (new_QosSignalChannel None)))),
            bu_source = bo_source options,
            bu_world = \<lparr>bw_executor = new_executor (createProducerActionSink ops) (bo_executorOptions options),
              bw_producer = w, bw_remoteTimestampsMs = []\<rparr>\<rparr>)"

text \<open>\<open>sampleNow\<close> of the controller of a bundle, with the bundle's statistics provider; \<open>date\<close> is the wall
  clock the provider falls back to.\<close>

definition bundle_sampleNow ::
    "'h sender_ops \<Rightarrow> 'h sender \<Rightarrow> number \<Rightarrow> number \<Rightarrow> 'h qos_bundle \<Rightarrow> 'h qos_bundle \<times> thrown option" where
  "bundle_sampleNow ops send date nowMs b =
     (case sampleNow (bundle_env send (bu_channel b))
         (\<lambda>x. case getSnapshot ops (bu_source b) date (bw_remoteTimestampsMs x) (bw_producer x) of
            ((ts, w), r) \<Rightarrow> (x\<lparr>bw_producer := w, bw_remoteTimestampsMs := ts\<rparr>, r))
         nowMs (bu_controller b, bu_world b) of
        (c, x, t) \<Rightarrow> (b\<lparr>bu_controller := c, bu_world := x\<rparr>, t))"

text \<open>What the listeners of a controller do with a message; the clock is part of the world.\<close>

definition controller_calls ::
    "('k, unit \<times> unit option) clock_ops \<Rightarrow> number \<Rightarrow> (unit, 'k \<times> controller) listener_calls" where
  "controller_calls cops nowMs = \<lparr>
     lc_policy = (\<lambda>_ p kc. case handlePolicy cops kc p of (k, c, e) \<Rightarrow> ((k, c), map_option ThrownError e)),
     lc_override = (\<lambda>_ ov kc. ((fst kc, handleOverride (snd kc) nowMs ov), None)),
     lc_connectionQuality = (\<lambda>_ _ kc. (kc, None)), lc_roomState = (\<lambda>_ _ kc. (kc, None))\<rparr>"

definition bundle_handleNotification ::
    "('k, unit \<times> unit option) clock_ops \<Rightarrow> number \<Rightarrow> jsval \<Rightarrow> 'k \<times> 'h qos_bundle \<Rightarrow> 'k \<times> 'h qos_bundle \<times> thrown option" where
  "bundle_handleNotification cops nowMs message kb =
     (case kb of (k, b) \<Rightarrow>
        case handleMessage (controller_calls cops nowMs) (bu_channel b) message (k, bu_controller b) of
          ((k', c), t) \<Rightarrow> (k', b\<lparr>bu_controller := c\<rparr>, t))"

section \<open>Sessions\<close>

record 'h session =
  se_bundles :: "'h qos_bundle list"
  se_coordinator :: coordinator

definition createMediasoupPeerQosSession ::
    "'h sender_ops \<Rightarrow> ('h bundle_options \<times> 'h producer_world) list \<Rightarrow> number \<Rightarrow> 'h session result" where
  "createMediasoupPeerQosSession ops producers nowMs =
     bindr (mapr (\<lambda>(options, w). createMediasoupProducerQosController ops options w nowMs) producers) (\<lambda>bs.
       Inr \<lparr>se_bundles = bs, se_coordinator = []\<rparr>)"

definition coordination_for :: "peer_decision \<Rightarrow> track_state \<Rightarrow> coordination_request option" where
  "coordination_for decision track =
     (let isSacrificial = (ts_trackId track \<in> set (pd_sacrificialTrackIds decision));
          disable = ((ts_source track \<noteq> AudioSource \<and> \<not> pd_allowVideoRecovery decision)
            \<or> (ts_source track = Camera \<and> isSacrificial \<and> pd_preferScreenShare decision));
          force = (ts_source track = Camera \<and> isSacrificial
            \<and> (pd_peerQuality decision = Poor \<or> pd_peerQuality decision = Lost))
      in if disable \<or> force
         then Some \<lparr>cq_maxLevelClamp = None, cq_disableRecovery = (if disable then Some True else None),
           cq_forceAudioOnly = (if force then Some True else None), cq_pauseUpstream = None,
           cq_resumeUpstream = None\<rparr>
         else None)"

definition applyPeerCoordination :: "peer_decision \<Rightarrow> 'h qos_bundle list \<Rightarrow> 'h qos_bundle list" where
  "applyPeerCoordination decision bundles =
     map (\<lambda>b. b\<lparr>bu_controller := setCoordinationOverride (bu_controller b)
           (coordination_for decision (getTrackState (bu_controller b)))\<rparr>) bundles"

fun start_all ::
    "('k, unit \<times> unit option) clock_ops \<Rightarrow> 'k \<Rightarrow> 'h qos_bundle list \<Rightarrow> 'k \<times> 'h qos_bundle list" where
  "start_all cops k [] = (k, [])"
| "start_all cops k (b # bs) =
     (case ct_start cops (k, bu_controller b) of (k1, c) \<Rightarrow>
        case start_all cops k1 bs of (k2, bs') \<Rightarrow> (k2, b\<lparr>bu_controller := c\<rparr> # bs'))"

fun stop_all ::
    "('k, unit \<times> unit option) clock_ops \<Rightarrow> 'k \<Rightarrow> 'h qos_bundle list \<Rightarrow> 'k \<times> 'h qos_bundle list" where
  "stop_all cops k [] = (k, [])"
| "stop_all cops k (b # bs) =
     (case ct_stop cops (k, bu_controller b) of (k1, c) \<Rightarrow>
        case stop_all cops k1 bs of (k2, bs') \<Rightarrow> (k2, b\<lparr>bu_controller := c\<rparr> # bs'))"

text \<open>The loop of \<open>sampleAllNow\<close>: the first sample that throws ends it. \<open>sample i b\<close> is \<open>sampleNow\<close> of the
  \<open>i\<close>-th bundle, at the time it is reached.\<close>

fun sample_loop ::
    "(nat \<Rightarrow> 'h qos_bundle \<Rightarrow> 'h qos_bundle \<times> thrown option) \<Rightarrow> nat \<Rightarrow> 'h qos_bundle list \<Rightarrow> coordinator
     \<Rightarrow> 'h qos_bundle list \<times> coordinator \<times> thrown option" where
  "sample_loop sample i [] co = ([], co, None)"
| "sample_loop sample i (b # bs) co =
     (case sample i b of
        (b', Some t) \<Rightarrow> (b' # bs, co, Some t)
      | (b', None) \<Rightarrow>
          case sample_loop sample (i + 1) bs (upsertTrack co (getTrackState (bu_controller b'))) of
            (bs', co', r) \<Rightarrow> (b' # bs', co', r))"

definition sampleAllNow ::
    "'h sender_ops \<Rightarrow> 'h sender \<Rightarrow> (string \<Rightarrow> string \<Rightarrow> int) \<Rightarrow> (nat \<Rightarrow> number) \<Rightarrow> (nat \<Rightarrow> number) \<Rightarrow> 'h session
     \<Rightarrow> 'h session \<times> thrown option" where
  "sampleAllNow ops send cmp date nowMs se =
     (case sample_loop (\<lambda>i. bundle_sampleNow ops send (date i) (nowMs i)) 0 (se_bundles se) (se_coordinator se) of
        (bs, co, Some t) \<Rightarrow> (\<lparr>se_bundles = bs, se_coordinator = co\<rparr>, Some t)
      | (bs, co, None) \<Rightarrow>
          (\<lparr>se_bundles = applyPeerCoordination (getDecision cmp co) bs, se_coordinator = co\<rparr>, None))"

fun notify_all ::
    "('k, unit \<times> unit option) clock_ops \<Rightarrow> number \<Rightarrow> jsval \<Rightarrow> 'k \<Rightarrow> 'h qos_bundle list
     \<Rightarrow> 'k \<times> 'h qos_bundle list \<times> thrown option" where
  "notify_all cops nowMs message k [] = (k, [], None)"
| "notify_all cops nowMs message k (b # bs) =
     (case bundle_handleNotification cops nowMs message (k, b) of
        (k1, b', Some t) \<Rightarrow> (k1, b' # bs, Some t)
      | (k1, b', None) \<Rightarrow>
          case notify_all cops nowMs message k1 bs of (k2, bs', t) \<Rightarrow> (k2, b' # bs', t))"

definition session_getDecision ::
    "(string \<Rightarrow> string \<Rightarrow> int) \<Rightarrow> 'h session \<Rightarrow> 'h session \<times> peer_decision" where
  "session_getDecision cmp se =
     (let co = foldl (\<lambda>co b. upsertTrack co (getTrackState (bu_controller b))) (se_coordinator se) (se_bundles se);
          decision = getDecision cmp co
      in (\<lparr>se_bundles = applyPeerCoordination decision (se_bundles se), se_coordinator = co\<rparr>, decision))"

section \<open>The mode of a camera is the pause of its producer\<close>

definition key_agrees :: "action_key option \<Rightarrow> bool \<Rightarrow> bool" where
  "key_agrees k paused \<longleftrightarrow>
     (\<forall>rest. (k = Some (KType TEnterAudioOnly # rest) \<longrightarrow> paused) \<and> (k = Some (KType TExitAudioOnly # rest) \<longrightarrow> \<not> paused))"

definition mode_ok :: "'h sender_ops \<Rightarrow> bool \<Rightarrow> 'h bundle_world \<Rightarrow> bool" where
  "mode_ok ops m x \<longleftrightarrow> m = pd_paused (pw_producer (bw_producer x))
     \<and> ex_sink (bw_executor x) = createProducerActionSink ops \<and> ex_onError (bw_executor x) = None
     \<and> ex_keyResolver (bw_executor x) = defaultQosActionKeyResolver
     \<and> key_agrees (ex_lastAppliedActionKey (bw_executor x)) m"

lemma default_key_type: "\<exists>rest. defaultQosActionKeyResolver a = KType (a_type a) # rest"
  by (cases a) auto

lemma wasActionApplied_result: "wasActionApplied (result_val r) \<longleftrightarrow> re_status r \<noteq> ExecFailed"
  by (cases "re_status r") (simp_all add: wasActionApplied_def result_val_def)

lemma execute_mode:
  assumes "mode_ok ops m x" "mode_action a" "execute (bw_executor x) (bw_producer x) a = (ex, w, r)"
  shows "mode_ok ops (if re_status r \<noteq> ExecFailed then mode_after a m else m) (x\<lparr>bw_executor := ex, bw_producer := w\<rparr>)"
proof -
  let ?ex = "bw_executor x" and ?w = "bw_producer x"
  let ?k = "defaultQosActionKeyResolver a"
  obtain rest where k: "?k = KType (a_type a) # rest" using default_key_type by blast
  note j = assms(1) [unfolded mode_ok_def]
  consider (noop) "a_type a = TNoop" "ex = ?ex" "w = ?w" "re_status r = SkippedNoop"
    | (same) "ex_lastAppliedActionKey ?ex = Some ?k" "ex = ?ex" "w = ?w" "re_status r = SkippedIdempotent"
    | (okay) "createProducerActionSink ops ?w a = (w, None)" "ex = ?ex\<lparr>ex_lastAppliedActionKey := Some ?k\<rparr>"
        "re_status r = Applied"
    | (failed) t where "createProducerActionSink ops ?w a = (w, Some t)" "ex = ?ex" "re_status r = ExecFailed"
  proof -
    have f: "ex_sink ?ex = createProducerActionSink ops" "ex_onError ?ex = None"
      "ex_keyResolver ?ex = defaultQosActionKeyResolver" using j by simp_all
    obtain w1 t where s: "createProducerActionSink ops ?w a = (w1, t)" by force
    note e = assms(3) [unfolded execute_def Let_def f s prod.case exec_result_def option.case]
    consider "a_type a = TNoop" | "a_type a \<noteq> TNoop" "ex_enableIdempotence ?ex \<and> ex_lastAppliedActionKey ?ex = Some ?k"
      | "a_type a \<noteq> TNoop" "\<not> (ex_enableIdempotence ?ex \<and> ex_lastAppliedActionKey ?ex = Some ?k)" by blast
    then show thesis
    proof cases
      case 1
      have "ex = ?ex" "w = ?w" "re_status r = SkippedNoop" using e unfolding if_P [OF 1] by (simp_all only: prod.inject) auto
      with 1 show thesis by (rule noop)
    next
      case 2
      have "ex = ?ex" "w = ?w" "re_status r = SkippedIdempotent"
        using e unfolding if_not_P [OF 2(1)] if_P [OF 2(2)] by (simp_all only: prod.inject) auto
      with 2(2) show thesis by (intro same) simp_all
    next
      case 3
      note e3 = e [unfolded if_not_P [OF 3(1)] if_not_P [OF 3(2)]]
      show thesis
      proof (cases t)
        case None
        then have "w = w1" "ex = ?ex\<lparr>ex_lastAppliedActionKey := Some ?k\<rparr>" "re_status r = Applied" using e3 by auto
        with s None show thesis by (intro okay) simp_all
      next
        case (Some t')
        then have "w = w1" "ex = ?ex" "re_status r = ExecFailed" using e3 by auto
        with s Some show thesis by (intro failed) simp_all
      qed
    qed
  qed
  then show ?thesis
  proof cases
    case noop
    then show ?thesis using assms(1) by (simp add: mode_after_def)
  next
    case same
    have "mode_after a m = m" using j same(1) k by (auto simp: mode_after_def key_agrees_def)
    then show ?thesis using assms(1) same by simp
  next
    case okay
    have "pd_paused (pw_producer w) = mode_after a m"
      using sink_paused(2) [OF okay(1)] j assms(2) by (auto simp: mode_after_def pauses_def resumes_def mode_action_def)
    then show ?thesis using j okay k by (auto simp: mode_ok_def key_agrees_def mode_after_def)
  next
    case failed
    then show ?thesis using sink_paused(2) [OF failed(1)] j by (auto simp: mode_ok_def)
  qed
qed

interpretation bm: mode_env "bundle_env send ch" "mode_ok ops" for send ch ops
proof
  fix m x a x' r assume a: "mode_ok ops m x" "mode_action a" "en_execute (bundle_env send ch) x a = (x', Inr r)"
  obtain ex w r' where e: "execute (bw_executor x) (bw_producer x) a = (ex, w, r')"
    by (cases "execute (bw_executor x) (bw_producer x) a")
  have x': "x' = x\<lparr>bw_executor := ex, bw_producer := w\<rparr>" "r = result_val r'" using a(3) e by (auto simp: bundle_env_def)
  note m = execute_mode [OF a(1,2) e]
  show "wasActionApplied r \<Longrightarrow> mode_ok ops (mode_after a m) x'" "\<not> wasActionApplied r \<Longrightarrow> mode_ok ops m x'"
    using m by (simp_all add: x' wasActionApplied_result)
qed (auto simp: bundle_env_def mode_ok_def split: prod.splits)

lemma camera_registry_plain: "map_of (PROFILE_REGISTRY Camera) name = Some p \<Longrightarrow> plain_ladder p"
  by (auto simp: PROFILE_REGISTRY_def plain_ladder_def DEFAULT_CAMERA_PROFILE_def CONSERVATIVE_CAMERA_PROFILE_def
      step_enc_def split: if_splits)

text \<open>What can happen to a bundle: a sample, a message, a coordination request, the timer being started
  and stopped, the producer being closed by the application or its transport. The application does
  not pause or resume the producer behind the controller's back.\<close>

datatype bundle_event =
    BSample number number
  | BNotify number jsval
  | BCoordinate "coordination_request option"
  | BStart
  | BStop
  | BClose
  | BTransportClosed

definition on_producer :: "('h producer_world \<Rightarrow> 'h producer_world) \<Rightarrow> 'h qos_bundle \<Rightarrow> 'h qos_bundle" where
  "on_producer f b = b\<lparr>bu_world := (bu_world b)\<lparr>bw_producer := f (bw_producer (bu_world b))\<rparr>\<rparr>"

fun bundle_step ::
    "'h sender_ops \<Rightarrow> 'h sender \<Rightarrow> ('k, unit \<times> unit option) clock_ops \<Rightarrow> 'k \<times> 'h qos_bundle \<Rightarrow> bundle_event
     \<Rightarrow> 'k \<times> 'h qos_bundle" where
  "bundle_step ops send cops (k, b) (BSample date nowMs) = (k, fst (bundle_sampleNow ops send date nowMs b))"
| "bundle_step ops send cops (k, b) (BNotify nowMs message) =
     (case bundle_handleNotification cops nowMs message (k, b) of (k', b', _) \<Rightarrow> (k', b'))"
| "bundle_step ops send cops (k, b) (BCoordinate r) =
     (k, b\<lparr>bu_controller := setCoordinationOverride (bu_controller b) r\<rparr>)"
| "bundle_step ops send cops (k, b) BStart =
     (case ct_start cops (k, bu_controller b) of (k', c) \<Rightarrow> (k', b\<lparr>bu_controller := c\<rparr>))"
| "bundle_step ops send cops (k, b) BStop =
     (case ct_stop cops (k, bu_controller b) of (k', c) \<Rightarrow> (k', b\<lparr>bu_controller := c\<rparr>))"
| "bundle_step ops send cops (k, b) BClose = (k, on_producer pd_close b)"
| "bundle_step ops send cops (k, b) BTransportClosed = (k, on_producer pd_transportClosed b)"

fun bundle_event_ok :: "bundle_event \<Rightarrow> bool" where
  "bundle_event_ok (BCoordinate r) \<longleftrightarrow> (\<forall>q l. r = Some q \<and> cq_maxLevelClamp q = Some l \<longrightarrow> is_finite l)"
| "bundle_event_ok _ \<longleftrightarrow> True"

definition camera_ok :: "'h sender_ops \<Rightarrow> 'k \<times> 'h qos_bundle \<Rightarrow> bool" where
  "camera_ok ops kb \<longleftrightarrow>
     (case kb of (k, b) \<Rightarrow> ctrl_inv (bu_controller b) \<and> plain_ladder (ct_profile (bu_controller b))
        \<and> pf_source (ct_profile (bu_controller b)) = Camera
        \<and> mode_ok ops (ct_inAudioOnlyMode (bu_controller b)) (bu_world b))"

lemma close_paused:
  "pd_paused (pw_producer (pd_close w)) = pd_paused (pw_producer w)"
  "pd_paused (pw_producer (pd_transportClosed w)) = pd_paused (pw_producer w)"
  by (auto simp: pd_close_def pd_transportClosed_def Let_def track_op_defs split: option.splits)

lemma mode_ok_cong:
  "mode_ok ops m x \<Longrightarrow> bw_executor y = bw_executor x
   \<Longrightarrow> pd_paused (pw_producer (bw_producer y)) = pd_paused (pw_producer (bw_producer x)) \<Longrightarrow> mode_ok ops m y"
  by (auto simp: mode_ok_def)

lemma getSnapshot_producer:
  assumes "getSnapshot ops src date ts w = ((ts', w'), r)"
  shows "pw_producer w' = pw_producer w"
proof -
  have "pw_producer (fst (pd_getStats ops w)) = pw_producer w"
    by (simp add: pd_getStats_def split: prod.splits)
  then show ?thesis
    using assms by (auto simp: getSnapshot_def getStatsReport_def Let_def split: prod.splits sum.splits)
qed

lemma bundle_sample_ok:
  assumes "camera_ok ops (k, b)" "bundle_sampleNow ops send date n b = (b', t)"
  shows "camera_ok ops (k, b')"
proof -
  let ?c = "bu_controller b" and ?x = "bu_world b"
  note j = assms(1) [unfolded camera_ok_def prod.case]
  obtain ts w r where g: "getSnapshot ops (bu_source b) date (bw_remoteTimestampsMs ?x) (bw_producer ?x) = ((ts, w), r)"
    by (metis surj_pair)
  let ?y = "?x\<lparr>bw_producer := w, bw_remoteTimestampsMs := ts\<rparr>"
  have y: "mode_ok ops (ct_inAudioOnlyMode ?c) ?y"
    using j getSnapshot_producer [OF g] by (auto intro: mode_ok_cong)
  show ?thesis
  proof (cases r)
    case (Inl t')
    then have "b' = b\<lparr>bu_world := ?y\<rparr>"
      using assms(2) g by (auto simp: bundle_sampleNow_def sampleNow_def sampleOnce_def)
    then show ?thesis using j y by (simp add: camera_ok_def)
  next
    case (Inr raw)
    obtain c' x' t' where p: "processSample (bundle_env send (bu_channel b)) n (?c, ?y) raw = (c', x', t')"
      by (cases "processSample (bundle_env send (bu_channel b)) n (?c, ?y) raw")
    have "b' = b\<lparr>bu_controller := c', bu_world := x'\<rparr>"
      using assms(2) g Inr p by (auto simp: bundle_sampleNow_def sampleNow_def sampleOnce_def)
    then show ?thesis
      using bm.processSample_mode [OF _ y _ p] processSample_inv [OF _ p] j by (simp add: camera_ok_def)
  qed
qed

text \<open>Messages and control calls leave the mode of a controller.\<close>

lemma notify_keeps:
  "(\<And>l x. P x \<Longrightarrow> P (fst (f l x))) \<Longrightarrow> P x \<Longrightarrow> P (fst (notify f ls x))"
proof (induction ls arbitrary: x)
  case (Cons l ls)
  obtain x' r where f: "f l x = (x', r)" by force
  then have "P x'" using Cons.prems(1) [OF Cons.prems(2), of l] by simp
  then show ?case using Cons f by (cases r) auto
qed simp

lemma handleMessage_keeps:
  assumes "\<And>l p x. P x \<Longrightarrow> P (fst (lc_policy calls l p x))"
    and "\<And>l ov x. override_valid ov \<Longrightarrow> P x \<Longrightarrow> P (fst (lc_override calls l ov x))"
    and "\<And>l v x. P x \<Longrightarrow> P (fst (lc_connectionQuality calls l v x))"
    and "\<And>l v x. P x \<Longrightarrow> P (fst (lc_roomState calls l v x))" and "P x"
  shows "P (fst (handleMessage calls ch message x))"
proof -
  have "P (fst (notify (\<lambda>l. lc_override calls l ov) ls x))" if "parseQosOverride v = Inr ov" for ov ls v
    using assms(2) [OF override_codec.decode_valid [OF that]] assms(5) by (rule notify_keeps)
  moreover have "P (fst (notify (\<lambda>l. lc_policy calls l p) ls x))" for p ls
    using assms(1,5) by (rule notify_keeps)
  moreover have "P (fst (notify (\<lambda>l. lc_connectionQuality calls l v) ls x))" for v ls
    using assms(3,5) by (rule notify_keeps)
  moreover have "P (fst (notify (\<lambda>l. lc_roomState calls l v) ls x))" for v ls
    using assms(4,5) by (rule notify_keeps)
  ultimately show ?thesis
    using assms(5) by (auto simp: handleMessage_def Let_def split: jsval.splits sum.splits)
qed

definition camera_controller_ok :: "bool \<Rightarrow> controller \<Rightarrow> bool" where
  "camera_controller_ok m c \<longleftrightarrow> ctrl_inv c \<and> plain_ladder (ct_profile c) \<and> pf_source (ct_profile c) = Camera
     \<and> ct_inAudioOnlyMode c = m"

lemma handlePolicy_camera:
  assumes "camera_controller_ok m c" "handlePolicy cops (k, c) p = (k', c', e)"
  shows "camera_controller_ok m c'"
proof -
  have src: "pf_source (ct_profile c) = Camera" using assms(1) by (simp add: camera_controller_ok_def)
  have res: "plain_ladder q \<and> pf_source q = Camera" if "resolveProfileByName Camera n = Inr (Some q)" for n q
    using that camera_registry_plain registry_profile_source [of Camera n q]
    by (auto simp: resolveProfileByName_def split: option.splits if_splits)
  have "ct_inAudioOnlyMode c' = ct_inAudioOnlyMode c
      \<and> (ct_profile c' = ct_profile c \<or> (\<exists>n. resolveProfileByName Camera n = Inr (Some (ct_profile c'))))"
    using assms(2) src unfolding handlePolicy_def Let_def
    by (auto split: sum.splits prod.splits if_splits option.splits)
  then show ?thesis
    using assms(1) res handlePolicy_inv [OF _ assms(2)] by (auto simp: camera_controller_ok_def)
qed

lemma control_camera:
  assumes "camera_controller_ok m c"
  shows "override_valid ov \<Longrightarrow> camera_controller_ok m (handleOverride c n ov)"
    "ct_start cops (k, c) = (k', c') \<Longrightarrow> camera_controller_ok m c'"
    "ct_stop cops (k, c) = (k', c') \<Longrightarrow> camera_controller_ok m c'"
    "(\<And>q l. r = Some q \<Longrightarrow> cq_maxLevelClamp q = Some l \<Longrightarrow> is_finite l) \<Longrightarrow> camera_controller_ok m (setCoordinationOverride c r)"
proof -
  note j = assms [unfolded camera_controller_ok_def]
  show "override_valid ov \<Longrightarrow> camera_controller_ok m (handleOverride c n ov)"
    using j handleOverride_inv [of c ov n] by (auto simp: camera_controller_ok_def handleOverride_def split: option.splits)
  show "ct_start cops (k, c) = (k', c') \<Longrightarrow> camera_controller_ok m c'"
    using j sampler_control_inv(1) [of c cops k k' c']
    by (auto simp: camera_controller_ok_def ct_start_def split: if_splits prod.splits)
  show "ct_stop cops (k, c) = (k', c') \<Longrightarrow> camera_controller_ok m c'"
    using j sampler_control_inv(2) [of c cops k k' c']
    by (auto simp: camera_controller_ok_def ct_stop_def split: if_splits prod.splits)
  show "(\<And>q l. r = Some q \<Longrightarrow> cq_maxLevelClamp q = Some l \<Longrightarrow> is_finite l) \<Longrightarrow> camera_controller_ok m (setCoordinationOverride c r)"
    using j setCoordinationOverride_inv [of c r]
    by (auto simp: camera_controller_ok_def setCoordinationOverride_def Let_def split: option.splits)
qed

lemma camera_ok_split:
  "camera_ok ops (k, b) \<longleftrightarrow> (\<exists>m. camera_controller_ok m (bu_controller b) \<and> mode_ok ops m (bu_world b))"
  by (auto simp: camera_ok_def camera_controller_ok_def)

interpretation cb: guarded_invariant "bundle_step ops send cops" "camera_ok ops" bundle_event_ok 
  for ops :: "'h sender_ops" and send and cops :: "('k, unit \<times> unit option) clock_ops"
proof
  fix kb :: "'k \<times> 'h qos_bundle" and e assume ok: "camera_ok ops kb" "bundle_event_ok e"
  obtain k b where kb: "kb = (k, b)" by force
  obtain m where m: "camera_controller_ok m (bu_controller b)" "mode_ok ops m (bu_world b)"
    using ok(1) by (auto simp: kb camera_ok_split)
  show "camera_ok ops (bundle_step ops send cops kb e)"
  proof (cases e)
    case (BSample date n)
    obtain b' t where "bundle_sampleNow ops send date n b = (b', t)" by force
    then show ?thesis using bundle_sample_ok [of ops k b] ok(1) by (simp add: kb BSample)
  next
    case (BNotify n message)
    let ?P = "\<lambda>kc. camera_controller_ok m (snd kc)"
    have "?P (fst (handleMessage (controller_calls cops n) (bu_channel b) message (k, bu_controller b)))"
    proof (rule handleMessage_keeps)
      fix l p and kc :: "'k \<times> controller" assume "?P kc"
      then show "?P (fst (lc_policy (controller_calls cops n) l p kc))"
        by (cases kc) (auto simp: controller_calls_def intro: handlePolicy_camera split: prod.splits)
    qed (use m(1) in \<open>auto simp: controller_calls_def control_camera(1)\<close>)
    then show ?thesis
      using m(2) by (auto simp: kb BNotify bundle_handleNotification_def camera_ok_split split: prod.splits)
  next
    case (BCoordinate r)
    then show ?thesis using m ok(2) control_camera(4) [OF m(1), of r] by (auto simp: kb camera_ok_split)
  next
    case BStart
    obtain k' c' where "ct_start cops (k, bu_controller b) = (k', c')" by force
    then show ?thesis using m control_camera(2) [OF m(1), of cops k] by (auto simp: kb BStart camera_ok_split)
  next
    case BStop
    obtain k' c' where "ct_stop cops (k, bu_controller b) = (k', c')" by force
    then show ?thesis using m control_camera(3) [OF m(1), of cops k] by (auto simp: kb BStop camera_ok_split)
  next
    case BClose
    have "mode_ok ops m ((bu_world b)\<lparr>bw_producer := pd_close (bw_producer (bu_world b))\<rparr>)"
      by (rule mode_ok_cong [OF m(2)]) (simp_all add: close_paused)
    with m show ?thesis by (auto simp: kb BClose camera_ok_split on_producer_def)
  next
    case BTransportClosed
    have "mode_ok ops m ((bu_world b)\<lparr>bw_producer := pd_transportClosed (bw_producer (bu_world b))\<rparr>)"
      by (rule mode_ok_cong [OF m(2)]) (simp_all add: close_paused)
    with m show ?thesis by (auto simp: kb BTransportClosed camera_ok_split on_producer_def)
  qed
qed

section \<open>A session\<close>

lemma closed_sample:
  assumes "pd_closed (pw_producer (bw_producer (bu_world b)))"
  shows "bundle_sampleNow ops send date n b = (b, Some (ThrownError (InvalidStateError ''closed'')))"
proof -
  have "getSnapshot ops (bu_source b) date ts (bw_producer (bu_world b)) =
      ((ts, bw_producer (bu_world b)), Inl (ThrownError (InvalidStateError ''closed'')))" for ts
    using assms by (simp add: getSnapshot_def getStatsReport_def pd_getStats_def Let_def)
  then show ?thesis by (simp add: bundle_sampleNow_def sampleNow_def sampleOnce_def)
qed

lemma sample_loop_stops:
  assumes "\<And>i. sample i b = (b, Some t)"
  shows "\<exists>bs1 co' t'. sample_loop sample i (bs @ b # bs') co = (bs1 @ b # bs', co', Some t') \<and> length bs1 = length bs"
proof (induction bs arbitrary: i co)
  case Nil
  show ?case using assms by simp
next
  case (Cons b0 bs)
  obtain b1 r where s: "sample i b0 = (b1, r)" by force
  show ?case
  proof (cases r)
    case (Some t')
    then show ?thesis using s by (intro exI [of _ "b1 # bs"]) simp
  next
    case None
    obtain bs1 co' t' where "sample_loop sample (i + 1) (bs @ b # bs') (upsertTrack co (getTrackState (bu_controller b1)))
        = (bs1 @ b # bs', co', Some t')" "length bs1 = length bs" using Cons.IH by blast
    then show ?thesis using s None by (intro exI [of _ "b1 # bs1"]) simp
  qed
qed

section \<open>Properties\<close>

text \<open>C4: the audio-only mode of a camera controller is the pause of its producer. For a bundle that the
  factory made for a camera with the default profile, the default action keys and no error callback,
  on a producer that is not paused and whose identifiers are not empty, and over any sequence of samples with any statistics, messages
  (malformed ones included), coordination requests, starts and stops, and the producer closing: the controller is in audio-only mode
  exactly when the producer is paused, whatever the transport answers to the actions.\<close>

theorem camera_mode_is_pause:
  assumes "createMediasoupProducerQosController ops options w n = Inr b"
    and "bo_source options = Camera" "bo_profile options = None"
    and "xo_onError (bo_executorOptions options) = None" "xo_keyResolver (bo_executorOptions options) = None"
    and "\<not> pd_paused (pw_producer w)" "pd_id (pw_producer w) \<noteq> []"
      "op_trackId (bundle_controller_options options w) \<noteq> []" "\<forall>e \<in> set es. bundle_event_ok e"
    and "foldl (bundle_step ops send cops) (k, b) es = (k', b')"
  shows "ct_inAudioOnlyMode (bu_controller b') \<longleftrightarrow> pd_paused (pw_producer (bw_producer (bu_world b')))"
proof -
  let ?o = "bundle_controller_options options w"
  obtain c where c: "new_PublisherQosController ?o n = Inr c"
    and b: "bu_controller b = c" "bw_executor (bu_world b) = new_executor (createProducerActionSink ops) (bo_executorOptions options)"
      "bw_producer (bu_world b) = w"
    using assms(1) by (auto simp: createMediasoupProducerQosController_def bindr_eq_Inr)
  have p: "op_profile ?o = DEFAULT_CAMERA_PROFILE"
    using assms(2,3) by (simp add: bundle_controller_options_def resolveProfile_def getDefaultCameraProfile_def Let_def)
  have f: "ct_profile c = op_profile ?o" "ct_inAudioOnlyMode c = False" "ct_currentLevel c = Fin 0" "ct_seq c = Fin 0"
    "ct_probeContext c = None" "ct_activeOverrides c = None" "ct_coordinationOverride c = None"
    using c by (auto simp: new_PublisherQosController_def Let_def bindr_eq_Inr bundle_controller_options_def
        or_default_def js_max_def)
  have t: "DEFAULT_CAMERA_PROFILE \<in> {q. plain_ladder q \<and> pf_source q = Camera}"
    using camera_registry_plain [of "pf_name DEFAULT_CAMERA_PROFILE" DEFAULT_CAMERA_PROFILE]
    by (simp add: PROFILE_REGISTRY_def plain_ladder_def DEFAULT_CAMERA_PROFILE_def step_enc_def)
  have "options_ok ?o"
    using assms(7,8) p by (simp add: options_ok_def builtin_profiles_wf) (simp add: bundle_controller_options_def Let_def)
  then have "ctrl_inv c" using new_controller_ok [OF _ c] by (simp add: published_ok_def)
  moreover have "mode_ok ops False (bu_world b)"
    using assms(4-6) b by (simp add: mode_ok_def new_executor_def key_agrees_def)
  ultimately have "camera_ok ops (k, b)"
    using f p t b by (simp add: camera_ok_def)
  from cb.guarded_run [OF this assms(9), of send cops] assms(10)
  show ?thesis by (simp add: camera_ok_def mode_ok_def)
qed

text \<open>one closed producer stalls the sampling of its peer. In a session with a bundle whose producer
  is closed, sampling all bundles always throws, leaves every bundle after the closed one as it was,
  and applies no coordination.\<close>

theorem closed_producer_stalls_session:
  assumes "se_bundles se = bs @ b # bs'" "pd_closed (pw_producer (bw_producer (bu_world b)))"
  shows "\<exists>bs1 co t. sampleAllNow ops send cmp date nowMs se = (\<lparr>se_bundles = bs1 @ b # bs', se_coordinator = co\<rparr>, Some t)
    \<and> length bs1 = length bs"
proof -
  obtain bs1 co t where "sample_loop (\<lambda>i. bundle_sampleNow ops send (date i) (nowMs i)) 0 (bs @ b # bs')
      (se_coordinator se) = (bs1 @ b # bs', co, Some t)" "length bs1 = length bs"
    using sample_loop_stops [of "\<lambda>i. bundle_sampleNow ops send (date i) (nowMs i)" b, OF closed_sample [OF assms(2)]]
    by blast
  then show ?thesis by (simp add: sampleAllNow_def assms(1))
qed

definition sent_nothing :: "unit sender" where
  "sent_nothing h method data = (h, None)"

definition camera_bundle_options :: "unit bundle_options" where
  "camera_bundle_options = \<lparr>bo_source = Camera, bo_profile = None, bo_traceCapacity = None,
     bo_sampleIntervalMs = None, bo_snapshotIntervalMs = None, bo_allowAudioOnly = None,
     bo_allowVideoPause = None, bo_executorOptions = default_options\<rparr>"

abbreviation camera_world :: "unit producer_world" where
  "camera_world \<equiv> new_Producer camera_producer_options (\<lambda>_. camera_track) ()"

lemma camera_world_fields:
  "\<not> pd_paused (pw_producer camera_world)" "pd_id (pw_producer camera_world) = ''p1''"
  "pd_track (pw_producer camera_world) = Some 0" "mt_id (pw_tracks camera_world 0) = ''cam''"
  by (simp_all add: new_Producer_def camera_producer_options_def camera_track_def Let_def track_op_defs)

lemma camera_bundle: "\<exists>b. createMediasoupProducerQosController idle_sender camera_bundle_options camera_world (Fin 0) = Inr b"
proof -
  have "pf_sampleIntervalMs DEFAULT_CAMERA_PROFILE = Fin 1000"
    by (simp add: DEFAULT_CAMERA_PROFILE_def DEFAULT_SAMPLE_INTERVAL_MS_def)
  then show ?thesis
    by (simp add: createMediasoupProducerQosController_def new_PublisherQosController_def Let_def
        bundle_controller_options_def camera_bundle_options_def resolveProfile_def getDefaultCameraProfile_def
        or_default_def new_IntervalQosSampler_def)
qed

theorem camera_mode_is_pause_witness:
  "\<exists>b k' b'. createMediasoupProducerQosController idle_sender camera_bundle_options camera_world (Fin 0) = Inr b
     \<and> foldl (bundle_step idle_sender sent_nothing mc_ops) (new_ManualQosClock, b) [BStart, BSample (Fin 1) (Fin 1000), BClose] = (k', b')
     \<and> (ct_inAudioOnlyMode (bu_controller b') \<longleftrightarrow> pd_paused (pw_producer (bw_producer (bu_world b'))))"
proof -
  obtain b where b: "createMediasoupProducerQosController idle_sender camera_bundle_options camera_world (Fin 0) = Inr b"
    using camera_bundle by blast
  obtain k' b' where r: "foldl (bundle_step idle_sender sent_nothing mc_ops) (new_ManualQosClock, b)
      [BStart, BSample (Fin 1) (Fin 1000), BClose] = (k', b')"
    by force
  have o: "bo_source camera_bundle_options = Camera" "bo_profile camera_bundle_options = None"
    "xo_onError (bo_executorOptions camera_bundle_options) = None"
    "xo_keyResolver (bo_executorOptions camera_bundle_options) = None"
    by (simp_all add: camera_bundle_options_def default_options_def)
  have i: "pd_id (pw_producer camera_world) \<noteq> []" "op_trackId (bundle_controller_options camera_bundle_options camera_world) \<noteq> []"
    by (simp_all add: camera_world_fields bundle_controller_options_def Let_def)
  have e: "\<forall>e \<in> set [BStart, BSample (Fin 1) (Fin 1000), BClose]. bundle_event_ok e" by simp
  from camera_mode_is_pause [OF b o camera_world_fields(1) i e r] b r show ?thesis by blast
qed

theorem closed_producer_stalls_session_witness:
  "\<exists>b. \<exists>bs1 co t. sampleAllNow idle_sender sent_nothing code_compare (\<lambda>_. Fin 1) (\<lambda>_. Fin 1000)
       \<lparr>se_bundles = [b, b], se_coordinator = []\<rparr> = (\<lparr>se_bundles = bs1 @ b # [b], se_coordinator = co\<rparr>, Some t)"
proof -
  obtain b0 where "createMediasoupProducerQosController idle_sender camera_bundle_options camera_world (Fin 0) = Inr b0"
    using camera_bundle by blast
  let ?b = "on_producer pd_close b0"
  have "pd_closed (pw_producer (bw_producer (bu_world ?b)))"
    by (simp add: on_producer_def pd_close_def Let_def track_op_defs split: option.splits)
  from closed_producer_stalls_session [of "\<lparr>se_bundles = [?b, ?b], se_coordinator = []\<rparr>" "[]" ?b "[?b]" idle_sender sent_nothing code_compare
      "\<lambda>_. Fin 1" "\<lambda>_. Fin 1000", OF _ this]
  show ?thesis by (intro exI [of _ ?b]) auto
qed

text \<open>a clamp strands a paused screen share. Under a clamp of at most 2, every plan for the default
  screen-share profile, in every state and from every level, the last one included (whose step pauses
  the producer), goes to a level at most the clamp and holds no action that resumes the producer.\<close>

theorem screenshare_clamp_never_resumes:
  assumes "pi_source i = ScreenShare" "pi_profile i = DEFAULT_SCREENSHARE_PROFILE"
    and "pi_currentLevel i = lvl k" "k \<le> 4" "pi_overrideClampLevel i = Some (lvl cl)" "cl \<le> 2"
  shows "\<forall>a \<in> set (planActions i). \<not> resumes a \<and> (\<exists>t \<le> cl. a_level a = lvl t)"
proof -
  let ?l = "pf_ladder DEFAULT_SCREENSHARE_PROFILE"
  have m: "max_level DEFAULT_SCREENSHARE_PROFILE = 4" by (simp add: max_level_def DEFAULT_SCREENSHARE_PROFILE_def)
  have ok: "input_ok i k (Some cl)" using assms by (simp add: input_ok_def builtin_profiles_wf m)
  have nr: "\<not> replans_max i k" using assms(1) by (simp add: replans_max_def)
  have t: "plan_spec i k (Some cl) \<le> cl" using target_spec_dir(5) nr by (simp add: plan_spec_def)
  have quiet: "\<not> ls_resumeUpstream (?l ! j)" if "j \<le> 2" for j
    using that by (cases j rule: nat.exhaust [case_names 0 Suc]; force simp: DEFAULT_SCREENSHARE_PROFILE_def step_enc_def
        numeral_2_eq_2 le_Suc_eq)
  have "\<not> resumes a" if "a \<in> set (planActions i)" for a
  proof -
    have "a = Noop (lvl k) None \<or> a \<in> set (stepToActions (?l ! plan_spec i k (Some cl)) ScreenShare (lvl k) (pi_inAudioOnlyMode i))"
      using that planActions_spec [OF ok] assms(1,2) by (auto split: if_splits)
    then show ?thesis
      using quiet [of "plan_spec i k (Some cl)"] t assms(6)
      by (auto simp: resumes_def stepToActions_def step_pushes_def Let_def split: if_splits option.splits)
  qed
  moreover have "\<exists>t \<le> cl. a_level a = lvl t" if "a \<in> set (planActions i)" for a
    using planActions_level [OF ok that] t by blast
  ultimately show ?thesis by blast
qed

theorem screenshare_clamp_never_resumes_witness:
  "list_all (\<lambda>a. \<not> resumes a \<and> (\<exists>t \<le> 2. a_level a = lvl t))
     (planActions \<lparr>pi_source = ScreenShare, pi_profile = DEFAULT_SCREENSHARE_PROFILE, pi_state = Stable,
      pi_currentLevel = Fin 4, pi_overrideClampLevel = Some (Fin 2), pi_inAudioOnlyMode = False\<rparr>)"
  using screenshare_clamp_never_resumes [of "\<lparr>pi_source = ScreenShare, pi_profile = DEFAULT_SCREENSHARE_PROFILE,
      pi_state = Stable, pi_currentLevel = Fin 4, pi_overrideClampLevel = Some (Fin 2), pi_inAudioOnlyMode = False\<rparr>" 4 2]
  by (simp add: list_all_iff)

end
