(* ===== verification/DownlinkSampling.thy ===== *)
theory DownlinkSampling
  imports StatsProvider
begin

text \<open>
  The receiving side of the QoS library: \<open>downlinkHints.js\<close>, what the application says of each consumer,
  and \<open>downlinkSampler.js\<close>, which pairs those hints with the inbound streams of a statistics report.
  Reports and hints are objects of untyped properties. A report is identified by its position in the
  list, as the code identifies it by its object. \<open>Number\<close> on a string is an argument, \<open>str_num\<close>.
\<close>

section \<open>Hints\<close>

definition js_or :: "jsval \<Rightarrow> jsval \<Rightarrow> jsval" where
  "js_or a b = (if truthy a then a else b)"

record dl_hint =
  dh_producerId :: jsval
  dh_kind :: track_kind
  dh_ssrc :: "number option"
  dh_mid :: "string option"
  dh_trackIdentifier :: "string option"
  dh_visible :: bool
  dh_pinned :: bool
  dh_activeSpeaker :: bool
  dh_isScreenShare :: bool
  dh_targetWidth :: jsval
  dh_targetHeight :: jsval

type_synonym dl_hints = "(string, dl_hint) jsmap"

definition num_or_none :: "jsval \<Rightarrow> number option" where
  "num_or_none v = (case v of VNum n \<Rightarrow> if is_finite n then Some n else None | _ \<Rightarrow> None)"

definition str_or_none :: "jsval \<Rightarrow> string option" where
  "str_or_none v = (case v of VStr s \<Rightarrow> Some s | _ \<Rightarrow> None)"

definition dh_set :: "string \<Rightarrow> jsobj \<Rightarrow> dl_hints \<Rightarrow> dl_hints" where
  "dh_set consumerId hint m = jm_set consumerId
     \<lparr>dh_producerId = js_or (obj_get hint ''producerId'') (VStr ''''),
      dh_kind = (if obj_get hint ''kind'' = VStr ''audio'' then KAudio else KVideo),
      dh_ssrc = num_or_none (obj_get hint ''ssrc''), dh_mid = str_or_none (obj_get hint ''mid''),
      dh_trackIdentifier = str_or_none (obj_get hint ''trackIdentifier''),
      dh_visible = (obj_get hint ''visible'' \<noteq> VBool False),
      dh_pinned = truthy (obj_get hint ''pinned''),
      dh_activeSpeaker = truthy (obj_get hint ''activeSpeaker''),
      dh_isScreenShare = truthy (obj_get hint ''isScreenShare''),
      dh_targetWidth = js_or (obj_get hint ''targetWidth'') (VNum (Fin 0)),
      dh_targetHeight = js_or (obj_get hint ''targetHeight'') (VNum (Fin 0))\<rparr> m"

definition dh_remove :: "string \<Rightarrow> dl_hints \<Rightarrow> dl_hints" where
  "dh_remove consumerId m = jm_delete consumerId m"

text \<open>The setters of one property do nothing but warn for an unknown consumer.\<close>

definition dh_update :: "string \<Rightarrow> (dl_hint \<Rightarrow> dl_hint) \<Rightarrow> dl_hints \<Rightarrow> dl_hints" where
  "dh_update consumerId f m = (case jm_get m consumerId of None \<Rightarrow> m | Some h \<Rightarrow> jm_set consumerId (f h) m)"

definition setVisible :: "string \<Rightarrow> jsval \<Rightarrow> dl_hints \<Rightarrow> dl_hints" where
  "setVisible consumerId visible = dh_update consumerId (\<lambda>h. h\<lparr>dh_visible := truthy visible\<rparr>)"

definition setPinned :: "string \<Rightarrow> jsval \<Rightarrow> dl_hints \<Rightarrow> dl_hints" where
  "setPinned consumerId pinned = dh_update consumerId (\<lambda>h. h\<lparr>dh_pinned := truthy pinned\<rparr>)"

definition setActiveSpeaker :: "string \<Rightarrow> jsval \<Rightarrow> dl_hints \<Rightarrow> dl_hints" where
  "setActiveSpeaker consumerId active = dh_update consumerId (\<lambda>h. h\<lparr>dh_activeSpeaker := truthy active\<rparr>)"

definition setTargetSize :: "string \<Rightarrow> jsval \<Rightarrow> jsval \<Rightarrow> dl_hints \<Rightarrow> dl_hints" where
  "setTargetSize consumerId width height = dh_update consumerId
     (\<lambda>h. h\<lparr>dh_targetWidth := js_or width (VNum (Fin 0)), dh_targetHeight := js_or height (VNum (Fin 0))\<rparr>)"

definition dh_get :: "string \<Rightarrow> dl_hints \<Rightarrow> dl_hint option" where
  "dh_get consumerId m = jm_get m consumerId"

definition dh_getAll :: "dl_hints \<Rightarrow> (string \<times> dl_hint) list" where
  "dh_getAll m = m"

definition dh_clear :: "dl_hints \<Rightarrow> dl_hints" where
  "dh_clear m = []"

text \<open>A hint as the object the sampler is given.\<close>

definition kind_val :: "track_kind \<Rightarrow> jsval" where
  "kind_val k = VStr (if k = KAudio then ''audio'' else ''video'')"

definition hint_obj :: "dl_hint \<Rightarrow> jsobj" where
  "hint_obj h = [(''producerId'', dh_producerId h), (''kind'', kind_val (dh_kind h)),
     (''ssrc'', opt_num (dh_ssrc h)), (''mid'', opt_str (dh_mid h)),
     (''trackIdentifier'', opt_str (dh_trackIdentifier h)), (''visible'', VBool (dh_visible h)),
     (''pinned'', VBool (dh_pinned h)), (''activeSpeaker'', VBool (dh_activeSpeaker h)),
     (''isScreenShare'', VBool (dh_isScreenShare h)), (''targetWidth'', dh_targetWidth h),
     (''targetHeight'', dh_targetHeight h)]"

section \<open>Reading reports\<close>

text \<open>\<open>Number(v)\<close>.\<close>

fun js_Number :: "(string \<Rightarrow> number) \<Rightarrow> jsval \<Rightarrow> number" where
  "js_Number str_num VUndef = NaN"
| "js_Number str_num VNull = Fin 0"
| "js_Number str_num (VBool b) = (if b then Fin 1 else Fin 0)"
| "js_Number str_num (VNum n) = n"
| "js_Number str_num (VStr s) = str_num s"
| "js_Number str_num (VArr []) = Fin 0"
| "js_Number str_num (VArr [v]) =
     (case v of VNull \<Rightarrow> Fin 0 | VUndef \<Rightarrow> Fin 0 | VBool _ \<Rightarrow> NaN | _ \<Rightarrow> js_Number str_num v)"
| "js_Number str_num (VArr (v # w # vs)) = NaN"
| "js_Number str_num (VObj _) = NaN"

definition stat :: "jsobj option \<Rightarrow> string \<Rightarrow> jsval" where
  "stat stats key = (case stats of None \<Rightarrow> VUndef | Some r \<Rightarrow> obj_get r key)"

definition readOptionalNumber :: "(string \<Rightarrow> number) \<Rightarrow> jsobj option \<Rightarrow> string \<Rightarrow> number option" where
  "readOptionalNumber str_num stats key =
     (let v = js_Number str_num (stat stats key) in if is_finite v then Some v else None)"

definition computeFreezeRate :: "(string \<Rightarrow> number) \<Rightarrow> jsobj option \<Rightarrow> number" where
  "computeFreezeRate str_num stats =
     (case stats of
        None \<Rightarrow> Fin 0
      | Some r \<Rightarrow>
          let totalFrames = js_or (obj_get r ''framesDecoded'') (VNum (Fin 0));
              freezeCount = js_or (obj_get r ''freezeCount'') (VNum (Fin 0));
              byCount = (if js_gt (js_Number str_num freezeCount) (Fin 0)
                then js_div (js_Number str_num freezeCount) (js_Number str_num totalFrames) else Fin 0)
          in if totalFrames = VNum (Fin 0) then Fin 0
             else case (obj_get r ''totalFreezesDuration'', obj_get r ''totalPlaybackDuration'') of
                 (VNum f, VNum p) \<Rightarrow> if js_gt p (Fin 0) then js_div f p else byCount
               | _ \<Rightarrow> byCount)"

definition computeJitterBufferDelayMs :: "(string \<Rightarrow> number) \<Rightarrow> jsobj option \<Rightarrow> number option" where
  "computeJitterBufferDelayMs str_num stats =
     (case stats of
        None \<Rightarrow> None
      | Some r \<Rightarrow>
          (case readOptionalNumber str_num stats ''jitterBufferDelay'' of
             None \<Rightarrow> None
           | Some totalDelay \<Rightarrow>
               (case readOptionalNumber str_num stats ''jitterBufferEmittedCount'' of
                  Some n \<Rightarrow> if js_gt n (Fin 0) then Some (js_mul (js_div totalDelay n) (Fin 1000))
                    else Some (js_mul totalDelay (Fin 1000))
                | None \<Rightarrow> Some (js_mul totalDelay (Fin 1000)))))"

definition computeLossPercent ::
    "(string \<Rightarrow> number) \<Rightarrow> jsobj option \<Rightarrow> number option \<Rightarrow> number option \<Rightarrow> number" where
  "computeLossPercent str_num stats previousLost previousReceived =
     (case stats of
        None \<Rightarrow> Fin 0
      | Some r \<Rightarrow>
          let currentLost = js_Number str_num (obj_get r ''packetsLost'');
              currentReceived = js_Number str_num (obj_get r ''packetsReceived'')
          in if \<not> is_finite currentLost \<or> \<not> is_finite currentReceived then Fin 0
             else case (previousLost, previousReceived) of
                 (Some pl, Some pr) \<Rightarrow>
                   if \<not> is_finite pl \<or> \<not> is_finite pr then Fin 0
                   else let deltaLost = js_sub currentLost pl;
                            deltaReceived = js_sub currentReceived pr;
                            total = js_add deltaLost deltaReceived
                     in if js_lt deltaLost (Fin 0) \<or> js_lt deltaReceived (Fin 0) then Fin 0
                        else if js_le total (Fin 0) then Fin 0
                        else js_max (Fin 0) (js_min (Fin 100)
                          (js_round (js_mul (js_div deltaLost total) (Fin 100))))
               | _ \<Rightarrow> Fin 0)"

section \<open>Pairing hints with inbound streams\<close>

definition hint_kind :: "jsobj \<Rightarrow> bool" where
  "hint_kind hint \<longleftrightarrow> obj_get hint ''kind'' = VStr ''audio'' \<or> obj_get hint ''kind'' = VStr ''video''"

definition matchesHintKind :: "jsobj \<Rightarrow> jsobj \<Rightarrow> bool" where
  "matchesHintKind report hint = (hint_kind hint \<longrightarrow> obj_get report ''kind'' = obj_get hint ''kind'')"

definition nonempty_str :: "jsval \<Rightarrow> bool" where
  "nonempty_str v = (case v of VStr s \<Rightarrow> s \<noteq> [] | _ \<Rightarrow> False)"

definition matchesHint :: "(string \<Rightarrow> number) \<Rightarrow> jsobj \<Rightarrow> jsobj \<Rightarrow> bool" where
  "matchesHint str_num report hint =
     (matchesHintKind report hint
      \<and> ((case obj_get hint ''ssrc'' of
            VNum n \<Rightarrow> is_finite n \<and> js_eq (js_Number str_num (obj_get report ''ssrc'')) n
          | _ \<Rightarrow> False)
         \<or> (nonempty_str (obj_get hint ''mid'') \<and> obj_get report ''mid'' = obj_get hint ''mid'')
         \<or> (nonempty_str (obj_get hint ''trackIdentifier'')
            \<and> obj_get report ''trackIdentifier'' = obj_get hint ''trackIdentifier'')))"

text \<open>The position of the chosen report and the positions taken so far.\<close>

definition selectInboundReport ::
    "(string \<Rightarrow> number) \<Rightarrow> jsobj list \<Rightarrow> jsobj \<Rightarrow> nat list \<Rightarrow> nat option \<times> nat list" where
  "selectInboundReport str_num reports hint matched =
     (let free = (\<lambda>i. i \<notin> set matched);
          pick = (\<lambda>p. find (\<lambda>i. free i \<and> p (reports ! i)) [0..<length reports])
      in case pick (\<lambda>r. matchesHint str_num r hint) of
           Some i \<Rightarrow> (Some i, matched @ [i])
         | None \<Rightarrow>
             (case pick (\<lambda>r. matchesHintKind r hint) of
                Some i \<Rightarrow> (Some i, matched @ [i])
              | None \<Rightarrow>
                  if hint_kind hint then (None, matched)
                  else (case pick (\<lambda>r. True) of
                     Some i \<Rightarrow> (Some i, matched @ [i]) | None \<Rightarrow> (None, matched))))"

section \<open>The sampler\<close>

record dl_sampler =
  ds_hints :: "(string, jsobj) jsmap"
  ds_prevPacketsLost :: "(string, number) jsmap"
  ds_prevPacketsReceived :: "(string, number) jsmap"

definition new_DownlinkSampler :: dl_sampler where
  "new_DownlinkSampler = \<lparr>ds_hints = [], ds_prevPacketsLost = [], ds_prevPacketsReceived = []\<rparr>"

definition setHints :: "string \<Rightarrow> jsobj \<Rightarrow> dl_sampler \<Rightarrow> dl_sampler" where
  "setHints consumerId hint s = s\<lparr>ds_hints := jm_set consumerId hint (ds_hints s)\<rparr>"

definition removeHints :: "string \<Rightarrow> dl_sampler \<Rightarrow> dl_sampler" where
  "removeHints consumerId s = s\<lparr>ds_hints := jm_delete consumerId (ds_hints s),
     ds_prevPacketsLost := jm_delete consumerId (ds_prevPacketsLost s),
     ds_prevPacketsReceived := jm_delete consumerId (ds_prevPacketsReceived s)\<rparr>"

record dl_subscription =
  su_consumerId :: string
  su_producerId :: jsval
  su_kind :: track_kind
  su_visible :: bool
  su_pinned :: bool
  su_activeSpeaker :: bool
  su_isScreenShare :: bool
  su_targetWidth :: jsval
  su_targetHeight :: jsval
  su_packetsLost :: number
  su_jitter :: jsval
  su_framesPerSecond :: jsval
  su_frameWidth :: jsval
  su_frameHeight :: jsval
  su_freezeRate :: number
  su_concealedSamples :: "number option"
  su_totalSamplesReceived :: "number option"
  su_freezeCount :: "number option"
  su_totalFreezesDuration :: "number option"
  su_framesDropped :: "number option"
  su_jitterBufferDelayMs :: "number option"

record dl_transport =
  dt_availableIncomingBitrate :: jsval
  dt_currentRoundTripTime :: jsval

definition or_zero_val :: "jsval \<Rightarrow> jsval" where
  "or_zero_val v = js_or v (VNum (Fin 0))"

definition is_inbound :: "jsobj \<Rightarrow> bool" where
  "is_inbound r \<longleftrightarrow> obj_get r ''type'' = VStr ''inbound-rtp''
     \<and> (obj_get r ''kind'' = VStr ''video'' \<or> obj_get r ''kind'' = VStr ''audio'')"

text \<open>The last nominated candidate pair speaks for the transport.\<close>

definition transport_of :: "jsobj list \<Rightarrow> dl_transport" where
  "transport_of reports =
     foldl (\<lambda>t r. if obj_get r ''type'' = VStr ''candidate-pair'' \<and> truthy (obj_get r ''nominated'')
         then \<lparr>dt_availableIncomingBitrate = or_zero_val (obj_get r ''availableIncomingBitrate''),
               dt_currentRoundTripTime = or_zero_val (obj_get r ''currentRoundTripTime'')\<rparr>
         else t)
       \<lparr>dt_availableIncomingBitrate = VNum (Fin 0), dt_currentRoundTripTime = VNum (Fin 0)\<rparr> reports"

definition subscription_of ::
    "(string \<Rightarrow> number) \<Rightarrow> string \<Rightarrow> jsobj \<Rightarrow> jsobj option \<Rightarrow> number \<Rightarrow> dl_subscription" where
  "subscription_of str_num consumerId hint stats lossPercent = \<lparr>su_consumerId = consumerId,
     su_producerId = js_or (obj_get hint ''producerId'') (VStr ''''),
     su_kind = (if obj_get hint ''kind'' = VStr ''audio'' then KAudio else KVideo),
     su_visible = truthy (obj_get hint ''visible''), su_pinned = truthy (obj_get hint ''pinned''),
     su_activeSpeaker = truthy (obj_get hint ''activeSpeaker''),
     su_isScreenShare = truthy (obj_get hint ''isScreenShare''),
     su_targetWidth = or_zero_val (obj_get hint ''targetWidth''),
     su_targetHeight = or_zero_val (obj_get hint ''targetHeight''),
     su_packetsLost = lossPercent, su_jitter = or_zero_val (stat stats ''jitter''),
     su_framesPerSecond = or_zero_val (stat stats ''framesPerSecond''),
     su_frameWidth = or_zero_val (stat stats ''frameWidth''),
     su_frameHeight = or_zero_val (stat stats ''frameHeight''),
     su_freezeRate = computeFreezeRate str_num stats,
     su_concealedSamples = readOptionalNumber str_num stats ''concealedSamples'',
     su_totalSamplesReceived = readOptionalNumber str_num stats ''totalSamplesReceived'',
     su_freezeCount = readOptionalNumber str_num stats ''freezeCount'',
     su_totalFreezesDuration = readOptionalNumber str_num stats ''totalFreezesDuration'',
     su_framesDropped = readOptionalNumber str_num stats ''framesDropped'',
     su_jitterBufferDelayMs = computeJitterBufferDelayMs str_num stats\<rparr>"

definition finite_or_zero :: "number \<Rightarrow> number" where
  "finite_or_zero n = (if n = NaN then Fin 0 else n)"

text \<open>The loop over the hints: the state, the positions taken, and the subscriptions with the position
  of the report each was paired with.\<close>

fun sample_hints ::
    "(string \<Rightarrow> number) \<Rightarrow> jsobj list \<Rightarrow> (string \<times> jsobj) list \<Rightarrow> dl_sampler \<Rightarrow> nat list
     \<Rightarrow> dl_sampler \<times> (nat option \<times> dl_subscription) list" where
  "sample_hints str_num reports [] s matched = (s, [])"
| "sample_hints str_num reports ((consumerId, hint) # hs) s matched =
     (case selectInboundReport str_num reports hint matched of (i, matched') \<Rightarrow>
        let stats = map_option (\<lambda>i. reports ! i) i;
            lossPercent = computeLossPercent str_num stats (jm_get (ds_prevPacketsLost s) consumerId)
              (jm_get (ds_prevPacketsReceived s) consumerId);
            s' = (case stats of
               None \<Rightarrow> s
             | Some r \<Rightarrow> s\<lparr>
                 ds_prevPacketsLost := jm_set consumerId
                   (finite_or_zero (js_Number str_num (obj_get r ''packetsLost''))) (ds_prevPacketsLost s),
                 ds_prevPacketsReceived := jm_set consumerId
                   (finite_or_zero (js_Number str_num (obj_get r ''packetsReceived''))) (ds_prevPacketsReceived s)\<rparr>)
        in case sample_hints str_num reports hs s' matched' of
             (s'', subs) \<Rightarrow> (s'', (i, subscription_of str_num consumerId hint stats lossPercent) # subs))"

definition dl_sample ::
    "(string \<Rightarrow> number) \<Rightarrow> jsobj list option \<Rightarrow> dl_sampler \<Rightarrow> dl_sampler \<times> dl_transport \<times> dl_subscription list" where
  "dl_sample str_num rawStats s =
     (case rawStats of
        None \<Rightarrow> (s, transport_of [], [])
      | Some reports \<Rightarrow>
          (case sample_hints str_num (filter is_inbound reports) (ds_hints s) s [] of
             (s', subs) \<Rightarrow> (s', transport_of reports, map snd subs)))"

section \<open>What a pairing is\<close>

lemma find_upt: "find P [0..<n] = Some i \<Longrightarrow> i < n \<and> P i"
  by (auto simp: find_Some_iff)

lemma select_some:
  assumes "selectInboundReport str_num reports hint matched = (Some i, m')"
  shows "i < length reports \<and> i \<notin> set matched \<and> m' = matched @ [i] \<and> matchesHintKind (reports ! i) hint"
  using assms by (auto simp: selectInboundReport_def Let_def matchesHint_def matchesHintKind_def
      dest!: find_upt split: option.splits if_splits)

lemma select_none:
  assumes "selectInboundReport str_num reports hint matched = (None, m')"
  shows "m' = matched \<and> (\<forall>i < length reports. i \<notin> set matched \<longrightarrow> \<not> matchesHintKind (reports ! i) hint)"
  using assms by (auto simp: selectInboundReport_def Let_def find_None_iff split: option.splits if_splits)

definition taken :: "(nat option \<times> dl_subscription) list \<Rightarrow> nat list" where
  "taken subs = List.map_filter fst subs"

lemma taken_Cons [simp]: "taken [] = []" "taken ((i, s) # subs) = (case i of None \<Rightarrow> taken subs | Some j \<Rightarrow> j # taken subs)"
  by (simp_all add: taken_def map_filter_simps split: option.splits)

lemma sample_hints_pairing:
  assumes "sample_hints str_num reports hs s matched = (s', subs)"
  shows "distinct (taken subs) \<and> set (taken subs) \<inter> set matched = {}
    \<and> (\<forall>i \<in> set (taken subs). i < length reports)
    \<and> map (su_consumerId \<circ> snd) subs = map fst hs
    \<and> (\<forall>n i. n < length hs \<and> fst (subs ! n) = Some i \<longrightarrow> matchesHintKind (reports ! i) (snd (hs ! n)))"
  using assms
proof (induction hs arbitrary: s matched subs)
  case (Cons h hs)
  obtain cid hint where h: "h = (cid, hint)" by force
  obtain i m' where sel: "selectInboundReport str_num reports hint matched = (i, m')" by force
  obtain s1 subs1 where rest: "sample_hints str_num reports hs s1 m' = (s', subs1)"
    and subs: "fst (hd subs) = i" "su_consumerId (snd (hd subs)) = cid" "tl subs = subs1" "subs \<noteq> []"
    using Cons.prems by (auto simp: h sel Let_def subscription_of_def split: prod.splits option.splits)
  obtain sub where sub: "subs = (i, sub) # subs1" "su_consumerId sub = cid"
    using subs by (cases subs) auto
  have m': "set matched \<subseteq> set m'" "\<And>j. i = Some j \<Longrightarrow> j < length reports \<and> j \<notin> set matched \<and> j \<in> set m'
      \<and> matchesHintKind (reports ! j) hint"
    using sel select_some [of str_num reports hint matched _ m'] select_none [of str_num reports hint matched m']
    by (cases i; auto)+
  note ih = Cons.IH [OF rest]
  have "\<forall>n j. n < length (h # hs) \<and> fst (subs ! n) = Some j \<longrightarrow> matchesHintKind (reports ! j) (snd ((h # hs) ! n))"
  proof (intro allI impI)
    fix n j assume "n < length (h # hs) \<and> fst (subs ! n) = Some j"
    then show "matchesHintKind (reports ! j) (snd ((h # hs) ! n))"
      using ih m'(2) by (cases n) (auto simp: sub h)
  qed
  with ih m' show ?case by (cases i) (auto simp: sub h)
qed auto

section \<open>Properties\<close>

text \<open>C35: the downlink sampler gives one subscription per hinted consumer, in the order of the hints, and
  pairs them with inbound streams one to one: no stream is counted for two consumers, and a stream
  is of the kind the hint asks for.\<close>

theorem inbound_pairing_injective:
  assumes "sample_hints str_num (filter is_inbound reports) (ds_hints s) s [] = (s', subs)"
  shows "distinct (taken subs) \<and> (\<forall>i \<in> set (taken subs). i < length (filter is_inbound reports))
    \<and> map su_consumerId (snd (snd (dl_sample str_num (Some reports) s))) = map fst (ds_hints s)
    \<and> (\<forall>n i. n < length (ds_hints s) \<and> fst (subs ! n) = Some i
         \<longrightarrow> matchesHintKind (filter is_inbound reports ! i) (snd (ds_hints s ! n)))"
  using sample_hints_pairing [OF assms] assms by (simp add: dl_sample_def comp_def)

definition video_report :: "rat \<Rightarrow> jsobj" where
  "video_report n = [(''type'', VStr ''inbound-rtp''), (''kind'', VStr ''video''), (''ssrc'', VNum (Fin n))]"

definition plain_hint :: jsobj where
  "plain_hint = [(''kind'', VStr ''video'')]"

definition ssrc_hint :: "rat \<Rightarrow> jsobj" where
  "ssrc_hint n = [(''kind'', VStr ''video''), (''ssrc'', VNum (Fin n))]"

definition hinted :: "(string \<times> jsobj) list \<Rightarrow> dl_sampler" where
  "hinted hs = new_DownlinkSampler\<lparr>ds_hints := hs\<rparr>"

theorem inbound_pairing_injective_witness:
  "\<exists>s' subs. sample_hints (\<lambda>_. NaN) (filter is_inbound [video_report 1, video_report 2])
       (ds_hints (hinted [(''a'', ssrc_hint 2), (''b'', plain_hint)])) (hinted [(''a'', ssrc_hint 2), (''b'', plain_hint)]) []
     = (s', subs) \<and> distinct (taken subs)"
proof -
  let ?s = "hinted [(''a'', ssrc_hint 2), (''b'', plain_hint)]"
  obtain s' subs where r: "sample_hints (\<lambda>_. NaN) (filter is_inbound [video_report 1, video_report 2]) (ds_hints ?s) ?s []
     = (s', subs)" by force
  from inbound_pairing_injective [OF r] r show ?thesis by blast
qed

text \<open>the pairing is greedy in the order of the hints, so a consumer without identifiers that comes
  first takes the stream that a later hint names by its ssrc, and the later consumer gets none.\<close>

theorem fallback_takes_named_stream:
  "map fst (snd (sample_hints (\<lambda>_. NaN) [video_report 2]
      [(''a'', plain_hint), (''b'', ssrc_hint 2)] new_DownlinkSampler [])) = [Some 0, None]
   \<and> matchesHint (\<lambda>_. NaN) (video_report 2) (ssrc_hint 2)
   \<and> \<not> matchesHint (\<lambda>_. NaN) (video_report 2) plain_hint"
  by (simp add: video_report_def plain_hint_def ssrc_hint_def selectInboundReport_def matchesHint_def
      matchesHintKind_def hint_kind_def nonempty_str_def Let_def js_eq_def)

lemma js_sub_nat:
  assumes "a \<le> 2 ^ 52" "b \<le> 2 ^ 52"
  shows "js_sub (Fin (of_nat a)) (Fin (of_nat b)) = Fin (of_int (int a - int b))"
proof -
  have "js_num (of_int (int a - int b)) = Fin (of_int (int a - int b))"
    using assms by (intro js_num_of_int) simp
  then show ?thesis by (simp add: js_sub_def)
qed

lemma percent_step:
  assumes "0 \<le> q" "q \<le> 1"
  shows "\<exists>z. 0 \<le> z \<and> js_round (js_mul (Fin q) (Fin 100)) = Fin (of_int z) \<and> (q = 0 \<longrightarrow> z = 0) \<and> (q = 1 \<longrightarrow> z = 100)"
proof -
  have "js_mul (Fin q) (Fin 100) = Fin (round64 (q * 100))"
    using assms by (simp add: js_mul_def js_num_Fin)
  moreover have "0 \<le> round64 (q * 100)" using assms by (intro round64_nonneg) simp
  moreover have "round64 100 = 100" using js_num_of_int [of 100] js_num_Fin [of 100] by simp
  moreover have "\<lfloor>1 / 2 :: rat\<rfloor> = 0" "\<lfloor>201 / 2 :: rat\<rfloor> = 100" by (simp_all add: floor_eq_iff)
  ultimately show ?thesis
    by (intro exI [of _ "\<lfloor>round64 (q * 100) + 1 / 2\<rfloor>"]) auto
qed

text \<open>the loss a subscription reports is a whole percentage. For packet counters that are natural numbers
  below 2 to the 52, whatever the previous ones were (counters that went back included), it lies between
  0 and 100; it is 0 when no packet was lost since, and 100 when packets were lost and none received.\<close>

theorem loss_percent_bounds:
  assumes "js_Number str_num (obj_get r ''packetsLost'') = Fin (of_nat l)"
    and "js_Number str_num (obj_get r ''packetsReceived'') = Fin (of_nat p)"
    and "l \<le> 2 ^ 52" "p \<le> 2 ^ 52" "l0 \<le> 2 ^ 52" "p0 \<le> 2 ^ 52"
  shows "\<exists>j \<le> (100::nat). computeLossPercent str_num (Some r) (Some (Fin (of_nat l0))) (Some (Fin (of_nat p0))) = Fin (of_nat j)
    \<and> (l \<le> l0 \<longrightarrow> j = 0) \<and> (l0 < l \<and> p = p0 \<longrightarrow> j = 100)"
proof -
  let ?dl = "int l - int l0" and ?dp = "int p - int p0"
  note d = js_sub_nat [OF assms(3,5)] js_sub_nat [OF assms(4,6)]
  have e: "computeLossPercent str_num (Some r) (Some (Fin (of_nat l0))) (Some (Fin (of_nat p0))) =
      (if ?dl < 0 \<or> ?dp < 0 then Fin 0
       else if js_le (js_add (Fin (of_int ?dl)) (Fin (of_int ?dp))) (Fin 0) then Fin 0
       else js_max (Fin 0) (js_min (Fin 100) (js_round (js_mul (js_div (Fin (of_int ?dl))
         (js_add (Fin (of_int ?dl)) (Fin (of_int ?dp)))) (Fin 100)))))"
    unfolding computeLossPercent_def Let_def option.case prod.case assms(1,2) d by simp
  show ?thesis
  proof (cases "?dl < 0 \<or> ?dp < 0 \<or> ?dl + ?dp = 0")
    case True
    moreover have "js_num 0 = Fin 0" by simp
    ultimately have "computeLossPercent str_num (Some r) (Some (Fin (of_nat l0))) (Some (Fin (of_nat p0))) = Fin 0"
      unfolding e by (auto simp flip: of_int_add of_int_diff simp: add_eq_0_iff)
    then show ?thesis using True by (intro exI [of _ 0]) auto
  next
    case False
    then have nn: "0 \<le> ?dl" "0 \<le> ?dp" "0 < ?dl + ?dp" by auto
    have t: "js_add (Fin (of_int ?dl)) (Fin (of_int ?dp)) = Fin (of_int (?dl + ?dp))"
      using js_num_of_int [of "?dl + ?dp"] nn assms(3-6) by simp
    let ?x = "of_int ?dl / of_int (?dl + ?dp) :: rat"
    have x: "0 \<le> ?x" "?x \<le> 1" using nn by (auto simp: divide_le_eq)
    have "\<bar>?x\<bar> \<le> 2 ^ 53" using x by (simp only: abs_of_nonneg) (rule order_trans [of _ 1], simp_all)
    then have "js_num ?x = Fin (round64 ?x)" by (rule js_num_Fin)
    moreover have "of_int (?dl + ?dp) \<noteq> (0::rat)" using nn(3) by linarith
    ultimately have v: "js_div (Fin (of_int ?dl)) (Fin (of_int (?dl + ?dp))) = Fin (round64 ?x)"
      by (simp add: js_div_def del: of_int_add of_int_diff)
    have "?x \<le> 1 + 1 / 2 ^ 53" using x(2) by (rule order_trans) simp
    note q = round64_nonneg [OF x(1)] round64_le_one [OF this]
    obtain z where z: "0 \<le> z" "js_round (js_mul (Fin (round64 ?x)) (Fin 100)) = Fin (of_int z)"
      "round64 ?x = 0 \<longrightarrow> z = 0" "round64 ?x = 1 \<longrightarrow> z = 100" using percent_step [OF q] by blast
    have "computeLossPercent str_num (Some r) (Some (Fin (of_nat l0))) (Some (Fin (of_nat p0))) =
        js_max (Fin 0) (js_min (Fin 100) (Fin (of_int z)))"
      unfolding e t v z(2) using nn by (simp del: of_int_add of_int_diff)
    also have "\<dots> = Fin (of_int (min 100 z))" using z(1) by (auto simp: js_max_def js_min_def)
    also have "\<dots> = Fin (of_nat (nat (min 100 z)))" using z(1) by simp
    finally have r: "computeLossPercent str_num (Some r) (Some (Fin (of_nat l0))) (Some (Fin (of_nat p0)))
        = Fin (of_nat (nat (min 100 z)))" .
    have "round64 1 = 1" using js_num_of_int [of 1] js_num_Fin [of 1] by simp
    then have "(l \<le> l0 \<longrightarrow> z = 0) \<and> (l0 < l \<and> p = p0 \<longrightarrow> z = 100)"
      using z(3,4) nn by auto
    with r show ?thesis by (intro exI [of _ "nat (min 100 z)"]) auto
  qed
qed

theorem loss_percent_bounds_witness:
  "\<exists>j \<le> (100::nat). computeLossPercent (\<lambda>_. NaN) (Some [(''packetsLost'', VNum (Fin 12)), (''packetsReceived'', VNum (Fin 90))])
     (Some (Fin 2)) (Some (Fin 90)) = Fin (of_nat j) \<and> j = 100"
  using loss_percent_bounds [of "\<lambda>_. NaN" "[(''packetsLost'', VNum (Fin 12)), (''packetsReceived'', VNum (Fin 90))]"
      12 90 2 90] by simp

end
