(* ===== verification/DownlinkReporting.thy ===== *)
theory DownlinkReporting
  imports DownlinkSampling Clock
begin

text \<open>
  \<open>downlinkProtocol.js\<close>, the wire format of a downlink report, and \<open>downlinkReporter.js\<close>, which samples,
  serializes and sends one report per tick. The statistics of the transport and the application's
  \<open>send\<close> are parameters. While a tick waits for either, the hints it synchronized are not changed in
  place; the error counter is a natural number.
\<close>

section \<open>The protocol\<close>

definition DOWNLINK_SCHEMA_V1 :: string where
  "DOWNLINK_SCHEMA_V1 = ''mediasoup.qos.downlink.client.v1''"

definition DOWNLINK_SCHEMA_V1_LEGACY :: string where
  "DOWNLINK_SCHEMA_V1_LEGACY = ''mediasoup.downlink.v1''"

definition DOWNLINK_MAX_SEQ :: number where
  "DOWNLINK_MAX_SEQ = Fin 9007199254740991"

definition DOWNLINK_MAX_SUBSCRIPTIONS :: nat where
  "DOWNLINK_MAX_SUBSCRIPTIONS = 64"

definition copyOptionalNumber :: "number option \<Rightarrow> string \<Rightarrow> jsobj" where
  "copyOptionalNumber value key =
     (case value of Some n \<Rightarrow> if is_finite n then [(key, VNum n)] else [] | None \<Rightarrow> [])"

definition subscription_entry :: "dl_subscription \<Rightarrow> jsval" where
  "subscription_entry s = VObj
     ([(''consumerId'', VStr (su_consumerId s)), (''producerId'', su_producerId s),
       (''kind'', kind_val (su_kind s)), (''visible'', VBool (su_visible s)),
       (''pinned'', VBool (su_pinned s)), (''activeSpeaker'', VBool (su_activeSpeaker s)),
       (''isScreenShare'', VBool (su_isScreenShare s)),
       (''targetWidth'', or_zero_val (su_targetWidth s)), (''targetHeight'', or_zero_val (su_targetHeight s)),
       (''packetsLost'', or_zero_val (VNum (su_packetsLost s))), (''jitter'', or_zero_val (su_jitter s)),
       (''framesPerSecond'', or_zero_val (su_framesPerSecond s)),
       (''frameWidth'', or_zero_val (su_frameWidth s)), (''frameHeight'', or_zero_val (su_frameHeight s)),
       (''freezeRate'', or_zero_val (VNum (su_freezeRate s)))]
      @ copyOptionalNumber (su_concealedSamples s) ''concealedSamples''
      @ copyOptionalNumber (su_totalSamplesReceived s) ''totalSamplesReceived''
      @ copyOptionalNumber (su_freezeCount s) ''freezeCount''
      @ copyOptionalNumber (su_totalFreezesDuration s) ''totalFreezesDuration''
      @ copyOptionalNumber (su_framesDropped s) ''framesDropped''
      @ copyOptionalNumber (su_jitterBufferDelayMs s) ''jitterBufferDelayMs'')"

definition serializeDownlinkSnapshot ::
    "number \<Rightarrow> number \<Rightarrow> string \<Rightarrow> dl_transport \<Rightarrow> dl_subscription list \<Rightarrow> jsval" where
  "serializeDownlinkSnapshot now seq subscriberPeerId transport subscriptions =
     (let capped = (if length subscriptions > DOWNLINK_MAX_SUBSCRIPTIONS
            then take DOWNLINK_MAX_SUBSCRIPTIONS subscriptions else subscriptions)
      in VObj [(''schema'', VStr DOWNLINK_SCHEMA_V1), (''seq'', VNum seq), (''tsMs'', VNum now),
           (''subscriberPeerId'', VStr subscriberPeerId),
           (''transport'', VObj
             [(''availableIncomingBitrate'', or_zero_val (dt_availableIncomingBitrate transport)),
              (''currentRoundTripTime'', or_zero_val (dt_currentRoundTripTime transport))]),
           (''subscriptions'', VArr (map subscription_entry capped))])"

text \<open>The own properties that \<open>{...v}\<close> copies.\<close>

fun spread_props :: "jsval \<Rightarrow> jsobj" where
  "spread_props (VStr s) = zip (map nat_str [0..<length s]) (map (\<lambda>c. VStr [c]) s)"
| "spread_props v = obj_entries v"

definition normalize_kind :: "jsval \<Rightarrow> jsval" where
  "normalize_kind s = VObj (jm_set ''kind'' (if opt_prop s ''kind'' = VStr ''audio'' then VStr ''audio'' else VStr ''video'')
     (spread_props s))"

text \<open>The message of the schema error leaves out the value it quotes.\<close>

definition parseDownlinkSnapshot :: "jsval \<Rightarrow> jsval result" where
  "parseDownlinkSnapshot payload =
     (if \<not> typeof_object payload \<or> payload = VNull then Inl (TypeError ''downlink snapshot must be an object'')
      else let schema = opt_prop payload ''schema''
        in if schema \<noteq> VStr DOWNLINK_SCHEMA_V1 \<and> schema \<noteq> VStr DOWNLINK_SCHEMA_V1_LEGACY
           then Inl (TypeError ''unsupported schema'')
           else case opt_prop payload ''seq'' of
               VNum n \<Rightarrow>
                 if \<not> is_safe_integer n \<or> js_lt n (Fin 0)
                 then Inl (TypeError ''seq must be a non-negative safe integer'')
                 else Inr (VObj (jm_set ''subscriptions''
                   (case opt_prop payload ''subscriptions'' of
                      VArr ss \<Rightarrow> VArr (map normalize_kind ss) | v \<Rightarrow> v)
                   (jm_set ''schema'' (VStr DOWNLINK_SCHEMA_V1) (spread_props payload))))
             | _ \<Rightarrow> Inl (TypeError ''seq must be a non-negative safe integer''))"

section \<open>The reporter\<close>

record 'h reporter_env =
  rn_stats :: "'h \<Rightarrow> 'h \<times> (thrown + jsobj list option)"
  rn_send :: "'h \<Rightarrow> string \<Rightarrow> jsval \<Rightarrow> 'h \<times> thrown option"

record dl_reporter =
  rp_sampler :: dl_sampler
  rp_peerId :: string
  rp_intervalMs :: number
  rp_seq :: number
  rp_timerId :: "nat option"
  rp_reporting :: bool
  rp_consecutiveErrors :: nat
  rp_warnings :: "nat list"
  rp_sent :: "jsval list"

definition new_DownlinkReporter :: "dl_sampler \<Rightarrow> string \<Rightarrow> number option \<Rightarrow> dl_reporter" where
  "new_DownlinkReporter s peerId intervalMs = \<lparr>rp_sampler = s, rp_peerId = peerId,
     rp_intervalMs = (case intervalMs of None \<Rightarrow> Fin 2000 | Some ms \<Rightarrow> ms), rp_seq = Fin 0, rp_timerId = None,
     rp_reporting = False, rp_consecutiveErrors = 0, rp_warnings = [], rp_sent = []\<rparr>"

definition rp_running :: "dl_reporter \<Rightarrow> bool" where
  "rp_running r \<longleftrightarrow> rp_timerId r \<noteq> None"

definition rp_start :: "('k, unit) clock_ops \<Rightarrow> 'k \<times> dl_reporter \<Rightarrow> 'k \<times> dl_reporter" where
  "rp_start cops kr =
     (case kr of (k, r) \<Rightarrow>
        if rp_timerId r \<noteq> None then (k, r)
        else case co_setInterval cops k () (rp_intervalMs r) of (k', i) \<Rightarrow> (k', r\<lparr>rp_timerId := Some i\<rparr>))"

definition rp_stop :: "('k, unit) clock_ops \<Rightarrow> 'k \<times> dl_reporter \<Rightarrow> 'k \<times> dl_reporter" where
  "rp_stop cops kr =
     (case kr of (k, r) \<Rightarrow>
        case rp_timerId r of
          None \<Rightarrow> (k, r) | Some i \<Rightarrow> (co_clearInterval cops k i, r\<lparr>rp_timerId := None\<rparr>))"

definition sync_hints :: "dl_hints \<Rightarrow> dl_sampler \<Rightarrow> dl_sampler" where
  "sync_hints hints s = foldl (\<lambda>s (cid, h). setHints cid (hint_obj h) s) s (dh_getAll hints)"

definition next_report_seq :: "number \<Rightarrow> number" where
  "next_report_seq n = (if js_ge n DOWNLINK_MAX_SEQ then Fin 0 else js_add n (Fin 1))"

text \<open>The start of a tick, up to its first wait; \<open>None\<close> when another tick is under way.\<close>

definition tick_begin :: "dl_hints \<Rightarrow> dl_reporter \<Rightarrow> dl_reporter option" where
  "tick_begin hints r =
     (if rp_reporting r then None
      else Some (r\<lparr>rp_reporting := True, rp_sampler := sync_hints hints (rp_sampler r),
                   rp_seq := next_report_seq (rp_seq r)\<rparr>))"

definition tick_failed :: "dl_reporter \<Rightarrow> dl_reporter" where
  "tick_failed r =
     (let n = rp_consecutiveErrors r + 1
      in r\<lparr>rp_consecutiveErrors := n, rp_reporting := False,
           rp_warnings := rp_warnings r @ (if n \<le> 3 \<or> n mod 10 = 0 then [n] else [])\<rparr>)"

definition tick_sent :: "dl_reporter \<Rightarrow> dl_reporter" where
  "tick_sent r = r\<lparr>rp_consecutiveErrors := 0, rp_reporting := False\<rparr>"

text \<open>Once the statistics are there: the report.\<close>

definition tick_report ::
    "(string \<Rightarrow> number) \<Rightarrow> number \<Rightarrow> jsobj list option \<Rightarrow> dl_reporter \<Rightarrow> dl_reporter \<times> jsval" where
  "tick_report str_num now raw r =
     (case dl_sample str_num raw (rp_sampler r) of (s, transport, subscriptions) \<Rightarrow>
        let snapshot = serializeDownlinkSnapshot now (rp_seq r) (rp_peerId r) transport subscriptions
        in (r\<lparr>rp_sampler := s, rp_sent := rp_sent r @ [snapshot]\<rparr>, snapshot))"

definition dl_tick ::
    "'h reporter_env \<Rightarrow> (string \<Rightarrow> number) \<Rightarrow> dl_hints \<Rightarrow> number \<Rightarrow> dl_reporter \<times> 'h \<Rightarrow> dl_reporter \<times> 'h" where
  "dl_tick en str_num hints now rh =
     (case rh of (r, h) \<Rightarrow>
        case tick_begin hints r of
          None \<Rightarrow> (r, h)
        | Some r1 \<Rightarrow>
            (case rn_stats en h of
               (h1, Inl t) \<Rightarrow> (tick_failed r1, h1)
             | (h1, Inr raw) \<Rightarrow>
                 (case tick_report str_num now raw r1 of (r2, snapshot) \<Rightarrow>
                    case rn_send en h1 ''downlinkClientStats'' snapshot of
                      (h2, Some t) \<Rightarrow> (tick_failed r2, h2)
                    | (h2, None) \<Rightarrow> (tick_sent r2, h2))))"

definition reportNow ::
    "'h reporter_env \<Rightarrow> (string \<Rightarrow> number) \<Rightarrow> dl_hints \<Rightarrow> number \<Rightarrow> dl_reporter \<times> 'h \<Rightarrow> dl_reporter \<times> 'h" where
  "reportNow en str_num hints now rh = dl_tick en str_num hints now rh"

section \<open>Lemmas\<close>

definition report_seq :: "jsval \<Rightarrow> jsval" where
  "report_seq v = opt_prop v ''seq''"

definition report_subscriptions :: "jsval \<Rightarrow> jsval list" where
  "report_subscriptions v = (case opt_prop v ''subscriptions'' of VArr ss \<Rightarrow> ss | _ \<Rightarrow> [])"

lemma serialize_fields:
  "report_seq (serializeDownlinkSnapshot now seq peer tr subs) = VNum seq"
  "report_subscriptions (serializeDownlinkSnapshot now seq peer tr subs) =
     map subscription_entry (take DOWNLINK_MAX_SUBSCRIPTIONS subs)"
  by (simp_all add: report_seq_def report_subscriptions_def serializeDownlinkSnapshot_def Let_def)

lemma normalize_entry: "normalize_kind (subscription_entry s) = subscription_entry s"
  by (simp add: normalize_kind_def subscription_entry_def kind_val_def)

lemma safe_nat: "n \<le> 9007199254740991 \<Longrightarrow> is_safe_integer (Fin (of_nat n)) \<and> \<not> js_lt (Fin (of_nat n)) (Fin 0)"
  by (auto simp: is_safe_integer_def intro: order_trans [of _ 0])

lemma parse_serialize:
  assumes "n \<le> 9007199254740991"
  shows "parseDownlinkSnapshot (serializeDownlinkSnapshot now (Fin (of_nat n)) peer tr subs)
     = Inr (serializeDownlinkSnapshot now (Fin (of_nat n)) peer tr subs)"
  using safe_nat [OF assms]
  by (simp add: parseDownlinkSnapshot_def serializeDownlinkSnapshot_def Let_def normalize_entry comp_def)

lemma tick_fields:
  assumes "tick_report str_num now raw r = (r', v)"
  shows "rp_seq r' = rp_seq r" "rp_sent r' = rp_sent r @ [v]" "rp_reporting r' = rp_reporting r"
    "\<exists>tr subs. v = serializeDownlinkSnapshot now (rp_seq r) (rp_peerId r) tr subs"
  using assms by (auto simp: tick_report_def Let_def split: prod.splits)

text \<open>What one tick does to the log: nothing, or one report under the next number.\<close>

lemma dl_tick_cases:
  assumes "dl_tick en str_num hints now (r, h) = (r', h')" "\<not> rp_reporting r"
  shows "rp_seq r' = next_report_seq (rp_seq r)" "\<not> rp_reporting r'"
    "rp_sent r' = rp_sent r \<or> (\<exists>tr subs. rp_sent r' = rp_sent r
       @ [serializeDownlinkSnapshot now (next_report_seq (rp_seq r)) (rp_peerId r) tr subs])"
proof -
  let ?r1 = "r\<lparr>rp_reporting := True, rp_sampler := sync_hints hints (rp_sampler r), rp_seq := next_report_seq (rp_seq r)\<rparr>"
  have b: "tick_begin hints r = Some ?r1" using assms(2) by (simp add: tick_begin_def)
  obtain h1 q where st: "rn_stats en h = (h1, q)" by force
  have "rp_seq r' = next_report_seq (rp_seq r) \<and> \<not> rp_reporting r' \<and> (rp_sent r' = rp_sent r \<or> (\<exists>tr subs. rp_sent r' = rp_sent r
       @ [serializeDownlinkSnapshot now (next_report_seq (rp_seq r)) (rp_peerId r) tr subs]))"
  proof (cases q)
    case (Inl t)
    then show ?thesis using assms(1) by (auto simp: dl_tick_def b st tick_failed_def Let_def)
  next
    case (Inr raw)
    obtain r2 v where rep: "tick_report str_num now raw ?r1 = (r2, v)" by force
    obtain h2 e where sd: "rn_send en h1 ''downlinkClientStats'' v = (h2, e)" by force
    have r': "r' = tick_failed r2 \<or> r' = tick_sent r2"
      using assms(1) by (cases e) (auto simp: dl_tick_def b st Inr rep sd)
    have f: "rp_seq r2 = next_report_seq (rp_seq r)" "rp_sent r2 = rp_sent r @ [v]"
      "\<exists>tr subs. v = serializeDownlinkSnapshot now (next_report_seq (rp_seq r)) (rp_peerId r) tr subs"
      using tick_fields [OF rep] by simp_all
    show ?thesis using r'
    proof
      assume "r' = tick_failed r2"
      then show ?thesis using f by (auto simp: tick_failed_def Let_def)
    next
      assume "r' = tick_sent r2"
      then show ?thesis using f by (auto simp: tick_sent_def)
    qed
  qed
  then show "rp_seq r' = next_report_seq (rp_seq r)" "\<not> rp_reporting r'"
    "rp_sent r' = rp_sent r \<or> (\<exists>tr subs. rp_sent r' = rp_sent r
       @ [serializeDownlinkSnapshot now (next_report_seq (rp_seq r)) (rp_peerId r) tr subs])" by blast+
qed

lemma next_report_seq_nat: "n < 9007199254740991 \<Longrightarrow> next_report_seq (Fin (of_nat n)) = Fin (of_nat (Suc n))"
proof -
  assume n: "n < 9007199254740991"
  then have "rat_of_nat n < of_nat 9007199254740991" unfolding of_nat_less_iff .
  then have "rat_of_nat n < 9007199254740991" by simp
  moreover have "js_num (of_int (int n + 1)) = Fin (of_int (int n + 1))" using n by (intro js_num_of_int) simp
  ultimately show ?thesis by (simp add: next_report_seq_def DOWNLINK_MAX_SEQ_def add.commute)
qed

definition report_log_ok :: "nat \<Rightarrow> dl_reporter \<Rightarrow> bool" where
  "report_log_ok n r \<longleftrightarrow> rp_seq r = Fin (of_nat n) \<and> \<not> rp_reporting r
     \<and> (\<forall>v \<in> set (rp_sent r). parseDownlinkSnapshot v = Inr v \<and> length (report_subscriptions v) \<le> DOWNLINK_MAX_SUBSCRIPTIONS)
     \<and> (\<exists>ns. sorted_wrt (<) ns \<and> (\<forall>m \<in> set ns. m \<le> n) \<and> map report_seq (rp_sent r) = map (\<lambda>m. VNum (Fin (of_nat m))) ns)"

lemma report_log_step:
  assumes "report_log_ok n r" "n < 9007199254740991" "dl_tick en str_num hints now (r, h) = (r', h')"
  shows "report_log_ok (Suc n) r'"
proof -
  have s: "rp_seq r = Fin (of_nat n)" "\<not> rp_reporting r" using assms(1) by (simp_all add: report_log_ok_def)
  note c = dl_tick_cases [OF assms(3) s(2), unfolded s(1) next_report_seq_nat [OF assms(2)]]
  obtain ns where ns: "sorted_wrt (<) ns" "\<forall>m \<in> set ns. m \<le> n"
    "map report_seq (rp_sent r) = map (\<lambda>m. VNum (Fin (of_nat m))) ns"
    using assms(1) unfolding report_log_ok_def by blast
  show ?thesis
    using c(3)
  proof
    assume "rp_sent r' = rp_sent r"
    with c(1,2) ns assms(1) show ?thesis unfolding report_log_ok_def by (metis le_Suc_eq)
  next
    assume "\<exists>tr subs. rp_sent r' = rp_sent r
       @ [serializeDownlinkSnapshot now (Fin (of_nat (Suc n))) (rp_peerId r) tr subs]"
    then obtain tr subs where v: "rp_sent r' = rp_sent r
       @ [serializeDownlinkSnapshot now (Fin (of_nat (Suc n))) (rp_peerId r) tr subs]" by blast
    have "sorted_wrt (<) (ns @ [Suc n])" using ns by (auto simp: sorted_wrt_append less_Suc_eq_le)
    moreover have "map report_seq (rp_sent r') = map (\<lambda>m. VNum (Fin (of_nat m))) (ns @ [Suc n])"
      using ns(3) by (simp add: v serialize_fields del: of_nat_Suc)
    ultimately have "\<exists>ns. sorted_wrt (<) ns \<and> (\<forall>m \<in> set ns. m \<le> Suc n)
        \<and> map report_seq (rp_sent r') = map (\<lambda>m. VNum (Fin (of_nat m))) ns"
      using ns(2) by (intro exI [of _ "ns @ [Suc n]"]) auto
    moreover have "\<forall>v \<in> set (rp_sent r'). parseDownlinkSnapshot v = Inr v
        \<and> length (report_subscriptions v) \<le> DOWNLINK_MAX_SUBSCRIPTIONS"
      using assms(1,2) parse_serialize [of "Suc n"]
      by (auto simp: v report_log_ok_def serialize_fields simp del: of_nat_Suc)
    ultimately show ?thesis using c(1,2) unfolding report_log_ok_def by blast
  qed
qed

definition run_ticks ::
    "'h reporter_env \<Rightarrow> (string \<Rightarrow> number) \<Rightarrow> dl_reporter \<times> 'h \<Rightarrow> (dl_hints \<times> number) list \<Rightarrow> dl_reporter \<times> 'h" where
  "run_ticks en str_num rh ticks = foldl (\<lambda>rh (hints, now). dl_tick en str_num hints now rh) rh ticks"

lemma report_log_run:
  "report_log_ok n r \<Longrightarrow> n + length ticks \<le> 9007199254740991 \<Longrightarrow> run_ticks en str_num (r, h) ticks = (r', h')
   \<Longrightarrow> report_log_ok (n + length ticks) r'"
proof (induction ticks arbitrary: n r h)
  case (Cons t ticks)
  obtain hints now where t: "t = (hints, now)" by force
  obtain r1 h1 where s: "dl_tick en str_num hints now (r, h) = (r1, h1)" by force
  have "report_log_ok (Suc n) r1" using report_log_step [OF Cons.prems(1) _ s] Cons.prems(2) by simp
  from Cons.IH [OF this, of h1] Cons.prems(2,3) show ?case by (simp add: run_ticks_def t s)
qed (simp add: run_ticks_def)

text \<open>A report covers the consumers of the hints and every one the sampler was told of.\<close>

lemma jm_set_keys: "fst ` set (jm_set k v m) = insert k (fst ` set m)"
  by (induction k v m rule: jm_set.induct) auto

lemma sync_hints_keys: "fst ` set (ds_hints (sync_hints hints s)) = fst ` set (ds_hints s) \<union> fst ` set hints"
proof -
  have "fst ` set (ds_hints (foldl (\<lambda>s (cid, h). setHints cid (hint_obj h) s) s hs))
      = fst ` set (ds_hints s) \<union> fst ` set hs" for hs
  proof (induction hs arbitrary: s)
    case (Cons c hs)
    obtain cid h where c: "c = (cid, h)" by force
    show ?case using Cons.IH [of "setHints cid (hint_obj h) s"] by (simp add: c setHints_def jm_set_keys)
  qed simp
  then show ?thesis by (simp add: sync_hints_def dh_getAll_def)
qed

lemma sample_consumers:
  assumes "dl_sample str_num (Some reports) s = (s', tr, subs)"
  shows "map su_consumerId subs = map fst (ds_hints s)"
proof -
  obtain s1 ps where p: "sample_hints str_num (filter is_inbound reports) (ds_hints s) s [] = (s1, ps)" by force
  show ?thesis using assms sample_hints_pairing [OF p] by (auto simp: dl_sample_def p comp_def)
qed

section \<open>Properties\<close>

text \<open>C36: whatever the hints, the statistics and the channel do, every report a reporter sends is one the
  protocol accepts unchanged, with at most 64 subscriptions; the numbers of the reports strictly
  increase; a tick that fails still uses up its number, so that after \<open>n\<close> ticks the number is \<open>n\<close>;
  and the reporter is ready for the next tick.\<close>

theorem reports_well_formed:
  assumes "run_ticks en str_num (new_DownlinkReporter s peer ms, h) ticks = (r, h')"
    and "length ticks \<le> 9007199254740991"
  shows "rp_seq r = Fin (of_nat (length ticks)) \<and> \<not> rp_reporting r
    \<and> (\<forall>v \<in> set (rp_sent r). parseDownlinkSnapshot v = Inr v \<and> length (report_subscriptions v) \<le> 64)
    \<and> (\<exists>ns. sorted_wrt (<) ns \<and> map report_seq (rp_sent r) = map (\<lambda>m. VNum (Fin (of_nat m))) ns)"
proof -
  have "report_log_ok 0 (new_DownlinkReporter s peer ms)" by (simp add: report_log_ok_def new_DownlinkReporter_def)
  from report_log_run [OF this _ assms(1)] assms(2) have "report_log_ok (length ticks) r" by simp
  then show ?thesis unfolding report_log_ok_def DOWNLINK_MAX_SUBSCRIPTIONS_def by blast
qed

definition deaf_env :: "nat reporter_env" where
  "deaf_env = \<lparr>rn_stats = \<lambda>h. (h, Inr (Some [video_report 2])),
     rn_send = \<lambda>h method v. (h + 1, if even h then Some (ThrownValue ''offline'') else None)\<rparr>"

theorem reports_well_formed_witness:
  "\<exists>r h'. run_ticks deaf_env (\<lambda>_. NaN) (new_DownlinkReporter new_DownlinkSampler ''me'' None, 0) [([], Fin 1), ([], Fin 2)] = (r, h')
     \<and> rp_seq r = Fin 2 \<and> \<not> rp_reporting r"
proof -
  obtain r h' where r: "run_ticks deaf_env (\<lambda>_. NaN) (new_DownlinkReporter new_DownlinkSampler ''me'' None, 0)
      [([], Fin 1), ([], Fin 2)] = (r, h')" by force
  from reports_well_formed [OF r] r show ?thesis by auto
qed

text \<open>a report covers every consumer of the hints, and every consumer the sampler was ever told of: one
  whose hint is removed from the hints alone is still reported, until it is removed from the sampler
  too. This holds for the report of any tick with statistics, up to the cap of 64 subscriptions.\<close>

theorem report_covers_known_consumers:
  assumes "tick_begin hints r = Some r1" "tick_report str_num now (Some reports) r1 = (r2, v)"
    and "length (ds_hints (rp_sampler r1)) \<le> DOWNLINK_MAX_SUBSCRIPTIONS"
    and "cid \<in> fst ` set (ds_hints (rp_sampler r)) \<union> fst ` set hints"
  shows "\<exists>e \<in> set (report_subscriptions v). opt_prop e ''consumerId'' = VStr cid"
proof -
  have r1: "rp_sampler r1 = sync_hints hints (rp_sampler r)"
    using assms(1) by (auto simp: tick_begin_def split: if_splits)
  obtain s' tr subs where d: "dl_sample str_num (Some reports) (rp_sampler r1) = (s', tr, subs)"
    by (cases "dl_sample str_num (Some reports) (rp_sampler r1)")
  have v: "report_subscriptions v = map subscription_entry (take DOWNLINK_MAX_SUBSCRIPTIONS subs)"
    using assms(2) by (auto simp: tick_report_def d Let_def serialize_fields)
  note c = sample_consumers [OF d]
  have "length subs = length (ds_hints (rp_sampler r1))" using arg_cong [OF c, where f = length] by simp
  then have "take DOWNLINK_MAX_SUBSCRIPTIONS subs = subs" using assms(3) by simp
  moreover have "cid \<in> su_consumerId ` set subs"
    using assms(4) sync_hints_keys [of hints "rp_sampler r"] arg_cong [OF c, where f = set] by (simp add: r1)
  ultimately show ?thesis by (auto simp: v subscription_entry_def)
qed

theorem report_covers_known_consumers_witness:
  "\<exists>r1 r2 v. tick_begin [] (new_DownlinkReporter (hinted [(''gone'', plain_hint)]) ''me'' None) = Some r1
     \<and> tick_report (\<lambda>_. NaN) (Fin 1) (Some []) r1 = (r2, v)
     \<and> (\<exists>e \<in> set (report_subscriptions v). opt_prop e ''consumerId'' = VStr ''gone'')"
proof -
  let ?r = "new_DownlinkReporter (hinted [(''gone'', plain_hint)]) ''me'' None"
  obtain r1 where r1: "tick_begin [] ?r = Some r1" by (simp add: tick_begin_def new_DownlinkReporter_def)
  obtain r2 v where v: "tick_report (\<lambda>_. NaN) (Fin 1) (Some []) r1 = (r2, v)" by force
  have "length (ds_hints (rp_sampler r1)) \<le> DOWNLINK_MAX_SUBSCRIPTIONS"
    using r1 by (auto simp: tick_begin_def new_DownlinkReporter_def sync_hints_def dh_getAll_def hinted_def
        DOWNLINK_MAX_SUBSCRIPTIONS_def)
  moreover have "''gone'' \<in> fst ` set (ds_hints (rp_sampler ?r)) \<union> fst ` set []"
    by (simp add: new_DownlinkReporter_def hinted_def)
  ultimately show ?thesis using report_covers_known_consumers [OF r1 v] r1 v by blast
qed

end
