(* ===== verification/OrtcValidate.thy ===== *)
theory OrtcValidate
  imports ProducerAdapter
begin

text \<open>
  The validators of \<open>ortc.js\<close>. Each takes an untyped value, throws when a mandatory part is missing or
  of the wrong type, and fills the optional ones with defaults: here it answers the value as it
  is left. What a validator had already filled in when it throws is not kept. Reading a property of
  \<open>null\<close> throws the \<open>TypeError\<close> of the language.
\<close>

section \<open>Helpers\<close>

definition NULL_ERROR :: js_error where
  "NULL_ERROR = TypeError ''Cannot read properties of null''"

text \<open>The properties of a value that passed \<open>typeof v === 'object'\<close>. An array passes too and has none of the
  named properties; where that is enough, the answer is the object of what was filled in.\<close>

definition as_props :: "jsval \<Rightarrow> string \<Rightarrow> jsobj result" where
  "as_props v message =
     (case v of
        VObj fs \<Rightarrow> Inr fs
      | VArr _ \<Rightarrow> Inr []
      | VNull \<Rightarrow> Inl NULL_ERROR
      | _ \<Rightarrow> Inl (TypeError message))"

definition check :: "bool \<Rightarrow> string \<Rightarrow> unit result" where
  "check b message = (if b then Inr () else Inl (TypeError message))"

definition is_num :: "jsval \<Rightarrow> bool" where
  "is_num v = (case v of VNum _ \<Rightarrow> True | _ \<Rightarrow> False)"

definition is_str :: "jsval \<Rightarrow> bool" where
  "is_str v = (case v of VStr _ \<Rightarrow> True | _ \<Rightarrow> False)"

definition is_bool :: "jsval \<Rightarrow> bool" where
  "is_bool v = (case v of VBool _ \<Rightarrow> True | _ \<Rightarrow> False)"

text \<open>Small and capital letters of the eight-bit characters.\<close>

definition lower_char :: "char \<Rightarrow> char" where
  "lower_char c = (let n = of_char c :: nat
     in if 65 \<le> n \<and> n \<le> 90 \<or> 192 \<le> n \<and> n \<le> 222 \<and> n \<noteq> 215 then char_of (n + 32) else c)"

definition to_lower :: "string \<Rightarrow> string" where
  "to_lower s = map lower_char s"

definition line_end :: "char \<Rightarrow> bool" where
  "line_end c \<longleftrightarrow> c = CHR 0x0A \<or> c = CHR 0x0D"

text \<open>The media component that \<open>^(audio|video)/(.+)\<close> captures, in small letters.\<close>

definition mime_kind :: "string \<Rightarrow> track_kind option" where
  "mime_kind m =
     (if length m \<ge> 7 \<and> \<not> line_end (m ! 6)
      then if to_lower (take 6 m) = ''audio/'' then Some KAudio
        else if to_lower (take 6 m) = ''video/'' then Some KVideo else None
      else None)"

definition kind_str :: "track_kind \<Rightarrow> string" where
  "kind_str k = (if k = KAudio then ''audio'' else ''video'')"

section \<open>Leaf validators\<close>

definition validateRtcpFeedback :: "jsval \<Rightarrow> jsval result" where
  "validateRtcpFeedback fb =
     bindr (as_props fb ''fb is not an object'') (\<lambda>fs.
     bindr (check (truthy (obj_get fs ''type'') \<and> is_str (obj_get fs ''type'')) ''missing fb.type'') (\<lambda>_.
       Inr (VObj (if truthy (obj_get fs ''parameter'') \<and> is_str (obj_get fs ''parameter'') then fs
         else jm_set ''parameter'' (VStr '''') fs))))"

text \<open>The loop over the keys of \<open>parameters\<close>; the errors carry the fixed part of the message.\<close>

fun validate_parameters :: "bool \<Rightarrow> string \<Rightarrow> jsobj \<Rightarrow> jsobj result" where
  "validate_parameters isCodec message [] = Inr []"
| "validate_parameters isCodec message ((key, raw) # fs) =
     (let value = (if raw = VUndef then VStr '''' else raw)
      in bindr (check (is_str value \<or> is_num value) message) (\<lambda>_.
         bindr (check (\<not> (isCodec \<and> key = ''apt'') \<or> is_num value) ''invalid codec apt parameter'') (\<lambda>_.
         bindr (validate_parameters isCodec message fs) (\<lambda>fs'. Inr ((key, value) # fs')))))"

text \<open>\<open>parameters\<close> is optional: anything but an object becomes an empty one.\<close>

definition parameters_of :: "jsobj \<Rightarrow> jsobj" where
  "parameters_of fs =
     (case obj_get fs ''parameters'' of VObj ps \<Rightarrow> ps | VArr vs \<Rightarrow> zip (map nat_str [0..<length vs]) vs | _ \<Rightarrow> [])"

definition list_of :: "jsval \<Rightarrow> jsval list" where
  "list_of v = (case v of VArr vs \<Rightarrow> vs | _ \<Rightarrow> [])"

definition set_channels :: "track_kind \<Rightarrow> jsobj \<Rightarrow> jsobj" where
  "set_channels kind fs =
     (if kind = KAudio
      then if is_num (obj_get fs ''channels'') then fs else jm_set ''channels'' (VNum (Fin 1)) fs
      else jm_delete ''channels'' fs)"

text \<open>The part the two codec validators share: channels, parameters and feedback.\<close>

definition finish_codec :: "track_kind \<Rightarrow> jsobj \<Rightarrow> jsval result" where
  "finish_codec kind fs =
     (let fs1 = set_channels kind fs
      in bindr (validate_parameters True ''invalid codec parameter'' (parameters_of fs1)) (\<lambda>ps.
         let fs2 = jm_set ''parameters'' (VObj ps) fs1
         in bindr (mapr validateRtcpFeedback (list_of (obj_get fs2 ''rtcpFeedback''))) (\<lambda>fbs.
            Inr (VObj (jm_set ''rtcpFeedback'' (VArr fbs) fs2)))))"

definition validateRtpCodecCapability :: "jsval \<Rightarrow> jsval result" where
  "validateRtpCodecCapability codecv =
     bindr (as_props codecv ''codec is not an object'') (\<lambda>fs.
     case obj_get fs ''mimeType'' of
       VStr m \<Rightarrow>
         if m = [] then Inl (TypeError ''missing codec.mimeType'')
         else (case mime_kind m of
           None \<Rightarrow> Inl (TypeError ''invalid codec.mimeType'')
         | Some kind \<Rightarrow>
             let fs1 = jm_set ''kind'' (VStr (kind_str kind)) fs
             in bindr (check (\<not> truthy (obj_get fs1 ''preferredPayloadType'') \<or> is_num (obj_get fs1 ''preferredPayloadType''))
                  ''invalid codec.preferredPayloadType'') (\<lambda>_.
                bindr (check (is_num (obj_get fs1 ''clockRate'')) ''missing codec.clockRate'') (\<lambda>_.
                finish_codec kind fs1)))
     | _ \<Rightarrow> Inl (TypeError ''missing codec.mimeType''))"

definition validateRtpCodecParameters :: "jsval \<Rightarrow> jsval result" where
  "validateRtpCodecParameters codecv =
     bindr (as_props codecv ''codec is not an object'') (\<lambda>fs.
     case obj_get fs ''mimeType'' of
       VStr m \<Rightarrow>
         if m = [] then Inl (TypeError ''missing codec.mimeType'')
         else (case mime_kind m of
           None \<Rightarrow> Inl (TypeError ''invalid codec.mimeType'')
         | Some kind \<Rightarrow>
             bindr (check (is_num (obj_get fs ''payloadType'')) ''missing codec.payloadType'') (\<lambda>_.
             bindr (check (is_num (obj_get fs ''clockRate'')) ''missing codec.clockRate'') (\<lambda>_.
             finish_codec kind fs)))
     | _ \<Rightarrow> Inl (TypeError ''missing codec.mimeType''))"

definition optional_flag :: "string \<Rightarrow> string \<Rightarrow> jsobj \<Rightarrow> jsobj result" where
  "optional_flag key message fs =
     (if truthy (obj_get fs key)
      then bindr (check (is_bool (obj_get fs key)) message) (\<lambda>_. Inr fs)
      else Inr (jm_set key (VBool False) fs))"

definition validateRtpHeaderExtension :: "jsval \<Rightarrow> jsval result" where
  "validateRtpHeaderExtension ext =
     bindr (as_props ext ''ext is not an object'') (\<lambda>fs.
     bindr (check (obj_get fs ''kind'' = VStr ''audio'' \<or> obj_get fs ''kind'' = VStr ''video'') ''invalid ext.kind'') (\<lambda>_.
     bindr (check (truthy (obj_get fs ''uri'') \<and> is_str (obj_get fs ''uri'')) ''missing ext.uri'') (\<lambda>_.
     bindr (check (is_num (obj_get fs ''preferredId'')) ''missing ext.preferredId'') (\<lambda>_.
     bindr (optional_flag ''preferredEncrypt'' ''invalid ext.preferredEncrypt'' fs) (\<lambda>fs1.
       if truthy (obj_get fs1 ''direction'')
       then bindr (check (is_str (obj_get fs1 ''direction'')) ''invalid ext.direction'') (\<lambda>_. Inr (VObj fs1))
       else Inr (VObj (jm_set ''direction'' (VStr ''sendrecv'') fs1)))))))"

definition validateRtpHeaderExtensionParameters :: "jsval \<Rightarrow> jsval result" where
  "validateRtpHeaderExtensionParameters ext =
     bindr (as_props ext ''ext is not an object'') (\<lambda>fs.
     bindr (check (truthy (obj_get fs ''uri'') \<and> is_str (obj_get fs ''uri'')) ''missing ext.uri'') (\<lambda>_.
     bindr (check (is_num (obj_get fs ''id'')) ''missing ext.id'') (\<lambda>_.
     bindr (optional_flag ''encrypt'' ''invalid ext.encrypt'' fs) (\<lambda>fs1.
     bindr (validate_parameters False ''invalid header extension parameter'' (parameters_of fs1)) (\<lambda>ps.
       Inr (VObj (jm_set ''parameters'' (VObj ps) fs1)))))))"

definition validateRtpEncodingParameters :: "jsval \<Rightarrow> jsval result" where
  "validateRtpEncodingParameters encoding =
     bindr (as_props encoding ''encoding is not an object'') (\<lambda>fs.
     bindr (check (\<not> truthy (obj_get fs ''ssrc'') \<or> is_num (obj_get fs ''ssrc'')) ''invalid encoding.ssrc'') (\<lambda>_.
     bindr (check (\<not> truthy (obj_get fs ''rid'') \<or> is_str (obj_get fs ''rid'')) ''invalid encoding.rid'') (\<lambda>_.
     bindr (check (\<not> truthy (obj_get fs ''rtx'') \<or> typeof_object (obj_get fs ''rtx'')) ''invalid encoding.rtx'') (\<lambda>_.
     bindr (check (\<not> truthy (obj_get fs ''rtx'') \<or> is_num (opt_prop (obj_get fs ''rtx'') ''ssrc''))
       ''missing encoding.rtx.ssrc'') (\<lambda>_.
     let fs1 = (if truthy (obj_get fs ''dtx'') \<and> is_bool (obj_get fs ''dtx'') then fs
           else jm_set ''dtx'' (VBool False) fs)
     in bindr (check (\<not> truthy (obj_get fs1 ''scalabilityMode'') \<or> is_str (obj_get fs1 ''scalabilityMode''))
          ''invalid encoding.scalabilityMode'') (\<lambda>_. Inr (VObj fs1)))))))"

definition validateRtcpParameters :: "jsval \<Rightarrow> jsval result" where
  "validateRtcpParameters rtcp =
     bindr (as_props rtcp ''rtcp is not an object'') (\<lambda>fs.
     bindr (check (\<not> truthy (obj_get fs ''cname'') \<or> is_str (obj_get fs ''cname'')) ''invalid rtcp.cname'') (\<lambda>_.
       Inr (VObj (if truthy (obj_get fs ''reducedSize'') \<and> is_bool (obj_get fs ''reducedSize'') then fs
         else jm_set ''reducedSize'' (VBool True) fs))))"

definition validateNumSctpStreams :: "jsval \<Rightarrow> jsval result" where
  "validateNumSctpStreams numStreams =
     bindr (as_props numStreams ''numStreams is not an object'') (\<lambda>fs.
     bindr (check (is_num (obj_get fs ''OS'')) ''missing numStreams.OS'') (\<lambda>_.
     bindr (check (is_num (obj_get fs ''MIS'')) ''missing numStreams.MIS'') (\<lambda>_. Inr numStreams)))"

section \<open>Composite validators\<close>

text \<open>An optional array property: absent or falsy counts as empty, and each element is validated.\<close>

definition validate_list :: "(jsval \<Rightarrow> jsval result) \<Rightarrow> string \<Rightarrow> string \<Rightarrow> jsobj \<Rightarrow> jsobj result" where
  "validate_list f key message fs =
     (case obj_get fs key of
        VArr vs \<Rightarrow> bindr (mapr f vs) (\<lambda>vs'. Inr (jm_set key (VArr vs') fs))
      | v \<Rightarrow> if truthy v then Inl (TypeError message) else Inr (jm_set key (VArr []) fs))"

definition validateRtpCapabilities :: "jsval \<Rightarrow> jsval result" where
  "validateRtpCapabilities caps =
     bindr (as_props caps ''caps is not an object'') (\<lambda>fs.
     bindr (validate_list validateRtpCodecCapability ''codecs'' ''caps.codecs is not an array'' fs) (\<lambda>fs1.
     bindr (validate_list validateRtpHeaderExtension ''headerExtensions'' ''caps.headerExtensions is not an array'' fs1) (\<lambda>fs2.
       Inr (VObj fs2))))"

definition validateRtpParameters :: "jsval \<Rightarrow> jsval result" where
  "validateRtpParameters params =
     bindr (as_props params ''params is not an object'') (\<lambda>fs.
     bindr (check (\<not> truthy (obj_get fs ''mid'') \<or> is_str (obj_get fs ''mid'')) ''params.mid is not a string'') (\<lambda>_.
     case obj_get fs ''codecs'' of
       VArr _ \<Rightarrow>
         bindr (validate_list validateRtpCodecParameters ''codecs'' ''missing params.codecs'' fs) (\<lambda>fs1.
         bindr (validate_list validateRtpHeaderExtensionParameters ''headerExtensions''
             ''params.headerExtensions is not an array'' fs1) (\<lambda>fs2.
         bindr (validate_list validateRtpEncodingParameters ''encodings'' ''params.encodings is not an array'' fs2) (\<lambda>fs3.
         bindr (check (\<not> truthy (obj_get fs3 ''rtcp'') \<or> typeof_object (obj_get fs3 ''rtcp'')) ''params.rtcp is not an object'') (\<lambda>_.
         bindr (validateRtcpParameters (if truthy (obj_get fs3 ''rtcp'') then obj_get fs3 ''rtcp'' else VObj [])) (\<lambda>rtcp.
           Inr (VObj (jm_set ''rtcp'' rtcp fs3)))))))
     | _ \<Rightarrow> Inl (TypeError ''missing params.codecs'')))"

definition validateSctpStreamParameters :: "jsval \<Rightarrow> jsval result" where
  "validateSctpStreamParameters params =
     bindr (as_props params ''params is not an object'') (\<lambda>fs.
     bindr (check (is_num (obj_get fs ''streamId'')) ''missing params.streamId'') (\<lambda>_.
     let orderedGiven = is_bool (obj_get fs ''ordered'');
         fs1 = (if orderedGiven then fs else jm_set ''ordered'' (VBool True) fs);
         lifeTime = obj_get fs1 ''maxPacketLifeTime'';
         retransmits = obj_get fs1 ''maxRetransmits'';
         partial = (truthy lifeTime \<or> truthy retransmits)
     in bindr (check (\<not> truthy lifeTime \<or> is_num lifeTime) ''invalid params.maxPacketLifeTime'') (\<lambda>_.
        bindr (check (\<not> truthy retransmits \<or> is_num retransmits) ''invalid params.maxRetransmits'') (\<lambda>_.
        bindr (check (\<not> (truthy lifeTime \<and> truthy retransmits))
          ''cannot provide both maxPacketLifeTime and maxRetransmits'') (\<lambda>_.
        bindr (check (\<not> (orderedGiven \<and> truthy (obj_get fs1 ''ordered'') \<and> partial))
          ''cannot be ordered with maxPacketLifeTime or maxRetransmits'') (\<lambda>_.
        let fs2 = (if \<not> orderedGiven \<and> partial then jm_set ''ordered'' (VBool False) fs1 else fs1)
        in bindr (check (\<not> truthy (obj_get fs2 ''label'') \<or> is_str (obj_get fs2 ''label'')) ''invalid params.label'') (\<lambda>_.
           bindr (check (\<not> truthy (obj_get fs2 ''protocol'') \<or> is_str (obj_get fs2 ''protocol'')) ''invalid params.protocol'') (\<lambda>_.
             Inr (VObj fs2)))))))))"

definition validateSctpCapabilities :: "jsval \<Rightarrow> jsval result" where
  "validateSctpCapabilities caps =
     bindr (as_props caps ''caps is not an object'') (\<lambda>fs.
     bindr (check (truthy (obj_get fs ''numStreams'') \<and> typeof_object (obj_get fs ''numStreams'')) ''missing caps.numStreams'') (\<lambda>_.
     bindr (validateNumSctpStreams (obj_get fs ''numStreams'')) (\<lambda>_. Inr caps)))"

section \<open>The probator\<close>

definition RTP_PROBATOR_MID :: string where
  "RTP_PROBATOR_MID = ''probator''"

definition RTP_PROBATOR_SSRC :: number where
  "RTP_PROBATOR_SSRC = Fin 1234"

definition RTP_PROBATOR_CODEC_PAYLOAD_TYPE :: number where
  "RTP_PROBATOR_CODEC_PAYLOAD_TYPE = Fin 127"

text \<open>Works on a clone, so the reference parameters keep what they have. Without a first codec the
  assignment to \<open>codecs[0].payloadType\<close> throws.\<close>

definition generateProbatorRtpParameters :: "jsval \<Rightarrow> jsval result" where
  "generateProbatorRtpParameters videoRtpParameters =
     bindr (validateRtpParameters videoRtpParameters) (\<lambda>video.
       case list_of (opt_prop video ''codecs'') of
         VObj first # _ \<Rightarrow>
           Inr (VObj
            [(''mid'', VStr RTP_PROBATOR_MID),
             (''codecs'', VArr [VObj (jm_set ''payloadType'' (VNum RTP_PROBATOR_CODEC_PAYLOAD_TYPE) first)]),
             (''headerExtensions'', opt_prop video ''headerExtensions''),
             (''encodings'', VArr [VObj [(''ssrc'', VNum RTP_PROBATOR_SSRC)]]),
             (''rtcp'', VObj [(''cname'', VStr ''probator'')])])
       | _ \<Rightarrow> Inl (TypeError ''Cannot set properties of undefined''))"

section \<open>Properties of objects under update\<close>

lemma obj_get_jm_set [simp]: "obj_get (jm_set k v fs) k' = (if k' = k then v else obj_get fs k')"
  by (induction fs) auto

lemma obj_get_jm_delete [simp]: "obj_get (jm_delete k fs) k' = (if k' = k then VUndef else obj_get fs k')"
  by (induction fs) (auto simp: jm_delete_def)

lemma obj_get_if_set: "k' \<noteq> k \<Longrightarrow> obj_get (if b then fs else jm_set k v fs) k' = obj_get fs k'"
  by simp

lemma jm_set_same: "obj_get fs k = v \<Longrightarrow> v \<noteq> VUndef \<Longrightarrow> jm_set k v fs = fs"
  by (induction fs) auto

lemma jm_set_get [simp]: "obj_get fs k \<noteq> VUndef \<Longrightarrow> jm_set k (obj_get fs k) fs = fs"
  by (rule jm_set_same) simp_all

lemma obj_has_jm_set [simp]: "obj_has (jm_set k v fs) k' \<longleftrightarrow> k' = k \<or> obj_has fs k'"
  by (induction fs) (auto split: if_splits)

lemma obj_has_jm_delete [simp]: "obj_has (jm_delete k fs) k' \<longleftrightarrow> k' \<noteq> k \<and> obj_has fs k'"
  by (induction fs) (auto simp: jm_delete_def)

lemma jm_delete_absent: "\<not> obj_has fs k \<Longrightarrow> jm_delete k fs = fs"
  by (induction fs) (auto simp: jm_delete_def)

lemma type_test_simps [simp]:
  "is_num (VNum n)" "is_str (VStr s)" "is_bool (VBool b)"
  "\<not> is_num VUndef" "\<not> is_str VUndef" "\<not> is_bool VUndef"
  by (simp_all add: is_num_def is_str_def is_bool_def)

lemma check_eq_Inr [simp]: "check b m = Inr u \<longleftrightarrow> b"
  by (simp add: check_def)

lemma check_True [simp]: "check True m = Inr ()"
  by (simp add: check_def)

lemma as_props_VObj [simp]: "as_props (VObj fs) m = Inr fs"
  by (simp add: as_props_def)

section \<open>What the validators promise\<close>

text \<open>The types of the values a validator answers, stated without running it.\<close>

fun feedback_ok :: "jsval \<Rightarrow> bool" where
  "feedback_ok (VObj fs) \<longleftrightarrow>
     truthy (obj_get fs ''type'') \<and> is_str (obj_get fs ''type'') \<and> is_str (obj_get fs ''parameter'')"
| "feedback_ok _ \<longleftrightarrow> False"

definition parameters_ok :: "bool \<Rightarrow> jsval \<Rightarrow> bool" where
  "parameters_ok isCodec v =
     (case v of
        VObj ps \<Rightarrow> list_all (\<lambda>(key, value). (is_str value \<or> is_num value) \<and> (isCodec \<and> key = ''apt'' \<longrightarrow> is_num value)) ps
      | _ \<Rightarrow> False)"

definition all_ok :: "(jsval \<Rightarrow> bool) \<Rightarrow> jsval \<Rightarrow> bool" where
  "all_ok ok v = (case v of VArr vs \<Rightarrow> list_all ok vs | _ \<Rightarrow> False)"

definition codec_tail_ok :: "track_kind \<Rightarrow> jsobj \<Rightarrow> bool" where
  "codec_tail_ok kind fs \<longleftrightarrow>
     (if kind = KAudio then is_num (obj_get fs ''channels'') else \<not> obj_has fs ''channels'') \<and>
     parameters_ok True (obj_get fs ''parameters'') \<and> all_ok feedback_ok (obj_get fs ''rtcpFeedback'')"

definition mime_ok :: "jsval \<Rightarrow> (track_kind \<Rightarrow> bool) \<Rightarrow> bool" where
  "mime_ok v ok =
     (case v of VStr m \<Rightarrow> (case mime_kind m of None \<Rightarrow> False | Some kind \<Rightarrow> ok kind) | _ \<Rightarrow> False)"

fun codec_capability_ok :: "jsval \<Rightarrow> bool" where
  "codec_capability_ok (VObj fs) \<longleftrightarrow>
     mime_ok (obj_get fs ''mimeType'') (\<lambda>kind. obj_get fs ''kind'' = VStr (kind_str kind) \<and> codec_tail_ok kind fs) \<and>
     (truthy (obj_get fs ''preferredPayloadType'') \<longrightarrow> is_num (obj_get fs ''preferredPayloadType'')) \<and>
     is_num (obj_get fs ''clockRate'')"
| "codec_capability_ok _ \<longleftrightarrow> False"

fun codec_parameters_ok :: "jsval \<Rightarrow> bool" where
  "codec_parameters_ok (VObj fs) \<longleftrightarrow>
     mime_ok (obj_get fs ''mimeType'') (\<lambda>kind. codec_tail_ok kind fs) \<and>
     is_num (obj_get fs ''payloadType'') \<and> is_num (obj_get fs ''clockRate'')"
| "codec_parameters_ok _ \<longleftrightarrow> False"

fun header_extension_ok :: "jsval \<Rightarrow> bool" where
  "header_extension_ok (VObj fs) \<longleftrightarrow>
     obj_get fs ''kind'' \<in> {VStr ''audio'', VStr ''video''} \<and>
     truthy (obj_get fs ''uri'') \<and> is_str (obj_get fs ''uri'') \<and> is_num (obj_get fs ''preferredId'') \<and>
     is_bool (obj_get fs ''preferredEncrypt'') \<and> truthy (obj_get fs ''direction'') \<and> is_str (obj_get fs ''direction'')"
| "header_extension_ok _ \<longleftrightarrow> False"

fun extension_parameters_ok :: "jsval \<Rightarrow> bool" where
  "extension_parameters_ok (VObj fs) \<longleftrightarrow>
     truthy (obj_get fs ''uri'') \<and> is_str (obj_get fs ''uri'') \<and> is_num (obj_get fs ''id'') \<and>
     is_bool (obj_get fs ''encrypt'') \<and> parameters_ok False (obj_get fs ''parameters'')"
| "extension_parameters_ok _ \<longleftrightarrow> False"

fun encoding_ok :: "jsval \<Rightarrow> bool" where
  "encoding_ok (VObj fs) \<longleftrightarrow>
     (truthy (obj_get fs ''ssrc'') \<longrightarrow> is_num (obj_get fs ''ssrc'')) \<and>
     (truthy (obj_get fs ''rid'') \<longrightarrow> is_str (obj_get fs ''rid'')) \<and>
     (truthy (obj_get fs ''rtx'') \<longrightarrow> is_num (opt_prop (obj_get fs ''rtx'') ''ssrc'')) \<and>
     is_bool (obj_get fs ''dtx'') \<and>
     (truthy (obj_get fs ''scalabilityMode'') \<longrightarrow> is_str (obj_get fs ''scalabilityMode''))"
| "encoding_ok _ \<longleftrightarrow> False"

fun rtcp_ok :: "jsval \<Rightarrow> bool" where
  "rtcp_ok (VObj fs) \<longleftrightarrow>
     (truthy (obj_get fs ''cname'') \<longrightarrow> is_str (obj_get fs ''cname'')) \<and> obj_get fs ''reducedSize'' = VBool True"
| "rtcp_ok _ \<longleftrightarrow> False"

fun rtp_capabilities_ok :: "jsval \<Rightarrow> bool" where
  "rtp_capabilities_ok (VObj fs) \<longleftrightarrow>
     all_ok codec_capability_ok (obj_get fs ''codecs'') \<and> all_ok header_extension_ok (obj_get fs ''headerExtensions'')"
| "rtp_capabilities_ok _ \<longleftrightarrow> False"

fun rtp_parameters_ok :: "jsval \<Rightarrow> bool" where
  "rtp_parameters_ok (VObj fs) \<longleftrightarrow>
     (truthy (obj_get fs ''mid'') \<longrightarrow> is_str (obj_get fs ''mid'')) \<and>
     all_ok codec_parameters_ok (obj_get fs ''codecs'') \<and>
     all_ok extension_parameters_ok (obj_get fs ''headerExtensions'') \<and>
     all_ok encoding_ok (obj_get fs ''encodings'') \<and> rtcp_ok (obj_get fs ''rtcp'')"
| "rtp_parameters_ok _ \<longleftrightarrow> False"

fun sctp_stream_ok :: "jsval \<Rightarrow> bool" where
  "sctp_stream_ok (VObj fs) \<longleftrightarrow>
     is_num (obj_get fs ''streamId'') \<and> is_bool (obj_get fs ''ordered'') \<and>
     (truthy (obj_get fs ''maxPacketLifeTime'') \<longrightarrow> is_num (obj_get fs ''maxPacketLifeTime'') \<and>
       \<not> truthy (obj_get fs ''maxRetransmits'') \<and> \<not> truthy (obj_get fs ''ordered'')) \<and>
     (truthy (obj_get fs ''maxRetransmits'') \<longrightarrow> is_num (obj_get fs ''maxRetransmits'') \<and>
       \<not> truthy (obj_get fs ''ordered'')) \<and>
     (truthy (obj_get fs ''label'') \<longrightarrow> is_str (obj_get fs ''label'')) \<and>
     (truthy (obj_get fs ''protocol'') \<longrightarrow> is_str (obj_get fs ''protocol''))"
| "sctp_stream_ok _ \<longleftrightarrow> False"

text \<open>A validator normalises a type when its answers have it and the values of it are left alone.\<close>

locale normaliser =
  fixes f :: "'a \<Rightarrow> 'a result" and ok :: "'a \<Rightarrow> bool"
  assumes sound: "f x = Inr y \<Longrightarrow> ok y"
    and keeps: "ok y \<Longrightarrow> f y = Inr y"
begin

lemma settles: "f x = Inr y \<Longrightarrow> f y = Inr y"
  by (rule keeps [OF sound])

lemma range_iff: "(\<exists>x. f x = Inr y) \<longleftrightarrow> ok y"
  using sound keeps by blast

lemma mapr_sound: "mapr f xs = Inr ys \<Longrightarrow> list_all ok ys"
  by (induction xs arbitrary: ys) (auto simp: bindr_eq_Inr sound)

lemma mapr_keeps: "list_all ok ys \<Longrightarrow> mapr f ys = Inr ys"
  by (induction ys) (auto simp: keeps)

end

lemma type_testD:
  "is_str v \<Longrightarrow> \<exists>s. v = VStr s" "is_num v \<Longrightarrow> \<exists>n. v = VNum n" "is_bool v \<Longrightarrow> \<exists>b. v = VBool b"
  by (auto simp: is_str_def is_num_def is_bool_def split: jsval.splits)

lemma is_str_falsy: "is_str v \<Longrightarrow> \<not> truthy v \<Longrightarrow> v = VStr []"
  using type_testD(1) by fastforce

interpretation fb: normaliser validateRtcpFeedback feedback_ok
proof
  fix x y assume "validateRtcpFeedback x = Inr y"
  then show "feedback_ok y"
    by (auto simp: validateRtcpFeedback_def bindr_eq_Inr)
next
  fix y assume "feedback_ok y"
  then obtain fs where "y = VObj fs" by (cases y) auto
  with \<open>feedback_ok y\<close> show "validateRtcpFeedback y = Inr y"
    by (auto simp: validateRtcpFeedback_def dest: is_str_falsy intro: jm_set_same)
qed

lemma validate_parameters_sound: "validate_parameters b m fs = Inr gs \<Longrightarrow> parameters_ok b (VObj gs)"
  by (induction b m fs arbitrary: gs rule: validate_parameters.induct)
    (auto simp: bindr_eq_Inr Let_def parameters_ok_def split: if_splits)

lemma validate_parameters_keeps: "parameters_ok b (VObj gs) \<Longrightarrow> validate_parameters b m gs = Inr gs"
  by (induction b m gs rule: validate_parameters.induct) (auto simp: parameters_ok_def Let_def)

lemma parameters_okD: "parameters_ok b v \<Longrightarrow> \<exists>ps. v = VObj ps"
  by (auto simp: parameters_ok_def split: jsval.splits)

lemma all_okD: "all_ok P v \<Longrightarrow> \<exists>vs. v = VArr vs \<and> list_all P vs"
  by (auto simp: all_ok_def split: jsval.splits)

lemma all_ok_VArr [simp]: "all_ok P (VArr vs) = list_all P vs"
  by (simp add: all_ok_def)

lemma finish_codec_sound:
  assumes "finish_codec kind fs = Inr w"
  obtains gs where "w = VObj gs" "codec_tail_ok kind gs"
    "\<And>k. k \<notin> {''channels'', ''parameters'', ''rtcpFeedback''} \<Longrightarrow> obj_get gs k = obj_get fs k"
proof -
  obtain ps fbs where "validate_parameters True ''invalid codec parameter'' (parameters_of (set_channels kind fs)) = Inr ps"
    and "mapr validateRtcpFeedback (list_of (obj_get (jm_set ''parameters'' (VObj ps) (set_channels kind fs)) ''rtcpFeedback'')) = Inr fbs"
    and w: "w = VObj (jm_set ''rtcpFeedback'' (VArr fbs) (jm_set ''parameters'' (VObj ps) (set_channels kind fs)))"
    using assms by (auto simp: finish_codec_def Let_def bindr_eq_Inr)
  note ok = validate_parameters_sound [OF this(1)] fb.mapr_sound [OF this(2)]
  show thesis
    by (rule that [OF w]) (use ok in \<open>auto simp: codec_tail_ok_def set_channels_def\<close>)
qed

lemma finish_codec_keeps:
  assumes "codec_tail_ok kind gs"
  shows "finish_codec kind gs = Inr (VObj gs)"
proof -
  obtain ps fbs where ps: "obj_get gs ''parameters'' = VObj ps" "parameters_ok True (VObj ps)"
    and fbs: "obj_get gs ''rtcpFeedback'' = VArr fbs" "list_all feedback_ok fbs"
    using assms parameters_okD all_okD by (fastforce simp: codec_tail_ok_def)
  have "set_channels kind gs = gs"
    using assms by (auto simp: codec_tail_ok_def set_channels_def intro: jm_delete_absent)
  with ps fbs show ?thesis
    by (simp add: finish_codec_def Let_def parameters_of_def list_of_def validate_parameters_keeps
        fb.mapr_keeps jm_set_same)
qed

lemma mime_case_Inr:
  "(case v of
      VStr m \<Rightarrow> if m = [] then Inl e1 else (case mime_kind m of None \<Rightarrow> Inl e2 | Some kind \<Rightarrow> g kind)
    | _ \<Rightarrow> Inl e3) = Inr y \<longleftrightarrow>
   (\<exists>m kind. v = VStr m \<and> mime_kind m = Some kind \<and> g kind = Inr y)"
  by (cases v) (auto simp: mime_kind_def split: option.splits)

lemma mime_ok_VStr: "mime_ok v ok \<longleftrightarrow> (\<exists>m kind. v = VStr m \<and> mime_kind m = Some kind \<and> ok kind)"
  by (auto simp: mime_ok_def split: jsval.splits option.splits)

text \<open>The keys that finishing a codec does not touch are the ones its other checks read.\<close>

interpretation cap: normaliser validateRtpCodecCapability codec_capability_ok
proof
  fix x y assume "validateRtpCodecCapability x = Inr y"
  then obtain fs m kind where m: "obj_get fs ''mimeType'' = VStr m" "mime_kind m = Some kind"
    and ok: "\<not> truthy (obj_get fs ''preferredPayloadType'') \<or> is_num (obj_get fs ''preferredPayloadType'')"
      "is_num (obj_get fs ''clockRate'')"
    and fin: "finish_codec kind (jm_set ''kind'' (VStr (kind_str kind)) fs) = Inr y"
    unfolding validateRtpCodecCapability_def bindr_eq_Inr Let_def mime_case_Inr by auto
  from fin obtain gs where "y = VObj gs" "codec_tail_ok kind gs"
    "\<And>k. k \<notin> {''channels'', ''parameters'', ''rtcpFeedback''} \<Longrightarrow>
      obj_get gs k = obj_get (jm_set ''kind'' (VStr (kind_str kind)) fs) k"
    by (rule finish_codec_sound) blast
  with m ok show "codec_capability_ok y" by (simp add: mime_ok_VStr)
next
  fix y assume ok: "codec_capability_ok y"
  then obtain fs where y: "y = VObj fs" by (cases y) auto
  with ok show "validateRtpCodecCapability y = Inr y"
    unfolding validateRtpCodecCapability_def y
    by (auto simp: mime_ok_VStr mime_case_Inr jm_set_same finish_codec_keeps)
qed

interpretation cp: normaliser validateRtpCodecParameters codec_parameters_ok
proof
  fix x y assume "validateRtpCodecParameters x = Inr y"
  then obtain fs m kind where m: "obj_get fs ''mimeType'' = VStr m" "mime_kind m = Some kind"
    and ok: "is_num (obj_get fs ''payloadType'')" "is_num (obj_get fs ''clockRate'')"
    and fin: "finish_codec kind fs = Inr y"
    unfolding validateRtpCodecParameters_def bindr_eq_Inr mime_case_Inr by auto
  from fin obtain gs where "y = VObj gs" "codec_tail_ok kind gs"
    "\<And>k. k \<notin> {''channels'', ''parameters'', ''rtcpFeedback''} \<Longrightarrow> obj_get gs k = obj_get fs k"
    by (rule finish_codec_sound) blast
  with m ok show "codec_parameters_ok y" by (simp add: mime_ok_VStr)
next
  fix y assume ok: "codec_parameters_ok y"
  then obtain fs where y: "y = VObj fs" by (cases y) auto
  with ok show "validateRtpCodecParameters y = Inr y"
    unfolding validateRtpCodecParameters_def y
    by (auto simp: mime_ok_VStr mime_case_Inr finish_codec_keeps)
qed

lemma optional_flag_sound:
  assumes "optional_flag key m fs = Inr gs"
  shows "is_bool (obj_get gs key)" and "\<And>k. k \<noteq> key \<Longrightarrow> obj_get gs k = obj_get fs k"
  using assms by (auto simp: optional_flag_def bindr_eq_Inr split: if_splits)

lemma optional_flag_keeps: "is_bool (obj_get gs key) \<Longrightarrow> optional_flag key m gs = Inr gs"
  by (auto simp: optional_flag_def is_bool_def jm_set_same split: jsval.splits)

interpretation ext: normaliser validateRtpHeaderExtension header_extension_ok
proof
  fix x y assume "validateRtpHeaderExtension x = Inr y"
  then obtain fs gs where ok: "obj_get fs ''kind'' = VStr ''audio'' \<or> obj_get fs ''kind'' = VStr ''video''"
      "truthy (obj_get fs ''uri'') \<and> is_str (obj_get fs ''uri'')" "is_num (obj_get fs ''preferredId'')"
    and gs: "optional_flag ''preferredEncrypt'' ''invalid ext.preferredEncrypt'' fs = Inr gs"
    and y: "y = VObj gs \<and> truthy (obj_get gs ''direction'') \<and> is_str (obj_get gs ''direction'') \<or>
      y = VObj (jm_set ''direction'' (VStr ''sendrecv'') gs)"
    by (auto simp: validateRtpHeaderExtension_def bindr_eq_Inr split: if_splits)
  from y ok optional_flag_sound [OF gs] show "header_extension_ok y"
    by (auto simp del: truthy.simps) auto
next
  fix y assume ok: "header_extension_ok y"
  then obtain fs where "y = VObj fs" by (cases y) auto
  with ok show "validateRtpHeaderExtension y = Inr y"
    by (auto simp: validateRtpHeaderExtension_def optional_flag_keeps)
qed

interpretation exp: normaliser validateRtpHeaderExtensionParameters extension_parameters_ok
proof
  fix x y assume "validateRtpHeaderExtensionParameters x = Inr y"
  then obtain fs gs ps where "truthy (obj_get fs ''uri'') \<and> is_str (obj_get fs ''uri'')" "is_num (obj_get fs ''id'')"
    and gs: "optional_flag ''encrypt'' ''invalid ext.encrypt'' fs = Inr gs"
    and ps: "validate_parameters False ''invalid header extension parameter'' (parameters_of gs) = Inr ps"
    and "y = VObj (jm_set ''parameters'' (VObj ps) gs)"
    by (auto simp: validateRtpHeaderExtensionParameters_def bindr_eq_Inr)
  with optional_flag_sound [OF gs] validate_parameters_sound [OF ps] show "extension_parameters_ok y" by simp
next
  fix y assume ok: "extension_parameters_ok y"
  then obtain fs where y: "y = VObj fs" by (cases y) auto
  with ok obtain ps where "obj_get fs ''parameters'' = VObj ps" using parameters_okD by fastforce
  with ok y show "validateRtpHeaderExtensionParameters y = Inr y"
    by (simp add: validateRtpHeaderExtensionParameters_def optional_flag_keeps parameters_of_def
        validate_parameters_keeps jm_set_same)
qed

interpretation enc: normaliser validateRtpEncodingParameters encoding_ok
proof
  fix x y assume "validateRtpEncodingParameters x = Inr y"
  then obtain fs where "y = VObj (if truthy (obj_get fs ''dtx'') \<and> is_bool (obj_get fs ''dtx'') then fs
           else jm_set ''dtx'' (VBool False) fs)"
    and "\<not> truthy (obj_get fs ''ssrc'') \<or> is_num (obj_get fs ''ssrc'')"
      "\<not> truthy (obj_get fs ''rid'') \<or> is_str (obj_get fs ''rid'')"
      "\<not> truthy (obj_get fs ''rtx'') \<or> is_num (opt_prop (obj_get fs ''rtx'') ''ssrc'')"
      "\<not> truthy (obj_get fs ''scalabilityMode'') \<or> is_str (obj_get fs ''scalabilityMode'')"
    unfolding validateRtpEncodingParameters_def bindr_eq_Inr Let_def check_eq_Inr
    by (simp add: obj_get_if_set) blast
  then show "encoding_ok y" by simp
next
  fix y assume ok: "encoding_ok y"
  then obtain fs b where y: "y = VObj fs" "obj_get fs ''dtx'' = VBool b"
    using type_testD(3) by (cases y) fastforce+
  moreover have "typeof_object v" if "is_num (opt_prop v ''ssrc'')" for v
    using that by (cases v) auto
  ultimately show "validateRtpEncodingParameters y = Inr y"
    using ok by (cases b) (auto simp: validateRtpEncodingParameters_def Let_def jm_set_same)
qed

interpretation rtcp: normaliser validateRtcpParameters rtcp_ok
proof
  fix x y assume "validateRtcpParameters x = Inr y"
  then obtain fs where "\<not> truthy (obj_get fs ''cname'') \<or> is_str (obj_get fs ''cname'')"
    "y = VObj (if truthy (obj_get fs ''reducedSize'') \<and> is_bool (obj_get fs ''reducedSize'') then fs
         else jm_set ''reducedSize'' (VBool True) fs)"
    by (auto simp: validateRtcpParameters_def bindr_eq_Inr)
  then show "rtcp_ok y" using type_testD(3) [of "obj_get fs ''reducedSize''"] by auto
next
  fix y assume ok: "rtcp_ok y"
  then obtain fs where "y = VObj fs" by (cases y) auto
  with ok show "validateRtcpParameters y = Inr y"
    by (auto simp: validateRtcpParameters_def)
qed

text \<open>An array property.\<close>

lemma validate_list_frame: "validate_list f key m fs = Inr gs \<Longrightarrow> k \<noteq> key \<Longrightarrow> obj_get gs k = obj_get fs k"
  by (auto simp: validate_list_def bindr_eq_Inr split: jsval.splits if_splits)

lemma validate_list_sound: "normaliser f ok \<Longrightarrow> validate_list f key m fs = Inr gs \<Longrightarrow> all_ok ok (obj_get gs key)"
  using normaliser.mapr_sound [of f ok]
  by (auto simp: validate_list_def bindr_eq_Inr split: jsval.splits if_splits)

lemma validate_list_keeps: "normaliser f ok \<Longrightarrow> all_ok ok (obj_get fs key) \<Longrightarrow> validate_list f key m fs = Inr fs"
  using normaliser.mapr_keeps [of f ok]
  by (auto simp: all_ok_def validate_list_def jm_set_same split: jsval.splits)

lemmas list_sound =
  validate_list_sound [OF cap.normaliser_axioms] validate_list_sound [OF ext.normaliser_axioms]
  validate_list_sound [OF cp.normaliser_axioms] validate_list_sound [OF exp.normaliser_axioms]
  validate_list_sound [OF enc.normaliser_axioms]

lemmas list_keeps =
  validate_list_keeps [OF cap.normaliser_axioms] validate_list_keeps [OF ext.normaliser_axioms]
  validate_list_keeps [OF cp.normaliser_axioms] validate_list_keeps [OF exp.normaliser_axioms]
  validate_list_keeps [OF enc.normaliser_axioms]

lemma arr_case_Inr: "(case v of VArr _ \<Rightarrow> r | _ \<Rightarrow> Inl e) = Inr y \<longleftrightarrow> (\<exists>vs. v = VArr vs) \<and> r = Inr y"
  by (cases v) auto

interpretation caps: normaliser validateRtpCapabilities rtp_capabilities_ok
proof
  fix x y assume "validateRtpCapabilities x = Inr y"
  then obtain fs fs1 fs2 where
    1: "validate_list validateRtpCodecCapability ''codecs'' ''caps.codecs is not an array'' fs = Inr fs1" and
    2: "validate_list validateRtpHeaderExtension ''headerExtensions'' ''caps.headerExtensions is not an array'' fs1 = Inr fs2" and
    y: "y = VObj fs2"
    by (auto simp: validateRtpCapabilities_def bindr_eq_Inr)
  show "rtp_capabilities_ok y"
    using list_sound(1) [OF 1] list_sound(2) [OF 2] validate_list_frame [OF 2, of "''codecs''"] by (simp add: y)
next
  fix y assume ok: "rtp_capabilities_ok y"
  then obtain fs where "y = VObj fs" by (cases y) auto
  with ok show "validateRtpCapabilities y = Inr y"
    by (simp add: validateRtpCapabilities_def list_keeps)
qed

interpretation params: normaliser validateRtpParameters rtp_parameters_ok
proof
  fix x y assume "validateRtpParameters x = Inr y"
  then obtain fs fs1 fs2 fs3 rtcp where
    mid: "\<not> truthy (obj_get fs ''mid'') \<or> is_str (obj_get fs ''mid'')" and
    1: "validate_list validateRtpCodecParameters ''codecs'' ''missing params.codecs'' fs = Inr fs1" and
    2: "validate_list validateRtpHeaderExtensionParameters ''headerExtensions''
             ''params.headerExtensions is not an array'' fs1 = Inr fs2" and
    3: "validate_list validateRtpEncodingParameters ''encodings'' ''params.encodings is not an array'' fs2 = Inr fs3" and
    4: "validateRtcpParameters (if truthy (obj_get fs3 ''rtcp'') then obj_get fs3 ''rtcp'' else VObj []) = Inr rtcp" and
    y: "y = VObj (jm_set ''rtcp'' rtcp fs3)"
    unfolding validateRtpParameters_def bindr_eq_Inr arr_case_Inr check_eq_Inr by blast
  note frame = validate_list_frame [OF 1] validate_list_frame [OF 2] validate_list_frame [OF 3]
  show "rtp_parameters_ok y"
    using mid frame list_sound(3) [OF 1] list_sound(4) [OF 2] list_sound(5) [OF 3] rtcp.sound [OF 4]
    by (simp add: y)
next
  fix y assume ok: "rtp_parameters_ok y"
  then obtain fs where y: "y = VObj fs" by (cases y) auto
  obtain vs rs where "obj_get fs ''codecs'' = VArr vs" "obj_get fs ''rtcp'' = VObj rs"
    using ok all_okD by (cases "obj_get fs ''rtcp''") (fastforce simp: y)+
  with ok rtcp.keeps [of "VObj rs"] show "validateRtpParameters y = Inr y"
    by (auto simp: y validateRtpParameters_def list_keeps jm_set_same)
qed

lemma is_bool_truthy: "is_bool v \<Longrightarrow> truthy v \<longleftrightarrow> v = VBool True"
  using type_testD(3) [of v] by auto

interpretation sctp: normaliser validateSctpStreamParameters sctp_stream_ok
proof
  fix x y assume v: "validateSctpStreamParameters x = Inr y"
  then obtain fs where "as_props x ''params is not an object'' = Inr fs"
    by (auto simp: validateSctpStreamParameters_def bindr_eq_Inr)
  with v show "sctp_stream_ok y"
    by (cases "is_bool (obj_get fs ''ordered'')")
      (auto simp: validateSctpStreamParameters_def Let_def bindr_eq_Inr obj_get_if_set split: if_splits)
next
  fix y assume ok: "sctp_stream_ok y"
  then obtain fs where "y = VObj fs" by (cases y) auto
  with ok show "validateSctpStreamParameters y = Inr y"
    by (auto simp: validateSctpStreamParameters_def Let_def)
qed

section \<open>Theorems\<close>

text \<open>C26: The values \<open>validateRtpParameters\<close> and \<open>validateRtpCapabilities\<close> hand back are exactly the
  normalised ones: every mandatory field is there with its type, every optional one is filled
  with its default or has its type, down to the codecs, their parameters and feedback, and
  \<open>rtcp.reducedSize\<close> is true. A value comes back as it is exactly when it is normalised, so validating a
  second time changes nothing. A well-typed value need not be normalised: an explicit \<open>reducedSize: false\<close>
  is overwritten with true, although the comment in the code says that this is for an unset one.\<close>

theorem validators_exact:
  "{w. \<exists>v. validateRtpParameters v = Inr w} = {w. rtp_parameters_ok w} \<and>
   {w. validateRtpParameters w = Inr w} = {w. rtp_parameters_ok w} \<and>
   {w. \<exists>v. validateRtpCapabilities v = Inr w} = {w. rtp_capabilities_ok w} \<and>
   {w. validateRtpCapabilities w = Inr w} = {w. rtp_capabilities_ok w}"
  using params.range_iff params.settles params.keeps params.sound
    caps.range_iff caps.settles caps.keeps caps.sound by blast

text \<open>An explicit \<open>reducedSize: false\<close> does not survive validation, although the comment says that the
  default is for an unset one.\<close>

lemma reducedSize_false_overwritten:
  "validateRtcpParameters (VObj [(''reducedSize'', VBool False)]) = Inr (VObj [(''reducedSize'', VBool True)])"
  by (simp add: validateRtcpParameters_def check_def)

text \<open>The values \<open>validateSctpStreamParameters\<close> hands back are exactly those with a stream id, a boolean
  \<open>ordered\<close>, at most one of the two limits of partial reliability, and none of them on an ordered
  stream; such a value comes back unchanged.\<close>

theorem sctp_reliability_exact:
  "{w. \<exists>v. validateSctpStreamParameters v = Inr w} = {w. sctp_stream_ok w} \<and>
   {w. validateSctpStreamParameters w = Inr w} = {w. sctp_stream_ok w}"
  using sctp.range_iff sctp.settles sctp.keeps sctp.sound by blast

lemma codec_parameters_ok_payload:
  "codec_parameters_ok (VObj fs) \<Longrightarrow> codec_parameters_ok (VObj (jm_set ''payloadType'' (VNum n) fs))"
  by (auto simp: mime_ok_def codec_tail_ok_def split: jsval.splits option.splits)

lemma generateProbatorRtpParameters_cases:
  assumes "generateProbatorRtpParameters p = Inr r"
  obtains fs first rest exts where "validateRtpParameters p = Inr (VObj fs)" "obj_get fs ''codecs'' = VArr (VObj first # rest)"
    "codec_parameters_ok (VObj first)" "obj_get fs ''headerExtensions'' = VArr exts" "list_all extension_parameters_ok exts"
    "r = VObj
        [(''mid'', VStr RTP_PROBATOR_MID),
         (''codecs'', VArr [VObj (jm_set ''payloadType'' (VNum RTP_PROBATOR_CODEC_PAYLOAD_TYPE) first)]),
         (''headerExtensions'', VArr exts),
         (''encodings'', VArr [VObj [(''ssrc'', VNum RTP_PROBATOR_SSRC)]]),
         (''rtcp'', VObj [(''cname'', VStr ''probator'')])]"
proof -
  from assms obtain v where v: "validateRtpParameters p = Inr v"
    by (auto simp: generateProbatorRtpParameters_def bindr_eq_Inr)
  then have ok: "rtp_parameters_ok v" by (rule params.sound)
  then obtain fs where fs: "v = VObj fs" by (cases v) auto
  obtain vs exts where vs: "obj_get fs ''codecs'' = VArr vs" "list_all codec_parameters_ok vs"
    "obj_get fs ''headerExtensions'' = VArr exts" "list_all extension_parameters_ok exts"
    using ok all_okD fs by (metis rtp_parameters_ok.simps(1))
  with assms v fs obtain first rest where "vs = VObj first # rest"
    by (auto simp: generateProbatorRtpParameters_def list_of_def split: list.splits jsval.splits)
  with assms v fs vs show thesis
    by (intro that) (auto simp: generateProbatorRtpParameters_def list_of_def)
qed

text \<open>The parameters made for the probator are themselves valid: validating them succeeds and leaves one
  codec, the first of the reference video with payload type 127, on one encoding with SSRC 1234.\<close>

theorem probator_parameters_valid:
  assumes "generateProbatorRtpParameters p = Inr r"
  shows "\<exists>w video codec1.
     validateRtpParameters r = Inr w \<and> validateRtpParameters p = Inr video \<and>
     list_of (opt_prop video ''codecs'') \<noteq> [] \<and> hd (list_of (opt_prop video ''codecs'')) = VObj codec1 \<and>
     opt_prop w ''codecs'' = VArr [VObj (jm_set ''payloadType'' (VNum (Fin 127)) codec1)] \<and>
     opt_prop w ''headerExtensions'' = opt_prop video ''headerExtensions'' \<and>
     opt_prop w ''encodings'' = VArr [VObj [(''ssrc'', VNum (Fin 1234)), (''dtx'', VBool False)]] \<and>
     opt_prop w ''mid'' = VStr ''probator''"
  using assms
proof (rule generateProbatorRtpParameters_cases)
  fix fs first rest exts
  assume v: "validateRtpParameters p = Inr (VObj fs)" "obj_get fs ''codecs'' = VArr (VObj first # rest)"
      "obj_get fs ''headerExtensions'' = VArr exts"
    and ok: "codec_parameters_ok (VObj first)" "list_all extension_parameters_ok exts"
    and r: "r = VObj
        [(''mid'', VStr RTP_PROBATOR_MID),
         (''codecs'', VArr [VObj (jm_set ''payloadType'' (VNum RTP_PROBATOR_CODEC_PAYLOAD_TYPE) first)]),
         (''headerExtensions'', VArr exts),
         (''encodings'', VArr [VObj [(''ssrc'', VNum RTP_PROBATOR_SSRC)]]),
         (''rtcp'', VObj [(''cname'', VStr ''probator'')])]"
  note c = cp.keeps [OF codec_parameters_ok_payload [OF ok(1)], of "Fin 127"]
  note e = exp.mapr_keeps [OF ok(2)]
  from c e have "validateRtpParameters r = Inr (VObj
        [(''mid'', VStr RTP_PROBATOR_MID),
         (''codecs'', VArr [VObj (jm_set ''payloadType'' (VNum (Fin 127)) first)]),
         (''headerExtensions'', VArr exts),
         (''encodings'', VArr [VObj [(''ssrc'', VNum (Fin 1234)), (''dtx'', VBool False)]]),
         (''rtcp'', VObj [(''cname'', VStr ''probator''), (''reducedSize'', VBool True)])])"
    by (simp add: r validateRtpParameters_def validate_list_def RTP_PROBATOR_MID_def RTP_PROBATOR_SSRC_def
        RTP_PROBATOR_CODEC_PAYLOAD_TYPE_def validateRtpEncodingParameters_def validateRtcpParameters_def check_def)
  with v show ?thesis
    by (intro exI conjI) (assumption | simp add: list_of_def RTP_PROBATOR_MID_def)+
qed

definition probator_example :: jsval where
  "probator_example = VObj
     [(''codecs'', VArr [VObj [(''mimeType'', VStr ''video/VP8''), (''payloadType'', VNum (Fin 96)), (''clockRate'', VNum (Fin 90000))]])]"

theorem probator_parameters_valid_witness:
  "\<exists>r w. generateProbatorRtpParameters probator_example = Inr r \<and> validateRtpParameters r = Inr w"
proof -
  have "is_ok (generateProbatorRtpParameters probator_example)"
    by code_simp
  then obtain r where "generateProbatorRtpParameters probator_example = Inr r"
    by (cases "generateProbatorRtpParameters probator_example") auto
  with probator_parameters_valid [OF this] show ?thesis by blast
qed

end
