(* ===== verification/Ortc.thy ===== *)
theory Ortc
  imports OrtcValidate
begin

text \<open>
  The negotiation of \<open>ortc.js\<close>, over validated capabilities: codec and header extension matching,
  the extended capabilities that pair the local side with the remote one, and the receiving
  capabilities and sending parameters derived from them. The library \<open>h264-profile-level-id\<close> is a
  record of two functions. \<open>matchCodecs\<close> with \<open>modify\<close> writes to both codecs, so the lists of
  codecs are passed along; the extended codec keeps a reference to the parameters of the local one,
  which is why it is read from the list as the matching left it.
\<close>

section \<open>Data\<close>

record rtcp_feedback =
  fb_type :: string
  fb_parameter :: "string option"

record codec_base =
  cd_mimeType :: string
  cd_clockRate :: number
  cd_channels :: "number option"
  cd_parameters :: jsobj
  cd_rtcpFeedback :: "rtcp_feedback list"

record codec_capability = codec_base +
  cc_kind :: track_kind
  cc_preferredPayloadType :: "number option"

record codec_parameters = codec_base +
  cp_payloadType :: "number option"

record header_extension =
  he_kind :: "track_kind option"
  he_uri :: string
  he_preferredId :: number
  he_preferredEncrypt :: bool
  he_direction :: string

record rtp_capabilities =
  rc_codecs :: "codec_capability list"
  rc_headerExtensions :: "header_extension list"

record extended_codec =
  xc_mimeType :: string
  xc_kind :: track_kind
  xc_clockRate :: number
  xc_channels :: "number option"
  xc_localPayloadType :: "number option"
  xc_localRtxPayloadType :: "number option"
  xc_remotePayloadType :: "number option"
  xc_remoteRtxPayloadType :: "number option"
  xc_localParameters :: jsobj
  xc_remoteParameters :: jsobj
  xc_rtcpFeedback :: "rtcp_feedback list"

datatype direction = Sendrecv | Sendonly | Recvonly | Inactive

record extended_extension =
  xe_kind :: "track_kind option"
  xe_uri :: string
  xe_sendId :: number
  xe_recvId :: number
  xe_encrypt :: bool
  xe_direction :: direction

record extended_capabilities =
  xr_codecs :: "extended_codec list"
  xr_headerExtensions :: "extended_extension list"

record header_extension_parameters =
  hp_uri :: string
  hp_id :: number
  hp_encrypt :: bool
  hp_parameters :: jsobj

record rtp_parameters =
  rp_mid :: "string option"
  rp_codecs :: "codec_parameters list"
  rp_headerExtensions :: "header_extension_parameters list"
  rp_encodings :: "jsval list"
  rp_rtcp :: jsobj

text \<open>What \<open>h264-profile-level-id\<close> provides: the answer may be undefined, or the call may throw.\<close>

record h264 =
  isSameProfile :: "jsobj \<Rightarrow> jsobj \<Rightarrow> bool"
  generateProfileLevelIdStringForAnswer :: "jsobj \<Rightarrow> jsobj \<Rightarrow> string option result"

section \<open>Matching\<close>

text \<open>\<open>===\<close> on primitive values.\<close>

definition strict_eq :: "jsval \<Rightarrow> jsval \<Rightarrow> bool" where
  "strict_eq a b \<longleftrightarrow> a = b \<and> a \<noteq> VNum NaN"

definition or_zero :: "jsval \<Rightarrow> jsval" where
  "or_zero v = (if truthy v then v else VNum (Fin 0))"

text \<open>The test of \<open>.+/rtx$\<close>, ignoring case, anywhere in the string.\<close>

definition rtx_mime :: "string \<Rightarrow> bool" where
  "rtx_mime m \<longleftrightarrow>
     length m \<ge> 5 \<and> to_lower (drop (length m - 4) m) = ''/rtx'' \<and> \<not> line_end (m ! (length m - 5))"

definition isRtxCodec :: "'a codec_base_scheme option \<Rightarrow> bool" where
  "isRtxCodec c = (case c of None \<Rightarrow> False | Some d \<Rightarrow> rtx_mime (cd_mimeType d))"

definition PROFILE_LEVEL_ID :: string where
  "PROFILE_LEVEL_ID = ''profile-level-id''"

definition set_profile :: "string option \<Rightarrow> 'a codec_base_scheme \<Rightarrow> 'a codec_base_scheme" where
  "set_profile selected c =
     (case selected of
        Some s \<Rightarrow> if s \<noteq> [] then c\<lparr>cd_parameters := jm_set PROFILE_LEVEL_ID (VStr s) (cd_parameters c)\<rparr>
          else c\<lparr>cd_parameters := jm_delete PROFILE_LEVEL_ID (cd_parameters c)\<rparr>
      | None \<Rightarrow> c\<lparr>cd_parameters := jm_delete PROFILE_LEVEL_ID (cd_parameters c)\<rparr>)"

text \<open>Answers whether the codecs match, and both of them as they are left.\<close>

definition matchCodecs ::
  "h264 \<Rightarrow> 'a codec_base_scheme \<Rightarrow> 'b codec_base_scheme \<Rightarrow> bool \<Rightarrow> bool
    \<Rightarrow> bool \<times> 'a codec_base_scheme \<times> 'b codec_base_scheme" where
  "matchCodecs lib aCodec bCodec strict modify =
     (let aMimeType = to_lower (cd_mimeType aCodec);
          bMimeType = to_lower (cd_mimeType bCodec);
          aParams = cd_parameters aCodec;
          bParams = cd_parameters bCodec;
          no = (False, aCodec, bCodec);
          yes = (True, aCodec, bCodec)
      in if aMimeType \<noteq> bMimeType then no
         else if \<not> js_eq (cd_clockRate aCodec) (cd_clockRate bCodec) then no
         else if \<not> strict_eq (opt_num (cd_channels aCodec)) (opt_num (cd_channels bCodec)) then no
         else if aMimeType = ''video/h264'' then
           (if \<not> strict then yes
            else if \<not> strict_eq (or_zero (obj_get aParams ''packetization-mode'')) (or_zero (obj_get bParams ''packetization-mode''))
              then no
            else if \<not> isSameProfile lib aParams bParams then no
            else (case generateProfileLevelIdStringForAnswer lib aParams bParams of
                Inl _ \<Rightarrow> no
              | Inr selected \<Rightarrow> if modify then (True, set_profile selected aCodec, set_profile selected bCodec) else yes))
         else if aMimeType = ''video/vp9'' then
           (if strict \<and> \<not> strict_eq (or_zero (obj_get aParams ''profile-id'')) (or_zero (obj_get bParams ''profile-id''))
            then no else yes)
         else yes)"

definition matchHeaderExtensions :: "header_extension \<Rightarrow> header_extension \<Rightarrow> bool" where
  "matchHeaderExtensions aExt bExt =
     (if he_kind aExt \<noteq> None \<and> he_kind bExt \<noteq> None \<and> he_kind aExt \<noteq> he_kind bExt then False
      else if he_uri aExt \<noteq> he_uri bExt then False else True)"

definition empty_parameter :: "rtcp_feedback \<Rightarrow> bool" where
  "empty_parameter fb \<longleftrightarrow> fb_parameter fb = None \<or> fb_parameter fb = Some []"

fun reduceRtcpFeedback_loop :: "rtcp_feedback list \<Rightarrow> rtcp_feedback list \<Rightarrow> rtcp_feedback list" where
  "reduceRtcpFeedback_loop [] bs = []"
| "reduceRtcpFeedback_loop (aFb # as) bs =
     (case find (\<lambda>bFb. fb_type bFb = fb_type aFb \<and>
          (fb_parameter bFb = fb_parameter aFb \<or> empty_parameter bFb \<and> empty_parameter aFb)) bs of
        None \<Rightarrow> reduceRtcpFeedback_loop as bs
      | Some bFb \<Rightarrow> bFb # reduceRtcpFeedback_loop as bs)"

definition reduceRtcpFeedback :: "'a codec_base_scheme \<Rightarrow> 'b codec_base_scheme \<Rightarrow> rtcp_feedback list" where
  "reduceRtcpFeedback codecA codecB = reduceRtcpFeedback_loop (cd_rtcpFeedback codecA) (cd_rtcpFeedback codecB)"

section \<open>Extended capabilities\<close>

text \<open>\<open>find\<close> over the local codecs: the index of the first that matches, and what the match wrote.\<close>

fun find_local ::
  "h264 \<Rightarrow> codec_capability list \<Rightarrow> codec_capability \<Rightarrow> (nat \<times> codec_capability list \<times> codec_capability) option" where
  "find_local lib [] remoteCodec = None"
| "find_local lib (localCodec # ls) remoteCodec =
     (case matchCodecs lib localCodec remoteCodec True True of
        (True, localCodec', remoteCodec') \<Rightarrow> Some (0, localCodec' # ls, remoteCodec')
      | (False, _, _) \<Rightarrow>
          (case find_local lib ls remoteCodec of
             None \<Rightarrow> None
           | Some (i, ls', remoteCodec') \<Rightarrow> Some (Suc i, localCodec # ls', remoteCodec')))"

text \<open>The loop over the remote codecs: the pairs it matched, and the two lists as it leaves them.\<close>

fun match_media ::
  "h264 \<Rightarrow> codec_capability list \<Rightarrow> codec_capability list
    \<Rightarrow> (nat \<times> codec_capability) list \<times> codec_capability list \<times> codec_capability list" where
  "match_media lib ls [] = ([], ls, [])"
| "match_media lib ls (remoteCodec # rs) =
     (if isRtxCodec (Some remoteCodec)
      then (case match_media lib ls rs of (ps, ls', rs') \<Rightarrow> (ps, ls', remoteCodec # rs'))
      else (case find_local lib ls remoteCodec of
          None \<Rightarrow> (case match_media lib ls rs of (ps, ls', rs') \<Rightarrow> (ps, ls', remoteCodec # rs'))
        | Some (i, ls1, remoteCodec1) \<Rightarrow>
            (case match_media lib ls1 rs of (ps, ls', rs') \<Rightarrow> ((i, remoteCodec1) # ps, ls', remoteCodec1 # rs'))))"

definition extend_codec :: "codec_capability \<Rightarrow> codec_capability \<Rightarrow> extended_codec" where
  "extend_codec matchingLocalCodec remoteCodec =
     \<lparr>xc_mimeType = cd_mimeType matchingLocalCodec,
      xc_kind = cc_kind matchingLocalCodec,
      xc_clockRate = cd_clockRate matchingLocalCodec,
      xc_channels = cd_channels matchingLocalCodec,
      xc_localPayloadType = cc_preferredPayloadType matchingLocalCodec,
      xc_localRtxPayloadType = None,
      xc_remotePayloadType = cc_preferredPayloadType remoteCodec,
      xc_remoteRtxPayloadType = None,
      xc_localParameters = cd_parameters matchingLocalCodec,
      xc_remoteParameters = cd_parameters remoteCodec,
      xc_rtcpFeedback = reduceRtcpFeedback matchingLocalCodec remoteCodec\<rparr>"

definition find_rtx :: "codec_capability list \<Rightarrow> number option \<Rightarrow> codec_capability option" where
  "find_rtx cs payloadType =
     find (\<lambda>c. isRtxCodec (Some c) \<and> strict_eq (obj_get (cd_parameters c) ''apt'') (opt_num payloadType)) cs"

definition match_rtx :: "codec_capability list \<Rightarrow> codec_capability list \<Rightarrow> extended_codec \<Rightarrow> extended_codec" where
  "match_rtx ls rs extendedCodec =
     (case (find_rtx ls (xc_localPayloadType extendedCodec), find_rtx rs (xc_remotePayloadType extendedCodec)) of
        (Some localRtx, Some remoteRtx) \<Rightarrow>
          extendedCodec\<lparr>xc_localRtxPayloadType := cc_preferredPayloadType localRtx,
            xc_remoteRtxPayloadType := cc_preferredPayloadType remoteRtx\<rparr>
      | _ \<Rightarrow> extendedCodec)"

definition extended_direction :: "string \<Rightarrow> direction" where
  "extended_direction d =
     (if d = ''sendrecv'' then Sendrecv
      else if d = ''recvonly'' then Sendonly
      else if d = ''sendonly'' then Recvonly
      else if d = ''inactive'' then Inactive
      else Sendrecv)"

definition extend_extension :: "header_extension list \<Rightarrow> header_extension \<Rightarrow> extended_extension list" where
  "extend_extension localExts remoteExt =
     (case find (\<lambda>localExt. matchHeaderExtensions localExt remoteExt) localExts of
        None \<Rightarrow> []
      | Some matchingLocalExt \<Rightarrow>
          [\<lparr>xe_kind = he_kind remoteExt,
            xe_uri = he_uri remoteExt,
            xe_sendId = he_preferredId matchingLocalExt,
            xe_recvId = he_preferredId remoteExt,
            xe_encrypt = he_preferredEncrypt matchingLocalExt,
            xe_direction = extended_direction (he_direction remoteExt)\<rparr>])"

definition getExtendedRtpCapabilities :: "h264 \<Rightarrow> rtp_capabilities \<Rightarrow> rtp_capabilities \<Rightarrow> extended_capabilities" where
  "getExtendedRtpCapabilities lib localCaps remoteCaps =
     (case match_media lib (rc_codecs localCaps) (rc_codecs remoteCaps) of
        (ps, ls, rs) \<Rightarrow>
          \<lparr>xr_codecs = map (match_rtx ls rs) (map (\<lambda>(i, remoteCodec). extend_codec (ls ! i) remoteCodec) ps),
           xr_headerExtensions =
             concat (map (extend_extension (rc_headerExtensions localCaps)) (rc_headerExtensions remoteCaps))\<rparr>)"

section \<open>What is derived from them\<close>

text \<open>A payload type used as a condition.\<close>

definition present :: "number option \<Rightarrow> bool" where
  "present x = truthy (opt_num x)"

definition rtx_mime_of :: "track_kind \<Rightarrow> string" where
  "rtx_mime_of kind = kind_str kind @ ''/rtx''"

definition recv_codecs :: "extended_codec \<Rightarrow> codec_capability list" where
  "recv_codecs extendedCodec =
     (\<lparr>cd_mimeType = xc_mimeType extendedCodec,
       cd_clockRate = xc_clockRate extendedCodec,
       cd_channels = xc_channels extendedCodec,
       cd_parameters = xc_localParameters extendedCodec,
       cd_rtcpFeedback = xc_rtcpFeedback extendedCodec,
       cc_kind = xc_kind extendedCodec,
       cc_preferredPayloadType = xc_remotePayloadType extendedCodec\<rparr> #
      (if \<not> present (xc_remoteRtxPayloadType extendedCodec) then []
       else [\<lparr>cd_mimeType = rtx_mime_of (xc_kind extendedCodec),
              cd_clockRate = xc_clockRate extendedCodec,
              cd_channels = None,
              cd_parameters = [(''apt'', opt_num (xc_remotePayloadType extendedCodec))],
              cd_rtcpFeedback = [],
              cc_kind = xc_kind extendedCodec,
              cc_preferredPayloadType = xc_remoteRtxPayloadType extendedCodec\<rparr>]))"

definition direction_str :: "direction \<Rightarrow> string" where
  "direction_str d =
     (case d of Sendrecv \<Rightarrow> ''sendrecv'' | Sendonly \<Rightarrow> ''sendonly'' | Recvonly \<Rightarrow> ''recvonly'' | Inactive \<Rightarrow> ''inactive'')"

definition getRecvRtpCapabilities :: "extended_capabilities \<Rightarrow> rtp_capabilities" where
  "getRecvRtpCapabilities e =
     \<lparr>rc_codecs = concat (map recv_codecs (xr_codecs e)),
      rc_headerExtensions =
        map (\<lambda>x. \<lparr>he_kind = xe_kind x, he_uri = xe_uri x, he_preferredId = xe_recvId x,
              he_preferredEncrypt = xe_encrypt x, he_direction = direction_str (xe_direction x)\<rparr>)
          (filter (\<lambda>x. \<not> (xe_direction x \<noteq> Sendrecv \<and> xe_direction x \<noteq> Recvonly)) (xr_headerExtensions e))\<rparr>"

text \<open>The codecs sent for one extended codec, with the parameters of the side that is asked for.\<close>

definition send_codecs :: "(extended_codec \<Rightarrow> jsobj) \<Rightarrow> extended_codec \<Rightarrow> codec_parameters list" where
  "send_codecs params extendedCodec =
     (\<lparr>cd_mimeType = xc_mimeType extendedCodec,
       cd_clockRate = xc_clockRate extendedCodec,
       cd_channels = xc_channels extendedCodec,
       cd_parameters = params extendedCodec,
       cd_rtcpFeedback = xc_rtcpFeedback extendedCodec,
       cp_payloadType = xc_localPayloadType extendedCodec\<rparr> #
      (if present (xc_localRtxPayloadType extendedCodec)
       then [\<lparr>cd_mimeType = rtx_mime_of (xc_kind extendedCodec),
              cd_clockRate = xc_clockRate extendedCodec,
              cd_channels = None,
              cd_parameters = [(''apt'', opt_num (xc_localPayloadType extendedCodec))],
              cd_rtcpFeedback = [],
              cp_payloadType = xc_localRtxPayloadType extendedCodec\<rparr>]
       else []))"

definition send_extensions :: "track_kind \<Rightarrow> extended_capabilities \<Rightarrow> header_extension_parameters list" where
  "send_extensions kind e =
     map (\<lambda>x. \<lparr>hp_uri = xe_uri x, hp_id = xe_sendId x, hp_encrypt = xe_encrypt x, hp_parameters = []\<rparr>)
       (filter (\<lambda>x. \<not> (xe_kind x \<noteq> None \<and> xe_kind x \<noteq> Some kind \<or>
            xe_direction x \<noteq> Sendrecv \<and> xe_direction x \<noteq> Sendonly)) (xr_headerExtensions e))"

definition getSendingRtpParameters :: "track_kind \<Rightarrow> extended_capabilities \<Rightarrow> rtp_parameters" where
  "getSendingRtpParameters kind e =
     \<lparr>rp_mid = None,
      rp_codecs = concat (map (send_codecs xc_localParameters) (filter (\<lambda>c. xc_kind c = kind) (xr_codecs e))),
      rp_headerExtensions = send_extensions kind e,
      rp_encodings = [],
      rp_rtcp = []\<rparr>"

definition TRANSPORT_CC_URI :: string where
  "TRANSPORT_CC_URI = ''http://www.ietf.org/id/draft-holmer-rmcat-transport-wide-cc-extensions-01''"

definition ABS_SEND_TIME_URI :: string where
  "ABS_SEND_TIME_URI = ''http://www.webrtc.org/experiments/rtp-hdrext/abs-send-time''"

definition reduce_feedback :: "header_extension_parameters list \<Rightarrow> rtcp_feedback list \<Rightarrow> rtcp_feedback list" where
  "reduce_feedback exts fbs =
     (if list_ex (\<lambda>x. hp_uri x = TRANSPORT_CC_URI) exts then filter (\<lambda>fb. fb_type fb \<noteq> ''goog-remb'') fbs
      else if list_ex (\<lambda>x. hp_uri x = ABS_SEND_TIME_URI) exts then filter (\<lambda>fb. fb_type fb \<noteq> ''transport-cc'') fbs
      else filter (\<lambda>fb. fb_type fb \<noteq> ''transport-cc'' \<and> fb_type fb \<noteq> ''goog-remb'') fbs)"

definition getSendingRemoteRtpParameters :: "track_kind \<Rightarrow> extended_capabilities \<Rightarrow> rtp_parameters" where
  "getSendingRemoteRtpParameters kind e =
     \<lparr>rp_mid = None,
      rp_codecs = map (\<lambda>c. c\<lparr>cd_rtcpFeedback := reduce_feedback (send_extensions kind e) (cd_rtcpFeedback c)\<rparr>)
        (concat (map (send_codecs xc_remoteParameters) (filter (\<lambda>c. xc_kind c = kind) (xr_codecs e)))),
      rp_headerExtensions = send_extensions kind e,
      rp_encodings = [],
      rp_rtcp = []\<rparr>"

text \<open>An element of an array, undefined past its end.\<close>

definition item :: "'a list \<Rightarrow> nat \<Rightarrow> 'a option" where
  "item xs i = (if i < length xs then Some (xs ! i) else None)"

definition with_rtx :: "'a codec_base_scheme list \<Rightarrow> nat \<Rightarrow> 'a codec_base_scheme option list" where
  "with_rtx codecs idx = item codecs idx # (if isRtxCodec (item codecs (idx + 1)) then [item codecs (idx + 1)] else [])"

fun first_match :: "h264 \<Rightarrow> 'a codec_base_scheme list \<Rightarrow> codec_capability \<Rightarrow> nat option" where
  "first_match lib [] capCodec = None"
| "first_match lib (c # cs) capCodec =
     (if fst (matchCodecs lib c capCodec True False) then Some 0
      else map_option Suc (first_match lib cs capCodec))"

definition reduceCodecs ::
  "h264 \<Rightarrow> codec_parameters list \<Rightarrow> codec_capability option \<Rightarrow> codec_parameters option list result" where
  "reduceCodecs lib codecs capCodec =
     (case capCodec of
        None \<Rightarrow> Inr (with_rtx codecs 0)
      | Some cap \<Rightarrow>
          (case first_match lib codecs cap of
             Some idx \<Rightarrow> Inr (with_rtx codecs idx)
           | None \<Rightarrow> Inl (TypeError ''no matching codec found'')))"

definition canSend :: "track_kind \<Rightarrow> extended_capabilities \<Rightarrow> bool" where
  "canSend kind e = list_ex (\<lambda>c. xc_kind c = kind) (xr_codecs e)"

definition canReceive :: "jsval \<Rightarrow> extended_capabilities \<Rightarrow> bool result" where
  "canReceive rtpParameters e =
     bindr (validateRtpParameters rtpParameters) (\<lambda>p.
       case list_of (opt_prop p ''codecs'') of
         [] \<Rightarrow> Inr False
       | firstMediaCodec # _ \<Rightarrow>
           Inr (list_ex (\<lambda>c. strict_eq (opt_num (xc_remotePayloadType c)) (opt_prop firstMediaCodec ''payloadType''))
             (xr_codecs e)))"

section \<open>What matching leaves alone\<close>

text \<open>Matching writes nothing but the profile level of H264 codecs.\<close>

definition same_but_profile :: "'a codec_base_scheme \<Rightarrow> 'a codec_base_scheme \<Rightarrow> bool" where
  "same_but_profile c d \<longleftrightarrow>
     d = c\<lparr>cd_parameters := cd_parameters d\<rparr> \<and>
     jm_delete PROFILE_LEVEL_ID (cd_parameters d) = jm_delete PROFILE_LEVEL_ID (cd_parameters c) \<and>
     (to_lower (cd_mimeType c) \<noteq> ''video/h264'' \<longrightarrow> d = c)"

definition codec_compatible :: "'a codec_base_scheme \<Rightarrow> 'b codec_base_scheme \<Rightarrow> bool" where
  "codec_compatible a b \<longleftrightarrow>
     to_lower (cd_mimeType a) = to_lower (cd_mimeType b) \<and> cd_clockRate a = cd_clockRate b \<and> cd_channels a = cd_channels b"

lemma jm_delete_jm_set [simp]: "jm_delete k (jm_set k v m) = jm_delete k m"
  by (induction m) (auto simp: jm_delete_def)

lemma jm_delete_twice [simp]: "jm_delete k (jm_delete k m) = jm_delete k m"
  by (simp add: jm_delete_def)

lemma obj_get_jm_deleted: "jm_delete k fs = jm_delete k gs \<Longrightarrow> k' \<noteq> k \<Longrightarrow> obj_get fs k' = obj_get gs k'"
  by (metis obj_get_jm_delete)

lemma same_but_profile_refl [simp]: "same_but_profile c c"
  by (simp add: same_but_profile_def)

lemma same_but_profile_sel:
  assumes "same_but_profile c d"
  shows "cd_mimeType d = cd_mimeType c" "cd_clockRate d = cd_clockRate c" "cd_channels d = cd_channels c"
    "cd_rtcpFeedback d = cd_rtcpFeedback c" "codec_base.more d = codec_base.more c"
  using assms unfolding same_but_profile_def by (metis codec_base.select_convs codec_base.update_convs(4) codec_base.surjective)+

lemma same_but_profile_cc:
  fixes c d :: codec_capability
  assumes "same_but_profile c d"
  shows "cc_kind d = cc_kind c" "cc_preferredPayloadType d = cc_preferredPayloadType c"
proof -
  have d: "d = c\<lparr>cd_parameters := cd_parameters d\<rparr>" using assms by (simp add: same_but_profile_def)
  show "cc_kind d = cc_kind c" by (subst d) simp
  show "cc_preferredPayloadType d = cc_preferredPayloadType c" by (subst d) simp
qed

lemma same_but_profile_params:
  "same_but_profile c d \<Longrightarrow> jm_delete PROFILE_LEVEL_ID (cd_parameters d) = jm_delete PROFILE_LEVEL_ID (cd_parameters c)"
  by (simp add: same_but_profile_def)

lemmas same_but_profile_simps = same_but_profile_sel same_but_profile_cc same_but_profile_params

lemma same_but_profile_trans:
  assumes "same_but_profile c d" "same_but_profile d e"
  shows "same_but_profile c e"
proof -
  from assms have "d = c\<lparr>cd_parameters := cd_parameters d\<rparr>" "e = d\<lparr>cd_parameters := cd_parameters e\<rparr>"
    by (simp_all add: same_but_profile_def)
  then have "e = c\<lparr>cd_parameters := cd_parameters e\<rparr>"
    by (cases c; cases d; cases e) simp
  with assms same_but_profile_sel(1) [OF assms(1)] show ?thesis
    by (auto simp: same_but_profile_def)
qed

lemma set_profile_same:
  "to_lower (cd_mimeType c) = ''video/h264'' \<Longrightarrow> same_but_profile c (set_profile s c)"
  by (auto simp: same_but_profile_def set_profile_def split: option.splits)

lemma isRtxCodec_same: "same_but_profile c d \<Longrightarrow> isRtxCodec (Some d) = isRtxCodec (Some c)"
  by (simp add: isRtxCodec_def same_but_profile_sel)

lemma codec_compatible_same:
  "same_but_profile a a' \<Longrightarrow> same_but_profile b b' \<Longrightarrow> codec_compatible a' b' = codec_compatible a b"
  by (simp add: codec_compatible_def same_but_profile_sel)

lemma matchCodecs_same:
  assumes "matchCodecs lib a b strict modify = (r, a', b')"
  shows "same_but_profile a a' \<and> same_but_profile b b'"
  using assms set_profile_same [of a] set_profile_same [of b]
  by (auto simp: matchCodecs_def Let_def split: if_splits sum.splits)

lemma matchCodecs_compatible:
  assumes "matchCodecs lib a b strict modify = (True, a', b')"
  shows "codec_compatible a b"
proof -
  have "opt_num x = opt_num y \<longleftrightarrow> x = y" for x y by (cases x; cases y) auto
  with assms show ?thesis
    by (auto simp: matchCodecs_def codec_compatible_def js_eq_def strict_eq_def Let_def split: if_splits)
qed

lemma matchCodecs_false_same: "matchCodecs lib a b strict modify = (False, a', b') \<Longrightarrow> a' = a \<and> b' = b"
  by (auto simp: matchCodecs_def Let_def split: if_splits sum.splits)

lemma matchCodecs_modify: "fst (matchCodecs lib a b strict True) = fst (matchCodecs lib a b strict False)"
  by (simp add: matchCodecs_def Let_def split: sum.splits)

lemma find_local_Some:
  assumes "find_local lib ls r = Some (i, ls', r')"
  shows "i < length ls \<and> list_all2 same_but_profile ls ls' \<and> same_but_profile r r' \<and> codec_compatible (ls ! i) r"
  using assms
proof (induction lib ls r arbitrary: i ls' r' rule: find_local.induct)
  case (2 lib l ls r)
  obtain b l1 r1 where m: "matchCodecs lib l r True True = (b, l1, r1)" by (metis prod_cases3)
  show ?case
  proof (cases b)
    case True
    with 2(2) m matchCodecs_same [OF m] matchCodecs_compatible [of lib l r True True l1 r1] show ?thesis
      by (auto simp: list.rel_refl)
  next
    case False
    with 2(2) m obtain j where "find_local lib ls r = Some (j, tl ls', r')" "i = Suc j" "ls' = l # tl ls'"
      by (auto split: option.splits)
    with 2(1) m False show ?thesis by (metis (mono_tags, lifting) length_Cons list.rel_intros(2) nth_Cons_Suc same_but_profile_refl Suc_less_eq)
  qed
qed simp

lemma list_all2_same_trans:
  "list_all2 same_but_profile xs ys \<Longrightarrow> list_all2 same_but_profile ys zs \<Longrightarrow> list_all2 same_but_profile xs zs"
  by (rule list_all2_trans [OF same_but_profile_trans])

definition media_pair :: "codec_capability list \<Rightarrow> codec_capability list \<Rightarrow> nat \<times> codec_capability \<Rightarrow> bool" where
  "media_pair ls rs p \<longleftrightarrow>
     fst p < length ls \<and>
     (\<exists>r \<in> set rs. \<not> isRtxCodec (Some r) \<and> same_but_profile r (snd p) \<and> codec_compatible (ls ! fst p) r)"

lemma media_pair_mono:
  assumes "media_pair ls' rs p" "list_all2 same_but_profile ls ls'" "set rs \<subseteq> set rs'"
  shows "media_pair ls rs' p"
  using assms codec_compatible_same [of "ls ! fst p" "ls' ! fst p"]
  by (fastforce simp: media_pair_def list_all2_conv_all_nth)

lemma match_media_sound:
  assumes "match_media lib ls rs = (ps, ls', rs')"
  shows "list_all2 same_but_profile ls ls' \<and> list_all2 same_but_profile rs rs' \<and> (\<forall>p \<in> set ps. media_pair ls rs p)"
  using assms
proof (induction lib ls rs arbitrary: ps ls' rs' rule: match_media.induct)
  case (1 lib ls)
  then show ?case by (simp add: list.rel_refl)
next
  case (2 lib ls r rs)
  show ?case
  proof (cases "isRtxCodec (Some r)")
    case True
    with "2.prems" "2.IH"(1) show ?thesis
      by (fastforce split: prod.splits intro: media_pair_mono [of ls rs] simp: list.rel_refl)
  next
    case nrtx: False
    show ?thesis
    proof (cases "find_local lib ls r")
      case None
      with nrtx "2.prems" "2.IH"(2) show ?thesis
        by (fastforce split: prod.splits intro: media_pair_mono [of ls rs] simp: list.rel_refl)
    next
      case (Some x)
      obtain i ls1 r1 where x: "x = (i, ls1, r1)" by (metis prod_cases3)
      note f = find_local_Some [OF Some [unfolded x]]
      obtain qs ls2 rs2 where m: "match_media lib ls1 rs = (qs, ls2, rs2)" by (metis prod_cases3)
      note ih = "2.IH"(3) [OF nrtx Some x [symmetric] refl m]
      from "2.prems" nrtx Some x m have out: "ps = (i, r1) # qs" "ls' = ls2" "rs' = r1 # rs2" by simp_all
      have "media_pair ls (r # rs) (i, r1)" using f nrtx by (auto simp: media_pair_def)
      moreover have "\<forall>p \<in> set qs. media_pair ls (r # rs) p"
        using ih f by (auto intro: media_pair_mono)
      ultimately show ?thesis using ih f out list_all2_same_trans [of ls ls1 ls2] by simp
    qed
  qed
qed

section \<open>Extended codecs\<close>

lemma reduceRtcpFeedback_subset: "set (reduceRtcpFeedback a b) \<subseteq> set (cd_rtcpFeedback b)"
proof -
  have "set (reduceRtcpFeedback_loop as bs) \<subseteq> set bs" for as bs
    by (induction as bs rule: reduceRtcpFeedback_loop.induct) (auto split: option.splits simp: find_Some_iff)
  then show ?thesis by (simp add: reduceRtcpFeedback_def)
qed

lemma match_rtx_sel [simp]:
  "xc_mimeType (match_rtx ls rs c) = xc_mimeType c" "xc_kind (match_rtx ls rs c) = xc_kind c"
  "xc_clockRate (match_rtx ls rs c) = xc_clockRate c" "xc_channels (match_rtx ls rs c) = xc_channels c"
  "xc_localPayloadType (match_rtx ls rs c) = xc_localPayloadType c"
  "xc_remotePayloadType (match_rtx ls rs c) = xc_remotePayloadType c"
  "xc_localParameters (match_rtx ls rs c) = xc_localParameters c"
  "xc_remoteParameters (match_rtx ls rs c) = xc_remoteParameters c"
  "xc_rtcpFeedback (match_rtx ls rs c) = xc_rtcpFeedback c"
  by (simp_all add: match_rtx_def split: option.splits)

text \<open>The RTX codec of a list that repairs a payload type.\<close>

definition rtx_for :: "codec_capability list \<Rightarrow> number option \<Rightarrow> number option \<Rightarrow> bool" where
  "rtx_for cs payloadType rtxPayloadType \<longleftrightarrow>
     list_ex (\<lambda>c. isRtxCodec (Some c) \<and> obj_get (cd_parameters c) ''apt'' = opt_num payloadType \<and>
       cc_preferredPayloadType c = rtxPayloadType) cs"

lemma rtx_for_same:
  assumes "rtx_for cs' p q" "list_all2 same_but_profile cs cs'"
  shows "rtx_for cs p q"
proof -
  from assms(1) obtain i where i: "i < length cs'" "isRtxCodec (Some (cs' ! i))"
    "obj_get (cd_parameters (cs' ! i)) ''apt'' = opt_num p" "cc_preferredPayloadType (cs' ! i) = q"
    by (auto simp: rtx_for_def list_ex_iff in_set_conv_nth)
  with assms(2) have s: "same_but_profile (cs ! i) (cs' ! i)" "i < length cs"
    by (simp_all add: list_all2_conv_all_nth)
  then have "obj_get (cd_parameters (cs' ! i)) ''apt'' = obj_get (cd_parameters (cs ! i)) ''apt''"
    by (intro obj_get_jm_deleted [of PROFILE_LEVEL_ID]) (simp_all add: same_but_profile_def PROFILE_LEVEL_ID_def)
  with i s isRtxCodec_same [OF s(1)] same_but_profile_cc [OF s(1)] show ?thesis
    unfolding rtx_for_def list_ex_iff by (intro bexI [of _ "cs ! i"]) auto
qed

lemma match_rtx_pair:
  assumes "xc_localRtxPayloadType c = None" "xc_remoteRtxPayloadType c = None"
  shows "xc_localRtxPayloadType (match_rtx ls rs c) = None \<and> xc_remoteRtxPayloadType (match_rtx ls rs c) = None \<or>
    rtx_for ls (xc_localPayloadType c) (xc_localRtxPayloadType (match_rtx ls rs c)) \<and>
    rtx_for rs (xc_remotePayloadType c) (xc_remoteRtxPayloadType (match_rtx ls rs c))"
proof -
  have f: "rtx_for cs p (cc_preferredPayloadType x)" if "find_rtx cs p = Some x" for cs p x
    using that by (auto simp: find_rtx_def rtx_for_def find_Some_iff list_ex_iff strict_eq_def)
  show ?thesis
    using assms by (auto simp: match_rtx_def f split: option.splits)
qed

text \<open>What one extended codec promises about the capabilities it was made from.\<close>

definition extended_from :: "codec_capability list \<Rightarrow> codec_capability list \<Rightarrow> extended_codec \<Rightarrow> bool" where
  "extended_from ls rs c \<longleftrightarrow> list_ex (\<lambda>l. list_ex (\<lambda>r.
     \<not> isRtxCodec (Some r) \<and> codec_compatible l r \<and>
     xc_mimeType c = cd_mimeType l \<and> xc_kind c = cc_kind l \<and>
     xc_clockRate c = cd_clockRate l \<and> xc_channels c = cd_channels l \<and>
     xc_localPayloadType c = cc_preferredPayloadType l \<and> xc_remotePayloadType c = cc_preferredPayloadType r \<and>
     jm_delete PROFILE_LEVEL_ID (xc_localParameters c) = jm_delete PROFILE_LEVEL_ID (cd_parameters l) \<and>
     jm_delete PROFILE_LEVEL_ID (xc_remoteParameters c) = jm_delete PROFILE_LEVEL_ID (cd_parameters r) \<and>
     list_all (\<lambda>fb. fb \<in> set (cd_rtcpFeedback r)) (xc_rtcpFeedback c)) rs) ls \<and>
     (xc_localRtxPayloadType c = None \<and> xc_remoteRtxPayloadType c = None \<or>
      rtx_for ls (xc_localPayloadType c) (xc_localRtxPayloadType c) \<and>
      rtx_for rs (xc_remotePayloadType c) (xc_remoteRtxPayloadType c))"

lemma getExtendedRtpCapabilities_codec:
  assumes "c \<in> set (xr_codecs (getExtendedRtpCapabilities lib l r))"
  shows "extended_from (rc_codecs l) (rc_codecs r) c"
proof -
  obtain ps ls rs where m: "match_media lib (rc_codecs l) (rc_codecs r) = (ps, ls, rs)" by (metis prod_cases3)
  note s = match_media_sound [OF m]
  from assms m obtain i rm where p: "(i, rm) \<in> set ps" and c: "c = match_rtx ls rs (extend_codec (ls ! i) rm)"
    by (auto simp: getExtendedRtpCapabilities_def)
  from s p obtain rc where i: "i < length (rc_codecs l)"
    and rc: "rc \<in> set (rc_codecs r)" "\<not> isRtxCodec (Some rc)" "same_but_profile rc rm"
      "codec_compatible (rc_codecs l ! i) rc"
    by (fastforce simp: media_pair_def)
  from s i have lc: "same_but_profile (rc_codecs l ! i) (ls ! i)" by (simp add: list_all2_conv_all_nth)
  have "xc_localRtxPayloadType c = None \<and> xc_remoteRtxPayloadType c = None \<or>
      rtx_for (rc_codecs l) (xc_localPayloadType c) (xc_localRtxPayloadType c) \<and>
      rtx_for (rc_codecs r) (xc_remotePayloadType c) (xc_remoteRtxPayloadType c)"
    using match_rtx_pair [of "extend_codec (ls ! i) rm" ls rs] s unfolding c
    by (auto simp: extend_codec_def intro: rtx_for_same)
  moreover have "set (xc_rtcpFeedback c) \<subseteq> set (cd_rtcpFeedback rc)"
    using reduceRtcpFeedback_subset [of "ls ! i" rm] same_but_profile_sel(4) [OF rc(3)] by (simp add: c extend_codec_def)
  ultimately show ?thesis
    unfolding extended_from_def list_ex_iff
    by (intro conjI bexI [of _ "rc_codecs l ! i"] bexI [of _ rc])
      (use rc i same_but_profile_simps [OF lc] same_but_profile_simps [OF rc(3)] in
        \<open>simp_all add: c extend_codec_def list_all_iff subset_eq\<close>)
qed

section \<open>The order of the remote side\<close>

lemma matchCodecs_not_h264:
  assumes "to_lower (cd_mimeType b) \<noteq> ''video/h264''" "matchCodecs lib a b strict modify = (res, a', b')"
  shows "a' = a \<and> b' = b"
  using assms by (auto simp: matchCodecs_def Let_def split: if_splits)

lemma find_local_not_h264:
  assumes "to_lower (cd_mimeType r) \<noteq> ''video/h264''"
  shows "if list_ex (\<lambda>l. fst (matchCodecs lib l r True False)) ls
     then \<exists>i. find_local lib ls r = Some (i, ls, r) else find_local lib ls r = None"
proof (induction ls)
  case (Cons l ls)
  obtain b l1 r1 where m: "matchCodecs lib l r True True = (b, l1, r1)" by (metis prod_cases3)
  note same = matchCodecs_not_h264 [OF assms m]
  have "fst (matchCodecs lib l r True False) = b" using m matchCodecs_modify [of lib l r True] by simp
  with Cons m same show ?case by (cases b) (auto split: if_splits)
qed simp

lemma match_media_not_h264:
  assumes "list_all (\<lambda>r. to_lower (cd_mimeType r) \<noteq> ''video/h264'') rs"
  shows "\<exists>ps. match_media lib ls rs = (ps, ls, rs) \<and>
    map snd ps = filter (\<lambda>r. \<not> isRtxCodec (Some r) \<and> list_ex (\<lambda>l. fst (matchCodecs lib l r True False)) ls) rs"
  using assms
proof (induction rs)
  case (Cons r rs)
  then obtain ps where ps: "match_media lib ls rs = (ps, ls, rs)"
    "map snd ps = filter (\<lambda>r. \<not> isRtxCodec (Some r) \<and> list_ex (\<lambda>l. fst (matchCodecs lib l r True False)) ls) rs"
    by auto
  from Cons.prems find_local_not_h264 [of r lib ls] ps show ?case by (auto split: if_splits)
qed simp

text \<open>Without H264 on the remote side, the extended codecs are the remote media codecs that some local codec
  strictly matches, all of them, in the order the remote side prefers.\<close>

theorem remote_preference_kept:
  assumes "list_all (\<lambda>r. to_lower (cd_mimeType r) \<noteq> ''video/h264'') (rc_codecs remote)"
  shows "map (\<lambda>c. (xc_remotePayloadType c, xc_remoteParameters c)) (xr_codecs (getExtendedRtpCapabilities lib local remote)) =
    map (\<lambda>r. (cc_preferredPayloadType r, cd_parameters r))
      (filter (\<lambda>r. \<not> isRtxCodec (Some r) \<and> list_ex (\<lambda>l. fst (matchCodecs lib l r True False)) (rc_codecs local))
        (rc_codecs remote))"
proof -
  obtain ps where ps: "match_media lib (rc_codecs local) (rc_codecs remote) = (ps, rc_codecs local, rc_codecs remote)"
    "map snd ps = filter (\<lambda>r. \<not> isRtxCodec (Some r) \<and> list_ex (\<lambda>l. fst (matchCodecs lib l r True False)) (rc_codecs local))
        (rc_codecs remote)"
    using match_media_not_h264 [OF assms, of lib "rc_codecs local"] by blast
  show ?thesis
    by (simp add: getExtendedRtpCapabilities_def ps(1) flip: ps(2))
      (simp add: extend_codec_def comp_def case_prod_unfold)
qed

definition cap :: "string \<Rightarrow> track_kind \<Rightarrow> number \<Rightarrow> jsobj \<Rightarrow> codec_capability" where
  "cap mime kind pt params =
     \<lparr>cd_mimeType = mime, cd_clockRate = Fin 90000, cd_channels = None, cd_parameters = params,
      cd_rtcpFeedback = [\<lparr>fb_type = ''nack'', fb_parameter = None\<rparr>], cc_kind = kind, cc_preferredPayloadType = Some pt\<rparr>"

definition local_example :: rtp_capabilities where
  "local_example = \<lparr>rc_codecs =
     [cap ''video/VP8'' KVideo (Fin 96) [], cap ''video/rtx'' KVideo (Fin 97) [(''apt'', VNum (Fin 96))], cap ''video/VP9'' KVideo (Fin 98) []],
     rc_headerExtensions = []\<rparr>"

definition remote_example :: rtp_capabilities where
  "remote_example = \<lparr>rc_codecs =
     [cap ''video/vp9'' KVideo (Fin 101) [], cap ''video/AV1'' KVideo (Fin 103) [], cap ''video/vp8'' KVideo (Fin 105) [],
      cap ''video/rtx'' KVideo (Fin 106) [(''apt'', VNum (Fin 105))]], rc_headerExtensions = []\<rparr>"

definition no_h264 :: h264 where
  "no_h264 = \<lparr>isSameProfile = \<lambda>_ _. False, generateProfileLevelIdStringForAnswer = \<lambda>_ _. Inr None\<rparr>"

lemma remote_example_not_h264: "list_all (\<lambda>r. to_lower (cd_mimeType r) \<noteq> ''video/h264'') (rc_codecs remote_example)"
  by code_simp

theorem remote_preference_kept_witness:
  "map (\<lambda>c. (xc_remotePayloadType c, xc_remoteParameters c))
     (xr_codecs (getExtendedRtpCapabilities no_h264 local_example remote_example)) = [(Some (Fin 101), []), (Some (Fin 105), [])]"
proof -
  have "map (\<lambda>r. (cc_preferredPayloadType r, cd_parameters r))
      (filter (\<lambda>r. \<not> isRtxCodec (Some r) \<and> list_ex (\<lambda>l. fst (matchCodecs no_h264 l r True False)) (rc_codecs local_example))
        (rc_codecs remote_example)) = [(Some (Fin 101), []), (Some (Fin 105), [])]"
    by code_simp
  with remote_preference_kept [OF remote_example_not_h264, of no_h264 local_example] show ?thesis by simp
qed

text \<open>C19: Every extended codec comes from a local and a remote codec that agree in media type, clock rate and
  channels, neither of them RTX; it carries the payload type of each side, their parameters up to
  the negotiated H264 profile level, and only feedback the remote side lists. RTX payload types come
  in pairs, from the codecs of both sides that repair exactly these payload types.\<close>

theorem extended_codecs_sound:
  "list_all (extended_from (rc_codecs local) (rc_codecs remote)) (xr_codecs (getExtendedRtpCapabilities lib local remote))"
  by (simp add: list_all_iff getExtendedRtpCapabilities_codec)

section \<open>Sending parameters\<close>

lemma line_end_lower [simp]: "line_end (lower_char c) = line_end c"
proof -
  have code: "line_end d \<longleftrightarrow> (of_char d :: nat) = 10 \<or> (of_char d :: nat) = 13" for d
    by (cases d) (auto simp: line_end_def of_char_def)
  show ?thesis by (simp add: code lower_char_def Let_def)
qed

lemma rtx_mime_to_lower: "to_lower m = to_lower m' \<Longrightarrow> rtx_mime m = rtx_mime m'"
proof -
  have "rtx_mime m \<longleftrightarrow> length (to_lower m) \<ge> 5 \<and> drop (length (to_lower m) - 4) (to_lower m) = ''/rtx'' \<and>
      \<not> line_end (to_lower m ! (length (to_lower m) - 5))" for m
    by (auto simp: rtx_mime_def to_lower_def drop_map)
  then show "to_lower m = to_lower m' \<Longrightarrow> ?thesis" by simp
qed

lemma extended_not_rtx:
  assumes "c \<in> set (xr_codecs (getExtendedRtpCapabilities lib l r))"
  shows "\<not> rtx_mime (xc_mimeType c)"
  using getExtendedRtpCapabilities_codec [OF assms]
  by (auto simp: extended_from_def list_ex_iff isRtxCodec_def codec_compatible_def dest: rtx_mime_to_lower)

text \<open>Where an RTX codec stands in a list of codecs: right after the one it repairs.\<close>

fun rtx_follows :: "codec_parameters list \<Rightarrow> bool" where
  "rtx_follows (c # d # cs) \<longleftrightarrow>
     (rtx_mime (cd_mimeType d) \<longrightarrow> \<not> rtx_mime (cd_mimeType c) \<and> obj_get (cd_parameters d) ''apt'' = opt_num (cp_payloadType c)) \<and>
     rtx_follows (d # cs)"
| "rtx_follows _ \<longleftrightarrow> True"

lemma rtx_follows_nth:
  "rtx_follows cs \<Longrightarrow> Suc i < length cs \<Longrightarrow> rtx_mime (cd_mimeType (cs ! Suc i)) \<Longrightarrow>
    \<not> rtx_mime (cd_mimeType (cs ! i)) \<and> obj_get (cd_parameters (cs ! Suc i)) ''apt'' = opt_num (cp_payloadType (cs ! i))"
proof (induction cs arbitrary: i rule: rtx_follows.induct)
  case (1 c d cs)
  then show ?case by (cases i) auto
qed auto

lemma rtx_follows_append:
  "rtx_follows cs \<Longrightarrow> rtx_follows ds \<Longrightarrow> (ds \<noteq> [] \<Longrightarrow> \<not> rtx_mime (cd_mimeType (hd ds))) \<Longrightarrow> rtx_follows (cs @ ds)"
  by (induction cs rule: rtx_follows.induct) (auto; cases ds; auto)+

lemma rtx_mime_audio: "rtx_mime (rtx_mime_of KAudio)"
  by code_simp

lemma rtx_mime_video: "rtx_mime (rtx_mime_of KVideo)"
  by code_simp

lemma rtx_mime_of_kind: "rtx_mime (rtx_mime_of kind)"
  using rtx_mime_audio rtx_mime_video by (cases kind) simp_all

lemma send_codecs_follows:
  "list_all (\<lambda>c. \<not> rtx_mime (xc_mimeType c)) xs \<Longrightarrow>
    rtx_follows (concat (map (send_codecs f) xs)) \<and>
    (xs \<noteq> [] \<longrightarrow> \<not> rtx_mime (cd_mimeType (hd (concat (map (send_codecs f) xs)))))"
proof (induction xs)
  case (Cons x xs)
  have "rtx_follows (send_codecs f x)" "\<not> rtx_mime (cd_mimeType (hd (send_codecs f x)))" "send_codecs f x \<noteq> []"
    using Cons.prems by (auto simp: send_codecs_def)
  moreover have "xs \<noteq> []" if "concat (map (send_codecs f) xs) \<noteq> []" using that by auto
  ultimately show ?case
    using Cons rtx_follows_append [of "send_codecs f x" "concat (map (send_codecs f) xs)"] by auto
qed simp

lemma rtx_follows_feedback: "rtx_follows (map (\<lambda>c. c\<lparr>cd_rtcpFeedback := g c\<rparr>) cs) = rtx_follows cs"
  by (induction cs rule: rtx_follows.induct) simp_all

lemma sending_follows:
  fixes kind lib l r
  defines "e \<equiv> getExtendedRtpCapabilities lib l r"
  shows "rtx_follows (rp_codecs (getSendingRtpParameters kind e))"
    and "rtx_follows (rp_codecs (getSendingRemoteRtpParameters kind e))"
  using send_codecs_follows [of "filter (\<lambda>c. xc_kind c = kind) (xr_codecs e)"] extended_not_rtx [of _ lib l r]
  by (auto simp: getSendingRtpParameters_def getSendingRemoteRtpParameters_def rtx_follows_feedback list_all_iff e_def)

lemma canSend_iff: "canSend kind e \<longleftrightarrow> rp_codecs (getSendingRtpParameters kind e) \<noteq> []"
  by (auto simp: canSend_def getSendingRtpParameters_def list_ex_iff filter_empty_conv send_codecs_def)

lemma first_match_Some:
  "first_match lib cs capCodec = Some i \<Longrightarrow> i < length cs \<and> fst (matchCodecs lib (cs ! i) capCodec True False) \<and>
     (\<forall>j < i. \<not> fst (matchCodecs lib (cs ! j) capCodec True False))"
  by (induction cs arbitrary: i) (auto simp: less_Suc_eq_0_disj split: if_splits)

lemma first_match_None: "first_match lib cs capCodec = None \<longleftrightarrow> \<not> list_ex (\<lambda>c. fst (matchCodecs lib c capCodec True False)) cs"
  by (induction cs) auto

lemma with_rtx_pair:
  assumes "rtx_follows cs" "i < length cs"
  shows "with_rtx cs i = Some (cs ! i) # (if Suc i < length cs \<and> isRtxCodec (Some (cs ! Suc i)) then [Some (cs ! Suc i)] else [])"
    "Suc i < length cs \<Longrightarrow> isRtxCodec (Some (cs ! Suc i)) \<Longrightarrow>
       \<not> isRtxCodec (Some (cs ! i)) \<and> obj_get (cd_parameters (cs ! Suc i)) ''apt'' = opt_num (cp_payloadType (cs ! i))"
  using assms rtx_follows_nth [of cs i]
  by (auto simp: with_rtx_def item_def isRtxCodec_def)

text \<open>C25: Once a kind can be sent, reducing its codecs yields one codec, the first one or the first that strictly
  matches the capability asked for, followed by the codec after it exactly when that one is an RTX codec, whose \<open>apt\<close>
  is then the payload type of the first. It throws exactly when a capability is asked for and no codec matches it.\<close>

theorem reduced_codecs_pair:
  assumes "canSend kind (getExtendedRtpCapabilities lib local remote)"
    and "cs = rp_codecs (getSendingRtpParameters kind (getExtendedRtpCapabilities lib local remote))"
  shows "case reduceCodecs lib cs capCodec of
     Inl _ \<Rightarrow> (\<exists>wanted. capCodec = Some wanted \<and> \<not> list_ex (\<lambda>c. fst (matchCodecs lib c wanted True False)) cs)
   | Inr out \<Rightarrow> (\<exists>i < length cs.
       (case capCodec of
          None \<Rightarrow> i = 0
        | Some wanted \<Rightarrow> fst (matchCodecs lib (cs ! i) wanted True False) \<and>
            (\<forall>j < i. \<not> fst (matchCodecs lib (cs ! j) wanted True False))) \<and>
       out = Some (cs ! i) # (if Suc i < length cs \<and> isRtxCodec (Some (cs ! Suc i)) then [Some (cs ! Suc i)] else []) \<and>
       (Suc i < length cs \<and> isRtxCodec (Some (cs ! Suc i)) \<longrightarrow>
          \<not> isRtxCodec (Some (cs ! i)) \<and> obj_get (cd_parameters (cs ! Suc i)) ''apt'' = opt_num (cp_payloadType (cs ! i))))"
proof -
  have ne: "cs \<noteq> []" using assms by (simp add: canSend_iff)
  have f: "rtx_follows cs" using assms(2) by (simp add: sending_follows)
  note pair = with_rtx_pair [OF f]
  show ?thesis
  proof (cases capCodec)
    case None
    with ne pair [of 0] show ?thesis by (auto simp: reduceCodecs_def intro!: exI [of _ 0])
  next
    case (Some wanted)
    show ?thesis
    proof (cases "first_match lib cs wanted")
      case None
      with Some None [unfolded first_match_None] show ?thesis by (simp add: reduceCodecs_def)
    next
      case found: (Some i)
      with Some first_match_Some [OF found] pair [of i] show ?thesis
        by (auto simp: reduceCodecs_def intro!: exI [of _ i])
    qed
  qed
qed

theorem reduced_codecs_pair_witness:
  "canSend KVideo (getExtendedRtpCapabilities no_h264 local_example remote_example) \<and>
   reduceCodecs no_h264 (rp_codecs (getSendingRtpParameters KVideo
     (getExtendedRtpCapabilities no_h264 local_example remote_example))) (Some (cap ''video/AV1'' KVideo (Fin 1) [])) =
     Inl (TypeError ''no matching codec found'')"
proof -
  let ?e = "getExtendedRtpCapabilities no_h264 local_example remote_example"
  have s: "canSend KVideo ?e" by code_simp
  have "reduceCodecs no_h264 (rp_codecs (getSendingRtpParameters KVideo ?e)) (Some (cap ''video/AV1'' KVideo (Fin 1) [])) =
     Inl (TypeError ''no matching codec found'')" by code_simp
  with s reduced_codecs_pair [OF s refl, of "Some (cap ''video/AV1'' KVideo (Fin 1) [])"] show ?thesis by simp
qed

text \<open>The parameters for the local and the remote description of a kind name the same codecs under the same
  payload types and the same header extensions. In the remote one, no codec asks for both REMB and
  transport-wide congestion control: transport-cc is kept only with its header extension, REMB only
  without that extension and with the one for absolute send time.\<close>

theorem sending_sides_agree:
  "map (\<lambda>c. (cd_mimeType c, cp_payloadType c, cd_clockRate c, cd_channels c)) (rp_codecs (getSendingRtpParameters kind e)) =
   map (\<lambda>c. (cd_mimeType c, cp_payloadType c, cd_clockRate c, cd_channels c)) (rp_codecs (getSendingRemoteRtpParameters kind e)) \<and>
   rp_headerExtensions (getSendingRtpParameters kind e) = rp_headerExtensions (getSendingRemoteRtpParameters kind e) \<and>
   list_all (\<lambda>c. list_all (\<lambda>fb.
      if fb_type fb = ''transport-cc'' then list_ex (\<lambda>x. hp_uri x = TRANSPORT_CC_URI) (rp_headerExtensions (getSendingRemoteRtpParameters kind e))
      else if fb_type fb = ''goog-remb''
      then \<not> list_ex (\<lambda>x. hp_uri x = TRANSPORT_CC_URI) (rp_headerExtensions (getSendingRemoteRtpParameters kind e)) \<and>
        list_ex (\<lambda>x. hp_uri x = ABS_SEND_TIME_URI) (rp_headerExtensions (getSendingRemoteRtpParameters kind e))
      else True) (cd_rtcpFeedback c)) (rp_codecs (getSendingRemoteRtpParameters kind e))"
proof (intro conjI)
  have "map (\<lambda>c. (cd_mimeType c, cp_payloadType c, cd_clockRate c, cd_channels c)) (concat (map (send_codecs f) xs)) =
      map (\<lambda>c. (cd_mimeType c, cp_payloadType c, cd_clockRate c, cd_channels c)) (concat (map (send_codecs g) xs))" for f g xs
    by (induction xs) (auto simp: send_codecs_def)
  then show "map (\<lambda>c. (cd_mimeType c, cp_payloadType c, cd_clockRate c, cd_channels c)) (rp_codecs (getSendingRtpParameters kind e)) =
    map (\<lambda>c. (cd_mimeType c, cp_payloadType c, cd_clockRate c, cd_channels c)) (rp_codecs (getSendingRemoteRtpParameters kind e))"
    by (simp add: getSendingRtpParameters_def getSendingRemoteRtpParameters_def comp_def)
qed (auto simp: getSendingRtpParameters_def getSendingRemoteRtpParameters_def list_all_iff reduce_feedback_def split: if_splits)

end
