(* ===== verification/MediaSection.thy ===== *)
theory MediaSection
  imports Ortc
begin

text \<open>
  The sections of a session description, \<open>handlers/sdp/MediaSection.js\<close>, with the two parsers of \<open>sdp-transform\<close> that
  it and its neighbours read them back with (as the bundle holds them). A section is the object that the
  SDP writer prints and the parser reads; a property that may be missing is an option, and a payload of
  feedback may be the text \<open>*\<close>. The constructor of an answer changes
  the parameters of the offer it is given, so it answers them too.
\<close>

section \<open>Strings of values\<close>

text \<open>\<open>String\<close> of a number: integers up to \<open>2 ^ 53\<close> by their digits, others by the shortest digits \<open>s\<close> for which
  \<open>s * 10 powi (n - k)\<close>, of \<open>k\<close> digits, rounds to the number.\<close>

fun shortest_digits :: "rat \<Rightarrow> int \<Rightarrow> nat \<Rightarrow> nat \<Rightarrow> int \<times> nat" where
  "shortest_digits x n k 0 = (round_even (x / 10 powi (n - int k)), k)"
| "shortest_digits x n k (Suc m) =
     (let s = round_even (x / 10 powi (n - int k))
      in if round64 (of_int s * 10 powi (n - int k)) = x then (s, k) else shortest_digits x n (Suc k) m)"

fun decimal_exponent :: "rat \<Rightarrow> nat \<Rightarrow> int \<Rightarrow> int" where
  "decimal_exponent x 0 n = n"
| "decimal_exponent x (Suc m) n =
     (if x < 10 powi (n - 1) then decimal_exponent x m (n - 1) else if x \<ge> 10 powi n then decimal_exponent x m (n + 1) else n)"

definition format_digits :: "int \<Rightarrow> nat \<Rightarrow> int \<Rightarrow> string" where
  "format_digits s k n =
     (let d = nat_str (nat s); e = n - 1;
          expo = (if e < 0 then ''-'' else ''+'') @ nat_str (nat \<bar>e\<bar>)
      in if int k \<le> n \<and> n \<le> 21 then d @ replicate (nat (n - int k)) (CHR ''0'')
         else if 0 < n \<and> n \<le> 21 then take (nat n) d @ ''.'' @ drop (nat n) d
         else if -6 < n \<and> n \<le> 0 then ''0.'' @ replicate (nat (- n)) (CHR ''0'') @ d
         else if k = 1 then d @ ''e'' @ expo
         else take 1 d @ ''.'' @ drop 1 d @ ''e'' @ expo)"

definition positive_str :: "rat \<Rightarrow> string" where
  "positive_str x =
     (if of_int \<lfloor>x\<rfloor> = x \<and> x \<le> 2 ^ 53 then nat_str (nat \<lfloor>x\<rfloor>)
      else let n = decimal_exponent x 700 1 in case shortest_digits x n 1 17 of (s, k) \<Rightarrow> format_digits s k n)"

fun num_str :: "number \<Rightarrow> string" where
  "num_str NaN = ''NaN''"
| "num_str PosInf = ''Infinity''"
| "num_str NegInf = ''-Infinity''"
| "num_str (Fin x) = (if x < 0 then ''-'' @ positive_str (- x) else positive_str x)"

fun val_str :: "jsval \<Rightarrow> string" where
  "val_str VUndef = ''undefined''"
| "val_str VNull = ''null''"
| "val_str (VBool b) = (if b then ''true'' else ''false'')"
| "val_str (VNum n) = num_str n"
| "val_str (VStr s) = s"
| "val_str (VArr vs) = join '','' (map (\<lambda>v. if v = VUndef \<or> v = VNull then '''' else val_str v) vs)"
| "val_str (VObj _) = ''[object Object]''"

section \<open>Parameters of a transport\<close>

record ice_parameters =
  ip_usernameFragment :: string
  ip_password :: string
  ip_iceLite :: bool

record ice_candidate =
  ic_foundation :: string
  ic_address :: "string option"
  ic_ip :: "string option"
  ic_port :: number
  ic_priority :: number
  ic_protocol :: string
  ic_type :: string
  ic_tcpType :: "string option"

datatype dtls_role = RoleClient | RoleServer | RoleAuto

record dtls_parameters =
  dt_role :: dtls_role
  dt_fingerprints :: "(string \<times> string) list"

record sctp_parameters =
  sc_port :: number
  sc_maxMessageSize :: number

record plain_rtp_parameters =
  pl_ip :: string
  pl_ipVersion :: number
  pl_port :: number

record candidate_object =
  co_component :: number
  co_foundation :: string
  co_ip :: "string option"
  co_port :: number
  co_priority :: number
  co_transport :: string
  co_type :: string
  co_tcptype :: "string option"

section \<open>Media objects\<close>

record rtp_line =
  rl_payload :: "number option"
  rl_codec :: string
  rl_rate :: number
  rl_encoding :: "number option"

record fmtp_line =
  fl_payload :: "number option"
  fl_config :: string

record fb_line =
  bl_payload :: jsval
  bl_type :: string
  bl_subtype :: "string option"

record ext_line =
  el_uri :: string
  el_value :: number
  el_encrypt_uri :: "string option"

record ssrc_line =
  sl_id :: jsval
  sl_attribute :: string
  sl_value :: string

record ssrc_group =
  sg_semantics :: string
  sg_ssrcs :: string

record rid_line =
  ri_id :: string
  ri_direction :: string

record media_object =
  mo_mid :: string
  mo_type :: string
  mo_protocol :: string
  mo_connection :: "(string \<times> number) option"
  mo_port :: number
  mo_direction :: "string option"
  mo_setup :: "string option"
  mo_fingerprint :: "(string \<times> string) option"
  mo_ice :: "(string \<times> string) option"
  mo_candidates :: "candidate_object list option"
  mo_msid :: "string option"
  mo_rtp :: "rtp_line list"
  mo_rtcpFb :: "fb_line list"
  mo_fmtp :: "fmtp_line list"
  mo_payloads :: string
  mo_ext :: "ext_line list option"
  mo_extmapAllowMixed :: bool
  mo_ssrcs :: "ssrc_line list option"
  mo_ssrcGroups :: "ssrc_group list option"
  mo_simulcast :: "(string \<times> string) option"
  mo_simulcast_03 :: "string option"
  mo_rids :: "rid_line list option"
  mo_rtcpMux :: bool
  mo_rtcpRsize :: bool
  mo_xGoogleFlag :: bool
  mo_sctpPort :: "number option"
  mo_maxMessageSize :: "number option"
  mo_sctpmap :: "(number \<times> number) option"

datatype section_class = AnswerSection | OfferSection

record media_section =
  ms_class :: section_class
  ms_planB :: bool
  ms_object :: media_object

definition empty_media :: media_object where
  "empty_media = \<lparr>mo_mid = [], mo_type = [], mo_protocol = [], mo_connection = None, mo_port = NaN, mo_direction = None,
     mo_setup = None, mo_fingerprint = None, mo_ice = None, mo_candidates = None, mo_msid = None, mo_rtp = [], mo_rtcpFb = [], mo_fmtp = [],
     mo_payloads = [], mo_ext = None, mo_extmapAllowMixed = False, mo_ssrcs = None, mo_ssrcGroups = None,
     mo_simulcast = None, mo_simulcast_03 = None, mo_rids = None, mo_rtcpMux = False, mo_rtcpRsize = False,
     mo_xGoogleFlag = False, mo_sctpPort = None, mo_maxMessageSize = None, mo_sctpmap = None\<rparr>"

section \<open>MediaSection\<close>

definition upd :: "(media_object \<Rightarrow> media_object) \<Rightarrow> media_section \<Rightarrow> media_section" where
  "upd f m = m\<lparr>ms_object := f (ms_object m)\<rparr>"

definition ms_mid :: "media_section \<Rightarrow> string" where
  "ms_mid m = mo_mid (ms_object m)"

definition ms_closed :: "media_section \<Rightarrow> bool" where
  "ms_closed m = js_eq (mo_port (ms_object m)) (Fin 0)"

definition setIceParameters :: "ice_parameters \<Rightarrow> media_section \<Rightarrow> media_section" where
  "setIceParameters p = upd (\<lambda>o'. o'\<lparr>mo_ice := Some (ip_usernameFragment p, ip_password p)\<rparr>)"

definition candidate_object_of :: "ice_candidate \<Rightarrow> candidate_object" where
  "candidate_object_of c =
     \<lparr>co_component = Fin 1, co_foundation = ic_foundation c,
      co_ip = (case ic_address c of Some a \<Rightarrow> Some a | None \<Rightarrow> ic_ip c), co_port = ic_port c, co_priority = ic_priority c,
      co_transport = ic_protocol c, co_type = ic_type c,
      co_tcptype = (if ic_tcpType c = Some '''' then None else ic_tcpType c)\<rparr>"

text \<open>The role an answer takes is the one it is told; an offer always leaves it open.\<close>

definition setDtlsRole :: "dtls_role \<Rightarrow> media_section \<Rightarrow> media_section" where
  "setDtlsRole role m =
     (case ms_class m of
        AnswerSection \<Rightarrow> upd (\<lambda>o'. o'\<lparr>mo_setup := Some (case role of
          RoleClient \<Rightarrow> ''active'' | RoleServer \<Rightarrow> ''passive'' | RoleAuto \<Rightarrow> ''actpass'')\<rparr>) m
      | OfferSection \<Rightarrow> upd (\<lambda>o'. o'\<lparr>mo_setup := Some ''actpass''\<rparr>) m)"

definition new_MediaSection ::
    "section_class \<Rightarrow> ice_parameters option \<Rightarrow> ice_candidate list option \<Rightarrow> dtls_parameters option \<Rightarrow> bool \<Rightarrow> media_section" where
  "new_MediaSection cls ice candidates dtls planB =
     (let m0 = \<lparr>ms_class = cls, ms_planB = planB, ms_object = empty_media\<rparr>;
          m1 = (case ice of None \<Rightarrow> m0 | Some p \<Rightarrow> setIceParameters p m0);
          m2 = (case candidates of None \<Rightarrow> m1
                | Some cs \<Rightarrow> upd (\<lambda>o'. o'\<lparr>mo_candidates := Some (map candidate_object_of cs)\<rparr>) m1)
      in case dtls of None \<Rightarrow> m2 | Some d \<Rightarrow> setDtlsRole (dt_role d) m2)"

definition ms_pause :: "media_section \<Rightarrow> media_section" where
  "ms_pause = upd (\<lambda>o'. o'\<lparr>mo_direction := Some ''inactive''\<rparr>)"

definition ms_disable :: "media_section \<Rightarrow> media_section" where
  "ms_disable m = upd (\<lambda>o'. o'\<lparr>mo_ext := None, mo_ssrcs := None, mo_ssrcGroups := None, mo_simulcast := None,
     mo_simulcast_03 := None, mo_rids := None, mo_extmapAllowMixed := False\<rparr>) (ms_pause m)"

definition ms_close :: "media_section \<Rightarrow> media_section" where
  "ms_close m = upd (\<lambda>o'. o'\<lparr>mo_port := Fin 0\<rparr>) (ms_disable m)"

definition ms_resume :: "media_section \<Rightarrow> media_section" where
  "ms_resume m = upd (\<lambda>o'. o'\<lparr>mo_direction := Some (case ms_class m of AnswerSection \<Rightarrow> ''recvonly'' | OfferSection \<Rightarrow> ''sendonly'')\<rparr>) m"

section \<open>Codec lines\<close>

definition getCodecName :: "string \<Rightarrow> string result" where
  "getCodecName mimeType =
     (case mime_kind mimeType of
        None \<Rightarrow> Inl (TypeError ''invalid codec.mimeType'')
      | Some _ \<Rightarrow> Inr (takeWhile (\<lambda>c. \<not> line_end c) (drop 6 mimeType)))"

definition rtp_line_of :: "codec_parameters \<Rightarrow> rtp_line result" where
  "rtp_line_of c =
     bindr (getCodecName (cd_mimeType c)) (\<lambda>name.
       Inr \<lparr>rl_payload = cp_payloadType c, rl_codec = name, rl_rate = cd_clockRate c,
         rl_encoding = (case cd_channels c of Some n \<Rightarrow> if js_gt n (Fin 1) then Some n else None | None \<Rightarrow> None)\<rparr>)"

text \<open>The loop that writes \<open>fmtp.config\<close>.\<close>

fun write_config :: "jsobj \<Rightarrow> string \<Rightarrow> string" where
  "write_config [] config = config"
| "write_config ((key, v) # fs) config =
     write_config fs ((if config = [] then [] else config @ '';'') @ key @ ''='' @ val_str v)"

definition fmtp_of :: "number option \<Rightarrow> jsobj \<Rightarrow> fmtp_line list" where
  "fmtp_of payload parameters =
     (let config = write_config parameters []
      in if config = [] then [] else [\<lparr>fl_payload = payload, fl_config = config\<rparr>])"

definition fb_lines :: "number option \<Rightarrow> rtcp_feedback list \<Rightarrow> fb_line list" where
  "fb_lines payload fbs = map (\<lambda>fb. \<lparr>bl_payload = opt_num payload, bl_type = fb_type fb, bl_subtype = fb_parameter fb\<rparr>) fbs"

definition payload_join :: "codec_parameters \<Rightarrow> string" where
  "payload_join c = (case cp_payloadType c of None \<Rightarrow> '''' | Some n \<Rightarrow> num_str n)"

definition payloads_of :: "codec_parameters list \<Rightarrow> string" where
  "payloads_of cs = join '' '' (map payload_join cs)"

definition add_codec :: "codec_parameters \<Rightarrow> jsobj \<Rightarrow> rtcp_feedback list \<Rightarrow> media_section \<Rightarrow> media_section result" where
  "add_codec c parameters feedback m =
     bindr (rtp_line_of c) (\<lambda>line.
       Inr (upd (\<lambda>o'. o'\<lparr>mo_rtp := mo_rtp o' @ [line], mo_fmtp := mo_fmtp o' @ fmtp_of (cp_payloadType c) parameters,
         mo_rtcpFb := mo_rtcpFb o' @ fb_lines (cp_payloadType c) feedback\<rparr>) m))"

section \<open>AnswerMediaSection\<close>

record codec_options =
  opusStereo :: "bool option"
  opusFec :: "bool option"
  opusDtx :: "bool option"
  opusMaxPlaybackRate :: "number option"
  opusMaxAverageBitrate :: "number option"
  opusPtime :: "number option"
  opusNack :: "bool option"
  videoGoogleStartBitrate :: "number option"
  videoGoogleMaxBitrate :: "number option"
  videoGoogleMinBitrate :: "number option"

definition bit :: "bool \<Rightarrow> jsval" where
  "bit b = VNum (Fin (if b then 1 else 0))"

definition set_opt :: "string \<Rightarrow> ('a \<Rightarrow> jsval) \<Rightarrow> 'a option \<Rightarrow> jsobj \<Rightarrow> jsobj" where
  "set_opt key f v fs = (case v of None \<Rightarrow> fs | Some x \<Rightarrow> jm_set key (f x) fs)"

definition drop_nack :: "rtcp_feedback list \<Rightarrow> rtcp_feedback list" where
  "drop_nack fbs = filter (\<lambda>fb. fb_type fb \<noteq> ''nack'' \<or> (case fb_parameter fb of None \<Rightarrow> False | Some p \<Rightarrow> p \<noteq> [])) fbs"

text \<open>What the options of an opus codec do to the codec of the answer and to the one of the offer.\<close>

definition opus_answer :: "codec_options \<Rightarrow> jsobj \<Rightarrow> jsobj" where
  "opus_answer opt =
     set_opt ''ptime'' VNum (opusPtime opt) \<circ> set_opt ''maxaveragebitrate'' VNum (opusMaxAverageBitrate opt) \<circ>
     set_opt ''maxplaybackrate'' VNum (opusMaxPlaybackRate opt) \<circ> set_opt ''usedtx'' bit (opusDtx opt) \<circ>
     set_opt ''useinbandfec'' bit (opusFec opt) \<circ> set_opt ''stereo'' bit (opusStereo opt)"

definition opus_offer :: "codec_options \<Rightarrow> codec_parameters \<Rightarrow> codec_parameters" where
  "opus_offer opt c =
     (let c' = c\<lparr>cd_parameters := (set_opt ''ptime'' VNum (opusPtime opt) \<circ> set_opt ''usedtx'' bit (opusDtx opt) \<circ>
            set_opt ''useinbandfec'' bit (opusFec opt) \<circ> set_opt ''sprop-stereo'' bit (opusStereo opt)) (cd_parameters c)\<rparr>
      in if opusNack opt \<noteq> Some True then c'\<lparr>cd_rtcpFeedback := drop_nack (cd_rtcpFeedback c')\<rparr> else c')"

definition opus_touches_offer :: "codec_options \<Rightarrow> bool" where
  "opus_touches_offer opt \<longleftrightarrow> opusStereo opt \<noteq> None \<or> opusFec opt \<noteq> None \<or> opusDtx opt \<noteq> None \<or> opusPtime opt \<noteq> None \<or>
     opusNack opt \<noteq> Some True"

definition google_answer :: "codec_options \<Rightarrow> jsobj \<Rightarrow> jsobj" where
  "google_answer opt =
     set_opt ''x-google-min-bitrate'' VNum (videoGoogleMinBitrate opt) \<circ>
     set_opt ''x-google-max-bitrate'' VNum (videoGoogleMaxBitrate opt) \<circ>
     set_opt ''x-google-start-bitrate'' VNum (videoGoogleStartBitrate opt)"

text \<open>\<open>find\<close> by payload type; updating the codec it answers.\<close>

fun update_first :: "('a \<Rightarrow> bool) \<Rightarrow> ('a \<Rightarrow> 'a) \<Rightarrow> 'a list \<Rightarrow> 'a list" where
  "update_first P f [] = []"
| "update_first P f (x # xs) = (if P x then f x # xs else x # update_first P f xs)"

definition same_payload :: "codec_parameters \<Rightarrow> codec_parameters \<Rightarrow> bool" where
  "same_payload c d \<longleftrightarrow> strict_eq (opt_num (cp_payloadType d)) (opt_num (cp_payloadType c))"

definition apply_options ::
    "codec_options option \<Rightarrow> codec_parameters \<Rightarrow> codec_parameters list \<Rightarrow> (jsobj \<times> rtcp_feedback list \<times> codec_parameters list) result" where
  "apply_options opts c offer =
     (case opts of
        None \<Rightarrow> Inr (cd_parameters c, cd_rtcpFeedback c, offer)
      | Some opt \<Rightarrow>
          (let mime = to_lower (cd_mimeType c)
           in if mime = ''audio/opus'' \<or> mime = ''audio/multiopus''
              then if opus_touches_offer opt \<and> \<not> list_ex (same_payload c) offer
                then Inl (TypeError ''Cannot read properties of undefined'')
                else Inr (opus_answer opt (cd_parameters c),
                  (if opusNack opt \<noteq> Some True then drop_nack (cd_rtcpFeedback c) else cd_rtcpFeedback c),
                  update_first (same_payload c) (opus_offer opt) offer)
              else if mime = ''video/vp8'' \<or> mime = ''video/vp9'' \<or> mime = ''video/h264'' \<or> mime = ''video/h265''
              then Inr (google_answer opt (cd_parameters c), cd_rtcpFeedback c, offer)
              else Inr (cd_parameters c, cd_rtcpFeedback c, offer)))"

fun answer_codecs ::
    "codec_options option \<Rightarrow> codec_parameters list \<Rightarrow> codec_parameters list \<Rightarrow> media_section \<Rightarrow> (media_section \<times> codec_parameters list) result" where
  "answer_codecs opts [] offer m = Inr (m, offer)"
| "answer_codecs opts (c # cs) offer m =
     bindr (apply_options opts c offer) (\<lambda>(parameters, feedback, offer').
       bindr (add_codec c parameters feedback m) (\<lambda>m'. answer_codecs opts cs offer' m'))"

fun send_to_recv :: "string \<Rightarrow> string" where
  "send_to_recv (a # b # c # d # s) =
     (if [a, b, c, d] = ''send'' then ''recv'' @ send_to_recv s else a # send_to_recv (b # c # d # s))"
| "send_to_recv s = s"

definition recv_rids :: "media_object \<Rightarrow> rid_line list" where
  "recv_rids offer =
     map (\<lambda>r. \<lparr>ri_id = ri_id r, ri_direction = ''recv''\<rparr>) (filter (\<lambda>r. ri_direction r = ''send'') (case mo_rids offer of None \<Rightarrow> [] | Some rs \<Rightarrow> rs))"

definition answer_simulcast :: "media_object \<Rightarrow> media_object \<Rightarrow> media_object" where
  "answer_simulcast offer o' =
     (case mo_simulcast offer of
        Some (_, list1) \<Rightarrow> o'\<lparr>mo_simulcast := Some (''recv'', list1), mo_rids := Some (recv_rids offer)\<rparr>
      | None \<Rightarrow>
          (case mo_simulcast_03 offer of
             Some v \<Rightarrow> o'\<lparr>mo_simulcast_03 := Some (send_to_recv v), mo_rids := Some (recv_rids offer)\<rparr>
           | None \<Rightarrow> o'))"

definition answer_ext :: "header_extension_parameters list \<Rightarrow> media_object \<Rightarrow> ext_line list" where
  "answer_ext exts offer =
     map (\<lambda>e. \<lparr>el_uri = hp_uri e, el_value = hp_id e, el_encrypt_uri = None\<rparr>)
       (filter (\<lambda>e. list_ex (\<lambda>l. el_uri l = hp_uri e) (case mo_ext offer of None \<Rightarrow> [] | Some ls \<Rightarrow> ls)) exts)"

definition set_address :: "plain_rtp_parameters option \<Rightarrow> media_object \<Rightarrow> media_object" where
  "set_address plain o' =
     (case plain of
        None \<Rightarrow> o'\<lparr>mo_connection := Some (''127.0.0.1'', Fin 4), mo_port := Fin 7\<rparr>
      | Some p \<Rightarrow> o'\<lparr>mo_connection := Some (pl_ip p, pl_ipVersion p), mo_port := pl_port p\<rparr>)"

definition NO_SCTP :: js_error where
  "NO_SCTP = TypeError ''Cannot read properties of undefined''"

text \<open>The data channel part of a section, in the new and in the old form.\<close>

definition set_sctp :: "bool \<Rightarrow> sctp_parameters option \<Rightarrow> media_object \<Rightarrow> media_object result" where
  "set_sctp new sctp o' =
     (case sctp of
        None \<Rightarrow> Inl NO_SCTP
      | Some p \<Rightarrow> Inr (if new
          then o'\<lparr>mo_payloads := ''webrtc-datachannel'', mo_sctpPort := Some (sc_port p), mo_maxMessageSize := Some (sc_maxMessageSize p)\<rparr>
          else o'\<lparr>mo_payloads := num_str (sc_port p), mo_sctpmap := Some (sc_port p, sc_maxMessageSize p)\<rparr>))"

record section_env =
  se_ice :: "ice_parameters option"
  se_candidates :: "ice_candidate list option"
  se_dtls :: "dtls_parameters option"
  se_sctp :: "sctp_parameters option"
  se_plain :: "plain_rtp_parameters option"
  se_planB :: bool

definition set_object :: "media_object \<Rightarrow> media_section \<Rightarrow> media_section" where
  "set_object o' m = m\<lparr>ms_object := o'\<rparr>"

definition new_AnswerMediaSection ::
    "section_env \<Rightarrow> media_object \<Rightarrow> codec_parameters list \<Rightarrow> codec_parameters list \<Rightarrow> header_extension_parameters list \<Rightarrow>
     codec_options option \<Rightarrow> bool \<Rightarrow> (media_section \<times> codec_parameters list) result" where
  "new_AnswerMediaSection env offerMediaObject offerCodecs answerCodecs answerExts codecOptions extmapAllowMixed =
     (let m0 = upd (\<lambda>o'. set_address (se_plain env) (o'\<lparr>mo_mid := mo_mid offerMediaObject, mo_type := mo_type offerMediaObject,
            mo_protocol := mo_protocol offerMediaObject\<rparr>))
            (new_MediaSection AnswerSection (se_ice env) (se_candidates env) (se_dtls env) (se_planB env))
      in if mo_type offerMediaObject = ''audio'' \<or> mo_type offerMediaObject = ''video''
         then bindr (answer_codecs codecOptions answerCodecs offerCodecs (upd (\<lambda>o'. o'\<lparr>mo_direction := Some ''recvonly''\<rparr>) m0)) (\<lambda>(m1, offer').
           Inr (upd (\<lambda>o'. (answer_simulcast offerMediaObject (o'\<lparr>mo_payloads := payloads_of answerCodecs,
               mo_ext := Some (answer_ext answerExts offerMediaObject),
               mo_extmapAllowMixed := (extmapAllowMixed \<and> mo_extmapAllowMixed offerMediaObject)\<rparr>))
               \<lparr>mo_rtcpMux := True, mo_rtcpRsize := True,
                mo_xGoogleFlag := (se_planB env \<and> mo_type offerMediaObject = ''video'')\<rparr>) m1, offer'))
         else if mo_type offerMediaObject = ''application''
         then if mo_sctpPort offerMediaObject \<noteq> None
           then bindr (set_sctp True (se_sctp env) (ms_object m0)) (\<lambda>o'. Inr (set_object o' m0, offerCodecs))
           else if mo_sctpmap offerMediaObject \<noteq> None
           then bindr (set_sctp False (se_sctp env) (ms_object m0)) (\<lambda>o'. Inr (set_object o' m0, offerCodecs))
           else Inr (m0, offerCodecs)
         else Inr (m0, offerCodecs))"

section \<open>Parsers\<close>

text \<open>\<open>split\<close> at a character.\<close>

fun split_at :: "char \<Rightarrow> string \<Rightarrow> string list" where
  "split_at c [] = [[]]"
| "split_at c (x # xs) =
     (if x = c then [] # split_at c xs
      else case split_at c xs of [] \<Rightarrow> [[x]] | y # ys \<Rightarrow> (x # y) # ys)"

definition white :: "char \<Rightarrow> bool" where
  "white c \<longleftrightarrow> c \<in> {CHR 0x09, CHR 0x0A, CHR 0x0B, CHR 0x0C, CHR 0x0D, CHR 0x20, CHR 0xA0}"

text \<open>\<open>split(/;\s?/)\<close>: one blank after a semicolon belongs to it.\<close>

definition drop_blank :: "string \<Rightarrow> string" where
  "drop_blank s = (case s of [] \<Rightarrow> [] | c # cs \<Rightarrow> if white c then cs else s)"

definition split_params :: "string \<Rightarrow> string list" where
  "split_params s = (case split_at (CHR '';'') s of [] \<Rightarrow> [] | x # xs \<Rightarrow> x # map drop_blank xs)"

text \<open>\<open>toIntIfInt\<close>, over the conversion of strings to numbers.\<close>

definition toIntIfInt :: "(string \<Rightarrow> number) \<Rightarrow> string \<Rightarrow> jsval" where
  "toIntIfInt to_number v = (if num_str (to_number v) = v then VNum (to_number v) else VStr v)"

text \<open>\<open>expr.split(/=(.+)/, 2)\<close>: at the first equals sign with something other than a line end after it.\<close>

fun split_equals :: "string \<Rightarrow> (string \<times> string) option" where
  "split_equals [] = None"
| "split_equals [c] = None"
| "split_equals (c # d # s) =
     (if c = CHR ''='' \<and> \<not> line_end d then Some ([], takeWhile (\<lambda>x. \<not> line_end x) (d # s))
      else map_option (\<lambda>(k, v). (c # k, v)) (split_equals (d # s)))"

definition paramReducer :: "(string \<Rightarrow> number) \<Rightarrow> jsobj \<Rightarrow> string \<Rightarrow> jsobj" where
  "paramReducer to_number acc expr =
     (case split_equals expr of
        Some (k, v) \<Rightarrow> jm_set k (toIntIfInt to_number v) acc
      | None \<Rightarrow> if length expr > 1 then jm_set expr VUndef acc else acc)"

definition parseParams :: "(string \<Rightarrow> number) \<Rightarrow> string \<Rightarrow> jsobj" where
  "parseParams to_number s = foldl (paramReducer to_number) [] (split_params s)"

text \<open>A format of a simulcast stream list: its id, written back as it was read, and whether it is paused.\<close>

definition parse_format :: "string \<Rightarrow> string \<times> bool" where
  "parse_format f = (case f of [] \<Rightarrow> ([], False) | c # cs \<Rightarrow> if c = CHR ''~'' then (cs, True) else (f, False))"

definition parseSimulcastStreamList :: "string \<Rightarrow> (string \<times> bool) list list" where
  "parseSimulcastStreamList s = map (\<lambda>stream. map parse_format (split_at (CHR '','') stream)) (split_at (CHR '';'') s)"

section \<open>Simulcast of an answer\<close>

record layer_encoding =
  le_rid :: "string option"
  le_active :: bool

definition layers_of :: "layer_encoding list \<Rightarrow> (string, layer_encoding) jsmap" where
  "layers_of encodings =
     foldl (\<lambda>m e. case le_rid e of Some (c # r) \<Rightarrow> jm_set (c # r) e m | _ \<Rightarrow> m) [] encodings"

definition layer_active :: "(string, layer_encoding) jsmap \<Rightarrow> string \<Rightarrow> bool" where
  "layer_active layers scid = (case jm_get layers scid of None \<Rightarrow> False | Some e \<Rightarrow> le_active e)"

definition write_streams :: "(string \<times> bool) list list \<Rightarrow> string" where
  "write_streams streams =
     join '';'' (map (\<lambda>fs. join '','' (map (\<lambda>(scid, paused). (if paused then ''~'' else []) @ scid) fs)) streams)"

definition muxSimulcastStreams :: "layer_encoding list \<Rightarrow> media_section \<Rightarrow> media_section" where
  "muxSimulcastStreams encodings m =
     (case mo_simulcast (ms_object m) of
        Some (dir1, c # list1) \<Rightarrow>
          (let layers = layers_of encodings;
               streams = map (map (\<lambda>(scid, _). (scid, \<not> layer_active layers scid))) (parseSimulcastStreamList (c # list1))
           in upd (\<lambda>o'. o'\<lparr>mo_simulcast := Some (dir1, write_streams streams)\<rparr>) m)
      | _ \<Rightarrow> m)"

section \<open>OfferMediaSection\<close>

record offer_encoding =
  oe_ssrc :: jsval
  oe_rtxSsrc :: jsval

record offer_parameters =
  op_codecs :: "codec_parameters list"
  op_headerExtensions :: "header_extension_parameters list"
  op_encodings :: "offer_encoding list"
  op_cname :: string

fun offer_codecs :: "codec_parameters list \<Rightarrow> media_section \<Rightarrow> media_section result" where
  "offer_codecs [] m = Inr m"
| "offer_codecs (c # cs) m = bindr (add_codec c (cd_parameters c) (cd_rtcpFeedback c) m) (offer_codecs cs)"

definition msid_of :: "string option \<Rightarrow> string \<Rightarrow> string" where
  "msid_of streamId trackId = (case streamId of None \<Rightarrow> ''-'' | Some s \<Rightarrow> s) @ '' '' @ trackId"

text \<open>The ssrc lines of one stream; \<open>msid\<close> is there in Plan-B.\<close>

definition ssrc_lines :: "string \<Rightarrow> string option \<Rightarrow> jsval \<Rightarrow> ssrc_line list" where
  "ssrc_lines cname msid ssrc =
     (if cname \<noteq> [] then [\<lparr>sl_id = ssrc, sl_attribute = ''cname'', sl_value = cname\<rparr>] else []) @
     (case msid of None \<Rightarrow> [] | Some v \<Rightarrow> [\<lparr>sl_id = ssrc, sl_attribute = ''msid'', sl_value = v\<rparr>])"

definition stream_lines :: "string \<Rightarrow> string option \<Rightarrow> offer_encoding \<Rightarrow> ssrc_line list \<times> ssrc_group list" where
  "stream_lines cname msid e =
     (if truthy (oe_rtxSsrc e)
      then (ssrc_lines cname msid (oe_ssrc e) @ ssrc_lines cname msid (oe_rtxSsrc e),
        [\<lparr>sg_semantics = ''FID'', sg_ssrcs = val_str (oe_ssrc e) @ '' '' @ val_str (oe_rtxSsrc e)\<rparr>])
      else (ssrc_lines cname msid (oe_ssrc e), []))"

definition no_encoding :: js_error where
  "no_encoding = TypeError ''Cannot read properties of undefined''"

definition offer_start :: "section_env \<Rightarrow> string \<Rightarrow> string \<Rightarrow> media_section" where
  "offer_start env mid kind =
     upd (\<lambda>o'. (set_address (se_plain env) (o'\<lparr>mo_mid := mid, mo_type := kind\<rparr>))
       \<lparr>mo_protocol := (case se_plain env of Some _ \<Rightarrow> ''RTP/AVP''
          | None \<Rightarrow> if se_sctp env = None then ''UDP/TLS/RTP/SAVPF'' else ''UDP/DTLS/SCTP'')\<rparr>)
       (new_MediaSection OfferSection (se_ice env) (se_candidates env) (se_dtls env) (se_planB env))"

definition offer_direction :: "bool \<Rightarrow> string \<Rightarrow> media_section \<Rightarrow> media_section" where
  "offer_direction planB msid =
     upd (\<lambda>o'. o'\<lparr>mo_direction := Some ''sendonly'', mo_msid := (if planB then None else Some msid)\<rparr>)"

definition offer_finish :: "bool \<Rightarrow> string \<Rightarrow> offer_parameters \<Rightarrow> offer_encoding \<Rightarrow> media_section \<Rightarrow> media_section" where
  "offer_finish planB msid offer e =
     (let lines = stream_lines (op_cname offer) (if planB then Some msid else None) e
      in upd (\<lambda>o'. o'\<lparr>mo_payloads := payloads_of (op_codecs offer),
           mo_ext := Some (map (\<lambda>x. \<lparr>el_uri = hp_uri x, el_value = hp_id x, el_encrypt_uri = None\<rparr>) (op_headerExtensions offer)),
           mo_rtcpMux := True, mo_rtcpRsize := True, mo_ssrcs := Some (fst lines), mo_ssrcGroups := Some (snd lines)\<rparr>))"

definition new_OfferMediaSection ::
    "section_env \<Rightarrow> string \<Rightarrow> string \<Rightarrow> offer_parameters \<Rightarrow> string option \<Rightarrow> string \<Rightarrow> bool \<Rightarrow> media_section result" where
  "new_OfferMediaSection env mid kind offer streamId trackId oldDataChannelSpec =
     (let m0 = offer_start env mid kind;
          msid = msid_of streamId trackId
      in if kind = ''audio'' \<or> kind = ''video''
         then bindr (offer_codecs (op_codecs offer) (offer_direction (se_planB env) msid m0)) (\<lambda>m1.
           case op_encodings offer of
             [] \<Rightarrow> Inl no_encoding
           | e # _ \<Rightarrow> Inr (offer_finish (se_planB env) msid offer e m1))
         else if kind = ''application''
         then bindr (set_sctp (\<not> oldDataChannelSpec) (se_sctp env) (ms_object m0)) (\<lambda>o'. Inr (set_object o' m0))
         else Inr m0)"

section \<open>Plan-B\<close>

text \<open>\<open>payloads.includes\<close> of a string looks for a piece of it.\<close>

fun is_infix :: "string \<Rightarrow> string \<Rightarrow> bool" where
  "is_infix p [] = (p = [])"
| "is_infix p (c # cs) = (take (length p) (c # cs) = p \<or> is_infix p cs)"

fun trim_left :: "string \<Rightarrow> string" where
  "trim_left [] = []"
| "trim_left (c # cs) = (if white c then trim_left cs else c # cs)"

definition trim :: "string \<Rightarrow> string" where
  "trim s = rev (trim_left (rev (trim_left s)))"

definition payload_str :: "codec_parameters \<Rightarrow> string" where
  "payload_str c = val_str (opt_num (cp_payloadType c))"

definition push_lines :: "'a list \<Rightarrow> 'a list option \<Rightarrow> 'a list option result" where
  "push_lines ls l = (case l of None \<Rightarrow> if ls = [] then Inr None else Inl no_encoding | Some xs \<Rightarrow> Inr (Some (xs @ ls)))"

definition planBReceive :: "offer_parameters \<Rightarrow> string option \<Rightarrow> string \<Rightarrow> media_section \<Rightarrow> media_section result" where
  "planBReceive offer streamId trackId m =
     (case op_encodings offer of
        [] \<Rightarrow> Inl no_encoding
      | e # _ \<Rightarrow>
          (let payloads = mo_payloads (ms_object m);
               listed = split_at (CHR '' '') payloads;
               lines = stream_lines (op_cname offer) (Some (msid_of streamId trackId)) e
           in bindr (offer_codecs (filter (\<lambda>c. payload_str c \<notin> set listed) (op_codecs offer)) m) (\<lambda>m1.
              bindr (push_lines (fst lines) (mo_ssrcs (ms_object m))) (\<lambda>ssrcs.
              bindr (push_lines (snd lines) (mo_ssrcGroups (ms_object m))) (\<lambda>groups.
                Inr (upd (\<lambda>o'. o'\<lparr>mo_payloads := trim (payloads @ '' '' @
                    join '' '' (map payload_join (filter (\<lambda>c. \<not> is_infix (payload_str c) payloads) (op_codecs offer)))),
                  mo_ssrcs := ssrcs, mo_ssrcGroups := groups\<rparr>) m1))))))"

definition planBStopReceiving :: "offer_parameters \<Rightarrow> media_section \<Rightarrow> media_section result" where
  "planBStopReceiving offer m =
     (case (op_encodings offer, mo_ssrcs (ms_object m)) of
        (e # _, Some ssrcs) \<Rightarrow>
          (let kept = filter (\<lambda>s. \<not> strict_eq (sl_id s) (oe_ssrc e) \<and> \<not> strict_eq (sl_id s) (oe_rtxSsrc e)) ssrcs;
               group = val_str (oe_ssrc e) @ '' '' @ val_str (oe_rtxSsrc e)
           in if truthy (oe_rtxSsrc e)
              then (case mo_ssrcGroups (ms_object m) of
                 None \<Rightarrow> Inl no_encoding
               | Some gs \<Rightarrow> Inr (upd (\<lambda>o'. o'\<lparr>mo_ssrcs := Some kept, mo_ssrcGroups := Some (filter (\<lambda>g. sg_ssrcs g \<noteq> group) gs)\<rparr>) m))
              else Inr (upd (\<lambda>o'. o'\<lparr>mo_ssrcs := Some kept\<rparr>) m))
      | _ \<Rightarrow> Inl no_encoding)"

section \<open>Joining and splitting\<close>

lemma join_Cons: "join sep (x # xs) = x @ concat (map (\<lambda>y. sep @ y) xs)"
  by (induction xs arbitrary: x) simp_all

lemma split_at_none: "c \<notin> set x \<Longrightarrow> split_at c x = [x]"
  by (induction x) auto

lemma split_at_append: "c \<notin> set x \<Longrightarrow> split_at c (x @ c # y) = x # split_at c y"
  by (induction x) auto

lemma split_at_join:
  assumes "xs \<noteq> []" "list_all (\<lambda>x. c \<notin> set x) xs"
  shows "split_at c (join [c] xs) = xs"
  using assms by (induction "[c]" xs rule: join.induct) (simp_all add: split_at_none split_at_append)

lemma split_at_parts: "list_all (\<lambda>x. c \<notin> set x) (split_at c s)" "split_at c s \<noteq> []"
  by (induction s) (auto split: list.splits)

lemma join_split_at: "join [c] (split_at c s) = s"
proof (induction s)
  case (Cons x s)
  obtain y ys where y: "split_at c s = y # ys" using split_at_parts(2) by (cases "split_at c s") auto
  with Cons show ?case by (simp add: join_Cons)
qed simp

lemma join_superset: "x \<in> set xs \<Longrightarrow> set x \<subseteq> set (join sep xs)"
  by (induction sep xs rule: join.induct) auto

section \<open>Codec parameters in a section\<close>

definition piece :: "string \<times> jsval \<Rightarrow> string" where
  "piece p = fst p @ ''='' @ val_str (snd p)"

lemma write_config_join: "write_config fs [] = join '';'' (map piece fs)"
proof -
  have acc: "write_config fs acc = acc @ concat (map (\<lambda>y. '';'' @ y) (map piece fs))" if "acc \<noteq> []" for fs acc
    using that by (induction fs acc rule: write_config.induct) (auto simp: piece_def)
  show ?thesis
    by (cases fs) (auto simp: acc join_Cons piece_def)
qed

text \<open>A parameter that a section can carry: no separator in it, and a value.\<close>

definition param_ok :: "string \<times> jsval \<Rightarrow> bool" where
  "param_ok p \<longleftrightarrow> CHR ''='' \<notin> set (fst p) \<and> CHR '';'' \<notin> set (fst p) \<and> \<not> (fst p \<noteq> [] \<and> white (hd (fst p))) \<and>
     val_str (snd p) \<noteq> [] \<and> CHR '';'' \<notin> set (val_str (snd p)) \<and> list_all (\<lambda>c. \<not> line_end c) (val_str (snd p))"

lemma split_equals_piece: "param_ok p \<Longrightarrow> split_equals (piece p) = Some (fst p, val_str (snd p))"
proof -
  assume ok: "param_ok p"
  obtain d v where v: "val_str (snd p) = d # v" using ok by (cases "val_str (snd p)") (auto simp: param_ok_def)
  have "takeWhile (\<lambda>x. \<not> line_end x) (d # v) = d # v" "\<not> line_end d"
    using ok v by (auto simp: param_ok_def list_all_iff takeWhile_eq_all_conv)
  then have "split_equals (k @ CHR ''='' # d # v) = Some (k, d # v)" if "CHR ''='' \<notin> set k" for k
    using that
  proof (induction k)
    case (Cons c k)
    then show ?case by (cases k) auto
  qed simp
  with ok show ?thesis by (simp add: piece_def v param_ok_def)
qed

lemma split_params_config:
  assumes "fs \<noteq> []" "list_all param_ok fs"
  shows "split_params (write_config fs []) = map piece fs"
proof -
  have "list_all (\<lambda>x. CHR '';'' \<notin> set x) (map piece fs)"
    using assms(2) by (auto simp: list_all_iff param_ok_def piece_def)
  then have "split_at (CHR '';'') (write_config fs []) = map piece fs"
    using assms(1) by (simp add: write_config_join split_at_join)
  moreover have "drop_blank (piece p) = piece p" if "p \<in> set fs" for p
    using assms(2) that by (cases "fst p") (auto simp: list_all_iff param_ok_def piece_def drop_blank_def white_def)
  ultimately show ?thesis
    using assms(1) by (cases fs) (simp_all add: split_params_def)
qed

lemma val_str_toIntIfInt [simp]: "val_str (toIntIfInt to_number v) = v"
  by (simp add: toIntIfInt_def)

lemma paramReducer_run:
  assumes "list_all param_ok fs" "distinct (map fst acc @ map fst fs)"
  shows "foldl (paramReducer to_number) acc (map piece fs) = acc @ map (\<lambda>p. (fst p, toIntIfInt to_number (val_str (snd p)))) fs"
  using assms
proof (induction fs arbitrary: acc)
  case (Cons p fs)
  have "jm_set (fst p) v acc = acc @ [(fst p, v)]" for v
    using Cons.prems(2) by (intro jm_set_new) (auto simp: jm_keys_def)
  with Cons show ?case by (simp add: paramReducer_def split_equals_piece)
qed simp

lemma parse_written:
  assumes "distinct (map fst fs)" "list_all param_ok fs"
  shows "parseParams to_number (write_config fs []) = map (\<lambda>p. (fst p, toIntIfInt to_number (val_str (snd p)))) fs"
proof (cases "fs = []")
  case True
  then show ?thesis by (simp add: parseParams_def split_params_def paramReducer_def)
next
  case False
  then show ?thesis
    using paramReducer_run [OF assms(2), of "[]" to_number] assms(1) split_params_config [OF False assms(2)]
    by (simp add: parseParams_def)
qed

text \<open>The parameters of a codec that a section writes are the ones that \<open>parseParams\<close> reads back: the same keys in
  the same order, each with a value that prints alike, as long as no key or value holds a separator and
  every value prints as something.\<close>

theorem codec_parameters_roundtrip:
  assumes "distinct (map fst fs)" "list_all param_ok fs"
  shows "map (\<lambda>(k, v). (k, val_str v)) (parseParams to_number (write_config fs [])) = map (\<lambda>(k, v). (k, val_str v)) fs"
  by (simp add: parse_written [OF assms] case_prod_unfold)

definition opus_fmtp :: jsobj where
  "opus_fmtp = [(''minptime'', VNum (Fin 10)), (''useinbandfec'', VNum (Fin 1)), (''sprop'', VStr ''a=b'')]"

theorem codec_parameters_roundtrip_witness:
  "map (\<lambda>(k, v). (k, val_str v)) (parseParams (\<lambda>s. if s = ''10'' then Fin 10 else if s = ''1'' then Fin 1 else NaN)
     (write_config opus_fmtp [])) = [(''minptime'', ''10''), (''useinbandfec'', ''1''), (''sprop'', ''a=b'')]"
proof -
  have "distinct (map fst opus_fmtp)" "list_all param_ok opus_fmtp"
    "map (\<lambda>(k, v). (k, val_str v)) opus_fmtp = [(''minptime'', ''10''), (''useinbandfec'', ''1''), (''sprop'', ''a=b'')]"
    by code_simp+
  with codec_parameters_roundtrip [of opus_fmtp] show ?thesis by simp
qed

text \<open>A parameter without a value is validated to the empty string, and comes back under another name.\<close>

lemma empty_parameter_lost:
  "parseParams to_number (write_config [(''flag'', VStr '''')] []) = [(''flag='', VUndef)]"
  by (simp add: parseParams_def split_params_def paramReducer_def)

section \<open>Plan-B\<close>

lemma upd_simps [simp]: "ms_object (upd f m) = f (ms_object m)" "ms_class (upd f m) = ms_class m" "ms_planB (upd f m) = ms_planB m"
  by (simp_all add: upd_def)

lemma add_codec_frame:
  "add_codec c ps fbs m = Inr m' \<Longrightarrow>
     mo_ssrcs (ms_object m') = mo_ssrcs (ms_object m) \<and> mo_ssrcGroups (ms_object m') = mo_ssrcGroups (ms_object m) \<and>
     mo_simulcast (ms_object m') = mo_simulcast (ms_object m) \<and> mo_mid (ms_object m') = mo_mid (ms_object m) \<and>
     mo_port (ms_object m') = mo_port (ms_object m) \<and> map rl_payload (mo_rtp (ms_object m')) = map rl_payload (mo_rtp (ms_object m)) @ [cp_payloadType c]"
  by (auto simp: add_codec_def rtp_line_of_def bindr_eq_Inr)

lemma offer_codecs_frame:
  "offer_codecs cs m = Inr m' \<Longrightarrow>
     mo_ssrcs (ms_object m') = mo_ssrcs (ms_object m) \<and> mo_ssrcGroups (ms_object m') = mo_ssrcGroups (ms_object m) \<and>
     mo_mid (ms_object m') = mo_mid (ms_object m) \<and> mo_port (ms_object m') = mo_port (ms_object m) \<and>
     map rl_payload (mo_rtp (ms_object m')) = map rl_payload (mo_rtp (ms_object m)) @ map cp_payloadType cs"
proof (induction cs arbitrary: m)
  case (Cons c cs)
  then obtain m1 where "add_codec c (cd_parameters c) (cd_rtcpFeedback c) m = Inr m1" "offer_codecs cs m1 = Inr m'"
    by (auto simp: bindr_eq_Inr)
  with Cons.IH [OF this(2)] add_codec_frame [OF this(1)] show ?case by simp
qed simp

text \<open>The streams of an encoding are new to a section.\<close>

definition streams_new :: "offer_encoding \<Rightarrow> media_section \<Rightarrow> bool" where
  "streams_new e m \<longleftrightarrow>
     (case mo_ssrcs (ms_object m) of None \<Rightarrow> True
      | Some ls \<Rightarrow> list_all (\<lambda>s. \<not> strict_eq (sl_id s) (oe_ssrc e) \<and> \<not> strict_eq (sl_id s) (oe_rtxSsrc e)) ls) \<and>
     (case mo_ssrcGroups (ms_object m) of None \<Rightarrow> True
      | Some gs \<Rightarrow> list_all (\<lambda>g. sg_ssrcs g \<noteq> val_str (oe_ssrc e) @ '' '' @ val_str (oe_rtxSsrc e)) gs)"

lemma ssrc_lines_removed:
  assumes "oe_ssrc e \<noteq> VNum NaN" "oe_rtxSsrc e \<noteq> VNum NaN"
  shows "filter (\<lambda>s. \<not> strict_eq (sl_id s) (oe_ssrc e) \<and> \<not> strict_eq (sl_id s) (oe_rtxSsrc e)) (fst (stream_lines cname msid e)) = []"
  using assms by (auto simp: stream_lines_def ssrc_lines_def strict_eq_def filter_empty_conv split: option.split)

text \<open>In Plan-B several streams share one section. Stopping a stream takes out exactly the lines that receiving it
  added: the ssrc lines and groups of the others are as before, and the section keeps its place and its port.\<close>

theorem planB_stop_undoes_receive:
  assumes rec: "planBReceive offer streamId trackId m = Inr m'" and e: "op_encodings offer = e # es"
    and num: "oe_ssrc e \<noteq> VNum NaN" "oe_rtxSsrc e \<noteq> VNum NaN" and new: "streams_new e m"
  shows "\<exists>m''. planBStopReceiving offer m' = Inr m'' \<and> mo_ssrcs (ms_object m'') = mo_ssrcs (ms_object m) \<and>
    mo_ssrcGroups (ms_object m'') = mo_ssrcGroups (ms_object m) \<and> ms_mid m'' = ms_mid m \<and> ms_closed m'' = ms_closed m"
proof -
  let ?lines = "stream_lines (op_cname offer) (Some (msid_of streamId trackId)) e"
  let ?keep = "\<lambda>s. \<not> strict_eq (sl_id s) (oe_ssrc e) \<and> \<not> strict_eq (sl_id s) (oe_rtxSsrc e)"
  obtain m1 ssrcs groups where m1: "offer_codecs (filter (\<lambda>c. payload_str c \<notin> set (split_at (CHR '' '') (mo_payloads (ms_object m)))) (op_codecs offer)) m = Inr m1"
    and s: "push_lines (fst ?lines) (mo_ssrcs (ms_object m)) = Inr ssrcs"
    and g: "push_lines (snd ?lines) (mo_ssrcGroups (ms_object m)) = Inr groups"
    and m': "mo_ssrcs (ms_object m') = ssrcs" "mo_ssrcGroups (ms_object m') = groups"
      "mo_mid (ms_object m') = mo_mid (ms_object m1)" "mo_port (ms_object m') = mo_port (ms_object m1)"
    using rec e by (auto simp: planBReceive_def Let_def bindr_eq_Inr)
  have "fst ?lines \<noteq> []" by (simp add: stream_lines_def ssrc_lines_def)
  then obtain old where old: "mo_ssrcs (ms_object m) = Some old" "ssrcs = Some (old @ fst ?lines)"
    using s by (cases "mo_ssrcs (ms_object m)") (auto simp: push_lines_def)
  have kept: "filter ?keep (old @ fst ?lines) = old"
    using new ssrc_lines_removed [OF num] by (simp add: streams_new_def old filter_id_conv list_all_iff)
  show ?thesis
  proof (cases "truthy (oe_rtxSsrc e)")
    case False
    then have "groups = mo_ssrcGroups (ms_object m)" using g by (auto simp: stream_lines_def push_lines_def split: option.splits)
    with False e m' old kept offer_codecs_frame [OF m1] show ?thesis
      by (simp add: planBStopReceiving_def ms_mid_def ms_closed_def Let_def)
  next
    case True
    then obtain gs where gs: "mo_ssrcGroups (ms_object m) = Some gs" "groups = Some (gs @ snd ?lines)"
      using g by (cases "mo_ssrcGroups (ms_object m)") (auto simp: push_lines_def stream_lines_def)
    have "filter (\<lambda>g. sg_ssrcs g \<noteq> val_str (oe_ssrc e) @ '' '' @ val_str (oe_rtxSsrc e)) (gs @ snd ?lines) = gs"
      using new True gs by (auto simp: streams_new_def stream_lines_def filter_id_conv list_all_iff)
    with True e m' old kept gs offer_codecs_frame [OF m1] show ?thesis
      by (simp add: planBStopReceiving_def ms_mid_def ms_closed_def Let_def)
  qed
qed

definition planB_section :: media_section where
  "planB_section = \<lparr>ms_class = OfferSection, ms_planB = True, ms_object = empty_media\<lparr>mo_mid := ''audio'', mo_port := Fin 7,
     mo_payloads := ''100'', mo_ssrcs := Some [\<lparr>sl_id = VNum (Fin 1), sl_attribute = ''msid'', sl_value = ''- t''\<rparr>], mo_ssrcGroups := Some []\<rparr>\<rparr>"

definition stream_offer :: "number \<Rightarrow> offer_parameters" where
  "stream_offer pt = \<lparr>op_codecs = [\<lparr>cd_mimeType = ''audio/PCMU'', cd_clockRate = Fin 8000, cd_channels = None, cd_parameters = [],
      cd_rtcpFeedback = [], cp_payloadType = Some pt\<rparr>], op_headerExtensions = [],
      op_encodings = [\<lparr>oe_ssrc = VNum (Fin 2), oe_rtxSsrc = VNum (Fin 3)\<rparr>], op_cname = ''c''\<rparr>"

theorem planB_stop_undoes_receive_witness:
  "\<exists>m' m''. planBReceive (stream_offer (Fin 8)) None ''u'' planB_section = Inr m' \<and> planBStopReceiving (stream_offer (Fin 8)) m' = Inr m'' \<and>
     mo_ssrcs (ms_object m'') = mo_ssrcs (ms_object planB_section)"
proof -
  have "is_ok (planBReceive (stream_offer (Fin 8)) None ''u'' planB_section)" by code_simp
  then obtain m' where m': "planBReceive (stream_offer (Fin 8)) None ''u'' planB_section = Inr m'"
    by (cases "planBReceive (stream_offer (Fin 8)) None ''u'' planB_section") (auto simp: is_ok_def)
  have "streams_new \<lparr>oe_ssrc = VNum (Fin 2), oe_rtxSsrc = VNum (Fin 3)\<rparr> planB_section" by code_simp
  with planB_stop_undoes_receive [OF m', of "\<lparr>oe_ssrc = VNum (Fin 2), oe_rtxSsrc = VNum (Fin 3)\<rparr>" "[]"] m' show ?thesis
    by (auto simp: stream_offer_def)
qed

text \<open>Whether a payload type is listed is looked up in the string: 0 is a piece of 100. The codec then has its
  lines in the section, but is missing from the payload types of the \<open>m=\<close> line.\<close>

lemma planB_payload_omitted:
  "case planBReceive (stream_offer (Fin 0)) None ''u'' planB_section of
     Inr m \<Rightarrow> map rl_payload (mo_rtp (ms_object m)) = [Some (Fin 0)] \<and> mo_payloads (ms_object m) = ''100''
   | Inl _ \<Rightarrow> False"
  by code_simp

section \<open>Simulcast\<close>

lemma write_streams_parse:
  assumes "ss \<noteq> []" "list_all (\<lambda>fs. fs \<noteq> [] \<and> list_all (\<lambda>(i, p). CHR '';'' \<notin> set i \<and> CHR '','' \<notin> set i \<and> take 1 i \<noteq> ''~'') fs) ss"
  shows "parseSimulcastStreamList (write_streams ss) = ss"
proof -
  define w where "w = (\<lambda>(i :: string, p). (if p then ''~'' else []) @ i)"
  have no: "list_all (\<lambda>x. CHR '','' \<notin> set x) (map w fs)" "CHR '';'' \<notin> set (join '','' (map w fs))" "map parse_format (map w fs) = fs"
    if "fs \<in> set ss" for fs
  proof -
    have ok: "list_all (\<lambda>(i, p). CHR '';'' \<notin> set i \<and> CHR '','' \<notin> set i \<and> take 1 i \<noteq> ''~'') fs" "fs \<noteq> []"
      using assms(2) that by (auto simp: list_all_iff)
    then show "list_all (\<lambda>x. CHR '','' \<notin> set x) (map w fs)" by (auto simp: list_all_iff w_def)
    show "CHR '';'' \<notin> set (join '','' (map w fs))"
      using ok by (cases fs) (auto simp: join_Cons list_all_iff w_def)
    have "parse_format (w x) = x" if "x \<in> set fs" for x
      using ok(1) that by (cases "fst x") (auto simp: list_all_iff w_def parse_format_def)
    then show "map parse_format (map w fs) = fs" by (simp add: map_idI)
  qed
  have "split_at (CHR '';'') (write_streams ss) = map (\<lambda>fs. join '','' (map w fs)) ss"
    unfolding write_streams_def w_def [symmetric]
    by (rule split_at_join) (use assms(1) no(2) in \<open>auto simp: list_all_iff\<close>)
  moreover have "split_at (CHR '','') (join '','' (map w fs)) = map w fs" if "fs \<in> set ss" for fs
    by (rule split_at_join) (use assms(2) that no(1) [OF that] in \<open>auto simp: list_all_iff\<close>)
  ultimately show ?thesis using no(3) by (simp add: parseSimulcastStreamList_def map_idI)
qed

text \<open>After \<open>muxSimulcastStreams\<close> the answer lists the same simulcast streams in the same order, and marks as
  paused exactly those without an active encoding of their rid.\<close>

theorem mux_pauses_inactive_layers:
  assumes "mo_simulcast (ms_object m) = Some (dir1, list1)" "list1 \<noteq> []"
    and "list_all (list_all (\<lambda>(i, p). take 1 i \<noteq> ''~'')) (parseSimulcastStreamList list1)"
  shows "\<exists>l. mo_simulcast (ms_object (muxSimulcastStreams encodings m)) = Some (dir1, l) \<and>
    parseSimulcastStreamList l =
      map (map (\<lambda>(i, _). (i, \<not> layer_active (layers_of encodings) i))) (parseSimulcastStreamList list1)"
proof -
  let ?ss = "map (map (\<lambda>(i, _). (i, \<not> layer_active (layers_of encodings) i))) (parseSimulcastStreamList list1)"
  have "list_all (\<lambda>fs. fs \<noteq> [] \<and> list_all (\<lambda>(i, p). CHR '';'' \<notin> set i \<and> CHR '','' \<notin> set i \<and> take 1 i \<noteq> ''~'') fs) ?ss"
  proof -
    have "CHR '';'' \<notin> set i \<and> CHR '','' \<notin> set i" if fs: "fs \<in> set (parseSimulcastStreamList list1)" and i: "(i, p) \<in> set fs" for fs i p
    proof -
      obtain st f where st: "st \<in> set (split_at (CHR '';'') list1)" "f \<in> set (split_at (CHR '','') st)" "parse_format f = (i, p)"
        using fs i by (auto simp: parseSimulcastStreamList_def)
      have semi: "CHR '';'' \<notin> set st" and comma: "CHR '','' \<notin> set f"
        using st split_at_parts(1) by (fastforce simp: list_all_iff)+
      have "set f \<subseteq> set st"
        using join_superset [OF st(2), of "[CHR '','']"] by (simp add: join_split_at)
      moreover have "set i \<subseteq> set f" using st(3) by (cases f) (auto simp: parse_format_def split: if_splits)
      ultimately show ?thesis using semi comma by blast
    qed
    moreover have "fs \<noteq> []" if "fs \<in> set (parseSimulcastStreamList list1)" for fs
      using that split_at_parts(2) by (auto simp: parseSimulcastStreamList_def)
    ultimately show ?thesis using assms(3) by (fastforce simp: list_all_iff)
  qed
  moreover have "?ss \<noteq> []" using split_at_parts(2) by (simp add: parseSimulcastStreamList_def)
  ultimately have "parseSimulcastStreamList (write_streams ?ss) = ?ss" using write_streams_parse by blast
  then show ?thesis using assms(1,2) by (cases list1) (auto simp: muxSimulcastStreams_def Let_def)
qed

definition simulcast_section :: media_section where
  "simulcast_section = \<lparr>ms_class = AnswerSection, ms_planB = False, ms_object = empty_media\<lparr>mo_simulcast := Some (''recv'', ''r0;r1,~r2'')\<rparr>\<rparr>"

theorem mux_pauses_inactive_layers_witness:
  "\<exists>l. mo_simulcast (ms_object (muxSimulcastStreams [\<lparr>le_rid = Some ''r0'', le_active = True\<rparr>, \<lparr>le_rid = Some ''r1'', le_active = False\<rparr>] simulcast_section)) = Some (''recv'', l) \<and>
     parseSimulcastStreamList l = [[(''r0'', False)], [(''r1'', True), (''r2'', True)]]"
proof -
  let ?e = "[\<lparr>le_rid = Some ''r0'', le_active = True\<rparr>, \<lparr>le_rid = Some ''r1'', le_active = False\<rparr>]"
  have "mo_simulcast (ms_object simulcast_section) = Some (''recv'', ''r0;r1,~r2'')" by code_simp
  moreover have "list_all (list_all (\<lambda>(i, p). take 1 i \<noteq> ''~'')) (parseSimulcastStreamList ''r0;r1,~r2'')" by code_simp
  moreover have "map (map (\<lambda>(i, _). (i, \<not> layer_active (layers_of ?e) i))) (parseSimulcastStreamList ''r0;r1,~r2'') =
      [[(''r0'', False)], [(''r1'', True), (''r2'', True)]]" by code_simp
  ultimately show ?thesis using mux_pauses_inactive_layers [of simulcast_section "''recv''" "''r0;r1,~r2''" ?e] by simp
qed

end
