(* ===== verification/SdpUtils.thy ===== *)
theory SdpUtils
  imports MediaSection
begin

text \<open>
  What the browser handlers read out of a parsed session description and write into it before it is
  applied: \<open>handlers/sdp/commonUtils.js\<close>, \<open>unifiedPlanUtils.js\<close>, \<open>planBUtils.js\<close>, \<open>plainRtpUtils.js\<close>,
  \<open>handlers/ortc/utils.js\<close> and \<open>scalabilityModes.js\<close>. A parsed description is the object that \<open>sdp-transform\<close>
  makes of the text, with every attribute that is not a number kept as text. A function that writes to the
  object it is given answers it as it is left.
\<close>

section \<open>Numbers in strings\<close>

text \<open>\<open>Number\<close> of a string: blanks at the ends do not count, nothing is zero, and what is neither a decimal literal nor
  one in base 16, 8 or 2 is not a number.\<close>

definition digit :: "char \<Rightarrow> nat" where
  "digit c = (let n = of_char c in
     if 48 \<le> n \<and> n \<le> 57 then n - 48 else if 65 \<le> n \<and> n \<le> 90 then n - 55 else if 97 \<le> n \<and> n \<le> 122 then n - 87 else 36)"

definition is_digit :: "char \<Rightarrow> bool" where
  "is_digit c \<longleftrightarrow> digit c < 10"

definition digits_value :: "nat \<Rightarrow> string \<Rightarrow> nat" where
  "digits_value base s = foldl (\<lambda>n c. base * n + digit c) 0 s"

definition exponent_part :: "string \<Rightarrow> int option" where
  "exponent_part s =
     (case s of
        [] \<Rightarrow> Some 0
      | c # r \<Rightarrow> if c \<noteq> CHR ''e'' \<and> c \<noteq> CHR ''E'' then None
          else let sign = (if r \<noteq> [] \<and> hd r = CHR ''-'' then -1 else 1);
                   d = (if r \<noteq> [] \<and> (hd r = CHR ''-'' \<or> hd r = CHR ''+'') then tl r else r)
               in if d \<noteq> [] \<and> list_all is_digit d then Some (sign * int (digits_value 10 d)) else None)"

definition decimal_literal :: "string \<Rightarrow> rat option" where
  "decimal_literal s =
     (let ip = takeWhile is_digit s; r = dropWhile is_digit s;
          fp = (if r \<noteq> [] \<and> hd r = CHR ''.'' then takeWhile is_digit (tl r) else []);
          r' = (if r \<noteq> [] \<and> hd r = CHR ''.'' then dropWhile is_digit (tl r) else r)
      in if ip = [] \<and> fp = [] then None
         else map_option (\<lambda>e. of_nat (digits_value 10 (ip @ fp)) * 10 powi (e - int (length fp))) (exponent_part r'))"

definition base_literal :: "nat \<Rightarrow> string \<Rightarrow> number" where
  "base_literal base s = (if s \<noteq> [] \<and> list_all (\<lambda>c. digit c < base) s then js_num (of_nat (digits_value base s)) else NaN)"

definition signed_literal :: "string \<Rightarrow> number" where
  "signed_literal s =
     (let neg = (s \<noteq> [] \<and> hd s = CHR ''-'');
          d = (if s \<noteq> [] \<and> (hd s = CHR ''-'' \<or> hd s = CHR ''+'') then tl s else s)
      in if d = ''Infinity'' then (if neg then NegInf else PosInf)
         else case decimal_literal d of None \<Rightarrow> NaN | Some x \<Rightarrow> js_num (if neg then - x else x))"

definition str_number :: "string \<Rightarrow> number" where
  "str_number s =
     (case trim s of
        [] \<Rightarrow> Fin 0
      | c # r \<Rightarrow>
          if c = CHR ''0'' \<and> r \<noteq> [] \<and> (hd r = CHR ''x'' \<or> hd r = CHR ''X'') then base_literal 16 (tl r)
          else if c = CHR ''0'' \<and> r \<noteq> [] \<and> (hd r = CHR ''o'' \<or> hd r = CHR ''O'') then base_literal 8 (tl r)
          else if c = CHR ''0'' \<and> r \<noteq> [] \<and> (hd r = CHR ''b'' \<or> hd r = CHR ''B'') then base_literal 2 (tl r)
          else signed_literal (c # r))"

text \<open>\<open>Number\<close> and the sum with a number, of a parsed value.\<close>

fun val_number :: "jsval \<Rightarrow> number" where
  "val_number VUndef = NaN"
| "val_number VNull = Fin 0"
| "val_number (VBool b) = (if b then Fin 1 else Fin 0)"
| "val_number (VNum n) = n"
| "val_number (VStr s) = str_number s"
| "val_number (VArr vs) = str_number (val_str (VArr vs))"
| "val_number (VObj fs) = NaN"

fun val_plus :: "jsval \<Rightarrow> number \<Rightarrow> jsval" where
  "val_plus (VStr s) n = VStr (s @ num_str n)"
| "val_plus (VArr vs) n = VStr (val_str (VArr vs) @ num_str n)"
| "val_plus (VObj fs) n = VStr (val_str (VObj fs) @ num_str n)"
| "val_plus v n = VNum (js_add (val_number v) n)"

section \<open>commonUtils.js\<close>

record native_extension =
  ne_kind :: track_kind
  ne_uri :: string
  ne_preferredId :: number

record native_capabilities =
  nc_codecs :: "codec_capability list"
  nc_headerExtensions :: "native_extension list"

record sdp_object =
  so_setup :: "string option"
  so_fingerprint :: "(string \<times> string) option"
  so_connection :: "(string \<times> number) option"
  so_media :: "media_object list"

definition media_kind :: "media_object \<Rightarrow> track_kind option" where
  "media_kind m = (if mo_type m = ''audio'' then Some KAudio else if mo_type m = ''video'' then Some KVideo else None)"

definition codec_of_line :: "track_kind \<Rightarrow> rtp_line \<Rightarrow> codec_capability" where
  "codec_of_line kind r =
     \<lparr>cd_mimeType = kind_str kind @ ''/'' @ rl_codec r, cd_clockRate = rl_rate r, cd_channels = rl_encoding r,
      cd_parameters = [], cd_rtcpFeedback = [], cc_kind = kind, cc_preferredPayloadType = rl_payload r\<rparr>"

type_synonym codecs_map = "(jsval, codec_capability) jsmap"

text \<open>A codec of the map is changed in place.\<close>

definition change_codec :: "(codec_capability \<Rightarrow> codec_capability) \<Rightarrow> jsval \<Rightarrow> codecs_map \<Rightarrow> codecs_map" where
  "change_codec f payload m = (case jm_get m payload of None \<Rightarrow> m | Some c \<Rightarrow> jm_set payload (f c) m)"

definition read_rtp :: "track_kind \<Rightarrow> codecs_map \<Rightarrow> rtp_line \<Rightarrow> codecs_map" where
  "read_rtp kind m r = jm_set (opt_num (rl_payload r)) (codec_of_line kind r) m"

definition profile_as_text :: "jsobj \<Rightarrow> jsobj" where
  "profile_as_text ps =
     (case jm_get ps PROFILE_LEVEL_ID of None \<Rightarrow> ps | Some v \<Rightarrow> jm_set PROFILE_LEVEL_ID (VStr (val_str v)) ps)"

definition read_fmtp :: "codecs_map \<Rightarrow> fmtp_line \<Rightarrow> codecs_map" where
  "read_fmtp m f =
     change_codec (\<lambda>c. c\<lparr>cd_parameters := profile_as_text (parseParams str_number (fl_config f))\<rparr>) (opt_num (fl_payload f)) m"

definition push_feedback :: "rtcp_feedback \<Rightarrow> codec_capability \<Rightarrow> codec_capability" where
  "push_feedback fb c = c\<lparr>cd_rtcpFeedback := cd_rtcpFeedback c @ [fb]\<rparr>"

definition feedback_of_line :: "fb_line \<Rightarrow> rtcp_feedback" where
  "feedback_of_line l = \<lparr>fb_type = bl_type l, fb_parameter = (if bl_subtype l = Some [] then None else bl_subtype l)\<rparr>"

definition read_fb :: "track_kind \<Rightarrow> codecs_map \<Rightarrow> fb_line \<Rightarrow> codecs_map" where
  "read_fb kind m l =
     (let feedback = feedback_of_line l
      in if bl_payload l \<noteq> VStr ''*'' then change_codec (push_feedback feedback) (bl_payload l) m
         else map (\<lambda>(payload, c). (payload,
           if cc_kind c = kind \<and> \<not> rtx_mime (cd_mimeType c) then push_feedback feedback c else c)) m)"

definition read_ext :: "track_kind \<Rightarrow> ext_line list \<Rightarrow> native_extension list" where
  "read_ext kind es =
     map (\<lambda>e. \<lparr>ne_kind = kind, ne_uri = el_uri e, ne_preferredId = el_value e\<rparr>)
       (filter (\<lambda>e. el_encrypt_uri e = None \<or> el_encrypt_uri e = Some []) es)"

definition read_section :: "track_kind \<Rightarrow> media_object \<Rightarrow> codecs_map \<Rightarrow> codecs_map" where
  "read_section kind m codecsMap =
     foldl (read_fb kind) (foldl read_fmtp (foldl (read_rtp kind) codecsMap (mo_rtp m)) (mo_fmtp m)) (mo_rtcpFb m)"

definition list_of :: "'a list option \<Rightarrow> 'a list" where
  "list_of l = (case l of None \<Rightarrow> [] | Some xs \<Rightarrow> xs)"

fun extract_loop :: "track_kind list \<Rightarrow> media_object list \<Rightarrow> codecs_map \<times> native_extension list \<Rightarrow> codecs_map \<times> native_extension list" where
  "extract_loop got [] r = r"
| "extract_loop got (m # ms) (codecsMap, exts) =
     (case media_kind m of
        None \<Rightarrow> extract_loop got ms (codecsMap, exts)
      | Some kind \<Rightarrow>
          if kind \<in> set got then extract_loop got ms (codecsMap, exts)
          else extract_loop (kind # got) ms (read_section kind m codecsMap, exts @ read_ext kind (list_of (mo_ext m))))"

definition extractRtpCapabilities :: "sdp_object \<Rightarrow> native_capabilities" where
  "extractRtpCapabilities sdp =
     (case extract_loop [] (so_media sdp) ([], []) of (codecsMap, exts) \<Rightarrow>
        \<lparr>nc_codecs = jm_values codecsMap, nc_headerExtensions = exts\<rparr>)"

definition no_setup :: js_error where
  "no_setup = OtherError ''no a=setup found at SDP session or media level''"

definition no_fingerprint :: js_error where
  "no_fingerprint = OtherError ''no a=fingerprint found at SDP session or media level''"

definition role_of_setup :: "string \<Rightarrow> dtls_role option" where
  "role_of_setup setup =
     (if setup = ''active'' then Some RoleClient else if setup = ''passive'' then Some RoleServer
      else if setup = ''actpass'' then Some RoleAuto else None)"

definition blank :: "string option \<Rightarrow> bool" where
  "blank s \<longleftrightarrow> s = None \<or> s = Some []"

definition or_else :: "'a option \<Rightarrow> 'a option \<Rightarrow> 'a option" where
  "or_else a b = (case a of None \<Rightarrow> b | Some _ \<Rightarrow> a)"

definition extractDtlsParameters :: "sdp_object \<Rightarrow> (dtls_role option \<times> (string \<times> string) list) result" where
  "extractDtlsParameters sdp =
     (let look = blank (so_setup sdp) \<or> so_fingerprint sdp = None;
          m = (if look then find (\<lambda>m. \<not> js_eq (mo_port m) (Fin 0)) (so_media sdp) else None);
          setup = (case m of None \<Rightarrow> so_setup sdp | Some o' \<Rightarrow> or_else (so_setup sdp) (mo_setup o'));
          fingerprint = (case m of None \<Rightarrow> so_fingerprint sdp | Some o' \<Rightarrow> or_else (so_fingerprint sdp) (mo_fingerprint o'))
      in if blank setup then Inl no_setup
         else case fingerprint of
            None \<Rightarrow> Inl no_fingerprint
          | Some fp \<Rightarrow> Inr (role_of_setup (the setup), [fp]))"

definition getCname :: "media_object \<Rightarrow> string" where
  "getCname m = (case find (\<lambda>l. sl_attribute l = ''cname'') (list_of (mo_ssrcs m)) of None \<Rightarrow> [] | Some l \<Rightarrow> sl_value l)"

definition set_stereo :: "codec_parameters \<Rightarrow> jsobj \<Rightarrow> jsobj" where
  "set_stereo c ps =
     (let spropStereo = obj_get (cd_parameters c) ''sprop-stereo''
      in if spropStereo \<noteq> VUndef then jm_set ''stereo'' (bit (truthy spropStereo)) ps else ps)"

definition has_payload :: "codec_parameters \<Rightarrow> number option \<Rightarrow> bool" where
  "has_payload c p \<longleftrightarrow> strict_eq (opt_num p) (opt_num (cp_payloadType c))"

definition apply_codec :: "codec_parameters \<Rightarrow> media_object \<Rightarrow> media_object" where
  "apply_codec c m =
     (if to_lower (cd_mimeType c) \<noteq> ''audio/opus'' then m
      else if \<not> list_ex (\<lambda>r. has_payload c (rl_payload r)) (mo_rtp m) then m
      else let fmtps = (if list_ex (\<lambda>f. has_payload c (fl_payload f)) (mo_fmtp m) then mo_fmtp m
                        else mo_fmtp m @ [\<lparr>fl_payload = cp_payloadType c, fl_config = []\<rparr>])
           in m\<lparr>mo_fmtp := update_first (\<lambda>f. has_payload c (fl_payload f))
                  (\<lambda>f. f\<lparr>fl_config := write_config (set_stereo c (parseParams str_number (fl_config f))) []\<rparr>) fmtps\<rparr>)"

definition applyCodecParameters :: "codec_parameters list \<Rightarrow> media_object \<Rightarrow> media_object" where
  "applyCodecParameters cs m = foldl (\<lambda>m c. apply_codec c m) m cs"

section \<open>unifiedPlanUtils.js and planBUtils.js\<close>

text \<open>\<open>split(/\s+/)\<close>.\<close>

lemma length_dropWhile_Suc [termination_simp]: "length (dropWhile P xs) < Suc (length xs)"
  by (simp add: le_imp_less_Suc length_dropWhile_le)

fun split_blanks :: "string \<Rightarrow> string list" where
  "split_blanks [] = [[]]"
| "split_blanks (c # cs) =
     (if white c then [] # split_blanks (dropWhile white cs)
      else case split_blanks cs of [] \<Rightarrow> [[c]] | x # xs \<Rightarrow> (c # x) # xs)"

definition number_at :: "nat \<Rightarrow> string list \<Rightarrow> number" where
  "number_at i xs = (if i < length xs then str_number (xs ! i) else NaN)"

definition set_add :: "'a \<Rightarrow> 'a list \<Rightarrow> 'a list" where
  "set_add x xs = (if x \<in> set xs then xs else xs @ [x])"

text \<open>The loop over the groups: the streams that are not handled yet, and the map from a stream to its
  retransmission stream.\<close>

type_synonym rtx_map = "(jsval, jsval) jsmap"

definition group_step :: "jsval list \<times> rtx_map \<Rightarrow> ssrc_group \<Rightarrow> jsval list \<times> rtx_map" where
  "group_step st line =
     (case st of (ssrcs, ssrcToRtxSsrc) \<Rightarrow>
        if sg_semantics line \<noteq> ''FID'' then st
        else let parts = split_blanks (sg_ssrcs line);
                 ssrc = VNum (number_at 0 parts);
                 rtxSsrc = VNum (number_at 1 parts)
             in if ssrc \<in> set ssrcs
                then (removeAll rtxSsrc (removeAll ssrc ssrcs), jm_set ssrc rtxSsrc ssrcToRtxSsrc)
                else st)"

definition encodings_of :: "jsval list \<Rightarrow> ssrc_group list \<Rightarrow> offer_encoding list" where
  "encodings_of ssrcs groups =
     (case foldl group_step (ssrcs, []) groups of (rest, ssrcToRtxSsrc) \<Rightarrow>
        map (\<lambda>(ssrc, rtxSsrc). \<lparr>oe_ssrc = ssrc, oe_rtxSsrc = (if truthy rtxSsrc then rtxSsrc else VUndef)\<rparr>)
          (foldl (\<lambda>m ssrc. jm_set ssrc VNull m) ssrcToRtxSsrc rest))"

definition section_ssrcs :: "ssrc_line list \<Rightarrow> jsval list" where
  "section_ssrcs ls = foldl (\<lambda>ssrcs line. set_add (sl_id line) ssrcs) [] ls"

definition getRtpEncodings :: "media_object \<Rightarrow> offer_encoding list result" where
  "getRtpEncodings m =
     (let ssrcs = section_ssrcs (list_of (mo_ssrcs m))
      in if ssrcs = [] then Inl (OtherError ''no a=ssrc lines found'')
         else Inr (encodings_of ssrcs (list_of (mo_ssrcGroups m))))"

text \<open>The words of a \<open>msid\<close> value; a missing one is undefined, which prints as such.\<close>

definition word_at :: "nat \<Rightarrow> string \<Rightarrow> string option" where
  "word_at i value = (let ws = split_at (CHR '' '') value in if i < length ws then Some (ws ! i) else None)"

definition msid_line_of :: "string \<Rightarrow> ssrc_line \<Rightarrow> bool" where
  "msid_line_of trackId line \<longleftrightarrow> sl_attribute line = ''msid'' \<and> word_at 1 (sl_value line) = Some trackId"

definition planB_getRtpEncodings :: "string \<Rightarrow> media_object \<Rightarrow> offer_encoding list result" where
  "planB_getRtpEncodings trackId m =
     (let ssrcs = section_ssrcs (filter (msid_line_of trackId) (list_of (mo_ssrcs m)))
      in if ssrcs = [] then Inl (OtherError (''a=ssrc line with msid information not found [track.id:'' @ trackId @ '']''))
         else Inr (encodings_of ssrcs (list_of (mo_ssrcGroups m))))"

text \<open>The retransmission stream that the first matching group names.\<close>

definition first_rtx :: "number \<Rightarrow> ssrc_group list \<Rightarrow> number option" where
  "first_rtx firstSsrc groups =
     map_option (\<lambda>line. number_at 1 (split_blanks (sg_ssrcs line)))
       (find (\<lambda>line. sg_semantics line = ''FID'' \<and> js_eq (number_at 0 (split_blanks (sg_ssrcs line))) firstSsrc) groups)"

definition legacy_rtx :: "number option \<Rightarrow> nat \<Rightarrow> jsval list" where
  "legacy_rtx firstRtxSsrc numStreams =
     (case firstRtxSsrc of
        Some r \<Rightarrow> if truthy (VNum r) then map (\<lambda>i. VNum (js_add r (Fin (of_nat i)))) [0..<numStreams] else []
      | None \<Rightarrow> [])"

definition legacy_lines :: "string \<Rightarrow> string \<Rightarrow> jsval \<Rightarrow> ssrc_line list" where
  "legacy_lines cname msid ssrc =
     [\<lparr>sl_id = ssrc, sl_attribute = ''cname'', sl_value = cname\<rparr>, \<lparr>sl_id = ssrc, sl_attribute = ''msid'', sl_value = msid\<rparr>]"

definition legacy_streams :: "string \<Rightarrow> string \<Rightarrow> jsval list \<Rightarrow> jsval list \<Rightarrow> ssrc_line list \<times> ssrc_group list" where
  "legacy_streams cname msid ssrcs rtxSsrcs =
     (concat (map (legacy_lines cname msid) ssrcs) @ concat (map (legacy_lines cname msid) rtxSsrcs),
      \<lparr>sg_semantics = ''SIM'', sg_ssrcs = join '' '' (map val_str ssrcs)\<rparr> #
      map (\<lambda>(ssrc, rtxSsrc). \<lparr>sg_semantics = ''FID'', sg_ssrcs = val_str ssrc @ '' '' @ val_str rtxSsrc\<rparr>) (zip ssrcs rtxSsrcs))"

definition too_few_streams :: js_error where
  "too_few_streams = TypeError ''numStreams must be greater than 1''"

definition undef_str :: "string option \<Rightarrow> string" where
  "undef_str s = (case s of None \<Rightarrow> ''undefined'' | Some t \<Rightarrow> t)"

definition addLegacySimulcast :: "nat \<Rightarrow> media_object \<Rightarrow> media_object result" where
  "addLegacySimulcast numStreams m =
     (if numStreams \<le> 1 then Inl too_few_streams
      else case find (\<lambda>line. sl_attribute line = ''msid'') (list_of (mo_ssrcs m)) of
         None \<Rightarrow> Inl (OtherError ''a=ssrc line with msid information not found'')
       | Some line \<Rightarrow>
           (let msid = undef_str (word_at 0 (sl_value line)) @ '' '' @ undef_str (word_at 1 (sl_value line));
                firstSsrc = val_number (sl_id line)
            in case find (\<lambda>line. sl_attribute line = ''cname'') (list_of (mo_ssrcs m)) of
                 None \<Rightarrow> Inl (OtherError ''a=ssrc line with cname information not found'')
               | Some cl \<Rightarrow>
                   (let lines = legacy_streams (sl_value cl) msid (map (\<lambda>i. VNum (js_add firstSsrc (Fin (of_nat i)))) [0..<numStreams])
                          (legacy_rtx (first_rtx firstSsrc (list_of (mo_ssrcGroups m))) numStreams)
                    in Inr (m\<lparr>mo_ssrcs := Some (fst lines), mo_ssrcGroups := Some (snd lines)\<rparr>))))"

text \<open>In Plan-B the section holds the streams of every track, so the new ones are added to them.\<close>

definition planB_addLegacySimulcast :: "string \<Rightarrow> nat \<Rightarrow> media_object \<Rightarrow> media_object result" where
  "planB_addLegacySimulcast trackId numStreams m =
     (let missing = (\<lambda>what. OtherError (''a=ssrc line with '' @ what @ '' information not found [track.id:'' @ trackId @ '']''))
      in if numStreams \<le> 1 then Inl too_few_streams
      else case find (msid_line_of trackId) (list_of (mo_ssrcs m)) of
         None \<Rightarrow> Inl (missing ''msid'')
       | Some line \<Rightarrow>
           (let firstSsrc = sl_id line;
                groups = list_of (mo_ssrcGroups m);
                rtx = (case firstSsrc of VNum n \<Rightarrow> first_rtx n groups | _ \<Rightarrow> None)
            in case find (\<lambda>l. sl_attribute l = ''cname'' \<and> strict_eq (sl_id l) firstSsrc) (list_of (mo_ssrcs m)) of
                 None \<Rightarrow> Inl (missing ''cname'')
               | Some cl \<Rightarrow>
                   (let lines = legacy_streams (sl_value cl) (undef_str (word_at 0 (sl_value line)) @ '' '' @ trackId)
                          (map (\<lambda>i. val_plus firstSsrc (Fin (of_nat i))) [0..<numStreams]) (legacy_rtx rtx numStreams)
                    in Inr (m\<lparr>mo_ssrcs := Some (list_of (mo_ssrcs m) @ fst lines), mo_ssrcGroups := Some (groups @ snd lines)\<rparr>))))"

section \<open>plainRtpUtils.js\<close>

definition section_of_kind :: "string \<Rightarrow> sdp_object \<Rightarrow> media_object result" where
  "section_of_kind kind sdp =
     (case find (\<lambda>m. mo_type m = kind) (so_media sdp) of
        None \<Rightarrow> Inl (OtherError (''m='' @ kind @ '' section not found''))
      | Some m \<Rightarrow> Inr m)"

definition extractPlainRtpParameters :: "string \<Rightarrow> sdp_object \<Rightarrow> plain_rtp_parameters result" where
  "extractPlainRtpParameters kind sdp =
     bindr (section_of_kind kind sdp) (\<lambda>m.
       case or_else (mo_connection m) (so_connection sdp) of
         None \<Rightarrow> Inl (TypeError ''Cannot read properties of undefined'')
       | Some (ip, version) \<Rightarrow> Inr \<lparr>pl_ip = ip, pl_ipVersion = version, pl_port = mo_port m\<rparr>)"

definition plain_getRtpEncodings :: "string \<Rightarrow> sdp_object \<Rightarrow> offer_encoding list result" where
  "plain_getRtpEncodings kind sdp =
     bindr (section_of_kind kind sdp) (\<lambda>m.
       Inr (case list_of (mo_ssrcs m) of
          [] \<Rightarrow> []
        | line # _ \<Rightarrow> if truthy (sl_id line) then [\<lparr>oe_ssrc = sl_id line, oe_rtxSsrc = VUndef\<rparr>] else []))"

section \<open>ortc/utils.js and scalabilityModes.js\<close>

definition opus_mime :: "string \<Rightarrow> bool" where
  "opus_mime m \<longleftrightarrow> to_lower m = ''audio/opus'' \<or> to_lower m = ''audio/multiopus''"

definition plain_nack :: "rtcp_feedback \<Rightarrow> bool" where
  "plain_nack fb \<longleftrightarrow> fb_type fb = ''nack'' \<and> empty_parameter fb"

definition addNackSuppportForOpus :: "native_capabilities \<Rightarrow> native_capabilities" where
  "addNackSuppportForOpus caps =
     caps\<lparr>nc_codecs := map (\<lambda>c.
       if opus_mime (cd_mimeType c) \<and> \<not> list_ex plain_nack (cd_rtcpFeedback c)
       then push_feedback \<lparr>fb_type = ''nack'', fb_parameter = None\<rparr> c else c) (nc_codecs caps)\<rparr>"

text \<open>The one or two digits that \<open>[1-9]\d{0,1}\<close> takes, and what follows them.\<close>

definition layer_digits :: "string \<Rightarrow> (nat \<times> string) option" where
  "layer_digits s =
     (case s of
        [] \<Rightarrow> None
      | c # r \<Rightarrow> if \<not> is_digit c \<or> digit c = 0 then None
          else case r of
             d # r' \<Rightarrow> if is_digit d then Some (digits_value 10 [c, d], r') else Some (digit c, r)
           | [] \<Rightarrow> Some (digit c, []))"

record scalability_mode =
  sm_spatialLayers :: nat
  sm_temporalLayers :: nat

definition parse_scalability :: "string \<Rightarrow> scalability_mode" where
  "parse_scalability s =
     (let default = \<lparr>sm_spatialLayers = 1, sm_temporalLayers = 1\<rparr>
      in case s of
        [] \<Rightarrow> default
      | c # r \<Rightarrow> if c \<noteq> CHR ''L'' \<and> c \<noteq> CHR ''S'' then default
          else case layer_digits r of
             Some (spatial, t # r') \<Rightarrow>
               if t \<noteq> CHR ''T'' then default
               else (case layer_digits r' of
                  None \<Rightarrow> default
                | Some (temporal, _) \<Rightarrow> \<lparr>sm_spatialLayers = spatial, sm_temporalLayers = temporal\<rparr>)
           | _ \<Rightarrow> default)"

section \<open>Digits\<close>

lemma digit_char [simp]: "(d::nat) < 10 \<Longrightarrow> digit (char_of (48 + d)) = d"
  by (simp add: digit_def Let_def)

lemma is_digit_char [simp]: "(d::nat) < 10 \<Longrightarrow> is_digit (char_of (48 + d))"
  by (simp add: is_digit_def)

lemma digits_value_snoc: "digits_value base (s @ [c]) = base * digits_value base s + digit c"
  by (simp add: digits_value_def)

lemma digits_from_value: "n < f \<Longrightarrow> digits_value 10 (digits_from f n) = n"
proof (induction f arbitrary: n)
  case (Suc f)
  show ?case
  proof (cases "n < 10")
    case True
    then show ?thesis by (simp add: digits_value_def)
  next
    case False
    with Suc.prems have "n div 10 < f" by auto
    with Suc.IH False show ?thesis by (simp add: digits_value_snoc)
  qed
qed simp

lemma digits_from_digits: "list_all is_digit (digits_from f n)"
  by (induction f arbitrary: n) auto

lemma digits_from_nonempty: "0 < f \<Longrightarrow> digits_from f n \<noteq> []"
  by (cases f) auto

lemma digits_from_lead: "n < f \<Longrightarrow> 0 < n \<Longrightarrow> digit (hd (digits_from f n)) \<noteq> 0"
proof (induction f arbitrary: n)
  case (Suc f)
  show ?case
  proof (cases "n < 10")
    case False
    with Suc.prems have lt: "n div 10 < f" "0 < n div 10" by auto
    then have "digits_from f (n div 10) \<noteq> []" by (intro digits_from_nonempty) auto
    with Suc.IH [OF lt] False show ?thesis by simp
  qed (use Suc.prems in simp)
qed simp

lemmas nat_str_facts =
  digits_from_value [of n "Suc n" for n, folded nat_str_def, simplified]
  digits_from_digits [of "Suc n" n for n, folded nat_str_def]
  digits_from_nonempty [of "Suc n" n for n, folded nat_str_def, simplified]

lemma digit_not_white: "is_digit c \<Longrightarrow> \<not> white c"
  by (auto simp: is_digit_def white_def digit_def Let_def)

lemma digit_not_other: "is_digit c \<Longrightarrow> c \<notin> {CHR ''-'', CHR ''+'', CHR ''x'', CHR ''X'', CHR ''o'', CHR ''O'', CHR ''b'', CHR ''B'', CHR ''I'', CHR '' '', CHR '';'', CHR ''=''}"
  by (auto simp: is_digit_def digit_def Let_def)

lemma trim_left_id: "s = [] \<or> \<not> white (hd s) \<Longrightarrow> trim_left s = s"
  by (cases s) auto

lemma trim_digits: "list_all is_digit s \<Longrightarrow> trim s = s"
proof -
  assume s: "list_all is_digit s"
  have "s = [] \<or> \<not> white (hd s)" "rev s = [] \<or> \<not> white (hd (rev s))"
    using s digit_not_white by (auto simp: list_all_iff hd_rev)
  then show ?thesis by (simp add: trim_def trim_left_id)
qed

lemma decimal_digits:
  assumes "list_all is_digit s" "s \<noteq> []"
  shows "decimal_literal s = Some (of_nat (digits_value 10 s))"
proof -
  have t: "takeWhile is_digit s = s" "dropWhile is_digit s = []"
    using assms(1) by (auto simp: list_all_iff takeWhile_eq_all_conv dropWhile_eq_Nil_conv)
  show ?thesis using assms(2) by (simp add: decimal_literal_def exponent_part_def Let_def t)
qed

lemma str_number_digits:
  assumes "list_all is_digit s" "s \<noteq> []"
  shows "str_number s = js_num (of_nat (digits_value 10 s))"
proof -
  obtain c r where s: "s = c # r" using assms(2) by (cases s) auto
  have c: "is_digit c" and r: "r \<noteq> [] \<Longrightarrow> is_digit (hd r)"
    using assms(1) by (auto simp: s list_all_iff)
  have inf: "s \<noteq> ''Infinity''" using digit_not_other [OF c] s by auto
  have "signed_literal s = js_num (of_nat (digits_value 10 s))"
    using digit_not_other [OF c] inf decimal_digits [OF assms] by (simp add: signed_literal_def s)
  then show ?thesis
    using digit_not_other [OF r] trim_digits [OF assms(1)] by (auto simp: str_number_def s)
qed

lemma js_num_count: "n \<le> 2 ^ 53 \<Longrightarrow> js_num (of_nat n) = Fin (of_nat n)"
proof -
  assume n: "n \<le> 2 ^ 53"
  then have "\<bar>of_nat n :: rat\<bar> \<le> 2 ^ 53" by simp
  moreover have "round64 (of_int (int n)) = of_int (int n)" using n by (intro round64_of_int) simp
  ultimately show ?thesis by (simp add: js_num_Fin)
qed

lemma positive_str_nat [simp]: "n \<le> 2 ^ 53 \<Longrightarrow> positive_str (of_nat n) = nat_str n"
proof -
  assume n: "n \<le> 2 ^ 53"
  then have "(of_nat n :: rat) \<le> 2 ^ 53" by simp
  then show ?thesis by (simp add: positive_str_def)
qed

lemma num_str_nat: "n \<le> 2 ^ 53 \<Longrightarrow> num_str (Fin (of_nat n)) = nat_str n"
  by simp

text \<open>A stream identifier is a natural number that the format can hold, and it survives the text.\<close>

lemma str_number_nat [simp]: "n \<le> 2 ^ 53 \<Longrightarrow> str_number (nat_str n) = Fin (of_nat n)"
  using nat_str_facts [of n] by (simp add: str_number_digits js_num_count)

lemma js_add_nat:
  assumes "m + n \<le> 2 ^ 53"
  shows "js_add (Fin (of_nat m)) (Fin (of_nat n)) = Fin (of_nat (m + n))"
  using js_num_count [OF assms] by simp

section \<open>Encodings of a section\<close>

lemma set_set_add [simp]: "set (set_add x xs) = insert x (set xs)"
  by (auto simp: set_add_def)

lemma distinct_set_add [simp]: "distinct xs \<Longrightarrow> distinct (set_add x xs)"
  by (simp add: set_add_def)

lemma section_ssrcs_gen:
  "set (foldl (\<lambda>ssrcs line. set_add (sl_id line) ssrcs) acc ls) = set acc \<union> sl_id ` set ls"
  "distinct acc \<Longrightarrow> distinct (foldl (\<lambda>ssrcs line. set_add (sl_id line) ssrcs) acc ls)"
  by (induction ls arbitrary: acc) auto

lemma set_section_ssrcs: "set (section_ssrcs ls) = sl_id ` set ls"
  by (simp add: section_ssrcs_def section_ssrcs_gen)

lemma distinct_section_ssrcs: "distinct (section_ssrcs ls)"
  by (simp add: section_ssrcs_def section_ssrcs_gen)

text \<open>What the loop over the groups keeps: a stream is waiting, has an entry, or is the retransmission stream of one that
  has; an entry is a stream of the section and names what one of the groups names.\<close>

definition pairs_with :: "ssrc_group list \<Rightarrow> jsval \<Rightarrow> jsval \<Rightarrow> bool" where
  "pairs_with groups ssrc rtx \<longleftrightarrow>
     list_ex (\<lambda>g. sg_semantics g = ''FID'' \<and> ssrc = VNum (number_at 0 (split_blanks (sg_ssrcs g))) \<and>
       rtx = VNum (number_at 1 (split_blanks (sg_ssrcs g)))) groups"

definition groups_inv :: "jsval set \<Rightarrow> ssrc_group list \<Rightarrow> jsval list \<times> rtx_map \<Rightarrow> bool" where
  "groups_inv ids groups st \<longleftrightarrow>
     distinct (fst st) \<and> jm_wf (snd st) \<and> set (fst st) \<inter> fst ` set (snd st) = {} \<and>
     set (fst st) \<union> fst ` set (snd st) \<subseteq> ids \<and> ids \<subseteq> set (fst st) \<union> fst ` set (snd st) \<union> snd ` set (snd st) \<and>
     (\<forall>(ssrc, rtx) \<in> set (snd st). pairs_with groups ssrc rtx) \<and>
     set (fst st) \<inter> snd ` set (snd st) = {} \<and> sorted_wrt (\<lambda>p q. fst q \<noteq> snd p) (snd st)"

lemma groups_inv_step:
  assumes "g \<in> set all" "groups_inv ids all st"
  shows "groups_inv ids all (group_step st g)"
proof -
  obtain ssrcs m where st: "st = (ssrcs, m)" by (cases st)
  define a b where ab: "a = VNum (number_at 0 (split_blanks (sg_ssrcs g)))" "b = VNum (number_at 1 (split_blanks (sg_ssrcs g)))"
  show ?thesis
  proof (cases "sg_semantics g = ''FID'' \<and> a \<in> set ssrcs")
    case True
    have new: "a \<notin> fst ` set m" using True assms(2) by (auto simp: groups_inv_def st)
    then have m': "jm_set a b m = m @ [(a, b)]" by (intro jm_set_new) (simp add: jm_keys_def)
    have p: "pairs_with all a b" using True assms(1) by (auto simp: pairs_with_def list_ex_iff ab)
    have "group_step st g = (removeAll b (removeAll a ssrcs), m @ [(a, b)])"
      using True m' by (simp add: group_step_def st ab Let_def)
    with assms(2) True new p show ?thesis
      by (auto simp: groups_inv_def st jm_wf_def jm_keys_def distinct_removeAll sorted_wrt_append)
  qed (use assms(2) in \<open>auto simp: group_step_def st ab Let_def\<close>)
qed

lemma groups_inv_run: "groups_inv ids all st \<Longrightarrow> set gs \<subseteq> set all \<Longrightarrow> groups_inv ids all (foldl group_step st gs)"
  by (induction gs arbitrary: st) (simp_all add: groups_inv_step)

lemma append_rest:
  assumes "distinct xs" "set xs \<inter> fst ` set m = {}"
  shows "foldl (\<lambda>m ssrc. jm_set ssrc VNull m) m xs = m @ map (\<lambda>x. (x, VNull)) xs"
  using assms
proof (induction xs arbitrary: m)
  case (Cons x xs)
  then have "jm_set x VNull m = m @ [(x, VNull)]" by (intro jm_set_new) (auto simp: jm_keys_def)
  with Cons show ?case by auto
qed simp

lemma encodings_of_run:
  assumes "distinct ssrcs"
  obtains rest m where "groups_inv (set ssrcs) groups (rest, m)"
    "foldl group_step (ssrcs, []) groups = (rest, m)"
    "encodings_of ssrcs groups = map (\<lambda>(ssrc, rtx). \<lparr>oe_ssrc = ssrc, oe_rtxSsrc = (if truthy rtx then rtx else VUndef)\<rparr>)
       (m @ map (\<lambda>x. (x, VNull)) rest)"
proof -
  obtain rest m where run: "foldl group_step (ssrcs, []) groups = (rest, m)" by fastforce
  have "groups_inv (set ssrcs) groups (ssrcs, [])" using assms by (simp add: groups_inv_def jm_wf_def jm_keys_def)
  from groups_inv_run [OF this subset_refl] have inv: "groups_inv (set ssrcs) groups (rest, m)" by (simp add: run)
  then have "foldl (\<lambda>m ssrc. jm_set ssrc VNull m) m rest = m @ map (\<lambda>x. (x, VNull)) rest"
    by (intro append_rest) (auto simp: groups_inv_def)
  with inv run show ?thesis by (intro that) (simp_all add: encodings_of_def)
qed

text \<open>The streams that the groups of retransmission name, and those of an encoding.\<close>

definition fid_streams :: "ssrc_group list \<Rightarrow> jsval list" where
  "fid_streams groups = concat (map (\<lambda>g. [VNum (number_at 0 (split_blanks (sg_ssrcs g))), VNum (number_at 1 (split_blanks (sg_ssrcs g)))])
     (filter (\<lambda>g. sg_semantics g = ''FID'') groups))"

definition streams_of :: "offer_encoding \<Rightarrow> jsval list" where
  "streams_of e = oe_ssrc e # (if oe_rtxSsrc e = VUndef then [] else [oe_rtxSsrc e])"

lemma fid_streams_Cons:
  "fid_streams (g # gs) = (if sg_semantics g = ''FID'' then [VNum (number_at 0 (split_blanks (sg_ssrcs g))),
     VNum (number_at 1 (split_blanks (sg_ssrcs g)))] else []) @ fid_streams gs"
  by (simp add: fid_streams_def)

lemma pairs_with_Cons:
  "pairs_with (g # gs) a b \<longleftrightarrow> sg_semantics g = ''FID'' \<and> a = VNum (number_at 0 (split_blanks (sg_ssrcs g))) \<and>
     b = VNum (number_at 1 (split_blanks (sg_ssrcs g))) \<or> pairs_with gs a b"
  by (simp add: pairs_with_def)

lemma pairs_with_fid: "pairs_with groups a b \<Longrightarrow> a \<in> set (fid_streams groups) \<and> b \<in> set (fid_streams groups)"
  by (induction groups) (auto simp: pairs_with_Cons fid_streams_Cons, auto simp: pairs_with_def)

text \<open>When the groups name every stream once, a stream is in one pair only.\<close>

lemma pairs_apart:
  assumes "distinct (fid_streams groups)" "pairs_with groups a b" "pairs_with groups a' b'"
  shows "a \<noteq> b'" "b = b' \<Longrightarrow> a = a'"
  using assms
proof (induction groups)
  case (Cons g gs)
  {
    case 1
    then show ?case using Cons.IH(1) pairs_with_fid [of gs]
      by (auto simp: pairs_with_Cons fid_streams_Cons split: if_splits)
  next
    case 2
    then show ?case using Cons.IH(2) pairs_with_fid [of gs]
      by (auto simp: pairs_with_Cons fid_streams_Cons split: if_splits)
  }
qed (simp_all add: pairs_with_def)

lemma streams_apart:
  assumes "distinct (map oe_ssrc es)"
    and "\<And>d e. d \<in> set es \<Longrightarrow> e \<in> set es \<Longrightarrow> oe_rtxSsrc e \<noteq> VUndef \<Longrightarrow> oe_ssrc d \<noteq> oe_rtxSsrc e"
    and "\<And>d e. d \<in> set es \<Longrightarrow> e \<in> set es \<Longrightarrow> oe_rtxSsrc d = oe_rtxSsrc e \<Longrightarrow> oe_rtxSsrc e \<noteq> VUndef \<Longrightarrow> oe_ssrc d = oe_ssrc e"
  shows "distinct (concat (map streams_of es))"
  using assms
proof (induction es)
  case (Cons e es)
  have "distinct (concat (map streams_of es))" 
  proof (rule Cons.IH)
    show "distinct (map oe_ssrc es)" using Cons.prems(1) by simp
    show "oe_ssrc a \<noteq> oe_rtxSsrc b" if "a \<in> set es" "b \<in> set es" "oe_rtxSsrc b \<noteq> VUndef" for a b
      using Cons.prems(2) [of a b] that by simp
    show "oe_ssrc a = oe_ssrc b" if "a \<in> set es" "b \<in> set es" "oe_rtxSsrc a = oe_rtxSsrc b" "oe_rtxSsrc b \<noteq> VUndef" for a b
      using Cons.prems(3) [of a b] that by simp
  qed
  moreover have "x \<notin> set (streams_of d)" if "x \<in> set (streams_of e)" "d \<in> set es" for x d
  proof -
    have "oe_ssrc d \<in> oe_ssrc ` set es" using that(2) by simp
    then have "oe_ssrc d \<noteq> oe_ssrc e" using Cons.prems(1) by auto
    with that Cons.prems(2) [of d e] Cons.prems(2) [of e d] Cons.prems(3) [of d e] show ?thesis
      by (auto simp: streams_of_def split: if_splits)
  qed
  moreover have "distinct (streams_of e)" using Cons.prems(2) [of e e] by (simp add: streams_of_def)
  ultimately show ?case by auto
qed simp

lemma encodings_disjoint:
  assumes "distinct (fid_streams groups)" "groups_inv ids groups (rest, mp)"
    and "es = map (\<lambda>(ssrc, rtx). \<lparr>oe_ssrc = ssrc, oe_rtxSsrc = (if truthy rtx then rtx else VUndef)\<rparr>) (mp @ map (\<lambda>x. (x, VNull)) rest)"
    and "distinct (map oe_ssrc es)"
  shows "distinct (concat (map streams_of es))"
proof (rule streams_apart [OF assms(4)])
  have pair: "(oe_ssrc e, oe_rtxSsrc e) \<in> set mp" if "e \<in> set es" "oe_rtxSsrc e \<noteq> VUndef" for e
    using that by (auto simp: assms(3) split: if_splits)
  have kn: "pairs_with groups a b" if "(a, b) \<in> set mp" for a b using assms(2) that by (auto simp: groups_inv_def)
  fix d e assume d: "d \<in> set es" and e: "e \<in> set es" and u: "oe_rtxSsrc e \<noteq> VUndef"
  note pe = pair [OF e u]
  show "oe_ssrc d \<noteq> oe_rtxSsrc e"
  proof (cases "oe_ssrc d \<in> set rest")
    case True
    moreover have "oe_rtxSsrc e \<in> snd ` set mp" using pe by (metis image_eqI snd_conv)
    moreover have "set rest \<inter> snd ` set mp = {}" using assms(2) by (simp add: groups_inv_def)
    ultimately show ?thesis by (metis disjoint_iff)
  next
    case False
    then obtain b where "(oe_ssrc d, b) \<in> set mp" using d by (auto simp: assms(3))
    then show ?thesis using pairs_apart(1) [OF assms(1) kn kn] pe by blast
  qed
  show "oe_ssrc d = oe_ssrc e" if "oe_rtxSsrc d = oe_rtxSsrc e"
    using pairs_apart(2) [OF assms(1) kn [OF pair [OF d]] kn [OF pe]] that u by simp
qed

lemma encodings_in_order:
  assumes "groups_inv ids groups (rest, mp)"
    and "es = map (\<lambda>(ssrc, rtx). \<lparr>oe_ssrc = ssrc, oe_rtxSsrc = (if truthy rtx then rtx else VUndef)\<rparr>) (mp @ map (\<lambda>x. (x, VNull)) rest)"
    and "\<And>x. x \<in> set (map oe_ssrc es) \<Longrightarrow> x \<noteq> VUndef"
  shows "sorted_wrt (\<lambda>d e. oe_ssrc e \<noteq> oe_rtxSsrc d) es"
proof -
  let ?ps = "mp @ map (\<lambda>x. (x, VNull)) rest"
  have keys: "fst p \<noteq> VUndef" if "p \<in> set ?ps" for p
  proof -
    have "map oe_ssrc es = map fst ?ps" by (simp add: assms(2) case_prod_unfold)
    then have "fst p \<in> set (map oe_ssrc es)" using that by (simp only: set_map image_eqI)
    then show ?thesis by (rule assms(3))
  qed
  have "sorted_wrt (\<lambda>p q. fst q \<noteq> snd p \<or> snd p = VNull) ?ps"
    using assms(1) by (auto simp: groups_inv_def sorted_wrt_append sorted_wrt_map
        intro: sorted_wrt_mono_rel [of _ "\<lambda>p q. fst q \<noteq> snd p"] sorted_wrt01)
  then have "sorted_wrt (\<lambda>p q. fst q \<noteq> (if truthy (snd p) then snd p else VUndef)) ?ps"
    by (rule sorted_wrt_mono_rel [rotated]) (use keys in auto)
  then show ?thesis by (simp add: assms(2) sorted_wrt_map case_prod_unfold del: map_append)
qed

text \<open>C37: The encodings that are read from a section partition its streams. No two encodings have the same
  stream, each is a stream of the section, every stream of the section is the one of an encoding or the
  retransmission stream of one, and a retransmission stream is the one that a group of the section pairs
  with it; no encoding has the retransmission stream of an earlier one as its own; and when the groups of
  retransmission name every stream once, no stream is in two encodings, nor twice in one. This is for streams
  whose identifiers are not 0 (nor any other value that counts as false), as \<open>if (rtxSsrc)\<close> supposes.\<close>

theorem encodings_partition_streams:
  assumes "getRtpEncodings m = Inr es" "\<And>l. l \<in> set (list_of (mo_ssrcs m)) \<Longrightarrow> truthy (sl_id l)"
  shows "es \<noteq> [] \<and> distinct (map oe_ssrc es) \<and>
    oe_ssrc ` set es \<subseteq> sl_id ` set (list_of (mo_ssrcs m)) \<and>
    sl_id ` set (list_of (mo_ssrcs m)) \<subseteq> oe_ssrc ` set es \<union> oe_rtxSsrc ` set es \<and>
    (\<forall>e \<in> set es. oe_rtxSsrc e = VUndef \<or> pairs_with (list_of (mo_ssrcGroups m)) (oe_ssrc e) (oe_rtxSsrc e)) \<and>
    sorted_wrt (\<lambda>d e. oe_ssrc e \<noteq> oe_rtxSsrc d) es \<and>
    (distinct (fid_streams (list_of (mo_ssrcGroups m))) \<longrightarrow> distinct (concat (map streams_of es)))"
proof -
  define ids where "ids = section_ssrcs (list_of (mo_ssrcs m))"
  have es: "es = encodings_of ids (list_of (mo_ssrcGroups m))" and ne: "ids \<noteq> []"
    using assms(1) by (auto simp: getRtpEncodings_def ids_def Let_def split: if_splits)
  have ids: "set ids = sl_id ` set (list_of (mo_ssrcs m))" "distinct ids"
    by (simp_all add: ids_def set_section_ssrcs distinct_section_ssrcs)
  obtain rest mp where inv: "groups_inv (set ids) (list_of (mo_ssrcGroups m)) (rest, mp)"
    and out: "es = map (\<lambda>(ssrc, rtx). \<lparr>oe_ssrc = ssrc, oe_rtxSsrc = (if truthy rtx then rtx else VUndef)\<rparr>)
       (mp @ map (\<lambda>x. (x, VNull)) rest)"
    by (rule encodings_of_run [OF ids(2), of "list_of (mo_ssrcGroups m)"]) (simp add: es)
  have ssrcs: "map oe_ssrc es = map fst mp @ rest" by (simp add: out case_prod_unfold comp_def)
  have truthy: "truthy x" if "x \<in> set ids" for x using that assms(2) ids(1) by auto
  have cover: "x \<in> oe_ssrc ` set es \<union> oe_rtxSsrc ` set es" if x: "x \<in> set ids" for x
  proof (cases "x \<in> set rest \<union> fst ` set mp")
    case True
    then have "x \<in> set (map oe_ssrc es)" by (auto simp: ssrcs)
    then show ?thesis by simp
  next
    case False
    then obtain a where "(a, x) \<in> set mp" using inv x by (auto simp: groups_inv_def)
    then have "\<lparr>oe_ssrc = a, oe_rtxSsrc = x\<rparr> \<in> set es" using truthy [OF x] by (force simp: out)
    then show ?thesis by force
  qed
  have "distinct (map fst mp @ rest)" "set (map fst mp @ rest) \<subseteq> set ids"
    using inv by (auto simp: groups_inv_def jm_wf_def jm_keys_def)
  then have d: "distinct (map oe_ssrc es)" "set (map oe_ssrc es) \<subseteq> set ids" by (simp_all only: ssrcs)
  have p: "oe_rtxSsrc e = VUndef \<or> pairs_with (list_of (mo_ssrcGroups m)) (oe_ssrc e) (oe_rtxSsrc e)" if "e \<in> set es" for e
    using that inv by (fastforce simp: out groups_inv_def)
  have "es \<noteq> []" using cover [OF hd_in_set [OF ne]] by auto
  moreover have "sl_id ` set (list_of (mo_ssrcs m)) \<subseteq> oe_ssrc ` set es \<union> oe_rtxSsrc ` set es"
    using cover ids(1) by blast
  moreover have "sorted_wrt (\<lambda>d e. oe_ssrc e \<noteq> oe_rtxSsrc d) es"
  proof (rule encodings_in_order [OF inv out])
    show "x \<noteq> VUndef" if "x \<in> set (map oe_ssrc es)" for x using truthy [of x] d(2) that by auto
  qed
  ultimately show ?thesis using d p ids(1) encodings_disjoint [OF _ inv out d(1)] by simp
qed

text \<open>Two streams with retransmission and one without.\<close>

definition stream_line :: "nat \<Rightarrow> ssrc_line" where
  "stream_line n = \<lparr>sl_id = VNum (Fin (of_nat n)), sl_attribute = ''cname'', sl_value = ''c''\<rparr>"

definition streams_section :: media_object where
  "streams_section = empty_media\<lparr>mo_ssrcs := Some (map stream_line [1, 2, 3, 4, 5]),
     mo_ssrcGroups := Some [\<lparr>sg_semantics = ''FID'', sg_ssrcs = ''1 2''\<rparr>, \<lparr>sg_semantics = ''FID'', sg_ssrcs = ''3 4''\<rparr>]\<rparr>"

lemma streams_section_encodings:
  "getRtpEncodings streams_section = Inr
     [\<lparr>oe_ssrc = VNum (Fin 1), oe_rtxSsrc = VNum (Fin 2)\<rparr>, \<lparr>oe_ssrc = VNum (Fin 3), oe_rtxSsrc = VNum (Fin 4)\<rparr>,
      \<lparr>oe_ssrc = VNum (Fin 5), oe_rtxSsrc = VUndef\<rparr>]"
  by code_simp

theorem encodings_partition_streams_witness:
  "\<exists>es. getRtpEncodings streams_section = Inr es \<and> es \<noteq> [] \<and> distinct (map oe_ssrc es) \<and>
    sl_id ` set (list_of (mo_ssrcs streams_section)) \<subseteq> oe_ssrc ` set es \<union> oe_rtxSsrc ` set es \<and>
    distinct (concat (map streams_of es))"
proof -
  have "\<And>l. l \<in> set (list_of (mo_ssrcs streams_section)) \<Longrightarrow> truthy (sl_id l)"
    by (auto simp: streams_section_def list_of_def stream_line_def)
  moreover have "distinct (fid_streams (list_of (mo_ssrcGroups streams_section)))" by code_simp
  ultimately show ?thesis
    using encodings_partition_streams [OF streams_section_encodings] streams_section_encodings by blast
qed

section \<open>Legacy simulcast\<close>

lemma split_blanks_word: "list_all (\<lambda>c. \<not> white c) s \<Longrightarrow> split_blanks s = [s]"
  by (induction s) auto

lemma split_blanks_two:
  assumes "list_all (\<lambda>c. \<not> white c) s" "list_all (\<lambda>c. \<not> white c) t" "t \<noteq> []"
  shows "split_blanks (s @ '' '' @ t) = [s, t]"
proof -
  have "dropWhile white t = t" using assms(2,3) by (cases t) auto
  then have "split_blanks ('' '' @ t) = [[], t]" using assms(2) by (simp add: white_def split_blanks_word)
  with assms(1) show ?thesis by (induction s) auto
qed

lemma nat_str_not_white: "list_all (\<lambda>c. \<not> white c) (nat_str n)"
  using nat_str_facts(2) [of n] digit_not_white by (auto simp: list_all_iff)

lemma pair_numbers:
  assumes "a \<le> 2 ^ 53" "b \<le> 2 ^ 53"
  defines "parts \<equiv> split_blanks (nat_str a @ '' '' @ nat_str b)"
  shows "number_at 0 parts = Fin (of_nat a)" "number_at 1 parts = Fin (of_nat b)"
  using assms(1,2) nat_str_facts(3) [of b]
  by (simp_all add: number_at_def parts_def split_blanks_two nat_str_not_white del: append_Cons)

text \<open>A run over groups that pair stream \<open>a i\<close> with stream \<open>b i\<close>.\<close>

abbreviation vnat :: "nat \<Rightarrow> jsval" where
  "vnat n \<equiv> VNum (Fin (of_nat n))"

definition fid_group :: "nat \<times> nat \<Rightarrow> ssrc_group" where
  "fid_group p = \<lparr>sg_semantics = ''FID'', sg_ssrcs = nat_str (fst p) @ '' '' @ nat_str (snd p)\<rparr>"

lemma group_step_fid:
  assumes "fst p \<le> 2 ^ 53" "snd p \<le> 2 ^ 53" "vnat (fst p) \<in> set ssrcs" "vnat (fst p) \<notin> fst ` set m"
  shows "group_step (ssrcs, m) (fid_group p) =
    (removeAll (vnat (snd p)) (removeAll (vnat (fst p)) ssrcs), m @ [(vnat (fst p), vnat (snd p))])"
  using assms pair_numbers [OF assms(1,2)]
  by (simp add: group_step_def fid_group_def Let_def jm_set_new jm_keys_def del: append_Cons)

lemma group_step_sim: "sg_semantics g \<noteq> ''FID'' \<Longrightarrow> group_step st g = st"
  by (cases st) (simp add: group_step_def)

lemma fid_run:
  assumes "list_all (\<lambda>p. fst p \<le> 2 ^ 53 \<and> snd p \<le> 2 ^ 53) ps"
    "distinct (map fst ps @ map snd ps)"
    "vnat ` (fst ` set ps \<union> snd ` set ps) \<subseteq> set ssrcs"
    "fst ` set m \<inter> set ssrcs = {}"
  shows "foldl group_step (ssrcs, m) (map fid_group ps) =
    (filter (\<lambda>x. x \<notin> vnat ` (fst ` set ps \<union> snd ` set ps)) ssrcs, m @ map (\<lambda>p. (vnat (fst p), vnat (snd p))) ps)"
  using assms
proof (induction ps arbitrary: ssrcs m)
  case (Cons p ps)
  define S where "S = fst ` set ps \<union> snd ` set ps"
  define ssrcs' where "ssrcs' = removeAll (vnat (snd p)) (removeAll (vnat (fst p)) ssrcs)"
  have p: "fst p \<notin> S" "snd p \<notin> S" using Cons.prems(2) by (simp_all add: S_def)
  have set': "set ssrcs' = set ssrcs - {vnat (fst p), vnat (snd p)}" by (auto simp: ssrcs'_def)
  have "vnat ` S \<subseteq> set ssrcs" using Cons.prems(3) by (simp add: S_def)
  then have sub: "vnat ` S \<subseteq> set ssrcs'" using p by (auto simp: set')
  have step: "group_step (ssrcs, m) (fid_group p) = (ssrcs', m @ [(vnat (fst p), vnat (snd p))])"
    unfolding ssrcs'_def using Cons.prems by (intro group_step_fid) auto
  have disj: "fst ` set (m @ [(vnat (fst p), vnat (snd p))]) \<inter> set ssrcs' = {}"
    using Cons.prems(4) by (auto simp: set')
  have "foldl group_step (ssrcs', m @ [(vnat (fst p), vnat (snd p))]) (map fid_group ps) =
    (filter (\<lambda>x. x \<notin> vnat ` S) ssrcs', (m @ [(vnat (fst p), vnat (snd p))]) @ map (\<lambda>p. (vnat (fst p), vnat (snd p))) ps)"
    unfolding S_def by (rule Cons.IH) (use Cons.prems(1,2) sub disj in \<open>simp_all add: S_def\<close>)
  moreover have "filter (\<lambda>x. x \<notin> vnat ` S) ssrcs' = filter (\<lambda>x. x \<notin> vnat ` insert (fst p) (insert (snd p) S)) ssrcs"
    by (simp add: ssrcs'_def removeAll_filter_not_eq conj_commute conj_left_commute) (rule filter_cong; auto)
  ultimately show ?case by (simp add: step S_def Un_insert_right insert_commute)
qed simp

lemma section_ssrcs_new:
  "foldl (\<lambda>ssrcs line. set_add (sl_id line) ssrcs) acc (concat (map (legacy_lines cname msid) xs)) = acc @ xs"
  if "distinct (acc @ xs)"
  using that by (induction xs arbitrary: acc) (auto simp: legacy_lines_def set_add_def)

lemma legacy_encodings:
  assumes "list_all (\<lambda>p. fst p \<le> 2 ^ 53 \<and> snd p \<le> 2 ^ 53 \<and> 0 < snd p) ps" "distinct (map fst ps @ map snd ps)"
    "sg_semantics sim \<noteq> ''FID''"
  shows "encodings_of (map vnat (map fst ps) @ map vnat (map snd ps)) (sim # map fid_group ps) =
    map (\<lambda>p. \<lparr>oe_ssrc = vnat (fst p), oe_rtxSsrc = vnat (snd p)\<rparr>) ps"
proof -
  have "foldl group_step (map vnat (map fst ps) @ map vnat (map snd ps), []) (map fid_group ps) =
      (filter (\<lambda>x. x \<notin> vnat ` (fst ` set ps \<union> snd ` set ps)) (map vnat (map fst ps) @ map vnat (map snd ps)),
       [] @ map (\<lambda>p. (vnat (fst p), vnat (snd p))) ps)"
    using assms by (intro fid_run) (auto simp: list_all_iff image_Un image_image)
  moreover have "filter (\<lambda>x. x \<notin> vnat ` (fst ` set ps \<union> snd ` set ps)) (map vnat (map fst ps) @ map vnat (map snd ps)) = []"
    by (auto simp: filter_empty_conv)
  ultimately have "foldl group_step (map vnat (map fst ps) @ map vnat (map snd ps), []) (sim # map fid_group ps) =
      ([], map (\<lambda>p. (vnat (fst p), vnat (snd p))) ps)"
    using assms(3) by (simp add: group_step_sim)
  then show ?thesis
    using assms(1) by (auto simp: encodings_of_def list_all_iff)
qed

text \<open>The streams of a simulcast offer: the first of them and of their retransmissions, and how many.\<close>

definition legacy_pairs :: "nat \<Rightarrow> nat \<Rightarrow> nat \<Rightarrow> (nat \<times> nat) list" where
  "legacy_pairs s r n = map (\<lambda>i. (s + i, r + i)) [0..<n]"

text \<open>A section that legacy simulcast is added to is read back as exactly the streams that were asked for: as many
  encodings as streams, numbered on from the stream of the offer, each with the retransmission stream numbered
  on from the one that the offer pairs with it, as long as the two ranges do not meet and fit the number format.\<close>

theorem legacy_simulcast_encodings:
  assumes "find (\<lambda>l. sl_attribute l = ''msid'') (list_of (mo_ssrcs m)) = Some line" "sl_id line = vnat s"
    and "first_rtx (Fin (of_nat s)) (list_of (mo_ssrcGroups m)) = Some (Fin (of_nat r))" "0 < r"
    and "addLegacySimulcast n m = Inr m'" "s + n \<le> r \<or> r + n \<le> s" "s + n \<le> 2 ^ 53" "r + n \<le> 2 ^ 53"
  shows "getRtpEncodings m' = Inr (map (\<lambda>i. \<lparr>oe_ssrc = vnat (s + i), oe_rtxSsrc = vnat (r + i)\<rparr>) [0..<n])"
proof -
  define ps where "ps = legacy_pairs s r n"
  have n: "1 < n" using assms(5) by (auto simp: addLegacySimulcast_def split: if_splits)
  have sums: "map (\<lambda>i. VNum (js_add (Fin (of_nat s)) (Fin (of_nat i)))) [0..<n] = map vnat (map fst ps)"
    "legacy_rtx (Some (Fin (of_nat r))) n = map vnat (map snd ps)"
    using assms(4,7,8) by (auto simp: ps_def legacy_pairs_def legacy_rtx_def js_add_nat simp del: js_add.simps)
  obtain cname msid where m': "mo_ssrcs m' = Some (fst (legacy_streams cname msid (map vnat (map fst ps)) (map vnat (map snd ps))))"
      "mo_ssrcGroups m' = Some (snd (legacy_streams cname msid (map vnat (map fst ps)) (map vnat (map snd ps))))"
    using assms(1-3,5) n sums
    by (auto simp: addLegacySimulcast_def Let_def split: option.splits simp del: js_add.simps)
  have fits: "list_all (\<lambda>p. fst p \<le> 2 ^ 53 \<and> snd p \<le> 2 ^ 53 \<and> 0 < snd p) ps"
    using assms(4,7,8) by (auto simp: ps_def legacy_pairs_def list_all_iff)
  have d: "distinct (map fst ps @ map snd ps)"
    using assms(6) by (auto simp: ps_def legacy_pairs_def distinct_map comp_def)
  then have dv: "distinct (map vnat (map fst ps) @ map vnat (map snd ps))"
    by (simp only: map_append [symmetric] distinct_map) (auto simp: inj_on_def)
  have ids: "section_ssrcs (list_of (mo_ssrcs m')) = map vnat (map fst ps) @ map vnat (map snd ps)"
    using dv section_ssrcs_new [of "[]" "map vnat (map fst ps) @ map vnat (map snd ps)" cname msid]
    by (simp add: m' legacy_streams_def list_of_def section_ssrcs_def)
  have groups: "\<exists>sim. list_of (mo_ssrcGroups m') = sim # map fid_group ps \<and> sg_semantics sim \<noteq> ''FID''"
    using fits by (auto simp: m' legacy_streams_def list_of_def fid_group_def zip_map_map zip_same_conv_map list_all_iff dest: bspec)
  have "ps \<noteq> []" using n by (simp add: ps_def legacy_pairs_def)
  with groups ids show ?thesis
    using legacy_encodings [OF fits d] by (auto simp: getRtpEncodings_def ps_def legacy_pairs_def)
qed

definition offered_streams :: media_object where
  "offered_streams = empty_media\<lparr>
     mo_ssrcs := Some (concat (map (legacy_lines ''c'' ''s t'') [VNum (Fin 1), VNum (Fin 100)])),
     mo_ssrcGroups := Some [\<lparr>sg_semantics = ''FID'', sg_ssrcs = ''1 100''\<rparr>]\<rparr>"

theorem legacy_simulcast_encodings_witness:
  "\<exists>m'. addLegacySimulcast 3 offered_streams = Inr m' \<and>
    getRtpEncodings m' = Inr (map (\<lambda>i. \<lparr>oe_ssrc = vnat (1 + i), oe_rtxSsrc = vnat (100 + i)\<rparr>) [0..<3])"
proof -
  have f: "find (\<lambda>l. sl_attribute l = ''msid'') (list_of (mo_ssrcs offered_streams)) =
      Some \<lparr>sl_id = vnat 1, sl_attribute = ''msid'', sl_value = ''s t''\<rparr>"
    by (simp add: offered_streams_def list_of_def legacy_lines_def)
  have r: "first_rtx (Fin (of_nat 1)) (list_of (mo_ssrcGroups offered_streams)) = Some (Fin (of_nat 100))"
    by code_simp
  obtain m' where m': "addLegacySimulcast 3 offered_streams = Inr m'"
    by (simp add: addLegacySimulcast_def offered_streams_def list_of_def legacy_lines_def Let_def)
  show ?thesis
    using legacy_simulcast_encodings [OF f _ r _ m'] m' by simp
qed

text \<open>A simulcast section of a track whose offer has no retransmission, or of a Plan-B section, needs at least two
  streams and both lines of the track.\<close>

lemma addLegacySimulcast_refuses:
  "addLegacySimulcast n m = Inl too_few_streams \<longleftrightarrow> n \<le> 1"
  "n > 1 \<Longrightarrow> is_ok (addLegacySimulcast n m) \<longleftrightarrow>
     list_ex (\<lambda>l. sl_attribute l = ''msid'') (list_of (mo_ssrcs m)) \<and> list_ex (\<lambda>l. sl_attribute l = ''cname'') (list_of (mo_ssrcs m))"
  by (auto simp: addLegacySimulcast_def too_few_streams_def Let_def list_ex_iff find_None_iff find_Some_iff split: option.splits)

section \<open>Offered streams read back\<close>

lemma new_offer_form:
  assumes "new_OfferMediaSection env mid kind offer streamId trackId old = Inr m" "kind = ''audio'' \<or> kind = ''video''"
  obtains m0 m1 planB msid where
    "offer_codecs (op_codecs offer) m0 = Inr m1" "mo_rtp (ms_object m0) = []" "mo_fmtp (ms_object m0) = []"
    "mo_rtcpFb (ms_object m0) = []" "mo_type (ms_object m0) = kind" "op_encodings offer \<noteq> []"
    "m = offer_finish planB msid offer (hd (op_encodings offer)) m1"
proof -
  define m0 where "m0 = offer_direction (se_planB env) (msid_of streamId trackId) (offer_start env mid kind)"
  have "mo_rtp (ms_object m0) = []" "mo_fmtp (ms_object m0) = []" "mo_rtcpFb (ms_object m0) = []" "mo_type (ms_object m0) = kind"
    by (simp_all add: m0_def upd_def offer_direction_def offer_start_def set_address_def new_MediaSection_def setDtlsRole_def
      setIceParameters_def empty_media_def Let_def split: option.split)
  moreover from assms obtain m1 e es where "offer_codecs (op_codecs offer) m0 = Inr m1" "op_encodings offer = e # es"
    "m = offer_finish (se_planB env) (msid_of streamId trackId) offer e m1"
    by (cases "op_encodings offer") (auto simp: new_OfferMediaSection_def bindr_eq_Inr Let_def m0_def)
  ultimately show ?thesis by (intro that) simp_all
qed

lemma offer_finish_streams:
  obtains msid where "mo_ssrcs (ms_object (offer_finish planB v offer e m)) = Some (fst (stream_lines (op_cname offer) msid e))"
    "mo_ssrcGroups (ms_object (offer_finish planB v offer e m)) = Some (snd (stream_lines (op_cname offer) msid e))"
  by (rule that [of "if planB then Some v else None"]) (simp_all add: offer_finish_def upd_def Let_def)

lemma new_offer_streams:
  assumes "new_OfferMediaSection env mid kind offer streamId trackId old = Inr m" "kind = ''audio'' \<or> kind = ''video''"
  obtains msid where "mo_ssrcs (ms_object m) = Some (fst (stream_lines (op_cname offer) msid (hd (op_encodings offer))))"
    "mo_ssrcGroups (ms_object m) = Some (snd (stream_lines (op_cname offer) msid (hd (op_encodings offer))))"
  using new_offer_form [OF assms] offer_finish_streams by metis

text \<open>What a section offers for a consumer is what is read from it: one encoding, with the stream and the
  retransmission stream it was made with, and the same canonical name.\<close>

theorem offered_stream_roundtrip:
  assumes "new_OfferMediaSection env mid kind offer streamId trackId old = Inr m" "kind = ''audio'' \<or> kind = ''video''"
    and "op_encodings offer = [\<lparr>oe_ssrc = vnat s, oe_rtxSsrc = rtx\<rparr>]" "s \<le> 2 ^ 53"
    and "rtx = VUndef \<or> (\<exists>r. rtx = vnat r \<and> r \<le> 2 ^ 53 \<and> r \<noteq> s \<and> 0 < r)" "op_cname offer \<noteq> []"
  shows "getRtpEncodings (ms_object m) = Inr (op_encodings offer) \<and> getCname (ms_object m) = op_cname offer"
proof -
  obtain msid where ssrcs: "mo_ssrcs (ms_object m) = Some (fst (stream_lines (op_cname offer) msid (hd (op_encodings offer))))"
    and groups: "mo_ssrcGroups (ms_object m) = Some (snd (stream_lines (op_cname offer) msid (hd (op_encodings offer))))"
    by (rule new_offer_streams [OF assms(1,2)])
  have cname: "getCname (ms_object m) = op_cname offer"
    using assms(6) by (simp add: getCname_def ssrcs list_of_def stream_lines_def ssrc_lines_def)
  from assms(5) consider "rtx = VUndef" | r where "rtx = vnat r" "r \<le> 2 ^ 53" "r \<noteq> s" "0 < r" by auto
  then have "getRtpEncodings (ms_object m) = Inr (op_encodings offer)"
  proof cases
    case 1
    then have "section_ssrcs (list_of (mo_ssrcs (ms_object m))) = [vnat s]" "list_of (mo_ssrcGroups (ms_object m)) = []"
      using assms(3,6) by (auto simp: ssrcs groups list_of_def stream_lines_def ssrc_lines_def section_ssrcs_def set_add_def split: option.splits)
    then show ?thesis using 1 assms(3) by (simp add: getRtpEncodings_def encodings_of_def)
  next
    case 2
    have "section_ssrcs (list_of (mo_ssrcs (ms_object m))) = map vnat (map fst [(s, r)]) @ map vnat (map snd [(s, r)])"
      using 2 assms(3,6) by (auto simp: ssrcs list_of_def stream_lines_def ssrc_lines_def section_ssrcs_def set_add_def split: option.splits)
    moreover have "list_of (mo_ssrcGroups (ms_object m)) = map fid_group [(s, r)]"
      using 2 assms(3,4) by (simp add: groups list_of_def stream_lines_def fid_group_def)
    moreover have "foldl group_step (map vnat (map fst [(s, r)]) @ map vnat (map snd [(s, r)]), []) (map fid_group [(s, r)]) =
        ([], [(vnat s, vnat r)])"
      using 2 assms(4) fid_run [of "[(s, r)]" "[vnat s, vnat r]" "[]"] by simp
    ultimately show ?thesis using 2 assms(3) by (simp add: getRtpEncodings_def encodings_of_def)
  qed
  with cname show ?thesis by simp
qed

definition plain_env :: section_env where
  "plain_env = \<lparr>se_ice = None, se_candidates = None, se_dtls = None, se_sctp = None, se_plain = None, se_planB = False\<rparr>"

definition consumer_offer :: offer_parameters where
  "consumer_offer = \<lparr>op_codecs = [], op_headerExtensions = [],
     op_encodings = [\<lparr>oe_ssrc = vnat 11, oe_rtxSsrc = vnat 12\<rparr>], op_cname = ''peer''\<rparr>"

theorem offered_stream_roundtrip_witness:
  "\<exists>m. new_OfferMediaSection plain_env ''0'' ''video'' consumer_offer None ''t'' False = Inr m \<and>
    getRtpEncodings (ms_object m) = Inr (op_encodings consumer_offer) \<and> getCname (ms_object m) = ''peer''"
proof -
  obtain m where m: "new_OfferMediaSection plain_env ''0'' ''video'' consumer_offer None ''t'' False = Inr m"
    by (simp add: new_OfferMediaSection_def consumer_offer_def Let_def)
  show ?thesis
    using offered_stream_roundtrip [OF m, of 11 "vnat 12"] m by (simp add: consumer_offer_def)
qed

section \<open>Capabilities read back\<close>

lemma change_codec_Nil [simp]: "change_codec f k [] = []"
  by (simp add: change_codec_def jm_get_def)

lemma change_codec_Cons: "change_codec f k ((a, c) # m) = (if a = k then (a, f c) # m else (a, c) # change_codec f k m)"
  by (auto simp: change_codec_def jm_get_def split: option.split)

lemma change_codec_map:
  assumes "distinct (map key cs)"
  shows "change_codec f k (map (\<lambda>d. (key d, g d)) cs) = map (\<lambda>d. (key d, if key d = k then f (g d) else g d)) cs"
  using assms by (induction cs) (auto simp: change_codec_Cons image_iff intro!: map_cong)

text \<open>Lines that each change the codec they name: the codec of \<open>d\<close> is changed by its own lines, in order.\<close>

lemma change_codecs_run:
  assumes "distinct (map key cs)"
  shows "foldl (\<lambda>m l. change_codec (F l) (K l) m) (map (\<lambda>d. (key d, g d)) cs) ls =
    map (\<lambda>d. (key d, foldl (\<lambda>c l. F l c) (g d) (filter (\<lambda>l. K l = key d) ls))) cs"
proof (induction ls arbitrary: g)
  case (Cons l ls)
  have "foldl (\<lambda>m l. change_codec (F l) (K l) m) (map (\<lambda>d. (key d, g d)) cs) (l # ls) =
      foldl (\<lambda>m l. change_codec (F l) (K l) m) (map (\<lambda>d. (key d, if key d = K l then F l (g d) else g d)) cs) ls"
    by (simp add: change_codec_map [OF assms])
  also have "\<dots> = map (\<lambda>d. (key d, foldl (\<lambda>c l. F l c) (if key d = K l then F l (g d) else g d) (filter (\<lambda>l. K l = key d) ls))) cs"
    by (rule Cons.IH)
  also have "\<dots> = map (\<lambda>d. (key d, foldl (\<lambda>c l. F l c) (g d) (filter (\<lambda>l. K l = key d) (l # ls)))) cs"
    by (rule map_cong) auto
  finally show ?case .
qed simp

lemma own_lines:
  assumes "distinct (map key cs)" "d \<in> set cs" "\<And>c l. c \<in> set cs \<Longrightarrow> l \<in> set (L c) \<Longrightarrow> K l = key c"
  shows "filter (\<lambda>l. K l = key d) (concat (map L cs)) = L d"
  using assms
proof (induction cs)
  case (Cons c cs)
  have none: "filter (\<lambda>l. K l = key x) (concat (map L cs)) = []" if "key x \<notin> set (map key cs)" for x
  proof -
    have "K l \<noteq> key x" if "c' \<in> set cs" "l \<in> set (L c')" for c' l
      using that Cons.prems(3) [of c' l] \<open>key x \<notin> set (map key cs)\<close> by (auto simp: image_iff)
    then show ?thesis by (auto simp: filter_empty_conv)
  qed
  have all: "filter (\<lambda>l. K l = key c) (L c) = L c" using Cons.prems(3) by simp
  show ?case
  proof (cases "d = c")
    case True
    then show ?thesis using none [of c] all Cons.prems(1) by simp
  next
    case False
    then have "key c \<noteq> key d" "d \<in> set cs" using Cons.prems(1,2) by auto
    moreover from this have "filter (\<lambda>l. K l = key d) (L c) = []" using Cons.prems(3) by (force simp: filter_empty_conv)
    ultimately show ?thesis using Cons by simp
  qed
qed simp

definition payload_key :: "codec_parameters \<Rightarrow> jsval" where
  "payload_key c = opt_num (cp_payloadType c)"

definition line_of :: "codec_parameters \<Rightarrow> rtp_line" where
  "line_of c = (case rtp_line_of c of Inr l \<Rightarrow> l | Inl _ \<Rightarrow> undefined)"

lemma offer_codecs_lines:
  "offer_codecs cs m = Inr m' \<Longrightarrow>
     mo_rtp (ms_object m') = mo_rtp (ms_object m) @ map line_of cs \<and>
     mo_fmtp (ms_object m') = mo_fmtp (ms_object m) @ concat (map (\<lambda>c. fmtp_of (cp_payloadType c) (cd_parameters c)) cs) \<and>
     mo_rtcpFb (ms_object m') = mo_rtcpFb (ms_object m) @ concat (map (\<lambda>c. fb_lines (cp_payloadType c) (cd_rtcpFeedback c)) cs) \<and>
     mo_type (ms_object m') = mo_type (ms_object m) \<and> list_all (\<lambda>c. rtp_line_of c = Inr (line_of c)) cs"
proof (induction cs arbitrary: m)
  case (Cons c cs)
  then obtain m1 where m1: "add_codec c (cd_parameters c) (cd_rtcpFeedback c) m = Inr m1" and r: "offer_codecs cs m1 = Inr m'"
    by (auto simp: bindr_eq_Inr)
  have "rtp_line_of c = Inr (line_of c)" using m1 by (auto simp: add_codec_def bindr_eq_Inr line_of_def)
  with m1 Cons.IH [OF r] show ?case by (auto simp: add_codec_def upd_def)
qed simp

text \<open>A codec that a section can carry: a media type of the kind, and parameters as above. A section has no line for a
  single channel and no empty feedback parameter: both come back as absent.\<close>

definition carries :: "track_kind \<Rightarrow> codec_parameters \<Rightarrow> bool" where
  "carries kind c \<longleftrightarrow>
     (case getCodecName (cd_mimeType c) of Inr name \<Rightarrow> cd_mimeType c = kind_str kind @ ''/'' @ name | Inl _ \<Rightarrow> False) \<and>
     distinct (map fst (cd_parameters c)) \<and> list_all param_ok (cd_parameters c)"

definition many_channels :: "number option \<Rightarrow> number option" where
  "many_channels n = (case n of Some k \<Rightarrow> if js_gt k (Fin 1) then Some k else None | None \<Rightarrow> None)"

definition without_empty :: "rtcp_feedback \<Rightarrow> rtcp_feedback" where
  "without_empty fb = (if fb_parameter fb = Some [] then fb\<lparr>fb_parameter := None\<rparr> else fb)"

definition as_capability :: "track_kind \<Rightarrow> codec_parameters \<Rightarrow> codec_capability" where
  "as_capability kind c = \<lparr>cd_mimeType = cd_mimeType c, cd_clockRate = cd_clockRate c,
     cd_channels = many_channels (cd_channels c), cd_parameters = cd_parameters c,
     cd_rtcpFeedback = map without_empty (cd_rtcpFeedback c), cc_kind = kind, cc_preferredPayloadType = cp_payloadType c\<rparr>"

text \<open>A codec with its parameters as text.\<close>

definition printed :: "codec_capability \<Rightarrow> codec_capability" where
  "printed c = c\<lparr>cd_parameters := map (\<lambda>(k, v). (k, VStr (val_str v))) (cd_parameters c)\<rparr>"

lemma jm_set_printed: "jm_get ps k = Some v \<Longrightarrow> val_str v = val_str w \<Longrightarrow>
    map (\<lambda>(k, v). (k, VStr (val_str v))) (jm_set k w ps) = map (\<lambda>(k, v). (k, VStr (val_str v))) ps"
  by (induction ps) (auto simp: jm_get_def split: if_splits)

lemma printed_profile:
  "map (\<lambda>(k, v). (k, VStr (val_str v))) (profile_as_text ps) = map (\<lambda>(k, v). (k, VStr (val_str v))) ps"
  by (auto simp: profile_as_text_def jm_set_printed split: option.split)

lemma write_config_empty: "write_config fs [] = [] \<longleftrightarrow> fs = []"
  by (cases fs) (auto simp: write_config_join join_Cons piece_def)

lemma codec_line:
  assumes "carries kind c" "rtp_line_of c = Inr (line_of c)"
  shows "codec_of_line kind (line_of c) = (as_capability kind c)\<lparr>cd_parameters := [], cd_rtcpFeedback := []\<rparr>"
    "opt_num (rl_payload (line_of c)) = payload_key c"
proof -
  obtain name where name: "getCodecName (cd_mimeType c) = Inr name" "cd_mimeType c = kind_str kind @ ''/'' @ name"
    using assms(1) by (auto simp: carries_def split: sum.splits)
  have "line_of c = \<lparr>rl_payload = cp_payloadType c, rl_codec = name, rl_rate = cd_clockRate c,
      rl_encoding = many_channels (cd_channels c)\<rparr>"
    using assms name(1) by (auto simp: rtp_line_of_def many_channels_def split: option.splits if_splits)
  with name(2) show "codec_of_line kind (line_of c) = (as_capability kind c)\<lparr>cd_parameters := [], cd_rtcpFeedback := []\<rparr>"
    "opt_num (rl_payload (line_of c)) = payload_key c"
    by (simp_all add: codec_of_line_def as_capability_def payload_key_def)
qed

lemma read_rtp_run:
  assumes "distinct (map payload_key cs)" "list_all (carries kind) cs" "list_all (\<lambda>c. rtp_line_of c = Inr (line_of c)) cs"
  shows "foldl (read_rtp kind) [] (map line_of cs) =
    map (\<lambda>c. (payload_key c, (as_capability kind c)\<lparr>cd_parameters := [], cd_rtcpFeedback := []\<rparr>)) cs"
proof -
  have "foldl (read_rtp kind) acc (map line_of cs) =
      acc @ map (\<lambda>c. (payload_key c, (as_capability kind c)\<lparr>cd_parameters := [], cd_rtcpFeedback := []\<rparr>)) cs"
    if "distinct (map fst acc @ map payload_key cs)" for acc
    using that assms
  proof (induction cs arbitrary: acc)
    case (Cons c cs)
    have "read_rtp kind acc (line_of c) =
        acc @ [(payload_key c, (as_capability kind c)\<lparr>cd_parameters := [], cd_rtcpFeedback := []\<rparr>)]"
      using Cons.prems codec_line [of kind c] by (simp add: read_rtp_def jm_set_new jm_keys_def)
    with Cons show ?case by simp
  qed simp
  then show ?thesis using assms(1) by simp
qed

lemma read_fmtp_run:
  assumes "distinct (map payload_key cs)"
  shows "foldl read_fmtp (map (\<lambda>c. (payload_key c, g c)) cs) (concat (map (\<lambda>c. fmtp_of (cp_payloadType c) (cd_parameters c)) cs)) =
    map (\<lambda>c. (payload_key c, if cd_parameters c = [] then g c
      else (g c)\<lparr>cd_parameters := profile_as_text (parseParams str_number (write_config (cd_parameters c) []))\<rparr>)) cs"
proof -
  have r: "read_fmtp = (\<lambda>m f. change_codec (\<lambda>c. c\<lparr>cd_parameters := profile_as_text (parseParams str_number (fl_config f))\<rparr>) (opt_num (fl_payload f)) m)"
    by (simp add: fun_eq_iff read_fmtp_def)
  have own: "filter (\<lambda>f. opt_num (fl_payload f) = payload_key d) (concat (map (\<lambda>c. fmtp_of (cp_payloadType c) (cd_parameters c)) cs)) =
      fmtp_of (cp_payloadType d) (cd_parameters d)" if "d \<in> set cs" for d
    using assms that by (rule own_lines) (auto simp: fmtp_of_def payload_key_def Let_def split: if_splits)
  show ?thesis
    unfolding r change_codecs_run [OF assms]
    by (rule map_cong) (simp_all add: own, simp add: fmtp_of_def write_config_empty)
qed

lemma push_feedback_run: "foldl (\<lambda>c l. push_feedback (feedback_of_line l) c) c ls = c\<lparr>cd_rtcpFeedback := cd_rtcpFeedback c @ map feedback_of_line ls\<rparr>"
  by (induction ls arbitrary: c) (simp_all add: push_feedback_def)

lemma read_fb_run:
  assumes "distinct (map payload_key cs)"
  shows "foldl (read_fb kind) (map (\<lambda>c. (payload_key c, g c)) cs) (concat (map (\<lambda>c. fb_lines (cp_payloadType c) (cd_rtcpFeedback c)) cs)) =
    map (\<lambda>c. (payload_key c, (g c)\<lparr>cd_rtcpFeedback := cd_rtcpFeedback (g c) @ map feedback_of_line (fb_lines (cp_payloadType c) (cd_rtcpFeedback c))\<rparr>)) cs"
proof -
  define ls where "ls = concat (map (\<lambda>c. fb_lines (cp_payloadType c) (cd_rtcpFeedback c)) cs)"
  have named: "list_all (\<lambda>l. bl_payload l \<noteq> VStr ''*'') ls"
    by (auto simp: ls_def list_all_iff fb_lines_def opt_num_def split: option.splits)
  have r: "foldl (read_fb kind) m ls = foldl (\<lambda>m l. change_codec (push_feedback (feedback_of_line l)) (bl_payload l) m) m ls" for m
    using named by (induction ls arbitrary: m) (simp_all add: read_fb_def)
  have own: "filter (\<lambda>l. bl_payload l = payload_key d) ls = fb_lines (cp_payloadType d) (cd_rtcpFeedback d)" if "d \<in> set cs" for d
    unfolding ls_def using assms that by (rule own_lines) (auto simp: fb_lines_def payload_key_def)
  show ?thesis
    unfolding ls_def [symmetric] r change_codecs_run [OF assms]
    by (rule map_cong) (auto simp: own push_feedback_run)
qed

lemma feedback_roundtrip:
  "map feedback_of_line (fb_lines p fbs) = map without_empty fbs"
  by (induction fbs) (auto simp: fb_lines_def feedback_of_line_def without_empty_def)

lemma printed_written:
  assumes "carries kind c"
  shows "map (\<lambda>(k, v). (k, VStr (val_str v))) (profile_as_text (parseParams str_number (write_config (cd_parameters c) []))) =
    map (\<lambda>(k, v). (k, VStr (val_str v))) (cd_parameters c)"
proof -
  have "distinct (map fst (cd_parameters c))" "list_all param_ok (cd_parameters c)" using assms by (simp_all add: carries_def)
  from parse_written [OF this] show ?thesis unfolding printed_profile by (simp add: case_prod_unfold)
qed

text \<open>C28: The codecs that a section offers are the codecs that \<open>extractRtpCapabilities\<close> finds in it, in the same order: the
  same media types, clock rates and payload types, channels when there is more than one (a single channel comes back
  as none), the same feedback (an empty parameter comes back as none) and parameters that print alike. This is for
  codecs with payload types of their own, with media types of the kind of the section, and whose parameters have
  names of their own with no equals sign, semicolon or leading blank and values that print as a non-empty
  text on one line with no semicolon. An empty value, which the validation makes of a missing one, does not survive
  (\<open>empty_parameter_lost\<close>).\<close>

theorem capabilities_roundtrip:
  assumes "new_OfferMediaSection env mid (kind_str kind) offer streamId trackId old = Inr m"
    and "distinct (map payload_key (op_codecs offer))" "list_all (carries kind) (op_codecs offer)"
  shows "map printed (nc_codecs (extractRtpCapabilities (sdp\<lparr>so_media := [ms_object m]\<rparr>))) =
    map (printed \<circ> as_capability kind) (op_codecs offer)"
proof -
  let ?cs = "op_codecs offer"
  have k: "kind_str kind = ''audio'' \<or> kind_str kind = ''video''" by (simp add: kind_str_def)
  obtain m0 m1 planB msid where m1: "offer_codecs ?cs m0 = Inr m1" and m0: "mo_rtp (ms_object m0) = []" "mo_fmtp (ms_object m0) = []"
      "mo_rtcpFb (ms_object m0) = []" "mo_type (ms_object m0) = kind_str kind"
    and m: "m = offer_finish planB msid offer (hd (op_encodings offer)) m1"
    by (rule new_offer_form [OF assms(1) k])
  have lines: "mo_rtp (ms_object m) = map line_of ?cs"
      "mo_fmtp (ms_object m) = concat (map (\<lambda>c. fmtp_of (cp_payloadType c) (cd_parameters c)) ?cs)"
      "mo_rtcpFb (ms_object m) = concat (map (\<lambda>c. fb_lines (cp_payloadType c) (cd_rtcpFeedback c)) ?cs)"
      "mo_type (ms_object m) = kind_str kind" "list_all (\<lambda>c. rtp_line_of c = Inr (line_of c)) ?cs"
    using offer_codecs_lines [OF m1] m0 by (simp_all add: m offer_finish_def upd_def Let_def)
  have kind: "media_kind (ms_object m) = Some kind"
    using lines(4) by (cases kind) (simp_all add: media_kind_def kind_str_def)
  have "nc_codecs (extractRtpCapabilities (sdp\<lparr>so_media := [ms_object m]\<rparr>)) = jm_values (read_section kind (ms_object m) [])"
    by (simp add: extractRtpCapabilities_def kind)
  also have "map printed \<dots> = map (printed \<circ> as_capability kind) ?cs"
    unfolding read_section_def lines(1-3) read_rtp_run [OF assms(2,3) lines(5)] read_fmtp_run [OF assms(2)] read_fb_run [OF assms(2)]
    using assms(3) printed_written
    by (auto simp: jm_values_def printed_def as_capability_def list_all_iff feedback_roundtrip carries_def comp_def)
  finally show ?thesis .
qed

definition opus_offer_codec :: codec_parameters where
  "opus_offer_codec = \<lparr>cd_mimeType = ''audio/opus'', cd_clockRate = Fin 48000, cd_channels = Some (Fin 2), cd_parameters = opus_fmtp,
     cd_rtcpFeedback = [\<lparr>fb_type = ''transport-cc'', fb_parameter = Some []\<rparr>], cp_payloadType = Some (Fin 100)\<rparr>"

definition empty_sdp :: sdp_object where
  "empty_sdp = \<lparr>so_setup = None, so_fingerprint = None, so_connection = None, so_media = []\<rparr>"

theorem capabilities_roundtrip_witness:
  "\<exists>m. new_OfferMediaSection plain_env ''0'' (kind_str KAudio) (consumer_offer\<lparr>op_codecs := [opus_offer_codec]\<rparr>) None ''t'' False = Inr m \<and>
    map printed (nc_codecs (extractRtpCapabilities (empty_sdp\<lparr>so_media := [ms_object m]\<rparr>))) =
    [printed (as_capability KAudio opus_offer_codec)]"
proof -
  have ok: "carries KAudio opus_offer_codec" by code_simp
  have "is_ok (new_OfferMediaSection plain_env ''0'' (kind_str KAudio) (consumer_offer\<lparr>op_codecs := [opus_offer_codec]\<rparr>) None ''t'' False)"
    by code_simp
  then obtain m where m: "new_OfferMediaSection plain_env ''0'' (kind_str KAudio) (consumer_offer\<lparr>op_codecs := [opus_offer_codec]\<rparr>) None ''t'' False = Inr m"
    by (auto simp: is_ok_def split: sum.splits)
  show ?thesis
    using capabilities_roundtrip [OF m, of empty_sdp] m ok by simp
qed

section \<open>Stereo in an answer\<close>

lemma find_update_first:
  "find P xs = Some x \<Longrightarrow> (\<And>y. P (f y) = P y) \<Longrightarrow> find P (update_first P f xs) = Some (f x)"
  by (induction xs) (auto split: if_splits)

text \<open>The answer to an opus offer carries the parameters it had, with \<open>stereo\<close> as the offer's \<open>sprop-stereo\<close> asks.\<close>

lemma apply_codec_stereo:
  assumes "to_lower (cd_mimeType c) = ''audio/opus''" "list_ex (\<lambda>r. has_payload c (rl_payload r)) (mo_rtp m)"
    and "find (\<lambda>f. has_payload c (fl_payload f)) (mo_fmtp m) = Some f" "fl_config f = write_config ps []"
    and "distinct (map fst ps)" "list_all param_ok ps"
  obtains f' where "find (\<lambda>f. has_payload c (fl_payload f)) (mo_fmtp (apply_codec c m)) = Some f'"
    "fl_config f' = write_config (set_stereo c (map (\<lambda>p. (fst p, toIntIfInt str_number (val_str (snd p)))) ps)) []"
proof -
  have "list_ex (\<lambda>f. has_payload c (fl_payload f)) (mo_fmtp m)"
    using assms(3) by (auto simp: list_ex_iff find_Some_iff)
  then have "mo_fmtp (apply_codec c m) = update_first (\<lambda>f. has_payload c (fl_payload f))
      (\<lambda>f. f\<lparr>fl_config := write_config (set_stereo c (parseParams str_number (fl_config f))) []\<rparr>) (mo_fmtp m)"
    using assms(1,2) by (simp add: apply_codec_def Let_def)
  then show ?thesis
    by (intro that [of "f\<lparr>fl_config := write_config (set_stereo c (parseParams str_number (fl_config f))) []\<rparr>"])
      (simp_all add: find_update_first [OF assms(3)] parse_written [OF assms(5,6)] assms(4))
qed

lemma apply_codec_others: "mo_rtp (apply_codec c m) = mo_rtp m" "mo_rtcpFb (apply_codec c m) = mo_rtcpFb m" "mo_mid (apply_codec c m) = mo_mid m"
  by (simp_all add: apply_codec_def Let_def)

section \<open>Scalability modes\<close>

lemma layer_digits_bounds: "layer_digits s = Some (n, r) \<Longrightarrow> 1 \<le> n \<and> n \<le> 99"
  by (auto simp: layer_digits_def is_digit_def digits_value_def split: list.splits if_splits)

lemma parse_scalability_bounds:
  "1 \<le> sm_spatialLayers (parse_scalability s) \<and> sm_spatialLayers (parse_scalability s) \<le> 99"
  "1 \<le> sm_temporalLayers (parse_scalability s) \<and> sm_temporalLayers (parse_scalability s) \<le> 99"
  by (auto simp: parse_scalability_def Let_def split: list.splits option.splits if_splits dest!: layer_digits_bounds)

lemma layer_digits_nat:
  assumes "1 \<le> n" "n \<le> 99"
  shows "layer_digits (nat_str n) = Some (n, [])"
proof (cases "n < 10")
  case True
  with assms show ?thesis by (simp add: nat_str_def layer_digits_def)
next
  case False
  have d: "n div 10 < 10" "n div 10 \<noteq> 0" using assms(2) False by auto
  with False have "nat_str n = [char_of (48 + n div 10), char_of (48 + n mod 10)]"
    by (cases n) (simp_all add: nat_str_def)
  with d show ?thesis by (simp add: layer_digits_def digits_value_def)
qed

lemma parse_scalability_temporal:
  "1 \<le> n \<Longrightarrow> n \<le> 99 \<Longrightarrow> parse_scalability (''L1T'' @ nat_str n) = \<lparr>sm_spatialLayers = 1, sm_temporalLayers = n\<rparr>"
proof -
  have "layer_digits (''1T'' @ s) = Some (1, ''T'' @ s)" for s
    by (simp add: layer_digits_def is_digit_def digit_def Let_def)
  then show "1 \<le> n \<Longrightarrow> n \<le> 99 \<Longrightarrow> ?thesis" by (simp add: parse_scalability_def layer_digits_nat)
qed

end
