(* ===== verification/H264.thy ===== *)
theory H264
  imports SdpUtils
begin

text \<open>
  The H.264 profile and level negotiation that \<open>ortc.js\<close> calls, as the bundle
  \<open>public/mediasoup-client.qos.bundle.js\<close> ships it (\<open>h264-profile-level-id/lib/index.js\<close>):
  reading and writing the three bytes of a profile-level-id, comparing profiles, and choosing the
  level of an answer. \<open>H264_LIB\<close> is the library as the interface that \<open>matchCodecs\<close> takes.
\<close>

unbundle bit_operations_syntax

section \<open>Profiles and levels\<close>

datatype h264_profile = ConstrainedBaseline | Baseline | Main | ConstrainedHigh | High | PredictiveHigh444

datatype h264_level =
  L1_b | L1 | L1_1 | L1_2 | L1_3 | L2 | L2_1 | L2_2 | L3 | L3_1 | L3_2 | L4 | L4_1 | L4_2 | L5 | L5_1 | L5_2

fun level_value :: "h264_level \<Rightarrow> nat" where
  "level_value L1_b = 0" | "level_value L1 = 10" | "level_value L1_1 = 11" | "level_value L1_2 = 12"
| "level_value L1_3 = 13" | "level_value L2 = 20" | "level_value L2_1 = 21" | "level_value L2_2 = 22"
| "level_value L3 = 30" | "level_value L3_1 = 31" | "level_value L3_2 = 32" | "level_value L4 = 40"
| "level_value L4_1 = 41" | "level_value L4_2 = 42" | "level_value L5 = 50" | "level_value L5_1 = 51"
| "level_value L5_2 = 52"

record profile_level_id =
  pl_profile :: h264_profile
  pl_level :: h264_level

definition DefaultProfileLevelId :: profile_level_id where
  "DefaultProfileLevelId = \<lparr>pl_profile = ConstrainedBaseline, pl_level = L3_1\<rparr>"

section \<open>Bit patterns\<close>

text \<open>The bit operators of the language work on two's complement integers: \<open>int\<close> has all of them.\<close>

definition bit_number :: "char \<Rightarrow> string \<Rightarrow> nat \<Rightarrow> int" where
  "bit_number c str i = (if i < length str \<and> str ! i = c then 1 else 0)"

definition byteMaskString :: "char \<Rightarrow> string \<Rightarrow> int" where
  "byteMaskString c str =
     push_bit 7 (bit_number c str 0) OR push_bit 6 (bit_number c str 1) OR push_bit 5 (bit_number c str 2) OR
     push_bit 4 (bit_number c str 3) OR push_bit 3 (bit_number c str 4) OR push_bit 2 (bit_number c str 5) OR
     push_bit 1 (bit_number c str 6) OR push_bit 0 (bit_number c str 7)"

record bit_pattern =
  bp_mask :: int
  bp_masked_value :: int

definition new_BitPattern :: "string \<Rightarrow> bit_pattern" where
  "new_BitPattern str = \<lparr>bp_mask = NOT (byteMaskString (CHR ''x'') str), bp_masked_value = byteMaskString (CHR ''1'') str\<rparr>"

definition isMatch :: "bit_pattern \<Rightarrow> int \<Rightarrow> bool" where
  "isMatch p value \<longleftrightarrow> bp_masked_value p = (value AND bp_mask p)"

record profile_pattern =
  pp_profile_idc :: int
  pp_profile_iop :: bit_pattern
  pp_profile :: h264_profile

definition new_ProfilePattern :: "int \<Rightarrow> string \<Rightarrow> h264_profile \<Rightarrow> profile_pattern" where
  "new_ProfilePattern idc str profile =
     \<lparr>pp_profile_idc = idc, pp_profile_iop = new_BitPattern str, pp_profile = profile\<rparr>"

definition ProfilePatterns :: "profile_pattern list" where
  "ProfilePatterns =
     [new_ProfilePattern 66 ''x1xx0000'' ConstrainedBaseline,
      new_ProfilePattern 77 ''1xxx0000'' ConstrainedBaseline,
      new_ProfilePattern 88 ''11xx0000'' ConstrainedBaseline,
      new_ProfilePattern 66 ''x0xx0000'' Baseline,
      new_ProfilePattern 88 ''10xx0000'' Baseline,
      new_ProfilePattern 77 ''0x0x0000'' Main,
      new_ProfilePattern 100 ''00000000'' High,
      new_ProfilePattern 100 ''00001100'' ConstrainedHigh,
      new_ProfilePattern 244 ''00000000'' PredictiveHigh444]"

section \<open>Numbers in base sixteen\<close>

text \<open>
  \<open>parseInt\<close>: leading white space and a sign are skipped, the longest run of digits is read and the rest
  ignored; without a digit the result is not a number. \<open>0x\<close> in front is skipped when the radix is 16 or
  not given, and then stands for 16.
\<close>

definition digit_value :: "char \<Rightarrow> int" where
  "digit_value c = (let n = (of_char c :: int) in
     if 48 \<le> n \<and> n \<le> 57 then n - 48 else if 97 \<le> n \<and> n \<le> 122 then n - 87 else if 65 \<le> n \<and> n \<le> 90 then n - 55 else 36)"

definition js_parseInt :: "int option \<Rightarrow> string \<Rightarrow> int option" where
  "js_parseInt radix str =
     (let s = trim_left str;
          sign = (if s \<noteq> [] \<and> hd s = CHR ''-'' then - 1 else 1);
          t = (if s \<noteq> [] \<and> (hd s = CHR ''-'' \<or> hd s = CHR ''+'') then tl s else s);
          hex = (radix \<in> {None, Some 16} \<and> take 2 t \<in> {''0x'', ''0X''});
          base = (if hex then 16 else case radix of Some b \<Rightarrow> b | None \<Rightarrow> 10);
          ds = takeWhile (\<lambda>c. digit_value c < base) (if hex then drop 2 t else t)
      in if ds = [] then None else Some (sign * foldl (\<lambda>n c. base * n + digit_value c) 0 ds))"

text \<open>\<open>Number.prototype.toString(16)\<close> of a natural number.\<close>

definition hex_digit :: "nat \<Rightarrow> char" where
  "hex_digit n = (''0123456789abcdef'' ! n)"

fun to_hex :: "nat \<Rightarrow> string" where
  "to_hex n = (if n < 16 then [hex_digit n] else to_hex (n div 16) @ [hex_digit (n mod 16)])"

declare to_hex.simps [simp del]

section \<open>The profile-level-id\<close>

definition level_of_idc :: "int \<Rightarrow> int \<Rightarrow> h264_level option" where
  "level_of_idc level_idc profile_iop =
     (if level_idc = 11 then Some (if profile_iop AND 16 \<noteq> 0 then L1_b else L1_1)
      else find (\<lambda>l. level_idc = int (level_value l))
        [L1, L1_2, L1_3, L2, L2_1, L2_2, L3, L3_1, L3_2, L4, L4_1, L4_2, L5, L5_1, L5_2])"

definition find_pattern :: "int \<Rightarrow> int \<Rightarrow> profile_pattern option" where
  "find_pattern profile_idc profile_iop =
     find (\<lambda>p. profile_idc = pp_profile_idc p \<and> isMatch (pp_profile_iop p) profile_iop) ProfilePatterns"

text \<open>The operators read a number that is not one as zero.\<close>

definition parseProfileLevelId :: "jsval \<Rightarrow> profile_level_id option" where
  "parseProfileLevelId v =
     (case v of
        VStr str \<Rightarrow>
          if length str \<noteq> 6 then None
          else let parsed = js_parseInt (Some 16) str;
                   numeric = (case parsed of Some n \<Rightarrow> n | None \<Rightarrow> 0);
                   level_idc = numeric AND 255;
                   profile_iop = drop_bit 8 numeric AND 255;
                   profile_idc = drop_bit 16 numeric AND 255
               in if parsed = Some 0 then None
                  else (case level_of_idc level_idc profile_iop of
                      None \<Rightarrow> None
                    | Some level \<Rightarrow>
                        (case find_pattern profile_idc profile_iop of
                           Some p \<Rightarrow> Some \<lparr>pl_profile = pp_profile p, pl_level = level\<rparr>
                         | None \<Rightarrow> None))
      | _ \<Rightarrow> None)"

definition profile_idc_iop_string :: "h264_profile \<Rightarrow> string" where
  "profile_idc_iop_string p =
     (case p of ConstrainedBaseline \<Rightarrow> ''42e0'' | Baseline \<Rightarrow> ''4200'' | Main \<Rightarrow> ''4d00''
      | ConstrainedHigh \<Rightarrow> ''640c'' | High \<Rightarrow> ''6400'' | PredictiveHigh444 \<Rightarrow> ''f400'')"

definition profileLevelIdToString :: "profile_level_id \<Rightarrow> string option" where
  "profileLevelIdToString pl =
     (if pl_level pl = L1_b then
        (case pl_profile pl of
           ConstrainedBaseline \<Rightarrow> Some ''42f00b''
         | Baseline \<Rightarrow> Some ''42100b''
         | Main \<Rightarrow> Some ''4d100b''
         | _ \<Rightarrow> None)
      else let levelStr = to_hex (level_value (pl_level pl));
               levelStr = (if length levelStr = 1 then ''0'' @ levelStr else levelStr)
           in Some (profile_idc_iop_string (pl_profile pl) @ levelStr))"

definition profileToString :: "h264_profile \<Rightarrow> string" where
  "profileToString p =
     (case p of ConstrainedBaseline \<Rightarrow> ''ConstrainedBaseline'' | Baseline \<Rightarrow> ''Baseline'' | Main \<Rightarrow> ''Main''
      | ConstrainedHigh \<Rightarrow> ''ConstrainedHigh'' | High \<Rightarrow> ''High'' | PredictiveHigh444 \<Rightarrow> ''PredictiveHigh444'')"

fun levelToString :: "h264_level \<Rightarrow> string" where
  "levelToString L1_b = ''1b''" | "levelToString L1 = ''1''" | "levelToString L1_1 = ''1.1''"
| "levelToString L1_2 = ''1.2''" | "levelToString L1_3 = ''1.3''" | "levelToString L2 = ''2''"
| "levelToString L2_1 = ''2.1''" | "levelToString L2_2 = ''2.2''" | "levelToString L3 = ''3''"
| "levelToString L3_1 = ''3.1''" | "levelToString L3_2 = ''3.2''" | "levelToString L4 = ''4''"
| "levelToString L4_1 = ''4.1''" | "levelToString L4_2 = ''4.2''" | "levelToString L5 = ''5''"
| "levelToString L5_1 = ''5.1''" | "levelToString L5_2 = ''5.2''"

definition parseSdpProfileLevelId :: "jsobj \<Rightarrow> profile_level_id option" where
  "parseSdpProfileLevelId params =
     (let v = obj_get params PROFILE_LEVEL_ID in if truthy v then parseProfileLevelId v else Some DefaultProfileLevelId)"

definition h264_isSameProfile :: "jsobj \<Rightarrow> jsobj \<Rightarrow> bool" where
  "h264_isSameProfile params1 params2 =
     (case (parseSdpProfileLevelId params1, parseSdpProfileLevelId params2) of
        (Some a, Some b) \<Rightarrow> pl_profile a = pl_profile b
      | _ \<Rightarrow> False)"

section \<open>The answer\<close>

definition isLessLevel :: "h264_level \<Rightarrow> h264_level \<Rightarrow> bool" where
  "isLessLevel a b =
     (if a = L1_b then b \<noteq> L1 \<and> b \<noteq> L1_b
      else if b = L1_b then a \<noteq> L1
      else level_value a < level_value b)"

definition minLevel :: "h264_level \<Rightarrow> h264_level \<Rightarrow> h264_level" where
  "minLevel a b = (if isLessLevel a b then a else b)"

definition isLevelAsymmetryAllowed :: "jsobj \<Rightarrow> bool" where
  "isLevelAsymmetryAllowed params =
     (let v = obj_get params ''level-asymmetry-allowed''
      in strict_eq v (VBool True) \<or> strict_eq v (VNum (Fin 1)) \<or> strict_eq v (VStr ''1''))"

definition h264_answer :: "jsobj \<Rightarrow> jsobj \<Rightarrow> string option result" where
  "h264_answer local_params remote_params =
     (if \<not> truthy (obj_get local_params PROFILE_LEVEL_ID) \<and> \<not> truthy (obj_get remote_params PROFILE_LEVEL_ID)
      then Inr None
      else case parseSdpProfileLevelId local_params of
        None \<Rightarrow> Inl (TypeError ''invalid local_profile_level_id'')
      | Some local \<Rightarrow>
          (case parseSdpProfileLevelId remote_params of
             None \<Rightarrow> Inl (TypeError ''invalid remote_profile_level_id'')
           | Some remote \<Rightarrow>
               if pl_profile local \<noteq> pl_profile remote then Inl (TypeError ''H264 Profile mismatch'')
               else let asymmetry = isLevelAsymmetryAllowed local_params \<and> isLevelAsymmetryAllowed remote_params;
                        answer_level = (if asymmetry then pl_level local else minLevel (pl_level local) (pl_level remote))
                    in Inr (profileLevelIdToString \<lparr>pl_profile = pl_profile local, pl_level = answer_level\<rparr>)))"

definition H264_LIB :: h264 where
  "H264_LIB = \<lparr>isSameProfile = h264_isSameProfile, generateProfileLevelIdStringForAnswer = h264_answer\<rparr>"

section \<open>Reading the three bytes\<close>

definition hex_byte :: "nat \<Rightarrow> string" where
  "hex_byte n = [hex_digit (n div 16), hex_digit (n mod 16)]"

text \<open>The reference reading of a profile, a constraint and a level byte.\<close>

definition profile_level_of_bytes :: "nat \<Rightarrow> nat \<Rightarrow> nat \<Rightarrow> profile_level_id option" where
  "profile_level_of_bytes idc iop lvl =
     (case (level_of_idc (int lvl) (int iop), find_pattern (int idc) (int iop)) of
        (Some level, Some p) \<Rightarrow> Some \<lparr>pl_profile = pp_profile p, pl_level = level\<rparr>
      | _ \<Rightarrow> None)"

lemma hex_digits_checked:
  "list_all (\<lambda>n. digit_value (hex_digit n) = int n \<and> \<not> white (hex_digit n) \<and>
     hex_digit n \<noteq> CHR ''-'' \<and> hex_digit n \<noteq> CHR ''+'' \<and> hex_digit n \<noteq> CHR ''x'' \<and> hex_digit n \<noteq> CHR ''X'') [0..<16]"
  by code_simp

lemma hex_digit_facts:
  assumes "n < 16"
  shows "digit_value (hex_digit n) = int n" "\<not> white (hex_digit n)"
    "hex_digit n \<noteq> CHR ''-''" "hex_digit n \<noteq> CHR ''+''" "hex_digit n \<noteq> CHR ''x''" "hex_digit n \<noteq> CHR ''X''"
  using hex_digits_checked assms by (simp_all add: list_all_iff)

lemma parseInt_digits:
  assumes "ns \<noteq> []" "\<And>n. n \<in> set ns \<Longrightarrow> n < 16"
  shows "js_parseInt (Some 16) (map hex_digit ns) = Some (foldl (\<lambda>m n. 16 * m + int n) 0 ns)"
proof -
  define t where "t = map hex_digit ns"
  obtain x xs where ns: "ns = x # xs" using assms(1) by (cases ns) auto
  have whole: "takeWhile (\<lambda>c. digit_value c < 16) t = t"
    using assms(2) by (auto simp: t_def takeWhile_eq_all_conv hex_digit_facts)
  have fold: "foldl (\<lambda>m c. 16 * m + digit_value c) k (map hex_digit ns) = foldl (\<lambda>m n. 16 * m + int n) k ns" for k
    using assms(2) by (induction ns arbitrary: k) (simp_all add: hex_digit_facts)
  have "t \<noteq> []" "trim_left t = t" "hd t \<noteq> CHR ''-''" "hd t \<noteq> CHR ''+''"
    using assms(2) [of x] by (simp_all add: t_def ns hex_digit_facts)
  moreover have "take 2 t \<notin> {''0x'', ''0X''}"
    using assms(2) hex_digit_facts(5,6) by (cases xs) (auto simp: t_def ns)
  ultimately show ?thesis by (simp add: js_parseInt_def Let_def whole fold [folded t_def] flip: t_def del: takeWhile_eq_all_conv)
qed

lemma parseInt_bytes:
  assumes "a < 256" "b < 256" "c < 256"
  shows "js_parseInt (Some 16) (hex_byte a @ hex_byte b @ hex_byte c) = Some (int (65536 * a + 256 * b + c))"
proof -
  have e: "16 * int (n div 16) + int (n mod 16) = int n" for n :: nat
    by (metis mult_div_mod_eq of_nat_add of_nat_mult of_nat_numeral)
  have bytes: "hex_byte a @ hex_byte b @ hex_byte c = map hex_digit [a div 16, a mod 16, b div 16, b mod 16, c div 16, c mod 16]"
    by (simp add: hex_byte_def)
  show ?thesis
    unfolding bytes using assms e [of a] e [of b] e [of c] by (subst parseInt_digits) auto
qed

lemma low_byte: "(n :: int) AND 255 = n mod 256"
  using take_bit_eq_mask [of 8 n] by (simp add: take_bit_eq_mod mask_eq_exp_minus_1)

lemma bytes_split:
  assumes "b < 256" "c < 256" "a < 256"
  shows "int (65536 * a + 256 * b + c) AND 255 = int c"
    "drop_bit 8 (int (65536 * a + 256 * b + c)) AND 255 = int b"
    "drop_bit 16 (int (65536 * a + 256 * b + c)) AND 255 = int a"
proof -
  have n: "65536 * a + 256 * b + c = c + 256 * (b + 256 * a)" by simp
  have d: "(65536 * a + 256 * b + c) div 256 = b + 256 * a" unfolding n using assms(2) by simp
  then have e: "(65536 * a + 256 * b + c) div 65536 = a" using assms(1) div_mult2_eq [of "65536 * a + 256 * b + c" 256 256] by simp
  have m: "(65536 * a + 256 * b + c) mod 256 = c" unfolding n using assms(2) by (simp only: mod_mult_self2 mod_less)
  have i: "int x AND 255 = int (x mod 256)" "drop_bit 8 (int x) AND 255 = int (x div 256 mod 256)"
    "drop_bit 16 (int x) AND 255 = int (x div 65536 mod 256)" for x
    by (simp_all add: low_byte drop_bit_eq_div zmod_int zdiv_int)
  show "int (65536 * a + 256 * b + c) AND 255 = int c"
    "drop_bit 8 (int (65536 * a + 256 * b + c)) AND 255 = int b"
    "drop_bit 16 (int (65536 * a + 256 * b + c)) AND 255 = int a"
    unfolding i d e m using assms by simp_all
qed

text \<open>For any three bytes written in base sixteen, \<open>parseProfileLevelId\<close> takes the last as the level,
  the middle one as the constraint flags and the first as the profile number, and answers what the
  tables say of them.
\<close>
theorem profile_level_id_bytes:
  assumes "a < 256" "b < 256" "c < 256"
  shows "parseProfileLevelId (VStr (hex_byte a @ hex_byte b @ hex_byte c)) = profile_level_of_bytes a b c"
proof -
  have none: "level_of_idc 0 x = None" for x by (simp add: level_of_idc_def)
  have "profile_level_of_bytes a b c = None" if zero: "int (65536 * a + 256 * b + c) = 0"
  proof -
    have "c = 0" using zero unfolding of_nat_eq_0_iff by simp
    then show ?thesis by (simp add: profile_level_of_bytes_def none)
  qed
  then show ?thesis
    using parseInt_bytes [OF assms] bytes_split [OF assms(2,3,1)]
    by (auto simp: parseProfileLevelId_def profile_level_of_bytes_def Let_def hex_byte_def split: option.splits)
qed

theorem profile_level_id_bytes_witness:
  "parseProfileLevelId (VStr (hex_byte 66 @ hex_byte 224 @ hex_byte 31)) = profile_level_of_bytes 66 224 31 \<and>
   hex_byte 66 @ hex_byte 224 @ hex_byte 31 = ''42e01f'' \<and>
   profile_level_of_bytes 66 224 31 = Some \<lparr>pl_profile = ConstrainedBaseline, pl_level = L3_1\<rparr>"
proof -
  have "hex_byte 66 @ hex_byte 224 @ hex_byte 31 = ''42e01f''" by code_simp
  moreover have "profile_level_of_bytes 66 224 31 = Some \<lparr>pl_profile = ConstrainedBaseline, pl_level = L3_1\<rparr>" by code_simp
  ultimately show ?thesis using profile_level_id_bytes [of 66 224 31] by simp
qed

section \<open>Round trip\<close>

definition all_profiles :: "h264_profile list" where
  "all_profiles = [ConstrainedBaseline, Baseline, Main, ConstrainedHigh, High, PredictiveHigh444]"

definition all_levels :: "h264_level list" where
  "all_levels = [L1_b, L1, L1_1, L1_2, L1_3, L2, L2_1, L2_2, L3, L3_1, L3_2, L4, L4_1, L4_2, L5, L5_1, L5_2]"

lemma in_all_profiles: "p \<in> set all_profiles" by (cases p) (simp_all add: all_profiles_def)

lemma in_all_levels: "l \<in> set all_levels" by (cases l) (simp_all add: all_levels_def)

definition written_and_read :: "profile_level_id \<Rightarrow> bool" where
  "written_and_read pl =
     (case profileLevelIdToString pl of
        None \<Rightarrow> pl_level pl = L1_b \<and> pl_profile pl \<in> {ConstrainedHigh, High, PredictiveHigh444}
      | Some s \<Rightarrow> parseProfileLevelId (VStr s) = Some pl)"

lemma all_written_and_read:
  "list_all (\<lambda>p. list_all (\<lambda>l. written_and_read \<lparr>pl_profile = p, pl_level = l\<rparr>) all_levels) all_profiles"
  by code_simp

lemma written_and_read_all: "written_and_read pl"
proof (cases pl)
  case (fields p l)
  show ?thesis
    unfolding fields using all_written_and_read in_all_profiles [of p] in_all_levels [of l]
    unfolding list_all_iff by blast
qed

text \<open>C29: A profile and level that \<open>profileLevelIdToString\<close> can write are what \<open>parseProfileLevelId\<close> reads
  back, and it refuses exactly level 1b of the high profiles.
\<close>
theorem profile_level_id_roundtrip:
  "case profileLevelIdToString pl of
     None \<Rightarrow> pl_level pl = L1_b \<and> pl_profile pl \<in> {ConstrainedHigh, High, PredictiveHigh444}
   | Some s \<Rightarrow> parseProfileLevelId (VStr s) = Some pl"
  using written_and_read_all [of pl] unfolding written_and_read_def .

section \<open>The patterns\<close>

definition matching_patterns :: "int \<Rightarrow> int \<Rightarrow> profile_pattern list" where
  "matching_patterns idc iop = filter (\<lambda>p. idc = pp_profile_idc p \<and> isMatch (pp_profile_iop p) iop) ProfilePatterns"

lemma matching_checked:
  "list_all (\<lambda>iop. list_all (\<lambda>idc. length (matching_patterns idc iop) \<le> 1) [66, 77, 88, 100, 244]) (map int [0..<256])"
  by code_simp

text \<open>No two lines of the profile table match the same profile and constraint bytes, so the order in
  which \<open>parseProfileLevelId\<close> tries them does not matter.
\<close>
theorem profile_patterns_disjoint:
  assumes "iop < 256"
  shows "length (filter (\<lambda>p. idc = pp_profile_idc p \<and> isMatch (pp_profile_iop p) (int iop)) ProfilePatterns) \<le> 1"
proof (cases "idc \<in> set [66, 77, 88, 100, 244]")
  case True
  have "int iop \<in> set (map int [0..<256])" using assms by simp
  with matching_checked have "list_all (\<lambda>idc. length (matching_patterns idc (int iop)) \<le> 1) [66, 77, 88, 100, 244]"
    unfolding list_all_iff by blast
  with True show ?thesis unfolding list_all_iff matching_patterns_def by blast
next
  case False
  then show ?thesis by (simp add: ProfilePatterns_def new_ProfilePattern_def)
qed

theorem profile_patterns_disjoint_witness:
  "length (filter (\<lambda>p. 77 = pp_profile_idc p \<and> isMatch (pp_profile_iop p) (int 64)) ProfilePatterns) \<le> 1 \<and>
   map_option pp_profile (find_pattern 77 64) = Some Main"
proof -
  have "map_option pp_profile (find_pattern 77 64) = Some Main" by code_simp
  then show ?thesis using profile_patterns_disjoint [of 64 77] by simp
qed

section \<open>The level of the answer\<close>

lemma level_value_inj: "level_value a = level_value b \<Longrightarrow> a = b"
  by (cases a; cases b; simp)

lemma minLevel_value:
  "a \<noteq> L1_b \<Longrightarrow> b \<noteq> L1_b \<Longrightarrow> level_value (minLevel a b) = min (level_value a) (level_value b)"
  by (simp add: minLevel_def isLessLevel_def)

lemma minLevel_either: "minLevel a b \<in> {a, b}"
  by (simp add: minLevel_def)

lemma written_read: "profileLevelIdToString pl = Some s \<Longrightarrow> parseProfileLevelId (VStr s) = Some pl"
  using written_and_read_all [of pl] by (simp add: written_and_read_def)

text \<open>An answer names the common profile of both sides. Its level is the local one when both sides allow
  asymmetry; otherwise, unless one of them is at level 1b, it is the lower of the two.
\<close>
theorem answer_profile_and_level:
  assumes "h264_answer l r = Inr (Some s)"
  shows "\<exists>a b c. parseSdpProfileLevelId l = Some a \<and> parseSdpProfileLevelId r = Some b \<and> parseProfileLevelId (VStr s) = Some c \<and>
     pl_profile c = pl_profile a \<and> pl_profile c = pl_profile b \<and>
     (if isLevelAsymmetryAllowed l \<and> isLevelAsymmetryAllowed r then pl_level c = pl_level a
      else pl_level c \<in> {pl_level a, pl_level b} \<and>
        (L1_b \<notin> {pl_level a, pl_level b} \<longrightarrow> level_value (pl_level c) = min (level_value (pl_level a)) (level_value (pl_level b))))"
proof -
  from assms obtain a b where ab: "parseSdpProfileLevelId l = Some a" "parseSdpProfileLevelId r = Some b" "pl_profile a = pl_profile b"
    by (auto simp: h264_answer_def split: if_splits option.splits)
  define level where
    "level = (if isLevelAsymmetryAllowed l \<and> isLevelAsymmetryAllowed r then pl_level a else minLevel (pl_level a) (pl_level b))"
  have "profileLevelIdToString \<lparr>pl_profile = pl_profile a, pl_level = level\<rparr> = Some s"
    using assms ab by (auto simp: h264_answer_def Let_def level_def split: if_splits)
  from written_read [OF this] have "parseProfileLevelId (VStr s) = Some \<lparr>pl_profile = pl_profile a, pl_level = level\<rparr>" .
  with ab show ?thesis using minLevel_either minLevel_value by (auto simp: level_def)
qed

definition level_params :: "string \<Rightarrow> jsobj" where
  "level_params s = [(PROFILE_LEVEL_ID, VStr s)]"

theorem answer_profile_and_level_witness:
  "h264_answer (level_params ''42e01f'') (level_params ''42e015'') = Inr (Some ''42e015'') \<and>
   parseProfileLevelId (VStr ''42e015'') = Some \<lparr>pl_profile = ConstrainedBaseline, pl_level = L2_1\<rparr>"
proof -
  have e: "h264_answer (level_params ''42e01f'') (level_params ''42e015'') = Inr (Some ''42e015'')" by code_simp
  have p: "parseSdpProfileLevelId (level_params ''42e01f'') = Some \<lparr>pl_profile = ConstrainedBaseline, pl_level = L3_1\<rparr>"
    "parseSdpProfileLevelId (level_params ''42e015'') = Some \<lparr>pl_profile = ConstrainedBaseline, pl_level = L2_1\<rparr>"
    "\<not> isLevelAsymmetryAllowed (level_params ''42e01f'')" by code_simp+
  from answer_profile_and_level [OF e] p obtain c where
    c: "parseProfileLevelId (VStr ''42e015'') = Some c" "pl_profile c = ConstrainedBaseline" "level_value (pl_level c) = level_value L2_1"
    by auto
  from c(2) level_value_inj [OF c(3)] have "c = \<lparr>pl_profile = ConstrainedBaseline, pl_level = L2_1\<rparr>" by simp
  with e c(1) show ?thesis by simp
qed

text \<open>Level 1b lies between levels 1 and 1.1, but as the second argument \<open>isLessLevel\<close> takes every level
  except level 1 to be below it: the minimum of a higher level and an offered 1b is the higher one, and of
  level 1 and 1b it is 1b, while the arguments the other way round give the right result.
\<close>
theorem offered_level_1b_raised:
  "(if a = L1_b then minLevel a L1_b = L1_b
    else if a = L1 then minLevel a L1_b = L1_b \<and> minLevel L1_b a = L1
    else minLevel a L1_b = a \<and> minLevel L1_b a = L1_b) \<and>
   h264_answer (level_params ''42e01f'') (level_params ''42f00b'') = Inr (Some ''42e01f'') \<and>
   h264_answer (level_params ''42f00b'') (level_params ''42e01f'') = Inr (Some ''42f00b'')"
proof (intro conjI)
  show "h264_answer (level_params ''42e01f'') (level_params ''42f00b'') = Inr (Some ''42e01f'')"
    "h264_answer (level_params ''42f00b'') (level_params ''42e01f'') = Inr (Some ''42f00b'')" by code_simp+
qed (auto simp: minLevel_def isLessLevel_def)

section \<open>Matching codecs\<close>

lemma same_profile_sym: "h264_isSameProfile a b = h264_isSameProfile b a"
  by (auto simp: h264_isSameProfile_def split: option.splits)

lemma answer_of_same: "h264_isSameProfile l r \<Longrightarrow> is_ok (h264_answer l r)"
  by (auto simp: h264_isSameProfile_def h264_answer_def is_ok_def split: option.splits if_splits)

text \<open>C30: With this library a strict match of two H.264 codecs never meets an exception of the answer: they match
  exactly when the clock rates and the channels are equal, the packetization modes agree and the profiles are the same, and
  when the match is to be written down both codecs leave with the same profile-level-id.\<close>

theorem h264_match_exact:
  assumes "to_lower (cd_mimeType a) = ''video/h264''" "to_lower (cd_mimeType b) = ''video/h264''"
  shows "(fst (matchCodecs H264_LIB a b True modify) \<longleftrightarrow>
      js_eq (cd_clockRate a) (cd_clockRate b) \<and> strict_eq (opt_num (cd_channels a)) (opt_num (cd_channels b)) \<and>
      strict_eq (or_zero (obj_get (cd_parameters a) ''packetization-mode'')) (or_zero (obj_get (cd_parameters b) ''packetization-mode'')) \<and>
      h264_isSameProfile (cd_parameters a) (cd_parameters b)) \<and>
    (\<forall>a' b'. matchCodecs H264_LIB a b True True = (True, a', b') \<longrightarrow>
      obj_get (cd_parameters a') PROFILE_LEVEL_ID = obj_get (cd_parameters b') PROFILE_LEVEL_ID)"
proof (intro conjI allI impI)
  have "\<not> h264_isSameProfile (cd_parameters a) (cd_parameters b)" if "h264_answer (cd_parameters a) (cd_parameters b) = Inl e" for e
    using answer_of_same [of "cd_parameters a" "cd_parameters b"] that by (auto simp: is_ok_def)
  with assms show "fst (matchCodecs H264_LIB a b True modify) \<longleftrightarrow>
      js_eq (cd_clockRate a) (cd_clockRate b) \<and> strict_eq (opt_num (cd_channels a)) (opt_num (cd_channels b)) \<and>
      strict_eq (or_zero (obj_get (cd_parameters a) ''packetization-mode'')) (or_zero (obj_get (cd_parameters b) ''packetization-mode'')) \<and>
      h264_isSameProfile (cd_parameters a) (cd_parameters b)"
    by (auto simp: matchCodecs_def Let_def H264_LIB_def split: sum.split)
next
  fix a' b'
  assume "matchCodecs H264_LIB a b True True = (True, a', b')"
  then obtain sel where "a' = set_profile sel a" "b' = set_profile sel b"
    using assms by (auto simp: matchCodecs_def Let_def H264_LIB_def split: if_splits sum.splits)
  then show "obj_get (cd_parameters a') PROFILE_LEVEL_ID = obj_get (cd_parameters b') PROFILE_LEVEL_ID"
    by (auto simp: set_profile_def split: option.split)
qed

definition h264_codec :: "string \<Rightarrow> codec_capability" where
  "h264_codec s = cap ''video/H264'' KVideo (Fin 102) [(''packetization-mode'', VNum (Fin 1)), (PROFILE_LEVEL_ID, VStr s)]"

theorem h264_match_exact_witness:
  "fst (matchCodecs H264_LIB (h264_codec ''42e01f'') (h264_codec ''42e015'') True False) \<and>
   \<not> fst (matchCodecs H264_LIB (h264_codec ''42e01f'') (h264_codec ''4d001f'') True False)"
proof -
  have low: "to_lower ''video/H264'' = ''video/h264''" by code_simp
  have pre: "to_lower (cd_mimeType (h264_codec s)) = ''video/h264''" "js_eq (cd_clockRate (h264_codec s)) (cd_clockRate (h264_codec t))"
    "strict_eq (opt_num (cd_channels (h264_codec s))) (opt_num (cd_channels (h264_codec t)))" for s t
    by (simp_all add: h264_codec_def cap_def low strict_eq_def js_eq_def)
  have "h264_isSameProfile (cd_parameters (h264_codec ''42e01f'')) (cd_parameters (h264_codec ''42e015''))"
    "\<not> h264_isSameProfile (cd_parameters (h264_codec ''42e01f'')) (cd_parameters (h264_codec ''4d001f''))"
    by code_simp+
  moreover have "strict_eq (or_zero (obj_get (cd_parameters (h264_codec s)) ''packetization-mode''))
      (or_zero (obj_get (cd_parameters (h264_codec t)) ''packetization-mode''))" for s t
    by (simp add: h264_codec_def cap_def strict_eq_def or_zero_def)
  ultimately show ?thesis using h264_match_exact [OF pre(1) pre(1)] pre(2,3) by blast
qed

end
