(* ===== verification/DeviceDetect.thy ===== *)
theory DeviceDetect
  imports H264
begin

text \<open>
  Choosing the handler for a browser, \<open>detectDevice\<close> of \<open>Device.js\<close>. What the globals of the page say is a
  record; the user agent parser (\<open>ua-parser-js\<close>) is a function from the user agent to what the code
  asks it for.
\<close>

section \<open>The environment\<close>

record navigator =
  nv_product :: "string option"
  nv_userAgent :: "string option"

record ua_result =
  ua_browserName :: "string option"
  ua_browserMajor :: "string option"
  ua_engineName :: "string option"
  ua_osName :: "string option"
  ua_osVersion :: "string option"
  ua_deviceModel :: "string option"

text \<open>\<open>gl_currentDirection\<close>: the prototype of \<open>RTCRtpTransceiver\<close> has that property.\<close>

record globals =
  gl_navigator :: "navigator option"
  gl_RTCPeerConnection :: bool
  gl_RTCRtpTransceiver :: bool
  gl_currentDirection :: bool

section \<open>Numbers and patterns\<close>

text \<open>\<open>parseInt\<close> without a radix, and \<open>parseFloat\<close>, which reads the longest piece in front that is a number.\<close>

definition parse_int :: "string \<Rightarrow> number" where
  "parse_int s = (case js_parseInt None s of Some n \<Rightarrow> js_num (of_int n) | None \<Rightarrow> NaN)"

fun longest_number :: "nat \<Rightarrow> string \<Rightarrow> number" where
  "longest_number 0 s = NaN"
| "longest_number (Suc k) s =
     (if signed_literal (take (Suc k) s) \<noteq> NaN then signed_literal (take (Suc k) s) else longest_number k s)"

definition parse_float :: "string \<Rightarrow> number" where
  "parse_float s = longest_number (length (trim_left s)) (trim_left s)"

definition word_char :: "char \<Rightarrow> bool" where
  "word_char c \<longleftrightarrow> digit_value c < 36 \<or> c = CHR ''_''"

text \<open>The word that \<open>/(?:(?:Chrome|Chromium))[ /](\w+)/i\<close> captures.\<close>

definition version_after :: "string \<Rightarrow> string option" where
  "version_after s =
     (case s of
        c # r \<Rightarrow> if (c = CHR '' '' \<or> c = CHR ''/'') \<and> takeWhile word_char r \<noteq> [] then Some (takeWhile word_char r) else None
      | [] \<Rightarrow> None)"

definition chrome_here :: "string \<Rightarrow> string option" where
  "chrome_here s =
     (if to_lower (take 6 s) = ''chrome'' \<and> version_after (drop 6 s) \<noteq> None then version_after (drop 6 s)
      else if to_lower (take 8 s) = ''chromium'' then version_after (drop 8 s)
      else None)"

fun chrome_version :: "string \<Rightarrow> string option" where
  "chrome_version [] = None"
| "chrome_version (c # cs) = (case chrome_here (c # cs) of Some v \<Rightarrow> Some v | None \<Rightarrow> chrome_version cs)"

section \<open>Detection\<close>

definition react_native :: "globals \<Rightarrow> string option" where
  "react_native g =
     (if \<not> gl_RTCPeerConnection g then None
      else if gl_RTCRtpTransceiver g then Some ''ReactNativeUnifiedPlan''
      else Some ''ReactNative'')"

definition best_effort_chrome :: "string \<Rightarrow> string" where
  "best_effort_chrome userAgent =
     (case chrome_version userAgent of
        None \<Rightarrow> ''Chrome111''
      | Some match1 \<Rightarrow>
          let version = str_number match1
          in if js_ge version (Fin 111) then ''Chrome111''
             else if js_ge version (Fin 74) then ''Chrome74''
             else if js_ge version (Fin 70) then ''Chrome70''
             else if js_ge version (Fin 67) then ''Chrome67''
             else ''Chrome55'')"

definition named :: "string option \<Rightarrow> string list \<Rightarrow> bool" where
  "named name names \<longleftrightarrow> (case name of Some n \<Rightarrow> n \<noteq> [] \<and> n \<in> set names | None \<Rightarrow> False)"

definition detect_browser :: "globals \<Rightarrow> ua_result \<Rightarrow> string \<Rightarrow> string option" where
  "detect_browser g ua userAgent =
     (let browserName = map_option to_lower (ua_browserName ua);
          browserVersion = parse_int (case ua_browserMajor ua of Some s \<Rightarrow> s | None \<Rightarrow> ''0'');
          engineName = map_option to_lower (ua_engineName ua);
          osName = map_option to_lower (ua_osName ua);
          osVersion = parse_float (case ua_osVersion ua of Some s \<Rightarrow> s | None \<Rightarrow> ''0'');
          deviceModel = map_option to_lower (ua_deviceModel ua);
          isIOS = (osName = Some ''ios'' \<or> deviceModel = Some ''ipad'');
          isChrome = named browserName [''chrome'', ''chromium'', ''mobile chrome'', ''chrome webview'', ''chrome headless''];
          isFirefox = named browserName [''firefox'', ''mobile firefox'', ''mobile focus''];
          isSafari = named browserName [''safari'', ''mobile safari''];
          isEdge = named browserName [''edge'']
      in if (isChrome \<or> isEdge) \<and> \<not> isIOS \<and> js_ge browserVersion (Fin 111) then Some ''Chrome111''
         else if isChrome \<and> \<not> isIOS \<and> js_ge browserVersion (Fin 74) \<or> isEdge \<and> \<not> isIOS \<and> js_ge browserVersion (Fin 88)
           then Some ''Chrome74''
         else if isChrome \<and> \<not> isIOS \<and> js_ge browserVersion (Fin 70) then Some ''Chrome70''
         else if isChrome \<and> \<not> isIOS \<and> js_ge browserVersion (Fin 67) then Some ''Chrome67''
         else if isChrome \<and> \<not> isIOS \<and> js_ge browserVersion (Fin 55) then Some ''Chrome55''
         else if isFirefox \<and> \<not> isIOS \<and> js_ge browserVersion (Fin 120) then Some ''Firefox120''
         else if isFirefox \<and> \<not> isIOS \<and> js_ge browserVersion (Fin 60) then Some ''Firefox60''
         else if isFirefox \<and> isIOS \<and> js_ge osVersion (js_num (143 / 10)) then Some ''Safari12''
         else if isSafari \<and> js_ge browserVersion (Fin 12) \<and> gl_RTCRtpTransceiver g \<and> gl_currentDirection g then Some ''Safari12''
         else if isSafari \<and> js_ge browserVersion (Fin 11) then Some ''Safari11''
         else if isEdge \<and> \<not> isIOS \<and> js_ge browserVersion (Fin 11) \<and> js_le browserVersion (Fin 18) then Some ''Edge11''
         else if engineName = Some ''webkit'' \<and> isIOS \<and> gl_RTCRtpTransceiver g \<and> gl_currentDirection g then Some ''Safari12''
         else if engineName = Some ''blink'' then Some (best_effort_chrome userAgent)
         else None)"

definition given :: "string option \<Rightarrow> bool" where
  "given s = truthy (opt_str s)"

definition detectDevice :: "(string \<Rightarrow> ua_result) \<Rightarrow> globals \<Rightarrow> string option \<Rightarrow> string option" where
  "detectDevice parser g userAgent =
     (let product = (case gl_navigator g of Some n \<Rightarrow> nv_product n | None \<Rightarrow> None);
          browserAgent = (case gl_navigator g of Some n \<Rightarrow> nv_userAgent n | None \<Rightarrow> None)
      in if \<not> given userAgent \<and> product = Some ''ReactNative'' then react_native g
         else case (if given userAgent then userAgent else if browserAgent = None then None
                    else if userAgent = None then browserAgent else userAgent) of
             Some agent \<Rightarrow> detect_browser g (parser agent) agent
           | None \<Rightarrow> None)"

section \<open>What is detected\<close>

text \<open>The names that the constructor of a device has a handler for.\<close>

definition HANDLER_NAMES :: "string list" where
  "HANDLER_NAMES = [''Chrome111'', ''Chrome74'', ''Chrome70'', ''Chrome67'', ''Chrome55'', ''Firefox120'', ''Firefox60'',
     ''Safari12'', ''Safari11'', ''Edge11'', ''ReactNativeUnifiedPlan'', ''ReactNative'']"

lemma best_effort_known: "best_effort_chrome s \<in> set (take 5 HANDLER_NAMES)"
  by (simp add: best_effort_chrome_def HANDLER_NAMES_def Let_def split: option.split)

lemma detect_browser_known: "detect_browser g ua agent = Some name \<Longrightarrow> name \<in> set (take 10 HANDLER_NAMES)"
  using best_effort_known [of agent]
  by (auto simp: detect_browser_def Let_def HANDLER_NAMES_def split: if_splits)

lemma detectDevice_known: "detectDevice parser g userAgent = Some name \<Longrightarrow> name \<in> set HANDLER_NAMES"
  using detect_browser_known
  by (fastforce simp: detectDevice_def Let_def react_native_def HANDLER_NAMES_def split: if_splits option.splits)

definition is_ios :: "ua_result \<Rightarrow> bool" where
  "is_ios ua \<longleftrightarrow> map_option to_lower (ua_osName ua) = Some ''ios'' \<or> map_option to_lower (ua_deviceModel ua) = Some ''ipad''"

text \<open>Every browser on iOS is WebKit underneath: unless the parser reports the engine Blink, a device that runs
  iOS is only ever given one of the Safari handlers, and that of Unified Plan only when the browser has the
  transceivers it needs or is a Firefox on iOS 14.3 or later.
\<close>
theorem ios_gets_safari_handler:
  assumes "is_ios (parser agent)" "map_option to_lower (ua_engineName (parser agent)) \<noteq> Some ''blink''" "agent \<noteq> []"
    and "detectDevice parser g (Some agent) = Some name"
  shows "name = ''Safari11'' \<or> name = ''Safari12'' \<and>
    (gl_RTCRtpTransceiver g \<and> gl_currentDirection g \<or>
     js_ge (parse_float (case ua_osVersion (parser agent) of Some s \<Rightarrow> s | None \<Rightarrow> ''0'')) (js_num (143 / 10)))"
proof -
  have ios: "(map_option to_lower (ua_osName (parser agent)) = Some ''ios'' \<or> map_option to_lower (ua_deviceModel (parser agent)) = Some ''ipad'') = True"
    using assms(1) by (simp add: is_ios_def)
  have blink: "(map_option to_lower (ua_engineName (parser agent)) = Some ''blink'') = False" using assms(2) by simp
  have "detect_browser g (parser agent) agent = Some name"
    using assms(3,4) by (simp add: detectDevice_def given_def)
  then show ?thesis
    unfolding detect_browser_def Let_def ios blink by (simp only: simp_thms if_False split: if_splits) auto
qed

definition ios_firefox :: ua_result where
  "ios_firefox = \<lparr>ua_browserName = Some ''Mobile Firefox'', ua_browserMajor = Some ''128'', ua_engineName = Some ''WebKit'',
     ua_osName = Some ''iOS'', ua_osVersion = Some ''17.5.1'', ua_deviceModel = Some ''iPhone''\<rparr>"

definition page :: globals where
  "page = \<lparr>gl_navigator = None, gl_RTCPeerConnection = True, gl_RTCRtpTransceiver = True, gl_currentDirection = True\<rparr>"

lemma ios_firefox_detected: "detectDevice (\<lambda>_. ios_firefox) page (Some ''x'') = Some ''Safari12''"
  by code_simp

theorem ios_gets_safari_handler_witness:
  "detectDevice (\<lambda>_. ios_firefox) page (Some ''x'') = Some ''Safari12'' \<and>
   (gl_RTCRtpTransceiver page \<and> gl_currentDirection page \<or>
     js_ge (parse_float (case ua_osVersion ios_firefox of Some s \<Rightarrow> s | None \<Rightarrow> ''0'')) (js_num (143 / 10)))"
proof -
  have "is_ios ios_firefox" "map_option to_lower (ua_engineName ios_firefox) \<noteq> Some ''blink''" by code_simp+
  with ios_gets_safari_handler [of "\<lambda>_. ios_firefox" "''x''" page "''Safari12''"] ios_firefox_detected show ?thesis by simp
qed

text \<open>A Chromium browser whose name the parser does not know is judged by the version in its user agent.\<close>

lemma unknown_blink_examples:
  "best_effort_chrome ''Mozilla/5.0 Foo Chrome/115.0 Safari'' = ''Chrome111''"
  "best_effort_chrome ''Bar chromium 71'' = ''Chrome70''"
  "best_effort_chrome ''ChromeOS Chrome/x'' = ''Chrome55''"
  "best_effort_chrome ''Foo'' = ''Chrome111''"
  by code_simp+

end
