(* ===== verification/AwaitQueue.thy ===== *)
theory AwaitQueue
  imports Prelude
begin

text \<open>
  The queue of asynchronous tasks that \<open>Transport.js\<close> runs everything through, from its source in
  the bundle \<open>src/public/mediasoup-client.qos.bundle.js\<close>. A task is an async function: executing it
  starts it, and it comes back later to resolve or reject. The operations answer, beside the queue,
  what they did to the outside: the tasks started and the promises settled, in order. A task is
  completed when it is no longer in the map, since both happen at once; its \<open>executedAt\<close> is read only
  as a flag.

  The lemmas show that the queue is a list of tasks of which the first, and no other, has been started.
\<close>

section \<open>The queue\<close>

record 'a pending_task =
  pt_id :: nat
  pt_task :: 'a
  pt_executed :: bool

record 'a await_queue =
  aq_pendingTasks :: "(nat, 'a pending_task) jsmap"
  aq_nextTaskId :: nat
  aq_stopping :: bool

datatype 'a queue_effect =
    Started nat 'a
  | Resolved nat 'a
  | Rejected nat 'a

definition new_AwaitQueue :: "'a await_queue" where
  "new_AwaitQueue = \<lparr>aq_pendingTasks = [], aq_nextTaskId = 0, aq_stopping = False\<rparr>"

definition aq_size :: "'a await_queue \<Rightarrow> nat" where
  "aq_size q = length (aq_pendingTasks q)"

text \<open>\<open>execute\<close>: a task already being executed is refused.\<close>

definition aq_execute :: "'a pending_task \<Rightarrow> 'a await_queue \<Rightarrow> 'a await_queue \<times> 'a queue_effect list" where
  "aq_execute t q =
     (if pt_executed t then (q, [])
      else (q\<lparr>aq_pendingTasks := jm_set (pt_id t) (t\<lparr>pt_executed := True\<rparr>) (aq_pendingTasks q)\<rparr>,
        [Started (pt_id t) (pt_task t)]))"

text \<open>After a task is settled, the first one left is started unless it has been.\<close>

definition start_first :: "'a await_queue \<Rightarrow> 'a await_queue \<times> 'a queue_effect list" where
  "start_first q =
     (case jm_values (aq_pendingTasks q) of
        [] \<Rightarrow> (q, [])
      | t # _ \<Rightarrow> if \<not> pt_executed t then aq_execute t q else (q, []))"

definition aq_push :: "'a \<Rightarrow> 'a await_queue \<Rightarrow> 'a await_queue \<times> 'a queue_effect list" where
  "aq_push task q =
     (let t = \<lparr>pt_id = aq_nextTaskId q, pt_task = task, pt_executed = False\<rparr>;
          q' = q\<lparr>aq_nextTaskId := aq_nextTaskId q + 1, aq_pendingTasks := jm_set (pt_id t) t (aq_pendingTasks q)\<rparr>
      in if aq_size q' = 1 then aq_execute t q' else (q', []))"

text \<open>\<open>pendingTask.resolve\<close> and \<open>pendingTask.reject\<close> of the task with this identifier.\<close>

definition aq_resolve :: "nat \<Rightarrow> 'a await_queue \<Rightarrow> 'a await_queue \<times> 'a queue_effect list" where
  "aq_resolve i q =
     (case jm_get (aq_pendingTasks q) i of
        None \<Rightarrow> (q, [])
      | Some t \<Rightarrow>
          (case start_first (q\<lparr>aq_pendingTasks := jm_delete i (aq_pendingTasks q)\<rparr>) of
             (q', evs) \<Rightarrow> (q', Resolved i (pt_task t) # evs)))"

definition aq_reject :: "nat \<Rightarrow> 'a await_queue \<Rightarrow> 'a await_queue \<times> 'a queue_effect list" where
  "aq_reject i q =
     (case jm_get (aq_pendingTasks q) i of
        None \<Rightarrow> (q, [])
      | Some t \<Rightarrow>
          (let q1 = q\<lparr>aq_pendingTasks := jm_delete i (aq_pendingTasks q)\<rparr>
           in if aq_stopping q then (q1, [Rejected i (pt_task t)])
              else case start_first q1 of (q', evs) \<Rightarrow> (q', Rejected i (pt_task t) # evs)))"

fun reject_all :: "nat list \<Rightarrow> 'a await_queue \<Rightarrow> 'a await_queue \<times> 'a queue_effect list" where
  "reject_all [] q = (q, [])"
| "reject_all (i # is) q =
     (case aq_reject i q of (q1, evs1) \<Rightarrow> case reject_all is q1 of (q2, evs2) \<Rightarrow> (q2, evs1 @ evs2))"

definition aq_stop :: "'a await_queue \<Rightarrow> 'a await_queue \<times> 'a queue_effect list" where
  "aq_stop q =
     (case reject_all (jm_keys (aq_pendingTasks q)) (q\<lparr>aq_stopping := True\<rparr>) of
        (q', evs) \<Rightarrow> (q'\<lparr>aq_stopping := False\<rparr>, evs))"

definition aq_remove :: "nat \<Rightarrow> 'a await_queue \<Rightarrow> 'a await_queue \<times> 'a queue_effect list" where
  "aq_remove taskIdx q =
     (let ts = jm_values (aq_pendingTasks q)
      in if taskIdx < length ts then aq_reject (pt_id (ts ! taskIdx)) q else (q, []))"

section \<open>The queue as a list\<close>

definition contents :: "'a await_queue \<Rightarrow> (nat \<times> 'a) list" where
  "contents q = map (\<lambda>(i, t). (i, pt_task t)) (aq_pendingTasks q)"

text \<open>Identifiers grow along the queue and stay below the next one, and the flags say that exactly the first
  task has been started.\<close>

definition aq_ok :: "'a await_queue \<Rightarrow> bool" where
  "aq_ok q \<longleftrightarrow>
     sorted_wrt (<) (jm_keys (aq_pendingTasks q)) \<and>
     (\<forall>i \<in> set (jm_keys (aq_pendingTasks q)). i < aq_nextTaskId q) \<and>
     (\<forall>(i, t) \<in> set (aq_pendingTasks q). pt_id t = i) \<and>
     map pt_executed (jm_values (aq_pendingTasks q)) = map (\<lambda>n. n = 0) [0..<length (aq_pendingTasks q)] \<and>
     \<not> aq_stopping q"

text \<open>What the clients of the queue rely on: its contents as a list, the head of which is running.\<close>

locale serial_queue =
  fixes empty :: 'q
    and push :: "'a \<Rightarrow> 'q \<Rightarrow> 'q \<times> 'a queue_effect list"
    and resolve :: "nat \<Rightarrow> 'q \<Rightarrow> 'q \<times> 'a queue_effect list"
    and stop :: "'q \<Rightarrow> 'q \<times> 'a queue_effect list"
    and conts :: "'q \<Rightarrow> (nat \<times> 'a) list"
    and ok :: "'q \<Rightarrow> bool"
  assumes ok_empty: "ok empty" and conts_empty: "conts empty = []"
    and ok_push: "ok q \<Longrightarrow> ok (fst (push t q))"
    and ok_resolve: "ok q \<Longrightarrow> conts q = (i, t) # cs \<Longrightarrow> ok (fst (resolve i q))"
    and ok_stop: "ok q \<Longrightarrow> ok (fst (stop q))"
    and conts_push: "ok q \<Longrightarrow> \<exists>i. i \<notin> fst ` set (conts q) \<and> conts (fst (push t q)) = conts q @ [(i, t)] \<and>
      snd (push t q) = (if conts q = [] then [Started i t] else [])"
    and conts_resolve: "ok q \<Longrightarrow> conts q = (i, t) # cs \<Longrightarrow>
      conts (fst (resolve i q)) = cs \<and>
      snd (resolve i q) = Resolved i t # (case cs of [] \<Rightarrow> [] | (j, u) # _ \<Rightarrow> [Started j u])"
    and resolve_gone: "ok q \<Longrightarrow> i \<notin> fst ` set (conts q) \<Longrightarrow> resolve i q = (q, [])"
    and conts_stop: "ok q \<Longrightarrow> conts (fst (stop q)) = [] \<and> snd (stop q) = map (\<lambda>(i, t). Rejected i t) (conts q)"
    and conts_distinct: "ok q \<Longrightarrow> distinct (map fst (conts q))"
begin

text \<open>The tasks an operation starts are the new head of the queue.\<close>

lemma push_running: "ok q \<Longrightarrow> conts q \<noteq> [] \<Longrightarrow> hd (conts (fst (push t q))) = hd (conts q) \<and> snd (push t q) = []"
  using conts_push [of q t] by auto

lemma push_starts: "ok q \<Longrightarrow> Started i u \<in> set (snd (push t q)) \<Longrightarrow> conts (fst (push t q)) = [(i, u)]"
  using conts_push [of q t] by (auto split: if_splits)

lemma resolve_starts:
  "ok q \<Longrightarrow> conts q = (i, t) # cs \<Longrightarrow> Started j u \<in> set (snd (resolve i q)) \<Longrightarrow> \<exists>ds. cs = (j, u) # ds"
  using conts_resolve [of q i t cs] by (auto split: list.splits)

end

lemma contents_keys: "map fst (contents q) = jm_keys (aq_pendingTasks q)"
  by (simp add: contents_def jm_keys_def case_prod_unfold comp_def)

lemma aq_ok_wf: "aq_ok q \<Longrightarrow> jm_wf (aq_pendingTasks q)"
  unfolding aq_ok_def jm_wf_def jm_keys_def by (simp add: strict_sorted_iff)

lemma executed_flags:
  "map pt_executed ts = map (\<lambda>n. n = 0) [0..<length ts] \<longleftrightarrow>
    (case ts of [] \<Rightarrow> True | t # us \<Rightarrow> pt_executed t \<and> list_all (\<lambda>u. \<not> pt_executed u) us)"
proof (cases ts)
  case (Cons t us)
  have "map (\<lambda>n. n = 0) [0..<Suc (length us)] = True # map (\<lambda>_. False) us"
    by (simp add: upt_conv_Cons map_Suc_upt [symmetric] comp_def map_replicate_const del: upt_Suc)
  moreover have "map pt_executed us = map (\<lambda>_. False) us \<longleftrightarrow> list_all (\<lambda>u. \<not> pt_executed u) us"
    by (auto simp: list_all_iff)
  ultimately show ?thesis by (simp add: Cons del: upt_Suc)
qed simp

text \<open>The invariant of a queue with a first task.\<close>

lemma aq_ok_Cons:
  assumes "aq_pendingTasks q = (i, t) # m"
  shows "aq_ok q \<longleftrightarrow> pt_executed t \<and> pt_id t = i \<and> i < aq_nextTaskId q \<and> \<not> aq_stopping q \<and>
    sorted_wrt (<) (i # jm_keys m) \<and> (\<forall>j \<in> set (jm_keys m). j < aq_nextTaskId q) \<and>
    (\<forall>(j, u) \<in> set m. pt_id u = j \<and> \<not> pt_executed u)"
  unfolding aq_ok_def assms using executed_flags [of "jm_values ((i, t) # m)"]
  by (auto simp: jm_keys_def jm_values_def list_all_iff)

lemma aq_ok_Nil: "aq_pendingTasks q = [] \<Longrightarrow> aq_ok q \<longleftrightarrow> \<not> aq_stopping q"
  by (simp add: aq_ok_def jm_keys_def jm_values_def)

lemma start_first_Cons:
  assumes "aq_pendingTasks q = (j, u) # m" "pt_id u = j" "\<not> pt_executed u"
  shows "start_first q = (q\<lparr>aq_pendingTasks := (j, u\<lparr>pt_executed := True\<rparr>) # m\<rparr>, [Started j (pt_task u)])"
  using assms by (simp add: start_first_def aq_execute_def jm_values_def)

lemma reject_all_stopping:
  assumes "aq_stopping q" "jm_wf (aq_pendingTasks q)"
  shows "reject_all (jm_keys (aq_pendingTasks q)) q =
    (q\<lparr>aq_pendingTasks := []\<rparr>, map (\<lambda>(i, t). Rejected i t) (contents q))"
proof -
  have "reject_all (jm_keys m) q = (q\<lparr>aq_pendingTasks := []\<rparr>, map (\<lambda>(i, t). Rejected i t) (contents q))"
    if "aq_pendingTasks q = m" "jm_wf m" "aq_stopping q" for m q
    using that
  proof (induction m arbitrary: q)
    case Nil
    then show ?case by (simp add: jm_keys_def contents_def)
  next
    case (Cons a m)
    obtain i t where a: "a = (i, t)" by (cases a)
    let ?q = "q\<lparr>aq_pendingTasks := m\<rparr>"
    have "aq_reject i q = (?q, [Rejected i (pt_task t)])"
      using Cons.prems jm_delete_head [of i t m] by (simp add: a aq_reject_def jm_get_def Let_def)
    moreover have "reject_all (jm_keys m) ?q = (?q\<lparr>aq_pendingTasks := []\<rparr>, map (\<lambda>(i, t). Rejected i t) (contents ?q))"
      using Cons.prems by (intro Cons.IH) (auto simp: jm_wf_def)
    moreover have "jm_keys (a # m) = i # jm_keys m" by (simp add: a jm_keys_def)
    moreover have "contents q = (i, pt_task t) # contents ?q" using Cons.prems by (simp add: contents_def a)
    ultimately show ?case by simp
  qed
  with assms show ?thesis by blast
qed

lemma aq_push_spec:
  assumes "aq_ok q"
  shows "aq_ok (fst (aq_push t q)) \<and> contents (fst (aq_push t q)) = contents q @ [(aq_nextTaskId q, t)] \<and>
    snd (aq_push t q) = (if contents q = [] then [Started (aq_nextTaskId q) t] else [])"
proof -
  have new: "aq_nextTaskId q \<notin> set (jm_keys (aq_pendingTasks q))" using assms by (auto simp: aq_ok_def)
  show ?thesis
  proof (cases "aq_pendingTasks q")
    case Nil
    with assms show ?thesis
      by (simp add: aq_push_def aq_size_def aq_execute_def contents_def aq_ok_Cons aq_ok_Nil jm_keys_def Let_def)
  next
    case (Cons a m)
    obtain i u where a: "a = (i, u)" by (cases a)
    have q: "aq_pendingTasks q = (i, u) # m" using Cons a by simp
    note ok = assms [unfolded aq_ok_Cons [OF q]]
    have "aq_pendingTasks (fst (aq_push t q)) =
        (i, u) # (m @ [(aq_nextTaskId q, \<lparr>pt_id = aq_nextTaskId q, pt_task = t, pt_executed = False\<rparr>)])"
      "snd (aq_push t q) = []" "aq_nextTaskId (fst (aq_push t q)) = Suc (aq_nextTaskId q)"
      "\<not> aq_stopping (fst (aq_push t q))"
      using jm_set_new [OF new] q ok by (simp_all add: aq_push_def aq_size_def Let_def)
    with ok q show ?thesis
      by (auto simp: aq_ok_Cons contents_def sorted_wrt_append jm_keys_def less_Suc_eq)
  qed
qed

lemma aq_resolve_spec:
  assumes "aq_ok q" "contents q = (i, t) # cs"
  shows "aq_ok (fst (aq_resolve i q)) \<and> contents (fst (aq_resolve i q)) = cs \<and>
    snd (aq_resolve i q) = Resolved i t # (case cs of [] \<Rightarrow> [] | (j, u) # _ \<Rightarrow> [Started j u])"
proof -
  obtain p m where q: "aq_pendingTasks q = (i, p) # m" "pt_task p = t" "cs = map (\<lambda>(i, t). (i, pt_task t)) m"
    using assms(2) by (cases "aq_pendingTasks q") (auto simp: contents_def)
  note ok = assms(1) [unfolded aq_ok_Cons [OF q(1)]]
  have del: "jm_delete i (aq_pendingTasks q) = m" using aq_ok_wf [OF assms(1)] q jm_delete_head by metis
  have get: "jm_get (aq_pendingTasks q) i = Some p" by (simp add: q jm_get_def)
  show ?thesis
  proof (cases m)
    case Nil
    with ok del get q show ?thesis
      by (simp add: aq_resolve_def start_first_def jm_values_def contents_def aq_ok_Nil)
  next
    case (Cons b m')
    obtain j u where b: "b = (j, u)" by (cases b)
    have s: "start_first (q\<lparr>aq_pendingTasks := m\<rparr>) =
        (q\<lparr>aq_pendingTasks := (j, u\<lparr>pt_executed := True\<rparr>) # m'\<rparr>, [Started j (pt_task u)])"
      using start_first_Cons [of "q\<lparr>aq_pendingTasks := m\<rparr>" j u m'] ok Cons b by simp
    with ok del get q Cons b show ?thesis
      by (simp add: aq_resolve_def contents_def aq_ok_Cons jm_keys_def case_prod_unfold)
  qed
qed

interpretation aq: serial_queue new_AwaitQueue aq_push aq_resolve aq_stop contents aq_ok
proof unfold_locales
  show "aq_ok (new_AwaitQueue :: 'a await_queue)" "contents (new_AwaitQueue :: 'a await_queue) = []"
    by (simp_all add: new_AwaitQueue_def aq_ok_Nil contents_def)
next
  fix q :: "'a await_queue" and t assume "aq_ok q"
  from aq_push_spec [OF this] show "aq_ok (fst (aq_push t q))" by blast
  have "aq_nextTaskId q \<notin> fst ` set (contents q)"
    unfolding set_map [symmetric] contents_keys using \<open>aq_ok q\<close> by (auto simp: aq_ok_def)
  with aq_push_spec [OF \<open>aq_ok q\<close>, of t]
  show "\<exists>i. i \<notin> fst ` set (contents q) \<and> contents (fst (aq_push t q)) = contents q @ [(i, t)] \<and>
      snd (aq_push t q) = (if contents q = [] then [Started i t] else [])" by blast
next
  fix q :: "'a await_queue" and i t cs assume "aq_ok q" "contents q = (i, t) # cs"
  from aq_resolve_spec [OF this] show "aq_ok (fst (aq_resolve i q))"
    "contents (fst (aq_resolve i q)) = cs \<and>
      snd (aq_resolve i q) = Resolved i t # (case cs of [] \<Rightarrow> [] | (j, u) # _ \<Rightarrow> [Started j u])" by blast+
next
  fix q :: "'a await_queue" and i assume "aq_ok q" "i \<notin> fst ` set (contents q)"
  then have "i \<notin> set (jm_keys (aq_pendingTasks q))" by (simp flip: contents_keys)
  then show "aq_resolve i q = (q, [])" by (simp add: aq_resolve_def jm_get_gone)
next
  fix q :: "'a await_queue" assume ok: "aq_ok q"
  have "reject_all (jm_keys (aq_pendingTasks q)) (q\<lparr>aq_stopping := True\<rparr>) =
      (q\<lparr>aq_stopping := True, aq_pendingTasks := []\<rparr>, map (\<lambda>(i, t). Rejected i t) (contents q))"
    using reject_all_stopping [of "q\<lparr>aq_stopping := True\<rparr>"] aq_ok_wf [OF ok] by (simp add: contents_def)
  then show "aq_ok (fst (aq_stop q))" "contents (fst (aq_stop q)) = [] \<and>
      snd (aq_stop q) = map (\<lambda>(i, t). Rejected i t) (contents q)"
    by (simp_all add: aq_stop_def aq_ok_Nil contents_def)
  show "distinct (map fst (contents q))" using aq_ok_wf [OF ok] by (simp add: contents_keys jm_wf_def jm_keys_def)
qed

section \<open>Runs\<close>

text \<open>Tasks are pushed and removed, those that were started come back, and the queue is stopped. The log keeps
  what was started and settled.\<close>

datatype 'a queue_op = Push 'a | ComeBack nat bool | Remove nat | Stop

fun started :: "'a queue_effect list \<Rightarrow> nat list" where
  "started [] = []"
| "started (Started i t # es) = i # started es"
| "started (e # es) = started es"

fun settled :: "'a queue_effect list \<Rightarrow> nat list" where
  "settled [] = []"
| "settled (Started i t # es) = settled es"
| "settled (Resolved i t # es) = i # settled es"
| "settled (Rejected i t # es) = i # settled es"

fun queue_step :: "'a await_queue \<times> 'a queue_effect list \<Rightarrow> 'a queue_op \<Rightarrow> 'a await_queue \<times> 'a queue_effect list" where
  "queue_step (q, log) (Push t) = (case aq_push t q of (q', evs) \<Rightarrow> (q', log @ evs))"
| "queue_step (q, log) (ComeBack i b) =
     (if i \<in> set (started log)
      then (case (if b then aq_resolve i q else aq_reject i q) of (q', evs) \<Rightarrow> (q', log @ evs)) else (q, log))"
| "queue_step (q, log) (Remove n) = (case aq_remove n q of (q', evs) \<Rightarrow> (q', log @ evs))"
| "queue_step (q, log) Stop = (case aq_stop q of (q', evs) \<Rightarrow> (q', log @ evs))"

definition running :: "'a await_queue \<Rightarrow> nat set" where
  "running q = (case contents q of [] \<Rightarrow> {} | (i, _) # _ \<Rightarrow> {i})"

lemma started_append [simp]: "started (es @ fs) = started es @ started fs"
  by (induction es rule: started.induct) auto

lemma settled_append [simp]: "settled (es @ fs) = settled es @ settled fs"
  by (induction es rule: settled.induct) auto

lemma effects_map [simp]:
  "started (map (\<lambda>(i, t). Rejected i t) cs) = []" "settled (map (\<lambda>(i, t). Rejected i t) cs) = map fst cs"
  by (induction cs) auto

text \<open>Identifiers below the next one have been given out; those in the queue are not settled, and the last one
  started is not after the head.\<close>

definition queue_inv :: "'a await_queue \<times> 'a queue_effect list \<Rightarrow> bool" where
  "queue_inv s \<longleftrightarrow> (case s of (q, log) \<Rightarrow>
     aq_ok q \<and> sorted_wrt (<) (started log) \<and> distinct (settled log) \<and>
     set (settled log) \<inter> fst ` set (contents q) = {} \<and>
     set (started log) - set (settled log) = running q \<and>
     (\<forall>i \<in> set (started log) \<union> set (settled log). i < aq_nextTaskId q) \<and>
     (\<forall>i \<in> set (started log). \<forall>j \<in> fst ` set (contents q). i \<le> j))"

lemma next_id [simp]:
  "aq_nextTaskId (fst (aq_push t q)) = Suc (aq_nextTaskId q)" "aq_nextTaskId (fst (aq_resolve i q)) = aq_nextTaskId q"
  by (auto simp: aq_push_def aq_execute_def aq_resolve_def start_first_def Let_def split: option.splits list.splits prod.splits)

lemma aq_stop_next [simp]: "aq_ok q \<Longrightarrow> aq_nextTaskId (fst (aq_stop q)) = aq_nextTaskId q"
  using reject_all_stopping [of "q\<lparr>aq_stopping := True\<rparr>"] aq_ok_wf [of q] by (simp add: aq_stop_def)

text \<open>Outside of \<open>stop\<close>, rejecting differs from resolving in the outcome only.\<close>

lemma aq_reject_resolve:
  assumes "\<not> aq_stopping q"
  shows "fst (aq_reject i q) = fst (aq_resolve i q)" "started (snd (aq_reject i q)) = started (snd (aq_resolve i q))"
    "settled (snd (aq_reject i q)) = settled (snd (aq_resolve i q))"
  using assms by (auto simp: aq_reject_def aq_resolve_def Let_def split: option.splits prod.splits)

text \<open>A task that waits can be taken out without disturbing the others.\<close>

lemma aq_resolve_waiting:
  assumes "aq_ok q" "contents q = (i, t) # cs" "j \<in> fst ` set cs"
  shows "aq_ok (fst (aq_resolve j q)) \<and> contents (fst (aq_resolve j q)) = (i, t) # filter (\<lambda>c. fst c \<noteq> j) cs \<and>
    started (snd (aq_resolve j q)) = [] \<and> settled (snd (aq_resolve j q)) = [j]"
proof -
  obtain p m where q: "aq_pendingTasks q = (i, p) # m" "pt_task p = t" "cs = map (\<lambda>(i, t). (i, pt_task t)) m"
    using assms(2) by (cases "aq_pendingTasks q") (auto simp: contents_def)
  note ok = assms(1) [unfolded aq_ok_Cons [OF q(1)]]
  have j: "j \<noteq> i" "j \<in> fst ` set m" using ok assms(3) q(3) by (force simp: jm_keys_def)+
  then obtain u where u: "jm_get (aq_pendingTasks q) j = Some u"
    by (metis jm_get_def map_of_eq_None_iff option.exhaust q(1) image_eqI insertI2 list.simps(15) image_insert)
  have "fst (aq_resolve j q) = q\<lparr>aq_pendingTasks := (i, p) # jm_delete j m\<rparr>" "snd (aq_resolve j q) = [Resolved j (pt_task u)]"
    using u ok j q by (simp_all add: aq_resolve_def start_first_def jm_delete_def jm_values_def)
  moreover have "sorted_wrt (<) (i # jm_keys (jm_delete j m))"
    using ok by (auto simp: jm.keys_remove sorted_wrt_filter)
  ultimately show ?thesis
    using ok q by (auto simp: aq_ok_Cons contents_def jm_keys_def jm_delete_def filter_map comp_def case_prod_unfold)
qed

lemma queue_inv_resolve:
  assumes inv: "queue_inv (q, log)" and e: "started es = started (snd (aq_resolve i q))" "settled es = settled (snd (aq_resolve i q))"
  shows "queue_inv (fst (aq_resolve i q), log @ es)"
proof -
  note inv' = inv [unfolded queue_inv_def prod.case]
  show ?thesis
  proof (cases "i \<in> fst ` set (contents q)")
    case False
    then show ?thesis using inv' aq.resolve_gone [of q i] e by (simp add: queue_inv_def)
  next
    case True
    then obtain h t cs where c: "contents q = (h, t) # cs" by (cases "contents q") auto
    have d: "distinct (map fst (contents q))" using inv' by (simp add: aq.conts_distinct)
    have less: "\<forall>c \<in> set (contents q). fst c < aq_nextTaskId q"
      using inv' by (simp add: aq_ok_def contents_keys [symmetric])
    show ?thesis
    proof (cases "i = h")
      case h: True
      note r = aq_resolve_spec [OF _ c [folded h]]
      show ?thesis
      proof (cases cs)
        case Nil
        with inv' r e d show ?thesis by (auto simp: queue_inv_def running_def c h)
      next
        case (Cons x xs)
        obtain j u where x: "x = (j, u)" by (cases x)
        have sorted: "sorted_wrt (<) (map fst (contents q))" using inv' by (simp add: contents_keys aq_ok_def)
        with inv' r e d show ?thesis
          by (auto simp: queue_inv_def running_def c h Cons x sorted_wrt_append aq_ok_def contents_keys [symmetric] less_imp_le)
      qed
    next
      case False
      with True c have "i \<in> fst ` set cs" by auto
      note r = aq_resolve_waiting [OF _ c this]
      have "i < aq_nextTaskId q" "i \<notin> set (started log)" "i \<notin> set (settled log)" "h \<notin> set (settled log)"
        "set (started log) - set (settled log) = {h}"
        "\<forall>x \<in> set (started log). x \<le> h" "\<forall>x \<in> set (started log). \<forall>y \<in> fst ` set cs. x \<le> y"
        using inv' less True False by (auto simp: c running_def)
      then show ?thesis
        unfolding queue_inv_def prod.case using inv' r e by (simp add: running_def c) blast
    qed
  qed
qed

lemma queue_inv_push:
  assumes "queue_inv (q, log)"
  shows "queue_inv (fst (aq_push t q), log @ snd (aq_push t q))"
proof -
  note inv = assms [unfolded queue_inv_def prod.case]
  note p = aq_push_spec [of q t]
  have less: "\<forall>c \<in> set (contents q). fst c < aq_nextTaskId q"
    using inv by (simp add: aq_ok_def contents_keys [symmetric])
  show ?thesis
  proof (cases "contents q")
    case Nil
    then have "set (started log) \<subseteq> set (settled log)" using inv by (auto simp: running_def)
    with inv p Nil show ?thesis
      by (auto simp: queue_inv_def running_def sorted_wrt_append less_imp_le intro: less_SucI)
  next
    case (Cons c cs)
    with inv p less show ?thesis
      by (auto simp: queue_inv_def running_def less_imp_le intro: less_SucI split: prod.splits)
  qed
qed

lemma queue_inv_stop:
  assumes "queue_inv (q, log)"
  shows "queue_inv (fst (aq_stop q), log @ snd (aq_stop q))"
proof -
  note inv = assms [unfolded queue_inv_def prod.case]
  have "running q \<subseteq> fst ` set (contents q)" by (auto simp: running_def split: list.splits)
  moreover have "\<forall>c \<in> set (contents q). fst c < aq_nextTaskId q"
    using inv by (simp add: aq_ok_def contents_keys [symmetric])
  moreover have "running (fst (aq_stop q)) = {}" using inv aq.conts_stop [of q] by (simp add: running_def)
  ultimately show ?thesis
    unfolding queue_inv_def prod.case
    using inv aq.conts_stop [of q] aq.ok_stop [of q] aq.conts_distinct [of q] by auto
qed

interpretation qr: step_invariant queue_step queue_inv
proof
  fix s :: "'a await_queue \<times> 'a queue_effect list" and e assume inv: "queue_inv s"
  obtain q log where s: "s = (q, log)" by (cases s)
  have ok: "\<not> aq_stopping q" using inv by (simp add: s queue_inv_def aq_ok_def)
  have reject: "queue_inv (fst (aq_reject i q), log @ snd (aq_reject i q))" for i
    using queue_inv_resolve [of q log "snd (aq_reject i q)" i] inv s aq_reject_resolve [OF ok, of i] by simp
  have resolve: "queue_inv (fst (aq_resolve i q), log @ snd (aq_resolve i q))" for i
    using queue_inv_resolve [of q log _ i] inv s by blast
  show "queue_inv (queue_step s e)"
  proof (cases e)
    case (Push t)
    with queue_inv_push [of q log t] inv s show ?thesis by (auto split: prod.splits)
  next
    case (ComeBack i b)
    with reject [of i] resolve [of i] inv s show ?thesis by (cases b) (auto split: prod.splits)
  next
    case (Remove n)
    with reject [of "pt_id (jm_values (aq_pendingTasks q) ! n)"] inv s show ?thesis
      by (auto simp: aq_remove_def Let_def split: prod.splits)
  next
    case Stop
    with queue_inv_stop [of q log] inv s show ?thesis by (auto split: prod.splits)
  qed
qed

section \<open>Started tasks\<close>

text \<open>The first task of the queue has been started and waits; whatever else waits was stopped and is no longer
  in the queue.\<close>

definition queue_waits :: "'a await_queue \<Rightarrow> (nat \<times> 'b) list \<Rightarrow> bool" where
  "queue_waits q r \<longleftrightarrow>
     aq_ok q \<and> distinct (map fst r) \<and> (\<forall>i \<in> fst ` set r. i < aq_nextTaskId q) \<and>
     fst ` set r \<inter> fst ` set (contents q) = running q"

lemma queue_waits_push:
  assumes "queue_waits q r"
  shows "queue_waits (fst (aq_push t q)) (if contents q = [] then r @ [(aq_nextTaskId q, st)] else r)"
  using assms aq_push_spec [of q t]
  by (auto simp: queue_waits_def running_def less_Suc_eq split: list.splits prod.splits)

lemma queue_waits_fst: "map fst r = map fst r' \<Longrightarrow> queue_waits q r = queue_waits q r'"
  unfolding queue_waits_def by (metis list.set_map)

lemma queue_waits_drop:
  assumes "queue_waits q (r1 @ (i, st) # r2)" "i \<notin> fst ` set (contents q)"
  shows "queue_waits q (r1 @ r2)"
  using assms by (auto simp: queue_waits_def)

lemma queue_waits_finish:
  assumes w: "queue_waits q (r1 @ (i, st) # r2)" and i: "i \<in> fst ` set (contents q)"
  obtains t cs where "contents q = (i, t) # cs"
    "queue_waits (fst (aq_resolve i q)) (r1 @ r2 @ (case cs of [] \<Rightarrow> [] | (j, _) # _ \<Rightarrow> [(j, st')]))"
proof -
  from i obtain h t cs where c: "contents q = (h, t) # cs" by (cases "contents q") auto
  have ok: "aq_ok q" using w by (simp add: queue_waits_def)
  have "i \<in> running q" using w i by (auto simp: queue_waits_def)
  then have h: "h = i" by (simp add: running_def c)
  note r = aq_resolve_spec [OF ok c [unfolded h]]
  have d: "distinct (map fst (contents q))" by (rule aq.conts_distinct [OF ok])
  have less: "\<forall>x \<in> set (contents q). fst x < aq_nextTaskId q" using ok by (simp add: aq_ok_def contents_keys [symmetric])
  have only: "fst ` set (r1 @ r2) \<inter> fst ` set cs = {}"
    using w d by (auto simp: queue_waits_def running_def c h)
  have "queue_waits (fst (aq_resolve i q)) (r1 @ r2 @ (case cs of [] \<Rightarrow> [] | (j, _) # _ \<Rightarrow> [(j, st')]))"
  proof (cases cs)
    case Nil
    with w r show ?thesis by (auto simp: queue_waits_def running_def)
  next
    case (Cons x xs)
    obtain j u where x: "x = (j, u)" by (cases x)
    have "j \<notin> fst ` set (r1 @ r2)" "j < aq_nextTaskId q" using only less by (auto simp: Cons x c)
    moreover have "fst ` set (r1 @ r2) \<inter> fst ` set xs = {}" using only by (auto simp: Cons)
    ultimately show ?thesis
      using w r unfolding queue_waits_def Cons x by (auto simp: running_def)
  qed
  with c h that show thesis by blast
qed

lemma aq_reject_spec:
  assumes "aq_ok q" "contents q = (i, t) # cs"
  shows "fst (aq_reject i q) = fst (aq_resolve i q)"
    "snd (aq_reject i q) = Rejected i t # (case cs of [] \<Rightarrow> [] | (j, u) # _ \<Rightarrow> [Started j u])"
proof -
  obtain p m where q: "aq_pendingTasks q = (i, p) # m" "pt_task p = t"
    using assms(2) by (cases "aq_pendingTasks q") (auto simp: contents_def)
  have "\<not> aq_stopping q" using assms(1) by (simp add: aq_ok_def)
  then show "fst (aq_reject i q) = fst (aq_resolve i q)" by (rule aq_reject_resolve)
  show "snd (aq_reject i q) = Rejected i t # (case cs of [] \<Rightarrow> [] | (j, u) # _ \<Rightarrow> [Started j u])"
    using aq_resolve_spec [OF assms] \<open>\<not> aq_stopping q\<close> q
    by (auto simp: aq_reject_def aq_resolve_def jm_get_def Let_def split: prod.splits)
qed

lemma aq_reject_gone: "aq_ok q \<Longrightarrow> i \<notin> fst ` set (contents q) \<Longrightarrow> aq_reject i q = (q, [])"
  unfolding set_map [symmetric] contents_keys by (simp add: aq_reject_def jm_get_gone)

text \<open>Taking one element out of a list.\<close>

definition drop_nth :: "nat \<Rightarrow> 'a list \<Rightarrow> 'a list" where
  "drop_nth n xs = take n xs @ drop (Suc n) xs"

lemma drop_nth_split: "n < length xs \<Longrightarrow> xs = take n xs @ xs ! n # drop (Suc n) xs"
  by (rule id_take_nth_drop)

lemma set_drop_nth: "set (drop_nth n xs) \<subseteq> set xs" "n < length xs \<Longrightarrow> x \<in> set xs \<Longrightarrow> x \<noteq> xs ! n \<Longrightarrow> x \<in> set (drop_nth n xs)"
proof -
  show "set (drop_nth n xs) \<subseteq> set xs" by (auto simp: drop_nth_def dest: in_set_takeD in_set_dropD)
  assume "n < length xs" "x \<in> set xs" "x \<noteq> xs ! n"
  then show "x \<in> set (drop_nth n xs)"
    using drop_nth_split [of n xs] by (metis UnE drop_nth_def set_append set_ConsD Un_iff)
qed

text \<open>C20: The queue runs its tasks one at a time and in the order they were pushed, whatever is pushed, removed or
  stopped in between and however the tasks end: no task is started twice or out of order, no
  promise is settled twice, and the tasks started and not yet settled are the head of the queue alone.\<close>

theorem queue_runs_serially:
  "case foldl queue_step (new_AwaitQueue, []) ops of (q, log) \<Rightarrow>
     sorted_wrt (<) (started log) \<and> distinct (settled log) \<and>
     set (started log) - set (settled log) = (case contents q of [] \<Rightarrow> {} | (i, _) # _ \<Rightarrow> {i})"
proof -
  have "queue_inv (new_AwaitQueue, [])"
    by (simp add: queue_inv_def running_def aq.ok_empty aq.conts_empty)
  from qr.run_inv [OF this, of ops] show ?thesis
    by (auto simp: queue_inv_def running_def split: prod.splits)
qed

end
