(* ===== verification/Consumer.thy ===== *)
theory Consumer
  imports Producer
begin

text \<open>
  The receiving end of one track, \<open>Consumer.js\<close>. The track belongs to the consumer, so it is kept inside it.
  Each operation answers the consumer and the events beginning with \<open>@\<close> that it raises for its
  transport, which handles them before the operation goes on.
\<close>

section \<open>Consumers\<close>

datatype consumer_signal = SigClose | SigPause | SigResume

datatype consumer_event = CvTransportClose | CvObserverClose | CvObserverPause | CvObserverResume
  | CvTrackEnded | CvObserverTrackEnded

record consumer =
  cs_id :: string
  cs_localId :: string
  cs_producerId :: string
  cs_track :: media_track
  cs_rtpParameters :: jsval
  cs_closed :: bool
  cs_paused :: bool
  cs_events :: "consumer_event list"

definition cs_handleTrack :: "consumer \<Rightarrow> consumer" where
  "cs_handleTrack c = c\<lparr>cs_track := (cs_track c)\<lparr>mt_listened := True\<rparr>\<rparr>"

definition cs_destroyTrack :: "consumer \<Rightarrow> consumer" where
  "cs_destroyTrack c = c\<lparr>cs_track := (cs_track c)\<lparr>mt_listened := False, mt_ended := True\<rparr>\<rparr>"

definition new_Consumer :: "string \<Rightarrow> string \<Rightarrow> string \<Rightarrow> media_track \<Rightarrow> jsval \<Rightarrow> consumer" where
  "new_Consumer i localId producerId track rtpParameters =
     cs_handleTrack
       \<lparr>cs_id = i, cs_localId = localId, cs_producerId = producerId, cs_track = track,
        cs_rtpParameters = rtpParameters, cs_closed = False, cs_paused = (\<not> mt_enabled track), cs_events = []\<rparr>"

definition cs_emit :: "consumer_event list \<Rightarrow> consumer \<Rightarrow> consumer" where
  "cs_emit evs c = c\<lparr>cs_events := cs_events c @ evs\<rparr>"

definition cs_close :: "consumer \<Rightarrow> consumer \<times> consumer_signal list" where
  "cs_close c =
     (if cs_closed c then (c, [])
      else (cs_emit [CvObserverClose] (cs_destroyTrack (c\<lparr>cs_closed := True\<rparr>)), [SigClose]))"

definition cs_transportClosed :: "consumer \<Rightarrow> consumer" where
  "cs_transportClosed c =
     (if cs_closed c then c
      else cs_emit [CvTransportClose, CvObserverClose] (cs_destroyTrack (c\<lparr>cs_closed := True\<rparr>)))"

definition cs_pause :: "consumer \<Rightarrow> consumer \<times> consumer_signal list" where
  "cs_pause c =
     (if cs_closed c then (c, [])
      else if cs_paused c then (c, [])
      else (cs_emit [CvObserverPause] (c\<lparr>cs_paused := True, cs_track := (cs_track c)\<lparr>mt_enabled := False\<rparr>\<rparr>), [SigPause]))"

definition cs_resume :: "consumer \<Rightarrow> consumer \<times> consumer_signal list" where
  "cs_resume c =
     (if cs_closed c then (c, [])
      else if \<not> cs_paused c then (c, [])
      else (cs_emit [CvObserverResume] (c\<lparr>cs_paused := False, cs_track := (cs_track c)\<lparr>mt_enabled := True\<rparr>\<rparr>), [SigResume]))"

text \<open>\<open>getStats\<close>: the transport answers an open consumer.\<close>

definition cs_getStats :: "('h \<Rightarrow> 'h \<times> (thrown + jsval list)) \<Rightarrow> consumer \<Rightarrow> 'h \<Rightarrow> 'h \<times> (thrown + jsval list)" where
  "cs_getStats answer c h =
     (if cs_closed c then (h, Inl (ThrownError (InvalidStateError ''closed''))) else answer h)"

definition cs_onTrackEnded :: "consumer \<Rightarrow> consumer" where
  "cs_onTrackEnded c = cs_emit [CvTrackEnded, CvObserverTrackEnded] c"

lemmas consumer_defs = cs_close_def cs_pause_def cs_resume_def cs_transportClosed_def cs_emit_def
  cs_destroyTrack_def cs_handleTrack_def new_Consumer_def

lemma consumer_frame [simp]:
  "cs_id (fst (cs_close c)) = cs_id c" "cs_localId (fst (cs_close c)) = cs_localId c"
  "cs_id (fst (cs_pause c)) = cs_id c" "cs_localId (fst (cs_pause c)) = cs_localId c"
  "cs_id (fst (cs_resume c)) = cs_id c" "cs_localId (fst (cs_resume c)) = cs_localId c"
  by (simp_all add: consumer_defs)

text \<open>The track of an open consumer is enabled exactly when the consumer is not paused.\<close>

definition consumer_ok :: "consumer \<Rightarrow> bool" where
  "consumer_ok c \<longleftrightarrow> (if cs_closed c then mt_ended (cs_track c) \<and> \<not> mt_listened (cs_track c) else mt_listened (cs_track c)) \<and>
     (\<not> cs_closed c \<longrightarrow> mt_enabled (cs_track c) = (\<not> cs_paused c))"

lemma consumer_ok_ops:
  "consumer_ok (new_Consumer i l p t r)" "consumer_ok c \<Longrightarrow> consumer_ok (fst (cs_close c))"
  "consumer_ok c \<Longrightarrow> consumer_ok (cs_transportClosed c)" "consumer_ok c \<Longrightarrow> consumer_ok (fst (cs_pause c))"
  "consumer_ok c \<Longrightarrow> consumer_ok (fst (cs_resume c))" "consumer_ok c \<Longrightarrow> consumer_ok (cs_onTrackEnded c)"
  by (auto simp: consumer_ok_def consumer_defs cs_onTrackEnded_def)

end
