(* ===== verification/Transport.thy ===== *)
theory Transport
  imports AwaitQueue Consumer Ortc
begin

text \<open>
  The receiving side of \<open>Transport.js\<close>. Everything that touches the handler goes through the queue of
  \<open>AwaitQueue\<close>. Requests to create, pause, resume and close consumers are collected, and one task per kind
  works off all that are pending. A task runs up to its first \<open>await\<close> when it is started, and goes on
  when the handler answers: in between anything can happen. Callbacks given to \<open>queueMicrotask\<close> and
  to \<open>.then\<close> wait in two lists and run in any order, which covers the order of the host. After
  \<open>close\<close>, a task that was waiting for the handler still goes on when the answer comes.

  The handler is outside: \<open>tr_calls\<close> is what it was asked, and its answers are inputs. A consumer is
  identified by its id. The pending maps hold consumers of which only the id and the local id are read.
\<close>

section \<open>State\<close>

datatype transport_direction = SendDir | RecvDir

record consume_request =
  cr_id :: string
  cr_producerId :: string
  cr_kind :: track_kind
  cr_rtpParameters :: jsval

record receive_result =
  rr_localId :: string
  rr_track :: media_track

datatype tr_task = CreateTask | PauseTask | ResumeTask | CloseTask | OtherTask

datatype micro = CreateMicro | PauseMicro | ResumeMicro

text \<open>Where a started task waits.\<close>

datatype stage = Receiving "(nat \<times> consume_request) list" | Probating | Calling | Returned

datatype handler_call =
    HReceive "(string \<times> track_kind \<times> jsval) list"
  | HPause "string list"
  | HResume "string list"
  | HStop "string list"
  | HClose

text \<open>A creation task of a consumer is its request with the number of the promise that \<open>consume\<close> returned.\<close>

record transport =
  tr_closed :: bool
  tr_direction :: transport_direction
  tr_iceGatheringState :: string
  tr_connectionState :: string
  tr_extended :: extended_capabilities
  tr_connectListeners :: nat
  tr_consumers :: "(string, consumer) jsmap"
  tr_probatorConsumerCreated :: bool
  tr_awaitQueue :: "tr_task await_queue"
  tr_pendingConsumerTasks :: "(nat \<times> consume_request) list"
  tr_consumerCreationInProgress :: bool
  tr_pendingPause :: "(string, string) jsmap"
  tr_consumerPauseInProgress :: bool
  tr_pendingResume :: "(string, string) jsmap"
  tr_consumerResumeInProgress :: bool
  tr_pendingClose :: "(string, string) jsmap"
  tr_consumerCloseInProgress :: bool
  tr_nextPromise :: nat
  tr_settled :: "(nat \<times> (js_error + string)) list"
  tr_micro :: "micro list"
  tr_then :: "tr_task list"
  tr_running :: "(nat \<times> stage) list"
  tr_calls :: "handler_call list"
  tr_gone :: "consumer list"

definition new_Transport :: "transport_direction \<Rightarrow> extended_capabilities \<Rightarrow> nat \<Rightarrow> transport" where
  "new_Transport direction extended listeners =
     \<lparr>tr_closed = False, tr_direction = direction, tr_iceGatheringState = ''new'', tr_connectionState = ''new'',
      tr_extended = extended, tr_connectListeners = listeners, tr_consumers = [],
      tr_probatorConsumerCreated = False, tr_awaitQueue = new_AwaitQueue, tr_pendingConsumerTasks = [],
      tr_consumerCreationInProgress = False, tr_pendingPause = [], tr_consumerPauseInProgress = False,
      tr_pendingResume = [], tr_consumerResumeInProgress = False, tr_pendingClose = [],
      tr_consumerCloseInProgress = False, tr_nextPromise = 0, tr_settled = [], tr_micro = [], tr_then = [],
      tr_running = [], tr_calls = [], tr_gone = []\<rparr>"

section \<open>Tasks\<close>

text \<open>The part of a task before its first \<open>await\<close>.\<close>

definition begin_task :: "nat \<Rightarrow> tr_task \<Rightarrow> transport \<Rightarrow> transport" where
  "begin_task i task s =
     (case task of
        CreateTask \<Rightarrow>
          if tr_pendingConsumerTasks s = [] then s\<lparr>tr_running := tr_running s @ [(i, Returned)]\<rparr>
          else s\<lparr>tr_pendingConsumerTasks := [],
            tr_calls := tr_calls s @ [HReceive (map (\<lambda>(_, r). (cr_id r, cr_kind r, cr_rtpParameters r)) (tr_pendingConsumerTasks s))],
            tr_running := tr_running s @ [(i, Receiving (tr_pendingConsumerTasks s))]\<rparr>
      | PauseTask \<Rightarrow>
          if tr_pendingPause s = [] then s\<lparr>tr_running := tr_running s @ [(i, Returned)]\<rparr>
          else s\<lparr>tr_pendingPause := [], tr_calls := tr_calls s @ [HPause (jm_values (tr_pendingPause s))],
            tr_running := tr_running s @ [(i, Calling)]\<rparr>
      | ResumeTask \<Rightarrow>
          if tr_pendingResume s = [] then s\<lparr>tr_running := tr_running s @ [(i, Returned)]\<rparr>
          else s\<lparr>tr_pendingResume := [], tr_calls := tr_calls s @ [HResume (jm_values (tr_pendingResume s))],
            tr_running := tr_running s @ [(i, Calling)]\<rparr>
      | CloseTask \<Rightarrow>
          if tr_pendingClose s = [] then s\<lparr>tr_running := tr_running s @ [(i, Returned)]\<rparr>
          else s\<lparr>tr_pendingClose := [], tr_calls := tr_calls s @ [HStop (jm_values (tr_pendingClose s))],
            tr_running := tr_running s @ [(i, Calling)]\<rparr>
      | OtherTask \<Rightarrow> s\<lparr>tr_running := tr_running s @ [(i, Calling)]\<rparr>)"

text \<open>What the queue does reaches the transport: a task is started, or the \<open>.then\<close> of its promise is due. A
  rejection is swallowed by the \<open>.catch\<close>.\<close>

fun on_effects :: "tr_task queue_effect list \<Rightarrow> transport \<Rightarrow> transport" where
  "on_effects [] s = s"
| "on_effects (Started i t # es) s = on_effects es (begin_task i t s)"
| "on_effects (Resolved i t # es) s = on_effects es (s\<lparr>tr_then := tr_then s @ [t]\<rparr>)"
| "on_effects (Rejected i t # es) s = on_effects es s"

definition push_task :: "tr_task \<Rightarrow> transport \<Rightarrow> transport" where
  "push_task t s = (case aq_push t (tr_awaitQueue s) of (q, es) \<Rightarrow> on_effects es (s\<lparr>tr_awaitQueue := q\<rparr>))"

definition finish_task :: "nat \<Rightarrow> transport \<Rightarrow> transport" where
  "finish_task i s = (case aq_resolve i (tr_awaitQueue s) of (q, es) \<Rightarrow> on_effects es (s\<lparr>tr_awaitQueue := q\<rparr>))"

definition createPendingConsumers :: "transport \<Rightarrow> transport" where
  "createPendingConsumers s = push_task CreateTask (s\<lparr>tr_consumerCreationInProgress := True\<rparr>)"

definition pausePendingConsumers :: "transport \<Rightarrow> transport" where
  "pausePendingConsumers s = push_task PauseTask (s\<lparr>tr_consumerPauseInProgress := True\<rparr>)"

definition resumePendingConsumers :: "transport \<Rightarrow> transport" where
  "resumePendingConsumers s = push_task ResumeTask (s\<lparr>tr_consumerResumeInProgress := True\<rparr>)"

definition closePendingConsumers :: "transport \<Rightarrow> transport" where
  "closePendingConsumers s = push_task CloseTask (s\<lparr>tr_consumerCloseInProgress := True\<rparr>)"

text \<open>The callbacks given to \<open>queueMicrotask\<close>.\<close>

definition run_micro :: "micro \<Rightarrow> transport \<Rightarrow> transport" where
  "run_micro m s =
     (if tr_closed s then s
      else case m of
        CreateMicro \<Rightarrow> if \<not> tr_consumerCreationInProgress s then createPendingConsumers s else s
      | PauseMicro \<Rightarrow> if \<not> tr_consumerPauseInProgress s then pausePendingConsumers s else s
      | ResumeMicro \<Rightarrow> if \<not> tr_consumerResumeInProgress s then resumePendingConsumers s else s)"

text \<open>The callbacks given to \<open>.then\<close>.\<close>

definition run_then :: "tr_task \<Rightarrow> transport \<Rightarrow> transport" where
  "run_then t s =
     (case t of
        CreateTask \<Rightarrow>
          (let s' = s\<lparr>tr_consumerCreationInProgress := False\<rparr>
           in if tr_pendingConsumerTasks s' \<noteq> [] then createPendingConsumers s' else s')
      | PauseTask \<Rightarrow>
          (let s' = s\<lparr>tr_consumerPauseInProgress := False\<rparr>
           in if tr_pendingPause s' \<noteq> [] then pausePendingConsumers s' else s')
      | ResumeTask \<Rightarrow>
          (let s' = s\<lparr>tr_consumerResumeInProgress := False\<rparr>
           in if tr_pendingResume s' \<noteq> [] then resumePendingConsumers s' else s')
      | CloseTask \<Rightarrow>
          (let s' = s\<lparr>tr_consumerCloseInProgress := False\<rparr>
           in if tr_pendingClose s' \<noteq> [] then closePendingConsumers s' else s')
      | OtherTask \<Rightarrow> s)"

section \<open>Creation\<close>

text \<open>A promise is settled once.\<close>

definition settle_promise :: "nat \<Rightarrow> js_error + string \<Rightarrow> transport \<Rightarrow> transport" where
  "settle_promise p r s = (if p \<in> fst ` set (tr_settled s) then s else s\<lparr>tr_settled := tr_settled s @ [(p, r)]\<rparr>)"

definition create_consumer :: "nat \<times> consume_request \<Rightarrow> receive_result \<Rightarrow> transport \<Rightarrow> transport \<times> consumer" where
  "create_consumer task result s =
     (case task of (p, r) \<Rightarrow>
        let c = new_Consumer (cr_id r) (rr_localId result) (cr_producerId r) (rr_track result) (cr_rtpParameters r)
        in (settle_promise p (Inr (cs_id c)) (s\<lparr>tr_consumers := jm_set (cs_id c) c (tr_consumers s)\<rparr>), c))"

text \<open>The loop over the results. It throws on a result without a task; the last value is the video consumer for
  the probator.\<close>

fun create_loop ::
  "(nat \<times> consume_request) list \<Rightarrow> receive_result list \<Rightarrow> consumer option \<Rightarrow> transport \<Rightarrow> transport \<times> bool \<times> consumer option" where
  "create_loop ts [] video s = (s, False, video)"
| "create_loop [] (r # rs) video s = (s, True, video)"
| "create_loop (t # ts) (r # rs) video s =
     (case create_consumer t r s of (s', c) \<Rightarrow>
        create_loop ts rs
          (if \<not> tr_probatorConsumerCreated s \<and> video = None \<and> cr_kind (snd t) = KVideo then Some c else video) s')"

definition reject_tasks :: "(nat \<times> consume_request) list \<Rightarrow> js_error \<Rightarrow> transport \<Rightarrow> transport" where
  "reject_tasks ts e s = foldl (\<lambda>s t. settle_promise (fst t) (Inl e) s) s ts"

definition set_stage :: "nat \<Rightarrow> stage \<Rightarrow> transport \<Rightarrow> transport" where
  "set_stage i st s = s\<lparr>tr_running := tr_running s @ [(i, st)]\<rparr>"

text \<open>A started task goes on with the answer of the handler; it has been taken from \<open>tr_running\<close>.\<close>

definition continue_task :: "nat \<Rightarrow> stage \<Rightarrow> js_error + receive_result list \<Rightarrow> transport \<Rightarrow> transport" where
  "continue_task i st answer s =
     (case st of
        Receiving ts \<Rightarrow>
          (case (case answer of
              Inl e \<Rightarrow> (reject_tasks ts e s, None)
            | Inr results \<Rightarrow>
                (case create_loop ts results None s of (s', threw, video) \<Rightarrow>
                   ((if threw then reject_tasks ts (TypeError ''Cannot read properties of undefined'') s' else s'), video)))
           of
             (s1, None) \<Rightarrow> finish_task i s1
           | (s1, Some video) \<Rightarrow>
               (case generateProbatorRtpParameters (cs_rtpParameters video) of
                  Inl _ \<Rightarrow> finish_task i s1
                | Inr p \<Rightarrow> set_stage i Probating (s1\<lparr>tr_calls := tr_calls s1 @ [HReceive [(''probator'', KVideo, p)]]\<rparr>)))
      | Probating \<Rightarrow>
          finish_task i (case answer of Inl _ \<Rightarrow> s | Inr _ \<Rightarrow> s\<lparr>tr_probatorConsumerCreated := True\<rparr>)
      | Calling \<Rightarrow> finish_task i s
      | Returned \<Rightarrow> finish_task i s)"

text \<open>\<open>consume\<close>: the checks, then the request waits for the creation task. A promise is answered by its number.\<close>

definition tr_consume :: "jsval \<Rightarrow> jsval \<Rightarrow> jsval \<Rightarrow> jsval \<Rightarrow> jsval \<Rightarrow> transport \<Rightarrow> transport \<times> nat result" where
  "tr_consume cid producerId kind rtpParameters appData s =
     (if tr_closed s then (s, Inl (InvalidStateError ''closed''))
      else if tr_direction s \<noteq> RecvDir then (s, Inl (UnsupportedError ''not a receiving Transport''))
      else case (cid, producerId) of
        (VStr i, VStr pid) \<Rightarrow>
          if kind \<noteq> VStr ''audio'' \<and> kind \<noteq> VStr ''video'' then (s, Inl (TypeError ''invalid kind''))
          else if tr_connectListeners s = 0 \<and> tr_connectionState s = ''new''
            then (s, Inl (TypeError ''no \"connect\" listener set into this transport''))
          else if truthy appData \<and> \<not> typeof_object appData then (s, Inl (TypeError ''if given, appData must be an object''))
          else (case validateRtpParameters rtpParameters of
              Inl e \<Rightarrow> (s, Inl e)
            | Inr params \<Rightarrow>
                (case canReceive rtpParameters (tr_extended s) of
                   Inl e \<Rightarrow> (s, Inl e)
                 | Inr False \<Rightarrow> (s, Inl (UnsupportedError ''cannot consume this Producer''))
                 | Inr True \<Rightarrow>
                     (s\<lparr>tr_pendingConsumerTasks := tr_pendingConsumerTasks s @ [(tr_nextPromise s,
                          \<lparr>cr_id = i, cr_producerId = pid, cr_kind = (if kind = VStr ''audio'' then KAudio else KVideo),
                           cr_rtpParameters = params\<rparr>)],
                        tr_nextPromise := tr_nextPromise s + 1, tr_micro := tr_micro s @ [CreateMicro]\<rparr>,
                      Inr (tr_nextPromise s))))
      | (VStr _, _) \<Rightarrow> (s, Inl (TypeError ''missing producerId''))
      | _ \<Rightarrow> (s, Inl (TypeError ''missing id'')))"

section \<open>The consumers of a transport\<close>

text \<open>The listeners that \<open>handleConsumer\<close> sets.\<close>

definition on_signal :: "consumer \<Rightarrow> consumer_signal \<Rightarrow> transport \<Rightarrow> transport" where
  "on_signal c sig s =
     (case sig of
        SigClose \<Rightarrow>
          (let s1 = s\<lparr>tr_consumers := jm_delete (cs_id c) (tr_consumers s),
                tr_pendingPause := jm_delete (cs_id c) (tr_pendingPause s),
                tr_pendingResume := jm_delete (cs_id c) (tr_pendingResume s),
                tr_gone := tr_gone s @ [c]\<rparr>
           in if tr_closed s1 then s1
              else let s2 = s1\<lparr>tr_pendingClose := jm_set (cs_id c) (cs_localId c) (tr_pendingClose s1)\<rparr>
                in if \<not> tr_consumerCloseInProgress s2 then closePendingConsumers s2 else s2)
      | SigPause \<Rightarrow>
          s\<lparr>tr_pendingResume := jm_delete (cs_id c) (tr_pendingResume s),
            tr_pendingPause := jm_set (cs_id c) (cs_localId c) (tr_pendingPause s),
            tr_micro := tr_micro s @ [PauseMicro]\<rparr>
      | SigResume \<Rightarrow>
          s\<lparr>tr_pendingPause := jm_delete (cs_id c) (tr_pendingPause s),
            tr_pendingResume := jm_set (cs_id c) (cs_localId c) (tr_pendingResume s),
            tr_micro := tr_micro s @ [ResumeMicro]\<rparr>)"

text \<open>An operation on the consumer with this id. One that is no longer in the map is closed, and ignores it.\<close>

definition on_consumer :: "(consumer \<Rightarrow> consumer \<times> consumer_signal list) \<Rightarrow> string \<Rightarrow> transport \<Rightarrow> transport" where
  "on_consumer f i s =
     (case jm_get (tr_consumers s) i of
        None \<Rightarrow> s
      | Some c \<Rightarrow>
          (case f c of (c', sigs) \<Rightarrow>
             foldl (\<lambda>s sig. on_signal c' sig s) (s\<lparr>tr_consumers := jm_set i c' (tr_consumers s)\<rparr>) sigs))"

section \<open>The transport\<close>

definition tr_close :: "transport \<Rightarrow> transport" where
  "tr_close s =
     (if tr_closed s then s
      else case aq_stop (tr_awaitQueue s) of (q, es) \<Rightarrow>
        let s1 = on_effects es (s\<lparr>tr_closed := True, tr_awaitQueue := q\<rparr>)
        in s1\<lparr>tr_calls := tr_calls s1 @ [HClose], tr_connectionState := ''closed'',
              tr_gone := tr_gone s1 @ map cs_transportClosed (jm_values (tr_consumers s1)), tr_consumers := []\<rparr>)"

definition tr_onConnectionState :: "string \<Rightarrow> transport \<Rightarrow> transport" where
  "tr_onConnectionState st s = (if st = tr_connectionState s then s else s\<lparr>tr_connectionState := st\<rparr>)"

definition tr_onIceGatheringState :: "string \<Rightarrow> transport \<Rightarrow> transport" where
  "tr_onIceGatheringState st s = (if st = tr_iceGatheringState s then s else s\<lparr>tr_iceGatheringState := st\<rparr>)"

text \<open>\<open>restartIce\<close> and \<open>updateIceServers\<close>: the check, then a task that only calls the handler.\<close>

definition tr_restartIce :: "jsval \<Rightarrow> transport \<Rightarrow> transport \<times> unit result" where
  "tr_restartIce iceParameters s =
     (if tr_closed s then (s, Inl (InvalidStateError ''closed''))
      else if \<not> truthy iceParameters then (s, Inl (TypeError ''missing iceParameters''))
      else (push_task OtherTask s, Inr ()))"

definition tr_updateIceServers :: "jsval \<Rightarrow> transport \<Rightarrow> transport \<times> unit result" where
  "tr_updateIceServers iceServers s =
     (if tr_closed s then (s, Inl (InvalidStateError ''closed''))
      else case iceServers of
        VArr _ \<Rightarrow> (push_task OtherTask s, Inr ())
      | _ \<Rightarrow> (s, Inl (TypeError ''missing iceServers'')))"

section \<open>Runs\<close>

text \<open>What can happen to a transport, in any order. \<open>Back n a\<close> is the answer \<open>a\<close> of the handler to the \<open>n\<close>th
  task that waits.\<close>

datatype tr_op =
    Consume jsval jsval jsval jsval jsval
  | CloseConsumer string
  | PauseConsumer string
  | ResumeConsumer string
  | Micro nat
  | Then nat
  | Back nat "js_error + receive_result list"
  | RestartIce jsval
  | UpdateIceServers jsval
  | ConnectionState string
  | IceGatheringState string
  | CloseTransport

fun tr_step :: "transport \<Rightarrow> tr_op \<Rightarrow> transport" where
  "tr_step s (Consume cid pid kind params appData) = fst (tr_consume cid pid kind params appData s)"
| "tr_step s (CloseConsumer i) = on_consumer cs_close i s"
| "tr_step s (PauseConsumer i) = on_consumer cs_pause i s"
| "tr_step s (ResumeConsumer i) = on_consumer cs_resume i s"
| "tr_step s (Micro n) =
     (if n < length (tr_micro s) then run_micro (tr_micro s ! n) (s\<lparr>tr_micro := drop_nth n (tr_micro s)\<rparr>) else s)"
| "tr_step s (Then n) =
     (if n < length (tr_then s) then run_then (tr_then s ! n) (s\<lparr>tr_then := drop_nth n (tr_then s)\<rparr>) else s)"
| "tr_step s (Back n a) =
     (if n < length (tr_running s)
      then (case tr_running s ! n of (i, st) \<Rightarrow>
        continue_task i st a (s\<lparr>tr_running := drop_nth n (tr_running s)\<rparr>))
      else s)"
| "tr_step s (RestartIce v) = fst (tr_restartIce v s)"
| "tr_step s (UpdateIceServers v) = fst (tr_updateIceServers v s)"
| "tr_step s (ConnectionState st) = tr_onConnectionState st s"
| "tr_step s (IceGatheringState st) = tr_onIceGatheringState st s"
| "tr_step s CloseTransport = tr_close s"

text \<open>The answers that the transport counts on, and does not check: the handler gives each new track a local id that
  no consumer has and that is not about to be stopped, with the track enabled; the server gives each consumer an id
  of its own.\<close>

definition fresh_answer :: "stage \<Rightarrow> js_error + receive_result list \<Rightarrow> transport \<Rightarrow> bool" where
  "fresh_answer st a s =
     (case (st, a) of
        (Receiving ts, Inr rs) \<Rightarrow>
          distinct (map rr_localId rs) \<and> list_all (\<lambda>r. mt_enabled (rr_track r)) rs \<and>
          distinct (map (cr_id \<circ> snd) ts) \<and>
          list_all (\<lambda>t. cr_id (snd t) \<notin> set (jm_keys (tr_consumers s)) \<and> cr_id (snd t) \<notin> set (jm_keys (tr_pendingClose s))) ts \<and>
          list_all (\<lambda>r. rr_localId r \<notin> set (map cs_localId (jm_values (tr_consumers s))) \<and>
            rr_localId r \<notin> set (jm_values (tr_pendingClose s))) rs
      | _ \<Rightarrow> True)"

fun answer_fits :: "transport \<Rightarrow> tr_op \<Rightarrow> bool" where
  "answer_fits s (Back n a) \<longleftrightarrow> n < length (tr_running s) \<longrightarrow> fresh_answer (snd (tr_running s ! n)) a s"
| "answer_fits s _ \<longleftrightarrow> True"

text \<open>What the handler was last told about a local id: to pause it, or not. A new receiver is not paused, and one that
  is stopped is forgotten.\<close>

fun told_paused :: "string \<Rightarrow> bool \<Rightarrow> handler_call list \<Rightarrow> bool" where
  "told_paused l b [] = b"
| "told_paused l b (HPause ls # cs) = told_paused l (l \<in> set ls \<or> b) cs"
| "told_paused l b (HResume ls # cs) = told_paused l (l \<notin> set ls \<and> b) cs"
| "told_paused l b (HStop ls # cs) = told_paused l (l \<notin> set ls \<and> b) cs"
| "told_paused l b (_ # cs) = told_paused l b cs"

text \<open>Nothing is waiting to run.\<close>

definition quiescent :: "transport \<Rightarrow> bool" where
  "quiescent s \<longleftrightarrow> tr_micro s = [] \<and> tr_then s = [] \<and> tr_running s = []"

section \<open>The invariant of the work in progress\<close>

definition queued :: "tr_task \<Rightarrow> transport \<Rightarrow> bool" where
  "queued t s \<longleftrightarrow> t \<in> snd ` set (contents (tr_awaitQueue s)) \<or> t \<in> set (tr_then s)"

text \<open>The four kinds of work alike: the flag, whether there is something to do, and the microtask to come.\<close>

fun in_progress :: "tr_task \<Rightarrow> transport \<Rightarrow> bool" where
  "in_progress CreateTask s = tr_consumerCreationInProgress s"
| "in_progress PauseTask s = tr_consumerPauseInProgress s"
| "in_progress ResumeTask s = tr_consumerResumeInProgress s"
| "in_progress CloseTask s = tr_consumerCloseInProgress s"
| "in_progress OtherTask s = False"

fun set_flag :: "tr_task \<Rightarrow> bool \<Rightarrow> transport \<Rightarrow> transport" where
  "set_flag CreateTask b s = s\<lparr>tr_consumerCreationInProgress := b\<rparr>"
| "set_flag PauseTask b s = s\<lparr>tr_consumerPauseInProgress := b\<rparr>"
| "set_flag ResumeTask b s = s\<lparr>tr_consumerResumeInProgress := b\<rparr>"
| "set_flag CloseTask b s = s\<lparr>tr_consumerCloseInProgress := b\<rparr>"
| "set_flag OtherTask b s = s"

fun pending_work :: "tr_task \<Rightarrow> transport \<Rightarrow> bool" where
  "pending_work CreateTask s = (tr_pendingConsumerTasks s \<noteq> [])"
| "pending_work PauseTask s = (tr_pendingPause s \<noteq> [])"
| "pending_work ResumeTask s = (tr_pendingResume s \<noteq> [])"
| "pending_work CloseTask s = (tr_pendingClose s \<noteq> [])"
| "pending_work OtherTask s = False"

fun micro_of :: "tr_task \<Rightarrow> micro option" where
  "micro_of CreateTask = Some CreateMicro"
| "micro_of PauseTask = Some PauseMicro"
| "micro_of ResumeTask = Some ResumeMicro"
| "micro_of _ = None"

definition micro_coming :: "tr_task \<Rightarrow> transport \<Rightarrow> bool" where
  "micro_coming t s \<longleftrightarrow> micro_of t \<in> Some ` set (tr_micro s)"

text \<open>A flag is up only while its task is on the way, and pending work has its flag up or a microtask coming.\<close>

definition flags_ok :: "transport \<Rightarrow> bool" where
  "flags_ok s \<longleftrightarrow> (\<forall>t. (in_progress t s \<longrightarrow> queued t s) \<and> (pending_work t s \<longrightarrow> in_progress t s \<or> micro_coming t s))"

definition work_inv :: "transport \<Rightarrow> bool" where
  "work_inv s \<longleftrightarrow> queue_waits (tr_awaitQueue s) (tr_running s) \<and> (tr_closed s \<or> flags_ok s)"

definition start_work :: "tr_task \<Rightarrow> transport \<Rightarrow> transport" where
  "start_work t s = push_task t (set_flag t True s)"

lemma start_work_simps:
  "createPendingConsumers s = start_work CreateTask s" "pausePendingConsumers s = start_work PauseTask s"
  "resumePendingConsumers s = start_work ResumeTask s" "closePendingConsumers s = start_work CloseTask s"
  by (simp_all add: start_work_def createPendingConsumers_def pausePendingConsumers_def
      resumePendingConsumers_def closePendingConsumers_def)

lemma run_then_eq:
  "run_then t s = (if t = OtherTask then s
     else if pending_work t (set_flag t False s) then start_work t (set_flag t False s) else set_flag t False s)"
  by (cases t) (simp_all add: run_then_def start_work_simps Let_def)

lemma run_micro_eq:
  "run_micro m s = (if tr_closed s then s else
     case m of CreateMicro \<Rightarrow> if in_progress CreateTask s then s else start_work CreateTask s
     | PauseMicro \<Rightarrow> if in_progress PauseTask s then s else start_work PauseTask s
     | ResumeMicro \<Rightarrow> if in_progress ResumeTask s then s else start_work ResumeTask s)"
  by (cases m) (simp_all add: run_micro_def start_work_simps)

lemma set_flag_simps [simp]:
  "in_progress u (set_flag t b s) = (if u = t \<and> t \<noteq> OtherTask then b else in_progress u s)"
  "pending_work u (set_flag t b s) = pending_work u s" "tr_micro (set_flag t b s) = tr_micro s"
  "tr_awaitQueue (set_flag t b s) = tr_awaitQueue s" "tr_then (set_flag t b s) = tr_then s"
  "tr_running (set_flag t b s) = tr_running s" "tr_closed (set_flag t b s) = tr_closed s"
  "tr_consumers (set_flag t b s) = tr_consumers s" "tr_calls (set_flag t b s) = tr_calls s"
  "tr_pendingPause (set_flag t b s) = tr_pendingPause s" "tr_pendingResume (set_flag t b s) = tr_pendingResume s"
  "tr_pendingClose (set_flag t b s) = tr_pendingClose s"
  "tr_settled (set_flag t b s) = tr_settled s"
  by (cases t; cases u; simp)+

text \<open>The other parts of the state are no part of it.\<close>

lemma work_frame [simp]:
  "in_progress u (s\<lparr>tr_awaitQueue := x0\<rparr>) = in_progress u s" "in_progress u (s\<lparr>tr_then := x1\<rparr>) = in_progress u s"
  "in_progress u (s\<lparr>tr_running := x2\<rparr>) = in_progress u s" "in_progress u (s\<lparr>tr_micro := x3\<rparr>) = in_progress u s"
  "in_progress u (s\<lparr>tr_calls := x4\<rparr>) = in_progress u s" "in_progress u (s\<lparr>tr_consumers := x5\<rparr>) = in_progress u s"
  "in_progress u (s\<lparr>tr_settled := x6\<rparr>) = in_progress u s" "in_progress u (s\<lparr>tr_gone := x7\<rparr>) = in_progress u s"
  "in_progress u (s\<lparr>tr_connectionState := x8\<rparr>) = in_progress u s" "in_progress u (s\<lparr>tr_iceGatheringState := x9\<rparr>) = in_progress u s"
  "in_progress u (s\<lparr>tr_nextPromise := x10\<rparr>) = in_progress u s" "in_progress u (s\<lparr>tr_probatorConsumerCreated := x11\<rparr>) = in_progress u s"
  "in_progress u (s\<lparr>tr_closed := x12\<rparr>) = in_progress u s"
  "pending_work u (s\<lparr>tr_awaitQueue := x0\<rparr>) = pending_work u s" "pending_work u (s\<lparr>tr_then := x1\<rparr>) = pending_work u s"
  "pending_work u (s\<lparr>tr_running := x2\<rparr>) = pending_work u s" "pending_work u (s\<lparr>tr_micro := x3\<rparr>) = pending_work u s"
  "pending_work u (s\<lparr>tr_calls := x4\<rparr>) = pending_work u s" "pending_work u (s\<lparr>tr_consumers := x5\<rparr>) = pending_work u s"
  "pending_work u (s\<lparr>tr_settled := x6\<rparr>) = pending_work u s" "pending_work u (s\<lparr>tr_gone := x7\<rparr>) = pending_work u s"
  "pending_work u (s\<lparr>tr_connectionState := x8\<rparr>) = pending_work u s" "pending_work u (s\<lparr>tr_iceGatheringState := x9\<rparr>) = pending_work u s"
  "pending_work u (s\<lparr>tr_nextPromise := x10\<rparr>) = pending_work u s" "pending_work u (s\<lparr>tr_probatorConsumerCreated := x11\<rparr>) = pending_work u s"
  "pending_work u (s\<lparr>tr_closed := x12\<rparr>) = pending_work u s"
  "in_progress u (s\<lparr>tr_pendingConsumerTasks := y1\<rparr>) = in_progress u s" "in_progress u (s\<lparr>tr_pendingPause := y2\<rparr>) = in_progress u s"
  "in_progress u (s\<lparr>tr_pendingResume := y3\<rparr>) = in_progress u s" "in_progress u (s\<lparr>tr_pendingClose := y4\<rparr>) = in_progress u s"
  by (cases u; simp)+

lemma queued_flag [simp]: "queued u (set_flag t b s) = queued u s"
  by (simp add: queued_def)

lemma begin_task_frame [simp]:
  "tr_awaitQueue (begin_task i t s) = tr_awaitQueue s" "tr_closed (begin_task i t s) = tr_closed s"
  "tr_then (begin_task i t s) = tr_then s" "tr_micro (begin_task i t s) = tr_micro s"
  "in_progress u (begin_task i t s) = in_progress u s"
  "tr_consumers (begin_task i t s) = tr_consumers s" "tr_settled (begin_task i t s) = tr_settled s"
  "map fst (tr_running (begin_task i t s)) = map fst (tr_running s) @ [i]"
  by (cases u; simp add: begin_task_def split: tr_task.split)+

lemma begin_task_pending: "pending_work u (begin_task i t s) \<Longrightarrow> pending_work u s"
  by (cases u) (auto simp: begin_task_def split: tr_task.splits if_splits)

lemma queued_begin [simp]: "queued t (begin_task i u s) = queued t s"
  by (simp add: queued_def)

lemma flags_ok_mono:
  assumes "flags_ok s" "\<And>t. in_progress t s' = in_progress t s" "\<And>t. queued t s \<Longrightarrow> queued t s'"
    and "set (tr_micro s) \<subseteq> set (tr_micro s')" "\<And>t. pending_work t s' \<Longrightarrow> pending_work t s \<or> micro_coming t s'"
  shows "flags_ok s'"
  using assms unfolding flags_ok_def micro_coming_def by blast

lemma flags_ok_begin: "flags_ok s \<Longrightarrow> flags_ok (begin_task i t s)"
  by (erule flags_ok_mono) (simp_all add: begin_task_pending)

lemma push_task_eq:
  assumes "aq_ok (tr_awaitQueue s)"
  shows "push_task t s =
    (if contents (tr_awaitQueue s) = []
     then begin_task (aq_nextTaskId (tr_awaitQueue s)) t (s\<lparr>tr_awaitQueue := fst (aq_push t (tr_awaitQueue s))\<rparr>)
     else s\<lparr>tr_awaitQueue := fst (aq_push t (tr_awaitQueue s))\<rparr>)"
  using aq_push_spec [OF assms, of t] by (auto simp: push_task_def split: prod.splits)

lemma finish_task_eq:
  assumes "aq_ok (tr_awaitQueue s)" "contents (tr_awaitQueue s) = (i, t) # cs"
  shows "finish_task i s =
    (let s' = s\<lparr>tr_awaitQueue := fst (aq_resolve i (tr_awaitQueue s)), tr_then := tr_then s @ [t]\<rparr>
     in case cs of [] \<Rightarrow> s' | (j, u) # _ \<Rightarrow> begin_task j u s')"
  using aq_resolve_spec [OF assms] by (auto simp: finish_task_def Let_def split: prod.splits list.splits)

lemma finish_task_gone:
  assumes "aq_ok (tr_awaitQueue s)" "i \<notin> fst ` set (contents (tr_awaitQueue s))"
  shows "finish_task i s = s"
  using aq.resolve_gone [OF assms] by (simp add: finish_task_def)

lemma push_task_inv:
  assumes "queue_waits (tr_awaitQueue s) (tr_running s)"
  shows "queue_waits (tr_awaitQueue (push_task t s)) (tr_running (push_task t s))"
proof -
  have ok: "aq_ok (tr_awaitQueue s)" using assms by (simp add: queue_waits_def)
  show ?thesis
    using queue_waits_push [OF assms, of t Returned]
      queue_waits_fst [of "tr_running s @ [(aq_nextTaskId (tr_awaitQueue s), Returned)]" "tr_running (push_task t s)"]
    by (auto simp: push_task_eq [OF ok] split: if_splits)
qed

lemma queued_push:
  assumes "aq_ok (tr_awaitQueue s)"
  shows "queued u (push_task t s) \<longleftrightarrow> u = t \<or> queued u s"
  using aq_push_spec [OF assms, of t] by (auto simp: push_task_eq [OF assms] queued_def)

lemma push_task_frame [simp]:
  assumes "aq_ok (tr_awaitQueue s)"
  shows "tr_closed (push_task t s) = tr_closed s" "tr_micro (push_task t s) = tr_micro s" "tr_then (push_task t s) = tr_then s"
    "in_progress u (push_task t s) = in_progress u s"
    "tr_consumers (push_task t s) = tr_consumers s" "tr_settled (push_task t s) = tr_settled s"
  by (simp_all add: push_task_eq [OF assms])

lemma push_task_pending: "aq_ok (tr_awaitQueue s) \<Longrightarrow> pending_work u (push_task t s) \<Longrightarrow> pending_work u s"
  by (auto simp: push_task_eq dest: begin_task_pending split: if_splits)

lemma finish_task_inv:
  assumes w: "queue_waits (tr_awaitQueue s) (r1 @ (i, st) # r2)" and r: "tr_running s = r1 @ r2"
    and f: "tr_closed s \<or> flags_ok s"
  shows "work_inv (finish_task i s)"
proof (cases "i \<in> fst ` set (contents (tr_awaitQueue s))")
  case False
  have "aq_ok (tr_awaitQueue s)" using w by (simp add: queue_waits_def)
  from finish_task_gone [OF this False] queue_waits_drop [OF w False] f r show ?thesis by (simp add: work_inv_def)
next
  case True
  have ok: "aq_ok (tr_awaitQueue s)" using w by (simp add: queue_waits_def)
  obtain t cs where c: "contents (tr_awaitQueue s) = (i, t) # cs"
    and q: "queue_waits (fst (aq_resolve i (tr_awaitQueue s))) (r1 @ r2 @ (case cs of [] \<Rightarrow> [] | (j, _) # _ \<Rightarrow> [(j, Returned)]))"
    using queue_waits_finish [OF w True] by metis
  define s' where "s' = s\<lparr>tr_awaitQueue := fst (aq_resolve i (tr_awaitQueue s)), tr_then := tr_then s @ [t]\<rparr>"
  have fin: "finish_task i s = (case cs of [] \<Rightarrow> s' | (j, u) # _ \<Rightarrow> begin_task j u s')"
    using finish_task_eq [OF ok c] unfolding s'_def Let_def .
  have "flags_ok s \<Longrightarrow> flags_ok s'"
    by (erule flags_ok_mono) (use aq_resolve_spec [OF ok c] c in \<open>auto simp: s'_def queued_def\<close>)
  then have "tr_closed (finish_task i s) \<or> flags_ok (finish_task i s)"
    using f by (auto simp: fin s'_def split: list.split intro: flags_ok_begin)
  moreover have m: "map fst (tr_running (finish_task i s)) = map fst (r1 @ r2 @ (case cs of [] \<Rightarrow> [] | (j, _) # _ \<Rightarrow> [(j, Returned)]))"
    using r by (auto simp: fin s'_def split: list.split)
  moreover have "tr_awaitQueue (finish_task i s) = fst (aq_resolve i (tr_awaitQueue s))"
    by (auto simp: fin s'_def split: list.split)
  ultimately show ?thesis using q queue_waits_fst [OF m, of "tr_awaitQueue (finish_task i s)"] unfolding work_inv_def by simp
qed

lemma work_inv_cong:
  assumes "work_inv s" "tr_awaitQueue s' = tr_awaitQueue s" "map fst (tr_running s') = map fst (tr_running s)"
    "tr_closed s' = tr_closed s" "flags_ok s \<Longrightarrow> flags_ok s'"
  shows "work_inv s'"
  using assms queue_waits_fst [of "tr_running s'" "tr_running s" "tr_awaitQueue s"] by (auto simp: work_inv_def)

text \<open>Raising a flag while pushing its task mends what this kind of work lacked.\<close>

lemma start_work_inv:
  assumes w: "queue_waits (tr_awaitQueue s) (tr_running s)"
    and f: "tr_closed s \<or> (\<forall>u. u \<noteq> t \<longrightarrow> (in_progress u s \<longrightarrow> queued u s) \<and> (pending_work u s \<longrightarrow> in_progress u s \<or> micro_coming u s))"
    and t: "t \<noteq> OtherTask"
  shows "work_inv (start_work t s)"
proof -
  let ?s = "set_flag t True s"
  have ok: "aq_ok (tr_awaitQueue ?s)" using w by (simp add: queue_waits_def)
  have "flags_ok (push_task t ?s)" if "\<forall>u. u \<noteq> t \<longrightarrow> (in_progress u s \<longrightarrow> queued u s) \<and> (pending_work u s \<longrightarrow> in_progress u s \<or> micro_coming u s)"
    unfolding flags_ok_def micro_coming_def push_task_frame [OF ok]
  proof (intro allI conjI impI)
    fix u
    show "queued u (push_task t ?s)" if "in_progress u ?s"
      using that \<open>\<forall>u. _ u\<close> t by (auto simp: queued_push [OF ok] split: if_splits)
    show "in_progress u ?s \<or> micro_of u \<in> Some ` set (tr_micro ?s)" if "pending_work u (push_task t ?s)"
      using push_task_pending [OF ok that] \<open>\<forall>u. _ u\<close> t by (auto simp: micro_coming_def)
  qed
  then show ?thesis
    using f push_task_inv [of ?s t] w push_task_frame(1) [OF ok, of t] by (auto simp: work_inv_def start_work_def)
qed

lemma micro_step_inv:
  assumes "work_inv s"
  shows "work_inv (tr_step s (Micro n))"
proof (cases "n < length (tr_micro s)")
  case True
  let ?s = "s\<lparr>tr_micro := drop_nth n (tr_micro s)\<rparr>"
  have w: "queue_waits (tr_awaitQueue ?s) (tr_running ?s)" using assms by (simp add: work_inv_def)
  have keep: "micro_coming u ?s" if "micro_coming u s" "micro_of u \<noteq> Some (tr_micro s ! n)" for u
    using that set_drop_nth(2) [OF True] by (fastforce simp: micro_coming_def)
  have other: "(in_progress u ?s \<longrightarrow> queued u ?s) \<and> (pending_work u ?s \<longrightarrow> in_progress u ?s \<or> micro_coming u ?s)"
    if "flags_ok s" "micro_of u \<noteq> Some (tr_micro s ! n)" for u
    using that keep [of u] by (auto simp: flags_ok_def queued_def)
  have rest: "work_inv ?s" if "\<not> tr_closed s \<Longrightarrow> in_progress u s" "micro_of u = Some (tr_micro s ! n)" for u
  proof -
    have "flags_ok ?s" if "flags_ok s" "\<not> tr_closed s"
      unfolding flags_ok_def
    proof
      fix v
      show "(in_progress v ?s \<longrightarrow> queued v ?s) \<and> (pending_work v ?s \<longrightarrow> in_progress v ?s \<or> micro_coming v ?s)"
      proof (cases "micro_of v = Some (tr_micro s ! n)")
        case True
        then have "v = u" using \<open>micro_of u = _\<close> by (cases u; cases v) auto
        with that \<open>\<not> tr_closed s \<Longrightarrow> in_progress u s\<close> show ?thesis by (auto simp: flags_ok_def queued_def)
      qed (use other that in blast)
    qed
    then show ?thesis using assms w by (auto simp: work_inv_def)
  qed
  have start: "work_inv (start_work u ?s)" if "\<not> tr_closed s" "micro_of u = Some (tr_micro s ! n)" for u
  proof (rule start_work_inv [OF w])
    have "micro_of v \<noteq> Some (tr_micro s ! n)" if "v \<noteq> u" for v
      using that \<open>micro_of u = _\<close> by (cases u; cases v) auto
    then show "tr_closed ?s \<or> (\<forall>v. v \<noteq> u \<longrightarrow> (in_progress v ?s \<longrightarrow> queued v ?s) \<and> (pending_work v ?s \<longrightarrow> in_progress v ?s \<or> micro_coming v ?s))"
      using other assms that by (auto simp: work_inv_def)
    show "u \<noteq> OtherTask" using that by auto
  qed
  show ?thesis
    using True rest [of CreateTask] rest [of PauseTask] rest [of ResumeTask] start by (cases "tr_micro s ! n"; cases "tr_closed s") (auto simp: run_micro_eq)
qed (use assms in simp)

lemma then_step_inv:
  assumes "work_inv s"
  shows "work_inv (tr_step s (Then n))"
proof (cases "n < length (tr_then s)")
  case True
  define t where "t = tr_then s ! n"
  let ?s = "s\<lparr>tr_then := drop_nth n (tr_then s)\<rparr>"
  have w: "queue_waits (tr_awaitQueue ?s) (tr_running ?s)" using assms by (simp add: work_inv_def)
  have q: "queued u ?s" if "queued u s" "u \<noteq> t" for u
    using that set_drop_nth(2) [OF True] by (auto simp: queued_def t_def)
  have other: "(in_progress u ?s \<longrightarrow> queued u ?s) \<and> (pending_work u ?s \<longrightarrow> in_progress u ?s \<or> micro_coming u ?s)"
    if "flags_ok s" "u \<noteq> t" for u
    using that q by (auto simp: flags_ok_def micro_coming_def)
  show ?thesis
  proof (cases "t = OtherTask")
    case True
    have "flags_ok ?s" if "flags_ok s"
      unfolding flags_ok_def using other [OF that] by (metis True in_progress.simps(5) pending_work.simps(5))
    with \<open>n < _\<close> True w assms show ?thesis by (auto simp: run_then_eq work_inv_def t_def [symmetric])
  next
    case t: False
    let ?r = "set_flag t False ?s"
    have other': "tr_closed ?r \<or> (\<forall>u. u \<noteq> t \<longrightarrow> (in_progress u ?r \<longrightarrow> queued u ?r) \<and> (pending_work u ?r \<longrightarrow> in_progress u ?r \<or> micro_coming u ?r))"
      using other assms by (auto simp: work_inv_def micro_coming_def)
    have "work_inv (start_work t ?r)"
      using start_work_inv [of ?r t] w other' t by simp
    moreover have "work_inv ?r" if "\<not> pending_work t ?r"
    proof -
      have "tr_closed ?r \<or> flags_ok ?r" using other' that t unfolding flags_ok_def by auto
      with w show ?thesis by (simp add: work_inv_def)
    qed
    ultimately show ?thesis using \<open>n < _\<close> t by (auto simp: run_then_eq t_def [symmetric])
  qed
qed (use assms in simp)

text \<open>\<open>consume\<close> either refuses or adds one creation task with its microtask.\<close>

lemma tr_consume_cases:
  assumes refuse: "P s"
    and accept: "\<And>task. P (s\<lparr>tr_pendingConsumerTasks := tr_pendingConsumerTasks s @ [task], tr_nextPromise := tr_nextPromise s + 1,
       tr_micro := tr_micro s @ [CreateMicro]\<rparr>)"
  shows "P (fst (tr_consume cid pid kind params appData s))"
proof (cases "\<exists>i p. cid = VStr i \<and> pid = VStr p")
  case True
  then obtain i p where "cid = VStr i" "pid = VStr p" by blast
  then show ?thesis
    using refuse accept unfolding tr_consume_def by (simp split: sum.split bool.split)
next
  case False
  then have "fst (tr_consume cid pid kind params appData s) = s"
    by (cases cid; cases pid) (simp_all add: tr_consume_def)
  with refuse show ?thesis by simp
qed

lemma pending_work_create [simp]:
  "pending_work u (s\<lparr>tr_pendingConsumerTasks := ts\<rparr>) = (if u = CreateTask then ts \<noteq> [] else pending_work u s)"
  "pending_work u (s\<lparr>tr_pendingPause := m\<rparr>) = (if u = PauseTask then m \<noteq> [] else pending_work u s)"
  "pending_work u (s\<lparr>tr_pendingResume := m\<rparr>) = (if u = ResumeTask then m \<noteq> [] else pending_work u s)"
  "pending_work u (s\<lparr>tr_pendingClose := m\<rparr>) = (if u = CloseTask then m \<noteq> [] else pending_work u s)"
  by (cases u; simp)+

lemma consume_step_inv:
  assumes "work_inv s"
  shows "work_inv (tr_step s (Consume cid pid kind params appData))"
proof -
  have f: "flags_ok (s\<lparr>tr_pendingConsumerTasks := tr_pendingConsumerTasks s @ [task], tr_nextPromise := p,
       tr_micro := tr_micro s @ [CreateMicro]\<rparr>)" if "flags_ok s" for task p
    using that by (rule flags_ok_mono) (auto simp: queued_def micro_coming_def split: if_splits)
  show ?thesis
    unfolding tr_step.simps by (rule tr_consume_cases [where P = work_inv]) (use assms f in \<open>auto simp: work_inv_def\<close>)
qed

lemma other_push_inv:
  assumes "work_inv s"
  shows "work_inv (push_task OtherTask s)"
proof -
  have ok: "aq_ok (tr_awaitQueue s)" using assms by (simp add: work_inv_def queue_waits_def)
  have "flags_ok s \<Longrightarrow> flags_ok (push_task OtherTask s)"
    by (erule flags_ok_mono) (use ok push_task_pending [OF ok] in \<open>auto simp: queued_push\<close>)
  with assms push_task_inv [of s OtherTask] ok show ?thesis by (auto simp: work_inv_def)
qed

lemma close_transport_inv:
  assumes "work_inv s"
  shows "work_inv (tr_close s)"
proof -
  have ok: "aq_ok (tr_awaitQueue s)" using assms by (simp add: work_inv_def queue_waits_def)
  have e: "on_effects (map (\<lambda>(i, t). Rejected i t) cs) r = r" for cs r
    by (induction cs) auto
  have n: "aq_nextTaskId (fst (aq_stop (tr_awaitQueue s))) = aq_nextTaskId (tr_awaitQueue s)" using ok by simp
  have "queue_waits (fst (aq_stop (tr_awaitQueue s))) (tr_running s)"
    using assms aq.conts_stop [OF ok] aq.ok_stop [OF ok] n by (simp add: work_inv_def queue_waits_def running_def)
  with assms aq.conts_stop [OF ok] show ?thesis
    by (auto simp: tr_close_def work_inv_def e Let_def split: prod.splits)
qed

lemma signal_inv:
  assumes "work_inv s"
  shows "work_inv (on_signal c sig s)"
proof (cases sig)
  case SigPause
  have "flags_ok (on_signal c sig s)" if "flags_ok s"
    using that by (rule flags_ok_mono)
      (auto simp: on_signal_def SigPause queued_def micro_coming_def jm_delete_def split: if_splits)
  with assms show ?thesis by (auto simp: on_signal_def SigPause work_inv_def)
next
  case SigResume
  have "flags_ok (on_signal c sig s)" if "flags_ok s"
    using that by (rule flags_ok_mono)
      (auto simp: on_signal_def SigResume queued_def micro_coming_def jm_delete_def split: if_splits)
  with assms show ?thesis by (auto simp: on_signal_def SigResume work_inv_def)
next
  case SigClose
  define s1 where "s1 = s\<lparr>tr_consumers := jm_delete (cs_id c) (tr_consumers s),
                tr_pendingPause := jm_delete (cs_id c) (tr_pendingPause s),
                tr_pendingResume := jm_delete (cs_id c) (tr_pendingResume s),
                tr_gone := tr_gone s @ [c]\<rparr>"
  define s2 where "s2 = s1\<lparr>tr_pendingClose := jm_set (cs_id c) (cs_localId c) (tr_pendingClose s1)\<rparr>"
  have f1: "flags_ok s1" if "flags_ok s"
    using that by (rule flags_ok_mono) (auto simp: s1_def queued_def jm_delete_def split: if_splits)
  have f2: "(in_progress u s2 \<longrightarrow> queued u s2) \<and> (pending_work u s2 \<longrightarrow> in_progress u s2 \<or> micro_coming u s2)"
    if "flags_ok s" "u \<noteq> CloseTask \<or> in_progress CloseTask s" for u
    using f1 [OF that(1)] that(2) by (auto simp: s2_def s1_def flags_ok_def queued_def micro_coming_def)
  have w: "queue_waits (tr_awaitQueue s2) (tr_running s2)" "tr_closed s2 = tr_closed s" "in_progress CloseTask s2 = in_progress CloseTask s"
    using assms by (simp_all add: s2_def s1_def work_inv_def)
  have "work_inv (start_work CloseTask s2)"
    using start_work_inv [of s2 CloseTask] w assms f2 by (auto simp: work_inv_def)
  moreover have "work_inv s2" if "in_progress CloseTask s"
    using w assms f2 that unfolding work_inv_def flags_ok_def by blast
  moreover have "work_inv s1" if "tr_closed s" using assms that by (simp add: s1_def work_inv_def)
  moreover have "on_signal c sig s = (if tr_closed s then s1 else if in_progress CloseTask s then s2 else start_work CloseTask s2)"
    using w by (simp add: on_signal_def SigClose Let_def s1_def s2_def start_work_simps)
  ultimately show ?thesis by simp
qed

lemma consumer_step_inv:
  assumes "work_inv s"
  shows "work_inv (on_consumer f i s)"
proof -
  have fold: "work_inv (foldl (\<lambda>s sig. on_signal c sig s) r sigs)" if "work_inv r" for c r sigs
    using that by (induction sigs arbitrary: r) (auto intro: signal_inv)
  have "flags_ok (s\<lparr>tr_consumers := m\<rparr>)" if "flags_ok s" for m
    using that by (rule flags_ok_mono) (auto simp: queued_def)
  then have "work_inv (s\<lparr>tr_consumers := m\<rparr>)" for m using assms by (auto simp: work_inv_def)
  with fold assms show ?thesis by (auto simp: on_consumer_def split: option.splits prod.splits)
qed

text \<open>The loop of the creation touches the consumers and the promises only.\<close>

definition same_work :: "transport \<Rightarrow> transport \<Rightarrow> bool" where
  "same_work s s' \<longleftrightarrow> s' = s\<lparr>tr_consumers := tr_consumers s', tr_settled := tr_settled s'\<rparr>"

lemma same_work_refl [simp]: "same_work s s"
  by (simp add: same_work_def)

lemma same_work_trans: "same_work s s' \<Longrightarrow> same_work s' s'' \<Longrightarrow> same_work s s''"
  unfolding same_work_def by (cases s; cases s'; cases s'') simp

lemma same_work_settle: "same_work s (settle_promise p r s)"
  by (simp add: same_work_def settle_promise_def)

lemma same_work_reject: "same_work s (reject_tasks ts e s)"
proof -
  have "same_work s (foldl (\<lambda>s t. settle_promise (fst t) (Inl e) s) r ts)" if "same_work s r" for r
    using that
  proof (induction ts arbitrary: r)
    case (Cons t ts)
    then show ?case using same_work_trans [OF Cons.prems same_work_settle] by simp
  qed simp
  then show ?thesis by (simp add: reject_tasks_def)
qed

lemma same_work_create: "create_consumer t r s = (s', c) \<Longrightarrow> same_work s s'"
  by (auto simp: create_consumer_def same_work_def settle_promise_def Let_def split: prod.splits)

lemma same_work_loop: "create_loop ts rs v s = (s', b, v') \<Longrightarrow> same_work s s'"
proof (induction ts rs v s rule: create_loop.induct)
  case (3 t ts r rs v s)
  obtain s1 c where c: "create_consumer t r s = (s1, c)" by (cases "create_consumer t r s")
  with "3.IH" [OF c [symmetric]] "3.prems" same_work_create [OF c] show ?case by (auto intro: same_work_trans)
qed auto

lemma same_work_sel:
  assumes "same_work s s'"
  shows "tr_awaitQueue s' = tr_awaitQueue s" "tr_running s' = tr_running s" "tr_closed s' = tr_closed s"
    "tr_calls s' = tr_calls s" "tr_pendingPause s' = tr_pendingPause s" "tr_pendingResume s' = tr_pendingResume s"
    "tr_pendingClose s' = tr_pendingClose s" "flags_ok s \<Longrightarrow> flags_ok s'"
proof -
  have eq: "s' = s\<lparr>tr_consumers := tr_consumers s', tr_settled := tr_settled s'\<rparr>" using assms by (simp add: same_work_def)
  show "tr_awaitQueue s' = tr_awaitQueue s" "tr_running s' = tr_running s" "tr_closed s' = tr_closed s"
    "tr_calls s' = tr_calls s" "tr_pendingPause s' = tr_pendingPause s" "tr_pendingResume s' = tr_pendingResume s"
    "tr_pendingClose s' = tr_pendingClose s"
    by (subst eq, simp)+
  show "flags_ok s'" if "flags_ok s"
    using that
  proof (rule flags_ok_mono)
    show "pending_work t s \<or> micro_coming t s'" if "pending_work t s'" for t
      using that by (subst (asm) eq) simp
  qed (subst eq, simp add: queued_def)+
qed

lemma back_step_inv:
  assumes inv: "work_inv s"
  shows "work_inv (tr_step s (Back n a))"
proof (cases "n < length (tr_running s)")
  case True
  obtain i st where ist: "tr_running s ! n = (i, st)" by (cases "tr_running s ! n")
  let ?s = "s\<lparr>tr_running := drop_nth n (tr_running s)\<rparr>"
  have w: "queue_waits (tr_awaitQueue s) (take n (tr_running s) @ (i, st') # drop (Suc n) (tr_running s))" for st'
    using inv drop_nth_split [OF True] queue_waits_fst [of "take n (tr_running s) @ (i, st') # drop (Suc n) (tr_running s)" "tr_running s"]
    by (metis (no_types, lifting) fst_conv ist list.simps(9) map_append work_inv_def)
  have f: "tr_closed s \<or> flags_ok ?s"
  proof -
    have "flags_ok s \<Longrightarrow> flags_ok ?s" by (erule flags_ok_mono) (auto simp: queued_def)
    then show ?thesis using inv by (auto simp: work_inv_def)
  qed
  have fin: "work_inv (finish_task i s')" if "same_work ?s s'" for s'
    using finish_task_inv [of s' "take n (tr_running s)" i st "drop (Suc n) (tr_running s)"] w f same_work_sel [OF that]
    by (auto simp: drop_nth_def)
  have fin': "work_inv (finish_task i (s'\<lparr>tr_probatorConsumerCreated := b\<rparr>))" if "same_work ?s s'" for s' b
  proof -
    have "flags_ok s' \<Longrightarrow> flags_ok (s'\<lparr>tr_probatorConsumerCreated := b\<rparr>)" by (erule flags_ok_mono) (auto simp: queued_def)
    then show ?thesis
      using finish_task_inv [of "s'\<lparr>tr_probatorConsumerCreated := b\<rparr>" "take n (tr_running s)" i st "drop (Suc n) (tr_running s)"]
        w f same_work_sel [OF that] by (auto simp: drop_nth_def)
  qed
  have stage: "work_inv (set_stage i Probating (s'\<lparr>tr_calls := cs\<rparr>))" if "same_work ?s s'" for s' cs
  proof -
    have "flags_ok s' \<Longrightarrow> flags_ok (set_stage i Probating (s'\<lparr>tr_calls := cs\<rparr>))"
      by (erule flags_ok_mono) (auto simp: queued_def set_stage_def)
    moreover have "queue_waits (tr_awaitQueue s) (drop_nth n (tr_running s) @ [(i, Probating)])"
      using w [of Probating] unfolding queue_waits_def drop_nth_def by auto
    ultimately show ?thesis using f same_work_sel [OF that] by (auto simp: work_inv_def set_stage_def)
  qed
  have "work_inv (continue_task i st a ?s)"
  proof (cases st)
    case (Receiving ts)
    define res where "res = (case a of Inl e \<Rightarrow> (reject_tasks ts e ?s, None)
        | Inr results \<Rightarrow> (case create_loop ts results None ?s of (s', threw, video) \<Rightarrow>
            ((if threw then reject_tasks ts (TypeError ''Cannot read properties of undefined'') s' else s'), video)))"
    obtain s1 video where r: "res = (s1, video)" by (cases res)
    have "same_work ?s s1"
      using r by (auto simp: res_def split: sum.splits prod.splits if_splits
          intro: same_work_reject dest: same_work_loop same_work_trans [OF same_work_loop same_work_reject])
    with fin stage show ?thesis
      unfolding continue_task_def Receiving stage.case res_def [symmetric] r by (auto split: option.split sum.split)
  next
    case Probating
    show ?thesis
    proof (cases a)
      case (Inl e)
      with fin [of ?s] Probating show ?thesis by (simp add: continue_task_def)
    next
      case (Inr x)
      with fin' [of ?s True] Probating show ?thesis by (simp add: continue_task_def)
    qed
  qed (use fin [of ?s] in \<open>simp_all add: continue_task_def\<close>)
  with True ist inv show ?thesis by simp
qed (use inv in simp)

interpretation work: step_invariant tr_step work_inv
proof
  fix s e assume inv: "work_inv s"
  show "work_inv (tr_step s e)"
  proof (cases e)
    case (RestartIce v)
    with inv show ?thesis by (simp add: tr_restartIce_def other_push_inv)
  next
    case (UpdateIceServers v)
    with inv show ?thesis by (simp add: tr_updateIceServers_def other_push_inv split: jsval.split)
  next
    case (ConnectionState st)
    have "flags_ok s \<Longrightarrow> flags_ok (s\<lparr>tr_connectionState := st\<rparr>)" by (erule flags_ok_mono) (auto simp: queued_def)
    with inv show ?thesis by (auto simp: ConnectionState tr_onConnectionState_def work_inv_def)
  next
    case (IceGatheringState st)
    have "flags_ok s \<Longrightarrow> flags_ok (s\<lparr>tr_iceGatheringState := st\<rparr>)" by (erule flags_ok_mono) (auto simp: queued_def)
    with inv show ?thesis by (auto simp: IceGatheringState tr_onIceGatheringState_def work_inv_def)
  qed (use inv consume_step_inv micro_step_inv then_step_inv back_step_inv consumer_step_inv close_transport_inv in simp_all)
qed

lemma new_Transport_work: "work_inv (new_Transport d e n)"
proof -
  have "pending_work t (new_Transport d e n) \<Longrightarrow> False" "in_progress t (new_Transport d e n) \<Longrightarrow> False" for t
    by (cases t; simp add: new_Transport_def)+
  then show ?thesis
    by (auto simp: work_inv_def flags_ok_def queue_waits_def running_def new_Transport_def aq.ok_empty aq.conts_empty)
qed

text \<open>Nothing waits in an open transport at rest.\<close>

lemma quiescent_idle:
  assumes "work_inv s" "quiescent s" "\<not> tr_closed s"
  shows "\<not> pending_work t s" "\<not> in_progress t s" "contents (tr_awaitQueue s) = []"
proof -
  have c: "contents (tr_awaitQueue s) = []"
    using assms by (cases "contents (tr_awaitQueue s)") (auto simp: work_inv_def queue_waits_def running_def quiescent_def)
  then show "contents (tr_awaitQueue s) = []" .
  have f: "flags_ok s" using assms by (simp add: work_inv_def)
  have "\<not> queued u s" for u using c assms(2) by (simp add: queued_def quiescent_def)
  then show p: "\<not> in_progress t s" using f by (auto simp: flags_ok_def)
  show "\<not> pending_work t s" using f p assms(2) by (auto simp: flags_ok_def micro_coming_def quiescent_def)
qed

section \<open>What the handler is told\<close>

abbreviation told :: "string \<Rightarrow> handler_call list \<Rightarrow> bool" where
  "told l calls \<equiv> told_paused l False calls"

text \<open>The consumers of an open transport, and the pauses and resumes on their way: a consumer waits for at most one
  of the two, the one it is in, and one that waits for none is as the handler was told.\<close>

type_synonym consumer_map = "(string, consumer) jsmap"

definition ids_ok :: "consumer_map \<Rightarrow> bool" where
  "ids_ok cons \<longleftrightarrow>
     (\<forall>i c. jm_get cons i = Some c \<longrightarrow> cs_id c = i \<and> \<not> cs_closed c) \<and>
     (\<forall>i c j d. jm_get cons i = Some c \<longrightarrow> jm_get cons j = Some d \<longrightarrow> cs_localId c = cs_localId d \<longrightarrow> i = j)"

definition waits_ok :: "bool \<Rightarrow> consumer_map \<Rightarrow> (string, string) jsmap \<Rightarrow> (string, string) jsmap \<Rightarrow> bool" where
  "waits_ok b cons m m' \<longleftrightarrow>
     jm_wf m \<and> (\<forall>i l. jm_get m i = Some l \<longrightarrow> jm_get m' i = None \<and>
       (\<exists>c. jm_get cons i = Some c \<and> cs_localId c = l \<and> cs_paused c = b))"

definition told_ok :: "consumer_map \<Rightarrow> (string, string) jsmap \<Rightarrow> (string, string) jsmap \<Rightarrow> handler_call list \<Rightarrow> bool" where
  "told_ok cons pp pr calls \<longleftrightarrow>
     (\<forall>i c. jm_get cons i = Some c \<longrightarrow> jm_get pp i = None \<longrightarrow> jm_get pr i = None \<longrightarrow> told (cs_localId c) calls = cs_paused c)"

definition cons_ok :: "consumer_map \<Rightarrow> (string, string) jsmap \<Rightarrow> (string, string) jsmap \<Rightarrow> handler_call list \<Rightarrow> bool" where
  "cons_ok cons pp pr calls \<longleftrightarrow>
     ids_ok cons \<and> waits_ok True cons pp pr \<and> waits_ok False cons pr pp \<and> told_ok cons pp pr calls"

text \<open>A local id that the handler has paused is that of a consumer, or about to be stopped; never both.\<close>

definition live_ok :: "consumer_map \<Rightarrow> (string, string) jsmap \<Rightarrow> handler_call list \<Rightarrow> bool" where
  "live_ok cons pc calls \<longleftrightarrow>
     (\<forall>i c. jm_get cons i = Some c \<longrightarrow> jm_get pc i = None \<and> cs_localId c \<notin> set (jm_values pc)) \<and>
     (\<forall>l. told l calls \<longrightarrow> (\<exists>i c. jm_get cons i = Some c \<and> cs_localId c = l) \<or> l \<in> set (jm_values pc))"

definition core_ok :: "transport \<Rightarrow> bool" where
  "core_ok s \<longleftrightarrow> cons_ok (tr_consumers s) (tr_pendingPause s) (tr_pendingResume s) (tr_calls s) \<and>
     live_ok (tr_consumers s) (tr_pendingClose s) (tr_calls s)"

lemma told_paused_append: "told_paused l b (cs @ ds) = told_paused l (told_paused l b cs) ds"
  by (induction l b cs rule: told_paused.induct) simp_all

lemma told_append [simp]:
  "told l (cs @ [HPause ls]) \<longleftrightarrow> l \<in> set ls \<or> told l cs" "told l (cs @ [HResume ls]) \<longleftrightarrow> l \<notin> set ls \<and> told l cs"
  "told l (cs @ [HStop ls]) \<longleftrightarrow> l \<notin> set ls \<and> told l cs" "told l (cs @ [HReceive os]) = told l cs" "told l (cs @ [HClose]) = told l cs"
  by (simp_all add: told_paused_append)

lemma jm_values_iff: "jm_wf m \<Longrightarrow> v \<in> set (jm_values m) \<longleftrightarrow> (\<exists>k. jm_get m k = Some v)"
  by (force simp: jm_wf_def jm_values_def jm_get_def)

lemma jm_get_Nil [simp]: "jm_get [] k = None"
  by (simp add: jm_get_def)

lemma jm_wf_Nil [simp]: "jm_wf []"
  by (simp add: jm_wf_def)

lemma waits_local:
  assumes "ids_ok cons" "waits_ok b cons m m'" "jm_get cons j = Some c"
  shows "cs_localId c \<in> set (jm_values m) \<longleftrightarrow> jm_get m j \<noteq> None"
proof -
  have "(\<exists>k. jm_get m k = Some (cs_localId c)) \<longleftrightarrow> jm_get m j \<noteq> None"
    using assms unfolding ids_ok_def waits_ok_def by (metis option.collapse option.distinct(1) option.inject)
  with assms(2) show ?thesis by (simp add: waits_ok_def jm_values_iff)
qed

lemma waits_state: "waits_ok b cons m m' \<Longrightarrow> jm_get m i = Some l \<Longrightarrow> jm_get cons i = Some c \<Longrightarrow> cs_paused c = b"
  unfolding waits_ok_def by (metis option.inject)

lemma flush_pause:
  assumes "cons_ok cons pp pr calls"
  shows "cons_ok cons [] pr (calls @ [HPause (jm_values pp)])"
proof -
  note ok = assms [unfolded cons_ok_def]
  have "told_ok cons [] pr (calls @ [HPause (jm_values pp)])"
    unfolding told_ok_def
  proof (intro allI impI)
    fix i c assume c: "jm_get cons i = Some c" "jm_get pr i = None"
    show "told (cs_localId c) (calls @ [HPause (jm_values pp)]) = cs_paused c"
    proof (cases "jm_get pp i")
      case None
      with c ok waits_local [of cons True pp pr i c] show ?thesis by (simp add: told_ok_def)
    next
      case (Some l)
      with c ok waits_local [of cons True pp pr i c] waits_state [of True cons pp pr i l c] show ?thesis by simp
    qed
  qed
  with ok show ?thesis by (simp add: cons_ok_def waits_ok_def)
qed

lemma flush_resume:
  assumes "cons_ok cons pp pr calls"
  shows "cons_ok cons pp [] (calls @ [HResume (jm_values pr)])"
proof -
  note ok = assms [unfolded cons_ok_def]
  have "told_ok cons pp [] (calls @ [HResume (jm_values pr)])"
    unfolding told_ok_def
  proof (intro allI impI)
    fix i c assume c: "jm_get cons i = Some c" "jm_get pp i = None"
    show "told (cs_localId c) (calls @ [HResume (jm_values pr)]) = cs_paused c"
    proof (cases "jm_get pr i")
      case None
      with c ok waits_local [of cons False pr pp i c] show ?thesis by (simp add: told_ok_def)
    next
      case (Some l)
      with c ok waits_local [of cons False pr pp i c] waits_state [of False cons pr pp i l c] show ?thesis by simp
    qed
  qed
  with ok show ?thesis by (simp add: cons_ok_def waits_ok_def)
qed

lemma quiet_call: "cons_ok cons pp pr calls \<Longrightarrow> (\<And>i c. jm_get cons i = Some c \<Longrightarrow> told (cs_localId c) calls' = told (cs_localId c) calls) \<Longrightarrow>
    cons_ok cons pp pr calls'"
  by (simp add: cons_ok_def told_ok_def)

lemma flush_stop:
  assumes "cons_ok cons pp pr calls" "live_ok cons pc calls"
  shows "cons_ok cons pp pr (calls @ [HStop (jm_values pc)])" "live_ok cons [] (calls @ [HStop (jm_values pc)])"
proof -
  show "cons_ok cons pp pr (calls @ [HStop (jm_values pc)])"
    by (rule quiet_call [OF assms(1)]) (use assms(2) in \<open>auto simp: live_ok_def\<close>)
  show "live_ok cons [] (calls @ [HStop (jm_values pc)])" using assms(2) by (auto simp: live_ok_def jm_values_def)
qed

lemma live_calls: "live_ok cons pc calls \<Longrightarrow> (\<And>l. told l calls' \<Longrightarrow> told l calls \<or> (\<exists>i c. jm_get cons i = Some c \<and> cs_localId c = l)) \<Longrightarrow>
    live_ok cons pc calls'"
  unfolding live_ok_def by blast

lemma live_pause:
  assumes "live_ok cons pc calls" "waits_ok b cons pp pr"
  shows "live_ok cons pc (calls @ [HPause (jm_values pp)])"
proof (rule live_calls [OF assms(1)])
  fix l assume "told l (calls @ [HPause (jm_values pp)])"
  then show "told l calls \<or> (\<exists>i c. jm_get cons i = Some c \<and> cs_localId c = l)"
    using assms(2) unfolding waits_ok_def told_append by (metis jm_values_iff)
qed

lemma live_quiet: "live_ok cons pc calls \<Longrightarrow> live_ok cons pc (calls @ [HResume ls])" "live_ok cons pc calls \<Longrightarrow> live_ok cons pc (calls @ [HReceive os])"
  by (erule live_calls, simp)+

lemma core_ok_begin:
  assumes "core_ok s"
  shows "core_ok (begin_task i t s)"
proof -
  have ok: "cons_ok (tr_consumers s) (tr_pendingPause s) (tr_pendingResume s) (tr_calls s)"
    "live_ok (tr_consumers s) (tr_pendingClose s) (tr_calls s)" "waits_ok True (tr_consumers s) (tr_pendingPause s) (tr_pendingResume s)"
    using assms by (simp_all add: core_ok_def cons_ok_def)
  have "cons_ok (tr_consumers s) (tr_pendingPause s) (tr_pendingResume s) (tr_calls s @ [HReceive os])" for os
    by (rule quiet_call [OF ok(1)]) simp
  with ok flush_pause [OF ok(1)] flush_resume [OF ok(1)] flush_stop [OF ok(1,2)] live_pause [OF ok(2,3)] live_quiet [OF ok(2)]
  show ?thesis by (cases t) (auto simp: core_ok_def begin_task_def)
qed

lemma on_effects_core: "core_ok s \<Longrightarrow> core_ok (on_effects es s)"
proof (induction es s rule: on_effects.induct)
  case (2 i t es s)
  then show ?case by (simp add: core_ok_begin)
qed (simp_all add: core_ok_def)

lemma on_effects_closed [simp]: "tr_closed (on_effects es s) = tr_closed s"
  by (induction es s rule: on_effects.induct) auto

lemma push_task_core: "core_ok s \<Longrightarrow> core_ok (push_task t s)"
  by (cases "aq_push t (tr_awaitQueue s)") (auto simp: push_task_def core_ok_def intro!: on_effects_core [unfolded core_ok_def])

lemma finish_task_core: "core_ok s \<Longrightarrow> core_ok (finish_task i s)"
  by (cases "aq_resolve i (tr_awaitQueue s)") (auto simp: finish_task_def core_ok_def intro!: on_effects_core [unfolded core_ok_def])

lemma start_work_core: "core_ok s \<Longrightarrow> core_ok (start_work t s)"
  unfolding start_work_def by (rule push_task_core) (simp add: core_ok_def)

lemma closed_frame [simp]:
  "tr_closed (push_task t s) = tr_closed s" "tr_closed (finish_task i s) = tr_closed s" "tr_closed (start_work t s) = tr_closed s"
  by (simp_all add: push_task_def finish_task_def start_work_def split: prod.split)

lemma then_micro_core: "core_ok s \<Longrightarrow> core_ok (run_then t s)" "core_ok s \<Longrightarrow> core_ok (run_micro m s)"
proof -
  assume ok: "core_ok s"
  then have "core_ok (set_flag t False s)" by (simp add: core_ok_def)
  with ok show "core_ok (run_then t s)" by (simp add: run_then_eq start_work_core)
  show "core_ok (run_micro m s)" using ok by (auto simp: run_micro_eq start_work_core split: micro.split)
qed

text \<open>The operations of one consumer.\<close>

lemma jm_wf_ops: "jm_wf m \<Longrightarrow> jm_wf (jm_set k v m)" "jm_wf m \<Longrightarrow> jm_wf (jm_delete k m)"
  by (simp_all add: jm.wf_put jm.wf_remove)

lemma cons_ok_toggle:
  assumes ok: "cons_ok cons pp pr calls" and c: "jm_get cons i = Some c"
    and c': "cs_id c' = i" "cs_localId c' = cs_localId c" "\<not> cs_closed c'"
  shows "cs_paused c' \<Longrightarrow> cons_ok (jm_set i c' cons) (jm_set i (cs_localId c) pp) (jm_delete i pr) calls"
    and "\<not> cs_paused c' \<Longrightarrow> cons_ok (jm_set i c' cons) (jm_delete i pp) (jm_set i (cs_localId c) pr) calls"
proof -
  have ids: "ids_ok (jm_set i c' cons)"
    using ok c c' unfolding cons_ok_def ids_ok_def jm.get_put by (metis option.inject)
  show "cons_ok (jm_set i c' cons) (jm_set i (cs_localId c) pp) (jm_delete i pr) calls" if "cs_paused c'"
    using ok ids c c' that unfolding cons_ok_def waits_ok_def told_ok_def
    by (auto simp: jm.get_put jm.get_remove jm_wf_ops)
  show "cons_ok (jm_set i c' cons) (jm_delete i pp) (jm_set i (cs_localId c) pr) calls" if "\<not> cs_paused c'"
    using ok ids c c' that unfolding cons_ok_def waits_ok_def told_ok_def
    by (auto simp: jm.get_put jm.get_remove jm_wf_ops)
qed

lemma cons_ok_remove:
  assumes "cons_ok cons pp pr calls"
  shows "cons_ok (jm_delete i cons) (jm_delete i pp) (jm_delete i pr) calls"
  using assms unfolding cons_ok_def ids_ok_def waits_ok_def told_ok_def
  by (auto simp: jm.get_remove jm_wf_ops)

lemma cons_ok_add:
  assumes ok: "cons_ok cons pp pr calls" and new: "jm_get cons i = None" "cs_id c = i" "\<not> cs_closed c" "\<not> cs_paused c"
    and fresh: "\<And>j d. jm_get cons j = Some d \<Longrightarrow> cs_localId d \<noteq> cs_localId c" "\<not> told (cs_localId c) calls"
  shows "cons_ok (jm_set i c cons) pp pr calls"
proof -
  have "ids_ok (jm_set i c cons)"
    using ok new fresh unfolding cons_ok_def ids_ok_def jm.get_put by (metis option.inject)
  moreover have "waits_ok b (jm_set i c cons) m m'" if "waits_ok b cons m m'" for b m m'
    using that new unfolding waits_ok_def jm.get_put by (metis option.distinct(1))
  moreover have "told_ok (jm_set i c cons) pp pr calls"
    using ok new fresh by (auto simp: cons_ok_def told_ok_def jm.get_put)
  ultimately show ?thesis using ok by (simp add: cons_ok_def)
qed

lemma live_okI:
  assumes "\<And>j d. jm_get cons j = Some d \<Longrightarrow> jm_get pc j = None \<and> cs_localId d \<notin> set (jm_values pc)"
    and "\<And>l. told l calls \<Longrightarrow> l \<notin> set (jm_values pc) \<Longrightarrow> \<exists>j d. jm_get cons j = Some d \<and> cs_localId d = l"
  shows "live_ok cons pc calls"
  using assms unfolding live_ok_def by blast

lemma live_told: "live_ok cons pc calls \<Longrightarrow> told l calls \<Longrightarrow> l \<notin> set (jm_values pc) \<Longrightarrow> \<exists>j d. jm_get cons j = Some d \<and> cs_localId d = l"
  unfolding live_ok_def by blast

lemma live_ok_update:
  assumes "live_ok cons pc calls" "jm_get cons i = Some c" "cs_localId c' = cs_localId c"
  shows "live_ok (jm_set i c' cons) pc calls"
proof -
  have "\<exists>j d. jm_get (jm_set i c' cons) j = Some d \<and> cs_localId d = l" if "\<exists>j d. jm_get cons j = Some d \<and> cs_localId d = l" for l
    using that assms(2,3) unfolding jm.get_put by (metis option.inject)
  moreover have "jm_get pc j = None \<and> cs_localId d \<notin> set (jm_values pc)" if "jm_get (jm_set i c' cons) j = Some d" for j d
    using that assms unfolding live_ok_def jm.get_put by (metis option.inject)
  ultimately show ?thesis using assms(1) unfolding live_ok_def by blast
qed

lemma live_ok_close:
  assumes live: "live_ok cons pc calls" and ids: "ids_ok cons" and c: "jm_get cons i = Some c"
  shows "live_ok (jm_delete i cons) (jm_set i (cs_localId c) pc) calls"
proof -
  have "jm_get pc i = None" using live c by (simp add: live_ok_def)
  then have "i \<notin> set (jm_keys pc)" by (simp add: jm_get_def jm_keys_def map_of_eq_None_iff)
  then have v: "jm_values (jm_set i (cs_localId c) pc) = jm_values pc @ [cs_localId c]"
    by (simp add: jm_set_new jm_values_def)
  have other: "cs_localId d \<noteq> cs_localId c" if "jm_get cons j = Some d" "j \<noteq> i" for j d
    using ids c that unfolding ids_ok_def by metis
  show ?thesis
  proof (rule live_okI)
    fix l assume "told l calls" "l \<notin> set (jm_values (jm_set i (cs_localId c) pc))"
    then have "told l calls" "l \<notin> set (jm_values pc)" and ne: "l \<noteq> cs_localId c" by (simp_all add: v)
    with live_told [OF live] obtain j d where "jm_get cons j = Some d" "cs_localId d = l" by blast
    with c ne show "\<exists>j d. jm_get (jm_delete i cons) j = Some d \<and> cs_localId d = l"
      by (intro exI [of _ j] exI [of _ d]) (auto simp: jm.get_remove)
  next
    fix j d assume "jm_get (jm_delete i cons) j = Some d"
    then have "jm_get cons j = Some d" "j \<noteq> i" by (auto simp: jm.get_remove split: if_splits)
    with live other show "jm_get (jm_set i (cs_localId c) pc) j = None \<and> cs_localId d \<notin> set (jm_values (jm_set i (cs_localId c) pc))"
      by (simp add: v jm.get_put live_ok_def)
  qed
qed

lemma live_ok_add:
  assumes "live_ok cons pc calls" "jm_get cons i = None" "jm_get pc i = None" "cs_localId c \<notin> set (jm_values pc)"
  shows "live_ok (jm_set i c cons) pc calls"
proof (rule live_okI)
  fix l assume "told l calls" "l \<notin> set (jm_values pc)"
  with live_told [OF assms(1)] obtain j d where "jm_get cons j = Some d" "cs_localId d = l" by blast
  with assms(2) show "\<exists>j d. jm_get (jm_set i c cons) j = Some d \<and> cs_localId d = l"
    by (intro exI [of _ j] exI [of _ d]) (auto simp: jm.get_put)
qed (use assms in \<open>auto simp: live_ok_def jm.get_put split: if_splits\<close>)

lemma cons_ok_cong: "jm_get cons' = jm_get cons \<Longrightarrow> cons_ok cons' pp pr calls = cons_ok cons pp pr calls"
  by (simp add: cons_ok_def ids_ok_def waits_ok_def told_ok_def)

lemma live_ok_cong: "jm_get cons' = jm_get cons \<Longrightarrow> live_ok cons' pc calls = live_ok cons pc calls"
  by (simp add: live_ok_def)

lemma consumer_step_core:
  assumes ok: "core_ok s" and opn: "\<not> tr_closed s"
  shows "core_ok (on_consumer cs_close i s)" "core_ok (on_consumer cs_pause i s)" "core_ok (on_consumer cs_resume i s)"
proof -
  have same: "jm_get (jm_set i c (tr_consumers s)) = jm_get (tr_consumers s)" if "jm_get (tr_consumers s) i = Some c" for c
    using that by (auto simp: jm.get_put)
  have c: "cs_id c = i \<and> \<not> cs_closed c" if "jm_get (tr_consumers s) i = Some c" for c
    using ok that by (simp add: core_ok_def cons_ok_def ids_ok_def)
  have cons: "cons_ok (tr_consumers s) (tr_pendingPause s) (tr_pendingResume s) (tr_calls s)"
    and live: "live_ok (tr_consumers s) (tr_pendingClose s) (tr_calls s)" and ids: "ids_ok (tr_consumers s)"
    using ok by (simp_all add: core_ok_def cons_ok_def)
  note toggle = cons_ok_toggle [OF cons]
  show "core_ok (on_consumer cs_pause i s)"
  proof (cases "jm_get (tr_consumers s) i")
    case (Some d)
    with toggle(1) [OF Some, of "fst (cs_pause d)"] live_ok_update [OF live Some, of "fst (cs_pause d)"]
      c [OF Some] cons_ok_cong [OF same [OF Some]] live_ok_cong [OF same [OF Some]] ok show ?thesis
      by (auto simp: on_consumer_def on_signal_def core_ok_def consumer_defs)
  qed (use ok in \<open>simp add: on_consumer_def\<close>)
  show "core_ok (on_consumer cs_resume i s)"
  proof (cases "jm_get (tr_consumers s) i")
    case (Some d)
    with toggle(2) [OF Some, of "fst (cs_resume d)"] live_ok_update [OF live Some, of "fst (cs_resume d)"]
      c [OF Some] cons_ok_cong [OF same [OF Some]] live_ok_cong [OF same [OF Some]] ok show ?thesis
      by (auto simp: on_consumer_def on_signal_def core_ok_def consumer_defs)
  qed (use ok in \<open>simp add: on_consumer_def\<close>)
  show "core_ok (on_consumer cs_close i s)"
  proof (cases "jm_get (tr_consumers s) i")
    case (Some d)
    have del: "jm_get (jm_delete i (tr_consumers s)) = jm_get (jm_delete i (jm_set i c' (tr_consumers s)))" for c'
      by (simp add: fun_eq_iff jm.get_put jm.get_remove)
    have "core_ok (s\<lparr>tr_consumers := jm_delete i (jm_set i c' (tr_consumers s)), tr_pendingPause := jm_delete i (tr_pendingPause s),
        tr_pendingResume := jm_delete i (tr_pendingResume s), tr_gone := g, tr_pendingClose := jm_set i (cs_localId d) (tr_pendingClose s)\<rparr>)" for c' g
      using cons_ok_remove [OF cons, of i] live_ok_close [OF live ids Some] cons_ok_cong [OF del] live_ok_cong [OF del]
      by (simp add: core_ok_def)
    with Some c [OF Some] opn show ?thesis
      by (simp add: on_consumer_def on_signal_def cs_close_def cs_emit_def cs_destroyTrack_def Let_def start_work_simps start_work_core)
  qed (use ok in \<open>simp add: on_consumer_def\<close>)
qed

text \<open>Creation.\<close>

definition results_fresh :: "receive_result list \<Rightarrow> (nat \<times> consume_request) list \<Rightarrow> transport \<Rightarrow> bool" where
  "results_fresh rs ts s \<longleftrightarrow>
     distinct (map rr_localId rs) \<and> (\<forall>r \<in> set rs. mt_enabled (rr_track r)) \<and>
     distinct (map (cr_id \<circ> snd) ts) \<and> (\<forall>t \<in> set ts. jm_get (tr_consumers s) (cr_id (snd t)) = None) \<and>
     (\<forall>t \<in> set ts. jm_get (tr_pendingClose s) (cr_id (snd t)) = None) \<and>
     (\<forall>r \<in> set rs. rr_localId r \<notin> set (jm_values (tr_pendingClose s)) \<and>
       (\<forall>j d. jm_get (tr_consumers s) j = Some d \<longrightarrow> cs_localId d \<noteq> rr_localId r))"

lemma create_consumer_core:
  assumes "core_ok s" "results_fresh (r # rs) (t # ts) s" "create_consumer t r s = (s', c)"
  shows "core_ok s' \<and> results_fresh rs ts s'"
proof -
  define i where "i = cr_id (snd t)"
  have c: "c = new_Consumer i (rr_localId r) (cr_producerId (snd t)) (rr_track r) (cr_rtpParameters (snd t))"
    and s': "tr_consumers s' = jm_set i c (tr_consumers s)" "tr_calls s' = tr_calls s"
      "tr_pendingPause s' = tr_pendingPause s" "tr_pendingResume s' = tr_pendingResume s" "tr_pendingClose s' = tr_pendingClose s"
    using assms(3) by (auto simp: create_consumer_def settle_promise_def new_Consumer_def cs_handleTrack_def i_def Let_def split: prod.splits if_splits)
  have f: "cs_id c = i" "cs_localId c = rr_localId r" "\<not> cs_closed c" "\<not> cs_paused c"
    using assms(2) by (simp_all add: c new_Consumer_def cs_handleTrack_def results_fresh_def)
  have live: "live_ok (tr_consumers s) (tr_pendingClose s) (tr_calls s)" using assms(1) by (simp add: core_ok_def)
  have new: "jm_get (tr_consumers s) i = None" "jm_get (tr_pendingClose s) i = None" "cs_localId c \<notin> set (jm_values (tr_pendingClose s))"
      "\<And>j d. jm_get (tr_consumers s) j = Some d \<Longrightarrow> cs_localId d \<noteq> cs_localId c"
    using assms(2) f(2) by (auto simp: results_fresh_def i_def)
  then have "\<not> told (cs_localId c) (tr_calls s)" using live unfolding live_ok_def by metis
  then have "core_ok s'"
    unfolding core_ok_def s'
    by (intro conjI cons_ok_add live_ok_add [OF live]) (use assms(1) f new in \<open>auto simp: core_ok_def\<close>)
  moreover have "results_fresh rs ts s'"
    using assms(2) f unfolding results_fresh_def s' by (auto simp: jm.get_put i_def image_iff simp del: split_paired_All split: if_splits)
  ultimately show ?thesis by blast
qed

lemma create_loop_core:
  "core_ok s \<Longrightarrow> results_fresh rs ts s \<Longrightarrow> create_loop ts rs v s = (s', b, v') \<Longrightarrow> core_ok s'"
proof (induction ts rs v s rule: create_loop.induct)
  case (3 t ts r rs v s)
  obtain s1 c where c: "create_consumer t r s = (s1, c)" by (cases "create_consumer t r s")
  with "3.IH" [OF c [symmetric]] "3.prems" create_consumer_core [OF "3.prems"(1,2) c] show ?case by simp
qed auto

lemma fresh_results:
  assumes "fresh_answer (Receiving ts) (Inr rs) s"
  shows "results_fresh rs ts s"
proof -
  have "jm_get (tr_consumers s) j = Some d \<Longrightarrow> cs_localId d \<in> set (map cs_localId (jm_values (tr_consumers s)))" for j d
    by (force simp: jm_get_def jm_values_def dest: map_of_SomeD)
  then have "\<forall>j d. jm_get (tr_consumers s) j = Some d \<longrightarrow> cs_localId d \<noteq> l" if "l \<notin> set (map cs_localId (jm_values (tr_consumers s)))" for l
    using that by metis
  then show ?thesis
    using assms unfolding fresh_answer_def results_fresh_def list_all_iff by (simp add: jm_get_gone)
qed

lemma reject_tasks_core: "core_ok s \<Longrightarrow> core_ok (reject_tasks ts e s)"
proof -
  have "tr_consumers (reject_tasks ts e s) = tr_consumers s"
    unfolding reject_tasks_def by (induction ts arbitrary: s) (simp_all add: settle_promise_def)
  then show "core_ok s \<Longrightarrow> core_ok (reject_tasks ts e s)"
    using same_work_sel [OF same_work_reject [of s ts e]] by (simp add: core_ok_def)
qed

lemma continue_task_core:
  assumes ok: "core_ok s" and fresh: "fresh_answer st a s"
  shows "core_ok (continue_task i st a s)"
proof (cases st)
  case (Receiving ts)
  define res where "res = (case a of Inl e \<Rightarrow> (reject_tasks ts e s, None)
      | Inr results \<Rightarrow> (case create_loop ts results None s of (s', threw, video) \<Rightarrow>
          ((if threw then reject_tasks ts (TypeError ''Cannot read properties of undefined'') s' else s'), video)))"
  obtain s1 video where r: "res = (s1, video)" by (cases res)
  have "core_ok s1"
  proof (cases a)
    case (Inl e)
    with r ok show ?thesis by (auto simp: res_def reject_tasks_core)
  next
    case (Inr rs)
    obtain s' b v where l: "create_loop ts rs None s = (s', b, v)" by (cases "create_loop ts rs None s")
    have "core_ok s'"
      by (rule create_loop_core [OF ok fresh_results l]) (use fresh Receiving Inr in simp)
    with r Inr l show ?thesis by (auto simp: res_def reject_tasks_core split: if_splits)
  qed
  then have "core_ok (finish_task i s1)" "core_ok (set_stage i Probating (s1\<lparr>tr_calls := tr_calls s1 @ [HReceive xs]\<rparr>))" for xs
    by (simp_all add: finish_task_core) (simp add: core_ok_def set_stage_def cons_ok_def told_ok_def live_quiet)
  then show ?thesis
    unfolding continue_task_def Receiving stage.case res_def [symmetric] r by (auto split: option.split sum.split)
next
  case Probating
  have "core_ok (finish_task i (s\<lparr>tr_probatorConsumerCreated := True\<rparr>))"
    by (rule finish_task_core) (use ok in \<open>simp add: core_ok_def\<close>)
  with Probating ok show ?thesis by (simp add: continue_task_def finish_task_core split: sum.split)
qed (use ok in \<open>simp_all add: continue_task_def finish_task_core\<close>)

text \<open>A closed transport stays closed; the others keep their consumers in step with the handler.\<close>

lemma closed_on_signal [simp]: "tr_closed (on_signal c sig s) = tr_closed s"
  by (simp add: on_signal_def Let_def start_work_simps split: consumer_signal.split)

lemma closed_on_consumer [simp]: "tr_closed (on_consumer f i s) = tr_closed s"
proof -
  have "tr_closed (foldl (\<lambda>s sig. on_signal c sig s) r sigs) = tr_closed r" for c r sigs
    by (induction sigs arbitrary: r) simp_all
  then show ?thesis by (simp add: on_consumer_def split: option.split prod.split)
qed

lemma closed_continue [simp]: "tr_closed (continue_task i st a s) = tr_closed s"
  by (auto simp: continue_task_def set_stage_def same_work_sel(3) [OF same_work_reject]
      dest: same_work_loop [THEN same_work_sel(3)] split: stage.split sum.split prod.split option.split)

lemma closed_run [simp]: "tr_closed (run_micro m s) = tr_closed s" "tr_closed (run_then t s) = tr_closed s"
  by (simp_all add: run_micro_eq run_then_eq split: micro.split)

lemma closed_step: "tr_closed s \<Longrightarrow> tr_closed (tr_step s e)"
proof (cases e)
  case (Consume cid pid kind params appData)
  then show "tr_closed s \<Longrightarrow> ?thesis" by (simp add: tr_consume_def)
qed (simp_all add: tr_close_def tr_restartIce_def tr_updateIceServers_def tr_onConnectionState_def tr_onIceGatheringState_def
    split: prod.split)

definition told_inv :: "transport \<Rightarrow> bool" where
  "told_inv s \<longleftrightarrow> tr_closed s \<or> core_ok s"

lemma tr_close_closed [simp]: "tr_closed (tr_close s)"
  by (simp add: tr_close_def Let_def split: prod.split)

interpretation told: fitting_invariant tr_step told_inv answer_fits
proof
  fix s e assume inv: "told_inv s" and fits: "answer_fits s e"
  show "told_inv (tr_step s e)"
  proof (cases "tr_closed s")
    case True
    then show ?thesis by (simp add: told_inv_def closed_step)
  next
    case False
    with inv have ok: "core_ok s" by (simp add: told_inv_def)
    have "core_ok (tr_step s e)" if "e \<noteq> CloseTransport"
    proof (cases e)
      case (Consume cid pid kind params appData)
      show ?thesis
        unfolding Consume tr_step.simps
        by (rule tr_consume_cases [where P = core_ok]) (use ok in \<open>simp_all add: core_ok_def\<close>)
    next
      case (Micro n)
      have "core_ok (s\<lparr>tr_micro := drop_nth n (tr_micro s)\<rparr>)" using ok by (simp add: core_ok_def)
      with Micro ok show ?thesis by (simp add: then_micro_core)
    next
      case (Then n)
      have "core_ok (s\<lparr>tr_then := drop_nth n (tr_then s)\<rparr>)" using ok by (simp add: core_ok_def)
      with Then ok show ?thesis by (simp add: then_micro_core)
    next
      case (Back n a)
      have "core_ok (s\<lparr>tr_running := drop_nth n (tr_running s)\<rparr>)" using ok by (simp add: core_ok_def)
      moreover have "fresh_answer st a (s\<lparr>tr_running := r\<rparr>) = fresh_answer st a s" for st r
        by (simp add: fresh_answer_def split: stage.split sum.split)
      ultimately show ?thesis using Back ok fits by (auto simp: continue_task_core split: prod.split)
    next
      case (RestartIce v)
      with ok False show ?thesis by (simp add: tr_restartIce_def push_task_core)
    next
      case (UpdateIceServers v)
      with ok False show ?thesis by (simp add: tr_updateIceServers_def push_task_core split: jsval.split)
    next
      case (ConnectionState st)
      with ok show ?thesis by (simp add: tr_onConnectionState_def core_ok_def)
    next
      case (IceGatheringState st)
      with ok show ?thesis by (simp add: tr_onIceGatheringState_def core_ok_def)
    qed (use consumer_step_core [OF ok False] that in simp_all)
    then show ?thesis by (cases "e = CloseTransport") (auto simp: told_inv_def)
  qed
qed

lemma new_Transport_told: "told_inv (new_Transport d e n)"
  by (simp add: told_inv_def core_ok_def cons_ok_def ids_ok_def waits_ok_def told_ok_def live_ok_def new_Transport_def)

section \<open>Open transports at rest\<close>

text \<open>C5: However the requests, the microtasks, the callbacks and the answers of the handler interleave, an open
  transport with nothing left to run has no request of any kind waiting and an empty queue, and the handler was
  last told of each consumer exactly the state it is in: paused or not. This holds for every run in which the
  handler answers a batch with tracks that are enabled and with local ids that differ and are neither that of a
  consumer nor waiting to be stopped, and in which the server gives the consumers ids of which the same holds; a
  handler may fail, and give the local id of a consumer that was stopped to a new one. The transport
  does not check it, and the handlers can break it: see \<open>batch_shares_section\<close> and \<open>stopped_id_collides\<close>.\<close>

theorem consumers_in_step:
  assumes run: "s = foldl tr_step (new_Transport dir e n) ops" and "\<not> tr_closed s" "quiescent s"
    and fits: "all_fit tr_step answer_fits (new_Transport dir e n) ops"
  shows "tr_pendingConsumerTasks s = [] \<and> tr_pendingPause s = [] \<and> tr_pendingResume s = [] \<and> tr_pendingClose s = [] \<and>
    aq_size (tr_awaitQueue s) = 0 \<and>
    (jm_get (tr_consumers s) i = Some c \<longrightarrow> told_paused (cs_localId c) False (tr_calls s) = cs_paused c)"
proof -
  have w: "work_inv s" unfolding run by (rule work.run_inv [OF new_Transport_work])
  have "told_inv s" unfolding run by (rule told.fitting_run [OF new_Transport_told fits])
  with assms have core: "core_ok s" by (simp add: told_inv_def)
  note idle = quiescent_idle [OF w assms(3,2)]
  have p: "tr_pendingConsumerTasks s = []" "tr_pendingPause s = []" "tr_pendingResume s = []" "tr_pendingClose s = []"
    using idle(1) [of CreateTask] idle(1) [of PauseTask] idle(1) [of ResumeTask] idle(1) [of CloseTask] by simp_all
  have "aq_size (tr_awaitQueue s) = 0"
    using idle(3) w by (simp add: aq_size_def contents_def)
  with p core show ?thesis by (simp add: core_ok_def cons_ok_def told_ok_def)
qed

definition opus_extended :: extended_capabilities where
  "opus_extended = \<lparr>xr_codecs = [\<lparr>xc_mimeType = ''audio/opus'', xc_kind = KAudio, xc_clockRate = Fin 48000, xc_channels = Some (Fin 2),
     xc_localPayloadType = Some (Fin 111), xc_localRtxPayloadType = None, xc_remotePayloadType = Some (Fin 100),
     xc_remoteRtxPayloadType = None, xc_localParameters = [], xc_remoteParameters = [], xc_rtcpFeedback = []\<rparr>],
     xr_headerExtensions = []\<rparr>"

definition opus_parameters :: jsval where
  "opus_parameters = VObj [(''codecs'', VArr [VObj [(''mimeType'', VStr ''audio/opus''), (''payloadType'', VNum (Fin 100)),
     (''clockRate'', VNum (Fin 48000)), (''channels'', VNum (Fin 2))]])]"

definition opus_track :: media_track where
  "opus_track = \<lparr>mt_id = ''t'', mt_kind = KAudio, mt_enabled = True, mt_ended = False, mt_listened = False\<rparr>"

definition opus_consume :: "string \<Rightarrow> tr_op" where
  "opus_consume i = Consume (VStr i) (VStr ''p'') (VStr ''audio'') opus_parameters VUndef"

text \<open>Paused and resumed while the pause is still with the handler, then paused again.\<close>

definition pause_run :: "tr_op list" where
  "pause_run = [opus_consume ''c'', Micro 0, Back 0 (Inr [\<lparr>rr_localId = ''0'', rr_track = opus_track\<rparr>]), Then 0,
     PauseConsumer ''c'', Micro 0, ResumeConsumer ''c'', PauseConsumer ''c'', Back 0 (Inr []), Then 0, Micro 1, Micro 0,
     Back 0 (Inr []), Back 0 (Inr []), Then 1, Then 0]"

theorem consumers_in_step_witness:
  "told_paused ''0'' False (tr_calls (foldl tr_step (new_Transport RecvDir opus_extended 1) pause_run))"
proof -
  let ?s = "foldl tr_step (new_Transport RecvDir opus_extended 1) pause_run"
  have "\<not> tr_closed ?s \<and> quiescent ?s \<and> map_option cs_localId (jm_get (tr_consumers ?s) ''c'') = Some ''0'' \<and>
      map_option cs_paused (jm_get (tr_consumers ?s) ''c'') = Some True \<and>
      all_fit tr_step answer_fits (new_Transport RecvDir opus_extended 1) pause_run"
    by code_simp
  with consumers_in_step [of ?s RecvDir opus_extended 1 pause_run] show ?thesis by fastforce
qed

section \<open>Closing a transport\<close>

text \<open>Once a closed transport has no task and no callback of a task left, its promises are never settled any more.\<close>

definition drained :: "transport \<Rightarrow> bool" where
  "drained s \<longleftrightarrow> tr_closed s \<and> tr_then s = [] \<and> tr_running s = []"

lemma drained_on_consumer:
  assumes "drained s"
  shows "drained (on_consumer f i s) \<and> tr_settled (on_consumer f i s) = tr_settled s"
proof -
  have sig: "drained (on_signal c x r) \<and> tr_settled (on_signal c x r) = tr_settled r" if "drained r" for c x r
    using that by (cases x) (simp_all add: on_signal_def drained_def Let_def)
  have "drained (foldl (\<lambda>s x. on_signal c x s) r xs) \<and> tr_settled (foldl (\<lambda>s x. on_signal c x s) r xs) = tr_settled r"
    if "drained r" for c r xs
    using that by (induction xs arbitrary: r) (simp_all add: sig)
  moreover have "drained (s\<lparr>tr_consumers := m\<rparr>)" for m using assms by (simp add: drained_def)
  ultimately show ?thesis using assms by (simp add: on_consumer_def split: option.split prod.split)
qed

lemma drained_step: "drained s \<Longrightarrow> drained (tr_step s e) \<and> tr_settled (tr_step s e) = tr_settled s"
  by (cases e) (simp_all add: drained_on_consumer, auto simp: drained_def tr_consume_def run_micro_def tr_restartIce_def
      tr_updateIceServers_def tr_onConnectionState_def tr_onIceGatheringState_def tr_close_def)

lemma drained_run: "drained s \<Longrightarrow> tr_settled (foldl tr_step s ops) = tr_settled s"
  using drained_step by (induction ops arbitrary: s) simp_all

text \<open>So \<open>close\<close> before the microtask of \<open>consume\<close> leaves its promise pending for good.\<close>

lemma consume_left_pending:
  "tr_nextPromise (tr_step (new_Transport RecvDir opus_extended 1) (opus_consume ''c'')) = 1"
  "tr_settled (foldl tr_step (foldl tr_step (new_Transport RecvDir opus_extended 1) [opus_consume ''c'', CloseTransport, Micro 0]) ops) = []"
proof -
  show "tr_nextPromise (tr_step (new_Transport RecvDir opus_extended 1) (opus_consume ''c'')) = 1" by code_simp
  let ?s = "foldl tr_step (new_Transport RecvDir opus_extended 1) [opus_consume ''c'', CloseTransport, Micro 0]"
  have d: "drained ?s" and z: "tr_settled ?s = []" by code_simp+
  show "tr_settled (foldl tr_step ?s ops) = []" by (rule trans [OF drained_run [OF d] z])
qed

text \<open>A task that was with the handler goes on after \<open>close\<close>: the closed transport then has an open consumer.\<close>

definition close_run :: "tr_op list" where
  "close_run = [opus_consume ''c'', Micro 0, CloseTransport, Back 0 (Inr [\<lparr>rr_localId = ''0'', rr_track = opus_track\<rparr>])]"

lemma consumer_after_close:
  "tr_closed (foldl tr_step (new_Transport RecvDir opus_extended 1) close_run) \<and>
   map_option cs_closed (jm_get (tr_consumers (foldl tr_step (new_Transport RecvDir opus_extended 1) close_run)) ''c'') = Some False"
  by code_simp

end
