(* ===== verification/DataChannels.thy ===== *)
theory DataChannels
  imports OrtcValidate
begin

text \<open>
  The ends of a data channel, \<open>DataProducer.js\<close> and \<open>DataConsumer.js\<close>. The channel is an object of the host:
  \<open>close\<close> and \<open>send\<close> reach it, and its events come in through the listeners. An operation answers, beside
  the object and the channel, whether it raised \<open>@close\<close> for the transport.
\<close>

section \<open>Channels and their ends\<close>

record data_channel =
  ch_closed :: bool
  ch_sent :: "jsval list"

datatype channel_event = ChOpen | ChError jsval | ChClose | ChMessage jsval | ChBufferedAmountLow

datatype data_event = DvOpen | DvError jsval | DvClose | DvTransportClose | DvObserverClose | DvMessage jsval | DvBufferedAmountLow

record data_producer =
  dp_id :: string
  dp_sctpStreamParameters :: jsval
  dp_closed :: bool
  dp_events :: "data_event list"

record data_consumer =
  dcs_id :: string
  dcs_dataProducerId :: string
  dcs_sctpStreamParameters :: jsval
  dcs_closed :: bool
  dcs_events :: "data_event list"

definition channel_close :: "data_channel \<Rightarrow> data_channel" where
  "channel_close ch = ch\<lparr>ch_closed := True\<rparr>"

definition unknown_error :: "jsval \<Rightarrow> jsval" where
  "unknown_error e = (if truthy e then e else VStr ''unknown DataChannel error'')"

section \<open>DataProducer\<close>

definition new_DataProducer :: "string \<Rightarrow> jsval \<Rightarrow> data_producer" where
  "new_DataProducer i params = \<lparr>dp_id = i, dp_sctpStreamParameters = params, dp_closed = False, dp_events = []\<rparr>"

definition dp_emit :: "data_event list \<Rightarrow> data_producer \<Rightarrow> data_producer" where
  "dp_emit evs p = p\<lparr>dp_events := dp_events p @ evs\<rparr>"

definition dp_close :: "data_producer \<times> data_channel \<Rightarrow> (data_producer \<times> data_channel) \<times> bool" where
  "dp_close = (\<lambda>(p, ch).
     if dp_closed p then ((p, ch), False)
     else ((dp_emit [DvObserverClose] (p\<lparr>dp_closed := True\<rparr>), channel_close ch), True))"

definition dp_transportClosed :: "data_producer \<times> data_channel \<Rightarrow> data_producer \<times> data_channel" where
  "dp_transportClosed = (\<lambda>(p, ch).
     if dp_closed p then (p, ch)
     else (dp_emit [DvTransportClose, DvObserverClose] (p\<lparr>dp_closed := True\<rparr>), channel_close ch))"

text \<open>\<open>send\<close>: whether the channel takes the data is up to the host.\<close>

definition dp_send :: "(data_channel \<Rightarrow> thrown option) \<Rightarrow> jsval \<Rightarrow> data_producer \<times> data_channel \<Rightarrow> (data_producer \<times> data_channel) \<times> thrown option" where
  "dp_send refuses data = (\<lambda>(p, ch).
     if dp_closed p then ((p, ch), Some (ThrownError (InvalidStateError ''closed'')))
     else case refuses ch of
       Some t \<Rightarrow> ((p, ch), Some t)
     | None \<Rightarrow> ((p, ch\<lparr>ch_sent := ch_sent ch @ [data]\<rparr>), None))"

definition dp_handleDataChannel :: "channel_event \<Rightarrow> data_producer \<Rightarrow> data_producer \<times> bool" where
  "dp_handleDataChannel e p =
     (if dp_closed p then (p, False)
      else case e of
        ChOpen \<Rightarrow> (dp_emit [DvOpen] p, False)
      | ChError err \<Rightarrow> (dp_emit [DvError (unknown_error err)] p, False)
      | ChClose \<Rightarrow> (dp_emit [DvClose, DvObserverClose] (p\<lparr>dp_closed := True\<rparr>), True)
      | ChMessage _ \<Rightarrow> (p, False)
      | ChBufferedAmountLow \<Rightarrow> (dp_emit [DvBufferedAmountLow] p, False))"

section \<open>DataConsumer\<close>

definition new_DataConsumer :: "string \<Rightarrow> string \<Rightarrow> jsval \<Rightarrow> data_consumer" where
  "new_DataConsumer i dataProducerId params =
     \<lparr>dcs_id = i, dcs_dataProducerId = dataProducerId, dcs_sctpStreamParameters = params, dcs_closed = False, dcs_events = []\<rparr>"

definition dcs_emit :: "data_event list \<Rightarrow> data_consumer \<Rightarrow> data_consumer" where
  "dcs_emit evs p = p\<lparr>dcs_events := dcs_events p @ evs\<rparr>"

definition dcs_close :: "data_consumer \<times> data_channel \<Rightarrow> (data_consumer \<times> data_channel) \<times> bool" where
  "dcs_close = (\<lambda>(p, ch).
     if dcs_closed p then ((p, ch), False)
     else ((dcs_emit [DvObserverClose] (p\<lparr>dcs_closed := True\<rparr>), channel_close ch), True))"

definition dcs_transportClosed :: "data_consumer \<times> data_channel \<Rightarrow> data_consumer \<times> data_channel" where
  "dcs_transportClosed = (\<lambda>(p, ch).
     if dcs_closed p then (p, ch)
     else (dcs_emit [DvTransportClose, DvObserverClose] (p\<lparr>dcs_closed := True\<rparr>), channel_close ch))"

definition dcs_handleDataChannel :: "channel_event \<Rightarrow> data_consumer \<Rightarrow> data_consumer \<times> bool" where
  "dcs_handleDataChannel e p =
     (if dcs_closed p then (p, False)
      else case e of
        ChOpen \<Rightarrow> (dcs_emit [DvOpen] p, False)
      | ChError err \<Rightarrow> (dcs_emit [DvError (unknown_error err)] p, False)
      | ChClose \<Rightarrow> (dcs_emit [DvClose, DvObserverClose] (p\<lparr>dcs_closed := True\<rparr>), True)
      | ChMessage m \<Rightarrow> (dcs_emit [DvMessage m] p, False)
      | ChBufferedAmountLow \<Rightarrow> (p, False))"

section \<open>Runs\<close>

datatype data_op = DataClose | DataTransportClosed | ChannelEvent channel_event

fun ends_channel :: "data_op \<Rightarrow> bool" where
  "ends_channel (ChannelEvent e) = (e = ChClose)"
| "ends_channel _ = True"

fun consumer_data_step :: "data_consumer \<times> data_channel \<Rightarrow> data_op \<Rightarrow> data_consumer \<times> data_channel" where
  "consumer_data_step w DataClose = fst (dcs_close w)"
| "consumer_data_step w DataTransportClosed = dcs_transportClosed w"
| "consumer_data_step (p, ch) (ChannelEvent e) = (fst (dcs_handleDataChannel e p), ch)"

fun message_in :: "data_op \<Rightarrow> jsval list" where
  "message_in (ChannelEvent (ChMessage m)) = [m]"
| "message_in _ = []"

fun message_out :: "data_event \<Rightarrow> jsval list" where
  "message_out (DvMessage m) = [m]"
| "message_out _ = []"

lemmas data_consumer_defs = dcs_close_def dcs_transportClosed_def dcs_handleDataChannel_def dcs_emit_def channel_close_def

lemma consumer_data_closed: "dcs_closed (fst w) \<Longrightarrow> consumer_data_step w op = w"
  by (cases w; cases op) (simp_all add: data_consumer_defs)

lemma consumer_data_closed_run: "dcs_closed (fst w) \<Longrightarrow> foldl consumer_data_step w ops = w"
  by (induction ops) (simp_all add: consumer_data_closed)

lemma consumer_data_open:
  fixes w :: "data_consumer \<times> data_channel" and op :: data_op
  assumes open_w: "\<not> dcs_closed (fst w)"
  defines "w' \<equiv> consumer_data_step w op"
  shows "dcs_closed (fst w') = ends_channel op \<and>
    concat (map message_out (dcs_events (fst w'))) = concat (map message_out (dcs_events (fst w))) @ message_in op \<and>
    count_list (dcs_events (fst w')) DvObserverClose = count_list (dcs_events (fst w)) DvObserverClose + (if ends_channel op then 1 else 0)"
proof -
  obtain p ch where w: "w = (p, ch)" by (cases w)
  show ?thesis
  proof (cases op)
    case (ChannelEvent e)
    with open_w w show ?thesis unfolding w'_def by (cases e) (simp_all add: data_consumer_defs)
  qed (use open_w w in \<open>simp_all add: w'_def data_consumer_defs\<close>)
qed

text \<open>A data consumer hands on exactly the messages that arrive before it ends, in their order, and nothing after
  that; it ends at most once, at the first close of its own, its transport or its channel.\<close>

theorem data_consumer_delivers:
  "case foldl consumer_data_step (new_DataConsumer i pid params, ch) ops of (c, _) \<Rightarrow>
     concat (map message_out (dcs_events c)) = concat (map message_in (takeWhile (\<lambda>op. \<not> ends_channel op) ops)) \<and>
     dcs_closed c = list_ex ends_channel ops \<and>
     count_list (dcs_events c) DvObserverClose = (if list_ex ends_channel ops then 1 else 0)"
proof -
  have "concat (map message_out (dcs_events (fst (foldl consumer_data_step w ops)))) =
      concat (map message_out (dcs_events (fst w))) @ concat (map message_in (takeWhile (\<lambda>op. \<not> ends_channel op) ops)) \<and>
    dcs_closed (fst (foldl consumer_data_step w ops)) = list_ex ends_channel ops \<and>
    count_list (dcs_events (fst (foldl consumer_data_step w ops))) DvObserverClose =
      count_list (dcs_events (fst w)) DvObserverClose + (if list_ex ends_channel ops then 1 else 0)"
    if "\<not> dcs_closed (fst w)" for w
    using that
  proof (induction ops arbitrary: w)
    case (Cons op ops)
    note step = consumer_data_open [OF Cons.prems, of op]
    show ?case
    proof (cases "ends_channel op")
      case True
      moreover from True have "message_in op = []" by (cases op rule: message_in.cases) auto
      ultimately show ?thesis using step by (simp add: consumer_data_closed_run)
    next
      case False
      with step Cons.IH [of "consumer_data_step w op"] show ?thesis by simp
    qed
  qed simp
  from this [of "(new_DataConsumer i pid params, ch)"] show ?thesis
    by (simp add: new_DataConsumer_def case_prod_unfold)
qed

end
