(* ===== verification/SendTransport.thy ===== *)
theory SendTransport
  imports Transport DataChannels "HOL-Library.Multiset"
begin

text \<open>
  The sending side of \<open>Transport.js\<close>: \<open>produce\<close>, \<open>produceData\<close>, the events of producers and \<open>close\<close>. Every request
  to the handler is a task of the queue; \<open>produce\<close> waits twice, for the handler and for the application,
  which asks the server for an id. Callbacks on the outcome of a task wait in a list and run in any order.

  Producers are objects: they live in \<open>sx_heap\<close> and the map of the transport holds references, since a
  producer that has left the map can still have a request of its own under way. A promise is known by
  the number of its task. The handler and the application are outside: what the handler is asked is in
  \<open>sx_calls\<close>, and the answers are inputs. If the application never answers, the task never goes on.
\<close>

section \<open>State\<close>

record produce_request =
  pq_track :: track_ref
  pq_encodings :: jsval
  pq_stopTracks :: bool
  pq_disableTrackOnPause :: bool
  pq_zeroRtpOnPause :: bool

record data_request =
  dq_ordered :: bool
  dq_maxPacketLifeTime :: jsval
  dq_maxRetransmits :: jsval
  dq_label :: string
  dq_protocol :: string

datatype sender_call =
    CallSend track_ref "jsval option"
  | CallSendData data_request
  | CallStop string
  | CallPause string
  | CallResume string
  | CallReplaceTrack string "track_ref option"
  | CallSetMaxSpatialLayer string number
  | CallSetRtpEncodingParameters string jsval
  | CallRestartIce jsval
  | CallUpdateIceServers jsval
  | CallClose

datatype send_task =
    ProduceTask produce_request
  | ProduceDataTask data_request
  | ProducerTask track_ref sender_call
  | IceTask sender_call

text \<open>Where a started task waits.\<close>

datatype send_stage =
    Throwing js_error
  | Sending produce_request
  | Announcing produce_request string jsval
  | SendingData data_request
  | AnnouncingData data_request nat jsval
  | Waiting

datatype send_answer =
    AFail js_error
  | ASent string jsval
  | AId string
  | AChannel jsval
  | ADone

type_synonym outcome = "js_error + string"

record send_transport =
  sx_closed :: bool
  sx_direction :: transport_direction
  sx_connectionState :: string
  sx_connectListeners :: nat
  sx_produceListeners :: nat
  sx_produceDataListeners :: nat
  sx_canProduceByKind :: "track_kind \<Rightarrow> bool"
  sx_maxSctpMessageSize :: "number option"
  sx_tracks :: track_store
  sx_heap :: "producer list"
  sx_producers :: "(string, nat) jsmap"
  sx_channels :: "data_channel list"
  sx_dataProducers :: "(string, data_producer \<times> nat) jsmap"
  sx_awaitQueue :: "send_task await_queue"
  sx_running :: "(nat \<times> send_stage) list"
  sx_then :: "(nat \<times> send_task \<times> outcome) list"
  sx_settled :: "(nat \<times> send_task \<times> outcome) list"
  sx_calls :: "sender_call list"
  sx_sent :: "string list"

definition new_SendTransport ::
    "(track_kind \<Rightarrow> bool) \<Rightarrow> number option \<Rightarrow> track_store \<Rightarrow> nat \<Rightarrow> nat \<Rightarrow> nat \<Rightarrow> send_transport" where
  "new_SendTransport canProduceByKind maxMessageSize tracks connect produce producedata =
     \<lparr>sx_closed = False, sx_direction = SendDir, sx_connectionState = ''new'', sx_connectListeners = connect,
      sx_produceListeners = produce, sx_produceDataListeners = producedata, sx_canProduceByKind = canProduceByKind,
      sx_maxSctpMessageSize = maxMessageSize, sx_tracks = tracks, sx_heap = [], sx_producers = [], sx_channels = [],
      sx_dataProducers = [], sx_awaitQueue = new_AwaitQueue, sx_running = [], sx_then = [], sx_settled = [],
      sx_calls = [], sx_sent = []\<rparr>"

section \<open>Encodings\<close>

text \<open>\<open>encodings\<close> as \<open>produce\<close> normalises them: only known properties of the right type are kept.\<close>

definition keep_prop :: "(jsval \<Rightarrow> bool) \<Rightarrow> string \<Rightarrow> jsobj \<Rightarrow> jsobj" where
  "keep_prop ok key fs = (if ok (obj_get fs key) then [(key, obj_get fs key)] else [])"

definition normalize_encoding :: "jsval \<Rightarrow> jsval result" where
  "normalize_encoding encoding =
     (case encoding of
        VUndef \<Rightarrow> Inl NULL_ERROR
      | VNull \<Rightarrow> Inl NULL_ERROR
      | _ \<Rightarrow>
        (let fs = (case encoding of VObj fs \<Rightarrow> fs | _ \<Rightarrow> [])
         in Inr (VObj ([(''active'', VBool (obj_get fs ''active'' \<noteq> VBool False))] @
             keep_prop is_bool ''dtx'' fs @ keep_prop is_str ''scalabilityMode'' fs @
             keep_prop is_num ''scaleResolutionDownBy'' fs @ keep_prop is_num ''maxBitrate'' fs @
             keep_prop is_num ''maxFramerate'' fs @ keep_prop is_bool ''adaptivePtime'' fs @
             keep_prop is_str ''priority'' fs @ keep_prop is_str ''networkPriority'' fs))))"

definition normalize_encodings :: "jsval \<Rightarrow> jsval option result" where
  "normalize_encodings encodings =
     (if \<not> truthy encodings then Inr None
      else case encodings of
        VArr [] \<Rightarrow> Inr None
      | VArr es \<Rightarrow> bindr (mapr normalize_encoding es) (\<lambda>ns. Inr (Some (VArr ns)))
      | _ \<Rightarrow> Inl (TypeError ''encodings must be an array''))"

section \<open>Tasks\<close>

definition sx_stage :: "nat \<Rightarrow> send_stage \<Rightarrow> send_transport \<Rightarrow> send_transport" where
  "sx_stage i st s = s\<lparr>sx_running := sx_running s @ [(i, st)]\<rparr>"

definition sx_call :: "sender_call \<Rightarrow> send_transport \<Rightarrow> send_transport" where
  "sx_call c s = s\<lparr>sx_calls := sx_calls s @ [c]\<rparr>"

text \<open>The part of a task before its first \<open>await\<close>.\<close>

definition sx_begin :: "nat \<Rightarrow> send_task \<Rightarrow> send_transport \<Rightarrow> send_transport" where
  "sx_begin i task s =
     (case task of
        ProduceTask r \<Rightarrow>
          (case normalize_encodings (pq_encodings r) of
             Inl e \<Rightarrow> sx_stage i (Throwing e) s
           | Inr encs \<Rightarrow> sx_stage i (Sending r) (sx_call (CallSend (pq_track r) encs) s))
      | ProduceDataTask d \<Rightarrow> sx_stage i (SendingData d) (sx_call (CallSendData d) s)
      | ProducerTask _ c \<Rightarrow> sx_stage i Waiting (sx_call c s)
      | IceTask c \<Rightarrow> sx_stage i Waiting (sx_call c s))"

text \<open>What the queue does: a task is started, or the callbacks on its outcome are due.\<close>

fun sx_effects :: "outcome \<Rightarrow> send_task queue_effect list \<Rightarrow> send_transport \<Rightarrow> send_transport" where
  "sx_effects v [] s = s"
| "sx_effects v (Started i t # es) s = sx_effects v es (sx_begin i t s)"
| "sx_effects v (Resolved i t # es) s = sx_effects v es (s\<lparr>sx_then := sx_then s @ [(i, t, v)]\<rparr>)"
| "sx_effects v (Rejected i t # es) s = sx_effects v es (s\<lparr>sx_then := sx_then s @ [(i, t, v)]\<rparr>)"

definition sx_push :: "send_task \<Rightarrow> send_transport \<Rightarrow> send_transport" where
  "sx_push t s = (case aq_push t (sx_awaitQueue s) of (q, es) \<Rightarrow> sx_effects (Inr []) es (s\<lparr>sx_awaitQueue := q\<rparr>))"

definition sx_settle :: "nat \<Rightarrow> outcome \<Rightarrow> send_transport \<Rightarrow> send_transport" where
  "sx_settle i v s =
     (case (if isl v then aq_reject i else aq_resolve i) (sx_awaitQueue s) of
        (q, es) \<Rightarrow> sx_effects v es (s\<lparr>sx_awaitQueue := q\<rparr>))"

section \<open>Producers of a transport\<close>

definition in_world :: "(unit producer_world \<Rightarrow> unit producer_world) \<Rightarrow> nat \<Rightarrow> send_transport \<Rightarrow> send_transport" where
  "in_world f n s =
     (if n < length (sx_heap s)
      then let w = f \<lparr>pw_producer = sx_heap s ! n, pw_tracks = sx_tracks s, pw_host = ()\<rparr>
        in s\<lparr>sx_heap := (sx_heap s)[n := pw_producer w], sx_tracks := pw_tracks w\<rparr>
      else s)"

definition track_stop :: "track_ref \<Rightarrow> send_transport \<Rightarrow> send_transport" where
  "track_stop t s = s\<lparr>sx_tracks := (sx_tracks s)(t := (sx_tracks s t)\<lparr>mt_ended := True\<rparr>)\<rparr>"

text \<open>The callbacks on the outcome of a task: of \<open>produce\<close>, of the requests of a producer, and of its callers.\<close>

definition sx_callback :: "nat \<times> send_task \<times> outcome \<Rightarrow> send_transport \<Rightarrow> send_transport" where
  "sx_callback x s =
     (case x of (i, task, v) \<Rightarrow>
        let s1 = (case task of
             ProduceTask r \<Rightarrow> if isl v \<and> pq_stopTracks r then track_stop (pq_track r) s else s
           | ProducerTask n (CallReplaceTrack l track) \<Rightarrow> if isl v then s else in_world (replaceTrack_end track) n s
           | ProducerTask n (CallSetMaxSpatialLayer l layer) \<Rightarrow>
               in_world (\<lambda>w. w\<lparr>pw_producer := (pw_producer w)\<lparr>pd_maxSpatialLayer := Some layer\<rparr>\<rparr>) n s
           | _ \<Rightarrow> s)
        in s1\<lparr>sx_settled := sx_settled s1 @ [(i, task, v)]\<rparr>)"

text \<open>A started task goes on with an answer.\<close>

definition create_producer :: "produce_request \<Rightarrow> string \<Rightarrow> jsval \<Rightarrow> string \<Rightarrow> send_transport \<Rightarrow> send_transport" where
  "create_producer r localId rtpParameters pid s =
     (let w = new_Producer \<lparr>poc_id = pid, poc_localId = localId, poc_track = pq_track r, poc_rtpParameters = rtpParameters,
            poc_stopTracks = pq_stopTracks r, poc_disableTrackOnPause = pq_disableTrackOnPause r,
            poc_zeroRtpOnPause = pq_zeroRtpOnPause r\<rparr> (sx_tracks s) ()
      in s\<lparr>sx_heap := sx_heap s @ [pw_producer w], sx_tracks := pw_tracks w,
           sx_producers := jm_set pid (length (sx_heap s)) (sx_producers s)\<rparr>)"

definition sx_continue :: "nat \<Rightarrow> send_stage \<Rightarrow> send_answer \<Rightarrow> send_transport \<Rightarrow> send_transport" where
  "sx_continue i st answer s =
     (case (st, answer) of
        (Throwing e, _) \<Rightarrow> sx_settle i (Inl e) s
      | (Sending r, ASent localId rtpParameters) \<Rightarrow>
          (let s1 = s\<lparr>sx_sent := sx_sent s @ [localId]\<rparr>
           in case validateRtpParameters rtpParameters of
                Inl e \<Rightarrow> sx_settle i (Inl e) (sx_call (CallStop localId) s1)
              | Inr params \<Rightarrow> sx_stage i (Announcing r localId params) s1)
      | (Sending r, AFail e) \<Rightarrow> sx_settle i (Inl e) s
      | (Announcing r localId params, AId pid) \<Rightarrow> sx_settle i (Inr pid) (create_producer r localId params pid s)
      | (Announcing r localId params, AFail e) \<Rightarrow> sx_settle i (Inl e) (sx_call (CallStop localId) s)
      | (SendingData d, AChannel sctpStreamParameters) \<Rightarrow>
          (let s1 = s\<lparr>sx_channels := sx_channels s @ [\<lparr>ch_closed = False, ch_sent = []\<rparr>]\<rparr>
           in case validateSctpStreamParameters sctpStreamParameters of
                Inl e \<Rightarrow> sx_settle i (Inl e) s1
              | Inr params \<Rightarrow> sx_stage i (AnnouncingData d (length (sx_channels s)) params) s1)
      | (SendingData d, AFail e) \<Rightarrow> sx_settle i (Inl e) s
      | (AnnouncingData d n params, AId pid) \<Rightarrow>
          sx_settle i (Inr pid) (s\<lparr>sx_dataProducers := jm_set pid (new_DataProducer pid params, n) (sx_dataProducers s)\<rparr>)
      | (AnnouncingData d n params, AFail e) \<Rightarrow> sx_settle i (Inl e) s
      | (Waiting, AFail e) \<Rightarrow> sx_settle i (Inl e) s
      | (Waiting, ADone) \<Rightarrow> sx_settle i (Inr []) s
      | _ \<Rightarrow> s)"

section \<open>Requests\<close>

text \<open>\<open>produce\<close> and \<open>produceData\<close>: the checks, then a task.\<close>

definition sx_produce ::
    "track_ref option \<Rightarrow> jsval \<Rightarrow> bool \<Rightarrow> bool \<Rightarrow> bool \<Rightarrow> jsval \<Rightarrow> send_transport \<Rightarrow> send_transport \<times> nat result" where
  "sx_produce track encodings stopTracks disableTrackOnPause zeroRtpOnPause appData s =
     (if sx_closed s then (s, Inl (InvalidStateError ''closed''))
      else case track of
        None \<Rightarrow> (s, Inl (TypeError ''missing track''))
      | Some t \<Rightarrow>
          if sx_direction s \<noteq> SendDir then (s, Inl (UnsupportedError ''not a sending Transport''))
          else if \<not> sx_canProduceByKind s (mt_kind (sx_tracks s t))
            then (s, Inl (UnsupportedError (''cannot produce '' @ kind_str (mt_kind (sx_tracks s t)))))
          else if mt_ended (sx_tracks s t) then (s, Inl (InvalidStateError ''track ended''))
          else if sx_connectListeners s = 0 \<and> sx_connectionState s = ''new''
            then (s, Inl (TypeError ''no \"connect\" listener set into this transport''))
          else if sx_produceListeners s = 0 then (s, Inl (TypeError ''no \"produce\" listener set into this transport''))
          else if truthy appData \<and> \<not> typeof_object appData then (s, Inl (TypeError ''if given, appData must be an object''))
          else (sx_push (ProduceTask \<lparr>pq_track = t, pq_encodings = encodings, pq_stopTracks = stopTracks,
                  pq_disableTrackOnPause = disableTrackOnPause, pq_zeroRtpOnPause = zeroRtpOnPause\<rparr>) s,
                Inr (aq_nextTaskId (sx_awaitQueue s))))"

definition sx_produceData ::
    "bool \<Rightarrow> jsval \<Rightarrow> jsval \<Rightarrow> string \<Rightarrow> string \<Rightarrow> jsval \<Rightarrow> send_transport \<Rightarrow> send_transport \<times> nat result" where
  "sx_produceData ordered maxPacketLifeTime maxRetransmits label protocol appData s =
     (if sx_closed s then (s, Inl (InvalidStateError ''closed''))
      else if sx_direction s \<noteq> SendDir then (s, Inl (UnsupportedError ''not a sending Transport''))
      else if \<not> truthy (opt_num (sx_maxSctpMessageSize s)) then (s, Inl (UnsupportedError ''SCTP not enabled by remote Transport''))
      else if sx_connectListeners s = 0 \<and> sx_connectionState s = ''new''
        then (s, Inl (TypeError ''no \"connect\" listener set into this transport''))
      else if sx_produceDataListeners s = 0 then (s, Inl (TypeError ''no \"producedata\" listener set into this transport''))
      else if truthy appData \<and> \<not> typeof_object appData then (s, Inl (TypeError ''if given, appData must be an object''))
      else (sx_push (ProduceDataTask \<lparr>dq_ordered = (ordered \<and> \<not> (truthy maxPacketLifeTime \<or> truthy maxRetransmits)),
              dq_maxPacketLifeTime = maxPacketLifeTime, dq_maxRetransmits = maxRetransmits,
              dq_label = label, dq_protocol = protocol\<rparr>) s,
            Inr (aq_nextTaskId (sx_awaitQueue s))))"

definition sx_restartIce :: "jsval \<Rightarrow> send_transport \<Rightarrow> send_transport \<times> nat result" where
  "sx_restartIce iceParameters s =
     (if sx_closed s then (s, Inl (InvalidStateError ''closed''))
      else if \<not> truthy iceParameters then (s, Inl (TypeError ''missing iceParameters''))
      else (sx_push (IceTask (CallRestartIce iceParameters)) s, Inr (aq_nextTaskId (sx_awaitQueue s))))"

definition sx_updateIceServers :: "jsval \<Rightarrow> send_transport \<Rightarrow> send_transport \<times> nat result" where
  "sx_updateIceServers iceServers s =
     (if sx_closed s then (s, Inl (InvalidStateError ''closed''))
      else case iceServers of
        VArr _ \<Rightarrow> (sx_push (IceTask (CallUpdateIceServers iceServers)) s, Inr (aq_nextTaskId (sx_awaitQueue s)))
      | _ \<Rightarrow> (s, Inl (TypeError ''missing iceServers'')))"

section \<open>The events of producers\<close>

text \<open>The listeners that \<open>handleProducer\<close> sets. The requests of a producer carry its local id.\<close>

definition producer_request :: "nat \<Rightarrow> (string \<Rightarrow> sender_call) \<Rightarrow> send_transport \<Rightarrow> send_transport" where
  "producer_request n c s = sx_push (ProducerTask n (c (pd_localId (sx_heap s ! n)))) s"

definition on_producer_close :: "nat \<Rightarrow> send_transport \<Rightarrow> send_transport" where
  "on_producer_close n s =
     (let s1 = s\<lparr>sx_producers := jm_delete (pd_id (sx_heap s ! n)) (sx_producers s)\<rparr>
      in if sx_closed s1 then s1 else producer_request n CallStop s1)"

definition closeProducer :: "nat \<Rightarrow> send_transport \<Rightarrow> send_transport" where
  "closeProducer n s =
     (if n < length (sx_heap s) \<and> \<not> pd_closed (sx_heap s ! n) then on_producer_close n (in_world pd_close n s) else s)"

text \<open>\<open>pause\<close> and \<open>resume\<close> of a producer, with the queue behind \<open>@pause\<close> and \<open>@resume\<close>.\<close>

definition pauseProducer :: "nat \<Rightarrow> send_transport \<Rightarrow> send_transport" where
  "pauseProducer n s =
     (if n < length (sx_heap s) \<and> \<not> pd_closed (sx_heap s ! n)
      then let s1 = in_world (\<lambda>w. let w' = set_paused True w
              in w'\<lparr>pw_producer := emit_events [EvObserverPause] (pw_producer w')\<rparr>) n s
        in if pd_zeroRtpOnPause (sx_heap s ! n) then producer_request n CallPause s1 else s1
      else s)"

definition resumeProducer :: "nat \<Rightarrow> send_transport \<Rightarrow> send_transport" where
  "resumeProducer n s =
     (if n < length (sx_heap s) \<and> \<not> pd_closed (sx_heap s ! n)
      then let s1 = in_world (\<lambda>w. let w' = set_paused False w
              in w'\<lparr>pw_producer := emit_events [EvObserverResume] (pw_producer w')\<rparr>) n s
        in if pd_zeroRtpOnPause (sx_heap s ! n) then producer_request n CallResume s1 else s1
      else s)"

definition replaceProducerTrack :: "track_ref option \<Rightarrow> nat \<Rightarrow> send_transport \<Rightarrow> send_transport" where
  "replaceProducerTrack track n s =
     (if n < length (sx_heap s)
      then let s1 = in_world (\<lambda>w. fst (replaceTrack_begin track w)) n s
        in if snd (replaceTrack_begin track \<lparr>pw_producer = sx_heap s ! n, pw_tracks = sx_tracks s, pw_host = ()\<rparr>) = Inr True
           then producer_request n (\<lambda>l. CallReplaceTrack l track) s1 else s1
      else s)"

text \<open>\<open>setMaxSpatialLayer\<close> and \<open>setRtpEncodingParameters\<close> of a producer, up to their request.\<close>

definition setProducerLayer :: "jsval \<Rightarrow> nat \<Rightarrow> send_transport \<Rightarrow> send_transport" where
  "setProducerLayer v n s =
     (if n < length (sx_heap s) \<and> \<not> pd_closed (sx_heap s ! n) \<and> pd_kind (sx_heap s ! n) = KVideo
      then (case v of
          VNum layer \<Rightarrow>
            if (case pd_maxSpatialLayer (sx_heap s ! n) of Some m \<Rightarrow> js_eq layer m | None \<Rightarrow> False) then s
            else producer_request n (\<lambda>l. CallSetMaxSpatialLayer l layer) s
        | _ \<Rightarrow> s)
      else s)"

definition setProducerEncoding :: "jsval \<Rightarrow> nat \<Rightarrow> send_transport \<Rightarrow> send_transport" where
  "setProducerEncoding params n s =
     (if n < length (sx_heap s) \<and> \<not> pd_closed (sx_heap s ! n) \<and> typeof_object params
      then producer_request n (\<lambda>l. CallSetRtpEncodingParameters l params) s else s)"

section \<open>Data producers and the transport\<close>

text \<open>A data producer that is no longer in the map is closed and ignores everything. \<open>handleDataProducer\<close>
  takes it out on \<open>@close\<close>.\<close>

definition on_data :: "(data_producer \<times> data_channel \<Rightarrow> (data_producer \<times> data_channel) \<times> bool) \<Rightarrow> string \<Rightarrow> send_transport \<Rightarrow> send_transport" where
  "on_data f i s =
     (case jm_get (sx_dataProducers s) i of
        None \<Rightarrow> s
      | Some (p, n) \<Rightarrow>
          (case f (p, sx_channels s ! n) of ((p', ch), gone) \<Rightarrow>
             s\<lparr>sx_channels := (sx_channels s)[n := ch],
               sx_dataProducers := (if gone then jm_delete i (sx_dataProducers s) else jm_set i (p', n) (sx_dataProducers s))\<rparr>))"

fun close_producers :: "nat list \<Rightarrow> send_transport \<Rightarrow> send_transport" where
  "close_producers [] s = s"
| "close_producers (n # ns) s = close_producers ns (in_world pd_transportClosed n s)"

fun close_data_producers :: "(data_producer \<times> nat) list \<Rightarrow> send_transport \<Rightarrow> send_transport" where
  "close_data_producers [] s = s"
| "close_data_producers ((p, n) # ps) s =
     close_data_producers ps (s\<lparr>sx_channels := (sx_channels s)[n := snd (dp_transportClosed (p, sx_channels s ! n))]\<rparr>)"

definition sx_close :: "send_transport \<Rightarrow> send_transport" where
  "sx_close s =
     (if sx_closed s then s
      else case aq_stop (sx_awaitQueue s) of (q, es) \<Rightarrow>
        let s1 = sx_effects (Inl (OtherError ''AwaitQueue stopped'')) es (s\<lparr>sx_closed := True, sx_awaitQueue := q\<rparr>);
            s2 = (sx_call CallClose s1)\<lparr>sx_connectionState := ''closed''\<rparr>;
            s3 = (close_producers (jm_values (sx_producers s2)) s2)\<lparr>sx_producers := []\<rparr>
        in (close_data_producers (jm_values (sx_dataProducers s3)) s3)\<lparr>sx_dataProducers := []\<rparr>)"

section \<open>Runs\<close>

text \<open>What can happen, in any order. The handler gives out each local id once, and the server each producer id.\<close>

datatype send_op =
    OpProduce "track_ref option" jsval bool bool bool jsval
  | OpProduceData bool jsval jsval string string jsval
  | OpCloseProducer nat
  | OpPauseProducer nat
  | OpResumeProducer nat
  | OpReplaceTrack "track_ref option" nat
  | OpSetLayer jsval nat
  | OpSetEncoding jsval nat
  | OpCloseData string
  | OpChannel channel_event string
  | OpRestartIce jsval
  | OpUpdateIceServers jsval
  | OpConnectionState string
  | OpBack nat send_answer
  | OpThen nat
  | OpTrackEnded track_ref
  | OpClose

definition answer_fits :: "send_stage \<Rightarrow> send_answer \<Rightarrow> send_transport \<Rightarrow> bool" where
  "answer_fits st a s =
     (case (st, a) of
        (Throwing _, _) \<Rightarrow> True
      | (Sending _, ASent l _) \<Rightarrow> l \<notin> set (sx_sent s)
      | (Announcing _ _ _, AId i) \<Rightarrow> i \<notin> set (map pd_id (sx_heap s))
      | (SendingData _, AChannel _) \<Rightarrow> True
      | (AnnouncingData _ _ _, AId i) \<Rightarrow> True
      | (Waiting, ADone) \<Rightarrow> True
      | (_, AFail _) \<Rightarrow> True
      | _ \<Rightarrow> False)"

fun sx_step :: "send_transport \<Rightarrow> send_op \<Rightarrow> send_transport" where
  "sx_step s (OpProduce track encs stop dis zero appData) = fst (sx_produce track encs stop dis zero appData s)"
| "sx_step s (OpProduceData ordered life retr label protocol appData) = fst (sx_produceData ordered life retr label protocol appData s)"
| "sx_step s (OpCloseProducer n) = closeProducer n s"
| "sx_step s (OpPauseProducer n) = pauseProducer n s"
| "sx_step s (OpResumeProducer n) = resumeProducer n s"
| "sx_step s (OpReplaceTrack track n) = replaceProducerTrack track n s"
| "sx_step s (OpSetLayer v n) = setProducerLayer v n s"
| "sx_step s (OpSetEncoding v n) = setProducerEncoding v n s"
| "sx_step s (OpCloseData i) = on_data dp_close i s"
| "sx_step s (OpChannel e i) = on_data (\<lambda>(p, ch). case dp_handleDataChannel e p of (p', c) \<Rightarrow> ((p', ch), c)) i s"
| "sx_step s (OpRestartIce v) = fst (sx_restartIce v s)"
| "sx_step s (OpUpdateIceServers v) = fst (sx_updateIceServers v s)"
| "sx_step s (OpConnectionState st) = (if st = sx_connectionState s then s else s\<lparr>sx_connectionState := st\<rparr>)"
| "sx_step s (OpBack n a) =
     (if n < length (sx_running s)
      then (case sx_running s ! n of (i, st) \<Rightarrow>
        if answer_fits st a s then sx_continue i st a (s\<lparr>sx_running := drop_nth n (sx_running s)\<rparr>) else s)
      else s)"
| "sx_step s (OpThen n) =
     (if n < length (sx_then s) then sx_callback (sx_then s ! n) (s\<lparr>sx_then := drop_nth n (sx_then s)\<rparr>) else s)"
| "sx_step s (OpTrackEnded t) = track_stop t s"
| "sx_step s OpClose = sx_close s"

section \<open>Frames\<close>

lemma sx_begin_frame [simp]:
  "sx_closed (sx_begin i t s) = sx_closed s" "sx_heap (sx_begin i t s) = sx_heap s"
  "sx_producers (sx_begin i t s) = sx_producers s" "sx_tracks (sx_begin i t s) = sx_tracks s"
  "sx_sent (sx_begin i t s) = sx_sent s" "sx_settled (sx_begin i t s) = sx_settled s"
  "sx_awaitQueue (sx_begin i t s) = sx_awaitQueue s" "sx_then (sx_begin i t s) = sx_then s"
  "sx_channels (sx_begin i t s) = sx_channels s" "sx_dataProducers (sx_begin i t s) = sx_dataProducers s"
  "map fst (sx_running (sx_begin i t s)) = map fst (sx_running s) @ [i]"
  by (simp_all add: sx_begin_def sx_stage_def sx_call_def split: send_task.split sum.split)

lemma sx_effects_frame [simp]:
  "sx_closed (sx_effects v es s) = sx_closed s" "sx_heap (sx_effects v es s) = sx_heap s"
  "sx_producers (sx_effects v es s) = sx_producers s" "sx_tracks (sx_effects v es s) = sx_tracks s"
  "sx_sent (sx_effects v es s) = sx_sent s" "sx_settled (sx_effects v es s) = sx_settled s"
  "sx_awaitQueue (sx_effects v es s) = sx_awaitQueue s"
  "sx_channels (sx_effects v es s) = sx_channels s" "sx_dataProducers (sx_effects v es s) = sx_dataProducers s"
  by (induction v es s rule: sx_effects.induct) simp_all

lemma sx_push_frame [simp]:
  "sx_closed (sx_push t s) = sx_closed s" "sx_heap (sx_push t s) = sx_heap s"
  "sx_producers (sx_push t s) = sx_producers s" "sx_tracks (sx_push t s) = sx_tracks s"
  "sx_sent (sx_push t s) = sx_sent s" "sx_settled (sx_push t s) = sx_settled s"
  "sx_channels (sx_push t s) = sx_channels s" "sx_dataProducers (sx_push t s) = sx_dataProducers s"
  by (simp_all add: sx_push_def split: prod.split)

lemma sx_settle_frame [simp]:
  "sx_closed (sx_settle i v s) = sx_closed s" "sx_heap (sx_settle i v s) = sx_heap s"
  "sx_producers (sx_settle i v s) = sx_producers s" "sx_tracks (sx_settle i v s) = sx_tracks s"
  "sx_sent (sx_settle i v s) = sx_sent s" "sx_settled (sx_settle i v s) = sx_settled s"
  "sx_channels (sx_settle i v s) = sx_channels s" "sx_dataProducers (sx_settle i v s) = sx_dataProducers s"
  by (simp_all add: sx_settle_def split: prod.split)

lemma in_world_frame [simp]:
  "sx_closed (in_world f n s) = sx_closed s" "sx_producers (in_world f n s) = sx_producers s"
  "sx_sent (in_world f n s) = sx_sent s" "sx_settled (in_world f n s) = sx_settled s"
  "sx_awaitQueue (in_world f n s) = sx_awaitQueue s" "sx_running (in_world f n s) = sx_running s"
  "sx_then (in_world f n s) = sx_then s" "sx_calls (in_world f n s) = sx_calls s"
  "length (sx_heap (in_world f n s)) = length (sx_heap s)"
  by (simp_all add: in_world_def Let_def)

section \<open>Tasks in the queue\<close>

fun stop_id :: "sender_call \<Rightarrow> string list" where
  "stop_id (CallStop l) = [l]"
| "stop_id _ = []"

fun task_stop :: "send_task \<Rightarrow> string list" where
  "task_stop (ProducerTask n c) = stop_id c"
| "task_stop (IceTask c) = stop_id c"
| "task_stop _ = []"

fun announced :: "send_stage \<Rightarrow> string list" where
  "announced (Announcing r l p) = [l]"
| "announced _ = []"

text \<open>What accounts for a sender, outside of the open producers: the task that announces it, a task that will stop
  it, and the call that did.\<close>

definition in_tasks :: "send_transport \<Rightarrow> string multiset" where
  "in_tasks s = mset (concat (map (announced \<circ> snd) (sx_running s))) +
     mset (concat (map (task_stop \<circ> snd) (tl (contents (sx_awaitQueue s))))) + mset (concat (map stop_id (sx_calls s)))"

lemma sx_begin_spec:
  obtains cs st where "sx_begin i t s = s\<lparr>sx_calls := sx_calls s @ cs, sx_running := sx_running s @ [(i, st)]\<rparr>"
    "concat (map stop_id cs) = task_stop t" "announced st = []"
proof (cases t)
  case (ProduceTask r)
  show thesis
  proof (cases "normalize_encodings (pq_encodings r)")
    case (Inl e)
    show thesis
      by (rule that [where cs = "[]" and st = "Throwing e"]) (simp_all add: ProduceTask Inl sx_begin_def sx_stage_def)
  next
    case (Inr encs)
    show thesis
      by (rule that [where cs = "[CallSend (pq_track r) encs]" and st = "Sending r"])
        (simp_all add: ProduceTask Inr sx_begin_def sx_stage_def sx_call_def)
  qed
next
  case (ProduceDataTask d)
  show thesis
    by (rule that [where cs = "[CallSendData d]" and st = "SendingData d"]) (simp_all add: ProduceDataTask sx_begin_def sx_stage_def sx_call_def)
next
  case (ProducerTask n c)
  show thesis
    by (rule that [where cs = "[c]" and st = Waiting]) (simp_all add: ProducerTask sx_begin_def sx_stage_def sx_call_def)
next
  case (IceTask c)
  show thesis
    by (rule that [where cs = "[c]" and st = Waiting]) (simp_all add: IceTask sx_begin_def sx_stage_def sx_call_def)
qed

lemma sx_push_eq:
  assumes "aq_ok (sx_awaitQueue s)"
  shows "sx_push t s = (let s' = s\<lparr>sx_awaitQueue := fst (aq_push t (sx_awaitQueue s))\<rparr>
    in if contents (sx_awaitQueue s) = [] then sx_begin (aq_nextTaskId (sx_awaitQueue s)) t s' else s')"
  using aq_push_spec [OF assms, of t] by (auto simp: sx_push_def Let_def split: prod.splits)

lemma sx_settle_eq:
  assumes "aq_ok (sx_awaitQueue s)" "contents (sx_awaitQueue s) = (i, t) # cs"
  shows "sx_settle i v s = (let s' = s\<lparr>sx_awaitQueue := fst (aq_resolve i (sx_awaitQueue s)), sx_then := sx_then s @ [(i, t, v)]\<rparr>
    in case cs of [] \<Rightarrow> s' | (j, u) # _ \<Rightarrow> sx_begin j u s')"
  using aq_resolve_spec [OF assms] aq_reject_spec [OF assms]
  by (auto simp: sx_settle_def Let_def split: prod.splits list.splits)

lemma sx_settle_gone:
  assumes "aq_ok (sx_awaitQueue s)" "i \<notin> fst ` set (contents (sx_awaitQueue s))"
  shows "sx_settle i v s = s"
  using aq.resolve_gone [OF assms] aq_reject_gone [OF assms] by (simp add: sx_settle_def)

text \<open>Every task number given out is in the queue, has its callbacks coming, or is settled.\<close>

definition tasks_inv :: "send_transport \<Rightarrow> bool" where
  "tasks_inv s \<longleftrightarrow> queue_waits (sx_awaitQueue s) (sx_running s) \<and>
     (\<forall>i < aq_nextTaskId (sx_awaitQueue s).
        i \<in> fst ` set (contents (sx_awaitQueue s)) \<union> fst ` set (sx_then s) \<union> fst ` set (sx_settled s))"

lemma tasks_inv_ok: "tasks_inv s \<Longrightarrow> aq_ok (sx_awaitQueue s)"
  by (simp add: tasks_inv_def queue_waits_def)

lemma sx_push_tasks:
  assumes inv: "tasks_inv s"
  shows "tasks_inv (sx_push t s)" "in_tasks (sx_push t s) = in_tasks s + mset (task_stop t)"
proof -
  note ok = tasks_inv_ok [OF inv]
  define s' where "s' = s\<lparr>sx_awaitQueue := fst (aq_push t (sx_awaitQueue s))\<rparr>"
  note p = aq_push_spec [OF ok, of t]
  obtain cs st where b: "sx_begin (aq_nextTaskId (sx_awaitQueue s)) t s' =
      s'\<lparr>sx_calls := sx_calls s' @ cs, sx_running := sx_running s' @ [(aq_nextTaskId (sx_awaitQueue s), st)]\<rparr>"
      "concat (map stop_id cs) = task_stop t" "announced st = []"
    by (rule sx_begin_spec [of "aq_nextTaskId (sx_awaitQueue s)" t s'])
  have eq: "sx_push t s = (if contents (sx_awaitQueue s) = [] then sx_begin (aq_nextTaskId (sx_awaitQueue s)) t s' else s')"
    using sx_push_eq [OF ok, of t] by (simp add: s'_def Let_def)
  have sel: "sx_awaitQueue s' = fst (aq_push t (sx_awaitQueue s))" "sx_running s' = sx_running s" "sx_then s' = sx_then s"
      "sx_settled s' = sx_settled s" "sx_calls s' = sx_calls s"
    by (simp_all add: s'_def)
  show "tasks_inv (sx_push t s)"
    using inv p queue_waits_push [of "sx_awaitQueue s" "sx_running s" t st]
    by (auto simp: eq b sel tasks_inv_def less_Suc_eq)
  show "in_tasks (sx_push t s) = in_tasks s + mset (task_stop t)"
    using p by (cases "contents (sx_awaitQueue s)") (auto simp: eq b sel in_tasks_def)
qed

lemma sx_settle_tasks:
  assumes w: "queue_waits (sx_awaitQueue s) (r1 @ (i, st) # r2)" and r: "sx_running s = r1 @ r2"
    and all: "\<forall>i < aq_nextTaskId (sx_awaitQueue s).
        i \<in> fst ` set (contents (sx_awaitQueue s)) \<union> fst ` set (sx_then s) \<union> fst ` set (sx_settled s)"
  shows "tasks_inv (sx_settle i v s)" "in_tasks (sx_settle i v s) = in_tasks s"
proof -
  have ok: "aq_ok (sx_awaitQueue s)" using w by (simp add: queue_waits_def)
  have "tasks_inv (sx_settle i v s) \<and> in_tasks (sx_settle i v s) = in_tasks s"
  proof (cases "i \<in> fst ` set (contents (sx_awaitQueue s))")
    case False
    then show ?thesis using sx_settle_gone [OF ok False] queue_waits_drop [OF w False] r all by (simp add: tasks_inv_def)
  next
    case True
    obtain t cs where c: "contents (sx_awaitQueue s) = (i, t) # cs"
      by (rule queue_waits_finish [OF w True])
    have q: "queue_waits (fst (aq_resolve i (sx_awaitQueue s))) (r1 @ r2 @ (case cs of [] \<Rightarrow> [] | (j, _) # _ \<Rightarrow> [(j, st')]))" for st'
      by (rule queue_waits_finish [OF w True, where st' = st']) (simp add: c)
    define s' where "s' = s\<lparr>sx_awaitQueue := fst (aq_resolve i (sx_awaitQueue s)), sx_then := sx_then s @ [(i, t, v)]\<rparr>"
    have sel: "sx_awaitQueue s' = fst (aq_resolve i (sx_awaitQueue s))" "sx_running s' = r1 @ r2" "sx_then s' = sx_then s @ [(i, t, v)]"
        "sx_settled s' = sx_settled s" "sx_calls s' = sx_calls s"
      by (simp_all add: s'_def r)
    have next_new: "aq_nextTaskId (sx_awaitQueue s') = aq_nextTaskId (sx_awaitQueue s)" by (simp add: sel)
    note p = aq_resolve_spec [OF ok c]
    have eq: "sx_settle i v s = (case cs of [] \<Rightarrow> s' | (j, u) # _ \<Rightarrow> sx_begin j u s')"
      using sx_settle_eq [OF ok c, of v] unfolding s'_def Let_def .
    have all': "\<forall>k < aq_nextTaskId (sx_awaitQueue s).
        k \<in> fst ` set cs \<union> fst ` set (sx_then s @ [(i, t, v)]) \<union> fst ` set (sx_settled s)"
      using all by (auto simp: c)
    show ?thesis
    proof (cases cs)
      case Nil
      with q p all' show ?thesis by (simp add: eq sel tasks_inv_def in_tasks_def r c)
    next
      case (Cons x xs)
      obtain j u where x: "x = (j, u)" by (cases x)
      obtain cl st' where b: "sx_begin j u s' = s'\<lparr>sx_calls := sx_calls s' @ cl, sx_running := sx_running s' @ [(j, st')]\<rparr>"
          "concat (map stop_id cl) = task_stop u" "announced st' = []"
        by (rule sx_begin_spec [of j u s'])
      with q [of st'] p all' show ?thesis by (simp add: eq Cons x sel tasks_inv_def in_tasks_def r c)
    qed
  qed
  then show "tasks_inv (sx_settle i v s)" "in_tasks (sx_settle i v s) = in_tasks s" by auto
qed

section \<open>Every sender is accounted for\<close>

text \<open>Of a producer, the accounts read its ids and whether it is closed.\<close>

definition key :: "producer \<Rightarrow> string \<times> string \<times> bool" where
  "key p = (pd_id p, pd_localId p, pd_closed p)"

definition keys :: "send_transport \<Rightarrow> (string \<times> string \<times> bool) list" where
  "keys s = map key (sx_heap s)"

text \<open>The map holds exactly the open producers, under their ids.\<close>

definition reg_ok :: "(string \<times> string \<times> bool) list \<Rightarrow> (string, nat) jsmap \<Rightarrow> bool" where
  "reg_ok ks m \<longleftrightarrow> jm_wf m \<and>
     (\<forall>i n. jm_get m i = Some n \<longleftrightarrow> n < length ks \<and> fst (ks ! n) = i \<and> \<not> snd (snd (ks ! n)))"

definition registered :: "(string \<times> string \<times> bool) list \<Rightarrow> (string, nat) jsmap \<Rightarrow> string multiset" where
  "registered ks m = mset (map (\<lambda>n. fst (snd (ks ! n))) (jm_values m))"

definition sender_inv :: "send_transport \<Rightarrow> bool" where
  "sender_inv s \<longleftrightarrow> tasks_inv s \<and>
     (sx_closed s \<or> reg_ok (keys s) (sx_producers s) \<and> mset (sx_sent s) = registered (keys s) (sx_producers s) + in_tasks s)"

lemma in_world_keys:
  assumes "\<And>w. key (pw_producer (f w)) = key (pw_producer w)"
  shows "keys (in_world f n s) = keys s"
  using assms by (auto simp: keys_def in_world_def Let_def map_update list_update_same_conv)

lemma sender_inv_cong:
  assumes "sender_inv s" "sx_awaitQueue s' = sx_awaitQueue s" "sx_running s' = sx_running s" "sx_then s' = sx_then s"
    "sx_settled s' = sx_settled s" "sx_calls s' = sx_calls s" "keys s' = keys s" "sx_producers s' = sx_producers s"
    "sx_sent s' = sx_sent s" "sx_closed s' = sx_closed s"
  shows "sender_inv s'"
  using assms by (simp add: sender_inv_def tasks_inv_def in_tasks_def)

lemma in_world_inv:
  assumes "sender_inv s" "\<And>w. key (pw_producer (f w)) = key (pw_producer w)"
  shows "sender_inv (in_world f n s)"
  by (rule sender_inv_cong [OF assms(1)]) (simp_all add: in_world_keys [OF assms(2)])

lemma keys_push [simp]: "keys (sx_push t s) = keys s" "keys (sx_settle i v s) = keys s"
  by (simp_all add: keys_def)

lemma sx_push_inv: "sender_inv s \<Longrightarrow> task_stop t = [] \<Longrightarrow> sender_inv (sx_push t s)"
  using sx_push_tasks [of s t] by (auto simp: sender_inv_def)

lemma key_ops:
  "key (pw_producer (on_track g w)) = key (pw_producer w)" "key (pw_producer (set_paused b w)) = key (pw_producer w)"
  "key (pw_producer (replaceTrack_end track w)) = key (pw_producer w)"
  "key (pw_producer (fst (replaceTrack_begin track w))) = key (pw_producer w)"
  "key (emit_events evs p) = key p" "key (p\<lparr>pd_maxSpatialLayer := l\<rparr>) = key p"
  by (simp_all add: key_def producer_op_defs track_op_defs Let_def split: option.split)

lemma jm_values_delete:
  assumes "jm_wf m" "jm_get m i = Some n"
  shows "mset (map f (jm_values m)) = add_mset (f n) (mset (map f (jm_values (jm_delete i m))))"
  using assms
proof (induction m)
  case (Cons x m)
  obtain k v where x: "x = (k, v)" by (cases x)
  have wf: "jm_wf m" "k \<notin> set (jm_keys m)" using Cons.prems(1) by (auto simp: x jm_wf_def jm_keys_def)
  show ?case
  proof (cases "k = i")
    case True
    with Cons.prems wf jm_delete_gone [of i m] show ?thesis by (simp add: x jm_get_def jm_values_def jm_delete_def)
  next
    case False
    with Cons.prems Cons.IH [OF wf(1)] show ?thesis by (simp add: x jm_get_def jm_values_def jm_delete_def)
  qed
qed (simp add: jm_get_def)

lemma registered_close:
  assumes reg: "reg_ok ks m" and n: "n < length ks" "ks ! n = (i, l, False)"
  shows "reg_ok (ks[n := (i, l, True)]) (jm_delete i m)"
    "registered ks m = add_mset l (registered (ks[n := (i, l, True)]) (jm_delete i m))"
proof -
  have g: "jm_get m i = Some n" using reg n by (simp add: reg_ok_def)
  have "k = i \<longleftrightarrow> n' = n" if "jm_get m k = Some n'" for k n'
  proof
    assume "n' = n"
    with that have "fst (ks ! n) = k" using reg by (simp add: reg_ok_def)
    with n show "k = i" by simp
  qed (use that g in simp)
  then show "reg_ok (ks[n := (i, l, True)]) (jm_delete i m)"
    using reg n unfolding reg_ok_def jm.get_remove by (auto simp: jm_wf_ops nth_list_update)
  have "fst (snd (ks[n := (i, l, True)] ! k)) = fst (snd (ks ! k))" for k
    using n by (cases "k = n") auto
  then show "registered ks m = add_mset l (registered (ks[n := (i, l, True)]) (jm_delete i m))"
    using jm_values_delete [of m i n "\<lambda>n. fst (snd (ks ! n))"] reg g n by (simp add: registered_def reg_ok_def)
qed

lemma closeProducer_inv:
  assumes inv: "sender_inv s"
  shows "sender_inv (closeProducer n s)"
proof (cases "n < length (sx_heap s) \<and> \<not> pd_closed (sx_heap s ! n)")
  case True
  define p where "p = sx_heap s ! n"
  define s1 where "s1 = in_world pd_close n s"
  define s2 where "s2 = s1\<lparr>sx_producers := jm_delete (pd_id p) (sx_producers s)\<rparr>"
  define p' where "p' = pw_producer (pd_close \<lparr>pw_producer = p, pw_tracks = sx_tracks s, pw_host = ()\<rparr>)"
  have key: "key p' = (pd_id p, pd_localId p, True)"
    using True by (simp add: p'_def p_def key_def producer_op_defs track_op_defs Let_def split: option.split)
  have heap: "sx_heap s1 = (sx_heap s)[n := p']"
    using True by (simp add: s1_def in_world_def p'_def p_def Let_def)
  have k: "keys s1 = (keys s)[n := (pd_id p, pd_localId p, True)]" "keys s ! n = (pd_id p, pd_localId p, False)" "n < length (keys s)"
    using True by (simp_all add: keys_def heap map_update key) (simp add: key_def p_def)
  have ids: "pd_id (sx_heap s1 ! n) = pd_id p" "pd_localId (sx_heap s1 ! n) = pd_localId p"
    using True key by (simp_all add: heap key_def)
  have f: "sx_closed s1 = sx_closed s" "sx_producers s1 = sx_producers s" by (simp_all add: s1_def)
  have t: "tasks_inv s2" "in_tasks s2 = in_tasks s" "keys s2 = keys s1" "sx_sent s2 = sx_sent s" "sx_closed s2 = sx_closed s"
    using inv by (simp_all add: s2_def s1_def sender_inv_def tasks_inv_def in_tasks_def keys_def)
  have eq: "closeProducer n s = (if sx_closed s then s2 else sx_push (ProducerTask n (CallStop (pd_localId p))) s2)"
    using True ids f by (simp add: closeProducer_def on_producer_close_def producer_request_def Let_def s2_def flip: s1_def)
  show ?thesis
  proof (cases "sx_closed s")
    case True
    with t eq show ?thesis by (simp add: sender_inv_def)
  next
    case False
    with inv have "reg_ok (keys s) (sx_producers s)" "mset (sx_sent s) = registered (keys s) (sx_producers s) + in_tasks s"
      by (auto simp: sender_inv_def)
    with registered_close [OF this(1) k(3,2)] sx_push_tasks [OF t(1), of "ProducerTask n (CallStop (pd_localId p))"] t False eq k(1)
    show ?thesis by (simp add: sender_inv_def s2_def)
  qed
qed (use inv in \<open>auto simp: closeProducer_def\<close>)

lemma create_producer_core:
  assumes reg: "reg_ok (keys s) (sx_producers s)" and new: "pid \<notin> set (map pd_id (sx_heap s))"
  shows "reg_ok (keys (create_producer r l params pid s)) (sx_producers (create_producer r l params pid s))"
    "registered (keys (create_producer r l params pid s)) (sx_producers (create_producer r l params pid s)) =
      add_mset l (registered (keys s) (sx_producers s))"
proof -
  let ?k = "keys s @ [(pid, l, False)]" and ?m = "jm_set pid (length (keys s)) (sx_producers s)"
  have k: "keys (create_producer r l params pid s) = ?k" "sx_producers (create_producer r l params pid s) = ?m"
    by (simp_all add: create_producer_def keys_def key_def Let_def new_Producer_def track_op_defs)
  have no: "fst (keys s ! n) \<noteq> pid" if "n < length (keys s)" for n
    using new that by (auto simp: keys_def key_def)
  have "jm_get (sx_producers s) pid = None"
    using reg no by (cases "jm_get (sx_producers s) pid") (auto simp: reg_ok_def)
  then have fresh: "pid \<notin> set (jm_keys (sx_producers s))" by (simp add: jm_get_def jm_keys_def map_of_eq_None_iff)
  have old: "?k ! n = keys s ! n" if v: "n \<in> set (jm_values (sx_producers s))" for n
  proof -
    obtain i where "(i, n) \<in> set (sx_producers s)" using v by (force simp: jm_values_def)
    then have "jm_get (sx_producers s) i = Some n" using reg by (simp add: reg_ok_def jm_wf_def jm_get_def)
    then show ?thesis using reg by (simp add: reg_ok_def nth_append)
  qed
  show "reg_ok (keys (create_producer r l params pid s)) (sx_producers (create_producer r l params pid s))"
    using reg no unfolding k reg_ok_def jm.get_put by (auto simp: jm_wf_ops nth_append less_Suc_eq)
  have same: "map (\<lambda>n. fst (snd (?k ! n))) (jm_values (sx_producers s)) = map (\<lambda>n. fst (snd (keys s ! n))) (jm_values (sx_producers s))"
    using old by simp
  have vals: "jm_values ?m = jm_values (sx_producers s) @ [length (keys s)]"
    using jm_set_new [OF fresh] by (simp add: jm_values_def)
  show "registered (keys (create_producer r l params pid s)) (sx_producers (create_producer r l params pid s)) =
      add_mset l (registered (keys s) (sx_producers s))"
    unfolding k registered_def vals map_append same by simp
qed

text \<open>A task goes on: it has been taken from those that wait, and what it announced is with it.\<close>

definition resumed :: "nat \<Rightarrow> send_stage \<Rightarrow> send_transport \<Rightarrow> bool" where
  "resumed i st s \<longleftrightarrow>
     (\<exists>r1 r2. sx_running s = r1 @ r2 \<and> queue_waits (sx_awaitQueue s) (r1 @ (i, st) # r2)) \<and>
     (\<forall>k < aq_nextTaskId (sx_awaitQueue s).
        k \<in> fst ` set (contents (sx_awaitQueue s)) \<union> fst ` set (sx_then s) \<union> fst ` set (sx_settled s)) \<and>
     (sx_closed s \<or> reg_ok (keys s) (sx_producers s) \<and>
        mset (sx_sent s) = registered (keys s) (sx_producers s) + in_tasks s + mset (announced st))"

lemma resumedI:
  assumes inv: "sender_inv s" and n: "n < length (sx_running s)" "sx_running s ! n = (i, st)"
  shows "resumed i st (s\<lparr>sx_running := drop_nth n (sx_running s)\<rparr>)"
proof -
  have r: "sx_running s = take n (sx_running s) @ (i, st) # drop (Suc n) (sx_running s)" using drop_nth_split [OF n(1)] n(2) by simp
  have "in_tasks s = in_tasks (s\<lparr>sx_running := drop_nth n (sx_running s)\<rparr>) + mset (announced st)"
    unfolding in_tasks_def by (subst r) (simp add: drop_nth_def)
  moreover have "\<exists>r1 r2. drop_nth n (sx_running s) = r1 @ r2 \<and> queue_waits (sx_awaitQueue s) (r1 @ (i, st) # r2)"
    using inv r by (metis drop_nth_def sender_inv_def tasks_inv_def)
  ultimately show ?thesis using inv by (auto simp: resumed_def sender_inv_def tasks_inv_def keys_def)
qed

lemma resumed_settle: "resumed i st s \<Longrightarrow> announced st = [] \<Longrightarrow> sender_inv (sx_settle i v s)"
  using sx_settle_tasks [of s _ i st] unfolding resumed_def sender_inv_def by auto

lemma resumed_stop: "resumed i st s \<Longrightarrow> announced st = [l] \<Longrightarrow> sender_inv (sx_settle i v (sx_call (CallStop l) s))"
  by (rule resumed_settle [of i Waiting]) (auto simp: resumed_def queue_waits_def sx_call_def keys_def in_tasks_def)

lemma resumed_stage:
  assumes "resumed i st s" "announced st' = announced st"
  shows "sender_inv (sx_stage i st' s)"
proof -
  have "queue_waits q (r1 @ r2 @ [(i, st')])" if "queue_waits q (r1 @ (i, st) # r2)" for q :: "send_task await_queue" and r1 r2
    using that unfolding queue_waits_def by auto
  with assms show ?thesis
    by (auto simp: resumed_def sender_inv_def tasks_inv_def in_tasks_def sx_stage_def keys_def)
qed

lemma resumed_sent: "resumed i st s \<Longrightarrow> announced st = [] \<Longrightarrow> resumed i (Announcing r l p) (s\<lparr>sx_sent := sx_sent s @ [l]\<rparr>)"
  by (auto simp: resumed_def queue_waits_def keys_def in_tasks_def)

lemma resumed_data: "resumed i st s \<Longrightarrow> resumed i st (s\<lparr>sx_channels := c\<rparr>)" "resumed i st s \<Longrightarrow> resumed i st (s\<lparr>sx_dataProducers := m\<rparr>)"
  by (simp_all add: resumed_def keys_def in_tasks_def)

lemma resumed_create:
  assumes res: "resumed i (Announcing r l p) s" and new: "pid \<notin> set (map pd_id (sx_heap s))"
  shows "resumed i Waiting (create_producer r l p pid s)"
proof -
  have sel: "sx_awaitQueue (create_producer r l p pid s) = sx_awaitQueue s" "sx_running (create_producer r l p pid s) = sx_running s"
    "sx_then (create_producer r l p pid s) = sx_then s" "sx_settled (create_producer r l p pid s) = sx_settled s"
    "sx_closed (create_producer r l p pid s) = sx_closed s" "in_tasks (create_producer r l p pid s) = in_tasks s"
    "sx_sent (create_producer r l p pid s) = sx_sent s"
    by (simp_all add: create_producer_def Let_def in_tasks_def)
  have "queue_waits q (r1 @ (i, Waiting) # r2)" if "queue_waits q (r1 @ (i, Announcing r l p) # r2)" for q :: "send_task await_queue" and r1 r2
    using that by (simp add: queue_waits_def)
  then show ?thesis
    using res create_producer_core [OF _ new, of r l p] unfolding resumed_def sel by fastforce
qed

lemma continue_inv:
  assumes res: "resumed i st s" and fits: "answer_fits st a s"
  shows "sender_inv (sx_continue i st a s)"
proof (cases st)
  case (Sending r)
  note sent = resumed_sent [OF res, unfolded Sending, simplified, of r]
  show ?thesis
    using Sending fits res resumed_settle resumed_stop [OF sent] resumed_stage [OF sent]
    by (cases a) (auto simp: sx_continue_def answer_fits_def Let_def split: sum.split)
next
  case (Announcing r l p)
  then show ?thesis
    using fits res resumed_stop resumed_settle [OF resumed_create]
    by (cases a) (auto simp: sx_continue_def answer_fits_def)
next
  case (SendingData d)
  then show ?thesis
    using fits res resumed_settle [OF resumed_data(1) [OF res]] resumed_stage [OF resumed_data(1) [OF res]] resumed_settle [OF res]
    by (cases a) (auto simp: sx_continue_def answer_fits_def Let_def split: sum.split)
next
  case (AnnouncingData d n p)
  then show ?thesis
    using fits res resumed_settle [OF resumed_data(2) [OF res]] resumed_settle [OF res]
    by (cases a) (auto simp: sx_continue_def answer_fits_def)
next
  case (Throwing e)
  with res resumed_settle show ?thesis by (simp add: sx_continue_def)
next
  case Waiting
  with res fits resumed_settle show ?thesis by (cases a) (simp_all add: sx_continue_def answer_fits_def)
qed

lemma back_inv:
  assumes inv: "sender_inv s"
  shows "sender_inv (sx_step s (OpBack n a))"
proof -
  have "answer_fits st a (s\<lparr>sx_running := r\<rparr>) = answer_fits st a s" for st r
    by (simp add: answer_fits_def split: send_stage.split send_answer.split)
  then show ?thesis
    using inv resumedI [OF inv, of n] by (auto split: prod.split intro: continue_inv)
qed

lemma sx_callback_frame [simp]:
  "sx_awaitQueue (sx_callback x s) = sx_awaitQueue s" "sx_running (sx_callback x s) = sx_running s"
  "sx_then (sx_callback x s) = sx_then s" "sx_calls (sx_callback x s) = sx_calls s"
  "sx_producers (sx_callback x s) = sx_producers s" "sx_sent (sx_callback x s) = sx_sent s"
  "sx_closed (sx_callback x s) = sx_closed s" "sx_settled (sx_callback x s) = sx_settled s @ [x]"
  "keys (sx_callback x s) = keys s"
proof -
  have u: "keys (s\<lparr>sx_settled := y\<rparr>) = keys s" for s y by (simp add: keys_def)
  have t: "keys (track_stop tr s) = keys s" for tr by (simp add: track_stop_def keys_def)
  show "keys (sx_callback x s) = keys s"
    by (cases x) (simp add: sx_callback_def Let_def u t in_world_keys key_ops split: send_task.split sender_call.split)
qed (cases x; simp add: sx_callback_def track_stop_def Let_def split: send_task.split sender_call.split)+

lemma callback_inv:
  assumes inv: "sender_inv s"
  shows "sender_inv (sx_step s (OpThen n))"
proof (cases "n < length (sx_then s)")
  case True
  define x where "x = sx_then s ! n"
  define s0 where "s0 = s\<lparr>sx_then := drop_nth n (sx_then s), sx_settled := sx_settled s @ [x]\<rparr>"
  have "set (sx_then s) = insert x (set (drop_nth n (sx_then s)))"
    by (subst drop_nth_split [OF True]) (simp add: drop_nth_def x_def)
  then have "fst ` set (sx_then s) \<union> fst ` set (sx_settled s) = fst ` set (sx_then s0) \<union> fst ` set (sx_settled s0)"
    by (auto simp: s0_def)
  then have "sender_inv s0"
    using inv unfolding sender_inv_def tasks_inv_def Un_assoc by (simp add: s0_def in_tasks_def keys_def)
  then have "sender_inv (sx_callback x (s\<lparr>sx_then := drop_nth n (sx_then s)\<rparr>))"
    by (rule sender_inv_cong) (simp_all add: s0_def, simp_all add: keys_def)
  then show ?thesis using True by (simp add: x_def)
qed (use inv in simp)

text \<open>Closing the transport: the queue hands every task it held to its callbacks.\<close>

lemma sx_effects_rejected:
  "sx_effects v (map (\<lambda>(i, t). Rejected i t) cs) s = s\<lparr>sx_then := sx_then s @ map (\<lambda>(i, t). (i, t, v)) cs\<rparr>"
  by (induction cs arbitrary: s) auto

lemma close_producers_frame [simp]:
  "sx_awaitQueue (close_producers ns s) = sx_awaitQueue s" "sx_running (close_producers ns s) = sx_running s"
  "sx_then (close_producers ns s) = sx_then s" "sx_settled (close_producers ns s) = sx_settled s"
  "sx_closed (close_producers ns s) = sx_closed s"
  by (induction ns s rule: close_producers.induct) simp_all

lemma close_data_producers_frame [simp]:
  "sx_awaitQueue (close_data_producers ps s) = sx_awaitQueue s" "sx_running (close_data_producers ps s) = sx_running s"
  "sx_then (close_data_producers ps s) = sx_then s" "sx_settled (close_data_producers ps s) = sx_settled s"
  "sx_closed (close_data_producers ps s) = sx_closed s" "sx_tracks (close_data_producers ps s) = sx_tracks s"
  by (induction ps s rule: close_data_producers.induct) simp_all

lemma sx_close_eq:
  assumes "aq_ok (sx_awaitQueue s)" "\<not> sx_closed s"
  shows "sx_awaitQueue (sx_close s) = fst (aq_stop (sx_awaitQueue s))" "sx_running (sx_close s) = sx_running s"
    "sx_then (sx_close s) = sx_then s @ map (\<lambda>(i, t). (i, t, Inl (OtherError ''AwaitQueue stopped''))) (contents (sx_awaitQueue s))"
    "sx_settled (sx_close s) = sx_settled s" "sx_closed (sx_close s)"
    "sx_tracks (sx_close s) = sx_tracks (close_producers (jm_values (sx_producers s)) s)"
proof -
  obtain q es where e: "aq_stop (sx_awaitQueue s) = (q, es)" by (cases "aq_stop (sx_awaitQueue s)")
  have es: "es = map (\<lambda>(i, t). Rejected i t) (contents (sx_awaitQueue s))" using aq.conts_stop [OF assms(1)] e by simp
  have tr: "sx_tracks (close_producers ns s1) = sx_tracks (close_producers ns s2)"
    if "sx_heap s1 = sx_heap s2" "sx_tracks s1 = sx_tracks s2" for ns s1 s2
    using that
  proof (induction ns arbitrary: s1 s2)
    case (Cons n ns)
    have "sx_tracks (close_producers ns (in_world pd_transportClosed n s1)) = sx_tracks (close_producers ns (in_world pd_transportClosed n s2))"
      by (rule Cons.IH) (use Cons.prems in \<open>simp_all add: in_world_def Let_def\<close>)
    then show ?case by simp
  qed simp
  show "sx_tracks (sx_close s) = sx_tracks (close_producers (jm_values (sx_producers s)) s)"
    using assms e by (simp add: sx_close_def sx_call_def Let_def) (rule tr, simp_all)
  show "sx_awaitQueue (sx_close s) = fst (aq_stop (sx_awaitQueue s))" "sx_running (sx_close s) = sx_running s"
    "sx_then (sx_close s) = sx_then s @ map (\<lambda>(i, t). (i, t, Inl (OtherError ''AwaitQueue stopped''))) (contents (sx_awaitQueue s))"
    "sx_settled (sx_close s) = sx_settled s" "sx_closed (sx_close s)"
    using assms e by (simp_all add: sx_close_def sx_call_def Let_def sx_effects_rejected es)
qed

lemma sx_close_inv:
  assumes inv: "sender_inv s"
  shows "sender_inv (sx_close s)"
proof (cases "sx_closed s")
  case False
  have ok: "aq_ok (sx_awaitQueue s)" and w: "queue_waits (sx_awaitQueue s) (sx_running s)"
    using inv tasks_inv_ok [of s] by (simp_all add: sender_inv_def tasks_inv_def)
  note c = aq.conts_stop [OF ok] and okq = aq.ok_stop [OF ok] and nx = aq_stop_next [OF ok]
  have "queue_waits (fst (aq_stop (sx_awaitQueue s))) (sx_running s)"
    using w c okq nx by (auto simp: queue_waits_def running_def)
  moreover have "fst ` set (map (\<lambda>(i, t). (i, t, v)) cs) = fst ` set cs" for v :: outcome and cs :: "(nat \<times> send_task) list"
    by (simp add: image_image case_prod_unfold)
  ultimately show ?thesis
    using inv c nx sx_close_eq(5) [OF ok False] unfolding sender_inv_def tasks_inv_def sx_close_eq(1-4) [OF ok False]
    by (auto simp: image_Un)
qed (use inv in \<open>simp add: sx_close_def\<close>)

interpretation senders: step_invariant sx_step sender_inv
proof
  fix s e assume inv: "sender_inv s"
  have req: "sender_inv (producer_request n c s')" if "sender_inv s'" "\<And>l. stop_id (c l) = []" for n c s'
    unfolding producer_request_def by (rule sx_push_inv) (use that in simp_all)
  have data: "sender_inv (on_data f i s)" for f i
    by (rule sender_inv_cong [OF inv]) (simp_all add: on_data_def keys_def split: option.split prod.split)
  show "sender_inv (sx_step s e)"
  proof (cases e)
    case (OpProduce track encs stop dis zero appData)
    then show ?thesis using inv by (simp add: sx_produce_def sx_push_inv split: option.split)
  next
    case (OpPauseProducer n)
    have "sender_inv (in_world (\<lambda>w. let w' = set_paused True w in w'\<lparr>pw_producer := emit_events [EvObserverPause] (pw_producer w')\<rparr>) n s)"
      by (rule in_world_inv [OF inv]) (simp add: key_ops Let_def)
    then show ?thesis using inv OpPauseProducer by (simp add: pauseProducer_def req Let_def)
  next
    case (OpResumeProducer n)
    have "sender_inv (in_world (\<lambda>w. let w' = set_paused False w in w'\<lparr>pw_producer := emit_events [EvObserverResume] (pw_producer w')\<rparr>) n s)"
      by (rule in_world_inv [OF inv]) (simp add: key_ops Let_def)
    then show ?thesis using inv OpResumeProducer by (simp add: resumeProducer_def req Let_def)
  next
    case (OpReplaceTrack track n)
    have "sender_inv (in_world (\<lambda>w. fst (replaceTrack_begin track w)) n s)"
      by (rule in_world_inv [OF inv]) (simp add: key_ops)
    then show ?thesis using inv OpReplaceTrack by (simp add: replaceProducerTrack_def req Let_def)
  next
    case (OpConnectionState st)
    show ?thesis by (rule sender_inv_cong [OF inv]) (simp_all add: OpConnectionState keys_def)
  next
    case (OpTrackEnded t)
    show ?thesis by (rule sender_inv_cong [OF inv]) (simp_all add: OpTrackEnded track_stop_def keys_def)
  qed (use inv data req back_inv callback_inv closeProducer_inv sx_close_inv in
      \<open>simp_all add: sx_produceData_def sx_restartIce_def sx_updateIceServers_def setProducerLayer_def setProducerEncoding_def
         sx_push_inv split: jsval.split option.split\<close>)
qed

lemma new_SendTransport_inv: "sender_inv (new_SendTransport can mx tracks c p d)"
  by (simp add: sender_inv_def tasks_inv_def queue_waits_def running_def new_SendTransport_def aq.ok_empty aq.conts_empty
      reg_ok_def registered_def in_tasks_def keys_def jm_values_def) (simp add: new_AwaitQueue_def)

section \<open>Ended tracks\<close>

definition ended_le :: "track_store \<Rightarrow> track_store \<Rightarrow> bool" where
  "ended_le T T' \<longleftrightarrow> (\<forall>t. mt_ended (T t) \<longrightarrow> mt_ended (T' t))"

lemma ended_le_refl [simp]: "ended_le T T"
  by (simp add: ended_le_def)

lemma ended_le_trans: "ended_le T T' \<Longrightarrow> ended_le T' T'' \<Longrightarrow> ended_le T T''"
  by (simp add: ended_le_def)

lemma ended_le_ops:
  "ended_le (pw_tracks w) (pw_tracks (pd_close w))" "ended_le (pw_tracks w) (pw_tracks (pd_transportClosed w))"
  "ended_le (pw_tracks w) (pw_tracks (set_paused b w))" "ended_le (pw_tracks w) (pw_tracks (replaceTrack_end track w))"
  "ended_le (pw_tracks w) (pw_tracks (fst (replaceTrack_begin track w)))"
  "ended_le tracks (pw_tracks (new_Producer opts tracks ()))"
  by (auto simp: ended_le_def producer_op_defs track_op_defs new_Producer_def Let_def split: option.split)

lemma ended_in_world:
  assumes "\<And>w. ended_le (pw_tracks w) (pw_tracks (f w))"
  shows "ended_le (sx_tracks s) (sx_tracks (in_world f n s))"
  using assms [of "\<lparr>pw_producer = sx_heap s ! n, pw_tracks = sx_tracks s, pw_host = ()\<rparr>"] by (simp add: in_world_def Let_def)

lemma ended_track_stop: "ended_le (sx_tracks s) (sx_tracks (track_stop t s))"
  by (simp add: ended_le_def track_stop_def)

lemma ended_close_producers: "ended_le (sx_tracks s) (sx_tracks (close_producers ns s))"
proof (induction ns s rule: close_producers.induct)
  case (2 n ns s)
  show ?case
    using ended_le_trans [OF ended_in_world [OF ended_le_ops(2)] "2.IH"] by simp
qed simp

text \<open>The track of a \<open>produce\<close> that failed is stopped, if the caller asked for that.\<close>

fun ended_ok :: "track_store \<Rightarrow> nat \<times> send_task \<times> outcome \<Rightarrow> bool" where
  "ended_ok T (i, ProduceTask r, v) = (isl v \<and> pq_stopTracks r \<longrightarrow> mt_ended (T (pq_track r)))"
| "ended_ok T (i, _, v) = True"

definition ended_inv :: "send_transport \<Rightarrow> bool" where
  "ended_inv s \<longleftrightarrow> list_all (ended_ok (sx_tracks s)) (sx_settled s)"

lemma ended_ok_mono: "ended_ok T x \<Longrightarrow> ended_le T T' \<Longrightarrow> ended_ok T' x"
  by (cases "(T, x)" rule: ended_ok.cases) (auto simp: ended_le_def)

lemma ended_inv_mono: "ended_inv s \<Longrightarrow> ended_le (sx_tracks s) (sx_tracks s') \<Longrightarrow> sx_settled s' = sx_settled s \<Longrightarrow> ended_inv s'"
  unfolding ended_inv_def list_all_iff using ended_ok_mono by fastforce

lemma ended_create: "ended_le (sx_tracks s) (sx_tracks (create_producer r l params pid s))"
  using ended_le_ops(6) [of "sx_tracks s"] by (simp add: create_producer_def Let_def)

lemma sx_call_frame [simp]: "sx_tracks (sx_call c s) = sx_tracks s" "sx_settled (sx_call c s) = sx_settled s"
  "sx_tracks (sx_stage i st s) = sx_tracks s" "sx_settled (sx_stage i st s) = sx_settled s"
  by (simp_all add: sx_call_def sx_stage_def)

lemma ended_continue:
  "ended_le (sx_tracks s) (sx_tracks (sx_continue i st a s)) \<and> sx_settled (sx_continue i st a s) = sx_settled s"
proof -
  have "sx_settled (create_producer r l params pid s) = sx_settled s" for r l params pid
    by (simp add: create_producer_def Let_def)
  then show ?thesis
    using ended_create [of s] by (cases st; cases a) (simp_all add: sx_continue_def Let_def split: sum.split)
qed

lemma callback_ended:
  assumes "ended_inv s"
  shows "ended_inv (sx_callback x s)"
proof -
  obtain i t v where x: "x = (i, t, v)" by (cases x)
  have "ended_le (sx_tracks s) (sx_tracks (sx_callback x s))"
    by (auto simp: x sx_callback_def Let_def ended_track_stop ended_le_ops(4)
        intro!: ended_in_world split: send_task.split sender_call.split)
  then have "ended_inv ((sx_callback x s)\<lparr>sx_settled := sx_settled s\<rparr>)"
    by (intro ended_inv_mono [OF assms]) simp_all
  moreover have "mt_ended (sx_tracks (sx_callback x s) (pq_track r))" if "t = ProduceTask r" "isl v" "pq_stopTracks r" for r
    using that by (simp add: x sx_callback_def track_stop_def Let_def)
  ultimately show ?thesis by (cases t) (simp_all add: ended_inv_def x)
qed

interpretation tracks: step_invariant sx_step "\<lambda>s. sender_inv s \<and> ended_inv s"
proof
  fix s e assume inv: "sender_inv s \<and> ended_inv s"
  note mono = ended_inv_mono [of s, OF conjunct2 [OF inv]]
  have req: "sx_tracks (producer_request n c s') = sx_tracks s'" "sx_settled (producer_request n c s') = sx_settled s'" for n c s'
    by (simp_all add: producer_request_def)
  have "ended_inv (sx_step s e)"
  proof (cases e)
    case (OpBack n a)
    obtain i st where "sx_running s ! n = (i, st)" by (cases "sx_running s ! n")
    then show ?thesis
      using inv OpBack ended_continue [of "s\<lparr>sx_running := drop_nth n (sx_running s)\<rparr>" i st a] by (auto intro: mono)
  next
    case (OpThen n)
    have "ended_inv (s\<lparr>sx_then := drop_nth n (sx_then s)\<rparr>)" by (rule mono) simp_all
    then show ?thesis using inv OpThen by (simp add: callback_ended)
  next
    case OpClose
    show ?thesis
    proof (cases "sx_closed s")
      case False
      have ok: "aq_ok (sx_awaitQueue s)" using inv by (simp add: sender_inv_def tasks_inv_ok)
      show ?thesis using mono ended_close_producers [of s] sx_close_eq [OF ok False] OpClose by simp
    qed (use inv OpClose in \<open>simp add: sx_close_def\<close>)
  next
    case (OpCloseProducer n)
    show ?thesis
      unfolding OpCloseProducer
      by (rule mono) (auto simp: closeProducer_def on_producer_close_def Let_def req intro!: ended_in_world ended_le_ops(1))
  next
    case (OpPauseProducer n)
    show ?thesis
      unfolding OpPauseProducer
      by (rule mono) (auto simp: pauseProducer_def Let_def req ended_le_ops(3) intro!: ended_in_world)
  next
    case (OpResumeProducer n)
    show ?thesis
      unfolding OpResumeProducer
      by (rule mono) (auto simp: resumeProducer_def Let_def req ended_le_ops(3) intro!: ended_in_world)
  next
    case (OpReplaceTrack track n)
    show ?thesis
      unfolding OpReplaceTrack
      by (rule mono) (auto simp: replaceProducerTrack_def Let_def req ended_le_ops(5) intro!: ended_in_world)
  next
    case (OpTrackEnded t)
    show ?thesis
      unfolding OpTrackEnded by (rule mono) (simp_all add: ended_track_stop, simp add: track_stop_def)
  qed (rule mono; simp add: sx_produce_def sx_produceData_def sx_restartIce_def sx_updateIceServers_def setProducerLayer_def
      setProducerEncoding_def on_data_def req split: jsval.split option.split prod.split)+
  with inv show "sender_inv (sx_step s e) \<and> ended_inv (sx_step s e)" using senders.step_inv by blast
qed

section \<open>Sending transports at rest\<close>

text \<open>C6: However requests, answers, callbacks and the calls on producers interleave: when no task and no callback is
  left, every task ever given to the queue has been settled, whether or not the transport was closed, and a
  \<open>produce\<close> that failed has stopped its track if it was to. While the transport is open, its map holds exactly the
  open producers, and every sender the handler has created is the one of an open producer or has been stopped, once.\<close>

theorem senders_accounted:
  assumes run: "s = foldl sx_step (new_SendTransport can mx tracks c p d) ops"
    and rest: "sx_running s = []" "sx_then s = []"
  shows "list_all (\<lambda>i. i \<in> fst ` set (sx_settled s)) [0..<aq_nextTaskId (sx_awaitQueue s)] \<and>
    list_all (ended_ok (sx_tracks s)) (sx_settled s) \<and>
    (\<not> sx_closed s \<longrightarrow>
       mset (sx_sent s) = mset (map (\<lambda>n. pd_localId (sx_heap s ! n)) (jm_values (sx_producers s))) +
         mset (concat (map stop_id (sx_calls s))) \<and>
       (\<forall>i n. jm_get (sx_producers s) i = Some n \<longleftrightarrow> n < length (sx_heap s) \<and> pd_id (sx_heap s ! n) = i \<and> \<not> pd_closed (sx_heap s ! n)))"
proof -
  have "sender_inv s \<and> ended_inv s"
    unfolding run by (rule tracks.run_inv) (simp add: new_SendTransport_inv, simp add: ended_inv_def new_SendTransport_def)
  then have inv: "tasks_inv s" "ended_inv s"
      "sx_closed s \<or> reg_ok (keys s) (sx_producers s) \<and> mset (sx_sent s) = registered (keys s) (sx_producers s) + in_tasks s"
    by (auto simp: sender_inv_def)
  have empty: "contents (sx_awaitQueue s) = []"
    using inv(1) rest by (cases "contents (sx_awaitQueue s)") (auto simp: tasks_inv_def queue_waits_def running_def)
  have "list_all (\<lambda>i. i \<in> fst ` set (sx_settled s)) [0..<aq_nextTaskId (sx_awaitQueue s)]"
    using inv(1) rest empty by (simp add: tasks_inv_def list_all_iff)
  moreover have "mset (sx_sent s) = mset (map (\<lambda>n. pd_localId (sx_heap s ! n)) (jm_values (sx_producers s))) +
      mset (concat (map stop_id (sx_calls s))) \<and>
      (\<forall>i n. jm_get (sx_producers s) i = Some n \<longleftrightarrow> n < length (sx_heap s) \<and> pd_id (sx_heap s ! n) = i \<and> \<not> pd_closed (sx_heap s ! n))"
    if "\<not> sx_closed s"
  proof -
    have reg: "reg_ok (keys s) (sx_producers s)" and m: "mset (sx_sent s) = registered (keys s) (sx_producers s) + in_tasks s"
      using inv(3) that by auto
    have g: "jm_get (sx_producers s) i = Some n \<longleftrightarrow> n < length (sx_heap s) \<and> pd_id (sx_heap s ! n) = i \<and> \<not> pd_closed (sx_heap s ! n)" for i n
      using reg by (cases "n < length (sx_heap s)") (auto simp: reg_ok_def keys_def key_def)
    have "n < length (sx_heap s)" if "n \<in> set (jm_values (sx_producers s))" for n
      using that reg g jm_values_iff [of "sx_producers s" n] by (auto simp: reg_ok_def)
    then have "map (\<lambda>n. fst (snd (keys s ! n))) (jm_values (sx_producers s)) = map (\<lambda>n. pd_localId (sx_heap s ! n)) (jm_values (sx_producers s))"
      by (auto simp: keys_def key_def)
    then have "registered (keys s) (sx_producers s) = mset (map (\<lambda>n. pd_localId (sx_heap s ! n)) (jm_values (sx_producers s)))"
      unfolding registered_def by (rule arg_cong)
    moreover have "in_tasks s = mset (concat (map stop_id (sx_calls s)))"
      using rest empty by (simp add: in_tasks_def)
    ultimately show ?thesis using m g by simp
  qed
  ultimately show ?thesis using inv(2) by (simp add: ended_inv_def)
qed

definition live_tracks :: track_store where
  "live_tracks t = opus_track"

definition opus_sender :: send_transport where
  "opus_sender = new_SendTransport (\<lambda>k. True) (Some (Fin 262144)) live_tracks 1 1 1"

definition op_produce :: "track_ref \<Rightarrow> send_op" where
  "op_produce t = OpProduce (Some t) VUndef True True False VUndef"

text \<open>One producer is opened and closed, one is refused by the server, one stays.\<close>

definition sender_run :: "send_op list" where
  "sender_run = [op_produce 0, op_produce 1, OpBack 0 (ASent ''l0'' opus_parameters), OpBack 0 (AId ''p0''), OpCloseProducer 0,
     op_produce 2, OpBack 0 (ASent ''l1'' opus_parameters), OpThen 0, OpBack 0 (AFail (OtherError ''no'')), OpBack 0 ADone, OpThen 1,
     OpBack 0 (ASent ''l2'' opus_parameters), OpBack 0 (AId ''p2''), OpThen 1, OpThen 0]"

theorem senders_accounted_witness:
  "mset (sx_sent (foldl sx_step opus_sender sender_run)) =
     mset (map (\<lambda>n. pd_localId (sx_heap (foldl sx_step opus_sender sender_run) ! n)) (jm_values (sx_producers (foldl sx_step opus_sender sender_run)))) +
     mset (concat (map stop_id (sx_calls (foldl sx_step opus_sender sender_run)))) \<and>
   sx_sent (foldl sx_step opus_sender sender_run) = [''l0'', ''l1'', ''l2''] \<and>
   jm_keys (sx_producers (foldl sx_step opus_sender sender_run)) = [''p2'']"
proof -
  let ?s = "foldl sx_step opus_sender sender_run"
  have "sx_running ?s = [] \<and> sx_then ?s = [] \<and> \<not> sx_closed ?s"
    by code_simp
  then have "mset (sx_sent ?s) = mset (map (\<lambda>n. pd_localId (sx_heap ?s ! n)) (jm_values (sx_producers ?s))) + mset (concat (map stop_id (sx_calls ?s)))"
    using senders_accounted [of ?s "\<lambda>k. True" "Some (Fin 262144)" live_tracks 1 1 1 sender_run, OF arg_cong [OF opus_sender_def]] by blast
  moreover have "sx_sent ?s = [''l0'', ''l1'', ''l2'']" "jm_keys (sx_producers ?s) = [''p2'']"
    by code_simp+
  ultimately show ?thesis by blast
qed

text \<open>A \<open>produce\<close> whose announcement is still with the application goes on after \<open>close\<close>: its promise is rejected and its
  track stopped, but the closed transport gets a producer that is open.\<close>

lemma producer_after_close:
  "sx_closed (foldl sx_step opus_sender [op_produce 0, OpBack 0 (ASent ''l0'' opus_parameters), OpClose, OpBack 0 (AId ''p0'')]) \<and>
   map pd_closed (sx_heap (foldl sx_step opus_sender [op_produce 0, OpBack 0 (ASent ''l0'' opus_parameters), OpClose, OpBack 0 (AId ''p0'')])) = [False]"
  by code_simp

text \<open>Unlike \<open>produce\<close>, \<open>produceData\<close> does not undo its first step when the server refuses: the channel stays open
  with no data producer to close it.\<close>

lemma refused_channel_stays_open:
  "map ch_closed (sx_channels (foldl sx_step opus_sender
     [OpProduceData True VUndef VUndef ''l'' ''p'' VUndef, OpBack 0 (AChannel (VObj [(''streamId'', VNum (Fin 1))])),
      OpBack 0 (AFail (OtherError ''no'')), OpThen 0])) = [False]"
  by code_simp

text \<open>\<open>pause\<close> with the queue as transport is the \<open>pause\<close> of the producer.\<close>

lemma pauseProducer_is_pd_pause:
  assumes "n < length (sx_heap s)" "\<And>h. so_pause ops h = h @ [pd_localId (sx_heap s ! n)]"
  shows "sx_heap (pauseProducer n s) ! n = pw_producer (pd_pause ops \<lparr>pw_producer = sx_heap s ! n, pw_tracks = sx_tracks s, pw_host = []\<rparr>) \<and>
    sx_tracks (pauseProducer n s) = pw_tracks (pd_pause ops \<lparr>pw_producer = sx_heap s ! n, pw_tracks = sx_tracks s, pw_host = []\<rparr>)"
  using assms by (simp add: pauseProducer_def in_world_def producer_request_def pd_pause_def set_paused_def track_op_defs Let_def split: option.split)

end
