(* ===== verification/Device.thy ===== *)
theory Device
  imports DeviceDetect SendTransport
begin

text \<open>
  The device, \<open>Device.js\<close>: it chooses a handler, loads the capabilities that both sides have in common, and
  creates transports with them. \<open>load\<close> waits twice for its temporary handler, so calls of it can interleave;
  a call that waits is kept with the stage it is in. What the handler answers is an input of the step that
  goes on.
\<close>

section \<open>Capabilities as objects\<close>

text \<open>What the negotiation reads of validated capabilities, and the object that \<open>getRecvRtpCapabilities\<close> makes.\<close>

definition read_number :: "jsval \<Rightarrow> number" where
  "read_number v = (case v of VNum n \<Rightarrow> n | _ \<Rightarrow> NaN)"

definition read_optional :: "jsval \<Rightarrow> number option" where
  "read_optional v = (case v of VNum n \<Rightarrow> Some n | _ \<Rightarrow> None)"

definition read_string :: "jsval \<Rightarrow> string" where
  "read_string v = (case v of VStr s \<Rightarrow> s | _ \<Rightarrow> [])"

definition read_kind :: "jsval \<Rightarrow> track_kind option" where
  "read_kind v = (if v = VStr ''audio'' then Some KAudio else if v = VStr ''video'' then Some KVideo else None)"

definition read_feedback :: "jsval \<Rightarrow> rtcp_feedback" where
  "read_feedback v = \<lparr>fb_type = read_string (opt_prop v ''type''),
     fb_parameter = (case opt_prop v ''parameter'' of VStr s \<Rightarrow> Some s | _ \<Rightarrow> None)\<rparr>"

definition read_codec :: "jsval \<Rightarrow> codec_capability" where
  "read_codec v = \<lparr>cd_mimeType = read_string (opt_prop v ''mimeType''), cd_clockRate = read_number (opt_prop v ''clockRate''),
     cd_channels = read_optional (opt_prop v ''channels''),
     cd_parameters = (case opt_prop v ''parameters'' of VObj ps \<Rightarrow> ps | _ \<Rightarrow> []),
     cd_rtcpFeedback = map read_feedback (OrtcValidate.list_of (opt_prop v ''rtcpFeedback'')),
     cc_kind = (case read_kind (opt_prop v ''kind'') of Some k \<Rightarrow> k | None \<Rightarrow> KVideo),
     cc_preferredPayloadType = read_optional (opt_prop v ''preferredPayloadType'')\<rparr>"

definition read_extension :: "jsval \<Rightarrow> header_extension" where
  "read_extension v = \<lparr>he_kind = read_kind (opt_prop v ''kind''), he_uri = read_string (opt_prop v ''uri''),
     he_preferredId = read_number (opt_prop v ''preferredId''), he_preferredEncrypt = truthy (opt_prop v ''preferredEncrypt''),
     he_direction = read_string (opt_prop v ''direction'')\<rparr>"

definition read_capabilities :: "jsval \<Rightarrow> rtp_capabilities" where
  "read_capabilities v = \<lparr>rc_codecs = map read_codec (OrtcValidate.list_of (opt_prop v ''codecs'')),
     rc_headerExtensions = map read_extension (OrtcValidate.list_of (opt_prop v ''headerExtensions''))\<rparr>"

definition feedback_object :: "rtcp_feedback \<Rightarrow> jsval" where
  "feedback_object fb = VObj [(''type'', VStr (fb_type fb)), (''parameter'', opt_str (fb_parameter fb))]"

definition recv_codec_objects :: "extended_codec \<Rightarrow> jsval list" where
  "recv_codec_objects x =
     VObj [(''mimeType'', VStr (xc_mimeType x)), (''kind'', VStr (kind_str (xc_kind x))),
       (''preferredPayloadType'', opt_num (xc_remotePayloadType x)), (''clockRate'', VNum (xc_clockRate x)),
       (''channels'', opt_num (xc_channels x)), (''parameters'', VObj (xc_localParameters x)),
       (''rtcpFeedback'', VArr (map feedback_object (xc_rtcpFeedback x)))] #
     (if \<not> present (xc_remoteRtxPayloadType x) then []
      else [VObj [(''mimeType'', VStr (kind_str (xc_kind x) @ ''/rtx'')), (''kind'', VStr (kind_str (xc_kind x))),
        (''preferredPayloadType'', opt_num (xc_remoteRtxPayloadType x)), (''clockRate'', VNum (xc_clockRate x)),
        (''parameters'', VObj [(''apt'', opt_num (xc_remotePayloadType x))]), (''rtcpFeedback'', VArr [])]])"

definition recv_extension_object :: "extended_extension \<Rightarrow> jsval" where
  "recv_extension_object x = VObj [(''kind'', case xe_kind x of Some k \<Rightarrow> VStr (kind_str k) | None \<Rightarrow> VUndef), (''uri'', VStr (xe_uri x)),
     (''preferredId'', VNum (xe_recvId x)), (''preferredEncrypt'', VBool (xe_encrypt x)),
     (''direction'', VStr (direction_str (xe_direction x)))]"

definition recv_capabilities :: "extended_capabilities \<Rightarrow> jsval" where
  "recv_capabilities e =
     VObj [(''codecs'', VArr (concat (map recv_codec_objects (xr_codecs e)))),
       (''headerExtensions'', VArr (map recv_extension_object
         (filter (\<lambda>x. xe_direction x = Sendrecv \<or> xe_direction x = Recvonly) (xr_headerExtensions e))))]"

section \<open>The device\<close>

text \<open>What a transport is given when it is created.\<close>

record transport_setup =
  ts_direction :: transport_direction
  ts_id :: string
  ts_maxSctpMessageSize :: jsval
  ts_extended :: "extended_capabilities option"
  ts_canProduce :: "track_kind \<Rightarrow> bool"

text \<open>A call of \<open>load\<close> waits for the codecs, with the capabilities of the router, or for the SCTP capabilities.\<close>

datatype load_stage = AwaitRtp jsval | AwaitSctp

record device =
  dv_handlerName :: string
  dv_loaded :: bool
  dv_extended :: "extended_capabilities option"
  dv_recv :: "jsval option"
  dv_canProduce :: "track_kind \<Rightarrow> bool"
  dv_sctp :: "jsval option"
  dv_loads :: "(nat \<times> load_stage) list"
  dv_outcomes :: "(nat \<times> unit result) list"
  dv_created :: nat
  dv_closed :: nat
  dv_transports :: "transport_setup list"

text \<open>The temporary handler that the constructor makes, to ask for its name, is closed at once.\<close>

definition fresh_device :: "string \<Rightarrow> device" where
  "fresh_device handlerName =
     \<lparr>dv_handlerName = handlerName, dv_loaded = False, dv_extended = None, dv_recv = None, dv_canProduce = (\<lambda>_. False),
      dv_sctp = None, dv_loads = [], dv_outcomes = [], dv_created = 1, dv_closed = 1, dv_transports = []\<rparr>"

text \<open>A given factory comes with the name of its handlers.\<close>

definition new_Device :: "string option \<Rightarrow> string option \<Rightarrow> string option \<Rightarrow> device result" where
  "new_Device handlerName handlerFactory detected =
     (if given handlerName \<and> handlerFactory \<noteq> None
      then Inl (TypeError ''just one of handlerName or handlerInterface can be given'')
      else case handlerFactory of
        Some name \<Rightarrow> Inr (fresh_device name)
      | None \<Rightarrow>
          (case (if given handlerName then handlerName else detected) of
             None \<Rightarrow> Inl (UnsupportedError ''device not supported'')
           | Some name \<Rightarrow>
               if name = [] then Inl (UnsupportedError ''device not supported'')
               else if name \<in> set HANDLER_NAMES then Inr (fresh_device name)
               else Inl (TypeError ''unknown handlerName'')))"

definition settle :: "nat \<Rightarrow> unit result \<Rightarrow> device \<Rightarrow> device" where
  "settle i res d = d\<lparr>dv_loads := filter (\<lambda>(j, _). j \<noteq> i) (dv_loads d), dv_outcomes := dv_outcomes d @ [(i, res)]\<rparr>"

text \<open>The end of a call that has a handler: it is closed.\<close>

definition settle_close :: "nat \<Rightarrow> unit result \<Rightarrow> device \<Rightarrow> device" where
  "settle_close i res d = settle i res (d\<lparr>dv_closed := dv_closed d + 1\<rparr>)"

definition await_stage :: "nat \<Rightarrow> load_stage \<Rightarrow> device \<Rightarrow> device" where
  "await_stage i stage d = d\<lparr>dv_loads := filter (\<lambda>(j, _). j \<noteq> i) (dv_loads d) @ [(i, stage)]\<rparr>"

definition load_begin :: "nat \<Rightarrow> jsval \<Rightarrow> unit result \<Rightarrow> device \<Rightarrow> device" where
  "load_begin i routerRtpCapabilities factory d =
     (if dv_loaded d then settle i (Inl (InvalidStateError ''already loaded'')) d
      else case validateRtpCapabilities routerRtpCapabilities of
        Inl e \<Rightarrow> settle i (Inl e) d
      | Inr router \<Rightarrow>
          (case factory of
             Inl e \<Rightarrow> settle i (Inl e) d
           | Inr _ \<Rightarrow> await_stage i (AwaitRtp router) (d\<lparr>dv_created := dv_created d + 1\<rparr>)))"

text \<open>The second part, with what \<open>getNativeRtpCapabilities\<close> answered. The receiving capabilities are stored before they are
  validated; of a validation that fails, the defaults it had filled in by then are left out. The table of what can be
  produced is changed in place, and the transports made so far share it.\<close>

definition negotiated :: "extended_capabilities \<Rightarrow> jsval \<Rightarrow> device \<Rightarrow> device" where
  "negotiated extended recv d =
     d\<lparr>dv_extended := Some extended, dv_canProduce := (\<lambda>kind. canSend kind extended), dv_recv := Some recv,
       dv_transports := map (\<lambda>t. t\<lparr>ts_canProduce := (\<lambda>kind. canSend kind extended)\<rparr>) (dv_transports d)\<rparr>"

definition load_rtp :: "h264 \<Rightarrow> nat \<Rightarrow> jsval \<Rightarrow> jsval result \<Rightarrow> device \<Rightarrow> device" where
  "load_rtp lib i router res d =
     (case bindr res validateRtpCapabilities of
        Inl e \<Rightarrow> settle_close i (Inl e) d
      | Inr native \<Rightarrow>
          let extended = getExtendedRtpCapabilities lib (read_capabilities native) (read_capabilities router)
          in case validateRtpCapabilities (recv_capabilities extended) of
               Inl e \<Rightarrow> settle_close i (Inl e) (negotiated extended (recv_capabilities extended) d)
             | Inr recv \<Rightarrow> await_stage i AwaitSctp (negotiated extended recv d))"

definition load_sctp :: "nat \<Rightarrow> jsval result \<Rightarrow> device \<Rightarrow> device" where
  "load_sctp i res d =
     (case res of
        Inl e \<Rightarrow> settle_close i (Inl e) d
      | Inr sctp \<Rightarrow>
          (case validateSctpCapabilities sctp of
             Inl e \<Rightarrow> settle_close i (Inl e) (d\<lparr>dv_sctp := Some sctp\<rparr>)
           | Inr _ \<Rightarrow> settle_close i (Inr ()) (d\<lparr>dv_sctp := Some sctp, dv_loaded := True\<rparr>)))"

definition not_loaded :: js_error where
  "not_loaded = InvalidStateError ''not loaded''"

definition dv_rtpCapabilities :: "device \<Rightarrow> jsval option result" where
  "dv_rtpCapabilities d = (if \<not> dv_loaded d then Inl not_loaded else Inr (dv_recv d))"

definition dv_sctpCapabilities :: "device \<Rightarrow> jsval option result" where
  "dv_sctpCapabilities d = (if \<not> dv_loaded d then Inl not_loaded else Inr (dv_sctp d))"

definition canProduce :: "string \<Rightarrow> device \<Rightarrow> bool result" where
  "canProduce kind d =
     (if \<not> dv_loaded d then Inl not_loaded
      else if kind \<noteq> ''audio'' \<and> kind \<noteq> ''video'' then Inl (TypeError ''invalid kind'')
      else Inr (dv_canProduce d (if kind = ''audio'' then KAudio else KVideo)))"

section \<open>Transports\<close>

record transport_request =
  tq_id :: jsval
  tq_iceParameters :: jsval
  tq_iceCandidates :: jsval
  tq_dtlsParameters :: jsval
  tq_sctpParameters :: jsval
  tq_appData :: jsval

definition createTransport :: "transport_direction \<Rightarrow> transport_request \<Rightarrow> device \<Rightarrow> device \<times> transport_setup result" where
  "createTransport direction q d =
     (if \<not> dv_loaded d then (d, Inl not_loaded)
      else case tq_id q of
        VStr id' \<Rightarrow>
          if \<not> typeof_object (tq_iceParameters q) then (d, Inl (TypeError ''missing iceParameters''))
          else if (case tq_iceCandidates q of VArr _ \<Rightarrow> False | _ \<Rightarrow> True) then (d, Inl (TypeError ''missing iceCandidates''))
          else if \<not> typeof_object (tq_dtlsParameters q) then (d, Inl (TypeError ''missing dtlsParameters''))
          else if truthy (tq_sctpParameters q) \<and> \<not> typeof_object (tq_sctpParameters q) then (d, Inl (TypeError ''wrong sctpParameters''))
          else if truthy (tq_appData q) \<and> \<not> typeof_object (tq_appData q) then (d, Inl (TypeError ''if given, appData must be an object''))
          else let t = \<lparr>ts_direction = direction, ts_id = id',
                 ts_maxSctpMessageSize = (if truthy (tq_sctpParameters q) then opt_prop (tq_sctpParameters q) ''maxMessageSize'' else VNull),
                 ts_extended = dv_extended d, ts_canProduce = dv_canProduce d\<rparr>
               in (d\<lparr>dv_transports := dv_transports d @ [t]\<rparr>, Inr t)
      | _ \<Rightarrow> (d, Inl (TypeError ''missing id'')))"

definition createSendTransport :: "transport_request \<Rightarrow> device \<Rightarrow> device \<times> transport_setup result" where
  "createSendTransport = createTransport SendDir"

definition createRecvTransport :: "transport_request \<Rightarrow> device \<Rightarrow> device \<times> transport_setup result" where
  "createRecvTransport = createTransport RecvDir"

section \<open>Steps\<close>

datatype device_event =
    LoadCalled nat jsval "unit result"
  | RtpAnswered nat "jsval result"
  | SctpAnswered nat "jsval result"
  | TransportAsked transport_direction transport_request

text \<open>Every call of \<open>load\<close> has a number of its own; an answer goes to the call that waits for it.\<close>

fun device_step :: "h264 \<Rightarrow> device \<Rightarrow> device_event \<Rightarrow> device" where
  "device_step lib d (LoadCalled i router factory) =
     (if i \<in> fst ` set (dv_loads d) \<or> i \<in> fst ` set (dv_outcomes d) then d else load_begin i router factory d)"
| "device_step lib d (RtpAnswered i res) =
     (case map_of (dv_loads d) i of Some (AwaitRtp router) \<Rightarrow> load_rtp lib i router res d | _ \<Rightarrow> d)"
| "device_step lib d (SctpAnswered i res) =
     (case map_of (dv_loads d) i of Some AwaitSctp \<Rightarrow> load_sctp i res d | _ \<Rightarrow> d)"
| "device_step lib d (TransportAsked direction q) = fst (createTransport direction q d)"

section \<open>The receiving capabilities are valid\<close>

lemma read_written:
  "read_feedback (feedback_object fb) = fb" "read_kind (VStr (kind_str k)) = Some k" "read_optional (opt_num x) = x"
    "read_optional VUndef = None"
  by (cases "fb_parameter fb"; cases k; cases x; simp add: read_feedback_def feedback_object_def read_string_def read_kind_def kind_str_def
      read_optional_def)+

text \<open>The object has just the receiving capabilities of the negotiation.\<close>

lemma recv_codecs_read: "map read_codec (recv_codec_objects x) = recv_codecs x"
proof -
  have "map (read_feedback \<circ> feedback_object) fbs = fbs" for fbs by (simp add: comp_def read_written)
  then show ?thesis
    by (simp add: recv_codec_objects_def recv_codecs_def read_codec_def read_string_def read_number_def OrtcValidate.list_of_def read_written
        rtx_mime_of_def)
qed

lemma recv_extension_read:
  "read_extension (recv_extension_object x) =
     \<lparr>he_kind = xe_kind x, he_uri = xe_uri x, he_preferredId = xe_recvId x, he_preferredEncrypt = xe_encrypt x,
      he_direction = direction_str (xe_direction x)\<rparr>"
  by (cases "xe_kind x") (simp_all add: read_extension_def recv_extension_object_def read_string_def read_number_def read_written, simp add: read_kind_def)

text \<open>The object that \<open>load\<close> validates and keeps says exactly what the negotiation derived: read back, it is
  the value of \<open>getRecvRtpCapabilities\<close>.
\<close>
lemma recv_capabilities_read: "read_capabilities (recv_capabilities e) = getRecvRtpCapabilities e"
  by (simp add: read_capabilities_def recv_capabilities_def getRecvRtpCapabilities_def OrtcValidate.list_of_def map_concat comp_def
      recv_codecs_read recv_extension_read)

text \<open>What validation promises of a codec that the negotiation reads.\<close>

definition codec_typed :: "codec_capability \<Rightarrow> bool" where
  "codec_typed c \<longleftrightarrow>
     mime_kind (cd_mimeType c) = Some (cc_kind c) \<and> (cc_kind c = KAudio \<longrightarrow> cd_channels c \<noteq> None) \<and>
     parameters_ok True (VObj (cd_parameters c)) \<and>
     list_all (\<lambda>fb. fb_type fb \<noteq> [] \<and> fb_parameter fb \<noteq> None) (cd_rtcpFeedback c)"

lemma codec_read_typed:
  assumes "codec_capability_ok v"
  shows "codec_typed (read_codec v)"
proof -
  obtain fs where v: "v = VObj fs" using assms by (cases v) auto
  obtain m kind where m: "obj_get fs ''mimeType'' = VStr m" "mime_kind m = Some kind" "obj_get fs ''kind'' = VStr (kind_str kind)"
    "codec_tail_ok kind fs"
    using assms by (auto simp: v mime_ok_VStr)
  obtain ps where ps: "obj_get fs ''parameters'' = VObj ps" "parameters_ok True (VObj ps)"
    using m(4) parameters_okD by (fastforce simp: codec_tail_ok_def)
  obtain fbs where fbs: "obj_get fs ''rtcpFeedback'' = VArr fbs" "list_all feedback_ok fbs"
    using m(4) all_okD by (fastforce simp: codec_tail_ok_def)
  have "fb_type (read_feedback w) \<noteq> [] \<and> fb_parameter (read_feedback w) \<noteq> None" if fb: "feedback_ok w" for w
  proof -
    obtain gs where w: "w = VObj gs" using fb by (cases w) auto
    obtain t p where "obj_get gs ''type'' = VStr t" "t \<noteq> []" "obj_get gs ''parameter'' = VStr p"
      using fb type_testD(1) by (fastforce simp: w)
    then show ?thesis by (simp add: w read_feedback_def read_string_def)
  qed
  then have "list_all (\<lambda>fb. fb_type fb \<noteq> [] \<and> fb_parameter fb \<noteq> None) (map read_feedback fbs)"
    using fbs(2) by (simp add: list_all_iff)
  moreover have "kind = KAudio \<Longrightarrow> read_optional (obj_get fs ''channels'') \<noteq> None"
    using m(4) by (auto simp: codec_tail_ok_def read_optional_def dest: type_testD(2))
  ultimately show ?thesis
    using m ps fbs by (simp add: codec_typed_def read_codec_def v read_string_def read_written OrtcValidate.list_of_def)
qed

lemma capabilities_read_typed:
  assumes "rtp_capabilities_ok v"
  shows "list_all codec_typed (rc_codecs (read_capabilities v))"
    "list_all (\<lambda>x. he_kind x \<noteq> None \<and> he_uri x \<noteq> []) (rc_headerExtensions (read_capabilities v))"
proof -
  obtain fs where v: "v = VObj fs" using assms by (cases v) auto
  obtain cs where cs: "obj_get fs ''codecs'' = VArr cs" "list_all codec_capability_ok cs"
    using assms all_okD [of codec_capability_ok "obj_get fs ''codecs''"] by (auto simp: v)
  obtain xs where xs: "obj_get fs ''headerExtensions'' = VArr xs" "list_all header_extension_ok xs"
    using assms all_okD [of header_extension_ok "obj_get fs ''headerExtensions''"] by (auto simp: v)
  show "list_all codec_typed (rc_codecs (read_capabilities v))"
    using cs by (simp add: v read_capabilities_def OrtcValidate.list_of_def list_all_iff codec_read_typed)
  have "he_kind (read_extension w) \<noteq> None \<and> he_uri (read_extension w) \<noteq> []" if x: "header_extension_ok w" for w
  proof -
    obtain gs where w: "w = VObj gs" using x by (cases w) auto
    obtain u where "obj_get gs ''uri'' = VStr u" "u \<noteq> []" using x type_testD(1) by (fastforce simp: w)
    with x show ?thesis by (auto simp: w read_extension_def read_kind_def read_string_def)
  qed
  with xs show "list_all (\<lambda>x. he_kind x \<noteq> None \<and> he_uri x \<noteq> []) (rc_headerExtensions (read_capabilities v))"
    by (simp add: v read_capabilities_def OrtcValidate.list_of_def list_all_iff)
qed

text \<open>Matching leaves codecs with valid parameters.\<close>

lemma parameters_ok_set: "parameters_ok True (VObj ps) \<Longrightarrow> k \<noteq> ''apt'' \<Longrightarrow> parameters_ok True (VObj (jm_set k (VStr s) ps))"
  by (induction ps) (auto simp: parameters_ok_def)

lemma parameters_ok_delete: "parameters_ok True (VObj ps) \<Longrightarrow> parameters_ok True (VObj (jm_delete k ps))"
  by (auto simp: parameters_ok_def jm_delete_def list_all_iff)

lemma set_profile_typed: "codec_typed c \<Longrightarrow> codec_typed (set_profile s c)"
  by (auto simp: codec_typed_def set_profile_def PROFILE_LEVEL_ID_def parameters_ok_set parameters_ok_delete split: option.split)

lemma matchCodecs_typed:
  "matchCodecs lib a b strict modify = (r, a', b') \<Longrightarrow> codec_typed a \<Longrightarrow> codec_typed b \<Longrightarrow> codec_typed a' \<and> codec_typed b'"
  by (auto simp: matchCodecs_def Let_def set_profile_typed split: if_splits sum.splits)

lemma find_local_typed:
  "find_local lib ls r = Some (i, ls', r') \<Longrightarrow> list_all codec_typed ls \<Longrightarrow> codec_typed r \<Longrightarrow> list_all codec_typed ls' \<and> codec_typed r'"
proof (induction lib ls r arbitrary: i ls' r' rule: find_local.induct)
  case (2 lib l ls r)
  obtain b l1 r1 where m: "matchCodecs lib l r True True = (b, l1, r1)" by (metis prod_cases3)
  from matchCodecs_typed [OF m] 2(2-4) m 2(1) [OF m [symmetric]] show ?case
    by (cases b) (auto split: option.splits)
qed simp

lemma match_media_typed:
  "match_media lib ls rs = (ps, ls', rs') \<Longrightarrow> list_all codec_typed ls \<Longrightarrow> list_all codec_typed rs \<Longrightarrow>
   list_all codec_typed ls' \<and> list_all codec_typed rs' \<and> list_all (codec_typed \<circ> snd) ps"
proof (induction lib ls rs arbitrary: ps ls' rs' rule: match_media.induct)
  case (2 lib ls r rs)
  then show ?case
    by (auto split: if_splits option.splits prod.splits dest!: find_local_typed)
qed simp

lemma mapr_ok: "(\<And>x. x \<in> set xs \<Longrightarrow> is_ok (f x)) \<Longrightarrow> is_ok (mapr f xs)"
proof (induction xs)
  case (Cons x xs)
  from Cons.prems [of x] obtain y where "f x = Inr y" by (auto simp: is_ok_def split: sum.splits)
  moreover from Cons obtain ys where "mapr f xs = Inr ys" by (auto simp: is_ok_def split: sum.splits)
  ultimately show ?case by (simp add: is_ok_def)
qed (simp add: is_ok_def)

lemma finish_codec_ok:
  assumes "parameters_ok True (obj_get fs ''parameters'')" "all_ok feedback_ok (obj_get fs ''rtcpFeedback'')"
  shows "is_ok (finish_codec kind fs)"
proof -
  obtain ps fbs where g: "obj_get fs ''parameters'' = VObj ps" "parameters_ok True (VObj ps)"
      "obj_get fs ''rtcpFeedback'' = VArr fbs" "list_all feedback_ok fbs"
    using parameters_okD [OF assms(1)] all_okD [OF assms(2)] assms by auto
  have "parameters_of (set_channels kind fs) = ps" "obj_get (set_channels kind fs) ''rtcpFeedback'' = VArr fbs"
    using g by (auto simp: parameters_of_def set_channels_def)
  with g show ?thesis
    by (simp add: finish_codec_def Let_def validate_parameters_keeps OrtcValidate.list_of_def fb.mapr_keeps is_ok_def)
qed

lemma codec_object_ok:
  assumes "obj_get fs ''mimeType'' = VStr m" "mime_kind m = Some kind" "is_num (obj_get fs ''clockRate'')"
    "truthy (obj_get fs ''preferredPayloadType'') \<Longrightarrow> is_num (obj_get fs ''preferredPayloadType'')"
    "parameters_ok True (obj_get fs ''parameters'')" "all_ok feedback_ok (obj_get fs ''rtcpFeedback'')"
  shows "is_ok (validateRtpCodecCapability (VObj fs))"
proof -
  have "m \<noteq> []" using assms(2) by (auto simp: mime_kind_def)
  moreover have "is_ok (finish_codec kind (jm_set ''kind'' (VStr (kind_str kind)) fs))"
    using assms(5,6) by (intro finish_codec_ok) simp_all
  ultimately show ?thesis using assms(1-4) by (auto simp: validateRtpCodecCapability_def Let_def OrtcValidate.check_def)
qed

definition extended_typed :: "extended_codec \<Rightarrow> bool" where
  "extended_typed x \<longleftrightarrow>
     mime_kind (xc_mimeType x) = Some (xc_kind x) \<and> parameters_ok True (VObj (xc_localParameters x)) \<and>
     list_all (\<lambda>fb. fb_type fb \<noteq> [] \<and> fb_parameter fb \<noteq> None) (xc_rtcpFeedback x) \<and>
     (present (xc_remoteRtxPayloadType x) \<longrightarrow> xc_remotePayloadType x \<noteq> None)"

lemma feedback_object_ok: "fb_type fb \<noteq> [] \<Longrightarrow> fb_parameter fb \<noteq> None \<Longrightarrow> feedback_ok (feedback_object fb)"
  by (auto simp: feedback_object_def)

lemma rtx_mime_kind: "mime_kind (kind_str k @ ''/rtx'') = Some k"
proof -
  have "mime_kind ''audio/rtx'' = Some KAudio" "mime_kind ''video/rtx'' = Some KVideo" by code_simp+
  then show ?thesis by (cases k) (simp_all add: kind_str_def)
qed

lemma recv_codec_objects_ok:
  assumes "extended_typed x" "v \<in> set (recv_codec_objects x)"
  shows "is_ok (validateRtpCodecCapability v)"
proof -
  have num: "truthy (opt_num n) \<Longrightarrow> is_num (opt_num n)" for n by (cases n) simp_all
  have fbs: "list_all feedback_ok (map feedback_object (xc_rtcpFeedback x))"
    using assms(1) feedback_object_ok by (auto simp: extended_typed_def list_all_iff)
  have apt: "present (xc_remoteRtxPayloadType x) \<Longrightarrow> parameters_ok True (VObj [(''apt'', opt_num (xc_remotePayloadType x))])"
    using assms(1) by (auto simp: extended_typed_def parameters_ok_def)
  from assms(2) consider "v = hd (recv_codec_objects x)" | "present (xc_remoteRtxPayloadType x)" "v = last (recv_codec_objects x)"
    by (auto simp: recv_codec_objects_def split: if_splits)
  then show ?thesis
  proof cases
    case 1
    with assms(1) num fbs show ?thesis
      by (auto simp: recv_codec_objects_def extended_typed_def intro!: codec_object_ok)
  next
    case 2
    with apt num rtx_mime_kind show ?thesis
      by (auto simp: recv_codec_objects_def intro!: codec_object_ok)
  qed
qed

lemma reduce_feedback_subset: "set (reduceRtcpFeedback a b) \<subseteq> set (cd_rtcpFeedback b)"
proof -
  have "set (reduceRtcpFeedback_loop as bs) \<subseteq> set bs" for as bs
    by (induction as bs rule: reduceRtcpFeedback_loop.induct) (auto split: option.splits simp: find_Some_iff)
  then show ?thesis by (simp add: reduceRtcpFeedback_def)
qed

definition payloads_given :: "rtp_capabilities \<Rightarrow> bool" where
  "payloads_given c \<longleftrightarrow> list_all (\<lambda>r. isRtxCodec (Some r) \<or> cc_preferredPayloadType r \<noteq> None) (rc_codecs c)"

lemma extended_codecs_typed:
  assumes "list_all codec_typed (rc_codecs l)" "list_all codec_typed (rc_codecs r)" "payloads_given r"
  shows "list_all extended_typed (xr_codecs (getExtendedRtpCapabilities lib l r))"
proof -
  obtain ps ls rs where m: "match_media lib (rc_codecs l) (rc_codecs r) = (ps, ls, rs)" by (metis prod_cases3)
  have typed: "list_all codec_typed ls" "list_all (codec_typed \<circ> snd) ps"
    using match_media_typed [OF m assms(1,2)] by blast+
  have len: "length ls = length (rc_codecs l)"
    using match_media_sound [OF m] by (auto dest: list_all2_lengthD)
  have "extended_typed (match_rtx ls rs (extend_codec (ls ! i) c))" if p: "(i, c) \<in> set ps" for i c
  proof -
    have "media_pair (rc_codecs l) (rc_codecs r) (i, c)" using match_media_sound [OF m] p by blast
    then obtain q where q: "q \<in> set (rc_codecs r)" "\<not> isRtxCodec (Some q)" "same_but_profile q c" "i < length ls"
      by (auto simp: media_pair_def len)
    have pt: "cc_preferredPayloadType c \<noteq> None"
      using assms(3) q same_but_profile_cc [OF q(3)] by (auto simp: payloads_given_def list_all_iff)
    have "codec_typed (ls ! i)" "codec_typed c" using typed p q(4) by (auto simp: list_all_iff)
    with pt reduce_feedback_subset [of "ls ! i" c] show ?thesis
      by (auto simp: extended_typed_def codec_typed_def match_rtx_def extend_codec_def list_all_iff split: option.split)
  qed
  then show ?thesis by (auto simp: getExtendedRtpCapabilities_def m list_all_iff)
qed

lemma recv_extensions_ok:
  assumes "list_all (\<lambda>x. he_kind x \<noteq> None \<and> he_uri x \<noteq> []) (rc_headerExtensions r)"
    "x \<in> set (xr_headerExtensions (getExtendedRtpCapabilities lib l r))"
  shows "header_extension_ok (recv_extension_object x)"
proof -
  have "xe_kind x \<noteq> None" "xe_uri x \<noteq> []"
    using assms by (auto simp: getExtendedRtpCapabilities_def list_all_iff extend_extension_def split: prod.splits option.splits)
  then show ?thesis
    by (auto simp: recv_extension_object_def direction_str_def kind_str_def split: direction.split if_splits)
qed

lemma recv_capabilities_ok:
  assumes "rtp_capabilities_ok native" "rtp_capabilities_ok router" "payloads_given (read_capabilities router)"
  shows "is_ok (validateRtpCapabilities (recv_capabilities
    (getExtendedRtpCapabilities lib (read_capabilities native) (read_capabilities router))))"
proof -
  let ?e = "getExtendedRtpCapabilities lib (read_capabilities native) (read_capabilities router)"
  have "list_all extended_typed (xr_codecs ?e)"
    using assms capabilities_read_typed by (intro extended_codecs_typed) auto
  then have "is_ok (mapr validateRtpCodecCapability (concat (map recv_codec_objects (xr_codecs ?e))))"
    by (intro mapr_ok) (auto simp: list_all_iff intro: recv_codec_objects_ok)
  moreover have "list_all header_extension_ok (map recv_extension_object (filter P (xr_headerExtensions ?e)))" for P
    using recv_extensions_ok [OF capabilities_read_typed(2) [OF assms(2)]] by (auto simp: list_all_iff)
  ultimately show ?thesis
    by (auto simp: validateRtpCapabilities_def recv_capabilities_def validate_list_def ext.mapr_keeps is_ok_def split: sum.splits)
qed

section \<open>Loading\<close>

lemma map_of_others: "map_of (filter (\<lambda>(j, _). j \<noteq> i) xs) i = None"
  by (induction xs) auto

lemma filter_none: "i \<notin> fst ` set xs \<Longrightarrow> filter (\<lambda>(j, _). j \<noteq> i) xs = xs"
  by (induction xs) auto

text \<open>C15: When the router's capabilities are valid and name the payload type of every codec, and the handler answers
  with valid capabilities, then \<open>load\<close> succeeds: the validation of the receiving capabilities never fails. The
  device is loaded, with the extended capabilities of the two sides, and its handler is closed.
\<close>
theorem load_succeeds:
  assumes "\<not> dv_loaded d" "validateRtpCapabilities routerv = Inr router" "validateRtpCapabilities nativev = Inr native"
    "payloads_given (read_capabilities router)" "is_ok (validateSctpCapabilities sctp)"
    "i \<notin> fst ` set (dv_loads d)" "i \<notin> fst ` set (dv_outcomes d)"
    and d': "d' = foldl (device_step lib) d [LoadCalled i routerv (Inr ()), RtpAnswered i (Inr nativev), SctpAnswered i (Inr sctp)]"
  shows "dv_loaded d' \<and> (i, Inr ()) \<in> set (dv_outcomes d') \<and> dv_created d' - dv_closed d' = dv_created d - dv_closed d \<and>
    dv_extended d' = Some (getExtendedRtpCapabilities lib (read_capabilities native) (read_capabilities router)) \<and>
    (\<exists>recv. dv_recv d' = Some recv \<and> rtp_capabilities_ok recv) \<and> dv_sctp d' = Some sctp"
proof -
  let ?e = "getExtendedRtpCapabilities lib (read_capabilities native) (read_capabilities router)"
  have ok: "rtp_capabilities_ok native" "rtp_capabilities_ok router"
    using assms(2,3) by (auto intro: caps.sound)
  obtain recv where recv: "validateRtpCapabilities (recv_capabilities ?e) = Inr recv"
    using recv_capabilities_ok [OF ok assms(4), of lib] by (auto simp: is_ok_def split: sum.splits)
  obtain u where sctp: "validateSctpCapabilities sctp = Inr u" using assms(5) by (auto simp: is_ok_def split: sum.splits)
  have new: "([i \<mapsto> st] ++ map_of (filter (\<lambda>(j, _). j \<noteq> i) xs)) i = Some st" for xs :: "(nat \<times> load_stage) list" and st
    by (simp add: map_add_Some_iff map_of_others)
  show ?thesis
    using assms(1-3,6,7) recv sctp caps.sound [OF recv]
    by (auto simp: d' load_begin_def load_rtp_def negotiated_def load_sctp_def settle_close_def settle_def await_stage_def new Let_def)
qed

text \<open>The invariant of a device over every order of calls and answers.\<close>

definition device_inv :: "device \<Rightarrow> bool" where
  "device_inv d \<longleftrightarrow>
     distinct (map fst (dv_loads d)) \<and>
     dv_created d = dv_closed d + length (dv_loads d) \<and>
     (\<forall>e. dv_extended d = Some e \<longrightarrow> dv_canProduce d = (\<lambda>kind. canSend kind e)) \<and>
     (dv_extended d = None \<longrightarrow> dv_canProduce d = (\<lambda>_. False)) \<and>
     (dv_recv d = None \<longleftrightarrow> dv_extended d = None) \<and>
     ((\<exists>i. (i, AwaitSctp) \<in> set (dv_loads d)) \<longrightarrow> dv_extended d \<noteq> None) \<and>
     (dv_loaded d \<longrightarrow> dv_extended d \<noteq> None \<and> dv_sctp d \<noteq> None)"

lemma filter_other: "distinct (map fst xs) \<Longrightarrow> map_of xs i = Some v \<Longrightarrow> Suc (length (filter (\<lambda>(j, _). j \<noteq> i) xs)) = length xs"
proof (induction xs)
  case (Cons x xs)
  have "filter (\<lambda>(j, _). j \<noteq> i) xs = xs" if "fst x = i"
    using Cons.prems(1) that by (intro filter_none) auto
  with Cons show ?case by (cases x) (auto split: if_splits)
qed simp

lemma distinct_other: "distinct (map fst xs) \<Longrightarrow> distinct (map fst (filter P xs))"
  by (simp add: distinct_map_filter)

lemma settle_close_inv:
  "device_inv d \<Longrightarrow> map_of (dv_loads d) i = Some st \<Longrightarrow> device_inv (settle_close i res d)"
  using filter_other [of "dv_loads d" i st]
  by (auto simp: device_inv_def settle_close_def settle_def distinct_other)

lemma settle_inv: "device_inv d \<Longrightarrow> i \<notin> fst ` set (dv_loads d) \<Longrightarrow> device_inv (settle i res d)"
  by (simp add: device_inv_def settle_def filter_none)

lemma load_begin_inv:
  assumes "device_inv d" "i \<notin> fst ` set (dv_loads d)"
  shows "device_inv (load_begin i router factory d)"
proof -
  have "device_inv (await_stage i (AwaitRtp v) (d\<lparr>dv_created := dv_created d + 1\<rparr>))" for v
    using assms by (simp add: device_inv_def await_stage_def filter_none)
  then show ?thesis using assms by (simp add: load_begin_def settle_inv split: sum.split)
qed

lemma load_rtp_inv:
  assumes "device_inv d" "map_of (dv_loads d) i = Some st"
  shows "device_inv (load_rtp lib i router res d)"
proof -
  have upd: "device_inv (negotiated e v d)" for e v using assms(1) by (simp add: device_inv_def negotiated_def)
  then have "device_inv (settle_close i r (negotiated e v d))" for r e v
    using assms(2) by (intro settle_close_inv) (simp_all add: negotiated_def)
  moreover have "device_inv (await_stage i AwaitSctp (negotiated e v d))" for e v
    using upd [of e v] filter_other [of "dv_loads d" i st] assms(2)
    by (auto simp: device_inv_def await_stage_def distinct_other negotiated_def)
  ultimately show ?thesis
    using assms by (auto simp: load_rtp_def Let_def settle_close_inv split: sum.split)
qed

lemma load_sctp_inv:
  assumes "device_inv d" "map_of (dv_loads d) i = Some AwaitSctp"
  shows "device_inv (load_sctp i res d)"
proof -
  have "dv_extended d \<noteq> None" using assms by (auto simp: device_inv_def dest: map_of_SomeD)
  then have "device_inv (d\<lparr>dv_sctp := Some v\<rparr>)" "device_inv (d\<lparr>dv_sctp := Some v, dv_loaded := True\<rparr>)" for v
    using assms(1) by (simp_all add: device_inv_def)
  then have "device_inv (settle_close i r (d\<lparr>dv_sctp := Some v\<rparr>))" "device_inv (settle_close i r (d\<lparr>dv_sctp := Some v, dv_loaded := True\<rparr>))" for r v
    using assms(2) by (auto intro!: settle_close_inv)
  then show ?thesis using assms by (auto simp: load_sctp_def settle_close_inv split: sum.split)
qed

lemma createTransport_inv: "device_inv d \<Longrightarrow> device_inv (fst (createTransport direction q d))"
  by (simp add: createTransport_def Let_def split: jsval.split) (simp add: device_inv_def)

interpretation dev: step_invariant "device_step lib" device_inv for lib
proof
  fix d ev assume inv: "device_inv d"
  show "device_inv (device_step lib d ev)"
  proof (cases ev)
    case (TransportAsked direction q)
    with inv show ?thesis by (simp add: createTransport_inv)
  qed (use inv in \<open>simp_all add: load_begin_inv load_rtp_inv load_sctp_inv split: option.split load_stage.split\<close>)
qed

lemma fresh_device_inv: "device_inv (fresh_device name)"
  by (simp add: device_inv_def fresh_device_def)

text \<open>C8: Whatever the order of calls and answers, however many calls of \<open>load\<close> overlap and whichever of them fail:
  every temporary handler is closed except those that a pending call still waits for; what can be produced is
  what the current extended capabilities can send; and a loaded device has all of its capabilities.
\<close>
theorem device_always_consistent:
  assumes "d = foldl (device_step lib) (fresh_device name) events"
  shows "dv_created d = dv_closed d + length (dv_loads d) \<and>
    (\<forall>kind. dv_canProduce d kind \<longleftrightarrow> (case dv_extended d of Some e \<Rightarrow> canSend kind e | None \<Rightarrow> False)) \<and>
    (dv_loaded d \<longrightarrow> dv_extended d \<noteq> None \<and> dv_recv d \<noteq> None \<and> dv_sctp d \<noteq> None)"
  using dev.run_inv [OF fresh_device_inv, of lib name events] assms
  by (auto simp: device_inv_def split: option.split)

definition sctp_object :: jsval where
  "sctp_object = VObj [(''numStreams'', VObj [(''OS'', VNum (Fin 1024)), (''MIS'', VNum (Fin 1024))])]"

definition opus_capabilities :: jsval where
  "opus_capabilities = VObj [(''codecs'', VArr [VObj [(''mimeType'', VStr ''audio/opus''), (''clockRate'', VNum (Fin 48000)),
     (''channels'', VNum (Fin 2)), (''preferredPayloadType'', VNum (Fin 100))]])]"

definition load_events :: "device_event list" where
  "load_events = [LoadCalled 0 opus_capabilities (Inr ()), RtpAnswered 0 (Inr opus_capabilities), SctpAnswered 0 (Inr sctp_object)]"

definition loaded_device :: device where
  "loaded_device = foldl (device_step H264_LIB) (fresh_device ''Chrome111'') load_events"

theorem device_always_consistent_witness:
  "dv_loaded loaded_device \<and> dv_created loaded_device = 2 \<and> dv_closed loaded_device = 2 \<and>
   dv_canProduce loaded_device KAudio \<and> \<not> dv_canProduce loaded_device KVideo"
proof -
  have "dv_loaded loaded_device" "dv_created loaded_device = 2" "dv_loads loaded_device = []"
    "map_option (\<lambda>e. (canSend KAudio e, canSend KVideo e)) (dv_extended loaded_device) = Some (True, False)" by code_simp+
  with device_always_consistent [OF loaded_device_def] show ?thesis by (auto split: option.splits)
qed

theorem load_succeeds_witness:
  "dv_loaded loaded_device \<and> (0, Inr ()) \<in> set (dv_outcomes loaded_device) \<and> dv_sctp loaded_device = Some sctp_object"
proof -
  obtain caps where caps: "validateRtpCapabilities opus_capabilities = Inr caps"
    and given: "payloads_given (read_capabilities caps)"
  proof -
    have "case validateRtpCapabilities opus_capabilities of Inr c \<Rightarrow> payloads_given (read_capabilities c) | Inl _ \<Rightarrow> False"
      by code_simp
    with that show thesis by (auto split: sum.splits)
  qed
  have sctp: "is_ok (validateSctpCapabilities sctp_object)" by code_simp
  show ?thesis
    using load_succeeds [OF _ caps caps given sctp _ _ loaded_device_def [unfolded load_events_def]]
    by (simp add: fresh_device_def)
qed

text \<open>Until the device is loaded, every question about its capabilities and every request for a transport is refused, and
  leaves it as it is.
\<close>
theorem unloaded_device_refuses:
  assumes "\<not> dv_loaded d"
  shows "canProduce kind d = Inl not_loaded \<and> dv_rtpCapabilities d = Inl not_loaded \<and> dv_sctpCapabilities d = Inl not_loaded \<and>
    createSendTransport q d = (d, Inl not_loaded) \<and> createRecvTransport q d = (d, Inl not_loaded)"
  using assms
  by (simp add: canProduce_def dv_rtpCapabilities_def dv_sctpCapabilities_def createSendTransport_def createRecvTransport_def createTransport_def)

text \<open>A device is loaded exactly when some call of \<open>load\<close> succeeded, and once it is, it stays so.
\<close>
theorem loaded_iff_load_succeeded:
  assumes "d = foldl (device_step lib) (fresh_device name) events"
  shows "dv_loaded d \<longleftrightarrow> (\<exists>i. (i, Inr ()) \<in> set (dv_outcomes d))"
proof -
  let ?I = "\<lambda>d. dv_loaded d \<longleftrightarrow> (\<exists>i. (i, Inr ()) \<in> set (dv_outcomes d))"
  have step: "?I d \<Longrightarrow> ?I (device_step lib d ev)" for d ev
    by (cases ev) (auto simp: load_begin_def load_rtp_def negotiated_def load_sctp_def settle_def settle_close_def await_stage_def createTransport_def Let_def
        split: option.split load_stage.split sum.split jsval.split)
  have "?I d \<Longrightarrow> ?I (foldl (device_step lib) d events)" for d
  proof (induction events arbitrary: d)
    case (Cons ev events)
    from Cons.IH [OF step [OF Cons.prems]] show ?case by simp
  qed simp
  then show ?thesis using assms by (auto simp: fresh_device_def)
qed

theorem loaded_iff_load_succeeded_witness:
  "\<exists>i. (i, Inr ()) \<in> set (dv_outcomes loaded_device)"
proof -
  have "dv_loaded loaded_device" by code_simp
  with loaded_iff_load_succeeded [OF loaded_device_def] show ?thesis by simp
qed

theorem unloaded_device_refuses_witness: "canProduce ''audio'' (fresh_device ''Safari12'') = Inl not_loaded"
  using unloaded_device_refuses [of "fresh_device ''Safari12''"] by (simp add: fresh_device_def)

text \<open>A device made for the detected browser is refused only when nothing was detected: every name that
  \<open>detectDevice\<close> answers is one that the constructor has a handler for.
\<close>
theorem detected_device_made:
  "new_Device None None (detectDevice parser g userAgent) =
     (case detectDevice parser g userAgent of
        None \<Rightarrow> Inl (UnsupportedError ''device not supported'')
      | Some name \<Rightarrow> Inr (fresh_device name))"
proof (cases "detectDevice parser g userAgent")
  case (Some name)
  from detectDevice_known [OF this] have "name \<in> set HANDLER_NAMES" .
  moreover from this have "name \<noteq> []" by (auto simp: HANDLER_NAMES_def)
  ultimately show ?thesis by (simp add: Some new_Device_def given_def)
qed (simp add: new_Device_def given_def)

text \<open>A transport that a device grants, whatever happened to the device before, gets the negotiated capabilities, and
  a sending one will produce just the kinds of media that \<open>canProduce\<close> answers yes to.
\<close>
theorem created_transport_capabilities:
  assumes "d = foldl (device_step lib) (fresh_device name) events" "createTransport direction q d = (d', Inr t)"
  shows "\<exists>e. dv_extended d = Some e \<and> ts_extended t = Some e \<and> dv_transports d' = dv_transports d @ [t] \<and>
    (\<forall>kind. canProduce (kind_str kind) d = Inr (canSend kind e) \<and>
      sx_canProduceByKind (new_SendTransport (ts_canProduce t) maxSize tracks n1 n2 n3) kind = canSend kind e)"
proof -
  have inv: "device_inv d" unfolding assms(1) by (rule dev.run_inv [OF fresh_device_inv])
  have l: "dv_loaded d" and t: "ts_extended t = dv_extended d" "ts_canProduce t = dv_canProduce d" "dv_transports d' = dv_transports d @ [t]"
    using assms(2) by (auto simp: createTransport_def Let_def split: if_splits jsval.splits)
  from inv l obtain e where e: "dv_extended d = Some e" "dv_canProduce d = (\<lambda>kind. canSend kind e)"
    by (auto simp: device_inv_def)
  have "canProduce (kind_str kind) d = Inr (canSend kind e)" for kind
    using l e by (cases kind) (simp_all add: canProduce_def kind_str_def)
  with t e show ?thesis by (simp add: new_SendTransport_def)
qed

definition asked_transport :: transport_request where
  "asked_transport = \<lparr>tq_id = VStr ''t1'', tq_iceParameters = VObj [], tq_iceCandidates = VArr [], tq_dtlsParameters = VObj [],
     tq_sctpParameters = VUndef, tq_appData = VUndef\<rparr>"

theorem created_transport_capabilities_witness:
  "canProduce ''audio'' loaded_device = Inr True \<and> is_ok (snd (createSendTransport asked_transport loaded_device))"
proof -
  have ok: "is_ok (snd (createTransport SendDir asked_transport loaded_device))" by code_simp
  have can: "map_option (canSend KAudio) (dv_extended loaded_device) = Some True" by code_simp
  obtain d' t where run: "createTransport SendDir asked_transport loaded_device = (d', Inr t)"
    using ok by (cases "createTransport SendDir asked_transport loaded_device") (auto simp: is_ok_def split: sum.splits)
  from created_transport_capabilities [OF loaded_device_def run]
  obtain e where "dv_extended loaded_device = Some e" "\<forall>kind. canProduce (kind_str kind) loaded_device = Inr (canSend kind e)"
    by blast
  with can ok show ?thesis by (auto simp: createSendTransport_def kind_str_def dest: spec [of _ KAudio])
qed

text \<open>The flag is read before the first wait only: a second call made while the first one waits is not refused. When
  it fails at the SCTP capabilities, the loaded device is left with the capabilities of the call that failed, and a
  transport made before can no longer produce what it was given the capabilities for.\<close>

definition overlapping_loads :: "device_event list" where
  "overlapping_loads =
     [LoadCalled 0 opus_capabilities (Inr ()), LoadCalled 1 (VObj []) (Inr ()), RtpAnswered 0 (Inr opus_capabilities),
      SctpAnswered 0 (Inr sctp_object), TransportAsked SendDir asked_transport,
      RtpAnswered 1 (Inr opus_capabilities), SctpAnswered 1 (Inr VNull)]"

lemma overlapping_load_not_refused:
  "let d = foldl (device_step H264_LIB) (fresh_device ''Chrome111'') overlapping_loads in
     dv_loaded d \<and> map snd (dv_outcomes d) = [Inr (), Inl NULL_ERROR] \<and> canProduce ''audio'' d = Inr False \<and>
     dv_sctp d = Some VNull \<and>
     map (\<lambda>t. (map_option (canSend KAudio) (ts_extended t), ts_canProduce t KAudio)) (dv_transports d) = [(Some True, False)]"
  by code_simp

text \<open>A router codec without a payload type, with an RTX codec without one to apply to: both are valid, but the receiving
  capabilities made of them are not.\<close>

definition no_apt :: jsval where
  "no_apt = VObj [(''codecs'', VArr [VObj [(''mimeType'', VStr ''video/VP8''), (''clockRate'', VNum (Fin 90000))],
     VObj [(''mimeType'', VStr ''video/rtx''), (''clockRate'', VNum (Fin 90000)), (''preferredPayloadType'', VNum (Fin 101))]])]"

lemma missing_payload_type_fails:
  "is_ok (validateRtpCapabilities no_apt) \<and>
   map snd (dv_outcomes (foldl (device_step H264_LIB) (fresh_device ''Chrome111'')
     [LoadCalled 0 no_apt (Inr ()), RtpAnswered 0 (Inr no_apt)])) = [Inl (TypeError ''invalid codec apt parameter'')]"
  by code_simp

end
