(* ===== verification/RemoteSdp.thy ===== *)
theory RemoteSdp
  imports MediaSection
begin

text \<open>
  The remote session description that a handler keeps, \<open>handlers/sdp/RemoteSdp.js\<close>: its sections in the order of the
  \<open>m=\<close> lines, an index of them by mid, and the BUNDLE group. The array of the SDP object holds the objects of
  the sections themselves, always written at the same place as the list of sections, so it is read
  off the sections (\<open>sdp_media\<close>). Printing is up to \<open>sdp-transform\<close>, a parameter. An operation that throws leaves
  the description as it was; what a Plan-B section had been given by then is not kept.
\<close>

section \<open>The description\<close>

record remote_sdp =
  rs_mediaSections :: "media_section list"
  rs_midToIndex :: "(string, nat) jsmap"
  rs_firstMid :: "string option"
  rs_env :: section_env
  rs_icelite :: bool
  rs_origin :: "string \<times> number"
  rs_sessionVersion :: nat
  rs_fingerprint :: "(string \<times> string) option"
  rs_bundleMids :: string

definition sdp_media :: "remote_sdp \<Rightarrow> media_object list" where
  "sdp_media r = map ms_object (rs_mediaSections r)"

definition new_RemoteSdp :: "section_env \<Rightarrow> remote_sdp result" where
  "new_RemoteSdp env =
     (let r = \<lparr>rs_mediaSections = [], rs_midToIndex = [], rs_firstMid = None, rs_env = env,
          rs_icelite = (case se_ice env of Some p \<Rightarrow> ip_iceLite p | None \<Rightarrow> False),
          rs_origin = (case se_plain env of Some p \<Rightarrow> (pl_ip p, pl_ipVersion p) | None \<Rightarrow> (''0.0.0.0'', Fin 4)),
          rs_sessionVersion = 0, rs_fingerprint = None, rs_bundleMids = []\<rparr>
      in case se_dtls env of
           None \<Rightarrow> Inr r
         | Some d \<Rightarrow>
             if dt_fingerprints d = [] then Inl (TypeError ''Cannot read properties of undefined'')
             else Inr (r\<lparr>rs_fingerprint := Some (last (dt_fingerprints d))\<rparr>))"

definition updateIceParameters :: "ice_parameters \<Rightarrow> remote_sdp \<Rightarrow> remote_sdp" where
  "updateIceParameters p r =
     r\<lparr>rs_env := (rs_env r)\<lparr>se_ice := Some p\<rparr>, rs_icelite := ip_iceLite p,
       rs_mediaSections := map (setIceParameters p) (rs_mediaSections r)\<rparr>"

definition updateDtlsRole :: "dtls_role \<Rightarrow> remote_sdp \<Rightarrow> remote_sdp result" where
  "updateDtlsRole role r =
     (case se_dtls (rs_env r) of
        None \<Rightarrow> Inl (TypeError ''Cannot set properties of undefined'')
      | Some d \<Rightarrow> Inr (r\<lparr>rs_env := (rs_env r)\<lparr>se_dtls := Some (d\<lparr>dt_role := role\<rparr>)\<rparr>,
          rs_mediaSections := map (setDtlsRole role) (rs_mediaSections r)\<rparr>))"

fun find_closed :: "nat \<Rightarrow> media_section list \<Rightarrow> (nat \<times> string) option" where
  "find_closed i [] = None"
| "find_closed i (m # ms) = (if ms_closed m then Some (i, ms_mid m) else find_closed (Suc i) ms)"

definition getNextMediaSectionIdx :: "remote_sdp \<Rightarrow> nat \<times> string option" where
  "getNextMediaSectionIdx r =
     (case find_closed 0 (rs_mediaSections r) of
        Some (i, mid) \<Rightarrow> (i, Some mid)
      | None \<Rightarrow> (length (rs_mediaSections r), None))"

definition regenerateBundleMids :: "remote_sdp \<Rightarrow> remote_sdp" where
  "regenerateBundleMids r =
     (if se_dtls (rs_env r) = None then r
      else r\<lparr>rs_bundleMids := join '' '' (map ms_mid (filter (\<lambda>m. \<not> ms_closed m) (rs_mediaSections r)))\<rparr>)"

definition addMediaSection :: "media_section \<Rightarrow> remote_sdp \<Rightarrow> remote_sdp" where
  "addMediaSection m r =
     regenerateBundleMids (r\<lparr>rs_firstMid := (case rs_firstMid r of Some (c # cs) \<Rightarrow> Some (c # cs) | _ \<Rightarrow> Some (ms_mid m)),
       rs_mediaSections := rs_mediaSections r @ [m],
       rs_midToIndex := jm_set (ms_mid m) (length (rs_mediaSections r)) (rs_midToIndex r)\<rparr>)"

definition replaceMediaSection :: "media_section \<Rightarrow> string option \<Rightarrow> remote_sdp \<Rightarrow> remote_sdp result" where
  "replaceMediaSection m reuseMid r =
     (case reuseMid of
        Some old \<Rightarrow>
          (case jm_get (rs_midToIndex r) old of
             None \<Rightarrow> Inl (OtherError ''no media section found for reuseMid'')
           | Some idx \<Rightarrow>
               if idx < length (rs_mediaSections r)
               then Inr (regenerateBundleMids (r\<lparr>rs_mediaSections := (rs_mediaSections r)[idx := m],
                 rs_midToIndex := jm_set (ms_mid m) idx (jm_delete (ms_mid (rs_mediaSections r ! idx)) (rs_midToIndex r))\<rparr>))
               else Inl (TypeError ''Cannot read properties of undefined''))
      | None \<Rightarrow>
          (case jm_get (rs_midToIndex r) (ms_mid m) of
             None \<Rightarrow> Inl (OtherError ''no media section found with mid'')
           | Some idx \<Rightarrow> Inr (r\<lparr>rs_mediaSections := (rs_mediaSections r)[idx := m]\<rparr>)))"

definition findMediaSection :: "string \<Rightarrow> remote_sdp \<Rightarrow> nat result" where
  "findMediaSection mid r =
     (case jm_get (rs_midToIndex r) mid of
        None \<Rightarrow> Inl (OtherError ''no media section found with mid'')
      | Some idx \<Rightarrow> if idx < length (rs_mediaSections r) then Inr idx else Inl (TypeError ''Cannot read properties of undefined''))"

section \<open>Sending and receiving\<close>

definition rs_send ::
    "media_object \<Rightarrow> string option \<Rightarrow> codec_parameters list \<Rightarrow> codec_parameters list \<Rightarrow> header_extension_parameters list \<Rightarrow>
     codec_options option \<Rightarrow> bool \<Rightarrow> remote_sdp \<Rightarrow> (remote_sdp \<times> codec_parameters list) result" where
  "rs_send offerMediaObject reuseMid offerCodecs answerCodecs answerExts codecOptions extmapAllowMixed r =
     bindr (new_AnswerMediaSection ((rs_env r)\<lparr>se_sctp := None\<rparr>) offerMediaObject offerCodecs answerCodecs answerExts codecOptions extmapAllowMixed)
       (\<lambda>(m, offer').
         bindr (case reuseMid of
             Some (c # cs) \<Rightarrow> replaceMediaSection m (Some (c # cs)) r
           | _ \<Rightarrow> if jm_get (rs_midToIndex r) (ms_mid m) = None then Inr (addMediaSection m r) else replaceMediaSection m None r)
         (\<lambda>r'. Inr (r', offer')))"

definition rs_receive :: "string \<Rightarrow> string \<Rightarrow> offer_parameters \<Rightarrow> string option \<Rightarrow> string \<Rightarrow> remote_sdp \<Rightarrow> remote_sdp result" where
  "rs_receive mid kind offer streamId trackId r =
     (case (case jm_get (rs_midToIndex r) mid of
          Some idx \<Rightarrow> if idx < length (rs_mediaSections r) then Some (rs_mediaSections r ! idx) else None
        | None \<Rightarrow> None)
      of
        None \<Rightarrow>
          bindr (new_OfferMediaSection ((rs_env r)\<lparr>se_sctp := None\<rparr>) mid kind offer streamId trackId False) (\<lambda>m.
            case find_closed 0 (rs_mediaSections r) of
              Some (_, old) \<Rightarrow> replaceMediaSection m (Some old) r
            | None \<Rightarrow> Inr (addMediaSection m r))
      | Some m \<Rightarrow> bindr (planBReceive offer streamId trackId m) (\<lambda>m'. replaceMediaSection m' None r))"

definition on_section :: "(media_section \<Rightarrow> media_section) \<Rightarrow> string \<Rightarrow> remote_sdp \<Rightarrow> remote_sdp result" where
  "on_section f mid r =
     bindr (findMediaSection mid r) (\<lambda>idx. Inr (r\<lparr>rs_mediaSections := (rs_mediaSections r)[idx := f (rs_mediaSections r ! idx)]\<rparr>))"

definition pauseMediaSection :: "string \<Rightarrow> remote_sdp \<Rightarrow> remote_sdp result" where
  "pauseMediaSection = on_section ms_pause"

definition resumeSendingMediaSection :: "string \<Rightarrow> remote_sdp \<Rightarrow> remote_sdp result" where
  "resumeSendingMediaSection = on_section ms_resume"

definition resumeReceivingMediaSection :: "string \<Rightarrow> remote_sdp \<Rightarrow> remote_sdp result" where
  "resumeReceivingMediaSection = on_section ms_resume"

definition disableMediaSection :: "string \<Rightarrow> remote_sdp \<Rightarrow> remote_sdp result" where
  "disableMediaSection = on_section ms_disable"

definition closeMediaSection :: "string \<Rightarrow> remote_sdp \<Rightarrow> (remote_sdp \<times> bool) result" where
  "closeMediaSection mid r =
     bindr (findMediaSection mid r) (\<lambda>_.
       if rs_firstMid r = Some mid then bindr (disableMediaSection mid r) (\<lambda>r'. Inr (r', False))
       else bindr (on_section ms_close mid r) (\<lambda>r'. Inr (regenerateBundleMids r', True)))"

definition muxMediaSectionSimulcast :: "string \<Rightarrow> layer_encoding list \<Rightarrow> remote_sdp \<Rightarrow> remote_sdp result" where
  "muxMediaSectionSimulcast mid encodings r =
     bindr (findMediaSection mid r) (\<lambda>idx. replaceMediaSection (muxSimulcastStreams encodings (rs_mediaSections r ! idx)) None r)"

definition rs_planBStopReceiving :: "string \<Rightarrow> offer_parameters \<Rightarrow> remote_sdp \<Rightarrow> remote_sdp result" where
  "rs_planBStopReceiving mid offer r =
     bindr (findMediaSection mid r) (\<lambda>idx.
     bindr (planBStopReceiving offer (rs_mediaSections r ! idx)) (\<lambda>m. replaceMediaSection m None r))"

definition sendSctpAssociation :: "media_object \<Rightarrow> remote_sdp \<Rightarrow> remote_sdp result" where
  "sendSctpAssociation offerMediaObject r =
     bindr (new_AnswerMediaSection ((rs_env r)\<lparr>se_planB := False\<rparr>) offerMediaObject [] [] [] None False)
       (\<lambda>(m, _). Inr (addMediaSection m r))"

definition receiveSctpAssociation :: "bool \<Rightarrow> remote_sdp \<Rightarrow> remote_sdp result" where
  "receiveSctpAssociation oldDataChannelSpec r =
     bindr (new_OfferMediaSection ((rs_env r)\<lparr>se_planB := False\<rparr>) ''datachannel'' ''application''
         \<lparr>op_codecs = [], op_headerExtensions = [], op_encodings = [], op_cname = []\<rparr> None [] oldDataChannelSpec)
       (\<lambda>m. Inr (addMediaSection m r))"

definition getSdp :: "(remote_sdp \<Rightarrow> string) \<Rightarrow> remote_sdp \<Rightarrow> remote_sdp \<times> string" where
  "getSdp write r = (let r' = r\<lparr>rs_sessionVersion := rs_sessionVersion r + 1\<rparr> in (r', write r'))"

section \<open>Runs\<close>

text \<open>The calls of a handler. Every call has its full effect; one that throws leaves the description as it was. A section
  that is sent goes to the place that \<open>getNextMediaSectionIdx\<close> announces, or, in Plan-B, to the section of its mid.\<close>

datatype sdp_op =
    SdpSend bool media_object "codec_parameters list" "codec_parameters list" "header_extension_parameters list" "codec_options option" bool
  | SdpReceive string string offer_parameters "string option" string
  | SdpPause string
  | SdpResume string
  | SdpDisable string
  | SdpClose string
  | SdpMux string "layer_encoding list"
  | SdpPlanBStop string offer_parameters
  | SdpSendSctp media_object
  | SdpReceiveSctp bool
  | SdpIce ice_parameters
  | SdpRole dtls_role
  | SdpPrint

definition keep :: "remote_sdp \<Rightarrow> remote_sdp result \<Rightarrow> remote_sdp" where
  "keep r res = (case res of Inl _ \<Rightarrow> r | Inr r' \<Rightarrow> r')"

fun sdp_step :: "remote_sdp \<Rightarrow> sdp_op \<Rightarrow> remote_sdp" where
  "sdp_step r (SdpSend reuse m offer answer exts opts mixed) =
     (case rs_send m (if reuse then snd (getNextMediaSectionIdx r) else None) offer answer exts opts mixed r of
        Inl _ \<Rightarrow> r | Inr (r', _) \<Rightarrow> r')"
| "sdp_step r (SdpReceive mid kind offer streamId trackId) =
     keep r (rs_receive mid kind offer streamId trackId r)"
| "sdp_step r (SdpPause mid) = keep r (pauseMediaSection mid r)"
| "sdp_step r (SdpResume mid) = keep r (resumeSendingMediaSection mid r)"
| "sdp_step r (SdpDisable mid) = keep r (disableMediaSection mid r)"
| "sdp_step r (SdpClose mid) = (case closeMediaSection mid r of Inl _ \<Rightarrow> r | Inr (r', _) \<Rightarrow> r')"
| "sdp_step r (SdpMux mid encodings) = keep r (muxMediaSectionSimulcast mid encodings r)"
| "sdp_step r (SdpPlanBStop mid offer) = keep r (rs_planBStopReceiving mid offer r)"
| "sdp_step r (SdpSendSctp m) = keep r (sendSctpAssociation m r)"
| "sdp_step r (SdpReceiveSctp old) = keep r (receiveSctpAssociation old r)"
| "sdp_step r (SdpIce p) = updateIceParameters p r"
| "sdp_step r (SdpRole role) = keep r (updateDtlsRole role r)"
| "sdp_step r SdpPrint = fst (getSdp (\<lambda>_. []) r)"

text \<open>The calls that the peer connection and the server keep to: a new section has a mid of its own, which is not
  empty, or that of the closed section whose place it takes; a section that is sent again, in Plan-B, is open; the
  section of the data channels is made once. \<open>RemoteSdp\<close> does not check any of it.\<close>

definition known_mid :: "string \<Rightarrow> remote_sdp \<Rightarrow> bool" where
  "known_mid mid r \<longleftrightarrow> jm_get (rs_midToIndex r) mid \<noteq> None"

definition mid_fits :: "bool \<Rightarrow> string \<Rightarrow> remote_sdp \<Rightarrow> bool" where
  "mid_fits reuse mid r \<longleftrightarrow> mid \<noteq> [] \<and>
     (if reuse then \<not> known_mid mid r \<or> snd (getNextMediaSectionIdx r) = Some mid
      else case jm_get (rs_midToIndex r) mid of None \<Rightarrow> True | Some i \<Rightarrow> \<not> ms_closed (rs_mediaSections r ! i))"

fun sdp_fits :: "remote_sdp \<Rightarrow> sdp_op \<Rightarrow> bool" where
  "sdp_fits r (SdpSend reuse m offer answer exts opts mixed) \<longleftrightarrow> mid_fits reuse (mo_mid m) r"
| "sdp_fits r (SdpReceive mid kind offer streamId trackId) \<longleftrightarrow> mid \<noteq> []"
| "sdp_fits r (SdpSendSctp m) \<longleftrightarrow> mo_mid m \<noteq> [] \<and> \<not> known_mid (mo_mid m) r"
| "sdp_fits r (SdpReceiveSctp old) \<longleftrightarrow> \<not> known_mid ''datachannel'' r"
| "sdp_fits r _ \<longleftrightarrow> True"

section \<open>Sections keep their mid\<close>

lemma media_frame [simp]:
  "ms_mid (setIceParameters p m) = ms_mid m" "ms_closed (setIceParameters p m) = ms_closed m"
  "ms_mid (setDtlsRole role m) = ms_mid m" "ms_closed (setDtlsRole role m) = ms_closed m"
  "ms_mid (ms_pause m) = ms_mid m" "ms_closed (ms_pause m) = ms_closed m"
  "ms_mid (ms_resume m) = ms_mid m" "ms_closed (ms_resume m) = ms_closed m"
  "ms_mid (ms_disable m) = ms_mid m" "ms_closed (ms_disable m) = ms_closed m"
  "ms_mid (ms_close m) = ms_mid m" "ms_closed (ms_close m)"
  "ms_mid (muxSimulcastStreams es m) = ms_mid m" "ms_closed (muxSimulcastStreams es m) = ms_closed m"
  by (simp_all add: ms_mid_def ms_closed_def setIceParameters_def setDtlsRole_def ms_pause_def ms_resume_def ms_disable_def
      ms_close_def muxSimulcastStreams_def js_eq_def Let_def split: section_class.split option.split prod.split list.split)

lemma planB_frame:
  "planBReceive offer sid tid m = Inr m' \<Longrightarrow> ms_mid m' = ms_mid m \<and> ms_closed m' = ms_closed m"
  "planBStopReceiving offer m = Inr m' \<Longrightarrow> ms_mid m' = ms_mid m \<and> ms_closed m' = ms_closed m"
  by (auto simp: planBReceive_def planBStopReceiving_def ms_mid_def ms_closed_def Let_def bindr_eq_Inr
      dest: offer_codecs_frame split: list.splits option.splits if_splits)

definition open_env :: "section_env \<Rightarrow> bool" where
  "open_env env \<longleftrightarrow> (case se_plain env of None \<Rightarrow> True | Some p \<Rightarrow> \<not> js_eq (pl_port p) (Fin 0))"

lemma answer_codecs_frame:
  "answer_codecs opts cs offer m = Inr (m', offer') \<Longrightarrow> ms_mid m' = ms_mid m \<and> ms_closed m' = ms_closed m"
proof (induction cs arbitrary: offer m)
  case (Cons c cs)
  then obtain ps fbs off1 m1 where "add_codec c ps fbs m = Inr m1" "answer_codecs opts cs off1 m1 = Inr (m', offer')"
    by (auto simp: bindr_eq_Inr)
  with Cons.IH [OF this(2)] add_codec_frame [OF this(1)] show ?case by (simp add: ms_mid_def ms_closed_def)
qed simp

lemma upd_eqD: "upd f x = m \<Longrightarrow> ms_object m = f (ms_object x)"
  by auto

lemma set_address_frame [simp]:
  "mo_mid (set_address plain o') = mo_mid o'"
  "open_env env \<Longrightarrow> \<not> js_eq (mo_port (set_address (se_plain env) o')) (Fin 0)"
  by (auto simp: set_address_def open_env_def js_eq_def split: option.splits)

lemma set_sctp_frame: "set_sctp new sctp o1 = Inr o2 \<Longrightarrow> mo_mid o2 = mo_mid o1 \<and> mo_port o2 = mo_port o1"
  by (auto simp: set_sctp_def split: option.splits if_splits)

lemma answer_simulcast_frame [simp]:
  "mo_mid (answer_simulcast offer o') = mo_mid o'" "mo_port (answer_simulcast offer o') = mo_port o'"
  by (simp_all add: answer_simulcast_def split: option.split)

lemma new_answer_open:
  assumes "new_AnswerMediaSection env o' offer answer exts opts mixed = Inr (m, offer')" "open_env env"
  shows "ms_mid m = mo_mid o' \<and> \<not> ms_closed m"
  using assms
  by (auto simp: new_AnswerMediaSection_def Let_def bindr_eq_Inr ms_mid_def ms_closed_def set_object_def split: if_splits
      dest!: answer_codecs_frame set_sctp_frame upd_eqD)

lemma offer_parts_frame [simp]:
  "mo_mid (ms_object (offer_start env mid kind)) = mid"
  "open_env env \<Longrightarrow> \<not> js_eq (mo_port (ms_object (offer_start env mid kind))) (Fin 0)"
  "mo_mid (ms_object (offer_direction planB msid m)) = mo_mid (ms_object m)"
  "mo_port (ms_object (offer_direction planB msid m)) = mo_port (ms_object m)"
  "mo_mid (ms_object (offer_finish planB msid offer e m)) = mo_mid (ms_object m)"
  "mo_port (ms_object (offer_finish planB msid offer e m)) = mo_port (ms_object m)"
  by (simp_all add: offer_start_def offer_direction_def offer_finish_def Let_def)

lemma new_offer_open:
  assumes "new_OfferMediaSection env mid kind offer sid tid old = Inr m" "open_env env"
  shows "ms_mid m = mid \<and> \<not> ms_closed m"
proof (cases "kind = ''audio'' \<or> kind = ''video''")
  case True
  then obtain m1 e where "offer_codecs (op_codecs offer) (offer_direction (se_planB env) (msid_of sid tid) (offer_start env mid kind)) = Inr m1"
      "m = offer_finish (se_planB env) (msid_of sid tid) offer e m1"
    using assms(1) by (cases "op_encodings offer") (auto simp: new_OfferMediaSection_def Let_def bindr_eq_Inr)
  with offer_codecs_frame [OF this(1)] assms(2) show ?thesis by (simp add: ms_mid_def ms_closed_def)
next
  case False
  with assms show ?thesis
    by (auto simp: new_OfferMediaSection_def Let_def bindr_eq_Inr ms_mid_def ms_closed_def set_object_def split: if_splits dest!: set_sctp_frame)
qed

section \<open>The invariant\<close>

definition idx_ok :: "media_section list \<Rightarrow> (string, nat) jsmap \<Rightarrow> bool" where
  "idx_ok secs m \<longleftrightarrow> jm_wf m \<and> jm_get m [] = None \<and> (\<forall>mid i. jm_get m mid = Some i \<longleftrightarrow> i < length secs \<and> ms_mid (secs ! i) = mid)"

definition first_ok :: "media_section list \<Rightarrow> string option \<Rightarrow> bool" where
  "first_ok secs first \<longleftrightarrow> (case secs of [] \<Rightarrow> first = None | m # _ \<Rightarrow> first = Some (ms_mid m) \<and> ms_mid m \<noteq> [] \<and> \<not> ms_closed m)"

definition bundle_of :: "media_section list \<Rightarrow> string" where
  "bundle_of secs = join '' '' (map ms_mid (filter (\<lambda>m. \<not> ms_closed m) secs))"

definition sdp_inv :: "remote_sdp \<Rightarrow> bool" where
  "sdp_inv r \<longleftrightarrow> idx_ok (rs_mediaSections r) (rs_midToIndex r) \<and> first_ok (rs_mediaSections r) (rs_firstMid r) \<and>
     (se_dtls (rs_env r) = None \<or> rs_bundleMids r = bundle_of (rs_mediaSections r)) \<and> open_env (rs_env r)"

text \<open>Open \<open>m=\<close> lines stay where they are.\<close>

definition lines_stable :: "remote_sdp \<Rightarrow> remote_sdp \<Rightarrow> bool" where
  "lines_stable r r' \<longleftrightarrow> length (rs_mediaSections r) \<le> length (rs_mediaSections r') \<and>
     (\<forall>i < length (rs_mediaSections r). \<not> ms_closed (rs_mediaSections r ! i) \<longrightarrow>
        ms_mid (rs_mediaSections r' ! i) = ms_mid (rs_mediaSections r ! i))"

lemma lines_stable_refl [simp]: "lines_stable r r"
  by (simp add: lines_stable_def)

lemma regenerate_frame [simp]:
  "rs_mediaSections (regenerateBundleMids r) = rs_mediaSections r" "rs_midToIndex (regenerateBundleMids r) = rs_midToIndex r"
  "rs_firstMid (regenerateBundleMids r) = rs_firstMid r" "rs_env (regenerateBundleMids r) = rs_env r"
  by (simp_all add: regenerateBundleMids_def)

lemma regenerate_inv:
  "idx_ok (rs_mediaSections r) (rs_midToIndex r) \<Longrightarrow> first_ok (rs_mediaSections r) (rs_firstMid r) \<Longrightarrow> open_env (rs_env r) \<Longrightarrow>
   sdp_inv (regenerateBundleMids r)"
  by (simp add: sdp_inv_def) (simp add: regenerateBundleMids_def bundle_of_def)

lemma find_closed_spec:
  "find_closed k secs = Some (i, mid) \<Longrightarrow> k \<le> i \<and> i - k < length secs \<and> ms_closed (secs ! (i - k)) \<and> ms_mid (secs ! (i - k)) = mid"
proof (induction k secs rule: find_closed.induct)
  case (2 k m ms)
  show ?case
  proof (cases "ms_closed m")
    case False
    with 2 have h: "Suc k \<le> i" "i - Suc k < length ms \<and> ms_closed (ms ! (i - Suc k)) \<and> ms_mid (ms ! (i - Suc k)) = mid" by simp_all
    from h(1) have "i - k = Suc (i - Suc k)" by simp
    with h show ?thesis by simp
  qed (use 2 in simp)
qed simp

text \<open>A section with a new mid at the end, or in the place of a closed one.\<close>

lemma add_inv:
  assumes inv: "sdp_inv r" and m: "jm_get (rs_midToIndex r) (ms_mid m) = None" "ms_mid m \<noteq> []" "\<not> ms_closed m"
  shows "sdp_inv (addMediaSection m r)" "lines_stable r (addMediaSection m r)"
proof -
  have "idx_ok (rs_mediaSections r @ [m]) (jm_set (ms_mid m) (length (rs_mediaSections r)) (rs_midToIndex r))"
    using inv m(1,2) unfolding sdp_inv_def idx_ok_def jm.get_put by (auto simp: jm.wf_put nth_append less_Suc_eq) (metis option.distinct(1))+
  then show "sdp_inv (addMediaSection m r)"
    unfolding addMediaSection_def
    by (intro regenerate_inv) (use inv m(2,3) in \<open>auto simp: sdp_inv_def first_ok_def neq_Nil_conv split: list.splits option.splits\<close>)
  show "lines_stable r (addMediaSection m r)" by (simp add: lines_stable_def addMediaSection_def nth_append)
qed

lemma replace_closed_inv:
  assumes inv: "sdp_inv r" and i: "find_closed 0 (rs_mediaSections r) = Some (i, old)"
    and m: "jm_get (rs_midToIndex r) (ms_mid m) = None \<or> ms_mid m = old" "\<not> ms_closed m" "ms_mid m \<noteq> []"
  shows "\<exists>r'. replaceMediaSection m (Some old) r = Inr r' \<and> sdp_inv r' \<and> lines_stable r r' \<and>
    rs_mediaSections r' = (rs_mediaSections r)[i := m]"
proof -
  define secs where "secs = rs_mediaSections r"
  have c: "i < length secs" "ms_closed (secs ! i)" "ms_mid (secs ! i) = old"
    using find_closed_spec [OF i] by (simp_all add: secs_def)
  have ok: "idx_ok secs (rs_midToIndex r)" and first: "first_ok secs (rs_firstMid r)" and env: "open_env (rs_env r)"
    using inv by (simp_all add: sdp_inv_def secs_def)
  have g: "jm_get (rs_midToIndex r) old = Some i" using ok c by (simp add: idx_ok_def)
  let ?r = "r\<lparr>rs_mediaSections := secs[i := m], rs_midToIndex := jm_set (ms_mid m) i (jm_delete old (rs_midToIndex r))\<rparr>"
  have eq: "replaceMediaSection m (Some old) r = Inr (regenerateBundleMids ?r)"
    using g c by (simp add: replaceMediaSection_def secs_def)
  have other: "ms_mid (secs ! j) \<noteq> ms_mid m \<and> ms_mid (secs ! j) \<noteq> old" if "j < length secs" "j \<noteq> i" for j
  proof
    show "ms_mid (secs ! j) \<noteq> old" using ok that g unfolding idx_ok_def by (metis option.inject)
    then show "ms_mid (secs ! j) \<noteq> ms_mid m" using m(1) ok that unfolding idx_ok_def by (metis option.distinct(1))
  qed
  have "idx_ok (secs[i := m]) (jm_set (ms_mid m) i (jm_delete old (rs_midToIndex r)))"
    using ok c other m(3) unfolding idx_ok_def jm.get_put jm.get_remove
    by (auto simp: jm.wf_put jm.wf_remove nth_list_update split: if_splits)
  moreover have "i \<noteq> 0" using first c by (cases i) (auto simp: first_ok_def split: list.splits)
  then have "first_ok (secs[i := m]) (rs_firstMid r)" using first by (cases i) (auto simp: first_ok_def split: list.splits)
  ultimately have "sdp_inv (regenerateBundleMids ?r)" using env by (intro regenerate_inv) simp_all
  moreover have "lines_stable r (regenerateBundleMids ?r)"
    using c by (auto simp: lines_stable_def secs_def nth_list_update)
  ultimately show ?thesis using eq by (auto simp: secs_def)
qed

text \<open>A section changed in place.\<close>

lemma bundle_of_pairs: "bundle_of secs = join '' '' (map fst (filter (\<lambda>p. \<not> snd p) (map (\<lambda>m. (ms_mid m, ms_closed m)) secs)))"
  by (simp add: bundle_of_def filter_map comp_def)

lemma update_inv:
  assumes inv: "sdp_inv r" and i: "i < length (rs_mediaSections r)"
    and m: "ms_mid m = ms_mid (rs_mediaSections r ! i)" "ms_closed m = ms_closed (rs_mediaSections r ! i)"
  shows "sdp_inv (r\<lparr>rs_mediaSections := (rs_mediaSections r)[i := m]\<rparr>) \<and> lines_stable r (r\<lparr>rs_mediaSections := (rs_mediaSections r)[i := m]\<rparr>)"
proof -
  let ?secs = "(rs_mediaSections r)[i := m]"
  have mids: "map ms_mid ?secs = map ms_mid (rs_mediaSections r)"
    using m by (simp add: map_update list_update_same_conv i)
  have "ms_mid (?secs ! j) = ms_mid (rs_mediaSections r ! j)" if "j < length (rs_mediaSections r)" for j
    using mids that by (metis length_list_update nth_map)
  moreover have "map (\<lambda>m. (ms_mid m, ms_closed m)) ?secs = map (\<lambda>m. (ms_mid m, ms_closed m)) (rs_mediaSections r)"
    using m by (simp add: map_update list_update_same_conv i)
  then have "bundle_of ?secs = bundle_of (rs_mediaSections r)" by (simp add: bundle_of_pairs)
  moreover have "first_ok ?secs f = first_ok (rs_mediaSections r) f" for f
    using m i by (cases i; cases "rs_mediaSections r") (auto simp: first_ok_def)
  ultimately show ?thesis using inv by (auto simp: sdp_inv_def idx_ok_def lines_stable_def)
qed

section \<open>Steps\<close>

definition good :: "remote_sdp \<Rightarrow> remote_sdp \<Rightarrow> bool" where
  "good r r' \<longleftrightarrow> sdp_inv r' \<and> lines_stable r r'"

lemma good_refl: "sdp_inv r \<Longrightarrow> good r r"
  by (simp add: good_def)

lemma good_keep: "sdp_inv r \<Longrightarrow> (\<And>r'. res = Inr r' \<Longrightarrow> good r r') \<Longrightarrow> good r (keep r res)"
  by (cases res) (simp_all add: keep_def good_refl)

lemma find_inv:
  assumes "sdp_inv r" "findMediaSection mid r = Inr idx"
  shows "idx < length (rs_mediaSections r)" "ms_mid (rs_mediaSections r ! idx) = mid" "jm_get (rs_midToIndex r) mid = Some idx"
  using assms by (auto simp: findMediaSection_def sdp_inv_def idx_ok_def split: option.splits if_splits)

lemma on_section_good:
  assumes inv: "sdp_inv r" and "\<And>m. ms_mid (f m) = ms_mid m" "\<And>m. ms_closed (f m) = ms_closed m"
  shows "good r (keep r (on_section f mid r))"
proof (rule good_keep [OF inv])
  fix r' assume "on_section f mid r = Inr r'"
  then obtain idx where "findMediaSection mid r = Inr idx"
      "r' = r\<lparr>rs_mediaSections := (rs_mediaSections r)[idx := f (rs_mediaSections r ! idx)]\<rparr>"
    by (auto simp: on_section_def bindr_eq_Inr)
  with find_inv(1) [OF inv this(1)] update_inv [OF inv, of idx] assms(2,3) show "good r r'" by (simp add: good_def)
qed

lemma replace_same_good:
  assumes inv: "sdp_inv r" and i: "i < length (rs_mediaSections r)"
    and m: "ms_mid m = ms_mid (rs_mediaSections r ! i)" "ms_closed m = ms_closed (rs_mediaSections r ! i)"
    and rep: "replaceMediaSection m None r = Inr r'"
  shows "good r r'"
proof -
  have "jm_get (rs_midToIndex r) (ms_mid m) = Some i" using inv i m by (simp add: sdp_inv_def idx_ok_def)
  with rep have "r' = r\<lparr>rs_mediaSections := (rs_mediaSections r)[i := m]\<rparr>" by (simp add: replaceMediaSection_def)
  with update_inv [OF inv i m] show ?thesis by (simp add: good_def)
qed

lemma close_good:
  assumes inv: "sdp_inv r" and cl: "closeMediaSection mid r = Inr (r', b)"
  shows "good r r' \<and> (b \<longrightarrow> (\<exists>i < length (rs_mediaSections r'). ms_mid (rs_mediaSections r' ! i) = mid \<and> ms_closed (rs_mediaSections r' ! i)))"
proof (cases "rs_firstMid r = Some mid")
  case True
  then have "disableMediaSection mid r = Inr r'" "\<not> b" using cl by (auto simp: closeMediaSection_def bindr_eq_Inr)
  then show ?thesis using on_section_good [OF inv, of ms_disable mid] by (simp add: disableMediaSection_def keep_def)
next
  case False
  then obtain i where i: "findMediaSection mid r = Inr i" and b: "b"
    and r': "r' = regenerateBundleMids (r\<lparr>rs_mediaSections := (rs_mediaSections r)[i := ms_close (rs_mediaSections r ! i)]\<rparr>)"
    using cl by (auto simp: closeMediaSection_def on_section_def bindr_eq_Inr)
  note f = find_inv [OF inv i]
  have ok: "idx_ok (rs_mediaSections r) (rs_midToIndex r)" "first_ok (rs_mediaSections r) (rs_firstMid r)" "open_env (rs_env r)"
    using inv by (simp_all add: sdp_inv_def)
  have mids: "ms_mid ((rs_mediaSections r)[i := ms_close (rs_mediaSections r ! i)] ! j) = ms_mid (rs_mediaSections r ! j)" for j
    using f(1) by (cases "j = i") simp_all
  have "i \<noteq> 0"
    using ok(2) False f by (cases i; cases "rs_mediaSections r") (auto simp: first_ok_def)
  then have "first_ok ((rs_mediaSections r)[i := ms_close (rs_mediaSections r ! i)]) (rs_firstMid r)"
    using ok(2) by (cases i) (auto simp: first_ok_def split: list.splits)
  then have "sdp_inv r'" unfolding r' by (intro regenerate_inv) (use ok mids in \<open>simp_all add: idx_ok_def\<close>)
  then show ?thesis using f(1,2) mids by (auto simp: good_def lines_stable_def r')
qed

lemma next_section:
  "getNextMediaSectionIdx r = (i, Some old) \<longleftrightarrow> find_closed 0 (rs_mediaSections r) = Some (i, old)"
  "getNextMediaSectionIdx r = (i, None) \<longleftrightarrow> find_closed 0 (rs_mediaSections r) = None \<and> i = length (rs_mediaSections r)"
  by (auto simp: getNextMediaSectionIdx_def split: option.splits)

lemma closed_mid_nonempty:
  assumes "sdp_inv r" "find_closed 0 (rs_mediaSections r) = Some (i, old)"
  shows "old \<noteq> []"
  using assms(1) find_closed_spec [OF assms(2)] unfolding sdp_inv_def idx_ok_def by (metis diff_zero option.distinct(1))

text \<open>A section that is sent takes the place that \<open>getNextMediaSectionIdx\<close> announced.\<close>

lemma send_reuse_good:
  assumes inv: "sdp_inv r" and fits: "mid_fits True (mo_mid o') r"
    and snd: "rs_send o' (snd (getNextMediaSectionIdx r)) offer answer exts opts mixed r = Inr (r', offer')"
  shows "good r r' \<and> (\<exists>m. ms_mid m = mo_mid o' \<and> \<not> ms_closed m \<and>
    rs_mediaSections r' = (if snd (getNextMediaSectionIdx r) = None then rs_mediaSections r @ [m]
      else (rs_mediaSections r)[fst (getNextMediaSectionIdx r) := m]))"
proof -
  obtain m where m: "new_AnswerMediaSection ((rs_env r)\<lparr>se_sctp := None\<rparr>) o' offer answer exts opts mixed = Inr (m, offer')"
    and rep: "(case snd (getNextMediaSectionIdx r) of Some (c # cs) \<Rightarrow> replaceMediaSection m (Some (c # cs)) r
        | _ \<Rightarrow> if jm_get (rs_midToIndex r) (ms_mid m) = None then Inr (addMediaSection m r) else replaceMediaSection m None r) = Inr r'"
    using snd by (auto simp: rs_send_def bindr_eq_Inr)
  have "open_env ((rs_env r)\<lparr>se_sctp := None\<rparr>)" using inv by (simp add: sdp_inv_def open_env_def)
  note mid = new_answer_open [OF m this]
  show ?thesis
  proof (cases "find_closed 0 (rs_mediaSections r)")
    case None
    then have nx: "getNextMediaSectionIdx r = (length (rs_mediaSections r), None)" by (simp add: next_section)
    with fits mid have g: "jm_get (rs_midToIndex r) (ms_mid m) = None" "ms_mid m \<noteq> []" by (auto simp: mid_fits_def known_mid_def)
    then have "r' = addMediaSection m r" using rep nx by simp
    then show ?thesis using add_inv [OF inv g] mid nx by (auto simp: good_def addMediaSection_def)
  next
    case (Some x)
    then obtain i old where x: "find_closed 0 (rs_mediaSections r) = Some (i, old)" by (cases x) auto
    then have nx: "getNextMediaSectionIdx r = (i, Some old)" by (simp add: next_section)
    obtain c cs where old: "old = c # cs" using closed_mid_nonempty [OF inv x] by (cases old) auto
    have "jm_get (rs_midToIndex r) (ms_mid m) = None \<or> ms_mid m = old" "ms_mid m \<noteq> []"
      using fits mid nx by (auto simp: mid_fits_def known_mid_def)
    with replace_closed_inv [OF inv x, of m] mid rep nx old show ?thesis by (auto simp: good_def)
  qed
qed

lemma send_again_good:
  assumes inv: "sdp_inv r" and fits: "mid_fits False (mo_mid o') r"
    and snd: "rs_send o' None offer answer exts opts mixed r = Inr (r', offer')"
  shows "good r r'"
proof -
  obtain m where m: "new_AnswerMediaSection ((rs_env r)\<lparr>se_sctp := None\<rparr>) o' offer answer exts opts mixed = Inr (m, offer')"
    and rep: "(if jm_get (rs_midToIndex r) (ms_mid m) = None then Inr (addMediaSection m r) else replaceMediaSection m None r) = Inr r'"
    using snd by (auto simp: rs_send_def bindr_eq_Inr)
  have "open_env ((rs_env r)\<lparr>se_sctp := None\<rparr>)" using inv by (simp add: sdp_inv_def open_env_def)
  note mid = new_answer_open [OF m this]
  show ?thesis
  proof (cases "jm_get (rs_midToIndex r) (ms_mid m)")
    case None
    then show ?thesis using add_inv [OF inv None] mid fits rep by (simp add: good_def mid_fits_def)
  next
    case (Some i)
    then have "i < length (rs_mediaSections r)" "ms_mid (rs_mediaSections r ! i) = ms_mid m" "\<not> ms_closed (rs_mediaSections r ! i)"
      using inv fits mid by (auto simp: sdp_inv_def idx_ok_def mid_fits_def)
    with replace_same_good [OF inv, of i m] rep Some mid show ?thesis by simp
  qed
qed

lemma receive_good:
  assumes inv: "sdp_inv r" and mid: "mid \<noteq> []" and rec: "rs_receive mid kind offer sid tid r = Inr r'"
  shows "good r r'"
proof (cases "jm_get (rs_midToIndex r) mid")
  case (Some i)
  then have i: "i < length (rs_mediaSections r)" "ms_mid (rs_mediaSections r ! i) = mid"
    using inv by (auto simp: sdp_inv_def idx_ok_def)
  then obtain m where "planBReceive offer sid tid (rs_mediaSections r ! i) = Inr m" "replaceMediaSection m None r = Inr r'"
    using rec Some by (auto simp: rs_receive_def bindr_eq_Inr)
  with replace_same_good [OF inv i(1), of m] planB_frame(1) [OF this(1)] show ?thesis by simp
next
  case None
  then obtain m where m: "new_OfferMediaSection ((rs_env r)\<lparr>se_sctp := None\<rparr>) mid kind offer sid tid False = Inr m"
    and rep: "(case find_closed 0 (rs_mediaSections r) of Some (_, old) \<Rightarrow> replaceMediaSection m (Some old) r
        | None \<Rightarrow> Inr (addMediaSection m r)) = Inr r'"
    using rec by (auto simp: rs_receive_def bindr_eq_Inr)
  have "open_env ((rs_env r)\<lparr>se_sctp := None\<rparr>)" using inv by (simp add: sdp_inv_def open_env_def)
  note mm = new_offer_open [OF m this]
  show ?thesis
  proof (cases "find_closed 0 (rs_mediaSections r)")
    case (Some x)
    then obtain i old where x: "find_closed 0 (rs_mediaSections r) = Some (i, old)" by (cases x) auto
    with replace_closed_inv [OF inv x, of m] rep mm None mid show ?thesis by (auto simp: good_def)
  qed (use add_inv [OF inv, of m] rep mm None mid in \<open>simp add: good_def\<close>)
qed

lemma sctp_good:
  assumes inv: "sdp_inv r"
  shows "mo_mid o' \<noteq> [] \<Longrightarrow> \<not> known_mid (mo_mid o') r \<Longrightarrow> sendSctpAssociation o' r = Inr r' \<Longrightarrow> good r r'"
    and "\<not> known_mid ''datachannel'' r \<Longrightarrow> receiveSctpAssociation old r = Inr r' \<Longrightarrow> good r r'"
proof -
  have env: "open_env ((rs_env r)\<lparr>se_planB := False\<rparr>)" using inv by (simp add: sdp_inv_def open_env_def)
  show "good r r'" if h: "mo_mid o' \<noteq> []" "\<not> known_mid (mo_mid o') r" "sendSctpAssociation o' r = Inr r'"
  proof -
    obtain m off where "new_AnswerMediaSection ((rs_env r)\<lparr>se_planB := False\<rparr>) o' [] [] [] None False = Inr (m, off)" "r' = addMediaSection m r"
      using h(3) by (auto simp: sendSctpAssociation_def bindr_eq_Inr)
    with new_answer_open [OF this(1) env] add_inv [OF inv, of m] h show ?thesis by (simp add: good_def known_mid_def)
  qed
  show "good r r'" if h: "\<not> known_mid ''datachannel'' r" "receiveSctpAssociation old r = Inr r'"
  proof -
    obtain m where "new_OfferMediaSection ((rs_env r)\<lparr>se_planB := False\<rparr>) ''datachannel'' ''application''
         \<lparr>op_codecs = [], op_headerExtensions = [], op_encodings = [], op_cname = []\<rparr> None [] old = Inr m" "r' = addMediaSection m r"
      using h(2) by (auto simp: receiveSctpAssociation_def bindr_eq_Inr)
    with new_offer_open [OF this(1) env] add_inv [OF inv, of m] h show ?thesis by (simp add: good_def known_mid_def)
  qed
qed

lemma map_sections_good:
  assumes inv: "sdp_inv r" and f: "\<And>m. ms_mid (f m) = ms_mid m" "\<And>m. ms_closed (f m) = ms_closed m"
    and r': "rs_mediaSections r' = map f (rs_mediaSections r)" "rs_midToIndex r' = rs_midToIndex r" "rs_firstMid r' = rs_firstMid r"
      "rs_bundleMids r' = rs_bundleMids r" "se_dtls (rs_env r') = None \<longleftrightarrow> se_dtls (rs_env r) = None" "se_plain (rs_env r') = se_plain (rs_env r)"
  shows "good r r'"
proof -
  have "bundle_of (map f secs) = bundle_of secs" for secs by (simp add: bundle_of_pairs f comp_def)
  moreover have "first_ok (map f secs) first = first_ok secs first" for secs first by (simp add: first_ok_def f split: list.split)
  moreover have "idx_ok (map f secs) m = idx_ok secs m" for secs m
    by (auto simp: idx_ok_def f)
  ultimately show ?thesis using inv r' by (simp add: good_def sdp_inv_def lines_stable_def open_env_def f)
qed

lemma step_good:
  assumes inv: "sdp_inv r" and fits: "sdp_fits r op"
  shows "good r (sdp_step r op)"
proof (cases op)
  case (SdpSend reuse m offer answer exts opts mixed)
  show ?thesis
  proof (cases "rs_send m (if reuse then snd (getNextMediaSectionIdx r) else None) offer answer exts opts mixed r")
    case (Inr x)
    obtain r' off where "x = (r', off)" by (cases x)
    with Inr SdpSend inv fits send_reuse_good [OF inv, of m offer answer exts opts mixed r' off] send_again_good [OF inv, of m offer answer exts opts mixed r' off]
    show ?thesis by (cases reuse) (simp_all add: good_refl)
  qed (use SdpSend inv in \<open>simp add: good_refl\<close>)
next
  case (SdpReceive mid kind offer sid tid)
  then show ?thesis using inv fits receive_good [OF inv] by (auto simp: good_refl intro: good_keep)
next
  case (SdpClose mid)
  then show ?thesis using inv close_good [OF inv, of mid] by (auto simp: good_refl split: sum.split)
next
  case (SdpMux mid encodings)
  have "good r (keep r (muxMediaSectionSimulcast mid encodings r))"
  proof (rule good_keep [OF inv])
    fix r' assume "muxMediaSectionSimulcast mid encodings r = Inr r'"
    then obtain i where i: "findMediaSection mid r = Inr i" "replaceMediaSection (muxSimulcastStreams encodings (rs_mediaSections r ! i)) None r = Inr r'"
      by (auto simp: muxMediaSectionSimulcast_def bindr_eq_Inr)
    show "good r r'" by (rule replace_same_good [OF inv find_inv(1) [OF inv i(1)] _ _ i(2)]) simp_all
  qed
  with SdpMux show ?thesis by simp
next
  case (SdpPlanBStop mid offer)
  have "good r (keep r (rs_planBStopReceiving mid offer r))"
  proof (rule good_keep [OF inv])
    fix r' assume "rs_planBStopReceiving mid offer r = Inr r'"
    then obtain i m where i: "findMediaSection mid r = Inr i" "planBStopReceiving offer (rs_mediaSections r ! i) = Inr m" "replaceMediaSection m None r = Inr r'"
      by (auto simp: rs_planBStopReceiving_def bindr_eq_Inr)
    show "good r r'" by (rule replace_same_good [OF inv find_inv(1) [OF inv i(1)] _ _ i(3)]) (use planB_frame(2) [OF i(2)] in simp_all)
  qed
  with SdpPlanBStop show ?thesis by simp
next
  case (SdpIce p)
  show ?thesis unfolding SdpIce
    by (rule map_sections_good [OF inv, of "setIceParameters p"]) (simp_all add: updateIceParameters_def)
next
  case (SdpRole role)
  have "good r (keep r (updateDtlsRole role r))"
  proof (rule good_keep [OF inv])
    fix r' assume "updateDtlsRole role r = Inr r'"
    then show "good r r'"
      by (intro map_sections_good [OF inv, of "setDtlsRole role"]) (auto simp: updateDtlsRole_def split: option.splits)
  qed
  with SdpRole show ?thesis by simp
next
  case SdpPrint
  show ?thesis unfolding SdpPrint
    by (rule map_sections_good [OF inv, of "\<lambda>m. m"]) (simp_all add: getSdp_def Let_def)
qed (use inv fits sctp_good [OF inv] on_section_good [OF inv] in
    \<open>auto simp: pauseMediaSection_def resumeSendingMediaSection_def disableMediaSection_def good_refl intro: good_keep\<close>)

interpretation sdp: fitting_invariant sdp_step sdp_inv sdp_fits
  by unfold_locales (use step_good in \<open>simp add: good_def\<close>)

text \<open>In a consistent description no call at all moves an open line, whether it fits or not.\<close>

lemma add_stable: "lines_stable r (addMediaSection m r)"
  by (simp add: lines_stable_def addMediaSection_def nth_append)

lemma replace_closed_stable:
  assumes "sdp_inv r" "find_closed 0 (rs_mediaSections r) = Some (i, old)" "replaceMediaSection m (Some old) r = Inr r'"
  shows "lines_stable r r'"
proof -
  have c: "i < length (rs_mediaSections r)" "ms_closed (rs_mediaSections r ! i)" "ms_mid (rs_mediaSections r ! i) = old"
    using find_closed_spec [OF assms(2)] by simp_all
  then have "jm_get (rs_midToIndex r) old = Some i" using assms(1) by (simp add: sdp_inv_def idx_ok_def)
  with assms(3) c show ?thesis by (auto simp: replaceMediaSection_def lines_stable_def nth_list_update)
qed

lemma replace_same_stable:
  assumes "sdp_inv r" "replaceMediaSection m None r = Inr r'"
  shows "lines_stable r r'"
proof -
  obtain i where "jm_get (rs_midToIndex r) (ms_mid m) = Some i" "r' = r\<lparr>rs_mediaSections := (rs_mediaSections r)[i := m]\<rparr>"
    using assms(2) by (auto simp: replaceMediaSection_def split: option.splits)
  moreover from this(1) have "ms_mid (rs_mediaSections r ! i) = ms_mid m" using assms(1) by (simp add: sdp_inv_def idx_ok_def)
  then have "ms_mid ((rs_mediaSections r)[i := m] ! j) = ms_mid (rs_mediaSections r ! j)" if "j < length (rs_mediaSections r)" for j
    using that by (cases "i = j") auto
  ultimately show ?thesis by (simp add: lines_stable_def)
qed

lemma send_stable:
  assumes inv: "sdp_inv r" and snd: "rs_send o' (if reuse then snd (getNextMediaSectionIdx r) else None) offer answer exts opts mixed r = Inr (r', offer')"
  shows "lines_stable r r'"
proof -
  obtain m where rep: "(case (if reuse then snd (getNextMediaSectionIdx r) else None) of Some (c # cs) \<Rightarrow> replaceMediaSection m (Some (c # cs)) r
        | _ \<Rightarrow> if jm_get (rs_midToIndex r) (ms_mid m) = None then Inr (addMediaSection m r) else replaceMediaSection m None r) = Inr r'"
    using snd by (auto simp: rs_send_def bindr_eq_Inr)
  show ?thesis
  proof (cases "if reuse then snd (getNextMediaSectionIdx r) else None")
    case (Some old)
    then obtain i where x: "find_closed 0 (rs_mediaSections r) = Some (i, old)"
      by (cases "getNextMediaSectionIdx r") (auto simp: next_section split: if_splits)
    obtain c cs where "old = c # cs" using closed_mid_nonempty [OF inv x] by (cases old) auto
    with rep Some replace_closed_stable [OF inv x] show ?thesis by simp
  qed (use rep add_stable replace_same_stable [OF inv] in \<open>auto split: if_splits\<close>)
qed

lemma receive_stable:
  assumes inv: "sdp_inv r" and rec: "rs_receive mid kind offer sid tid r = Inr r'"
  shows "lines_stable r r'"
proof (cases "mid = []")
  case True
  then have "jm_get (rs_midToIndex r) mid = None" using inv by (simp add: sdp_inv_def idx_ok_def)
  then obtain m where "(case find_closed 0 (rs_mediaSections r) of Some (_, old) \<Rightarrow> replaceMediaSection m (Some old) r
        | None \<Rightarrow> Inr (addMediaSection m r)) = Inr r'"
    using rec by (auto simp: rs_receive_def bindr_eq_Inr)
  then show ?thesis using add_stable replace_closed_stable [OF inv] by (auto split: option.splits)
qed (use receive_good [OF inv _ rec] in \<open>simp add: good_def\<close>)

lemma step_stable:
  assumes inv: "sdp_inv r"
  shows "lines_stable r (sdp_step r op)"
proof (cases "sdp_fits r op")
  case False
  show ?thesis
  proof (cases op)
    case (SdpSend reuse m offer answer exts opts mixed)
    then show ?thesis using send_stable [OF inv, of m reuse offer answer exts opts mixed] by (auto simp: send_stable split: sum.split prod.split)
  next
    case (SdpReceive mid kind offer sid tid)
    then show ?thesis using receive_stable [OF inv, of mid kind offer sid tid] by (auto simp: keep_def split: sum.split)
  qed (use False add_stable in \<open>auto simp: keep_def sendSctpAssociation_def receiveSctpAssociation_def bindr_eq_Inr split: sum.split\<close>)
qed (use step_good [OF inv] in \<open>simp add: good_def\<close>)

lemma new_RemoteSdp_inv: "new_RemoteSdp env = Inr r \<Longrightarrow> open_env env \<Longrightarrow> sdp_inv r"
  by (auto simp: new_RemoteSdp_def sdp_inv_def idx_ok_def first_ok_def bundle_of_def Let_def jm_get_def jm_wf_def split: option.splits if_splits)

section \<open>Theorems\<close>

text \<open>C10: The index of the remote description finds each section by its mid, the first section stays open, and the
  BUNDLE group lists the mids of exactly the open sections, in the order of the \<open>m=\<close> lines, after every sequence
  of calls that keeps to three rules, which the class relies on and does not check: a new section has a mid that is
  not empty and not in the description yet, or that of the closed section whose place it takes; a section that is
  sent again, as in Plan-B, is open; and \<open>sendSctpAssociation\<close> and \<open>receiveSctpAssociation\<close> are called while there is
  no section with the mid they add. The port of plain RTP parameters, if any, is not 0. Calls that throw,
  and pause, resume, disable, close, simulcast, Plan-B, ICE and DTLS calls with any argument, may be in the sequence.\<close>

theorem remote_sdp_consistent:
  assumes "new_RemoteSdp env = Inr r0" "open_env env" "all_fit sdp_step sdp_fits r0 ops" and r: "r = foldl sdp_step r0 ops"
  shows "(\<forall>mid i. jm_get (rs_midToIndex r) mid = Some i \<longleftrightarrow> i < length (sdp_media r) \<and> mo_mid (sdp_media r ! i) = mid) \<and>
    (rs_mediaSections r \<noteq> [] \<longrightarrow> \<not> ms_closed (hd (rs_mediaSections r))) \<and>
    (se_dtls (rs_env r) = None \<or> rs_bundleMids r = join '' '' (map ms_mid (filter (\<lambda>m. \<not> ms_closed m) (rs_mediaSections r))))"
proof -
  have inv: "sdp_inv r" unfolding r by (rule sdp.fitting_run [OF new_RemoteSdp_inv [OF assms(1,2)] assms(3)])
  have mid: "mo_mid (sdp_media r ! i) = ms_mid (rs_mediaSections r ! i)" if "i < length (rs_mediaSections r)" for i
    using that by (simp add: sdp_media_def ms_mid_def)
  have "jm_get (rs_midToIndex r) mid = Some i \<longleftrightarrow> i < length (sdp_media r) \<and> mo_mid (sdp_media r ! i) = mid" for mid i
    using inv mid [of i] by (auto simp: sdp_inv_def idx_ok_def sdp_media_def)
  with inv show ?thesis by (auto simp: sdp_inv_def first_ok_def bundle_of_def neq_Nil_conv)
qed

text \<open>C24: No call moves or drops an \<open>m=\<close> line: in every description that is reached by calls that keep to the rules above
  (mids of new sections are new, the data-channel section is made once, no plain RTP port is 0), any call whatever,
  one that breaks those rules included, leaves at least as many sections and the mid of every open section in its
  place.\<close>

theorem m_lines_stable:
  assumes "new_RemoteSdp env = Inr r0" "open_env env" "all_fit sdp_step sdp_fits r0 ops" and r: "r = foldl sdp_step r0 ops"
  shows "length (sdp_media r) \<le> length (sdp_media (sdp_step r op)) \<and>
    (i < length (sdp_media r) \<and> \<not> js_eq (mo_port (sdp_media r ! i)) (Fin 0) \<longrightarrow>
       mo_mid (sdp_media (sdp_step r op) ! i) = mo_mid (sdp_media r ! i))"
proof -
  have "sdp_inv r" unfolding r by (rule sdp.fitting_run [OF new_RemoteSdp_inv [OF assms(1,2)] assms(3)])
  from step_stable [OF this, of op] show ?thesis
    by (auto simp: lines_stable_def sdp_media_def ms_mid_def ms_closed_def)
qed

text \<open>A handler asks for the place of its next section before it makes the offer. When the answer is stored, the
  new section is open and exactly there: in place of the closed section that was announced, or at the end;
  every other section is unchanged.\<close>

theorem send_takes_announced_place:
  assumes "new_RemoteSdp env = Inr r0" "open_env env" "all_fit sdp_step sdp_fits r0 ops" and r: "r = foldl sdp_step r0 ops"
    and next_idx: "getNextMediaSectionIdx r = (idx, reuseMid)" and fits: "mid_fits True (mo_mid o') r"
    and sent: "rs_send o' reuseMid offer answer exts opts mixed r = Inr (r', offer')"
  shows "idx < length (sdp_media r') \<and> mo_mid (sdp_media r' ! idx) = mo_mid o' \<and> \<not> ms_closed (rs_mediaSections r' ! idx) \<and>
    length (sdp_media r') = (if reuseMid = None then length (sdp_media r) + 1 else length (sdp_media r)) \<and>
    (j < length (sdp_media r) \<and> j \<noteq> idx \<longrightarrow> sdp_media r' ! j = sdp_media r ! j)"
proof -
  have inv: "sdp_inv r" unfolding r by (rule sdp.fitting_run [OF new_RemoteSdp_inv [OF assms(1,2)] assms(3)])
  obtain m where m: "ms_mid m = mo_mid o'" "\<not> ms_closed m" "rs_mediaSections r' = (if reuseMid = None then rs_mediaSections r @ [m]
      else (rs_mediaSections r)[idx := m])"
    using send_reuse_good [OF inv fits, of offer answer exts opts mixed r' offer'] sent next_idx by auto
  show ?thesis
  proof (cases reuseMid)
    case None
    with next_idx have "idx = length (rs_mediaSections r)" by (simp add: next_section)
    with m None show ?thesis by (auto simp: sdp_media_def ms_mid_def nth_append)
  next
    case (Some old)
    with next_idx have "idx < length (rs_mediaSections r)" using find_closed_spec [of 0 "rs_mediaSections r" idx old] by (simp add: next_section)
    with m Some show ?thesis by (auto simp: sdp_media_def ms_mid_def map_update)
  qed
qed

definition dtls_env :: section_env where
  "dtls_env = \<lparr>se_ice = Some \<lparr>ip_usernameFragment = ''u'', ip_password = ''p'', ip_iceLite = True\<rparr>, se_candidates = Some [],
     se_dtls = Some \<lparr>dt_role = RoleAuto, dt_fingerprints = [(''sha-256'', ''AA'')]\<rparr>, se_sctp = None, se_plain = None, se_planB = False\<rparr>"

definition dtls_sdp :: remote_sdp where
  "dtls_sdp = (case new_RemoteSdp dtls_env of Inr r \<Rightarrow> r
     | Inl _ \<Rightarrow> \<lparr>rs_mediaSections = [], rs_midToIndex = [], rs_firstMid = None, rs_env = dtls_env, rs_icelite = False,
         rs_origin = ([], Fin 0), rs_sessionVersion = 0, rs_fingerprint = None, rs_bundleMids = []\<rparr>)"

text \<open>Two sections are received, one is closed, and its place is taken by the third.\<close>

definition recycle_run :: "sdp_op list" where
  "recycle_run = [SdpReceive ''0'' ''audio'' (stream_offer (Fin 8)) None ''a'', SdpReceive ''1'' ''audio'' (stream_offer (Fin 8)) None ''b'',
     SdpReceive ''2'' ''audio'' (stream_offer (Fin 8)) None ''c'', SdpClose ''1'', SdpClose ''0'', SdpReceive ''3'' ''audio'' (stream_offer (Fin 8)) None ''d'']"

lemma dtls_sdp_new: "new_RemoteSdp dtls_env = Inr dtls_sdp" "open_env dtls_env"
  by (simp_all add: dtls_sdp_def new_RemoteSdp_def dtls_env_def Let_def open_env_def)

lemma recycle_run_fits: "all_fit sdp_step sdp_fits dtls_sdp recycle_run" "all_fit sdp_step sdp_fits dtls_sdp (take 4 recycle_run)"
  by code_simp+

theorem remote_sdp_consistent_witness:
  "map mo_mid (sdp_media (foldl sdp_step dtls_sdp recycle_run)) = [''0'', ''3'', ''2''] \<and>
   rs_bundleMids (foldl sdp_step dtls_sdp recycle_run) = ''0 3 2''"
proof -
  let ?r = "foldl sdp_step dtls_sdp recycle_run"
  have "rs_bundleMids ?r = join '' '' (map ms_mid (filter (\<lambda>m. \<not> ms_closed m) (rs_mediaSections ?r)))"
  proof -
    have "se_dtls (rs_env ?r) \<noteq> None" by code_simp
    with remote_sdp_consistent [OF dtls_sdp_new recycle_run_fits(1) refl] show ?thesis by blast
  qed
  moreover have "map mo_mid (sdp_media ?r) = [''0'', ''3'', ''2''] \<and>
      join '' '' (map ms_mid (filter (\<lambda>m. \<not> ms_closed m) (rs_mediaSections ?r))) = ''0 3 2''" by code_simp
  ultimately show ?thesis by simp
qed

theorem m_lines_stable_witness:
  "mo_mid (sdp_media (sdp_step (foldl sdp_step dtls_sdp recycle_run) (SdpClose ''2'')) ! 1) = ''3''"
proof -
  let ?r = "foldl sdp_step dtls_sdp recycle_run"
  have "1 < length (sdp_media ?r) \<and> \<not> js_eq (mo_port (sdp_media ?r ! 1)) (Fin 0) \<and> mo_mid (sdp_media ?r ! 1) = ''3''" by code_simp
  with m_lines_stable [OF dtls_sdp_new recycle_run_fits(1) refl, of "SdpClose ''2''" 1] show ?thesis by simp
qed

definition offer_object :: media_object where
  "offer_object = empty_media\<lparr>mo_mid := ''9'', mo_type := ''audio'', mo_protocol := ''UDP/TLS/RTP/SAVPF'', mo_port := Fin 9\<rparr>"

theorem send_takes_announced_place_witness:
  "\<exists>r' offer'. rs_send offer_object (Some ''1'') [] [] [] None False (foldl sdp_step dtls_sdp (take 4 recycle_run)) = Inr (r', offer') \<and>
     mo_mid (sdp_media r' ! 1) = ''9''"
proof -
  let ?r = "foldl sdp_step dtls_sdp (take 4 recycle_run)"
  have "getNextMediaSectionIdx ?r = (1, Some ''1'') \<and> mid_fits True (mo_mid offer_object) ?r \<and>
      is_ok (rs_send offer_object (Some ''1'') [] [] [] None False ?r)" by code_simp
  then obtain r' offer' where "rs_send offer_object (Some ''1'') [] [] [] None False ?r = Inr (r', offer')"
      "getNextMediaSectionIdx ?r = (1, Some ''1'')" "mid_fits True (mo_mid offer_object) ?r"
    by (cases "rs_send offer_object (Some ''1'') [] [] [] None False ?r") (auto simp: is_ok_def)
  with send_takes_announced_place [OF dtls_sdp_new recycle_run_fits(2) refl this(2,3,1)] show ?thesis by (auto simp: offer_object_def)
qed

end
