(* ===== verification/HandlerIO.thy ===== *)
theory HandlerIO
  imports RemoteSdp SdpUtils
begin

text \<open>
  What the methods of a browser handler are made of: a computation over a state that may throw after it has
  changed the state. The peer connection, its transceivers and the \<open>sdp-transform\<close> library are a record of
  functions over a world of their own. Every call that the other side of the connection can see is written to a
  log. A handler's methods run one at a time (the transport's queue serialises them); \<open>close\<close>, which does not wait,
  only sets a flag that a running method does not read.
\<close>

section \<open>Computations\<close>

type_synonym ('s, 'a) io = "'s \<Rightarrow> 's \<times> 'a result"

definition ret :: "'a \<Rightarrow> ('s, 'a) io" where
  "ret x s = (s, Inr x)"

definition raise :: "js_error \<Rightarrow> ('s, 'a) io" where
  "raise e s = (s, Inl e)"

definition io_bind :: "('s, 'a) io \<Rightarrow> ('a \<Rightarrow> ('s, 'b) io) \<Rightarrow> ('s, 'b) io" where
  "io_bind m f s = (case m s of (s', Inl e) \<Rightarrow> (s', Inl e) | (s', Inr x) \<Rightarrow> f x s')"

definition io_then :: "('s, 'a) io \<Rightarrow> ('s, 'b) io \<Rightarrow> ('s, 'b) io" where
  "io_then m n = io_bind m (\<lambda>_. n)"

definition read :: "('s \<Rightarrow> 'a) \<Rightarrow> ('s, 'a) io" where
  "read f s = (s, Inr (f s))"

definition modify :: "('s \<Rightarrow> 's) \<Rightarrow> ('s, unit) io" where
  "modify f s = (f s, Inr ())"

definition lift :: "'a result \<Rightarrow> ('s, 'a) io" where
  "lift r s = (s, r)"

fun each :: "('a \<Rightarrow> ('s, 'b) io) \<Rightarrow> 'a list \<Rightarrow> ('s, 'b list) io" where
  "each f [] = ret []"
| "each f (x # xs) = io_bind (f x) (\<lambda>y. io_bind (each f xs) (\<lambda>ys. ret (y # ys)))"

definition check :: "bool \<Rightarrow> js_error \<Rightarrow> ('s, unit) io" where
  "check b e = (if b then ret () else raise e)"

section \<open>What a computation keeps\<close>

named_theorems keeps

text \<open>Whether it returns or throws, \<open>m\<close> leaves a state with \<open>Q\<close> when it starts in one with \<open>P\<close>; when it returns \<open>x\<close>, the
  state has \<open>R x\<close> too.\<close>

definition triple :: "('s \<Rightarrow> bool) \<Rightarrow> ('s, 'a) io \<Rightarrow> ('a \<Rightarrow> 's \<Rightarrow> bool) \<Rightarrow> ('s \<Rightarrow> bool) \<Rightarrow> bool" where
  "triple P m R E \<longleftrightarrow> (\<forall>s s' r. P s \<longrightarrow> m s = (s', r) \<longrightarrow> (case r of Inr x \<Rightarrow> R x s' | Inl _ \<Rightarrow> E s'))"

lemma tripleI: "(\<And>s s' r. P s \<Longrightarrow> m s = (s', r) \<Longrightarrow> case r of Inr x \<Rightarrow> R x s' | Inl _ \<Rightarrow> E s') \<Longrightarrow> triple P m R E"
  by (simp add: triple_def)

lemma tripleD: "triple P m R E \<Longrightarrow> P s \<Longrightarrow> m s = (s', r) \<Longrightarrow> case r of Inr x \<Rightarrow> R x s' | Inl _ \<Rightarrow> E s'"
  by (simp add: triple_def)

lemma triple_ret: "(\<And>s. P s \<Longrightarrow> R x s) \<Longrightarrow> triple P (ret x) R E"
  by (simp add: triple_def ret_def)

lemma triple_raise: "(\<And>s. P s \<Longrightarrow> E s) \<Longrightarrow> triple P (raise e) R E"
  by (simp add: triple_def raise_def)

lemma triple_bind: "triple P m R E \<Longrightarrow> (\<And>x. triple (R x) (f x) R' E) \<Longrightarrow> triple P (io_bind m f) R' E"
proof (rule tripleI)
  fix s s' r
  assume t: "triple P m R E" and f: "\<And>x. triple (R x) (f x) R' E" and P: "P s" and run: "io_bind m f s = (s', r)"
  obtain s1 r1 where m: "m s = (s1, r1)" by fastforce
  show "case r of Inr x \<Rightarrow> R' x s' | Inl _ \<Rightarrow> E s'"
  proof (cases r1)
    case (Inl e)
    with tripleD [OF t P m] run m show ?thesis by (auto simp: io_bind_def)
  next
    case (Inr x)
    with tripleD [OF t P m] have "R x s1" by simp
    from tripleD [OF f this] run m Inr show ?thesis by (simp add: io_bind_def)
  qed
qed

lemma triple_then: "triple P m R E \<Longrightarrow> (\<And>x. triple (R x) n R' E) \<Longrightarrow> triple P (io_then m n) R' E"
  by (simp add: io_then_def triple_bind)

lemma triple_read: "(\<And>s. P s \<Longrightarrow> R (f s) s) \<Longrightarrow> triple P (read f) R E"
  by (simp add: triple_def read_def)

lemma triple_modify: "(\<And>s. P s \<Longrightarrow> R () (f s)) \<Longrightarrow> triple P (modify f) R E"
  by (simp add: triple_def modify_def)

lemma triple_lift: "(\<And>s x. P s \<Longrightarrow> r = Inr x \<Longrightarrow> R x s) \<Longrightarrow> (\<And>s. P s \<Longrightarrow> E s) \<Longrightarrow> triple P (lift r) R E"
  by (rule tripleI) (auto simp: lift_def split: sum.split)

lemma triple_check: "(\<And>s. P s \<Longrightarrow> b \<Longrightarrow> R () s) \<Longrightarrow> (\<And>s. P s \<Longrightarrow> E s) \<Longrightarrow> triple P (check b e) R E"
  by (simp add: check_def triple_ret triple_raise)

lemma triple_if: "(b \<Longrightarrow> triple P m R E) \<Longrightarrow> (\<not> b \<Longrightarrow> triple P n R E) \<Longrightarrow> triple P (if b then m else n) R E"
  by simp

lemma triple_weaken:
  assumes "triple P m R E" "\<And>s. P' s \<Longrightarrow> P s" "\<And>x s. R x s \<Longrightarrow> R' x s" "\<And>s. E s \<Longrightarrow> E' s"
  shows "triple P' m R' E'"
proof (rule tripleI)
  fix s s' r
  assume "P' s" "m s = (s', r)"
  from tripleD [OF assms(1) assms(2) [OF this(1)] this(2)] assms(3,4)
  show "case r of Inr x \<Rightarrow> R' x s' | Inl _ \<Rightarrow> E' s'" by (simp split: sum.splits)
qed

lemma triple_bind_read: "(\<And>x. triple P (g x) R E) \<Longrightarrow> triple P (io_bind (read f) g) R E"
  by (rule triple_bind [of _ _ "\<lambda>_. P"]) (auto intro: triple_read)

lemma triple_bind_lift: "(\<And>s. P s \<Longrightarrow> E s) \<Longrightarrow> (\<And>x. triple P (g x) R E) \<Longrightarrow> triple P (io_bind (lift r) g) R E"
  by (rule triple_bind [of _ _ "\<lambda>_. P"]) (auto intro: triple_lift)

text \<open>The same property before, after and when it throws.\<close>

definition keeping :: "('s \<Rightarrow> bool) \<Rightarrow> ('s, 'a) io \<Rightarrow> bool" where
  "keeping I m \<longleftrightarrow> (\<forall>s. I s \<longrightarrow> I (fst (m s)))"

lemma keeping_triple: "keeping I m \<longleftrightarrow> triple I m (\<lambda>_. I) I"
proof
  assume "keeping I m"
  show "triple I m (\<lambda>_. I) I"
  proof (rule tripleI)
    fix s s' r assume "I s" "m s = (s', r)"
    with \<open>keeping I m\<close> have "I s'" unfolding keeping_def by (metis fst_conv)
    then show "case r of Inr _ \<Rightarrow> I s' | Inl _ \<Rightarrow> I s'" by (simp split: sum.split)
  qed
next
  assume t: "triple I m (\<lambda>_. I) I"
  show "keeping I m" unfolding keeping_def
  proof (intro allI impI)
    fix s assume "I s"
    moreover obtain s' r where m: "m s = (s', r)" by fastforce
    ultimately have "case r of Inr _ \<Rightarrow> I s' | Inl _ \<Rightarrow> I s'" by (rule tripleD [OF t])
    then show "I (fst (m s))" by (simp add: m split: sum.splits)
  qed
qed

lemma keeping_bind [keeps]: "keeping I m \<Longrightarrow> (\<And>x. keeping I (f x)) \<Longrightarrow> keeping I (io_bind m f)"
  unfolding keeping_triple by (rule triple_bind)

lemma keeping_then [keeps]: "keeping I m \<Longrightarrow> keeping I n \<Longrightarrow> keeping I (io_then m n)"
  unfolding keeping_triple by (rule triple_then)

lemma keeping_basic [keeps]: "keeping I (ret x)" "keeping I (raise e)" "keeping I (read f)" "keeping I (lift r)" "keeping I (check b e)"
  by (simp_all add: keeping_def ret_def raise_def read_def lift_def check_def)

lemma keeping_modify: "(\<And>s. I s \<Longrightarrow> I (f s)) \<Longrightarrow> keeping I (modify f)"
  by (simp add: keeping_def modify_def)

lemma keeping_if [keeps]: "keeping I m \<Longrightarrow> keeping I n \<Longrightarrow> keeping I (if b then m else n)"
  by simp

lemma keeping_option [keeps]: "keeping I m \<Longrightarrow> (\<And>x. keeping I (f x)) \<Longrightarrow> keeping I (case o' of None \<Rightarrow> m | Some x \<Rightarrow> f x)"
  by (cases o') simp_all

lemma keeping_each_set: "(\<And>x. x \<in> set xs \<Longrightarrow> keeping I (f x)) \<Longrightarrow> keeping I (each f xs)"
  by (induction xs) (auto intro!: keeps)

lemma keeping_each [keeps]: "(\<And>x. keeping I (f x)) \<Longrightarrow> keeping I (each f xs)"
  by (rule keeping_each_set)

lemma triple_conj:
  assumes "triple P m R E" "keeping Q m"
  shows "triple (\<lambda>s. P s \<and> Q s) m (\<lambda>x s. R x s \<and> Q s) E"
proof (rule tripleI)
  fix s s' r
  assume pq: "P s \<and> Q s" and run: "m s = (s', r)"
  have "Q s'" using assms(2) pq run by (metis keeping_def fst_conv)
  with tripleD [OF assms(1) _ run] pq show "case r of Inr x \<Rightarrow> R x s' \<and> Q s' | Inl _ \<Rightarrow> E s'" by (simp split: sum.splits)
qed

lemma triple_keeping: "keeping I m \<Longrightarrow> (\<And>s. P s \<Longrightarrow> I s) \<Longrightarrow> (\<And>s. I s \<Longrightarrow> Q s) \<Longrightarrow> triple P m (\<lambda>_. Q) Q"
  unfolding keeping_triple by (rule triple_weaken)

end
