(* ===== verification/Chrome111.thy ===== *)
theory Chrome111
  imports HandlerIO
begin

text \<open>
  The handler of current browsers, \<open>handlers/Chrome111.js\<close>: it keeps a remote description (\<open>RemoteSdp\<close>) and a
  peer connection in step, over offers and answers. The theorems follow every sequence of calls, with every
  outcome of the peer connection's calls, failures included.
\<close>

section \<open>The host\<close>

record channel_options =
  ch_id :: number
  ch_ordered :: "bool option"
  ch_maxPacketLifeTime :: "number option"
  ch_maxRetransmits :: "number option"
  ch_label :: string
  ch_protocol :: "string option"

text \<open>The peer connection and its transceivers of type \<open>'t\<close>, the \<open>sdp-transform\<close> library, and the transport that answers the
  \<open>@connect\<close> event. A call answers the world it leaves, with what it returns or throws.\<close>

record ('w, 't) host =
  sdp_parse :: "string \<Rightarrow> sdp_object"
  sdp_write :: "remote_sdp \<Rightarrow> string"
  sdp_write_object :: "sdp_object \<Rightarrow> string"
  pc_create :: "'w \<Rightarrow> 'w \<times> unit result"
  pc_addTransceiver :: "track_kind \<Rightarrow> string \<Rightarrow> jsobj list option \<Rightarrow> 'w \<Rightarrow> 'w \<times> 't result"
  pc_createOffer :: "bool \<Rightarrow> 'w \<Rightarrow> 'w \<times> string result"
  pc_createAnswer :: "'w \<Rightarrow> 'w \<times> string result"
  pc_setLocalDescription :: "string \<Rightarrow> 'w \<Rightarrow> 'w \<times> unit result"
  pc_setRemoteDescription :: "string \<Rightarrow> 'w \<Rightarrow> 'w \<times> unit result"
  pc_localDescription :: "'w \<Rightarrow> string"
  pc_getTransceivers :: "'w \<Rightarrow> 't list"
  pc_removeTrack :: "'t \<Rightarrow> 'w \<Rightarrow> 'w \<times> unit result"
  pc_createDataChannel :: "channel_options \<Rightarrow> 'w \<Rightarrow> 'w \<times> unit result"
  pc_setIceServers :: "jsval \<Rightarrow> 'w \<Rightarrow> 'w \<times> unit result"
  pc_close :: "'w \<Rightarrow> 'w"
  tr_mid :: "'t \<Rightarrow> 'w \<Rightarrow> string option"
  tr_setDirection :: "'t \<Rightarrow> string \<Rightarrow> 'w \<Rightarrow> 'w \<times> unit result"
  tr_stop :: "'t \<Rightarrow> 'w \<Rightarrow> 'w"
  sender_replaceTrack :: "'t \<Rightarrow> string option \<Rightarrow> 'w \<Rightarrow> 'w \<times> unit result"
  sender_getParameters :: "'t \<Rightarrow> 'w \<Rightarrow> jsobj list"
  sender_setParameters :: "'t \<Rightarrow> jsobj list \<Rightarrow> 'w \<Rightarrow> 'w \<times> unit result"
  on_connect :: "dtls_parameters \<Rightarrow> 'w \<Rightarrow> 'w \<times> unit result"

section \<open>The handler\<close>

datatype handler_direction = DirSend | DirRecv

text \<open>The last three fields are those of the Plan-B handlers, which keep their senders by number in the place of transceivers by mid.\<close>

record 't handler =
  h_closed :: bool
  h_direction :: "handler_direction option"
  h_remoteSdp :: "remote_sdp option"
  h_sending :: "track_kind \<Rightarrow> rtp_parameters"
  h_sendingRemote :: "track_kind \<Rightarrow> rtp_parameters"
  h_forcedLocalDtlsRole :: "dtls_role option"
  h_mapMidTransceiver :: "(string option, 't) jsmap"
  h_hasDataChannelMediaSection :: bool
  h_nextSendSctpStreamId :: nat
  h_transportReady :: bool
  h_pc :: bool
  h_sendStream :: "string list"
  h_nextSendLocalId :: nat
  h_mapRecvLocalIdInfo :: "(string, string \<times> offer_parameters) jsmap"

text \<open>What the other side gets to see: the local parameters, local and remote descriptions, data channels.\<close>

datatype host_event = HConnect dtls_role bool | HLocal | HRemote nat | HChannel number | HClosed

record ('w, 't) hstate =
  hs_handler :: "'t handler"
  hs_world :: 'w
  hs_log :: "host_event list"

type_synonym ('w, 't, 'a) hio = "(('w, 't) hstate, 'a) io"

definition SCTP_NUM_STREAMS :: nat where
  "SCTP_NUM_STREAMS = 1024"

definition new_Chrome111 :: "'t handler" where
  "new_Chrome111 = \<lparr>h_closed = False, h_direction = None, h_remoteSdp = None, h_sending = (\<lambda>_. getSendingRtpParameters KAudio \<lparr>xr_codecs = [], xr_headerExtensions = []\<rparr>),
     h_sendingRemote = (\<lambda>_. getSendingRtpParameters KAudio \<lparr>xr_codecs = [], xr_headerExtensions = []\<rparr>), h_forcedLocalDtlsRole = None,
     h_mapMidTransceiver = [], h_hasDataChannelMediaSection = False, h_nextSendSctpStreamId = 0, h_transportReady = False, h_pc = False,
     h_sendStream = [], h_nextSendLocalId = 0, h_mapRecvLocalIdInfo = []\<rparr>"

definition on_handler :: "('t handler \<Rightarrow> 't handler) \<Rightarrow> ('w, 't, unit) hio" where
  "on_handler f = modify (\<lambda>s. s\<lparr>hs_handler := f (hs_handler s)\<rparr>)"

definition ask :: "('t handler \<Rightarrow> 'a) \<Rightarrow> ('w, 't, 'a) hio" where
  "ask f = read (\<lambda>s. f (hs_handler s))"

definition look :: "('w \<Rightarrow> 'a) \<Rightarrow> ('w, 't, 'a) hio" where
  "look f = read (\<lambda>s. f (hs_world s))"

text \<open>A call of the host, and one that leaves an entry in the log.\<close>

definition host_call :: "('w \<Rightarrow> 'w \<times> 'a result) \<Rightarrow> ('w, 't, 'a) hio" where
  "host_call f s = (case f (hs_world s) of (w, r) \<Rightarrow> (s\<lparr>hs_world := w\<rparr>, r))"

definition log_event :: "host_event \<Rightarrow> ('w, 't, unit) hio" where
  "log_event e = modify (\<lambda>s. s\<lparr>hs_log := hs_log s @ [e]\<rparr>)"

text \<open>A call of a method of the remote description, which is there once the handler runs.\<close>

definition on_sdp :: "(remote_sdp \<Rightarrow> (remote_sdp \<times> 'a) result) \<Rightarrow> ('w, 't, 'a) hio" where
  "on_sdp f =
     io_bind (ask h_remoteSdp) (\<lambda>sdp.
       case sdp of
         None \<Rightarrow> raise (TypeError ''Cannot read properties of undefined'')
       | Some r \<Rightarrow> io_bind (lift (f r)) (\<lambda>(r', x). io_then (on_handler (\<lambda>h. h\<lparr>h_remoteSdp := Some r'\<rparr>)) (ret x)))"

definition no_value :: "remote_sdp result \<Rightarrow> (remote_sdp \<times> unit) result" where
  "no_value res = bindr res (\<lambda>r. Inr (r, ()))"

definition assertNotClosed :: "('w, 't, unit) hio" where
  "assertNotClosed = io_bind (ask h_closed) (\<lambda>c. check (\<not> c) (InvalidStateError ''method called in a closed handler''))"

definition assertSendDirection :: "('w, 't, unit) hio" where
  "assertSendDirection = io_bind (ask h_direction) (\<lambda>d.
     check (d = Some DirSend) (OtherError ''method can just be called for handlers with \"send\" direction''))"

definition assertRecvDirection :: "('w, 't, unit) hio" where
  "assertRecvDirection = io_bind (ask h_direction) (\<lambda>d.
     check (d = Some DirRecv) (OtherError ''method can just be called for handlers with \"recv\" direction''))"

text \<open>An object is looked up by the identifier of its producer or consumer.\<close>

definition find_object :: "js_error \<Rightarrow> string \<Rightarrow> ('w, 't, 't) hio" where
  "find_object missing localId =
     io_bind (ask h_mapMidTransceiver) (\<lambda>m.
       case jm_get m (Some localId) of
         None \<Rightarrow> raise missing
       | Some t \<Rightarrow> ret t)"

definition find_transceiver :: "string \<Rightarrow> ('w, 't, 't) hio" where
  "find_transceiver = find_object (OtherError ''associated RTCRtpTransceiver not found'')"

section \<open>Descriptions\<close>

definition set_local :: "('w, 't) host \<Rightarrow> string \<Rightarrow> ('w, 't, unit) hio" where
  "set_local pc sdp = io_then (log_event HLocal) (host_call (pc_setLocalDescription pc sdp))"

text \<open>The remote description is printed with the next version and given to the peer connection.\<close>

definition set_remote :: "('w, 't) host \<Rightarrow> ('w, 't, unit) hio" where
  "set_remote pc =
     io_bind (on_sdp (\<lambda>r. case getSdp (sdp_write pc) r of (r', text) \<Rightarrow> Inr (r', (rs_sessionVersion r', text)))) (\<lambda>(version, text).
       io_then (log_event (HRemote version)) (host_call (pc_setRemoteDescription pc text)))"

definition offer_answer :: "('w, 't) host \<Rightarrow> bool \<Rightarrow> ('w, 't, unit) hio" where
  "offer_answer pc iceRestart =
     io_bind (host_call (pc_createOffer pc iceRestart)) (\<lambda>offer. io_then (set_local pc offer) (set_remote pc))"

definition answer_remote :: "('w, 't) host \<Rightarrow> ('w, 't, unit) hio" where
  "answer_remote pc =
     io_then (set_remote pc) (io_bind (host_call (pc_createAnswer pc)) (\<lambda>answer. set_local pc answer))"

definition opposite_role :: "dtls_role \<Rightarrow> dtls_role" where
  "opposite_role role = (if role = RoleClient then RoleServer else RoleClient)"

text \<open>The transport answers the \<open>@connect\<close> event; the log says with what success.\<close>

definition connect_call :: "('w, 't) host \<Rightarrow> dtls_parameters \<Rightarrow> ('w, 't, unit) hio" where
  "connect_call pc p s =
     (case on_connect pc p (hs_world s) of (w, r) \<Rightarrow>
        (s\<lparr>hs_world := w, hs_log := hs_log s @ [HConnect (dt_role p) (is_ok r)]\<rparr>, r))"

definition setupTransport :: "('w, 't) host \<Rightarrow> dtls_role \<Rightarrow> sdp_object \<Rightarrow> ('w, 't, unit) hio" where
  "setupTransport pc localDtlsRole localSdpObject =
     io_bind (lift (extractDtlsParameters localSdpObject)) (\<lambda>(_, fingerprints).
     io_then (on_sdp (\<lambda>r. no_value (updateDtlsRole (opposite_role localDtlsRole) r)))
     (io_then (connect_call pc \<lparr>dt_role = localDtlsRole, dt_fingerprints = fingerprints\<rparr>)
       (on_handler (\<lambda>h. h\<lparr>h_transportReady := True\<rparr>))))"

definition local_role :: "'t handler \<Rightarrow> dtls_role" where
  "local_role h = (case h_forcedLocalDtlsRole h of Some role \<Rightarrow> role | None \<Rightarrow> RoleClient)"

definition ensure_transport :: "('w, 't) host \<Rightarrow> sdp_object \<Rightarrow> ('w, 't, unit) hio" where
  "ensure_transport pc sdp =
     io_bind (ask h_transportReady) (\<lambda>ready.
       if ready then ret () else io_bind (ask local_role) (\<lambda>role. setupTransport pc role sdp))"

section \<open>Life cycle\<close>

definition h_close :: "('w, 't) host \<Rightarrow> ('w, 't, unit) hio" where
  "h_close pc =
     io_bind (ask h_closed) (\<lambda>c.
       if c then ret ()
       else io_then (on_handler (\<lambda>h. h\<lparr>h_closed := True\<rparr>))
         (io_bind (ask h_pc) (\<lambda>created.
           io_then (if created then host_call (\<lambda>w. (pc_close pc w, Inr ())) else ret ()) (log_event HClosed))))"

definition forced_role :: "dtls_role \<Rightarrow> dtls_role option" where
  "forced_role role = (case role of RoleAuto \<Rightarrow> None | RoleServer \<Rightarrow> Some RoleClient | RoleClient \<Rightarrow> Some RoleServer)"

definition h_run :: "('w, 't) host \<Rightarrow> handler_direction \<Rightarrow> section_env \<Rightarrow> extended_capabilities \<Rightarrow> ('w, 't, unit) hio" where
  "h_run pc direction env extended =
     io_then assertNotClosed
     (io_then (on_handler (\<lambda>h. h\<lparr>h_direction := Some direction\<rparr>))
     (io_bind (lift (new_RemoteSdp env)) (\<lambda>r.
     io_then (on_handler (\<lambda>h. h\<lparr>h_remoteSdp := Some r,
         h_sending := (\<lambda>kind. getSendingRtpParameters kind extended),
         h_sendingRemote := (\<lambda>kind. getSendingRemoteRtpParameters kind extended),
         h_forcedLocalDtlsRole := (case se_dtls env of Some d \<Rightarrow> forced_role (dt_role d) | None \<Rightarrow> None)\<rparr>))
     (io_then (host_call (pc_create pc)) (on_handler (\<lambda>h. h\<lparr>h_pc := True\<rparr>))))))"

text \<open>What is told the transport of a browser that only knows the state of ICE.\<close>

definition connection_state :: "string \<Rightarrow> string option" where
  "connection_state iceState =
     (if iceState = ''checking'' then Some ''connecting''
      else if iceState = ''connected'' \<or> iceState = ''completed'' then Some ''connected''
      else if iceState = ''failed'' \<or> iceState = ''disconnected'' \<or> iceState = ''closed'' then Some iceState
      else None)"

definition h_updateIceServers :: "('w, 't) host \<Rightarrow> jsval \<Rightarrow> ('w, 't, unit) hio" where
  "h_updateIceServers pc servers = io_then assertNotClosed (host_call (pc_setIceServers pc servers))"

definition h_restartIce :: "('w, 't) host \<Rightarrow> ice_parameters \<Rightarrow> ('w, 't, unit) hio" where
  "h_restartIce pc iceParameters =
     io_then assertNotClosed
     (io_then (on_sdp (\<lambda>r. Inr (updateIceParameters iceParameters r, ())))
     (io_bind (ask h_transportReady) (\<lambda>ready.
       if \<not> ready then ret ()
       else io_bind (ask h_direction) (\<lambda>d.
         if d = Some DirSend then offer_answer pc True else answer_remote pc))))"

section \<open>Sending\<close>

text \<open>The encodings of a simulcast producer: each gets its rid and the highest number of temporal layers asked for.\<close>

definition temporal_layers :: "jsobj \<Rightarrow> nat" where
  "temporal_layers encoding =
     (case obj_get encoding ''scalabilityMode'' of
        VStr (c # mode) \<Rightarrow> sm_temporalLayers (parse_scalability (c # mode))
      | _ \<Rightarrow> 3)"

definition max_temporal_layers :: "jsobj list \<Rightarrow> nat" where
  "max_temporal_layers encodings = foldl (\<lambda>m e. if temporal_layers e > m then temporal_layers e else m) 1 encodings"

definition simulcast_encodings :: "jsobj list \<Rightarrow> jsobj list" where
  "simulcast_encodings encodings =
     map (\<lambda>(idx, e). jm_set ''scalabilityMode'' (VStr (''L1T'' @ nat_str (max_temporal_layers encodings)))
         (jm_set ''rid'' (VStr (''r'' @ nat_str idx)) e))
       (enumerate 0 encodings)"

definition prepare_encodings :: "jsobj list option \<Rightarrow> jsobj list option" where
  "prepare_encodings encodings =
     (case encodings of Some es \<Rightarrow> if length es > 1 then Some (simulcast_encodings es) else Some es | None \<Rightarrow> None)"

definition encoding_object :: "offer_encoding \<Rightarrow> jsobj" where
  "encoding_object e = (''ssrc'', oe_ssrc e) # (if oe_rtxSsrc e = VUndef then [] else [(''rtx'', VObj [(''ssrc'', oe_rtxSsrc e)])])"

definition assign :: "jsobj \<Rightarrow> jsobj \<Rightarrow> jsobj" where
  "assign target source = foldl (\<lambda>t (k, v). jm_set k v t) target source"

text \<open>The encodings of the producer: those read from the offer, completed by a single given one; or the given ones.\<close>

definition sending_encodings :: "jsobj list option \<Rightarrow> media_object \<Rightarrow> jsobj list result" where
  "sending_encodings encodings m =
     (case encodings of
        None \<Rightarrow> bindr (getRtpEncodings m) (\<lambda>es. Inr (map encoding_object es))
      | Some [e] \<Rightarrow>
          bindr (getRtpEncodings m) (\<lambda>es.
            case map encoding_object es of
              [] \<Rightarrow> Inl (TypeError ''Cannot convert undefined or null to object'')
            | n # ns \<Rightarrow> Inr (assign n e # ns))
      | Some es \<Rightarrow> Inr es)"

fun all_present :: "'a option list \<Rightarrow> 'a list option" where
  "all_present [] = Some []"
| "all_present (None # xs) = None"
| "all_present (Some x # xs) = map_option (\<lambda>ys. x # ys) (all_present xs)"

record 't prepared =
  pp_place :: "nat \<times> string option"
  pp_transceiver :: 't
  pp_localId :: "string option"
  pp_codecs :: "codec_parameters option list"
  pp_remoteCodecs :: "codec_parameters option list"
  pp_offer :: "media_object option"

text \<open>\<open>send\<close> up to the local description, from which the section of the new transceiver is read.\<close>

definition send_prepare ::
    "h264 \<Rightarrow> ('w, 't) host \<Rightarrow> track_kind \<Rightarrow> string \<Rightarrow> jsobj list option \<Rightarrow> codec_capability option \<Rightarrow> ('w, 't, 't prepared) hio" where
  "send_prepare lib pc kind trackId encodings capCodec =
     io_then assertNotClosed
     (io_then assertSendDirection
     (io_bind (ask (\<lambda>h. (h_sending h kind, h_sendingRemote h kind))) (\<lambda>(sending, remote).
     io_bind (lift (reduceCodecs lib (rp_codecs sending) capCodec)) (\<lambda>codecs.
     io_bind (lift (reduceCodecs lib (rp_codecs remote) capCodec)) (\<lambda>remoteCodecs.
     io_bind (on_sdp (\<lambda>r. Inr (r, getNextMediaSectionIdx r))) (\<lambda>place.
     io_bind (host_call (pc_addTransceiver pc kind trackId (prepare_encodings encodings))) (\<lambda>transceiver.
     io_bind (host_call (pc_createOffer pc False)) (\<lambda>offer.
     io_then (ensure_transport pc (sdp_parse pc offer))
     (io_then (set_local pc offer)
     (io_bind (look (tr_mid pc transceiver)) (\<lambda>localId.
     io_bind (look (pc_localDescription pc)) (\<lambda>text.
       let media = so_media (sdp_parse pc text)
       in ret \<lparr>pp_place = place, pp_transceiver = transceiver, pp_localId = localId, pp_codecs = codecs, pp_remoteCodecs = remoteCodecs,
            pp_offer = (if fst place < length media then Some (media ! fst place) else None)\<rparr>))))))))))))"

definition undefined_section :: js_error where
  "undefined_section = TypeError ''Cannot read properties of undefined''"

text \<open>\<open>RemoteSdp.send\<close> with codecs of which one may be undefined: reading its payload type throws.\<close>

definition send_section ::
    "bool \<Rightarrow> media_object \<Rightarrow> string option \<Rightarrow> codec_parameters option list \<Rightarrow> codec_parameters option list \<Rightarrow> header_extension_parameters list \<Rightarrow>
     codec_options option \<Rightarrow> remote_sdp \<Rightarrow> (remote_sdp \<times> codec_parameters list) result" where
  "send_section extmapAllowMixed offer reuseMid codecs remoteCodecs exts codecOptions r =
     (case (all_present codecs, all_present remoteCodecs) of
        (Some cs, Some rcs) \<Rightarrow> rs_send offer reuseMid cs rcs exts codecOptions extmapAllowMixed r
      | _ \<Rightarrow> Inl undefined_section)"

definition send_finish ::
    "('w, 't) host \<Rightarrow> track_kind \<Rightarrow> jsobj list option \<Rightarrow> codec_options option \<Rightarrow> 't prepared \<Rightarrow>
     ('w, 't, string option \<times> rtp_parameters \<times> 't) hio" where
  "send_finish pc kind encodings codecOptions p =
     (case pp_offer p of
        None \<Rightarrow> raise undefined_section
      | Some offer \<Rightarrow>
          io_bind (ask (\<lambda>h. (h_sending h kind, h_sendingRemote h kind))) (\<lambda>(sending, remote).
          io_bind (lift (sending_encodings (prepare_encodings encodings) offer)) (\<lambda>es.
          io_bind (on_sdp (send_section True offer (snd (pp_place p)) (pp_codecs p) (pp_remoteCodecs p) (rp_headerExtensions remote) codecOptions)) (\<lambda>codecs.
          io_then (set_remote pc)
          (io_then (on_handler (\<lambda>h. h\<lparr>h_mapMidTransceiver := jm_set (pp_localId p) (pp_transceiver p) (h_mapMidTransceiver h)\<rparr>))
            (ret (pp_localId p,
              sending\<lparr>rp_mid := pp_localId p, rp_codecs := codecs, rp_encodings := map VObj es,
                rp_rtcp := jm_set ''cname'' (VStr (getCname offer)) (rp_rtcp sending)\<rparr>,
              pp_transceiver p)))))))"

definition h_send ::
    "h264 \<Rightarrow> ('w, 't) host \<Rightarrow> track_kind \<Rightarrow> string \<Rightarrow> jsobj list option \<Rightarrow> codec_options option \<Rightarrow> codec_capability option \<Rightarrow>
     ('w, 't, string option \<times> rtp_parameters \<times> 't) hio" where
  "h_send lib pc kind trackId encodings codecOptions capCodec =
     io_bind (send_prepare lib pc kind trackId encodings capCodec) (send_finish pc kind encodings codecOptions)"

definition close_section :: "string option \<Rightarrow> ('w, 't, bool) hio" where
  "close_section mid =
     on_sdp (\<lambda>r. case mid of
        None \<Rightarrow> Inl (OtherError ''no media section found with mid'')
      | Some m \<Rightarrow> closeMediaSection m r)"

definition h_stopSending :: "('w, 't) host \<Rightarrow> string \<Rightarrow> ('w, 't, unit) hio" where
  "h_stopSending pc localId =
     io_then assertSendDirection
     (io_bind (ask h_closed) (\<lambda>c.
       if c then ret ()
       else io_bind (find_transceiver localId) (\<lambda>t.
         io_then (host_call (\<lambda>w. (fst (sender_replaceTrack pc t None w), Inr ())))
         (io_then (host_call (pc_removeTrack pc t))
         (io_bind (look (tr_mid pc t)) (\<lambda>mid.
         io_bind (close_section mid) (\<lambda>closed.
         io_then (if closed then host_call (\<lambda>w. (tr_stop pc t w, Inr ())) else ret ())
         (io_then (offer_answer pc False)
           (on_handler (\<lambda>h. h\<lparr>h_mapMidTransceiver := jm_delete (Some localId) (h_mapMidTransceiver h)\<rparr>))))))))))"

definition h_pauseSending :: "('w, 't) host \<Rightarrow> string \<Rightarrow> ('w, 't, unit) hio" where
  "h_pauseSending pc localId =
     io_then assertNotClosed
     (io_then assertSendDirection
     (io_bind (find_transceiver localId) (\<lambda>t.
     io_then (host_call (tr_setDirection pc t ''inactive''))
     (io_then (on_sdp (\<lambda>r. no_value (pauseMediaSection localId r))) (offer_answer pc False)))))"

definition h_resumeSending :: "('w, 't) host \<Rightarrow> string \<Rightarrow> ('w, 't, unit) hio" where
  "h_resumeSending pc localId =
     io_then assertNotClosed
     (io_then assertSendDirection
     (io_then (on_sdp (\<lambda>r. no_value (resumeSendingMediaSection localId r)))
     (io_bind (find_transceiver localId) (\<lambda>t.
     io_then (host_call (tr_setDirection pc t ''sendonly'')) (offer_answer pc False)))))"

definition h_replaceTrack :: "('w, 't) host \<Rightarrow> string \<Rightarrow> string option \<Rightarrow> ('w, 't, unit) hio" where
  "h_replaceTrack pc localId track =
     io_then assertNotClosed
     (io_then assertSendDirection
     (io_bind (find_transceiver localId) (\<lambda>t. host_call (sender_replaceTrack pc t track))))"

definition layer_of :: "jsobj \<Rightarrow> layer_encoding" where
  "layer_of e = \<lparr>le_rid = (case obj_get e ''rid'' of VStr s \<Rightarrow> Some s | _ \<Rightarrow> None), le_active = truthy (obj_get e ''active'')\<rparr>"

text \<open>New encodings of the sender are set, and the section is told which layers are active.\<close>

definition set_encodings :: "('w, 't) host \<Rightarrow> string \<Rightarrow> (jsobj list \<Rightarrow> jsobj list) \<Rightarrow> ('w, 't, unit) hio" where
  "set_encodings pc localId f =
     io_then assertNotClosed
     (io_then assertSendDirection
     (io_bind (find_transceiver localId) (\<lambda>t.
     io_bind (look (sender_getParameters pc t)) (\<lambda>encodings.
     io_then (host_call (sender_setParameters pc t (f encodings)))
     (io_then (on_sdp (\<lambda>r. no_value (muxMediaSectionSimulcast localId (map layer_of (f encodings)) r))) (offer_answer pc False))))))"

definition spatial_layers :: "number \<Rightarrow> jsobj list \<Rightarrow> jsobj list" where
  "spatial_layers spatialLayer es = map (\<lambda>(idx, e). jm_set ''active'' (VBool (js_le (Fin (of_nat idx)) spatialLayer)) e) (enumerate 0 es)"

definition h_setMaxSpatialLayer :: "('w, 't) host \<Rightarrow> string \<Rightarrow> number \<Rightarrow> ('w, 't, unit) hio" where
  "h_setMaxSpatialLayer pc localId spatialLayer = set_encodings pc localId (spatial_layers spatialLayer)"

definition h_setRtpEncodingParameters :: "('w, 't) host \<Rightarrow> string \<Rightarrow> jsobj \<Rightarrow> ('w, 't, unit) hio" where
  "h_setRtpEncodingParameters pc localId params = set_encodings pc localId (map (\<lambda>e. assign e params))"

text \<open>The first data channel also negotiates the section of the association.\<close>

definition application_section :: "sdp_object \<Rightarrow> media_object option" where
  "application_section sdp = find (\<lambda>m. mo_type m = ''application'') (so_media sdp)"

definition send_sctp :: "media_object option \<Rightarrow> remote_sdp \<Rightarrow> remote_sdp result" where
  "send_sctp m r = (case m of None \<Rightarrow> Inl undefined_section | Some o' \<Rightarrow> sendSctpAssociation o' r)"

definition sctp_prepare :: "('w, 't) host \<Rightarrow> ('w, 't, media_object option) hio" where
  "sctp_prepare pc =
     io_bind (host_call (pc_createOffer pc False)) (\<lambda>offer.
     io_then (ensure_transport pc (sdp_parse pc offer))
     (io_then (set_local pc offer) (ret (application_section (sdp_parse pc offer)))))"

definition channel_call :: "('w, 't) host \<Rightarrow> channel_options \<Rightarrow> ('w, 't, unit) hio" where
  "channel_call pc options = io_then (host_call (pc_createDataChannel pc options)) (log_event (HChannel (ch_id options)))"

definition open_channel :: "nat \<Rightarrow> ('w, 't) host \<Rightarrow> channel_options \<Rightarrow> ('w, 't, channel_options) hio" where
  "open_channel streams pc request =
     io_bind (ask h_nextSendSctpStreamId) (\<lambda>n.
       let options = request\<lparr>ch_id := Fin (of_nat n)\<rparr>
       in io_then (channel_call pc options)
          (io_then (on_handler (\<lambda>h. h\<lparr>h_nextSendSctpStreamId := (h_nextSendSctpStreamId h + 1) mod streams\<rparr>))
            (ret options)))"

text \<open>\<open>sendDataChannel\<close>, with the number of streams of the handler, up to the local description, with the section that is to be answered.\<close>

definition data_prepare :: "nat \<Rightarrow> ('w, 't) host \<Rightarrow> channel_options \<Rightarrow> ('w, 't, channel_options \<times> media_object option option) hio" where
  "data_prepare streams pc request =
     io_then assertNotClosed
     (io_then assertSendDirection
     (io_bind (open_channel streams pc request) (\<lambda>options.
     io_bind (ask h_hasDataChannelMediaSection) (\<lambda>has.
       if has then ret (options, None)
       else io_bind (sctp_prepare pc) (\<lambda>offer. ret (options, Some offer))))))"

definition data_finish :: "('w, 't) host \<Rightarrow> channel_options \<times> media_object option option \<Rightarrow> ('w, 't, channel_options) hio" where
  "data_finish pc p =
     (case snd p of
        None \<Rightarrow> ret (fst p)
      | Some offer \<Rightarrow>
          io_then (on_sdp (\<lambda>r. no_value (send_sctp offer r)))
          (io_then (set_remote pc)
          (io_then (on_handler (\<lambda>h. h\<lparr>h_hasDataChannelMediaSection := True\<rparr>)) (ret (fst p)))))"

definition h_sendDataChannel :: "nat \<Rightarrow> ('w, 't) host \<Rightarrow> channel_options \<Rightarrow> ('w, 't, channel_options) hio" where
  "h_sendDataChannel streams pc request = io_bind (data_prepare streams pc request) (data_finish pc)"

section \<open>Receiving\<close>

text \<open>A consumer to receive; \<open>rx_watch\<close> is the presence of \<open>onRtpReceiver\<close>.\<close>

record receive_options =
  rx_trackId :: string
  rx_kind :: string
  rx_mid :: "string option"
  rx_parameters :: offer_parameters
  rx_streamId :: "string option"
  rx_watch :: bool

definition stream_of :: "receive_options \<Rightarrow> string option" where
  "stream_of o' = (case rx_streamId o' of Some s \<Rightarrow> Some s
     | None \<Rightarrow> if op_cname (rx_parameters o') = [] then None else Some (op_cname (rx_parameters o')))"

definition receive_section :: "receive_options \<Rightarrow> ('w, 't, string \<times> string) hio" where
  "receive_section o' =
     io_bind (ask (\<lambda>h. length (h_mapMidTransceiver h))) (\<lambda>size.
       let localId = (case rx_mid o' of Some m \<Rightarrow> m | None \<Rightarrow> nat_str size)
       in io_then (on_sdp (\<lambda>r. no_value (rs_receive localId (rx_kind o') (rx_parameters o') (stream_of o') (rx_trackId o') r)))
            (ret (rx_trackId o', localId)))"

definition transceiver_of :: "('w, 't) host \<Rightarrow> string \<Rightarrow> js_error \<Rightarrow> ('w, 't, 't) hio" where
  "transceiver_of pc localId missing =
     io_bind (look (\<lambda>w. find (\<lambda>t. tr_mid pc t w = Some localId) (pc_getTransceivers pc w))) (\<lambda>t.
       case t of None \<Rightarrow> raise missing | Some x \<Rightarrow> ret x)"

definition id_of :: "(string, string) jsmap \<Rightarrow> receive_options \<Rightarrow> string" where
  "id_of mapLocalId o' = (case jm_get mapLocalId (rx_trackId o') of Some i \<Rightarrow> i | None \<Rightarrow> [])"

definition watch_receiver :: "('w, 't) host \<Rightarrow> (string, string) jsmap \<Rightarrow> receive_options \<Rightarrow> ('w, 't, unit) hio" where
  "watch_receiver pc mapLocalId o' =
     (if rx_watch o'
      then io_then (transceiver_of pc (id_of mapLocalId o') (OtherError ''transceiver not found'')) (ret ())
      else ret ())"

definition apply_answer :: "(string, string) jsmap \<Rightarrow> sdp_object \<Rightarrow> receive_options \<Rightarrow> sdp_object result" where
  "apply_answer mapLocalId sdp o' =
     (let mine = (\<lambda>m. mo_mid m = id_of mapLocalId o')
      in if list_ex mine (so_media sdp)
         then Inr (sdp\<lparr>so_media := update_first mine (applyCodecParameters (op_codecs (rx_parameters o'))) (so_media sdp)\<rparr>)
         else if list_ex (\<lambda>c. to_lower (cd_mimeType c) = ''audio/opus'') (op_codecs (rx_parameters o')) then Inl undefined_section
         else Inr sdp)"

fun apply_answers :: "(string, string) jsmap \<Rightarrow> receive_options list \<Rightarrow> sdp_object \<Rightarrow> sdp_object result" where
  "apply_answers mapLocalId [] sdp = Inr sdp"
| "apply_answers mapLocalId (o' # os) sdp = bindr (apply_answer mapLocalId sdp o') (apply_answers mapLocalId os)"

definition store_receiver :: "('w, 't) host \<Rightarrow> (string, string) jsmap \<Rightarrow> receive_options \<Rightarrow> ('w, 't, string \<times> 't) hio" where
  "store_receiver pc mapLocalId o' =
     io_bind (transceiver_of pc (id_of mapLocalId o') (OtherError ''new RTCRtpTransceiver not found'')) (\<lambda>t.
       io_then (on_handler (\<lambda>h. h\<lparr>h_mapMidTransceiver := jm_set (Some (id_of mapLocalId o')) t (h_mapMidTransceiver h)\<rparr>))
         (ret (id_of mapLocalId o', t)))"

definition h_receive :: "('w, 't) host \<Rightarrow> receive_options list \<Rightarrow> ('w, 't, (string \<times> 't) list) hio" where
  "h_receive pc optionsList =
     io_then assertNotClosed
     (io_then assertRecvDirection
     (io_bind (each receive_section optionsList) (\<lambda>ids.
       let mapLocalId = foldl (\<lambda>m (t, i). jm_set t i m) [] ids
       in io_then (set_remote pc)
          (io_then (each (watch_receiver pc mapLocalId) optionsList)
          (io_bind (host_call (pc_createAnswer pc)) (\<lambda>answer.
          io_bind (lift (apply_answers mapLocalId optionsList (sdp_parse pc answer))) (\<lambda>localSdpObject.
          io_then (ensure_transport pc localSdpObject)
          (io_then (set_local pc (sdp_write_object pc localSdpObject))
            (each (store_receiver pc mapLocalId) optionsList)))))))))"

definition h_stopReceiving :: "('w, 't) host \<Rightarrow> string list \<Rightarrow> ('w, 't, unit) hio" where
  "h_stopReceiving pc localIds =
     io_then assertRecvDirection
     (io_bind (ask h_closed) (\<lambda>c.
       if c then ret ()
       else io_then (each (\<lambda>localId. io_bind (find_transceiver localId) (\<lambda>t.
           io_bind (look (tr_mid pc t)) close_section)) localIds)
         (io_then (answer_remote pc)
           (on_handler (\<lambda>h. h\<lparr>h_mapMidTransceiver := foldl (\<lambda>m i. jm_delete (Some i) m) (h_mapMidTransceiver h) localIds\<rparr>)))))"

definition direct_receivers :: "('w, 't) host \<Rightarrow> string \<Rightarrow> (string \<Rightarrow> remote_sdp \<Rightarrow> remote_sdp result) \<Rightarrow> string list \<Rightarrow> ('w, 't, unit) hio" where
  "direct_receivers pc direction f localIds =
     io_then assertNotClosed
     (io_then assertRecvDirection
     (io_then (each (\<lambda>localId. io_bind (find_transceiver localId) (\<lambda>t.
         io_then (host_call (tr_setDirection pc t direction)) (on_sdp (\<lambda>r. no_value (f localId r))))) localIds)
       (answer_remote pc)))"

definition h_pauseReceiving :: "('w, 't) host \<Rightarrow> string list \<Rightarrow> ('w, 't, unit) hio" where
  "h_pauseReceiving pc = direct_receivers pc ''inactive'' pauseMediaSection"

definition h_resumeReceiving :: "('w, 't) host \<Rightarrow> string list \<Rightarrow> ('w, 't, unit) hio" where
  "h_resumeReceiving pc = direct_receivers pc ''recvonly'' resumeReceivingMediaSection"

definition h_receiveDataChannel :: "('w, 't) host \<Rightarrow> channel_options \<Rightarrow> ('w, 't, unit) hio" where
  "h_receiveDataChannel pc options =
     io_then assertNotClosed
     (io_then assertRecvDirection
     (io_then (host_call (pc_createDataChannel pc options))
     (io_bind (ask h_hasDataChannelMediaSection) (\<lambda>has.
       if has then ret ()
       else io_then (on_sdp (\<lambda>r. no_value (receiveSctpAssociation False r)))
         (io_then (set_remote pc)
         (io_bind (host_call (pc_createAnswer pc)) (\<lambda>answer.
         io_then (ensure_transport pc (sdp_parse pc answer))
         (io_then (set_local pc answer)
           (on_handler (\<lambda>h. h\<lparr>h_hasDataChannelMediaSection := True\<rparr>))))))))))"

definition getNativeRtpCapabilities :: "('w, 't) host \<Rightarrow> string \<Rightarrow> native_capabilities" where
  "getNativeRtpCapabilities pc offer = addNackSuppportForOpus (extractRtpCapabilities (sdp_parse pc offer))"

section \<open>Calls\<close>

datatype handler_call =
    DoSend track_kind string "jsobj list option" "codec_options option" "codec_capability option"
  | DoStopSending string
  | DoPauseSending string
  | DoResumeSending string
  | DoReplaceTrack string "string option"
  | DoSetMaxSpatialLayer string number
  | DoSetRtpEncodingParameters string jsobj
  | DoSendDataChannel channel_options
  | DoReceive "receive_options list"
  | DoStopReceiving "string list"
  | DoPauseReceiving "string list"
  | DoResumeReceiving "string list"
  | DoReceiveDataChannel channel_options
  | DoRestartIce ice_parameters
  | DoUpdateIceServers jsval
  | DoClose

definition quiet :: "('s, 'a) io \<Rightarrow> ('s, unit) io" where
  "quiet m = io_then m (ret ())"

fun call :: "h264 \<Rightarrow> ('w, 't) host \<Rightarrow> handler_call \<Rightarrow> ('w, 't, unit) hio" where
  "call lib pc (DoSend kind trackId encodings codecOptions capCodec) = quiet (h_send lib pc kind trackId encodings codecOptions capCodec)"
| "call lib pc (DoStopSending localId) = h_stopSending pc localId"
| "call lib pc (DoPauseSending localId) = h_pauseSending pc localId"
| "call lib pc (DoResumeSending localId) = h_resumeSending pc localId"
| "call lib pc (DoReplaceTrack localId track) = h_replaceTrack pc localId track"
| "call lib pc (DoSetMaxSpatialLayer localId layer) = h_setMaxSpatialLayer pc localId layer"
| "call lib pc (DoSetRtpEncodingParameters localId params) = h_setRtpEncodingParameters pc localId params"
| "call lib pc (DoSendDataChannel options) = quiet (h_sendDataChannel SCTP_NUM_STREAMS pc options)"
| "call lib pc (DoReceive options) = quiet (h_receive pc options)"
| "call lib pc (DoStopReceiving localIds) = h_stopReceiving pc localIds"
| "call lib pc (DoPauseReceiving localIds) = h_pauseReceiving pc localIds"
| "call lib pc (DoResumeReceiving localIds) = h_resumeReceiving pc localIds"
| "call lib pc (DoReceiveDataChannel options) = h_receiveDataChannel pc options"
| "call lib pc (DoRestartIce p) = h_restartIce pc p"
| "call lib pc (DoUpdateIceServers servers) = h_updateIceServers pc servers"
| "call lib pc DoClose = h_close pc"

text \<open>A call whether it returns or throws, and a run of calls.\<close>

definition handler_step :: "h264 \<Rightarrow> ('w, 't) host \<Rightarrow> ('w, 't) hstate \<Rightarrow> handler_call \<Rightarrow> ('w, 't) hstate" where
  "handler_step lib pc s c = fst (call lib pc c s)"

text \<open>When a call meets what a peer connection promises: the section it offers for a new transceiver, or for the data channels,
  has a mid of its own, and mids are not empty. A transport does not ask for work on no consumer at all.\<close>

definition sdp_of :: "('w, 't) hstate \<Rightarrow> remote_sdp option" where
  "sdp_of s = h_remoteSdp (hs_handler s)"

definition new_mid :: "string \<Rightarrow> ('w, 't) hstate \<Rightarrow> bool" where
  "new_mid mid s \<longleftrightarrow> mid \<noteq> [] \<and> (case sdp_of s of Some r \<Rightarrow> \<not> known_mid mid r | None \<Rightarrow> True)"

fun call_fits :: "h264 \<Rightarrow> ('w, 't) host \<Rightarrow> ('w, 't) hstate \<Rightarrow> handler_call \<Rightarrow> bool" where
  "call_fits lib pc s (DoSend kind trackId encodings codecOptions capCodec) =
     (case send_prepare lib pc kind trackId encodings capCodec s of
        (s', Inr p) \<Rightarrow> (case (pp_offer p, sdp_of s') of (Some m, Some r) \<Rightarrow> mid_fits True (mo_mid m) r | _ \<Rightarrow> True)
      | _ \<Rightarrow> True)"
| "call_fits lib pc s (DoSendDataChannel options) =
     (case data_prepare SCTP_NUM_STREAMS pc options s of
        (s', Inr (_, Some (Some m))) \<Rightarrow> new_mid (mo_mid m) s'
      | _ \<Rightarrow> True)"
| "call_fits lib pc s (DoReceive options) = list_all (\<lambda>o'. rx_mid o' \<noteq> Some []) options"
| "call_fits lib pc s (DoReceiveDataChannel options) = (h_hasDataChannelMediaSection (hs_handler s) \<or> new_mid ''datachannel'' s)"
| "call_fits lib pc s (DoStopReceiving localIds) = (localIds \<noteq> [])"
| "call_fits lib pc s (DoPauseReceiving localIds) = (localIds \<noteq> [])"
| "call_fits lib pc s (DoResumeReceiving localIds) = (localIds \<noteq> [])"
| "call_fits lib pc s _ = True"

fun run_fits :: "h264 \<Rightarrow> ('w, 't) host \<Rightarrow> ('w, 't) hstate \<Rightarrow> handler_call list \<Rightarrow> bool" where
  "run_fits lib pc s [] = True"
| "run_fits lib pc s (c # cs) = (call_fits lib pc s c \<and> run_fits lib pc (handler_step lib pc s c) cs)"

end
