(* ===== verification/HandlerInv.thy ===== *)
theory HandlerInv
  imports Chrome111
begin

text \<open>
  What the browser handlers keep while they run: the remote description stays consistent and its versions are
  counted up one by one; the local parameters are told once, with the role that complements the one written into the
  descriptions, before any local description is set; data channels get the stream identifiers in turn. The pieces that
  the handlers are made of keep the invariant, and a handler whose calls keep it has the properties in every run.
\<close>

section \<open>What the calls keep of the remote description\<close>

definition same_session :: "remote_sdp \<Rightarrow> remote_sdp \<Rightarrow> bool" where
  "same_session r r' \<longleftrightarrow> rs_sessionVersion r' = rs_sessionVersion r \<and> se_dtls (rs_env r') = se_dtls (rs_env r)"

lemma regenerate_session [simp]: "rs_sessionVersion (regenerateBundleMids r) = rs_sessionVersion r"
  by (simp add: regenerateBundleMids_def)

lemma add_session: "same_session r (addMediaSection m r)"
  by (simp add: same_session_def addMediaSection_def)

lemma replace_session: "replaceMediaSection m reuse r = Inr r' \<Longrightarrow> same_session r r'"
  by (auto simp: same_session_def replaceMediaSection_def split: option.splits if_splits)

lemma on_section_session: "on_section f mid r = Inr r' \<Longrightarrow> same_session r r'"
  by (auto simp: same_session_def on_section_def bindr_eq_Inr)

lemma send_session: "rs_send o' reuse offer answer exts opts mixed r = Inr (r', offer') \<Longrightarrow> same_session r r'"
  by (cases reuse; cases "the reuse") (auto simp: rs_send_def bindr_eq_Inr add_session dest: replace_session split: if_splits)

lemma receive_session: "rs_receive mid kind offer streamId trackId r = Inr r' \<Longrightarrow> same_session r r'"
  by (auto simp: rs_receive_def bindr_eq_Inr add_session dest: replace_session split: option.splits if_splits)

lemma close_session: "closeMediaSection mid r = Inr (r', b) \<Longrightarrow> same_session r r'"
  by (auto simp: closeMediaSection_def bindr_eq_Inr disableMediaSection_def same_session_def dest!: on_section_session split: if_splits)

lemma mux_session: "muxMediaSectionSimulcast mid es r = Inr r' \<Longrightarrow> same_session r r'"
  by (auto simp: muxMediaSectionSimulcast_def bindr_eq_Inr dest: replace_session)

lemma sctp_session:
  "sendSctpAssociation m r = Inr r' \<Longrightarrow> same_session r r'" "receiveSctpAssociation old r = Inr r' \<Longrightarrow> same_session r r'"
  by (auto simp: sendSctpAssociation_def receiveSctpAssociation_def bindr_eq_Inr add_session)

text \<open>A method that the handler calls: what it leaves is consistent, with the version and the DTLS parameters of before.\<close>

definition sound_method :: "(remote_sdp \<Rightarrow> (remote_sdp \<times> 'a) result) \<Rightarrow> bool" where
  "sound_method f \<longleftrightarrow> (\<forall>r r' x. sdp_inv r \<longrightarrow> f r = Inr (r', x) \<longrightarrow> sdp_inv r' \<and> same_session r r')"

lemma step_sdp_inv: "sdp_inv r \<Longrightarrow> sdp_fits r op \<Longrightarrow> sdp_inv (sdp_step r op)"
  using step_good [of r op] by (simp add: good_def)

lemma sound_methodI:
  assumes "\<And>r r' x. sdp_inv r \<Longrightarrow> f r = Inr (r', x) \<Longrightarrow> r' = sdp_step r (op r)" "\<And>r r' x. f r = Inr (r', x) \<Longrightarrow> same_session r r'"
    and "\<And>r. sdp_fits r (op r)"
  shows "sound_method f"
  using assms step_sdp_inv unfolding sound_method_def by metis

lemma sound_pause: "sound_method (\<lambda>r. no_value (pauseMediaSection mid r))"
  by (rule sound_methodI [of _ "\<lambda>_. SdpPause mid"])
    (auto simp: no_value_def bindr_eq_Inr keep_def pauseMediaSection_def on_section_session)

lemma sound_resume: "sound_method (\<lambda>r. no_value (resumeSendingMediaSection mid r))" "sound_method (\<lambda>r. no_value (resumeReceivingMediaSection mid r))"
  by (rule sound_methodI [of _ "\<lambda>_. SdpResume mid"];
      auto simp: no_value_def bindr_eq_Inr keep_def resumeSendingMediaSection_def resumeReceivingMediaSection_def on_section_session)+

lemma sound_mux: "sound_method (\<lambda>r. no_value (muxMediaSectionSimulcast mid es r))"
  by (rule sound_methodI [of _ "\<lambda>_. SdpMux mid es"]) (auto simp: no_value_def bindr_eq_Inr keep_def mux_session)

lemma sound_close: "sound_method (\<lambda>r. case mid of None \<Rightarrow> Inl e | Some m \<Rightarrow> closeMediaSection m r)"
  by (rule sound_methodI [of _ "\<lambda>_. SdpClose (the mid)"]) (auto simp: close_session split: option.splits)

lemma sound_receive: "mid \<noteq> [] \<Longrightarrow> sound_method (\<lambda>r. no_value (rs_receive mid kind offer streamId trackId r))"
  by (rule sound_methodI [of _ "\<lambda>_. SdpReceive mid kind offer streamId trackId"])
    (auto simp: no_value_def bindr_eq_Inr keep_def receive_session)

lemma sound_ice: "sound_method (\<lambda>r. Inr (updateIceParameters p r, ()))"
  by (rule sound_methodI [of _ "\<lambda>_. SdpIce p"]) (auto simp: same_session_def updateIceParameters_def)

lemma sound_read: "sound_method (\<lambda>r. Inr (r, f r))"
  by (simp add: sound_method_def same_session_def)

lemmas sound_methods = sound_pause sound_resume sound_mux sound_close sound_ice sound_read

section \<open>The invariant\<close>

definition versions :: "host_event list \<Rightarrow> nat list" where
  "versions evs = concat (map (\<lambda>e. case e of HRemote v \<Rightarrow> [v] | _ \<Rightarrow> []) evs)"

definition channels :: "host_event list \<Rightarrow> number list" where
  "channels evs = concat (map (\<lambda>e. case e of HChannel i \<Rightarrow> [i] | _ \<Rightarrow> []) evs)"

definition connects :: "host_event list \<Rightarrow> (dtls_role \<times> bool) list" where
  "connects evs = concat (map (\<lambda>e. case e of HConnect role b \<Rightarrow> [(role, b)] | _ \<Rightarrow> []) evs)"

text \<open>No local description before the parameters of the transport were accepted.\<close>

definition connected_first :: "host_event list \<Rightarrow> bool" where
  "connected_first evs \<longleftrightarrow> HLocal \<notin> set (takeWhile (\<lambda>e. \<forall>role. e \<noteq> HConnect role True) evs)"

definition stream_ids :: "nat \<Rightarrow> nat \<Rightarrow> number list" where
  "stream_ids streams n = map (\<lambda>k. Fin (of_nat (k mod streams))) [0..<n]"

text \<open>The invariant is shared by the handlers that differ in the number of streams and in the DTLS role that is forced.\<close>

definition handler_ok :: "nat \<times> dtls_role option \<Rightarrow> 't handler \<Rightarrow> remote_sdp \<Rightarrow> host_event list \<Rightarrow> bool" where
  "handler_ok cfg h r evs \<longleftrightarrow>
     sdp_inv r \<and> versions evs = map Suc [0..<rs_sessionVersion r] \<and>
     channels evs = stream_ids (fst cfg) (length (channels evs)) \<and> h_nextSendSctpStreamId h = length (channels evs) mod fst cfg \<and>
     h_forcedLocalDtlsRole h = snd cfg \<and>
     (\<forall>(role, b) \<in> set (connects evs). role = local_role h) \<and>
     length (filter snd (connects evs)) = (if h_transportReady h then 1 else 0) \<and>
     (connects evs \<noteq> [] \<longrightarrow> map_option dt_role (se_dtls (rs_env r)) = Some (opposite_role (local_role h))) \<and>
     connected_first evs \<and> (h_mapMidTransceiver h \<noteq> [] \<or> h_mapRecvLocalIdInfo h \<noteq> [] \<longrightarrow> h_transportReady h)"

text \<open>With the flag, the transport is connected.\<close>

definition hinv :: "nat \<times> dtls_role option \<Rightarrow> bool \<Rightarrow> ('w, 't) hstate \<Rightarrow> bool" where
  "hinv cfg b s \<longleftrightarrow> (\<exists>r. sdp_of s = Some r \<and> handler_ok cfg (hs_handler s) r (hs_log s)) \<and> (b \<longrightarrow> h_transportReady (hs_handler s))"

lemma hinv_True: "hinv cfg True s \<longleftrightarrow> hinv cfg False s \<and> h_transportReady (hs_handler s)"
  by (auto simp: hinv_def)

lemma log_snoc:
  "versions (evs @ [e]) = versions evs @ (case e of HRemote v \<Rightarrow> [v] | _ \<Rightarrow> [])"
  "channels (evs @ [e]) = channels evs @ (case e of HChannel i \<Rightarrow> [i] | _ \<Rightarrow> [])"
  "connects (evs @ [e]) = connects evs @ (case e of HConnect role b \<Rightarrow> [(role, b)] | _ \<Rightarrow> [])"
  by (simp_all add: versions_def channels_def connects_def)

lemma connects_ready: "filter snd (connects evs) \<noteq> [] \<longleftrightarrow> (\<exists>role. HConnect role True \<in> set evs)"
  by (induction evs) (auto simp: connects_def split: host_event.splits)

lemma connected_first_snoc:
  assumes "connected_first evs" "e \<noteq> HLocal \<or> (\<exists>role. HConnect role True \<in> set evs)"
  shows "connected_first (evs @ [e])"
proof (cases "\<exists>role. HConnect role True \<in> set evs")
  case True
  with assms(1) show ?thesis by (auto simp: connected_first_def takeWhile_append1)
next
  case False
  then have "takeWhile (\<lambda>e. \<forall>role. e \<noteq> HConnect role True) evs = evs" by (auto simp: takeWhile_eq_all_conv)
  with assms False show ?thesis by (auto simp: connected_first_def takeWhile_append dest: set_takeWhileD)
qed

section \<open>What the pieces keep\<close>

lemma keeping_host [keeps]: "keeping (hinv cfg b) (host_call f)"
  by (auto simp: keeping_def host_call_def hinv_def sdp_of_def split: prod.splits)

lemma keeping_reads [keeps]: "keeping (hinv cfg b) (ask f)" "keeping (hinv cfg b) (look g)"
  by (simp_all add: ask_def look_def keeps)

lemma keeping_asserts [keeps]: "keeping (hinv cfg b) assertNotClosed" "keeping (hinv cfg b) assertSendDirection" "keeping (hinv cfg b) assertRecvDirection"
  by (auto simp: assertNotClosed_def assertSendDirection_def assertRecvDirection_def intro!: keeps)

lemma keeping_find_object [keeps]: "keeping (hinv cfg b) (find_object e localId)"
  by (auto simp: find_object_def intro!: keeps)

lemma keeping_find [keeps]: "keeping (hinv cfg b) (find_transceiver localId)"
  unfolding find_transceiver_def by (rule keeping_find_object)

lemma on_handler_keeps:
  assumes "\<And>h. h_remoteSdp (f h) = h_remoteSdp h" "\<And>h. h_nextSendSctpStreamId (f h) = h_nextSendSctpStreamId h"
    "\<And>h. h_forcedLocalDtlsRole (f h) = h_forcedLocalDtlsRole h" "\<And>h. h_transportReady (f h) = h_transportReady h"
    "\<And>h. \<not> b \<Longrightarrow> h_mapMidTransceiver h = [] \<Longrightarrow> h_mapMidTransceiver (f h) = []"
    "\<And>h. \<not> b \<Longrightarrow> h_mapRecvLocalIdInfo h = [] \<Longrightarrow> h_mapRecvLocalIdInfo (f h) = []"
  shows "keeping (hinv cfg b) (on_handler f)"
proof -
  have role: "local_role (f h) = local_role h" for h by (simp add: local_role_def assms)
  show ?thesis
    unfolding on_handler_def by (rule keeping_modify) (use assms in \<open>auto simp: hinv_def sdp_of_def handler_ok_def role\<close>)
qed

lemma keeping_fields [keeps]:
  "keeping (hinv cfg b) (on_handler (\<lambda>h. h\<lparr>h_closed := True\<rparr>))"
  "keeping (hinv cfg b) (on_handler (\<lambda>h. h\<lparr>h_hasDataChannelMediaSection := True\<rparr>))"
  "keeping (hinv cfg True) (on_handler (\<lambda>h. h\<lparr>h_mapMidTransceiver := g h\<rparr>))"
  by (rule on_handler_keeps; simp)+

lemma on_sdp_run:
  "on_sdp f s = (case sdp_of s of
      None \<Rightarrow> (s, Inl (TypeError ''Cannot read properties of undefined''))
    | Some r \<Rightarrow> (case f r of
        Inl e \<Rightarrow> (s, Inl e)
      | Inr (r', x) \<Rightarrow> (s\<lparr>hs_handler := (hs_handler s)\<lparr>h_remoteSdp := Some r'\<rparr>\<rparr>, Inr x)))"
  by (auto simp: on_sdp_def io_bind_def io_then_def ask_def read_def sdp_of_def raise_def lift_def on_handler_def modify_def ret_def
      split: option.splits sum.splits prod.splits)

lemma handler_ok_sdp: "handler_ok cfg h r evs \<Longrightarrow> sdp_inv r' \<Longrightarrow> same_session r r' \<Longrightarrow> handler_ok cfg (h\<lparr>h_remoteSdp := x\<rparr>) r' evs"
  by (auto simp: handler_ok_def same_session_def local_role_def)

lemma on_sdp_triple:
  assumes sound: "\<And>s r r' x. P s \<Longrightarrow> sdp_of s = Some r \<Longrightarrow> sdp_inv r \<Longrightarrow> f r = Inr (r', x) \<Longrightarrow> sdp_inv r' \<and> same_session r r'"
  shows "triple (\<lambda>s. hinv cfg b s \<and> P s) (on_sdp f) (\<lambda>_. hinv cfg b) (hinv cfg b)"
proof (rule tripleI)
  fix s s' res
  assume pre: "hinv cfg b s \<and> P s" and run: "on_sdp f s = (s', res)"
  from pre obtain r where r: "sdp_of s = Some r" and ok: "handler_ok cfg (hs_handler s) r (hs_log s)" by (auto simp: hinv_def)
  show "case res of Inr x \<Rightarrow> hinv cfg b s' | Inl _ \<Rightarrow> hinv cfg b s'"
  proof (cases "f r")
    case (Inl e)
    with pre run r show ?thesis by (simp add: on_sdp_run)
  next
    case (Inr p)
    obtain r' x where p: "p = (r', x)" by (cases p)
    have "sdp_inv r" using ok by (simp add: handler_ok_def)
    then have "sdp_inv r'" "same_session r r'" using sound [OF _ r] pre Inr p by auto
    from handler_ok_sdp [OF ok this, of "Some r'"] pre run r Inr p show ?thesis
      by (simp add: on_sdp_run hinv_def sdp_of_def) (auto simp: sdp_of_def)
  qed
qed

lemma keeping_on_sdp: "sound_method f \<Longrightarrow> keeping (hinv cfg b) (on_sdp f)"
  using on_sdp_triple [of "\<lambda>_. True" f cfg b] by (auto simp: sound_method_def keeping_triple)

lemma keeping_upgrade:
  assumes "triple (hinv cfg False) m (\<lambda>_. hinv cfg True) (hinv cfg False)" "\<And>x. keeping (hinv cfg True) (f x)"
  shows "keeping (hinv cfg False) (io_bind m f)"
  unfolding keeping_triple
proof (rule triple_bind [OF assms(1)])
  fix x
  have "triple (hinv cfg True) (f x) (\<lambda>_. hinv cfg True) (hinv cfg True)" using assms(2) by (simp add: keeping_triple)
  then show "triple (hinv cfg True) (f x) (\<lambda>_. hinv cfg False) (hinv cfg False)"
    by (rule triple_weaken) (simp_all add: hinv_True)
qed

lemma keeping_upgrade_then:
  "triple (hinv cfg False) m (\<lambda>_. hinv cfg True) (hinv cfg False) \<Longrightarrow> keeping (hinv cfg True) n \<Longrightarrow> keeping (hinv cfg False) (io_then m n)"
  by (simp add: io_then_def keeping_upgrade)

lemma ready_triple:
  assumes "keeping (hinv cfg True) m"
  shows "triple (hinv cfg True) m (\<lambda>_. hinv cfg True) (hinv cfg False)"
  by (rule triple_weaken [OF assms [unfolded keeping_triple]]) (simp_all add: hinv_True)

lemma find_object_ready: "triple (hinv cfg False) (find_object e localId) (\<lambda>_. hinv cfg True) (hinv cfg False)"
proof (rule tripleI)
  fix s s' :: "('w, 't) hstate" and r
  assume inv: "hinv cfg False s" and run: "find_object e localId s = (s', r)"
  have s': "s' = s" "\<And>t. r = Inr t \<Longrightarrow> h_mapMidTransceiver (hs_handler s) \<noteq> []"
    using run by (auto simp: find_object_def io_bind_def ask_def read_def raise_def ret_def jm_get_def split: option.splits)
  with inv show "case r of Inr x \<Rightarrow> hinv cfg True s' | Inl _ \<Rightarrow> hinv cfg False s'"
    by (auto simp: hinv_def handler_ok_def split: sum.split)
qed

lemma find_ready: "triple (hinv cfg False) (find_transceiver localId) (\<lambda>_. hinv cfg True) (hinv cfg False)"
  unfolding find_transceiver_def by (rule find_object_ready)

lemma handler_ok_event:
  assumes "handler_ok cfg h r evs" "e = HClosed \<or> e = HLocal \<and> h_transportReady h"
  shows "handler_ok cfg h r (evs @ [e])"
proof -
  have "h_transportReady h \<Longrightarrow> \<exists>role. HConnect role True \<in> set evs"
    using assms(1) connects_ready [of evs] by (auto simp: handler_ok_def)
  then have "connected_first (evs @ [e])" using assms by (intro connected_first_snoc) (auto simp: handler_ok_def)
  with assms show ?thesis by (auto simp: handler_ok_def log_snoc)
qed

lemma keeping_events [keeps]: "keeping (hinv cfg b) (log_event HClosed)" "keeping (hinv cfg True) (log_event HLocal)"
  unfolding log_event_def
  by (rule keeping_modify; auto simp: hinv_def sdp_of_def intro!: handler_ok_event)+

lemma keeping_set_local [keeps]: "keeping (hinv cfg True) (set_local pc sdp)"
  by (simp add: set_local_def keeps)

lemma keeping_set_remote [keeps]: "keeping (hinv cfg b) (set_remote pc)"
proof -
  have ok: "handler_ok cfg (h\<lparr>h_remoteSdp := x\<rparr>) (r\<lparr>rs_sessionVersion := Suc (rs_sessionVersion r)\<rparr>) (evs @ [HRemote (Suc (rs_sessionVersion r))])"
    if "handler_ok cfg h r evs" for h :: "'b handler" and r evs x
  proof -
    have "sdp_inv (r\<lparr>rs_sessionVersion := Suc (rs_sessionVersion r)\<rparr>)" "connected_first (evs @ [HRemote (Suc (rs_sessionVersion r))])"
      using that connected_first_snoc by (auto simp: handler_ok_def sdp_inv_def)
    with that show ?thesis by (auto simp: handler_ok_def log_snoc local_role_def)
  qed
  show ?thesis
    by (auto simp: keeping_def set_remote_def io_bind_def io_then_def on_sdp_run log_event_def modify_def host_call_def getSdp_def Let_def
        hinv_def sdp_of_def ok split: option.splits prod.splits sum.splits)
qed

lemma keeping_exchanges [keeps]: "keeping (hinv cfg True) (offer_answer pc x)" "keeping (hinv cfg True) (answer_remote pc)"
  by (auto simp: offer_answer_def answer_remote_def intro!: keeps)

section \<open>Connecting the transport\<close>

lemma update_role_inv: "sdp_inv r \<Longrightarrow> updateDtlsRole role r = Inr r' \<Longrightarrow> sdp_inv r'"
  using step_sdp_inv [of r "SdpRole role"] by (simp add: keep_def)

lemma update_role_session:
  "updateDtlsRole role r = Inr r' \<Longrightarrow> rs_sessionVersion r' = rs_sessionVersion r \<and> map_option dt_role (se_dtls (rs_env r')) = Some role"
  by (auto simp: updateDtlsRole_def split: option.splits)

text \<open>The event is answered, with success or not, when the role in the description is the opposite one.\<close>

lemma handler_ok_connect:
  assumes ok: "handler_ok cfg h r evs" and no: "\<not> h_transportReady h" and up: "updateDtlsRole (opposite_role (local_role h)) r = Inr r'"
  shows "handler_ok cfg (h\<lparr>h_remoteSdp := x\<rparr>) r' evs"
    "handler_ok cfg (h\<lparr>h_remoteSdp := x\<rparr>) r' (evs @ [HConnect (local_role h) False])"
    "handler_ok cfg (h\<lparr>h_remoteSdp := x, h_transportReady := True\<rparr>) r' (evs @ [HConnect (local_role h) True])"
proof -
  have r': "sdp_inv r'" "rs_sessionVersion r' = rs_sessionVersion r" "map_option dt_role (se_dtls (rs_env r')) = Some (opposite_role (local_role h))"
    using ok update_role_inv [OF _ up] update_role_session [OF up] by (simp_all add: handler_ok_def)
  have role: "local_role (h\<lparr>h_remoteSdp := x\<rparr>) = local_role h" "local_role (h\<lparr>h_remoteSdp := x, h_transportReady := True\<rparr>) = local_role h"
    by (simp_all add: local_role_def)
  have cf: "connected_first (evs @ [HConnect (local_role h) b])" for b
    using ok by (intro connected_first_snoc) (simp_all add: handler_ok_def)
  show "handler_ok cfg (h\<lparr>h_remoteSdp := x\<rparr>) r' evs"
    using ok r' by (simp add: handler_ok_def role)
  show "handler_ok cfg (h\<lparr>h_remoteSdp := x\<rparr>) r' (evs @ [HConnect (local_role h) False])"
    using ok r' no cf by (simp add: handler_ok_def role log_snoc)
  show "handler_ok cfg (h\<lparr>h_remoteSdp := x, h_transportReady := True\<rparr>) r' (evs @ [HConnect (local_role h) True])"
    using ok r' no cf by (simp add: handler_ok_def role log_snoc)
qed

lemma setup_run:
  "setupTransport pc role sdp s =
    (case extractDtlsParameters sdp of
       Inl e \<Rightarrow> (s, Inl e)
     | Inr (_, fps) \<Rightarrow>
         (case sdp_of s of
            None \<Rightarrow> (s, Inl (TypeError ''Cannot read properties of undefined''))
          | Some r \<Rightarrow>
             (case updateDtlsRole (opposite_role role) r of
                Inl e \<Rightarrow> (s, Inl e)
              | Inr r' \<Rightarrow>
                  (case on_connect pc \<lparr>dt_role = role, dt_fingerprints = fps\<rparr> (hs_world s) of
                     (w, Inl e) \<Rightarrow> (s\<lparr>hs_handler := (hs_handler s)\<lparr>h_remoteSdp := Some r'\<rparr>, hs_world := w, hs_log := hs_log s @ [HConnect role False]\<rparr>, Inl e)
                   | (w, Inr u) \<Rightarrow> (s\<lparr>hs_handler := (hs_handler s)\<lparr>h_remoteSdp := Some r', h_transportReady := True\<rparr>, hs_world := w,
                        hs_log := hs_log s @ [HConnect role True]\<rparr>, Inr ())))))"
  by (auto simp: setupTransport_def io_bind_def io_then_def lift_def on_sdp_run connect_call_def on_handler_def modify_def no_value_def bindr_def
      split: option.splits sum.splits prod.splits)

lemma ensure_ready: "triple (hinv cfg False) (ensure_transport pc sdp) (\<lambda>_. hinv cfg True) (hinv cfg False)"
proof (rule tripleI)
  fix s s' r
  assume inv: "hinv cfg False s" and run: "ensure_transport pc sdp s = (s', r)"
  show "case r of Inr x \<Rightarrow> hinv cfg True s' | Inl _ \<Rightarrow> hinv cfg False s'"
  proof (cases "h_transportReady (hs_handler s)")
    case True
    with inv run show ?thesis by (auto simp: ensure_transport_def io_bind_def ask_def read_def ret_def hinv_True)
  next
    case False
    from inv obtain rs where rs: "sdp_of s = Some rs" "handler_ok cfg (hs_handler s) rs (hs_log s)" by (auto simp: hinv_def)
    note ok = handler_ok_connect [OF rs(2) False]
    from False run have "setupTransport pc (local_role (hs_handler s)) sdp s = (s', r)"
      by (simp add: ensure_transport_def io_bind_def ask_def read_def)
    with inv rs ok show ?thesis
      by (auto simp: setup_run hinv_def sdp_of_def split: sum.splits prod.splits)
  qed
qed

section \<open>Data channels\<close>

lemma handler_ok_channel:
  assumes "handler_ok cfg h r evs"
  shows "handler_ok cfg (h\<lparr>h_nextSendSctpStreamId := (h_nextSendSctpStreamId h + 1) mod fst cfg\<rparr>) r
    (evs @ [HChannel (Fin (of_nat (h_nextSendSctpStreamId h)))])"
proof -
  have "connected_first (evs @ [HChannel (Fin (of_nat (h_nextSendSctpStreamId h)))])"
    using assms by (intro connected_first_snoc) (simp_all add: handler_ok_def)
  with assms show ?thesis
    by (auto simp: handler_ok_def log_snoc local_role_def stream_ids_def mod_Suc_eq)
qed

lemma keeping_open_channel [keeps]: "keeping (hinv cfg b) (open_channel (fst cfg) (pc :: ('a, 'b) host) request)"
  unfolding keeping_def
proof (intro allI impI)
  fix s :: "('a, 'b) hstate" assume inv: "hinv cfg b s"
  then obtain r where r: "sdp_of s = Some r" "handler_ok cfg (hs_handler s) r (hs_log s)" by (auto simp: hinv_def)
  from inv r handler_ok_channel [OF r(2)] show "hinv cfg b (fst (open_channel (fst cfg) pc request s))"
    by (auto simp: open_channel_def channel_call_def io_bind_def io_then_def ask_def read_def host_call_def log_event_def modify_def
        on_handler_def ret_def Let_def hinv_def sdp_of_def split: prod.splits sum.splits)
qed

section \<open>Calls\<close>

lemma keeping_close_section [keeps]: "keeping (hinv cfg b) (close_section mid)"
  unfolding close_section_def by (intro keeping_on_sdp sound_close)

text \<open>Calls on a transceiver: there is one only once the transport is connected.\<close>

lemma keeping_sending [keeps]:
  "keeping (hinv cfg False) (h_stopSending pc localId)"
  "keeping (hinv cfg False) (h_pauseSending pc localId)"
  "keeping (hinv cfg False) (h_resumeSending pc localId)"
  "keeping (hinv cfg False) (h_replaceTrack pc localId track)"
  "keeping (hinv cfg False) (set_encodings pc localId f)"
  unfolding h_stopSending_def h_pauseSending_def h_resumeSending_def h_replaceTrack_def set_encodings_def
  by (rule keeps keeping_upgrade [OF find_ready] keeping_on_sdp sound_methods)+

lemma each_upgrade:
  assumes "xs \<noteq> []" "\<And>x. triple (hinv cfg False) (f x) (\<lambda>_. hinv cfg True) (hinv cfg False)" "\<And>x. keeping (hinv cfg True) (f x)"
  shows "triple (hinv cfg False) (each f xs) (\<lambda>_. hinv cfg True) (hinv cfg False)"
proof -
  obtain y ys where xs: "xs = y # ys" using assms(1) by (cases xs) auto
  have k: "keeping (hinv cfg True) (io_bind (each f ys) (\<lambda>zs. ret (z # zs)))" for z by (intro keeps assms(3))
  show ?thesis unfolding xs each.simps
    by (rule triple_bind [OF assms(2)]) (rule triple_weaken [OF k [unfolded keeping_triple]]; simp add: hinv_True)
qed

lemma found_upgrade:
  assumes "\<And>t. keeping (hinv cfg True) (f t)"
  shows "triple (hinv cfg False) (io_bind (find_transceiver localId) f) (\<lambda>_. hinv cfg True) (hinv cfg False)"
  by (rule triple_bind [OF find_ready]) (rule triple_weaken [OF assms [unfolded keeping_triple]]; simp add: hinv_True)

lemma keeping_directs: "localIds \<noteq> [] \<Longrightarrow> (\<And>i. sound_method (\<lambda>r. no_value (f i r))) \<Longrightarrow> keeping (hinv cfg False) (direct_receivers pc d f localIds)"
  unfolding direct_receivers_def
  by (intro keeping_then keeping_asserts keeping_upgrade_then each_upgrade found_upgrade keeps keeping_on_sdp; assumption)

lemma keeping_receiving:
  assumes "localIds \<noteq> []"
  shows "keeping (hinv cfg False) (h_stopReceiving pc localIds)" "keeping (hinv cfg False) (h_pauseReceiving pc localIds)"
    "keeping (hinv cfg False) (h_resumeReceiving pc localIds)"
proof -
  show "keeping (hinv cfg False) (h_pauseReceiving pc localIds)" "keeping (hinv cfg False) (h_resumeReceiving pc localIds)"
    unfolding h_pauseReceiving_def h_resumeReceiving_def by (intro keeping_directs assms sound_methods)+
  show "keeping (hinv cfg False) (h_stopReceiving pc localIds)"
    unfolding h_stopReceiving_def
    by (intro keeping_then keeping_asserts keeping_bind keeping_reads keeping_if keeping_basic keeping_upgrade_then each_upgrade found_upgrade
        assms keeps)
qed

section \<open>A section for a new transceiver\<close>

text \<open>The place that was asked for stays the next one until the section is sent.\<close>

definition placed :: "nat \<times> string option \<Rightarrow> ('w, 't) hstate \<Rightarrow> bool" where
  "placed place s \<longleftrightarrow> (\<forall>r. sdp_of s = Some r \<longrightarrow> getNextMediaSectionIdx r = place)"

lemma find_closed_map: "(\<And>m. ms_closed (f m) = ms_closed m) \<Longrightarrow> (\<And>m. ms_mid (f m) = ms_mid m) \<Longrightarrow> find_closed k (map f ms) = find_closed k ms"
  by (induction ms arbitrary: k) simp_all

lemma update_role_place: "updateDtlsRole role r = Inr r' \<Longrightarrow> getNextMediaSectionIdx r' = getNextMediaSectionIdx r"
  by (auto simp: updateDtlsRole_def getNextMediaSectionIdx_def find_closed_map split: option.splits)

lemma placed_host: "keeping (placed place) (host_call f)"
  by (auto simp: keeping_def host_call_def placed_def sdp_of_def split: prod.splits)

lemma placed_event: "keeping (placed place) (log_event e)"
  unfolding log_event_def by (rule keeping_modify) (simp add: placed_def sdp_of_def)

lemma placed_setup: "keeping (placed place) (setupTransport pc role sdp)"
  by (auto simp: keeping_def setup_run placed_def sdp_of_def update_role_place split: sum.splits prod.splits option.splits)

lemma placed_local: "keeping (placed place) (set_local pc sdp)"
  unfolding set_local_def by (intro keeping_then placed_host placed_event)

lemma placed_ensure: "keeping (placed place) (ensure_transport pc sdp)"
  unfolding ensure_transport_def ask_def by (intro keeps placed_setup)

definition section_fits :: "'t prepared \<Rightarrow> ('w, 't) hstate \<Rightarrow> bool" where
  "section_fits p s \<longleftrightarrow> (case (pp_offer p, sdp_of s) of (Some m, Some r) \<Rightarrow> mid_fits True (mo_mid m) r | _ \<Rightarrow> True)"

lemma place_asked:
  "triple (hinv cfg False) (on_sdp (\<lambda>r. Inr (r, getNextMediaSectionIdx r))) (\<lambda>place s. hinv cfg False s \<and> placed place s) (hinv cfg False)"
proof -
  have "keeping (hinv cfg False) (on_sdp (\<lambda>r. Inr (r, getNextMediaSectionIdx r)))" by (rule keeping_on_sdp [OF sound_read])
  then have "triple (hinv cfg False) (on_sdp (\<lambda>r. Inr (r, getNextMediaSectionIdx r))) (\<lambda>_. hinv cfg False) (hinv cfg False)"
    by (simp add: keeping_triple)
  moreover have "case res of Inr place \<Rightarrow> placed place s' | Inl _ \<Rightarrow> True" if "on_sdp (\<lambda>r. Inr (r, getNextMediaSectionIdx r)) s = (s', res)" for s s' res
    using that by (auto simp: on_sdp_run placed_def sdp_of_def split: option.splits)
  ultimately show ?thesis by (fastforce simp: triple_def split: sum.splits)
qed

lemma place_host: "triple (\<lambda>s. hinv cfg False s \<and> placed place s) (host_call f) (\<lambda>_ s. hinv cfg False s \<and> placed place s) (hinv cfg False)"
  by (rule triple_conj [OF keeping_host [unfolded keeping_triple] placed_host])

lemma place_local: "triple (\<lambda>s. hinv cfg True s \<and> placed place s) (set_local pc sdp) (\<lambda>_ s. hinv cfg True s \<and> placed place s) (hinv cfg False)"
  by (rule triple_weaken [OF triple_conj [OF keeping_set_local [of cfg, unfolded keeping_triple] placed_local]]) (simp_all add: hinv_True)

lemma prepare_placed:
  "triple (hinv cfg False) (send_prepare lib pc kind trackId encodings capCodec)
     (\<lambda>p s. hinv cfg True s \<and> placed (pp_place p) s) (hinv cfg False)"
  unfolding send_prepare_def case_prod_beta Let_def ask_def look_def
  by (rule triple_then [OF keeping_asserts(1) [unfolded keeping_triple]] triple_then [OF keeping_asserts(2) [unfolded keeping_triple]]
      triple_bind [OF place_asked] triple_bind [OF place_host] triple_then [OF triple_conj [OF ensure_ready placed_ensure]]
      triple_then [OF place_local] triple_bind_lift triple_bind_read triple_ret | simp)+

lemma send_section_sound:
  assumes "send_section mixed m (snd place) codecs remote exts opts r = Inr (r', cs)" "sdp_inv r" "mid_fits True (mo_mid m) r"
    "getNextMediaSectionIdx r = place"
  shows "sdp_inv r' \<and> same_session r r'"
proof -
  obtain c1 c2 where send: "rs_send m (snd (getNextMediaSectionIdx r)) c1 c2 exts opts mixed r = Inr (r', cs)"
    using assms(1,4) by (auto simp: send_section_def split: option.splits)
  from send_reuse_good [OF assms(2,3) this] send_session [OF send] show ?thesis by (simp add: good_def)
qed

lemma finish_keeps:
  "triple (\<lambda>s. hinv cfg True s \<and> placed (pp_place p) s \<and> section_fits p s) (send_finish pc kind encodings opts p) (\<lambda>_. hinv cfg True) (hinv cfg True)"
proof (cases "pp_offer p")
  case None
  then show ?thesis unfolding send_finish_def None option.case by (intro triple_raise) simp
next
  case (Some m)
  have sdp: "triple (\<lambda>s. hinv cfg True s \<and> placed (pp_place p) s \<and> section_fits p s)
      (on_sdp (send_section True m (snd (pp_place p)) (pp_codecs p) (pp_remoteCodecs p) exts opts)) (\<lambda>_. hinv cfg True) (hinv cfg True)" for exts
    by (rule on_sdp_triple) (auto simp: placed_def section_fits_def Some dest: send_section_sound)
  have rest: "triple (hinv cfg True) (io_then (set_remote pc) (io_then (on_handler (\<lambda>h. h\<lparr>h_mapMidTransceiver := g h\<rparr>)) (ret x))) (\<lambda>_. hinv cfg True) (hinv cfg True)"
    for g x unfolding keeping_triple [symmetric] by (intro keeps)
  show ?thesis
    unfolding send_finish_def Some option.case case_prod_beta ask_def
    by (rule triple_bind_lift triple_bind_read triple_bind [OF sdp] rest | simp)+
qed

lemma quiet_fst: "fst (quiet m s) = fst (m s)"
  by (simp add: quiet_def io_then_def io_bind_def ret_def split: prod.split sum.split)

text \<open>A method in two stages, where what the first one leaves is known to fit.\<close>

lemma staged:
  assumes "triple P prep Q E" "\<And>p. triple (\<lambda>s. Q p s \<and> F p s) (fin p) (\<lambda>_. R) R" "\<And>s. E s \<Longrightarrow> R s"
    and "P s" "case prep s of (s', Inr p) \<Rightarrow> F p s' | _ \<Rightarrow> True"
  shows "R (fst (io_bind prep fin s))"
proof -
  obtain s1 r1 where prep: "prep s = (s1, r1)" by fastforce
  note post = tripleD [OF assms(1,4) prep]
  show ?thesis
  proof (cases r1)
    case (Inl e)
    with post prep assms(3) show ?thesis by (simp add: io_bind_def)
  next
    case (Inr p)
    obtain s2 r2 where fin: "fin p s1 = (s2, r2)" by fastforce
    have "Q p s1 \<and> F p s1" using post assms(5) prep Inr by simp
    from tripleD [OF assms(2) this fin] prep fin Inr show ?thesis by (simp add: io_bind_def split: sum.splits)
  qed
qed

lemma send_keeps:
  assumes "hinv cfg False s"
    and "case send_prepare lib pc kind trackId encodings capCodec s of (s', Inr p) \<Rightarrow> section_fits p s' | _ \<Rightarrow> True"
  shows "hinv cfg False (fst (h_send lib pc kind trackId encodings opts capCodec s))"
  unfolding h_send_def
proof (rule staged [OF prepare_placed _ _ assms])
  fix p
  show "triple (\<lambda>s. (hinv cfg True s \<and> placed (pp_place p) s) \<and> section_fits p s) (send_finish pc kind encodings opts p)
      (\<lambda>_. hinv cfg False) (hinv cfg False)"
    by (rule triple_weaken [OF finish_keeps]) (auto simp: hinv_True)
qed simp

section \<open>The section of the data channels\<close>

lemma sctp_prepare_ready: "triple (hinv cfg False) (sctp_prepare pc) (\<lambda>_. hinv cfg True) (hinv cfg False)"
  unfolding sctp_prepare_def
  by (rule triple_bind [OF keeping_host [unfolded keeping_triple]] triple_then [OF ensure_ready] ready_triple keeps)+

definition data_fits :: "channel_options \<times> media_object option option \<Rightarrow> ('w, 't) hstate \<Rightarrow> bool" where
  "data_fits p s \<longleftrightarrow> (case snd p of Some (Some m) \<Rightarrow> new_mid (mo_mid m) s | _ \<Rightarrow> True)"

lemma data_prepare_keeps: "keeping (hinv cfg False) (data_prepare (fst cfg) pc request)"
proof -
  have "keeping (hinv cfg False) (sctp_prepare pc)"
    unfolding keeping_triple by (rule triple_weaken [OF sctp_prepare_ready]) (simp_all add: hinv_True)
  then show ?thesis unfolding data_prepare_def by (intro keeps)
qed

lemma sound_sctp:
  assumes "no_value (send_sctp m r) = Inr (r', x)" "sdp_inv r" "case m of Some o' \<Rightarrow> mo_mid o' \<noteq> [] \<and> \<not> known_mid (mo_mid o') r | None \<Rightarrow> True"
  shows "sdp_inv r' \<and> same_session r r'"
proof -
  obtain o' where "m = Some o'" "sendSctpAssociation o' r = Inr r'"
    using assms(1) by (auto simp: no_value_def bindr_eq_Inr send_sctp_def split: option.splits)
  with step_sdp_inv [OF assms(2), of "SdpSendSctp o'"] sctp_session(1) assms(3) show ?thesis by (simp add: keep_def)
qed

lemma data_finish_keeps: "triple (\<lambda>s. hinv cfg False s \<and> data_fits p s) (data_finish pc p) (\<lambda>_. hinv cfg False) (hinv cfg False)"
proof (cases "snd p")
  case None
  then show ?thesis unfolding data_finish_def None option.case by (intro triple_ret) simp
next
  case (Some offer)
  have "triple (\<lambda>s. hinv cfg False s \<and> data_fits p s) (on_sdp (\<lambda>r. no_value (send_sctp offer r))) (\<lambda>_. hinv cfg False) (hinv cfg False)"
    by (rule on_sdp_triple, rule sound_sctp) (auto simp: data_fits_def Some new_mid_def split: option.splits)
  moreover have "triple (hinv cfg False) (io_then (set_remote pc) (io_then (on_handler (\<lambda>h. h\<lparr>h_hasDataChannelMediaSection := True\<rparr>)) (ret (fst p))))
      (\<lambda>_. hinv cfg False) (hinv cfg False)"
    unfolding keeping_triple [symmetric] by (intro keeps)
  ultimately show ?thesis unfolding data_finish_def Some option.case by (rule triple_then)
qed

lemma send_data_keeps:
  assumes "hinv cfg False s" "case data_prepare (fst cfg) pc request s of (s', Inr p) \<Rightarrow> data_fits p s' | _ \<Rightarrow> True"
  shows "hinv cfg False (fst (h_sendDataChannel (fst cfg) pc request s))"
  unfolding h_sendDataChannel_def
  by (rule staged [OF data_prepare_keeps [unfolded keeping_triple] data_finish_keeps _ assms]) simp

section \<open>Receiving\<close>

lemma keeping_receive_section: "rx_mid o' \<noteq> Some [] \<Longrightarrow> keeping (hinv cfg b) (receive_section o')"
  unfolding receive_section_def Let_def
  by (intro keeps keeping_on_sdp sound_receive) (auto simp: nat_str_facts split: option.split)

lemma keeping_transceiver_of [keeps]: "keeping (hinv cfg b) (transceiver_of pc localId e)"
  unfolding transceiver_of_def by (intro keeps)

lemma receive_keeps: "list_all (\<lambda>o'. rx_mid o' \<noteq> Some []) options \<Longrightarrow> keeping (hinv cfg False) (h_receive pc options)"
  unfolding h_receive_def Let_def watch_receiver_def
  by (intro keeping_then keeping_bind keeping_asserts keeping_each_set keeping_receive_section keeping_upgrade_then ensure_ready
      keeping_if keeping_basic keeping_transceiver_of keeping_set_remote keeping_host)
    (auto simp: list_all_iff store_receiver_def intro!: keeps)

lemma sound_receive_sctp:
  assumes "no_value (receiveSctpAssociation old r) = Inr (r', x)" "sdp_inv r" "\<not> known_mid ''datachannel'' r"
  shows "sdp_inv r' \<and> same_session r r'"
  using assms(1,3) step_sdp_inv [OF assms(2), of "SdpReceiveSctp old"] sctp_session(2)
  by (auto simp: no_value_def bindr_eq_Inr keep_def)

text \<open>A data channel is received: the section of the association is there, or its mid is free.\<close>

definition data_expected :: "('w, 't) hstate \<Rightarrow> bool" where
  "data_expected s \<longleftrightarrow> h_hasDataChannelMediaSection (hs_handler s) \<or> new_mid ''datachannel'' s"

lemma receive_data_core:
  fixes f :: "'w \<Rightarrow> 'w \<times> unit result" and rest :: "('w, 't, unit) hio"
  assumes rest: "keeping (hinv cfg False) rest"
  shows "triple (\<lambda>s. hinv cfg False s \<and> data_expected s)
    (io_then assertRecvDirection (io_then (host_call f) (io_bind (ask h_hasDataChannelMediaSection) (\<lambda>has.
       if has then ret () else io_then (on_sdp (\<lambda>r. no_value (receiveSctpAssociation old r))) rest))))
    (\<lambda>_. hinv cfg False) (hinv cfg False)"
proof -
  have sdp: "triple (\<lambda>s. hinv cfg False s \<and> new_mid ''datachannel'' s) (on_sdp (\<lambda>r. no_value (receiveSctpAssociation old r))) (\<lambda>_. hinv cfg False) (hinv cfg False)"
    by (rule on_sdp_triple, rule sound_receive_sctp) (auto simp: new_mid_def)
  have host: "triple (\<lambda>s. hinv cfg False s \<and> data_expected s) (host_call f) (\<lambda>_ s. hinv cfg False s \<and> data_expected s) (hinv cfg False)"
    by (rule triple_conj [OF keeping_host [unfolded keeping_triple]])
      (auto simp: keeping_def host_call_def data_expected_def new_mid_def sdp_of_def split: prod.splits)
  have direction: "triple (\<lambda>s. hinv cfg False s \<and> data_expected s) (assertRecvDirection :: ('w, 't, unit) hio) (\<lambda>_ s. hinv cfg False s \<and> data_expected s) (hinv cfg False)"
    by (rule triple_conj [OF keeping_asserts(3) [unfolded keeping_triple]]) (simp add: assertRecvDirection_def ask_def keeps)
  have ask: "triple (\<lambda>s. hinv cfg False s \<and> data_expected s) (ask h_hasDataChannelMediaSection :: ('w, 't, bool) hio)
      (\<lambda>has s. hinv cfg False s \<and> (has \<or> new_mid ''datachannel'' s)) (hinv cfg False)"
    unfolding ask_def by (rule triple_read) (simp add: data_expected_def)
  have "triple (\<lambda>s. hinv cfg False s \<and> (has \<or> new_mid ''datachannel'' s)) (if has then ret ()
      else io_then (on_sdp (\<lambda>r. no_value (receiveSctpAssociation old r))) rest) (\<lambda>_. hinv cfg False) (hinv cfg False)" for has
    by (cases has) (simp_all add: triple_ret triple_then [OF sdp rest [unfolded keeping_triple]])
  from triple_bind [OF ask this] direction host show ?thesis by (intro triple_then) assumption+
qed

lemma receive_data_frame:
  fixes f :: "'w \<Rightarrow> 'w \<times> unit result" and rest :: "('w, 't, unit) hio"
  assumes "keeping (hinv cfg False) rest"
  shows "triple (\<lambda>s. hinv cfg False s \<and> data_expected s)
    (io_then assertNotClosed (io_then assertRecvDirection (io_then (host_call f) (io_bind (ask h_hasDataChannelMediaSection) (\<lambda>has.
       if has then ret () else io_then (on_sdp (\<lambda>r. no_value (receiveSctpAssociation False r))) rest)))))
    (\<lambda>_. hinv cfg False) (hinv cfg False)"
proof -
  have "triple (\<lambda>s. hinv cfg False s \<and> data_expected s) (assertNotClosed :: ('w, 't, unit) hio) (\<lambda>_ s. hinv cfg False s \<and> data_expected s) (hinv cfg False)"
    by (rule triple_conj [OF keeping_asserts(1) [unfolded keeping_triple]]) (simp add: assertNotClosed_def ask_def keeps)
  then show ?thesis by (rule triple_then) (rule receive_data_core [OF assms])
qed

lemma triple_fst: "triple P m (\<lambda>_. Q) Q \<Longrightarrow> P s \<Longrightarrow> Q (fst (m s))"
  using tripleD [of P m "\<lambda>_. Q" Q s "fst (m s)" "snd (m s)"] by (simp split: sum.splits)

lemma receive_data_keeps:
  assumes "hinv cfg False s" "data_expected s"
  shows "hinv cfg False (fst (h_receiveDataChannel pc options s))"
proof -
  have "keeping (hinv cfg False) (io_then (set_remote pc) (io_bind (host_call (pc_createAnswer pc)) (\<lambda>answer.
      io_then (ensure_transport pc (sdp_parse pc answer)) (io_then (set_local pc answer)
        (on_handler (\<lambda>h. h\<lparr>h_hasDataChannelMediaSection := True\<rparr>))))))"
    by (intro keeping_then keeping_bind keeping_upgrade_then ensure_ready keeping_set_remote keeping_host keeping_set_local keeping_fields)
  from triple_fst [OF receive_data_frame [OF this]] assms show ?thesis unfolding h_receiveDataChannel_def by blast
qed

section \<open>Runs\<close>

lemma keeping_restart:
  "keeping (hinv cfg False) (io_then (on_sdp (\<lambda>r. Inr (updateIceParameters p r, ()))) (io_bind (ask h_transportReady) (\<lambda>ready.
     if \<not> ready then ret () else io_bind (ask h_direction) (\<lambda>d. if d = Some DirSend then offer_answer pc True else answer_remote pc))))"
proof -
  have ready: "triple (hinv cfg False) (ask h_transportReady) (\<lambda>ready. hinv cfg ready) (hinv cfg False)"
    unfolding ask_def by (rule triple_read) (simp add: hinv_def)
  have "triple (hinv cfg ready) (if \<not> ready then ret () else io_bind (ask h_direction)
      (\<lambda>d. if d = Some DirSend then offer_answer pc True else answer_remote pc)) (\<lambda>_. hinv cfg False) (hinv cfg False)" for ready
  proof (cases ready)
    case True
    have "keeping (hinv cfg True) (io_bind (ask h_direction) (\<lambda>d. if d = Some DirSend then offer_answer pc True else answer_remote pc))"
      by (intro keeps)
    with True show ?thesis by (auto simp: keeping_triple hinv_True elim!: triple_weaken)
  qed (simp add: triple_ret)
  from triple_bind [OF ready this] show ?thesis
    by (intro keeping_then keeping_on_sdp sound_ice) (simp add: keeping_triple)
qed

lemma keeping_others:
  "keeping (hinv cfg False) (h_restartIce pc p)" "keeping (hinv cfg False) (h_updateIceServers pc servers)" "keeping (hinv cfg False) (h_close pc)"
  by (auto simp: h_restartIce_def h_updateIceServers_def h_close_def intro!: keeps keeping_restart)

section \<open>Runs of a handler\<close>

definition call_step :: "('c \<Rightarrow> ('s, unit) io) \<Rightarrow> 's \<Rightarrow> 'c \<Rightarrow> 's" where
  "call_step perform s c = fst (perform c s)"

fun runs_fit :: "('c \<Rightarrow> ('s, unit) io) \<Rightarrow> ('s \<Rightarrow> 'c \<Rightarrow> bool) \<Rightarrow> 's \<Rightarrow> 'c list \<Rightarrow> bool" where
  "runs_fit perform fits s [] = True"
| "runs_fit perform fits s (c # cs) = (fits s c \<and> runs_fit perform fits (call_step perform s c) cs)"

text \<open>The remote description finds each of its sections by its mid, its BUNDLE group lists the open ones, and the versions given
  to the peer connection have no gap.\<close>

definition descriptions_consistent :: "('w, 't) hstate \<Rightarrow> bool" where
  "descriptions_consistent s \<longleftrightarrow> (\<exists>r. sdp_of s = Some r \<and> versions (hs_log s) = [1..<Suc (rs_sessionVersion r)] \<and>
    (\<forall>mid i. jm_get (rs_midToIndex r) mid = Some i \<longleftrightarrow> i < length (sdp_media r) \<and> mo_mid (sdp_media r ! i) = mid) \<and>
    (se_dtls (rs_env r) = None \<or> rs_bundleMids r = join '' '' (map ms_mid (filter (\<lambda>m. \<not> ms_closed m) (rs_mediaSections r)))))"

text \<open>The local parameters were accepted at most once, before any local description, with the role opposite to the server's.\<close>

definition connected_once :: "('w, 't) hstate \<Rightarrow> bool" where
  "connected_once s \<longleftrightarrow> length (filter snd (connects (hs_log s))) \<le> 1 \<and> connected_first (hs_log s) \<and>
    (\<forall>(role, accepted) \<in> set (connects (hs_log s)). \<exists>r. sdp_of s = Some r \<and> map_option dt_role (se_dtls (rs_env r)) = Some (opposite_role role))"

text \<open>What a handler's methods promise: a call that fits keeps the invariant.\<close>

locale sdp_handler =
  fixes perform :: "'c \<Rightarrow> ('w, 't, unit) hio"
    and fits :: "('w, 't) hstate \<Rightarrow> 'c \<Rightarrow> bool"
    and cfg :: "nat \<times> dtls_role option"
  assumes call_inv: "hinv cfg False s \<Longrightarrow> fits s c \<Longrightarrow> hinv cfg False (fst (perform c s))"
begin

lemma fitting_run: "hinv cfg False s \<Longrightarrow> runs_fit perform fits s cs \<Longrightarrow> hinv cfg False (foldl (call_step perform) s cs)"
  by (induction cs arbitrary: s) (simp_all add: call_step_def call_inv)

lemma run_handler_ok:
  assumes "hinv cfg False s" "runs_fit perform fits s cs"
  obtains r where "sdp_of (foldl (call_step perform) s cs) = Some r"
    "handler_ok cfg (hs_handler (foldl (call_step perform) s cs)) r (hs_log (foldl (call_step perform) s cs))"
  using fitting_run [OF assms] that by (auto simp: hinv_def)

lemma run_descriptions:
  assumes "hinv cfg False s" "runs_fit perform fits s cs"
  shows "descriptions_consistent (foldl (call_step perform) s cs)"
proof -
  define t where "t = foldl (call_step perform) s cs"
  obtain r where r: "sdp_of t = Some r" "handler_ok cfg (hs_handler t) r (hs_log t)"
    unfolding t_def by (rule run_handler_ok [OF assms])
  then have inv: "sdp_inv r" and v: "versions (hs_log t) = map Suc [0..<rs_sessionVersion r]" by (simp_all add: handler_ok_def)
  have "jm_get (rs_midToIndex r) mid = Some i \<longleftrightarrow> i < length (sdp_media r) \<and> mo_mid (sdp_media r ! i) = mid" for mid i
    using inv by (auto simp: sdp_inv_def idx_ok_def sdp_media_def ms_mid_def)
  with inv r(1) v show ?thesis unfolding t_def [symmetric] descriptions_consistent_def
    by (auto simp: sdp_inv_def bundle_of_def map_Suc_upt)
qed

lemma run_connected:
  assumes "hinv cfg False s" "runs_fit perform fits s cs"
  shows "connected_once (foldl (call_step perform) s cs)"
proof -
  define t where "t = foldl (call_step perform) s cs"
  obtain r where r: "sdp_of t = Some r" "handler_ok cfg (hs_handler t) r (hs_log t)"
    unfolding t_def by (rule run_handler_ok [OF assms])
  from r(2) have role: "\<forall>(role, b) \<in> set (connects (hs_log t)). role = local_role (hs_handler t)"
    and other: "connects (hs_log t) \<noteq> [] \<Longrightarrow> map_option dt_role (se_dtls (rs_env r)) = Some (opposite_role (local_role (hs_handler t)))"
    and one: "length (filter snd (connects (hs_log t))) \<le> 1" "connected_first (hs_log t)"
    by (simp_all add: handler_ok_def)
  have "map_option dt_role (se_dtls (rs_env r)) = Some (opposite_role role')" if "(role', b) \<in> set (connects (hs_log t))" for role' b
  proof -
    have "role' = local_role (hs_handler t)" "connects (hs_log t) \<noteq> []" using role that by auto
    with other show ?thesis by simp
  qed
  with one r(1) show ?thesis unfolding t_def [symmetric] connected_once_def by auto
qed

lemma run_channels:
  assumes "hinv cfg False s" "runs_fit perform fits s cs"
  shows "channels (hs_log (foldl (call_step perform) s cs)) =
    stream_ids (fst cfg) (length (channels (hs_log (foldl (call_step perform) s cs))))"
  by (rule run_handler_ok [OF assms]) (simp add: handler_ok_def)

end

lemma stream_ids_distinct:
  assumes "ids = stream_ids n (length ids)" "i < j" "j < length ids" "j - i < n"
  shows "ids ! i \<noteq> ids ! j"
proof
  have nth: "ids ! k = Fin (of_nat (k mod n))" if "k < length ids" for k
    using arg_cong [OF assms(1), of "\<lambda>l. l ! k"] that by (simp add: stream_ids_def)
  assume "ids ! i = ids ! j"
  then have "j mod n = i mod n" using nth [of i] nth [of j] assms(2,3) by simp
  then have "n dvd j - i" using assms(2) mod_eq_dvd_iff_nat [of i j n] by simp
  then show False using assms(2,4) by (auto dest: dvd_imp_le)
qed

text \<open>A handler that was told to run.\<close>

definition fresh :: "'w \<Rightarrow> ('w, 't) hstate" where
  "fresh w = \<lparr>hs_handler = new_Chrome111, hs_world = w, hs_log = []\<rparr>"

lemma started_hinv:
  assumes "new_RemoteSdp env = Inr r" "open_env env" "sdp_of s = Some r" "hs_log s = []" "\<not> h_transportReady (hs_handler s)"
    "h_mapMidTransceiver (hs_handler s) = []" "h_mapRecvLocalIdInfo (hs_handler s) = []"
    "h_nextSendSctpStreamId (hs_handler s) = 0" "h_forcedLocalDtlsRole (hs_handler s) = snd cfg"
  shows "hinv cfg False s"
proof -
  have "sdp_inv r" "rs_sessionVersion r = 0"
    using new_RemoteSdp_inv [OF assms(1,2)] assms(1) by (auto simp: new_RemoteSdp_def Let_def split: option.splits if_splits)
  with assms show ?thesis
    by (simp add: hinv_def handler_ok_def versions_def channels_def connects_def connected_first_def stream_ids_def)
qed

lemmas run_simps = io_then_def io_bind_def assertNotClosed_def ask_def read_def check_def ret_def raise_def on_handler_def
  modify_def lift_def host_call_def

end
