(* ===== verification/Chrome111Props.thy ===== *)
theory Chrome111Props
  imports HandlerInv
begin

text \<open>
  Correctness of the handler of \<open>Chrome111.js\<close> over every run of calls and every behaviour of the peer connection.
\<close>

section \<open>Runs\<close>

interpretation chrome111: sdp_handler "call lib pc" "call_fits lib pc" "(SCTP_NUM_STREAMS, forced)" for lib pc forced
proof
  fix s :: "('a, 'b) hstate" and c
  let ?cfg = "(SCTP_NUM_STREAMS, forced)"
  assume inv: "hinv ?cfg False s" and fits: "call_fits lib pc s c"
  have k: "hinv ?cfg False (fst (m s))" if "keeping (hinv ?cfg False) m" for m :: "('a, 'b, unit) hio"
    using that inv by (simp add: keeping_def)
  have r: "hinv ?cfg False (fst (h_receive pc options s))" if "c = DoReceive options" for options
    using receive_keeps [of options ?cfg pc] inv fits that by (simp add: keeping_def)
  show "hinv ?cfg False (fst (call lib pc c s))"
  proof (cases c)
    case (DoSend kind trackId encodings opts capCodec)
    with fits show ?thesis
      by (simp add: quiet_fst) (rule send_keeps [OF inv], auto simp: section_fits_def split: sum.split prod.split)
  next
    case (DoSendDataChannel request)
    with fits have "case data_prepare (fst ?cfg) pc request s of (s', Inr p) \<Rightarrow> data_fits p s' | _ \<Rightarrow> True"
      by (auto simp: data_fits_def split: sum.splits prod.splits option.splits)
    from send_data_keeps [OF inv this] DoSendDataChannel show ?thesis by (simp add: quiet_fst)
  next
    case (DoReceiveDataChannel request)
    with fits receive_data_keeps [OF inv] show ?thesis by (simp add: data_expected_def)
  qed (use fits r in \<open>simp_all add: quiet_fst h_setMaxSpatialLayer_def h_setRtpEncodingParameters_def k keeping_sending keeping_receiving keeping_others\<close>)
qed

lemma handler_run: "handler_step lib pc = call_step (call lib pc)" "run_fits lib pc = runs_fit (call lib pc) (call_fits lib pc)"
proof -
  show step: "handler_step lib pc = call_step (call lib pc)" by (intro ext) (simp add: handler_step_def call_step_def)
  have "run_fits lib pc s cs = runs_fit (call lib pc) (call_fits lib pc) s cs" for s cs
    by (induction cs arbitrary: s) (simp_all add: step)
  then show "run_fits lib pc = runs_fit (call lib pc) (call_fits lib pc)" by (intro ext)
qed

lemma started_inv:
  assumes "h_run pc direction env extended (fresh w) = (s, Inr ())" "open_env env"
  shows "hinv (SCTP_NUM_STREAMS, h_forcedLocalDtlsRole (hs_handler s)) False s"
proof -
  obtain r where "new_RemoteSdp env = Inr r" "sdp_of s = Some r" "hs_log s = []" "\<not> h_transportReady (hs_handler s)"
      "h_mapMidTransceiver (hs_handler s) = []" "h_mapRecvLocalIdInfo (hs_handler s) = []" "h_nextSendSctpStreamId (hs_handler s) = 0"
    using assms(1) by (auto simp: h_run_def fresh_def run_simps sdp_of_def new_Chrome111_def split: sum.splits prod.splits)
  with assms(2) show ?thesis by (intro started_hinv) simp_all
qed

section \<open>Theorems\<close>

text \<open>C9: Over every run of calls of the handler of \<open>Chrome111.js\<close>, with failures of the peer connection and of the
  listeners at any point, the remote description stays consistent (its index finds each section by its mid, and the
  BUNDLE group lists exactly the open sections) and the descriptions given to the peer connection carry the versions
  \<open>1, 2, 3, ...\<close> without a gap, as long as the run keeps to these conditions: each section that the peer connection
  offers for a new track has a mid that is not empty and not in the remote description yet, or that of the closed section whose place it takes;
  a call that adds the section of the data channels is made only while the description has no section of that mid, so
  neither \<open>sendDataChannel\<close> nor \<open>receiveDataChannel\<close> is tried again after a negotiation that failed once the section was made
  (\<open>data_section_duplicated\<close> shows what becomes of the description otherwise); no consumer has an empty string as its mid; no
  empty list of consumers is stopped, paused or resumed, which \<open>Transport\<close> never does; and the port of plain RTP parameters, if
  any, is not 0.\<close>

theorem handler_descriptions_consistent:
  assumes "h_run pc direction env extended (fresh w) = (s0, Inr ())" "open_env env"
    and "run_fits lib pc s0 calls" and s: "s = foldl (handler_step lib pc) s0 calls"
  shows "\<exists>r. sdp_of s = Some r \<and> versions (hs_log s) = [1..<Suc (rs_sessionVersion r)] \<and>
    (\<forall>mid i. jm_get (rs_midToIndex r) mid = Some i \<longleftrightarrow> i < length (sdp_media r) \<and> mo_mid (sdp_media r ! i) = mid) \<and>
    (se_dtls (rs_env r) = None \<or> rs_bundleMids r = join '' '' (map ms_mid (filter (\<lambda>m. \<not> ms_closed m) (rs_mediaSections r))))"
  using chrome111.run_descriptions [OF started_inv [OF assms(1,2)] assms(3) [unfolded handler_run]]
  unfolding s handler_run descriptions_consistent_def .

text \<open>C21: Over every run under the conditions on the calls that are listed above (new sections with mids of their own, one
  section for the data channels, no empty list of consumers, no plain RTP port 0), the parameters of the local transport
  are accepted at most once; no local description is set before that; and the role told to the server is always the
  opposite of the one that the descriptions give the server.\<close>

theorem transport_connected_once:
  assumes "h_run pc direction env extended (fresh w) = (s0, Inr ())" "open_env env"
    and "run_fits lib pc s0 calls" and s: "s = foldl (handler_step lib pc) s0 calls"
  shows "length (filter snd (connects (hs_log s))) \<le> 1 \<and> connected_first (hs_log s) \<and>
    (\<forall>(role, accepted) \<in> set (connects (hs_log s)). \<exists>r. sdp_of s = Some r \<and> map_option dt_role (se_dtls (rs_env r)) = Some (opposite_role role))"
  using chrome111.run_connected [OF started_inv [OF assms(1,2)] assms(3) [unfolded handler_run]]
  unfolding s handler_run connected_once_def .

text \<open>Data channels are opened with the stream identifiers \<open>0, 1, ...\<close> in turn, below the number of streams that is
  announced, so that no two of 1024 channels in a row share one.\<close>

theorem data_channel_ids_in_turn:
  assumes "h_run pc direction env extended (fresh w) = (s0, Inr ())" "open_env env"
    and "run_fits lib pc s0 calls" and s: "s = foldl (handler_step lib pc) s0 calls"
  shows "channels (hs_log s) = map (\<lambda>k. Fin (of_nat (k mod 1024))) [0..<length (channels (hs_log s))] \<and>
    (i < j \<and> j < length (channels (hs_log s)) \<and> j - i < 1024 \<longrightarrow> channels (hs_log s) ! i \<noteq> channels (hs_log s) ! j)"
proof -
  have ids: "channels (hs_log s) = stream_ids 1024 (length (channels (hs_log s)))"
    using chrome111.run_channels [OF started_inv [OF assms(1,2)] assms(3) [unfolded handler_run]]
    unfolding s handler_run by (simp add: SCTP_NUM_STREAMS_def)
  with stream_ids_distinct [OF ids, of i j] show ?thesis by (auto simp: stream_ids_def)
qed

text \<open>C39: A closed handler does nothing more: every call leaves everything as it is, and only those that stop
  something, or close it again, return.\<close>

theorem closed_handler_inert:
  assumes "h_closed (hs_handler s)"
  shows "handler_step lib pc s c = s \<and>
    (snd (call lib pc c s) = Inr () \<longrightarrow> (\<exists>localId. c = DoStopSending localId) \<or> (\<exists>ids. c = DoStopReceiving ids) \<or> c = DoClose)"
  using assms
  by (cases c) (simp_all add: handler_step_def quiet_def h_send_def send_prepare_def h_stopSending_def h_pauseSending_def h_resumeSending_def
      h_replaceTrack_def h_setMaxSpatialLayer_def h_setRtpEncodingParameters_def set_encodings_def h_sendDataChannel_def data_prepare_def
      h_receive_def h_stopReceiving_def h_pauseReceiving_def h_resumeReceiving_def direct_receivers_def h_receiveDataChannel_def
      h_restartIce_def h_updateIceServers_def h_close_def io_then_def io_bind_def assertNotClosed_def assertSendDirection_def
      assertRecvDirection_def ask_def read_def check_def raise_def ret_def)

section \<open>Examples\<close>

text \<open>A peer connection that has a transceiver for each section it was given; its texts are the mids.\<close>

definition echo_host :: "(string list, string) host" where
  "echo_host = \<lparr>
     sdp_parse = (\<lambda>text. \<lparr>so_setup = Some ''active'', so_fingerprint = Some (''sha-256'', ''BB''), so_connection = None,
       so_media = map (\<lambda>mid. empty_media\<lparr>mo_mid := mid, mo_type := ''application'', mo_sctpPort := Some (Fin 5000), mo_port := Fin 9\<rparr>)
         (split_at (CHR '' '') text)\<rparr>),
     sdp_write = (\<lambda>r. join '' '' (map mo_mid (sdp_media r))), sdp_write_object = (\<lambda>_. []), pc_create = (\<lambda>w. (w, Inr ())),
     pc_addTransceiver = (\<lambda>_ trackId _ w. (w, Inr trackId)), pc_createOffer = (\<lambda>_ w. (w, Inr ''data'')), pc_createAnswer = (\<lambda>w. (w, Inr (join '' '' w))),
     pc_setLocalDescription = (\<lambda>_ w. (w, Inr ())), pc_setRemoteDescription = (\<lambda>text _. (split_at (CHR '' '') text, Inr ())),
     pc_localDescription = (\<lambda>w. join '' '' w), pc_getTransceivers = (\<lambda>w. w), pc_removeTrack = (\<lambda>_ w. (w, Inr ())),
     pc_createDataChannel = (\<lambda>_ w. (w, Inr ())), pc_setIceServers = (\<lambda>_ w. (w, Inr ())), pc_close = (\<lambda>w. w),
     tr_mid = (\<lambda>t _. Some t), tr_setDirection = (\<lambda>_ _ w. (w, Inr ())), tr_stop = (\<lambda>_ w. w), sender_replaceTrack = (\<lambda>_ _ w. (w, Inr ())),
     sender_getParameters = (\<lambda>_ _. []), sender_setParameters = (\<lambda>_ _ w. (w, Inr ())), on_connect = (\<lambda>_ w. (w, Inr ()))\<rparr>"

definition no_capabilities :: extended_capabilities where
  "no_capabilities = \<lparr>xr_codecs = [], xr_headerExtensions = []\<rparr>"

definition sctp_env :: section_env where
  "sctp_env = dtls_env\<lparr>se_sctp := Some \<lparr>sc_port = Fin 5000, sc_maxMessageSize = Fin 262144\<rparr>\<rparr>"

definition running :: "handler_direction \<Rightarrow> (string list, string) hstate" where
  "running d = fst (h_run echo_host d sctp_env no_capabilities (fresh []))"

definition consumer_of :: "string \<Rightarrow> string option \<Rightarrow> receive_options" where
  "consumer_of trackId mid = \<lparr>rx_trackId = trackId, rx_kind = ''audio'', rx_mid = mid, rx_parameters = stream_offer (Fin 8), rx_streamId = None, rx_watch = True\<rparr>"

definition receive_run :: "handler_call list" where
  "receive_run = [DoReceive [consumer_of ''a'' (Some ''0''), consumer_of ''b'' (Some ''1'')], DoPauseReceiving [''0''],
     DoStopReceiving [''1''], DoReceive [consumer_of ''c'' (Some ''2'')], DoClose]"

lemma running_ok: "h_run echo_host d sctp_env no_capabilities (fresh []) = (running d, Inr ())" "open_env sctp_env"
  by (simp_all add: running_def h_run_def fresh_def io_then_def io_bind_def assertNotClosed_def ask_def read_def check_def ret_def on_handler_def
      modify_def lift_def host_call_def new_Chrome111_def new_RemoteSdp_def sctp_env_def dtls_env_def Let_def echo_host_def open_env_def)

lemma receive_run_fits: "run_fits no_h264 echo_host (running DirRecv) receive_run"
  by code_simp

definition received :: "(string list, string) hstate" where
  "received = foldl (handler_step no_h264 echo_host) (running DirRecv) receive_run"

lemma received_eval:
  "map_option (\<lambda>r. (rs_sessionVersion r, map mo_mid (sdp_media r), rs_bundleMids r)) (sdp_of received) = Some (4, [''0'', ''2''], ''0 2'') \<and>
   hs_log received = [HRemote 1, HConnect RoleClient True, HLocal, HRemote 2, HLocal, HRemote 3, HLocal, HRemote 4, HLocal, HClosed] \<and>
   h_closed (hs_handler received)"
  by code_simp

theorem handler_descriptions_consistent_witness:
  "\<exists>r. sdp_of received = Some r \<and> versions (hs_log received) = [1, 2, 3, 4] \<and> jm_get (rs_midToIndex r) ''2'' = Some 1"
proof -
  from handler_descriptions_consistent [OF running_ok receive_run_fits refl, folded received_def]
  obtain r where "sdp_of received = Some r" "versions (hs_log received) = [1..<Suc (rs_sessionVersion r)]"
    "\<forall>mid i. jm_get (rs_midToIndex r) mid = Some i \<longleftrightarrow> i < length (sdp_media r) \<and> mo_mid (sdp_media r ! i) = mid" by blast
  moreover from this(1) received_eval have "rs_sessionVersion r = 4" "map mo_mid (sdp_media r) = [''0'', ''2'']" by simp_all
  moreover from this(2) have "1 < length (sdp_media r)" "mo_mid (sdp_media r ! 1) = ''2''"
    by (auto simp: map_eq_Cons_conv)
  ultimately show ?thesis by (auto simp: upt_rec)
qed

theorem transport_connected_once_witness:
  "connects (hs_log received) = [(RoleClient, True)] \<and> connected_first (hs_log received)"
  using transport_connected_once [OF running_ok receive_run_fits refl, folded received_def] received_eval
  by (simp add: connects_def)

definition data_request_of :: "string \<Rightarrow> channel_options" where
  "data_request_of label = \<lparr>ch_id = Fin 0, ch_ordered = None, ch_maxPacketLifeTime = None, ch_maxRetransmits = None, ch_label = label, ch_protocol = None\<rparr>"

definition data_run :: "handler_call list" where
  "data_run = [DoSendDataChannel (data_request_of ''x''), DoSendDataChannel (data_request_of ''y'')]"

theorem data_channel_ids_in_turn_witness:
  "channels (hs_log (foldl (handler_step no_h264 echo_host) (running DirSend) data_run)) = [Fin 0, Fin 1]"
proof -
  have fits: "run_fits no_h264 echo_host (running DirSend) data_run" by code_simp
  have len: "length (channels (hs_log (foldl (handler_step no_h264 echo_host) (running DirSend) data_run))) = 2" by code_simp
  from data_channel_ids_in_turn [OF running_ok fits refl, of 0 1] show ?thesis
    by (simp add: len upt_rec)
qed

theorem closed_handler_inert_witness:
  "handler_step no_h264 echo_host received (DoReceive [consumer_of ''d'' None]) = received"
  using closed_handler_inert [of received] received_eval by simp

text \<open>Two consumers without a mid in one batch: both are given the number of transceivers of before, so they share one
  section, and the second takes the place of the first.\<close>

lemma batch_shares_section:
  "let (s, res) = h_receive echo_host [consumer_of ''a'' None, consumer_of ''b'' None] (running DirRecv) in
     res = Inr [(''0'', ''0''), (''0'', ''0'')] \<and> map_option (\<lambda>r. length (sdp_media r)) (sdp_of s) = Some 1"
  by code_simp

text \<open>The same after a consumer was stopped: the number of transceivers is the mid of one that is still there.\<close>

lemma stopped_id_collides:
  "let s = foldl (handler_step no_h264 echo_host) (running DirRecv)
       [DoReceive [consumer_of ''a'' None], DoReceive [consumer_of ''b'' None], DoStopReceiving [''0''], DoReceive [consumer_of ''c'' None]] in
     h_mapMidTransceiver (hs_handler s) = [(Some ''1'', ''1'')] \<and> map_option (\<lambda>r. length (sdp_media r)) (sdp_of s) = Some 2"
  by code_simp

text \<open>When the first attempt to open a data channel fails after its section was made, the next attempt makes another
  section with the same mid.\<close>

definition failing_host :: "(string list, string) host" where
  "failing_host = echo_host\<lparr>pc_setRemoteDescription := (\<lambda>text w. if w = [] then ([text], Inl (OtherError ''failed'')) else (w, Inr ()))\<rparr>"

lemma data_section_duplicated:
  "let s = foldl (handler_step no_h264 failing_host) (running DirRecv)
       [DoReceiveDataChannel (data_request_of ''x''), DoReceiveDataChannel (data_request_of ''x'')] in
     map_option (\<lambda>r. map mo_mid (sdp_media r)) (sdp_of s) = Some [''datachannel'', ''datachannel'']"
  by code_simp

end
