(* ===== verification/UnifiedPlan.thy ===== *)
theory UnifiedPlan
  imports Chrome111Props
begin

text \<open>
  The handlers of older browsers that speak Unified Plan: \<open>handlers/Chrome74.js\<close>,
  \<open>handlers/ReactNativeUnifiedPlan.js\<close> and \<open>handlers/Safari12.js\<close>. Their classes repeat most methods of
  \<open>Chrome111.js\<close> word for word; those are the same functions here. What differs is how a producer's
  encodings are negotiated: by rids, by streams written into the local description, or both.
\<close>

named_theorems same_method

section \<open>Encodings\<close>

definition rid_encodings :: "jsobj list option \<Rightarrow> jsobj list option" where
  "rid_encodings encodings =
     (case encodings of
        Some es \<Rightarrow> if length es > 1 then Some (map (\<lambda>(idx, e). jm_set ''rid'' (VStr (''r'' @ nat_str idx)) e) (enumerate 0 es)) else Some es
      | None \<Rightarrow> None)"

text \<open>\<open>parse((encodings ?? [{}])[0].scalabilityMode)\<close>.\<close>

definition first_layers :: "jsobj list option \<Rightarrow> scalability_mode result" where
  "first_layers encodings =
     (case encodings of
        None \<Rightarrow> Inr (parse_scalability [])
      | Some [] \<Rightarrow> Inl undefined_section
      | Some (e # _) \<Rightarrow> Inr (parse_scalability (case obj_get e ''scalabilityMode'' of VStr s \<Rightarrow> s | _ \<Rightarrow> [])))"

definition first_mime :: "codec_parameters option list \<Rightarrow> string result" where
  "first_mime codecs = (case codecs of Some c # _ \<Rightarrow> Inr (to_lower (cd_mimeType c)) | _ \<Rightarrow> Inl undefined_section)"

text \<open>Effective simulcast of VP8 or H264: every encoding gets a scalability mode.\<close>

definition simulcast_mode :: "scalability_mode \<Rightarrow> jsobj \<Rightarrow> jsobj" where
  "simulcast_mode layers e =
     jm_set ''scalabilityMode'' (VStr (if truthy (obj_get e ''scalabilityMode'') then ''L1T'' @ nat_str (sm_temporalLayers layers) else ''L1T3'')) e"

definition simulcast_modes :: "scalability_mode \<Rightarrow> codec_parameters option list \<Rightarrow> jsobj list \<Rightarrow> jsobj list result" where
  "simulcast_modes layers codecs es =
     (if length es > 1
      then bindr (first_mime codecs) (\<lambda>mime.
        Inr (if mime = ''video/vp8'' \<or> mime = ''video/h264'' then map (simulcast_mode layers) es else es))
      else Inr es)"

text \<open>The streams of legacy simulcast are written into the section of the offer.\<close>

definition legacy_offer :: "('w, 't) host \<Rightarrow> nat \<Rightarrow> nat \<Rightarrow> string \<Rightarrow> string result" where
  "legacy_offer pc idx numStreams offer =
     (let sdp = sdp_parse pc offer
      in if idx < length (so_media sdp)
         then bindr (addLegacySimulcast numStreams (so_media sdp ! idx)) (\<lambda>m.
           Inr (sdp_write_object pc (sdp\<lparr>so_media := (so_media sdp)[idx := m]\<rparr>)))
         else Inl undefined_section)"

text \<open>The end of \<open>send\<close>, once the encodings are known.\<close>

definition send_tail ::
    "bool \<Rightarrow> ('w, 't) host \<Rightarrow> track_kind \<Rightarrow> codec_options option \<Rightarrow> 't prepared \<Rightarrow> media_object \<Rightarrow> jsobj list \<Rightarrow>
     ('w, 't, string option \<times> rtp_parameters \<times> 't) hio" where
  "send_tail extmapAllowMixed pc kind codecOptions p offer es =
     io_bind (ask (\<lambda>h. (h_sending h kind, h_sendingRemote h kind))) (\<lambda>(sending, remote).
     io_bind (on_sdp (send_section extmapAllowMixed offer (snd (pp_place p)) (pp_codecs p) (pp_remoteCodecs p) (rp_headerExtensions remote) codecOptions)) (\<lambda>codecs.
     io_then (set_remote pc)
     (io_then (on_handler (\<lambda>h. h\<lparr>h_mapMidTransceiver := jm_set (pp_localId p) (pp_transceiver p) (h_mapMidTransceiver h)\<rparr>))
       (ret (pp_localId p,
         sending\<lparr>rp_mid := pp_localId p, rp_codecs := codecs, rp_encodings := map VObj es,
           rp_rtcp := jm_set ''cname'' (VStr (getCname offer)) (rp_rtcp sending)\<rparr>,
         pp_transceiver p)))))"

section \<open>Chrome74.js\<close>

text \<open>VP9 with spatial layers needs the streams of legacy simulcast in the local description.\<close>

definition vp9_svc :: "jsobj list option \<Rightarrow> scalability_mode \<Rightarrow> codec_parameters option list \<Rightarrow> bool result" where
  "vp9_svc encodings layers codecs =
     (case encodings of
        Some [e] \<Rightarrow> if sm_spatialLayers layers > 1 then bindr (first_mime codecs) (\<lambda>mime. Inr (mime = ''video/vp9'')) else Inr False
      | _ \<Rightarrow> Inr False)"

definition c74_prepare ::
    "h264 \<Rightarrow> ('w, 't) host \<Rightarrow> track_kind \<Rightarrow> string \<Rightarrow> jsobj list option \<Rightarrow> codec_capability option \<Rightarrow>
     ('w, 't, 't prepared \<times> scalability_mode \<times> bool) hio" where
  "c74_prepare lib pc kind trackId encodings capCodec =
     io_then assertNotClosed
     (io_then assertSendDirection
     (io_bind (ask (\<lambda>h. (h_sending h kind, h_sendingRemote h kind))) (\<lambda>(sending, remote).
     io_bind (lift (reduceCodecs lib (rp_codecs sending) capCodec)) (\<lambda>codecs.
     io_bind (lift (reduceCodecs lib (rp_codecs remote) capCodec)) (\<lambda>remoteCodecs.
     io_bind (on_sdp (\<lambda>r. Inr (r, getNextMediaSectionIdx r))) (\<lambda>place.
     io_bind (host_call (pc_addTransceiver pc kind trackId (rid_encodings encodings))) (\<lambda>transceiver.
     io_bind (host_call (pc_createOffer pc False)) (\<lambda>offer.
     io_then (ensure_transport pc (sdp_parse pc offer))
     (io_bind (lift (first_layers encodings)) (\<lambda>layers.
     io_bind (lift (vp9_svc encodings layers codecs)) (\<lambda>hackVp9Svc.
     io_bind (lift (if hackVp9Svc then legacy_offer pc (fst place) (sm_spatialLayers layers) offer else Inr offer)) (\<lambda>local.
     io_then (set_local pc local)
     (io_bind (look (tr_mid pc transceiver)) (\<lambda>localId.
     io_bind (look (pc_localDescription pc)) (\<lambda>text.
       let media = so_media (sdp_parse pc text)
       in ret (\<lparr>pp_place = place, pp_transceiver = transceiver, pp_localId = localId, pp_codecs = codecs, pp_remoteCodecs = remoteCodecs,
            pp_offer = (if fst place < length media then Some (media ! fst place) else None)\<rparr>, layers, hackVp9Svc))))))))))))))))"

definition c74_encodings ::
    "jsobj list option \<Rightarrow> scalability_mode \<Rightarrow> bool \<Rightarrow> codec_parameters option list \<Rightarrow> media_object \<Rightarrow> jsobj list result" where
  "c74_encodings encodings layers hackVp9Svc codecs offer =
     bindr (sending_encodings (rid_encodings encodings) offer) (\<lambda>es.
       simulcast_modes layers codecs (if hackVp9Svc then take 1 es else es))"

definition c74_finish ::
    "('w, 't) host \<Rightarrow> track_kind \<Rightarrow> jsobj list option \<Rightarrow> codec_options option \<Rightarrow> 't prepared \<times> scalability_mode \<times> bool \<Rightarrow>
     ('w, 't, string option \<times> rtp_parameters \<times> 't) hio" where
  "c74_finish pc kind encodings codecOptions q =
     (case q of (p, layers, hackVp9Svc) \<Rightarrow>
       case pp_offer p of
         None \<Rightarrow> raise undefined_section
       | Some offer \<Rightarrow>
           io_bind (lift (c74_encodings encodings layers hackVp9Svc (pp_codecs p) offer)) (send_tail True pc kind codecOptions p offer))"

definition c74_send ::
    "h264 \<Rightarrow> ('w, 't) host \<Rightarrow> track_kind \<Rightarrow> string \<Rightarrow> jsobj list option \<Rightarrow> codec_options option \<Rightarrow> codec_capability option \<Rightarrow>
     ('w, 't, string option \<times> rtp_parameters \<times> 't) hio" where
  "c74_send lib pc kind trackId encodings codecOptions capCodec =
     io_bind (c74_prepare lib pc kind trackId encodings capCodec) (c74_finish pc kind encodings codecOptions)"

text \<open>\<open>receive\<close> has no callback for the receivers.\<close>

definition c74_receive :: "('w, 't) host \<Rightarrow> receive_options list \<Rightarrow> ('w, 't, (string \<times> 't) list) hio" where
  "c74_receive pc optionsList =
     io_then assertNotClosed
     (io_then assertRecvDirection
     (io_bind (each receive_section optionsList) (\<lambda>ids.
       let mapLocalId = foldl (\<lambda>m (t, i). jm_set t i m) [] ids
       in io_then (set_remote pc)
          (io_bind (host_call (pc_createAnswer pc)) (\<lambda>answer.
          io_bind (lift (apply_answers mapLocalId optionsList (sdp_parse pc answer))) (\<lambda>localSdpObject.
          io_then (ensure_transport pc localSdpObject)
          (io_then (set_local pc (sdp_write_object pc localSdpObject))
            (each (store_receiver pc mapLocalId) optionsList))))))))"

text \<open>\<open>run\<close> does not ask whether the handler is closed.\<close>

definition c74_run :: "('w, 't) host \<Rightarrow> handler_direction \<Rightarrow> section_env \<Rightarrow> extended_capabilities \<Rightarrow> ('w, 't, unit) hio" where
  "c74_run pc direction env extended =
     io_then (on_handler (\<lambda>h. h\<lparr>h_direction := Some direction\<rparr>))
     (io_bind (lift (new_RemoteSdp env)) (\<lambda>r.
     io_then (on_handler (\<lambda>h. h\<lparr>h_remoteSdp := Some r,
         h_sending := (\<lambda>kind. getSendingRtpParameters kind extended),
         h_sendingRemote := (\<lambda>kind. getSendingRemoteRtpParameters kind extended),
         h_forcedLocalDtlsRole := (case se_dtls env of Some d \<Rightarrow> forced_role (dt_role d) | None \<Rightarrow> None)\<rparr>))
     (io_then (host_call (pc_create pc)) (on_handler (\<lambda>h. h\<lparr>h_pc := True\<rparr>)))))"

text \<open>The methods that are those of \<open>Chrome111.js\<close> again.\<close>

definition c74_close :: "('w, 't) host \<Rightarrow> ('w, 't, unit) hio" where
  [same_method]: "c74_close = h_close"

definition c74_updateIceServers :: "('w, 't) host \<Rightarrow> jsval \<Rightarrow> ('w, 't, unit) hio" where
  [same_method]: "c74_updateIceServers = h_updateIceServers"

definition c74_restartIce :: "('w, 't) host \<Rightarrow> ice_parameters \<Rightarrow> ('w, 't, unit) hio" where
  [same_method]: "c74_restartIce = h_restartIce"

definition c74_stopSending :: "('w, 't) host \<Rightarrow> string \<Rightarrow> ('w, 't, unit) hio" where
  [same_method]: "c74_stopSending = h_stopSending"

definition c74_pauseSending :: "('w, 't) host \<Rightarrow> string \<Rightarrow> ('w, 't, unit) hio" where
  [same_method]: "c74_pauseSending = h_pauseSending"

definition c74_resumeSending :: "('w, 't) host \<Rightarrow> string \<Rightarrow> ('w, 't, unit) hio" where
  [same_method]: "c74_resumeSending = h_resumeSending"

definition c74_replaceTrack :: "('w, 't) host \<Rightarrow> string \<Rightarrow> string option \<Rightarrow> ('w, 't, unit) hio" where
  [same_method]: "c74_replaceTrack = h_replaceTrack"

definition c74_setMaxSpatialLayer :: "('w, 't) host \<Rightarrow> string \<Rightarrow> number \<Rightarrow> ('w, 't, unit) hio" where
  [same_method]: "c74_setMaxSpatialLayer = h_setMaxSpatialLayer"

definition c74_setRtpEncodingParameters :: "('w, 't) host \<Rightarrow> string \<Rightarrow> jsobj \<Rightarrow> ('w, 't, unit) hio" where
  [same_method]: "c74_setRtpEncodingParameters = h_setRtpEncodingParameters"

definition c74_sendDataChannel :: "('w, 't) host \<Rightarrow> channel_options \<Rightarrow> ('w, 't, channel_options) hio" where
  [same_method]: "c74_sendDataChannel = h_sendDataChannel SCTP_NUM_STREAMS"

definition c74_stopReceiving :: "('w, 't) host \<Rightarrow> string list \<Rightarrow> ('w, 't, unit) hio" where
  [same_method]: "c74_stopReceiving = h_stopReceiving"

definition c74_pauseReceiving :: "('w, 't) host \<Rightarrow> string list \<Rightarrow> ('w, 't, unit) hio" where
  [same_method]: "c74_pauseReceiving = h_pauseReceiving"

definition c74_resumeReceiving :: "('w, 't) host \<Rightarrow> string list \<Rightarrow> ('w, 't, unit) hio" where
  [same_method]: "c74_resumeReceiving = h_resumeReceiving"

definition c74_receiveDataChannel :: "('w, 't) host \<Rightarrow> channel_options \<Rightarrow> ('w, 't, unit) hio" where
  [same_method]: "c74_receiveDataChannel = h_receiveDataChannel"

fun c74_call :: "h264 \<Rightarrow> ('w, 't) host \<Rightarrow> handler_call \<Rightarrow> ('w, 't, unit) hio" where
  "c74_call lib pc (DoSend kind trackId encodings codecOptions capCodec) = quiet (c74_send lib pc kind trackId encodings codecOptions capCodec)"
| "c74_call lib pc (DoStopSending localId) = c74_stopSending pc localId"
| "c74_call lib pc (DoPauseSending localId) = c74_pauseSending pc localId"
| "c74_call lib pc (DoResumeSending localId) = c74_resumeSending pc localId"
| "c74_call lib pc (DoReplaceTrack localId track) = c74_replaceTrack pc localId track"
| "c74_call lib pc (DoSetMaxSpatialLayer localId layer) = c74_setMaxSpatialLayer pc localId layer"
| "c74_call lib pc (DoSetRtpEncodingParameters localId params) = c74_setRtpEncodingParameters pc localId params"
| "c74_call lib pc (DoSendDataChannel options) = quiet (c74_sendDataChannel pc options)"
| "c74_call lib pc (DoReceive options) = quiet (c74_receive pc options)"
| "c74_call lib pc (DoStopReceiving localIds) = c74_stopReceiving pc localIds"
| "c74_call lib pc (DoPauseReceiving localIds) = c74_pauseReceiving pc localIds"
| "c74_call lib pc (DoResumeReceiving localIds) = c74_resumeReceiving pc localIds"
| "c74_call lib pc (DoReceiveDataChannel options) = c74_receiveDataChannel pc options"
| "c74_call lib pc (DoRestartIce p) = c74_restartIce pc p"
| "c74_call lib pc (DoUpdateIceServers servers) = c74_updateIceServers pc servers"
| "c74_call lib pc DoClose = c74_close pc"

section \<open>ReactNativeUnifiedPlan.js\<close>

text \<open>The mid of the transceiver may be unknown before the remote description is set; it is read again then.\<close>

definition rn_finish ::
    "('w, 't) host \<Rightarrow> track_kind \<Rightarrow> jsobj list option \<Rightarrow> codec_options option \<Rightarrow> 't prepared \<times> scalability_mode \<times> bool \<Rightarrow>
     ('w, 't, string option \<times> rtp_parameters \<times> 't) hio" where
  "rn_finish pc kind encodings codecOptions q =
     (case q of (p, layers, hackVp9Svc) \<Rightarrow>
       case pp_offer p of
         None \<Rightarrow> raise undefined_section
       | Some offer \<Rightarrow>
           io_bind (lift (c74_encodings encodings layers hackVp9Svc (pp_codecs p) offer)) (\<lambda>es.
           io_bind (ask (\<lambda>h. (h_sending h kind, h_sendingRemote h kind))) (\<lambda>(sending, remote).
           io_bind (on_sdp (send_section True offer (snd (pp_place p)) (pp_codecs p) (pp_remoteCodecs p) (rp_headerExtensions remote) codecOptions)) (\<lambda>codecs.
           io_then (set_remote pc)
           (io_bind (look (tr_mid pc (pp_transceiver p))) (\<lambda>mid.
             let localId = (if truthy (opt_str (pp_localId p)) then pp_localId p else mid)
             in io_then (on_handler (\<lambda>h. h\<lparr>h_mapMidTransceiver := jm_set localId (pp_transceiver p) (h_mapMidTransceiver h)\<rparr>))
               (ret (localId,
                 sending\<lparr>rp_mid := localId, rp_codecs := codecs, rp_encodings := map VObj es,
                   rp_rtcp := jm_set ''cname'' (VStr (getCname offer)) (rp_rtcp sending)\<rparr>,
                 pp_transceiver p))))))))"

definition rn_send ::
    "h264 \<Rightarrow> ('w, 't) host \<Rightarrow> track_kind \<Rightarrow> string \<Rightarrow> jsobj list option \<Rightarrow> codec_options option \<Rightarrow> codec_capability option \<Rightarrow>
     ('w, 't, string option \<times> rtp_parameters \<times> 't) hio" where
  "rn_send lib pc kind trackId encodings codecOptions capCodec =
     io_bind (c74_prepare lib pc kind trackId encodings capCodec) (rn_finish pc kind encodings codecOptions)"

text \<open>\<open>close\<close> first releases the native stream; when that throws, the peer connection is left open.\<close>

definition rn_close :: "('w \<Rightarrow> 'w \<times> unit result) \<Rightarrow> ('w, 't) host \<Rightarrow> ('w, 't, unit) hio" where
  "rn_close release pc =
     io_bind (ask h_closed) (\<lambda>c.
       if c then ret ()
       else io_then (on_handler (\<lambda>h. h\<lparr>h_closed := True\<rparr>))
         (io_then (host_call release)
         (io_bind (ask h_pc) (\<lambda>created.
           io_then (if created then host_call (\<lambda>w. (pc_close pc w, Inr ())) else ret ()) (log_event HClosed)))))"

text \<open>The methods that are those of \<open>Chrome111.js\<close> again.\<close>

definition rn_run :: "('w, 't) host \<Rightarrow> handler_direction \<Rightarrow> section_env \<Rightarrow> extended_capabilities \<Rightarrow> ('w, 't, unit) hio" where
  [same_method]: "rn_run = h_run"

definition rn_updateIceServers :: "('w, 't) host \<Rightarrow> jsval \<Rightarrow> ('w, 't, unit) hio" where
  [same_method]: "rn_updateIceServers = h_updateIceServers"

definition rn_restartIce :: "('w, 't) host \<Rightarrow> ice_parameters \<Rightarrow> ('w, 't, unit) hio" where
  [same_method]: "rn_restartIce = h_restartIce"

definition rn_stopSending :: "('w, 't) host \<Rightarrow> string \<Rightarrow> ('w, 't, unit) hio" where
  [same_method]: "rn_stopSending = h_stopSending"

definition rn_pauseSending :: "('w, 't) host \<Rightarrow> string \<Rightarrow> ('w, 't, unit) hio" where
  [same_method]: "rn_pauseSending = h_pauseSending"

definition rn_resumeSending :: "('w, 't) host \<Rightarrow> string \<Rightarrow> ('w, 't, unit) hio" where
  [same_method]: "rn_resumeSending = h_resumeSending"

definition rn_replaceTrack :: "('w, 't) host \<Rightarrow> string \<Rightarrow> string option \<Rightarrow> ('w, 't, unit) hio" where
  [same_method]: "rn_replaceTrack = h_replaceTrack"

definition rn_setMaxSpatialLayer :: "('w, 't) host \<Rightarrow> string \<Rightarrow> number \<Rightarrow> ('w, 't, unit) hio" where
  [same_method]: "rn_setMaxSpatialLayer = h_setMaxSpatialLayer"

definition rn_setRtpEncodingParameters :: "('w, 't) host \<Rightarrow> string \<Rightarrow> jsobj \<Rightarrow> ('w, 't, unit) hio" where
  [same_method]: "rn_setRtpEncodingParameters = h_setRtpEncodingParameters"

definition rn_sendDataChannel :: "('w, 't) host \<Rightarrow> channel_options \<Rightarrow> ('w, 't, channel_options) hio" where
  [same_method]: "rn_sendDataChannel = h_sendDataChannel SCTP_NUM_STREAMS"

definition rn_receive :: "('w, 't) host \<Rightarrow> receive_options list \<Rightarrow> ('w, 't, (string \<times> 't) list) hio" where
  [same_method]: "rn_receive = h_receive"

definition rn_stopReceiving :: "('w, 't) host \<Rightarrow> string list \<Rightarrow> ('w, 't, unit) hio" where
  [same_method]: "rn_stopReceiving = h_stopReceiving"

definition rn_pauseReceiving :: "('w, 't) host \<Rightarrow> string list \<Rightarrow> ('w, 't, unit) hio" where
  [same_method]: "rn_pauseReceiving = h_pauseReceiving"

definition rn_resumeReceiving :: "('w, 't) host \<Rightarrow> string list \<Rightarrow> ('w, 't, unit) hio" where
  [same_method]: "rn_resumeReceiving = h_resumeReceiving"

definition rn_receiveDataChannel :: "('w, 't) host \<Rightarrow> channel_options \<Rightarrow> ('w, 't, unit) hio" where
  [same_method]: "rn_receiveDataChannel = h_receiveDataChannel"

fun rn_call :: "('w \<Rightarrow> 'w \<times> unit result) \<Rightarrow> h264 \<Rightarrow> ('w, 't) host \<Rightarrow> handler_call \<Rightarrow> ('w, 't, unit) hio" where
  "rn_call release lib pc (DoSend kind trackId encodings codecOptions capCodec) = quiet (rn_send lib pc kind trackId encodings codecOptions capCodec)"
| "rn_call release lib pc (DoStopSending localId) = rn_stopSending pc localId"
| "rn_call release lib pc (DoPauseSending localId) = rn_pauseSending pc localId"
| "rn_call release lib pc (DoResumeSending localId) = rn_resumeSending pc localId"
| "rn_call release lib pc (DoReplaceTrack localId track) = rn_replaceTrack pc localId track"
| "rn_call release lib pc (DoSetMaxSpatialLayer localId layer) = rn_setMaxSpatialLayer pc localId layer"
| "rn_call release lib pc (DoSetRtpEncodingParameters localId params) = rn_setRtpEncodingParameters pc localId params"
| "rn_call release lib pc (DoSendDataChannel options) = quiet (rn_sendDataChannel pc options)"
| "rn_call release lib pc (DoReceive options) = quiet (rn_receive pc options)"
| "rn_call release lib pc (DoStopReceiving localIds) = rn_stopReceiving pc localIds"
| "rn_call release lib pc (DoPauseReceiving localIds) = rn_pauseReceiving pc localIds"
| "rn_call release lib pc (DoResumeReceiving localIds) = rn_resumeReceiving pc localIds"
| "rn_call release lib pc (DoReceiveDataChannel options) = rn_receiveDataChannel pc options"
| "rn_call release lib pc (DoRestartIce p) = rn_restartIce pc p"
| "rn_call release lib pc (DoUpdateIceServers servers) = rn_updateIceServers pc servers"
| "rn_call release lib pc DoClose = rn_close release pc"

section \<open>Safari12.js\<close>

text \<open>The encodings are not given to the transceiver: several of them are written into the local description as streams.\<close>

definition sf_prepare ::
    "h264 \<Rightarrow> ('w, 't) host \<Rightarrow> track_kind \<Rightarrow> string \<Rightarrow> jsobj list option \<Rightarrow> codec_capability option \<Rightarrow>
     ('w, 't, 't prepared \<times> scalability_mode) hio" where
  "sf_prepare lib pc kind trackId encodings capCodec =
     io_then assertNotClosed
     (io_then assertSendDirection
     (io_bind (ask (\<lambda>h. (h_sending h kind, h_sendingRemote h kind))) (\<lambda>(sending, remote).
     io_bind (lift (reduceCodecs lib (rp_codecs sending) capCodec)) (\<lambda>codecs.
     io_bind (lift (reduceCodecs lib (rp_codecs remote) capCodec)) (\<lambda>remoteCodecs.
     io_bind (on_sdp (\<lambda>r. Inr (r, getNextMediaSectionIdx r))) (\<lambda>place.
     io_bind (host_call (pc_addTransceiver pc kind trackId None)) (\<lambda>transceiver.
     io_bind (host_call (pc_createOffer pc False)) (\<lambda>offer.
     io_then (ensure_transport pc (sdp_parse pc offer))
     (io_bind (lift (first_layers encodings)) (\<lambda>layers.
     io_bind (lift (case encodings of
         Some es \<Rightarrow> if length es > 1 then legacy_offer pc (fst place) (length es) offer else Inr offer
       | None \<Rightarrow> Inr offer)) (\<lambda>local.
     io_then (set_local pc local)
     (io_bind (look (tr_mid pc transceiver)) (\<lambda>localId.
     io_bind (look (pc_localDescription pc)) (\<lambda>text.
       let media = so_media (sdp_parse pc text)
       in ret (\<lparr>pp_place = place, pp_transceiver = transceiver, pp_localId = localId, pp_codecs = codecs, pp_remoteCodecs = remoteCodecs,
            pp_offer = (if fst place < length media then Some (media ! fst place) else None)\<rparr>, layers)))))))))))))))"

text \<open>The encodings that were read are completed with the given ones, as far as there are such.\<close>

definition complete_encodings :: "jsobj list option \<Rightarrow> jsobj list \<Rightarrow> jsobj list" where
  "complete_encodings encodings found =
     (case encodings of
        None \<Rightarrow> found
      | Some es \<Rightarrow> map (\<lambda>(idx, e). if idx < length es then assign e (es ! idx) else e) (enumerate 0 found))"

definition sf_encodings ::
    "jsobj list option \<Rightarrow> scalability_mode \<Rightarrow> codec_parameters option list \<Rightarrow> media_object \<Rightarrow> jsobj list result" where
  "sf_encodings encodings layers codecs offer =
     bindr (getRtpEncodings offer) (\<lambda>es.
       simulcast_modes layers codecs (complete_encodings encodings (map encoding_object es)))"

definition sf_finish ::
    "('w, 't) host \<Rightarrow> track_kind \<Rightarrow> jsobj list option \<Rightarrow> codec_options option \<Rightarrow> 't prepared \<times> scalability_mode \<Rightarrow>
     ('w, 't, string option \<times> rtp_parameters \<times> 't) hio" where
  "sf_finish pc kind encodings codecOptions q =
     (case pp_offer (fst q) of
        None \<Rightarrow> raise undefined_section
      | Some offer \<Rightarrow>
          io_bind (lift (sf_encodings encodings (snd q) (pp_codecs (fst q)) offer)) (send_tail False pc kind codecOptions (fst q) offer))"

definition sf_send ::
    "h264 \<Rightarrow> ('w, 't) host \<Rightarrow> track_kind \<Rightarrow> string \<Rightarrow> jsobj list option \<Rightarrow> codec_options option \<Rightarrow> codec_capability option \<Rightarrow>
     ('w, 't, string option \<times> rtp_parameters \<times> 't) hio" where
  "sf_send lib pc kind trackId encodings codecOptions capCodec =
     io_bind (sf_prepare lib pc kind trackId encodings capCodec) (sf_finish pc kind encodings codecOptions)"

text \<open>The section is resumed only after the transceiver was found.\<close>

definition sf_resumeSending :: "('w, 't) host \<Rightarrow> string \<Rightarrow> ('w, 't, unit) hio" where
  "sf_resumeSending pc localId =
     io_then assertNotClosed
     (io_then assertSendDirection
     (io_bind (find_transceiver localId) (\<lambda>t.
     io_then (host_call (tr_setDirection pc t ''sendonly''))
     (io_then (on_sdp (\<lambda>r. no_value (resumeSendingMediaSection localId r))) (offer_answer pc False)))))"

text \<open>The methods that are those of \<open>Chrome111.js\<close> again.\<close>

definition sf_close :: "('w, 't) host \<Rightarrow> ('w, 't, unit) hio" where
  [same_method]: "sf_close = h_close"

definition sf_run :: "('w, 't) host \<Rightarrow> handler_direction \<Rightarrow> section_env \<Rightarrow> extended_capabilities \<Rightarrow> ('w, 't, unit) hio" where
  [same_method]: "sf_run = h_run"

definition sf_updateIceServers :: "('w, 't) host \<Rightarrow> jsval \<Rightarrow> ('w, 't, unit) hio" where
  [same_method]: "sf_updateIceServers = h_updateIceServers"

definition sf_restartIce :: "('w, 't) host \<Rightarrow> ice_parameters \<Rightarrow> ('w, 't, unit) hio" where
  [same_method]: "sf_restartIce = h_restartIce"

definition sf_stopSending :: "('w, 't) host \<Rightarrow> string \<Rightarrow> ('w, 't, unit) hio" where
  [same_method]: "sf_stopSending = h_stopSending"

definition sf_pauseSending :: "('w, 't) host \<Rightarrow> string \<Rightarrow> ('w, 't, unit) hio" where
  [same_method]: "sf_pauseSending = h_pauseSending"

definition sf_replaceTrack :: "('w, 't) host \<Rightarrow> string \<Rightarrow> string option \<Rightarrow> ('w, 't, unit) hio" where
  [same_method]: "sf_replaceTrack = h_replaceTrack"

definition sf_setMaxSpatialLayer :: "('w, 't) host \<Rightarrow> string \<Rightarrow> number \<Rightarrow> ('w, 't, unit) hio" where
  [same_method]: "sf_setMaxSpatialLayer = h_setMaxSpatialLayer"

definition sf_setRtpEncodingParameters :: "('w, 't) host \<Rightarrow> string \<Rightarrow> jsobj \<Rightarrow> ('w, 't, unit) hio" where
  [same_method]: "sf_setRtpEncodingParameters = h_setRtpEncodingParameters"

definition sf_sendDataChannel :: "('w, 't) host \<Rightarrow> channel_options \<Rightarrow> ('w, 't, channel_options) hio" where
  [same_method]: "sf_sendDataChannel = h_sendDataChannel SCTP_NUM_STREAMS"

definition sf_receive :: "('w, 't) host \<Rightarrow> receive_options list \<Rightarrow> ('w, 't, (string \<times> 't) list) hio" where
  [same_method]: "sf_receive = h_receive"

definition sf_stopReceiving :: "('w, 't) host \<Rightarrow> string list \<Rightarrow> ('w, 't, unit) hio" where
  [same_method]: "sf_stopReceiving = h_stopReceiving"

definition sf_pauseReceiving :: "('w, 't) host \<Rightarrow> string list \<Rightarrow> ('w, 't, unit) hio" where
  [same_method]: "sf_pauseReceiving = h_pauseReceiving"

definition sf_resumeReceiving :: "('w, 't) host \<Rightarrow> string list \<Rightarrow> ('w, 't, unit) hio" where
  [same_method]: "sf_resumeReceiving = h_resumeReceiving"

definition sf_receiveDataChannel :: "('w, 't) host \<Rightarrow> channel_options \<Rightarrow> ('w, 't, unit) hio" where
  [same_method]: "sf_receiveDataChannel = h_receiveDataChannel"

fun sf_call :: "h264 \<Rightarrow> ('w, 't) host \<Rightarrow> handler_call \<Rightarrow> ('w, 't, unit) hio" where
  "sf_call lib pc (DoSend kind trackId encodings codecOptions capCodec) = quiet (sf_send lib pc kind trackId encodings codecOptions capCodec)"
| "sf_call lib pc (DoStopSending localId) = sf_stopSending pc localId"
| "sf_call lib pc (DoPauseSending localId) = sf_pauseSending pc localId"
| "sf_call lib pc (DoResumeSending localId) = sf_resumeSending pc localId"
| "sf_call lib pc (DoReplaceTrack localId track) = sf_replaceTrack pc localId track"
| "sf_call lib pc (DoSetMaxSpatialLayer localId layer) = sf_setMaxSpatialLayer pc localId layer"
| "sf_call lib pc (DoSetRtpEncodingParameters localId params) = sf_setRtpEncodingParameters pc localId params"
| "sf_call lib pc (DoSendDataChannel options) = quiet (sf_sendDataChannel pc options)"
| "sf_call lib pc (DoReceive options) = quiet (sf_receive pc options)"
| "sf_call lib pc (DoStopReceiving localIds) = sf_stopReceiving pc localIds"
| "sf_call lib pc (DoPauseReceiving localIds) = sf_pauseReceiving pc localIds"
| "sf_call lib pc (DoResumeReceiving localIds) = sf_resumeReceiving pc localIds"
| "sf_call lib pc (DoReceiveDataChannel options) = sf_receiveDataChannel pc options"
| "sf_call lib pc (DoRestartIce p) = sf_restartIce pc p"
| "sf_call lib pc (DoUpdateIceServers servers) = sf_updateIceServers pc servers"
| "sf_call lib pc DoClose = sf_close pc"

section \<open>What the new pieces keep\<close>

lemma ensure_placed:
  "triple (\<lambda>s. hinv cfg False s \<and> placed place s) (ensure_transport pc sdp) (\<lambda>_ s. hinv cfg True s \<and> placed place s) (hinv cfg False)"
  by (rule triple_conj [OF ensure_ready placed_ensure])

lemma asserts_keep:
  "triple (hinv cfg False) assertNotClosed (\<lambda>_. hinv cfg False) (hinv cfg False)"
  "triple (hinv cfg False) assertSendDirection (\<lambda>_. hinv cfg False) (hinv cfg False)"
  using keeping_asserts(1,2) [of cfg False] by (simp_all add: keeping_triple)

lemma host_keep: "triple (hinv cfg b) (host_call f) (\<lambda>_. hinv cfg b) (hinv cfg b)"
  using keeping_host [of cfg b f] by (simp add: keeping_triple)

lemma local_keep: "triple (hinv cfg True) (set_local pc sdp) (\<lambda>_. hinv cfg True) (hinv cfg False)"
  by (rule ready_triple [OF keeping_set_local])

lemma c74_prepare_placed:
  "triple (hinv cfg False) (c74_prepare lib pc kind trackId encodings capCodec)
     (\<lambda>q s. hinv cfg True s \<and> placed (pp_place (fst q)) s) (hinv cfg False)"
  unfolding c74_prepare_def case_prod_beta Let_def ask_def look_def
  by (rule triple_then [OF asserts_keep(1)] triple_then [OF asserts_keep(2)]
      triple_bind [OF place_asked] triple_bind [OF place_host] triple_then [OF ensure_placed]
      triple_then [OF place_local] triple_bind_lift triple_bind_read triple_ret | simp add: hinv_True)+

lemma sf_prepare_placed:
  "triple (hinv cfg False) (sf_prepare lib pc kind trackId encodings capCodec)
     (\<lambda>q s. hinv cfg True s \<and> placed (pp_place (fst q)) s) (hinv cfg False)"
  unfolding sf_prepare_def case_prod_beta Let_def ask_def look_def
  by (rule triple_then [OF asserts_keep(1)] triple_then [OF asserts_keep(2)]
      triple_bind [OF place_asked] triple_bind [OF place_host] triple_then [OF ensure_placed]
      triple_then [OF place_local] triple_bind_lift triple_bind_read triple_ret | simp add: hinv_True)+

text \<open>The section that was prepared is sent.\<close>

lemma section_sent:
  assumes "pp_offer p = Some m"
  shows "triple (\<lambda>s. (hinv cfg True s \<and> placed (pp_place p) s) \<and> section_fits p s)
    (on_sdp (send_section mixed m (snd (pp_place p)) (pp_codecs p) (pp_remoteCodecs p) exts opts)) (\<lambda>_. hinv cfg True) (hinv cfg False)"
  by (rule triple_weaken [OF on_sdp_triple [where b = True and cfg = cfg and P = "\<lambda>s. placed (pp_place p) s \<and> section_fits p s"]])
    (auto simp: placed_def section_fits_def assms hinv_True dest: send_section_sound)

lemma stored:
  "triple (hinv cfg True) (io_then (set_remote pc) (io_then (on_handler (\<lambda>h. h\<lparr>h_mapMidTransceiver := g h\<rparr>)) (ret x))) (\<lambda>_. hinv cfg False) (hinv cfg False)"
proof -
  have "keeping (hinv cfg True) (io_then (set_remote pc) (io_then (on_handler (\<lambda>h. h\<lparr>h_mapMidTransceiver := g h\<rparr>)) (ret x)))"
    by (intro keeps)
  then show ?thesis unfolding keeping_triple by (rule triple_weaken) (simp_all add: hinv_True)
qed

lemma send_tail_keeps:
  assumes "pp_offer p = Some m"
  shows "triple (\<lambda>s. (hinv cfg True s \<and> placed (pp_place p) s) \<and> section_fits p s) (send_tail mixed pc kind opts p m es) (\<lambda>_. hinv cfg False) (hinv cfg False)"
  unfolding send_tail_def case_prod_beta ask_def
  by (rule triple_bind_read triple_bind [OF section_sent [OF assms]] stored)+

lemma triple_offer:
  assumes "\<And>s. P s \<Longrightarrow> E s" "\<And>m es. x = Some m \<Longrightarrow> triple P (tail m es) R E"
  shows "triple P (case x of None \<Rightarrow> raise e | Some m \<Rightarrow> io_bind (lift (f m)) (tail m)) R E"
proof (cases x)
  case None
  then show ?thesis using assms(1) by (simp add: triple_raise)
next
  case (Some m)
  from assms(2) [OF Some] show ?thesis unfolding Some option.case by (intro triple_bind_lift) (auto dest: assms(1))
qed

lemma c74_finish_keeps:
  "triple (\<lambda>s. (hinv cfg True s \<and> placed (pp_place (fst q)) s) \<and> section_fits (fst q) s) (c74_finish pc kind encodings opts q)
     (\<lambda>_. hinv cfg False) (hinv cfg False)"
  unfolding c74_finish_def case_prod_beta by (rule triple_offer) (simp add: hinv_True, rule send_tail_keeps)

lemma sf_finish_keeps:
  "triple (\<lambda>s. (hinv cfg True s \<and> placed (pp_place (fst q)) s) \<and> section_fits (fst q) s) (sf_finish pc kind encodings opts q)
     (\<lambda>_. hinv cfg False) (hinv cfg False)"
  unfolding sf_finish_def by (rule triple_offer) (simp add: hinv_True, rule send_tail_keeps)

lemma rn_finish_keeps:
  "triple (\<lambda>s. (hinv cfg True s \<and> placed (pp_place (fst q)) s) \<and> section_fits (fst q) s) (rn_finish pc kind encodings opts q)
     (\<lambda>_. hinv cfg False) (hinv cfg False)"
proof (cases "pp_offer (fst q)")
  case None
  then show ?thesis unfolding rn_finish_def case_prod_beta None option.case by (intro triple_raise) (simp add: hinv_True)
next
  case (Some m)
  have rest: "triple (hinv cfg True) (io_then (set_remote pc) (io_bind (look f) (\<lambda>mid.
      io_then (on_handler (\<lambda>h. h\<lparr>h_mapMidTransceiver := g mid h\<rparr>)) (ret (x mid))))) (\<lambda>_. hinv cfg False) (hinv cfg False)" for f g x
  proof -
    have "keeping (hinv cfg True) (io_then (set_remote pc) (io_bind (look f) (\<lambda>mid.
      io_then (on_handler (\<lambda>h. h\<lparr>h_mapMidTransceiver := g mid h\<rparr>)) (ret (x mid)))))" by (intro keeps)
    then show ?thesis unfolding keeping_triple by (rule triple_weaken) (simp_all add: hinv_True)
  qed
  show ?thesis unfolding rn_finish_def case_prod_beta Some option.case ask_def Let_def
    by (rule triple_bind_lift triple_bind_read triple_bind [OF section_sent [OF Some]] rest | simp add: hinv_True)+
qed

lemma c74_receive_keeps: "list_all (\<lambda>o'. rx_mid o' \<noteq> Some []) options \<Longrightarrow> keeping (hinv cfg False) (c74_receive pc options)"
  unfolding c74_receive_def Let_def
  by (intro keeping_then keeping_bind keeping_asserts keeping_each_set keeping_receive_section keeping_upgrade_then ensure_ready
      keeping_basic keeping_set_remote keeping_host)
    (auto simp: list_all_iff store_receiver_def intro!: keeps)

lemma sf_resume_keeps: "keeping (hinv cfg False) (sf_resumeSending pc localId)"
  unfolding sf_resumeSending_def by (rule keeps keeping_upgrade [OF find_ready] keeping_on_sdp sound_methods)+

lemma rn_close_keeps: "keeping (hinv cfg False) (rn_close release pc)"
  by (auto simp: rn_close_def intro!: keeps)

section \<open>Runs\<close>

text \<open>When a call fits, for a handler whose \<open>send\<close> and \<open>sendDataChannel\<close> have these first stages.\<close>

fun fits_with ::
    "(track_kind \<Rightarrow> string \<Rightarrow> jsobj list option \<Rightarrow> codec_capability option \<Rightarrow> ('w, 't, 'p) hio) \<Rightarrow> ('p \<Rightarrow> ('w, 't) hstate \<Rightarrow> bool) \<Rightarrow>
     (channel_options \<Rightarrow> ('w, 't, channel_options \<times> media_object option option) hio) \<Rightarrow> ('w, 't) hstate \<Rightarrow> handler_call \<Rightarrow> bool" where
  "fits_with prep ok data s (DoSend kind trackId encodings codecOptions capCodec) =
     (case prep kind trackId encodings capCodec s of (s', Inr p) \<Rightarrow> ok p s' | _ \<Rightarrow> True)"
| "fits_with prep ok data s (DoSendDataChannel options) = (case data options s of (s', Inr p) \<Rightarrow> data_fits p s' | _ \<Rightarrow> True)"
| "fits_with prep ok data s (DoReceive options) = list_all (\<lambda>o'. rx_mid o' \<noteq> Some []) options"
| "fits_with prep ok data s (DoReceiveDataChannel options) = (h_hasDataChannelMediaSection (hs_handler s) \<or> new_mid ''datachannel'' s)"
| "fits_with prep ok data s (DoStopReceiving localIds) = (localIds \<noteq> [])"
| "fits_with prep ok data s (DoPauseReceiving localIds) = (localIds \<noteq> [])"
| "fits_with prep ok data s (DoResumeReceiving localIds) = (localIds \<noteq> [])"
| "fits_with prep ok data s _ = True"

definition c74_fits :: "h264 \<Rightarrow> ('w, 't) host \<Rightarrow> ('w, 't) hstate \<Rightarrow> handler_call \<Rightarrow> bool" where
  "c74_fits lib pc = fits_with (c74_prepare lib pc) (\<lambda>q. section_fits (fst q)) (data_prepare SCTP_NUM_STREAMS pc)"

definition sf_fits :: "h264 \<Rightarrow> ('w, 't) host \<Rightarrow> ('w, 't) hstate \<Rightarrow> handler_call \<Rightarrow> bool" where
  "sf_fits lib pc = fits_with (sf_prepare lib pc) (\<lambda>q. section_fits (fst q)) (data_prepare SCTP_NUM_STREAMS pc)"

lemma c74_send_keeps:
  assumes "hinv cfg False s" "c74_fits lib pc s (DoSend kind trackId encodings opts capCodec)"
  shows "hinv cfg False (fst (c74_send lib pc kind trackId encodings opts capCodec s))"
    "hinv cfg False (fst (rn_send lib pc kind trackId encodings opts capCodec s))"
proof -
  note fits = assms(2) [unfolded c74_fits_def fits_with.simps]
  show "hinv cfg False (fst (c74_send lib pc kind trackId encodings opts capCodec s))"
    unfolding c74_send_def by (rule staged [OF c74_prepare_placed c74_finish_keeps _ assms(1) fits])
  show "hinv cfg False (fst (rn_send lib pc kind trackId encodings opts capCodec s))"
    unfolding rn_send_def by (rule staged [OF c74_prepare_placed rn_finish_keeps _ assms(1) fits])
qed

lemma sf_send_keeps:
  assumes "hinv cfg False s" "sf_fits lib pc s (DoSend kind trackId encodings opts capCodec)"
  shows "hinv cfg False (fst (sf_send lib pc kind trackId encodings opts capCodec s))"
  unfolding sf_send_def
  by (rule staged [OF sf_prepare_placed sf_finish_keeps _ assms(1) assms(2) [unfolded sf_fits_def fits_with.simps]])

text \<open>The calls other than \<open>send\<close>, by the methods of \<open>Chrome111.js\<close>.\<close>

fun is_send :: "handler_call \<Rightarrow> bool" where
  "is_send (DoSend kind trackId encodings codecOptions capCodec) = True"
| "is_send _ = False"

lemma shared_call_keeps:
  assumes "hinv (SCTP_NUM_STREAMS, forced) False s" "fits_with prep ok (data_prepare SCTP_NUM_STREAMS pc) s c" "\<not> is_send c"
  shows "hinv (SCTP_NUM_STREAMS, forced) False (fst (call lib pc c s))"
proof -
  let ?cfg = "(SCTP_NUM_STREAMS, forced)"
  have k: "hinv ?cfg False (fst (m s))" if "keeping (hinv ?cfg False) m" for m :: "('a, 'b, unit) hio"
    using that assms(1) by (simp add: keeping_def)
  show ?thesis
  proof (cases c)
    case (DoSendDataChannel request)
    with send_data_keeps [OF assms(1), of pc request] assms(2) show ?thesis by (simp add: quiet_fst)
  next
    case (DoReceive options)
    with assms(2) receive_keeps [of options ?cfg pc] assms(1) show ?thesis by (simp add: quiet_fst keeping_def)
  next
    case (DoReceiveDataChannel request)
    with assms(2) receive_data_keeps [OF assms(1)] show ?thesis by (simp add: data_expected_def)
  qed (use assms(2,3) in \<open>simp_all add: h_setMaxSpatialLayer_def h_setRtpEncodingParameters_def k keeping_sending keeping_receiving keeping_others\<close>)
qed

interpretation chrome74: sdp_handler "c74_call lib pc" "c74_fits lib pc" "(SCTP_NUM_STREAMS, forced)" for lib pc forced
proof
  fix s :: "('a, 'b) hstate" and c
  assume inv: "hinv (SCTP_NUM_STREAMS, forced) False s" and fits: "c74_fits lib pc s c"
  note shared = shared_call_keeps [OF inv fits [unfolded c74_fits_def], of lib]
  show "hinv (SCTP_NUM_STREAMS, forced) False (fst (c74_call lib pc c s))"
  proof (cases c)
    case (DoSend kind trackId encodings opts capCodec)
    with c74_send_keeps(1) [OF inv] fits show ?thesis by (simp add: quiet_fst)
  next
    case (DoReceive options)
    with fits c74_receive_keeps [of options _ pc] inv show ?thesis by (simp add: quiet_fst c74_fits_def keeping_def)
  qed (use shared in \<open>simp_all add: same_method\<close>)
qed

interpretation react_native: sdp_handler "rn_call release lib pc" "c74_fits lib pc" "(SCTP_NUM_STREAMS, forced)" for release lib pc forced
proof
  fix s :: "('a, 'b) hstate" and c
  assume inv: "hinv (SCTP_NUM_STREAMS, forced) False s" and fits: "c74_fits lib pc s c"
  note shared = shared_call_keeps [OF inv fits [unfolded c74_fits_def], of lib]
  show "hinv (SCTP_NUM_STREAMS, forced) False (fst (rn_call release lib pc c s))"
  proof (cases c)
    case (DoSend kind trackId encodings opts capCodec)
    with c74_send_keeps(2) [OF inv] fits show ?thesis by (simp add: quiet_fst)
  next
    case DoClose
    with rn_close_keeps [of "(SCTP_NUM_STREAMS, forced)" release pc] inv show ?thesis by (simp add: keeping_def)
  qed (use shared in \<open>simp_all add: same_method\<close>)
qed

interpretation safari12: sdp_handler "sf_call lib pc" "sf_fits lib pc" "(SCTP_NUM_STREAMS, forced)" for lib pc forced
proof
  fix s :: "('a, 'b) hstate" and c
  assume inv: "hinv (SCTP_NUM_STREAMS, forced) False s" and fits: "sf_fits lib pc s c"
  note shared = shared_call_keeps [OF inv fits [unfolded sf_fits_def], of lib]
  show "hinv (SCTP_NUM_STREAMS, forced) False (fst (sf_call lib pc c s))"
  proof (cases c)
    case (DoSend kind trackId encodings opts capCodec)
    with sf_send_keeps [OF inv] fits show ?thesis by (simp add: quiet_fst)
  next
    case (DoResumeSending localId)
    with sf_resume_keeps [of "(SCTP_NUM_STREAMS, forced)" pc localId] inv show ?thesis by (simp add: keeping_def)
  qed (use shared in \<open>simp_all add: same_method\<close>)
qed

text \<open>A handler that was told to run meets the invariant.\<close>

lemma started_run:
  assumes "run = h_run pc direction env extended \<or> run = c74_run pc direction env extended" "run (fresh w) = (s, Inr ())" "open_env env"
  shows "hinv (SCTP_NUM_STREAMS, h_forcedLocalDtlsRole (hs_handler s)) False s"
proof -
  obtain r where "new_RemoteSdp env = Inr r" "sdp_of s = Some r" "hs_log s = []" "\<not> h_transportReady (hs_handler s)"
      "h_mapMidTransceiver (hs_handler s) = []" "h_mapRecvLocalIdInfo (hs_handler s) = []" "h_nextSendSctpStreamId (hs_handler s) = 0"
    using assms(1,2)
    by (auto simp: h_run_def c74_run_def fresh_def run_simps sdp_of_def new_Chrome111_def split: sum.splits prod.splits)
  with assms(3) show ?thesis by (intro started_hinv) simp_all
qed

definition handler_sound :: "nat \<Rightarrow> ('w, 't) hstate \<Rightarrow> bool" where
  "handler_sound streams s \<longleftrightarrow> descriptions_consistent s \<and> connected_once s \<and>
     channels (hs_log s) = stream_ids streams (length (channels (hs_log s)))"

text \<open>C16: Over every run of calls of the handler of \<open>Chrome74.js\<close>, with failures of the peer connection and of the listeners at
  any point, the remote description stays consistent with versions that count up by one, the transport is connected at most
  once, with complementary roles and before any local description, and data channels get the stream identifiers in turn,
  as long as the run keeps to these conditions: each section that the peer connection
  offers for a new track has a mid that is not empty and not in the remote description yet, or that of the closed section whose place it takes;
  a call that adds the section of the data channels is made only while the description has no section of that mid, so
  neither \<open>sendDataChannel\<close> nor \<open>receiveDataChannel\<close> is tried again after a negotiation that failed once the section was made
  (\<open>data_section_duplicated\<close> shows what becomes of the description otherwise); no consumer has an empty string as its mid; no
  empty list of consumers is stopped, paused or resumed, which \<open>Transport\<close> never does; and the port of plain RTP parameters, if
  any, is not 0.
\<close>
theorem chrome74_run_sound:
  assumes "c74_run pc direction env extended (fresh w) = (s0, Inr ())" "open_env env" "runs_fit (c74_call lib pc) (c74_fits lib pc) s0 calls"
  shows "handler_sound 1024 (foldl (call_step (c74_call lib pc)) s0 calls)"
proof -
  note start = started_run [OF disjI2 [OF refl] assms(1,2)]
  show ?thesis
    using chrome74.run_descriptions [OF start assms(3)] chrome74.run_connected [OF start assms(3)] chrome74.run_channels [OF start assms(3)]
    by (simp add: handler_sound_def SCTP_NUM_STREAMS_def)
qed

text \<open>The same holds, under the same conditions, of the handler of \<open>Safari12.js\<close>, which writes the streams of simulcast into its local descriptions.\<close>
theorem safari12_run_sound:
  assumes "sf_run pc direction env extended (fresh w) = (s0, Inr ())" "open_env env" "runs_fit (sf_call lib pc) (sf_fits lib pc) s0 calls"
  shows "handler_sound 1024 (foldl (call_step (sf_call lib pc)) s0 calls)"
proof -
  note start = started_run [OF disjI1 [OF refl] assms(1) [unfolded sf_run_def] assms(2)]
  show ?thesis
    using safari12.run_descriptions [OF start assms(3)] safari12.run_connected [OF start assms(3)] safari12.run_channels [OF start assms(3)]
    by (simp add: handler_sound_def SCTP_NUM_STREAMS_def)
qed

text \<open>And of the handler of \<open>ReactNativeUnifiedPlan.js\<close>, even when the release of the native stream throws.\<close>
theorem react_native_run_sound:
  assumes "rn_run pc direction env extended (fresh w) = (s0, Inr ())" "open_env env" "runs_fit (rn_call release lib pc) (c74_fits lib pc) s0 calls"
  shows "handler_sound 1024 (foldl (call_step (rn_call release lib pc)) s0 calls)"
proof -
  note start = started_run [OF disjI1 [OF refl] assms(1) [unfolded rn_run_def] assms(2)]
  show ?thesis
    using react_native.run_descriptions [OF start assms(3)] react_native.run_connected [OF start assms(3)] react_native.run_channels [OF start assms(3)]
    by (simp add: handler_sound_def SCTP_NUM_STREAMS_def)
qed

section \<open>Examples\<close>

lemma legacy_running:
  "c74_run echo_host d sctp_env no_capabilities (fresh []) = (running d, Inr ())"
  "sf_run echo_host d sctp_env no_capabilities (fresh []) = (running d, Inr ())"
  "rn_run echo_host d sctp_env no_capabilities (fresh []) = (running d, Inr ())"
  using running_ok(1) [of d]
  by (simp_all add: same_method c74_run_def h_run_def fresh_def run_simps new_Chrome111_def)

theorem chrome74_run_sound_witness:
  "handler_sound 1024 (foldl (call_step (c74_call no_h264 echo_host)) (running DirRecv) receive_run) \<and>
   versions (hs_log (foldl (call_step (c74_call no_h264 echo_host)) (running DirRecv) receive_run)) = [1, 2, 3, 4]"
proof -
  have "runs_fit (c74_call no_h264 echo_host) (c74_fits no_h264 echo_host) (running DirRecv) receive_run" by code_simp
  moreover have "versions (hs_log (foldl (call_step (c74_call no_h264 echo_host)) (running DirRecv) receive_run)) = [1, 2, 3, 4]" by code_simp
  ultimately show ?thesis using chrome74_run_sound [OF legacy_running(1) running_ok(2)] by simp
qed

theorem safari12_run_sound_witness:
  "handler_sound 1024 (foldl (call_step (sf_call no_h264 echo_host)) (running DirSend) data_run) \<and>
   channels (hs_log (foldl (call_step (sf_call no_h264 echo_host)) (running DirSend) data_run)) = [Fin 0, Fin 1]"
proof -
  have "runs_fit (sf_call no_h264 echo_host) (sf_fits no_h264 echo_host) (running DirSend) data_run" by code_simp
  moreover have "channels (hs_log (foldl (call_step (sf_call no_h264 echo_host)) (running DirSend) data_run)) = [Fin 0, Fin 1]" by code_simp
  ultimately show ?thesis using safari12_run_sound [OF legacy_running(2) running_ok(2)] by simp
qed

definition stuck_release :: "string list \<Rightarrow> string list \<times> unit result" where
  "stuck_release w = (w, Inl (OtherError ''release failed''))"

theorem react_native_run_sound_witness:
  "handler_sound 1024 (foldl (call_step (rn_call stuck_release no_h264 echo_host)) (running DirRecv) receive_run) \<and>
   HClosed \<notin> set (hs_log (foldl (call_step (rn_call stuck_release no_h264 echo_host)) (running DirRecv) receive_run)) \<and>
   h_closed (hs_handler (foldl (call_step (rn_call stuck_release no_h264 echo_host)) (running DirRecv) receive_run))"
proof -
  have "runs_fit (rn_call stuck_release no_h264 echo_host) (c74_fits no_h264 echo_host) (running DirRecv) receive_run" by code_simp
  moreover have "HClosed \<notin> set (hs_log (foldl (call_step (rn_call stuck_release no_h264 echo_host)) (running DirRecv) receive_run)) \<and>
    h_closed (hs_handler (foldl (call_step (rn_call stuck_release no_h264 echo_host)) (running DirRecv) receive_run))" by code_simp
  ultimately show ?thesis using react_native_run_sound [OF legacy_running(3) running_ok(2)] by simp
qed

section \<open>Scalability modes\<close>

text \<open>When simulcast of VP8 or H264 is in effect, the handlers of older browsers leave every encoding with a mode of one
  spatial layer: three temporal layers where none was asked for, and otherwise as many as the first encoding asks for. Nothing
  else of the encodings changes.
\<close>
theorem simulcast_modes_complete:
  assumes "simulcast_modes layers codecs es = Inr es'" "length es > 1" "first_mime codecs = Inr mime" "mime \<in> {''video/vp8'', ''video/h264''}"
    "1 \<le> sm_temporalLayers layers" "sm_temporalLayers layers \<le> 99"
  shows "length es' = length es \<and> (\<forall>i < length es. \<exists>mode.
    obj_get (es' ! i) ''scalabilityMode'' = VStr mode \<and>
    parse_scalability mode = \<lparr>sm_spatialLayers = 1,
      sm_temporalLayers = (if truthy (obj_get (es ! i) ''scalabilityMode'') then sm_temporalLayers layers else 3)\<rparr> \<and>
    (\<forall>k. k \<noteq> ''scalabilityMode'' \<longrightarrow> obj_get (es' ! i) k = obj_get (es ! i) k))"
proof -
  have es': "es' = map (simulcast_mode layers) es"
    using assms(1-4) by (auto simp: simulcast_modes_def)
  have three: "parse_scalability ''L1T3'' = \<lparr>sm_spatialLayers = 1, sm_temporalLayers = 3\<rparr>" by code_simp
  show ?thesis
    using parse_scalability_temporal [OF assms(5,6)] three by (auto simp: es' simulcast_mode_def)
qed

definition vp8_codec :: codec_parameters where
  "vp8_codec = \<lparr>cd_mimeType = ''video/VP8'', cd_clockRate = Fin 90000, cd_channels = None, cd_parameters = [], cd_rtcpFeedback = [],
     cp_payloadType = Some (Fin 96)\<rparr>"

definition asked_modes :: "jsobj list" where
  "asked_modes = [[(''scalabilityMode'', VStr ''L1T2'')], [(''maxBitrate'', VNum (Fin 500000))]]"

theorem simulcast_modes_complete_witness:
  "\<exists>es'. simulcast_modes \<lparr>sm_spatialLayers = 1, sm_temporalLayers = 2\<rparr> [Some vp8_codec] asked_modes = Inr es' \<and>
     obj_get (es' ! 1) ''maxBitrate'' = VNum (Fin 500000) \<and> obj_get (es' ! 1) ''scalabilityMode'' \<noteq> VUndef"
proof -
  have mime: "first_mime [Some vp8_codec] = Inr ''video/vp8''" by code_simp
  have len: "length asked_modes > 1" by (simp add: asked_modes_def)
  then obtain es' where es': "simulcast_modes \<lparr>sm_spatialLayers = 1, sm_temporalLayers = 2\<rparr> [Some vp8_codec] asked_modes = Inr es'"
    by (auto simp: simulcast_modes_def mime)
  have other: "''maxBitrate'' \<noteq> ''scalabilityMode''" by simp
  have pre: "''video/vp8'' \<in> {''video/vp8'', ''video/h264''}" "1 \<le> sm_temporalLayers \<lparr>sm_spatialLayers = 1, sm_temporalLayers = 2\<rparr>"
    "sm_temporalLayers \<lparr>sm_spatialLayers = 1, sm_temporalLayers = 2\<rparr> \<le> 99" by simp_all
  from simulcast_modes_complete [OF es' len mime pre, THEN conjunct2, THEN spec, THEN mp, OF len] obtain mode where
    "obj_get (es' ! 1) ''scalabilityMode'' = VStr mode" and
    rest: "\<forall>k. k \<noteq> ''scalabilityMode'' \<longrightarrow> obj_get (es' ! 1) k = obj_get (asked_modes ! 1) k"
    by (elim exE conjE) (rule that)
  with rest [THEN spec, THEN mp, OF other] have "obj_get (es' ! 1) ''maxBitrate'' = VNum (Fin 500000) \<and> obj_get (es' ! 1) ''scalabilityMode'' \<noteq> VUndef"
    by (simp add: asked_modes_def)
  with es' show ?thesis by blast
qed

text \<open>The number of layers is taken from the first encoding only: when that one asks for none, those that do ask get a single
  temporal layer, whatever they asked for.\<close>

lemma later_modes_lost:
  "first_layers (Some [[], [(''scalabilityMode'', VStr ''L1T2'')]]) = Inr \<lparr>sm_spatialLayers = 1, sm_temporalLayers = 1\<rparr> \<and>
   map (simulcast_mode \<lparr>sm_spatialLayers = 1, sm_temporalLayers = 1\<rparr>) [[], [(''scalabilityMode'', VStr ''L1T2'')]] =
     [[(''scalabilityMode'', VStr ''L1T3'')], [(''scalabilityMode'', VStr ''L1T1'')]]"
  by code_simp

end
