(* ===== verification/Firefox.thy ===== *)
theory Firefox
  imports UnifiedPlan
begin

text \<open>
  The handlers of Firefox, \<open>handlers/Firefox120.js\<close> and \<open>handlers/Firefox60.js\<close>. They are always the DTLS client, never
  reuse the section of a transceiver that was stopped, which is disabled and not closed, and read the section of a new
  transceiver at the end of the local description. The older one takes the encodings in reverse order.
\<close>

section \<open>Firefox120.js\<close>

definition FIREFOX_NUM_STREAMS :: nat where
  "FIREFOX_NUM_STREAMS = 2048"

definition ff_ensure_transport :: "('w, 't) host \<Rightarrow> sdp_object \<Rightarrow> ('w, 't, unit) hio" where
  "ff_ensure_transport pc sdp =
     io_bind (ask h_transportReady) (\<lambda>ready. if ready then ret () else setupTransport pc RoleClient sdp)"

definition ff_find_transceiver :: "string \<Rightarrow> ('w, 't, 't) hio" where
  "ff_find_transceiver = find_object (OtherError ''associated transceiver not found'')"

text \<open>No local role is forced.\<close>

definition ff_run :: "('w, 't) host \<Rightarrow> handler_direction \<Rightarrow> section_env \<Rightarrow> extended_capabilities \<Rightarrow> ('w, 't, unit) hio" where
  "ff_run pc direction env extended =
     io_then assertNotClosed
     (io_then (on_handler (\<lambda>h. h\<lparr>h_direction := Some direction\<rparr>))
     (io_bind (lift (new_RemoteSdp env)) (\<lambda>r.
     io_then (on_handler (\<lambda>h. h\<lparr>h_remoteSdp := Some r,
         h_sending := (\<lambda>kind. getSendingRtpParameters kind extended),
         h_sendingRemote := (\<lambda>kind. getSendingRemoteRtpParameters kind extended)\<rparr>))
     (io_then (host_call (pc_create pc)) (on_handler (\<lambda>h. h\<lparr>h_pc := True\<rparr>))))))"

definition ff_updateIceServers :: "('w, 't) host \<Rightarrow> jsval \<Rightarrow> ('w, 't, unit) hio" where
  "ff_updateIceServers pc servers = io_then assertNotClosed (raise (UnsupportedError ''not supported''))"

definition last_section :: "('w, 't) host \<Rightarrow> string \<Rightarrow> media_object option" where
  "last_section pc text = (let media = so_media (sdp_parse pc text) in if media = [] then None else Some (last media))"

definition ff_prepare ::
    "h264 \<Rightarrow> ('w, 't) host \<Rightarrow> track_kind \<Rightarrow> string \<Rightarrow> jsobj list option \<Rightarrow> codec_capability option \<Rightarrow>
     ('w, 't, 't prepared \<times> scalability_mode) hio" where
  "ff_prepare lib pc kind trackId encodings capCodec =
     io_then assertNotClosed
     (io_then assertSendDirection
     (io_bind (ask (\<lambda>h. (h_sending h kind, h_sendingRemote h kind))) (\<lambda>(sending, remote).
     io_bind (lift (reduceCodecs lib (rp_codecs sending) capCodec)) (\<lambda>codecs.
     io_bind (lift (reduceCodecs lib (rp_codecs remote) capCodec)) (\<lambda>remoteCodecs.
     io_bind (host_call (pc_addTransceiver pc kind trackId (rid_encodings encodings))) (\<lambda>transceiver.
     io_bind (host_call (pc_createOffer pc False)) (\<lambda>offer.
     io_then (ff_ensure_transport pc (sdp_parse pc offer))
     (io_bind (lift (first_layers encodings)) (\<lambda>layers.
     io_then (set_local pc offer)
     (io_bind (look (tr_mid pc transceiver)) (\<lambda>localId.
     io_bind (look (pc_localDescription pc)) (\<lambda>text.
       ret (\<lparr>pp_place = (length (so_media (sdp_parse pc text)) - 1, None), pp_transceiver = transceiver, pp_localId = localId,
            pp_codecs = codecs, pp_remoteCodecs = remoteCodecs, pp_offer = last_section pc text\<rparr>, layers)))))))))))))"

definition ff_encodings ::
    "jsobj list option \<Rightarrow> scalability_mode \<Rightarrow> codec_parameters option list \<Rightarrow> media_object \<Rightarrow> jsobj list result" where
  "ff_encodings encodings layers codecs offer =
     bindr (sending_encodings (rid_encodings encodings) offer) (simulcast_modes layers codecs)"

definition ff_finish ::
    "('w, 't) host \<Rightarrow> track_kind \<Rightarrow> jsobj list option \<Rightarrow> codec_options option \<Rightarrow> 't prepared \<times> scalability_mode \<Rightarrow>
     ('w, 't, string option \<times> rtp_parameters \<times> 't) hio" where
  "ff_finish pc kind encodings codecOptions q =
     (case pp_offer (fst q) of
        None \<Rightarrow> raise undefined_section
      | Some offer \<Rightarrow>
          io_bind (lift (ff_encodings encodings (snd q) (pp_codecs (fst q)) offer)) (send_tail True pc kind codecOptions (fst q) offer))"

definition ff_send ::
    "h264 \<Rightarrow> ('w, 't) host \<Rightarrow> track_kind \<Rightarrow> string \<Rightarrow> jsobj list option \<Rightarrow> codec_options option \<Rightarrow> codec_capability option \<Rightarrow>
     ('w, 't, string option \<times> rtp_parameters \<times> 't) hio" where
  "ff_send lib pc kind trackId encodings codecOptions capCodec =
     io_bind (ff_prepare lib pc kind trackId encodings capCodec) (ff_finish pc kind encodings codecOptions)"

definition disable_section :: "string option \<Rightarrow> ('w, 't, unit) hio" where
  "disable_section mid =
     on_sdp (\<lambda>r. case mid of
        None \<Rightarrow> Inl (OtherError ''no media section found with mid'')
      | Some m \<Rightarrow> no_value (disableMediaSection m r))"

text \<open>The transceiver is not stopped and its section only disabled.\<close>

definition ff_stopSending :: "('w, 't) host \<Rightarrow> string \<Rightarrow> ('w, 't, unit) hio" where
  "ff_stopSending pc localId =
     io_then assertSendDirection
     (io_bind (ask h_closed) (\<lambda>c.
       if c then ret ()
       else io_bind (ff_find_transceiver localId) (\<lambda>t.
         io_then (host_call (\<lambda>w. (fst (sender_replaceTrack pc t None w), Inr ())))
         (io_then (host_call (pc_removeTrack pc t))
         (io_bind (look (tr_mid pc t)) (\<lambda>mid.
         io_then (disable_section mid)
         (io_then (offer_answer pc False)
           (on_handler (\<lambda>h. h\<lparr>h_mapMidTransceiver := jm_delete (Some localId) (h_mapMidTransceiver h)\<rparr>)))))))))"

text \<open>New layers of the sender are set, and the section is told which are active.\<close>

definition ff_set_layers :: "('w, 't) host \<Rightarrow> string \<Rightarrow> (jsobj list \<Rightarrow> jsobj list) \<Rightarrow> ('w, 't, unit) hio" where
  "ff_set_layers pc localId f =
     io_then assertNotClosed
     (io_then assertSendDirection
     (io_bind (ff_find_transceiver localId) (\<lambda>t.
     io_bind (look (sender_getParameters pc t)) (\<lambda>encodings.
     io_then (host_call (sender_setParameters pc t (f encodings)))
     (io_then (on_sdp (\<lambda>r. no_value (muxMediaSectionSimulcast localId (map layer_of (f encodings)) r))) (offer_answer pc False))))))"

definition ff_setMaxSpatialLayer :: "('w, 't) host \<Rightarrow> string \<Rightarrow> number \<Rightarrow> ('w, 't, unit) hio" where
  "ff_setMaxSpatialLayer pc localId spatialLayer = ff_set_layers pc localId (spatial_layers spatialLayer)"

definition ff_sctp_prepare :: "('w, 't) host \<Rightarrow> ('w, 't, media_object option) hio" where
  "ff_sctp_prepare pc =
     io_bind (host_call (pc_createOffer pc False)) (\<lambda>offer.
     io_then (ff_ensure_transport pc (sdp_parse pc offer))
     (io_then (set_local pc offer) (ret (application_section (sdp_parse pc offer)))))"

definition ff_data_prepare :: "('w, 't) host \<Rightarrow> channel_options \<Rightarrow> ('w, 't, channel_options \<times> media_object option option) hio" where
  "ff_data_prepare pc request =
     io_then assertNotClosed
     (io_then assertSendDirection
     (io_bind (open_channel FIREFOX_NUM_STREAMS pc request) (\<lambda>options.
     io_bind (ask h_hasDataChannelMediaSection) (\<lambda>has.
       if has then ret (options, None)
       else io_bind (ff_sctp_prepare pc) (\<lambda>offer. ret (options, Some offer))))))"

definition ff_sendDataChannel :: "('w, 't) host \<Rightarrow> channel_options \<Rightarrow> ('w, 't, channel_options) hio" where
  "ff_sendDataChannel pc request = io_bind (ff_data_prepare pc request) (data_finish pc)"

text \<open>The answer is written anew only when there is something to receive.\<close>

definition ff_receive :: "('w, 't) host \<Rightarrow> receive_options list \<Rightarrow> ('w, 't, (string \<times> 't) list) hio" where
  "ff_receive pc optionsList =
     io_then assertNotClosed
     (io_then assertRecvDirection
     (io_bind (each receive_section optionsList) (\<lambda>ids.
       let mapLocalId = foldl (\<lambda>m (t, i). jm_set t i m) [] ids
       in io_then (set_remote pc)
          (io_then (each (watch_receiver pc mapLocalId) optionsList)
          (io_bind (host_call (pc_createAnswer pc)) (\<lambda>answer.
          io_bind (lift (apply_answers mapLocalId optionsList (sdp_parse pc answer))) (\<lambda>localSdpObject.
          io_then (ff_ensure_transport pc localSdpObject)
          (io_then (set_local pc (if optionsList = [] then answer else sdp_write_object pc localSdpObject))
            (each (store_receiver pc mapLocalId) optionsList)))))))))"

definition ff_receiveDataChannel :: "('w, 't) host \<Rightarrow> channel_options \<Rightarrow> ('w, 't, unit) hio" where
  "ff_receiveDataChannel pc options =
     io_then assertNotClosed
     (io_then assertRecvDirection
     (io_then (host_call (pc_createDataChannel pc options))
     (io_bind (ask h_hasDataChannelMediaSection) (\<lambda>has.
       if has then ret ()
       else io_then (on_sdp (\<lambda>r. no_value (receiveSctpAssociation False r)))
         (io_then (set_remote pc)
         (io_bind (host_call (pc_createAnswer pc)) (\<lambda>answer.
         io_then (ff_ensure_transport pc (sdp_parse pc answer))
         (io_then (set_local pc answer)
           (on_handler (\<lambda>h. h\<lparr>h_hasDataChannelMediaSection := True\<rparr>))))))))))"

definition ff_getNativeRtpCapabilities :: "('w, 't) host \<Rightarrow> string \<Rightarrow> native_capabilities" where
  "ff_getNativeRtpCapabilities pc offer = extractRtpCapabilities (sdp_parse pc offer)"

text \<open>The methods that other handlers have too.\<close>

definition ff_close :: "('w, 't) host \<Rightarrow> ('w, 't, unit) hio" where
  [same_method]: "ff_close = h_close"

definition ff_restartIce :: "('w, 't) host \<Rightarrow> ice_parameters \<Rightarrow> ('w, 't, unit) hio" where
  [same_method]: "ff_restartIce = h_restartIce"

definition ff_pauseSending :: "('w, 't) host \<Rightarrow> string \<Rightarrow> ('w, 't, unit) hio" where
  [same_method]: "ff_pauseSending = h_pauseSending"

definition ff_resumeSending :: "('w, 't) host \<Rightarrow> string \<Rightarrow> ('w, 't, unit) hio" where
  [same_method]: "ff_resumeSending = sf_resumeSending"

definition ff_replaceTrack :: "('w, 't) host \<Rightarrow> string \<Rightarrow> string option \<Rightarrow> ('w, 't, unit) hio" where
  [same_method]: "ff_replaceTrack = h_replaceTrack"

definition ff_setRtpEncodingParameters :: "('w, 't) host \<Rightarrow> string \<Rightarrow> jsobj \<Rightarrow> ('w, 't, unit) hio" where
  [same_method]: "ff_setRtpEncodingParameters = h_setRtpEncodingParameters"

definition ff_stopReceiving :: "('w, 't) host \<Rightarrow> string list \<Rightarrow> ('w, 't, unit) hio" where
  [same_method]: "ff_stopReceiving = h_stopReceiving"

definition ff_pauseReceiving :: "('w, 't) host \<Rightarrow> string list \<Rightarrow> ('w, 't, unit) hio" where
  [same_method]: "ff_pauseReceiving = h_pauseReceiving"

definition ff_resumeReceiving :: "('w, 't) host \<Rightarrow> string list \<Rightarrow> ('w, 't, unit) hio" where
  [same_method]: "ff_resumeReceiving = h_resumeReceiving"

fun ff_call :: "h264 \<Rightarrow> ('w, 't) host \<Rightarrow> handler_call \<Rightarrow> ('w, 't, unit) hio" where
  "ff_call lib pc (DoSend kind trackId encodings codecOptions capCodec) = quiet (ff_send lib pc kind trackId encodings codecOptions capCodec)"
| "ff_call lib pc (DoStopSending localId) = ff_stopSending pc localId"
| "ff_call lib pc (DoPauseSending localId) = ff_pauseSending pc localId"
| "ff_call lib pc (DoResumeSending localId) = ff_resumeSending pc localId"
| "ff_call lib pc (DoReplaceTrack localId track) = ff_replaceTrack pc localId track"
| "ff_call lib pc (DoSetMaxSpatialLayer localId layer) = ff_setMaxSpatialLayer pc localId layer"
| "ff_call lib pc (DoSetRtpEncodingParameters localId params) = ff_setRtpEncodingParameters pc localId params"
| "ff_call lib pc (DoSendDataChannel options) = quiet (ff_sendDataChannel pc options)"
| "ff_call lib pc (DoReceive options) = quiet (ff_receive pc options)"
| "ff_call lib pc (DoStopReceiving localIds) = ff_stopReceiving pc localIds"
| "ff_call lib pc (DoPauseReceiving localIds) = ff_pauseReceiving pc localIds"
| "ff_call lib pc (DoResumeReceiving localIds) = ff_resumeReceiving pc localIds"
| "ff_call lib pc (DoReceiveDataChannel options) = ff_receiveDataChannel pc options"
| "ff_call lib pc (DoRestartIce p) = ff_restartIce pc p"
| "ff_call lib pc (DoUpdateIceServers servers) = ff_updateIceServers pc servers"
| "ff_call lib pc DoClose = ff_close pc"

section \<open>Firefox60.js\<close>

text \<open>The encodings, each with its rid, from high to low.\<close>

definition reversed_encodings :: "jsobj list option \<Rightarrow> jsobj list option" where
  "reversed_encodings encodings =
     map_option (\<lambda>es. rev (map (\<lambda>(idx, e). jm_set ''rid'' (VStr (''r'' @ nat_str idx)) e) (enumerate 0 es))) encodings"

definition ff60_prepare ::
    "h264 \<Rightarrow> ('w, 't) host \<Rightarrow> track_kind \<Rightarrow> string \<Rightarrow> jsobj list option \<Rightarrow> codec_capability option \<Rightarrow>
     ('w, 't, 't prepared \<times> scalability_mode) hio" where
  "ff60_prepare lib pc kind trackId encodings capCodec =
     io_then assertNotClosed
     (io_then assertSendDirection
     (io_bind (ask (\<lambda>h. (h_sending h kind, h_sendingRemote h kind))) (\<lambda>(sending, remote).
     io_bind (lift (reduceCodecs lib (rp_codecs sending) capCodec)) (\<lambda>codecs.
     io_bind (lift (reduceCodecs lib (rp_codecs remote) capCodec)) (\<lambda>remoteCodecs.
     io_bind (host_call (pc_addTransceiver pc kind trackId None)) (\<lambda>transceiver.
     io_then (host_call (case reversed_encodings encodings of
         Some es \<Rightarrow> sender_setParameters pc transceiver es
       | None \<Rightarrow> (\<lambda>w. (w, Inr ()))))
     (io_bind (host_call (pc_createOffer pc False)) (\<lambda>offer.
     io_then (ff_ensure_transport pc (sdp_parse pc offer))
     (io_bind (lift (first_layers (reversed_encodings encodings))) (\<lambda>layers.
     io_then (set_local pc offer)
     (io_bind (look (tr_mid pc transceiver)) (\<lambda>localId.
     io_bind (look (pc_localDescription pc)) (\<lambda>text.
       ret (\<lparr>pp_place = (length (so_media (sdp_parse pc text)) - 1, None), pp_transceiver = transceiver, pp_localId = localId,
            pp_codecs = codecs, pp_remoteCodecs = remoteCodecs, pp_offer = last_section pc text\<rparr>, layers))))))))))))))"

text \<open>Several encodings are turned round again.\<close>

definition ff60_encodings ::
    "jsobj list option \<Rightarrow> scalability_mode \<Rightarrow> codec_parameters option list \<Rightarrow> media_object \<Rightarrow> jsobj list result" where
  "ff60_encodings encodings layers codecs offer =
     bindr (case reversed_encodings encodings of
         None \<Rightarrow> sending_encodings None offer
       | Some es \<Rightarrow> if length es = 1 then sending_encodings (Some es) offer else Inr (rev es))
       (simulcast_modes layers codecs)"

definition ff60_finish ::
    "('w, 't) host \<Rightarrow> track_kind \<Rightarrow> jsobj list option \<Rightarrow> codec_options option \<Rightarrow> 't prepared \<times> scalability_mode \<Rightarrow>
     ('w, 't, string option \<times> rtp_parameters \<times> 't) hio" where
  "ff60_finish pc kind encodings codecOptions q =
     (case pp_offer (fst q) of
        None \<Rightarrow> raise undefined_section
      | Some offer \<Rightarrow>
          io_bind (lift (ff60_encodings encodings (snd q) (pp_codecs (fst q)) offer)) (send_tail True pc kind codecOptions (fst q) offer))"

definition ff60_send ::
    "h264 \<Rightarrow> ('w, 't) host \<Rightarrow> track_kind \<Rightarrow> string \<Rightarrow> jsobj list option \<Rightarrow> codec_options option \<Rightarrow> codec_capability option \<Rightarrow>
     ('w, 't, string option \<times> rtp_parameters \<times> 't) hio" where
  "ff60_send lib pc kind trackId encodings codecOptions capCodec =
     io_bind (ff60_prepare lib pc kind trackId encodings capCodec) (ff60_finish pc kind encodings codecOptions)"

text \<open>The layers of the sender are in reverse order, so the bound is counted from the other end.\<close>

definition ff60_spatial_layers :: "number \<Rightarrow> jsobj list \<Rightarrow> jsobj list" where
  "ff60_spatial_layers spatialLayer es =
     (let bound = js_sub (js_sub (Fin (of_nat (length es))) (Fin 1)) spatialLayer
      in map (\<lambda>(idx, e). jm_set ''active'' (VBool (js_ge (Fin (of_nat idx)) bound)) e) (enumerate 0 es))"

definition ff60_setMaxSpatialLayer :: "('w, 't) host \<Rightarrow> string \<Rightarrow> number \<Rightarrow> ('w, 't, unit) hio" where
  "ff60_setMaxSpatialLayer pc localId spatialLayer = ff_set_layers pc localId (ff60_spatial_layers spatialLayer)"

definition ff60_receive :: "('w, 't) host \<Rightarrow> receive_options list \<Rightarrow> ('w, 't, (string \<times> 't) list) hio" where
  "ff60_receive pc optionsList =
     io_then assertNotClosed
     (io_then assertRecvDirection
     (io_bind (each receive_section optionsList) (\<lambda>ids.
       let mapLocalId = foldl (\<lambda>m (t, i). jm_set t i m) [] ids
       in io_then (set_remote pc)
          (io_bind (host_call (pc_createAnswer pc)) (\<lambda>answer.
          io_bind (lift (apply_answers mapLocalId optionsList (sdp_parse pc answer))) (\<lambda>localSdpObject.
          io_then (ff_ensure_transport pc localSdpObject)
          (io_then (set_local pc (if optionsList = [] then answer else sdp_write_object pc localSdpObject))
            (each (store_receiver pc mapLocalId) optionsList))))))))"

text \<open>The methods that are those of \<open>Firefox120.js\<close> again.\<close>

definition ff60_close :: "('w, 't) host \<Rightarrow> ('w, 't, unit) hio" where
  [same_method]: "ff60_close = h_close"

definition ff60_run :: "('w, 't) host \<Rightarrow> handler_direction \<Rightarrow> section_env \<Rightarrow> extended_capabilities \<Rightarrow> ('w, 't, unit) hio" where
  [same_method]: "ff60_run = ff_run"

definition ff60_updateIceServers :: "('w, 't) host \<Rightarrow> jsval \<Rightarrow> ('w, 't, unit) hio" where
  [same_method]: "ff60_updateIceServers = ff_updateIceServers"

definition ff60_restartIce :: "('w, 't) host \<Rightarrow> ice_parameters \<Rightarrow> ('w, 't, unit) hio" where
  [same_method]: "ff60_restartIce = h_restartIce"

definition ff60_stopSending :: "('w, 't) host \<Rightarrow> string \<Rightarrow> ('w, 't, unit) hio" where
  [same_method]: "ff60_stopSending = ff_stopSending"

definition ff60_pauseSending :: "('w, 't) host \<Rightarrow> string \<Rightarrow> ('w, 't, unit) hio" where
  [same_method]: "ff60_pauseSending = h_pauseSending"

definition ff60_resumeSending :: "('w, 't) host \<Rightarrow> string \<Rightarrow> ('w, 't, unit) hio" where
  [same_method]: "ff60_resumeSending = sf_resumeSending"

definition ff60_replaceTrack :: "('w, 't) host \<Rightarrow> string \<Rightarrow> string option \<Rightarrow> ('w, 't, unit) hio" where
  [same_method]: "ff60_replaceTrack = h_replaceTrack"

definition ff60_setRtpEncodingParameters :: "('w, 't) host \<Rightarrow> string \<Rightarrow> jsobj \<Rightarrow> ('w, 't, unit) hio" where
  [same_method]: "ff60_setRtpEncodingParameters = h_setRtpEncodingParameters"

definition ff60_sendDataChannel :: "('w, 't) host \<Rightarrow> channel_options \<Rightarrow> ('w, 't, channel_options) hio" where
  [same_method]: "ff60_sendDataChannel = ff_sendDataChannel"

definition ff60_stopReceiving :: "('w, 't) host \<Rightarrow> string list \<Rightarrow> ('w, 't, unit) hio" where
  [same_method]: "ff60_stopReceiving = h_stopReceiving"

definition ff60_pauseReceiving :: "('w, 't) host \<Rightarrow> string list \<Rightarrow> ('w, 't, unit) hio" where
  [same_method]: "ff60_pauseReceiving = h_pauseReceiving"

definition ff60_resumeReceiving :: "('w, 't) host \<Rightarrow> string list \<Rightarrow> ('w, 't, unit) hio" where
  [same_method]: "ff60_resumeReceiving = h_resumeReceiving"

definition ff60_receiveDataChannel :: "('w, 't) host \<Rightarrow> channel_options \<Rightarrow> ('w, 't, unit) hio" where
  [same_method]: "ff60_receiveDataChannel = ff_receiveDataChannel"

fun ff60_call :: "h264 \<Rightarrow> ('w, 't) host \<Rightarrow> handler_call \<Rightarrow> ('w, 't, unit) hio" where
  "ff60_call lib pc (DoSend kind trackId encodings codecOptions capCodec) = quiet (ff60_send lib pc kind trackId encodings codecOptions capCodec)"
| "ff60_call lib pc (DoStopSending localId) = ff60_stopSending pc localId"
| "ff60_call lib pc (DoPauseSending localId) = ff60_pauseSending pc localId"
| "ff60_call lib pc (DoResumeSending localId) = ff60_resumeSending pc localId"
| "ff60_call lib pc (DoReplaceTrack localId track) = ff60_replaceTrack pc localId track"
| "ff60_call lib pc (DoSetMaxSpatialLayer localId layer) = ff60_setMaxSpatialLayer pc localId layer"
| "ff60_call lib pc (DoSetRtpEncodingParameters localId params) = ff60_setRtpEncodingParameters pc localId params"
| "ff60_call lib pc (DoSendDataChannel options) = quiet (ff60_sendDataChannel pc options)"
| "ff60_call lib pc (DoReceive options) = quiet (ff60_receive pc options)"
| "ff60_call lib pc (DoStopReceiving localIds) = ff60_stopReceiving pc localIds"
| "ff60_call lib pc (DoPauseReceiving localIds) = ff60_pauseReceiving pc localIds"
| "ff60_call lib pc (DoResumeReceiving localIds) = ff60_resumeReceiving pc localIds"
| "ff60_call lib pc (DoReceiveDataChannel options) = ff60_receiveDataChannel pc options"
| "ff60_call lib pc (DoRestartIce p) = ff60_restartIce pc p"
| "ff60_call lib pc (DoUpdateIceServers servers) = ff60_updateIceServers pc servers"
| "ff60_call lib pc DoClose = ff60_close pc"

section \<open>What the new pieces keep\<close>

text \<open>With no role forced, the role is always that of the client.\<close>

lemma ff_ensure_same:
  assumes "hinv (n, None) b s"
  shows "ff_ensure_transport pc sdp s = ensure_transport pc sdp s"
proof -
  have "local_role (hs_handler s) = RoleClient" using assms by (auto simp: hinv_def handler_ok_def local_role_def)
  then show ?thesis by (simp add: ff_ensure_transport_def ensure_transport_def io_bind_def ask_def read_def)
qed

lemma ff_ensure_ready: "triple (hinv (n, None) False) (ff_ensure_transport pc sdp) (\<lambda>_. hinv (n, None) True) (hinv (n, None) False)"
proof (rule tripleI)
  fix s s' r
  assume inv: "hinv (n, None) False s" and run: "ff_ensure_transport pc sdp s = (s', r)"
  from tripleD [OF ensure_ready inv] run show "case r of Inr x \<Rightarrow> hinv (n, None) True s' | Inl _ \<Rightarrow> hinv (n, None) False s'"
    by (simp add: ff_ensure_same [OF inv])
qed

lemma ff_find_ready: "triple (hinv cfg False) (ff_find_transceiver localId) (\<lambda>_. hinv cfg True) (hinv cfg False)"
  unfolding ff_find_transceiver_def by (rule find_object_ready)

lemma sound_disable: "sound_method (\<lambda>r. case mid of None \<Rightarrow> Inl e | Some m \<Rightarrow> no_value (disableMediaSection m r))"
  by (rule sound_methodI [of _ "\<lambda>_. SdpDisable (the mid)"])
    (auto simp: no_value_def bindr_eq_Inr keep_def disableMediaSection_def on_section_session split: option.splits)

lemma ff_sending_keeps:
  "keeping (hinv cfg False) (ff_stopSending pc localId)"
  "keeping (hinv cfg False) (ff_set_layers pc localId f)"
  "keeping (hinv cfg False) (ff_updateIceServers pc servers)"
  unfolding ff_stopSending_def ff_set_layers_def ff_updateIceServers_def disable_section_def
  by (rule keeps keeping_upgrade [OF ff_find_ready] keeping_on_sdp sound_methods sound_disable)+

text \<open>The section of a new transceiver is added.\<close>

definition section_new :: "'t prepared \<Rightarrow> ('w, 't) hstate \<Rightarrow> bool" where
  "section_new p s \<longleftrightarrow> (case (pp_offer p, sdp_of s) of (Some m, Some r) \<Rightarrow> mid_fits False (mo_mid m) r | _ \<Rightarrow> True)"

lemma send_section_new:
  assumes "send_section mixed m None codecs remote exts opts r = Inr (r', cs)" "sdp_inv r" "mid_fits False (mo_mid m) r"
  shows "sdp_inv r' \<and> same_session r r'"
proof -
  obtain c1 c2 where send: "rs_send m None c1 c2 exts opts mixed r = Inr (r', cs)"
    using assms(1) by (auto simp: send_section_def split: option.splits)
  from send_again_good [OF assms(2,3) this] send_session [OF send] show ?thesis by (simp add: good_def)
qed

lemma section_added:
  assumes "pp_offer p = Some m"
  shows "triple (\<lambda>s. (hinv cfg True s \<and> snd (pp_place p) = None) \<and> section_new p s)
    (on_sdp (send_section mixed m (snd (pp_place p)) (pp_codecs p) (pp_remoteCodecs p) exts opts)) (\<lambda>_. hinv cfg True) (hinv cfg False)"
  by (rule triple_weaken [OF on_sdp_triple [where b = True and cfg = cfg and P = "\<lambda>s. snd (pp_place p) = None \<and> section_new p s"]])
    (auto simp: section_new_def assms hinv_True dest: send_section_new)

lemma ff_tail_keeps:
  assumes "pp_offer p = Some m"
  shows "triple (\<lambda>s. (hinv cfg True s \<and> snd (pp_place p) = None) \<and> section_new p s) (send_tail mixed pc kind opts p m es) (\<lambda>_. hinv cfg False) (hinv cfg False)"
  unfolding send_tail_def case_prod_beta ask_def
  by (rule triple_bind_read triple_bind [OF section_added [OF assms]] stored)+

lemma ff_finish_keeps:
  "triple (\<lambda>s. (hinv cfg True s \<and> snd (pp_place (fst q)) = None) \<and> section_new (fst q) s) (ff_finish pc kind encodings opts q)
     (\<lambda>_. hinv cfg False) (hinv cfg False)"
  "triple (\<lambda>s. (hinv cfg True s \<and> snd (pp_place (fst q)) = None) \<and> section_new (fst q) s) (ff60_finish pc kind encodings opts q)
     (\<lambda>_. hinv cfg False) (hinv cfg False)"
  unfolding ff_finish_def ff60_finish_def
  by (rule triple_offer, simp add: hinv_True, erule ff_tail_keeps)+

lemma ff_prepare_keeps:
  "triple (hinv (n, None) False) (ff_prepare lib pc kind trackId encodings capCodec)
     (\<lambda>q s. hinv (n, None) True s \<and> snd (pp_place (fst q)) = None) (hinv (n, None) False)"
  unfolding ff_prepare_def case_prod_beta ask_def look_def
  by (rule triple_then [OF asserts_keep(1)] triple_then [OF asserts_keep(2)] triple_bind [OF host_keep] triple_then [OF ff_ensure_ready]
      triple_then [OF local_keep] triple_bind_lift triple_bind_read triple_ret | simp add: hinv_True)+

lemma ff60_prepare_keeps:
  "triple (hinv (n, None) False) (ff60_prepare lib pc kind trackId encodings capCodec)
     (\<lambda>q s. hinv (n, None) True s \<and> snd (pp_place (fst q)) = None) (hinv (n, None) False)"
  unfolding ff60_prepare_def case_prod_beta ask_def look_def
  by (rule triple_then [OF asserts_keep(1)] triple_then [OF asserts_keep(2)] triple_bind [OF host_keep] triple_then [OF host_keep]
      triple_then [OF ff_ensure_ready] triple_then [OF local_keep] triple_bind_lift triple_bind_read triple_ret | simp add: hinv_True)+

lemma ff_sctp_ready: "triple (hinv (n, None) False) (ff_sctp_prepare pc) (\<lambda>_. hinv (n, None) True) (hinv (n, None) False)"
  unfolding ff_sctp_prepare_def
  by (rule triple_bind [OF host_keep] triple_then [OF ff_ensure_ready] ready_triple keeps)+

lemma ff_data_prepare_keeps: "keeping (hinv (FIREFOX_NUM_STREAMS, None) False) (ff_data_prepare pc request)"
proof -
  have "keeping (hinv (FIREFOX_NUM_STREAMS, None) False) (ff_sctp_prepare pc)"
    unfolding keeping_triple by (rule triple_weaken [OF ff_sctp_ready]) (simp_all add: hinv_True)
  moreover have "keeping (hinv (FIREFOX_NUM_STREAMS, None) False) (open_channel FIREFOX_NUM_STREAMS pc request)"
    using keeping_open_channel [of "(FIREFOX_NUM_STREAMS, None)" False pc request] by simp
  ultimately show ?thesis unfolding ff_data_prepare_def by (intro keeps)
qed

lemma ff_receive_keeps:
  assumes "list_all (\<lambda>o'. rx_mid o' \<noteq> Some []) options"
  shows "keeping (hinv (n, None) False) (ff_receive pc options)" "keeping (hinv (n, None) False) (ff60_receive pc options)"
  using assms unfolding ff_receive_def ff60_receive_def Let_def watch_receiver_def
  by (intro keeping_then keeping_bind keeping_asserts keeping_each_set keeping_receive_section keeping_upgrade_then ff_ensure_ready
      keeping_if keeping_basic keeping_transceiver_of keeping_set_remote keeping_host; auto simp: list_all_iff store_receiver_def intro!: keeps)+

lemma ff_receive_data_keeps:
  assumes "hinv (n, None) False s" "data_expected s"
  shows "hinv (n, None) False (fst (ff_receiveDataChannel pc options s))"
proof -
  have "keeping (hinv (n, None) False) (io_then (set_remote pc) (io_bind (host_call (pc_createAnswer pc)) (\<lambda>answer.
      io_then (ff_ensure_transport pc (sdp_parse pc answer)) (io_then (set_local pc answer)
        (on_handler (\<lambda>h. h\<lparr>h_hasDataChannelMediaSection := True\<rparr>))))))"
    by (intro keeping_then keeping_bind keeping_upgrade_then ff_ensure_ready keeping_set_remote keeping_host keeping_set_local keeping_fields)
  from triple_fst [OF receive_data_frame [OF this]] assms show ?thesis unfolding ff_receiveDataChannel_def by blast
qed

section \<open>Runs\<close>

text \<open>When a call fits: the section of a new transceiver has a mid that no closed section has.\<close>

definition ff_fits :: "h264 \<Rightarrow> ('w, 't) host \<Rightarrow> ('w, 't) hstate \<Rightarrow> handler_call \<Rightarrow> bool" where
  "ff_fits lib pc = fits_with (ff_prepare lib pc) (\<lambda>q. section_new (fst q)) (ff_data_prepare pc)"

definition ff60_fits :: "h264 \<Rightarrow> ('w, 't) host \<Rightarrow> ('w, 't) hstate \<Rightarrow> handler_call \<Rightarrow> bool" where
  "ff60_fits lib pc = fits_with (ff60_prepare lib pc) (\<lambda>q. section_new (fst q)) (ff_data_prepare pc)"

text \<open>The calls that both handlers answer alike.\<close>

fun own_call :: "handler_call \<Rightarrow> bool" where
  "own_call (DoSend kind trackId encodings codecOptions capCodec) = True"
| "own_call (DoReceive options) = True"
| "own_call (DoSetMaxSpatialLayer localId layer) = True"
| "own_call _ = False"

lemma ff_shared_keeps:
  assumes "hinv (FIREFOX_NUM_STREAMS, None) False s" "fits_with prep ok (ff_data_prepare pc) s c" "\<not> own_call c"
  shows "hinv (FIREFOX_NUM_STREAMS, None) False (fst (ff_call lib pc c s))"
proof -
  let ?I = "hinv (FIREFOX_NUM_STREAMS, None) False"
  have k: "?I (fst (m s))" if "keeping ?I m" for m :: "('a, 'b, unit) hio"
    using that assms(1) by (simp add: keeping_def)
  show ?thesis
  proof (cases c)
    case (DoSendDataChannel request)
    have "?I (fst (ff_sendDataChannel pc request s))"
      unfolding ff_sendDataChannel_def
    proof (rule staged [OF ff_data_prepare_keeps [unfolded keeping_triple] data_finish_keeps _ assms(1)])
      show "case ff_data_prepare pc request s of (s', Inr p) \<Rightarrow> data_fits p s' | _ \<Rightarrow> True"
        using assms(2) DoSendDataChannel by simp
    qed
    with DoSendDataChannel show ?thesis by (simp add: quiet_fst)
  next
    case (DoReceiveDataChannel request)
    with assms(2) ff_receive_data_keeps [OF assms(1)] show ?thesis by (simp add: data_expected_def)
  qed (use assms(2,3) in \<open>simp_all add: same_method h_setRtpEncodingParameters_def k keeping_sending keeping_receiving keeping_others
      ff_sending_keeps sf_resume_keeps\<close>)
qed

interpretation firefox120: sdp_handler "ff_call lib pc" "ff_fits lib pc" "(FIREFOX_NUM_STREAMS, None)" for lib pc
proof
  fix s :: "('a, 'b) hstate" and c
  let ?I = "hinv (FIREFOX_NUM_STREAMS, None) False"
  assume inv: "?I s" and fits: "ff_fits lib pc s c"
  show "?I (fst (ff_call lib pc c s))"
  proof (cases c)
    case (DoSend kind trackId encodings opts capCodec)
    with fits staged [OF ff_prepare_keeps ff_finish_keeps(1) _ inv] show ?thesis by (simp add: quiet_fst ff_send_def ff_fits_def)
  next
    case (DoReceive options)
    with fits ff_receive_keeps(1) [of options _ pc] inv show ?thesis by (simp add: quiet_fst ff_fits_def keeping_def)
  next
    case (DoSetMaxSpatialLayer localId layer)
    with ff_sending_keeps(2) [of _ pc localId] inv show ?thesis by (simp add: ff_setMaxSpatialLayer_def keeping_def)
  qed (use ff_shared_keeps [OF inv fits [unfolded ff_fits_def], of lib] in simp_all)
qed

interpretation firefox60: sdp_handler "ff60_call lib pc" "ff60_fits lib pc" "(FIREFOX_NUM_STREAMS, None)" for lib pc
proof
  fix s :: "('a, 'b) hstate" and c
  let ?I = "hinv (FIREFOX_NUM_STREAMS, None) False"
  assume inv: "?I s" and fits: "ff60_fits lib pc s c"
  show "?I (fst (ff60_call lib pc c s))"
  proof (cases c)
    case (DoSend kind trackId encodings opts capCodec)
    with fits staged [OF ff60_prepare_keeps ff_finish_keeps(2) _ inv] show ?thesis by (simp add: quiet_fst ff60_send_def ff60_fits_def)
  next
    case (DoReceive options)
    with fits ff_receive_keeps(2) [of options _ pc] inv show ?thesis by (simp add: quiet_fst ff60_fits_def keeping_def)
  next
    case (DoSetMaxSpatialLayer localId layer)
    with ff_sending_keeps(2) [of _ pc localId] inv show ?thesis by (simp add: ff60_setMaxSpatialLayer_def keeping_def)
  qed (use ff_shared_keeps [OF inv fits [unfolded ff60_fits_def], of lib] in \<open>simp_all add: same_method\<close>)
qed

lemma ff_started:
  assumes "ff_run pc direction env extended (fresh w) = (s, Inr ())" "open_env env"
  shows "hinv (FIREFOX_NUM_STREAMS, None) False s"
proof -
  obtain r where "new_RemoteSdp env = Inr r" "sdp_of s = Some r" "hs_log s = []" "\<not> h_transportReady (hs_handler s)"
      "h_mapMidTransceiver (hs_handler s) = []" "h_mapRecvLocalIdInfo (hs_handler s) = []" "h_nextSendSctpStreamId (hs_handler s) = 0" "h_forcedLocalDtlsRole (hs_handler s) = None"
    using assms(1) by (auto simp: ff_run_def fresh_def run_simps sdp_of_def new_Chrome111_def split: sum.splits prod.splits)
  with assms(2) show ?thesis by (intro started_hinv) simp_all
qed

text \<open>C17: Over every run of calls of the handler of \<open>Firefox120.js\<close>, with failures of the peer connection and of the listeners at
  any point, the remote description stays consistent, the transport is connected at most once, always as the DTLS client, and
  data channels get the stream identifiers below 2048 in turn, as long as the run keeps to these conditions: each section that the peer connection
  offers for a new track has a mid that is not empty and not in the remote description yet, or that of an open section;
  a call that adds the section of the data channels is made only while the description has no section of that mid, so
  neither \<open>sendDataChannel\<close> nor \<open>receiveDataChannel\<close> is tried again after a negotiation that failed once the section was made
  (\<open>data_section_duplicated\<close> shows what becomes of the description otherwise); no consumer has an empty string as its mid; no
  empty list of consumers is stopped, paused or resumed, which \<open>Transport\<close> never does; and the port of plain RTP parameters, if
  any, is not 0.
\<close>
theorem firefox120_run_sound:
  assumes "ff_run pc direction env extended (fresh w) = (s0, Inr ())" "open_env env" "runs_fit (ff_call lib pc) (ff_fits lib pc) s0 calls"
  shows "handler_sound 2048 (foldl (call_step (ff_call lib pc)) s0 calls) \<and>
    (\<forall>(role, accepted) \<in> set (connects (hs_log (foldl (call_step (ff_call lib pc)) s0 calls))). role = RoleClient)"
proof -
  note start = ff_started [OF assms(1,2)]
  have "\<forall>(role, accepted) \<in> set (connects (hs_log (foldl (call_step (ff_call lib pc)) s0 calls))). role = RoleClient"
    by (rule firefox120.run_handler_ok [OF start assms(3)]) (auto simp: handler_ok_def local_role_def)
  with firefox120.run_descriptions [OF start assms(3)] firefox120.run_connected [OF start assms(3)] firefox120.run_channels [OF start assms(3)]
  show ?thesis by (simp add: handler_sound_def FIREFOX_NUM_STREAMS_def)
qed

text \<open>The same holds, under the same conditions, of the handler of \<open>Firefox60.js\<close>.\<close>
theorem firefox60_run_sound:
  assumes "ff60_run pc direction env extended (fresh w) = (s0, Inr ())" "open_env env" "runs_fit (ff60_call lib pc) (ff60_fits lib pc) s0 calls"
  shows "handler_sound 2048 (foldl (call_step (ff60_call lib pc)) s0 calls)"
proof -
  note start = ff_started [OF assms(1) [unfolded ff60_run_def] assms(2)]
  from firefox60.run_descriptions [OF start assms(3)] firefox60.run_connected [OF start assms(3)] firefox60.run_channels [OF start assms(3)]
  show ?thesis by (simp add: handler_sound_def FIREFOX_NUM_STREAMS_def)
qed

section \<open>Layers in reverse\<close>

lemma js_sub_ints:
  "\<bar>a\<bar> \<le> 2 ^ 53 \<Longrightarrow> \<bar>b\<bar> \<le> 2 ^ 53 \<Longrightarrow> \<bar>a - b\<bar> \<le> 2 ^ 53 \<Longrightarrow> js_sub (Fin (of_int a)) (Fin (of_int b)) = Fin (of_int (a - b))"
  using js_num_of_int [of "a - b"] by (simp add: js_sub_def)

lemma reversed_bound:
  assumes "n \<le> 2 ^ 52" "k \<le> 2 ^ 52"
  shows "js_sub (js_sub (Fin (of_nat n)) (Fin 1)) (Fin (of_nat k)) = Fin (of_int (int n - 1 - int k))"
proof -
  have n: "int n \<le> 2 ^ 52" "int k \<le> 2 ^ 52" using assms by simp_all
  have "js_sub (Fin (of_int (int n))) (Fin (of_int 1)) = Fin (of_int (int n - 1))"
    using n by (intro js_sub_ints) auto
  moreover have "js_sub (Fin (of_int (int n - 1))) (Fin (of_int (int k))) = Fin (of_int (int n - 1 - int k))"
    using n by (intro js_sub_ints) auto
  ultimately show ?thesis by simp
qed

text \<open>The older Firefox keeps a sender's encodings from high to low. Its \<open>setMaxSpatialLayer\<close> has the effect of the
  other handlers' on the encodings in their usual order: with the list turned round before and after, they are
  the same.
\<close>
theorem reversed_spatial_layers:
  assumes "length es \<le> 2 ^ 52" "k \<le> 2 ^ 52"
  shows "ff60_spatial_layers (Fin (of_nat k)) es = rev (spatial_layers (Fin (of_nat k)) (rev es))"
proof (rule nth_equalityI)
  show "length (ff60_spatial_layers (Fin (of_nat k)) es) = length (rev (spatial_layers (Fin (of_nat k)) (rev es)))"
    by (simp add: ff60_spatial_layers_def spatial_layers_def Let_def)
next
  fix i assume "i < length (ff60_spatial_layers (Fin (of_nat k)) es)"
  then have i: "i < length es" by (simp add: ff60_spatial_layers_def Let_def)
  have "ff60_spatial_layers (Fin (of_nat k)) es ! i = jm_set ''active'' (VBool (int (length es) - 1 - int k \<le> int i)) (es ! i)"
    unfolding ff60_spatial_layers_def Let_def reversed_bound [OF assms]
    using i of_int_le_iff [where 'a = rat, of "int (length es) - 1 - int k" "int i"] by (simp add: nth_enumerate_eq)
  moreover have "rev (spatial_layers (Fin (of_nat k)) (rev es)) ! i = jm_set ''active'' (VBool (length es - Suc i \<le> k)) (es ! i)"
    using i by (simp add: spatial_layers_def rev_nth nth_enumerate_eq)
  moreover have "(int (length es) - 1 - int k \<le> int i) = (length es - Suc i \<le> k)" using i by linarith
  ultimately show "ff60_spatial_layers (Fin (of_nat k)) es ! i = rev (spatial_layers (Fin (of_nat k)) (rev es)) ! i" by simp
qed

definition three_layers :: "jsobj list" where
  "three_layers = [[(''rid'', VStr ''r2'')], [(''rid'', VStr ''r1'')], [(''rid'', VStr ''r0'')]]"

theorem reversed_spatial_layers_witness:
  "ff60_spatial_layers (Fin 1) three_layers = rev (spatial_layers (Fin 1) (rev three_layers)) \<and>
   map (\<lambda>e. obj_get e ''active'') (ff60_spatial_layers (Fin 1) three_layers) = [VBool False, VBool True, VBool True]"
proof -
  have "map (\<lambda>e. obj_get e ''active'') (ff60_spatial_layers (Fin 1) three_layers) = [VBool False, VBool True, VBool True]" by code_simp
  with reversed_spatial_layers [of three_layers 1] show ?thesis by (simp add: three_layers_def)
qed

section \<open>Examples\<close>

lemma ff_running:
  "ff_run echo_host d sctp_env no_capabilities (fresh []) = (running d, Inr ())"
  "ff60_run echo_host d sctp_env no_capabilities (fresh []) = (running d, Inr ())"
  by (simp_all add: same_method running_def h_run_def ff_run_def fresh_def run_simps new_Chrome111_def new_RemoteSdp_def sctp_env_def dtls_env_def
      Let_def echo_host_def forced_role_def)

theorem firefox120_run_sound_witness:
  "handler_sound 2048 (foldl (call_step (ff_call no_h264 echo_host)) (running DirRecv) receive_run) \<and>
   connects (hs_log (foldl (call_step (ff_call no_h264 echo_host)) (running DirRecv) receive_run)) = [(RoleClient, True)]"
proof -
  have "runs_fit (ff_call no_h264 echo_host) (ff_fits no_h264 echo_host) (running DirRecv) receive_run" by code_simp
  moreover have "connects (hs_log (foldl (call_step (ff_call no_h264 echo_host)) (running DirRecv) receive_run)) = [(RoleClient, True)]" by code_simp
  ultimately show ?thesis using firefox120_run_sound [OF ff_running(1) running_ok(2)] by simp
qed

theorem firefox60_run_sound_witness:
  "handler_sound 2048 (foldl (call_step (ff60_call no_h264 echo_host)) (running DirSend) data_run) \<and>
   channels (hs_log (foldl (call_step (ff60_call no_h264 echo_host)) (running DirSend) data_run)) = [Fin 0, Fin 1]"
proof -
  have "runs_fit (ff60_call no_h264 echo_host) (ff60_fits no_h264 echo_host) (running DirSend) data_run" by code_simp
  moreover have "channels (hs_log (foldl (call_step (ff60_call no_h264 echo_host)) (running DirSend) data_run)) = [Fin 0, Fin 1]" by code_simp
  ultimately show ?thesis using firefox60_run_sound [OF ff_running(2) running_ok(2)] by simp
qed

end
