(* ===== verification/Chrome70.thy ===== *)
theory Chrome70
  imports UnifiedPlan
begin

text \<open>
  The handler of \<open>handlers/Chrome70.js\<close>: Unified Plan with the streams of simulcast written into the local description. It has no
  closed flag, so its methods do not ask for one, and producers and consumers cannot be paused in it. The methods that the
  Plan-B handlers have too are theirs as well.
\<close>

section \<open>Sending\<close>

text \<open>The streams of several encodings, and of the layers of VP9, are written into the local description.\<close>

definition several_streams :: "('w, 't) host \<Rightarrow> nat \<Rightarrow> jsobj list option \<Rightarrow> string \<Rightarrow> string result" where
  "several_streams pc idx encodings offer =
     (case encodings of
        Some es \<Rightarrow> if length es > 1 then legacy_offer pc idx (length es) offer else Inr offer
      | None \<Rightarrow> Inr offer)"

text \<open>The given encodings are applied to those of the sender, as far as there are such.\<close>

definition desired_encodings :: "jsobj list \<Rightarrow> jsobj list \<Rightarrow> jsobj list" where
  "desired_encodings es current = map (\<lambda>(idx, e). if idx < length es then assign e (es ! idx) else e) (enumerate 0 current)"

definition apply_encodings :: "('w, 't) host \<Rightarrow> 't \<Rightarrow> jsobj list option \<Rightarrow> ('w, 't, unit) hio" where
  "apply_encodings pc t encodings =
     (case encodings of
        None \<Rightarrow> ret ()
      | Some es \<Rightarrow>
          io_bind (look (sender_getParameters pc t)) (\<lambda>current. host_call (sender_setParameters pc t (desired_encodings es current))))"

definition c70_prepare ::
    "h264 \<Rightarrow> ('w, 't) host \<Rightarrow> track_kind \<Rightarrow> string \<Rightarrow> jsobj list option \<Rightarrow> codec_capability option \<Rightarrow>
     ('w, 't, 't prepared \<times> bool) hio" where
  "c70_prepare lib pc kind trackId encodings capCodec =
     io_then assertSendDirection
     (io_bind (ask (\<lambda>h. (h_sending h kind, h_sendingRemote h kind))) (\<lambda>(sending, remote).
     io_bind (lift (reduceCodecs lib (rp_codecs sending) capCodec)) (\<lambda>codecs.
     io_bind (lift (reduceCodecs lib (rp_codecs remote) capCodec)) (\<lambda>remoteCodecs.
     io_bind (on_sdp (\<lambda>r. Inr (r, getNextMediaSectionIdx r))) (\<lambda>place.
     io_bind (host_call (pc_addTransceiver pc kind trackId None)) (\<lambda>transceiver.
     io_bind (host_call (pc_createOffer pc False)) (\<lambda>offer.
     io_then (ensure_transport pc (sdp_parse pc offer))
     (io_bind (lift (several_streams pc (fst place) encodings offer)) (\<lambda>offer1.
     io_bind (lift (first_layers encodings)) (\<lambda>layers.
     io_bind (lift (vp9_svc encodings layers codecs)) (\<lambda>hackVp9Svc.
     io_bind (lift (if hackVp9Svc then legacy_offer pc (fst place) (sm_spatialLayers layers) offer1 else Inr offer1)) (\<lambda>local.
     io_then (set_local pc local)
     (io_then (apply_encodings pc transceiver encodings)
     (io_bind (look (tr_mid pc transceiver)) (\<lambda>localId.
     io_bind (look (pc_localDescription pc)) (\<lambda>text.
       let media = so_media (sdp_parse pc text)
       in ret (\<lparr>pp_place = place, pp_transceiver = transceiver, pp_localId = localId, pp_codecs = codecs, pp_remoteCodecs = remoteCodecs,
            pp_offer = (if fst place < length media then Some (media ! fst place) else None)\<rparr>, hackVp9Svc)))))))))))))))))"

text \<open>Effective simulcast of these codecs has three temporal layers, whatever was asked for.\<close>

definition fixed_modes :: "string list \<Rightarrow> codec_parameters option list \<Rightarrow> jsobj list \<Rightarrow> jsobj list result" where
  "fixed_modes mimes codecs es =
     (if length es > 1
      then bindr (first_mime codecs) (\<lambda>mime.
        Inr (if mime \<in> set mimes then map (jm_set ''scalabilityMode'' (VStr ''L1T3'')) es else es))
      else Inr es)"

definition c70_encodings ::
    "jsobj list option \<Rightarrow> bool \<Rightarrow> codec_parameters option list \<Rightarrow> media_object \<Rightarrow> jsobj list result" where
  "c70_encodings encodings hackVp9Svc codecs offer =
     bindr (getRtpEncodings offer) (\<lambda>found.
       let es = complete_encodings encodings (map encoding_object found)
       in fixed_modes [''video/vp8'', ''video/h264''] codecs (if hackVp9Svc then take 1 es else es))"

definition c70_finish ::
    "('w, 't) host \<Rightarrow> track_kind \<Rightarrow> jsobj list option \<Rightarrow> codec_options option \<Rightarrow> 't prepared \<times> bool \<Rightarrow>
     ('w, 't, string option \<times> rtp_parameters \<times> 't) hio" where
  "c70_finish pc kind encodings codecOptions q =
     (case pp_offer (fst q) of
        None \<Rightarrow> raise undefined_section
      | Some offer \<Rightarrow>
          io_bind (lift (c70_encodings encodings (snd q) (pp_codecs (fst q)) offer)) (send_tail False pc kind codecOptions (fst q) offer))"

definition c70_send ::
    "h264 \<Rightarrow> ('w, 't) host \<Rightarrow> track_kind \<Rightarrow> string \<Rightarrow> jsobj list option \<Rightarrow> codec_options option \<Rightarrow> codec_capability option \<Rightarrow>
     ('w, 't, string option \<times> rtp_parameters \<times> 't) hio" where
  "c70_send lib pc kind trackId encodings codecOptions capCodec =
     io_bind (c70_prepare lib pc kind trackId encodings capCodec) (c70_finish pc kind encodings codecOptions)"

definition c70_stopSending :: "('w, 't) host \<Rightarrow> string \<Rightarrow> ('w, 't, unit) hio" where
  "c70_stopSending pc localId =
     io_then assertSendDirection
     (io_bind (find_transceiver localId) (\<lambda>t.
       io_then (host_call (\<lambda>w. (fst (sender_replaceTrack pc t None w), Inr ())))
       (io_then (host_call (pc_removeTrack pc t))
       (io_bind (look (tr_mid pc t)) (\<lambda>mid.
       io_bind (close_section mid) (\<lambda>closed.
       io_then (if closed then host_call (\<lambda>w. (tr_stop pc t w, Inr ())) else ret ())
       (io_then (offer_answer pc False)
         (on_handler (\<lambda>h. h\<lparr>h_mapMidTransceiver := jm_delete (Some localId) (h_mapMidTransceiver h)\<rparr>)))))))))"

definition c70_pauseSending :: "string \<Rightarrow> ('w, 't, unit) hio" where
  "c70_pauseSending localId = ret ()"

definition c70_resumeSending :: "string \<Rightarrow> ('w, 't, unit) hio" where
  "c70_resumeSending localId = ret ()"

definition c70_replaceTrack :: "('w, 't) host \<Rightarrow> string \<Rightarrow> string option \<Rightarrow> ('w, 't, unit) hio" where
  "c70_replaceTrack pc localId track =
     io_then assertSendDirection (io_bind (find_transceiver localId) (\<lambda>t. host_call (sender_replaceTrack pc t track)))"

definition c70_set_encodings :: "('w, 't) host \<Rightarrow> string \<Rightarrow> (jsobj list \<Rightarrow> jsobj list) \<Rightarrow> ('w, 't, unit) hio" where
  "c70_set_encodings pc localId f =
     io_then assertSendDirection
     (io_bind (find_transceiver localId) (\<lambda>t.
     io_bind (look (sender_getParameters pc t)) (\<lambda>encodings.
     io_then (host_call (sender_setParameters pc t (f encodings)))
     (io_then (on_sdp (\<lambda>r. no_value (muxMediaSectionSimulcast localId (map layer_of (f encodings)) r))) (offer_answer pc False)))))"

definition c70_setMaxSpatialLayer :: "('w, 't) host \<Rightarrow> string \<Rightarrow> number \<Rightarrow> ('w, 't, unit) hio" where
  "c70_setMaxSpatialLayer pc localId spatialLayer = c70_set_encodings pc localId (spatial_layers spatialLayer)"

definition c70_setRtpEncodingParameters :: "('w, 't) host \<Rightarrow> string \<Rightarrow> jsobj \<Rightarrow> ('w, 't, unit) hio" where
  "c70_setRtpEncodingParameters pc localId params = c70_set_encodings pc localId (map (\<lambda>e. assign e params))"

section \<open>Life cycle and data channels\<close>

text \<open>\<open>run\<close> is that of \<open>Chrome74.js\<close>; the Plan-B handlers pass a flag on to the remote description. Closing again closes again.\<close>

definition c70_run :: "('w, 't) host \<Rightarrow> handler_direction \<Rightarrow> section_env \<Rightarrow> extended_capabilities \<Rightarrow> ('w, 't, unit) hio" where
  "c70_run = c74_run"

definition c70_close :: "('w, 't) host \<Rightarrow> ('w, 't, unit) hio" where
  "c70_close pc =
     io_bind (ask h_pc) (\<lambda>created.
       io_then (if created then host_call (\<lambda>w. (pc_close pc w, Inr ())) else ret ()) (log_event HClosed))"

definition c70_updateIceServers :: "('w, 't) host \<Rightarrow> jsval \<Rightarrow> ('w, 't, unit) hio" where
  "c70_updateIceServers pc servers = host_call (pc_setIceServers pc servers)"

definition c70_restartIce :: "('w, 't) host \<Rightarrow> ice_parameters \<Rightarrow> ('w, 't, unit) hio" where
  "c70_restartIce pc iceParameters =
     io_then (on_sdp (\<lambda>r. Inr (updateIceParameters iceParameters r, ())))
     (io_bind (ask h_transportReady) (\<lambda>ready.
       if \<not> ready then ret ()
       else io_bind (ask h_direction) (\<lambda>d.
         if d = Some DirSend then offer_answer pc True else answer_remote pc)))"

text \<open>The channel is also given \<open>maxRetransmitTime\<close>, the old name of \<open>maxPacketLifeTime\<close>, with the same value.\<close>

definition c70_data_prepare :: "('w, 't) host \<Rightarrow> channel_options \<Rightarrow> ('w, 't, channel_options \<times> media_object option option) hio" where
  "c70_data_prepare pc request =
     io_then assertSendDirection
     (io_bind (open_channel SCTP_NUM_STREAMS pc request) (\<lambda>options.
     io_bind (ask h_hasDataChannelMediaSection) (\<lambda>has.
       if has then ret (options, None)
       else io_bind (sctp_prepare pc) (\<lambda>offer. ret (options, Some offer)))))"

definition c70_sendDataChannel :: "('w, 't) host \<Rightarrow> channel_options \<Rightarrow> ('w, 't, channel_options) hio" where
  "c70_sendDataChannel pc request = io_bind (c70_data_prepare pc request) (data_finish pc)"

definition receive_data :: "bool \<Rightarrow> ('w, 't) host \<Rightarrow> channel_options \<Rightarrow> ('w, 't, unit) hio" where
  "receive_data oldDataChannelSpec pc options =
     io_then assertRecvDirection
     (io_then (host_call (pc_createDataChannel pc options))
     (io_bind (ask h_hasDataChannelMediaSection) (\<lambda>has.
       if has then ret ()
       else io_then (on_sdp (\<lambda>r. no_value (receiveSctpAssociation oldDataChannelSpec r)))
         (io_then (set_remote pc)
         (io_bind (host_call (pc_createAnswer pc)) (\<lambda>answer.
         io_then (ensure_transport pc (sdp_parse pc answer))
         (io_then (set_local pc answer)
           (on_handler (\<lambda>h. h\<lparr>h_hasDataChannelMediaSection := True\<rparr>)))))))))"

definition c70_receiveDataChannel :: "('w, 't) host \<Rightarrow> channel_options \<Rightarrow> ('w, 't, unit) hio" where
  "c70_receiveDataChannel = receive_data False"

section \<open>Receiving\<close>

definition c70_receive :: "('w, 't) host \<Rightarrow> receive_options list \<Rightarrow> ('w, 't, (string \<times> 't) list) hio" where
  "c70_receive pc optionsList =
     io_then assertRecvDirection
     (io_bind (each receive_section optionsList) (\<lambda>ids.
       let mapLocalId = foldl (\<lambda>m (t, i). jm_set t i m) [] ids
       in io_then (set_remote pc)
          (io_bind (host_call (pc_createAnswer pc)) (\<lambda>answer.
          io_bind (lift (apply_answers mapLocalId optionsList (sdp_parse pc answer))) (\<lambda>localSdpObject.
          io_then (ensure_transport pc localSdpObject)
          (io_then (set_local pc (sdp_write_object pc localSdpObject))
            (each (store_receiver pc mapLocalId) optionsList)))))))"

definition c70_stopReceiving :: "('w, 't) host \<Rightarrow> string list \<Rightarrow> ('w, 't, unit) hio" where
  "c70_stopReceiving pc localIds =
     io_then assertRecvDirection
     (io_then (each (\<lambda>localId. io_bind (find_transceiver localId) (\<lambda>t. io_bind (look (tr_mid pc t)) close_section)) localIds)
     (io_then (answer_remote pc)
       (on_handler (\<lambda>h. h\<lparr>h_mapMidTransceiver := foldl (\<lambda>m i. jm_delete (Some i) m) (h_mapMidTransceiver h) localIds\<rparr>))))"

definition c70_pauseReceiving :: "string list \<Rightarrow> ('w, 't, unit) hio" where
  "c70_pauseReceiving localIds = ret ()"

definition c70_resumeReceiving :: "string list \<Rightarrow> ('w, 't, unit) hio" where
  "c70_resumeReceiving localIds = ret ()"

fun c70_call :: "h264 \<Rightarrow> ('w, 't) host \<Rightarrow> handler_call \<Rightarrow> ('w, 't, unit) hio" where
  "c70_call lib pc (DoSend kind trackId encodings codecOptions capCodec) = quiet (c70_send lib pc kind trackId encodings codecOptions capCodec)"
| "c70_call lib pc (DoStopSending localId) = c70_stopSending pc localId"
| "c70_call lib pc (DoPauseSending localId) = c70_pauseSending localId"
| "c70_call lib pc (DoResumeSending localId) = c70_resumeSending localId"
| "c70_call lib pc (DoReplaceTrack localId track) = c70_replaceTrack pc localId track"
| "c70_call lib pc (DoSetMaxSpatialLayer localId layer) = c70_setMaxSpatialLayer pc localId layer"
| "c70_call lib pc (DoSetRtpEncodingParameters localId params) = c70_setRtpEncodingParameters pc localId params"
| "c70_call lib pc (DoSendDataChannel options) = quiet (c70_sendDataChannel pc options)"
| "c70_call lib pc (DoReceive options) = quiet (c70_receive pc options)"
| "c70_call lib pc (DoStopReceiving localIds) = c70_stopReceiving pc localIds"
| "c70_call lib pc (DoPauseReceiving localIds) = c70_pauseReceiving localIds"
| "c70_call lib pc (DoResumeReceiving localIds) = c70_resumeReceiving localIds"
| "c70_call lib pc (DoReceiveDataChannel options) = c70_receiveDataChannel pc options"
| "c70_call lib pc (DoRestartIce p) = c70_restartIce pc p"
| "c70_call lib pc (DoUpdateIceServers servers) = c70_updateIceServers pc servers"
| "c70_call lib pc DoClose = c70_close pc"

section \<open>What the methods keep\<close>

lemma place_ready_host: "triple (\<lambda>s. hinv cfg True s \<and> placed place s) (host_call f) (\<lambda>_ s. hinv cfg True s \<and> placed place s) (hinv cfg False)"
  by (rule triple_weaken [OF triple_conj [OF keeping_host [of cfg True, unfolded keeping_triple] placed_host]]) (simp_all add: hinv_True)

lemma apply_encodings_placed:
  "triple (\<lambda>s. hinv cfg True s \<and> placed place s) (apply_encodings pc t encodings) (\<lambda>_ s. hinv cfg True s \<and> placed place s) (hinv cfg False)"
  unfolding apply_encodings_def look_def
  by (cases encodings) (simp_all add: triple_ret triple_bind_read place_ready_host)

lemma c70_prepare_placed:
  "triple (hinv cfg False) (c70_prepare lib pc kind trackId encodings capCodec)
     (\<lambda>q s. hinv cfg True s \<and> placed (pp_place (fst q)) s) (hinv cfg False)"
  unfolding c70_prepare_def case_prod_beta Let_def ask_def look_def
  by (rule triple_then [OF asserts_keep(2)]
      triple_bind [OF place_asked] triple_bind [OF place_host] triple_then [OF ensure_placed]
      triple_then [OF place_local] triple_then [OF apply_encodings_placed] triple_bind_lift triple_bind_read triple_ret | simp add: hinv_True)+

lemma c70_finish_keeps:
  "triple (\<lambda>s. (hinv cfg True s \<and> placed (pp_place (fst q)) s) \<and> section_fits (fst q) s) (c70_finish pc kind encodings opts q)
     (\<lambda>_. hinv cfg False) (hinv cfg False)"
  unfolding c70_finish_def by (rule triple_offer) (simp add: hinv_True, rule send_tail_keeps)

lemma c70_sending_keeps:
  "keeping (hinv cfg False) (c70_stopSending pc localId)"
  "keeping (hinv cfg False) (c70_replaceTrack pc localId track)"
  "keeping (hinv cfg False) (c70_set_encodings pc localId f)"
  unfolding c70_stopSending_def c70_replaceTrack_def c70_set_encodings_def
  by (rule keeps keeping_upgrade [OF find_ready] keeping_on_sdp sound_methods)+

lemma restart_keeps: "keeping (hinv cfg False) (c70_restartIce pc p)"
  unfolding c70_restartIce_def by (rule keeping_restart)

lemma c70_others_keep:
  "keeping (hinv cfg False) (c70_updateIceServers pc servers)" "keeping (hinv cfg False) (c70_close pc)"
  "keeping (hinv cfg False) (c70_pauseSending localId)" "keeping (hinv cfg False) (c70_resumeSending localId)"
  "keeping (hinv cfg False) (c70_pauseReceiving localIds)" "keeping (hinv cfg False) (c70_resumeReceiving localIds)"
  by (auto simp: c70_updateIceServers_def c70_close_def c70_pauseSending_def c70_resumeSending_def c70_pauseReceiving_def c70_resumeReceiving_def
      intro!: keeps)

lemma c70_data_prepare_keeps: "keeping (hinv (SCTP_NUM_STREAMS, forced) False) (c70_data_prepare pc request)"
proof -
  have "keeping (hinv (SCTP_NUM_STREAMS, forced) False) (sctp_prepare pc)"
    unfolding keeping_triple by (rule triple_weaken [OF sctp_prepare_ready]) (simp_all add: hinv_True)
  moreover have "keeping (hinv (SCTP_NUM_STREAMS, forced) False) (open_channel SCTP_NUM_STREAMS pc request)"
    using keeping_open_channel [of "(SCTP_NUM_STREAMS, forced)" False pc request] by simp
  ultimately show ?thesis unfolding c70_data_prepare_def by (intro keeps)
qed

lemma c70_send_data_keeps:
  assumes "hinv (SCTP_NUM_STREAMS, forced) False s" "case c70_data_prepare pc request s of (s', Inr p) \<Rightarrow> data_fits p s' | _ \<Rightarrow> True"
  shows "hinv (SCTP_NUM_STREAMS, forced) False (fst (c70_sendDataChannel pc request s))"
  unfolding c70_sendDataChannel_def
  by (rule staged [OF c70_data_prepare_keeps [unfolded keeping_triple] data_finish_keeps _ assms]) simp

lemma receive_data_sound:
  assumes "hinv cfg False s" "data_expected s"
  shows "hinv cfg False (fst (receive_data old pc options s))"
proof -
  have "keeping (hinv cfg False) (io_then (set_remote pc) (io_bind (host_call (pc_createAnswer pc)) (\<lambda>answer.
      io_then (ensure_transport pc (sdp_parse pc answer)) (io_then (set_local pc answer)
        (on_handler (\<lambda>h. h\<lparr>h_hasDataChannelMediaSection := True\<rparr>))))))"
    by (intro keeping_then keeping_bind keeping_upgrade_then ensure_ready keeping_set_remote keeping_host keeping_set_local keeping_fields)
  from triple_fst [OF receive_data_core [OF this]] assms show ?thesis unfolding receive_data_def by blast
qed

lemma c70_receive_keeps: "list_all (\<lambda>o'. rx_mid o' \<noteq> Some []) options \<Longrightarrow> keeping (hinv cfg False) (c70_receive pc options)"
  unfolding c70_receive_def Let_def
  by (intro keeping_then keeping_bind keeping_asserts keeping_each_set keeping_receive_section keeping_upgrade_then ensure_ready
      keeping_basic keeping_set_remote keeping_host)
    (auto simp: list_all_iff store_receiver_def intro!: keeps)

lemma c70_stopReceiving_keeps: "localIds \<noteq> [] \<Longrightarrow> keeping (hinv cfg False) (c70_stopReceiving pc localIds)"
  unfolding c70_stopReceiving_def
  by (intro keeping_then keeping_asserts keeping_upgrade_then each_upgrade found_upgrade keeps; assumption)

definition c70_fits :: "h264 \<Rightarrow> ('w, 't) host \<Rightarrow> ('w, 't) hstate \<Rightarrow> handler_call \<Rightarrow> bool" where
  "c70_fits lib pc = fits_with (c70_prepare lib pc) (\<lambda>q. section_fits (fst q)) (c70_data_prepare pc)"

interpretation chrome70: sdp_handler "c70_call lib pc" "c70_fits lib pc" "(SCTP_NUM_STREAMS, forced)" for lib pc forced
proof
  fix s :: "('a, 'b) hstate" and c
  let ?I = "hinv (SCTP_NUM_STREAMS, forced) False"
  assume inv: "?I s" and fits: "c70_fits lib pc s c"
  have k: "?I (fst (m s))" if "keeping ?I m" for m :: "('a, 'b, unit) hio"
    using that inv by (simp add: keeping_def)
  show "?I (fst (c70_call lib pc c s))"
  proof (cases c)
    case (DoSend kind trackId encodings opts capCodec)
    with fits staged [OF c70_prepare_placed c70_finish_keeps _ inv] show ?thesis by (simp add: quiet_fst c70_send_def c70_fits_def)
  next
    case (DoSendDataChannel request)
    with fits c70_send_data_keeps [OF inv] show ?thesis by (simp add: quiet_fst c70_fits_def)
  next
    case (DoReceive options)
    with fits c70_receive_keeps [of options _ pc] inv show ?thesis by (simp add: quiet_fst c70_fits_def keeping_def)
  next
    case (DoReceiveDataChannel request)
    with fits receive_data_sound [OF inv] show ?thesis by (simp add: c70_fits_def data_expected_def c70_receiveDataChannel_def)
  qed (use fits in \<open>simp_all add: c70_fits_def k c70_setMaxSpatialLayer_def c70_setRtpEncodingParameters_def c70_sending_keeps restart_keeps
      c70_others_keep c70_stopReceiving_keeps\<close>)
qed

text \<open>The handler of \<open>Chrome70.js\<close> keeps its descriptions and its transport in order like the others.\<close>
theorem chrome70_run_sound:
  assumes "c70_run pc direction env extended (fresh w) = (s0, Inr ())" "open_env env" "runs_fit (c70_call lib pc) (c70_fits lib pc) s0 calls"
  shows "handler_sound 1024 (foldl (call_step (c70_call lib pc)) s0 calls)"
proof -
  note start = started_run [OF disjI2 [OF refl] assms(1) [unfolded c70_run_def] assms(2)]
  show ?thesis
    using chrome70.run_descriptions [OF start assms(3)] chrome70.run_connected [OF start assms(3)] chrome70.run_channels [OF start assms(3)]
    by (simp add: handler_sound_def SCTP_NUM_STREAMS_def)
qed

theorem chrome70_run_sound_witness:
  "handler_sound 1024 (foldl (call_step (c70_call no_h264 echo_host)) (running DirRecv) receive_run) \<and>
   versions (hs_log (foldl (call_step (c70_call no_h264 echo_host)) (running DirRecv) receive_run)) = [1, 2, 3]"
proof -
  have "runs_fit (c70_call no_h264 echo_host) (c70_fits no_h264 echo_host) (running DirRecv) receive_run" by code_simp
  moreover have "versions (hs_log (foldl (call_step (c70_call no_h264 echo_host)) (running DirRecv) receive_run)) = [1, 2, 3]" by code_simp
  ultimately show ?thesis using chrome70_run_sound [OF legacy_running(1) [folded c70_run_def] running_ok(2)] by simp
qed

end
