(* ===== verification/PlanB.thy ===== *)
theory PlanB
  imports Chrome70
begin

text \<open>
  The handlers of browsers before Unified Plan: \<open>handlers/Chrome67.js\<close>, \<open>Safari11.js\<close>, \<open>Chrome55.js\<close> and \<open>ReactNative.js\<close>. All tracks of
  one kind share a section of the description. Senders are known by a number of their own, in the map that the other
  handlers keep their transceivers in; receivers by the identifier of their track.
\<close>

section \<open>The host\<close>

text \<open>What these handlers ask of the browser besides: senders and receivers by their track, the tracks of a remote stream,
  whether an offer is pending, a random number.\<close>

record ('w, 't) planb_host =
  pb_pc :: "('w, 't) host"
  pb_addTrack :: "string \<Rightarrow> 'w \<Rightarrow> 'w \<times> unit result"
  pb_addStream :: "string list \<Rightarrow> 'w \<Rightarrow> 'w \<times> unit result"
  pb_senderOf :: "string \<Rightarrow> 'w \<Rightarrow> 't option"
  pb_senderTrack :: "'t \<Rightarrow> 'w \<Rightarrow> string option"
  pb_receiverOf :: "string \<Rightarrow> 'w \<Rightarrow> 't option"
  pb_remoteStream :: "string option \<Rightarrow> 'w \<Rightarrow> string list option"
  pb_stable :: "'w \<Rightarrow> bool"
  pb_random :: "'w \<Rightarrow> 'w \<times> string result"

definition io_catch :: "('s, 'a) io \<Rightarrow> (js_error \<Rightarrow> ('s, 'a) io) \<Rightarrow> ('s, 'a) io" where
  "io_catch m f s = (case m s of (s', Inl e) \<Rightarrow> f e s' | (s', Inr x) \<Rightarrow> (s', Inr x))"

text \<open>A stream holds a track once.\<close>

definition stream_add :: "string \<Rightarrow> 't handler \<Rightarrow> 't handler" where
  "stream_add track h = h\<lparr>h_sendStream := (if track \<in> set (h_sendStream h) then h_sendStream h else h_sendStream h @ [track])\<rparr>"

definition stream_remove :: "string \<Rightarrow> 't handler \<Rightarrow> 't handler" where
  "stream_remove track h = h\<lparr>h_sendStream := filter (\<lambda>t. t \<noteq> track) (h_sendStream h)\<rparr>"

definition for_track :: "(string \<Rightarrow> 't handler \<Rightarrow> 't handler) \<Rightarrow> string option \<Rightarrow> ('w, 't, unit) hio" where
  "for_track f track = (case track of None \<Rightarrow> ret () | Some t \<Rightarrow> on_handler (f t))"

section \<open>Sending\<close>

record planb_prepared =
  pq_codecs :: "codec_parameters option list"
  pq_remoteCodecs :: "codec_parameters option list"
  pq_offer :: "media_object option"

text \<open>Several encodings of a video track are written into the video section as streams of the track.\<close>

definition pb_legacy_offer :: "('w, 't) host \<Rightarrow> track_kind \<Rightarrow> string \<Rightarrow> jsobj list option \<Rightarrow> string \<Rightarrow> string result" where
  "pb_legacy_offer pc kind trackId encodings offer =
     (case encodings of
        Some es \<Rightarrow>
          if kind = KVideo \<and> length es > 1 then
            (let sdp = sdp_parse pc offer
             in case find (\<lambda>m. mo_type m = ''video'') (so_media sdp) of
                  None \<Rightarrow> Inl undefined_section
                | Some m \<Rightarrow> bindr (planB_addLegacySimulcast trackId (length es) m) (\<lambda>m'.
                    Inr (sdp_write_object pc (sdp\<lparr>so_media := update_first (\<lambda>x. mo_type x = ''video'') (\<lambda>_. m') (so_media sdp)\<rparr>))))
          else Inr offer
      | None \<Rightarrow> Inr offer)"

text \<open>\<open>send\<close> up to the local description, with how the track is given to the peer connection. The codec cannot be chosen.\<close>

definition pb_prepare ::
    "(string list \<Rightarrow> 'w \<Rightarrow> 'w \<times> unit result) \<Rightarrow> h264 \<Rightarrow> ('w, 't) host \<Rightarrow> track_kind \<Rightarrow> string \<Rightarrow> jsobj list option \<Rightarrow>
     ('w, 't, planb_prepared) hio" where
  "pb_prepare add lib pc kind trackId encodings =
     io_then assertSendDirection
     (io_then (on_handler (stream_add trackId))
     (io_bind (ask h_sendStream) (\<lambda>stream.
     io_then (host_call (add stream))
     (io_bind (host_call (pc_createOffer pc False)) (\<lambda>offer.
     io_bind (ask (\<lambda>h. (h_sending h kind, h_sendingRemote h kind))) (\<lambda>(sending, remote).
     io_bind (lift (reduceCodecs lib (rp_codecs sending) None)) (\<lambda>codecs.
     io_bind (lift (reduceCodecs lib (rp_codecs remote) None)) (\<lambda>remoteCodecs.
     io_then (ensure_transport pc (sdp_parse pc offer))
     (io_bind (lift (pb_legacy_offer pc kind trackId encodings offer)) (\<lambda>local.
     io_then (set_local pc local)
     (io_bind (look (pc_localDescription pc)) (\<lambda>text.
       ret \<lparr>pq_codecs = codecs, pq_remoteCodecs = remoteCodecs,
         pq_offer = find (\<lambda>m. mo_type m = kind_str kind) (so_media (sdp_parse pc text))\<rparr>))))))))))))"

definition pb_encodings ::
    "string list \<Rightarrow> string \<Rightarrow> jsobj list option \<Rightarrow> codec_parameters option list \<Rightarrow> media_object \<Rightarrow> jsobj list result" where
  "pb_encodings mimes trackId encodings codecs offer =
     bindr (planB_getRtpEncodings trackId offer) (\<lambda>found.
       fixed_modes mimes codecs (complete_encodings encodings (map encoding_object found)))"

text \<open>The rest of \<open>send\<close>, with the object to keep for the producer: a sender that is not found counts as none.\<close>

definition pb_finish ::
    "string list \<Rightarrow> ('w \<Rightarrow> 't option) \<Rightarrow> ('w, 't) host \<Rightarrow> track_kind \<Rightarrow> string \<Rightarrow> jsobj list option \<Rightarrow> codec_options option \<Rightarrow>
     planb_prepared \<Rightarrow> ('w, 't, string \<times> rtp_parameters) hio" where
  "pb_finish mimes object pc kind trackId encodings codecOptions p =
     (case pq_offer p of
        None \<Rightarrow> raise undefined_section
      | Some offer \<Rightarrow>
          io_bind (lift (pb_encodings mimes trackId encodings (pq_codecs p) offer)) (\<lambda>es.
          io_bind (ask (\<lambda>h. (h_sending h kind, h_sendingRemote h kind))) (\<lambda>(sending, remote).
          io_bind (on_sdp (send_section False offer None (pq_codecs p) (pq_remoteCodecs p) (rp_headerExtensions remote) codecOptions)) (\<lambda>codecs.
          io_then (set_remote pc)
          (io_bind (ask h_nextSendLocalId) (\<lambda>n.
          io_then (on_handler (\<lambda>h. h\<lparr>h_nextSendLocalId := n + 1\<rparr>))
          (io_bind (look object) (\<lambda>x.
          io_then (case x of
              None \<Rightarrow> ret ()
            | Some t \<Rightarrow> on_handler (\<lambda>h. h\<lparr>h_mapMidTransceiver := jm_set (Some (nat_str n)) t (h_mapMidTransceiver h)\<rparr>))
            (ret (nat_str n, sending\<lparr>rp_codecs := codecs, rp_encodings := map VObj es,
              rp_rtcp := jm_set ''cname'' (VStr (getCname offer)) (rp_rtcp sending)\<rparr>))))))))))"

text \<open>The end of \<open>stopSending\<close>: when nothing is sent any more, a local description that is refused is expected.\<close>

definition pb_renegotiate :: "('w, 't) planb_host \<Rightarrow> ('w, 't, unit) hio" where
  "pb_renegotiate pb =
     io_bind (host_call (pc_createOffer (pb_pc pb) False)) (\<lambda>offer.
     io_bind (io_catch (io_then (set_local (pb_pc pb) offer) (ret True))
       (\<lambda>e. io_bind (ask h_sendStream) (\<lambda>tracks. if tracks = [] then ret False else raise e))) (\<lambda>accepted.
       if \<not> accepted then ret ()
       else io_bind (look (pb_stable pb)) (\<lambda>stable. if stable then ret () else set_remote (pb_pc pb))))"

definition find_sender :: "string \<Rightarrow> ('w, 't, 't) hio" where
  "find_sender = find_object (OtherError ''associated RTCRtpSender not found'')"

section \<open>Receiving\<close>

text \<open>The section of a consumer is that of its kind.\<close>

definition pb_section :: "(receive_options \<Rightarrow> string option) \<Rightarrow> receive_options \<Rightarrow> ('w, 't, unit) hio" where
  "pb_section stream o' =
     on_sdp (\<lambda>r. no_value (rs_receive (rx_kind o') (rx_kind o') (rx_parameters o') (stream o') (rx_trackId o') r))"

definition pb_apply_answer :: "sdp_object \<Rightarrow> receive_options \<Rightarrow> sdp_object result" where
  "pb_apply_answer sdp o' =
     (let mine = (\<lambda>m. mo_mid m = rx_kind o')
      in if list_ex mine (so_media sdp)
         then Inr (sdp\<lparr>so_media := update_first mine (applyCodecParameters (op_codecs (rx_parameters o'))) (so_media sdp)\<rparr>)
         else if list_ex (\<lambda>c. to_lower (cd_mimeType c) = ''audio/opus'') (op_codecs (rx_parameters o')) then Inl undefined_section
         else Inr sdp)"

fun pb_apply_answers :: "receive_options list \<Rightarrow> sdp_object \<Rightarrow> sdp_object result" where
  "pb_apply_answers [] sdp = Inr sdp"
| "pb_apply_answers (o' # os) sdp = bindr (pb_apply_answer sdp o') (pb_apply_answers os)"

definition pb_store :: "('w, 't, 't) hio \<Rightarrow> receive_options \<Rightarrow> ('w, 't, string \<times> 't) hio" where
  "pb_store found o' =
     io_bind found (\<lambda>t.
       io_then (on_handler (\<lambda>h. h\<lparr>h_mapRecvLocalIdInfo := jm_set (rx_trackId o') (rx_kind o', rx_parameters o') (h_mapRecvLocalIdInfo h)\<rparr>))
         (ret (rx_trackId o', t)))"

text \<open>\<open>receive\<close> once the sections are there.\<close>

definition pb_answer :: "('w, 't) host \<Rightarrow> (receive_options \<Rightarrow> ('w, 't, 't) hio) \<Rightarrow> receive_options list \<Rightarrow> ('w, 't, (string \<times> 't) list) hio" where
  "pb_answer pc find_track optionsList =
     io_then (set_remote pc)
     (io_bind (host_call (pc_createAnswer pc)) (\<lambda>answer.
     io_bind (lift (pb_apply_answers optionsList (sdp_parse pc answer))) (\<lambda>localSdpObject.
     io_then (ensure_transport pc localSdpObject)
     (io_then (set_local pc (sdp_write_object pc localSdpObject))
       (each (\<lambda>o'. pb_store (find_track o') o') optionsList)))))"

definition found_receiver :: "('w, 't) planb_host \<Rightarrow> receive_options \<Rightarrow> ('w, 't, 't) hio" where
  "found_receiver pb o' =
     io_bind (look (pb_receiverOf pb (rx_trackId o'))) (\<lambda>x. case x of None \<Rightarrow> raise (OtherError ''new RTCRtpReceiver not'') | Some t \<Rightarrow> ret t)"

definition found_track :: "('w, string) planb_host \<Rightarrow> string option \<Rightarrow> receive_options \<Rightarrow> ('w, string, string) hio" where
  "found_track pb streamId o' =
     io_bind (look (pb_remoteStream pb streamId)) (\<lambda>stream.
       case stream of
         None \<Rightarrow> raise undefined_section
       | Some tracks \<Rightarrow> if rx_trackId o' \<in> set tracks then ret (rx_trackId o') else raise (OtherError ''remote track not found''))"

text \<open>What is known of a consumer is forgotten first; without it there is no mid to find a section by.\<close>

definition pb_stop_one :: "string \<Rightarrow> ('w, 't, unit) hio" where
  "pb_stop_one localId =
     io_bind (ask (\<lambda>h. jm_get (h_mapRecvLocalIdInfo h) localId)) (\<lambda>info.
     io_then (on_handler (\<lambda>h. h\<lparr>h_mapRecvLocalIdInfo := jm_delete localId (h_mapRecvLocalIdInfo h)\<rparr>))
       (case info of
          None \<Rightarrow> raise (OtherError ''no media section found with mid'')
        | Some (mid, rtpParameters) \<Rightarrow> on_sdp (\<lambda>r. no_value (rs_planBStopReceiving mid rtpParameters r))))"

definition pb_stopReceiving :: "('w, 't) host \<Rightarrow> string list \<Rightarrow> ('w, 't, unit) hio" where
  "pb_stopReceiving pc localIds =
     io_then assertRecvDirection (io_then (each pb_stop_one localIds) (answer_remote pc))"

definition pb_run :: "('w, 't) host \<Rightarrow> handler_direction \<Rightarrow> section_env \<Rightarrow> extended_capabilities \<Rightarrow> ('w, 't, unit) hio" where
  "pb_run pc direction env = c74_run pc direction (env\<lparr>se_planB := True\<rparr>)"

section \<open>Chrome67.js\<close>

definition p67_prepare ::
    "h264 \<Rightarrow> ('w, 't) planb_host \<Rightarrow> track_kind \<Rightarrow> string \<Rightarrow> jsobj list option \<Rightarrow> ('w, 't, planb_prepared) hio" where
  "p67_prepare lib pb kind trackId = pb_prepare (\<lambda>_. pb_addTrack pb trackId) lib (pb_pc pb) kind trackId"

definition p67_send ::
    "h264 \<Rightarrow> ('w, 't) planb_host \<Rightarrow> track_kind \<Rightarrow> string \<Rightarrow> jsobj list option \<Rightarrow> codec_options option \<Rightarrow> ('w, 't, string \<times> rtp_parameters) hio" where
  "p67_send lib pb kind trackId encodings codecOptions =
     io_bind (p67_prepare lib pb kind trackId encodings)
       (pb_finish [''video/vp8''] (pb_senderOf pb trackId) (pb_pc pb) kind trackId encodings codecOptions)"

text \<open>The track of the sender is read after it was removed from the peer connection.\<close>

definition p67_stopSending :: "('w, 't) planb_host \<Rightarrow> string \<Rightarrow> ('w, 't, unit) hio" where
  "p67_stopSending pb localId =
     io_then assertSendDirection
     (io_bind (find_sender localId) (\<lambda>t.
     io_then (host_call (pc_removeTrack (pb_pc pb) t))
     (io_bind (look (pb_senderTrack pb t)) (\<lambda>track.
     io_then (for_track stream_remove track)
     (io_then (on_handler (\<lambda>h. h\<lparr>h_mapMidTransceiver := jm_delete (Some localId) (h_mapMidTransceiver h)\<rparr>))
       (pb_renegotiate pb))))))"

definition p67_replaceTrack :: "('w, 't) planb_host \<Rightarrow> string \<Rightarrow> string option \<Rightarrow> ('w, 't, unit) hio" where
  "p67_replaceTrack pb localId track =
     io_then assertSendDirection
     (io_bind (find_sender localId) (\<lambda>t.
     io_bind (look (pb_senderTrack pb t)) (\<lambda>oldTrack.
     io_then (host_call (sender_replaceTrack (pb_pc pb) t track))
     (io_then (for_track stream_remove oldTrack) (for_track stream_add track)))))"

definition p67_set_encodings :: "('w, 't) planb_host \<Rightarrow> string \<Rightarrow> (jsobj list \<Rightarrow> jsobj list) \<Rightarrow> ('w, 't, unit) hio" where
  "p67_set_encodings pb localId f =
     io_then assertSendDirection
     (io_bind (find_sender localId) (\<lambda>t.
     io_bind (look (sender_getParameters (pb_pc pb) t)) (\<lambda>encodings.
       host_call (sender_setParameters (pb_pc pb) t (f encodings)))))"

definition p67_setMaxSpatialLayer :: "('w, 't) planb_host \<Rightarrow> string \<Rightarrow> number \<Rightarrow> ('w, 't, unit) hio" where
  "p67_setMaxSpatialLayer pb localId spatialLayer = p67_set_encodings pb localId (spatial_layers spatialLayer)"

definition p67_setRtpEncodingParameters :: "('w, 't) planb_host \<Rightarrow> string \<Rightarrow> jsobj \<Rightarrow> ('w, 't, unit) hio" where
  "p67_setRtpEncodingParameters pb localId params = p67_set_encodings pb localId (map (\<lambda>e. assign e params))"

definition p67_receive :: "('w, 't) planb_host \<Rightarrow> receive_options list \<Rightarrow> ('w, 't, (string \<times> 't) list) hio" where
  "p67_receive pb optionsList =
     io_then assertRecvDirection
     (io_then (each (pb_section stream_of) optionsList) (pb_answer (pb_pc pb) (found_receiver pb) optionsList))"

text \<open>The methods that \<open>Chrome70.js\<close> or every Plan-B handler has.\<close>

definition p67_close :: "('w, 't) host \<Rightarrow> ('w, 't, unit) hio" where
  [same_method]: "p67_close = c70_close"

definition p67_run :: "('w, 't) host \<Rightarrow> handler_direction \<Rightarrow> section_env \<Rightarrow> extended_capabilities \<Rightarrow> ('w, 't, unit) hio" where
  [same_method]: "p67_run = pb_run"

definition p67_updateIceServers :: "('w, 't) host \<Rightarrow> jsval \<Rightarrow> ('w, 't, unit) hio" where
  [same_method]: "p67_updateIceServers = c70_updateIceServers"

definition p67_restartIce :: "('w, 't) host \<Rightarrow> ice_parameters \<Rightarrow> ('w, 't, unit) hio" where
  [same_method]: "p67_restartIce = c70_restartIce"

definition p67_pauseSending :: "string \<Rightarrow> ('w, 't, unit) hio" where
  [same_method]: "p67_pauseSending = c70_pauseSending"

definition p67_resumeSending :: "string \<Rightarrow> ('w, 't, unit) hio" where
  [same_method]: "p67_resumeSending = c70_resumeSending"

definition p67_sendDataChannel :: "('w, 't) host \<Rightarrow> channel_options \<Rightarrow> ('w, 't, channel_options) hio" where
  [same_method]: "p67_sendDataChannel = c70_sendDataChannel"

definition p67_stopReceiving :: "('w, 't) host \<Rightarrow> string list \<Rightarrow> ('w, 't, unit) hio" where
  [same_method]: "p67_stopReceiving = pb_stopReceiving"

definition p67_pauseReceiving :: "string list \<Rightarrow> ('w, 't, unit) hio" where
  [same_method]: "p67_pauseReceiving = c70_pauseReceiving"

definition p67_resumeReceiving :: "string list \<Rightarrow> ('w, 't, unit) hio" where
  [same_method]: "p67_resumeReceiving = c70_resumeReceiving"

definition p67_receiveDataChannel :: "('w, 't) host \<Rightarrow> channel_options \<Rightarrow> ('w, 't, unit) hio" where
  [same_method]: "p67_receiveDataChannel = receive_data True"

fun p67_call :: "h264 \<Rightarrow> ('w, 't) planb_host \<Rightarrow> handler_call \<Rightarrow> ('w, 't, unit) hio" where
  "p67_call lib pb (DoSend kind trackId encodings codecOptions capCodec) = quiet (p67_send lib pb kind trackId encodings codecOptions)"
| "p67_call lib pb (DoStopSending localId) = p67_stopSending pb localId"
| "p67_call lib pb (DoPauseSending localId) = p67_pauseSending localId"
| "p67_call lib pb (DoResumeSending localId) = p67_resumeSending localId"
| "p67_call lib pb (DoReplaceTrack localId track) = p67_replaceTrack pb localId track"
| "p67_call lib pb (DoSetMaxSpatialLayer localId layer) = p67_setMaxSpatialLayer pb localId layer"
| "p67_call lib pb (DoSetRtpEncodingParameters localId params) = p67_setRtpEncodingParameters pb localId params"
| "p67_call lib pb (DoSendDataChannel options) = quiet (p67_sendDataChannel (pb_pc pb) options)"
| "p67_call lib pb (DoReceive options) = quiet (p67_receive pb options)"
| "p67_call lib pb (DoStopReceiving localIds) = p67_stopReceiving (pb_pc pb) localIds"
| "p67_call lib pb (DoPauseReceiving localIds) = p67_pauseReceiving localIds"
| "p67_call lib pb (DoResumeReceiving localIds) = p67_resumeReceiving localIds"
| "p67_call lib pb (DoReceiveDataChannel options) = p67_receiveDataChannel (pb_pc pb) options"
| "p67_call lib pb (DoRestartIce p) = p67_restartIce (pb_pc pb) p"
| "p67_call lib pb (DoUpdateIceServers servers) = p67_updateIceServers (pb_pc pb) servers"
| "p67_call lib pb DoClose = p67_close (pb_pc pb)"

section \<open>Safari11.js\<close>

text \<open>The track is taken out of the stream, not out of the peer connection.\<close>

definition s11_stopSending :: "('w, 't) planb_host \<Rightarrow> string \<Rightarrow> ('w, 't, unit) hio" where
  "s11_stopSending pb localId =
     io_then assertSendDirection
     (io_bind (find_sender localId) (\<lambda>t.
     io_bind (look (pb_senderTrack pb t)) (\<lambda>track.
     io_then (for_track stream_remove track)
     (io_then (on_handler (\<lambda>h. h\<lparr>h_mapMidTransceiver := jm_delete (Some localId) (h_mapMidTransceiver h)\<rparr>))
       (pb_renegotiate pb)))))"

definition s11_prepare :: "h264 \<Rightarrow> ('w, 't) planb_host \<Rightarrow> track_kind \<Rightarrow> string \<Rightarrow> jsobj list option \<Rightarrow> ('w, 't, planb_prepared) hio" where
  [same_method]: "s11_prepare = p67_prepare"

definition s11_send :: "h264 \<Rightarrow> ('w, 't) planb_host \<Rightarrow> track_kind \<Rightarrow> string \<Rightarrow> jsobj list option \<Rightarrow> codec_options option \<Rightarrow> ('w, 't, string \<times> rtp_parameters) hio" where
  [same_method]: "s11_send = p67_send"

definition s11_replaceTrack :: "('w, 't) planb_host \<Rightarrow> string \<Rightarrow> string option \<Rightarrow> ('w, 't, unit) hio" where
  [same_method]: "s11_replaceTrack = p67_replaceTrack"

definition s11_setMaxSpatialLayer :: "('w, 't) planb_host \<Rightarrow> string \<Rightarrow> number \<Rightarrow> ('w, 't, unit) hio" where
  [same_method]: "s11_setMaxSpatialLayer = p67_setMaxSpatialLayer"

definition s11_setRtpEncodingParameters :: "('w, 't) planb_host \<Rightarrow> string \<Rightarrow> jsobj \<Rightarrow> ('w, 't, unit) hio" where
  [same_method]: "s11_setRtpEncodingParameters = p67_setRtpEncodingParameters"

definition s11_receive :: "('w, 't) planb_host \<Rightarrow> receive_options list \<Rightarrow> ('w, 't, (string \<times> 't) list) hio" where
  [same_method]: "s11_receive = p67_receive"

definition s11_close :: "('w, 't) host \<Rightarrow> ('w, 't, unit) hio" where
  [same_method]: "s11_close = c70_close"

definition s11_run :: "('w, 't) host \<Rightarrow> handler_direction \<Rightarrow> section_env \<Rightarrow> extended_capabilities \<Rightarrow> ('w, 't, unit) hio" where
  [same_method]: "s11_run = pb_run"

definition s11_updateIceServers :: "('w, 't) host \<Rightarrow> jsval \<Rightarrow> ('w, 't, unit) hio" where
  [same_method]: "s11_updateIceServers = c70_updateIceServers"

definition s11_restartIce :: "('w, 't) host \<Rightarrow> ice_parameters \<Rightarrow> ('w, 't, unit) hio" where
  [same_method]: "s11_restartIce = c70_restartIce"

definition s11_pauseSending :: "string \<Rightarrow> ('w, 't, unit) hio" where
  [same_method]: "s11_pauseSending = c70_pauseSending"

definition s11_resumeSending :: "string \<Rightarrow> ('w, 't, unit) hio" where
  [same_method]: "s11_resumeSending = c70_resumeSending"

definition s11_sendDataChannel :: "('w, 't) host \<Rightarrow> channel_options \<Rightarrow> ('w, 't, channel_options) hio" where
  [same_method]: "s11_sendDataChannel = c70_sendDataChannel"

definition s11_stopReceiving :: "('w, 't) host \<Rightarrow> string list \<Rightarrow> ('w, 't, unit) hio" where
  [same_method]: "s11_stopReceiving = pb_stopReceiving"

definition s11_pauseReceiving :: "string list \<Rightarrow> ('w, 't, unit) hio" where
  [same_method]: "s11_pauseReceiving = c70_pauseReceiving"

definition s11_resumeReceiving :: "string list \<Rightarrow> ('w, 't, unit) hio" where
  [same_method]: "s11_resumeReceiving = c70_resumeReceiving"

definition s11_receiveDataChannel :: "('w, 't) host \<Rightarrow> channel_options \<Rightarrow> ('w, 't, unit) hio" where
  [same_method]: "s11_receiveDataChannel = receive_data True"

fun s11_call :: "h264 \<Rightarrow> ('w, 't) planb_host \<Rightarrow> handler_call \<Rightarrow> ('w, 't, unit) hio" where
  "s11_call lib pb (DoSend kind trackId encodings codecOptions capCodec) = quiet (s11_send lib pb kind trackId encodings codecOptions)"
| "s11_call lib pb (DoStopSending localId) = s11_stopSending pb localId"
| "s11_call lib pb (DoPauseSending localId) = s11_pauseSending localId"
| "s11_call lib pb (DoResumeSending localId) = s11_resumeSending localId"
| "s11_call lib pb (DoReplaceTrack localId track) = s11_replaceTrack pb localId track"
| "s11_call lib pb (DoSetMaxSpatialLayer localId layer) = s11_setMaxSpatialLayer pb localId layer"
| "s11_call lib pb (DoSetRtpEncodingParameters localId params) = s11_setRtpEncodingParameters pb localId params"
| "s11_call lib pb (DoSendDataChannel options) = quiet (s11_sendDataChannel (pb_pc pb) options)"
| "s11_call lib pb (DoReceive options) = quiet (s11_receive pb options)"
| "s11_call lib pb (DoStopReceiving localIds) = s11_stopReceiving (pb_pc pb) localIds"
| "s11_call lib pb (DoPauseReceiving localIds) = s11_pauseReceiving localIds"
| "s11_call lib pb (DoResumeReceiving localIds) = s11_resumeReceiving localIds"
| "s11_call lib pb (DoReceiveDataChannel options) = s11_receiveDataChannel (pb_pc pb) options"
| "s11_call lib pb (DoRestartIce p) = s11_restartIce (pb_pc pb) p"
| "s11_call lib pb (DoUpdateIceServers servers) = s11_updateIceServers (pb_pc pb) servers"
| "s11_call lib pb DoClose = s11_close (pb_pc pb)"

section \<open>Chrome55.js\<close>

text \<open>A producer is known by its track, and the stream is given to the peer connection again whenever it changes.\<close>

definition p55_prepare ::
    "h264 \<Rightarrow> ('w, string) planb_host \<Rightarrow> track_kind \<Rightarrow> string \<Rightarrow> jsobj list option \<Rightarrow> ('w, string, planb_prepared) hio" where
  "p55_prepare lib pb kind trackId = pb_prepare (pb_addStream pb) lib (pb_pc pb) kind trackId"

definition p55_send ::
    "h264 \<Rightarrow> ('w, string) planb_host \<Rightarrow> track_kind \<Rightarrow> string \<Rightarrow> jsobj list option \<Rightarrow> codec_options option \<Rightarrow>
     ('w, string, string \<times> rtp_parameters) hio" where
  "p55_send lib pb kind trackId encodings codecOptions =
     io_bind (p55_prepare lib pb kind trackId encodings)
       (pb_finish [''video/vp8''] (\<lambda>_. Some trackId) (pb_pc pb) kind trackId encodings codecOptions)"

definition p55_stopSending :: "('w, string) planb_host \<Rightarrow> string \<Rightarrow> ('w, string, unit) hio" where
  "p55_stopSending pb localId =
     io_then assertSendDirection
     (io_bind (find_object (OtherError ''track not found'') localId) (\<lambda>track.
     io_then (on_handler (\<lambda>h. h\<lparr>h_mapMidTransceiver := jm_delete (Some localId) (h_mapMidTransceiver h)\<rparr>))
     (io_then (on_handler (stream_remove track))
     (io_bind (ask h_sendStream) (\<lambda>stream.
     io_then (host_call (pb_addStream pb stream))
       (pb_renegotiate pb))))))"

definition p55_replaceTrack :: "string \<Rightarrow> string option \<Rightarrow> ('w, string, unit) hio" where
  "p55_replaceTrack localId track = raise (UnsupportedError ''not implemented'')"

definition p55_setMaxSpatialLayer :: "string \<Rightarrow> number \<Rightarrow> ('w, string, unit) hio" where
  "p55_setMaxSpatialLayer localId spatialLayer = raise (UnsupportedError '' not implemented'')"

definition p55_setRtpEncodingParameters :: "string \<Rightarrow> jsobj \<Rightarrow> ('w, string, unit) hio" where
  "p55_setRtpEncodingParameters localId params = raise (UnsupportedError ''not supported'')"

definition p55_receive :: "('w, string) planb_host \<Rightarrow> receive_options list \<Rightarrow> ('w, string, (string \<times> string) list) hio" where
  "p55_receive pb optionsList =
     io_then assertRecvDirection
     (io_then (each (pb_section stream_of) optionsList)
       (pb_answer (pb_pc pb) (\<lambda>o'. found_track pb (stream_of o') o') optionsList))"

definition p55_close :: "('w, string) host \<Rightarrow> ('w, string, unit) hio" where
  [same_method]: "p55_close = c70_close"

definition p55_run :: "('w, string) host \<Rightarrow> handler_direction \<Rightarrow> section_env \<Rightarrow> extended_capabilities \<Rightarrow> ('w, string, unit) hio" where
  [same_method]: "p55_run = pb_run"

definition p55_updateIceServers :: "('w, string) host \<Rightarrow> jsval \<Rightarrow> ('w, string, unit) hio" where
  [same_method]: "p55_updateIceServers = c70_updateIceServers"

definition p55_restartIce :: "('w, string) host \<Rightarrow> ice_parameters \<Rightarrow> ('w, string, unit) hio" where
  [same_method]: "p55_restartIce = c70_restartIce"

definition p55_pauseSending :: "string \<Rightarrow> ('w, string, unit) hio" where
  [same_method]: "p55_pauseSending = c70_pauseSending"

definition p55_resumeSending :: "string \<Rightarrow> ('w, string, unit) hio" where
  [same_method]: "p55_resumeSending = c70_resumeSending"

definition p55_sendDataChannel :: "('w, string) host \<Rightarrow> channel_options \<Rightarrow> ('w, string, channel_options) hio" where
  [same_method]: "p55_sendDataChannel = c70_sendDataChannel"

definition p55_stopReceiving :: "('w, string) host \<Rightarrow> string list \<Rightarrow> ('w, string, unit) hio" where
  [same_method]: "p55_stopReceiving = pb_stopReceiving"

definition p55_pauseReceiving :: "string list \<Rightarrow> ('w, string, unit) hio" where
  [same_method]: "p55_pauseReceiving = c70_pauseReceiving"

definition p55_resumeReceiving :: "string list \<Rightarrow> ('w, string, unit) hio" where
  [same_method]: "p55_resumeReceiving = c70_resumeReceiving"

definition p55_receiveDataChannel :: "('w, string) host \<Rightarrow> channel_options \<Rightarrow> ('w, string, unit) hio" where
  [same_method]: "p55_receiveDataChannel = receive_data True"

fun p55_call :: "h264 \<Rightarrow> ('w, string) planb_host \<Rightarrow> handler_call \<Rightarrow> ('w, string, unit) hio" where
  "p55_call lib pb (DoSend kind trackId encodings codecOptions capCodec) = quiet (p55_send lib pb kind trackId encodings codecOptions)"
| "p55_call lib pb (DoStopSending localId) = p55_stopSending pb localId"
| "p55_call lib pb (DoPauseSending localId) = p55_pauseSending localId"
| "p55_call lib pb (DoResumeSending localId) = p55_resumeSending localId"
| "p55_call lib pb (DoReplaceTrack localId track) = p55_replaceTrack localId track"
| "p55_call lib pb (DoSetMaxSpatialLayer localId layer) = p55_setMaxSpatialLayer localId layer"
| "p55_call lib pb (DoSetRtpEncodingParameters localId params) = p55_setRtpEncodingParameters localId params"
| "p55_call lib pb (DoSendDataChannel options) = quiet (p55_sendDataChannel (pb_pc pb) options)"
| "p55_call lib pb (DoReceive options) = quiet (p55_receive pb options)"
| "p55_call lib pb (DoStopReceiving localIds) = p55_stopReceiving (pb_pc pb) localIds"
| "p55_call lib pb (DoPauseReceiving localIds) = p55_pauseReceiving localIds"
| "p55_call lib pb (DoResumeReceiving localIds) = p55_resumeReceiving localIds"
| "p55_call lib pb (DoReceiveDataChannel options) = p55_receiveDataChannel (pb_pc pb) options"
| "p55_call lib pb (DoRestartIce p) = p55_restartIce (pb_pc pb) p"
| "p55_call lib pb (DoUpdateIceServers servers) = p55_updateIceServers (pb_pc pb) servers"
| "p55_call lib pb DoClose = p55_close (pb_pc pb)"

section \<open>ReactNative.js\<close>

text \<open>The native stream is released first; when that throws, the peer connection is left open.\<close>

definition rnb_close :: "('w \<Rightarrow> 'w \<times> unit result) \<Rightarrow> ('w, string) host \<Rightarrow> ('w, string, unit) hio" where
  "rnb_close release pc = io_then (host_call release) (c70_close pc)"

definition rnb_send ::
    "h264 \<Rightarrow> ('w, string) planb_host \<Rightarrow> track_kind \<Rightarrow> string \<Rightarrow> jsobj list option \<Rightarrow> codec_options option \<Rightarrow>
     ('w, string, string \<times> rtp_parameters) hio" where
  "rnb_send lib pb kind trackId encodings codecOptions =
     io_bind (p55_prepare lib pb kind trackId encodings)
       (pb_finish [''video/vp8'', ''video/h264''] (\<lambda>_. Some trackId) (pb_pc pb) kind trackId encodings codecOptions)"

definition rnb_setMaxSpatialLayer :: "string \<Rightarrow> number \<Rightarrow> ('w, string, unit) hio" where
  "rnb_setMaxSpatialLayer localId spatialLayer = raise (UnsupportedError ''not implemented'')"

definition rnb_setRtpEncodingParameters :: "string \<Rightarrow> jsobj \<Rightarrow> ('w, string, unit) hio" where
  "rnb_setRtpEncodingParameters localId params = raise (UnsupportedError ''not implemented'')"

text \<open>A consumer's stream gets a name that no other one has, by a random number.\<close>

definition hacked_stream :: "receive_options \<Rightarrow> string \<Rightarrow> string" where
  "hacked_stream o' number = (case stream_of o' of Some s \<Rightarrow> s | None \<Rightarrow> ''undefined'') @ ''-hack-'' @ number"

definition rnb_section :: "('w, string) planb_host \<Rightarrow> receive_options \<Rightarrow> ('w, string, string \<times> string) hio" where
  "rnb_section pb o' =
     io_bind (host_call (pb_random pb)) (\<lambda>number.
     io_then (pb_section (\<lambda>o'. Some (hacked_stream o' number)) o') (ret (rx_trackId o', hacked_stream o' number)))"

definition rnb_receive :: "('w, string) planb_host \<Rightarrow> receive_options list \<Rightarrow> ('w, string, (string \<times> string) list) hio" where
  "rnb_receive pb optionsList =
     io_then assertRecvDirection
     (io_bind (each (rnb_section pb) optionsList) (\<lambda>ids.
       let mapStreamId = foldl (\<lambda>m (t, i). jm_set t i m) [] ids
       in pb_answer (pb_pc pb) (\<lambda>o'. found_track pb (jm_get mapStreamId (rx_trackId o')) o') optionsList))"

definition rnb_stopSending :: "('w, string) planb_host \<Rightarrow> string \<Rightarrow> ('w, string, unit) hio" where
  [same_method]: "rnb_stopSending = p55_stopSending"

definition rnb_replaceTrack :: "string \<Rightarrow> string option \<Rightarrow> ('w, string, unit) hio" where
  [same_method]: "rnb_replaceTrack = p55_replaceTrack"

definition rnb_run :: "('w, string) host \<Rightarrow> handler_direction \<Rightarrow> section_env \<Rightarrow> extended_capabilities \<Rightarrow> ('w, string, unit) hio" where
  [same_method]: "rnb_run = pb_run"

definition rnb_updateIceServers :: "('w, string) host \<Rightarrow> jsval \<Rightarrow> ('w, string, unit) hio" where
  [same_method]: "rnb_updateIceServers = c70_updateIceServers"

definition rnb_restartIce :: "('w, string) host \<Rightarrow> ice_parameters \<Rightarrow> ('w, string, unit) hio" where
  [same_method]: "rnb_restartIce = c70_restartIce"

definition rnb_pauseSending :: "string \<Rightarrow> ('w, string, unit) hio" where
  [same_method]: "rnb_pauseSending = c70_pauseSending"

definition rnb_resumeSending :: "string \<Rightarrow> ('w, string, unit) hio" where
  [same_method]: "rnb_resumeSending = c70_resumeSending"

definition rnb_sendDataChannel :: "('w, string) host \<Rightarrow> channel_options \<Rightarrow> ('w, string, channel_options) hio" where
  [same_method]: "rnb_sendDataChannel = c70_sendDataChannel"

definition rnb_stopReceiving :: "('w, string) host \<Rightarrow> string list \<Rightarrow> ('w, string, unit) hio" where
  [same_method]: "rnb_stopReceiving = pb_stopReceiving"

definition rnb_pauseReceiving :: "string list \<Rightarrow> ('w, string, unit) hio" where
  [same_method]: "rnb_pauseReceiving = c70_pauseReceiving"

definition rnb_resumeReceiving :: "string list \<Rightarrow> ('w, string, unit) hio" where
  [same_method]: "rnb_resumeReceiving = c70_resumeReceiving"

definition rnb_receiveDataChannel :: "('w, string) host \<Rightarrow> channel_options \<Rightarrow> ('w, string, unit) hio" where
  [same_method]: "rnb_receiveDataChannel = receive_data True"

fun rnb_call :: "('w \<Rightarrow> 'w \<times> unit result) \<Rightarrow> h264 \<Rightarrow> ('w, string) planb_host \<Rightarrow> handler_call \<Rightarrow> ('w, string, unit) hio" where
  "rnb_call release lib pb (DoSend kind trackId encodings codecOptions capCodec) = quiet (rnb_send lib pb kind trackId encodings codecOptions)"
| "rnb_call release lib pb (DoStopSending localId) = rnb_stopSending pb localId"
| "rnb_call release lib pb (DoPauseSending localId) = rnb_pauseSending localId"
| "rnb_call release lib pb (DoResumeSending localId) = rnb_resumeSending localId"
| "rnb_call release lib pb (DoReplaceTrack localId track) = rnb_replaceTrack localId track"
| "rnb_call release lib pb (DoSetMaxSpatialLayer localId layer) = rnb_setMaxSpatialLayer localId layer"
| "rnb_call release lib pb (DoSetRtpEncodingParameters localId params) = rnb_setRtpEncodingParameters localId params"
| "rnb_call release lib pb (DoSendDataChannel options) = quiet (rnb_sendDataChannel (pb_pc pb) options)"
| "rnb_call release lib pb (DoReceive options) = quiet (rnb_receive pb options)"
| "rnb_call release lib pb (DoStopReceiving localIds) = rnb_stopReceiving (pb_pc pb) localIds"
| "rnb_call release lib pb (DoPauseReceiving localIds) = rnb_pauseReceiving localIds"
| "rnb_call release lib pb (DoResumeReceiving localIds) = rnb_resumeReceiving localIds"
| "rnb_call release lib pb (DoReceiveDataChannel options) = rnb_receiveDataChannel (pb_pc pb) options"
| "rnb_call release lib pb (DoRestartIce p) = rnb_restartIce (pb_pc pb) p"
| "rnb_call release lib pb (DoUpdateIceServers servers) = rnb_updateIceServers (pb_pc pb) servers"
| "rnb_call release lib pb DoClose = rnb_close release (pb_pc pb)"

section \<open>What the pieces keep\<close>

lemma keeping_catch [keeps]: "keeping I m \<Longrightarrow> (\<And>e. keeping I (f e)) \<Longrightarrow> keeping I (io_catch m f)"
  unfolding keeping_def io_catch_def by (auto split: prod.split sum.split)

lemma keeping_stream [keeps]:
  "keeping (hinv cfg b) (on_handler (stream_add t))" "keeping (hinv cfg b) (on_handler (stream_remove t))"
  "keeping (hinv cfg b) (on_handler (\<lambda>h. h\<lparr>h_nextSendLocalId := n\<rparr>))"
  "keeping (hinv cfg True) (on_handler (\<lambda>h. h\<lparr>h_mapRecvLocalIdInfo := g h\<rparr>))"
  "keeping (hinv cfg b) (on_handler (\<lambda>h. h\<lparr>h_mapRecvLocalIdInfo := jm_delete i (h_mapRecvLocalIdInfo h)\<rparr>))"
  by (rule on_handler_keeps; simp add: stream_add_def stream_remove_def jm_delete_def)+

lemma keeping_for_track [keeps]:
  "keeping (hinv cfg b) (for_track stream_add track)" "keeping (hinv cfg b) (for_track stream_remove track)"
  unfolding for_track_def by (intro keeps)+

lemma keeping_renegotiate [keeps]: "keeping (hinv cfg True) (pb_renegotiate pb)"
  unfolding pb_renegotiate_def by (intro keeps)

lemma find_sender_ready: "triple (hinv cfg False) (find_sender localId) (\<lambda>_. hinv cfg True) (hinv cfg False)"
  unfolding find_sender_def by (rule find_object_ready)

lemma stream_keep: "triple (hinv cfg False) (on_handler (stream_add t)) (\<lambda>_. hinv cfg False) (hinv cfg False)"
  using keeping_stream(1) [of cfg False t] by (simp add: keeping_triple)

lemma pb_prepare_ready: "triple (hinv cfg False) (pb_prepare add lib pc kind trackId encodings) (\<lambda>_. hinv cfg True) (hinv cfg False)"
  unfolding pb_prepare_def case_prod_beta ask_def look_def
  by (rule triple_then [OF asserts_keep(2)] triple_then [OF stream_keep] triple_then [OF host_keep] triple_bind [OF host_keep]
      triple_then [OF ensure_ready] triple_then [OF local_keep] triple_bind_lift triple_bind_read triple_ret | simp add: hinv_True)+

text \<open>The section that is sent is new, or the open one of its kind.\<close>

definition pb_section_fits :: "planb_prepared \<Rightarrow> ('w, 't) hstate \<Rightarrow> bool" where
  "pb_section_fits p s \<longleftrightarrow> (case (pq_offer p, sdp_of s) of (Some m, Some r) \<Rightarrow> mid_fits False (mo_mid m) r | _ \<Rightarrow> True)"

lemma send_again_sound:
  assumes "send_section mixed m None codecs remote exts opts r = Inr (r', cs)" "sdp_inv r" "mid_fits False (mo_mid m) r"
  shows "sdp_inv r' \<and> same_session r r'"
proof -
  obtain c1 c2 where send: "rs_send m None c1 c2 exts opts mixed r = Inr (r', cs)"
    using assms(1) by (auto simp: send_section_def split: option.splits)
  from send_again_good [OF assms(2,3) this] send_session [OF send] show ?thesis by (simp add: good_def)
qed

lemma pb_section_sent:
  assumes "pq_offer p = Some m"
  shows "triple (\<lambda>s. hinv cfg True s \<and> pb_section_fits p s)
    (on_sdp (send_section mixed m None codecs remote exts opts)) (\<lambda>_. hinv cfg True) (hinv cfg False)"
  by (rule triple_weaken [OF on_sdp_triple [where b = True and cfg = cfg and P = "pb_section_fits p"]])
    (auto simp: pb_section_fits_def assms hinv_True dest: send_again_sound)

lemma pb_kept:
  "triple (hinv cfg True) (io_then (set_remote pc) (io_bind (ask h_nextSendLocalId) (\<lambda>n.
     io_then (on_handler (\<lambda>h. h\<lparr>h_nextSendLocalId := n + 1\<rparr>)) (io_bind (look object) (\<lambda>x.
     io_then (case x of None \<Rightarrow> ret () | Some t \<Rightarrow> on_handler (\<lambda>h. h\<lparr>h_mapMidTransceiver := g n t h\<rparr>)) (ret (y n)))))))
   (\<lambda>_. hinv cfg False) (hinv cfg False)"
proof -
  have "keeping (hinv cfg True) (io_then (set_remote pc) (io_bind (ask h_nextSendLocalId) (\<lambda>n.
     io_then (on_handler (\<lambda>h. h\<lparr>h_nextSendLocalId := n + 1\<rparr>)) (io_bind (look object) (\<lambda>x.
     io_then (case x of None \<Rightarrow> ret () | Some t \<Rightarrow> on_handler (\<lambda>h. h\<lparr>h_mapMidTransceiver := g n t h\<rparr>)) (ret (y n)))))))"
    by (intro keeps)
  then show ?thesis unfolding keeping_triple by (rule triple_weaken) (simp_all add: hinv_True)
qed

lemma pb_finish_keeps:
  "triple (\<lambda>s. hinv cfg True s \<and> pb_section_fits p s) (pb_finish mimes object pc kind trackId encodings opts p) (\<lambda>_. hinv cfg False) (hinv cfg False)"
proof (cases "pq_offer p")
  case None
  then show ?thesis unfolding pb_finish_def None option.case by (intro triple_raise) (simp add: hinv_True)
next
  case (Some m)
  show ?thesis unfolding pb_finish_def Some option.case case_prod_beta ask_def
    by (rule triple_bind_lift triple_bind_read triple_bind [OF pb_section_sent [OF Some]] pb_kept [unfolded ask_def] | simp add: hinv_True)+
qed

lemma sound_planB_stop: "sound_method (\<lambda>r. no_value (rs_planBStopReceiving mid ps r))"
  by (rule sound_methodI [of _ "\<lambda>_. SdpPlanBStop mid ps"])
    (auto simp: no_value_def bindr_eq_Inr keep_def rs_planBStopReceiving_def dest: replace_session)

lemma keeping_stop_one: "keeping (hinv cfg b) (pb_stop_one localId)"
  unfolding pb_stop_one_def by (intro keeps) (auto intro!: keeps keeping_on_sdp sound_planB_stop split: prod.split)

lemma stop_one_ready: "triple (hinv cfg False) (pb_stop_one localId) (\<lambda>_. hinv cfg True) (hinv cfg False)"
proof (rule tripleI)
  fix s s' :: "('w, 't) hstate" and r
  assume inv: "hinv cfg False s" and run: "pb_stop_one localId s = (s', r)"
  have kept: "hinv cfg False s'" using keeping_stop_one [of cfg False localId] inv run by (metis keeping_def fst_conv)
  have "h_transportReady (hs_handler s')" if "r = Inr x" for x
  proof -
    have "h_mapRecvLocalIdInfo (hs_handler s) \<noteq> []"
      using run that by (auto simp: pb_stop_one_def io_bind_def io_then_def ask_def read_def on_handler_def modify_def raise_def jm_get_def split: option.splits)
    then have "hinv cfg True s" using inv by (auto simp: hinv_def handler_ok_def)
    then have "hinv cfg True s'" using keeping_stop_one [of cfg True localId] run by (metis keeping_def fst_conv)
    then show ?thesis by (simp add: hinv_True)
  qed
  with kept show "case r of Inr x \<Rightarrow> hinv cfg True s' | Inl _ \<Rightarrow> hinv cfg False s'" by (simp add: hinv_True split: sum.split)
qed

lemma pb_stopReceiving_keeps: "localIds \<noteq> [] \<Longrightarrow> keeping (hinv cfg False) (pb_stopReceiving pc localIds)"
  unfolding pb_stopReceiving_def
  by (intro keeping_then keeping_asserts keeping_upgrade_then each_upgrade stop_one_ready keeping_stop_one keeps; assumption)

lemma keeping_pb_section: "rx_kind o' \<noteq> [] \<Longrightarrow> keeping (hinv cfg b) (pb_section stream o')"
  unfolding pb_section_def by (intro keeping_on_sdp sound_receive)

lemma pb_answer_keeps: "(\<And>o'. keeping (hinv cfg True) (found o')) \<Longrightarrow> keeping (hinv cfg False) (pb_answer pc found options)"
  unfolding pb_answer_def pb_store_def
  by (intro keeping_then keeping_bind keeping_upgrade_then ensure_ready keeping_set_remote keeping_host keeping_basic) (auto intro!: keeps)

lemma keeping_found [keeps]: "keeping (hinv cfg b) (found_receiver pb o')" "keeping (hinv cfg b) (found_track tb streamId o')"
  unfolding found_receiver_def found_track_def by (intro keeps)+

section \<open>Runs\<close>

fun pb_fits ::
    "(track_kind \<Rightarrow> string \<Rightarrow> jsobj list option \<Rightarrow> ('w, 't, planb_prepared) hio) \<Rightarrow> ('w, 't) host \<Rightarrow> ('w, 't) hstate \<Rightarrow> handler_call \<Rightarrow> bool" where
  "pb_fits prep pc s (DoSend kind trackId encodings codecOptions capCodec) =
     (case prep kind trackId encodings s of (s', Inr p) \<Rightarrow> pb_section_fits p s' | _ \<Rightarrow> True)"
| "pb_fits prep pc s (DoSendDataChannel options) = (case c70_data_prepare pc options s of (s', Inr p) \<Rightarrow> data_fits p s' | _ \<Rightarrow> True)"
| "pb_fits prep pc s (DoReceive options) = list_all (\<lambda>o'. rx_kind o' \<noteq> []) options"
| "pb_fits prep pc s (DoReceiveDataChannel options) = (h_hasDataChannelMediaSection (hs_handler s) \<or> new_mid ''datachannel'' s)"
| "pb_fits prep pc s (DoStopReceiving localIds) = (localIds \<noteq> [])"
| "pb_fits prep pc s _ = True"

lemma pb_common_keeps:
  assumes inv: "hinv (SCTP_NUM_STREAMS, forced) False s" and fits: "pb_fits prep pc s c"
  shows "c = DoSendDataChannel request \<Longrightarrow> hinv (SCTP_NUM_STREAMS, forced) False (fst (c70_sendDataChannel pc request s))"
    "c = DoReceiveDataChannel request \<Longrightarrow> hinv (SCTP_NUM_STREAMS, forced) False (fst (receive_data True pc request s))"
    "c = DoStopReceiving localIds \<Longrightarrow> hinv (SCTP_NUM_STREAMS, forced) False (fst (pb_stopReceiving pc localIds s))"
proof -
  show "c = DoSendDataChannel request \<Longrightarrow> hinv (SCTP_NUM_STREAMS, forced) False (fst (c70_sendDataChannel pc request s))"
    using c70_send_data_keeps [OF inv] fits by simp
  show "c = DoReceiveDataChannel request \<Longrightarrow> hinv (SCTP_NUM_STREAMS, forced) False (fst (receive_data True pc request s))"
    using receive_data_sound [OF inv] fits by (simp add: data_expected_def)
  show "c = DoStopReceiving localIds \<Longrightarrow> hinv (SCTP_NUM_STREAMS, forced) False (fst (pb_stopReceiving pc localIds s))"
    using pb_stopReceiving_keeps [of localIds "(SCTP_NUM_STREAMS, forced)" pc] inv fits by (simp add: keeping_def)
qed

lemma keeping_always:
  "keeping (hinv cfg False) (c70_restartIce pc p)" "keeping (hinv cfg False) (c70_updateIceServers pc servers)" "keeping (hinv cfg False) (c70_close pc)"
  "keeping (hinv cfg False) (c70_pauseSending localId)" "keeping (hinv cfg False) (c70_resumeSending localId)"
  "keeping (hinv cfg False) (c70_pauseReceiving localIds)" "keeping (hinv cfg False) (c70_resumeReceiving localIds)"
  by (rule restart_keeps c70_others_keep)+

lemma p67_sending_keeps:
  "keeping (hinv cfg False) (p67_stopSending pb localId)" "keeping (hinv cfg False) (s11_stopSending pb localId)"
  "keeping (hinv cfg False) (p67_replaceTrack pb localId track)" "keeping (hinv cfg False) (p67_set_encodings pb localId f)"
  unfolding p67_stopSending_def s11_stopSending_def p67_replaceTrack_def p67_set_encodings_def
  by (rule keeps keeping_upgrade [OF find_sender_ready])+

lemma p55_sending_keeps:
  "keeping (hinv cfg False) (p55_stopSending pb localId)" "keeping (hinv cfg False) (p55_replaceTrack localId track)"
  "keeping (hinv cfg False) (p55_setMaxSpatialLayer localId layer)" "keeping (hinv cfg False) (p55_setRtpEncodingParameters localId params)"
  "keeping (hinv cfg False) (rnb_setMaxSpatialLayer localId layer)" "keeping (hinv cfg False) (rnb_setRtpEncodingParameters localId params)"
  "keeping (hinv cfg False) (rnb_close release pc)"
  unfolding p55_stopSending_def p55_replaceTrack_def p55_setMaxSpatialLayer_def p55_setRtpEncodingParameters_def
    rnb_setMaxSpatialLayer_def rnb_setRtpEncodingParameters_def rnb_close_def
  by (rule keeps keeping_upgrade [OF find_object_ready] keeping_always)+

lemma pb_receive_keeps:
  assumes "list_all (\<lambda>o'. rx_kind o' \<noteq> []) options"
  shows "keeping (hinv cfg False) (p67_receive pb options)" "keeping (hinv cfg False) (p55_receive tb options)" "keeping (hinv cfg False) (rnb_receive tb options)"
proof -
  have sections: "keeping (hinv cfg False) (each (pb_section f) options)" for f
    using assms by (intro keeping_each_set keeping_pb_section) (auto simp: list_all_iff)
  have hacked: "keeping (hinv cfg False) (each (rnb_section tb) options)"
    using assms unfolding rnb_section_def by (intro keeping_each_set keeps keeping_pb_section) (auto simp: list_all_iff)
  show "keeping (hinv cfg False) (p67_receive pb options)" "keeping (hinv cfg False) (p55_receive tb options)" "keeping (hinv cfg False) (rnb_receive tb options)"
    unfolding p67_receive_def p55_receive_def rnb_receive_def Let_def
    by (intro keeping_then keeping_bind keeping_asserts sections hacked pb_answer_keeps keeping_found)+
qed

lemma p67_send_keeps:
  assumes "hinv cfg False s" "pb_fits (p67_prepare lib pb) pc s (DoSend kind trackId encodings opts capCodec)"
  shows "hinv cfg False (fst (p67_send lib pb kind trackId encodings opts s))"
  unfolding p67_send_def p67_prepare_def
  by (rule staged [OF pb_prepare_ready pb_finish_keeps _ assms(1) assms(2) [unfolded pb_fits.simps p67_prepare_def]])

lemma p55_send_keeps:
  assumes "hinv cfg False s" "pb_fits (p55_prepare lib pb) pc s (DoSend kind trackId encodings opts capCodec)"
  shows "hinv cfg False (fst (p55_send lib pb kind trackId encodings opts s))" "hinv cfg False (fst (rnb_send lib pb kind trackId encodings opts s))"
  unfolding p55_send_def rnb_send_def p55_prepare_def
  by (rule staged [OF pb_prepare_ready pb_finish_keeps _ assms(1) assms(2) [unfolded pb_fits.simps p55_prepare_def]], assumption)+

interpretation chrome67: sdp_handler "p67_call lib pb" "pb_fits (p67_prepare lib pb) (pb_pc pb)" "(SCTP_NUM_STREAMS, forced)" for lib pb forced
proof
  fix s :: "('a, 'b) hstate" and c
  let ?I = "hinv (SCTP_NUM_STREAMS, forced) False"
  assume inv: "?I s" and fits: "pb_fits (p67_prepare lib pb) (pb_pc pb) s c"
  note common = pb_common_keeps [OF this]
  have k: "?I (fst (m s))" if "keeping ?I m" for m :: "('a, 'b, 'x) hio" using that inv by (simp add: keeping_def)
  show "?I (fst (p67_call lib pb c s))"
    by (cases c) (use p67_send_keeps [OF inv, of lib pb "pb_pc pb"] fits common in \<open>simp_all add: same_method quiet_fst k keeping_always p67_sending_keeps
      pb_receive_keeps p67_setMaxSpatialLayer_def p67_setRtpEncodingParameters_def\<close>)
qed

interpretation safari11: sdp_handler "s11_call lib pb" "pb_fits (p67_prepare lib pb) (pb_pc pb)" "(SCTP_NUM_STREAMS, forced)" for lib pb forced
proof
  fix s :: "('a, 'b) hstate" and c
  let ?I = "hinv (SCTP_NUM_STREAMS, forced) False"
  assume inv: "?I s" and fits: "pb_fits (p67_prepare lib pb) (pb_pc pb) s c"
  note common = pb_common_keeps [OF this]
  have k: "?I (fst (m s))" if "keeping ?I m" for m :: "('a, 'b, 'x) hio" using that inv by (simp add: keeping_def)
  show "?I (fst (s11_call lib pb c s))"
    by (cases c) (use p67_send_keeps [OF inv, of lib pb "pb_pc pb"] fits common in \<open>simp_all add: same_method quiet_fst k keeping_always p67_sending_keeps
      pb_receive_keeps p67_setMaxSpatialLayer_def p67_setRtpEncodingParameters_def\<close>)
qed

interpretation chrome55: sdp_handler "p55_call lib pb" "pb_fits (p55_prepare lib pb) (pb_pc pb)" "(SCTP_NUM_STREAMS, forced)" for lib pb forced
proof
  fix s :: "('a, string) hstate" and c
  let ?I = "hinv (SCTP_NUM_STREAMS, forced) False"
  assume inv: "?I s" and fits: "pb_fits (p55_prepare lib pb) (pb_pc pb) s c"
  note common = pb_common_keeps [OF this]
  have k: "?I (fst (m s))" if "keeping ?I m" for m :: "('a, string, 'x) hio" using that inv by (simp add: keeping_def)
  show "?I (fst (p55_call lib pb c s))"
    by (cases c) (use p55_send_keeps [OF inv, of lib pb "pb_pc pb"] fits common in \<open>simp_all add: same_method quiet_fst k keeping_always p55_sending_keeps pb_receive_keeps\<close>)
qed

interpretation react_native_b: sdp_handler "rnb_call release lib pb" "pb_fits (p55_prepare lib pb) (pb_pc pb)" "(SCTP_NUM_STREAMS, forced)"
  for release lib pb forced
proof
  fix s :: "('a, string) hstate" and c
  let ?I = "hinv (SCTP_NUM_STREAMS, forced) False"
  assume inv: "?I s" and fits: "pb_fits (p55_prepare lib pb) (pb_pc pb) s c"
  note common = pb_common_keeps [OF this]
  have k: "?I (fst (m s))" if "keeping ?I m" for m :: "('a, string, 'x) hio" using that inv by (simp add: keeping_def)
  show "?I (fst (rnb_call release lib pb c s))"
    by (cases c) (use p55_send_keeps [OF inv, of lib pb "pb_pc pb"] fits common in \<open>simp_all add: same_method quiet_fst k keeping_always p55_sending_keeps pb_receive_keeps\<close>)
qed

lemma pb_started:
  assumes "pb_run pc direction env extended (fresh w) = (s, Inr ())" "open_env env"
  shows "hinv (SCTP_NUM_STREAMS, h_forcedLocalDtlsRole (hs_handler s)) False s"
proof -
  have "open_env (env\<lparr>se_planB := True\<rparr>)" using assms(2) by (simp add: open_env_def)
  with started_run [OF disjI2 [OF refl] assms(1) [unfolded pb_run_def]] show ?thesis by simp
qed

text \<open>C32: Over every run of calls of the Plan-B handler of \<open>Chrome67.js\<close>, with failures of the peer connection and of the listeners
  at any point, the remote description stays consistent although tracks share their sections, its versions count up by one, the
  transport is connected at most once, with complementary roles and before any local description, and data channels get the
  stream identifiers in turn, as long as the run keeps to these conditions: each section that the peer connection
  offers for a new track has a mid that is not empty and not in the remote description yet, or that of an open section, which the track then shares;
  a call that adds the section of the data channels is made only while the description has no section of that mid, so
  neither \<open>sendDataChannel\<close> nor \<open>receiveDataChannel\<close> is tried again after a negotiation that failed once the section was made
  (\<open>data_section_duplicated\<close> shows what becomes of the description otherwise); no consumer has an empty string as its kind; no
  empty list of consumers is stopped, which \<open>Transport\<close> never does; and the port of plain RTP parameters, if
  any, is not 0.\<close>

theorem chrome67_run_sound:
  assumes "p67_run (pb_pc pb) direction env extended (fresh w) = (s0, Inr ())" "open_env env"
    "runs_fit (p67_call lib pb) (pb_fits (p67_prepare lib pb) (pb_pc pb)) s0 calls"
  shows "handler_sound 1024 (foldl (call_step (p67_call lib pb)) s0 calls)"
proof -
  note start = pb_started [OF assms(1) [unfolded p67_run_def] assms(2)]
  show ?thesis
    using chrome67.run_descriptions [OF start assms(3)] chrome67.run_connected [OF start assms(3)] chrome67.run_channels [OF start assms(3)]
    by (simp add: handler_sound_def SCTP_NUM_STREAMS_def)
qed

text \<open>The same holds, under the same conditions, of the handlers of \<open>Safari11.js\<close>, \<open>Chrome55.js\<close> and \<open>ReactNative.js\<close>.\<close>

theorem safari11_run_sound:
  assumes "s11_run (pb_pc pb) direction env extended (fresh w) = (s0, Inr ())" "open_env env"
    "runs_fit (s11_call lib pb) (pb_fits (p67_prepare lib pb) (pb_pc pb)) s0 calls"
  shows "handler_sound 1024 (foldl (call_step (s11_call lib pb)) s0 calls)"
proof -
  note start = pb_started [OF assms(1) [unfolded s11_run_def] assms(2)]
  show ?thesis
    using safari11.run_descriptions [OF start assms(3)] safari11.run_connected [OF start assms(3)] safari11.run_channels [OF start assms(3)]
    by (simp add: handler_sound_def SCTP_NUM_STREAMS_def)
qed

theorem chrome55_run_sound:
  assumes "p55_run (pb_pc pb) direction env extended (fresh w) = (s0, Inr ())" "open_env env"
    "runs_fit (p55_call lib pb) (pb_fits (p55_prepare lib pb) (pb_pc pb)) s0 calls"
  shows "handler_sound 1024 (foldl (call_step (p55_call lib pb)) s0 calls)"
proof -
  note start = pb_started [OF assms(1) [unfolded p55_run_def] assms(2)]
  show ?thesis
    using chrome55.run_descriptions [OF start assms(3)] chrome55.run_connected [OF start assms(3)] chrome55.run_channels [OF start assms(3)]
    by (simp add: handler_sound_def SCTP_NUM_STREAMS_def)
qed

theorem react_native_planB_run_sound:
  assumes "rnb_run (pb_pc pb) direction env extended (fresh w) = (s0, Inr ())" "open_env env"
    "runs_fit (rnb_call release lib pb) (pb_fits (p55_prepare lib pb) (pb_pc pb)) s0 calls"
  shows "handler_sound 1024 (foldl (call_step (rnb_call release lib pb)) s0 calls)"
proof -
  note start = pb_started [OF assms(1) [unfolded rnb_run_def] assms(2)]
  show ?thesis
    using react_native_b.run_descriptions [OF start assms(3)] react_native_b.run_connected [OF start assms(3)] react_native_b.run_channels [OF start assms(3)]
    by (simp add: handler_sound_def SCTP_NUM_STREAMS_def)
qed

section \<open>Senders\<close>

text \<open>What the pieces other than \<open>send\<close> and \<open>stopSending\<close> leave alone: the senders and the next number.\<close>

definition senders_are :: "(string option, 't) jsmap \<Rightarrow> nat \<Rightarrow> ('w, 't) hstate \<Rightarrow> bool" where
  "senders_are M n s \<longleftrightarrow> h_mapMidTransceiver (hs_handler s) = M \<and> h_nextSendLocalId (hs_handler s) = n"

lemma senders_pieces [keeps]:
  "keeping (senders_are M n) (host_call f)" "keeping (senders_are M n) (log_event e)" "keeping (senders_are M n) (connect_call pc p)"
  "keeping (senders_are M n) (ask g)" "keeping (senders_are M n) (look h)"
  by (auto simp: keeping_def host_call_def log_event_def modify_def connect_call_def ask_def look_def read_def senders_are_def split: prod.splits)

lemma senders_on_handler:
  "(\<And>h. h_mapMidTransceiver (f h) = h_mapMidTransceiver h) \<Longrightarrow> (\<And>h. h_nextSendLocalId (f h) = h_nextSendLocalId h) \<Longrightarrow> keeping (senders_are M n) (on_handler f)"
  by (simp add: keeping_def on_handler_def modify_def senders_are_def)

lemma senders_fields [keeps]:
  "keeping (senders_are M n) (on_handler (stream_add t))" "keeping (senders_are M n) (on_handler (stream_remove t))"
  "keeping (senders_are M n) (on_handler (\<lambda>h. h\<lparr>h_transportReady := b\<rparr>))" "keeping (senders_are M n) (on_handler (\<lambda>h. h\<lparr>h_hasDataChannelMediaSection := b\<rparr>))"
  "keeping (senders_are M n) (on_handler (\<lambda>h. h\<lparr>h_nextSendSctpStreamId := k h\<rparr>))" "keeping (senders_are M n) (on_handler (\<lambda>h. h\<lparr>h_mapRecvLocalIdInfo := m h\<rparr>))"
  "keeping (senders_are M n) (on_handler (\<lambda>h. h\<lparr>h_remoteSdp := r\<rparr>))"
  by (rule senders_on_handler; simp add: stream_add_def stream_remove_def)+

lemma senders_sdp [keeps]: "keeping (senders_are M n) (on_sdp f)"
  unfolding on_sdp_def by (intro keeps) (auto intro!: keeps split: prod.split)

lemma senders_asserts [keeps]: "keeping (senders_are M n) assertSendDirection" "keeping (senders_are M n) assertRecvDirection"
  unfolding assertSendDirection_def assertRecvDirection_def by (intro keeps)+

lemma senders_exchange [keeps]:
  "keeping (senders_are M n) (set_local pc sdp)" "keeping (senders_are M n) (set_remote pc)" "keeping (senders_are M n) (answer_remote pc)"
  "keeping (senders_are M n) (offer_answer pc x)" "keeping (senders_are M n) (ensure_transport pc o')"
  "keeping (senders_are M n) (for_track stream_add track)" "keeping (senders_are M n) (for_track stream_remove track)"
  "keeping (senders_are M n) (find_sender localId)"
  unfolding set_local_def set_remote_def answer_remote_def offer_answer_def ensure_transport_def setupTransport_def for_track_def find_sender_def find_object_def
    case_prod_beta
  by (intro keeps)+

lemma senders_prepare: "keeping (senders_are M n) (pb_prepare add lib pc kind trackId encodings)"
  unfolding pb_prepare_def case_prod_beta by (intro keeps)

lemma triple_bind_ask: "(\<And>x. triple P (g x) R E) \<Longrightarrow> triple P (io_bind (ask f) g) R E"
  unfolding ask_def by (rule triple_bind_read)

definition sender_added :: "(string option, 't) jsmap \<Rightarrow> nat \<Rightarrow> string \<Rightarrow> ('w, 't) hstate \<Rightarrow> bool" where
  "sender_added M n localId s \<longleftrightarrow>
     localId = nat_str n \<and> (\<exists>x. senders_are (case x of None \<Rightarrow> M | Some t \<Rightarrow> jm_set (Some localId) t M) (n + 1) s)"

lemma senders_finish:
  "triple (senders_are M n) (pb_finish mimes object pc kind trackId encodings opts p) (\<lambda>q. sender_added M n (fst q)) (senders_are M n)"
proof -
  have tail: "triple (senders_are M n) (io_bind (ask h_nextSendLocalId) (\<lambda>n. io_then (on_handler (\<lambda>h. h\<lparr>h_nextSendLocalId := n + 1\<rparr>))
      (io_bind (look object) (\<lambda>x. io_then (case x of None \<Rightarrow> ret ()
         | Some t \<Rightarrow> on_handler (\<lambda>h. h\<lparr>h_mapMidTransceiver := jm_set (Some (nat_str n)) t (h_mapMidTransceiver h)\<rparr>)) (ret (nat_str n, y))))))
     (\<lambda>q. sender_added M n (fst q)) (senders_are M n)" for y
    by (rule tripleI) (auto simp: io_bind_def io_then_def ask_def look_def read_def on_handler_def modify_def ret_def senders_are_def sender_added_def
        intro: exI [of _ None] exI [of _ "Some _"] split: option.splits)
  show ?thesis
  proof (cases "pq_offer p")
    case None
    then show ?thesis unfolding pb_finish_def None option.case by (intro triple_raise)
  next
    case (Some m)
    show ?thesis unfolding pb_finish_def Some option.case case_prod_beta
      by (rule tail triple_bind_lift triple_bind_ask triple_then [OF senders_exchange(2) [unfolded keeping_triple]]
          triple_bind [OF senders_sdp [unfolded keeping_triple]] | assumption)+
  qed
qed

text \<open>Every sender has a number below the next one, and the next one is not below a given bound.\<close>

definition ids_below :: "nat \<Rightarrow> ('w, 't) hstate \<Rightarrow> bool" where
  "ids_below lo s \<longleftrightarrow> lo \<le> h_nextSendLocalId (hs_handler s) \<and>
     (\<forall>k \<in> fst ` set (h_mapMidTransceiver (hs_handler s)). \<exists>i < h_nextSendLocalId (hs_handler s). k = Some (nat_str i))"

lemma silent_ids:
  fixes m :: "('w, 't, 'a) hio"
  assumes "\<And>M n. keeping (senders_are M n) m"
  shows "keeping (ids_below lo) m"
  unfolding keeping_def
proof (intro allI impI)
  fix s :: "('w, 't) hstate" assume "ids_below lo s"
  moreover have "senders_are (h_mapMidTransceiver (hs_handler s)) (h_nextSendLocalId (hs_handler s)) (fst (m s))"
    using assms by (simp add: keeping_def senders_are_def)
  ultimately show "ids_below lo (fst (m s))" by (simp add: ids_below_def senders_are_def)
qed

lemma silent_others:
  "keeping (senders_are M n) (p67_replaceTrack pb localId track)" "keeping (senders_are M n) (p67_set_encodings pb localId f)"
  "keeping (senders_are M n) (c70_sendDataChannel pc request)" "keeping (senders_are M n) (p67_receive pb options)"
  "keeping (senders_are M n) (pb_stopReceiving pc localIds)" "keeping (senders_are M n) (receive_data old pc request)"
  "keeping (senders_are M n) (c70_restartIce pc p)" "keeping (senders_are M n) (c70_updateIceServers pc servers)" "keeping (senders_are M n) (c70_close pc)"
  "keeping (senders_are M n) (c70_pauseSending localId)" "keeping (senders_are M n) (c70_resumeSending localId)"
  "keeping (senders_are M n) (c70_pauseReceiving localIds)" "keeping (senders_are M n) (c70_resumeReceiving localIds)"
  "keeping (senders_are M n) (pb_renegotiate pb)"
  unfolding p67_replaceTrack_def p67_set_encodings_def c70_sendDataChannel_def c70_data_prepare_def open_channel_def channel_call_def sctp_prepare_def
    data_finish_def Let_def p67_receive_def pb_section_def pb_answer_def pb_store_def found_receiver_def pb_stopReceiving_def pb_stop_one_def receive_data_def
    c70_restartIce_def c70_updateIceServers_def c70_close_def c70_pauseSending_def c70_resumeSending_def c70_pauseReceiving_def c70_resumeReceiving_def
    pb_renegotiate_def case_prod_beta
  by (intro keeps)+

lemmas ids_others = silent_others [THEN silent_ids]

lemma ids_step: "ids_below lo s \<Longrightarrow> keeping (ids_below lo) m \<Longrightarrow> ids_below lo (fst (m s))"
  by (simp add: keeping_def)

lemma delete_ids: "keeping (ids_below lo) (on_handler (\<lambda>h. h\<lparr>h_mapMidTransceiver := jm_delete k (h_mapMidTransceiver h)\<rparr>))"
  by (auto simp: keeping_def on_handler_def modify_def ids_below_def jm_delete_def)

lemma stop_ids: "keeping (ids_below lo) (p67_stopSending pb localId)"
  unfolding p67_stopSending_def
  by (intro keeping_then keeping_bind delete_ids; rule silent_ids; rule keeps silent_others)

lemma set_ids:
  assumes "ids_below lo s" "sender_added (h_mapMidTransceiver (hs_handler s)) (h_nextSendLocalId (hs_handler s)) localId s'"
  shows "ids_below lo s'"
proof -
  obtain x where x: "localId = nat_str (h_nextSendLocalId (hs_handler s))" "h_nextSendLocalId (hs_handler s') = h_nextSendLocalId (hs_handler s) + 1"
      "h_mapMidTransceiver (hs_handler s') = (case x of None \<Rightarrow> h_mapMidTransceiver (hs_handler s) | Some t \<Rightarrow> jm_set (Some localId) t (h_mapMidTransceiver (hs_handler s)))"
    using assms(2) by (auto simp: sender_added_def senders_are_def)
  have "fst ` set (h_mapMidTransceiver (hs_handler s')) \<subseteq> insert (Some localId) (fst ` set (h_mapMidTransceiver (hs_handler s)))"
    by (auto simp: x(3) image_set map_fst_jm_set simp del: set_map split: option.splits if_splits)
  moreover have "\<exists>i < h_nextSendLocalId (hs_handler s'). k = Some (nat_str i)"
    if "k \<in> insert (Some localId) (fst ` set (h_mapMidTransceiver (hs_handler s)))" for k
    using that assms(1) unfolding ids_below_def x(1,2) by (auto intro: less_SucI)
  ultimately show ?thesis using assms(1) unfolding ids_below_def x(2) by auto
qed

lemma send_effect:
  assumes "p67_send lib pb kind trackId encodings opts s = (s', res)"
  shows "case res of
      Inr q \<Rightarrow> sender_added (h_mapMidTransceiver (hs_handler s)) (h_nextSendLocalId (hs_handler s)) (fst q) s'
    | Inl _ \<Rightarrow> senders_are (h_mapMidTransceiver (hs_handler s)) (h_nextSendLocalId (hs_handler s)) s'"
proof -
  let ?M = "h_mapMidTransceiver (hs_handler s)" and ?n = "h_nextSendLocalId (hs_handler s)"
  have "triple (senders_are ?M ?n) (p67_send lib pb kind trackId encodings opts) (\<lambda>q. sender_added ?M ?n (fst q)) (senders_are ?M ?n)"
    unfolding p67_send_def p67_prepare_def
    by (rule triple_bind [OF senders_prepare [unfolded keeping_triple] senders_finish])
  from tripleD [OF this _ assms] show ?thesis by (simp add: senders_are_def)
qed

lemma call_ids: "ids_below lo s \<Longrightarrow> ids_below lo (fst (p67_call lib pb c s))"
proof (cases c)
  case (DoSend kind trackId encodings opts capCodec)
  assume ids: "ids_below lo s"
  obtain s' res where run: "p67_send lib pb kind trackId encodings opts s = (s', res)" by fastforce
  have "ids_below lo s'"
  proof (cases res)
    case (Inr q)
    with send_effect [OF run] set_ids [OF ids] show ?thesis by simp
  next
    case (Inl e)
    with send_effect [OF run] ids show ?thesis by (simp add: senders_are_def ids_below_def)
  qed
  with DoSend run show ?thesis by (simp add: quiet_fst)
qed (simp_all add: same_method quiet_fst p67_setMaxSpatialLayer_def p67_setRtpEncodingParameters_def ids_step stop_ids ids_others)

lemma run_ids: "ids_below lo s \<Longrightarrow> ids_below lo (foldl (call_step (p67_call lib pb)) s calls)"
  by (induction calls arbitrary: s) (simp_all add: call_step_def call_ids)

lemma nat_str_inj: "nat_str m = nat_str n \<longleftrightarrow> m = n"
  by (metis nat_str_facts(1))

lemma started_ids: "p67_run pc direction env extended (fresh w) = (s, Inr ()) \<Longrightarrow> ids_below 0 s"
  by (auto simp: p67_run_def pb_run_def c74_run_def fresh_def run_simps new_Chrome111_def ids_below_def split: sum.splits prod.splits)

text \<open>C33: In the handler of \<open>Chrome67.js\<close> the identifier of a producer is never given again: over every run of calls, failures included,
  a later \<open>send\<close> returns another identifier than an earlier one, also when that one was stopped, and it is not the identifier of a
  sender the handler still has.\<close>

theorem planB_ids_never_reused:
  assumes "p67_run (pb_pc pb) direction env extended (fresh w) = (s0, Inr ())"
    and "s = foldl (call_step (p67_call lib pb)) s0 calls" "p67_send lib pb kind trackId encodings opts s = (s', Inr (localId, ps))"
    and "t = foldl (call_step (p67_call lib pb)) s' later" "p67_send lib pb kind' trackId' encodings' opts' t = (t', Inr (localId', ps'))"
  shows "localId' \<noteq> localId \<and> jm_get (h_mapMidTransceiver (hs_handler t)) (Some localId') = None"
proof -
  have "ids_below 0 s" unfolding assms(2) by (rule run_ids [OF started_ids [OF assms(1)]])
  with send_effect [OF assms(3)] set_ids [of 0 s localId s'] have s': "localId = nat_str (h_nextSendLocalId (hs_handler s))"
      "h_nextSendLocalId (hs_handler s') = h_nextSendLocalId (hs_handler s) + 1" "ids_below 0 s'"
    by (auto simp: sender_added_def senders_are_def)
  from s'(2,3) have "ids_below (h_nextSendLocalId (hs_handler s) + 1) s'" by (simp add: ids_below_def)
  from run_ids [OF this, of lib pb later] have t: "ids_below (h_nextSendLocalId (hs_handler s) + 1) t" by (simp add: assms(4))
  from send_effect [OF assms(5)] have t': "localId' = nat_str (h_nextSendLocalId (hs_handler t))" by (simp add: sender_added_def)
  have "Some localId' \<notin> fst ` set (h_mapMidTransceiver (hs_handler t))"
    using t unfolding ids_below_def t' by (auto simp: nat_str_inj)
  then have "jm_get (h_mapMidTransceiver (hs_handler t)) (Some localId') = None" by (simp add: jm_get_def map_of_eq_None_iff)
  moreover have "localId' \<noteq> localId" using t s'(1) t' by (simp add: nat_str_inj ids_below_def)
  ultimately show ?thesis by simp
qed

section \<open>Examples\<close>

definition stream_lines_of :: "string \<Rightarrow> number \<Rightarrow> ssrc_line list" where
  "stream_lines_of t n = [\<lparr>sl_id = VNum n, sl_attribute = ''cname'', sl_value = ''c''\<rparr>, \<lparr>sl_id = VNum n, sl_attribute = ''msid'', sl_value = ''s '' @ t\<rparr>]"

definition audio_section :: media_object where
  "audio_section = empty_media\<lparr>mo_mid := ''audio'', mo_type := ''audio'', mo_port := Fin 9,
     mo_ssrcs := Some (stream_lines_of ''a'' (Fin 1) @ stream_lines_of ''b'' (Fin 2))\<rparr>"

definition planb_example :: "(string list, string) planb_host" where
  "planb_example = \<lparr>pb_pc = echo_host\<lparr>sdp_parse := (\<lambda>_. \<lparr>so_setup = Some ''active'', so_fingerprint = Some (''sha-256'', ''BB''), so_connection = None,
       so_media = [audio_section]\<rparr>)\<rparr>,
     pb_addTrack = (\<lambda>_ w. (w, Inr ())), pb_addStream = (\<lambda>_ w. (w, Inr ())), pb_senderOf = (\<lambda>t _. Some t), pb_senderTrack = (\<lambda>t _. Some t),
     pb_receiverOf = (\<lambda>t _. Some t), pb_remoteStream = (\<lambda>_ _. Some [''a'', ''b'']), pb_stable = (\<lambda>_. False), pb_random = (\<lambda>w. (w, Inr ''7''))\<rparr>"

definition pcmu_extended :: extended_capabilities where
  "pcmu_extended = \<lparr>xr_codecs = [\<lparr>xc_mimeType = ''audio/PCMU'', xc_kind = KAudio, xc_clockRate = Fin 8000, xc_channels = None,
     xc_localPayloadType = Some (Fin 0), xc_localRtxPayloadType = None, xc_remotePayloadType = Some (Fin 0), xc_remoteRtxPayloadType = None,
     xc_localParameters = [], xc_remoteParameters = [], xc_rtcpFeedback = []\<rparr>], xr_headerExtensions = []\<rparr>"

definition planb_running :: "handler_direction \<Rightarrow> (string list, string) hstate" where
  "planb_running d = fst (pb_run (pb_pc planb_example) d sctp_env pcmu_extended (fresh []))"

definition planb_sends :: "handler_call list" where
  "planb_sends = [DoSend KAudio ''a'' None None None, DoSend KAudio ''b'' None None None, DoStopSending ''0'']"

lemma planb_started: "pb_run (pb_pc planb_example) d sctp_env pcmu_extended (fresh []) = (planb_running d, Inr ())"
  by (simp add: planb_running_def pb_run_def c74_run_def fresh_def run_simps new_Chrome111_def new_RemoteSdp_def sctp_env_def dtls_env_def
      Let_def echo_host_def planb_example_def)

theorem chrome67_run_sound_witness:
  "handler_sound 1024 (foldl (call_step (p67_call no_h264 planb_example)) (planb_running DirSend) planb_sends) \<and>
   h_sendStream (hs_handler (foldl (call_step (p67_call no_h264 planb_example)) (planb_running DirSend) planb_sends)) = [''b'']"
proof -
  have "runs_fit (p67_call no_h264 planb_example) (pb_fits (p67_prepare no_h264 planb_example) (pb_pc planb_example)) (planb_running DirSend) planb_sends"
    by code_simp
  moreover have "h_sendStream (hs_handler (foldl (call_step (p67_call no_h264 planb_example)) (planb_running DirSend) planb_sends)) = [''b'']" by code_simp
  ultimately show ?thesis using chrome67_run_sound [OF planb_started [folded p67_run_def] running_ok(2)] by simp
qed

theorem planB_ids_never_reused_witness:
  "\<exists>s' localId t' localId'. (\<exists>ps. p67_send no_h264 planb_example KAudio ''a'' None None (planb_running DirSend) = (s', Inr (localId, ps))) \<and>
     (\<exists>ps. p67_send no_h264 planb_example KAudio ''b'' None None (foldl (call_step (p67_call no_h264 planb_example)) s' [DoStopSending ''0'']) =
       (t', Inr (localId', ps))) \<and> localId' \<noteq> localId"
proof -
  define s' where "s' = fst (p67_send no_h264 planb_example KAudio ''a'' None None (planb_running DirSend))"
  define t where "t = foldl (call_step (p67_call no_h264 planb_example)) s' [DoStopSending ''0'']"
  have ok: "is_ok (snd (p67_send no_h264 planb_example KAudio ''a'' None None (planb_running DirSend)))" by code_simp
  have ok': "is_ok (snd (p67_send no_h264 planb_example KAudio ''b'' None None (foldl (call_step (p67_call no_h264 planb_example))
      (fst (p67_send no_h264 planb_example KAudio ''a'' None None (planb_running DirSend))) [DoStopSending ''0''])))" by code_simp
  obtain i ps where a: "p67_send no_h264 planb_example KAudio ''a'' None None (planb_running DirSend) = (s', Inr (i, ps))"
    using ok unfolding s'_def by (cases "p67_send no_h264 planb_example KAudio ''a'' None None (planb_running DirSend)") (auto simp: is_ok_def split: sum.splits)
  obtain t' j ps' where b: "p67_send no_h264 planb_example KAudio ''b'' None None t = (t', Inr (j, ps'))"
    using ok' unfolding s'_def [symmetric] t_def [symmetric]
    by (cases "p67_send no_h264 planb_example KAudio ''b'' None None t") (auto simp: is_ok_def split: sum.splits)
  have "j \<noteq> i" using planB_ids_never_reused [OF planb_started [folded p67_run_def, of DirSend] _ a t_def b, of "[]"] by simp
  with a b show ?thesis unfolding t_def by blast
qed

definition planb_receives :: "handler_call list" where
  "planb_receives = [DoReceive [consumer_of ''a'' None, consumer_of ''b'' None], DoStopReceiving [''a''], DoClose]"

theorem chrome55_run_sound_witness:
  "handler_sound 1024 (foldl (call_step (p55_call no_h264 planb_example)) (planb_running DirRecv) planb_receives) \<and>
   jm_keys (h_mapRecvLocalIdInfo (hs_handler (foldl (call_step (p55_call no_h264 planb_example)) (planb_running DirRecv) planb_receives))) = [''b'']"
proof -
  have "runs_fit (p55_call no_h264 planb_example) (pb_fits (p55_prepare no_h264 planb_example) (pb_pc planb_example)) (planb_running DirRecv) planb_receives"
    by code_simp
  moreover have "jm_keys (h_mapRecvLocalIdInfo (hs_handler (foldl (call_step (p55_call no_h264 planb_example)) (planb_running DirRecv) planb_receives))) = [''b'']"
    by code_simp
  ultimately show ?thesis using chrome55_run_sound [OF planb_started [folded p55_run_def] running_ok(2)] by simp
qed

text \<open>A track is put into the stream before anything can fail: when \<open>send\<close> throws, it stays there although nobody sends it. The test for
  an empty stream at the end of \<open>stopSending\<close> then never holds.\<close>

definition no_offers :: "(string list, string) planb_host" where
  "no_offers = planb_example\<lparr>pb_pc := (pb_pc planb_example)\<lparr>pc_createOffer := (\<lambda>_ w. (w, Inl (OtherError ''no offer'')))\<rparr>\<rparr>"

lemma failed_send_keeps_track:
  "let (s, res) = p67_send no_h264 no_offers KAudio ''a'' None None (planb_running DirSend) in
     res = Inl (OtherError ''no offer'') \<and> h_sendStream (hs_handler s) = [''a''] \<and> h_mapMidTransceiver (hs_handler s) = []"
  by code_simp

end
