(* ===== verification/DataTransport.thy ===== *)
theory DataTransport
  imports SendTransport
begin

text \<open>
  \<open>consumeData\<close> of \<open>Transport.js\<close> on top of the receiving side of \<open>Transport\<close>. Its task is one that asks the handler
  for a channel, makes a data consumer of it and enters it in the map of the transport. A request is known by the number of its
  task; data consumers are objects that the map refers to, kept beside their channels and the task that made them. The task
  has asked the handler when it is among those that wait, and the answer is an input.

  The lemmas show which promises are settled and how, that the map holds the open data consumers and no other, and that the
  media side of the transport goes on as if the tasks were of any other kind.
\<close>

section \<open>State\<close>

record data_consume_request =
  dr_id :: string
  dr_dataProducerId :: string
  dr_sctpStreamParameters :: jsval
  dr_label :: string
  dr_protocol :: string

record recv_transport =
  rv_media :: transport
  rv_maxSctpMessageSize :: "number option"
  rv_requests :: "(nat \<times> data_consume_request) list"
  rv_objects :: "(nat \<times> data_consumer \<times> data_channel) list"
  rv_dataConsumers :: "(string, nat) jsmap"
  rv_settled :: "(nat \<times> outcome) list"

definition new_RecvTransport :: "extended_capabilities \<Rightarrow> nat \<Rightarrow> number option \<Rightarrow> recv_transport" where
  "new_RecvTransport extended listeners maxMessageSize =
     \<lparr>rv_media = new_Transport RecvDir extended listeners, rv_maxSctpMessageSize = maxMessageSize, rv_requests = [],
      rv_objects = [], rv_dataConsumers = [], rv_settled = []\<rparr>"

section \<open>Operations\<close>

definition rv_consumeData ::
    "jsval \<Rightarrow> jsval \<Rightarrow> jsval \<Rightarrow> string \<Rightarrow> string \<Rightarrow> jsval \<Rightarrow> recv_transport \<Rightarrow> recv_transport \<times> nat result" where
  "rv_consumeData cid dataProducerId sctpStreamParameters label protocol appData s =
     (let m = rv_media s
      in if tr_closed m then (s, Inl (InvalidStateError ''closed''))
      else if tr_direction m \<noteq> RecvDir then (s, Inl (UnsupportedError ''not a receiving Transport''))
      else if \<not> truthy (opt_num (rv_maxSctpMessageSize s)) then (s, Inl (UnsupportedError ''SCTP not enabled by remote Transport''))
      else case (cid, dataProducerId) of
        (VStr i, VStr pid) \<Rightarrow>
          if tr_connectListeners m = 0 \<and> tr_connectionState m = ''new''
            then (s, Inl (TypeError ''no \"connect\" listener set into this transport''))
          else if truthy appData \<and> \<not> typeof_object appData then (s, Inl (TypeError ''if given, appData must be an object''))
          else (case validateSctpStreamParameters sctpStreamParameters of
              Inl e \<Rightarrow> (s, Inl e)
            | Inr params \<Rightarrow>
                (let task = aq_nextTaskId (tr_awaitQueue m)
                 in (s\<lparr>rv_media := push_task OtherTask m,
                       rv_requests := rv_requests s @ [(task, \<lparr>dr_id = i, dr_dataProducerId = pid,
                         dr_sctpStreamParameters = params, dr_label = label, dr_protocol = protocol\<rparr>)]\<rparr>, Inr task)))
      | (VStr _, _) \<Rightarrow> (s, Inl (TypeError ''missing dataProducerId''))
      | _ \<Rightarrow> (s, Inl (TypeError ''missing id'')))"

text \<open>The promise of a task is settled by the queue, unless the task was stopped.\<close>

definition queue_ids :: "transport \<Rightarrow> nat set" where
  "queue_ids m = fst ` set (contents (tr_awaitQueue m))"

definition settle_data :: "nat \<Rightarrow> outcome \<Rightarrow> recv_transport \<Rightarrow> recv_transport" where
  "settle_data i v s = (if i \<in> queue_ids (rv_media s) then s\<lparr>rv_settled := rv_settled s @ [(i, v)]\<rparr> else s)"

definition create_data_consumer :: "nat \<Rightarrow> data_consume_request \<Rightarrow> recv_transport \<Rightarrow> recv_transport" where
  "create_data_consumer i r s =
     s\<lparr>rv_objects := rv_objects s @ [(i, new_DataConsumer (dr_id r) (dr_dataProducerId r) (dr_sctpStreamParameters r),
         \<lparr>ch_closed = False, ch_sent = []\<rparr>)],
       rv_dataConsumers := jm_set (dr_id r) (length (rv_objects s)) (rv_dataConsumers s)\<rparr>"

text \<open>The task goes on with the answer of the handler; it has been taken from those that wait.\<close>

definition continue_data :: "nat \<Rightarrow> data_consume_request \<Rightarrow> js_error + unit \<Rightarrow> recv_transport \<Rightarrow> recv_transport" where
  "continue_data i r answer s =
     (let s1 = (case answer of
            Inl e \<Rightarrow> settle_data i (Inl e) s
          | Inr _ \<Rightarrow> settle_data i (Inr (dr_id r)) (create_data_consumer i r s))
      in s1\<lparr>rv_media := finish_task i (rv_media s1)\<rparr>)"

text \<open>An operation on a data consumer, with the listener for \<open>@close\<close> that \<open>handleDataConsumer\<close> sets.\<close>

definition on_data_consumer ::
    "(data_consumer \<times> data_channel \<Rightarrow> (data_consumer \<times> data_channel) \<times> bool) \<Rightarrow> nat \<Rightarrow> recv_transport \<Rightarrow> recv_transport" where
  "on_data_consumer f n s =
     (if n < length (rv_objects s)
      then (case rv_objects s ! n of (i, x) \<Rightarrow>
        case f x of (x', ended) \<Rightarrow>
          s\<lparr>rv_objects := (rv_objects s)[n := (i, x')],
            rv_dataConsumers := (if ended then jm_delete (dcs_id (fst x')) (rv_dataConsumers s) else rv_dataConsumers s)\<rparr>)
      else s)"

text \<open>\<open>close\<close>: the queue rejects the promises of the tasks it holds, and the data consumers of the map are closed.\<close>

definition STOPPED :: js_error where
  "STOPPED = OtherError ''AwaitQueue stopped''"

definition close_data_consumers :: "nat list \<Rightarrow> recv_transport \<Rightarrow> recv_transport" where
  "close_data_consumers ns s = foldl (\<lambda>s n. on_data_consumer (\<lambda>x. (dcs_transportClosed x, False)) n s) s ns"

definition rv_close :: "recv_transport \<Rightarrow> recv_transport" where
  "rv_close s =
     (if tr_closed (rv_media s) then s
      else let stopped = filter (\<lambda>i. i \<in> fst ` set (rv_requests s)) (map fst (contents (tr_awaitQueue (rv_media s))));
               s1 = s\<lparr>rv_media := tr_close (rv_media s), rv_settled := rv_settled s @ map (\<lambda>i. (i, Inl STOPPED)) stopped\<rparr>
        in (close_data_consumers (jm_values (rv_dataConsumers s1)) s1)\<lparr>rv_dataConsumers := []\<rparr>)"

section \<open>Runs\<close>

text \<open>What can happen, in any order: what happens to the media side, and the calls and answers for data.\<close>

datatype rv_op =
    Media tr_op
  | ConsumeData jsval jsval jsval string string jsval
  | DataBack nat "js_error + unit"
  | CloseDataConsumer nat
  | DataChannelEvent nat channel_event

text \<open>An answer of the handler is for the task that waits for it.\<close>

definition data_task :: "recv_transport \<Rightarrow> nat \<Rightarrow> (nat \<times> data_consume_request) option" where
  "data_task s n =
     (if n < length (tr_running (rv_media s))
      then let i = fst (tr_running (rv_media s) ! n) in map_option (Pair i) (map_of (rv_requests s) i)
      else None)"

definition media_step :: "tr_op \<Rightarrow> recv_transport \<Rightarrow> recv_transport" where
  "media_step op s = s\<lparr>rv_media := tr_step (rv_media s) op\<rparr>"

fun rv_step :: "recv_transport \<Rightarrow> rv_op \<Rightarrow> recv_transport" where
  "rv_step s (Media op) =
     (case op of
        CloseTransport \<Rightarrow> rv_close s
      | Back n a \<Rightarrow> if data_task s n = None then media_step op s else s
      | _ \<Rightarrow> media_step op s)"
| "rv_step s (ConsumeData cid pid params label protocol appData) = fst (rv_consumeData cid pid params label protocol appData s)"
| "rv_step s (DataBack n a) =
     (case data_task s n of
        None \<Rightarrow> s
      | Some (i, r) \<Rightarrow>
          continue_data i r a (s\<lparr>rv_media := (rv_media s)\<lparr>tr_running := drop_nth n (tr_running (rv_media s))\<rparr>\<rparr>))"
| "rv_step s (CloseDataConsumer n) = on_data_consumer dcs_close n s"
| "rv_step s (DataChannelEvent n e) =
     on_data_consumer (\<lambda>(c, ch). case dcs_handleDataChannel e c of (c', ended) \<Rightarrow> ((c', ch), ended)) n s"

section \<open>What the media side leaves of the tasks for data\<close>

definition waiting_ids :: "transport \<Rightarrow> nat set" where
  "waiting_ids m = fst ` set (tr_running m)"

text \<open>No task of a set leaves the queue; one that now waits did so before or has been started from the queue.\<close>

definition keeps_tasks :: "nat set \<Rightarrow> transport \<Rightarrow> transport \<Rightarrow> bool" where
  "keeps_tasks D m m' \<longleftrightarrow>
     (aq_ok (tr_awaitQueue m) \<and> (\<forall>i \<in> D. i < aq_nextTaskId (tr_awaitQueue m)) \<longrightarrow>
        aq_ok (tr_awaitQueue m') \<and> aq_nextTaskId (tr_awaitQueue m) \<le> aq_nextTaskId (tr_awaitQueue m') \<and>
        queue_ids m' \<inter> D = queue_ids m \<inter> D \<and> waiting_ids m' \<inter> D \<subseteq> queue_ids m \<union> waiting_ids m \<and> tr_closed m' = tr_closed m)"

lemma keeps_tasks_refl [simp]: "keeps_tasks D m m"
  by (auto simp: keeps_tasks_def)

lemma keeps_tasks_trans: "keeps_tasks D m m' \<Longrightarrow> keeps_tasks D m' m'' \<Longrightarrow> keeps_tasks D m m''"
  unfolding keeps_tasks_def by (smt (verit) Int_iff Un_iff order.trans order_less_le_trans subset_iff)

lemma keeps_tasks_frame:
  "tr_awaitQueue m' = tr_awaitQueue m \<Longrightarrow> map fst (tr_running m') = map fst (tr_running m) \<Longrightarrow> tr_closed m' = tr_closed m \<Longrightarrow>
   keeps_tasks D m m'"
  unfolding keeps_tasks_def queue_ids_def waiting_ids_def by (metis Int_lower1 le_refl le_supI2 list.set_map)

lemma begin_task_waiting: "waiting_ids (begin_task i t m) = insert i (waiting_ids m)"
  unfolding waiting_ids_def set_map [symmetric] begin_task_frame by (simp add: waiting_ids_def)

lemma aq_push_next: "aq_nextTaskId (fst (aq_push t q)) = Suc (aq_nextTaskId q)"
  by (simp add: aq_push_def aq_execute_def Let_def)

lemma push_ids:
  assumes ok: "aq_ok (tr_awaitQueue m)"
  shows "queue_ids (push_task t m) = insert (aq_nextTaskId (tr_awaitQueue m)) (queue_ids m)"
    "waiting_ids (push_task t m) \<subseteq> insert (aq_nextTaskId (tr_awaitQueue m)) (waiting_ids m)"
    "aq_nextTaskId (tr_awaitQueue (push_task t m)) = Suc (aq_nextTaskId (tr_awaitQueue m))"
    "aq_ok (tr_awaitQueue (push_task t m))"
proof -
  have q: "tr_awaitQueue (push_task t m) = fst (aq_push t (tr_awaitQueue m))" by (simp add: push_task_eq [OF ok])
  with aq_push_spec [OF ok, of t] show "queue_ids (push_task t m) = insert (aq_nextTaskId (tr_awaitQueue m)) (queue_ids m)"
    "aq_nextTaskId (tr_awaitQueue (push_task t m)) = Suc (aq_nextTaskId (tr_awaitQueue m))" "aq_ok (tr_awaitQueue (push_task t m))"
    by (simp_all add: queue_ids_def aq_push_next)
  show "waiting_ids (push_task t m) \<subseteq> insert (aq_nextTaskId (tr_awaitQueue m)) (waiting_ids m)"
    by (simp add: push_task_eq [OF ok] begin_task_waiting) (auto simp: waiting_ids_def)
qed

lemma keeps_tasks_push: "keeps_tasks D m (push_task t m)"
  using push_ids [of m t] by (auto simp: keeps_tasks_def)

lemma keeps_tasks_flag: "keeps_tasks D m (set_flag t b m)"
  by (rule keeps_tasks_frame) simp_all

lemma keeps_tasks_start: "keeps_tasks D m (start_work t m)"
  unfolding start_work_def by (rule keeps_tasks_trans [OF keeps_tasks_flag keeps_tasks_push])

lemma keeps_tasks_signal: "keeps_tasks D m (on_signal c sig m)"
proof (cases sig)
  case SigClose
  have "keeps_tasks D m (start_work t m')"
    if "tr_awaitQueue m' = tr_awaitQueue m" "tr_running m' = tr_running m" "tr_closed m' = tr_closed m" for m' t
    by (rule keeps_tasks_trans [OF keeps_tasks_frame keeps_tasks_start]) (simp_all add: that)
  moreover have "keeps_tasks D m m'"
    if "tr_awaitQueue m' = tr_awaitQueue m" "tr_running m' = tr_running m" "tr_closed m' = tr_closed m" for m'
    by (rule keeps_tasks_frame) (simp_all add: that)
  ultimately show ?thesis by (simp add: SigClose on_signal_def Let_def start_work_simps)
qed (simp_all add: on_signal_def keeps_tasks_frame)

lemma keeps_tasks_consumer: "keeps_tasks D m (on_consumer f i m)"
proof -
  have fold: "keeps_tasks D m (foldl (\<lambda>s sig. on_signal c sig s) r sigs)" if "keeps_tasks D m r" for c r sigs
    using that by (induction sigs arbitrary: r) (auto intro: keeps_tasks_trans [OF _ keeps_tasks_signal])
  show ?thesis
    by (auto simp: on_consumer_def intro!: fold keeps_tasks_frame split: option.split prod.split)
qed

text \<open>Finishing a task, the first of the queue or one that was stopped, takes it from the queue and starts the next one.\<close>

lemma finish_ids:
  assumes ok: "aq_ok (tr_awaitQueue m)" and head: "i \<in> queue_ids m \<Longrightarrow> i \<in> running (tr_awaitQueue m)"
  shows "queue_ids (finish_task i m) = queue_ids m - {i}"
    "waiting_ids (finish_task i m) \<subseteq> waiting_ids m \<union> (queue_ids m - {i})"
    "aq_nextTaskId (tr_awaitQueue (finish_task i m)) = aq_nextTaskId (tr_awaitQueue m)"
    "aq_ok (tr_awaitQueue (finish_task i m))" "tr_closed (finish_task i m) = tr_closed m"
proof -
  have "queue_ids (finish_task i m) = queue_ids m - {i} \<and> waiting_ids (finish_task i m) \<subseteq> waiting_ids m \<union> (queue_ids m - {i}) \<and>
    aq_nextTaskId (tr_awaitQueue (finish_task i m)) = aq_nextTaskId (tr_awaitQueue m) \<and> aq_ok (tr_awaitQueue (finish_task i m)) \<and>
    tr_closed (finish_task i m) = tr_closed m"
  proof (cases "i \<in> queue_ids m")
    case False
    then show ?thesis using finish_task_gone [OF ok, of i] ok by (auto simp: queue_ids_def)
  next
    case True
    obtain t cs where c: "contents (tr_awaitQueue m) = (i, t) # cs"
      using head [OF True] by (auto simp: running_def split: list.splits)
    define m' where "m' = m\<lparr>tr_awaitQueue := fst (aq_resolve i (tr_awaitQueue m)), tr_then := tr_then m @ [t]\<rparr>"
    have fin: "finish_task i m = (case cs of [] \<Rightarrow> m' | (j, u) # _ \<Rightarrow> begin_task j u m')"
      using finish_task_eq [OF ok c] unfolding m'_def Let_def .
    have d: "queue_ids m - {i} = fst ` set cs" using aq.conts_distinct [OF ok] by (auto simp: c queue_ids_def)
    have "waiting_ids m' = waiting_ids m" by (simp add: m'_def waiting_ids_def)
    then have "waiting_ids (finish_task i m) \<subseteq> waiting_ids m \<union> fst ` set cs"
      by (auto simp: fin begin_task_waiting split: list.split)
    moreover have "tr_awaitQueue (finish_task i m) = fst (aq_resolve i (tr_awaitQueue m))" "tr_closed (finish_task i m) = tr_closed m"
      by (auto simp: fin m'_def split: list.split)
    moreover have "aq_nextTaskId (fst (aq_resolve i (tr_awaitQueue m))) = aq_nextTaskId (tr_awaitQueue m)"
      by (simp add: aq_resolve_def start_first_def aq_execute_def split: option.split list.split prod.split)
    ultimately show ?thesis using aq_resolve_spec [OF ok c] d by (auto simp: queue_ids_def)
  qed
  then show "queue_ids (finish_task i m) = queue_ids m - {i}"
    "waiting_ids (finish_task i m) \<subseteq> waiting_ids m \<union> (queue_ids m - {i})"
    "aq_nextTaskId (tr_awaitQueue (finish_task i m)) = aq_nextTaskId (tr_awaitQueue m)"
    "aq_ok (tr_awaitQueue (finish_task i m))" "tr_closed (finish_task i m) = tr_closed m" by blast+
qed

lemma keeps_tasks_finish:
  "i \<notin> D \<Longrightarrow> (i \<in> queue_ids m \<Longrightarrow> i \<in> running (tr_awaitQueue m)) \<Longrightarrow> keeps_tasks D m (finish_task i m)"
  using finish_ids [of m i] unfolding keeps_tasks_def by fastforce

text \<open>A task that waits and is in the queue is the first one.\<close>

lemma waiting_first:
  assumes "work_inv m" "n < length (tr_running m)" "fst (tr_running m ! n) \<in> queue_ids m"
  shows "fst (tr_running m ! n) \<in> running (tr_awaitQueue m)"
proof -
  have "fst (tr_running m ! n) \<in> fst ` set (tr_running m)" using nth_mem [OF assms(2)] by (rule imageI)
  moreover have "fst ` set (tr_running m) \<inter> queue_ids m = running (tr_awaitQueue m)"
    using assms(1) by (simp add: work_inv_def queue_waits_def queue_ids_def)
  ultimately show ?thesis using assms(3) by blast
qed

lemma keeps_tasks_back:
  assumes inv: "work_inv m" and n: "n < length (tr_running m)" and i: "fst (tr_running m ! n) \<notin> D"
  shows "keeps_tasks D m (tr_step m (Back n a))"
proof -
  obtain i st where ist: "tr_running m ! n = (i, st)" by (cases "tr_running m ! n")
  let ?m = "m\<lparr>tr_running := drop_nth n (tr_running m)\<rparr>"
  have drop: "keeps_tasks D m ?m"
    using set_drop_nth(1) [of n "tr_running m"] by (auto simp: keeps_tasks_def queue_ids_def waiting_ids_def)
  have head: "i \<in> running (tr_awaitQueue m)" if "i \<in> queue_ids m" using waiting_first [OF inv n] that ist by simp
  have fin: "keeps_tasks D m (finish_task i m')"
    if "tr_awaitQueue m' = tr_awaitQueue m" "tr_running m' = tr_running ?m" "tr_closed m' = tr_closed m" for m'
  proof -
    have "keeps_tasks D ?m m'" by (rule keeps_tasks_frame) (simp_all add: that)
    moreover have "keeps_tasks D m' (finish_task i m')"
      using keeps_tasks_finish [of i D m'] head i ist that by (auto simp: queue_ids_def)
    ultimately show ?thesis using drop keeps_tasks_trans by blast
  qed
  have stage: "keeps_tasks D m (set_stage i Probating (m'\<lparr>tr_calls := cs\<rparr>))"
    if "tr_awaitQueue m' = tr_awaitQueue m" "tr_running m' = tr_running ?m" "tr_closed m' = tr_closed m" for m' cs
    using that i ist set_drop_nth(1) [of n "tr_running m"] by (auto simp: keeps_tasks_def set_stage_def queue_ids_def waiting_ids_def)
  have "keeps_tasks D m (continue_task i st a ?m)"
  proof (cases st)
    case (Receiving ts)
    define res where "res = (case a of Inl e \<Rightarrow> (reject_tasks ts e ?m, None)
        | Inr results \<Rightarrow> (case create_loop ts results None ?m of (s', threw, video) \<Rightarrow>
            ((if threw then reject_tasks ts (TypeError ''Cannot read properties of undefined'') s' else s'), video)))"
    obtain s1 video where r: "res = (s1, video)" by (cases res)
    have "same_work ?m s1"
      using r by (auto simp: res_def split: sum.splits prod.splits if_splits
          intro: same_work_reject dest: same_work_loop same_work_trans [OF same_work_loop same_work_reject])
    from same_work_sel [OF this] fin [of s1] stage [of s1] show ?thesis
      unfolding continue_task_def Receiving stage.case res_def [symmetric] r by (auto split: option.split sum.split)
  next
    case Probating
    with fin [of ?m] fin [of "?m\<lparr>tr_probatorConsumerCreated := True\<rparr>"] show ?thesis
      by (auto simp: continue_task_def split: sum.split)
  qed (use fin [of ?m] in \<open>simp_all add: continue_task_def\<close>)
  then show ?thesis using n ist by simp
qed

lemma keeps_tasks_run_then: "keeps_tasks D m (run_then t m)"
  using keeps_tasks_flag [of D m t False] keeps_tasks_trans [OF keeps_tasks_flag [of D m t False] keeps_tasks_start]
  by (simp add: run_then_eq)

lemma keeps_tasks_run_micro: "keeps_tasks D m (run_micro x m)"
  using keeps_tasks_start [of D m] by (simp add: run_micro_eq split: micro.split)

lemma keeps_tasks_step:
  assumes inv: "work_inv m" and op: "op \<noteq> CloseTransport"
    and other: "\<And>n a. op = Back n a \<Longrightarrow> n < length (tr_running m) \<Longrightarrow> fst (tr_running m ! n) \<notin> D"
  shows "keeps_tasks D m (tr_step m op)"
proof (cases op)
  case (Consume cid pid kind params appData)
  have "keeps_tasks D m (fst (tr_consume cid pid kind params appData m))"
    by (rule tr_consume_cases) (auto intro: keeps_tasks_frame)
  then show ?thesis by (simp add: Consume)
next
  case (Micro n)
  have "keeps_tasks D m (run_micro x (m\<lparr>tr_micro := ms\<rparr>))" for x ms
    by (rule keeps_tasks_trans [OF keeps_tasks_frame keeps_tasks_run_micro]) simp_all
  then show ?thesis by (simp add: Micro)
next
  case (Then n)
  have "keeps_tasks D m (run_then x (m\<lparr>tr_then := ms\<rparr>))" for x ms
    by (rule keeps_tasks_trans [OF keeps_tasks_frame keeps_tasks_run_then]) simp_all
  then show ?thesis by (simp add: Then)
next
  case (Back n a)
  with keeps_tasks_back [OF inv _ other [OF Back]] show ?thesis by (cases "n < length (tr_running m)") simp_all
next
  case (UpdateIceServers v)
  then show ?thesis by (simp add: tr_updateIceServers_def keeps_tasks_push split: jsval.split)
qed (use op in \<open>simp_all add: keeps_tasks_consumer tr_restartIce_def keeps_tasks_push tr_onConnectionState_def
    tr_onIceGatheringState_def keeps_tasks_frame\<close>)

section \<open>The promises\<close>

definition request_ids :: "recv_transport \<Rightarrow> nat set" where
  "request_ids s = fst ` set (rv_requests s)"

definition settled_ids :: "recv_transport \<Rightarrow> nat set" where
  "settled_ids s = fst ` set (rv_settled s)"

text \<open>A request is in the queue or its promise has been settled; a task that waits beside the queue was stopped.\<close>

definition tasks_ok :: "recv_transport \<Rightarrow> bool" where
  "tasks_ok s \<longleftrightarrow>
     work_inv (rv_media s) \<and>
     (\<forall>i \<in> request_ids s. i < aq_nextTaskId (tr_awaitQueue (rv_media s))) \<and> distinct (map fst (rv_requests s)) \<and>
     distinct (map fst (rv_settled s)) \<and>
     settled_ids s \<union> (queue_ids (rv_media s) \<inter> request_ids s) = request_ids s \<and> settled_ids s \<inter> queue_ids (rv_media s) = {} \<and>
     (\<forall>i \<in> waiting_ids (rv_media s) \<inter> request_ids s. i \<in> queue_ids (rv_media s) \<or> (i, Inl STOPPED) \<in> set (rv_settled s)) \<and>
     (tr_closed (rv_media s) \<longrightarrow> queue_ids (rv_media s) \<inter> request_ids s = {})"

text \<open>A data consumer comes from a request whose task has gone on; its promise was settled with it, or the task had been stopped.
  Of a data consumer only the task, the identifier and the flag are of interest.\<close>

definition flags :: "recv_transport \<Rightarrow> (nat \<times> string \<times> bool) list" where
  "flags s = map (\<lambda>(i, c, ch). (i, dcs_id c, dcs_closed c)) (rv_objects s)"

definition object_ok :: "recv_transport \<Rightarrow> nat \<Rightarrow> string \<Rightarrow> bool" where
  "object_ok s i k \<longleftrightarrow>
     (\<exists>r. (i, r) \<in> set (rv_requests s) \<and> k = dr_id r) \<and> i \<notin> queue_ids (rv_media s) \<and> i \<notin> waiting_ids (rv_media s)"

definition objects_ok :: "recv_transport \<Rightarrow> bool" where
  "objects_ok s \<longleftrightarrow>
     distinct (map fst (flags s)) \<and> (\<forall>(i, k, b) \<in> set (flags s). object_ok s i k) \<and>
     (\<forall>i k. (i, Inr k) \<in> set (rv_settled s) \<longrightarrow> (\<exists>b. (i, k, b) \<in> set (flags s)))"

lemma objects_okD: "objects_ok s \<Longrightarrow> (i, k, b) \<in> set (flags s) \<Longrightarrow> object_ok s i k"
  unfolding objects_ok_def by fast

lemma tasks_ok_queue: "tasks_ok s \<Longrightarrow> aq_ok (tr_awaitQueue (rv_media s))"
  by (simp add: tasks_ok_def work_inv_def queue_waits_def)

text \<open>Steps of the media side.\<close>

lemma media_ok:
  assumes t: "tasks_ok s" and o: "objects_ok s" and w: "work_inv m" and k: "keeps_tasks (request_ids s) (rv_media s) m"
  shows "tasks_ok (s\<lparr>rv_media := m\<rparr>)" "objects_ok (s\<lparr>rv_media := m\<rparr>)"
proof -
  let ?D = "request_ids s"
  have keep: "aq_nextTaskId (tr_awaitQueue (rv_media s)) \<le> aq_nextTaskId (tr_awaitQueue m)" "queue_ids m \<inter> ?D = queue_ids (rv_media s) \<inter> ?D"
    "waiting_ids m \<inter> ?D \<subseteq> queue_ids (rv_media s) \<union> waiting_ids (rv_media s)" "tr_closed m = tr_closed (rv_media s)"
    using k t tasks_ok_queue [OF t] by (auto simp: keeps_tasks_def tasks_ok_def)
  have ids: "request_ids (s\<lparr>rv_media := m\<rparr>) = ?D" "settled_ids (s\<lparr>rv_media := m\<rparr>) = settled_ids s"
    by (simp_all add: request_ids_def settled_ids_def)
  have sub: "settled_ids s \<subseteq> ?D" using t unfolding tasks_ok_def by blast
  have next': "\<forall>i \<in> ?D. i < aq_nextTaskId (tr_awaitQueue m)" using t keep(1) unfolding tasks_ok_def by fastforce
  have "settled_ids s \<inter> queue_ids m = {}" using t sub keep(2) unfolding tasks_ok_def by blast
  moreover have "\<forall>i \<in> waiting_ids m \<inter> ?D. i \<in> queue_ids m \<or> (i, Inl STOPPED) \<in> set (rv_settled s)"
  proof
    fix i assume i: "i \<in> waiting_ids m \<inter> ?D"
    have "i \<in> queue_ids m \<longleftrightarrow> i \<in> queue_ids (rv_media s)" using keep(2) i by blast
    moreover have "i \<in> queue_ids (rv_media s) \<or> i \<in> waiting_ids (rv_media s) \<inter> ?D" using keep(3) i by blast
    ultimately show "i \<in> queue_ids m \<or> (i, Inl STOPPED) \<in> set (rv_settled s)" using t by (auto simp: tasks_ok_def)
  qed
  ultimately show "tasks_ok (s\<lparr>rv_media := m\<rparr>)"
    using t w next' unfolding tasks_ok_def ids by (simp add: keep(2,4))
  have "i \<notin> queue_ids m \<and> i \<notin> waiting_ids m" if "object_ok s i k" for i k
  proof -
    have "i \<in> ?D" using that by (force simp: request_ids_def object_ok_def)
    with that keep(2,3) show ?thesis unfolding object_ok_def by blast
  qed
  then have "object_ok (s\<lparr>rv_media := m\<rparr>) i k" if "object_ok s i k" for i k
    using that by (simp add: object_ok_def keep(4))
  then show "objects_ok (s\<lparr>rv_media := m\<rparr>)" using o by (auto simp: objects_ok_def flags_def)
qed

text \<open>\<open>consumeData\<close> refuses, or puts a task for its request in the queue.\<close>

lemma consumeData_cases:
  assumes refuse: "P s"
    and accept: "\<And>r. \<not> tr_closed (rv_media s) \<Longrightarrow> P (s\<lparr>rv_media := push_task OtherTask (rv_media s),
      rv_requests := rv_requests s @ [(aq_nextTaskId (tr_awaitQueue (rv_media s)), r)]\<rparr>)"
  shows "P (fst (rv_consumeData cid pid params label protocol appData s))"
proof (cases "\<exists>i p. cid = VStr i \<and> pid = VStr p")
  case True
  then obtain i p where "cid = VStr i" "pid = VStr p" by blast
  then show ?thesis
    using refuse accept unfolding rv_consumeData_def Let_def by (simp split: sum.split)
next
  case False
  then have "fst (rv_consumeData cid pid params label protocol appData s) = s"
    by (cases cid; cases pid) (simp_all add: rv_consumeData_def Let_def)
  with refuse show ?thesis by simp
qed

lemma accept_ok:
  fixes r :: data_consume_request
  assumes t: "tasks_ok s" and o: "objects_ok s" and open_t: "\<not> tr_closed (rv_media s)"
  defines "s' \<equiv> s\<lparr>rv_media := push_task OtherTask (rv_media s),
      rv_requests := rv_requests s @ [(aq_nextTaskId (tr_awaitQueue (rv_media s)), r)]\<rparr>"
  shows "tasks_ok s'" "objects_ok s'"
proof -
  let ?n = "aq_nextTaskId (tr_awaitQueue (rv_media s))"
  note ok = tasks_ok_queue [OF t]
  note p = push_ids [OF ok, of OtherTask]
  have w: "work_inv (push_task OtherTask (rv_media s))" using t other_push_inv by (simp add: tasks_ok_def)
  have ids: "request_ids s' = insert ?n (request_ids s)" "settled_ids s' = settled_ids s" "rv_settled s' = rv_settled s"
    by (simp_all add: request_ids_def settled_ids_def s'_def)
  have media: "rv_media s' = push_task OtherTask (rv_media s)" by (simp add: s'_def)
  have new: "?n \<notin> request_ids s" "?n \<notin> settled_ids s" using t unfolding tasks_ok_def by blast+
  have "distinct (map fst (rv_requests s'))" using t new by (simp add: s'_def tasks_ok_def request_ids_def)
  moreover have "\<forall>i \<in> waiting_ids (rv_media s') \<inter> request_ids s'. i \<in> queue_ids (rv_media s') \<or> (i, Inl STOPPED) \<in> set (rv_settled s')"
    using t p(1,2) unfolding tasks_ok_def media ids by auto
  moreover have "settled_ids s' \<union> (queue_ids (rv_media s') \<inter> request_ids s') = request_ids s'"
    using t unfolding tasks_ok_def media ids p(1) by auto
  moreover have "settled_ids s' \<inter> queue_ids (rv_media s') = {}" using t new unfolding tasks_ok_def media ids p(1) by auto
  moreover have "\<forall>i \<in> request_ids s'. i < aq_nextTaskId (tr_awaitQueue (rv_media s'))"
    using t unfolding tasks_ok_def media ids p(3) by (auto intro: less_SucI)
  ultimately show "tasks_ok s'" using t w open_t push_task_frame(1) [OF ok, of OtherTask] unfolding tasks_ok_def ids(3) media by blast
  have "object_ok s' i k" if "object_ok s i k" for i k
  proof -
    have "i \<noteq> ?n" using that new by (force simp: object_ok_def request_ids_def)
    with that p(1,2) push_task_frame(1) [OF ok, of OtherTask] show ?thesis by (auto simp: object_ok_def s'_def)
  qed
  then show "objects_ok s'" using o by (auto simp: objects_ok_def s'_def flags_def)
qed

lemma drop_waiting:
  assumes "work_inv m" "n < length (tr_running m)"
  shows "waiting_ids (m\<lparr>tr_running := drop_nth n (tr_running m)\<rparr>) = waiting_ids m - {fst (tr_running m ! n)}"
proof -
  have "distinct (map fst (take n (tr_running m) @ tr_running m ! n # drop (Suc n) (tr_running m)))"
    using assms(1) drop_nth_split [OF assms(2)] by (simp add: work_inv_def queue_waits_def)
  then have "fst (tr_running m ! n) \<notin> fst ` set (drop_nth n (tr_running m))" by (auto simp: drop_nth_def)
  moreover have "set (tr_running m) = insert (tr_running m ! n) (set (drop_nth n (tr_running m)))"
    by (subst drop_nth_split [OF assms(2)]) (auto simp: drop_nth_def)
  ultimately show ?thesis by (simp add: waiting_ids_def)
qed

lemma data_task_Some:
  assumes "data_task s n = Some (i, r)"
  shows "n < length (tr_running (rv_media s))" "fst (tr_running (rv_media s) ! n) = i" "(i, r) \<in> set (rv_requests s)"
    "i \<in> request_ids s" "i \<in> waiting_ids (rv_media s)"
proof -
  show n: "n < length (tr_running (rv_media s))" and i: "fst (tr_running (rv_media s) ! n) = i" and r: "(i, r) \<in> set (rv_requests s)"
    using assms by (auto simp: data_task_def Let_def dest: map_of_SomeD split: if_splits)
  from r show "i \<in> request_ids s" by (force simp: request_ids_def)
  from n i show "i \<in> waiting_ids (rv_media s)" using nth_mem [OF n] by (force simp: waiting_ids_def)
qed

definition data_outcome :: "data_consume_request \<Rightarrow> js_error + unit \<Rightarrow> outcome" where
  "data_outcome r a = (case a of Inl e \<Rightarrow> Inl e | Inr _ \<Rightarrow> Inr (dr_id r))"

definition made :: "nat \<Rightarrow> data_consume_request \<Rightarrow> js_error + unit \<Rightarrow> (nat \<times> data_consumer \<times> data_channel) list" where
  "made i r a = (case a of Inl e \<Rightarrow> [] | Inr _ \<Rightarrow> [(i, new_DataConsumer (dr_id r) (dr_dataProducerId r) (dr_sctpStreamParameters r),
     \<lparr>ch_closed = False, ch_sent = []\<rparr>)])"

lemma data_back_eq:
  assumes "data_task s n = Some (i, r)"
  shows "rv_step s (DataBack n a) = s\<lparr>
      rv_media := finish_task i ((rv_media s)\<lparr>tr_running := drop_nth n (tr_running (rv_media s))\<rparr>),
      rv_settled := (if i \<in> queue_ids (rv_media s) then rv_settled s @ [(i, data_outcome r a)] else rv_settled s),
      rv_objects := rv_objects s @ made i r a,
      rv_dataConsumers := (if isl a then rv_dataConsumers s else jm_set (dr_id r) (length (rv_objects s)) (rv_dataConsumers s))\<rparr>"
  using assms
  by (cases a) (simp_all add: continue_data_def settle_data_def create_data_consumer_def queue_ids_def made_def data_outcome_def Let_def)

text \<open>What the answer of the handler does to the tasks and the promises.\<close>

lemma data_back_parts:
  assumes t: "tasks_ok s" and d: "data_task s n = Some (i, r)" and s': "s' = rv_step s (DataBack n a)"
  shows "queue_ids (rv_media s') = queue_ids (rv_media s) - {i}"
    "waiting_ids (rv_media s') \<subseteq> (waiting_ids (rv_media s) \<union> queue_ids (rv_media s)) - {i}"
    "tr_closed (rv_media s') = tr_closed (rv_media s)"
    "aq_nextTaskId (tr_awaitQueue (rv_media s')) = aq_nextTaskId (tr_awaitQueue (rv_media s))" "work_inv (rv_media s')"
proof -
  let ?m = "rv_media s" and ?rest = "(rv_media s)\<lparr>tr_running := drop_nth n (tr_running (rv_media s))\<rparr>"
  note dt = data_task_Some [OF d]
  have media: "rv_media s' = finish_task i ?rest" using data_back_eq [OF d, of a] by (simp add: s')
  have inv: "work_inv ?m" using t by (simp add: tasks_ok_def)
  have q0: "queue_ids ?rest = queue_ids ?m" by (simp add: queue_ids_def)
  have head: "i \<in> running (tr_awaitQueue ?rest)" if "i \<in> queue_ids ?rest"
    using waiting_first [OF inv dt(1)] that dt(2) q0 by simp
  have ok: "aq_ok (tr_awaitQueue ?rest)" using tasks_ok_queue [OF t] by simp
  note f = finish_ids [OF ok head, unfolded q0]
  have "waiting_ids ?rest = waiting_ids ?m - {i}" using drop_waiting [OF inv dt(1)] dt(2) by simp
  with f show "queue_ids (rv_media s') = queue_ids ?m - {i}" "waiting_ids (rv_media s') \<subseteq> (waiting_ids ?m \<union> queue_ids ?m) - {i}"
    "tr_closed (rv_media s') = tr_closed ?m" "aq_nextTaskId (tr_awaitQueue (rv_media s')) = aq_nextTaskId (tr_awaitQueue ?m)"
    by (auto simp: media)
  obtain st where "tr_running ?m ! n = (i, st)" using dt(2) by (cases "tr_running ?m ! n") auto
  then have "queue_waits (tr_awaitQueue ?rest) (take n (tr_running ?m) @ (i, st) # drop (Suc n) (tr_running ?m))"
    using inv drop_nth_split [OF dt(1)] by (simp add: work_inv_def)
  moreover have "flags_ok ?m \<Longrightarrow> flags_ok ?rest" by (erule flags_ok_mono) (auto simp: queued_def)
  then have "tr_closed ?rest \<or> flags_ok ?rest" using inv by (auto simp: work_inv_def)
  moreover have "tr_running ?rest = take n (tr_running ?m) @ drop (Suc n) (tr_running ?m)" by (simp add: drop_nth_def)
  ultimately show "work_inv (rv_media s')" unfolding media by (metis finish_task_inv)
qed

lemma data_back_settled:
  assumes t: "tasks_ok s" and d: "data_task s n = Some (i, r)" and s': "s' = rv_step s (DataBack n a)"
  shows "i \<notin> queue_ids (rv_media s) \<Longrightarrow> (i, Inl STOPPED) \<in> set (rv_settled s)"
    "set (rv_settled s') = set (rv_settled s) \<union> (if i \<in> queue_ids (rv_media s) then {(i, data_outcome r a)} else {})"
    "settled_ids s' = insert i (settled_ids s)" "distinct (map fst (rv_settled s'))"
proof -
  note dt = data_task_Some [OF d]
  have eq: "rv_settled s' = (if i \<in> queue_ids (rv_media s) then rv_settled s @ [(i, data_outcome r a)] else rv_settled s)"
    using data_back_eq [OF d, of a] by (simp add: s')
  show stopped: "(i, Inl STOPPED) \<in> set (rv_settled s)" if "i \<notin> queue_ids (rv_media s)"
    using t dt(4,5) that unfolding tasks_ok_def by blast
  show "set (rv_settled s') = set (rv_settled s) \<union> (if i \<in> queue_ids (rv_media s) then {(i, data_outcome r a)} else {})"
    by (simp add: eq)
  have "i \<in> settled_ids s" if "i \<notin> queue_ids (rv_media s)" using stopped [OF that] by (force simp: settled_ids_def)
  then show "settled_ids s' = insert i (settled_ids s)" by (auto simp: eq settled_ids_def)
  have "i \<notin> settled_ids s" if "i \<in> queue_ids (rv_media s)" using t that unfolding tasks_ok_def by blast
  then show "distinct (map fst (rv_settled s'))" using t by (simp add: eq tasks_ok_def settled_ids_def)
qed

lemma data_back_tasks:
  assumes t: "tasks_ok s" and d: "data_task s n = Some (i, r)" and s': "s' = rv_step s (DataBack n a)"
  shows "tasks_ok s'"
proof -
  let ?q = "queue_ids (rv_media s)" and ?D = "request_ids s"
  note p = data_back_parts [OF t d s'] and st = data_back_settled [OF t d s'] and dt = data_task_Some [OF d]
  have req: "rv_requests s' = rv_requests s" "request_ids s' = ?D"
    using data_back_eq [OF d, of a] by (simp_all add: s' request_ids_def)
  have "settled_ids s' \<union> (queue_ids (rv_media s') \<inter> ?D) = ?D" using t dt(4) unfolding tasks_ok_def p(1) st(3) by blast
  moreover have "settled_ids s' \<inter> queue_ids (rv_media s') = {}" using t unfolding tasks_ok_def p(1) st(3) by blast
  moreover have "\<forall>j \<in> waiting_ids (rv_media s') \<inter> ?D. j \<in> queue_ids (rv_media s') \<or> (j, Inl STOPPED) \<in> set (rv_settled s')"
  proof
    fix j assume j: "j \<in> waiting_ids (rv_media s') \<inter> ?D"
    with p(2) have "j \<noteq> i" "j \<in> waiting_ids (rv_media s) \<inter> ?D \<or> j \<in> ?q" by blast+
    then have "j \<in> ?q - {i} \<or> (j, Inl STOPPED) \<in> set (rv_settled s)" using t by (auto simp: tasks_ok_def)
    then show "j \<in> queue_ids (rv_media s') \<or> (j, Inl STOPPED) \<in> set (rv_settled s')" by (auto simp: p(1) st(2))
  qed
  moreover have "\<forall>j \<in> ?D. j < aq_nextTaskId (tr_awaitQueue (rv_media s'))" using t by (simp add: tasks_ok_def p(4))
  moreover have "tr_closed (rv_media s') \<longrightarrow> queue_ids (rv_media s') \<inter> ?D = {}" using t unfolding tasks_ok_def p(1,3) by blast
  ultimately show ?thesis using t p(5) st(4) unfolding tasks_ok_def req by blast
qed

lemma data_back_flags:
  assumes "data_task s n = Some (i, r)"
  shows "flags (rv_step s (DataBack n a)) = flags s @ (if isl a then [] else [(i, dr_id r, False)])"
  unfolding data_back_eq [OF assms] by (cases a) (simp_all add: flags_def made_def new_DataConsumer_def)

lemma data_back_objects:
  assumes t: "tasks_ok s" and o: "objects_ok s" and d: "data_task s n = Some (i, r)" and s': "s' = rv_step s (DataBack n a)"
  shows "objects_ok s'"
proof -
  note p = data_back_parts [OF t d s'] and st = data_back_settled [OF t d s'] and dt = data_task_Some [OF d]
  note fl = data_back_flags [OF d, of a, folded s']
  have req: "rv_requests s' = rv_requests s" using data_back_eq [OF d, of a] by (simp add: s')
  have old: "object_ok s' j k" if "object_ok s j k" for j k using that p(2) by (auto simp: object_ok_def req p(1))
  have new: "object_ok s' i (dr_id r)" using dt(3) p(2) by (auto simp: object_ok_def req p(1))
  have "i \<notin> fst ` set (flags s)" using objects_okD [OF o] dt(5) by (auto simp: object_ok_def)
  then have "distinct (map fst (flags s'))" using o by (simp add: fl objects_ok_def)
  moreover have "\<forall>(j, k, b) \<in> set (flags s'). object_ok s' j k" using old new o by (auto simp: fl objects_ok_def)
  moreover have "\<exists>b. (j, k, b) \<in> set (flags s')" if "(j, Inr k) \<in> set (rv_settled s')" for j k
  proof (cases "(j, Inr k) \<in> set (rv_settled s)")
    case True
    then obtain b where "(j, k, b) \<in> set (flags s)" using o unfolding objects_ok_def by blast
    then show ?thesis by (auto simp: fl)
  next
    case False
    then have "j = i" "data_outcome r a = Inr k" using that by (auto simp: st(2) split: if_splits)
    then show ?thesis by (cases a) (auto simp: fl data_outcome_def)
  qed
  ultimately show ?thesis unfolding objects_ok_def by blast
qed

section \<open>The data consumers\<close>

text \<open>The operations of a data consumer keep its identifier, and once closed it stays so; an operation that does not say that it
  ended the consumer leaves an open one open.\<close>

definition consumer_op :: "(data_consumer \<times> data_channel \<Rightarrow> (data_consumer \<times> data_channel) \<times> bool) \<Rightarrow> bool" where
  "consumer_op f \<longleftrightarrow> (\<forall>c ch. dcs_id (fst (fst (f (c, ch)))) = dcs_id c \<and>
     dcs_closed (fst (fst (f (c, ch)))) = (dcs_closed c \<or> snd (f (c, ch))) \<and> (dcs_closed c \<longrightarrow> \<not> snd (f (c, ch))))"

lemma consumer_ops:
  "consumer_op dcs_close"
  "consumer_op (\<lambda>(c, ch). case dcs_handleDataChannel e c of (c', ended) \<Rightarrow> ((c', ch), ended))"
  by (simp_all add: consumer_op_def data_consumer_defs split: channel_event.split)

text \<open>The map refers to the open data consumers, by their identifiers; those of a closed transport come from stopped tasks.\<close>

definition map_ok :: "recv_transport \<Rightarrow> bool" where
  "map_ok s \<longleftrightarrow>
     (\<forall>n i k b. n < length (flags s) \<longrightarrow> flags s ! n = (i, k, b) \<longrightarrow> (\<not> b) = (jm_get (rv_dataConsumers s) k = Some n)) \<and>
     (\<forall>k n. jm_get (rv_dataConsumers s) k = Some n \<longrightarrow> n < length (flags s)) \<and>
     (tr_closed (rv_media s) \<longrightarrow> (\<forall>(i, k, b) \<in> set (flags s). b \<or> (i, Inl STOPPED) \<in> set (rv_settled s)))"

lemma map_okI:
  assumes "\<And>n i k b. n < length (flags s) \<Longrightarrow> flags s ! n = (i, k, b) \<Longrightarrow> (\<not> b) = (jm_get (rv_dataConsumers s) k = Some n)"
    and "\<And>k n. jm_get (rv_dataConsumers s) k = Some n \<Longrightarrow> n < length (flags s)"
    and "\<And>i k b. tr_closed (rv_media s) \<Longrightarrow> (i, k, b) \<in> set (flags s) \<Longrightarrow> b \<or> (i, Inl STOPPED) \<in> set (rv_settled s)"
  shows "map_ok s"
  unfolding map_ok_def using assms by blast

definition distinct_requests :: "recv_transport \<Rightarrow> bool" where
  "distinct_requests s \<longleftrightarrow> distinct (map (dr_id \<circ> snd) (rv_requests s))"

definition data_inv :: "recv_transport \<Rightarrow> bool" where
  "data_inv s \<longleftrightarrow> tasks_ok s \<and> objects_ok s \<and> (distinct_requests s \<longrightarrow> map_ok s)"

text \<open>With requests of different identifiers no two data consumers have the same one.\<close>

lemma distinct_flags:
  assumes o: "objects_ok s" and d: "distinct_requests s"
    and n: "n < length (flags s)" "n' < length (flags s)" "fst (snd (flags s ! n)) = fst (snd (flags s ! n'))"
  shows "n = n'"
proof -
  obtain i k b i' b' where f: "flags s ! n = (i, k, b)" "flags s ! n' = (i', k, b')"
    using n(3) by (metis prod.collapse)
  then have mem: "(i, k, b) \<in> set (flags s)" "(i', k, b') \<in> set (flags s)" using n nth_mem by metis+
  then obtain r r' where r: "(i, r) \<in> set (rv_requests s)" "(i', r') \<in> set (rv_requests s)" "dr_id r = dr_id r'"
    using objects_okD [OF o mem(1)] objects_okD [OF o mem(2)] unfolding object_ok_def by metis
  have "inj_on (dr_id \<circ> snd) (set (rv_requests s))" using d by (simp add: distinct_requests_def distinct_map)
  with r have "(i, r) = (i', r')" by (metis comp_apply inj_onD snd_conv)
  then have "map fst (flags s) ! n = map fst (flags s) ! n'" using n f by simp
  moreover have "distinct (map fst (flags s))" using o by (simp add: objects_ok_def)
  ultimately show ?thesis using n(1,2) by (metis length_map nth_eq_iff_index_eq)
qed

lemma flags_id_unique:
  "objects_ok s \<Longrightarrow> distinct_requests s \<Longrightarrow> n < length (flags s) \<Longrightarrow> n' < length (flags s) \<Longrightarrow>
   flags s ! n = (i, k, b) \<Longrightarrow> flags s ! n' = (i', k, b') \<Longrightarrow> n = n'"
  using distinct_flags [of s n n'] by simp

text \<open>Only the objects and the map change with what is done to the data consumers.\<close>

definition same_tasks :: "recv_transport \<Rightarrow> recv_transport \<Rightarrow> bool" where
  "same_tasks s s' \<longleftrightarrow> rv_media s' = rv_media s \<and> rv_requests s' = rv_requests s \<and> rv_settled s' = rv_settled s"

lemma same_tasks_ok:
  assumes "same_tasks s s'"
  shows "tasks_ok s' = tasks_ok s" "object_ok s' i k = object_ok s i k" "distinct_requests s' = distinct_requests s"
  using assms by (simp_all add: same_tasks_def tasks_ok_def object_ok_def distinct_requests_def request_ids_def settled_ids_def)

lemma same_tasks_op: "same_tasks s (on_data_consumer f n s)"
  by (simp add: same_tasks_def on_data_consumer_def split: prod.split)

text \<open>The flag of one data consumer may be set.\<close>

lemma set_flag_objects:
  assumes o: "objects_ok s" and same: "same_tasks s s'" and n: "n < length (flags s)" "flags s ! n = (i, k, b)"
    and f: "flags s' = (flags s)[n := (i, k, b')]"
  shows "objects_ok s'"
proof -
  have m: "map fst (flags s') = map fst (flags s)" using n by (simp add: f map_update list_update_same_conv)
  have "object_ok s i k" using objects_okD [OF o] n nth_mem by metis
  then have "object_ok s j l" if "(j, l, c) \<in> set (flags s')" for j l c
    using that objects_okD [OF o] set_update_subset_insert [of "flags s" n "(i, k, b')"] unfolding f by blast
  moreover have "\<exists>c. (j, l, c) \<in> set (flags s')" if "(j, l, c) \<in> set (flags s)" for j l c
  proof -
    obtain n' where n': "n' < length (flags s)" "flags s ! n' = (j, l, c)" using \<open>(j, l, c) \<in> _\<close> by (auto simp: in_set_conv_nth)
    have "fst (flags s' ! n') = j \<and> fst (snd (flags s' ! n')) = l" using n n' by (cases "n' = n") (auto simp: f)
    then show ?thesis using n' nth_mem [of n' "flags s'"] by (metis f length_list_update prod.collapse)
  qed
  ultimately show ?thesis
    using o same_tasks_ok(2) [OF same] same unfolding objects_ok_def m same_tasks_def by (auto, metis)
qed

lemma op_flags:
  assumes f: "consumer_op f" and n: "n < length (rv_objects s)"
  obtains i k b ended where "flags s ! n = (i, k, b)" "flags (on_data_consumer f n s) = (flags s)[n := (i, k, b \<or> ended)]"
    "rv_dataConsumers (on_data_consumer f n s) = (if ended then jm_delete k (rv_dataConsumers s) else rv_dataConsumers s)"
    "b \<Longrightarrow> \<not> ended"
proof -
  obtain i c ch where x: "rv_objects s ! n = (i, c, ch)" by (cases "rv_objects s ! n")
  obtain c' ch' ended where fx: "f (c, ch) = ((c', ch'), ended)" by (cases "f (c, ch)") auto
  have p: "dcs_id (fst (fst (f (c, ch)))) = dcs_id c \<and>
     dcs_closed (fst (fst (f (c, ch)))) = (dcs_closed c \<or> snd (f (c, ch))) \<and> (dcs_closed c \<longrightarrow> \<not> snd (f (c, ch)))"
    using f unfolding consumer_op_def by blast
  have "flags s ! n = (i, dcs_id c, dcs_closed c)" using n x by (simp add: flags_def)
  moreover have "flags (on_data_consumer f n s) = (flags s)[n := (i, dcs_id c, dcs_closed c \<or> ended)]"
    using n p by (simp add: on_data_consumer_def x fx flags_def map_update)
  moreover have "rv_dataConsumers (on_data_consumer f n s) = (if ended then jm_delete (dcs_id c) (rv_dataConsumers s) else rv_dataConsumers s)"
    using n p by (simp add: on_data_consumer_def x fx)
  moreover have "dcs_closed c \<Longrightarrow> \<not> ended" using p by (simp add: fx)
  ultimately show thesis by (rule that)
qed

lemma data_op_inv:
  assumes inv: "data_inv s" and f: "consumer_op f"
  shows "data_inv (on_data_consumer f n s)"
proof (cases "n < length (rv_objects s)")
  case False
  then show ?thesis using inv by (simp add: on_data_consumer_def)
next
  case True
  define s' where "s' = on_data_consumer f n s"
  have same: "same_tasks s s'" unfolding s'_def by (rule same_tasks_op)
  obtain i k b ended where e: "flags s ! n = (i, k, b)" "flags s' = (flags s)[n := (i, k, b \<or> ended)]"
    "rv_dataConsumers s' = (if ended then jm_delete k (rv_dataConsumers s) else rv_dataConsumers s)" "b \<Longrightarrow> \<not> ended"
    using op_flags [OF f True] unfolding s'_def by metis
  have n: "n < length (flags s)" using True by (simp add: flags_def)
  have o: "objects_ok s" using inv by (simp add: data_inv_def)
  have "map_ok s'" if d: "distinct_requests s" "map_ok s"
  proof -
    have len: "length (flags s') = length (flags s)" by (simp add: e(2))
    have frame: "rv_media s' = rv_media s" "rv_settled s' = rv_settled s" using same by (simp_all add: same_tasks_def)
    have stopped: "c \<or> (j, Inl STOPPED) \<in> set (rv_settled s)" if "tr_closed (rv_media s)" "(j, l, c) \<in> set (flags s)" for j l c
      using d(2) that unfolding map_ok_def by fast
    show ?thesis
    proof (rule map_okI, unfold len frame)
      fix n' j l c assume a: "n' < length (flags s)" "flags s' ! n' = (j, l, c)"
      show "(\<not> c) = (jm_get (rv_dataConsumers s') l = Some n')"
      proof (cases "n' = n")
        case True
        then have "j = i \<and> l = k \<and> c = (b \<or> ended)" using a n by (simp add: e(2))
        moreover have "(\<not> b) = (jm_get (rv_dataConsumers s) k = Some n)" using d(2) n e(1) unfolding map_ok_def by blast
        ultimately show ?thesis using e(4) by (auto simp: e(3) jm.get_remove True)
      next
        case False
        then have fl: "flags s ! n' = (j, l, c)" using a by (simp add: e(2))
        then have "l \<noteq> k" using flags_id_unique [OF o d(1) a(1) n] e(1) False by blast
        moreover have "(\<not> c) = (jm_get (rv_dataConsumers s) l = Some n')" using d(2) a(1) fl unfolding map_ok_def by blast
        ultimately show ?thesis by (simp add: e(3) jm.get_remove)
      qed
    next
      fix l n' assume "jm_get (rv_dataConsumers s') l = Some n'"
      then show "n' < length (flags s)" using d(2) by (auto simp: e(3) jm.get_remove map_ok_def split: if_splits)
    next
      fix j l c assume a: "tr_closed (rv_media s)" "(j, l, c) \<in> set (flags s')"
      have "(j, l, c) = (i, k, b \<or> ended) \<or> (j, l, c) \<in> set (flags s)"
        using a(2) set_update_subset_insert [of "flags s" n "(i, k, b \<or> ended)"] unfolding e(2) by blast
      then show "c \<or> (j, Inl STOPPED) \<in> set (rv_settled s)"
        using stopped [OF a(1)] stopped [OF a(1), of i k b] nth_mem [OF n] e(1) by auto
    qed
  qed
  then show ?thesis
    using inv set_flag_objects [OF o same n e(1,2)] same_tasks_ok(1,3) [OF same] unfolding s'_def [symmetric] data_inv_def by blast
qed

text \<open>A new data consumer.\<close>

lemma data_back_map:
  assumes t: "tasks_ok s" and o: "objects_ok s" and d: "data_task s n = Some (i, r)" and s': "s' = rv_step s (DataBack n a)"
    and m: "map_ok s" and dd: "distinct_requests s"
  shows "map_ok s'"
proof (rule map_okI, unfold data_back_parts(3) [OF t d s'])
  note eq = data_back_eq [OF d, of a, folded s'] and st = data_back_settled [OF t d s'] and dt = data_task_Some [OF d]
  note fl = data_back_flags [OF d, of a, folded s']
  have dd': "distinct_requests s'" using dd by (simp add: eq distinct_requests_def)
  have dc: "rv_dataConsumers s' = (if isl a then rv_dataConsumers s else jm_set (dr_id r) (length (flags s)) (rv_dataConsumers s))"
    by (simp add: eq flags_def)
  show "(\<not> c) = (jm_get (rv_dataConsumers s') l = Some n')" if a': "n' < length (flags s')" "flags s' ! n' = (j, l, c)" for n' j l c
  proof (cases "n' < length (flags s)")
    case True
    then have old: "flags s ! n' = (j, l, c)" using a'(2) by (simp add: fl nth_append)
    have "l \<noteq> dr_id r" if "\<not> isl a"
    proof
      assume "l = dr_id r"
      then have "n' = length (flags s)"
        using flags_id_unique [OF data_back_objects [OF t o d s'] dd' a'(1), of "length (flags s)" j l c i False] a'(2) that
        by (simp add: fl)
      with True show False by simp
    qed
    moreover have "(\<not> c) = (jm_get (rv_dataConsumers s) l = Some n')" using m True old unfolding map_ok_def by blast
    ultimately show ?thesis by (simp add: dc jm.get_put)
  next
    case False
    then have "\<not> isl a" "n' = length (flags s)" using a'(1) by (auto simp: fl split: if_splits)
    with a'(2) show ?thesis by (simp add: fl dc jm.get_put)
  qed
  show "n' < length (flags s')" if "jm_get (rv_dataConsumers s') l = Some n'" for l n'
  proof -
    have "n'' < length (flags s)" if "jm_get (rv_dataConsumers s) l = Some n''" for n'' using m that unfolding map_ok_def by blast
    with that show ?thesis by (auto simp: dc fl jm.get_put split: if_splits intro: less_SucI)
  qed
  show "c \<or> (j, Inl STOPPED) \<in> set (rv_settled s')" if a': "tr_closed (rv_media s)" "(j, l, c) \<in> set (flags s')" for j l c
  proof -
    have "i \<notin> queue_ids (rv_media s)" using t a'(1) dt(4) unfolding tasks_ok_def by blast
    moreover have "c \<or> (j, Inl STOPPED) \<in> set (rv_settled s)" if "(j, l, c) \<in> set (flags s)" using m a'(1) that unfolding map_ok_def by fast
    ultimately show ?thesis using a'(2) st(1,2) by (auto simp: fl split: if_splits)
  qed
qed

lemma data_back_inv:
  assumes "data_inv s" "data_task s n = Some (i, r)"
  shows "data_inv (rv_step s (DataBack n a))"
proof -
  have t: "tasks_ok s" and o: "objects_ok s" using assms by (simp_all add: data_inv_def)
  have "distinct_requests (rv_step s (DataBack n a)) = distinct_requests s"
    using data_back_eq [OF assms(2), of a] by (simp add: distinct_requests_def)
  then show ?thesis
    using assms(1) data_back_tasks [OF t assms(2) refl] data_back_objects [OF t o assms(2) refl] data_back_map [OF t o assms(2) refl]
    by (simp add: data_inv_def del: rv_step.simps)
qed

lemma media_inv:
  assumes "data_inv s" "work_inv m" "keeps_tasks (request_ids s) (rv_media s) m"
  shows "data_inv (s\<lparr>rv_media := m\<rparr>)"
proof -
  have t: "tasks_ok s" using assms by (simp add: data_inv_def)
  then have "tr_closed m = tr_closed (rv_media s)"
    using assms(3) tasks_ok_queue [OF t] by (simp add: keeps_tasks_def tasks_ok_def)
  moreover have "distinct_requests (s\<lparr>rv_media := m\<rparr>) = distinct_requests s" by (simp add: distinct_requests_def)
  ultimately show ?thesis
    using assms media_ok [OF t _ assms(2,3)] by (simp add: data_inv_def map_ok_def flags_def)
qed

lemma accept_inv:
  assumes "data_inv s" "\<not> tr_closed (rv_media s)"
  shows "data_inv (s\<lparr>rv_media := push_task OtherTask (rv_media s),
      rv_requests := rv_requests s @ [(aq_nextTaskId (tr_awaitQueue (rv_media s)), r)]\<rparr>)"
proof -
  have t: "tasks_ok s" using assms by (simp add: data_inv_def)
  show ?thesis
    using assms accept_ok [OF t _ assms(2), of r] push_task_frame(1) [OF tasks_ok_queue [OF t], of OtherTask]
    by (simp add: data_inv_def map_ok_def flags_def distinct_requests_def)
qed

section \<open>Closing\<close>

text \<open>\<open>transportClosed\<close> sets the flags of the data consumers it is called for.\<close>

lemma transportClosed_flags:
  "dcs_id (fst (dcs_transportClosed x)) = dcs_id (fst x)" "dcs_closed (fst (dcs_transportClosed x))"
  by (cases x; simp add: data_consumer_defs)+

lemma close_one_flags:
  "flags (on_data_consumer (\<lambda>x. (dcs_transportClosed x, False)) n s) =
     map (\<lambda>(j, i, k, b). (i, k, b \<or> j = n)) (enumerate 0 (flags s))"
proof (rule nth_equalityI)
  show "length (flags (on_data_consumer (\<lambda>x. (dcs_transportClosed x, False)) n s)) =
      length (map (\<lambda>(j, i, k, b). (i, k, b \<or> j = n)) (enumerate 0 (flags s)))"
    by (simp add: on_data_consumer_def flags_def split: prod.split)
next
  fix j assume "j < length (flags (on_data_consumer (\<lambda>x. (dcs_transportClosed x, False)) n s))"
  then have j: "j < length (rv_objects s)"
    by (auto simp: on_data_consumer_def flags_def split: prod.splits if_splits)
  show "flags (on_data_consumer (\<lambda>x. (dcs_transportClosed x, False)) n s) ! j =
      map (\<lambda>(j, i, k, b). (i, k, b \<or> j = n)) (enumerate 0 (flags s)) ! j"
    using j transportClosed_flags [of "snd (rv_objects s ! n)"]
    by (cases "rv_objects s ! n"; cases "j = n")
      (auto simp: on_data_consumer_def flags_def nth_enumerate_eq nth_list_update split: prod.split)
qed

lemma close_data_consumers_flags:
  "flags (close_data_consumers ns s) = map (\<lambda>(j, i, k, b). (i, k, b \<or> j \<in> set ns)) (enumerate 0 (flags s))"
proof (induction ns arbitrary: s)
  case Nil
  show ?case by (rule nth_equalityI) (auto simp: close_data_consumers_def nth_enumerate_eq split: prod.split)
next
  case (Cons n ns)
  let ?s = "on_data_consumer (\<lambda>x. (dcs_transportClosed x, False)) n s"
  have "flags (close_data_consumers (n # ns) s) = map (\<lambda>(j, i, k, b). (i, k, b \<or> j \<in> set ns)) (enumerate 0 (flags ?s))"
    using Cons.IH [of ?s] by (simp add: close_data_consumers_def)
  also have "\<dots> = map (\<lambda>(j, i, k, b). (i, k, b \<or> j \<in> set (n # ns))) (enumerate 0 (flags s))"
    unfolding close_one_flags by (rule nth_equalityI) (auto simp: nth_enumerate_eq split: prod.split)
  finally show ?case .
qed

lemma close_data_consumers_same: "same_tasks s (close_data_consumers ns s)"
proof -
  have "same_tasks s (foldl (\<lambda>s n. on_data_consumer (\<lambda>x. (dcs_transportClosed x, False)) n s) r ns)" if "same_tasks s r" for r
    using that by (induction ns arbitrary: r) (auto simp: same_tasks_def on_data_consumer_def split: prod.split)
  then show ?thesis by (simp add: close_data_consumers_def same_tasks_def)
qed

lemma close_ids:
  assumes "aq_ok (tr_awaitQueue m)" "\<not> tr_closed m"
  shows "queue_ids (tr_close m) = {}" "waiting_ids (tr_close m) = waiting_ids m" "tr_closed (tr_close m)"
    "aq_nextTaskId (tr_awaitQueue (tr_close m)) = aq_nextTaskId (tr_awaitQueue m)"
proof -
  have e: "on_effects (map (\<lambda>(i, t). Rejected i t) cs) r = r" for cs r by (induction cs) auto
  have "aq_nextTaskId (fst (aq_stop (tr_awaitQueue m))) = aq_nextTaskId (tr_awaitQueue m)" using assms by simp
  with aq.conts_stop [OF assms(1)] assms(2)
  show "queue_ids (tr_close m) = {}" "waiting_ids (tr_close m) = waiting_ids m" "tr_closed (tr_close m)"
    "aq_nextTaskId (tr_awaitQueue (tr_close m)) = aq_nextTaskId (tr_awaitQueue m)"
    by (auto simp: tr_close_def queue_ids_def waiting_ids_def e Let_def split: prod.splits)
qed

definition stopped_tasks :: "recv_transport \<Rightarrow> nat list" where
  "stopped_tasks s = filter (\<lambda>i. i \<in> fst ` set (rv_requests s)) (map fst (contents (tr_awaitQueue (rv_media s))))"

lemma close_parts:
  assumes "\<not> tr_closed (rv_media s)"
  shows "rv_media (rv_close s) = tr_close (rv_media s)" "rv_requests (rv_close s) = rv_requests s"
    "rv_settled (rv_close s) = rv_settled s @ map (\<lambda>i. (i, Inl STOPPED)) (stopped_tasks s)" "rv_dataConsumers (rv_close s) = []"
    "flags (rv_close s) = map (\<lambda>(j, i, k, b). (i, k, b \<or> j \<in> set (jm_values (rv_dataConsumers s)))) (enumerate 0 (flags s))"
proof -
  define s1 where "s1 = s\<lparr>rv_media := tr_close (rv_media s), rv_settled := rv_settled s @ map (\<lambda>i. (i, Inl STOPPED)) (stopped_tasks s)\<rparr>"
  have eq: "rv_close s = (close_data_consumers (jm_values (rv_dataConsumers s1)) s1)\<lparr>rv_dataConsumers := []\<rparr>"
    using assms by (simp add: rv_close_def s1_def stopped_tasks_def Let_def)
  show "rv_media (rv_close s) = tr_close (rv_media s)" "rv_requests (rv_close s) = rv_requests s"
    "rv_settled (rv_close s) = rv_settled s @ map (\<lambda>i. (i, Inl STOPPED)) (stopped_tasks s)" "rv_dataConsumers (rv_close s) = []"
    using close_data_consumers_same [of s1] by (simp_all add: eq s1_def same_tasks_def)
  show "flags (rv_close s) = map (\<lambda>(j, i, k, b). (i, k, b \<or> j \<in> set (jm_values (rv_dataConsumers s)))) (enumerate 0 (flags s))"
    using close_data_consumers_flags [of "jm_values (rv_dataConsumers s1)" s1] by (simp add: eq s1_def flags_def)
qed

lemma close_tasks_ok:
  assumes t: "tasks_ok s" and open_t: "\<not> tr_closed (rv_media s)"
  shows "tasks_ok (rv_close s)"
proof -
  note ok = tasks_ok_queue [OF t]
  note cl = close_ids [OF ok open_t] and same = close_parts [OF open_t]
  have gone: "set (stopped_tasks s) = queue_ids (rv_media s) \<inter> request_ids s"
    by (auto simp: stopped_tasks_def queue_ids_def request_ids_def)
  have dg: "distinct (stopped_tasks s)" unfolding stopped_tasks_def by (rule distinct_filter [OF aq.conts_distinct [OF ok]])
  have ids: "request_ids (rv_close s) = request_ids s" "settled_ids (rv_close s) = settled_ids s \<union> set (stopped_tasks s)"
    by (auto simp: same request_ids_def settled_ids_def image_Un image_image)
  have "distinct (map fst (rv_settled (rv_close s)))"
    using t dg gone by (auto simp: same tasks_ok_def settled_ids_def comp_def)
  moreover have "settled_ids (rv_close s) \<union> (queue_ids (rv_media (rv_close s)) \<inter> request_ids (rv_close s)) = request_ids (rv_close s)"
    using t unfolding tasks_ok_def ids same cl gone by blast
  moreover have "\<forall>i \<in> waiting_ids (rv_media (rv_close s)) \<inter> request_ids (rv_close s).
      i \<in> queue_ids (rv_media (rv_close s)) \<or> (i, Inl STOPPED) \<in> set (rv_settled (rv_close s))"
    using t gone unfolding tasks_ok_def by (auto simp: ids same cl)
  ultimately show ?thesis
    using t close_transport_inv [of "rv_media s"] unfolding tasks_ok_def by (simp add: ids same cl)
qed

text \<open>Setting flags keeps what is known of the data consumers.\<close>

lemma set_flags_objects:
  assumes o: "objects_ok s" and fl: "flags s' = map (\<lambda>(j, i, k, b). (i, k, b \<or> P j)) (enumerate 0 (flags s))"
    and obj: "\<And>i k. object_ok s i k \<Longrightarrow> object_ok s' i k"
    and settled: "\<And>i k. (i, Inr k) \<in> set (rv_settled s') \<Longrightarrow> (i, Inr k) \<in> set (rv_settled s)"
  shows "objects_ok s'"
proof -
  have len: "length (flags s') = length (flags s)" by (simp add: fl)
  have nth: "flags s' ! j = (i, k, b \<or> P j)" if "j < length (flags s)" "flags s ! j = (i, k, b)" for j i k b
    using that by (simp add: fl nth_enumerate_eq)
  have backward: "\<exists>b'. (i, k, b') \<in> set (flags s)" if mem: "(i, k, b) \<in> set (flags s')" for i k b
  proof -
    obtain j where j: "j < length (flags s)" "flags s' ! j = (i, k, b)" using mem len by (metis in_set_conv_nth)
    then obtain b0 where "flags s ! j = (i, k, b0)" using nth by (cases "flags s ! j") auto
    with j(1) show ?thesis by (metis nth_mem)
  qed
  have forth: "\<exists>b'. (i, k, b') \<in> set (flags s')" if mem: "(i, k, b) \<in> set (flags s)" for i k b
  proof -
    obtain j where "j < length (flags s)" "flags s ! j = (i, k, b)" using mem by (metis in_set_conv_nth)
    then show ?thesis using nth len by (metis nth_mem)
  qed
  have "map fst (flags s') = map fst (flags s)"
    unfolding fl by (rule nth_equalityI) (auto simp: nth_enumerate_eq split: prod.split)
  then have "distinct (map fst (flags s'))" using o by (simp add: objects_ok_def)
  moreover have "object_ok s' i k" if "(i, k, b) \<in> set (flags s')" for i k b
    using backward [OF that] objects_okD [OF o] obj by blast
  moreover have "\<exists>b. (i, k, b) \<in> set (flags s')" if "(i, Inr k) \<in> set (rv_settled s')" for i k
    using settled [OF that] o forth unfolding objects_ok_def by blast
  ultimately show ?thesis unfolding objects_ok_def by blast
qed

lemma close_map_ok:
  assumes m: "map_ok s" and open_t: "\<not> tr_closed (rv_media s)"
  shows "map_ok (rv_close s)"
proof -
  note same = close_parts [OF open_t]
  have all: "b" if mem: "n < length (flags (rv_close s))" "flags (rv_close s) ! n = (i, k, b)" for n i k b
  proof -
    have n: "n < length (flags s)" using mem(1) by (simp add: same)
    obtain b0 where b0: "flags s ! n = (i, k, b0)" "b = (b0 \<or> n \<in> set (jm_values (rv_dataConsumers s)))"
      using mem(2) n by (cases "flags s ! n") (auto simp: same nth_enumerate_eq)
    have "n \<in> set (jm_values (rv_dataConsumers s))" if "\<not> b0"
    proof -
      have "jm_get (rv_dataConsumers s) k = Some n" using m n b0(1) that unfolding map_ok_def by blast
      then show ?thesis by (force simp: jm_get_def jm_values_def dest: map_of_SomeD)
    qed
    with b0 show ?thesis by blast
  qed
  show ?thesis
  proof (rule map_okI)
    show "b \<or> (i, Inl STOPPED) \<in> set (rv_settled (rv_close s))" if "(i, k, b) \<in> set (flags (rv_close s))" for i k b
      using that all by (metis in_set_conv_nth)
  qed (use all in \<open>auto simp: same jm.get_empty\<close>)
qed

lemma data_close_inv:
  assumes inv: "data_inv s"
  shows "data_inv (rv_close s)"
proof (cases "tr_closed (rv_media s)")
  case True
  then show ?thesis using inv by (simp add: rv_close_def)
next
  case False
  have t: "tasks_ok s" and o: "objects_ok s" using inv by (simp_all add: data_inv_def)
  note same = close_parts [OF False]
  have "objects_ok (rv_close s)"
    by (rule set_flags_objects [OF o same(5)]) (auto simp: object_ok_def same close_ids [OF tasks_ok_queue [OF t] False])
  then show ?thesis
    using inv close_tasks_ok [OF t False] close_map_ok [OF _ False] by (simp add: data_inv_def distinct_requests_def same)
qed

section \<open>Every run\<close>

interpretation data_run: step_invariant rv_step data_inv
proof
  fix s e assume inv: "data_inv s"
  have t: "tasks_ok s" and w: "work_inv (rv_media s)" using inv by (simp_all add: data_inv_def tasks_ok_def)
  have media: "data_inv (media_step op s)"
    if "op \<noteq> CloseTransport" "\<And>n a. op = Back n a \<Longrightarrow> data_task s n = None" for op
  proof -
    have "fst (tr_running (rv_media s) ! n) \<notin> request_ids s" if "op = Back n a" "n < length (tr_running (rv_media s))" for n a
      using \<open>\<And>n a. op = Back n a \<Longrightarrow> data_task s n = None\<close> [OF that(1)] that(2)
      by (simp add: data_task_def Let_def request_ids_def map_of_eq_None_iff)
    then show ?thesis
      unfolding media_step_def by (intro media_inv [OF inv work.step_inv [OF w]] keeps_tasks_step [OF w \<open>op \<noteq> CloseTransport\<close>])
  qed
  show "data_inv (rv_step s e)"
  proof (cases e)
    case (Media op)
    show ?thesis using media [of op] data_close_inv [OF inv] inv by (cases op) (simp_all add: Media)
  next
    case (ConsumeData cid pid params label protocol appData)
    have "data_inv (fst (rv_consumeData cid pid params label protocol appData s))"
      by (rule consumeData_cases) (rule inv, rule accept_inv [OF inv])
    then show ?thesis by (simp add: ConsumeData)
  next
    case (DataBack n a)
    show ?thesis
    proof (cases "data_task s n")
      case None
      then show ?thesis using inv by (simp add: DataBack)
    next
      case (Some x)
      then show ?thesis using data_back_inv [OF inv, of n "fst x" "snd x" a] by (simp add: DataBack)
    qed
  qed (use data_op_inv [OF inv] consumer_ops in simp_all)
qed

lemma new_RecvTransport_inv: "data_inv (new_RecvTransport extended listeners maxMessageSize)"
  using new_Transport_work [of RecvDir extended listeners]
  by (simp add: data_inv_def tasks_ok_def objects_ok_def map_ok_def new_RecvTransport_def flags_def request_ids_def settled_ids_def
      waiting_ids_def new_Transport_def jm.get_empty)

text \<open>A request for data consumers, and a run in which one of two is closed before the other is answered.\<close>

definition data_run_example :: "rv_op list" where
  "data_run_example =
     [ConsumeData (VStr ''a'') (VStr ''p'') (VObj [(''streamId'', VNum (Fin 1))]) [] [] VUndef,
      ConsumeData (VStr ''b'') (VStr ''p'') (VObj [(''streamId'', VNum (Fin 2))]) [] [] VUndef,
      DataBack 0 (Inr ()), CloseDataConsumer 0, Media CloseTransport, DataBack 0 (Inr ())]"

definition data_example :: "nat \<Rightarrow> recv_transport" where
  "data_example n = foldl rv_step (new_RecvTransport opus_extended 1 (Some (Fin 262144))) (take n data_run_example)"

text \<open>C7: Over every interleaving of the calls, the answers of the handler, the events of channels and everything that happens to the media side:
  the promise of each \<open>consumeData\<close> is settled at most once, and all of them are when no task waits; one that was settled with
  a data consumer has it. When no two requests name the same identifier, the map of the transport holds the data consumers
  that are open and no other, and one that is open after the transport was closed is one whose \<open>consumeData\<close> had been rejected.\<close>

theorem data_consumers_accounted:
  assumes "s = foldl rv_step (new_RecvTransport extended listeners maxMessageSize) ops"
  shows "distinct (map fst (rv_settled s)) \<and> fst ` set (rv_settled s) \<subseteq> fst ` set (rv_requests s) \<and>
    (tr_running (rv_media s) = [] \<longrightarrow> fst ` set (rv_settled s) = fst ` set (rv_requests s)) \<and>
    (\<forall>i k. (i, Inr k) \<in> set (rv_settled s) \<longrightarrow> (\<exists>c ch. (i, c, ch) \<in> set (rv_objects s) \<and> dcs_id c = k)) \<and>
    (distinct (map (dr_id \<circ> snd) (rv_requests s)) \<longrightarrow>
      (\<forall>n i c ch. n < length (rv_objects s) \<longrightarrow> rv_objects s ! n = (i, c, ch) \<longrightarrow>
        (\<not> dcs_closed c) = (jm_get (rv_dataConsumers s) (dcs_id c) = Some n) \<and>
        (tr_closed (rv_media s) \<and> \<not> dcs_closed c \<longrightarrow> (i, Inl STOPPED) \<in> set (rv_settled s))))"
proof (intro conjI allI impI)
  have inv: "data_inv s" unfolding assms by (rule data_run.run_inv [OF new_RecvTransport_inv])
  have t: "tasks_ok s" and o: "objects_ok s" using inv by (simp_all add: data_inv_def)
  show "distinct (map fst (rv_settled s))" using t by (simp add: tasks_ok_def)
  have all: "settled_ids s \<union> (queue_ids (rv_media s) \<inter> request_ids s) = request_ids s" using t by (simp add: tasks_ok_def)
  then show "fst ` set (rv_settled s) \<subseteq> fst ` set (rv_requests s)" unfolding settled_ids_def request_ids_def by blast
  show "fst ` set (rv_settled s) = fst ` set (rv_requests s)" if "tr_running (rv_media s) = []"
  proof -
    have "running (tr_awaitQueue (rv_media s)) = {}" using t that by (simp add: tasks_ok_def work_inv_def queue_waits_def)
    then have "queue_ids (rv_media s) = {}" by (auto simp: running_def queue_ids_def split: list.splits)
    with all show ?thesis by (simp add: settled_ids_def request_ids_def)
  qed
  show "\<exists>c ch. (i, c, ch) \<in> set (rv_objects s) \<and> dcs_id c = k" if mem: "(i, Inr k) \<in> set (rv_settled s)" for i k
  proof -
    obtain b where "(i, k, b) \<in> set (flags s)" using o mem unfolding objects_ok_def by blast
    then show ?thesis by (auto simp: flags_def)
  qed
  fix n i c ch
  assume d: "distinct (map (dr_id \<circ> snd) (rv_requests s))" and n: "n < length (rv_objects s)" "rv_objects s ! n = (i, c, ch)"
  have m: "map_ok s" using inv d by (simp add: data_inv_def distinct_requests_def)
  have f: "n < length (flags s)" "flags s ! n = (i, dcs_id c, dcs_closed c)" using n by (simp_all add: flags_def)
  then show "(\<not> dcs_closed c) = (jm_get (rv_dataConsumers s) (dcs_id c) = Some n)" using m unfolding map_ok_def by blast
  show "(i, Inl STOPPED) \<in> set (rv_settled s)" if "tr_closed (rv_media s) \<and> \<not> dcs_closed c"
  proof -
    have "(i, dcs_id c, dcs_closed c) \<in> set (flags s)" using f nth_mem by metis
    with m that show ?thesis unfolding map_ok_def by fast
  qed
qed

theorem data_consumers_accounted_witness:
  "jm_get (rv_dataConsumers (data_example 3)) ''a'' = Some 0 \<and> (1, Inl STOPPED) \<in> set (rv_settled (data_example 6))"
proof -
  have o3: "length (rv_objects (data_example 3)) = 1 \<and> distinct (map (dr_id \<circ> snd) (rv_requests (data_example 3))) \<and>
      dcs_id (fst (snd (rv_objects (data_example 3) ! 0))) = ''a'' \<and> \<not> dcs_closed (fst (snd (rv_objects (data_example 3) ! 0)))"
    by code_simp
  have o6: "length (rv_objects (data_example 6)) = 2 \<and> distinct (map (dr_id \<circ> snd) (rv_requests (data_example 6))) \<and>
      fst (rv_objects (data_example 6) ! 1) = 1 \<and> \<not> dcs_closed (fst (snd (rv_objects (data_example 6) ! 1))) \<and>
      tr_closed (rv_media (data_example 6))"
    by code_simp
  obtain i c ch where x: "rv_objects (data_example 3) ! 0 = (i, c, ch)" by (cases "rv_objects (data_example 3) ! 0")
  obtain i' c' ch' where y: "rv_objects (data_example 6) ! 1 = (i', c', ch')" by (cases "rv_objects (data_example 6) ! 1")
  note acc3 = data_consumers_accounted [OF data_example_def [of 3]] and acc6 = data_consumers_accounted [OF data_example_def [of 6]]
  have "(\<not> dcs_closed c) = (jm_get (rv_dataConsumers (data_example 3)) (dcs_id c) = Some 0)"
    using acc3 o3 x by (metis less_one)
  moreover have "(i', Inl STOPPED) \<in> set (rv_settled (data_example 6))"
    using acc6 o6 y by (metis fst_conv one_less_numeral_iff semiring_norm(76) snd_conv)
  moreover have "dcs_id c = ''a''" "\<not> dcs_closed c" "i' = 1" using o3 o6 x y by simp_all
  ultimately show ?thesis by metis
qed

text \<open>The task of \<open>consumeData\<close> goes on after \<open>close\<close> without looking at the closed flag: the transport that was closed while it
  waited has a data consumer that is open, in its map, and whose channel nothing closes any more.\<close>

lemma data_consumer_after_close:
  "tr_closed (rv_media (data_example 6)) \<and> jm_get (rv_dataConsumers (data_example 6)) ''b'' = Some 1 \<and>
   \<not> dcs_closed (fst (snd (rv_objects (data_example 6) ! 1))) \<and> rv_close (data_example 6) = data_example 6"
proof -
  have "tr_closed (rv_media (data_example 6))" "jm_get (rv_dataConsumers (data_example 6)) ''b'' = Some 1"
    "\<not> dcs_closed (fst (snd (rv_objects (data_example 6) ! 1)))" by code_simp+
  then show ?thesis by (simp add: rv_close_def)
qed

end
