(* ===== verification/Spec2Isabelle.thy ===== *)
theory Spec2Isabelle
  imports ControllerProps Session DownlinkReporting Device Firefox PlanB DataTransport TraceBuf
begin

text \<open>
  \<^bold>\<open>What this is.\<close> A model of the client library of mediasoup-cpp (\<open>src/src/client/lib\<close>): a media client
  over WebRTC with a quality-of-service layer of its own. A \<open>Producer\<close> sends a track; for each one a
  \<open>PublisherQosController\<close> samples statistics, classifies them, plans a degradation or recovery step
  and applies it to the producer, under policies and overrides of a server; a peer session
  coordinates the controllers of one peer; a downlink reporter tells the server what is received and
  how it is shown. \<open>ortc.js\<close> validates what crosses the signalling and negotiates codecs. A \<open>Transport\<close> creates
  producers, consumers and data channels, one task at a time through a queue, and asks its browser handler to do the
  work; the handler keeps a peer connection and a remote session description (\<open>RemoteSdp\<close>, made of
  \<open>MediaSection\<close>s) in step.

  \<^bold>\<open>How it is modelled.\<close> Numbers are IEEE binary64 values, every arithmetic result rounded to nearest
  even, with the infinities and NaN (\<open>JsNumber\<close>); untyped values are the datatype \<open>jsval\<close> (\<open>JsValue\<close>); a \<open>Map\<close> is an association list in insertion
  order (\<open>Prelude\<close>); an exception is the left side of a sum, or a \<open>thrown option\<close> beside the state an
  operation has already changed. State is passed along. An \<open>async\<close> function that other code can
  overtake is split at its \<open>await\<close> (\<open>replaceTrack\<close>, the reporter's tick, the sampler's tick, the tasks of a
  transport), and the pieces are steps of a relation or events of a run; elsewhere the calls run to completion in
  order. The methods of a handler run one at a time, as the queue makes them: they are computations that
  may throw after they have changed the state (\<open>HandlerIO\<close>), and the properties are shown of what they leave whether
  they return or throw.
  The world outside (the transport behind a producer's events, the signalling send function, the
  wall clock, the host's timers, the peer connection with its transceivers, the text form of session descriptions,
  the user agent parser) is a parameter, as a record of functions over a state of its own, and nothing is assumed about it
  except where a theorem says so.

  \<^bold>\<open>Theories, in the order of the imports.\<close>
  \<^item> \<open>Prelude\<close>, \<open>JsNumber\<close>, \<open>JsValue\<close>: errors and results, ordered maps (locale \<open>ordered_map\<close>), codecs of
    untyped values (locale \<open>codec\<close>), invariants of step functions (locales \<open>guarded_invariant\<close>,
    \<open>step_invariant\<close>, and \<open>fitting_invariant\<close> for events that must fit the state they meet), numbers and values.
  \<^item> \<open>QosTypes\<close> (\<open>qos/constants.js\<close>, the types), \<open>Signals\<close> (\<open>qos/signals.js\<close>), \<open>Profiles\<close>
    (\<open>qos/profiles.js\<close>), \<open>StateMachine\<close> (\<open>qos/stateMachine.js\<close>), \<open>Planner\<close> (\<open>qos/planner.js\<close>), \<open>Probe\<close>
    (\<open>qos/probe.js\<close>): the decision functions. Signals are finite and in range; a state changes only on
    the evidence the counters hold, lasting congestion is detected and lasting health recovers;
    a planned level moves one step inside the profile and its clamp; a probe ends with a verdict.
  \<^item> \<open>Executor\<close> (\<open>qos/executor.js\<close>), \<open>TraceBuf\<close> (\<open>qos/trace.js\<close>), \<open>Clock\<close> (\<open>qos/clock.js\<close>), \<open>Sampler\<close>
    (\<open>qos/sampler.js\<close>), \<open>Protocol\<close> (\<open>qos/protocol.js\<close>), \<open>Coordinator\<close> (\<open>qos/coordinator.js\<close>): repeated
    actions are skipped and failures reported; the trace keeps the latest entries; \<open>advanceBy\<close> ends and
    fires exactly the due timers; a sampler owns at most one timer; parsing undoes serialising; the
    coordinator is a map of the latest state of each track, and its decision follows from it.
  \<^item> \<open>Overrides\<close>, \<open>Controller\<close>, \<open>ControllerProps\<close> (\<open>qos/controller.js\<close>): override bookkeeping, the sample
    pipeline, probes with rollback, publishing. Runs of arbitrary messages and of samples as a browser reports them keep the level in
    its profile and publish only snapshots the parser accepts; one step per sample; a failed probe
    returns to the level it left; a running probe freezes the level.
  \<^item> \<open>Producer\<close> (\<open>Producer.js\<close>), \<open>ProducerAdapter\<close> (\<open>qos/adapters/producerAdapter.js\<close> and the action sink of
    \<open>qos/factory.js\<close>), \<open>SignalChannel\<close> (\<open>qos/adapters/signalChannel.js\<close>), \<open>StatsProvider\<close>
    (\<open>qos/adapters/statsProvider.js\<close>): a producer announces its end once and keeps its track in line with
    its pause flag over every interleaving; what each action does to it; which listeners hear a
    message; a remote report counts once, a transport's round trip once per candidate pair.
  \<^item> \<open>ModeTracking\<close> (locale \<open>mode_env\<close>), \<open>Session\<close> (\<open>qos/factory.js\<close>): the whole bundle of one producer and the
    session of a peer. While nobody else pauses or resumes it, a camera producer is paused exactly when
    its controller is in audio-only mode.
  \<^item> \<open>DownlinkSampling\<close> (\<open>qos/downlinkHints.js\<close>, \<open>qos/downlinkSampler.js\<close>), \<open>DownlinkReporting\<close>
    (\<open>qos/downlinkProtocol.js\<close>, \<open>qos/downlinkReporter.js\<close>): no two consumers share a report, loss is a
    percentage, every report sent is one the parser accepts and covers every consumer known.
  \<^item> \<open>OrtcValidate\<close> (locale \<open>normaliser\<close>), \<open>Ortc\<close> (\<open>ortc.js\<close>): the answers of the validators are exactly the
    normalised values and validating again changes nothing; extended codecs come from matching codecs of
    both sides in the order of the remote one; RTX stays with the codec it repairs.
  \<^item> \<open>AwaitQueue\<close> (the \<open>awaitqueue\<close> library as the bundle holds it, locale \<open>serial_queue\<close>), \<open>Consumer\<close> (\<open>Consumer.js\<close>),
    \<open>DataChannels\<close> (\<open>DataProducer.js\<close>, \<open>DataConsumer.js\<close>), \<open>Transport\<close>, \<open>SendTransport\<close> and \<open>DataTransport\<close> (\<open>Transport.js\<close>: the
    receiving side, the sending side, and \<open>consumeData\<close> on top of the receiving side): tasks run one after the other; over every
    interleaving, with local ids that the handler does not give twice at a time, a consumer that is settled is in the state the handler was last told, every sender of a handler belongs to a
    producer or to a task that will stop it, and the map of data consumers holds those that are open.
  \<^item> \<open>MediaSection\<close> (\<open>handlers/sdp/MediaSection.js\<close> and two parsers of \<open>sdp-transform\<close>), \<open>RemoteSdp\<close>
    (\<open>handlers/sdp/RemoteSdp.js\<close>), \<open>SdpUtils\<close> (\<open>handlers/sdp/commonUtils.js\<close>, \<open>unifiedPlanUtils.js\<close>, \<open>planBUtils.js\<close>,
    \<open>plainRtpUtils.js\<close>, \<open>handlers/ortc/utils.js\<close>, \<open>scalabilityModes.js\<close>): what a section writes is what is read from it
    (codecs, parameters, streams); open \<open>m=\<close> lines never move; the index and the BUNDLE group agree with the sections;
    the encodings of a section partition its streams. \<open>sdp_step\<close> performs every call; \<open>sdp_fits\<close> says which calls keep the
    index consistent, namely those that add a section with a mid of its own.
  \<^item> \<open>H264\<close> (the \<open>h264-profile-level-id\<close> library as the bundle holds it): profiles and levels are written and read back, each
    pair of bytes belongs to one profile at most, and the codecs that match are those of one profile; the negotiation of \<open>Ortc\<close> takes
    any such library, \<open>H264_LIB\<close> is this one.
  \<^item> \<open>DeviceDetect\<close>, \<open>Device\<close> (\<open>Device.js\<close>): what is detected has a handler; over every order of calls and answers, overlapping
    loads included, no temporary handler is left open and a loaded device is complete; valid capabilities always load; the receiving
    capabilities that are validated are those the negotiation derives.
  \<^item> \<open>HandlerIO\<close>, \<open>Chrome111\<close>, \<open>HandlerInv\<close> (locale \<open>sdp_handler\<close>), \<open>Chrome111Props\<close> (\<open>handlers/Chrome111.js\<close>): for every run of calls and
    every behaviour of the peer connection, failures included, in which new sections have mids of their own and the section of the
    data channels is made once (\<open>call_fits\<close>), the description stays consistent, its versions are counted up without a
    gap, the transport is connected once, with the complementary role and before any local description,
    and data channels get their stream identifiers in turn.
  \<^item> \<open>UnifiedPlan\<close> (\<open>handlers/Chrome74.js\<close>, \<open>ReactNativeUnifiedPlan.js\<close>, \<open>Safari12.js\<close>), \<open>Firefox\<close> (\<open>handlers/Firefox120.js\<close>,
    \<open>Firefox60.js\<close>): the same contract for the other handlers, each an interpretation of \<open>sdp_handler\<close>, and what is their own: the
    encodings of legacy simulcast, the scalability modes, and the reversed layers of the older Firefox.
  \<^item> \<open>Chrome70\<close> (\<open>handlers/Chrome70.js\<close>), \<open>PlanB\<close> (\<open>handlers/Chrome67.js\<close>, \<open>Safari11.js\<close>, \<open>Chrome55.js\<close>, \<open>ReactNative.js\<close>): the older
    handlers, of which those of Plan B keep all tracks of one kind in one section and know their senders by numbers of their own. They
    meet the same contract, again as interpretations of \<open>sdp_handler\<close>, and a number once given out is never given to another sender.

  \<^bold>\<open>Bounds and fuel.\<close> Recursion is structural except for the timers: \<open>runDueTimers\<close> repeats passes while a
  timer is due, and callbacks may add timers, so it takes fuel and \<open>None\<close> is running out of it. The
  theorem about it shows that more fuel than there are timers and rounds of due timers is
  enough for callbacks that add none, and what has then been fired.

  \<^bold>\<open>Not modelled.\<close> \<open>Edge11.js\<close> with \<open>edgeUtils.js\<close>, which drives the ORTC objects of a browser of its own, and \<open>FakeHandler.js\<close>, a
  stand-in for tests. The methods that only forward to the peer connection's statistics, logging,
  re-exports and the event emitter carry no logic. An \<open>onError\<close> callback of the executor
  is taken to return. \<open>src/public\<close> holds a user interface and a generated bundle; the
  server and the native client are C++. A method of \<open>RemoteSdp\<close> that throws leaves the model's description as it was;
  in the code, adding a consumer to a Plan-B section that has been disabled throws after it has added codec lines.
\<close>

end
